(* ===== verification/Motor_Prelude.thy ===== *)
theory Motor_Prelude
  imports Complex_Main "HOL-Library.AList"
begin

text \<open>
  Shared ground of the development.

  \<^item> Python dictionaries keep insertion order, and the code relies on it (round robin, the
    first match of a job name, the order in which pods are scanned). They are association lists
    with distinct keys: \<open>dset\<close> overwrites in place or appends at the end, exactly as a
    Python assignment does, \<open>ddel\<close> removes a key, \<open>dget\<close> looks one up.
  \<^item> Exceptions are values of \<open>py_exn\<close>; a fallible operation returns \<open>py_exn + 'a\<close>.
  \<^item> Python floats (timestamps, token loads, rates) are exact rationals of type \<open>rat\<close>;
    rounding is not modelled. Python integers are \<open>int\<close>.
  \<^item> The clock is an argument of the operations that read it.

  The locale \<open>ordered_dict\<close> is the contract of a dictionary that the components rely on; its
  interpretation on association lists gives the facts they use.
\<close>

section \<open>Exceptions\<close>

datatype py_exn =
    ValueError
  | KeyError
  | AttributeError string
  | ValidationError string
  | PortConflictError
  | OverflowError
  | ZeroDivisionError
  | StructError
  | TypeError
  | IndexError
  | HTTPException int

text \<open>Sequencing of fallible operations: the first exception ends the computation.\<close>

definition bind_result :: "'e + 'a \<Rightarrow> ('a \<Rightarrow> 'e + 'b) \<Rightarrow> 'e + 'b" where
  "bind_result x f = (case x of Inl e \<Rightarrow> Inl e | Inr v \<Rightarrow> f v)"

lemma bind_result_simps [simp]: "bind_result (Inl e) f = Inl e" "bind_result (Inr v) f = f v"
  by (simp_all add: bind_result_def)

lemma bind_result_Inr: "bind_result x f = Inr w \<longleftrightarrow> (\<exists>v. x = Inr v \<and> f v = Inr w)"
  by (cases x) simp_all

section \<open>Ordered dictionaries\<close>

type_synonym ('k, 'v) dict = "('k \<times> 'v) list"

abbreviation dget :: "('k, 'v) dict \<Rightarrow> 'k \<Rightarrow> 'v option" where
  "dget d k \<equiv> map_of d k"

abbreviation dset :: "'k \<Rightarrow> 'v \<Rightarrow> ('k, 'v) dict \<Rightarrow> ('k, 'v) dict" where
  "dset k v d \<equiv> AList.update k v d"

abbreviation ddel :: "'k \<Rightarrow> ('k, 'v) dict \<Rightarrow> ('k, 'v) dict" where
  "ddel k d \<equiv> AList.delete k d"

abbreviation dkeys :: "('k, 'v) dict \<Rightarrow> 'k list" where
  "dkeys d \<equiv> map fst d"

abbreviation dvalues :: "('k, 'v) dict \<Rightarrow> 'v list" where
  "dvalues d \<equiv> map snd d"

abbreviation dict_ok :: "('k, 'v) dict \<Rightarrow> bool" where
  "dict_ok d \<equiv> distinct (map fst d)"

text \<open>Membership test \<open>k in d\<close>.\<close>

definition dmem :: "'k \<Rightarrow> ('k, 'v) dict \<Rightarrow> bool" where
  "dmem k d \<longleftrightarrow> dget d k \<noteq> None"

text \<open>The merge \<open>{**a, **b}\<close>: the entries of \<open>b\<close> are assigned into a copy of \<open>a\<close>.\<close>

definition dmerge :: "('k, 'v) dict \<Rightarrow> ('k, 'v) dict \<Rightarrow> ('k, 'v) dict" where
  "dmerge a b = fold (\<lambda>(k, v) d. dset k v d) b a"

named_theorems dict_simps \<open>rewrite rules for look-ups after dictionary updates\<close>

lemma dget_dset [dict_simps, simp]:
  "dget (dset k v d) k' = (if k' = k then Some v else dget d k')"
  by (simp add: update_conv')

lemma dget_ddel [dict_simps, simp]:
  "dget (ddel k d) k' = (if k' = k then None else dget d k')"
  by (simp add: delete_conv')

lemma dmem_dset [dict_simps, simp]: "dmem k' (dset k v d) \<longleftrightarrow> k' = k \<or> dmem k' d"
  by (simp add: dmem_def)

lemma dmem_ddel [dict_simps, simp]: "dmem k' (ddel k d) \<longleftrightarrow> k' \<noteq> k \<and> dmem k' d"
  by (simp add: dmem_def)

lemma dmem_Nil [dict_simps, simp]: "\<not> dmem k []"
  by (simp add: dmem_def)

lemma dmem_iff_keys: "dmem k d \<longleftrightarrow> k \<in> set (dkeys d)"
  by (metis dmem_def map_of_eq_None_iff set_map)

lemma dmem_Some [intro, simp]: "dget d k = Some v \<Longrightarrow> dmem k d"
  by (simp add: dmem_def)

lemma dict_ok_dset [intro, simp]: "dict_ok d \<Longrightarrow> dict_ok (dset k v d)"
  by (rule distinct_update)

lemma dict_ok_ddel [intro, simp]: "dict_ok d \<Longrightarrow> dict_ok (ddel k d)"
  by (rule distinct_delete)

lemma dget_value_in: "dget d k = Some v \<Longrightarrow> v \<in> set (dvalues d)"
  by (force dest: map_of_SomeD)

lemma dvalue_has_key: "dict_ok d \<Longrightarrow> v \<in> set (dvalues d) \<Longrightarrow> \<exists>k. dget d k = Some v"
  by (force simp: map_of_eq_Some_iff)

lemma dset_fresh: "dget d k = None \<Longrightarrow> dset k v d = d @ [(k, v)]"
  by (induction d) (auto split: if_splits)

lemma dkeys_dset: "dkeys (dset k v d) = (if k \<in> set (dkeys d) then dkeys d else dkeys d @ [k])"
  by (simp add: update_keys)

lemma ddel_absent: "dget d k = None \<Longrightarrow> ddel k d = d"
  by (induction d) (auto simp: AList.delete_eq split: if_splits)

lemma dkeys_ddel: "dkeys (ddel k d) = removeAll k (dkeys d)"
  by (simp add: delete_keys)

lemma dget_dmerge: "dget (dmerge a b) k = (case dget (rev b) k of None \<Rightarrow> dget a k | Some v \<Rightarrow> Some v)"
  unfolding dmerge_def
  by (induction b arbitrary: a) (auto simp: map_of_append split: option.splits)

lemma dget_rev: "dict_ok d \<Longrightarrow> dget (rev d) k = dget d k"
proof -
  assume "dict_ok d"
  then have "map_of (rev d) = map_of d"
    by (metis map_of_eqI map_of_eq_Some_iff distinct_rev map_of_inject_set rev_map set_rev)
  then show ?thesis by simp
qed

lemma dict_ok_dmerge [simp]: "dict_ok a \<Longrightarrow> dict_ok (dmerge a b)"
  unfolding dmerge_def by (induction b arbitrary: a) auto

lemma dset_same [simp]: "dget d k = Some v \<Longrightarrow> dset k v d = d"
  by (induction d) (auto split: if_splits)

lemma dset_restore: "dget d k = Some v \<Longrightarrow> dset k v (dset k v' d) = d"
  by (induction d) (auto split: if_splits)

lemma set_dset: "(k, v) \<in> set (dset k' w d) \<Longrightarrow> (k = k' \<and> v = w) \<or> (k, v) \<in> set d"
  by (induction d) (auto split: if_splits)

lemma dget_map_values: "dget (map (\<lambda>(k, v). (k, f k v)) d) k = map_option (f k) (dget d k)"
  by (induction d) auto

lemma map_dset_same:
  "dget d k = Some old \<Longrightarrow> g v = g old \<Longrightarrow> map (\<lambda>(k, v). (k, g v)) (dset k v d) = map (\<lambda>(k, v). (k, g v)) d"
  by (induction d) (auto split: if_splits)

lemma sum_dset:
  fixes f :: "'v \<Rightarrow> rat"
  assumes "dget d k = Some old"
  shows "sum_list (map (\<lambda>(k, v). f v) (dset k v d)) = sum_list (map (\<lambda>(k, v). f v) d) - f old + f v"
  using assms by (induction d) (auto split: if_splits)

lemma sum_list_concat_map: "sum_list (concat xss) = sum_list (map sum_list xss)"
  for xss :: "rat list list"
  by (induction xss) simp_all

section \<open>The dictionary contract\<close>

text \<open>
  What the components rely on: reads after writes, deletion, the iteration order of the keys, and
  that every operation keeps the representation well formed.
\<close>

locale ordered_dict =
  fixes get :: "'d \<Rightarrow> 'k \<Rightarrow> 'v option"
    and put :: "'k \<Rightarrow> 'v \<Rightarrow> 'd \<Rightarrow> 'd"
    and del :: "'k \<Rightarrow> 'd \<Rightarrow> 'd"
    and keys :: "'d \<Rightarrow> 'k list"
    and invar :: "'d \<Rightarrow> bool"
  assumes get_put: "get (put k v d) k' = (if k' = k then Some v else get d k')"
    and get_del: "get (del k d) k' = (if k' = k then None else get d k')"
    and keys_get: "k \<in> List.set (keys d) \<longleftrightarrow> get d k \<noteq> None"
    and keys_put: "keys (put k v d) = (if k \<in> List.set (keys d) then keys d else keys d @ [k])"
    and keys_del: "keys (del k d) = removeAll k (keys d)"
    and invar_put: "invar d \<Longrightarrow> invar (put k v d)"
    and invar_del: "invar d \<Longrightarrow> invar (del k d)"
    and invar_keys: "invar d \<Longrightarrow> distinct (keys d)"
begin

text \<open>Moving an entry from one dictionary to another keeps two disjoint dictionaries disjoint.\<close>

lemma move_disjoint:
  assumes "\<forall>k. get a k = None \<or> get b k = None"
  shows "\<forall>k'. get (del k a) k' = None \<or> get (put k v b) k' = None"
  using assms by (auto simp: get_put get_del)

text \<open>Deleting a present key shortens the dictionary by one, assigning it does not grow it.\<close>

lemma length_del:
  assumes "invar d" and "get d k = Some v"
  shows "Suc (length (keys (del k d))) = length (keys d)"
proof -
  from assms(2) have "k \<in> List.set (keys d)" by (simp add: keys_get)
  with invar_keys [OF assms(1)] show ?thesis
    using length_pos_if_in_set [of k "keys d"]
    by (simp add: keys_del distinct_remove1_removeAll [symmetric] length_remove1)
qed

lemma length_put_present: "get d k = Some w \<Longrightarrow> length (keys (put k v d)) = length (keys d)"
  by (simp add: keys_put keys_get)

text \<open>A deleted entry that is assigned again goes to the end of the iteration order.\<close>

lemma reinsert_last: "keys (put k v (del k d)) = removeAll k (keys d) @ [k]"
  by (simp add: keys_put keys_del)

end

interpretation alist_dict: ordered_dict map_of AList.update AList.delete "map fst" "\<lambda>d. distinct (map fst d)"
  by unfold_locales
    (simp_all add: dkeys_dset dkeys_ddel map_of_eq_None_iff distinct_removeAll del: not_None_eq)

end
