(* ===== verification/Endpoint_Model.thy ===== *)
theory Endpoint_Model
  imports Motor_Prelude
begin

text \<open>
  The data of \<^verbatim>\<open>motor/common/resources/endpoint.py\<close>: the workload ledger of an endpoint, its
  status, its devices, and the endpoint itself with the operations of the class. A \<open>Workload\<close>
  has one field, the outstanding compute load in tokens.
\<close>

section \<open>Workload\<close>

record workload =
  active_tokens :: rat

definition zero_workload :: workload where
  "zero_workload = \<lparr>active_tokens = 0\<rparr>"

text \<open>\<open>Workload.__iadd__\<close>; the type of the argument is the type check of the code.\<close>

definition workload_iadd :: "workload \<Rightarrow> workload \<Rightarrow> workload" where
  "workload_iadd w other = w\<lparr>active_tokens := active_tokens w + active_tokens other\<rparr>"

definition calculate_workload_score :: "workload \<Rightarrow> string option \<Rightarrow> py_exn + rat" where
  "calculate_workload_score w role = (case role of None \<Rightarrow> Inl ValueError | Some _ \<Rightarrow> Inr (active_tokens w))"

datatype workload_action = ALLOCATION | RELEASE_TOKENS

section \<open>Endpoints\<close>

record device_info =
  device_ip :: "string option"
  device_id :: string
  rank_id :: string
  super_device_id :: "string option"

datatype endpoint_status = EP_INITIAL | EP_NORMAL | EP_ABNORMAL | EP_PAUSED | EP_WAIT2START

record endpoint =
  ep_id :: int
  ep_ip :: string
  business_port :: string
  mgmt_port :: string
  bootstrap_port :: "int option"
  ep_status :: endpoint_status
  device_infos :: "device_info list"
  hb_timestamp :: rat
  ep_workload :: workload
  headless :: bool

text \<open>
  \<open>Endpoint.__init__\<close>: absent optional arguments take their defaults, the heartbeat
  timestamp that of the clock, and the field constraint of the bootstrap port is checked.
\<close>

definition make_endpoint ::
  "rat \<Rightarrow> int \<Rightarrow> string \<Rightarrow> string \<Rightarrow> string \<Rightarrow> int option \<Rightarrow> endpoint_status option \<Rightarrow>
   device_info list option \<Rightarrow> rat option \<Rightarrow> workload option \<Rightarrow> bool \<Rightarrow> py_exn + endpoint" where
  "make_endpoint now i ip bport mport boot st devs hb w hl =
     (if (case boot of None \<Rightarrow> True | Some p \<Rightarrow> 1 \<le> p \<and> p \<le> 65535) then
        Inr \<lparr>ep_id = i, ep_ip = ip, business_port = bport, mgmt_port = mport, bootstrap_port = boot,
          ep_status = (case st of Some x \<Rightarrow> x | None \<Rightarrow> EP_INITIAL),
          device_infos = (case devs of Some x \<Rightarrow> x | None \<Rightarrow> []),
          hb_timestamp = (case hb of Some x \<Rightarrow> x | None \<Rightarrow> now),
          ep_workload = (case w of Some x \<Rightarrow> x | None \<Rightarrow> zero_workload),
          headless = hl\<rparr>
      else Inl (ValidationError ''bootstrap_port''))"

definition add_device :: "device_info \<Rightarrow> endpoint \<Rightarrow> endpoint" where
  "add_device dev e = (if dev \<in> set (device_infos e) then e else e\<lparr>device_infos := device_infos e @ [dev]\<rparr>)"

definition del_device :: "device_info \<Rightarrow> endpoint \<Rightarrow> endpoint" where
  "del_device dev e = (if dev \<in> set (device_infos e) then e\<lparr>device_infos := remove1 dev (device_infos e)\<rparr> else e)"

definition HEARTBEAT_TIMEOUT :: rat where
  "HEARTBEAT_TIMEOUT = 5"

definition is_alive :: "endpoint \<Rightarrow> rat \<Rightarrow> rat \<Rightarrow> bool" where
  "is_alive e timestamp heartbeat_timeout \<longleftrightarrow> timestamp - hb_timestamp e \<le> heartbeat_timeout"

section \<open>Lemmas\<close>

lemma active_tokens_zero [simp]: "active_tokens zero_workload = 0"
  by (simp add: zero_workload_def)

lemma active_tokens_iadd [simp]: "active_tokens (workload_iadd w v) = active_tokens w + active_tokens v"
  by (simp add: workload_iadd_def)

lemma workload_eqI: "active_tokens w = active_tokens v \<Longrightarrow> w = v"
  for w v :: workload
  by simp

lemma add_device_distinct: "distinct (device_infos e) \<Longrightarrow> distinct (device_infos (add_device dev e))"
  by (simp add: add_device_def)

lemma del_add_device: "dev \<notin> set (device_infos e) \<Longrightarrow> del_device dev (add_device dev e) = e"
  by (simp add: add_device_def del_device_def remove1_append)

text \<open>An endpoint that is alive stays alive when its heartbeat is refreshed to a later time.\<close>

lemma is_alive_mono:
  "is_alive e t timeout \<Longrightarrow> hb_timestamp e \<le> hb_timestamp e' \<Longrightarrow> is_alive e' t timeout"
  by (simp add: is_alive_def)

end
