(* ===== verification/Instance_Model.thy ===== *)
theory Instance_Model
  imports Endpoint_Model
begin

text \<open>
  \<^verbatim>\<open>motor/common/resources/instance.py\<close>: instances, their node managers and endpoints, readiness and
  liveness checks, heartbeats, the cached endpoint tuple and the read-only wrapper.

  The endpoints of an instance are Python objects that the scheduler mutates in place, and the
  cached tuple holds references to them. An endpoint object is therefore named by its location, the
  pod address and the key under which it is stored; the cached tuple is a list of locations, which
  \<open>endpoint_at\<close> dereferences.
\<close>

section \<open>Statuses, roles, events\<close>

datatype ins_status = INITIAL | INACTIVE | ACTIVE | PAUSED | DELETED

datatype pd_role = ROLE_E | ROLE_P | ROLE_D | ROLE_U

fun pd_role_value :: "pd_role \<Rightarrow> string" where
  "pd_role_value ROLE_E = ''encode''"
| "pd_role_value ROLE_P = ''prefill''"
| "pd_role_value ROLE_D = ''decode''"
| "pd_role_value ROLE_U = ''union''"

text \<open>\<open>PDRole(value)\<close> with the \<open>_missing_\<close> hook for the historical literal.\<close>

definition pd_role_of :: "string \<Rightarrow> py_exn + pd_role" where
  "pd_role_of v =
     (if v = ''encode'' then Inr ROLE_E
      else if v = ''prefill'' then Inr ROLE_P
      else if v = ''decode'' then Inr ROLE_D
      else if v = ''union'' then Inr ROLE_U
      else if v = ''both'' then Inr ROLE_U
      else Inl ValueError)"

datatype ins_condition_event =
    INSTANCE_INIT
  | INSTANCE_HEARTBEAT_TIMEOUT
  | INSTANCE_NORMAL
  | INSTANCE_ABNORMAL
  | INSTANCE_PAUSED
  | INSTANCE_RESUMED

section \<open>Alarms raised by the resources\<close>

datatype server_exception_reason = HEARTBEAT_TIMEOUT_REASON | ENDPOINT_ABNORMAL_REASON

datatype alarm =
    ServerExceptionEvent string "int list" server_exception_reason
  | InstanceExceptionAlarm string bool
  | CoordinatorExceptionAlarm bool

section \<open>Parallel configuration\<close>

record node_manager =
  nm_pod_ip :: string
  nm_port :: string
  device_num :: int

record parallel_config =
  dp_size :: int
  pcp_size :: int
  tp_size :: int
  ep_size :: int
  pp_size :: int
  world_size :: int
  local_world_size :: int

definition arg_or :: "'a \<Rightarrow> 'a option \<Rightarrow> 'a" where
  "arg_or d x = (case x of None \<Rightarrow> d | Some v \<Rightarrow> v)"

definition make_parallel_config ::
  "int option \<Rightarrow> int option \<Rightarrow> int option \<Rightarrow> int option \<Rightarrow> int option \<Rightarrow> int option \<Rightarrow> int option \<Rightarrow> bool \<Rightarrow> parallel_config" where
  "make_parallel_config dp pcp tp ep pp world local enable_ep =
     (let dp_val = arg_or 1 dp; pcp_val = arg_or 1 pcp; tp_val = arg_or 1 tp; pp_val = arg_or 1 pp;
          world_val = (if arg_or 0 world = 0 then dp_val * pcp_val * tp_val * pp_val else arg_or 0 world);
          local_val = (if arg_or 0 local = 0 then pcp_val * tp_val * pp_val else arg_or 0 local);
          ep_val = (if enable_ep then world_val else arg_or 1 ep)
      in \<lparr>dp_size = dp_val, pcp_size = pcp_val, tp_size = tp_val, ep_size = ep_val, pp_size = pp_val,
          world_size = world_val, local_world_size = local_val\<rparr>)"

section \<open>Instances\<close>

type_synonym ep_loc = "string \<times> int"

record instance_obj =
  job_name :: string
  model_name :: string
  engine_type :: "string option"
  dispatch_capabilities :: "string list"
  ins_id :: int
  ins_role :: string
  ins_status :: ins_status
  parallel_cfg :: "parallel_config option"
  enable_multi_endpoints :: bool
  node_managers :: "node_manager list"
  endpoints :: "(string, (int, endpoint) dict) dict"
  gathered_workload :: workload
  endpoints_version :: int
  cached_endpoints_tuple :: "ep_loc list option"
  cached_endpoints_version :: "int option"

subsection \<open>Node managers\<close>

definition add_node_mgr :: "string option \<Rightarrow> string option \<Rightarrow> int \<Rightarrow> instance_obj \<Rightarrow> instance_obj" where
  "add_node_mgr pod_ip port dev i =
     (case (pod_ip, port) of
        (Some ip, Some p) \<Rightarrow>
          (let info = \<lparr>nm_pod_ip = ip, nm_port = p, device_num = dev\<rparr>
           in if info \<in> set (node_managers i) then i
              else i\<lparr>node_managers := node_managers i @ [info]\<rparr>)
      | _ \<Rightarrow> i)"

fun pop_first :: "('a \<Rightarrow> bool) \<Rightarrow> 'a list \<Rightarrow> 'a list" where
  "pop_first P [] = []"
| "pop_first P (x # xs) = (if P x then xs else x # pop_first P xs)"

definition del_node_mgr :: "string option \<Rightarrow> string option \<Rightarrow> instance_obj \<Rightarrow> instance_obj" where
  "del_node_mgr pod_ip port i =
     (case (pod_ip, port) of
        (Some ip, Some p) \<Rightarrow>
          i\<lparr>node_managers := pop_first (\<lambda>nm. nm_pod_ip nm = ip \<and> nm_port nm = p) (node_managers i)\<rparr>
      | _ \<Rightarrow> i)"

definition has_node_mgr :: "string option \<Rightarrow> instance_obj \<Rightarrow> bool" where
  "has_node_mgr pod_ip i =
     (case pod_ip of None \<Rightarrow> False | Some ip \<Rightarrow> list_ex (\<lambda>nm. nm_pod_ip nm = ip) (node_managers i))"

subsection \<open>Iterating over endpoints\<close>

text \<open>
  The nested loop \<^verbatim>\<open>for pod_endpoints in self.endpoints.values(): for endpoint in ...\<close>
  as the list of locations with their endpoints, in iteration order.
\<close>

definition iter_endpoints :: "instance_obj \<Rightarrow> (ep_loc \<times> endpoint) list" where
  "iter_endpoints i = concat (map (\<lambda>(pod, eps). map (\<lambda>(k, e). ((pod, k), e)) eps) (endpoints i))"

definition endpoint_objs :: "instance_obj \<Rightarrow> endpoint list" where
  "endpoint_objs i = map snd (iter_endpoints i)"

definition endpoint_at :: "instance_obj \<Rightarrow> ep_loc \<Rightarrow> endpoint option" where
  "endpoint_at i loc = (case dget (endpoints i) (fst loc) of None \<Rightarrow> None | Some eps \<Rightarrow> dget eps (snd loc))"

text \<open>Assignment to attributes of every endpoint object, in place.\<close>

definition map_endpoints :: "(ep_loc \<Rightarrow> endpoint \<Rightarrow> endpoint) \<Rightarrow> instance_obj \<Rightarrow> instance_obj" where
  "map_endpoints f i =
     i\<lparr>endpoints := map (\<lambda>(pod, eps). (pod, map (\<lambda>(k, e). (k, f (pod, k) e)) eps)) (endpoints i)\<rparr>"

subsection \<open>Adding, deleting and counting endpoints\<close>

definition get_endpoints_num :: "instance_obj \<Rightarrow> nat" where
  "get_endpoints_num i = sum_list (map (\<lambda>(pod, eps). length eps) (endpoints i))"

definition get_expected_endpoint_count :: "instance_obj \<Rightarrow> int" where
  "get_expected_endpoint_count i =
     (case parallel_cfg i of
        None \<Rightarrow> 0
      | Some pc \<Rightarrow>
          if enable_multi_endpoints i then dp_size pc
          else (case node_managers i of
                  [] \<Rightarrow> 0
                | nm # _ \<Rightarrow> if device_num nm \<le> 0 then 0
                            else (world_size pc + device_num nm - 1) div device_num nm))"

definition add_endpoints :: "string \<Rightarrow> (int, endpoint) dict option \<Rightarrow> instance_obj \<Rightarrow> instance_obj" where
  "add_endpoints pod_ip eps i =
     (case eps of
        None \<Rightarrow> i
      | Some new \<Rightarrow> i\<lparr>endpoints := dset pod_ip new (endpoints i), endpoints_version := endpoints_version i + 1\<rparr>)"

definition del_endpoints :: "string \<Rightarrow> instance_obj \<Rightarrow> instance_obj" where
  "del_endpoints pod_ip i =
     (if dmem pod_ip (endpoints i)
      then i\<lparr>endpoints := ddel pod_ip (endpoints i), endpoints_version := endpoints_version i + 1\<rparr>
      else i)"

definition is_endpoints_enough :: "instance_obj \<Rightarrow> bool" where
  "is_endpoints_enough i =
     (case parallel_cfg i of
        None \<Rightarrow> False
      | Some pc \<Rightarrow>
          if enable_multi_endpoints i then int (get_endpoints_num i) = dp_size pc
          else (let expected = get_expected_endpoint_count i
                in if expected \<le> 0 then False else int (length (node_managers i)) = expected))"

definition get_node_managers_num :: "instance_obj \<Rightarrow> nat" where
  "get_node_managers_num i = length (node_managers i)"

definition update_instance_status :: "ins_status \<Rightarrow> instance_obj \<Rightarrow> instance_obj" where
  "update_instance_status st i = i\<lparr>ins_status := st\<rparr>"

definition is_ip_in_endpoints :: "string \<Rightarrow> instance_obj \<Rightarrow> bool" where
  "is_ip_in_endpoints ip i = dmem ip (endpoints i)"

definition get_endpoints :: "string \<Rightarrow> instance_obj \<Rightarrow> (int, endpoint) dict" where
  "get_endpoints ip i = (case dget (endpoints i) ip of None \<Rightarrow> [] | Some eps \<Rightarrow> eps)"

subsection \<open>Liveness and readiness\<close>

definition CLEAR_INSTANCE_TIMEOUT :: rat where
  "CLEAR_INSTANCE_TIMEOUT = 300"

definition DEFAULT_ACTIVE_HEARTBEAT_TIMEOUT :: rat where
  "DEFAULT_ACTIVE_HEARTBEAT_TIMEOUT = 10"

text \<open>The accumulation of endpoint ids under their address, \<open>d[ip].append(id)\<close>.\<close>

definition group_append :: "string \<Rightarrow> int \<Rightarrow> (string, int list) dict \<Rightarrow> (string, int list) dict" where
  "group_append ip n d = (case dget d ip of None \<Rightarrow> dset ip [n] d | Some ns \<Rightarrow> dset ip (ns @ [n]) d)"

definition group_endpoints :: "endpoint list \<Rightarrow> (string, int list) dict" where
  "group_endpoints es = fold (\<lambda>e d. group_append (ep_ip e) (ep_id e) d) es []"

definition heartbeat_limit :: "rat option \<Rightarrow> instance_obj \<Rightarrow> rat" where
  "heartbeat_limit active_timeout i =
     (if ins_status i = ACTIVE then arg_or DEFAULT_ACTIVE_HEARTBEAT_TIMEOUT active_timeout else CLEAR_INSTANCE_TIMEOUT)"

definition is_all_endpoints_alive :: "rat \<Rightarrow> rat option \<Rightarrow> instance_obj \<Rightarrow> bool \<times> alarm list" where
  "is_all_endpoints_alive now active_timeout i =
     (let timeout = heartbeat_limit active_timeout i;
          dead = group_endpoints (filter (\<lambda>e. \<not> is_alive e now timeout) (endpoint_objs i))
      in if dead \<noteq> [] then (False, map (\<lambda>(ip, ids). ServerExceptionEvent ip ids HEARTBEAT_TIMEOUT_REASON) dead)
         else (True, []))"

fun ready_loop :: "endpoint list \<Rightarrow> bool \<Rightarrow> bool" where
  "ready_loop [] has_routable_endpoint = has_routable_endpoint"
| "ready_loop (e # es) has_routable_endpoint =
     (if headless e then
        (if ep_status e \<notin> {EP_NORMAL, EP_WAIT2START} then False else ready_loop es has_routable_endpoint)
      else if ep_status e \<noteq> EP_NORMAL then False
      else ready_loop es True)"

definition is_all_endpoints_ready :: "instance_obj \<Rightarrow> bool" where
  "is_all_endpoints_ready i = ready_loop (endpoint_objs i) False"

definition is_have_one_endpoint_abnormal :: "instance_obj \<Rightarrow> bool \<times> alarm list" where
  "is_have_one_endpoint_abnormal i =
     (let abnormal = group_endpoints (filter (\<lambda>e. ep_status e = EP_ABNORMAL) (endpoint_objs i))
      in if abnormal \<noteq> [] then (True, map (\<lambda>(ip, ids). ServerExceptionEvent ip ids ENDPOINT_ABNORMAL_REASON) abnormal)
         else (False, []))"

definition is_all_endpoints_paused :: "instance_obj \<Rightarrow> bool" where
  "is_all_endpoints_paused i =
     (if endpoints i = [] then False else list_all (\<lambda>e. ep_status e = EP_PAUSED) (endpoint_objs i))"

definition is_any_endpoint_paused :: "instance_obj \<Rightarrow> bool" where
  "is_any_endpoint_paused i = list_ex (\<lambda>e. ep_status e = EP_PAUSED) (endpoint_objs i)"

subsection \<open>Heartbeats\<close>

text \<open>
  The loop over the endpoints of one pod. The timestamp of an endpoint is written before its status
  is looked up, and a missing status raises \<open>KeyError\<close> with the earlier endpoints updated.
\<close>

fun heartbeat_loop ::
  "rat \<Rightarrow> (int, endpoint_status) dict \<Rightarrow> (int, endpoint) dict \<Rightarrow> (int, endpoint) dict \<times> py_exn option" where
  "heartbeat_loop ts st [] = ([], None)"
| "heartbeat_loop ts st ((k, e) # es) =
     (case dget st (ep_id e) of
        None \<Rightarrow> ((k, e\<lparr>hb_timestamp := ts\<rparr>) # es, Some KeyError)
      | Some s \<Rightarrow>
          (case heartbeat_loop ts st es of
             (es', err) \<Rightarrow> ((k, e\<lparr>hb_timestamp := ts, ep_status := s\<rparr>) # es', err)))"

definition update_heartbeat ::
  "string \<Rightarrow> rat \<Rightarrow> (int, endpoint_status) dict \<Rightarrow> instance_obj \<Rightarrow> instance_obj \<times> (py_exn + bool)" where
  "update_heartbeat ip ts st i =
     (case dget (endpoints i) ip of
        None \<Rightarrow> (i, Inr False)
      | Some eps \<Rightarrow>
          if length eps \<noteq> length st then (i, Inr False)
          else (case heartbeat_loop ts st eps of
                  (eps', err) \<Rightarrow>
                    (i\<lparr>endpoints := dset ip eps' (endpoints i)\<rparr>,
                     case err of None \<Rightarrow> Inr True | Some x \<Rightarrow> Inl x)))"

subsection \<open>The cached endpoint tuple\<close>

definition invalidate_endpoints_cache :: "instance_obj \<Rightarrow> instance_obj" where
  "invalidate_endpoints_cache i = i\<lparr>endpoints_version := endpoints_version i + 1\<rparr>"

definition select_endpoints :: "bool \<Rightarrow> instance_obj \<Rightarrow> ep_loc list" where
  "select_endpoints include_headless i =
     map fst (filter (\<lambda>(loc, e). (include_headless \<or> \<not> headless e) \<and> (enable_multi_endpoints i \<or> ep_id e = 0))
       (iter_endpoints i))"

definition get_all_endpoints :: "bool \<Rightarrow> instance_obj \<Rightarrow> ep_loc list \<times> instance_obj" where
  "get_all_endpoints include_headless i =
     (if \<not> include_headless \<and> cached_endpoints_tuple i \<noteq> None \<and>
         cached_endpoints_version i = Some (endpoints_version i)
      then (the (cached_endpoints_tuple i), i)
      else let eps = select_endpoints include_headless i
           in (eps, if include_headless then i
                    else i\<lparr>cached_endpoints_tuple := Some eps, cached_endpoints_version := Some (endpoints_version i)\<rparr>))"

text \<open>The endpoints themselves, as the schedulers read them.\<close>

definition routable_endpoints :: "instance_obj \<Rightarrow> endpoint list" where
  "routable_endpoints i = List.map_filter (endpoint_at i) (fst (get_all_endpoints False i))"

subsection \<open>The read-only wrapper\<close>

definition modification_methods :: "string list" where
  "modification_methods =
     [''add_node_mgr'', ''del_node_mgr'', ''add_endpoints'', ''del_endpoints'', ''update_heartbeat'',
      ''update_instance_status'']"

text \<open>\<open>ReadOnlyInstance.__getattr__\<close>: the name is refused or delegated to the wrapped object.\<close>

definition readonly_getattr :: "string \<Rightarrow> (string \<Rightarrow> 'a) \<Rightarrow> py_exn + 'a" where
  "readonly_getattr name attr =
     (if name \<in> set modification_methods then Inl (AttributeError name) else Inr (attr name))"

text \<open>
  \<open>ReadOnlyInstance.to_instance\<close> (and \<open>__deepcopy__\<close>): a new object with the same data;
  the version counter and the cache start afresh.
\<close>

definition to_instance :: "instance_obj \<Rightarrow> instance_obj" where
  "to_instance i =
     \<lparr>job_name = job_name i, model_name = model_name i, engine_type = engine_type i,
      dispatch_capabilities = dispatch_capabilities i, ins_id = ins_id i, ins_role = ins_role i,
      ins_status = ins_status i, parallel_cfg = parallel_cfg i,
      enable_multi_endpoints = enable_multi_endpoints i, node_managers = node_managers i,
      endpoints = endpoints i, gathered_workload = gathered_workload i, endpoints_version = 0,
      cached_endpoints_tuple = None, cached_endpoints_version = None\<rparr>"

section \<open>Locations and endpoints\<close>

text \<open>The representation invariant of the nested dictionary.\<close>

definition endpoints_ok :: "instance_obj \<Rightarrow> bool" where
  "endpoints_ok i \<longleftrightarrow> dict_ok (endpoints i) \<and> (\<forall>eps \<in> set (dvalues (endpoints i)). dict_ok eps)"

lemma iter_endpoints_mem:
  "(loc, e) \<in> set (iter_endpoints i) \<longleftrightarrow>
     (\<exists>eps. (fst loc, eps) \<in> set (endpoints i) \<and> (snd loc, e) \<in> set eps)"
  by (cases loc) (force simp: iter_endpoints_def)

lemma endpoint_at_iter:
  assumes "endpoints_ok i"
  shows "endpoint_at i loc = Some e \<longleftrightarrow> (loc, e) \<in> set (iter_endpoints i)"
proof (cases "dget (endpoints i) (fst loc)")
  case None
  then have "(fst loc, eps) \<notin> set (endpoints i)" for eps
    by (auto simp: map_of_eq_None_iff image_iff)
  with None show ?thesis by (simp add: endpoint_at_def iter_endpoints_mem)
next
  case (Some eps)
  with assms have "(fst loc, eps') \<in> set (endpoints i) \<longleftrightarrow> eps' = eps" for eps'
    using map_of_eq_Some_iff [of "endpoints i" "fst loc" eps']
    by (auto simp: endpoints_ok_def)
  moreover have "dict_ok eps"
    using assms dget_value_in [OF Some] by (auto simp: endpoints_ok_def)
  ultimately show ?thesis
    using Some by (simp add: endpoint_at_def iter_endpoints_mem map_of_eq_Some_iff)
qed

lemma endpoint_at_objs: "endpoint_at i loc = Some e \<Longrightarrow> e \<in> set (endpoint_objs i)"
  by (cases loc)
    (force simp: endpoint_at_def endpoint_objs_def iter_endpoints_def split: option.splits dest: map_of_SomeD)

lemma iter_endpoints_Nil [simp]: "endpoints i = [] \<Longrightarrow> iter_endpoints i = []"
  by (simp add: iter_endpoints_def)

lemma iter_map_endpoints:
  "iter_endpoints (map_endpoints f i) = map (\<lambda>(loc, e). (loc, f loc e)) (iter_endpoints i)"
  by (simp add: iter_endpoints_def map_endpoints_def map_concat comp_def case_prod_beta)

lemma get_endpoints_num_iter: "get_endpoints_num i = length (iter_endpoints i)"
  by (simp add: get_endpoints_num_def iter_endpoints_def length_concat comp_def case_prod_unfold)

lemma distinct_nested_locs:
  "dict_ok d \<Longrightarrow> \<forall>eps \<in> set (dvalues d). dict_ok eps \<Longrightarrow>
   distinct (map fst (concat (map (\<lambda>(pod, eps). map (\<lambda>(k, e). ((pod, k), e)) eps) d)))"
proof (induction d)
  case (Cons a d)
  have "distinct (map (\<lambda>x. (fst a, fst x)) (snd a))"
    using Cons.prems by (simp add: distinct_map inj_on_def)
  moreover have "distinct (map fst (concat (map (\<lambda>(pod, eps). map (\<lambda>(k, e). ((pod, k), e)) eps) d)))"
    using Cons by simp
  moreover have "fst a \<notin> fst ` set d"
    using Cons.prems by simp
  ultimately show ?case
    by (auto simp: case_prod_unfold comp_def image_iff)
qed simp

lemma distinct_iter_endpoints: "endpoints_ok i \<Longrightarrow> distinct (map fst (iter_endpoints i))"
  unfolding endpoints_ok_def iter_endpoints_def by (rule distinct_nested_locs) auto

section \<open>Readiness, liveness and grouping\<close>

lemma ready_loop_iff:
  "ready_loop es b \<longleftrightarrow>
     (b \<or> (\<exists>e \<in> set es. \<not> headless e)) \<and>
     (\<forall>e \<in> set es. if headless e then ep_status e \<in> {EP_NORMAL, EP_WAIT2START} else ep_status e = EP_NORMAL)"
  by (induction es b rule: ready_loop.induct) auto

lemma dget_group_append:
  "dget (group_append ip n d) ip' = (if ip' = ip then Some ((case dget d ip of None \<Rightarrow> [] | Some ns \<Rightarrow> ns) @ [n])
     else dget d ip')"
  by (simp add: group_append_def split: option.splits)

lemma dget_group_fold:
  "dget (fold (\<lambda>e d. group_append (ep_ip e) (ep_id e) d) es d) ip =
     (let new = map ep_id (filter (\<lambda>e. ep_ip e = ip) es)
      in if new = [] then dget d ip else Some ((case dget d ip of None \<Rightarrow> [] | Some ns \<Rightarrow> ns) @ new))"
  by (induction es arbitrary: d) (auto simp: dget_group_append Let_def split: option.splits)

lemma dget_group_endpoints:
  "dget (group_endpoints es) ip =
     (let new = map ep_id (filter (\<lambda>e. ep_ip e = ip) es) in if new = [] then None else Some new)"
  by (simp add: group_endpoints_def dget_group_fold Let_def)

lemma group_append_not_Nil [simp]: "group_append ip n d \<noteq> []"
  by (cases d) (auto simp: group_append_def split: option.splits)

lemma group_fold_Nil_iff: "fold (\<lambda>e d. group_append (ep_ip e) (ep_id e) d) es d = [] \<longleftrightarrow> es = [] \<and> d = []"
  by (induction es arbitrary: d) auto

lemma group_endpoints_Nil_iff [simp]: "group_endpoints es = [] \<longleftrightarrow> es = []"
  by (simp add: group_endpoints_def group_fold_Nil_iff)

lemma dict_ok_group_append: "dict_ok d \<Longrightarrow> dict_ok (group_append ip n d)"
  by (auto simp: group_append_def split: option.splits)

lemma dict_ok_group_endpoints: "dict_ok (group_endpoints es)"
proof -
  have "dict_ok d \<Longrightarrow> dict_ok (fold (\<lambda>e d. group_append (ep_ip e) (ep_id e) d) es d)" for d
    by (induction es arbitrary: d) (auto intro: dict_ok_group_append)
  then show ?thesis by (simp add: group_endpoints_def)
qed

lemma alive_iff:
  "fst (is_all_endpoints_alive now t i) \<longleftrightarrow> (\<forall>e \<in> set (endpoint_objs i). is_alive e now (heartbeat_limit t i))"
  by (auto simp: is_all_endpoints_alive_def Let_def filter_empty_conv)

lemma abnormal_iff:
  "fst (is_have_one_endpoint_abnormal i) \<longleftrightarrow> (\<exists>e \<in> set (endpoint_objs i). ep_status e = EP_ABNORMAL)"
  by (auto simp: is_have_one_endpoint_abnormal_def Let_def filter_empty_conv)

section \<open>Heartbeats\<close>

lemma heartbeat_loop_ok:
  "snd (heartbeat_loop ts st eps) = None \<longleftrightarrow> (\<forall>e \<in> set (dvalues eps). dmem (ep_id e) st)"
  by (induction eps) (auto simp: dmem_def split: option.splits prod.splits)

lemma heartbeat_loop_result:
  "\<forall>e \<in> set (dvalues eps). dmem (ep_id e) st \<Longrightarrow>
   fst (heartbeat_loop ts st eps) =
     map (\<lambda>(k, e). (k, e\<lparr>hb_timestamp := ts, ep_status := the (dget st (ep_id e))\<rparr>)) eps"
  by (induction eps) (auto simp: dmem_def split: option.splits prod.splits)

lemma heartbeat_loop_frame:
  "map (\<lambda>(k, e). (k, ep_id e, headless e, ep_workload e, ep_ip e)) (fst (heartbeat_loop ts st eps)) =
   map (\<lambda>(k, e). (k, ep_id e, headless e, ep_workload e, ep_ip e)) eps"
  by (induction eps) (auto split: option.splits prod.splits)

section \<open>Coherence of the cached endpoint tuple\<close>

text \<open>What the selection of endpoints depends on: locations, headless flags and endpoint ids.\<close>

definition ep_signature :: "instance_obj \<Rightarrow> (ep_loc \<times> bool \<times> int) list" where
  "ep_signature i = map (\<lambda>(loc, e). (loc, headless e, ep_id e)) (iter_endpoints i)"

lemma select_endpoints_signature:
  "select_endpoints b i =
     map fst (filter (\<lambda>(loc, hl, n). (b \<or> \<not> hl) \<and> (enable_multi_endpoints i \<or> n = 0)) (ep_signature i))"
  by (simp add: select_endpoints_def ep_signature_def filter_map comp_def case_prod_unfold)

lemma select_endpoints_cong:
  "ep_signature i = ep_signature j \<Longrightarrow> enable_multi_endpoints i = enable_multi_endpoints j \<Longrightarrow>
   select_endpoints b i = select_endpoints b j"
  by (simp add: select_endpoints_signature)

lemma dset_nested_map:
  assumes "dget d pod = Some eps" and "map g eps' = map g eps"
  shows "concat (map (\<lambda>(pod, eps). map (\<lambda>x. (pod, g x)) eps) (dset pod eps' d)) =
         concat (map (\<lambda>(pod, eps). map (\<lambda>x. (pod, g x)) eps) d)"
  using assms(1)
proof (induction d)
  case (Cons a d)
  have "map (\<lambda>x. (pod, g x)) eps' = map (\<lambda>x. (pod, g x)) eps"
    using arg_cong [OF assms(2), of "map (Pair pod)"] by (simp add: comp_def)
  with Cons show ?case by (auto simp: case_prod_unfold split: if_splits)
qed simp

lemma ep_signature_nested:
  "ep_signature i = map (\<lambda>(pod, k, hl, n). ((pod, k), hl, n))
     (concat (map (\<lambda>(pod, eps). map (\<lambda>x. (pod, (\<lambda>(k, e). (k, headless e, ep_id e)) x)) eps) (endpoints i)))"
  by (simp add: ep_signature_def iter_endpoints_def map_concat comp_def case_prod_unfold)

lemma ep_signature_heartbeat [simp]:
  "ep_signature (fst (update_heartbeat ip ts st i)) = ep_signature i"
proof (cases "dget (endpoints i) ip")
  case None
  then show ?thesis by (simp add: update_heartbeat_def)
next
  case (Some eps)
  have "map (\<lambda>(k, e). (k, headless e, ep_id e)) (fst (heartbeat_loop ts st eps)) =
        map (\<lambda>(k, e). (k, headless e, ep_id e)) eps"
    using arg_cong [OF heartbeat_loop_frame, of "map (\<lambda>(k, n, hl, w, p). (k, hl, n))" ts st eps]
    by (simp add: comp_def case_prod_unfold)
  with Some show ?thesis
    by (auto simp: update_heartbeat_def ep_signature_nested case_prod_unfold dset_nested_map [simplified case_prod_unfold])
qed

lemma ep_signature_map:
  "(\<And>loc e. headless (f loc e) = headless e) \<Longrightarrow> (\<And>loc e. ep_id (f loc e) = ep_id e) \<Longrightarrow>
   ep_signature (map_endpoints f i) = ep_signature i"
  by (simp add: ep_signature_def iter_map_endpoints case_prod_unfold)

definition cache_ok :: "instance_obj \<Rightarrow> bool" where
  "cache_ok i \<longleftrightarrow>
     (\<forall>v. cached_endpoints_version i = Some v \<longrightarrow> v \<le> endpoints_version i) \<and>
     (cached_endpoints_version i = Some (endpoints_version i) \<longrightarrow>
       cached_endpoints_tuple i \<in> {None, Some (select_endpoints False i)})"

text \<open>
  The operations of the class, plus the two ways its clients write to the endpoints: attributes that
  neither move an endpoint nor change its id or headless flag (statuses, timestamps, workloads), and
  a change of headless flags followed by \<open>invalidate_endpoints_cache\<close>.
\<close>

inductive instance_step :: "instance_obj \<Rightarrow> instance_obj \<Rightarrow> bool" where
  add_nm: "instance_step i (add_node_mgr pod_ip port dev i)"
| del_nm: "instance_step i (del_node_mgr pod_ip port i)"
| add_eps: "instance_step i (add_endpoints pod_ip eps i)"
| del_eps: "instance_step i (del_endpoints pod_ip i)"
| heartbeat: "instance_step i (fst (update_heartbeat ip ts st i))"
| status: "instance_step i (update_instance_status st i)"
| read_eps: "instance_step i (snd (get_all_endpoints include_headless i))"
| workload: "instance_step i (i\<lparr>gathered_workload := w\<rparr>)"
| write_attr: "(\<And>loc e. headless (f loc e) = headless e) \<Longrightarrow> (\<And>loc e. ep_id (f loc e) = ep_id e) \<Longrightarrow>
    instance_step i (map_endpoints f i)"
| set_headless: "instance_step i (invalidate_endpoints_cache (map_endpoints f i))"

inductive instance_reachable :: "instance_obj \<Rightarrow> bool" where
  fresh: "cached_endpoints_tuple i = None \<Longrightarrow> cached_endpoints_version i = None \<Longrightarrow> instance_reachable i"
| step: "instance_reachable i \<Longrightarrow> instance_step i j \<Longrightarrow> instance_reachable j"

lemma cache_ok_cong:
  assumes "cache_ok i" and "ep_signature j = ep_signature i"
    and "enable_multi_endpoints j = enable_multi_endpoints i" and "endpoints_version j = endpoints_version i"
    and "cached_endpoints_tuple j = cached_endpoints_tuple i"
    and "cached_endpoints_version j = cached_endpoints_version i"
  shows "cache_ok j"
  using assms select_endpoints_cong [OF assms(2,3)] by (simp add: cache_ok_def)

lemma cache_ok_bump:
  assumes "cache_ok i" and "endpoints_version j = endpoints_version i + 1"
    and "cached_endpoints_version j = cached_endpoints_version i"
  shows "cache_ok j"
  using assms by (force simp: cache_ok_def)

lemma cache_ok_get: "cache_ok i \<Longrightarrow> cache_ok (snd (get_all_endpoints b i))"
  by (auto simp: get_all_endpoints_def Let_def cache_ok_def select_endpoints_def iter_endpoints_def)

lemma cache_ok_step: "instance_step i j \<Longrightarrow> cache_ok i \<Longrightarrow> cache_ok j"
proof (induction rule: instance_step.induct)
  case (add_nm i pod_ip port dev)
  then show ?case
    by (elim cache_ok_cong) (auto simp: add_node_mgr_def Let_def ep_signature_def iter_endpoints_def split: option.splits)
next
  case (del_nm i pod_ip port)
  then show ?case
    by (elim cache_ok_cong) (auto simp: del_node_mgr_def ep_signature_def iter_endpoints_def split: option.splits)
next
  case (add_eps i pod_ip eps)
  then show ?case
    by (cases eps) (auto simp: add_endpoints_def elim: cache_ok_bump)
next
  case (del_eps i pod_ip)
  then show ?case by (auto simp: del_endpoints_def elim: cache_ok_bump)
next
  case (heartbeat i ip ts st)
  then show ?case
    by (intro cache_ok_cong [OF heartbeat ep_signature_heartbeat])
      (auto simp: update_heartbeat_def split: option.splits prod.splits)
next
  case (status i st)
  then show ?case
    by (elim cache_ok_cong) (simp_all add: update_instance_status_def ep_signature_def iter_endpoints_def)
next
  case (read_eps i b)
  then show ?case by (rule cache_ok_get)
next
  case (workload i w)
  then show ?case by (elim cache_ok_cong) (simp_all add: ep_signature_def iter_endpoints_def)
next
  case (write_attr f i)
  then show ?case
    by (intro cache_ok_cong [OF write_attr(3)] ep_signature_map) (simp_all add: map_endpoints_def)
next
  case (set_headless i f)
  then show ?case
    by (elim cache_ok_bump) (simp_all add: invalidate_endpoints_cache_def map_endpoints_def)
qed

lemma cache_ok_reachable: "instance_reachable i \<Longrightarrow> cache_ok i"
proof (induction rule: instance_reachable.induct)
  case (fresh i)
  then show ?case by (simp add: cache_ok_def)
next
  case (step i j)
  then show ?case by (blast intro: cache_ok_step)
qed

section \<open>A concrete instance\<close>

text \<open>A small decode instance with two pods, used where a statement is applied to a concrete input.\<close>

definition demo_endpoint :: "int \<Rightarrow> string \<Rightarrow> endpoint_status \<Rightarrow> bool \<Rightarrow> endpoint" where
  "demo_endpoint n ip st hl =
     \<lparr>ep_id = n, ep_ip = ip, business_port = ''1025'', mgmt_port = ''1026'', bootstrap_port = None,
      ep_status = st, device_infos = [], hb_timestamp = 0, ep_workload = zero_workload, headless = hl\<rparr>"

definition demo_instance :: "int \<Rightarrow> string \<Rightarrow> string \<Rightarrow> instance_obj" where
  "demo_instance n name role =
     \<lparr>job_name = name, model_name = ''m'', engine_type = Some ''vllm'', dispatch_capabilities = [],
      ins_id = n, ins_role = role, ins_status = INITIAL,
      parallel_cfg = Some (make_parallel_config (Some 2) None None None None None None False),
      enable_multi_endpoints = True, node_managers = [\<lparr>nm_pod_ip = ''a'', nm_port = ''1'', device_num = 8\<rparr>],
      endpoints = [(''a'', [(0, demo_endpoint 0 ''a'' EP_NORMAL False)]),
                   (''b'', [(1, demo_endpoint 1 ''b'' EP_WAIT2START True)])],
      gathered_workload = zero_workload, endpoints_version = 0, cached_endpoints_tuple = None,
      cached_endpoints_version = None\<rparr>"

lemmas demo_defs = demo_instance_def demo_endpoint_def

section \<open>Properties\<close>

text \<open>
  The cached endpoint tuple is never stale. In every state reachable through the operations of
  the class, \<open>get_all_endpoints\<close> returns exactly the endpoints that a fresh scan of the nested
  dictionary would return, with or without headless endpoints.
\<close>

theorem get_all_endpoints_coherent:
  "instance_reachable i \<Longrightarrow> fst (get_all_endpoints include_headless i) = select_endpoints include_headless i"
  using cache_ok_reachable [of i]
  by (auto simp: get_all_endpoints_def cache_ok_def Let_def)

theorem get_all_endpoints_coherent_witness:
  "fst (get_all_endpoints False (del_endpoints ''a'' (snd (get_all_endpoints False (demo_instance 7 ''j'' ''decode''))))) = []"
proof -
  let ?i = "demo_instance 7 ''j'' ''decode''"
  have "instance_reachable ?i" by (rule instance_reachable.fresh) (simp_all add: demo_defs)
  then have "instance_reachable (del_endpoints ''a'' (snd (get_all_endpoints False ?i)))"
    by (blast intro: instance_reachable.step instance_step.intros)
  moreover have "select_endpoints False (del_endpoints ''a'' (snd (get_all_endpoints False ?i))) = []"
    by (simp add: select_endpoints_def iter_endpoints_def get_all_endpoints_def del_endpoints_def demo_defs Let_def dmem_def)
  ultimately show ?thesis using get_all_endpoints_coherent by metis
qed

text \<open>
  An instance is ready exactly when it has at least one routable (non-headless) endpoint, every
  routable endpoint is NORMAL, and every headless worker is NORMAL or WAIT2START.
\<close>

theorem is_all_endpoints_ready_iff:
  "is_all_endpoints_ready i \<longleftrightarrow>
     (\<exists>e \<in> set (endpoint_objs i). \<not> headless e) \<and>
     (\<forall>e \<in> set (endpoint_objs i). \<not> headless e \<longrightarrow> ep_status e = EP_NORMAL) \<and>
     (\<forall>e \<in> set (endpoint_objs i). headless e \<longrightarrow> ep_status e = EP_NORMAL \<or> ep_status e = EP_WAIT2START)"
  unfolding is_all_endpoints_ready_def ready_loop_iff by auto

theorem is_all_endpoints_ready_witness: "is_all_endpoints_ready (demo_instance 7 ''j'' ''decode'')"
  unfolding is_all_endpoints_ready_iff
  by (simp add: endpoint_objs_def iter_endpoints_def demo_defs)

text \<open>
  A heartbeat of a pod succeeds exactly when the pod is known, the status report has one entry
  per endpoint and names every endpoint id; it then stamps and sets the status of each endpoint of
  that pod and nothing else. A report for an unknown pod or of the wrong size is rejected without
  any change; a report of the right size that misses an endpoint id raises KeyError.
\<close>

theorem update_heartbeat_spec:
  "update_heartbeat ip ts st i =
     (case dget (endpoints i) ip of
        None \<Rightarrow> (i, Inr False)
      | Some eps \<Rightarrow>
          if length eps \<noteq> length st then (i, Inr False)
          else if \<forall>e \<in> set (dvalues eps). dmem (ep_id e) st then
            (i\<lparr>endpoints := dset ip
                (map (\<lambda>(k, e). (k, e\<lparr>hb_timestamp := ts, ep_status := the (dget st (ep_id e))\<rparr>)) eps)
                (endpoints i)\<rparr>, Inr True)
          else (fst (update_heartbeat ip ts st i), Inl KeyError))"
proof (cases "dget (endpoints i) ip")
  case None
  then show ?thesis by (simp add: update_heartbeat_def)
next
  case (Some eps)
  have err: "snd (heartbeat_loop ts st eps) \<in> {None, Some KeyError}"
    by (induction eps) (auto split: option.splits prod.splits)
  show ?thesis
  proof (cases "\<forall>e \<in> set (dvalues eps). dmem (ep_id e) st")
    case True
    then show ?thesis
      using Some heartbeat_loop_ok [of ts st eps] heartbeat_loop_result [of eps st ts]
      by (simp add: update_heartbeat_def case_prod_unfold)
  next
    case False
    then have "snd (heartbeat_loop ts st eps) = Some KeyError"
      using heartbeat_loop_ok [of ts st eps] err by auto
    with False Some show ?thesis by (auto simp: update_heartbeat_def case_prod_unfold)
  qed
qed

theorem update_heartbeat_spec_witness:
  "snd (update_heartbeat ''a'' 5 [(0, EP_ABNORMAL)] (demo_instance 7 ''j'' ''decode'')) = Inr True \<and>
   snd (update_heartbeat ''a'' 5 [(3, EP_ABNORMAL)] (demo_instance 7 ''j'' ''decode'')) = Inl KeyError"
  by (subst (1 2) update_heartbeat_spec) (simp add: demo_defs dmem_def)

text \<open>
  The liveness check fails exactly when some endpoint has not been heard of within the limit of
  the instance's status (10 s or the given timeout when ACTIVE, 300 s otherwise), and it raises one
  alarm per address, carrying exactly the ids of the dead endpoints at that address.
\<close>

theorem is_all_endpoints_alive_alarms:
  "fst (is_all_endpoints_alive now t i) =
     (\<forall>e \<in> set (endpoint_objs i). now - hb_timestamp e \<le> heartbeat_limit t i) \<and>
   (ServerExceptionEvent ip ids r \<in> set (snd (is_all_endpoints_alive now t i)) \<longleftrightarrow>
     r = HEARTBEAT_TIMEOUT_REASON \<and> ids \<noteq> [] \<and>
     ids = map ep_id (filter (\<lambda>e. ep_ip e = ip)
       (filter (\<lambda>e. \<not> is_alive e now (heartbeat_limit t i)) (endpoint_objs i))))"
proof
  show "fst (is_all_endpoints_alive now t i) =
     (\<forall>e \<in> set (endpoint_objs i). now - hb_timestamp e \<le> heartbeat_limit t i)"
    by (simp add: alive_iff is_alive_def)
next
  let ?dead = "filter (\<lambda>e. \<not> is_alive e now (heartbeat_limit t i)) (endpoint_objs i)"
  have "ServerExceptionEvent ip ids r \<in> set (snd (is_all_endpoints_alive now t i)) \<longleftrightarrow>
     r = HEARTBEAT_TIMEOUT_REASON \<and> (ip, ids) \<in> set (group_endpoints ?dead)"
    by (cases "?dead = []") (auto simp: is_all_endpoints_alive_def Let_def group_endpoints_def)
  also have "\<dots> \<longleftrightarrow> r = HEARTBEAT_TIMEOUT_REASON \<and> dget (group_endpoints ?dead) ip = Some ids"
    by (simp add: map_of_eq_Some_iff dict_ok_group_endpoints)
  finally show "ServerExceptionEvent ip ids r \<in> set (snd (is_all_endpoints_alive now t i)) \<longleftrightarrow>
     r = HEARTBEAT_TIMEOUT_REASON \<and> ids \<noteq> [] \<and> ids = map ep_id (filter (\<lambda>e. ep_ip e = ip) ?dead)"
    by (auto simp: dget_group_endpoints Let_def)
qed

theorem is_all_endpoints_alive_alarms_witness:
  "ServerExceptionEvent ''a'' [0] HEARTBEAT_TIMEOUT_REASON \<in>
     set (snd (is_all_endpoints_alive 1000 None (demo_instance 7 ''j'' ''decode'')))"
  unfolding is_all_endpoints_alive_alarms [THEN conjunct2]
  by (simp add: endpoint_objs_def iter_endpoints_def is_alive_def heartbeat_limit_def
      CLEAR_INSTANCE_TIMEOUT_def demo_defs)

text \<open>
  Without multiple endpoints, the expected number of nodes is the ceiling of the world size over
  the devices of the first node manager: that many nodes hold the world, one fewer does not, and the
  instance is complete exactly when so many node managers are registered.
\<close>

theorem expected_nodes_ceiling:
  assumes "parallel_cfg i = Some pc" and "\<not> enable_multi_endpoints i"
    and "node_managers i = nm # nms" and "0 < device_num nm" and "0 < world_size pc"
  shows "world_size pc \<le> get_expected_endpoint_count i * device_num nm \<and>
    (get_expected_endpoint_count i - 1) * device_num nm < world_size pc \<and>
    (is_endpoints_enough i \<longleftrightarrow> int (length (node_managers i)) = get_expected_endpoint_count i)"
proof -
  let ?d = "device_num nm" and ?w = "world_size pc"
  have c: "get_expected_endpoint_count i = (?w + ?d - 1) div ?d"
    using assms by (simp add: get_expected_endpoint_count_def)
  have eq: "(?w + ?d - 1) div ?d * ?d + (?w + ?d - 1) mod ?d = ?w + ?d - 1"
    by (rule div_mult_mod_eq)
  have "0 \<le> (?w + ?d - 1) mod ?d" "(?w + ?d - 1) mod ?d < ?d"
    using assms(4) by simp_all
  with eq have "?w \<le> (?w + ?d - 1) div ?d * ?d" "(?w + ?d - 1) div ?d * ?d - ?d < ?w"
    by linarith+
  moreover have "0 < (?w + ?d - 1) div ?d"
    using assms(4,5) by (simp add: pos_imp_zdiv_pos_iff)
  ultimately show ?thesis
    using assms by (simp add: c is_endpoints_enough_def Let_def left_diff_distrib)
qed

theorem expected_nodes_ceiling_witness:
  "get_expected_endpoint_count
     ((demo_instance 7 ''j'' ''decode'')\<lparr>enable_multi_endpoints := False,
        parallel_cfg := Some (make_parallel_config (Some 2) None (Some 8) None None None None False)\<rparr>) = 2"
proof -
  let ?i = "(demo_instance 7 ''j'' ''decode'')\<lparr>enable_multi_endpoints := False,
    parallel_cfg := Some (make_parallel_config (Some 2) None (Some 8) None None None None False)\<rparr>"
  have "16 \<le> get_expected_endpoint_count ?i * 8 \<and> (get_expected_endpoint_count ?i - 1) * 8 < 16"
    using expected_nodes_ceiling [of ?i "make_parallel_config (Some 2) None (Some 8) None None None None False"
        "\<lparr>nm_pod_ip = ''a'', nm_port = ''1'', device_num = 8\<rparr>" "[]"]
    by (simp add: demo_defs make_parallel_config_def arg_or_def Let_def)
  then show ?thesis by presburger
qed

end
