(* ===== verification/Coordinator_Pools.thy ===== *)
theory Coordinator_Pools
  imports Instance_Model
begin

text \<open>
  The coordinator's \<open>InstanceManager\<close>
  (\<^verbatim>\<open>motor/coordinator/domain/instance_manager.py\<close>): the available, unavailable and paused pools,
  the per-role pools, the endpoint index and the workload ledger.

  The same instance object is reachable through the available pool, through its role pool and,
  endpoint by endpoint, through the endpoint index, and workload updates mutate it in place. The
  model therefore has an explicit object store: \<open>heap\<close> maps references to instance objects,
  the pools map instance ids to references, and the endpoint index maps endpoint ids to the
  reference of the owning instance and the location of the endpoint in it. The four role dictionaries
  and the dictionary that indexes them by role are one function from roles to pools.

  An operation returns the new state with its outcome; an exception keeps the changes made before it
  was raised. The order in which Python iterates over a set of ids is an argument of the operations
  that do so. Calls of the conductor service are recorded in \<open>conductor_calls\<close>.
\<close>

section \<open>State\<close>

type_synonym iref = nat

type_synonym pool = "(int, iref) dict"

datatype conductor_call = RegisterKV "iref list" | UnregisterKV "iref list"

datatype update_instance_mode = AVAILABLE | UNAVAILABLE

datatype event_type = ADD | DEL | SET | PAUSE | RESUME

record pools =
  heap :: "iref \<Rightarrow> instance_obj"
  typename :: string
  available_pool :: pool
  unavailable_pool :: pool
  paused_pool :: pool
  role_pools :: "pd_role \<Rightarrow> pool"
  endpoint_id_cache :: "(int, (int, iref \<times> ep_loc) dict) dict"
  conductor_calls :: "conductor_call list"

definition TYPE_MGMT :: string where
  "TYPE_MGMT = ''mgmt''"

definition init_pools :: "(iref \<Rightarrow> instance_obj) \<Rightarrow> string \<Rightarrow> pools" where
  "init_pools h tn = \<lparr>heap = h, typename = tn, available_pool = [], unavailable_pool = [], paused_pool = [],
     role_pools = (\<lambda>_. []), endpoint_id_cache = [], conductor_calls = []\<rparr>"

abbreviation obj :: "pools \<Rightarrow> iref \<Rightarrow> instance_obj" where
  "obj s r \<equiv> heap s r"

definition set_obj :: "iref \<Rightarrow> instance_obj \<Rightarrow> pools \<Rightarrow> pools" where
  "set_obj r i s = s\<lparr>heap := (heap s)(r := i)\<rparr>"

definition set_role_pool :: "pd_role \<Rightarrow> pool \<Rightarrow> pools \<Rightarrow> pools" where
  "set_role_pool \<rho> p s = s\<lparr>role_pools := (role_pools s)(\<rho> := p)\<rparr>"

definition stop :: "pools \<Rightarrow> pools" where
  "stop s = s\<lparr>available_pool := [], unavailable_pool := [], paused_pool := [], role_pools := (\<lambda>_. []),
     endpoint_id_cache := []\<rparr>"

section \<open>Readiness\<close>

datatype instance_readiness =
    REQUIRED_MET_EPD
  | ENCODE_PREFILL
  | REQUIRED_MET
  | ONLY_PREFILL
  | ONLY_DECODE
  | ONLY_ENCODE
  | NONE_READY
  | UNKNOWN_MODE

definition is_ready :: "instance_readiness \<Rightarrow> bool" where
  "is_ready r \<longleftrightarrow> r \<in> {REQUIRED_MET, REQUIRED_MET_EPD}"

definition is_run :: "instance_readiness \<Rightarrow> bool" where
  "is_run r \<longleftrightarrow> is_ready r \<or> r \<in> {ONLY_PREFILL, ENCODE_PREFILL}"

text \<open>The \<open>elif\<close> chain over the role literals, \<open>None\<close> where no branch applies.\<close>

definition role_class :: "string \<Rightarrow> pd_role option" where
  "role_class v =
     (if v = pd_role_value ROLE_E then Some ROLE_E
      else if v = pd_role_value ROLE_P then Some ROLE_P
      else if v = pd_role_value ROLE_D then Some ROLE_D
      else if v \<in> {pd_role_value ROLE_U, ''both'', ''hybrid''} then Some ROLE_U
      else None)"

definition readiness_from_instances :: "instance_obj list \<Rightarrow> instance_readiness" where
  "readiness_from_instances is =
     (let of_class = (\<lambda>\<rho>. filter (\<lambda>i. role_class (ins_role i) = Some \<rho>) is);
          encode_instances = of_class ROLE_E;
          prefill_instances = of_class ROLE_P;
          decode_instances = of_class ROLE_D;
          union_instances = of_class ROLE_U
      in if prefill_instances \<noteq> [] \<and> decode_instances \<noteq> [] then
           (if encode_instances \<noteq> [] then REQUIRED_MET_EPD else REQUIRED_MET)
         else if union_instances \<noteq> [] then REQUIRED_MET
         else if encode_instances \<noteq> [] \<and> prefill_instances \<noteq> [] then ENCODE_PREFILL
         else if prefill_instances \<noteq> [] then ONLY_PREFILL
         else if decode_instances \<noteq> [] then ONLY_DECODE
         else if encode_instances \<noteq> [] then ONLY_ENCODE
         else NONE_READY)"

definition get_required_instances_status :: "pools \<Rightarrow> instance_readiness" where
  "get_required_instances_status s =
     readiness_from_instances
       (map (obj s) (dvalues (role_pools s ROLE_E) @ dvalues (role_pools s ROLE_P) @
                     dvalues (role_pools s ROLE_D) @ dvalues (role_pools s ROLE_U)))"

definition has_required_instances :: "pools \<Rightarrow> bool" where
  "has_required_instances s = is_run (get_required_instances_status s)"

section \<open>Reading the pools\<close>

definition get_available_instances :: "pd_role option \<Rightarrow> pools \<Rightarrow> pool" where
  "get_available_instances role s =
     (case role of
        None \<Rightarrow> dmerge (dmerge (dmerge (dmerge [] (role_pools s ROLE_E)) (role_pools s ROLE_P))
                  (role_pools s ROLE_D)) (role_pools s ROLE_U)
      | Some \<rho> \<Rightarrow> role_pools s \<rho>)"

definition get_all_instances :: "pools \<Rightarrow> pool \<times> pool" where
  "get_all_instances s = (available_pool s, unavailable_pool s)"

text \<open>The index \<open>endpoint_id \<rightarrow> Endpoint\<close> of one instance; later endpoints win.\<close>

definition build_endpoint_cache :: "iref \<Rightarrow> pools \<Rightarrow> (int, iref \<times> ep_loc) dict" where
  "build_endpoint_cache r s =
     fold (\<lambda>(loc, e) c. dset (ep_id e) (r, loc) c) (iter_endpoints (obj s r)) []"

definition ensure_endpoint_cache :: "int \<Rightarrow> iref \<Rightarrow> pools \<Rightarrow> (int, iref \<times> ep_loc) dict \<times> pools" where
  "ensure_endpoint_cache iid r s =
     (case dget (endpoint_id_cache s) iid of
        Some c \<Rightarrow> (c, s)
      | None \<Rightarrow> (let c = build_endpoint_cache r s
                 in (c, s\<lparr>endpoint_id_cache := dset iid c (endpoint_id_cache s)\<rparr>)))"

definition role_of_instance :: "instance_obj \<Rightarrow> py_exn + pd_role" where
  "role_of_instance i = (if ins_role i = [] then Inr ROLE_U else pd_role_of (ins_role i))"

definition deref_endpoint :: "pools \<Rightarrow> iref \<times> ep_loc \<Rightarrow> endpoint option" where
  "deref_endpoint s a = endpoint_at (obj s (fst a)) (snd a)"

definition get_endpoint_workload_sync ::
  "int \<Rightarrow> int \<Rightarrow> pools \<Rightarrow> pools \<times> (py_exn + (pd_role \<times> workload) option)" where
  "get_endpoint_workload_sync iid eid s =
     (case dget (available_pool s) iid of
        None \<Rightarrow> (s, Inr None)
      | Some r \<Rightarrow>
          (case ensure_endpoint_cache iid r s of
             (c, s') \<Rightarrow>
               (case Option.bind (dget c eid) (deref_endpoint s') of
                  None \<Rightarrow> (s', Inr None)
                | Some e \<Rightarrow>
                    (s', case role_of_instance (obj s' r) of
                           Inl x \<Rightarrow> Inl x
                         | Inr \<rho> \<Rightarrow> Inr (Some (\<rho>, ep_workload e))))))"

definition has_instance_endpoint :: "int \<Rightarrow> int \<Rightarrow> pools \<Rightarrow> bool" where
  "has_instance_endpoint iid eid s =
     (case dget (available_pool s) iid of
        None \<Rightarrow> False
      | Some r \<Rightarrow>
          (case dget (endpoint_id_cache s) iid of
             None \<Rightarrow> list_ex (\<lambda>e. ep_id e = eid) (endpoint_objs (obj s r))
           | Some c \<Rightarrow> dmem eid c))"

section \<open>The workload ledger\<close>

definition clamp_workload_floor :: "workload \<Rightarrow> workload \<times> bool" where
  "clamp_workload_floor w = (if active_tokens w < 0 then (w\<lparr>active_tokens := 0\<rparr>, True) else (w, False))"

definition write_endpoint :: "ep_loc \<Rightarrow> endpoint \<Rightarrow> instance_obj \<Rightarrow> instance_obj" where
  "write_endpoint loc e i =
     i\<lparr>endpoints := (case dget (endpoints i) (fst loc) of
                       None \<Rightarrow> endpoints i
                     | Some eps \<Rightarrow> dset (fst loc) (dset (snd loc) e eps) (endpoints i))\<rparr>"

definition total_tokens :: "instance_obj \<Rightarrow> rat" where
  "total_tokens i = sum_list (map (\<lambda>e. active_tokens (ep_workload e)) (endpoint_objs i))"

text \<open>Every endpoint ledger is floored in place and the aggregate is their sum.\<close>

definition rebuild_instance_workload :: "instance_obj \<Rightarrow> instance_obj \<times> bool" where
  "rebuild_instance_workload i =
     (let i' = map_endpoints (\<lambda>loc e. e\<lparr>ep_workload := fst (clamp_workload_floor (ep_workload e))\<rparr>) i
      in (i'\<lparr>gathered_workload := \<lparr>active_tokens = total_tokens i'\<rparr>\<rparr>,
          list_ex (\<lambda>e. snd (clamp_workload_floor (ep_workload e))) (endpoint_objs i)))"

text \<open>
  The write of \<open>update_instance_workload_sync\<close>: the endpoint object that the index refers to gets
  the change, floored at zero; the aggregate of the available instance is rebuilt when the floor applied
  and gets the same change otherwise.
\<close>

definition commit_workload :: "iref \<Rightarrow> iref \<Rightarrow> ep_loc \<Rightarrow> endpoint \<Rightarrow> workload \<Rightarrow> pools \<Rightarrow> pools" where
  "commit_workload r r' loc e change s =
     (let (w, floored) = clamp_workload_floor (workload_iadd (ep_workload e) change);
          s1 = set_obj r' (write_endpoint loc (e\<lparr>ep_workload := w\<rparr>) (obj s r')) s
      in if floored then set_obj r (fst (rebuild_instance_workload (obj s1 r))) s1
         else set_obj r ((obj s1 r)\<lparr>gathered_workload := workload_iadd (gathered_workload (obj s1 r)) change\<rparr>) s1)"

definition update_instance_workload_sync ::
  "int \<Rightarrow> int \<Rightarrow> workload \<Rightarrow> pools \<Rightarrow> pools \<times> (py_exn + (pd_role \<times> workload) option)" where
  "update_instance_workload_sync iid eid change s =
     (case dget (available_pool s) iid of
        None \<Rightarrow> (s, Inr None)
      | Some r \<Rightarrow>
          (case ensure_endpoint_cache iid r s of
             (c, s') \<Rightarrow>
               (case dget c eid of
                  None \<Rightarrow> (s', Inr None)
                | Some (r', loc) \<Rightarrow>
                    (case endpoint_at (obj s' r') loc of
                       None \<Rightarrow> (s', Inr None)
                     | Some e \<Rightarrow>
                         (let s'' = commit_workload r r' loc e change s'
                          in (s'', case role_of_instance (obj s'' r) of
                                     Inl x \<Rightarrow> Inl x
                                   | Inr \<rho> \<Rightarrow> Inr (map_option (\<lambda>e'. (\<rho>, ep_workload e')) (endpoint_at (obj s'' r') loc))))))))"

section \<open>Moving instances between pools\<close>

definition add_instance_to_available_pool :: "iref \<Rightarrow> pools \<Rightarrow> pools \<times> (py_exn + bool)" where
  "add_instance_to_available_pool r s =
     (case pd_role_of (ins_role (obj s r)) of
        Inl x \<Rightarrow> (s, Inl x)
      | Inr \<rho> \<Rightarrow>
          (let iid = ins_id (obj s r)
           in if dmem iid (role_pools s \<rho>) then (s, Inr False)
              else (let s1 = set_role_pool \<rho> (dset iid r (role_pools s \<rho>)) s;
                        s2 = s1\<lparr>available_pool := dset iid r (available_pool s1)\<rparr>
                    in (s2\<lparr>endpoint_id_cache := dset iid (build_endpoint_cache r s2) (endpoint_id_cache s2)\<rparr>,
                        Inr True))))"

text \<open>
  \<open>_delete_instance_from_available_pool\<close>: the role pool is found through the available
  entry, and \<open>update_pool[instance_id]\<close> raises \<open>KeyError\<close> if the entry is missing there.
\<close>

definition delete_instance_from_available_pool :: "int \<Rightarrow> pools \<Rightarrow> pools \<times> (py_exn + bool)" where
  "delete_instance_from_available_pool iid s =
     (case dget (available_pool s) iid of
        None \<Rightarrow> (s, Inr False)
      | Some r \<Rightarrow>
          (case pd_role_of (ins_role (obj s r)) of
             Inl x \<Rightarrow> (s, Inl x)
           | Inr \<rho> \<Rightarrow>
               if \<not> dmem iid (role_pools s \<rho>) then (s, Inl KeyError)
               else (let s1 = set_role_pool \<rho> (ddel iid (role_pools s \<rho>)) s
                     in (s1\<lparr>available_pool := ddel iid (available_pool s1),
                            endpoint_id_cache := ddel iid (endpoint_id_cache s1)\<rparr>, Inr True))))"

definition delete_unavailable_instance :: "int \<Rightarrow> pools \<Rightarrow> pools" where
  "delete_unavailable_instance iid s =
     (if dmem iid (unavailable_pool s) then s\<lparr>unavailable_pool := ddel iid (unavailable_pool s)\<rparr> else s)"

definition update_instance_state :: "int \<Rightarrow> update_instance_mode \<Rightarrow> pools \<Rightarrow> pools \<times> (py_exn + unit)" where
  "update_instance_state iid mode s =
     (case mode of
        AVAILABLE \<Rightarrow>
          (case dget (unavailable_pool s) iid of
             None \<Rightarrow> (s, Inr ())
           | Some r \<Rightarrow>
               (case add_instance_to_available_pool r (s\<lparr>unavailable_pool := ddel iid (unavailable_pool s)\<rparr>) of
                  (s', Inl x) \<Rightarrow> (s', Inl x)
                | (s', Inr _) \<Rightarrow> (s', Inr ())))
      | UNAVAILABLE \<Rightarrow>
          (case dget (available_pool s) iid of
             None \<Rightarrow> (s, Inr ())
           | Some r \<Rightarrow>
               (case delete_instance_from_available_pool iid s of
                  (s', Inl x) \<Rightarrow> (s', Inl x)
                | (s', Inr False) \<Rightarrow> (s', Inr ())
                | (s', Inr True) \<Rightarrow> (s'\<lparr>unavailable_pool := dset iid r (unavailable_pool s')\<rparr>, Inr ()))))"

definition find_instance_by_job_name :: "string \<Rightarrow> pools \<Rightarrow> iref option" where
  "find_instance_by_job_name name s =
     find (\<lambda>r. job_name (obj s r) = name)
       (dvalues (available_pool s) @ dvalues (unavailable_pool s) @ dvalues (paused_pool s))"

definition remove_instance_from_all_pools :: "int \<Rightarrow> pools \<Rightarrow> pools \<times> (py_exn + bool)" where
  "remove_instance_from_all_pools iid s =
     (if dmem iid (available_pool s) then delete_instance_from_available_pool iid s
      else if dmem iid (unavailable_pool s) then
        (s\<lparr>unavailable_pool := ddel iid (unavailable_pool s)\<rparr>, Inr True)
      else if dmem iid (paused_pool s) then
        (s\<lparr>paused_pool := ddel iid (paused_pool s)\<rparr>, Inr True)
      else (s, Inr False))"

definition register_kv_instance :: "iref list \<Rightarrow> bool \<Rightarrow> pools \<Rightarrow> pools" where
  "register_kv_instance rs is_register s =
     (if typename s \<noteq> TYPE_MGMT then s
      else s\<lparr>conductor_calls := conductor_calls s @ [if is_register then RegisterKV rs else UnregisterKV rs]\<rparr>)"

subsection \<open>ADD\<close>

definition reset_workload :: "instance_obj \<Rightarrow> instance_obj" where
  "reset_workload i =
     map_endpoints (\<lambda>loc e. e\<lparr>ep_workload := zero_workload\<rparr>) (i\<lparr>gathered_workload := zero_workload\<rparr>)"

text \<open>
  The body of the loop of \<open>_add_instances\<close> for one instance; it reports whether the instance
  was added and which stale instance it replaced.
\<close>

definition replace_stale :: "iref \<Rightarrow> pools \<Rightarrow> pools \<times> (py_exn + iref option)" where
  "replace_stale r s =
     (case find_instance_by_job_name (job_name (obj s r)) s of
        Some old \<Rightarrow>
          if ins_id (obj s old) \<noteq> ins_id (obj s r) then
            (case remove_instance_from_all_pools (ins_id (obj s old)) s of
               (s', Inl x) \<Rightarrow> (s', Inl x)
             | (s', Inr _) \<Rightarrow> (s', Inr (Some old)))
          else (s, Inr None)
      | None \<Rightarrow> (s, Inr None))"

definition add_one_instance :: "iref \<Rightarrow> pools \<Rightarrow> pools \<times> (py_exn + bool \<times> iref option)" where
  "add_one_instance r s =
     (if dmem (ins_id (obj s r)) (unavailable_pool s) then (s, Inr (False, None))
      else (case replace_stale r s of
              (s1, Inl x) \<Rightarrow> (s1, Inl x)
            | (s1, Inr replaced) \<Rightarrow>
                (case add_instance_to_available_pool r s1 of
                   (s2, Inl x) \<Rightarrow> (s2, Inl x)
                 | (s2, Inr False) \<Rightarrow> (s2, Inr (False, replaced))
                 | (s2, Inr True) \<Rightarrow> (set_obj r (reset_workload (obj s2 r)) s2, Inr (True, replaced)))))"

fun add_loop ::
  "iref list \<Rightarrow> bool \<Rightarrow> iref list \<Rightarrow> iref list \<Rightarrow> pools \<Rightarrow> pools \<times> (py_exn + bool \<times> iref list \<times> iref list)" where
  "add_loop [] modified added replaced s = (s, Inr (modified, added, replaced))"
| "add_loop (r # rs) modified added replaced s =
     (case add_one_instance r s of
        (s', Inl x) \<Rightarrow> (s', Inl x)
      | (s', Inr (ok, old)) \<Rightarrow>
          add_loop rs (modified \<or> ok) (if ok then added @ [r] else added)
            (case old of None \<Rightarrow> replaced | Some o' \<Rightarrow> replaced @ [o']) s')"

definition add_instances :: "iref list \<Rightarrow> pools \<Rightarrow> pools \<times> (py_exn + bool)" where
  "add_instances rs s =
     (case add_loop rs False [] [] s of
        (s', Inl x) \<Rightarrow> (s', Inl x)
      | (s', Inr (modified, added, replaced)) \<Rightarrow>
          (register_kv_instance replaced False (register_kv_instance added True s'), Inr modified))"

subsection \<open>DEL\<close>

definition delete_one_instance :: "iref \<Rightarrow> pools \<Rightarrow> pools \<times> (py_exn + bool)" where
  "delete_one_instance r s =
     (let iid = ins_id (obj s r)
      in if dmem iid (unavailable_pool s) then
           (s\<lparr>unavailable_pool := ddel iid (unavailable_pool s)\<rparr>, Inr True)
         else if dmem iid (paused_pool s) then
           (s\<lparr>paused_pool := ddel iid (paused_pool s)\<rparr>, Inr True)
         else delete_instance_from_available_pool iid s)"

subsection \<open>PAUSE and RESUME\<close>

definition pause_one_instance :: "iref \<Rightarrow> pools \<Rightarrow> pools \<times> (py_exn + bool)" where
  "pause_one_instance r s =
     (let iid = ins_id (obj s r)
      in if dmem iid (paused_pool s) then (s, Inr False)
         else if \<not> dmem iid (available_pool s) then (s, Inr False)
         else (case delete_instance_from_available_pool iid s of
                 (s', Inr True) \<Rightarrow> (s'\<lparr>paused_pool := dset iid r (paused_pool s')\<rparr>, Inr True)
               | (s', res) \<Rightarrow> (s', res)))"

definition resume_one_instance :: "iref \<Rightarrow> pools \<Rightarrow> pools \<times> (py_exn + bool)" where
  "resume_one_instance r s =
     (let iid = ins_id (obj s r)
      in if \<not> dmem iid (paused_pool s) then (s, Inr False)
         else add_instance_to_available_pool r (s\<lparr>paused_pool := ddel iid (paused_pool s)\<rparr>))"

text \<open>The loops of \<open>_delete_instances\<close>, \<open>_pause_instances\<close> and \<open>_resume_instances\<close>.\<close>

fun instance_loop ::
  "(iref \<Rightarrow> pools \<Rightarrow> pools \<times> (py_exn + bool)) \<Rightarrow> iref list \<Rightarrow> bool \<Rightarrow> pools \<Rightarrow> pools \<times> (py_exn + bool)" where
  "instance_loop f [] modified s = (s, Inr modified)"
| "instance_loop f (r # rs) modified s =
     (case f r s of
        (s', Inl x) \<Rightarrow> (s', Inl x)
      | (s', Inr ok) \<Rightarrow> instance_loop f rs (modified \<or> ok) s')"

definition delete_instances :: "iref list \<Rightarrow> pools \<Rightarrow> pools \<times> (py_exn + bool)" where
  "delete_instances rs s = instance_loop delete_one_instance rs False s"

definition pause_instances :: "iref list \<Rightarrow> pools \<Rightarrow> pools \<times> (py_exn + bool)" where
  "pause_instances rs s = instance_loop pause_one_instance rs False s"

definition resume_instances :: "iref list \<Rightarrow> pools \<Rightarrow> pools \<times> (py_exn + bool)" where
  "resume_instances rs s = instance_loop resume_one_instance rs False s"

subsection \<open>SET\<close>

definition ep_sig :: "instance_obj \<Rightarrow> (string \<times> int \<times> string \<times> string \<times> string) set" where
  "ep_sig i = set (map (\<lambda>(loc, e). (fst loc, ep_id e, ep_ip e, business_port e, mgmt_port e)) (iter_endpoints i))"

definition instance_needs_update :: "instance_obj \<Rightarrow> instance_obj \<Rightarrow> bool" where
  "instance_needs_update old new \<longleftrightarrow>
     job_name old \<noteq> job_name new \<or> model_name old \<noteq> model_name new \<or> engine_type old \<noteq> engine_type new \<or>
     dispatch_capabilities old \<noteq> dispatch_capabilities new \<or> ins_role old \<noteq> ins_role new \<or>
     parallel_cfg old \<noteq> parallel_cfg new \<or> enable_multi_endpoints old \<noteq> enable_multi_endpoints new \<or>
     map (\<lambda>nm. (nm_pod_ip nm, nm_port nm, device_num nm)) (node_managers old) \<noteq>
       map (\<lambda>nm. (nm_pod_ip nm, nm_port nm, device_num nm)) (node_managers new) \<or>
     ep_sig old \<noteq> ep_sig new"

definition lookup_any_pool :: "int \<Rightarrow> pools \<Rightarrow> iref option" where
  "lookup_any_pool iid s =
     (case dget (available_pool s) iid of
        Some r \<Rightarrow> Some r
      | None \<Rightarrow> (case dget (unavailable_pool s) iid of Some r \<Rightarrow> Some r | None \<Rightarrow> dget (paused_pool s) iid))"

definition current_ids :: "pools \<Rightarrow> int list" where
  "current_ids s = dkeys (available_pool s) @ dkeys (unavailable_pool s) @ dkeys (paused_pool s)"

definition needs_refresh :: "(int, iref) dict \<Rightarrow> pools \<Rightarrow> int \<Rightarrow> bool" where
  "needs_refresh new_by_id s iid =
     (case (lookup_any_pool iid s, dget new_by_id iid) of
        (Some old, Some new) \<Rightarrow>
          \<not> dmem iid (available_pool s) \<or> instance_needs_update (obj s old) (obj s new)
      | _ \<Rightarrow> False)"

text \<open>
  \<open>_compute_set_diff\<close>. Sets of ids are lists without repetition; \<open>ord\<close> gives the
  order in which Python iterates over such a set.
\<close>

definition compute_set_diff :: "(int list \<Rightarrow> int list) \<Rightarrow> iref list \<Rightarrow> pools \<Rightarrow> iref list \<times> iref list" where
  "compute_set_diff ord rs s =
     (let cur = remdups (current_ids s);
          new_by_id = fold (\<lambda>r d. dset (ins_id (obj s r)) r d) rs [];
          new_ids = dkeys new_by_id;
          refresh = filter (needs_refresh new_by_id s) (filter (\<lambda>n. n \<in> set new_ids) cur);
          to_remove_ids = filter (\<lambda>n. n \<notin> set new_ids) cur @ refresh;
          to_add_ids = filter (\<lambda>n. n \<notin> set cur) new_ids @ refresh
      in (List.map_filter (dget new_by_id) (ord to_add_ids),
          List.map_filter (\<lambda>n. lookup_any_pool n s) (ord to_remove_ids)))"

definition apply_set_diff :: "(int list \<Rightarrow> int list) \<Rightarrow> iref list \<Rightarrow> pools \<Rightarrow> pools \<times> (py_exn + bool)" where
  "apply_set_diff ord rs s =
     (case compute_set_diff ord rs s of
        (to_add, to_remove) \<Rightarrow>
          if to_remove = [] \<and> to_add = [] then (s, Inr False)
          else (case (if to_remove = [] then (s, Inr True) else delete_instances to_remove s) of
                  (s1, Inl x) \<Rightarrow> (s1, Inl x)
                | (s1, Inr _) \<Rightarrow>
                    if to_add = [] then (s1, Inr True)
                    else (case add_instances to_add s1 of
                            (s2, Inl x) \<Rightarrow> (s2, Inl x)
                          | (s2, Inr _) \<Rightarrow> (s2, Inr True))))"

subsection \<open>The event handler\<close>

definition refresh_instances ::
  "(int list \<Rightarrow> int list) \<Rightarrow> event_type \<Rightarrow> iref list \<Rightarrow> pools \<Rightarrow> pools \<times> (py_exn + bool)" where
  "refresh_instances ord ev rs s =
     (case ev of
        ADD \<Rightarrow> add_instances rs s
      | DEL \<Rightarrow> (case delete_instances rs s of
                  (s', Inl x) \<Rightarrow> (s', Inl x)
                | (s', Inr res) \<Rightarrow> (register_kv_instance rs False s', Inr res))
      | SET \<Rightarrow> apply_set_diff ord rs s
      | PAUSE \<Rightarrow> pause_instances rs s
      | RESUME \<Rightarrow> resume_instances rs s)"

end
