(* ===== verification/Shm_Layout.thy ===== *)
theory Shm_Layout
  imports Motor_Prelude "HOL-Library.Word"
begin

text \<open>
  The byte layout of the workload table (\<^verbatim>\<open>motor/coordinator/scheduler/runtime/workload_shm/layout.py\<close>): a header
  of 64 bytes and entries of 24 bytes, little-endian.

  The part of Python's \<^verbatim>\<open>struct\<close> module that the file uses is modelled by format codes: \<open>struct_pack\<close> raises
  \<open>struct.error\<close> on a value out of the range of its code, and \<open>struct_unpack\<close> on a buffer of the wrong
  size. Bytes are 8-bit words. A double is its 64-bit pattern, which is what the code \<open>d\<close> stores.
  The locale \<open>fixed_width_codec\<close> is the contract of one field.
\<close>

section \<open>Fields\<close>

type_synonym byte = "8 word"

primrec le_bytes :: "nat \<Rightarrow> int \<Rightarrow> byte list" where
  "le_bytes 0 k = []"
| "le_bytes (Suc n) k = word_of_int k # le_bytes n (k div 256)"

primrec le_int :: "byte list \<Rightarrow> int" where
  "le_int [] = 0"
| "le_int (b # bs) = uint b + 256 * le_int bs"

definition le_sint :: "byte list \<Rightarrow> int" where
  "le_sint bs = (let u = le_int bs in if 2 * u < 256 ^ length bs then u else u - 256 ^ length bs)"

datatype code = C_B | C_H | C_i | C_I | C_q | C_Q | C_d | C_x

fun code_size :: "code \<Rightarrow> nat" where
  "code_size C_B = 1" | "code_size C_H = 2" | "code_size C_i = 4" | "code_size C_I = 4"
| "code_size C_q = 8" | "code_size C_Q = 8" | "code_size C_d = 8" | "code_size C_x = 1"

definition code_signed :: "code \<Rightarrow> bool" where
  "code_signed c \<longleftrightarrow> c \<in> {C_i, C_q}"

definition in_code_range :: "code \<Rightarrow> int \<Rightarrow> bool" where
  "in_code_range c v \<longleftrightarrow>
     (if code_signed c then - (256 ^ code_size c) \<le> 2 * v \<and> 2 * v < 256 ^ code_size c
      else 0 \<le> v \<and> v < 256 ^ code_size c)"

definition decode :: "code \<Rightarrow> byte list \<Rightarrow> int" where
  "decode c bs = (if code_signed c then le_sint bs else le_int bs)"

definition calcsize :: "code list \<Rightarrow> nat" where
  "calcsize cs = sum_list (map code_size cs)"

fun struct_pack :: "code list \<Rightarrow> int list \<Rightarrow> py_exn + byte list" where
  "struct_pack [] [] = Inr []"
| "struct_pack [] (v # vs) = Inl StructError"
| "struct_pack (c # cs) vs =
     (if c = C_x then (case struct_pack cs vs of Inl e \<Rightarrow> Inl e | Inr bs \<Rightarrow> Inr (0 # bs))
      else (case vs of
              [] \<Rightarrow> Inl StructError
            | v # vs' \<Rightarrow>
                if in_code_range c v
                then (case struct_pack cs vs' of Inl e \<Rightarrow> Inl e | Inr bs \<Rightarrow> Inr (le_bytes (code_size c) v @ bs))
                else Inl StructError))"

fun unpack_codes :: "code list \<Rightarrow> byte list \<Rightarrow> int list" where
  "unpack_codes [] bs = []"
| "unpack_codes (c # cs) bs =
     (if c = C_x then unpack_codes cs (drop 1 bs)
      else decode c (take (code_size c) bs) # unpack_codes cs (drop (code_size c) bs))"

definition struct_unpack :: "code list \<Rightarrow> byte list \<Rightarrow> py_exn + int list" where
  "struct_unpack cs bs = (if length bs \<noteq> calcsize cs then Inl StructError else Inr (unpack_codes cs bs))"

section \<open>The layout\<close>

definition MAGIC :: int where "MAGIC = 0x574B4C44"
definition SCHEMA_VERSION :: int where "SCHEMA_VERSION = 3"
definition HEADER_SIZE :: nat where "HEADER_SIZE = 64"
definition ENTRY_SIZE :: nat where "ENTRY_SIZE = 24"
definition HEARTBEAT_OFFSET :: nat where "HEARTBEAT_OFFSET = 32"

definition HEADER_FMT :: "code list" where
  "HEADER_FMT = [C_I, C_H, C_H, C_q, C_I, C_I, C_Q, C_Q, C_Q, C_Q, C_Q]"

definition ENTRY_FMT :: "code list" where
  "ENTRY_FMT = [C_i, C_i, C_B, C_x, C_x, C_x, C_d, C_x, C_x, C_x, C_x]"

record shm_header =
  h_magic :: int
  h_schema_version :: int
  h_sequence :: int
  h_entry_count :: int
  h_max_entries :: int
  h_instance_version :: int
  h_heartbeat_sequence :: int
  h_prefill_sequence :: int
  h_decode_sequence :: int
  h_hybrid_sequence :: int

text \<open>One entry; the load is the bit pattern of the double.\<close>

record raw_entry =
  re_instance_id :: int
  re_endpoint_id :: int
  re_role :: int
  re_active_tokens :: int

definition normalize_u64 :: "int \<Rightarrow> int" where
  "normalize_u64 v = (if v < 0 \<or> v > 2 ^ 64 - 1 then v mod 2 ^ 64 else v)"

definition header_fields :: "shm_header \<Rightarrow> int list" where
  "header_fields h =
     [h_magic h, h_schema_version h, 0, h_sequence h, h_entry_count h, h_max_entries h,
      normalize_u64 (h_instance_version h), normalize_u64 (h_heartbeat_sequence h),
      normalize_u64 (h_prefill_sequence h), normalize_u64 (h_decode_sequence h), normalize_u64 (h_hybrid_sequence h)]"

definition pack_header :: "shm_header \<Rightarrow> py_exn + byte list" where
  "pack_header h = struct_pack HEADER_FMT (header_fields h)"

definition unpack_header :: "byte list \<Rightarrow> py_exn + shm_header" where
  "unpack_header buf =
     (if length buf < HEADER_SIZE then Inl ValueError
      else (case struct_unpack HEADER_FMT (take HEADER_SIZE buf) of
              Inl e \<Rightarrow> Inl e
            | Inr t \<Rightarrow> Inr \<lparr>h_magic = t ! 0, h_schema_version = t ! 1, h_sequence = t ! 3, h_entry_count = t ! 4,
                h_max_entries = t ! 5, h_instance_version = t ! 6, h_heartbeat_sequence = t ! 7,
                h_prefill_sequence = t ! 8, h_decode_sequence = t ! 9, h_hybrid_sequence = t ! 10\<rparr>))"

definition pack_entry :: "raw_entry \<Rightarrow> py_exn + byte list" where
  "pack_entry e = struct_pack ENTRY_FMT [re_instance_id e, re_endpoint_id e, re_role e, re_active_tokens e]"

definition unpack_entry :: "byte list \<Rightarrow> nat \<Rightarrow> py_exn + raw_entry" where
  "unpack_entry buf slot =
     (let offset = HEADER_SIZE + slot * ENTRY_SIZE
      in if offset + ENTRY_SIZE > length buf then Inl ValueError
         else (case struct_unpack ENTRY_FMT (take ENTRY_SIZE (drop offset buf)) of
                 Inl e \<Rightarrow> Inl e
               | Inr t \<Rightarrow> Inr \<lparr>re_instance_id = t ! 0, re_endpoint_id = t ! 1, re_role = t ! 2, re_active_tokens = t ! 3\<rparr>))"

definition total_size :: "nat \<Rightarrow> nat" where
  "total_size max_entries = HEADER_SIZE + max_entries * ENTRY_SIZE"

text \<open>The assignment \<open>buf[off : off + len(bs)] = bs\<close> of a memory view, which keeps the size of the view.\<close>

definition put_slice :: "nat \<Rightarrow> byte list \<Rightarrow> byte list \<Rightarrow> py_exn + byte list" where
  "put_slice off bs buf =
     (if off + length bs \<le> length buf then Inr (take off buf @ bs @ drop (off + length bs) buf) else Inl ValueError)"

definition write_entry_at_slot :: "nat \<Rightarrow> raw_entry \<Rightarrow> byte list \<Rightarrow> py_exn + byte list" where
  "write_entry_at_slot slot e buf =
     (case pack_entry e of Inl x \<Rightarrow> Inl x | Inr bs \<Rightarrow> put_slice (HEADER_SIZE + slot * ENTRY_SIZE) bs buf)"

definition write_header_bytes :: "shm_header \<Rightarrow> byte list \<Rightarrow> py_exn + byte list" where
  "write_header_bytes h buf = (case pack_header h of Inl x \<Rightarrow> Inl x | Inr bs \<Rightarrow> put_slice 0 bs buf)"

definition write_heartbeat_bytes :: "int \<Rightarrow> byte list \<Rightarrow> py_exn + byte list" where
  "write_heartbeat_bytes v buf =
     (case struct_pack [C_Q] [v] of Inl x \<Rightarrow> Inl x | Inr bs \<Rightarrow> put_slice HEARTBEAT_OFFSET bs buf)"

section \<open>The contract of a field\<close>

locale fixed_width_codec =
  fixes width :: nat and enc :: "int \<Rightarrow> byte list" and dec :: "byte list \<Rightarrow> int" and ok :: "int \<Rightarrow> bool"
  assumes enc_width: "length (enc v) = width"
    and dec_enc: "ok v \<Longrightarrow> dec (enc v) = v"
begin

lemma field_roundtrip: "ok v \<Longrightarrow> dec (take width (enc v @ rest)) = v"
  by (simp add: enc_width dec_enc)

lemma field_rest: "drop width (enc v @ rest) = rest"
  by (simp add: enc_width)

end

lemma length_le_bytes [simp]: "length (le_bytes n k) = n"
  by (induction n arbitrary: k) simp_all

lemma le_int_le_bytes: "le_int (le_bytes n k) = k mod 256 ^ n"
proof (induction n arbitrary: k)
  case (Suc n)
  have "k mod (256 * 256 ^ n) = 256 * (k div 256 mod 256 ^ n) + k mod 256"
    by (simp add: zmod_zmult2_eq)
  then show ?case by (simp add: Suc.IH uint_word_of_int)
qed simp

lemma le_sint_le_bytes:
  assumes "- (256 ^ n) \<le> 2 * v" and "2 * v < 256 ^ n"
  shows "le_sint (le_bytes n v) = v"
proof (cases "0 \<le> v")
  case True
  with assms have "v mod 256 ^ n = v" by (intro mod_pos_pos_trivial) simp_all
  with assms(2) show ?thesis by (simp add: le_sint_def le_int_le_bytes)
next
  case False
  with assms have "(v + 256 ^ n) mod 256 ^ n = v + 256 ^ n" by (intro mod_pos_pos_trivial) simp_all
  then have "v mod 256 ^ n = v + 256 ^ n" by simp
  with assms(1) show ?thesis by (simp add: le_sint_def le_int_le_bytes)
qed

interpretation field: fixed_width_codec "code_size c" "le_bytes (code_size c)" "decode c" "in_code_range c" for c
  by unfold_locales
    (auto simp: decode_def in_code_range_def le_sint_le_bytes le_int_le_bytes split: if_splits)

section \<open>Round trips\<close>

lemma pack_unpack:
  "struct_pack cs vs = Inr bs \<Longrightarrow> length bs = calcsize cs \<and> unpack_codes cs (bs @ rest) = vs"
proof (induction cs vs arbitrary: bs rule: struct_pack.induct)
  case (3 c cs vs)
  show ?case
  proof (cases "c = C_x")
    case True
    with "3.prems" obtain bs' where "struct_pack cs vs = Inr bs'" "bs = 0 # bs'" by (auto split: sum.splits)
    with "3.IH"(1) [OF True] True show ?thesis by (simp add: calcsize_def)
  next
    case False
    with "3.prems" obtain v vs' bs' where v: "vs = v # vs'" "in_code_range c v" "struct_pack cs vs' = Inr bs'"
      "bs = le_bytes (code_size c) v @ bs'" by (auto split: list.splits if_splits sum.splits)
    with "3.IH"(2) [OF False v(1,2) v(3)] False field.field_roundtrip [OF v(2)] field.field_rest show ?thesis
      by (simp add: calcsize_def)
  qed
qed (simp_all add: calcsize_def)

lemma put_slice_same: "put_slice off bs buf = Inr buf' \<Longrightarrow> take (length bs) (drop off buf') = bs"
  by (auto simp: put_slice_def split: if_splits)

lemma put_slice_length: "put_slice off bs buf = Inr buf' \<Longrightarrow> length buf' = length buf"
  by (auto simp: put_slice_def split: if_splits)

lemma put_slice_other:
  assumes "put_slice off bs buf = Inr buf'" and "k + n \<le> off \<or> off + length bs \<le> k"
  shows "take n (drop k buf') = take n (drop k buf)"
proof -
  have b: "buf' = take off buf @ bs @ drop (off + length bs) buf" and le: "off + length bs \<le> length buf"
    using assms(1) by (auto simp: put_slice_def split: if_splits)
  show ?thesis
  proof (rule nth_equalityI)
    show "length (take n (drop k buf')) = length (take n (drop k buf))"
      using put_slice_length [OF assms(1)] by simp
  next
    fix j assume "j < length (take n (drop k buf'))"
    with assms(2) le show "take n (drop k buf') ! j = take n (drop k buf) ! j"
      by (auto simp: b nth_append)
  qed
qed

lemma calcsize_header [simp]: "calcsize HEADER_FMT = HEADER_SIZE" and calcsize_entry [simp]: "calcsize ENTRY_FMT = ENTRY_SIZE"
  by (simp_all add: calcsize_def HEADER_FMT_def HEADER_SIZE_def ENTRY_FMT_def ENTRY_SIZE_def)

definition normalized :: "shm_header \<Rightarrow> shm_header" where
  "normalized h = h\<lparr>h_instance_version := normalize_u64 (h_instance_version h),
     h_heartbeat_sequence := normalize_u64 (h_heartbeat_sequence h),
     h_prefill_sequence := normalize_u64 (h_prefill_sequence h),
     h_decode_sequence := normalize_u64 (h_decode_sequence h),
     h_hybrid_sequence := normalize_u64 (h_hybrid_sequence h)\<rparr>"

lemma normalize_u64_mod: "normalize_u64 v = v mod 2 ^ 64"
  by (simp add: normalize_u64_def)

lemma header_bytes:
  assumes "pack_header h = Inr bs"
  shows "length bs = HEADER_SIZE" and "take HEADER_SIZE buf = bs \<Longrightarrow> unpack_header buf = Inr (normalized h)"
proof -
  have p: "struct_pack HEADER_FMT (header_fields h) = Inr bs" using assms by (simp add: pack_header_def)
  from pack_unpack [OF p, of "[]"] show l: "length bs = HEADER_SIZE" by simp
  assume t: "take HEADER_SIZE buf = bs"
  then have "HEADER_SIZE \<le> length buf" using l by (metis length_take min.absorb_iff2)
  moreover have "struct_unpack HEADER_FMT (take HEADER_SIZE buf) = Inr (header_fields h)"
    using pack_unpack [OF p, of "[]"] l by (simp add: struct_unpack_def t)
  ultimately show "unpack_header buf = Inr (normalized h)"
    by (simp add: unpack_header_def header_fields_def normalized_def)
qed

lemma entry_bytes:
  assumes "pack_entry e = Inr bs"
  shows "length bs = ENTRY_SIZE"
    and "take ENTRY_SIZE (drop (HEADER_SIZE + slot * ENTRY_SIZE) buf) = bs \<Longrightarrow> unpack_entry buf slot = Inr e"
proof -
  have p: "struct_pack ENTRY_FMT [re_instance_id e, re_endpoint_id e, re_role e, re_active_tokens e] = Inr bs"
    using assms by (simp add: pack_entry_def)
  from pack_unpack [OF p, of "[]"] show l: "length bs = ENTRY_SIZE" by simp
  let ?off = "HEADER_SIZE + slot * ENTRY_SIZE"
  assume t: "take ENTRY_SIZE (drop ?off buf) = bs"
  then have "ENTRY_SIZE \<le> length buf - ?off" using l by (metis length_drop length_take min.absorb_iff2)
  then have "\<not> length buf < ?off + ENTRY_SIZE" by (simp add: ENTRY_SIZE_def)
  moreover have "struct_unpack ENTRY_FMT (take ENTRY_SIZE (drop ?off buf)) =
      Inr [re_instance_id e, re_endpoint_id e, re_role e, re_active_tokens e]"
    using pack_unpack [OF p, of "[]"] l by (simp add: struct_unpack_def t)
  ultimately show "unpack_entry buf slot = Inr e" by (simp add: unpack_entry_def Let_def)
qed

lemma unpack_header_cong:
  "length buf = length buf' \<Longrightarrow> take HEADER_SIZE buf = take HEADER_SIZE buf' \<Longrightarrow> unpack_header buf = unpack_header buf'"
  by (simp add: unpack_header_def)

lemma unpack_entry_cong:
  "length buf = length buf' \<Longrightarrow>
   take ENTRY_SIZE (drop (HEADER_SIZE + slot * ENTRY_SIZE) buf) = take ENTRY_SIZE (drop (HEADER_SIZE + slot * ENTRY_SIZE) buf') \<Longrightarrow>
   unpack_entry buf slot = unpack_entry buf' slot"
  by (simp add: unpack_entry_def Let_def)

lemma slot_gap: "slot \<noteq> slot' \<Longrightarrow>
    HEADER_SIZE + slot' * ENTRY_SIZE + ENTRY_SIZE \<le> HEADER_SIZE + slot * ENTRY_SIZE \<or>
    HEADER_SIZE + slot * ENTRY_SIZE + ENTRY_SIZE \<le> HEADER_SIZE + slot' * ENTRY_SIZE"
  by (auto simp: ENTRY_SIZE_def neq_iff)

lemma write_entry_effect:
  assumes "write_entry_at_slot slot e buf = Inr buf'"
  shows "length buf' = length buf" and "unpack_entry buf' slot = Inr e"
    and "slot' \<noteq> slot \<Longrightarrow> unpack_entry buf' slot' = unpack_entry buf slot'"
    and "unpack_header buf' = unpack_header buf"
proof -
  obtain bs where bs: "pack_entry e = Inr bs" and put: "put_slice (HEADER_SIZE + slot * ENTRY_SIZE) bs buf = Inr buf'"
    using assms by (auto simp: write_entry_at_slot_def split: sum.splits)
  show len: "length buf' = length buf" by (rule put_slice_length [OF put])
  show "unpack_entry buf' slot = Inr e"
    using entry_bytes [OF bs] put_slice_same [OF put] by simp
  show "unpack_entry buf' slot' = unpack_entry buf slot'" if "slot' \<noteq> slot"
    using put_slice_other [OF put] slot_gap [OF that [symmetric]] entry_bytes(1) [OF bs]
    by (intro unpack_entry_cong len) simp
  show "unpack_header buf' = unpack_header buf"
    using put_slice_other [OF put, of 0 HEADER_SIZE] by (intro unpack_header_cong len) simp
qed

lemma write_header_effect:
  assumes "write_header_bytes h buf = Inr buf'"
  shows "length buf' = length buf" and "unpack_header buf' = Inr (normalized h)"
    and "unpack_entry buf' slot = unpack_entry buf slot"
proof -
  obtain bs where bs: "pack_header h = Inr bs" and put: "put_slice 0 bs buf = Inr buf'"
    using assms by (auto simp: write_header_bytes_def split: sum.splits)
  show len: "length buf' = length buf" by (rule put_slice_length [OF put])
  show "unpack_header buf' = Inr (normalized h)"
    using header_bytes [OF bs] put_slice_same [OF put] by simp
  show "unpack_entry buf' slot = unpack_entry buf slot"
    using put_slice_other [OF put] header_bytes(1) [OF bs] by (intro unpack_entry_cong len) simp
qed

text \<open>The heartbeat is the eighth field of the header: bytes 32 to 40.\<close>

lemma write_heartbeat_effect:
  assumes "write_heartbeat_bytes v buf = Inr buf'" and "unpack_header buf = Inr h"
  shows "length buf' = length buf" and "unpack_header buf' = Inr (h\<lparr>h_heartbeat_sequence := v\<rparr>)"
    and "unpack_entry buf' slot = unpack_entry buf slot"
proof -
  obtain bs where bs: "struct_pack [C_Q] [v] = Inr bs" and put: "put_slice HEARTBEAT_OFFSET bs buf = Inr buf'"
    using assms(1) by (auto simp: write_heartbeat_bytes_def split: sum.splits)
  have l: "length bs = 8" using pack_unpack [OF bs, of "[]"] by (simp add: calcsize_def)
  show len: "length buf' = length buf" by (rule put_slice_length [OF put])
  have big: "64 \<le> length buf" using assms(2) by (auto simp: unpack_header_def HEADER_SIZE_def split: if_splits)
  have v: "decode C_Q (take 8 (drop 32 buf')) = v"
    using pack_unpack [OF bs, of "[]"] put_slice_same [OF put] l by (simp add: HEARTBEAT_OFFSET_def)
  have o: "take n (drop k buf') = take n (drop k buf)" if "k + n \<le> 32 \<or> 40 \<le> k" for n k
    using put_slice_other [OF put, of k n] that l by (simp add: HEARTBEAT_OFFSET_def)
  show "unpack_header buf' = Inr (h\<lparr>h_heartbeat_sequence := v\<rparr>)"
    using assms(2) big len v o [of 0 4] o [of 4 2] o [of 6 2] o [of 8 8] o [of 16 4] o [of 20 4] o [of 24 8] o [of 40 8] o [of 48 8] o [of 56 8]
    by (auto simp: unpack_header_def struct_unpack_def HEADER_SIZE_def HEADER_FMT_def calcsize_def drop_take)
  show "unpack_entry buf' slot = unpack_entry buf slot"
    using o by (intro unpack_entry_cong len) (simp add: HEADER_SIZE_def)
qed

section \<open>Properties\<close>

text \<open>
  C31: what the writer packs, a reader unpacks. A header that packs reads back with its unsigned counters
  reduced modulo \<open>2^64\<close> and leaves every entry alone; an entry written at a slot reads back at that slot and
  leaves the header and all other slots alone; a heartbeat changes the heartbeat field of the header and
  nothing else. No write changes the size of the buffer.
\<close>

theorem shm_layout_roundtrip:
  "(write_header_bytes h buf = Inr b1 \<longrightarrow>
      length b1 = length buf \<and> unpack_header b1 = Inr (normalized h) \<and> unpack_entry b1 k = unpack_entry buf k) \<and>
   (write_entry_at_slot slot e buf = Inr b2 \<longrightarrow>
      length b2 = length buf \<and> unpack_header b2 = unpack_header buf \<and>
      unpack_entry b2 k = (if k = slot then Inr e else unpack_entry buf k)) \<and>
   (write_heartbeat_bytes v buf = Inr b3 \<and> unpack_header buf = Inr g \<longrightarrow>
      length b3 = length buf \<and> unpack_header b3 = Inr (g\<lparr>h_heartbeat_sequence := v\<rparr>) \<and> unpack_entry b3 k = unpack_entry buf k)"
  using write_header_effect [of h buf b1] write_entry_effect [of slot e buf b2] write_heartbeat_effect [of v buf b3 g]
  by auto

theorem shm_layout_roundtrip_witness:
  "\<exists>b. write_entry_at_slot 1 \<lparr>re_instance_id = - 7, re_endpoint_id = 2, re_role = 1, re_active_tokens = 9\<rparr> (replicate 112 0) = Inr b \<and>
     unpack_entry b 1 = Inr \<lparr>re_instance_id = - 7, re_endpoint_id = 2, re_role = 1, re_active_tokens = 9\<rparr> \<and>
     unpack_entry b 0 = unpack_entry (replicate 112 0) 0"
proof -
  let ?e = "\<lparr>re_instance_id = - 7, re_endpoint_id = 2, re_role = 1, re_active_tokens = 9\<rparr>"
  obtain bs where bs: "pack_entry ?e = Inr bs"
    by (simp add: pack_entry_def ENTRY_FMT_def in_code_range_def code_signed_def)
  obtain b where b: "write_entry_at_slot 1 ?e (replicate 112 0) = Inr b"
    using entry_bytes(1) [OF bs] by (simp add: write_entry_at_slot_def bs put_slice_def HEADER_SIZE_def ENTRY_SIZE_def)
  have "unpack_entry b k = (if k = 1 then Inr ?e else unpack_entry (replicate 112 0) k)" for k
    using shm_layout_roundtrip [of undefined "replicate 112 0" undefined k 1 ?e b undefined undefined undefined] b by simp
  with b show ?thesis by simp
qed

end
