(* ===== verification/Workload_Shm.thy ===== *)
theory Workload_Shm
  imports Coordinator_Pools Shm_Layout
begin

text \<open>
  The workload table in shared memory
  (\<^verbatim>\<open>motor/coordinator/scheduler/runtime/workload_shm/writer.py\<close> and \<^verbatim>\<open>reader.py\<close>).

  The scheduler process writes, the worker processes read without a lock: the header holds a sequence
  number that is odd while a write is in progress (a seqlock). A memory is a header and the entries by
  slot; \<^verbatim>\<open>Shm_Layout\<close> shows that the bytes behave so. The writer's operations are functions on a state that holds the
  writer's fields, the memory and the trace of the single stores it has made; a header and an entry are
  each stored and loaded in one step. The reader is a small machine with one step per load,
  so that stores can come between any two of its loads.
\<close>

section \<open>Data\<close>

definition ROLE_PREFILL :: int where "ROLE_PREFILL = 0"
definition ROLE_DECODE :: int where "ROLE_DECODE = 1"
definition ROLE_HYBRID :: int where "ROLE_HYBRID = 2"
definition ROLE_ENCODE :: int where "ROLE_ENCODE = 3"

lemmas shm_role_defs = ROLE_PREFILL_def ROLE_DECODE_def ROLE_HYBRID_def ROLE_ENCODE_def

record shm_entry =
  e_instance_id :: int
  e_endpoint_id :: int
  e_role :: int
  e_active_tokens :: rat

datatype seq_key = SEQ_PREFILL | SEQ_DECODE | SEQ_HYBRID

definition role_seq_key :: "pd_role \<Rightarrow> seq_key option" where
  "role_seq_key \<rho> =
     (case \<rho> of ROLE_P \<Rightarrow> Some SEQ_PREFILL | ROLE_D \<Rightarrow> Some SEQ_DECODE | ROLE_U \<Rightarrow> Some SEQ_HYBRID | ROLE_E \<Rightarrow> None)"

definition shm_role_seq_key :: "int \<Rightarrow> seq_key option" where
  "shm_role_seq_key r =
     (if r = ROLE_PREFILL then Some SEQ_PREFILL else if r = ROLE_DECODE then Some SEQ_DECODE
      else if r = ROLE_HYBRID then Some SEQ_HYBRID else None)"

definition pdrole_to_shm_role :: "pd_role \<Rightarrow> int" where
  "pdrole_to_shm_role \<rho> =
     (if \<rho> = ROLE_E then ROLE_ENCODE else if \<rho> = ROLE_P then ROLE_PREFILL
      else if \<rho> = ROLE_D then ROLE_DECODE else ROLE_HYBRID)"

definition shm_role_to_pdrole :: "int \<Rightarrow> pd_role" where
  "shm_role_to_pdrole r =
     (if r = ROLE_ENCODE then ROLE_E else if r = ROLE_PREFILL then ROLE_P
      else if r = ROLE_DECODE then ROLE_D else ROLE_U)"

record shm_mem =
  m_header :: shm_header
  m_slots :: "nat \<Rightarrow> shm_entry"

datatype mem_act = W_HEADER shm_header | W_SLOT nat shm_entry | W_HEARTBEAT int

fun apply_act :: "mem_act \<Rightarrow> shm_mem \<Rightarrow> shm_mem" where
  "apply_act (W_HEADER h) m = m\<lparr>m_header := h\<rparr>"
| "apply_act (W_SLOT k e) m = m\<lparr>m_slots := (m_slots m)(k := e)\<rparr>"
| "apply_act (W_HEARTBEAT v) m = m\<lparr>m_header := (m_header m)\<lparr>h_heartbeat_sequence := v\<rparr>\<rparr>"

record shm_writer =
  wr_max_entries :: nat
  slot_map :: "(int \<times> int, nat) dict"
  wr_sequence :: int
  role_sequences :: "seq_key \<Rightarrow> int"
  role_members :: "seq_key \<Rightarrow> (int \<times> int) set"
  entry_count :: nat
  instance_version :: int
  heartbeat_sequence :: int
  wr_mem :: shm_mem
  wr_trace :: "mem_act list"

definition init_writer :: "nat \<Rightarrow> shm_mem \<Rightarrow> shm_writer" where
  "init_writer max_entries m =
     \<lparr>wr_max_entries = max_entries, slot_map = [], wr_sequence = 0, role_sequences = (\<lambda>_. 0), role_members = (\<lambda>_. {}),
      entry_count = 0, instance_version = 0, heartbeat_sequence = 0, wr_mem = m, wr_trace = []\<rparr>"

definition emit :: "mem_act \<Rightarrow> shm_writer \<Rightarrow> shm_writer" where
  "emit a w = w\<lparr>wr_mem := apply_act a (wr_mem w), wr_trace := wr_trace w @ [a]\<rparr>"

section \<open>The writer\<close>

definition role_sequence :: "pd_role \<Rightarrow> shm_writer \<Rightarrow> int option" where
  "role_sequence \<rho> w = map_option (role_sequences w) (role_seq_key \<rho>)"

definition write_heartbeat :: "shm_writer \<Rightarrow> shm_writer" where
  "write_heartbeat w =
     (let v = (heartbeat_sequence w + 1) mod 2 ^ 64 in emit (W_HEARTBEAT v) (w\<lparr>heartbeat_sequence := v\<rparr>))"

definition writer_header :: "shm_writer \<Rightarrow> shm_header" where
  "writer_header w = \<lparr>h_magic = MAGIC, h_schema_version = SCHEMA_VERSION, h_sequence = wr_sequence w,
     h_entry_count = int (entry_count w), h_max_entries = int (wr_max_entries w),
     h_instance_version = instance_version w, h_heartbeat_sequence = heartbeat_sequence w,
     h_prefill_sequence = role_sequences w SEQ_PREFILL, h_decode_sequence = role_sequences w SEQ_DECODE,
     h_hybrid_sequence = role_sequences w SEQ_HYBRID\<rparr>"

definition write_header :: "shm_writer \<Rightarrow> shm_writer" where
  "write_header w =
     (let w1 = w\<lparr>heartbeat_sequence := max (heartbeat_sequence w) (h_heartbeat_sequence (m_header (wr_mem w)))\<rparr>
      in emit (W_HEADER (writer_header w1)) w1)"

definition begin_write :: "shm_writer \<Rightarrow> shm_writer" where
  "begin_write w = write_header (w\<lparr>wr_sequence := wr_sequence w + (if wr_sequence w mod 2 = 0 then 1 else 2)\<rparr>)"

definition end_write :: "shm_writer \<Rightarrow> shm_writer" where
  "end_write w = write_header (w\<lparr>wr_sequence := wr_sequence w + (if wr_sequence w mod 2 = 1 then 1 else 2)\<rparr>)"

definition bump_role_sequence :: "pd_role \<Rightarrow> shm_writer \<Rightarrow> shm_writer" where
  "bump_role_sequence \<rho> w =
     (case role_seq_key \<rho> of
        None \<Rightarrow> w
      | Some k \<Rightarrow> w\<lparr>role_sequences := (role_sequences w)(k := (role_sequences w k + 1) mod 2 ^ 64)\<rparr>)"

definition new_members :: "shm_entry list \<Rightarrow> seq_key \<Rightarrow> (int \<times> int) set" where
  "new_members entries k =
     set (map (\<lambda>e. (e_instance_id e, e_endpoint_id e)) (filter (\<lambda>e. shm_role_seq_key (e_role e) = Some k) entries))"

definition bump_changed_role_sequences :: "shm_entry list \<Rightarrow> shm_writer \<Rightarrow> shm_writer" where
  "bump_changed_role_sequences entries w =
     w\<lparr>role_sequences := (\<lambda>k. if new_members entries k \<noteq> role_members w k then (role_sequences w k + 1) mod 2 ^ 64
                             else role_sequences w k),
       role_members := new_members entries\<rparr>"

definition role_entries :: "pools \<Rightarrow> pd_role \<Rightarrow> shm_entry list" where
  "role_entries s \<rho> =
     concat (map (\<lambda>r. map (\<lambda>e. \<lparr>e_instance_id = ins_id (obj s r), e_endpoint_id = ep_id e, e_role = pdrole_to_shm_role \<rho>,
                             e_active_tokens = active_tokens (ep_workload e)\<rparr>) (endpoint_objs (obj s r)))
       (dvalues (get_available_instances (Some \<rho>) s)))"

text \<open>The four nested loops; they stop when \<open>max_entries\<close> entries are collected.\<close>

definition collect_entries :: "pools \<Rightarrow> nat \<Rightarrow> shm_entry list" where
  "collect_entries s max_entries = take max_entries (concat (map (role_entries s) [ROLE_E, ROLE_P, ROLE_D, ROLE_U]))"

definition slots_of :: "shm_entry list \<Rightarrow> (int \<times> int, nat) dict" where
  "slots_of entries = fold (\<lambda>(slot, e) d. dset (e_instance_id e, e_endpoint_id e) slot d) (enumerate 0 entries) []"

definition write_entries :: "shm_entry list \<Rightarrow> shm_writer \<Rightarrow> shm_writer" where
  "write_entries entries w = fold (\<lambda>(slot, e). emit (W_SLOT slot e)) (enumerate 0 entries) w"

definition write_snapshot :: "pools \<Rightarrow> shm_writer \<Rightarrow> shm_writer" where
  "write_snapshot s w =
     (let entries = collect_entries s (wr_max_entries w);
          w1 = begin_write (w\<lparr>slot_map := slots_of entries, entry_count := length entries\<rparr>);
          w2 = bump_changed_role_sequences entries (write_entries entries w1)
      in end_write (w2\<lparr>instance_version := instance_version w2 + 1\<rparr>))"

definition write_single_entry_from_workload ::
  "int \<Rightarrow> int \<Rightarrow> pd_role option \<Rightarrow> workload option \<Rightarrow> pools \<Rightarrow> shm_writer \<Rightarrow> shm_writer" where
  "write_single_entry_from_workload iid eid role wl s w =
     (case dget (slot_map w) (iid, eid) of
        None \<Rightarrow> write_snapshot s w
      | Some slot \<Rightarrow>
          (case (role, wl) of
             (Some \<rho>, Some l) \<Rightarrow>
               end_write (bump_role_sequence \<rho>
                 (emit (W_SLOT slot \<lparr>e_instance_id = iid, e_endpoint_id = eid, e_role = pdrole_to_shm_role \<rho>,
                     e_active_tokens = active_tokens l\<rparr>) (begin_write w)))
           | _ \<Rightarrow> w))"

definition write_single_entry_sync :: "int \<Rightarrow> int \<Rightarrow> pools \<Rightarrow> shm_writer \<Rightarrow> pools \<times> (py_exn + shm_writer)" where
  "write_single_entry_sync iid eid s w =
     (case get_endpoint_workload_sync iid eid s of
        (s1, Inl x) \<Rightarrow> (s1, Inl x)
      | (s1, Inr None) \<Rightarrow> (s1, Inr (write_single_entry_from_workload iid eid None None s1 w))
      | (s1, Inr (Some (\<rho>, l))) \<Rightarrow> (s1, Inr (write_single_entry_from_workload iid eid (Some \<rho>) (Some l) s1 w)))"

section \<open>The reader\<close>

definition STABLE_SNAPSHOT_READ_ATTEMPTS :: nat where "STABLE_SNAPSHOT_READ_ATTEMPTS = 3"

definition HEARTBEAT_STALE_SEC :: rat where "HEARTBEAT_STALE_SEC = 5"

record shm_reader =
  buf_len :: nat
  last_sequence :: "int option"
  last_role_sequences :: "(pd_role, int) dict"
  last_heartbeat_value :: int
  last_heartbeat_time :: rat

definition init_reader :: "nat \<Rightarrow> shm_reader" where
  "init_reader n = \<lparr>buf_len = n, last_sequence = None, last_role_sequences = [], last_heartbeat_value = 0,
     last_heartbeat_time = 0\<rparr>"

definition is_valid_header :: "nat \<Rightarrow> shm_header \<Rightarrow> bool" where
  "is_valid_header n h \<longleftrightarrow>
     h_magic h = MAGIC \<and> h_schema_version h = SCHEMA_VERSION \<and>
     \<not> (h_entry_count h < 0 \<or> h_entry_count h > h_max_entries h) \<and>
     int HEADER_SIZE + h_entry_count h * int ENTRY_SIZE \<le> int n"

definition role_sequences_supported :: "shm_header \<Rightarrow> bool" where
  "role_sequences_supported h \<longleftrightarrow> h_schema_version h \<ge> SCHEMA_VERSION"

definition headers_match :: "shm_header \<Rightarrow> shm_header \<Rightarrow> bool" where
  "headers_match h g \<longleftrightarrow>
     h_magic g = MAGIC \<and> h_schema_version g = h_schema_version h \<and> h_sequence g = h_sequence h \<and>
     h_sequence g mod 2 = 0 \<and> h_entry_count g = h_entry_count h \<and> h_instance_version g = h_instance_version h \<and>
     (role_sequences_supported h \<longrightarrow>
        h_prefill_sequence g = h_prefill_sequence h \<and> h_decode_sequence g = h_decode_sequence h \<and>
        h_hybrid_sequence g = h_hybrid_sequence h)"

definition role_sequence_from_header :: "shm_header \<Rightarrow> pd_role option \<Rightarrow> int option" where
  "role_sequence_from_header h role =
     (if \<not> role_sequences_supported h then None
      else (case role of
              Some ROLE_P \<Rightarrow> Some (h_prefill_sequence h)
            | Some ROLE_D \<Rightarrow> Some (h_decode_sequence h)
            | Some ROLE_U \<Rightarrow> Some (h_hybrid_sequence h)
            | _ \<Rightarrow> None))"

definition role_cache_is_current :: "shm_reader \<Rightarrow> shm_header \<Rightarrow> pd_role option \<Rightarrow> bool" where
  "role_cache_is_current rd h role =
     (case role_sequence_from_header h role of
        None \<Rightarrow> False
      | Some q \<Rightarrow> (case role of None \<Rightarrow> False | Some \<rho> \<Rightarrow> dget (last_role_sequences rd) \<rho> = Some q))"

datatype reader_pc =
    R_START nat
  | R_CONFIRM nat shm_header
  | R_ENTRIES nat shm_header "shm_entry list"
  | R_DONE "(shm_header \<times> shm_entry list option) option"

fun reader_step :: "shm_reader \<Rightarrow> pd_role option \<Rightarrow> shm_mem \<Rightarrow> reader_pc \<Rightarrow> reader_pc" where
  "reader_step rd role m (R_START 0) = R_DONE None"
| "reader_step rd role m (R_START (Suc n)) =
     (let h = m_header m
      in if \<not> is_valid_header (buf_len rd) h then R_DONE None
         else if h_sequence h mod 2 = 1 then R_START n
         else if role_cache_is_current rd h role then R_CONFIRM n h
         else R_ENTRIES n h [])"
| "reader_step rd role m (R_CONFIRM n h) =
     (if headers_match h (m_header m) then R_DONE (Some (m_header m, None)) else R_ENTRIES n h [])"
| "reader_step rd role m (R_ENTRIES n h es) =
     (if int (length es) < h_entry_count h then R_ENTRIES n h (es @ [m_slots m (length es)])
      else if headers_match h (m_header m) then R_DONE (Some (m_header m, Some es))
      else R_START n)"
| "reader_step rd role m (R_DONE res) = R_DONE res"

definition update_heartbeat_and_check_stale :: "rat \<Rightarrow> shm_header \<Rightarrow> shm_reader \<Rightarrow> shm_reader \<times> bool" where
  "update_heartbeat_and_check_stale now h rd =
     (let rd1 = (if h_heartbeat_sequence h \<noteq> last_heartbeat_value rd
                 then rd\<lparr>last_heartbeat_value := h_heartbeat_sequence h, last_heartbeat_time := now\<rparr> else rd)
      in (rd1, last_heartbeat_time rd1 > 0 \<and> now - last_heartbeat_time rd1 > HEARTBEAT_STALE_SEC))"

definition record_patched_sequences :: "shm_header \<Rightarrow> pd_role option \<Rightarrow> shm_reader \<Rightarrow> shm_reader" where
  "record_patched_sequences h role rd =
     (case (role_sequence_from_header h role, role) of
        (Some q, Some \<rho>) \<Rightarrow> rd\<lparr>last_role_sequences := dset \<rho> q (last_role_sequences rd)\<rparr>
      | _ \<Rightarrow> rd\<lparr>last_role_sequences :=
                 (if role_sequences_supported h
                  then [(ROLE_P, h_prefill_sequence h), (ROLE_D, h_decode_sequence h), (ROLE_U, h_hybrid_sequence h)]
                  else []),
               last_sequence := Some (h_sequence h)\<rparr>)"

text \<open>The calls of \<open>patch_workload_from_shm\<close> that an accepted snapshot causes, in order.\<close>

definition patch_entries :: "shm_entry list \<Rightarrow> pd_role option \<Rightarrow> (int \<times> int \<times> pd_role \<times> rat) list" where
  "patch_entries es role =
     List.map_filter
       (\<lambda>e. let p = shm_role_to_pdrole (e_role e)
            in if role \<in> {Some ROLE_P, Some ROLE_D, Some ROLE_U} \<and> Some p \<noteq> role then None
               else Some (e_instance_id e, e_endpoint_id e, p, e_active_tokens e)) es"

text \<open>What \<open>read_and_patch_cache\<close> does with the outcome of the reading loop.\<close>

definition finish_read ::
  "rat \<Rightarrow> pd_role option \<Rightarrow> (shm_header \<times> shm_entry list option) option \<Rightarrow> shm_reader \<Rightarrow>
   shm_reader \<times> (int \<times> int \<times> pd_role \<times> rat) list \<times> int option \<times> bool" where
  "finish_read now role res rd =
     (case res of
        None \<Rightarrow> (rd, [], None, False)
      | Some (h, es) \<Rightarrow>
          (case update_heartbeat_and_check_stale now h rd of
             (rd1, stale) \<Rightarrow>
               (case es of
                  None \<Rightarrow> (rd1, [], Some (h_instance_version h), stale)
                | Some es' \<Rightarrow> (record_patched_sequences h role rd1, patch_entries es' role, Some (h_instance_version h), stale))))"

end
