(* ===== verification/Seqlock.thy ===== *)
theory Seqlock
  imports Workload_Shm
begin

text \<open>
  The seqlock protocol of the workload table: the writer's stores are bracketed by headers with a
  growing sequence number, and a snapshot that a reader accepts is the content of the memory at one moment
  outside every bracket, whatever stores came between its loads. The reader also ends after a
  bounded number of loads.
\<close>

section \<open>Bracketed stores\<close>

abbreviation m_seq :: "shm_mem \<Rightarrow> int" where
  "m_seq m \<equiv> h_sequence (m_header m)"

text \<open>Every header store raises the sequence number, and slots are stored only while it is odd.\<close>

fun bracketed :: "int \<Rightarrow> mem_act list \<Rightarrow> bool" where
  "bracketed q [] \<longleftrightarrow> True"
| "bracketed q (W_HEADER h # as) \<longleftrightarrow> q < h_sequence h \<and> bracketed (h_sequence h) as"
| "bracketed q (W_SLOT k e # as) \<longleftrightarrow> odd q \<and> bracketed q as"
| "bracketed q (W_HEARTBEAT v # as) \<longleftrightarrow> bracketed q as"

fun seq_after :: "int \<Rightarrow> mem_act list \<Rightarrow> int" where
  "seq_after q [] = q"
| "seq_after q (W_HEADER h # as) = seq_after (h_sequence h) as"
| "seq_after q (W_SLOT k e # as) = seq_after q as"
| "seq_after q (W_HEARTBEAT v # as) = seq_after q as"

lemma bracketed_append: "bracketed q (as @ bs) \<longleftrightarrow> bracketed q as \<and> bracketed (seq_after q as) bs"
  by (induction q as rule: seq_after.induct) auto

lemma seq_after_append: "seq_after q (as @ bs) = seq_after (seq_after q as) bs"
  by (induction q as rule: seq_after.induct) auto

section \<open>The writer's transactions\<close>

text \<open>What one call of the writer stores: nothing, one heartbeat, or slots between an odd and the next even header.\<close>

definition transaction :: "int \<Rightarrow> mem_act list \<Rightarrow> bool" where
  "transaction q as \<longleftrightarrow> as = [] \<or> (\<exists>v. as = [W_HEARTBEAT v]) \<or>
     (\<exists>h ss g. as = W_HEADER h # ss @ [W_HEADER g] \<and> h_sequence h = q + 1 \<and> h_sequence g = q + 2 \<and>
        (\<forall>a\<in>set ss. \<exists>k e. a = W_SLOT k e))"

lemma slots_seq: "\<forall>a\<in>set ss. \<exists>k e. a = W_SLOT k e \<Longrightarrow> seq_after q ss = q \<and> (odd q \<longrightarrow> bracketed q ss)"
  by (induction ss) auto

lemma transaction_bracketed:
  "even q \<Longrightarrow> transaction q as \<Longrightarrow> bracketed q as \<and> even (seq_after q as)"
  using slots_seq by (auto simp: transaction_def bracketed_append seq_after_append)

lemma transaction_atomic:
  assumes "even q" and "transaction q as" and "even (seq_after q (take j as))"
  shows "take j as = [] \<or> take j as = as"
proof (rule ccontr)
  assume n: "\<not> (take j as = [] \<or> take j as = as)"
  then have j: "0 < j" "j < length as" by auto
  from assms(2) consider v where "as = [W_HEARTBEAT v]" | "as = []"
    | h ss g where "as = W_HEADER h # ss @ [W_HEADER g]" "h_sequence h = q + 1" "\<forall>a\<in>set ss. \<exists>k e. a = W_SLOT k e"
    unfolding transaction_def by blast
  then show False
  proof cases
    case 3
    with j have "take j as = W_HEADER h # take (j - 1) ss" by (simp add: take_Cons')
    moreover have "seq_after (q + 1) (take (j - 1) ss) = q + 1"
      using slots_seq [of "take (j - 1) ss"] 3(3) by (meson in_set_takeD)
    ultimately show False using assms(1,3) 3(2) by simp
  qed (use j in auto)
qed

definition stores :: "mem_act list \<Rightarrow> shm_writer \<Rightarrow> shm_writer \<Rightarrow> bool" where
  "stores as w w' \<longleftrightarrow> wr_trace w' = wr_trace w @ as \<and> wr_mem w' = fold apply_act as (wr_mem w)"

lemma stores_trans: "stores as u v \<Longrightarrow> stores bs v w \<Longrightarrow> stores (as @ bs) u w"
  by (simp add: stores_def)

lemma stores_Nil: "wr_trace w' = wr_trace w \<Longrightarrow> wr_mem w' = wr_mem w \<Longrightarrow> stores [] w w'"
  by (simp add: stores_def)

lemma stores_emit: "stores [a] w (emit a w)"
  by (simp add: stores_def emit_def)

lemma m_seq_stores: "m_seq (fold apply_act as m) = seq_after (m_seq m) as"
  by (induction "m_seq m" as arbitrary: m rule: seq_after.induct) simp_all

definition quiescent :: "shm_writer \<Rightarrow> bool" where
  "quiescent w \<longleftrightarrow> even (wr_sequence w) \<and> m_seq (wr_mem w) = wr_sequence w"

lemma emit_fields [simp]:
  "wr_max_entries (emit a w) = wr_max_entries w" "slot_map (emit a w) = slot_map w" "wr_sequence (emit a w) = wr_sequence w"
  "role_sequences (emit a w) = role_sequences w" "role_members (emit a w) = role_members w"
  "entry_count (emit a w) = entry_count w" "instance_version (emit a w) = instance_version w"
  "heartbeat_sequence (emit a w) = heartbeat_sequence w" "wr_mem (emit a w) = apply_act a (wr_mem w)"
  by (simp_all add: emit_def)

lemma write_header_fields [simp]:
  "wr_max_entries (write_header w) = wr_max_entries w" "slot_map (write_header w) = slot_map w"
  "wr_sequence (write_header w) = wr_sequence w" "role_sequences (write_header w) = role_sequences w"
  "role_members (write_header w) = role_members w" "entry_count (write_header w) = entry_count w"
  "instance_version (write_header w) = instance_version w" "m_slots (wr_mem (write_header w)) = m_slots (wr_mem w)"
  "m_seq (wr_mem (write_header w)) = wr_sequence w" "h_entry_count (m_header (wr_mem (write_header w))) = int (entry_count w)"
  "h_max_entries (m_header (wr_mem (write_header w))) = int (wr_max_entries w)"
  by (simp_all add: write_header_def writer_header_def Let_def)

lemma stores_write_header: "\<exists>h. stores [W_HEADER h] w (write_header w) \<and> h_sequence h = wr_sequence w"
  by (auto simp: write_header_def stores_def emit_def writer_header_def Let_def)

lemma begin_write_even:
  "even (wr_sequence w) \<Longrightarrow> begin_write w = write_header (w\<lparr>wr_sequence := wr_sequence w + 1\<rparr>)"
  by (simp add: begin_write_def even_iff_mod_2_eq_zero)

lemma end_write_odd:
  "odd (wr_sequence w) \<Longrightarrow> end_write w = write_header (w\<lparr>wr_sequence := wr_sequence w + 1\<rparr>)"
  by (simp add: end_write_def odd_iff_mod_2_eq_one)

lemma write_entries_props:
  "stores (map (\<lambda>(k, e). W_SLOT k e) (enumerate 0 es)) w (write_entries es w)"
  "m_slots (wr_mem (write_entries es w)) k = (if k < length es then es ! k else m_slots (wr_mem w) k)"
  "m_header (wr_mem (write_entries es w)) = m_header (wr_mem w)"
  "wr_sequence (write_entries es w) = wr_sequence w" "slot_map (write_entries es w) = slot_map w"
  "entry_count (write_entries es w) = entry_count w" "wr_max_entries (write_entries es w) = wr_max_entries w"
  "instance_version (write_entries es w) = instance_version w"
proof -
  have *: "stores (map (\<lambda>(k, e). W_SLOT k e) (enumerate n es)) w (fold (\<lambda>(slot, e). emit (W_SLOT slot e)) (enumerate n es) w) \<and>
      m_slots (wr_mem (fold (\<lambda>(slot, e). emit (W_SLOT slot e)) (enumerate n es) w)) k =
        (if n \<le> k \<and> k < n + length es then es ! (k - n) else m_slots (wr_mem w) k) \<and>
      m_header (wr_mem (fold (\<lambda>(slot, e). emit (W_SLOT slot e)) (enumerate n es) w)) = m_header (wr_mem w)" for n w k
  proof (induction es arbitrary: n w)
    case (Cons e es)
    from Cons.IH [of "Suc n" "emit (W_SLOT n e) w"] stores_trans [OF stores_emit [of "W_SLOT n e" w]] show ?case
      by (auto simp: nth_Cons')
  qed (simp add: stores_Nil)
  from * [of 0 w k] show "stores (map (\<lambda>(k, e). W_SLOT k e) (enumerate 0 es)) w (write_entries es w)"
    "m_slots (wr_mem (write_entries es w)) k = (if k < length es then es ! k else m_slots (wr_mem w) k)"
    "m_header (wr_mem (write_entries es w)) = m_header (wr_mem w)"
    by (simp_all add: write_entries_def)
  have *: "wr_sequence (fold (\<lambda>(slot, e). emit (W_SLOT slot e)) xs w) = wr_sequence w \<and>
      slot_map (fold (\<lambda>(slot, e). emit (W_SLOT slot e)) xs w) = slot_map w \<and>
      entry_count (fold (\<lambda>(slot, e). emit (W_SLOT slot e)) xs w) = entry_count w \<and>
      wr_max_entries (fold (\<lambda>(slot, e). emit (W_SLOT slot e)) xs w) = wr_max_entries w \<and>
      instance_version (fold (\<lambda>(slot, e). emit (W_SLOT slot e)) xs w) = instance_version w" for xs
    by (induction xs arbitrary: w) auto
  then show "wr_sequence (write_entries es w) = wr_sequence w" "slot_map (write_entries es w) = slot_map w"
    "entry_count (write_entries es w) = entry_count w" "wr_max_entries (write_entries es w) = wr_max_entries w"
    "instance_version (write_entries es w) = instance_version w"
    by (simp_all add: write_entries_def)
qed

text \<open>A bracket around stores of slots, followed by changes of the writer's own fields, is a transaction.\<close>

lemma bracket_transaction:
  assumes q: "quiescent w" and pre: "wr_trace v = wr_trace w" "wr_mem v = wr_mem w" "wr_sequence v = wr_sequence w"
    and body: "stores ss (begin_write v) u" "\<forall>a\<in>set ss. \<exists>k e. a = W_SLOT k e" "wr_sequence u = wr_sequence (begin_write v)"
    and post: "wr_trace u' = wr_trace u" "wr_mem u' = wr_mem u" "wr_sequence u' = wr_sequence u"
  shows "\<exists>as. stores as w (end_write u') \<and> transaction (wr_sequence w) as \<and> quiescent (end_write u')"
proof -
  have e: "even (wr_sequence v)" using q pre by (simp add: quiescent_def)
  let ?v = "v\<lparr>wr_sequence := wr_sequence v + 1\<rparr>" and ?u = "u'\<lparr>wr_sequence := wr_sequence u' + 1\<rparr>"
  have s: "wr_sequence u' = wr_sequence w + 1" using body(3) post(3) pre(3) by (simp add: begin_write_even [OF e])
  then have o: "odd (wr_sequence u')" using q by (simp add: quiescent_def)
  obtain h where h: "stores [W_HEADER h] ?v (write_header ?v)" "h_sequence h = wr_sequence w + 1"
    using stores_write_header [of ?v] pre(3) by auto
  obtain g where g: "stores [W_HEADER g] ?u (write_header ?u)" "h_sequence g = wr_sequence w + 2"
    using stores_write_header [of ?u] s by auto
  have "stores [W_HEADER h] w (begin_write v)"
    using h(1) pre by (simp add: begin_write_even [OF e] stores_def)
  from stores_trans [OF stores_trans [OF this body(1)] stores_Nil [OF post(1,2)]]
  have "stores (W_HEADER h # ss) w u'" by simp
  then have "stores (W_HEADER h # ss @ [W_HEADER g]) w (end_write u')"
    using g(1) unfolding end_write_odd [OF o] by (simp add: stores_def)
  moreover have "transaction (wr_sequence w) (W_HEADER h # ss @ [W_HEADER g])"
    unfolding transaction_def using h(2) g(2) body(2) by blast
  moreover have "quiescent (end_write u')" using o by (simp add: end_write_odd quiescent_def)
  ultimately show ?thesis by blast
qed

lemma bump_role_fields [simp]:
  "wr_trace (bump_role_sequence \<rho> w) = wr_trace w" "wr_mem (bump_role_sequence \<rho> w) = wr_mem w"
  "wr_sequence (bump_role_sequence \<rho> w) = wr_sequence w" "slot_map (bump_role_sequence \<rho> w) = slot_map w"
  "entry_count (bump_role_sequence \<rho> w) = entry_count w" "wr_max_entries (bump_role_sequence \<rho> w) = wr_max_entries w"
  by (simp_all add: bump_role_sequence_def split: option.split)

lemma bump_changed_fields [simp]:
  "wr_trace (bump_changed_role_sequences es w) = wr_trace w" "wr_mem (bump_changed_role_sequences es w) = wr_mem w"
  "wr_sequence (bump_changed_role_sequences es w) = wr_sequence w" "slot_map (bump_changed_role_sequences es w) = slot_map w"
  "entry_count (bump_changed_role_sequences es w) = entry_count w"
  "wr_max_entries (bump_changed_role_sequences es w) = wr_max_entries w"
  by (simp_all add: bump_changed_role_sequences_def)

lemma snapshot_transaction:
  assumes "quiescent w"
  shows "\<exists>as. stores as w (write_snapshot s w) \<and> transaction (wr_sequence w) as \<and> quiescent (write_snapshot s w)"
proof -
  let ?es = "collect_entries s (wr_max_entries w)"
  let ?v = "w\<lparr>slot_map := slots_of ?es, entry_count := length ?es\<rparr>"
  have "\<forall>a\<in>set (map (\<lambda>(k, e). W_SLOT k e) (enumerate 0 ?es)). \<exists>k e. a = W_SLOT k e" by auto
  from bracket_transaction [OF assms, where v = ?v, OF _ _ _ write_entries_props(1) this] show ?thesis
    unfolding write_snapshot_def Let_def by (simp add: write_entries_props(4))
qed

lemma single_entry_transaction:
  assumes "quiescent w"
  shows "\<exists>as. stores as w (write_single_entry_from_workload iid eid role wl s w) \<and> transaction (wr_sequence w) as \<and>
    quiescent (write_single_entry_from_workload iid eid role wl s w)"
proof (cases "dget (slot_map w) (iid, eid)")
  case None
  then show ?thesis using snapshot_transaction [OF assms] by (simp add: write_single_entry_from_workload_def)
next
  case (Some slot)
  show ?thesis
  proof (cases "role = None \<or> wl = None")
    case True
    with Some have "write_single_entry_from_workload iid eid role wl s w = w"
      by (auto simp: write_single_entry_from_workload_def split: option.split)
    then show ?thesis using assms stores_Nil [of w w] by (auto simp: transaction_def)
  next
    case False
    then obtain \<rho> l where "role = Some \<rho>" "wl = Some l" by auto
    let ?a = "W_SLOT slot \<lparr>e_instance_id = iid, e_endpoint_id = eid, e_role = pdrole_to_shm_role \<rho>,
      e_active_tokens = active_tokens l\<rparr>"
    have op: "write_single_entry_from_workload iid eid role wl s w = end_write (bump_role_sequence \<rho> (emit ?a (begin_write w)))"
      using Some \<open>role = Some \<rho>\<close> \<open>wl = Some l\<close> by (simp add: write_single_entry_from_workload_def)
    have "\<forall>a\<in>set [?a]. \<exists>k e. a = W_SLOT k e" by simp
    from bracket_transaction [OF assms, where v = w, OF _ _ _ stores_emit this, where u' = "bump_role_sequence \<rho> (emit ?a (begin_write w))"]
    show ?thesis unfolding op by simp
  qed
qed

lemma heartbeat_transaction:
  assumes "quiescent w"
  shows "\<exists>as. stores as w (write_heartbeat w) \<and> transaction (wr_sequence w) as \<and> quiescent (write_heartbeat w)"
proof -
  let ?v = "(heartbeat_sequence w + 1) mod 2 ^ 64"
  have "stores [W_HEARTBEAT ?v] w (write_heartbeat w)"
    by (simp add: write_heartbeat_def stores_def emit_def Let_def)
  moreover have "quiescent (write_heartbeat w)"
    using assms by (simp add: write_heartbeat_def quiescent_def Let_def)
  ultimately show ?thesis by (auto simp: transaction_def)
qed

section \<open>Sequences of calls\<close>

text \<open>
  The contract of a writer: each call is a transaction between quiescent states. Then a reader that
  sees the memory with an even sequence number sees it as it is after a number of complete calls.
\<close>

locale seqlock_writer =
  fixes call :: "'c \<Rightarrow> shm_writer \<Rightarrow> shm_writer"
  assumes call_transaction:
    "quiescent w \<Longrightarrow> \<exists>as. stores as w (call c w) \<and> transaction (wr_sequence w) as \<and> quiescent (call c w)"
begin

lemma run_calls:
  "quiescent w \<Longrightarrow> \<exists>as. stores as w (fold call cs w) \<and> bracketed (m_seq (wr_mem w)) as \<and> quiescent (fold call cs w) \<and>
     (\<forall>j. even (seq_after (m_seq (wr_mem w)) (take j as)) \<longrightarrow>
        (\<exists>i\<le>length cs. fold apply_act (take j as) (wr_mem w) = wr_mem (fold call (take i cs) w)))"
proof (induction cs arbitrary: w)
  case Nil
  then show ?case using stores_Nil [of w w] by fastforce
next
  case (Cons c cs)
  let ?q = "m_seq (wr_mem w)"
  obtain as where as: "stores as w (call c w)" "transaction ?q as" "quiescent (call c w)" and e: "even ?q"
    using call_transaction [OF Cons.prems, of c] Cons.prems by (auto simp: quiescent_def)
  obtain bs where bs: "stores bs (call c w) (fold call cs (call c w))" "bracketed (m_seq (wr_mem (call c w))) bs"
      "quiescent (fold call cs (call c w))"
    and at: "\<And>j. even (seq_after (m_seq (wr_mem (call c w))) (take j bs)) \<Longrightarrow>
      \<exists>i\<le>length cs. fold apply_act (take j bs) (wr_mem (call c w)) = wr_mem (fold call (take i cs) (call c w))"
    using Cons.IH [OF as(3)] by blast
  have mem: "wr_mem (call c w) = fold apply_act as (wr_mem w)" using as(1) by (simp add: stores_def)
  then have seq: "m_seq (wr_mem (call c w)) = seq_after ?q as" by (simp add: m_seq_stores)
  have "\<exists>i\<le>length (c # cs). fold apply_act (take j (as @ bs)) (wr_mem w) = wr_mem (fold call (take i (c # cs)) w)"
    if ev: "even (seq_after ?q (take j (as @ bs)))" for j
  proof (cases "length as \<le> j")
    case True
    then have "take j (as @ bs) = as @ take (j - length as) bs" by simp
    with ev at [of "j - length as"] seq obtain i where "i \<le> length cs"
      "fold apply_act (take (j - length as) bs) (wr_mem (call c w)) = wr_mem (fold call (take i cs) (call c w))"
      by (auto simp: seq_after_append)
    with \<open>take j (as @ bs) = _\<close> mem show ?thesis by (intro exI [of _ "Suc i"]) simp
  next
    case False
    then have t: "take j (as @ bs) = take j as" by simp
    with transaction_atomic [OF e as(2), of j] ev consider "take j as = []" | "take j as = as" by auto
    then show ?thesis
    proof cases
      case 1
      with t have eq: "take j (as @ bs) = []" by simp
      show ?thesis unfolding eq by (intro exI [of _ 0]) simp
    next
      case 2
      with t have eq: "take j (as @ bs) = as" by simp
      show ?thesis unfolding eq using mem by (intro exI [of _ 1]) simp
    qed
  qed
  moreover have "stores (as @ bs) w (fold call (c # cs) w)" using stores_trans [OF as(1) bs(1)] by simp
  moreover have "bracketed ?q (as @ bs)"
    using transaction_bracketed [OF e as(2)] bs(2) by (simp add: bracketed_append seq)
  ultimately show ?case using bs(3) by (intro exI [of _ "as @ bs"]) simp
qed

end

datatype writer_call =
    CALL_SNAPSHOT pools
  | CALL_ENTRY int int "pd_role option" "workload option" pools
  | CALL_HEARTBEAT

fun writer_apply :: "writer_call \<Rightarrow> shm_writer \<Rightarrow> shm_writer" where
  "writer_apply (CALL_SNAPSHOT s) w = write_snapshot s w"
| "writer_apply (CALL_ENTRY iid eid role wl s) w = write_single_entry_from_workload iid eid role wl s w"
| "writer_apply CALL_HEARTBEAT w = write_heartbeat w"

interpretation shm_calls: seqlock_writer writer_apply
proof
  fix w c assume "quiescent w"
  then show "\<exists>as. stores as w (writer_apply c w) \<and> transaction (wr_sequence w) as \<and> quiescent (writer_apply c w)"
    by (cases c) (simp_all add: snapshot_transaction single_entry_transaction heartbeat_transaction)
qed

section \<open>Interleaving\<close>

text \<open>
  Stores of the writer, taken from the front of a list, and loads of the reader in any order. The last
  component is the history of the memory.
\<close>

inductive seq_reach ::
  "shm_reader \<Rightarrow> pd_role option \<Rightarrow> mem_act list \<Rightarrow> shm_mem \<Rightarrow>
   mem_act list \<Rightarrow> shm_mem \<Rightarrow> reader_pc \<Rightarrow> nat \<Rightarrow> bool"
  for rd role as m where
  start: "seq_reach rd role as m as m (R_START STABLE_SNAPSHOT_READ_ATTEMPTS) 0"
| store: "seq_reach rd role as m (a # rest) m' pc n \<Longrightarrow> seq_reach rd role as m rest (apply_act a m') pc (Suc n)"
| load: "seq_reach rd role as m rest m' pc n \<Longrightarrow> seq_reach rd role as m rest m' (reader_step rd role m' pc) n"

text \<open>The number \<open>n\<close> of stores made so far determines the memory.\<close>

lemma seq_reach_mem:
  "seq_reach rd role as m rest m' pc n \<Longrightarrow> m' = fold apply_act (take n as) m \<and> rest = drop n as \<and> n \<le> length as"
proof (induction rule: seq_reach.induct)
  case (store a rest m' pc n)
  then have "n < length as" by (metis drop_eq_Nil leI list.distinct(1))
  moreover from this have "as ! n = a" "drop (Suc n) as = rest"
    using store.IH by (metis Cons_nth_drop_Suc list.inject)+
  ultimately show ?case using store.IH by (simp add: take_Suc_conv_app_nth)
qed auto

lemma bracketed_step:
  assumes "bracketed (m_seq m) (a # rest)"
  shows "bracketed (m_seq (apply_act a m)) rest" and "m_seq m \<le> m_seq (apply_act a m)"
    and "even (m_seq m) \<Longrightarrow> m_seq (apply_act a m) = m_seq m \<Longrightarrow> m_slots (apply_act a m) = m_slots m"
  using assms by (cases a; auto)+

text \<open>
  What the reader knows. The header it holds was loaded, with an even number, from the memory after \<open>k\<close> stores;
  as long as the number in the memory is still that one, no slot has changed since and the entries read so far are
  those of that memory.
\<close>

definition reading_ok :: "mem_act list \<Rightarrow> shm_mem \<Rightarrow> shm_mem \<Rightarrow> shm_header \<Rightarrow> shm_entry list \<Rightarrow> bool" where
  "reading_ok as m m' h es \<longleftrightarrow>
     (\<exists>k\<le>length as. m_header (fold apply_act (take k as) m) = h \<and> even (h_sequence h) \<and> h_sequence h \<le> m_seq m' \<and>
        (m_seq m' = h_sequence h \<longrightarrow>
           m_slots m' = m_slots (fold apply_act (take k as) m) \<and>
           es = map (m_slots (fold apply_act (take k as) m)) [0..<length es]))"

fun reader_ok :: "mem_act list \<Rightarrow> shm_mem \<Rightarrow> shm_mem \<Rightarrow> reader_pc \<Rightarrow> bool" where
  "reader_ok as m m' (R_START n) \<longleftrightarrow> True"
| "reader_ok as m m' (R_CONFIRM n h) \<longleftrightarrow> reading_ok as m m' h [] \<and> 0 \<le> h_entry_count h"
| "reader_ok as m m' (R_ENTRIES n h es) \<longleftrightarrow> reading_ok as m m' h es \<and> (es \<noteq> [] \<longrightarrow> int (length es) \<le> h_entry_count h) \<and> 0 \<le> h_entry_count h"
| "reader_ok as m m' (R_DONE (Some (g, Some es))) \<longleftrightarrow>
     (\<exists>k\<le>length as. headers_match (m_header (fold apply_act (take k as) m)) g \<and>
        es = map (m_slots (fold apply_act (take k as) m)) [0..<nat (h_entry_count g)])"
| "reader_ok as m m' (R_DONE _) \<longleftrightarrow> True"

lemma reading_okI:
  "k \<le> length as \<Longrightarrow> m_header (fold apply_act (take k as) m) = h \<Longrightarrow> even (h_sequence h) \<Longrightarrow> h_sequence h \<le> m_seq m' \<Longrightarrow>
   (m_seq m' = h_sequence h \<Longrightarrow>
      m_slots m' = m_slots (fold apply_act (take k as) m) \<and> es = map (m_slots (fold apply_act (take k as) m)) [0..<length es]) \<Longrightarrow>
   reading_ok as m m' h es"
  unfolding reading_ok_def by auto

lemma reading_store:
  assumes "reading_ok as m m' h es" and "bracketed (m_seq m') (a # rest)"
  shows "reading_ok as m (apply_act a m') h es"
proof -
  obtain k where k: "k \<le> length as" "m_header (fold apply_act (take k as) m) = h" "even (h_sequence h)" "h_sequence h \<le> m_seq m'"
    and c: "m_seq m' = h_sequence h \<longrightarrow> m_slots m' = m_slots (fold apply_act (take k as) m) \<and>
      es = map (m_slots (fold apply_act (take k as) m)) [0..<length es]"
    using assms(1) unfolding reading_ok_def by blast
  note step = bracketed_step [OF assms(2)]
  have "m_slots (apply_act a m') = m_slots (fold apply_act (take k as) m) \<and>
      es = map (m_slots (fold apply_act (take k as) m)) [0..<length es]"
    if q: "m_seq (apply_act a m') = h_sequence h"
  proof -
    have eq: "m_seq m' = h_sequence h" using q k(4) step(2) by linarith
    with step(3) q k(3) have "m_slots (apply_act a m') = m_slots m'" by simp
    with c eq show ?thesis by simp
  qed
  with k step(2) show ?thesis by (intro reading_okI [of k]) (simp_all add: order_trans)
qed

lemma reading_load:
  assumes "reading_ok as m m' h es"
  shows "reading_ok as m m' h (es @ [m_slots m' (length es)])"
proof -
  obtain k where k: "k \<le> length as" "m_header (fold apply_act (take k as) m) = h" "even (h_sequence h)" "h_sequence h \<le> m_seq m'"
    and c: "m_seq m' = h_sequence h \<longrightarrow> m_slots m' = m_slots (fold apply_act (take k as) m) \<and>
      es = map (m_slots (fold apply_act (take k as) m)) [0..<length es]"
    using assms unfolding reading_ok_def by blast
  have "es @ [m_slots m' (length es)] = map (m_slots (fold apply_act (take k as) m)) [0..<length (es @ [m_slots m' (length es)])]"
    if "m_seq m' = h_sequence h" using c that by simp
  with k c show ?thesis by (intro reading_okI [of k]) simp_all
qed

lemma reading_start:
  "n \<le> length as \<Longrightarrow> even (m_seq (fold apply_act (take n as) m)) \<Longrightarrow>
   reading_ok as m (fold apply_act (take n as) m) (m_header (fold apply_act (take n as) m)) []"
  unfolding reading_ok_def by (intro exI [of _ n]) simp

lemma reader_ok_store:
  "reader_ok as m m' pc \<Longrightarrow> bracketed (m_seq m') (a # rest) \<Longrightarrow> reader_ok as m (apply_act a m') pc"
  by (cases "(as, m, m', pc)" rule: reader_ok.cases) (auto intro: reading_store)

lemma reader_ok_load:
  assumes "reader_ok as m m' pc" and m': "m' = fold apply_act (take n as) m" "n \<le> length as"
  shows "reader_ok as m m' (reader_step rd role m' pc)"
proof (cases "(rd, role, m', pc)" rule: reader_step.cases)
  case (2 rd' role' m'' j)
  have "reading_ok as m m' (m_header m') []" if "\<not> m_seq m' mod 2 = 1"
    using reading_start [OF m'(2), of m] that m'(1) by (simp add: even_iff_mod_2_eq_zero)
  with 2 show ?thesis by (auto simp: Let_def is_valid_header_def)
next
  case (3 rd' role' m'' j h)
  then show ?thesis using assms(1) by (auto simp: reading_ok_def)
next
  case (4 rd' role' m'' j h es)
  show ?thesis
  proof (cases "int (length es) < h_entry_count h")
    case True
    with 4 assms(1) show ?thesis by (auto intro: reading_load)
  next
    case False
    show ?thesis
    proof (cases "headers_match h (m_header m')")
      case True
      from 4 assms(1) have "reading_ok as m m' h es" by simp
      then obtain k where k: "k \<le> length as" "m_header (fold apply_act (take k as) m) = h"
        and c: "m_seq m' = h_sequence h \<longrightarrow> es = map (m_slots (fold apply_act (take k as) m)) [0..<length es]"
        unfolding reading_ok_def by auto
      have "length es = nat (h_entry_count (m_header m'))"
        using False 4 assms(1) True by (cases "es = []") (auto simp: headers_match_def)
      moreover have "m_seq m' = h_sequence h" using True by (simp add: headers_match_def)
      ultimately show ?thesis using 4 False True k c by auto
    qed (use 4 False in simp)
  qed
qed (use assms(1) in auto)

lemma reader_ok_reach:
  assumes "seq_reach rd role as m rest m' pc n" and "bracketed (m_seq m) as"
  shows "reader_ok as m m' pc"
  using assms
proof (induction rule: seq_reach.induct)
  case (store a rest m' pc n)
  from seq_reach_mem [OF store.hyps] have m': "m' = fold apply_act (take n as) m" "a # rest = drop n as" by auto
  have "bracketed (m_seq m') (a # rest)"
    using store.prems unfolding m' m_seq_stores by (metis append_take_drop_id bracketed_append)
  with store show ?case by (auto intro: reader_ok_store)
next
  case (load rest m' pc n)
  with seq_reach_mem [OF load.hyps] reader_ok_load show ?case by blast
qed simp

section \<open>Termination of the reader\<close>

text \<open>Every load that does not end the reading lowers the measure, whatever the memory is.\<close>

fun loads_left :: "nat \<Rightarrow> reader_pc \<Rightarrow> nat" where
  "loads_left b (R_START n) = n * (b + 3) + 1"
| "loads_left b (R_CONFIRM n h) = n * (b + 3) + b + 3"
| "loads_left b (R_ENTRIES n h es) = n * (b + 3) + (b - length es) + 2"
| "loads_left b (R_DONE r) = 0"

fun bounded_pc :: "nat \<Rightarrow> reader_pc \<Rightarrow> bool" where
  "bounded_pc b (R_CONFIRM n h) \<longleftrightarrow> h_entry_count h \<le> int b"
| "bounded_pc b (R_ENTRIES n h es) \<longleftrightarrow> h_entry_count h \<le> int b"
| "bounded_pc b pc \<longleftrightarrow> True"

lemma valid_header_bound: "is_valid_header n h \<Longrightarrow> h_entry_count h \<le> int (n div ENTRY_SIZE)"
proof -
  assume "is_valid_header n h"
  then have "h_entry_count h * 24 \<le> int n" by (simp add: is_valid_header_def HEADER_SIZE_def ENTRY_SIZE_def)
  then have "h_entry_count h \<le> int n div 24" by linarith
  then show ?thesis by (simp add: ENTRY_SIZE_def zdiv_int)
qed

lemma reader_step_measure:
  assumes "bounded_pc (buf_len rd div ENTRY_SIZE) pc"
  shows "bounded_pc (buf_len rd div ENTRY_SIZE) (reader_step rd role m pc) \<and>
    ((\<exists>r. pc = R_DONE r) \<or>
     loads_left (buf_len rd div ENTRY_SIZE) (reader_step rd role m pc) < loads_left (buf_len rd div ENTRY_SIZE) pc)"
proof (cases "(rd, role, m, pc)" rule: reader_step.cases)
  case (2 rd' role' m' j)
  then show ?thesis using valid_header_bound by (auto simp: Let_def)
qed (use assms in \<open>auto\<close>)

lemma reader_loads:
  "bounded_pc (buf_len rd div ENTRY_SIZE) pc \<Longrightarrow> loads_left (buf_len rd div ENTRY_SIZE) pc \<le> length ms \<Longrightarrow>
   \<exists>r. fold (reader_step rd role) ms pc = R_DONE r"
proof (induction ms arbitrary: pc)
  case Nil
  then show ?case by (cases pc) auto
next
  case (Cons m ms)
  from reader_step_measure [OF Cons.prems(1), of role m] consider r where "pc = R_DONE r"
    | "bounded_pc (buf_len rd div ENTRY_SIZE) (reader_step rd role m pc)"
      "loads_left (buf_len rd div ENTRY_SIZE) (reader_step rd role m pc) \<le> length ms"
    using Cons.prems(2) by fastforce
  then show ?case
  proof cases
    case 1
    have "fold (reader_step rd role) xs (R_DONE r) = R_DONE r" for xs by (induction xs) auto
    with 1 show ?thesis by blast
  next
    case 2
    with Cons.IH show ?thesis by simp
  qed
qed

section \<open>Properties\<close>

definition demo_mem :: shm_mem where
  "demo_mem = \<lparr>m_header = \<lparr>h_magic = MAGIC, h_schema_version = SCHEMA_VERSION, h_sequence = 0, h_entry_count = 0,
       h_max_entries = 8, h_instance_version = 0, h_heartbeat_sequence = 0, h_prefill_sequence = 0,
       h_decode_sequence = 0, h_hybrid_sequence = 0\<rparr>,
     m_slots = (\<lambda>_. \<lparr>e_instance_id = 0, e_endpoint_id = 0, e_role = 0, e_active_tokens = 0\<rparr>)\<rparr>"

text \<open>
  C3: no torn reads. Let the writer make any calls (snapshots, single entries, heartbeats) from a quiescent
  state while a reader loads the header, the entries and the header again, each store and each load in
  any order. If the reader accepts a snapshot, its entries are exactly the entries the memory holds
  after some number of complete calls, and the header it accepted agrees with that memory.
\<close>

theorem seqlock_snapshot_atomic:
  assumes "quiescent w" and "wr_trace (fold writer_apply cs w) = wr_trace w @ as"
    and "seq_reach rd role as (wr_mem w) rest m (R_DONE (Some (h, Some es))) n"
  shows "\<exists>i\<le>length cs. headers_match (m_header (wr_mem (fold writer_apply (take i cs) w))) h \<and>
    es = map (m_slots (wr_mem (fold writer_apply (take i cs) w))) [0..<nat (h_entry_count h)]"
proof -
  obtain as' where st: "stores as' w (fold writer_apply cs w)" "bracketed (m_seq (wr_mem w)) as'"
    and at: "\<And>j. even (seq_after (m_seq (wr_mem w)) (take j as')) \<Longrightarrow>
      \<exists>i\<le>length cs. fold apply_act (take j as') (wr_mem w) = wr_mem (fold writer_apply (take i cs) w)"
    using shm_calls.run_calls [OF assms(1), of cs] by blast
  have eq: "as' = as" using st(1) assms(2) by (simp add: stores_def)
  from reader_ok_reach [OF assms(3)] st(2) obtain k where
    k: "headers_match (m_header (fold apply_act (take k as) (wr_mem w))) h"
      "es = map (m_slots (fold apply_act (take k as) (wr_mem w))) [0..<nat (h_entry_count h)]"
    by (auto simp: eq)
  have "even (m_seq (fold apply_act (take k as) (wr_mem w)))"
    using k(1) unfolding headers_match_def by (metis even_iff_mod_2_eq_zero)
  with at [of k] k show ?thesis unfolding eq m_seq_stores by metis
qed

theorem seqlock_snapshot_atomic_witness:
  "\<exists>i\<le>1. headers_match (m_header (wr_mem (fold writer_apply (take i [CALL_HEARTBEAT]) (init_writer 8 demo_mem)))) (m_header demo_mem)"
proof -
  let ?w = "init_writer 8 demo_mem" and ?rd = "init_reader 256"
  have q: "quiescent ?w" by (simp add: quiescent_def init_writer_def demo_mem_def)
  have tr: "wr_trace (fold writer_apply [CALL_HEARTBEAT] ?w) = wr_trace ?w @ [W_HEARTBEAT 1]"
    by (simp add: write_heartbeat_def init_writer_def emit_def)
  have "seq_reach ?rd None [W_HEARTBEAT 1] (wr_mem ?w) [W_HEARTBEAT 1] (wr_mem ?w)
      (reader_step ?rd None (wr_mem ?w) (reader_step ?rd None (wr_mem ?w) (R_START STABLE_SNAPSHOT_READ_ATTEMPTS))) 0"
    by (intro seq_reach.load seq_reach.start)
  also have "reader_step ?rd None (wr_mem ?w) (reader_step ?rd None (wr_mem ?w) (R_START STABLE_SNAPSHOT_READ_ATTEMPTS)) =
      R_DONE (Some (m_header demo_mem, Some []))"
    by (simp add: STABLE_SNAPSHOT_READ_ATTEMPTS_def numeral_3_eq_3 init_writer_def init_reader_def demo_mem_def is_valid_header_def
        HEADER_SIZE_def ENTRY_SIZE_def role_cache_is_current_def role_sequence_from_header_def role_sequences_supported_def headers_match_def Let_def)
  finally show ?thesis using seqlock_snapshot_atomic [OF q tr] by fastforce
qed

text \<open>
  C32: the reader always ends. Whatever the memory holds at each of its loads, a reader with a buffer of
  \<open>n\<close> bytes has made its decision after at most \<open>3 * (n div 24 + 3) + 1\<close> loads.
\<close>

theorem reader_terminates:
  assumes "3 * (buf_len rd div ENTRY_SIZE + 3) + 1 \<le> length ms"
  shows "\<exists>r. fold (reader_step rd role) ms (R_START STABLE_SNAPSHOT_READ_ATTEMPTS) = R_DONE r"
  by (rule reader_loads) (use assms in \<open>simp_all add: STABLE_SNAPSHOT_READ_ATTEMPTS_def\<close>)

theorem reader_terminates_witness:
  "\<exists>r. fold (reader_step (init_reader 48) None) (replicate 16 demo_mem) (R_START STABLE_SNAPSHOT_READ_ATTEMPTS) = R_DONE r"
  by (rule reader_terminates) (simp add: init_reader_def ENTRY_SIZE_def)

end
