(* ===== verification/Pool_Ledger.thy ===== *)
theory Pool_Ledger
  imports Coordinator_Pools
begin

text \<open>
  The workload ledger of the coordinator's pools: the aggregate of an instance is the sum of its
  endpoint ledgers and no ledger is negative, through allocations, releases and over-releases. The
  fast path of \<open>update_instance_workload_sync\<close> keeps the aggregate in one addition; the
  lemmas show that it agrees with the rescan of \<open>_rebuild_instance_workload\<close>.
\<close>

section \<open>The ledger of one instance\<close>

abbreviation tokens :: "endpoint \<Rightarrow> rat" where
  "tokens e \<equiv> active_tokens (ep_workload e)"

definition ledger_ok :: "instance_obj \<Rightarrow> bool" where
  "ledger_ok i \<longleftrightarrow>
     active_tokens (gathered_workload i) = total_tokens i \<and> (\<forall>e \<in> set (endpoint_objs i). 0 \<le> tokens e)"

text \<open>The fields that no workload update writes.\<close>

definition same_static :: "instance_obj \<Rightarrow> instance_obj \<Rightarrow> bool" where
  "same_static i j \<longleftrightarrow>
     job_name i = job_name j \<and> model_name i = model_name j \<and> engine_type i = engine_type j \<and>
     dispatch_capabilities i = dispatch_capabilities j \<and> ins_id i = ins_id j \<and> ins_role i = ins_role j \<and>
     ins_status i = ins_status j \<and> parallel_cfg i = parallel_cfg j \<and>
     enable_multi_endpoints i = enable_multi_endpoints j \<and> node_managers i = node_managers j \<and>
     map (\<lambda>(loc, e). (loc, e\<lparr>ep_workload := zero_workload\<rparr>)) (iter_endpoints i) =
       map (\<lambda>(loc, e). (loc, e\<lparr>ep_workload := zero_workload\<rparr>)) (iter_endpoints j)"

lemma same_static_refl [simp]: "same_static i i"
  by (simp add: same_static_def)

lemma same_static_trans [trans]: "same_static i j \<Longrightarrow> same_static j k \<Longrightarrow> same_static i k"
  by (simp add: same_static_def)

lemma same_static_sym: "same_static i j \<Longrightarrow> same_static j i"
  by (simp add: same_static_def)

lemma same_static_gathered [simp]:
  "same_static (i\<lparr>gathered_workload := w\<rparr>) j = same_static i j"
  "same_static j (i\<lparr>gathered_workload := w\<rparr>) = same_static j i"
  by (simp_all add: same_static_def iter_endpoints_def)

lemma same_static_ids:
  "same_static i j \<Longrightarrow> map (\<lambda>(loc, e). (loc, ep_id e)) (iter_endpoints i) = map (\<lambda>(loc, e). (loc, ep_id e)) (iter_endpoints j)"
  by (drule arg_cong [where f = "map (\<lambda>(loc, e). (loc, ep_id e))", OF same_static_def [THEN iffD1, THEN conjunct2,
      THEN conjunct2, THEN conjunct2, THEN conjunct2, THEN conjunct2, THEN conjunct2, THEN conjunct2, THEN conjunct2,
      THEN conjunct2, THEN conjunct2]]) (simp add: comp_def case_prod_unfold)

section \<open>Writing one endpoint\<close>

lemma total_tokens_nested:
  "total_tokens i = sum_list (map (\<lambda>(pod, eps). sum_list (map (\<lambda>(k, e). tokens e) eps)) (endpoints i))"
  by (simp add: total_tokens_def endpoint_objs_def iter_endpoints_def map_concat sum_list_concat_map comp_def case_prod_unfold)

lemma endpoint_atE:
  assumes "endpoint_at i loc = Some e"
  obtains eps where "dget (endpoints i) (fst loc) = Some eps" and "dget eps (snd loc) = Some e"
  using assms by (auto simp: endpoint_at_def split: option.splits)

lemma total_write_endpoint:
  assumes "endpoint_at i loc = Some e"
  shows "total_tokens (write_endpoint loc e' i) = total_tokens i - tokens e + tokens e'"
proof -
  from assms obtain eps where eps: "dget (endpoints i) (fst loc) = Some eps" "dget eps (snd loc) = Some e"
    by (rule endpoint_atE)
  show ?thesis
    unfolding total_tokens_nested write_endpoint_def
    by (simp add: eps sum_dset [OF eps(1), where f = "\<lambda>eps. sum_list (map (\<lambda>(k, e). tokens e) eps)"]
        sum_dset [OF eps(2), where f = tokens])
qed

lemma endpoint_at_write:
  "endpoint_at i loc = Some e \<Longrightarrow>
   endpoint_at (write_endpoint loc e' i) loc' = (if loc' = loc then Some e' else endpoint_at i loc')"
  by (cases loc; cases loc') (auto simp: endpoint_at_def write_endpoint_def split: option.splits)

lemma set_write_endpoint:
  assumes "e'' \<in> set (endpoint_objs (write_endpoint loc e' i))"
  shows "e'' = e' \<or> e'' \<in> set (endpoint_objs i)"
proof (cases "dget (endpoints i) (fst loc)")
  case None
  with assms show ?thesis by (simp add: write_endpoint_def endpoint_objs_def iter_endpoints_def)
next
  case (Some eps)
  from assms Some obtain pod eps' k where
    *: "(pod, eps') \<in> set (dset (fst loc) (dset (snd loc) e' eps) (endpoints i))" "(k, e'') \<in> set eps'"
    by (auto simp: write_endpoint_def endpoint_objs_def iter_endpoints_def)
  from Some have mem: "(fst loc, eps) \<in> set (endpoints i)" by (rule map_of_SomeD)
  from set_dset [OF *(1)] *(2) mem show ?thesis
    by (auto dest!: set_dset simp: endpoint_objs_def iter_endpoints_def) force+
qed

lemma iter_write_endpoint:
  assumes at: "endpoint_at i loc = Some e" and g: "g e' = g e"
  shows "map (\<lambda>(loc, e). (loc, g e)) (iter_endpoints (write_endpoint loc e' i)) =
         map (\<lambda>(loc, e). (loc, g e)) (iter_endpoints i)"
proof -
  from at obtain eps where eps: "dget (endpoints i) (fst loc) = Some eps" "dget eps (snd loc) = Some e"
    by (rule endpoint_atE)
  let ?h = "\<lambda>eps. map (\<lambda>(k, e). (k, g e)) eps"
  have "map (\<lambda>(pod, eps). (pod, ?h eps)) (endpoints (write_endpoint loc e' i)) =
        map (\<lambda>(pod, eps). (pod, ?h eps)) (endpoints i)"
    using eps by (simp add: write_endpoint_def map_dset_same [where g = ?h] map_dset_same [OF eps(2) g])
  from arg_cong [OF this, of "\<lambda>d. concat (map (\<lambda>(pod, ks). map (\<lambda>(k, x). ((pod, k), x)) ks) d)"]
  show ?thesis
    by (simp add: iter_endpoints_def map_concat comp_def case_prod_unfold)
qed

section \<open>Clamping and rebuilding\<close>

lemma active_tokens_update_eq: "w\<lparr>active_tokens := x\<rparr> = \<lparr>active_tokens = x\<rparr>"
  by (cases w) simp

lemma clamp_nonneg [simp]: "0 \<le> active_tokens (fst (clamp_workload_floor w))"
  by (simp add: clamp_workload_floor_def)

lemma clamp_eq: "fst (clamp_workload_floor w) = \<lparr>active_tokens = max 0 (active_tokens w)\<rparr>"
  by (simp add: clamp_workload_floor_def max_def)

lemma clamp_id: "0 \<le> active_tokens w \<Longrightarrow> clamp_workload_floor w = (w, False)"
  by (simp add: clamp_workload_floor_def)

lemma map_endpoints_fields [simp]:
  "job_name (map_endpoints f i) = job_name i" "model_name (map_endpoints f i) = model_name i"
  "engine_type (map_endpoints f i) = engine_type i" "ins_id (map_endpoints f i) = ins_id i"
  "dispatch_capabilities (map_endpoints f i) = dispatch_capabilities i"
  "ins_role (map_endpoints f i) = ins_role i" "ins_status (map_endpoints f i) = ins_status i"
  "parallel_cfg (map_endpoints f i) = parallel_cfg i" "node_managers (map_endpoints f i) = node_managers i"
  "enable_multi_endpoints (map_endpoints f i) = enable_multi_endpoints i"
  "gathered_workload (map_endpoints f i) = gathered_workload i"
  by (simp_all add: map_endpoints_def)

lemma same_static_map:
  "same_static (map_endpoints (\<lambda>loc e. e\<lparr>ep_workload := f loc e\<rparr>) i) i"
  by (simp add: same_static_def iter_map_endpoints comp_def case_prod_unfold)

lemma endpoint_objs_map: "endpoint_objs (map_endpoints f i) = map (\<lambda>(loc, e). f loc e) (iter_endpoints i)"
  by (simp add: endpoint_objs_def iter_map_endpoints comp_def case_prod_unfold)

lemma endpoint_objs_gathered [simp]: "endpoint_objs (i\<lparr>gathered_workload := w\<rparr>) = endpoint_objs i"
  by (simp add: endpoint_objs_def iter_endpoints_def)

lemma total_tokens_gathered [simp]: "total_tokens (i\<lparr>gathered_workload := w\<rparr>) = total_tokens i"
  by (simp add: total_tokens_def)

lemma ledger_ok_rebuild: "ledger_ok (fst (rebuild_instance_workload i))"
  by (auto simp: ledger_ok_def rebuild_instance_workload_def Let_def endpoint_objs_map)

lemma same_static_rebuild: "same_static (fst (rebuild_instance_workload i)) i"
  by (simp add: rebuild_instance_workload_def Let_def same_static_map)

lemma rebuild_fixpoint:
  assumes "ledger_ok i"
  shows "fst (rebuild_instance_workload i) = i"
proof -
  have "map_endpoints (\<lambda>loc e. e\<lparr>ep_workload := fst (clamp_workload_floor (ep_workload e))\<rparr>) i = i"
  proof -
    have "e\<lparr>ep_workload := fst (clamp_workload_floor (ep_workload e))\<rparr> = e"
      if "(pod, eps) \<in> set (endpoints i)" "(k, e) \<in> set eps" for pod eps k e
    proof -
      have "e \<in> set (endpoint_objs i)" using that by (force simp: endpoint_objs_def iter_endpoints_def)
      with assms show ?thesis by (simp add: ledger_ok_def clamp_id)
    qed
    then have "map (\<lambda>(pod, eps). (pod, map (\<lambda>(k, e). (k, e\<lparr>ep_workload := fst (clamp_workload_floor (ep_workload e))\<rparr>)) eps))
        (endpoints i) = endpoints i"
      by (intro map_idI) (auto intro!: map_idI)
    then show ?thesis by (simp add: map_endpoints_def)
  qed
  moreover have "gathered_workload i = \<lparr>active_tokens = total_tokens i\<rparr>"
    using assms by (simp add: ledger_ok_def)
  ultimately show ?thesis by (simp add: rebuild_instance_workload_def Let_def)
qed

section \<open>One ledger update\<close>

text \<open>The effect of \<open>commit_workload\<close> on the instance that owns the endpoint.\<close>

definition apply_workload_change :: "ep_loc \<Rightarrow> endpoint \<Rightarrow> workload \<Rightarrow> instance_obj \<Rightarrow> instance_obj" where
  "apply_workload_change loc e change i =
     (let (w, floored) = clamp_workload_floor (workload_iadd (ep_workload e) change);
          i' = write_endpoint loc (e\<lparr>ep_workload := w\<rparr>) i
      in if floored then fst (rebuild_instance_workload i')
         else i'\<lparr>gathered_workload := workload_iadd (gathered_workload i') change\<rparr>)"

lemma commit_workload_own:
  "commit_workload r r loc e change s = set_obj r (apply_workload_change loc e change (obj s r)) s"
  by (simp add: commit_workload_def apply_workload_change_def set_obj_def case_prod_unfold Let_def)

lemma apply_change_unclamped:
  "0 \<le> tokens e + active_tokens change \<Longrightarrow>
   apply_workload_change loc e change i =
     (write_endpoint loc (e\<lparr>ep_workload := workload_iadd (ep_workload e) change\<rparr>) i)
       \<lparr>gathered_workload := workload_iadd (gathered_workload i) change\<rparr>"
  by (simp add: apply_workload_change_def clamp_id Let_def write_endpoint_def)

lemma apply_change_clamped:
  "tokens e + active_tokens change < 0 \<Longrightarrow>
   apply_workload_change loc e change i =
     fst (rebuild_instance_workload (write_endpoint loc (e\<lparr>ep_workload := \<lparr>active_tokens = 0\<rparr>\<rparr>) i))"
  by (simp add: apply_workload_change_def clamp_workload_floor_def workload_iadd_def Let_def active_tokens_update_eq)

lemma ledger_ok_apply_change:
  assumes at: "endpoint_at i loc = Some e" and ok: "ledger_ok i"
  shows "ledger_ok (apply_workload_change loc e change i)"
proof (cases "tokens e + active_tokens change < 0")
  case True
  then show ?thesis by (simp add: apply_change_clamped ledger_ok_rebuild)
next
  case False
  let ?e = "e\<lparr>ep_workload := workload_iadd (ep_workload e) change\<rparr>"
  have "gathered_workload (write_endpoint loc ?e i) = gathered_workload i"
    by (simp add: write_endpoint_def)
  with False ok show ?thesis
    by (auto simp: apply_change_unclamped ledger_ok_def total_write_endpoint [OF at] dest!: set_write_endpoint)
qed

lemma same_static_write:
  assumes "endpoint_at i loc = Some e"
  shows "same_static (write_endpoint loc (e\<lparr>ep_workload := w\<rparr>) i) i"
  using iter_write_endpoint [OF assms, of "\<lambda>e. e\<lparr>ep_workload := zero_workload\<rparr>" "e\<lparr>ep_workload := w\<rparr>"]
  by (simp add: same_static_def write_endpoint_def)

lemma same_static_apply_change:
  assumes "endpoint_at i loc = Some e"
  shows "same_static (apply_workload_change loc e change i) i"
  using same_static_write [OF assms] same_static_trans [OF same_static_rebuild same_static_write [OF assms]]
  by (simp add: apply_workload_change_def Let_def case_prod_unfold)

text \<open>The tokens of the updated endpoint: the sum, floored at zero.\<close>

lemma apply_change_endpoint:
  assumes at: "endpoint_at i loc = Some e"
  shows "map_option tokens (endpoint_at (apply_workload_change loc e change i) loc) =
    Some (max 0 (tokens e + active_tokens change))"
proof -
  have at_map: "endpoint_at (map_endpoints f i') loc' = map_option (f loc') (endpoint_at i' loc')" for f i' loc'
    by (cases loc') (auto simp: endpoint_at_def map_endpoints_def dget_map_values split: option.splits)
  have gath: "endpoint_at (i'\<lparr>gathered_workload := w\<rparr>) loc' = endpoint_at i' loc'" for i' w loc'
    by (simp add: endpoint_at_def)
  show ?thesis
    by (cases "tokens e + active_tokens change < 0")
      (simp_all add: apply_change_clamped apply_change_unclamped gath endpoint_at_write [OF at]
        rebuild_instance_workload_def Let_def at_map clamp_eq)
qed

text \<open>The release of an allocation undoes it.\<close>

lemma apply_change_roundtrip:
  assumes at: "endpoint_at i loc = Some e" and ok: "ledger_ok i" and w: "0 \<le> active_tokens w"
  defines "i' \<equiv> apply_workload_change loc e w i"
  shows "\<exists>e'. endpoint_at i' loc = Some e' \<and>
    apply_workload_change loc e' \<lparr>active_tokens = - active_tokens w\<rparr> i' = i"
proof -
  let ?e = "e\<lparr>ep_workload := workload_iadd (ep_workload e) w\<rparr>"
  from ok at have nn: "0 \<le> tokens e" by (auto simp: ledger_ok_def dest: endpoint_at_objs)
  with w have i': "i' = (write_endpoint loc ?e i)\<lparr>gathered_workload := workload_iadd (gathered_workload i) w\<rparr>"
    by (simp add: i'_def apply_change_unclamped)
  have at': "endpoint_at i' loc = Some ?e"
    by (simp add: i' endpoint_at_def write_endpoint_def split: option.splits)
      (insert at, auto simp: endpoint_at_def split: option.splits)
  obtain eps where eps: "dget (endpoints i) (fst loc) = Some eps" "dget eps (snd loc) = Some e"
    using at by (rule endpoint_atE)
  have "e\<lparr>ep_workload := workload_iadd (workload_iadd (ep_workload e) w) \<lparr>active_tokens = - active_tokens w\<rparr>\<rparr> = e"
    by (simp add: workload_iadd_def)
  with nn have "apply_workload_change loc ?e \<lparr>active_tokens = - active_tokens w\<rparr> i' = i"
    by (simp add: apply_change_unclamped i' write_endpoint_def eps dset_restore workload_iadd_def)
  with at' show ?thesis by blast
qed

end
