(* ===== verification/Pool_Invariant.thy ===== *)
theory Pool_Invariant
  imports Pool_Ledger
begin

text \<open>
  Invariants of the coordinator's pools. \<open>pool_index\<close> is what every operation keeps: each
  pool is keyed by the ids of its instances, an available instance is also in the pool of its role,
  and the endpoint index is what a scan of the instance would build. \<open>pool_wf\<close> adds that the
  available, unavailable and paused pools are disjoint and that the role pools hold exactly the
  available instances; every operation keeps it but an ADD of an id that is paused or that is
  available under another role.
\<close>

section \<open>Definitions\<close>

definition keyed :: "(iref \<Rightarrow> instance_obj) \<Rightarrow> pool \<Rightarrow> bool" where
  "keyed h p \<longleftrightarrow> dict_ok p \<and> (\<forall>n r. dget p n = Some r \<longrightarrow> ins_id (h r) = n)"

abbreviation role_is :: "pools \<Rightarrow> iref \<Rightarrow> pd_role \<Rightarrow> bool" where
  "role_is s r \<rho> \<equiv> pd_role_of (ins_role (obj s r)) = Inr \<rho>"

definition pool_index :: "pools \<Rightarrow> bool" where
  "pool_index s \<longleftrightarrow>
     keyed (heap s) (available_pool s) \<and> keyed (heap s) (unavailable_pool s) \<and> keyed (heap s) (paused_pool s) \<and>
     (\<forall>\<rho>. keyed (heap s) (role_pools s \<rho>)) \<and>
     (\<forall>n r. dget (available_pool s) n = Some r \<longrightarrow> (\<exists>\<rho>. role_is s r \<rho> \<and> dget (role_pools s \<rho>) n = Some r)) \<and>
     (\<forall>n c. dget (endpoint_id_cache s) n = Some c \<longrightarrow>
        (\<exists>r. dget (available_pool s) n = Some r \<and> c = build_endpoint_cache r s))"

definition pools_disjoint :: "pools \<Rightarrow> bool" where
  "pools_disjoint s \<longleftrightarrow>
     (\<forall>n. \<not> (dmem n (available_pool s) \<and> dmem n (unavailable_pool s)) \<and>
          \<not> (dmem n (available_pool s) \<and> dmem n (paused_pool s)) \<and>
          \<not> (dmem n (unavailable_pool s) \<and> dmem n (paused_pool s)))"

definition roles_exact :: "pools \<Rightarrow> bool" where
  "roles_exact s \<longleftrightarrow>
     (\<forall>\<rho> n r. dget (role_pools s \<rho>) n = Some r \<longrightarrow> dget (available_pool s) n = Some r \<and> role_is s r \<rho>)"

definition pool_wf :: "pools \<Rightarrow> bool" where
  "pool_wf s \<longleftrightarrow> pool_index s \<and> pools_disjoint s \<and> roles_exact s"

lemma pool_index_role:
  "pool_index s \<Longrightarrow> dget (available_pool s) n = Some r \<Longrightarrow> \<exists>\<rho>. role_is s r \<rho> \<and> dget (role_pools s \<rho>) n = Some r"
  by (simp add: pool_index_def)

lemma roles_exact_unique:
  "roles_exact s \<Longrightarrow> dget (role_pools s \<rho>) n = Some r \<Longrightarrow> dget (role_pools s \<rho>') n = Some r' \<Longrightarrow> \<rho> = \<rho>'"
  unfolding roles_exact_def by (metis option.inject sum.inject(2))

section \<open>Frame lemmas\<close>

lemma set_obj_fields [simp]:
  "available_pool (set_obj r i s) = available_pool s" "unavailable_pool (set_obj r i s) = unavailable_pool s"
  "paused_pool (set_obj r i s) = paused_pool s" "role_pools (set_obj r i s) = role_pools s"
  "endpoint_id_cache (set_obj r i s) = endpoint_id_cache s" "typename (set_obj r i s) = typename s"
  "heap (set_obj r i s) = (heap s)(r := i)"
  by (simp_all add: set_obj_def)

lemma set_role_pool_fields [simp]:
  "available_pool (set_role_pool \<rho> p s) = available_pool s" "unavailable_pool (set_role_pool \<rho> p s) = unavailable_pool s"
  "paused_pool (set_role_pool \<rho> p s) = paused_pool s" "heap (set_role_pool \<rho> p s) = heap s"
  "endpoint_id_cache (set_role_pool \<rho> p s) = endpoint_id_cache s" "typename (set_role_pool \<rho> p s) = typename s"
  "role_pools (set_role_pool \<rho> p s) = (role_pools s)(\<rho> := p)"
  by (simp_all add: set_role_pool_def)

lemma register_kv_fields [simp]:
  "available_pool (register_kv_instance rs b s) = available_pool s"
  "unavailable_pool (register_kv_instance rs b s) = unavailable_pool s"
  "paused_pool (register_kv_instance rs b s) = paused_pool s" "heap (register_kv_instance rs b s) = heap s"
  "role_pools (register_kv_instance rs b s) = role_pools s"
  "endpoint_id_cache (register_kv_instance rs b s) = endpoint_id_cache s"
  by (simp_all add: register_kv_instance_def)

lemma build_cache_static:
  assumes "same_static (heap s r) (heap s' r)"
  shows "build_endpoint_cache r s = build_endpoint_cache r s'"
proof -
  have "build_endpoint_cache r t = fold (\<lambda>(loc, n) c. dset n (r, loc) c)
      (map (\<lambda>(loc, e). (loc, ep_id e)) (iter_endpoints (heap t r))) []" for t
    by (simp add: build_endpoint_cache_def fold_map comp_def case_prod_unfold)
  then show ?thesis using same_static_ids [OF assms] by simp
qed

lemma build_cache_heap: "heap s = heap s' \<Longrightarrow> build_endpoint_cache r s = build_endpoint_cache r s'"
  by (simp add: build_endpoint_cache_def)

lemma keyed_dset: "keyed h p \<Longrightarrow> ins_id (h r) = n \<Longrightarrow> keyed h (dset n r p)"
  by (auto simp: keyed_def)

lemma keyed_ddel: "keyed h p \<Longrightarrow> keyed h (ddel n p)"
  by (auto simp: keyed_def)

lemma keyed_static: "(\<And>r. ins_id (h' r) = ins_id (h r)) \<Longrightarrow> keyed h' p = keyed h p"
  by (simp add: keyed_def)

lemma keyedD: "keyed h p \<Longrightarrow> dget p n = Some r \<Longrightarrow> ins_id (h r) = n"
  by (simp add: keyed_def)

lemma keyed_Nil [simp]: "keyed h []"
  by (simp add: keyed_def)

section \<open>States with the same pools\<close>

text \<open>Two states with the same pools whose objects differ in workloads only.\<close>

definition same_pools :: "pools \<Rightarrow> pools \<Rightarrow> bool" where
  "same_pools s t \<longleftrightarrow>
     available_pool s = available_pool t \<and> unavailable_pool s = unavailable_pool t \<and>
     paused_pool s = paused_pool t \<and> role_pools s = role_pools t \<and>
     (\<forall>r. same_static (heap s r) (heap t r))"

lemma same_pools_refl [simp]: "same_pools s s"
  by (simp add: same_pools_def)

lemma same_static_D:
  "same_static i j \<Longrightarrow> ins_id i = ins_id j" "same_static i j \<Longrightarrow> ins_role i = ins_role j"
  "same_static i j \<Longrightarrow> job_name i = job_name j"
  by (simp_all add: same_static_def)

lemma pool_index_same:
  assumes "pool_index s" and "same_pools s t"
    and "\<And>n c. dget (endpoint_id_cache t) n = Some c \<Longrightarrow>
      dget (endpoint_id_cache s) n = Some c \<or> (\<exists>r. dget (available_pool s) n = Some r \<and> c = build_endpoint_cache r s)"
  shows "pool_index t"
proof -
  have st: "same_static (heap s r) (heap t r)" for r using assms(2) by (simp add: same_pools_def)
  have ids: "ins_id (heap t r) = ins_id (heap s r)" "ins_role (heap t r) = ins_role (heap s r)" for r
    using same_static_D [OF st [of r]] by simp_all
  have "\<exists>r. dget (available_pool s) n = Some r \<and> c = build_endpoint_cache r t"
    if "dget (endpoint_id_cache t) n = Some c" for n c
    using assms(3) [OF that] build_cache_static [OF st] assms(1) unfolding pool_index_def by metis
  with assms(1,2) show ?thesis
    by (simp add: pool_index_def same_pools_def keyed_static [OF ids(1)] ids)
qed

lemma pool_wf_same:
  assumes "pool_wf s" and "same_pools s t"
    and "\<And>n c. dget (endpoint_id_cache t) n = Some c \<Longrightarrow>
      dget (endpoint_id_cache s) n = Some c \<or> (\<exists>r. dget (available_pool s) n = Some r \<and> c = build_endpoint_cache r s)"
  shows "pool_wf t"
proof -
  have "same_static (heap s r) (heap t r)" for r using assms(2) by (simp add: same_pools_def)
  then have ids: "ins_role (heap t r) = ins_role (heap s r)" for r
    using same_static_D(2) by metis
  from assms pool_index_same [of s t] show ?thesis
    by (simp add: pool_wf_def pools_disjoint_def roles_exact_def same_pools_def ids)
qed

lemma same_pools_write:
  "same_static (heap s r) i \<Longrightarrow> same_pools s (set_obj r i s)"
  by (simp add: same_pools_def)

lemma ensure_cache_props:
  assumes "ensure_endpoint_cache iid r s = (c, s')" and "dget (available_pool s) iid = Some r"
  shows "same_pools s s' \<and> heap s' = heap s \<and>
    (\<forall>n d. dget (endpoint_id_cache s') n = Some d \<longrightarrow>
      dget (endpoint_id_cache s) n = Some d \<or> (\<exists>r. dget (available_pool s) n = Some r \<and> d = build_endpoint_cache r s))"
  using assms by (auto simp: ensure_endpoint_cache_def same_pools_def Let_def split: option.splits if_splits)

section \<open>Workload updates\<close>

text \<open>In a consistent index the endpoint that is found belongs to the available instance.\<close>

lemma build_cache_owner: "dget (build_endpoint_cache r s) eid = Some (r', loc) \<Longrightarrow> r' = r"
proof -
  have "dget (fold (\<lambda>(loc, e) c. dset (ep_id e) (r, loc) c) xs d) eid = Some (r', loc) \<Longrightarrow>
      r' = r \<or> dget d eid = Some (r', loc)" for xs :: "(ep_loc \<times> endpoint) list" and d
    by (induction xs arbitrary: d) (fastforce split: if_splits)+
  from this [of "iter_endpoints (obj s r)" "[]"]
  show "dget (build_endpoint_cache r s) eid = Some (r', loc) \<Longrightarrow> r' = r" by (simp add: build_endpoint_cache_def)
qed

lemma cache_owner:
  assumes "pool_index s" and "dget (available_pool s) iid = Some r" and "ensure_endpoint_cache iid r s = (c, s')"
    and "dget c eid = Some (r', loc)"
  shows "r' = r"
proof -
  have "c = build_endpoint_cache r s"
    using assms(1-3) unfolding pool_index_def
    by (auto simp: ensure_endpoint_cache_def Let_def split: option.splits) (metis option.inject)
  with build_cache_owner assms(4) show ?thesis by metis
qed

lemma update_workload_cases:
  assumes idx: "pool_index s"
  shows
  "(heap (fst (update_instance_workload_sync iid eid w s)) = heap s \<or>
    (\<exists>r loc e. endpoint_at (heap s r) loc = Some e \<and>
       heap (fst (update_instance_workload_sync iid eid w s)) = (heap s)(r := apply_workload_change loc e w (heap s r)))) \<and>
   available_pool (fst (update_instance_workload_sync iid eid w s)) = available_pool s \<and>
   unavailable_pool (fst (update_instance_workload_sync iid eid w s)) = unavailable_pool s \<and>
   paused_pool (fst (update_instance_workload_sync iid eid w s)) = paused_pool s \<and>
   role_pools (fst (update_instance_workload_sync iid eid w s)) = role_pools s \<and>
   (\<forall>n d. dget (endpoint_id_cache (fst (update_instance_workload_sync iid eid w s))) n = Some d \<longrightarrow>
      dget (endpoint_id_cache s) n = Some d \<or> (\<exists>r. dget (available_pool s) n = Some r \<and> d = build_endpoint_cache r s))"
proof (cases "dget (available_pool s) iid")
  case None
  then show ?thesis by (simp add: update_instance_workload_sync_def)
next
  case (Some r)
  obtain c s' where c: "ensure_endpoint_cache iid r s = (c, s')" by fastforce
  note cp = ensure_cache_props [OF c Some, unfolded same_pools_def]
  show ?thesis
  proof (cases "\<exists>r' loc e. dget c eid = Some (r', loc) \<and> endpoint_at (obj s' r') loc = Some e")
    case True
    then obtain r' loc e where at: "dget c eid = Some (r', loc)" "endpoint_at (obj s' r') loc = Some e" by blast
    have own: "r' = r" by (rule cache_owner [OF idx Some c at(1)])
    have t: "fst (update_instance_workload_sync iid eid w s) = set_obj r' (apply_workload_change loc e w (obj s' r')) s'"
      using at by (simp add: update_instance_workload_sync_def Some c Let_def commit_workload_own own)
    have "\<exists>r l x. endpoint_at (heap s r) l = Some x \<and>
        heap (set_obj r' (apply_workload_change loc e w (obj s' r')) s') = (heap s)(r := apply_workload_change l x w (heap s r))"
      using cp at by (intro exI [of _ r'] exI [of _ loc] exI [of _ e]) simp
    moreover have "\<forall>n d. dget (endpoint_id_cache s') n = Some d \<longrightarrow>
        dget (endpoint_id_cache s) n = Some d \<or> (\<exists>r. dget (available_pool s) n = Some r \<and> d = build_endpoint_cache r s)"
      using cp by blast
    ultimately show ?thesis
      unfolding t using cp by (intro conjI disjI2) (simp_all only: set_obj_fields)
  next
    case False
    then have t: "fst (update_instance_workload_sync iid eid w s) = s'"
      by (auto simp: update_instance_workload_sync_def Some c split: option.splits)
    show ?thesis unfolding t using cp by metis
  qed
qed

lemma update_workload_same: "pool_index s \<Longrightarrow> same_pools s (fst (update_instance_workload_sync iid eid w s))"
  using update_workload_cases [of s iid eid w] same_static_sym [OF same_static_apply_change]
  unfolding same_pools_def by (metis (no_types, lifting) fun_upd_def same_static_refl)

lemma update_workload_ledger:
  assumes "pool_index s" and "\<And>r. ledger_ok (heap s r)"
  shows "ledger_ok (heap (fst (update_instance_workload_sync iid eid w s)) r)"
  using update_workload_cases [OF assms(1), of iid eid w] ledger_ok_apply_change assms(2)
  by (metis (no_types, lifting) fun_upd_def)

lemma get_workload_same:
  "same_pools s (fst (get_endpoint_workload_sync iid eid s)) \<and>
   heap (fst (get_endpoint_workload_sync iid eid s)) = heap s \<and>
   (\<forall>n d. dget (endpoint_id_cache (fst (get_endpoint_workload_sync iid eid s))) n = Some d \<longrightarrow>
      dget (endpoint_id_cache s) n = Some d \<or> (\<exists>r. dget (available_pool s) n = Some r \<and> d = build_endpoint_cache r s))"
proof (cases "dget (available_pool s) iid")
  case None
  then show ?thesis by (simp add: get_endpoint_workload_sync_def)
next
  case (Some r)
  obtain c s' where c: "ensure_endpoint_cache iid r s = (c, s')" by fastforce
  from ensure_cache_props [OF c Some] show ?thesis
    by (simp add: get_endpoint_workload_sync_def Some c split: option.splits)
qed

section \<open>Adding to and deleting from the available pool\<close>

lemma add_available_index:
  assumes "pool_index s"
  shows "pool_index (fst (add_instance_to_available_pool r s))"
  using assms
  by (auto simp: add_instance_to_available_pool_def Let_def pool_index_def dmem_def build_endpoint_cache_def
      intro!: keyed_dset split: sum.splits) metis

lemma delete_available_index:
  assumes "pool_index s"
  shows "pool_index (fst (delete_instance_from_available_pool iid s))"
  using assms
  by (auto simp: delete_instance_from_available_pool_def Let_def pool_index_def dmem_def build_endpoint_cache_def
      intro!: keyed_ddel split: sum.splits option.splits) metis


lemma delete_available_ok:
  assumes "pool_index s"
  shows "snd (delete_instance_from_available_pool iid s) = Inr (dmem iid (available_pool s))"
  using assms
  by (auto simp: delete_instance_from_available_pool_def pool_index_def Let_def dmem_def split: option.splits sum.splits)
    (metis Inl_Inr_False option.distinct(1) sum.inject(2))+

lemma delete_available_fields:
  "unavailable_pool (fst (delete_instance_from_available_pool iid s)) = unavailable_pool s"
  "paused_pool (fst (delete_instance_from_available_pool iid s)) = paused_pool s"
  "heap (fst (delete_instance_from_available_pool iid s)) = heap s"
  by (auto simp: delete_instance_from_available_pool_def Let_def split: option.splits sum.splits)

lemma delete_available_dget:
  assumes "pool_index s"
  shows "dget (available_pool (fst (delete_instance_from_available_pool iid s))) n =
    (if n = iid then None else dget (available_pool s) n)"
  using delete_available_ok [OF assms, of iid]
  by (auto simp: delete_instance_from_available_pool_def Let_def dmem_def split: option.splits sum.splits if_splits)

lemma delete_available_wf:
  assumes "pool_wf s"
  shows "pool_wf (fst (delete_instance_from_available_pool iid s))"
proof -
  from assms have idx: "pool_index s" by (simp add: pool_wf_def)
  have "roles_exact (fst (delete_instance_from_available_pool iid s))"
    using assms roles_exact_unique [of s]
    by (auto simp: delete_instance_from_available_pool_def Let_def pool_wf_def roles_exact_def dmem_def
        split: option.splits sum.splits) (metis option.exhaust)
  with assms delete_available_index [OF idx] show ?thesis
    by (auto simp: pool_wf_def pools_disjoint_def delete_available_fields delete_available_dget [OF idx] dmem_def)
qed

lemma add_available_fields:
  "unavailable_pool (fst (add_instance_to_available_pool r s)) = unavailable_pool s"
  "paused_pool (fst (add_instance_to_available_pool r s)) = paused_pool s"
  "heap (fst (add_instance_to_available_pool r s)) = heap s"
  by (auto simp: add_instance_to_available_pool_def Let_def split: sum.splits)

lemma add_available_dget:
  "dget (available_pool (fst (add_instance_to_available_pool r s))) n =
    (if snd (add_instance_to_available_pool r s) = Inr True \<and> n = ins_id (obj s r) then Some r
     else dget (available_pool s) n)"
  by (auto simp: add_instance_to_available_pool_def Let_def split: sum.splits)

lemma add_available_wf:
  assumes wf: "pool_wf s" and fresh: "\<not> dmem (ins_id (obj s r)) (unavailable_pool s)"
    "\<not> dmem (ins_id (obj s r)) (paused_pool s)"
    and role: "\<And>r'. dget (available_pool s) (ins_id (obj s r)) = Some r' \<Longrightarrow>
      pd_role_of (ins_role (obj s r')) = pd_role_of (ins_role (obj s r))"
  shows "pool_wf (fst (add_instance_to_available_pool r s))"
proof -
  let ?n = "ins_id (obj s r)"
  from wf have idx: "pool_index s" by (simp add: pool_wf_def)
  have "roles_exact (fst (add_instance_to_available_pool r s))"
  proof (cases "\<exists>\<rho>. role_is s r \<rho> \<and> \<not> dmem ?n (role_pools s \<rho>)")
    case True
    then obtain \<rho> where rho: "role_is s r \<rho>" "\<not> dmem ?n (role_pools s \<rho>)" by blast
    have "dget (available_pool s) ?n = None"
    proof (rule ccontr)
      assume "dget (available_pool s) ?n \<noteq> None"
      then obtain r' where r': "dget (available_pool s) ?n = Some r'" by blast
      obtain \<rho>' where "role_is s r' \<rho>'" "dget (role_pools s \<rho>') ?n = Some r'"
        using pool_index_role [OF idx r'] by blast
      with role [OF r'] rho show False by (simp add: dmem_def)
    qed
    with wf rho show ?thesis
      by (auto simp: add_instance_to_available_pool_def Let_def pool_wf_def roles_exact_def)
  next
    case False
    then have "fst (add_instance_to_available_pool r s) = s"
      by (auto simp: add_instance_to_available_pool_def Let_def split: sum.splits)
    with wf show ?thesis by (simp add: pool_wf_def)
  qed
  with wf fresh add_available_index [OF idx] show ?thesis
    by (auto simp: pool_wf_def pools_disjoint_def add_available_fields add_available_dget dmem_def split: if_splits)
qed


section \<open>Every operation keeps the index\<close>

lemma pool_index_del_unavailable: "pool_index s \<Longrightarrow> pool_index (s\<lparr>unavailable_pool := ddel n (unavailable_pool s)\<rparr>)"
  by (simp add: pool_index_def keyed_ddel build_endpoint_cache_def)

lemma pool_index_del_paused: "pool_index s \<Longrightarrow> pool_index (s\<lparr>paused_pool := ddel n (paused_pool s)\<rparr>)"
  by (simp add: pool_index_def keyed_ddel build_endpoint_cache_def)

lemma pool_index_put_unavailable:
  "pool_index s \<Longrightarrow> ins_id (heap s r) = n \<Longrightarrow> pool_index (s\<lparr>unavailable_pool := dset n r (unavailable_pool s)\<rparr>)"
  by (simp add: pool_index_def keyed_dset build_endpoint_cache_def)

lemma pool_index_put_paused:
  "pool_index s \<Longrightarrow> ins_id (heap s r) = n \<Longrightarrow> pool_index (s\<lparr>paused_pool := dset n r (paused_pool s)\<rparr>)"
  by (simp add: pool_index_def keyed_dset build_endpoint_cache_def)

lemma pool_index_register: "pool_index (register_kv_instance rs b s) = pool_index s"
  by (simp add: pool_index_def build_endpoint_cache_def)

lemmas pool_index_intros =
  pool_index_del_unavailable pool_index_del_paused pool_index_put_unavailable pool_index_put_paused
  add_available_index delete_available_index

lemma delete_one_index: "pool_index s \<Longrightarrow> pool_index (fst (delete_one_instance r s))"
  by (simp add: delete_one_instance_def Let_def pool_index_intros)

lemma pause_one_index: "pool_index s \<Longrightarrow> pool_index (fst (pause_one_instance r s))"
  using delete_available_index [of s "ins_id (obj s r)"] delete_available_fields(3) [of "ins_id (obj s r)" s]
  by (auto simp: pause_one_instance_def Let_def intro!: pool_index_put_paused split: prod.splits sum.splits bool.splits)

lemma resume_one_index: "pool_index s \<Longrightarrow> pool_index (fst (resume_one_instance r s))"
  by (simp add: resume_one_instance_def Let_def pool_index_intros)

lemma instance_loop_inv:
  "(\<And>r s. P s \<Longrightarrow> P (fst (f r s))) \<Longrightarrow> P s \<Longrightarrow> P (fst (instance_loop f rs m s))"
proof (induction rs arbitrary: m s)
  case (Cons r rs)
  from Cons.prems(1) [OF Cons.prems(2), of r] Cons.IH [OF Cons.prems(1)] show ?case
    by (auto split: prod.splits sum.splits)
qed simp

lemma update_state_index:
  assumes "pool_index s"
  shows "pool_index (fst (update_instance_state iid mode s))"
proof (cases mode)
  case AVAILABLE
  with assms add_available_index [OF pool_index_del_unavailable [OF assms], of _ iid] show ?thesis
    by (auto simp: update_instance_state_def split: option.splits prod.splits sum.splits) (metis fst_conv)+
next
  case UNAVAILABLE
  show ?thesis
  proof (cases "dget (available_pool s) iid")
    case None
    with UNAVAILABLE assms show ?thesis by (simp add: update_instance_state_def)
  next
    case (Some r)
    from assms have "keyed (heap s) (available_pool s)" by (simp add: pool_index_def)
    from keyedD [OF this Some] have "ins_id (heap s r) = iid" .
    with UNAVAILABLE Some delete_available_index [OF assms, of iid] delete_available_fields(3) [of iid s]
    show ?thesis
      by (auto simp: update_instance_state_def intro!: pool_index_put_unavailable split: prod.splits sum.splits bool.splits)
  qed
qed

lemma remove_all_index: "pool_index s \<Longrightarrow> pool_index (fst (remove_instance_from_all_pools iid s))"
  by (simp add: remove_instance_from_all_pools_def pool_index_intros)

lemma replace_stale_fst:
  "fst (replace_stale r s) = s \<or>
   (\<exists>old. find_instance_by_job_name (job_name (obj s r)) s = Some old \<and> ins_id (obj s old) \<noteq> ins_id (obj s r) \<and>
      fst (replace_stale r s) = fst (remove_instance_from_all_pools (ins_id (obj s old)) s))"
  by (auto simp: replace_stale_def split: option.splits prod.splits sum.splits)

lemma replace_stale_index: "pool_index s \<Longrightarrow> pool_index (fst (replace_stale r s))"
  using replace_stale_fst [of r s] remove_all_index by metis

lemma same_static_reset: "same_static i (reset_workload i)"
  unfolding reset_workload_def by (rule same_static_sym) (use same_static_map [of "\<lambda>_ _. zero_workload" "i\<lparr>gathered_workload := zero_workload\<rparr>"] in simp)

lemma reset_index: "pool_index s \<Longrightarrow> pool_index (set_obj r (reset_workload (obj s r)) s)"
  by (rule pool_index_same [OF _ same_pools_write [OF same_static_reset]]) simp_all

lemma add_one_fst:
  "fst (add_one_instance r s) =
     (if dmem (ins_id (obj s r)) (unavailable_pool s) then s
      else let s1 = fst (replace_stale r s)
           in if \<exists>x. snd (replace_stale r s) = Inl x then s1
              else let s2 = fst (add_instance_to_available_pool r s1)
                   in if snd (add_instance_to_available_pool r s1) = Inr True
                      then set_obj r (reset_workload (obj s2 r)) s2 else s2)"
  by (auto simp: add_one_instance_def Let_def split: prod.splits sum.splits bool.splits)

lemma add_one_index: "pool_index s \<Longrightarrow> pool_index (fst (add_one_instance r s))"
  by (simp add: add_one_fst Let_def replace_stale_index add_available_index reset_index)

lemma add_loop_inv:
  "(\<And>r s. P s \<Longrightarrow> P (fst (add_one_instance r s))) \<Longrightarrow> P s \<Longrightarrow> P (fst (add_loop rs m a b s))"
proof (induction rs arbitrary: m a b s)
  case (Cons r rs)
  from Cons.prems(1) [OF Cons.prems(2), of r] Cons.IH [OF Cons.prems(1)] show ?case
    by (auto split: prod.splits sum.splits)
qed simp

lemma add_instances_fst:
  "\<exists>rs1 rs2. fst (add_instances rs s) = fst (add_loop rs False [] [] s) \<or>
     fst (add_instances rs s) = register_kv_instance rs1 False (register_kv_instance rs2 True (fst (add_loop rs False [] [] s)))"
  by (auto simp: add_instances_def split: prod.splits sum.splits)

lemma add_instances_index: "pool_index s \<Longrightarrow> pool_index (fst (add_instances rs s))"
  using add_instances_fst [of rs s] add_loop_inv [of pool_index, OF add_one_index] by (metis pool_index_register)

lemma delete_instances_index: "pool_index s \<Longrightarrow> pool_index (fst (delete_instances rs s))"
  unfolding delete_instances_def by (rule instance_loop_inv [where P = pool_index]) (rule delete_one_index)

lemma set_diff_fst:
  assumes "\<And>s. P s \<Longrightarrow> P (fst (delete_instances (snd (compute_set_diff ord rs s0)) s))"
    and "\<And>s. P s \<Longrightarrow> P (fst (add_instances (fst (compute_set_diff ord rs s0)) s))"
    and "P s0"
  shows "P (fst (apply_set_diff ord rs s0))"
  using assms(3) assms(1) [OF assms(3)] assms(2) [OF assms(3)] assms(2) [OF assms(1) [OF assms(3)]]
  by (auto simp: apply_set_diff_def split: prod.splits sum.splits)

text \<open>A property that every single-instance step keeps is kept by every event.\<close>

lemma refresh_inv:
  assumes add: "ev = ADD \<Longrightarrow> P (fst (add_instances rs s))"
    and set: "ev = SET \<Longrightarrow> P (fst (apply_set_diff ord rs s))"
    and reg: "\<And>rs b s. P (register_kv_instance rs b s) = P s"
    and del: "\<And>r s. P s \<Longrightarrow> P (fst (delete_one_instance r s))"
    and pause: "\<And>r s. P s \<Longrightarrow> P (fst (pause_one_instance r s))"
    and resume: "\<And>r s. P s \<Longrightarrow> P (fst (resume_one_instance r s))"
    and s: "P s"
  shows "P (fst (refresh_instances ord ev rs s))"
proof (cases ev)
  case DEL
  have "P (fst (delete_instances rs s))"
    unfolding delete_instances_def using del s by (rule instance_loop_inv)
  with DEL show ?thesis by (auto simp: refresh_instances_def reg split: prod.splits sum.splits)
next
  case PAUSE
  have "P (fst (pause_instances rs s))"
    unfolding pause_instances_def using pause s by (rule instance_loop_inv)
  with PAUSE show ?thesis by (simp add: refresh_instances_def)
next
  case RESUME
  have "P (fst (resume_instances rs s))"
    unfolding resume_instances_def using resume s by (rule instance_loop_inv)
  with RESUME show ?thesis by (simp add: refresh_instances_def)
qed (simp_all add: refresh_instances_def add set)

lemma set_diff_index: "pool_index s \<Longrightarrow> pool_index (fst (apply_set_diff ord rs s))"
  by (rule set_diff_fst [where P = pool_index]) (simp_all add: delete_instances_index add_instances_index)

lemma refresh_index: "pool_index s \<Longrightarrow> pool_index (fst (refresh_instances ord ev rs s))"
  by (rule refresh_inv [where P = pool_index])
    (simp_all add: add_instances_index set_diff_index pool_index_register delete_one_index pause_one_index resume_one_index)

section \<open>Reachable states\<close>

inductive pool_step :: "pools \<Rightarrow> pools \<Rightarrow> bool" where
  refresh: "pool_step s (fst (refresh_instances ord ev rs s))"
| state: "pool_step s (fst (update_instance_state iid mode s))"
| drop: "pool_step s (delete_unavailable_instance iid s)"
| workload: "pool_step s (fst (update_instance_workload_sync iid eid w s))"
| read: "pool_step s (fst (get_endpoint_workload_sync iid eid s))"
| shutdown: "pool_step s (stop s)"

inductive pool_reachable :: "(iref \<Rightarrow> instance_obj) \<Rightarrow> string \<Rightarrow> pools \<Rightarrow> bool" for h tn where
  init: "pool_reachable h tn (init_pools h tn)"
| step: "pool_reachable h tn s \<Longrightarrow> pool_step s t \<Longrightarrow> pool_reachable h tn t"

lemma pool_index_init: "pool_index (init_pools h tn)"
  by (simp add: pool_index_def init_pools_def)

lemma pool_index_step: "pool_step s t \<Longrightarrow> pool_index s \<Longrightarrow> pool_index t"
proof (induction rule: pool_step.induct)
  case (workload s iid eid w)
  then show ?case
    using update_workload_cases [OF workload, of iid eid w]
    by (intro pool_index_same [OF workload update_workload_same [OF workload]]) blast
next
  case (read s iid eid)
  then show ?case using get_workload_same [of s iid eid] by (intro pool_index_same [OF read]) blast+
next
  case (shutdown s)
  then show ?case by (simp add: pool_index_def stop_def)
qed (simp_all add: refresh_index update_state_index delete_unavailable_instance_def pool_index_del_unavailable)

lemma reachable_pool_index: "pool_reachable h tn s \<Longrightarrow> pool_index s"
  by (induction rule: pool_reachable.induct) (auto intro: pool_index_init pool_index_step)

end
