(* ===== verification/Pool_Properties.thy ===== *)
theory Pool_Properties
  imports Pool_Invariant
begin

text \<open>
  The events of the coordinator's pools on well-formed states: what each single-instance step keeps,
  the exact effect of a deletion loop and of an ADD of instances that are in no pool, and from these
  the exact effect of SET.
\<close>

section \<open>Single-instance steps on well-formed states\<close>

lemma pool_wf_index [intro, simp]: "pool_wf s \<Longrightarrow> pool_index s"
  by (simp add: pool_wf_def)

lemma pool_wf_register: "pool_wf (register_kv_instance rs b s) = pool_wf s"
  by (simp add: pool_wf_def pool_index_register pools_disjoint_def roles_exact_def)

lemma pool_wf_del_unavailable: "pool_wf s \<Longrightarrow> pool_wf (s\<lparr>unavailable_pool := ddel n (unavailable_pool s)\<rparr>)"
  by (auto simp: pool_wf_def pool_index_del_unavailable pools_disjoint_def roles_exact_def)

lemma pool_wf_del_paused: "pool_wf s \<Longrightarrow> pool_wf (s\<lparr>paused_pool := ddel n (paused_pool s)\<rparr>)"
  by (auto simp: pool_wf_def pool_index_del_paused pools_disjoint_def roles_exact_def)

lemma pool_wf_put_unavailable:
  "pool_wf s \<Longrightarrow> ins_id (heap s r) = n \<Longrightarrow> \<not> dmem n (available_pool s) \<Longrightarrow> \<not> dmem n (paused_pool s) \<Longrightarrow>
   pool_wf (s\<lparr>unavailable_pool := dset n r (unavailable_pool s)\<rparr>)"
  by (auto simp: pool_wf_def pool_index_put_unavailable pools_disjoint_def roles_exact_def)

lemma pool_wf_put_paused:
  "pool_wf s \<Longrightarrow> ins_id (heap s r) = n \<Longrightarrow> \<not> dmem n (available_pool s) \<Longrightarrow> \<not> dmem n (unavailable_pool s) \<Longrightarrow>
   pool_wf (s\<lparr>paused_pool := dset n r (paused_pool s)\<rparr>)"
  by (auto simp: pool_wf_def pool_index_put_paused pools_disjoint_def roles_exact_def)

lemma pool_wf_disjoint:
  "pool_wf s \<Longrightarrow> dmem n (unavailable_pool s) \<Longrightarrow> \<not> dmem n (available_pool s) \<and> \<not> dmem n (paused_pool s)"
  "pool_wf s \<Longrightarrow> dmem n (paused_pool s) \<Longrightarrow> \<not> dmem n (available_pool s) \<and> \<not> dmem n (unavailable_pool s)"
  "pool_wf s \<Longrightarrow> dmem n (available_pool s) \<Longrightarrow> \<not> dmem n (unavailable_pool s) \<and> \<not> dmem n (paused_pool s)"
  by (auto simp: pool_wf_def pools_disjoint_def)

lemma delete_one_wf: "pool_wf s \<Longrightarrow> pool_wf (fst (delete_one_instance r s))"
  by (simp add: delete_one_instance_def Let_def pool_wf_del_unavailable pool_wf_del_paused delete_available_wf)

lemma pause_one_wf:
  assumes "pool_wf s"
  shows "pool_wf (fst (pause_one_instance r s))"
proof -
  let ?n = "ins_id (obj s r)"
  obtain s' res where s': "delete_instance_from_available_pool ?n s = (s', res)" by fastforce
  have "pool_wf s'" using delete_available_wf [OF assms, of ?n] by (simp add: s')
  moreover have "\<not> dmem ?n (available_pool s')"
    using delete_available_dget [of s ?n ?n] assms by (simp add: s' dmem_def)
  ultimately have "\<not> dmem ?n (unavailable_pool s') \<Longrightarrow> pool_wf (s'\<lparr>paused_pool := dset ?n r (paused_pool s')\<rparr>)"
    using delete_available_fields(3) [of ?n s] by (intro pool_wf_put_paused) (simp_all add: s')
  with \<open>pool_wf s'\<close> show ?thesis
    using assms pool_wf_disjoint(3) [OF assms, of ?n] delete_available_fields(1) [of ?n s]
    by (auto simp: pause_one_instance_def Let_def s' split: sum.splits bool.splits)
qed

lemma add_from_other_wf:
  assumes "pool_wf s" and "\<not> dmem (ins_id (obj s r)) (unavailable_pool s)"
    and "\<not> dmem (ins_id (obj s r)) (paused_pool s)" and "\<not> dmem (ins_id (obj s r)) (available_pool s)"
  shows "pool_wf (fst (add_instance_to_available_pool r s))"
  using assms by (intro add_available_wf) (auto simp: dmem_def)

lemma resume_one_wf:
  assumes "pool_wf s"
  shows "pool_wf (fst (resume_one_instance r s))"
proof (cases "dmem (ins_id (obj s r)) (paused_pool s)")
  case True
  have "pool_wf (fst (add_instance_to_available_pool r
      (s\<lparr>paused_pool := ddel (ins_id (obj s r)) (paused_pool s)\<rparr>)))"
    using pool_wf_disjoint(2) [OF assms True]
    by (intro add_from_other_wf pool_wf_del_paused [OF assms]) simp_all
  with True show ?thesis by (simp add: resume_one_instance_def Let_def)
next
  case False
  with assms show ?thesis by (simp add: resume_one_instance_def Let_def)
qed

lemma update_state_wf:
  assumes wf: "pool_wf s"
  shows "pool_wf (fst (update_instance_state iid mode s))"
proof (cases mode)
  case AVAILABLE
  show ?thesis
  proof (cases "dget (unavailable_pool s) iid")
    case None
    with AVAILABLE wf show ?thesis by (simp add: update_instance_state_def)
  next
    case (Some r)
    let ?s = "s\<lparr>unavailable_pool := ddel iid (unavailable_pool s)\<rparr>"
    have "keyed (heap s) (unavailable_pool s)" using wf by (simp add: pool_wf_def pool_index_def)
    from keyedD [OF this Some] have "ins_id (heap s r) = iid" .
    then have "pool_wf (fst (add_instance_to_available_pool r ?s))"
      using pool_wf_disjoint(1) [OF wf, of iid] Some
      by (intro add_from_other_wf pool_wf_del_unavailable [OF wf]) simp_all
    with AVAILABLE Some show ?thesis
      by (auto simp: update_instance_state_def split: prod.splits sum.splits)
  qed
next
  case UNAVAILABLE
  show ?thesis
  proof (cases "dget (available_pool s) iid")
    case None
    with UNAVAILABLE wf show ?thesis by (simp add: update_instance_state_def)
  next
    case (Some r)
    obtain s' res where s': "delete_instance_from_available_pool iid s = (s', res)" by fastforce
    have "keyed (heap s) (available_pool s)" using wf by (simp add: pool_wf_def pool_index_def)
    from keyedD [OF this Some] have "ins_id (heap s r) = iid" .
    moreover have "pool_wf s'" using delete_available_wf [OF wf, of iid] by (simp add: s')
    moreover have "\<not> dmem iid (available_pool s')"
      using delete_available_dget [of s iid iid] wf by (simp add: s' dmem_def)
    ultimately have "\<not> dmem iid (paused_pool s') \<Longrightarrow> pool_wf (s'\<lparr>unavailable_pool := dset iid r (unavailable_pool s')\<rparr>)"
      using delete_available_fields(3) [of iid s] by (intro pool_wf_put_unavailable) (simp_all add: s')
    with \<open>pool_wf s'\<close> show ?thesis
      using UNAVAILABLE Some pool_wf_disjoint(3) [OF wf, of iid] delete_available_fields(2) [of iid s]
      by (auto simp: update_instance_state_def s' split: sum.splits bool.splits)
  qed
qed

section \<open>ADD on well-formed states\<close>

text \<open>
  The instances an ADD may carry without leaving the well-formed states: the id is not paused, and
  where it is available already it has the same role.
\<close>

definition add_ok :: "pools \<Rightarrow> iref \<Rightarrow> bool" where
  "add_ok s r \<longleftrightarrow>
     \<not> dmem (ins_id (obj s r)) (paused_pool s) \<and>
     (case dget (available_pool s) (ins_id (obj s r)) of
        None \<Rightarrow> True
      | Some r' \<Rightarrow> pd_role_of (ins_role (obj s r')) = pd_role_of (ins_role (obj s r)))"

lemma remove_all_wf: "pool_wf s \<Longrightarrow> pool_wf (fst (remove_instance_from_all_pools iid s))"
  by (simp add: remove_instance_from_all_pools_def delete_available_wf pool_wf_del_unavailable pool_wf_del_paused)

lemma remove_all_heap [simp]: "heap (fst (remove_instance_from_all_pools iid s)) = heap s"
  by (simp add: remove_instance_from_all_pools_def delete_available_fields)

lemma remove_all_dget:
  assumes wf: "pool_wf s"
  shows "dget (available_pool (fst (remove_instance_from_all_pools iid s))) n = (if n = iid then None else dget (available_pool s) n)"
    and "dget (unavailable_pool (fst (remove_instance_from_all_pools iid s))) n = (if n = iid then None else dget (unavailable_pool s) n)"
    and "dget (paused_pool (fst (remove_instance_from_all_pools iid s))) n = (if n = iid then None else dget (paused_pool s) n)"
proof -
  consider (a) "dmem iid (available_pool s)" "\<not> dmem iid (unavailable_pool s)" "\<not> dmem iid (paused_pool s)"
    | (u) "\<not> dmem iid (available_pool s)" "dmem iid (unavailable_pool s)" "\<not> dmem iid (paused_pool s)"
    | (p) "\<not> dmem iid (available_pool s)" "\<not> dmem iid (unavailable_pool s)"
    using pool_wf_disjoint [OF wf] by blast
  then have "dget (available_pool (fst (remove_instance_from_all_pools iid s))) n = (if n = iid then None else dget (available_pool s) n) \<and>
    dget (unavailable_pool (fst (remove_instance_from_all_pools iid s))) n = (if n = iid then None else dget (unavailable_pool s) n) \<and>
    dget (paused_pool (fst (remove_instance_from_all_pools iid s))) n = (if n = iid then None else dget (paused_pool s) n)"
  proof cases
    case a
    then show ?thesis
      using delete_available_dget [OF pool_wf_index [OF wf]]
      by (simp add: remove_instance_from_all_pools_def delete_available_fields dmem_def)
  qed (simp_all add: remove_instance_from_all_pools_def dmem_def)
  then show "dget (available_pool (fst (remove_instance_from_all_pools iid s))) n = (if n = iid then None else dget (available_pool s) n)"
    and "dget (unavailable_pool (fst (remove_instance_from_all_pools iid s))) n = (if n = iid then None else dget (unavailable_pool s) n)"
    and "dget (paused_pool (fst (remove_instance_from_all_pools iid s))) n = (if n = iid then None else dget (paused_pool s) n)"
    by blast+
qed

lemma remove_all_ok: "pool_wf s \<Longrightarrow> \<exists>b. snd (remove_instance_from_all_pools iid s) = Inr b"
  by (auto simp: remove_instance_from_all_pools_def delete_available_ok)

lemma replace_stale_ok: "pool_wf s \<Longrightarrow> \<exists>b. snd (replace_stale r s) = Inr b"
  using remove_all_ok [of s] by (auto simp: replace_stale_def split: option.splits prod.splits sum.splits) (metis Inl_Inr_False snd_conv)

lemma replace_stale_wf: "pool_wf s \<Longrightarrow> pool_wf (fst (replace_stale r s))"
  using replace_stale_fst [of r s] remove_all_wf by metis

lemma replace_stale_heap [simp]: "heap (fst (replace_stale r s)) = heap s"
  using replace_stale_fst [of r s] remove_all_heap by metis

lemma replace_stale_dget:
  assumes "pool_wf s" and "p = available_pool \<or> p = unavailable_pool \<or> p = paused_pool"
    and "dget (p (fst (replace_stale r s))) n = Some r'"
  shows "dget (p s) n = Some r'"
  using assms(2,3) replace_stale_fst [of r s] remove_all_dget [OF assms(1)] by (auto split: if_splits)

lemma reset_wf: "pool_wf s \<Longrightarrow> pool_wf (set_obj r (reset_workload (obj s r)) s)"
  by (rule pool_wf_same [OF _ same_pools_write [OF same_static_reset]]) simp_all

lemma add_one_wf:
  assumes wf: "pool_wf s" and ok: "add_ok s r"
  shows "pool_wf (fst (add_one_instance r s))"
proof (cases "dmem (ins_id (obj s r)) (unavailable_pool s)")
  case True
  with wf show ?thesis by (simp add: add_one_fst)
next
  case False
  let ?s1 = "fst (replace_stale r s)" and ?n = "ins_id (obj s r)"
  have "pool_wf (fst (add_instance_to_available_pool r ?s1))"
  proof (rule add_available_wf [OF replace_stale_wf [OF wf]])
    show "\<not> dmem (ins_id (obj ?s1 r)) (unavailable_pool ?s1)"
      using False replace_stale_dget [OF wf, of unavailable_pool] by (fastforce simp: dmem_def)
    show "\<not> dmem (ins_id (obj ?s1 r)) (paused_pool ?s1)"
      using ok replace_stale_dget [OF wf, of paused_pool] by (fastforce simp: dmem_def add_ok_def)
    fix r' assume "dget (available_pool ?s1) (ins_id (obj ?s1 r)) = Some r'"
    then have "dget (available_pool s) ?n = Some r'"
      using replace_stale_dget [OF wf, of available_pool] by simp
    with ok show "pd_role_of (ins_role (obj ?s1 r')) = pd_role_of (ins_role (obj ?s1 r))"
      by (simp add: add_ok_def)
  qed
  with False replace_stale_wf [OF wf] show ?thesis
    by (simp add: add_one_fst Let_def reset_wf)
qed

lemma add_one_dget:
  assumes wf: "pool_wf s" and "n \<noteq> ins_id (obj s r)"
    and "p = available_pool \<or> p = unavailable_pool \<or> p = paused_pool"
    and "dget (p (fst (add_one_instance r s))) n = Some r'"
  shows "dget (p s) n = Some r'"
  using assms replace_stale_dget [OF wf assms(3)]
  by (auto simp: add_one_fst Let_def add_available_fields add_available_dget split: if_splits)

lemma add_one_paused:
  assumes "pool_wf s" and "dmem n (paused_pool (fst (add_one_instance r s)))"
  shows "dmem n (paused_pool s)"
  using assms replace_stale_dget [OF assms(1), of paused_pool]
  by (auto simp: add_one_fst Let_def add_available_fields dmem_def split: if_splits)

lemma add_one_static: "same_static (heap s r') (heap (fst (add_one_instance r s)) r')"
  by (auto simp: add_one_fst Let_def add_available_fields same_static_reset)

lemma add_loop_wf:
  assumes "pool_wf s" and "list_all (add_ok s) rs" and "distinct (map (\<lambda>r. ins_id (obj s r)) rs)"
  shows "pool_wf (fst (add_loop rs m a b s))"
  using assms
proof (induction rs arbitrary: m a b s)
  case (Cons r rs)
  let ?s = "fst (add_one_instance r s)"
  have wf: "pool_wf ?s" using Cons.prems by (simp add: add_one_wf)
  have ids: "ins_id (obj ?s r') = ins_id (obj s r')" "ins_role (obj ?s r') = ins_role (obj s r')" for r'
    using add_one_static [of s r' r] by (simp_all add: same_static_D)
  have "add_ok ?s r'" if "r' \<in> set rs" for r'
  proof -
    have ne: "ins_id (obj s r') \<noteq> ins_id (obj s r)"
      using Cons.prems(3) that unfolding list.map distinct.simps set_map by (metis imageI)
    have ok: "add_ok s r'"
      using Cons.prems(2) that by (simp add: list_all_iff)
    have "\<not> dmem (ins_id (obj s r')) (paused_pool ?s)"
      using ok add_one_paused [OF Cons.prems(1)] by (auto simp: add_ok_def)
    moreover have "pd_role_of (ins_role (obj s r'')) = pd_role_of (ins_role (obj s r'))"
      if "dget (available_pool ?s) (ins_id (obj s r')) = Some r''" for r''
      using add_one_dget [of s "ins_id (obj s r')" r available_pool r''] Cons.prems(1) ne that ok by (simp add: add_ok_def)
    ultimately show ?thesis by (simp add: add_ok_def ids split: option.splits)
  qed
  then have "pool_wf (fst (add_loop rs m' a' b' ?s))" for m' a' b'
    using Cons.prems(3) by (intro Cons.IH wf) (simp_all add: list_all_iff ids)
  with wf show ?case by (auto split: prod.splits sum.splits)
qed simp


section \<open>DEL on well-formed states\<close>

text \<open>The three pools after the ids of \<open>N\<close> have been removed.\<close>

definition without_ids :: "int set \<Rightarrow> pools \<Rightarrow> pools \<Rightarrow> bool" where
  "without_ids N s t \<longleftrightarrow>
     heap t = heap s \<and>
     (\<forall>n. dget (available_pool t) n = (if n \<in> N then None else dget (available_pool s) n) \<and>
          dget (unavailable_pool t) n = (if n \<in> N then None else dget (unavailable_pool s) n) \<and>
          dget (paused_pool t) n = (if n \<in> N then None else dget (paused_pool s) n))"

lemma delete_one_heap [simp]: "heap (fst (delete_one_instance r s)) = heap s"
  by (simp add: delete_one_instance_def Let_def delete_available_fields)

lemma delete_one_without:
  assumes wf: "pool_wf s"
  shows "without_ids {ins_id (obj s r)} s (fst (delete_one_instance r s))"
proof -
  let ?n = "ins_id (obj s r)"
  consider (u) "dmem ?n (unavailable_pool s)" "\<not> dmem ?n (available_pool s)" "\<not> dmem ?n (paused_pool s)"
    | (p) "\<not> dmem ?n (unavailable_pool s)" "dmem ?n (paused_pool s)" "\<not> dmem ?n (available_pool s)"
    | (a) "\<not> dmem ?n (unavailable_pool s)" "\<not> dmem ?n (paused_pool s)"
    using pool_wf_disjoint [OF wf] by blast
  then show ?thesis
  proof cases
    case a
    then show ?thesis
      using delete_available_dget [OF pool_wf_index [OF wf], of ?n]
      by (simp add: without_ids_def delete_one_instance_def Let_def delete_available_fields dmem_def)
  qed (simp_all add: without_ids_def delete_one_instance_def Let_def dmem_def)
qed

lemma delete_one_ok: "pool_wf s \<Longrightarrow> \<exists>b. snd (delete_one_instance r s) = Inr b"
  by (auto simp: delete_one_instance_def Let_def delete_available_ok)

lemma delete_loop_exact:
  assumes "pool_wf s"
  shows "\<exists>t b. instance_loop delete_one_instance rs m s = (t, Inr b) \<and> pool_wf t \<and>
    without_ids ((\<lambda>r. ins_id (obj s r)) ` set rs) s t"
  using assms
proof (induction rs arbitrary: m s)
  case Nil
  then show ?case by (simp add: without_ids_def)
next
  case (Cons r rs)
  obtain s1 b where s1: "delete_one_instance r s = (s1, Inr b)"
    using delete_one_ok [OF Cons.prems, of r] by (metis prod.collapse)
  have wf: "pool_wf s1" and out: "without_ids {ins_id (obj s r)} s s1" and h: "heap s1 = heap s"
    using delete_one_wf [OF Cons.prems, of r] delete_one_without [OF Cons.prems, of r] delete_one_heap [of r s]
    by (simp_all add: s1)
  from Cons.IH [OF wf, of "m \<or> b"] out show ?case
    by (auto simp: s1 h without_ids_def)
qed

section \<open>ADD of instances that are in no pool\<close>

abbreviation in_no_pool :: "pools \<Rightarrow> int \<Rightarrow> bool" where
  "in_no_pool s n \<equiv> \<not> dmem n (available_pool s) \<and> \<not> dmem n (unavailable_pool s) \<and> \<not> dmem n (paused_pool s)"

abbreviation pooled :: "pools \<Rightarrow> iref set" where
  "pooled s \<equiv> set (dvalues (available_pool s) @ dvalues (unavailable_pool s) @ dvalues (paused_pool s))"

definition fresh_add :: "pools \<Rightarrow> iref \<Rightarrow> bool" where
  "fresh_add s r \<longleftrightarrow>
     in_no_pool s (ins_id (obj s r)) \<and> (\<exists>\<rho>. role_is s r \<rho>) \<and>
     (\<forall>r' \<in> pooled s. job_name (obj s r') \<noteq> job_name (obj s r))"

text \<open>The effect of adding the references \<open>R\<close>, each under its id.\<close>

definition with_refs :: "iref set \<Rightarrow> pools \<Rightarrow> pools \<Rightarrow> bool" where
  "with_refs R s t \<longleftrightarrow>
     unavailable_pool t = unavailable_pool s \<and> paused_pool t = paused_pool s \<and>
     (\<forall>r. same_static (heap s r) (heap t r)) \<and>
     (\<forall>r \<in> R. dget (available_pool t) (ins_id (obj s r)) = Some r) \<and>
     (\<forall>n. n \<notin> (\<lambda>r. ins_id (obj s r)) ` R \<longrightarrow> dget (available_pool t) n = dget (available_pool s) n)"

lemma add_one_fresh:
  assumes wf: "pool_wf s" and fr: "fresh_add s r"
  shows "\<exists>t. add_one_instance r s = (t, Inr (True, None)) \<and> with_refs {r} s t \<and> pool_wf t \<and>
    pooled t = insert r (pooled s)"
proof -
  let ?n = "ins_id (obj s r)"
  obtain \<rho> where rho: "role_is s r \<rho>" using fr by (auto simp: fresh_add_def)
  have none: "find_instance_by_job_name (job_name (obj s r)) s = None"
    using fr by (auto simp: find_instance_by_job_name_def find_None_iff fresh_add_def)
  have np: "in_no_pool s ?n" using fr by (simp add: fresh_add_def)
  have nrole: "\<not> dmem ?n (role_pools s \<rho>)"
    using wf np unfolding dmem_def pool_wf_def roles_exact_def by (metis not_None_eq)
  obtain s2 where add: "add_instance_to_available_pool r s = (s2, Inr True)"
    using rho nrole by (simp add: add_instance_to_available_pool_def Let_def)
  have avail: "available_pool s2 = available_pool s @ [(?n, r)]"
    using rho nrole np add by (auto simp: add_instance_to_available_pool_def Let_def dset_fresh dmem_def)
  have frame: "unavailable_pool s2 = unavailable_pool s" "paused_pool s2 = paused_pool s" "heap s2 = heap s"
    using add_available_fields [of r s] by (simp_all add: add)
  have wf2: "pool_wf s2"
    using np add_from_other_wf [OF wf, of r] by (simp add: add)
  let ?t = "set_obj r (reset_workload (obj s2 r)) s2"
  have one: "add_one_instance r s = (?t, Inr (True, None))"
    using np none add by (simp add: add_one_instance_def replace_stale_def)
  moreover have "pool_wf ?t"
    by (intro reset_wf wf2)
  moreover have "with_refs {r} s ?t"
    using np by (auto simp: with_refs_def avail frame same_static_reset map_add_def dmem_def
        split: option.splits)
  moreover have "pooled ?t = insert r (pooled s)"
    by (auto simp: avail frame)
  ultimately show ?thesis by blast
qed

lemma add_loop_fresh:
  assumes "pool_wf s" and "list_all (fresh_add s) rs"
    and "distinct (map (\<lambda>r. ins_id (obj s r)) rs)" and "distinct (map (\<lambda>r. job_name (obj s r)) rs)"
  shows "\<exists>t res. add_loop rs m a b s = (t, Inr res) \<and> pool_wf t \<and> with_refs (set rs) s t"
  using assms
proof (induction rs arbitrary: m a b s)
  case Nil
  then show ?case by (simp add: with_refs_def)
next
  case (Cons r rs)
  obtain s1 where s1: "add_one_instance r s = (s1, Inr (True, None))" "with_refs {r} s s1" "pool_wf s1"
      "pooled s1 = insert r (pooled s)"
    using add_one_fresh [OF Cons.prems(1), of r] Cons.prems(2) by auto
  have st: "same_static (heap s r') (heap s1 r')" for r' using s1(2) by (simp add: with_refs_def)
  have ids: "ins_id (obj s1 r') = ins_id (obj s r')" "job_name (obj s1 r') = job_name (obj s r')"
    "ins_role (obj s1 r') = ins_role (obj s r')" for r'
    using same_static_D [OF st [of r']] by simp_all
  have "fresh_add s1 r'" if "r' \<in> set rs" for r'
  proof -
    have ne: "ins_id (obj s r') \<noteq> ins_id (obj s r)" "job_name (obj s r') \<noteq> job_name (obj s r)"
      using Cons.prems(3,4) that unfolding list.map distinct.simps set_map by (metis imageI)+
    have "fresh_add s r'" using Cons.prems(2) that by (simp add: list_all_iff)
    then show ?thesis
      using ne s1(2) unfolding fresh_add_def s1(4) with_refs_def ids dmem_def by auto
  qed
  then obtain t res where t: "add_loop rs True (a @ [r]) b s1 = (t, Inr res)" "pool_wf t" "with_refs (set rs) s1 t"
    using Cons.IH [OF s1(3), of True "a @ [r]" b] Cons.prems(3,4) by (auto simp: list_all_iff ids)
  have "with_refs (set (r # rs)) s t"
    using t(3) s1(2) Cons.prems(3) same_static_trans [OF st] unfolding with_refs_def ids
    by (auto simp: image_iff)
  with t show ?case by (cases res) (simp add: s1)
qed

section \<open>SET\<close>

text \<open>What Python guarantees of the iteration over a set: every element, once.\<close>

definition set_iteration :: "(int list \<Rightarrow> int list) \<Rightarrow> bool" where
  "set_iteration ord \<longleftrightarrow> (\<forall>xs. distinct xs \<longrightarrow> distinct (ord xs) \<and> set (ord xs) = set xs)"

definition new_by_id :: "iref list \<Rightarrow> pools \<Rightarrow> (int, iref) dict" where
  "new_by_id rs s = fold (\<lambda>r d. dset (ins_id (obj s r)) r d) rs []"

definition refresh_ids :: "iref list \<Rightarrow> pools \<Rightarrow> int list" where
  "refresh_ids rs s =
     filter (needs_refresh (new_by_id rs s) s)
       (filter (\<lambda>n. n \<in> set (dkeys (new_by_id rs s))) (remdups (current_ids s)))"

lemma compute_set_diff_alt:
  "compute_set_diff ord rs s =
     (List.map_filter (dget (new_by_id rs s))
        (ord (filter (\<lambda>n. n \<notin> set (remdups (current_ids s))) (dkeys (new_by_id rs s)) @ refresh_ids rs s)),
      List.map_filter (\<lambda>n. lookup_any_pool n s)
        (ord (filter (\<lambda>n. n \<notin> set (dkeys (new_by_id rs s))) (remdups (current_ids s)) @ refresh_ids rs s)))"
  by (simp add: compute_set_diff_def new_by_id_def refresh_ids_def Let_def)

lemma set_map_filter: "set (List.map_filter f xs) = {y. \<exists>x \<in> set xs. f x = Some y}"
  by (induction xs) (auto simp: map_filter_simps split: option.splits)

lemma new_by_id_props:
  "dict_ok (fold (\<lambda>r d. dset (ins_id (obj s r)) r d) rs d0) = dict_ok d0 \<or> \<not> dict_ok d0"
  by (induction rs arbitrary: d0) auto

lemma new_by_id_ok: "dict_ok (new_by_id rs s)"
  using new_by_id_props [of s rs "[]"] by (simp add: new_by_id_def)

lemma find_append: "find P (xs @ ys) = (case find P xs of None \<Rightarrow> find P ys | Some x \<Rightarrow> Some x)"
  by (induction xs) simp_all

lemma dget_new_by_id_fold:
  "dget (fold (\<lambda>r d. dset (ins_id (obj s r)) r d) rs d0) n =
     (case find (\<lambda>r. ins_id (obj s r) = n) (rev rs) of None \<Rightarrow> dget d0 n | Some r \<Rightarrow> Some r)"
  by (induction rs arbitrary: d0) (auto simp: find_append split: option.splits)

lemma dget_new_by_id:
  "dget (new_by_id rs s) n = find (\<lambda>r. ins_id (obj s r) = n) (rev rs)"
  by (simp add: new_by_id_def dget_new_by_id_fold split: option.splits)

lemma dget_new_by_idD: "dget (new_by_id rs s) n = Some r \<Longrightarrow> r \<in> set rs \<and> ins_id (obj s r) = n"
  by (auto simp: dget_new_by_id find_Some_iff in_set_conv_nth) (metis length_rev nth_mem set_rev in_set_conv_nth)+

lemma dmem_new_by_id: "dmem n (new_by_id rs s) \<longleftrightarrow> n \<in> (\<lambda>r. ins_id (obj s r)) ` set rs"
  by (auto simp: dmem_def dget_new_by_id find_None_iff simp del: not_None_eq)

lemma dkeys_new_by_id: "set (dkeys (new_by_id rs s)) = (\<lambda>r. ins_id (obj s r)) ` set rs"
  using dmem_new_by_id [of _ rs s] unfolding dmem_iff_keys by blast

lemma dget_new_by_id_distinct:
  assumes "distinct (map (\<lambda>r. ins_id (obj s r)) rs)" and "r \<in> set rs"
  shows "dget (new_by_id rs s) (ins_id (obj s r)) = Some r"
proof -
  have "dmem (ins_id (obj s r)) (new_by_id rs s)" using assms(2) by (simp add: dmem_new_by_id)
  then obtain r' where r': "dget (new_by_id rs s) (ins_id (obj s r)) = Some r'" by (auto simp: dmem_def)
  from dget_new_by_idD [OF r'] assms show ?thesis by (simp add: r' distinct_map inj_on_def)
qed

lemma set_current_ids:
  "n \<in> set (current_ids s) \<longleftrightarrow> dmem n (available_pool s) \<or> dmem n (unavailable_pool s) \<or> dmem n (paused_pool s)"
  by (auto simp: current_ids_def dmem_iff_keys)

lemma lookup_any_id:
  assumes "pool_index s" and "lookup_any_pool n s = Some r"
  shows "ins_id (obj s r) = n"
  using assms by (auto simp: lookup_any_pool_def pool_index_def keyed_def split: option.splits)

lemma lookup_any_current: "n \<in> set (current_ids s) \<longleftrightarrow> lookup_any_pool n s \<noteq> None"
  by (auto simp: set_current_ids lookup_any_pool_def dmem_def split: option.splits)

text \<open>The hypotheses under which SET is exact: Python's set iteration, one instance per id and job name, known roles.\<close>

definition set_request_ok :: "iref list \<Rightarrow> pools \<Rightarrow> bool" where
  "set_request_ok rs s \<longleftrightarrow>
     distinct (map (\<lambda>r. ins_id (obj s r)) rs) \<and> distinct (map (\<lambda>r. job_name (obj s r)) rs) \<and>
     (\<forall>r \<in> set rs. \<exists>\<rho>. role_is s r \<rho>)"

lemma refresh_ids_set:
  "n \<in> set (refresh_ids rs s) \<longleftrightarrow>
     (\<exists>old new. lookup_any_pool n s = Some old \<and> dget (new_by_id rs s) n = Some new \<and>
        (\<not> dmem n (available_pool s) \<or> instance_needs_update (obj s old) (obj s new)))"
  by (auto simp: refresh_ids_def needs_refresh_def lookup_any_current dmem_def
      dest: map_of_SomeD split: option.splits intro!: rev_image_eqI)

lemma refresh_ids_distinct: "distinct (refresh_ids rs s)"
  by (simp add: refresh_ids_def)

lemma set_to_remove:
  assumes idx: "pool_index s" and it: "set_iteration ord"
  shows "(\<lambda>r. ins_id (obj s r)) ` set (snd (compute_set_diff ord rs s)) =
    {n \<in> set (current_ids s). n \<in> set (refresh_ids rs s) \<or> n \<notin> (\<lambda>r. ins_id (obj s r)) ` set rs}"
proof -
  let ?ids = "filter (\<lambda>n. n \<notin> set (dkeys (new_by_id rs s))) (remdups (current_ids s)) @ refresh_ids rs s"
  have "distinct ?ids" by (auto simp: refresh_ids_def new_by_id_ok)
  with it have "set (ord ?ids) = set ?ids" by (simp add: set_iteration_def)
  moreover have "n \<in> set (refresh_ids rs s) \<Longrightarrow> n \<in> set (current_ids s)" for n
    by (simp add: refresh_ids_def)
  ultimately have mem: "n \<in> set (ord ?ids) \<longleftrightarrow>
      n \<in> set (current_ids s) \<and> (n \<in> set (refresh_ids rs s) \<or> n \<notin> (\<lambda>r. ins_id (obj s r)) ` set rs)" for n
    by (auto simp: dkeys_new_by_id simp del: set_map)
  have "(\<lambda>r. ins_id (obj s r)) ` {r. \<exists>n \<in> N. lookup_any_pool n s = Some r} = N"
    if "\<And>n. n \<in> N \<Longrightarrow> n \<in> set (current_ids s)" for N
    using that lookup_any_id [OF idx] unfolding lookup_any_current image_def by blast
  from this [of "set (ord ?ids)"] show ?thesis
    unfolding compute_set_diff_alt snd_conv set_map_filter using mem by blast
qed

lemma set_to_add:
  assumes it: "set_iteration ord"
  shows "r \<in> set (fst (compute_set_diff ord rs s)) \<longleftrightarrow>
    (\<exists>n. dget (new_by_id rs s) n = Some r \<and> (n \<notin> set (current_ids s) \<or> n \<in> set (refresh_ids rs s)))"
proof -
  let ?ids = "filter (\<lambda>n. n \<notin> set (remdups (current_ids s))) (dkeys (new_by_id rs s)) @ refresh_ids rs s"
  have "distinct ?ids" by (auto simp: refresh_ids_def new_by_id_ok)
  with it have "set (ord ?ids) = set ?ids" by (simp add: set_iteration_def)
  then have mem: "n \<in> set (ord ?ids) \<longleftrightarrow> dmem n (new_by_id rs s) \<and> n \<notin> set (current_ids s) \<or> n \<in> set (refresh_ids rs s)" for n
    by (auto simp: dmem_iff_keys)
  show ?thesis
    unfolding compute_set_diff_alt fst_conv set_map_filter by (auto simp only: mem mem_Collect_eq Bex_def dmem_def)
qed

lemma map_filter_distinct:
  assumes "distinct ns" and "\<And>n r. f n = Some r \<Longrightarrow> g r = n"
  shows "distinct (map g (List.map_filter f ns))"
  using assms(1)
proof (induction ns)
  case (Cons n ns)
  have "g r \<in> set ns" if "r \<in> set (List.map_filter f ns)" for r
    using that assms(2) by (auto simp: set_map_filter)
  with Cons assms(2) show ?case by (fastforce simp: map_filter_simps split: option.splits)
qed (simp add: map_filter_simps)

lemma set_to_add_distinct:
  assumes it: "set_iteration ord"
  shows "distinct (map (\<lambda>r. ins_id (obj s r)) (fst (compute_set_diff ord rs s)))"
proof -
  let ?ids = "filter (\<lambda>n. n \<notin> set (remdups (current_ids s))) (dkeys (new_by_id rs s)) @ refresh_ids rs s"
  have "distinct ?ids" by (auto simp: refresh_ids_def new_by_id_ok)
  with it have "distinct (ord ?ids)" by (simp add: set_iteration_def)
  then show ?thesis
    unfolding compute_set_diff_alt fst_conv by (rule map_filter_distinct) (simp add: dget_new_by_idD)
qed

lemma needs_update_static:
  assumes "same_static i i'" and "same_static j j'"
  shows "instance_needs_update i j = instance_needs_update i' j'"
proof -
  have sig: "ep_sig i = ep_sig i'" if "same_static i i'" for i i'
  proof -
    have alt: "ep_sig i = set (map (\<lambda>(loc, e). (fst loc, ep_id e, ep_ip e, business_port e, mgmt_port e))
        (map (\<lambda>(loc, e). (loc, e\<lparr>ep_workload := zero_workload\<rparr>)) (iter_endpoints i)))" for i
      by (simp add: ep_sig_def comp_def case_prod_unfold)
    have "map (\<lambda>(loc, e). (loc, e\<lparr>ep_workload := zero_workload\<rparr>)) (iter_endpoints i) =
        map (\<lambda>(loc, e). (loc, e\<lparr>ep_workload := zero_workload\<rparr>)) (iter_endpoints i')"
      using that by (simp add: same_static_def)
    then show ?thesis by (simp only: alt)
  qed
  from sig [OF assms(1)] sig [OF assms(2)] assms show ?thesis
    by (simp add: instance_needs_update_def same_static_def)
qed

lemma keyed_value: "keyed h p \<Longrightarrow> r \<in> set (dvalues p) \<Longrightarrow> dget p (ins_id (h r)) = Some r"
  by (metis dvalue_has_key keyed_def)

lemma pooled_dget:
  assumes wf: "pool_wf s" and r: "r \<in> pooled s"
  shows "lookup_any_pool (ins_id (obj s r)) s = Some r"
proof -
  from wf have k: "keyed (heap s) (available_pool s)" "keyed (heap s) (unavailable_pool s)" "keyed (heap s) (paused_pool s)"
    by (simp_all add: pool_wf_def pool_index_def)
  from r consider "r \<in> set (dvalues (available_pool s))" | "r \<in> set (dvalues (unavailable_pool s))"
    | "r \<in> set (dvalues (paused_pool s))" unfolding set_append by blast
  then show ?thesis
    using keyed_value [OF k(1)] keyed_value [OF k(2)] keyed_value [OF k(3)] pool_wf_disjoint [OF wf, of "ins_id (obj s r)"]
    by cases (simp_all add: lookup_any_pool_def dmem_def)
qed

text \<open>After the removals every pooled instance is a requested one, up to date and available.\<close>

lemma set_kept:
  assumes wf: "pool_wf s" and it: "set_iteration ord" and wfo: "pool_wf t"
    and out: "without_ids ((\<lambda>r. ins_id (obj s r)) ` set (snd (compute_set_diff ord rs s))) s t"
    and r: "lookup_any_pool n t = Some r"
  shows "\<exists>new. dget (new_by_id rs s) n = Some new \<and> dget (available_pool t) n = Some r \<and>
    dget (available_pool s) n = Some r \<and> \<not> instance_needs_update (obj s r) (obj s new)"
proof -
  have keep: "n \<notin> (\<lambda>r. ins_id (obj s r)) ` set (snd (compute_set_diff ord rs s))" (is "n \<notin> ?R")
    using r out by (auto simp: lookup_any_pool_def without_ids_def)
  then have rs: "lookup_any_pool n s = Some r"
    using r out unfolding lookup_any_pool_def without_ids_def by metis
  then have cur: "n \<in> set (current_ids s)" by (simp add: lookup_any_current)
  with keep have "n \<notin> set (refresh_ids rs s)" and "dmem n (new_by_id rs s)"
    unfolding set_to_remove [OF pool_wf_index [OF wf] it] by (auto simp: dmem_new_by_id)
  then obtain new where new: "dget (new_by_id rs s) n = Some new"
    and up: "dmem n (available_pool s)" "\<not> instance_needs_update (obj s r) (obj s new)"
    using rs by (auto simp: refresh_ids_set dmem_def)
  with rs have "dget (available_pool s) n = Some r" by (auto simp: lookup_any_pool_def dmem_def)
  with new up keep out show ?thesis by (simp add: without_ids_def)
qed

lemma set_add_gone:
  assumes wf: "pool_wf s" and it: "set_iteration ord" and wft: "pool_wf t"
    and out: "without_ids ((\<lambda>r. ins_id (obj s r)) ` set (snd (compute_set_diff ord rs s))) s t"
    and n: "dget (new_by_id rs s) n = Some r" "n \<notin> set (current_ids s) \<or> n \<in> set (refresh_ids rs s)"
  shows "lookup_any_pool n t = None"
proof (rule ccontr)
  assume "lookup_any_pool n t \<noteq> None"
  then obtain r' where r': "lookup_any_pool n t = Some r'" by blast
  from set_kept [OF wf it wft out r'] n show False
    by (auto simp: refresh_ids_set set_current_ids dmem_def lookup_any_pool_def)
qed

lemma set_add_fresh:
  assumes wf: "pool_wf s" and it: "set_iteration ord" and ok: "set_request_ok rs s" and wft: "pool_wf t"
    and out: "without_ids ((\<lambda>r. ins_id (obj s r)) ` set (snd (compute_set_diff ord rs s))) s t"
    and r: "r \<in> set (fst (compute_set_diff ord rs s))"
  shows "fresh_add t r"
proof -
  from out have h: "heap t = heap s" by (simp add: without_ids_def)
  from r obtain n where n: "dget (new_by_id rs s) n = Some r" "n \<notin> set (current_ids s) \<or> n \<in> set (refresh_ids rs s)"
    by (auto simp: set_to_add [OF it])
  from dget_new_by_idD [OF n(1)] have id: "ins_id (obj s r) = n" "r \<in> set rs" by simp_all
  have gone: "lookup_any_pool n t = None"
    by (rule set_add_gone [OF wf it wft out n])
  have "job_name (obj s r') \<noteq> job_name (obj s r)" if "r' \<in> pooled t" for r'
  proof
    assume same: "job_name (obj s r') = job_name (obj s r)"
    have look: "lookup_any_pool (ins_id (obj s r')) t = Some r'" using pooled_dget [OF wft that] by (simp add: h)
    from set_kept [OF wf it wft out look] obtain new where
      new: "dget (new_by_id rs s) (ins_id (obj s r')) = Some new" "\<not> instance_needs_update (obj s r') (obj s new)" by blast
    then have "job_name (obj s new) = job_name (obj s r)" "new \<in> set rs" "ins_id (obj s new) = ins_id (obj s r')"
      using same dget_new_by_idD [OF new(1)] by (simp_all add: instance_needs_update_def)
    with ok id have "new = r" by (simp add: set_request_ok_def distinct_map inj_on_def)
    with \<open>ins_id (obj s new) = ins_id (obj s r')\<close> look gone id show False by simp
  qed
  moreover have "in_no_pool t n"
    using gone by (auto simp: lookup_any_pool_def dmem_def split: option.splits)
  ultimately show ?thesis
    using ok id by (simp add: fresh_add_def h set_request_ok_def)
qed

definition set_result :: "iref list \<Rightarrow> pools \<Rightarrow> pools \<Rightarrow> bool" where
  "set_result rs s t \<longleftrightarrow>
     unavailable_pool t = [] \<and> paused_pool t = [] \<and>
     (\<forall>n. dmem n (available_pool t) \<longleftrightarrow> n \<in> (\<lambda>r. ins_id (obj s r)) ` set rs) \<and>
     (\<forall>r \<in> set rs. \<exists>r'. dget (available_pool t) (ins_id (obj s r)) = Some r' \<and>
        \<not> instance_needs_update (obj t r') (obj t r))"

lemma dict_empty: "(\<And>k. dget d k = None) \<Longrightarrow> d = []"
  by (cases d) (auto, metis option.distinct(1))

lemma set_others_empty:
  assumes wf: "pool_wf s" and it: "set_iteration ord" and wft: "pool_wf t"
    and out: "without_ids ((\<lambda>r. ins_id (obj s r)) ` set (snd (compute_set_diff ord rs s))) s t"
  shows "unavailable_pool t = []" and "paused_pool t = []"
proof -
  have "dget (unavailable_pool t) n = None \<and> dget (paused_pool t) n = None" for n
  proof (rule ccontr)
    assume other: "\<not> (dget (unavailable_pool t) n = None \<and> dget (paused_pool t) n = None)"
    then have "n \<in> set (current_ids t)" by (auto simp: set_current_ids dmem_def)
    then obtain r where "lookup_any_pool n t = Some r" unfolding lookup_any_current by blast
    from set_kept [OF wf it wft out this] have "dmem n (available_pool t)" by auto
    with pool_wf_disjoint(3) [OF wft this] other show False by (simp add: dmem_def)
  qed
  then show "unavailable_pool t = []" and "paused_pool t = []"
    using dict_empty [of "unavailable_pool t"] dict_empty [of "paused_pool t"] by blast+
qed

lemma set_requested:
  assumes wf: "pool_wf s" and it: "set_iteration ord" and wft: "pool_wf t"
    and out: "without_ids ((\<lambda>r. ins_id (obj s r)) ` set (snd (compute_set_diff ord rs s))) s t"
    and ok: "set_request_ok rs s" and r: "r \<in> set rs"
    and add: "with_refs (set (fst (compute_set_diff ord rs s))) t u"
  shows "\<exists>r'. dget (available_pool u) (ins_id (obj s r)) = Some r' \<and> \<not> instance_needs_update (obj u r') (obj u r)"
proof (cases "r \<in> set (fst (compute_set_diff ord rs s))")
  case True
  then have "dget (available_pool u) (ins_id (obj s r)) = Some r"
    using add out by (simp add: with_refs_def without_ids_def)
  then show ?thesis by (simp add: instance_needs_update_def)
next
  case False
  let ?n = "ins_id (obj s r)" and ?A = "set (fst (compute_set_diff ord rs s))"
  from out have h: "heap t = heap s" by (simp add: without_ids_def)
  have new: "dget (new_by_id rs s) ?n = Some r"
    using ok r by (simp add: dget_new_by_id_distinct set_request_ok_def)
  with False have "?n \<in> set (current_ids s)" and nr: "?n \<notin> set (refresh_ids rs s)"
    by (auto simp: set_to_add [OF it])
  then obtain old where old: "lookup_any_pool ?n s = Some old" by (auto simp: lookup_any_current)
  with nr new have "dmem ?n (available_pool s)" and up: "\<not> instance_needs_update (obj s old) (obj s r)"
    by (simp_all add: refresh_ids_set)
  with old have av: "dget (available_pool s) ?n = Some old" by (auto simp: lookup_any_pool_def dmem_def)
  have "?n \<notin> (\<lambda>r. ins_id (obj s r)) ` set (snd (compute_set_diff ord rs s))"
    unfolding set_to_remove [OF pool_wf_index [OF wf] it] using nr r by blast
  with out av have "dget (available_pool t) ?n = Some old" by (simp add: without_ids_def)
  moreover have "?n \<notin> (\<lambda>r. ins_id (obj s r)) ` ?A"
  proof
    assume "?n \<in> (\<lambda>r. ins_id (obj s r)) ` ?A"
    then obtain r' where "r' \<in> ?A" "ins_id (obj s r') = ?n" by auto
    moreover from this(1) obtain n where "dget (new_by_id rs s) n = Some r'" unfolding set_to_add [OF it] by blast
    ultimately have r': "r' \<in> ?A" "ins_id (obj s r') = ?n" "dget (new_by_id rs s) n = Some r'" by blast+
    with dget_new_by_idD [OF r'(3)] new have "r' = r" by simp
    with False r'(1) show False by simp
  qed
  ultimately have "dget (available_pool u) ?n = Some old" using add by (simp add: with_refs_def h)
  moreover have "same_static (heap s r') (heap u r')" for r' using add by (simp add: with_refs_def h)
  ultimately show ?thesis using up needs_update_static by blast
qed

lemma set_only_requested:
  assumes wf: "pool_wf s" and it: "set_iteration ord" and wft: "pool_wf t"
    and out: "without_ids ((\<lambda>r. ins_id (obj s r)) ` set (snd (compute_set_diff ord rs s))) s t"
    and add: "with_refs (set (fst (compute_set_diff ord rs s))) t u" and n: "dmem n (available_pool u)"
  shows "n \<in> (\<lambda>r. ins_id (obj s r)) ` set rs"
proof (cases "n \<in> (\<lambda>r. ins_id (obj s r)) ` set (fst (compute_set_diff ord rs s))")
  case True
  then obtain r m where "n = ins_id (obj s r)" "dget (new_by_id rs s) m = Some r" by (auto simp: set_to_add [OF it])
  with dget_new_by_idD [of rs s m r] show ?thesis by blast
next
  case False
  with n add out have "dmem n (available_pool t)" by (simp add: with_refs_def without_ids_def dmem_def)
  then obtain r where "lookup_any_pool n t = Some r" by (auto simp: lookup_any_pool_def dmem_def)
  from set_kept [OF wf it wft out this] obtain new where "dget (new_by_id rs s) n = Some new" by blast
  from dget_new_by_idD [OF this] show ?thesis by blast
qed

lemma set_result_final:
  assumes wf: "pool_wf s" and it: "set_iteration ord" and wft: "pool_wf t"
    and out: "without_ids ((\<lambda>r. ins_id (obj s r)) ` set (snd (compute_set_diff ord rs s))) s t"
    and ok: "set_request_ok rs s" and add: "with_refs (set (fst (compute_set_diff ord rs s))) t u"
  shows "set_result rs s u"
proof -
  have "unavailable_pool u = []" "paused_pool u = []"
    using set_others_empty [OF wf it wft out] add by (simp_all add: with_refs_def)
  moreover have "\<forall>r \<in> set rs. \<exists>r'. dget (available_pool u) (ins_id (obj s r)) = Some r' \<and>
      \<not> instance_needs_update (obj u r') (obj u r)"
    using set_requested [OF wf it wft out ok _ add] by blast
  moreover have "dmem n (available_pool u) \<longleftrightarrow> n \<in> (\<lambda>r. ins_id (obj s r)) ` set rs" for n
    using set_only_requested [OF wf it wft out add] calculation(3) by (auto simp: dmem_def)
  ultimately show ?thesis unfolding set_result_def by blast
qed

end
