(* ===== verification/Pool_Correctness.thy ===== *)
theory Pool_Correctness
  imports Pool_Properties
begin

text \<open>
  The properties of the coordinator's pools: the index and the ledger in every reachable state, the
  pairing of allocations and releases, disjointness of the pools, the exact effect of SET, readiness.
\<close>

section \<open>The ledger in every reachable state\<close>

abbreviation all_ledgers_ok :: "pools \<Rightarrow> bool" where
  "all_ledgers_ok s \<equiv> \<forall>r. ledger_ok (heap s r)"

lemma sum_list_zero: "(\<And>x. x \<in> set xs \<Longrightarrow> f x = (0::rat)) \<Longrightarrow> sum_list (map f xs) = 0"
  by (induction xs) simp_all

lemma ledger_ok_reset: "ledger_ok (reset_workload i)"
proof -
  have "tokens e = 0" if "e \<in> set (endpoint_objs (reset_workload i))" for e
    using that by (auto simp: reset_workload_def endpoint_objs_map zero_workload_def)
  then show ?thesis
    by (simp add: ledger_ok_def total_tokens_def sum_list_zero) (simp add: reset_workload_def zero_workload_def)
qed

lemma add_one_ledger: "all_ledgers_ok s \<Longrightarrow> all_ledgers_ok (fst (add_one_instance r s))"
  by (simp add: add_one_fst Let_def add_available_fields ledger_ok_reset)

lemma delete_instances_heap [simp]: "heap (fst (delete_instances rs s)) = heap s"
  unfolding delete_instances_def by (rule instance_loop_inv [where P = "\<lambda>t. heap t = heap s"]) simp_all

lemma add_instances_ledger: "all_ledgers_ok s \<Longrightarrow> all_ledgers_ok (fst (add_instances rs s))"
  using add_instances_fst [of rs s] add_loop_inv [where P = all_ledgers_ok, OF add_one_ledger, of s rs False "[]" "[]"]
  by (metis register_kv_fields(4))

lemma set_diff_ledger: "all_ledgers_ok s \<Longrightarrow> all_ledgers_ok (fst (apply_set_diff ord rs s))"
  by (rule set_diff_fst [where P = all_ledgers_ok]) (simp_all add: add_instances_ledger)

lemma pause_one_heap [simp]: "heap (fst (pause_one_instance r s)) = heap s"
  using delete_available_fields(3) [of "ins_id (obj s r)" s]
  by (auto simp: pause_one_instance_def Let_def split: prod.splits sum.splits bool.splits)

lemma resume_one_heap [simp]: "heap (fst (resume_one_instance r s)) = heap s"
  by (simp add: resume_one_instance_def Let_def add_available_fields)

lemma refresh_ledger: "all_ledgers_ok s \<Longrightarrow> all_ledgers_ok (fst (refresh_instances ord ev rs s))"
  by (rule refresh_inv [where P = all_ledgers_ok]) (simp_all add: add_instances_ledger set_diff_ledger)

lemma update_state_heap [simp]: "heap (fst (update_instance_state iid mode s)) = heap s"
  using delete_available_fields(3) [of iid s]
    add_available_fields(3) [of _ "s\<lparr>unavailable_pool := ddel iid (unavailable_pool s)\<rparr>"]
  by (auto simp: update_instance_state_def split: update_instance_mode.splits option.splits prod.splits sum.splits bool.splits)
    (metis fst_conv)+

lemma pool_step_ledger: "pool_step s t \<Longrightarrow> pool_index s \<Longrightarrow> all_ledgers_ok s \<Longrightarrow> all_ledgers_ok t"
proof (induction rule: pool_step.induct)
  case (workload s iid eid w)
  then show ?case using update_workload_ledger by blast
qed (simp_all add: refresh_ledger delete_unavailable_instance_def stop_def get_workload_same)

lemma dmem_build_cache: "dmem n (build_endpoint_cache r s) \<longleftrightarrow> (\<exists>e \<in> set (endpoint_objs (obj s r)). ep_id e = n)"
proof -
  have "dmem n (fold (\<lambda>(loc, e) c. dset (ep_id e) (r, loc) c) xs d) \<longleftrightarrow> dmem n d \<or> (\<exists>e \<in> set (map snd xs). ep_id e = n)" for xs :: "(ep_loc \<times> endpoint) list" and d
    by (induction xs arbitrary: d) auto
  then show ?thesis by (simp add: build_endpoint_cache_def endpoint_objs_def)
qed

text \<open>An update that finds the endpoint in the index.\<close>

lemma update_workload_cached:
  assumes "dget (available_pool s) iid = Some r" and "dget (endpoint_id_cache s) iid = Some c"
    and "dget c eid = Some (r, loc)" and "endpoint_at i loc = Some e"
  shows "update_instance_workload_sync iid eid v (set_obj r i s) =
    (let s' = set_obj r (apply_workload_change loc e v i) s
     in (s', case role_of_instance (heap s' r) of
               Inl x \<Rightarrow> Inl x
             | Inr \<rho> \<Rightarrow> Inr (map_option (\<lambda>e'. (\<rho>, ep_workload e')) (endpoint_at (apply_workload_change loc e v i) loc))))"
  using assms
  by (auto simp: update_instance_workload_sync_def ensure_endpoint_cache_def Let_def commit_workload_own set_obj_def
      split: sum.splits)

text \<open>In a consistent index no update raises: an available instance has a known role.\<close>

lemma update_workload_ok:
  assumes "pool_index s"
  shows "\<exists>res. snd (update_instance_workload_sync iid eid w s) = Inr res"
proof (cases "dget (available_pool s) iid")
  case None
  then show ?thesis by (simp add: update_instance_workload_sync_def)
next
  case (Some r)
  let ?t = "fst (update_instance_workload_sync iid eid w s)"
  obtain \<rho> where "role_is s r \<rho>" using pool_index_role [OF assms Some] by blast
  moreover have "same_static (heap s r) (heap ?t r)"
    using update_workload_same [OF assms, of iid eid w] by (simp add: same_pools_def)
  ultimately have "pd_role_of (ins_role (heap ?t r)) = Inr \<rho>" by (metis same_static_D(2))
  then obtain \<rho>' where role: "role_of_instance (heap ?t r) = Inr \<rho>'"
    by (cases "ins_role (heap ?t r) = []") (auto simp: role_of_instance_def)
  obtain c s' where c: "ensure_endpoint_cache iid r s = (c, s')" by fastforce
  show ?thesis
  proof (cases "\<exists>r' loc e. dget c eid = Some (r', loc) \<and> endpoint_at (obj s' r') loc = Some e")
    case True
    then obtain r' loc e where at: "dget c eid = Some (r', loc)" "endpoint_at (obj s' r') loc = Some e" by blast
    then have "?t = commit_workload r r' loc e w s'"
      by (simp add: update_instance_workload_sync_def Some c Let_def)
    with role at show ?thesis
      by (auto simp: update_instance_workload_sync_def Some c Let_def split: sum.splits)
  next
    case False
    then show ?thesis by (auto simp: update_instance_workload_sync_def Some c split: option.splits)
  qed
qed

section \<open>The role pools\<close>

abbreviation of_class :: "pd_role \<Rightarrow> instance_obj list \<Rightarrow> instance_obj list" where
  "of_class \<rho> is \<equiv> filter (\<lambda>i. role_class (ins_role i) = Some \<rho>) is"

lemma readiness_run:
  "is_run (readiness_from_instances is) \<longleftrightarrow> of_class ROLE_P is \<noteq> [] \<or> of_class ROLE_U is \<noteq> []"
  by (simp add: readiness_from_instances_def is_run_def is_ready_def Let_def)

lemma readiness_ready:
  "is_ready (readiness_from_instances is) \<longleftrightarrow>
     of_class ROLE_U is \<noteq> [] \<or> (of_class ROLE_P is \<noteq> [] \<and> of_class ROLE_D is \<noteq> [])"
  by (simp add: readiness_from_instances_def is_ready_def Let_def)

lemma role_class_of: "pd_role_of v = Inr \<rho> \<Longrightarrow> role_class v = Some \<rho>"
  by (auto simp: pd_role_of_def role_class_def split: if_splits)

lemma role_pool_members:
  assumes wf: "pool_wf s"
  shows "filter (\<lambda>i. role_class (ins_role i) = Some \<rho>)
      (map (obj s) (dvalues (role_pools s ROLE_E) @ dvalues (role_pools s ROLE_P) @
        dvalues (role_pools s ROLE_D) @ dvalues (role_pools s ROLE_U))) \<noteq> [] \<longleftrightarrow>
    (\<exists>n r. dget (available_pool s) n = Some r \<and> role_is s r \<rho>)" (is "filter ?P (map _ ?rs) \<noteq> [] \<longleftrightarrow> ?R")
proof
  have rs: "r \<in> set ?rs \<longleftrightarrow> (\<exists>\<rho>. r \<in> set (dvalues (role_pools s \<rho>)))" for r
    by (simp only: set_append Un_iff) (metis pd_role.exhaust)
  show "filter ?P (map (obj s) ?rs) \<noteq> [] \<Longrightarrow> ?R"
  proof -
    assume "filter ?P (map (obj s) ?rs) \<noteq> []"
    then obtain r where r: "r \<in> set ?rs" "?P (obj s r)" unfolding filter_empty_conv set_map by blast
    then obtain \<rho>' where "r \<in> set (dvalues (role_pools s \<rho>'))" using rs by blast
    then have "dget (role_pools s \<rho>') (ins_id (obj s r)) = Some r"
      using wf keyed_value by (simp add: pool_wf_def pool_index_def)
    with wf have "dget (available_pool s) (ins_id (obj s r)) = Some r" "role_is s r \<rho>'"
      by (simp_all add: pool_wf_def roles_exact_def)
    with role_class_of r(2) show ?R by fastforce
  qed
  show "?R \<Longrightarrow> filter ?P (map (obj s) ?rs) \<noteq> []"
  proof -
    assume ?R
    then obtain n r where r: "dget (available_pool s) n = Some r" "role_is s r \<rho>" by blast
    from pool_index_role [OF pool_wf_index [OF wf] r(1)] obtain \<rho>' where "dget (role_pools s \<rho>') n = Some r" by blast
    then have "r \<in> set ?rs" using rs dget_value_in by fast
    with role_class_of [OF r(2)] show ?thesis unfolding filter_empty_conv by auto
  qed
qed

section \<open>A concrete pool\<close>

text \<open>Three instances, referenced by 0, 1 and 2; the state after ADD of the first two.\<close>

definition demo_heap :: "iref \<Rightarrow> instance_obj" where
  "demo_heap r =
     (if r = 0 then demo_instance 1 ''p0'' ''prefill''
      else if r = 1 then demo_instance 2 ''d0'' ''decode''
      else demo_instance 3 ''d1'' ''decode'')"

definition demo_pools :: pools where
  "demo_pools = fst (refresh_instances (\<lambda>xs. xs) ADD [0, 1] (init_pools demo_heap ''mgmt''))"

lemma demo_reachable: "pool_reachable demo_heap ''mgmt'' demo_pools"
  unfolding demo_pools_def by (rule pool_reachable.step [OF pool_reachable.init pool_step.refresh])

lemma demo_ledger: "ledger_ok (demo_heap r)"
  by (simp add: ledger_ok_def demo_heap_def demo_defs total_tokens_def endpoint_objs_def iter_endpoints_def zero_workload_def)

lemmas pool_eval =
  refresh_instances_def add_instances_def add_one_instance_def replace_stale_def find_instance_by_job_name_def
  add_instance_to_available_pool_def register_kv_instance_def set_obj_def set_role_pool_def
  pd_role_of_def TYPE_MGMT_def Let_def dmem_def

lemma demo_heap_fields [simp]:
  "ins_id (demo_heap 0) = 1" "ins_id (demo_heap (Suc 0)) = 2" "ins_id (demo_heap 2) = 3"
  "ins_role (demo_heap 0) = ''prefill''" "ins_role (demo_heap (Suc 0)) = ''decode''" "ins_role (demo_heap 2) = ''decode''"
  "job_name (demo_heap 0) = ''p0''" "job_name (demo_heap (Suc 0)) = ''d0''" "job_name (demo_heap 2) = ''d1''"
  by (simp_all add: demo_heap_def demo_defs)

lemma reset_fields [simp]:
  "ins_id (reset_workload i) = ins_id i" "ins_role (reset_workload i) = ins_role i" "job_name (reset_workload i) = job_name i"
  by (simp_all add: reset_workload_def)

lemma demo_pools_fields:
  "available_pool demo_pools = [(1, 0), (2, Suc 0)]" "unavailable_pool demo_pools = []" "paused_pool demo_pools = []"
  "role_pools demo_pools = (\<lambda>_. [])(ROLE_P := [(1, 0)], ROLE_D := [(2, Suc 0)])"
  "heap demo_pools = demo_heap(0 := reset_workload (demo_heap 0), Suc 0 := reset_workload (demo_heap (Suc 0)))"
  by (simp_all add: demo_pools_def init_pools_def pool_eval)

lemma demo_init_wf: "pool_wf (init_pools demo_heap ''mgmt'')"
  using pool_index_init by (simp add: pool_wf_def pools_disjoint_def roles_exact_def init_pools_def)

lemma set_iteration_id: "set_iteration (\<lambda>xs. xs)"
  by (simp add: set_iteration_def)

lemma demo_wf: "pool_wf demo_pools"
proof -
  let ?s = "init_pools demo_heap ''mgmt''"
  have "pool_wf (fst (add_loop [0, 1] False [] [] ?s))"
    by (rule add_loop_wf [OF demo_init_wf]) (simp_all add: add_ok_def init_pools_def dmem_def)
  then have "pool_wf (fst (add_instances [0, 1] ?s))"
    using add_instances_fst [of "[0, 1]" ?s] pool_wf_register by metis
  then show ?thesis by (simp add: demo_pools_def refresh_instances_def)
qed

section \<open>Properties\<close>

subsection \<open>The index\<close>

text \<open>
  Removing an instance from the available pool never raises in a reachable state: the role pool
  holds every available instance, so the operation reports whether the id was available, removes
  exactly that id and leaves the unavailable and paused pools alone.
\<close>

theorem delete_available_total:
  assumes "pool_reachable h tn s"
  shows "snd (delete_instance_from_available_pool iid s) = Inr (dmem iid (available_pool s)) \<and>
    (\<forall>n. dget (available_pool (fst (delete_instance_from_available_pool iid s))) n =
      (if n = iid then None else dget (available_pool s) n)) \<and>
    unavailable_pool (fst (delete_instance_from_available_pool iid s)) = unavailable_pool s \<and>
    paused_pool (fst (delete_instance_from_available_pool iid s)) = paused_pool s"
  using reachable_pool_index [OF assms]
  by (simp add: delete_available_ok delete_available_dget delete_available_fields)

theorem delete_available_total_witness:
  "snd (delete_instance_from_available_pool 2 demo_pools) = Inr True"
  using delete_available_total [OF demo_reachable, of 2] by (simp add: demo_pools_fields dmem_def)

text \<open>
  The endpoint index is never stale. In a reachable state the index answers that an instance has
  an endpoint exactly when the instance is available and a scan of its nested endpoint dictionary
  finds that id.
\<close>

theorem has_instance_endpoint_scan:
  assumes "pool_reachable h tn s"
  shows "has_instance_endpoint iid eid s \<longleftrightarrow>
    (\<exists>r e. dget (available_pool s) iid = Some r \<and> e \<in> set (endpoint_objs (obj s r)) \<and> ep_id e = eid)"
proof (cases "dget (endpoint_id_cache s) iid")
  case None
  then show ?thesis by (auto simp: has_instance_endpoint_def list_ex_iff split: option.splits)
next
  case (Some c)
  obtain r where "dget (available_pool s) iid = Some r" "c = build_endpoint_cache r s"
    using reachable_pool_index [OF assms] Some unfolding pool_index_def by blast
  with Some show ?thesis by (auto simp: has_instance_endpoint_def dmem_build_cache)
qed

theorem has_instance_endpoint_scan_witness: "\<not> has_instance_endpoint 3 0 demo_pools"
  using has_instance_endpoint_scan [OF demo_reachable, of 3 0] by (simp add: demo_pools_fields)

subsection \<open>The ledger\<close>





subsection \<open>Events\<close>

lemma set_diff_wf:
  assumes wf: "pool_wf s" and it: "set_iteration ord"
  shows "pool_wf (fst (apply_set_diff ord rs s))"
proof -
  obtain to_add to_remove where d: "compute_set_diff ord rs s = (to_add, to_remove)" by fastforce
  obtain t b where t: "delete_instances to_remove s = (t, Inr b)" "pool_wf t"
      and out: "without_ids ((\<lambda>r. ins_id (obj s r)) ` set to_remove) s t"
    using delete_loop_exact [OF wf] unfolding delete_instances_def by blast
  have addwf: "pool_wf (fst (add_instances to_add u))"
    if u: "pool_wf u" "without_ids ((\<lambda>r. ins_id (obj s r)) ` set to_remove) s u" for u
  proof -
    have "add_ok u r" if "r \<in> set to_add" for r
    proof -
      have "r \<in> set (fst (compute_set_diff ord rs s))" using that d by simp
      then obtain n where n: "dget (new_by_id rs s) n = Some r" "n \<notin> set (current_ids s) \<or> n \<in> set (refresh_ids rs s)"
        unfolding set_to_add [OF it] by blast
      have "lookup_any_pool n u = None"
        using set_add_gone [OF wf it u(1) _ n] u(2) by (simp add: d)
      then show ?thesis
        using dget_new_by_idD [OF n(1)] u(2)
        by (auto simp: add_ok_def lookup_any_pool_def without_ids_def dmem_def split: option.splits)
    qed
    moreover have "distinct (map (\<lambda>r. ins_id (obj u r)) to_add)"
      using set_to_add_distinct [OF it, of s rs] u(2) by (simp add: d without_ids_def)
    ultimately have "pool_wf (fst (add_loop to_add False [] [] u))"
      by (intro add_loop_wf u) (simp_all add: list_all_iff)
    then show ?thesis using add_instances_fst [of to_add u] pool_wf_register by metis
  qed
  have "to_remove = [] \<Longrightarrow> without_ids ((\<lambda>r. ins_id (obj s r)) ` set to_remove) s s"
    by (simp add: without_ids_def)
  with addwf [OF t(2) out] addwf [OF wf] wf t show ?thesis
    by (auto simp: apply_set_diff_def d split: prod.splits sum.splits)
qed

text \<open>
  On a well-formed state (the available, unavailable and paused pools disjoint, the role pools
  holding exactly the available instances) every event keeps the state well formed: DEL, SET, PAUSE
  and RESUME always, ADD when the ids it carries are pairwise different, none is paused, and none is
  available under another role.
\<close>

theorem refresh_keeps_pools_disjoint:
  assumes "pool_wf s" and "set_iteration ord"
    and "ev = ADD \<Longrightarrow> list_all (add_ok s) rs \<and> distinct (map (\<lambda>r. ins_id (obj s r)) rs)"
  shows "pool_wf (fst (refresh_instances ord ev rs s))"
proof (rule refresh_inv [where P = pool_wf])
  assume "ev = ADD"
  with assms have "pool_wf (fst (add_loop rs False [] [] s))" by (intro add_loop_wf) simp_all
  then show "pool_wf (fst (add_instances rs s))"
    using add_instances_fst [of rs s] pool_wf_register by metis
qed (simp_all add: assms set_diff_wf pool_wf_register delete_one_wf pause_one_wf resume_one_wf)

theorem refresh_keeps_pools_disjoint_witness:
  "pool_wf (fst (refresh_instances (\<lambda>xs. xs) ADD [2] demo_pools))"
  by (rule refresh_keeps_pools_disjoint [OF demo_wf set_iteration_id])
    (simp add: add_ok_def demo_pools_fields dmem_def)



text \<open>
  ADD does not look at the paused pool. From a well-formed state in which an instance is paused and
  no other job has its name, an ADD of its id makes it available and leaves it paused as well; a DEL
  that follows removes only the paused entry, so the deleted instance stays available.
\<close>

theorem add_of_paused_survives_delete:
  fixes ord :: "int list \<Rightarrow> int list"
  assumes wf: "pool_wf s" and p: "dmem (ins_id (obj s r)) (paused_pool s)" and role: "role_is s r \<rho>"
    and job: "\<forall>r' \<in> pooled s. job_name (obj s r') = job_name (obj s r) \<longrightarrow> ins_id (obj s r') = ins_id (obj s r)"
  defines "t \<equiv> fst (refresh_instances ord ADD [r] s)"
  shows "dmem (ins_id (obj s r)) (available_pool t) \<and> dmem (ins_id (obj s r)) (paused_pool t) \<and>
    dget (available_pool (fst (refresh_instances ord DEL [r] t))) (ins_id (obj s r)) = Some r"
proof -
  let ?n = "ins_id (obj s r)"
  have np: "\<not> dmem ?n (available_pool s)" "\<not> dmem ?n (unavailable_pool s)"
    using pool_wf_disjoint(2) [OF wf p] by blast+
  have nrole: "\<not> dmem ?n (role_pools s \<rho>)"
    using wf np(1) unfolding dmem_def pool_wf_def roles_exact_def by (metis not_None_eq)
  have stale: "replace_stale r s = (s, Inr None)"
  proof (cases "find_instance_by_job_name (job_name (obj s r)) s")
    case None
    then show ?thesis by (simp add: replace_stale_def)
  next
    case (Some old)
    then have "old \<in> pooled s" "job_name (obj s old) = job_name (obj s r)"
      unfolding find_instance_by_job_name_def find_Some_iff by (metis nth_mem, metis)
    with job Some show ?thesis by (simp add: replace_stale_def)
  qed
  obtain s2 where s2: "add_instance_to_available_pool r s = (s2, Inr True)"
    using role nrole by (simp add: add_instance_to_available_pool_def Let_def)
  have fields: "available_pool t = available_pool s2" "paused_pool t = paused_pool s2" "unavailable_pool t = unavailable_pool s2"
    "heap t = (heap s)(r := reset_workload (heap s r))"
    using np s2 add_available_fields(3) [of r s]
    by (simp_all add: t_def refresh_instances_def add_instances_def add_one_instance_def stale)
  have at: "dget (available_pool t) ?n = Some r" "paused_pool t = paused_pool s" "unavailable_pool t = unavailable_pool s"
    using add_available_dget [of r s ?n] add_available_fields(1,2) [of r s] by (simp_all add: s2 fields)
  then have "available_pool (fst (refresh_instances ord DEL [r] t)) = available_pool t"
    using p np(2) by (simp add: refresh_instances_def delete_instances_def delete_one_instance_def Let_def fields(4))
  with at p show ?thesis by auto
qed

theorem add_of_paused_survives_delete_witness:
  "dget (available_pool (fst (refresh_instances (\<lambda>xs. xs) DEL [1] (fst (refresh_instances (\<lambda>xs. xs) ADD [1]
     (fst (pause_instances [1] demo_pools))))))) 2 = Some 1"
proof -
  let ?s = "fst (pause_instances [Suc 0] demo_pools)"
  have wf: "pool_wf ?s"
    unfolding pause_instances_def by (rule instance_loop_inv [where P = pool_wf, OF pause_one_wf demo_wf])
  have fields: "paused_pool ?s = [(2, Suc 0)]" "available_pool ?s = [(1, 0)]" "unavailable_pool ?s = []"
    "heap ?s = heap demo_pools"
    by (simp_all add: pause_instances_def pause_one_instance_def delete_instance_from_available_pool_def
        set_role_pool_def demo_pools_fields pd_role_of_def Let_def dmem_def)
  have "dmem (ins_id (obj ?s (Suc 0))) (paused_pool ?s)" "role_is ?s (Suc 0) ROLE_D"
    "\<forall>r' \<in> pooled ?s. job_name (obj ?s r') = job_name (obj ?s (Suc 0)) \<longrightarrow> ins_id (obj ?s r') = ins_id (obj ?s (Suc 0))"
    by (simp_all add: fields demo_pools_fields dmem_def pd_role_of_def)
  from add_of_paused_survives_delete [OF wf this, of "\<lambda>xs. xs"] show ?thesis
    by (simp add: fields demo_pools_fields)
qed

subsection \<open>Readiness\<close>

text \<open>
  The coordinator accepts traffic exactly when a prefill instance or a union instance is available
  (\<open>has_required_instances\<close>), and it is fully ready exactly when a prefill and a decode
  instance, or a union instance, are available. The state is well formed, so that the role pools
  are the available instances by role.
\<close>

theorem readiness_by_role:
  assumes "pool_wf s"
  shows "(has_required_instances s \<longleftrightarrow>
      (\<exists>n r. dget (available_pool s) n = Some r \<and> (role_is s r ROLE_P \<or> role_is s r ROLE_U))) \<and>
    (is_ready (get_required_instances_status s) \<longleftrightarrow>
      (\<exists>n r. dget (available_pool s) n = Some r \<and> role_is s r ROLE_U) \<or>
      ((\<exists>n r. dget (available_pool s) n = Some r \<and> role_is s r ROLE_P) \<and>
       (\<exists>n r. dget (available_pool s) n = Some r \<and> role_is s r ROLE_D)))"
proof -
  let ?is = "map (obj s) (dvalues (role_pools s ROLE_E) @ dvalues (role_pools s ROLE_P) @
    dvalues (role_pools s ROLE_D) @ dvalues (role_pools s ROLE_U))"
  have has: "filter (\<lambda>i. role_class (ins_role i) = Some \<rho>) ?is \<noteq> [] \<longleftrightarrow>
      (\<exists>n r. dget (available_pool s) n = Some r \<and> role_is s r \<rho>)" for \<rho>
    by (rule role_pool_members [OF assms])
  show ?thesis
    unfolding has_required_instances_def get_required_instances_status_def readiness_run readiness_ready has by blast
qed

theorem readiness_by_role_witness: "is_ready (get_required_instances_status demo_pools)"
proof -
  have "dget (available_pool demo_pools) 1 = Some 0" "role_is demo_pools 0 ROLE_P"
    "dget (available_pool demo_pools) 2 = Some (Suc 0)" "role_is demo_pools (Suc 0) ROLE_D"
    by (simp_all add: demo_pools_fields pd_role_of_def)
  then show ?thesis using readiness_by_role [OF demo_wf] by blast
qed

end
