(* ===== verification/Shm_Publication.thy ===== *)
theory Shm_Publication
  imports Seqlock Pool_Correctness
begin

text \<open>
  The workload table and the ledger: after a snapshot the table holds exactly the ledgers of the
  available endpoints, and every workload update followed by the write of its endpoint keeps it so.
  The composition is that of the request handlers of the scheduler process.
\<close>

section \<open>One endpoint of an instance\<close>

text \<open>Python dictionaries have distinct keys, and the endpoints of an instance distinct ids.\<close>

definition endpoint_ids_ok :: "instance_obj \<Rightarrow> bool" where
  "endpoint_ids_ok i \<longleftrightarrow>
     dict_ok (endpoints i) \<and> (\<forall>eps\<in>set (dvalues (endpoints i)). dict_ok eps) \<and> distinct (map ep_id (endpoint_objs i))"

lemma dset_as_map:
  "dict_ok d \<Longrightarrow> k \<in> set (dkeys d) \<Longrightarrow> dset k v d = map (\<lambda>(k', v'). (k', if k' = k then v else v')) d"
proof (induction d)
  case (Cons p d)
  then show ?case by (cases p) (force simp: case_prod_unfold intro!: map_idI [symmetric])
qed simp

lemma iter_endpoint_at:
  assumes "endpoint_ids_ok i"
  shows "(loc, e) \<in> set (iter_endpoints i) \<longleftrightarrow> endpoint_at i loc = Some e"
proof (cases loc)
  case (Pair pod k)
  have "(loc, e) \<in> set (iter_endpoints i) \<longleftrightarrow> (\<exists>eps. (pod, eps) \<in> set (endpoints i) \<and> (k, e) \<in> set eps)"
    by (force simp: iter_endpoints_def Pair)
  also have "\<dots> \<longleftrightarrow> (\<exists>eps. dget (endpoints i) pod = Some eps \<and> dget eps k = Some e)"
    using assms by (auto simp: endpoint_ids_ok_def) (force dest: map_of_SomeD)+
  also have "\<dots> \<longleftrightarrow> endpoint_at i loc = Some e" by (auto simp: endpoint_at_def Pair split: option.splits)
  finally show ?thesis .
qed

lemma write_endpoint_as_map:
  assumes ok: "endpoint_ids_ok i" and at: "endpoint_at i loc = Some e"
  shows "write_endpoint loc e' i = map_endpoints (\<lambda>loc' x. if loc' = loc then e' else x) i"
proof -
  obtain eps where eps: "dget (endpoints i) (fst loc) = Some eps" "dget eps (snd loc) = Some e"
    by (rule endpoint_atE [OF at])
  have d: "dict_ok (endpoints i)" "dict_ok eps"
    using ok dget_value_in [OF eps(1)] unfolding endpoint_ids_ok_def by blast+
  have key: "fst loc \<in> set (dkeys (endpoints i))" "snd loc \<in> set (dkeys eps)"
    using eps dmem_iff_keys dmem_Some by metis+
  have "map (\<lambda>(k', v'). (k', if k' = fst loc then dset (snd loc) e' eps else v')) (endpoints i) =
      map (\<lambda>(pod, es). (pod, map (\<lambda>(k, x). (k, if (pod, k) = loc then e' else x)) es)) (endpoints i)"
  proof -
    have "(if pod = fst loc then dset (snd loc) e' eps else es) = map (\<lambda>(k, x). (k, if (pod, k) = loc then e' else x)) es"
      if "(pod, es) \<in> set (endpoints i)" for pod es
    proof (cases "pod = fst loc")
      case True
      then have "es = eps" using eps(1) d(1) that by (metis map_of_eq_Some_iff option.inject)
      with True show ?thesis using dset_as_map [OF d(2) key(2), of e'] by (cases loc) simp
    next
      case False
      then have "map (\<lambda>(k, x). (k, if (pod, k) = loc then e' else x)) es = es" by (intro map_idI) auto
      with False show ?thesis by simp
    qed
    then show ?thesis by (intro map_cong [OF refl]) auto
  qed
  then show ?thesis
    using eps dset_as_map [OF d(1) key(1)] by (simp add: write_endpoint_def map_endpoints_def)
qed

lemma map_endpoints_comp: "map_endpoints f (map_endpoints g i) = map_endpoints (\<lambda>loc x. f loc (g loc x)) i"
  by (simp add: map_endpoints_def comp_def case_prod_unfold)

lemma endpoint_objs_change:
  assumes ok: "endpoint_ids_ok i" "ledger_ok i" and at: "endpoint_at i loc = Some e"
  shows "endpoint_objs (apply_workload_change loc e change i) =
    map (\<lambda>x. if ep_id x = ep_id e then x\<lparr>ep_workload := \<lparr>active_tokens = max 0 (tokens e + active_tokens change)\<rparr>\<rparr> else x)
      (endpoint_objs i)"
proof -
  let ?w = "\<lparr>active_tokens = max 0 (tokens e + active_tokens change)\<rparr>"
  have mem: "(loc, e) \<in> set (iter_endpoints i)" using iter_endpoint_at [OF ok(1)] at by simp
  have same: "loc' = loc \<longleftrightarrow> ep_id x = ep_id e" and eq: "loc' = loc \<Longrightarrow> x = e"
    if "(loc', x) \<in> set (iter_endpoints i)" for loc' x
  proof -
    show eq: "x = e" if "loc' = loc" using iter_endpoint_at [OF ok(1)] \<open>(loc', x) \<in> _\<close> at that by simp
    have "inj_on (\<lambda>p. ep_id (snd p)) (set (iter_endpoints i))"
      using ok(1) by (simp add: endpoint_ids_ok_def endpoint_objs_def comp_def distinct_map)
    from inj_onD [OF this _ that mem] show "loc' = loc \<longleftrightarrow> ep_id x = ep_id e" using eq by auto
  qed
  have nn: "0 \<le> tokens x" if "(loc', x) \<in> set (iter_endpoints i)" for loc' x
    using ok(2) that by (force simp: ledger_ok_def endpoint_objs_def)
  have objs: "endpoint_objs (apply_workload_change loc e change i) =
      map (\<lambda>(loc', x). if loc' = loc then e\<lparr>ep_workload := ?w\<rparr> else x) (iter_endpoints i)"
  proof (cases "tokens e + active_tokens change < 0")
    case True
    have "endpoint_objs (apply_workload_change loc e change i) =
        map (\<lambda>(loc', x). if loc' = loc then e\<lparr>ep_workload := ?w\<rparr> else x\<lparr>ep_workload := \<lparr>active_tokens = max 0 (tokens x)\<rparr>\<rparr>)
          (iter_endpoints i)"
      using True by (simp add: apply_change_clamped rebuild_instance_workload_def Let_def write_endpoint_as_map [OF ok(1) at]
          map_endpoints_comp endpoint_objs_map clamp_eq) (auto simp: clamp_eq)
    also have "\<dots> = map (\<lambda>(loc', x). if loc' = loc then e\<lparr>ep_workload := ?w\<rparr> else x) (iter_endpoints i)"
      using nn by (auto simp: max_absorb2)
    finally show ?thesis .
  next
    case False
    then show ?thesis
      by (simp add: apply_change_unclamped write_endpoint_as_map [OF ok(1) at] endpoint_objs_map workload_iadd_def active_tokens_update_eq)
  qed
  show ?thesis unfolding objs unfolding endpoint_objs_def
    using same eq by (auto simp: case_prod_unfold)
qed

section \<open>The collected entries\<close>

abbreviation entry_key :: "shm_entry \<Rightarrow> int \<times> int" where
  "entry_key e \<equiv> (e_instance_id e, e_endpoint_id e)"

definition all_entries :: "pools \<Rightarrow> shm_entry list" where
  "all_entries s = concat (map (role_entries s) [ROLE_E, ROLE_P, ROLE_D, ROLE_U])"

lemma collect_all: "collect_entries s n = take n (all_entries s)"
  by (simp add: collect_entries_def all_entries_def)

text \<open>What an entry says of the pools.\<close>

lemma role_pool_ref:
  assumes wf: "pool_wf s" and mem: "r \<in> set (dvalues (role_pools s \<rho>))"
  shows "dget (available_pool s) (ins_id (obj s r)) = Some r" and "role_is s r \<rho>"
proof -
  have k: "keyed (heap s) (role_pools s \<rho>)" using wf by (simp add: pool_wf_def pool_index_def)
  then obtain n where n: "dget (role_pools s \<rho>) n = Some r" using dvalue_has_key mem unfolding keyed_def by metis
  then have "n = ins_id (obj s r)" using keyedD [OF k n] by simp
  moreover have "dget (available_pool s) n = Some r \<and> role_is s r \<rho>"
    using wf n unfolding pool_wf_def roles_exact_def by blast
  ultimately show "dget (available_pool s) (ins_id (obj s r)) = Some r" "role_is s r \<rho>" by simp_all
qed

lemma role_entry:
  assumes wf: "pool_wf s" and mem: "e \<in> set (role_entries s \<rho>)"
  shows "\<exists>r. dget (available_pool s) (e_instance_id e) = Some r \<and> role_is s r \<rho> \<and> e_role e = pdrole_to_shm_role \<rho> \<and>
    e_instance_id e = ins_id (obj s r) \<and> r \<in> set (dvalues (role_pools s \<rho>)) \<and>
    e_endpoint_id e \<in> set (map ep_id (endpoint_objs (obj s r)))"
proof -
  from mem obtain r where r: "r \<in> set (dvalues (role_pools s \<rho>))" "e_instance_id e = ins_id (obj s r)"
    "e_role e = pdrole_to_shm_role \<rho>" "e_endpoint_id e \<in> set (map ep_id (endpoint_objs (obj s r)))"
    by (force simp: role_entries_def get_available_instances_def)
  with role_pool_ref [OF wf r(1)] show ?thesis by auto
qed

lemma distinct_role_entries:
  assumes wf: "pool_wf s" and ids: "\<And>r. endpoint_ids_ok (obj s r)"
  shows "distinct (map entry_key (role_entries s \<rho>))"
proof -
  have k: "keyed (heap s) (role_pools s \<rho>)" using wf by (simp add: pool_wf_def pool_index_def)
  have d: "distinct (map (\<lambda>r. ins_id (obj s r)) (dvalues (role_pools s \<rho>)))"
  proof -
    have eq: "map (\<lambda>r. ins_id (obj s r)) (dvalues (role_pools s \<rho>)) = dkeys (role_pools s \<rho>)"
      using k by (auto simp: keyed_def)
    show ?thesis unfolding eq using k by (simp add: keyed_def)
  qed
  have "distinct (concat (map (\<lambda>r. map (Pair (ins_id (obj s r))) (map ep_id (endpoint_objs (obj s r)))) rs))"
    if "distinct (map (\<lambda>r. ins_id (obj s r)) rs)" for rs
    using that
  proof (induction rs)
    case (Cons r rs)
    have "distinct (map (Pair (ins_id (obj s r))) (map ep_id (endpoint_objs (obj s r))))"
      using ids [of r] by (simp add: endpoint_ids_ok_def distinct_map inj_on_def)
    with Cons show ?case by auto
  qed simp
  from this [OF d] show ?thesis
    by (simp add: role_entries_def get_available_instances_def map_concat comp_def)
qed

lemma distinct_all_entries:
  assumes wf: "pool_wf s" and ids: "\<And>r. endpoint_ids_ok (obj s r)"
  shows "distinct (map entry_key (all_entries s))"
proof -
  have disj: "set (map entry_key (role_entries s \<rho>)) \<inter> set (map entry_key (role_entries s \<rho>')) = {}" if "\<rho> \<noteq> \<rho>'" for \<rho> \<rho>'
  proof (rule ccontr)
    assume "\<not> ?thesis"
    then obtain e e' where "e \<in> set (role_entries s \<rho>)" "e' \<in> set (role_entries s \<rho>')" "e_instance_id e = e_instance_id e'"
      by auto
    with role_entry [OF wf] that show False by (metis option.inject sum.inject(2))
  qed
  show ?thesis
    using distinct_role_entries [OF wf ids] disj unfolding all_entries_def by (simp add: Int_Un_distrib)
qed

section \<open>Updates\<close>

definition retoken :: "int \<times> int \<Rightarrow> rat \<Rightarrow> shm_entry \<Rightarrow> shm_entry" where
  "retoken key v e = (if entry_key e = key then e\<lparr>e_active_tokens := v\<rparr> else e)"

lemma retoken_key [simp]: "e_instance_id (retoken key v e) = e_instance_id e" "e_endpoint_id (retoken key v e) = e_endpoint_id e"
  "e_role (retoken key v e) = e_role e"
  by (simp_all add: retoken_def)

lemma role_entries_update:
  assumes wf: "pool_wf s" and r: "dget (available_pool s) iid = Some r"
    and pools: "role_pools t = role_pools s" and heap: "heap t = (heap s)(r := i)" and id: "ins_id i = iid"
    and objs: "endpoint_objs i = map (\<lambda>x. if ep_id x = eid then x\<lparr>ep_workload := \<lparr>active_tokens = v\<rparr>\<rparr> else x) (endpoint_objs (obj s r))"
  shows "role_entries t \<rho> = map (retoken (iid, eid) v) (role_entries s \<rho>)"
proof -
  have "keyed (heap s) (available_pool s)" using wf by (simp add: pool_wf_def pool_index_def)
  then have rid: "ins_id (obj s r) = iid" using r by (rule keyedD)
  let ?mk = "\<lambda>h r. map (\<lambda>e. \<lparr>e_instance_id = ins_id (h r), e_endpoint_id = ep_id e, e_role = pdrole_to_shm_role \<rho>,
          e_active_tokens = tokens e\<rparr>) (endpoint_objs (h r))"
  have blk: "?mk (heap t) r' = map (retoken (iid, eid) v) (?mk (heap s) r')" if "r' \<in> set (dvalues (role_pools s \<rho>))" for r'
  proof (cases "r' = r")
    case True
    let ?f = "\<lambda>x. if ep_id x = eid then x\<lparr>ep_workload := \<lparr>active_tokens = v\<rparr>\<rparr> else x"
    have one: "\<lparr>e_instance_id = iid, e_endpoint_id = ep_id (?f x), e_role = \<rho>', e_active_tokens = tokens (?f x)\<rparr> =
        retoken (iid, eid) v \<lparr>e_instance_id = iid, e_endpoint_id = ep_id x, e_role = \<rho>', e_active_tokens = tokens x\<rparr>" for x \<rho>'
      by (simp add: retoken_def)
    have "heap t r' = i" "ins_id (heap s r') = iid" using True heap rid by simp_all
    then show ?thesis using one by (simp only: True objs id map_map comp_def)
  next
    case False
    with role_pool_ref(1) [OF wf that] r have "ins_id (obj s r') \<noteq> iid" by auto
    then have "retoken (iid, eid) v \<lparr>e_instance_id = ins_id (heap s r'), e_endpoint_id = ep_id e, e_role = \<rho>', e_active_tokens = tokens e\<rparr> =
        \<lparr>e_instance_id = ins_id (heap s r'), e_endpoint_id = ep_id e, e_role = \<rho>', e_active_tokens = tokens e\<rparr>" for e \<rho>'
      by (simp add: retoken_def)
    moreover have "heap t r' = heap s r'" using False heap by simp
    ultimately show ?thesis by (simp only: map_map comp_def)
  qed
  then have "map (?mk (heap t)) (dvalues (role_pools s \<rho>)) =
      map (\<lambda>r. map (retoken (iid, eid) v) (?mk (heap s) r)) (dvalues (role_pools s \<rho>))"
    by (simp only: map_eq_conv) blast
  then show ?thesis
    unfolding role_entries_def get_available_instances_def option.case pools by (simp only: map_concat map_map comp_def)
qed

text \<open>What a successful update did: one endpoint of the instance has its new load, and the answer reports it.\<close>

lemma cache_location:
  assumes ids: "endpoint_ids_ok (obj s r)" and c: "dget (build_endpoint_cache r s) eid = Some (r', loc)"
  shows "\<exists>e. endpoint_at (obj s r) loc = Some e \<and> ep_id e = eid"
proof -
  have "dget (fold (\<lambda>(loc, e) c. dset (ep_id e) (r, loc) c) xs d) eid = Some (r', loc) \<Longrightarrow>
      (\<exists>e. (loc, e) \<in> set xs \<and> ep_id e = eid) \<or> dget d eid = Some (r', loc)" for xs :: "(ep_loc \<times> endpoint) list" and d
    by (induction xs arbitrary: d) (fastforce split: if_splits)+
  from this [of "iter_endpoints (obj s r)" "[]"] c obtain e where "(loc, e) \<in> set (iter_endpoints (obj s r))" "ep_id e = eid"
    by (auto simp: build_endpoint_cache_def)
  with iter_endpoint_at [OF ids] show ?thesis by auto
qed

lemma ensure_cache_build:
  assumes "pool_index s" and "dget (available_pool s) iid = Some r" and "ensure_endpoint_cache iid r s = (c, t)"
  shows "c = build_endpoint_cache r s"
proof -
  have "\<exists>r'. dget (available_pool s) iid = Some r' \<and> c' = build_endpoint_cache r' s"
    if "dget (endpoint_id_cache s) iid = Some c'" for c'
    using assms(1) that unfolding pool_index_def by blast
  then show ?thesis
    using assms(2,3) by (cases "dget (endpoint_id_cache s) iid") (auto simp: ensure_endpoint_cache_def Let_def)
qed

lemma role_of_available:
  assumes "pool_index s" and "dget (available_pool s) iid = Some r"
  shows "\<exists>\<rho>. role_is s r \<rho> \<and> role_of_instance (obj s r) = Inr \<rho>"
  using pool_index_role [OF assms] by (auto simp: role_of_instance_def pd_role_of_def split: if_splits)

lemma update_success:
  assumes wf: "pool_wf s" and ids: "endpoint_ids_ok (obj s r)" and r: "dget (available_pool s) iid = Some r"
    and u: "update_instance_workload_sync iid eid change s = (s', Inr (Some (\<rho>, l)))"
  shows "\<exists>loc e. endpoint_at (obj s r) loc = Some e \<and> ep_id e = eid \<and>
    heap s' = (heap s)(r := apply_workload_change loc e change (obj s r)) \<and>
    active_tokens l = max 0 (tokens e + active_tokens change) \<and> role_is s r \<rho>"
proof -
  have idx: "pool_index s" using wf by (simp add: pool_wf_def)
  obtain c t where c: "ensure_endpoint_cache iid r s = (c, t)" by fastforce
  have cb: "c = build_endpoint_cache r s" by (rule ensure_cache_build [OF idx r c])
  have ht: "heap t = heap s" using ensure_cache_props [OF c r] by (simp add: same_pools_def)
  from u obtain r' loc e where at: "dget c eid = Some (r', loc)" "endpoint_at (obj t r') loc = Some e"
    by (auto simp: update_instance_workload_sync_def r c split: option.splits prod.splits)
  have own: "r' = r" by (rule cache_owner [OF idx r c at(1)])
  have e: "ep_id e = eid" using cache_location [OF ids, of eid r loc] at cb own ht by auto
  let ?i = "apply_workload_change loc e change (obj s r)"
  have s': "s' = set_obj r ?i t"
    and res: "(case role_of_instance (obj s' r) of Inl x \<Rightarrow> Inl x
        | Inr \<rho> \<Rightarrow> Inr (map_option (\<lambda>e'. (\<rho>, ep_workload e')) (endpoint_at (obj s' r) loc))) = Inr (Some (\<rho>, l))"
    using u at by (auto simp: update_instance_workload_sync_def r c Let_def commit_workload_own own ht)
  have at2: "endpoint_at (obj s r) loc = Some e" using at own ht by simp
  from res obtain e' where e': "role_of_instance ?i = Inr \<rho>" "endpoint_at ?i loc = Some e'" "l = ep_workload e'"
    by (auto simp: s' split: sum.splits)
  have "active_tokens l = max 0 (tokens e + active_tokens change)"
    using apply_change_endpoint [OF at2, of change] e' by simp
  moreover have "role_is s r \<rho>"
  proof -
    have "ins_role ?i = ins_role (obj s r)" by (rule same_static_D(2) [OF same_static_apply_change [OF at2]])
    moreover obtain \<rho>' where "role_is s r \<rho>'" using pool_index_role [OF idx r] by blast
    ultimately show ?thesis using e'(1) by (auto simp: role_of_instance_def pd_role_of_def split: if_splits)
  qed
  moreover have "heap s' = (heap s)(r := ?i)" using s' ht by simp
  ultimately show ?thesis using at2 e by blast
qed

section \<open>Publication\<close>

definition table_published :: "pools \<Rightarrow> shm_writer \<Rightarrow> bool" where
  "table_published s w \<longleftrightarrow>
     (let es = collect_entries s (wr_max_entries w)
      in slot_map w = slots_of es \<and> entry_count w = length es \<and> h_entry_count (m_header (wr_mem w)) = int (length es) \<and>
         map (m_slots (wr_mem w)) [0..<length es] = es)"

lemma published_snapshot:
  assumes "quiescent w"
  shows "table_published s (write_snapshot s w)"
proof -
  let ?es = "collect_entries s (wr_max_entries w)"
  let ?v = "w\<lparr>slot_map := slots_of ?es, entry_count := length ?es\<rparr>"
  let ?u = "bump_changed_role_sequences ?es (write_entries ?es (begin_write ?v))"
  have e: "even (wr_sequence ?v)" using assms by (simp add: quiescent_def)
  have o: "odd (wr_sequence (?u\<lparr>instance_version := instance_version ?u + 1\<rparr>))"
    using e by (simp add: write_entries_props begin_write_even)
  have "map (m_slots (wr_mem (write_snapshot s w))) [0..<length ?es] = ?es"
    using e o by (intro nth_equalityI) (simp_all add: write_snapshot_def Let_def end_write_odd write_entries_props)
  then show ?thesis
    using e o by (simp add: table_published_def write_snapshot_def Let_def end_write_odd write_entries_props begin_write_even)
qed

lemma slots_of_dget:
  "dget (slots_of es) key = Some k \<Longrightarrow> k < length es \<and> entry_key (es ! k) = key"
proof -
  have *: "dget (fold (\<lambda>(slot, e) d. dset (entry_key e) slot d) (enumerate n es) d) key = Some k \<Longrightarrow>
      (n \<le> k \<and> k < n + length es \<and> entry_key (es ! (k - n)) = key) \<or> dget d key = Some k" for n d
  proof (induction es arbitrary: n d)
    case (Cons e es)
    from Cons.IH [of "Suc n" "dset (entry_key e) n d"] Cons.prems show ?case
      by (auto simp: nth_Cons' split: if_splits)
  qed simp
  show "dget (slots_of es) key = Some k \<Longrightarrow> k < length es \<and> entry_key (es ! k) = key"
    using * [of 0 "[]"] by (auto simp: slots_of_def)
qed

lemma slots_of_retoken: "slots_of (map (retoken key v) es) = slots_of es"
proof -
  have "fold (\<lambda>(slot, e) d. dset (entry_key e) slot d) (enumerate n (map (retoken key v) es)) d =
      fold (\<lambda>(slot, e) d. dset (entry_key e) slot d) (enumerate n es) d" for n d
    by (induction es arbitrary: n d) simp_all
  then show ?thesis by (simp add: slots_of_def)
qed

lemma all_entries_update:
  assumes wf: "pool_wf s" and ids: "\<And>r. endpoint_ids_ok (obj s r)" and led: "\<And>r. ledger_ok (obj s r)"
    and u: "update_instance_workload_sync iid eid change s = (s', Inr (Some (\<rho>, l)))"
  shows "all_entries s' = map (retoken (iid, eid) (active_tokens l)) (all_entries s)"
    and "\<And>e. e \<in> set (all_entries s) \<Longrightarrow> entry_key e = (iid, eid) \<Longrightarrow> e_role e = pdrole_to_shm_role \<rho>"
proof -
  have idx: "pool_index s" using wf by (simp add: pool_wf_def)
  from u obtain r where r: "dget (available_pool s) iid = Some r"
    by (auto simp: update_instance_workload_sync_def split: option.splits)
  from update_success [OF wf ids r u] obtain loc e where
    e: "endpoint_at (obj s r) loc = Some e" "ep_id e = eid" "heap s' = (heap s)(r := apply_workload_change loc e change (obj s r))"
      "active_tokens l = max 0 (tokens e + active_tokens change)" "role_is s r \<rho>" by blast
  have pools: "role_pools s' = role_pools s" using update_workload_cases [OF idx, of iid eid change] u by simp
  have "ins_id (obj s r) = iid" using idx r keyedD unfolding pool_index_def by blast
  then have id: "ins_id (apply_workload_change loc e change (obj s r)) = iid"
    using same_static_D(1) [OF same_static_apply_change [OF e(1)]] by simp
  from role_entries_update [OF wf r pools e(3) id, of eid "active_tokens l"] endpoint_objs_change [OF ids led e(1), of change]
  have "role_entries s' \<rho>' = map (retoken (iid, eid) (active_tokens l)) (role_entries s \<rho>')" for \<rho>'
    by (simp add: e(2,4))
  then show "all_entries s' = map (retoken (iid, eid) (active_tokens l)) (all_entries s)" by (simp add: all_entries_def)
  fix en assume "en \<in> set (all_entries s)" and k: "entry_key en = (iid, eid)"
  then obtain \<rho>' where "en \<in> set (role_entries s \<rho>')" by (auto simp: all_entries_def)
  from role_entry [OF wf this] k r e(5) show "e_role en = pdrole_to_shm_role \<rho>" by auto
qed

lemma published_write:
  assumes wf: "pool_wf s" and ids: "\<And>r. endpoint_ids_ok (obj s r)"
    and all: "all_entries s' = map (retoken (iid, eid) (active_tokens l)) (all_entries s)"
    and role: "\<And>e. e \<in> set (all_entries s) \<Longrightarrow> entry_key e = (iid, eid) \<Longrightarrow> e_role e = pdrole_to_shm_role \<rho>"
    and q: "quiescent w" and pub: "table_published s w"
  shows "table_published s' (write_single_entry_from_workload iid eid (Some \<rho>) (Some l) s' w)"
proof (cases "dget (slot_map w) (iid, eid)")
  case None
  then show ?thesis using published_snapshot [OF q] by (simp add: write_single_entry_from_workload_def)
next
  case (Some slot)
  let ?es = "collect_entries s (wr_max_entries w)" and ?v = "active_tokens l"
  let ?new = "\<lparr>e_instance_id = iid, e_endpoint_id = eid, e_role = pdrole_to_shm_role \<rho>, e_active_tokens = ?v\<rparr>"
  let ?u = "bump_role_sequence \<rho> (emit (W_SLOT slot ?new) (begin_write w))"
  have es': "collect_entries s' (wr_max_entries w) = map (retoken (iid, eid) ?v) ?es"
    using all by (simp add: collect_all take_map)
  have pubs: "slot_map w = slots_of ?es" "entry_count w = length ?es" "map (m_slots (wr_mem w)) [0..<length ?es] = ?es"
    using pub by (simp_all add: table_published_def Let_def)
  have slot: "slot < length ?es" "entry_key (?es ! slot) = (iid, eid)" using slots_of_dget [of ?es] Some pubs(1) by auto
  have dist: "distinct (map entry_key ?es)"
    using distinct_all_entries [OF wf ids] by (simp add: collect_all flip: take_map)
  have "?es ! slot \<in> set (all_entries s)" using slot(1) by (metis collect_all in_set_takeD nth_mem)
  from role [OF this slot(2)] slot(2)
  have new: "retoken (iid, eid) ?v (?es ! slot) = ?new" by (cases "?es ! slot") (simp add: retoken_def)
  have old: "retoken (iid, eid) ?v (?es ! k) = ?es ! k" if "k < length ?es" "k \<noteq> slot" for k
    using dist slot that by (auto simp: retoken_def distinct_conv_nth)
  have nth: "m_slots (wr_mem w) k = ?es ! k" if "k < length ?es" for k
    using pubs(3) that by (metis (no_types, lifting) add_0 length_upt minus_nat.diff_0 nth_map nth_upt)
  have ev: "even (wr_sequence w)" using q by (simp add: quiescent_def)
  have o: "odd (wr_sequence ?u)" using ev by (simp add: begin_write_even)
  have op: "write_single_entry_from_workload iid eid (Some \<rho>) (Some l) s' w = end_write ?u"
    using Some by (simp add: write_single_entry_from_workload_def)
  have slots: "m_slots (wr_mem (end_write ?u)) = (m_slots (wr_mem w))(slot := ?new)"
    unfolding end_write_odd [OF o] using ev by (simp add: begin_write_even)
  have "map (m_slots (wr_mem (end_write ?u))) [0..<length ?es] = map (retoken (iid, eid) ?v) ?es"
    unfolding slots by (rule nth_equalityI) (auto simp: nth old new)
  moreover have "slot_map (end_write ?u) = slots_of ?es" "entry_count (end_write ?u) = length ?es"
      "wr_max_entries (end_write ?u) = wr_max_entries w" "h_entry_count (m_header (wr_mem (end_write ?u))) = int (length ?es)"
    unfolding end_write_odd [OF o] using pubs ev by (simp_all add: begin_write_even)
  ultimately show ?thesis unfolding op table_published_def Let_def by (simp add: es' slots_of_retoken)
qed

lemma published_entry:
  assumes "pool_wf s" and "\<And>r. endpoint_ids_ok (obj s r)" and "\<And>r. ledger_ok (obj s r)"
    and "update_instance_workload_sync iid eid change s = (s', Inr (Some (\<rho>, l)))"
    and "quiescent w" and "table_published s w"
  shows "table_published s' (write_single_entry_from_workload iid eid (Some \<rho>) (Some l) s' w)"
  using published_write [OF assms(1,2) all_entries_update [OF assms(1-4)] assms(5,6)] .

text \<open>A read through the endpoint index gives the ledger of the endpoint.\<close>

lemma get_success:
  assumes wf: "pool_wf s" and ids: "endpoint_ids_ok (obj s r)" and r: "dget (available_pool s) iid = Some r"
    and g: "get_endpoint_workload_sync iid eid s = (s', Inr (Some (\<rho>, l)))"
  shows "\<exists>loc e. endpoint_at (obj s r) loc = Some e \<and> ep_id e = eid \<and> l = ep_workload e \<and> role_is s r \<rho>"
proof -
  have idx: "pool_index s" using wf by (simp add: pool_wf_def)
  obtain c t where c: "ensure_endpoint_cache iid r s = (c, t)" by fastforce
  have ht: "heap t = heap s" using ensure_cache_props [OF c r] by simp
  have cb: "c = build_endpoint_cache r s" by (rule ensure_cache_build [OF idx r c])
  from g obtain r' loc e where at: "dget c eid = Some (r', loc)" "endpoint_at (obj t r') loc = Some e"
      and l: "l = ep_workload e" "role_of_instance (obj t r) = Inr \<rho>"
    by (auto simp: get_endpoint_workload_sync_def r c deref_endpoint_def split: option.splits sum.splits Option.bind_splits)
  have own: "r' = r" by (rule cache_owner [OF idx r c at(1)])
  have "ep_id e = eid" using cache_location [OF ids, of eid r loc] at cb own ht by auto
  moreover have "role_is s r \<rho>" using role_of_available [OF idx r] l ht by simp
  ultimately show ?thesis using at own ht l(1) by metis
qed

lemma published_unchanged:
  assumes "pool_index s" and "update_instance_workload_sync iid eid change s = (s', Inr None)" and "table_published s w"
  shows "table_published s' w"
proof -
  have "heap s' = heap s \<and> role_pools s' = role_pools s"
  proof (cases "dget (available_pool s) iid")
    case None
    then show ?thesis using assms(2) by (simp add: update_instance_workload_sync_def)
  next
    case (Some r)
    obtain c t where c: "ensure_endpoint_cache iid r s = (c, t)" by fastforce
    have "heap t = heap s" "role_pools t = role_pools s"
      using ensure_cache_props [OF c Some] by (simp_all add: same_pools_def)
    moreover have "s' = t"
    proof (cases "\<exists>r' loc e. dget c eid = Some (r', loc) \<and> endpoint_at (obj t r') loc = Some e")
      case True
      then obtain r' loc e where at: "dget c eid = Some (r', loc)" "endpoint_at (obj t r') loc = Some e" by blast
      have own: "r' = r" by (rule cache_owner [OF assms(1) Some c at(1)])
      obtain e' where "endpoint_at (apply_workload_change loc e change (obj t r)) loc = Some e'"
        using apply_change_endpoint [of "obj t r" loc e change] at own by auto
      then have False using assms(2) at
        by (auto simp: update_instance_workload_sync_def Some c Let_def commit_workload_own own split: sum.splits)
      then show ?thesis ..
    next
      case False
      then show ?thesis using assms(2) by (auto simp: update_instance_workload_sync_def Some c split: option.splits)
    qed
    ultimately show ?thesis by simp
  qed
  then have "collect_entries s' n = collect_entries s n" for n
    by (simp add: collect_entries_def role_entries_def get_available_instances_def)
  with assms(3) show ?thesis by (simp add: table_published_def)
qed

text \<open>Rewriting an entry from the ledger changes nothing in a published table.\<close>

lemma entry_of_endpoint:
  assumes wf: "pool_wf s" and r: "dget (available_pool s) iid = Some r" and ids: "endpoint_ids_ok (obj s r)"
    and at: "endpoint_at (obj s r) loc = Some e"
    and en: "en \<in> set (all_entries s)" "entry_key en = (iid, ep_id e)"
  shows "e_active_tokens en = tokens e" and "role_is s r \<rho> \<Longrightarrow> e_role en = pdrole_to_shm_role \<rho>"
proof -
  from en(1) obtain \<rho>' where m: "en \<in> set (role_entries s \<rho>')" by (auto simp: all_entries_def)
  then obtain r' x where r': "r' \<in> set (dvalues (role_pools s \<rho>'))" "x \<in> set (endpoint_objs (obj s r'))"
      "en = \<lparr>e_instance_id = ins_id (obj s r'), e_endpoint_id = ep_id x, e_role = pdrole_to_shm_role \<rho>', e_active_tokens = tokens x\<rparr>"
    by (auto simp: role_entries_def get_available_instances_def)
  have "r' = r" using role_pool_ref(1) [OF wf r'(1)] en(2) r r'(3) by simp
  moreover have "(loc, e) \<in> set (iter_endpoints (obj s r))" using iter_endpoint_at [OF ids] at by simp
  then have "e \<in> set (endpoint_objs (obj s r))" by (force simp: endpoint_objs_def)
  moreover have "inj_on ep_id (set (endpoint_objs (obj s r)))" using ids by (simp add: endpoint_ids_ok_def distinct_map)
  ultimately have "x = e" using r'(2,3) en(2) by (auto dest: inj_onD)
  then show "e_active_tokens en = tokens e" using r'(3) by simp
  show "role_is s r \<rho> \<Longrightarrow> e_role en = pdrole_to_shm_role \<rho>"
    using role_entry [OF wf m] en(2) r by auto
qed

lemma published_sync:
  assumes wf: "pool_wf s" and ids: "\<And>r. endpoint_ids_ok (obj s r)" and q: "quiescent w" and pub: "table_published s w"
    and sync: "write_single_entry_sync iid eid s w = (s', Inr w')"
  shows "table_published s' w'"
proof -
  have h: "heap (fst (get_endpoint_workload_sync iid eid s)) = heap s"
    "role_pools (fst (get_endpoint_workload_sync iid eid s)) = role_pools s"
    using get_workload_same [of s iid eid] by (simp_all add: same_pools_def)
  have entries: "all_entries t = all_entries s" if "heap t = heap s" "role_pools t = role_pools s" for t
    using that by (simp add: all_entries_def role_entries_def get_available_instances_def)
  have same: "table_published t v \<longleftrightarrow> table_published s v" if "heap t = heap s" "role_pools t = role_pools s" for t v
    using entries [OF that] by (simp add: table_published_def collect_all)
  show ?thesis
  proof (cases "snd (get_endpoint_workload_sync iid eid s)")
    case (Inl x)
    then have False using sync by (cases "get_endpoint_workload_sync iid eid s") (simp add: write_single_entry_sync_def)
    then show ?thesis ..
  next
    case (Inr res)
    show ?thesis
    proof (cases res)
      case None
      then have eq: "get_endpoint_workload_sync iid eid s = (s', Inr None)"
        "w' = write_single_entry_from_workload iid eid None None s' w"
        using sync Inr by (cases "get_endpoint_workload_sync iid eid s", simp add: write_single_entry_sync_def)+
      have "table_published s' w" using same [of s' w] pub h eq(1) by simp
      then show ?thesis
        unfolding eq(2) write_single_entry_from_workload_def using published_snapshot [OF q, of s']
        by (simp split: option.split)
    next
      case (Some p)
      then obtain \<rho> l where eq: "get_endpoint_workload_sync iid eid s = (s', Inr (Some (\<rho>, l)))"
        "w' = write_single_entry_from_workload iid eid (Some \<rho>) (Some l) s' w"
        using sync Inr by (cases p, cases "get_endpoint_workload_sync iid eid s") (simp add: write_single_entry_sync_def)
      then obtain r where r: "dget (available_pool s) iid = Some r"
        by (auto simp: get_endpoint_workload_sync_def split: option.splits)
      from get_success [OF wf ids r eq(1)] obtain loc e where e: "endpoint_at (obj s r) loc = Some e" "ep_id e = eid"
        "l = ep_workload e" "role_is s r \<rho>" by blast
      note en = entry_of_endpoint [OF wf r ids e(1)]
      have "map (retoken (iid, eid) (active_tokens l)) (all_entries s) = map id (all_entries s)"
        using en(1) e(2,3) by (intro map_cong) (auto simp: retoken_def)
      then have "all_entries s' = map (retoken (iid, eid) (active_tokens l)) (all_entries s)"
        using entries [of s'] h eq(1) by simp
      then show ?thesis
        unfolding eq(2) by (rule published_write [OF wf ids _ _ q pub]) (rule en(2), simp_all add: e(2,4))
    qed
  qed
qed

text \<open>Workload updates keep the keys and the endpoint ids.\<close>

lemma map_endpoints_keys:
  "dict_ok (endpoints (map_endpoints f i)) = dict_ok (endpoints i)"
  "(\<forall>eps\<in>set (dvalues (endpoints (map_endpoints f i))). dict_ok eps) = (\<forall>eps\<in>set (dvalues (endpoints i)). dict_ok eps)"
  by (simp_all add: map_endpoints_def comp_def case_prod_unfold)

lemma endpoint_ids_ok_write:
  assumes "endpoint_ids_ok i" and "endpoint_at i loc = Some e"
  shows "endpoint_ids_ok (write_endpoint loc (e\<lparr>ep_workload := g\<rparr>) i)"
proof -
  have "map (\<lambda>(loc, e). (loc, ep_id e)) (iter_endpoints (write_endpoint loc (e\<lparr>ep_workload := g\<rparr>) i)) =
      map (\<lambda>(loc, e). (loc, ep_id e)) (iter_endpoints i)"
    by (intro same_static_ids same_static_write assms)
  from arg_cong [OF this, of "map snd"]
  have "map ep_id (endpoint_objs (write_endpoint loc (e\<lparr>ep_workload := g\<rparr>) i)) = map ep_id (endpoint_objs i)"
    by (simp add: endpoint_objs_def comp_def case_prod_unfold)
  then show ?thesis
    using assms(1) unfolding endpoint_ids_ok_def write_endpoint_as_map [OF assms] map_endpoints_keys by simp
qed

lemma endpoint_ids_ok_change:
  assumes "endpoint_ids_ok i" and "endpoint_at i loc = Some e"
  shows "endpoint_ids_ok (apply_workload_change loc e change i)"
proof -
  have gw: "endpoint_ids_ok (j\<lparr>gathered_workload := g\<rparr>) = endpoint_ids_ok j" for j g
    by (simp add: endpoint_ids_ok_def endpoint_objs_def iter_endpoints_def)
  have mp: "endpoint_ids_ok (map_endpoints (\<lambda>loc e. e\<lparr>ep_workload := h e\<rparr>) j)" if "endpoint_ids_ok j" for j and h :: "endpoint \<Rightarrow> workload"
  proof -
    have "map ep_id (endpoint_objs (map_endpoints (\<lambda>loc e. e\<lparr>ep_workload := h e\<rparr>) j)) = map ep_id (endpoint_objs j)"
      unfolding endpoint_objs_map by (simp add: endpoint_objs_def case_prod_unfold)
    with that show ?thesis unfolding endpoint_ids_ok_def map_endpoints_keys by simp
  qed
  note w = endpoint_ids_ok_write [OF assms]
  show ?thesis
  proof (cases "tokens e + active_tokens change < 0")
    case True
    then show ?thesis
      unfolding apply_change_clamped [OF True] rebuild_instance_workload_def Let_def fst_conv gw by (intro mp w)
  next
    case False
    then show ?thesis using w by (simp add: apply_change_unclamped gw)
  qed
qed

lemma update_keeps_ids:
  assumes "pool_index s" and "\<And>r. endpoint_ids_ok (obj s r)"
  shows "endpoint_ids_ok (obj (fst (update_instance_workload_sync iid eid change s)) r)"
  using update_workload_cases [OF assms(1), of iid eid change] endpoint_ids_ok_change assms(2)
  by (metis (no_types, lifting) fun_upd_def)

section \<open>The table follows the ledger\<close>

text \<open>
  The workload table publishes the ledger. When no write is in progress, a snapshot leaves the table with
  exactly one entry per available endpoint (in the order of the role pools, up to its capacity), each with the
  endpoint's current active tokens; and a workload update of the instance manager followed by the write of that
  endpoint's entry keeps the table equal to a fresh snapshot of the ledger, whether the endpoint has a slot or the
  writer falls back to a full snapshot; an update that finds no such endpoint leaves nothing to write.
\<close>

theorem table_publishes_ledger:
  assumes "pool_wf s" and "\<forall>r. endpoint_ids_ok (obj s r) \<and> ledger_ok (obj s r)" and "quiescent w"
  shows "table_published s (write_snapshot s w) \<and>
    (table_published s w \<longrightarrow> (case update_instance_workload_sync iid eid change s of
       (s', Inr (Some (\<rho>, l))) \<Rightarrow> table_published s' (write_single_entry_from_workload iid eid (Some \<rho>) (Some l) s' w)
     | (s', Inr None) \<Rightarrow> table_published s' w
     | (s', Inl x) \<Rightarrow> True))"
proof -
  have "pool_index s" using assms(1) by (simp add: pool_wf_def)
  then show ?thesis
    using assms published_snapshot published_entry [OF assms(1)] published_unchanged
    by (fastforce split: prod.splits sum.splits option.splits)
qed

lemma demo_ids: "endpoint_ids_ok (obj demo_pools r) \<and> ledger_ok (obj demo_pools r)"
proof -
  have "endpoint_ids_ok (demo_heap r)" for r
    by (simp add: endpoint_ids_ok_def demo_heap_def demo_defs endpoint_objs_def iter_endpoints_def)
  moreover have "endpoint_ids_ok (reset_workload (demo_heap r))" for r
    by (simp add: endpoint_ids_ok_def reset_workload_def map_endpoints_def demo_heap_def demo_defs endpoint_objs_def iter_endpoints_def)
  ultimately show ?thesis by (simp add: demo_pools_fields demo_ledger ledger_ok_reset)
qed

theorem table_publishes_ledger_witness:
  "case update_instance_workload_sync 2 0 \<lparr>active_tokens = 5\<rparr> demo_pools of
     (s', Inr (Some (\<rho>, l))) \<Rightarrow>
       table_published s' (write_single_entry_from_workload 2 0 (Some \<rho>) (Some l) s' (write_snapshot demo_pools (init_writer 8 demo_mem)))
   | (s', Inr None) \<Rightarrow> table_published s' (write_snapshot demo_pools (init_writer 8 demo_mem))
   | (s', Inl x) \<Rightarrow> True"
proof -
  let ?w = "init_writer 8 demo_mem"
  have q: "quiescent ?w" by (simp add: quiescent_def init_writer_def demo_mem_def)
  have q2: "quiescent (write_snapshot demo_pools ?w)" using snapshot_transaction [OF q] by blast
  have ids: "\<forall>r. endpoint_ids_ok (obj demo_pools r) \<and> ledger_ok (obj demo_pools r)" using demo_ids by blast
  have "table_published demo_pools (write_snapshot demo_pools ?w)" by (rule conjunct1 [OF table_publishes_ledger [OF demo_wf ids q]])
  then show ?thesis by (rule mp [OF conjunct2 [OF table_publishes_ledger [OF demo_wf ids q2]]])
qed

end
