(* ===== verification/Circuit_Breaker.thy ===== *)
theory Circuit_Breaker
  imports Coordinator_Pools
begin

text \<open>
  The circuit breakers of the coordinator: \<open>CircuitBreakerManager\<close>
  (\<^verbatim>\<open>motor/coordinator/domain/circuit_breaker.py\<close>) and the handlers of the scheduler server that own the
  recovery timers (\<^verbatim>\<open>motor/coordinator/scheduler/runtime/scheduler_server.py\<close>).

  A breaker is a \<open>cb_state\<close>; the manager's pool is a dictionary by instance id. The product
  \<open>30.0 * 2 ** n\<close> converts an integer to a float, which raises \<open>OverflowError\<close> once the
  integer is \<open>2 ** 1024\<close> or more; below that bound the cap makes the rational value exact.
  A recovery timer is the dictionary entry of a task: \<open>Some t\<close> while the task sleeps for
  \<open>t\<close> seconds, \<open>None\<close> once the task has ended and its entry is still there.
\<close>

section \<open>The breaker pool\<close>

definition CB_STATE_OPEN :: string where
  "CB_STATE_OPEN = ''open''"

definition CB_STATE_CLOSED :: string where
  "CB_STATE_CLOSED = ''closed''"

record cb_state =
  cb_phase :: string
  trip_count :: nat
  failure_count :: nat
  current_timeout :: rat

definition new_cb_state :: cb_state where
  "new_cb_state = \<lparr>cb_phase = CB_STATE_CLOSED, trip_count = 0, failure_count = 0, current_timeout = 0\<rparr>"

definition state_is_open :: "cb_state \<Rightarrow> bool" where
  "state_is_open st \<longleftrightarrow> cb_phase st = CB_STATE_OPEN"

definition state_is_closed :: "cb_state \<Rightarrow> bool" where
  "state_is_closed st \<longleftrightarrow> cb_phase st = CB_STATE_CLOSED"

definition CB_BASE_TIMEOUT :: rat where
  "CB_BASE_TIMEOUT = 30"

definition CB_MAX_TIMEOUT :: rat where
  "CB_MAX_TIMEOUT = 300"

definition backoff :: "nat \<Rightarrow> py_exn + rat" where
  "backoff trips =
     (if 1024 \<le> trips - 1 then Inl OverflowError
      else Inr (min (CB_BASE_TIMEOUT * 2 ^ (trips - 1)) CB_MAX_TIMEOUT))"

type_synonym cb_pool = "(int, cb_state) dict"

definition cb_get_or_create :: "int \<Rightarrow> cb_pool \<Rightarrow> cb_state \<times> cb_pool" where
  "cb_get_or_create i p =
     (case dget p i of Some st \<Rightarrow> (st, p) | None \<Rightarrow> (new_cb_state, dset i new_cb_state p))"

definition cb_is_open :: "int \<Rightarrow> cb_pool \<Rightarrow> bool" where
  "cb_is_open i p = (case dget p i of None \<Rightarrow> False | Some st \<Rightarrow> state_is_open st)"

definition cb_is_closed :: "int \<Rightarrow> cb_pool \<Rightarrow> bool" where
  "cb_is_closed i p = (case dget p i of None \<Rightarrow> True | Some st \<Rightarrow> state_is_closed st)"

definition trip_state :: "rat \<Rightarrow> cb_state \<Rightarrow> cb_state" where
  "trip_state timeout st = st\<lparr>cb_phase := CB_STATE_OPEN, current_timeout := timeout\<rparr>"

definition process_failure :: "int \<Rightarrow> cb_pool \<Rightarrow> cb_pool \<times> (py_exn + bool \<times> rat)" where
  "process_failure i p =
     (case cb_get_or_create i p of
        (st, p1) \<Rightarrow>
          if state_is_open st then (p1, Inr (False, 0))
          else (let st1 = st\<lparr>failure_count := failure_count st + 1\<rparr>
                in if failure_count st1 < 3 then (dset i st1 p1, Inr (False, 0))
                   else (let st2 = st1\<lparr>trip_count := trip_count st1 + 1\<rparr>
                         in case backoff (trip_count st2) of
                              Inl x \<Rightarrow> (dset i st2 p1, Inl x)
                            | Inr timeout \<Rightarrow> (dset i (trip_state timeout st2) p1, Inr (True, timeout)))))"

definition process_success :: "int \<Rightarrow> cb_pool \<Rightarrow> cb_pool \<times> bool" where
  "process_success i p =
     (case dget p i of
        None \<Rightarrow> (p, False)
      | Some st \<Rightarrow>
          (let st1 = st\<lparr>trip_count := 0, failure_count := 0, current_timeout := 0\<rparr>
           in if state_is_open st1 then (dset i (st1\<lparr>cb_phase := CB_STATE_CLOSED\<rparr>) p, True)
              else (dset i st1 p, False)))"

definition process_probe_failure :: "int \<Rightarrow> cb_pool \<Rightarrow> cb_pool \<times> (py_exn + rat option)" where
  "process_probe_failure i p =
     (case dget p i of
        None \<Rightarrow> (p, Inr None)
      | Some st \<Rightarrow>
          if \<not> state_is_open st then (p, Inr None)
          else (let st1 = st\<lparr>trip_count := trip_count st + 1\<rparr>
                in case backoff (trip_count st1) of
                     Inl x \<Rightarrow> (dset i st1 p, Inl x)
                   | Inr timeout \<Rightarrow> (dset i (st1\<lparr>current_timeout := timeout\<rparr>) p, Inr (Some timeout))))"

definition auto_recover :: "int \<Rightarrow> cb_pool \<Rightarrow> cb_pool \<times> bool" where
  "auto_recover i p =
     (case dget p i of
        None \<Rightarrow> (p, False)
      | Some st \<Rightarrow>
          if \<not> state_is_open st then (p, False)
          else (dset i (st\<lparr>cb_phase := CB_STATE_CLOSED, failure_count := 0, trip_count := 0, current_timeout := 0\<rparr>) p, True))"

definition clear_instance :: "int \<Rightarrow> cb_pool \<Rightarrow> cb_pool" where
  "clear_instance i p = (if dmem i p then ddel i p else p)"

definition clear_all :: "cb_pool \<Rightarrow> cb_pool \<times> nat" where
  "clear_all p = ([], length p)"

definition get_open_instance_ids :: "cb_pool \<Rightarrow> int list" where
  "get_open_instance_ids p = map fst (filter (\<lambda>(i, st). state_is_open st) p)"

section \<open>The scheduler server's handlers\<close>

record cb_server =
  breakers :: cb_pool
  recovery_timers :: "(int, rat option) dict"
  pub_socket :: bool
  published :: "(int \<times> string) list"

definition init_cb_server :: "bool \<Rightarrow> cb_server" where
  "init_cb_server pub = \<lparr>breakers = [], recovery_timers = [], pub_socket = pub, published = []\<rparr>"

definition publish_circuit_breaker :: "int \<Rightarrow> string \<Rightarrow> cb_server \<Rightarrow> cb_server" where
  "publish_circuit_breaker i st sv =
     (if \<not> pub_socket sv then sv else sv\<lparr>published := published sv @ [(i, st)]\<rparr>)"

definition schedule_recovery :: "int \<Rightarrow> rat \<Rightarrow> cb_server \<Rightarrow> cb_server" where
  "schedule_recovery i timeout sv = sv\<lparr>recovery_timers := dset i (Some timeout) (recovery_timers sv)\<rparr>"

definition cancel_recovery :: "int \<Rightarrow> cb_server \<Rightarrow> cb_server" where
  "cancel_recovery i sv = sv\<lparr>recovery_timers := ddel i (recovery_timers sv)\<rparr>"

datatype cb_response = CB_SUCCESS | CB_ERROR string

definition handle_circuit_breaker_report ::
  "int option \<Rightarrow> string \<Rightarrow> cb_server \<Rightarrow> cb_server \<times> (py_exn + cb_response)" where
  "handle_circuit_breaker_report iid event sv =
     (case iid of
        None \<Rightarrow> (sv, Inr (CB_ERROR ''Missing instance_id in circuit breaker report''))
      | Some i \<Rightarrow>
          if event = ''failure'' then
            (case process_failure i (breakers sv) of
               (p, Inl x) \<Rightarrow> (sv\<lparr>breakers := p\<rparr>, Inl x)
             | (p, Inr (should_trip, timeout)) \<Rightarrow>
                 (if should_trip
                  then publish_circuit_breaker i CB_STATE_OPEN (schedule_recovery i timeout (sv\<lparr>breakers := p\<rparr>))
                  else sv\<lparr>breakers := p\<rparr>, Inr CB_SUCCESS))
          else if event = ''success'' then
            (case process_success i (breakers sv) of
               (p, recovered) \<Rightarrow>
                 (if recovered
                  then publish_circuit_breaker i CB_STATE_CLOSED (cancel_recovery i (sv\<lparr>breakers := p\<rparr>))
                  else sv\<lparr>breakers := p\<rparr>, Inr CB_SUCCESS))
          else (sv, Inr (CB_ERROR ''Unknown circuit breaker event'')))"

text \<open>The part of \<open>_handle_refresh_instances\<close> that touches the breakers.\<close>

definition refresh_breakers :: "event_type \<Rightarrow> int list \<Rightarrow> cb_server \<Rightarrow> cb_server" where
  "refresh_breakers ev ids sv =
     (case ev of
        SET \<Rightarrow> fold (\<lambda>i s. publish_circuit_breaker i CB_STATE_CLOSED s) (get_open_instance_ids (breakers sv))
                 (sv\<lparr>breakers := fst (clear_all (breakers sv)), recovery_timers := []\<rparr>)
      | DEL \<Rightarrow> fold (\<lambda>i s. cancel_recovery i (s\<lparr>breakers := clear_instance i (breakers s)\<rparr>)) ids sv
      | _ \<Rightarrow> sv)"

text \<open>
  What the probe of an instance finds: it is not in the available pool, it has no routable endpoint, or
  one answer per endpoint.
\<close>

datatype probe_outcome = NOT_AVAILABLE | PROBED "bool list"

definition probe_instance :: "int \<Rightarrow> probe_outcome \<Rightarrow> cb_server \<Rightarrow> cb_server \<times> bool" where
  "probe_instance i pr sv =
     (case pr of
        NOT_AVAILABLE \<Rightarrow>
          (publish_circuit_breaker i CB_STATE_CLOSED (sv\<lparr>breakers := clear_instance i (breakers sv)\<rparr>), False)
      | PROBED answers \<Rightarrow> (sv, answers \<noteq> [] \<and> list_all id answers))"

text \<open>
  \<open>_auto_recover\<close> after its sleep. On every exit but the rescheduling one the task has ended;
  it removes its own entry only after a successful probe.
\<close>

definition end_task :: "int \<Rightarrow> cb_server \<Rightarrow> cb_server" where
  "end_task i sv = sv\<lparr>recovery_timers := dset i None (recovery_timers sv)\<rparr>"

definition auto_recover_task :: "int \<Rightarrow> probe_outcome \<Rightarrow> cb_server \<Rightarrow> cb_server \<times> (py_exn + unit)" where
  "auto_recover_task i pr sv =
     (case probe_instance i pr sv of
        (sv1, False) \<Rightarrow>
          (case process_probe_failure i (breakers sv1) of
             (p, Inl x) \<Rightarrow> (end_task i (sv1\<lparr>breakers := p\<rparr>), Inl x)
           | (p, Inr None) \<Rightarrow> (end_task i (sv1\<lparr>breakers := p\<rparr>), Inr ())
           | (p, Inr (Some retry)) \<Rightarrow> (schedule_recovery i retry (sv1\<lparr>breakers := p\<rparr>), Inr ()))
      | (sv1, True) \<Rightarrow>
          (case auto_recover i (breakers sv1) of
             (p, recovered) \<Rightarrow>
               (let sv2 = sv1\<lparr>breakers := p\<rparr>;
                    sv3 = (if recovered then publish_circuit_breaker i CB_STATE_CLOSED sv2 else sv2)
                in (cancel_recovery i sv3, Inr ()))))"

section \<open>Specification\<close>

text \<open>One breaker, as its clients see it: the consecutive failures while closed, the trips while open.\<close>

datatype breaker = Closed nat | Open nat

datatype cb_event = Failure int | Success int | ProbeFailure int | Recover int | Clear int | ClearAll

definition breaker_step :: "int \<Rightarrow> cb_event \<Rightarrow> breaker \<Rightarrow> breaker" where
  "breaker_step i ev b =
     (case ev of
        Failure j \<Rightarrow>
          (if j \<noteq> i then b
           else case b of Closed k \<Rightarrow> if k < 2 then Closed (Suc k) else Open 1 | Open n \<Rightarrow> Open n)
      | Success j \<Rightarrow> (if j \<noteq> i then b else Closed 0)
      | ProbeFailure j \<Rightarrow> (if j \<noteq> i then b else case b of Closed k \<Rightarrow> Closed k | Open n \<Rightarrow> Open (Suc n))
      | Recover j \<Rightarrow> (if j \<noteq> i then b else case b of Closed k \<Rightarrow> Closed k | Open n \<Rightarrow> Closed 0)
      | Clear j \<Rightarrow> (if j \<noteq> i then b else Closed 0)
      | ClearAll \<Rightarrow> Closed 0)"

text \<open>The manager's operation for an event.\<close>

definition cb_apply :: "cb_event \<Rightarrow> cb_pool \<Rightarrow> cb_pool" where
  "cb_apply ev p =
     (case ev of
        Failure i \<Rightarrow> fst (process_failure i p)
      | Success i \<Rightarrow> fst (process_success i p)
      | ProbeFailure i \<Rightarrow> fst (process_probe_failure i p)
      | Recover i \<Rightarrow> fst (auto_recover i p)
      | Clear i \<Rightarrow> clear_instance i p
      | ClearAll \<Rightarrow> fst (clear_all p))"

definition cb_abs :: "cb_pool \<Rightarrow> int \<Rightarrow> breaker" where
  "cb_abs p i =
     (case dget p i of
        None \<Rightarrow> Closed 0
      | Some st \<Rightarrow> if state_is_open st then Open (trip_count st) else Closed (failure_count st))"

definition timeout_after :: "nat \<Rightarrow> rat" where
  "timeout_after n = min (30 * 2 ^ (n - 1)) 300"

definition cb_wf :: "cb_state \<Rightarrow> bool" where
  "cb_wf st \<longleftrightarrow>
     (cb_phase st = CB_STATE_OPEN \<and> 1 \<le> trip_count st \<and> failure_count st = 3 \<and>
      current_timeout st = timeout_after (trip_count st)) \<or>
     (cb_phase st = CB_STATE_CLOSED \<and> trip_count st = 0 \<and> failure_count st < 3 \<and> current_timeout st = 0)"

abbreviation cb_pool_wf :: "cb_pool \<Rightarrow> bool" where
  "cb_pool_wf p \<equiv> \<forall>i st. dget p i = Some st \<longrightarrow> cb_wf st"

lemma phases_distinct [simp]: "CB_STATE_OPEN \<noteq> CB_STATE_CLOSED" "CB_STATE_CLOSED \<noteq> CB_STATE_OPEN"
  by (simp_all add: CB_STATE_OPEN_def CB_STATE_CLOSED_def)

lemma backoff_timeout: "n \<le> 1024 \<Longrightarrow> backoff n = Inr (timeout_after n)"
  by (simp add: backoff_def timeout_after_def CB_BASE_TIMEOUT_def CB_MAX_TIMEOUT_def)

lemma backoff_overflow: "1024 < n \<Longrightarrow> backoff n = Inl OverflowError"
  by (simp add: backoff_def)

lemma timeout_after_capped: "5 \<le> n \<Longrightarrow> timeout_after n = 300"
proof -
  assume "5 \<le> n"
  then have "(2::rat) ^ 4 \<le> 2 ^ (n - 1)" by (intro power_increasing) simp_all
  then show ?thesis by (simp add: timeout_after_def)
qed

lemma timeout_after_bounds: "30 \<le> timeout_after n" "timeout_after n \<le> 300"
proof -
  have "(1::rat) \<le> 2 ^ (n - 1)" by simp
  then show "30 \<le> timeout_after n" "timeout_after n \<le> 300" by (simp_all add: timeout_after_def)
qed

lemmas cb_op_defs =
  process_failure_def process_success_def process_probe_failure_def auto_recover_def clear_instance_def clear_all_def
  cb_get_or_create_def trip_state_def state_is_open_def state_is_closed_def new_cb_state_def

text \<open>A report of a failure, where the pool is well formed: the third consecutive one trips for 30 s.\<close>

lemma process_failure_alt:
  assumes "cb_pool_wf p"
  shows "process_failure i p =
    (let (st, p1) = cb_get_or_create i p
     in if state_is_open st then (p1, Inr (False, 0))
        else if failure_count st < 2 then (dset i (st\<lparr>failure_count := failure_count st + 1\<rparr>) p1, Inr (False, 0))
        else (dset i \<lparr>cb_phase = CB_STATE_OPEN, trip_count = 1, failure_count = 3, current_timeout = 30\<rparr> p1, Inr (True, 30)))"
proof -
  obtain st p1 where g: "cb_get_or_create i p = (st, p1)" by fastforce
  have "cb_wf st"
    using g assms by (auto simp: cb_get_or_create_def cb_wf_def new_cb_state_def split: option.splits)
  then have "\<not> state_is_open st \<Longrightarrow> trip_count st = 0 \<and> failure_count st < 3"
    by (auto simp: cb_wf_def state_is_open_def)
  then consider "state_is_open st" | "\<not> state_is_open st" "failure_count st < 2"
    | "\<not> state_is_open st" "failure_count st = 2" "trip_count st = 0" by fastforce
  then show ?thesis
    by cases (cases st, simp_all add: process_failure_def g Let_def trip_state_def backoff_timeout timeout_after_def)+
qed

lemma process_failure_wf:
  assumes "cb_pool_wf p"
  shows "cb_pool_wf (fst (process_failure i p))"
  using assms unfolding process_failure_alt [OF assms]
  by (auto simp: cb_get_or_create_def cb_wf_def new_cb_state_def Let_def state_is_open_def timeout_after_def split: option.splits)

lemma probe_failure_wf:
  assumes "cb_pool_wf p"
  shows "cb_pool_wf (fst (process_probe_failure i p))"
proof (cases "\<exists>st. dget p i = Some st \<and> state_is_open st")
  case True
  then obtain st where st: "dget p i = Some st" "state_is_open st" by blast
  with assms have wf: "cb_wf st" by blast
  show ?thesis
  proof (cases "trip_count st < 1024")
    case True
    then have "backoff (Suc (trip_count st)) = Inr (timeout_after (Suc (trip_count st)))"
      by (intro backoff_timeout) simp
    with st wf assms show ?thesis
      by (auto simp: process_probe_failure_def Let_def cb_wf_def state_is_open_def)
  next
    case False
    then have "backoff (Suc (trip_count st)) = Inl OverflowError" by (intro backoff_overflow) simp
    with False st wf assms show ?thesis
      by (auto simp: process_probe_failure_def Let_def cb_wf_def state_is_open_def timeout_after_capped)
  qed
next
  case False
  with assms show ?thesis by (auto simp: process_probe_failure_def split: option.splits)
qed

lemma cb_apply_wf: "cb_pool_wf p \<Longrightarrow> cb_pool_wf (cb_apply ev p)"
proof (cases ev)
  case (Failure i)
  then show "cb_pool_wf p \<Longrightarrow> ?thesis" using process_failure_wf by (simp add: cb_apply_def)
next
  case (ProbeFailure i)
  then show "cb_pool_wf p \<Longrightarrow> ?thesis" using probe_failure_wf by (simp add: cb_apply_def)
qed (auto simp: cb_apply_def cb_op_defs cb_wf_def Let_def split: option.splits if_splits)

lemma cb_abs_step:
  assumes "cb_pool_wf p"
  shows "cb_abs (cb_apply ev p) i = breaker_step i ev (cb_abs p i)"
proof -
  show ?thesis
  proof (cases ev)
    case (Failure j)
    show ?thesis
      unfolding Failure cb_apply_def cb_event.case process_failure_alt [OF assms]
      by (auto simp: breaker_step_def cb_abs_def cb_get_or_create_def new_cb_state_def state_is_open_def Let_def
          split: option.splits)
  next
    case (ProbeFailure j)
    show ?thesis
      unfolding ProbeFailure
      by (cases "dget p j") (auto simp: cb_apply_def breaker_step_def cb_abs_def process_probe_failure_def
          state_is_open_def Let_def split: sum.splits)
  qed (auto simp: cb_apply_def breaker_step_def cb_abs_def cb_op_defs Let_def split: option.splits)
qed

section \<open>The handlers keep the breakers and their timers consistent\<close>

inductive cb_step :: "cb_server \<Rightarrow> cb_server \<Rightarrow> bool" where
  report: "cb_step sv (fst (handle_circuit_breaker_report iid event sv))"
| refresh: "cb_step sv (refresh_breakers ev ids sv)"
| timer: "dget (recovery_timers sv) i = Some (Some t) \<Longrightarrow> cb_step sv (fst (auto_recover_task i pr sv))"

inductive cb_reachable :: "bool \<Rightarrow> cb_server \<Rightarrow> bool" for pub where
  init: "cb_reachable pub (init_cb_server pub)"
| step: "cb_reachable pub sv \<Longrightarrow> cb_step sv sv' \<Longrightarrow> cb_reachable pub sv'"

definition cb_inv :: "cb_server \<Rightarrow> bool" where
  "cb_inv sv \<longleftrightarrow>
     cb_pool_wf (breakers sv) \<and>
     (\<forall>i st. dget (breakers sv) i = Some st \<longrightarrow> state_is_open st \<longrightarrow> trip_count st \<le> 1024 \<longrightarrow>
        dget (recovery_timers sv) i = Some (Some (current_timeout st)))"

lemma publish_fields [simp]:
  "breakers (publish_circuit_breaker i x sv) = breakers sv"
  "recovery_timers (publish_circuit_breaker i x sv) = recovery_timers sv"
  by (simp_all add: publish_circuit_breaker_def)

lemma schedule_fields [simp]:
  "breakers (schedule_recovery i t sv) = breakers sv"
  "recovery_timers (schedule_recovery i t sv) = dset i (Some t) (recovery_timers sv)"
  by (simp_all add: schedule_recovery_def)

lemma cancel_fields [simp]:
  "breakers (cancel_recovery i sv) = breakers sv"
  "recovery_timers (cancel_recovery i sv) = ddel i (recovery_timers sv)"
  by (simp_all add: cancel_recovery_def)

lemma end_task_fields [simp]:
  "breakers (end_task i sv) = breakers sv" "recovery_timers (end_task i sv) = dset i None (recovery_timers sv)"
  by (simp_all add: end_task_def)

lemma cb_inv_report_failure:
  assumes "cb_inv sv"
  shows "cb_inv (fst (handle_circuit_breaker_report (Some i) ''failure'' sv))"
proof -
  have wf: "cb_pool_wf (breakers sv)" using assms by (simp add: cb_inv_def)
  have "cb_pool_wf (fst (process_failure i (breakers sv)))" by (rule process_failure_wf [OF wf])
  then have wf': "cb_pool_wf (breakers (fst (handle_circuit_breaker_report (Some i) ''failure'' sv)))"
    by (auto simp: handle_circuit_breaker_report_def split: prod.splits sum.splits)
  obtain st p1 where g: "cb_get_or_create i (breakers sv) = (st, p1)" by fastforce
  have get: "dget p1 j = (if j = i then Some st else dget (breakers sv) j)"
    and st: "state_is_open st \<Longrightarrow> dget (breakers sv) i = Some st" for j
    using g by (auto simp: cb_get_or_create_def new_cb_state_def state_is_open_def split: option.splits)
  consider "state_is_open st" | "\<not> state_is_open st" "failure_count st < 2" | "\<not> state_is_open st" "\<not> failure_count st < 2"
    by blast
  then show ?thesis
    using assms wf' st
    by cases (auto simp: handle_circuit_breaker_report_def process_failure_alt [OF wf] g get Let_def cb_inv_def state_is_open_def
        split: if_splits)
qed

lemma cb_inv_report_success:
  assumes "cb_inv sv"
  shows "cb_inv (fst (handle_circuit_breaker_report (Some i) ''success'' sv))"
proof -
  have "cb_pool_wf (fst (process_success i (breakers sv)))"
    using cb_apply_wf [of "breakers sv" "Success i"] assms by (simp add: cb_inv_def cb_apply_def)
  with assms show ?thesis
    by (auto simp: handle_circuit_breaker_report_def cb_inv_def process_success_def state_is_open_def Let_def
        split: option.splits if_splits)
qed

lemma cb_inv_report: "cb_inv sv \<Longrightarrow> cb_inv (fst (handle_circuit_breaker_report iid event sv))"
proof (cases "\<exists>i. iid = Some i \<and> (event = ''failure'' \<or> event = ''success'')")
  case True
  then show "cb_inv sv \<Longrightarrow> ?thesis" using cb_inv_report_failure cb_inv_report_success by blast
qed (auto simp: handle_circuit_breaker_report_def split: option.splits)

lemma cb_inv_clear:
  "cb_inv sv \<Longrightarrow> cb_inv (cancel_recovery i (sv\<lparr>breakers := clear_instance i (breakers sv)\<rparr>))"
  by (auto simp: cb_inv_def clear_instance_def dmem_def)

lemma cb_inv_refresh:
  assumes "cb_inv sv"
  shows "cb_inv (refresh_breakers ev ids sv)"
proof -
  have del: "cb_inv (fold (\<lambda>i s. cancel_recovery i (s\<lparr>breakers := clear_instance i (breakers s)\<rparr>)) ids sv)"
    using assms by (induction ids arbitrary: sv) (simp_all add: cb_inv_clear)
  have pub: "breakers (fold (\<lambda>i s. publish_circuit_breaker i x s) js sv') = breakers sv'" for js x sv'
    by (induction js arbitrary: sv') simp_all
  show ?thesis
    using assms del by (cases ev) (simp_all add: refresh_breakers_def cb_inv_def pub clear_all_def)
qed

lemma cb_inv_timer:
  assumes "cb_inv sv"
  shows "cb_inv (fst (auto_recover_task i pr sv))"
proof (cases "snd (probe_instance i pr sv)")
  case True
  then have sv: "probe_instance i pr sv = (sv, True)"
    by (auto simp: probe_instance_def split: probe_outcome.splits)
  have "cb_pool_wf (fst (auto_recover i (breakers sv)))"
    using cb_apply_wf [of "breakers sv" "Recover i"] assms by (simp add: cb_inv_def cb_apply_def)
  with assms show ?thesis
    by (auto simp: auto_recover_task_def sv auto_recover_def cb_inv_def state_is_open_def Let_def
        split: option.splits if_splits)
next
  case False
  obtain sv1 where sv1: "probe_instance i pr sv = (sv1, False)" using False by (metis (full_types) prod.collapse)
  have t1: "recovery_timers sv1 = recovery_timers sv"
    and b1: "breakers sv1 = breakers sv \<or> breakers sv1 = ddel i (breakers sv)"
    using sv1 by (auto simp: probe_instance_def clear_instance_def dmem_def split: probe_outcome.splits if_splits)
  then have wf1: "cb_pool_wf (breakers sv1)"
    and tm: "\<And>j st. dget (breakers sv1) j = Some st \<Longrightarrow> state_is_open st \<Longrightarrow> trip_count st \<le> 1024 \<Longrightarrow>
      dget (recovery_timers sv1) j = Some (Some (current_timeout st))"
    using assms by (auto simp: cb_inv_def split: if_splits)
  have "cb_pool_wf (fst (process_probe_failure i (breakers sv1)))" by (rule probe_failure_wf [OF wf1])
  then show ?thesis
    using tm backoff_overflow
    by (auto simp: auto_recover_task_def sv1 process_probe_failure_def cb_inv_def Let_def backoff_def state_is_open_def
        split: option.splits if_splits)
qed

lemma cb_reachable_inv: "cb_reachable pub sv \<Longrightarrow> cb_inv sv"
proof (induction rule: cb_reachable.induct)
  case init
  then show ?case by (simp add: cb_inv_def init_cb_server_def)
next
  case (step sv sv')
  then show ?case by (auto elim!: cb_step.cases intro: cb_inv_report cb_inv_refresh cb_inv_timer)
qed

section \<open>Properties\<close>

text \<open>
  C22: every breaker follows its specification, whatever happens to the others. After any sequence of
  failures, successes, failed probes, recoveries and clearings of any instances, the breaker of an
  instance is the state of the two-phase automaton run on the same sequence: the third consecutive
  failure opens it, a success or a recovery closes it and forgets the count, a failed probe
  counts one more trip.
\<close>

theorem breakers_refine_spec: "cb_abs (fold cb_apply evs []) i = fold (breaker_step i) evs (Closed 0)"
proof -
  have "cb_pool_wf p \<Longrightarrow> cb_abs (fold cb_apply evs p) i = fold (breaker_step i) evs (cb_abs p i)" for p
    by (induction evs arbitrary: p) (simp_all add: cb_abs_step [symmetric] cb_apply_wf)
  from this [of "[]"] show ?thesis by (simp add: cb_abs_def)
qed

text \<open>
  C28: in every reachable state an open breaker has tripped at least once and waits for
  \<open>min (30 * 2^(trips-1)) 300\<close> seconds, between 30 and 300; a closed one has fewer than three
  failures and no timeout. A breaker is never neither open nor closed.
\<close>

theorem breaker_timeout_bounds:
  assumes "cb_reachable pub sv" and "dget (breakers sv) i = Some st"
  shows "(state_is_open st \<and> 1 \<le> trip_count st \<and> 30 \<le> current_timeout st \<and> current_timeout st \<le> 300 \<and>
      current_timeout st = min (30 * 2 ^ (trip_count st - 1)) 300) \<or>
    (state_is_closed st \<and> failure_count st < 3 \<and> trip_count st = 0 \<and> current_timeout st = 0)"
proof -
  from cb_reachable_inv [OF assms(1)] assms(2) have "cb_wf st" by (auto simp: cb_inv_def)
  with timeout_after_bounds [of "trip_count st"] show ?thesis
    by (auto simp: cb_wf_def state_is_open_def state_is_closed_def timeout_after_def)
qed

definition demo_tripped :: cb_server where
  "demo_tripped =
     (let f = (\<lambda>sv. fst (handle_circuit_breaker_report (Some 4) ''failure'' sv))
      in f (f (f (init_cb_server True))))"

lemma demo_tripped_reachable: "cb_reachable True demo_tripped"
  unfolding demo_tripped_def Let_def by (blast intro: cb_reachable.intros cb_step.report)

lemma demo_tripped_fields:
  "breakers demo_tripped = [(4, \<lparr>cb_phase = CB_STATE_OPEN, trip_count = 1, failure_count = 3, current_timeout = 30\<rparr>)]"
  "recovery_timers demo_tripped = [(4, Some 30)]" "published demo_tripped = [(4, CB_STATE_OPEN)]"
  by (simp_all add: demo_tripped_def Let_def handle_circuit_breaker_report_def init_cb_server_def cb_op_defs backoff_timeout
      timeout_after_def publish_circuit_breaker_def schedule_recovery_def)

theorem breaker_timeout_bounds_witness:
  "\<exists>st. dget (breakers demo_tripped) 4 = Some st \<and> current_timeout st \<le> 300"
  using breaker_timeout_bounds [OF demo_tripped_reachable, of 4] by (simp add: demo_tripped_fields state_is_open_def state_is_closed_def)

text \<open>
  C27: an open breaker is never stranded while its trip count is at most 1024: its recovery timer is
  pending with the breaker's timeout, and when it fires and every endpoint answers, the breaker closes,
  its timer is gone and the workers are told.
\<close>

theorem open_breaker_recovers:
  assumes "cb_reachable pub sv" and "cb_is_open i (breakers sv)"
    and "dget (breakers sv) i = Some st" and "trip_count st \<le> 1024"
    and "answers \<noteq> []" and "list_all id answers"
  defines "sv' \<equiv> fst (auto_recover_task i (PROBED answers) sv)"
  shows "dget (recovery_timers sv) i = Some (Some (current_timeout st)) \<and>
    cb_is_closed i (breakers sv') \<and> dget (recovery_timers sv') i = None \<and>
    (pub_socket sv \<longrightarrow> published sv' = published sv @ [(i, CB_STATE_CLOSED)])"
proof -
  have op: "state_is_open st" using assms(2,3) by (simp add: cb_is_open_def)
  with cb_reachable_inv [OF assms(1)] assms(3,4) have "dget (recovery_timers sv) i = Some (Some (current_timeout st))"
    by (simp add: cb_inv_def)
  with op assms(3,5,6) show ?thesis
    by (simp add: sv'_def auto_recover_task_def probe_instance_def auto_recover_def Let_def cb_is_closed_def
        state_is_closed_def publish_circuit_breaker_def cancel_recovery_def)
qed

theorem open_breaker_recovers_witness:
  "cb_is_closed 4 (breakers (fst (auto_recover_task 4 (PROBED [True, True]) demo_tripped)))"
  using open_breaker_recovers [OF demo_tripped_reachable, of 4 _ "[True, True]"]
  by (simp add: demo_tripped_fields cb_is_open_def state_is_open_def)

text \<open>
  Past 1024 trips the recovery is stranded. When the probe of an open breaker with 1024 trips fails,
  the conversion of \<open>2 ** 1024\<close> to a float raises \<open>OverflowError\<close> in the timer task; the
  breaker stays open and no timer is pending any more.
\<close>

theorem probe_overflow_strands_breaker:
  assumes "dget (breakers sv) i = Some st" and "state_is_open st" and "trip_count st = 1024"
  defines "sv' \<equiv> fst (auto_recover_task i (PROBED [False]) sv)"
  shows "snd (auto_recover_task i (PROBED [False]) sv) = Inl OverflowError \<and>
    cb_is_open i (breakers sv') \<and> \<not> (\<exists>t. dget (recovery_timers sv') i = Some (Some t))"
  using assms(1-3)
  by (simp add: sv'_def auto_recover_task_def probe_instance_def process_probe_failure_def backoff_def Let_def
      cb_is_open_def state_is_open_def)

lemma probe_failures_reach:
  "n < 1024 \<Longrightarrow> \<exists>sv st. cb_reachable True sv \<and> dget (breakers sv) 4 = Some st \<and> state_is_open st \<and> trip_count st = Suc n \<and>
     dget (recovery_timers sv) 4 = Some (Some (current_timeout st))"
proof (induction n)
  case 0
  show ?case
    using demo_tripped_reachable by (rule_tac exI [of _ demo_tripped]) (simp add: demo_tripped_fields state_is_open_def)
next
  case (Suc n)
  then obtain sv st where sv: "cb_reachable True sv" "dget (breakers sv) 4 = Some st" "state_is_open st"
      "trip_count st = Suc n" "dget (recovery_timers sv) 4 = Some (Some (current_timeout st))" by auto
  let ?sv = "fst (auto_recover_task 4 (PROBED [False]) sv)"
  have "cb_reachable True ?sv" by (rule cb_reachable.step [OF sv(1) cb_step.timer [OF sv(5)]])
  moreover have "backoff (Suc (Suc n)) = Inr (timeout_after (Suc (Suc n)))" using Suc.prems by (intro backoff_timeout) simp
  then have "dget (breakers ?sv) 4 = Some (st\<lparr>trip_count := Suc (Suc n), current_timeout := timeout_after (Suc (Suc n))\<rparr>)"
    "dget (recovery_timers ?sv) 4 = Some (Some (timeout_after (Suc (Suc n))))"
    using sv by (simp_all add: auto_recover_task_def probe_instance_def process_probe_failure_def Let_def)
  ultimately show ?case using sv(3) by (intro exI [of _ ?sv]) (simp add: state_is_open_def)
qed

theorem probe_overflow_strands_breaker_witness:
  "\<exists>sv. cb_reachable True sv \<and> cb_is_open 4 (breakers sv) \<and> \<not> (\<exists>t. dget (recovery_timers sv) 4 = Some (Some t))"
proof -
  obtain sv st where sv: "cb_reachable True sv" "dget (breakers sv) 4 = Some st" "state_is_open st" "trip_count st = 1024"
      "dget (recovery_timers sv) 4 = Some (Some (current_timeout st))"
    using probe_failures_reach [of 1023] by auto
  have "cb_reachable True (fst (auto_recover_task 4 (PROBED [False]) sv))"
    by (rule cb_reachable.step [OF sv(1) cb_step.timer [OF sv(5)]])
  with probe_overflow_strands_breaker [OF sv(2-4)] show ?thesis by blast
qed

end
