(* ===== verification/Scheduling_Policy.thy ===== *)
theory Scheduling_Policy
  imports Coordinator_Pools "HOL-Library.Product_Lexorder" "HOL-Library.Multiset"
begin

text \<open>
  The scheduling policies of the coordinator (\<^verbatim>\<open>motor/coordinator/scheduler/policy/\<close>): load
  balance (\<^verbatim>\<open>load_balance.py\<close>), round robin (\<^verbatim>\<open>round_robin.py\<close>), the pinned selection and
  constraint of \<^verbatim>\<open>domain/scheduling_pin.py\<close> and \<^verbatim>\<open>domain/scheduling_constraint.py\<close>, and the
  demand formulas of \<^verbatim>\<open>domain/workload_calculator.py\<close>.

  A policy reads instances and endpoints and mutates only its own counters, so instances are values
  here. \<open>heapq.nsmallest(k, xs, key)\<close> is the first \<open>k\<close> elements of the sorted list,
  as the Python documentation specifies. \<open>is_blocked = None\<close> is the absent filter. A
  score that raises is skipped, as the code does.
\<close>

section \<open>Load balance\<close>

definition DEFAULT_ENDPOINT_INSTANCE_SCORE_WEIGHT :: rat where
  "DEFAULT_ENDPOINT_INSTANCE_SCORE_WEIGHT = 5 / 100"

record endpoint_candidate =
  cand_instance :: instance_obj
  cand_endpoint :: endpoint
  cand_score :: rat

definition set_endpoint_instance_score_weight :: "rat \<Rightarrow> rat" where
  "set_endpoint_instance_score_weight weight = max 0 weight"

definition calculate_endpoint_score :: "instance_obj \<Rightarrow> endpoint \<Rightarrow> string option \<Rightarrow> rat \<Rightarrow> py_exn + rat" where
  "calculate_endpoint_score i e role weight =
     (let score_role = Some (case role of Some r \<Rightarrow> r | None \<Rightarrow> ins_role i)
      in case calculate_workload_score (ep_workload e) score_role of
           Inl x \<Rightarrow> Inl x
         | Inr endpoint_score \<Rightarrow>
             if weight \<le> 0 then Inr endpoint_score
             else (case calculate_workload_score (gathered_workload i) score_role of
                     Inl x \<Rightarrow> Inl x
                   | Inr instance_score \<Rightarrow>
                       Inr (endpoint_score +
                         weight * (instance_score / of_nat (max 1 (length (routable_endpoints i)))))))"

definition rotated :: "int \<Rightarrow> 'a list \<Rightarrow> 'a list" where
  "rotated start xs = map (\<lambda>j. xs ! nat ((start + int j) mod int (length xs))) [0..<length xs]"

definition score_instance ::
  "string option \<Rightarrow> rat \<Rightarrow> (int \<Rightarrow> bool) option \<Rightarrow> instance_obj \<Rightarrow> endpoint_candidate list" where
  "score_instance role weight is_blocked i =
     List.map_filter
       (\<lambda>e. if (case is_blocked of None \<Rightarrow> False | Some b \<Rightarrow> b (ins_id i)) then None
            else (case calculate_endpoint_score i e role weight of
                    Inl _ \<Rightarrow> None
                  | Inr score \<Rightarrow> Some \<lparr>cand_instance = i, cand_endpoint = e, cand_score = score\<rparr>))
       (routable_endpoints i)"

definition scored_candidates ::
  "string option \<Rightarrow> rat \<Rightarrow> (int \<Rightarrow> bool) option \<Rightarrow> instance_obj list \<Rightarrow> endpoint_candidate list" where
  "scored_candidates role weight is_blocked is = concat (map (score_instance role weight is_blocked) is)"

definition nsmallest :: "nat \<Rightarrow> ('a \<Rightarrow> 'b :: linorder) \<Rightarrow> 'a list \<Rightarrow> 'a list" where
  "nsmallest k key xs = take k (sort_key key xs)"

definition select_endpoint_candidates_from_list ::
  "instance_obj list \<Rightarrow> string option \<Rightarrow> int \<Rightarrow> rat \<Rightarrow> int \<Rightarrow> (int \<Rightarrow> bool) option \<Rightarrow> endpoint_candidate list" where
  "select_endpoint_candidates_from_list is role top_k weight start_index is_blocked =
     (if top_k \<le> 0 then []
      else if is = [] then []
      else (let cands = scored_candidates role weight is_blocked (rotated start_index is);
                scored = map (\<lambda>(tie_order, c). (cand_score c, tie_order, c)) (enumerate 0 cands)
            in map (\<lambda>(_, _, c). c) (nsmallest (nat top_k) (\<lambda>(score, tie_order, _). (score, tie_order)) scored)))"

definition select_endpoint_from_list ::
  "instance_obj list \<Rightarrow> string option \<Rightarrow> int \<Rightarrow> rat \<Rightarrow> (instance_obj \<times> endpoint) option" where
  "select_endpoint_from_list is role start_index weight =
     (case select_endpoint_candidates_from_list is role 1 weight start_index None of
        [] \<Rightarrow> None
      | c # _ \<Rightarrow> Some (cand_instance c, cand_endpoint c))"

text \<open>The running minimum of the two single-pass loops; \<open>None\<close> is \<open>float('inf')\<close>.\<close>

fun min_loop :: "('a \<Rightarrow> py_exn + rat) \<Rightarrow> 'a list \<Rightarrow> rat option \<Rightarrow> 'a option \<Rightarrow> 'a option" where
  "min_loop score [] min_workload selected = selected"
| "min_loop score (x # xs) min_workload selected =
     (case score x of
        Inl _ \<Rightarrow> min_loop score xs min_workload selected
      | Inr s \<Rightarrow>
          if (case min_workload of None \<Rightarrow> True | Some m \<Rightarrow> s < m)
          then min_loop score xs (Some s) (Some x)
          else min_loop score xs min_workload selected)"

definition lb_select_instance_from_list :: "instance_obj list \<Rightarrow> int \<Rightarrow> instance_obj option" where
  "lb_select_instance_from_list is start_index =
     min_loop (\<lambda>i. calculate_workload_score (gathered_workload i) (Some (ins_role i)))
       (if start_index \<noteq> 0 then rotated start_index is else is) None None"

definition lb_select_endpoint_from_instance :: "instance_obj \<Rightarrow> endpoint option" where
  "lb_select_endpoint_from_instance i =
     min_loop (\<lambda>e. calculate_workload_score (ep_workload e) (Some (ins_role i))) (routable_endpoints i) None None"

definition lb_select_instance_and_endpoint :: "rat \<Rightarrow> instance_obj list \<Rightarrow> string option \<Rightarrow> (instance_obj \<times> endpoint) option" where
  "lb_select_instance_and_endpoint weight active_instances role =
     (if active_instances = [] then None else select_endpoint_from_list active_instances role 0 weight)"

section \<open>The base policy\<close>

text \<open>
  \<open>BaseSchedulingPolicy.select_instance_and_endpoint_from_list\<close>: the first instance of the
  list on which the endpoint selection of the policy, the argument \<open>pick\<close>, succeeds.
\<close>

fun base_select_from_list ::
  "(instance_obj \<Rightarrow> 's \<Rightarrow> 's \<times> endpoint option) \<Rightarrow> instance_obj list \<Rightarrow> 's \<Rightarrow> 's \<times> (instance_obj \<times> endpoint) option" where
  "base_select_from_list pick [] s = (s, None)"
| "base_select_from_list pick (i # is) s =
     (case pick i s of
        (s1, None) \<Rightarrow> base_select_from_list pick is s1
      | (s1, Some e) \<Rightarrow> (s1, Some (i, e)))"

section \<open>Round robin\<close>

record rr_policy =
  instance_rr_counters :: "(pd_role option, int) dict"
  endpoint_rr_counters :: "(int, int) dict"

definition init_rr :: rr_policy where
  "init_rr = \<lparr>instance_rr_counters = [], endpoint_rr_counters = []\<rparr>"

definition rr_select_instance_from_list :: "'a list \<Rightarrow> int \<Rightarrow> 'a option \<times> int" where
  "rr_select_instance_from_list xs counter =
     (if xs = [] then (None, counter) else (Some (xs ! nat (counter mod int (length xs))), counter + 1))"

definition rr_select_endpoint_from_instance ::
  "instance_obj \<Rightarrow> (int, int) dict \<Rightarrow> (int \<Rightarrow> bool) option \<Rightarrow> (int, int) dict \<times> endpoint option" where
  "rr_select_endpoint_from_instance i counters is_blocked =
     (let eps = (case is_blocked of
                   None \<Rightarrow> routable_endpoints i
                 | Some b \<Rightarrow> filter (\<lambda>_. \<not> b (ins_id i)) (routable_endpoints i))
      in if eps = [] then (counters, None)
         else (let counters1 = (if dmem (ins_id i) counters then counters else dset (ins_id i) 0 counters);
                   c = the (dget counters1 (ins_id i))
               in (dset (ins_id i) ((c + 1) mod int (length eps)) counters1,
                   Some (eps ! nat (c mod int (length eps))))))"

definition rr_select_instance :: "pd_role option \<Rightarrow> instance_obj list \<Rightarrow> rr_policy \<Rightarrow> rr_policy \<times> instance_obj option" where
  "rr_select_instance role active p =
     (if active = [] then (p, None)
      else (let counters = (if dmem role (instance_rr_counters p) then instance_rr_counters p
                            else dset role 0 (instance_rr_counters p))
            in case rr_select_instance_from_list active (the (dget counters role)) of
                 (selected, next_counter) \<Rightarrow>
                   (p\<lparr>instance_rr_counters := dset role (next_counter mod int (length active)) counters\<rparr>, selected)))"

definition rr_select_endpoint :: "instance_obj \<Rightarrow> rr_policy \<Rightarrow> rr_policy \<times> endpoint option" where
  "rr_select_endpoint i p =
     (if routable_endpoints i = [] then (p, None)
      else (case rr_select_endpoint_from_instance i (endpoint_rr_counters p) None of
              (counters, e) \<Rightarrow> (p\<lparr>endpoint_rr_counters := counters\<rparr>, e)))"

text \<open>\<open>BaseSchedulingPolicy.select_instance_and_endpoint\<close> with the two selections above.\<close>

definition rr_select_instance_and_endpoint ::
  "pd_role option \<Rightarrow> instance_obj list \<Rightarrow> rr_policy \<Rightarrow> rr_policy \<times> (instance_obj \<times> endpoint) option" where
  "rr_select_instance_and_endpoint role active p =
     (case rr_select_instance role active p of
        (p1, None) \<Rightarrow> (p1, None)
      | (p1, Some i) \<Rightarrow>
          (case rr_select_endpoint i p1 of
             (p2, None) \<Rightarrow> (p2, None)
           | (p2, Some e) \<Rightarrow> (p2, Some (i, e))))"

definition rr_select_from_list ::
  "instance_obj list \<Rightarrow> pd_role option \<Rightarrow> rr_policy \<Rightarrow> rr_policy \<times> (instance_obj \<times> endpoint) option" where
  "rr_select_from_list is role p =
     (if is = [] then (p, None)
      else (case rr_select_instance_from_list is (case dget (instance_rr_counters p) role of None \<Rightarrow> 0 | Some c \<Rightarrow> c) of
              (selected, next_counter) \<Rightarrow>
                (let p1 = p\<lparr>instance_rr_counters := dset role (next_counter mod int (length is)) (instance_rr_counters p)\<rparr>
                 in case selected of
                      None \<Rightarrow> (p1, None)
                    | Some i \<Rightarrow>
                        (case rr_select_endpoint_from_instance i (endpoint_rr_counters p1) None of
                           (counters, e) \<Rightarrow> (p1\<lparr>endpoint_rr_counters := counters\<rparr>, map_option (\<lambda>e. (i, e)) e)))))"

section \<open>Pinned selection\<close>

definition resolve_pinned_instance :: "(int, instance_obj) dict \<Rightarrow> int \<Rightarrow> instance_obj option" where
  "resolve_pinned_instance is target = dget is target"

definition select_endpoint_for_instance ::
  "instance_obj \<Rightarrow> string \<Rightarrow> (int, int) dict \<Rightarrow> (int \<Rightarrow> bool) option \<Rightarrow> (int, int) dict \<times> endpoint option" where
  "select_endpoint_for_instance i scheduler_type counters is_blocked =
     (let st = (if scheduler_type = [] then ''round_robin'' else scheduler_type);
          blocked = (case is_blocked of None \<Rightarrow> False | Some b \<Rightarrow> b (ins_id i))
      in if st \<in> {''load_balance'', ''kv_cache_affinity''} then
           (counters,
            case (if blocked then None else lb_select_endpoint_from_instance i) of
              Some e \<Rightarrow> Some e
            | None \<Rightarrow>
                (let all_eps = filter (\<lambda>_. \<not> blocked) (routable_endpoints i)
                 in if all_eps = [] then None else Some (all_eps ! 0)))
         else rr_select_endpoint_from_instance i counters is_blocked)"

record scheduling_constraint =
  pinned_instances :: "(string, int) dict"
  constraint_reason :: string

definition for_precision_probe :: "int option \<Rightarrow> int \<Rightarrow> scheduling_constraint" where
  "for_precision_probe p_instance_id d_instance_id =
     (let pinned = [(pd_role_value ROLE_D, d_instance_id)]
      in \<lparr>pinned_instances = (case p_instance_id of None \<Rightarrow> pinned | Some p \<Rightarrow> dset (pd_role_value ROLE_P) p pinned),
          constraint_reason = ''precision_probe''\<rparr>)"

definition target_for_role :: "pd_role \<Rightarrow> scheduling_constraint \<Rightarrow> int option" where
  "target_for_role role c = dget (pinned_instances c) (pd_role_value role)"

section \<open>Demand and committed load\<close>

datatype content_item = ImageUrl string | VideoUrl | OtherItem

datatype message_content = ContentList "content_item list" | ContentOther

record request_info =
  req_messages :: "message_content list"
  req_len :: int
  token_ids :: "int list option"

text \<open>The image cost \<open>get_mul_token\<close> reads a file or decodes an image; it is the argument \<open>mul\<close>.\<close>

definition calculate_encode_scores :: "(string \<Rightarrow> rat) \<Rightarrow> request_info \<Rightarrow> rat" where
  "calculate_encode_scores mul req =
     fold (\<lambda>msg acc. case msg of
             ContentOther \<Rightarrow> acc
           | ContentList items \<Rightarrow>
               fold (\<lambda>item acc. case item of
                       ImageUrl url \<Rightarrow> acc + mul url
                     | VideoUrl \<Rightarrow> acc + of_int (req_len req * 32)
                     | OtherItem \<Rightarrow> acc) items acc)
       (req_messages req) 0"

definition calculate_prefill_scores :: "int \<Rightarrow> rat" where
  "calculate_prefill_scores request_length = of_int request_length / 4 * (345 / 10000) + 1200745 / 10000"

definition calculate_decode_scores :: "int \<Rightarrow> rat" where
  "calculate_decode_scores request_length = of_int request_length"

definition prefill_load_score :: "request_info \<Rightarrow> rat" where
  "prefill_load_score req =
     (case token_ids req of
        Some (t # ts) \<Rightarrow> of_nat (length (t # ts))
      | _ \<Rightarrow> calculate_prefill_scores (req_len req))"

definition calculate_demand_workload :: "(string \<Rightarrow> rat) \<Rightarrow> pd_role \<Rightarrow> request_info \<Rightarrow> workload" where
  "calculate_demand_workload mul role req =
     (case role of
        ROLE_E \<Rightarrow> \<lparr>active_tokens = calculate_encode_scores mul req\<rparr>
      | ROLE_P \<Rightarrow> \<lparr>active_tokens = prefill_load_score req\<rparr>
      | ROLE_D \<Rightarrow> \<lparr>active_tokens = calculate_decode_scores (req_len req)\<rparr>
      | ROLE_U \<Rightarrow> \<lparr>active_tokens = prefill_load_score req\<rparr>)"

definition calculate_committed_workload :: "pd_role \<Rightarrow> rat \<Rightarrow> rat \<Rightarrow> workload" where
  "calculate_committed_workload role isl_in matched_tokens =
     (let isl_f = max 0 isl_in; matched = min (max 0 matched_tokens) isl_f
      in \<lparr>active_tokens = isl_f - matched\<rparr>)"

end
