(* ===== verification/Scheduling_Properties.thy ===== *)
theory Scheduling_Properties
  imports Scheduling_Policy
begin

text \<open>
  Properties of the scheduling policies: the load-balance ranking is a stable sort of the eligible
  endpoints, the start index only breaks ties, the single-pass loops find the first minimum, and
  round robin serves every instance once per round.
\<close>

section \<open>Sorting with an explicit tie order\<close>

lemma insort_key_tie:
  assumes "\<forall>p\<in>set S. n < fst p"
  shows "map snd (insort_key (\<lambda>(j, x). (f x, j)) (n, x) S) = insort_key f x (map snd S)"
  using assms by (induction S) (auto simp: less_eq_prod_def less_le)

lemma sort_key_enumerate:
  "map snd (sort_key (\<lambda>(j, x). (f x, j)) (enumerate n xs)) = sort_key f xs"
proof (induction xs arbitrary: n)
  case (Cons x xs)
  have "\<forall>p\<in>set (sort_key (\<lambda>(j, x). (f x, j)) (enumerate (Suc n) xs)). n < fst p"
    by (auto simp: in_set_enumerate_eq)
  from insort_key_tie [OF this, of f x] show ?case
    by (simp add: Cons.IH)
qed simp

lemma insort_key_map: "insort_key k (h x) (map h xs) = map h (insort_key (\<lambda>y. k (h y)) x xs)"
  by (induction xs) auto

lemma sort_key_map: "sort_key k (map h xs) = map h (sort_key (k \<circ> h) xs)"
  by (induction xs) (simp_all add: insort_key_map comp_def)

lemma sorted_map_unique:
  "mset xs = mset ys \<Longrightarrow> sorted (map f xs) \<Longrightarrow> sorted (map f ys) \<Longrightarrow> map f xs = map f ys"
  by (metis mset_map properties_for_sort)

lemma sort_key_map_cong: "mset xs = mset ys \<Longrightarrow> map f (sort_key f xs) = map f (sort_key f ys)"
  by (rule sorted_map_unique) simp_all

lemma nsmallest_bound:
  assumes "x \<in> set (take k (sort_key f xs))" and "y \<in> set (drop k (sort_key f xs))"
  shows "f x \<le> f y"
proof -
  have "sorted (map f (take k (sort_key f xs)) @ map f (drop k (sort_key f xs)))"
    by (simp only: append_take_drop_id sorted_sort_key flip: map_append)
  with assms show ?thesis by (simp only: sorted_append) auto
qed

lemma nsmallest_rest: "mset xs - mset (take k (sort_key f xs)) = mset (drop k (sort_key f xs))"
proof -
  have "mset (take k (sort_key f xs)) + mset (drop k (sort_key f xs)) = mset xs"
    by (simp flip: mset_append)
  then show ?thesis by (metis add_diff_cancel_left')
qed

section \<open>Load balance\<close>

lemma rotated_eq_rotate: "xs \<noteq> [] \<Longrightarrow> rotated start xs = rotate (nat (start mod int (length xs))) xs"
proof (rule nth_equalityI)
  assume "xs \<noteq> []"
  fix j assume "j < length (rotated start xs)"
  then have j: "j < length xs" by (simp add: rotated_def)
  have "nat ((start + int j) mod int (length xs)) = nat ((start mod int (length xs) + int j) mod int (length xs))"
    by (simp add: mod_add_left_eq)
  also have "\<dots> = (nat (start mod int (length xs)) + j) mod length xs"
  proof -
    have "0 < int (length xs)" using j by linarith
    then have "0 \<le> start mod int (length xs)" by (rule pos_mod_sign)
    then show ?thesis by (simp add: nat_mod_distrib nat_add_distrib)
  qed
  finally have "nat ((start + int j) mod int (length xs)) = (nat (start mod int (length xs)) + j) mod length xs" .
  with j show "rotated start xs ! j = rotate (nat (start mod int (length xs))) xs ! j"
    by (simp add: rotated_def nth_rotate add.commute)
qed (simp add: rotated_def)

lemma mset_rotate1: "mset (rotate1 xs) = mset xs"
  by (cases xs) simp_all

lemma mset_rotate: "mset (rotate n xs) = mset xs"
  by (induction n) (simp_all add: mset_rotate1)

lemma mset_rotated [simp]: "mset (rotated start xs) = mset xs"
proof (cases "xs = []")
  case False
  then show ?thesis by (simp add: rotated_eq_rotate mset_rotate)
qed (simp add: rotated_def)

lemma set_rotated [simp]: "set (rotated start xs) = set xs"
  by (metis mset_rotated set_mset_mset)

lemma mset_scored_candidates_cong:
  "mset xs = mset ys \<Longrightarrow>
   mset (scored_candidates role w blk xs) = mset (scored_candidates role w blk ys)"
proof -
  assume "mset xs = mset ys"
  then have "mset (map (mset \<circ> score_instance role w blk) xs) = mset (map (mset \<circ> score_instance role w blk) ys)"
    by simp
  then show ?thesis
    by (simp only: scored_candidates_def mset_concat map_map sum_mset_sum_list [symmetric])
qed

text \<open>The heap selection with the explicit tie order is a stable sort by score, cut at \<open>k\<close>.\<close>

lemma select_candidates_stable:
  "select_endpoint_candidates_from_list is role top_k w start blk =
   take (nat top_k) (sort_key cand_score (scored_candidates role w blk (rotated start is)))"
proof (cases "top_k \<le> 0 \<or> is = []")
  case True
  then show ?thesis
    by (auto simp: select_endpoint_candidates_from_list_def rotated_def scored_candidates_def)
next
  case False
  let ?c = "scored_candidates role w blk (rotated start is)"
  let ?h = "\<lambda>(t :: nat, c). (cand_score c, t, c)"
  have "(\<lambda>(score, t, _). (score, t)) \<circ> ?h = (\<lambda>(j, x). (cand_score x, j))"
    by (auto simp: fun_eq_iff)
  then have "map (\<lambda>(_, _, c). c) (nsmallest (nat top_k) (\<lambda>(score, t, _). (score, t)) (map ?h (enumerate 0 ?c))) =
    take (nat top_k) (map snd (sort_key (\<lambda>(j, x). (cand_score x, j)) (enumerate 0 ?c)))"
    by (simp add: nsmallest_def sort_key_map take_map comp_def split_def)
  with False show ?thesis
    by (simp add: select_endpoint_candidates_from_list_def sort_key_enumerate)
qed

lemma in_map_filter: "y \<in> set (List.map_filter g xs) \<longleftrightarrow> (\<exists>x\<in>set xs. g x = Some y)"
  by (force simp: map_filter_def)

lemma case_sum_Some: "(case z of Inl _ \<Rightarrow> None | Inr s \<Rightarrow> Some (f s)) = Some c \<longleftrightarrow> (\<exists>s. z = Inr s \<and> f s = c)"
  by (cases z) auto

lemma score_instance_iff:
  "c \<in> set (score_instance role w blk i) \<longleftrightarrow>
     cand_instance c = i \<and> cand_endpoint c \<in> set (routable_endpoints i) \<and>
     \<not> (case blk of None \<Rightarrow> False | Some b \<Rightarrow> b (ins_id i)) \<and>
     calculate_endpoint_score i (cand_endpoint c) role w = Inr (cand_score c)"
  by (cases c, cases "case blk of None \<Rightarrow> False | Some b \<Rightarrow> b (ins_id i)")
    (auto simp: score_instance_def in_map_filter case_sum_Some)

lemma scored_candidate_iff:
  "c \<in> set (scored_candidates role w blk is) \<longleftrightarrow>
     cand_instance c \<in> set is \<and> cand_endpoint c \<in> set (routable_endpoints (cand_instance c)) \<and>
     \<not> (case blk of None \<Rightarrow> False | Some b \<Rightarrow> b (ins_id (cand_instance c))) \<and>
     calculate_endpoint_score (cand_instance c) (cand_endpoint c) role w = Inr (cand_score c)"
  unfolding scored_candidates_def set_concat set_map UN_iff bex_simps score_instance_iff by blast

text \<open>No score raises: the role argument falls back to the role of the instance.\<close>

lemma endpoint_score_total: "\<exists>s. calculate_endpoint_score i e role w = Inr s"
  by (simp add: calculate_endpoint_score_def calculate_workload_score_def)

section \<open>The single-pass minimum\<close>

lemma min_loop_found:
  assumes "\<forall>x\<in>set xs. \<exists>s. score x = Inr s" and "min_loop score xs (Some m) (Some a) = Some r"
    and "score a = Inr m"
  shows "(r = a \<or> r \<in> set xs) \<and> (\<exists>s. score r = Inr s \<and> s \<le> m \<and> (\<forall>x\<in>set xs. \<forall>t. score x = Inr t \<longrightarrow> s \<le> t))"
  using assms
proof (induction xs arbitrary: m a)
  case (Cons x xs)
  from Cons.prems(1) obtain s where s: "score x = Inr s" by auto
  show ?case
  proof (cases "s < m")
    case True
    then have "min_loop score xs (Some s) (Some x) = Some r" using Cons.prems(2) s by simp
    from Cons.IH [OF _ this s] Cons.prems(1)
    obtain s' where "r = x \<or> r \<in> set xs" "score r = Inr s'" "s' \<le> s" "\<forall>x\<in>set xs. \<forall>t. score x = Inr t \<longrightarrow> s' \<le> t"
      by auto
    with True s show ?thesis by auto
  next
    case False
    then have "min_loop score xs (Some m) (Some a) = Some r" using Cons.prems(2) s by simp
    from Cons.IH [OF _ this Cons.prems(3)] Cons.prems(1)
    obtain s' where "r = a \<or> r \<in> set xs" "score r = Inr s'" "s' \<le> m" "\<forall>x\<in>set xs. \<forall>t. score x = Inr t \<longrightarrow> s' \<le> t"
      by auto
    with False s show ?thesis by auto
  qed
qed simp

lemma min_loop_Some: "min_loop score xs m (Some a) \<noteq> None"
  by (induction xs arbitrary: m a) (auto split: sum.splits)

lemma min_loop_total:
  assumes "\<forall>x\<in>set xs. \<exists>s. score x = Inr s" and "xs \<noteq> []"
  shows "\<exists>r s. min_loop score xs None None = Some r \<and> r \<in> set xs \<and> score r = Inr s \<and>
    (\<forall>x\<in>set xs. \<forall>t. score x = Inr t \<longrightarrow> s \<le> t)"
proof -
  from assms obtain x ys where xs: "xs = x # ys" by (cases xs) auto
  with assms(1) obtain s where s: "score x = Inr s" by auto
  obtain r where r: "min_loop score ys (Some s) (Some x) = Some r"
    using min_loop_Some by fast
  from min_loop_found [OF _ r s] assms(1) xs
  have "(r = x \<or> r \<in> set ys) \<and> (\<exists>s'. score r = Inr s' \<and> s' \<le> s \<and> (\<forall>x\<in>set ys. \<forall>t. score x = Inr t \<longrightarrow> s' \<le> t))"
    by simp
  moreover have "min_loop score xs None None = Some r" using xs s r by simp
  ultimately show ?thesis using xs s by force
qed

lemma lb_endpoint_minimal:
  assumes "routable_endpoints i \<noteq> []"
  shows "\<exists>e. lb_select_endpoint_from_instance i = Some e \<and> e \<in> set (routable_endpoints i) \<and>
    (\<forall>e'\<in>set (routable_endpoints i). active_tokens (ep_workload e) \<le> active_tokens (ep_workload e'))"
  using min_loop_total [OF _ assms, of "\<lambda>e. calculate_workload_score (ep_workload e) (Some (ins_role i))"]
  by (fastforce simp: lb_select_endpoint_from_instance_def calculate_workload_score_def)

lemma lb_endpoint_none: "routable_endpoints i = [] \<Longrightarrow> lb_select_endpoint_from_instance i = None"
  by (simp add: lb_select_endpoint_from_instance_def)

section \<open>Endpoint selectors\<close>

text \<open>
  The contract both policies keep when they choose an endpoint of one instance: \<open>pick\<close> answers
  with a routable endpoint whenever there is one. The base class relies on it in its loop over a
  filtered subset, which takes the first instance that yields an endpoint.
\<close>

locale endpoint_selector =
  fixes pick :: "instance_obj \<Rightarrow> 's \<Rightarrow> 's \<times> endpoint option"
  assumes pick_sound: "pick i s = (s', Some e) \<Longrightarrow> e \<in> set (routable_endpoints i)"
    and pick_complete: "routable_endpoints i \<noteq> [] \<Longrightarrow> \<exists>s' e. pick i s = (s', Some e)"
    and pick_none_keeps: "pick i s = (s', None) \<Longrightarrow> s' = s"
begin

lemma pick_none_iff: "snd (pick i s) = None \<longleftrightarrow> routable_endpoints i = []"
proof (cases "pick i s")
  case (Pair s' r)
  then show ?thesis
  proof (cases r)
    case None
    with Pair pick_complete [of i s] show ?thesis by auto
  next
    case (Some e)
    with Pair pick_sound [of i s s' e] show ?thesis by auto
  qed
qed

lemma first_match_none:
  "snd (base_select_from_list pick is s) = None \<longleftrightarrow> (\<forall>i\<in>set is. routable_endpoints i = [])"
proof (induction "is" arbitrary: s)
  case (Cons i rest)
  obtain s' r where p: "pick i s = (s', r)" by fastforce
  with pick_none_iff [of i s] have "r = None \<longleftrightarrow> routable_endpoints i = []" by simp
  with p Cons.IH [of s'] show ?case by (cases r) simp_all
qed simp

lemma first_match:
  assumes "base_select_from_list pick is s = (s', Some (i, e))"
  shows "\<exists>pre post. is = pre @ i # post \<and> (\<forall>j\<in>set pre. routable_endpoints j = []) \<and>
    e \<in> set (routable_endpoints i)"
  using assms
proof (induction "is" arbitrary: s)
  case (Cons j rest)
  obtain s1 r where p: "pick j s = (s1, r)" by fastforce
  show ?case
  proof (cases r)
    case None
    with p Cons.prems have "base_select_from_list pick rest s1 = (s', Some (i, e))" by simp
    from Cons.IH [OF this] obtain pre post where
      "rest = pre @ i # post" "\<forall>k\<in>set pre. routable_endpoints k = []" "e \<in> set (routable_endpoints i)"
      by blast
    moreover have "routable_endpoints j = []" using pick_none_iff [of j s] p None by simp
    ultimately have "j # rest = (j # pre) @ i # post \<and> (\<forall>k\<in>set (j # pre). routable_endpoints k = []) \<and>
        e \<in> set (routable_endpoints i)" by simp
    then show ?thesis by blast
  next
    case (Some e')
    with p Cons.prems have "i = j" "e' = e" "s1 = s'" by simp_all
    with pick_sound [of j s s1 e'] p Some have "j # rest = [] @ i # rest \<and> e \<in> set (routable_endpoints i)" by simp
    then show ?thesis by (metis empty_iff empty_set)
  qed
qed simp

end

interpretation lb_selector: endpoint_selector "\<lambda>i s. (s, lb_select_endpoint_from_instance i)"
proof
  fix i :: instance_obj and s s' :: 's and e :: endpoint
  assume a: "(s, lb_select_endpoint_from_instance i) = (s', Some e)"
  then have "routable_endpoints i \<noteq> []" using lb_endpoint_none [of i] by auto
  with lb_endpoint_minimal [of i] a show "e \<in> set (routable_endpoints i)" by auto
qed (use lb_endpoint_minimal in auto)

lemma rr_endpoint_step:
  assumes "routable_endpoints i \<noteq> []" and "\<not> (case blk of None \<Rightarrow> False | Some b \<Rightarrow> b (ins_id i))"
  shows "rr_select_endpoint_from_instance i counters blk =
    (let n = int (length (routable_endpoints i)); c = (case dget counters (ins_id i) of None \<Rightarrow> 0 | Some c \<Rightarrow> c)
     in (dset (ins_id i) ((c + 1) mod n) (if dmem (ins_id i) counters then counters else dset (ins_id i) 0 counters),
         Some (routable_endpoints i ! nat (c mod n))))"
  using assms by (cases blk; cases "dget counters (ins_id i)")
    (simp_all add: rr_select_endpoint_from_instance_def Let_def dmem_def)

lemma rr_endpoint_none:
  "routable_endpoints i = [] \<or> (case blk of None \<Rightarrow> False | Some b \<Rightarrow> b (ins_id i)) \<Longrightarrow>
   rr_select_endpoint_from_instance i counters blk = (counters, None)"
  by (cases blk) (auto simp: rr_select_endpoint_from_instance_def)

lemma nth_mod_mem: "xs \<noteq> [] \<Longrightarrow> xs ! nat (c mod int (length xs)) \<in> set xs"
  by (rule nth_mem) (simp add: nat_less_iff)

interpretation rr_selector: endpoint_selector "\<lambda>i counters. rr_select_endpoint_from_instance i counters None"
proof
  fix i s s' e
  assume a: "rr_select_endpoint_from_instance i s None = (s', Some e)"
  then have ne: "routable_endpoints i \<noteq> []" using rr_endpoint_none [of i None s] by auto
  with a show "e \<in> set (routable_endpoints i)"
    using rr_endpoint_step [of i None s] nth_mod_mem [OF ne] by (auto simp: Let_def)
next
  fix i and s :: "(int, int) dict"
  assume "routable_endpoints i \<noteq> []"
  then show "\<exists>s' e. rr_select_endpoint_from_instance i s None = (s', Some e)"
    using rr_endpoint_step [of i None s] by (auto simp: Let_def)
next
  fix i s s'
  assume a: "rr_select_endpoint_from_instance i s None = (s', None)"
  then have "routable_endpoints i = []"
    using rr_endpoint_step [of i None s] by (auto simp: Let_def)
  then show "s' = s" using a rr_endpoint_none [of i None s] by simp
qed

section \<open>Rotation\<close>

fun run_steps :: "('s \<Rightarrow> 's \<times> 'r) \<Rightarrow> nat \<Rightarrow> 's \<Rightarrow> 's \<times> 'r list" where
  "run_steps f 0 s = (s, [])"
| "run_steps f (Suc n) s = (case f s of (s1, r) \<Rightarrow> (case run_steps f n s1 of (s2, rs) \<Rightarrow> (s2, r # rs)))"

text \<open>
  A selection that serves the position of its counter and advances the counter by one, both modulo
  the number of items. Over any window of as many steps as there are items, it serves each once.
\<close>

locale rotation =
  fixes items :: "'a list" and step :: "'s \<Rightarrow> 's \<times> 'a option" and counter :: "'s \<Rightarrow> int"
  assumes serves: "items \<noteq> [] \<Longrightarrow> snd (step s) = Some (items ! nat (counter s mod int (length items)))"
    and advances: "items \<noteq> [] \<Longrightarrow> counter (fst (step s)) = (counter s + 1) mod int (length items)"
begin

lemma run_nth:
  assumes "items \<noteq> []"
  shows "snd (run_steps step n s) =
    map (\<lambda>j. Some (items ! nat ((counter s + int j) mod int (length items)))) [0..<n]"
proof (induction n arbitrary: s)
  case (Suc n)
  obtain s1 r where st: "step s = (s1, r)" by fastforce
  from serves [OF assms, of s] st have r: "r = Some (items ! nat (counter s mod int (length items)))" by simp
  from advances [OF assms, of s] st have c: "counter s1 = (counter s + 1) mod int (length items)" by simp
  have "snd (run_steps step (Suc n) s) = r # snd (run_steps step n s1)"
    using st by (simp add: split_def)
  also have "snd (run_steps step n s1) =
      map (\<lambda>j. Some (items ! nat ((counter s + int (Suc j)) mod int (length items)))) [0..<n]"
    unfolding Suc.IH c by (simp add: mod_add_right_eq ac_simps)
  finally show ?case by (simp add: r upt_conv_Cons map_Suc_upt [symmetric] del: upt_Suc)
qed simp

lemma run_round:
  assumes "items \<noteq> []"
  shows "snd (run_steps step (length items) s) = map Some (rotated (counter s) items)"
  using run_nth [OF assms] by (simp add: rotated_def)

lemma run_round_mset:
  assumes "items \<noteq> []"
  shows "mset (snd (run_steps step (length items) s)) = mset (map Some items)"
  using run_round [OF assms] by simp

end

definition counter_at :: "('k, int) dict \<Rightarrow> 'k \<Rightarrow> int" where
  "counter_at d k = (case dget d k of None \<Rightarrow> 0 | Some c \<Rightarrow> c)"

interpretation rr_instances: rotation active "rr_select_instance role active"
  "\<lambda>p. counter_at (instance_rr_counters p) role"
proof
  fix p
  assume "active \<noteq> []"
  then show "snd (rr_select_instance role active p) =
      Some (active ! nat (counter_at (instance_rr_counters p) role mod int (length active)))"
    by (cases "dget (instance_rr_counters p) role")
      (simp_all add: rr_select_instance_def rr_select_instance_from_list_def counter_at_def Let_def dmem_def)
  show "counter_at (instance_rr_counters (fst (rr_select_instance role active p))) role =
      (counter_at (instance_rr_counters p) role + 1) mod int (length active)"
    using \<open>active \<noteq> []\<close> by (cases "dget (instance_rr_counters p) role")
      (simp_all add: rr_select_instance_def rr_select_instance_from_list_def counter_at_def Let_def dmem_def)
qed

interpretation rr_endpoints: rotation "routable_endpoints i"
  "\<lambda>counters. rr_select_endpoint_from_instance i counters None" "\<lambda>counters. counter_at counters (ins_id i)"
  by unfold_locales
    (simp_all add: rr_endpoint_step Let_def counter_at_def)

text \<open>Selecting for one role leaves the counters of the other roles alone.\<close>

lemma rr_select_instance_other:
  "role' \<noteq> role \<Longrightarrow>
   counter_at (instance_rr_counters (fst (rr_select_instance role active p))) role' =
   counter_at (instance_rr_counters p) role'"
  by (simp add: rr_select_instance_def rr_select_instance_from_list_def counter_at_def Let_def)

section \<open>Pinned selection\<close>

lemma pinned_none_iff:
  "snd (select_endpoint_for_instance i st counters blk) = None \<longleftrightarrow>
   routable_endpoints i = [] \<or> (case blk of None \<Rightarrow> False | Some b \<Rightarrow> b (ins_id i))"
proof (cases "routable_endpoints i = [] \<or> (case blk of None \<Rightarrow> False | Some b \<Rightarrow> b (ins_id i))")
  case True
  then show ?thesis
    by (auto simp: select_endpoint_for_instance_def Let_def rr_endpoint_none lb_endpoint_none)
next
  case False
  then obtain e where "lb_select_endpoint_from_instance i = Some e" using lb_endpoint_minimal by blast
  with False show ?thesis
    by (auto simp: select_endpoint_for_instance_def Let_def rr_endpoint_step)
qed

lemma pinned_sound:
  assumes "select_endpoint_for_instance i st counters blk = (counters', Some e)"
  shows "e \<in> set (routable_endpoints i)"
proof -
  let ?blocked = "case blk of None \<Rightarrow> False | Some b \<Rightarrow> b (ins_id i)"
  from assms pinned_none_iff [of i st counters blk]
  have ne: "routable_endpoints i \<noteq> []" and nb: "\<not> ?blocked" by auto
  obtain m where m: "lb_select_endpoint_from_instance i = Some m" "m \<in> set (routable_endpoints i)"
    using lb_endpoint_minimal [OF ne] by blast
  with assms nb show ?thesis
    using nth_mod_mem [OF ne] by (auto simp: select_endpoint_for_instance_def Let_def rr_endpoint_step [OF ne nb] split: if_splits)
qed

lemma pinned_load_aware_minimal:
  assumes "select_endpoint_for_instance i st counters blk = (counters', Some e)"
    and "st \<in> {''load_balance'', ''kv_cache_affinity''}" and "e' \<in> set (routable_endpoints i)"
  shows "active_tokens (ep_workload e) \<le> active_tokens (ep_workload e')"
proof -
  have ne: "routable_endpoints i \<noteq> []" using assms(3) by auto
  then obtain m where "lb_select_endpoint_from_instance i = Some m"
    "\<forall>e'\<in>set (routable_endpoints i). active_tokens (ep_workload m) \<le> active_tokens (ep_workload e')"
    using lb_endpoint_minimal [OF ne] by blast
  moreover have "\<not> (case blk of None \<Rightarrow> False | Some b \<Rightarrow> b (ins_id i))"
    using assms(1) pinned_none_iff [of i st counters blk] by auto
  ultimately show ?thesis
    using assms by (auto simp: select_endpoint_for_instance_def Let_def)
qed

section \<open>Properties\<close>

definition demo_loaded :: "int \<Rightarrow> rat \<Rightarrow> instance_obj" where
  "demo_loaded n w = write_endpoint (''a'', 0) ((demo_endpoint 0 ''a'' EP_NORMAL False)\<lparr>ep_workload := \<lparr>active_tokens = w\<rparr>\<rparr>)
     ((demo_instance n ''p'' ''prefill'')\<lparr>gathered_workload := \<lparr>active_tokens = w\<rparr>\<rparr>)"

lemma demo_loaded_routable:
  "routable_endpoints (demo_loaded n w) =
     [(demo_endpoint 0 ''a'' EP_NORMAL False)\<lparr>ep_workload := \<lparr>active_tokens = w\<rparr>\<rparr>]"
  by (simp add: demo_loaded_def write_endpoint_def demo_defs routable_endpoints_def get_all_endpoints_def
      select_endpoints_def iter_endpoints_def endpoint_at_def map_filter_def Let_def)

lemma demo_loaded_fields [simp]: "ins_id (demo_loaded n w) = n" "ins_role (demo_loaded n w) = ''prefill''"
  "gathered_workload (demo_loaded n w) = \<lparr>active_tokens = w\<rparr>"
  by (simp_all add: demo_loaded_def write_endpoint_def demo_defs)

text \<open>
  C23: the load-balance ranking returns the best endpoints there are. It has \<open>top_k\<close> entries,
  or all the eligible endpoints when these are fewer; they are in ascending order of score; every
  entry is an eligible endpoint (a routable endpoint of a listed instance that is not blocked) and no eligible
  endpoint that was left out scores lower than one that was returned.
\<close>

theorem lb_candidates_best:
  fixes "is" :: "instance_obj list" and role :: "string option" and w :: rat and top_k start :: int
    and blk :: "(int \<Rightarrow> bool) option"
  defines "cs \<equiv> select_endpoint_candidates_from_list is role top_k w start blk"
    and "eligible \<equiv> scored_candidates role w blk is"
  shows "length cs = min (nat top_k) (length eligible) \<and> sorted (map cand_score cs) \<and> mset cs \<subseteq># mset eligible \<and>
    (\<forall>c\<in>set cs. \<forall>d\<in>#mset eligible - mset cs. cand_score c \<le> cand_score d) \<and>
    (\<forall>c\<in>set cs. cand_instance c \<in> set is \<and> cand_endpoint c \<in> set (routable_endpoints (cand_instance c)) \<and>
       \<not> (case blk of None \<Rightarrow> False | Some b \<Rightarrow> b (ins_id (cand_instance c))))"
proof -
  let ?r = "scored_candidates role w blk (rotated start is)"
  have cs: "cs = take (nat top_k) (sort_key cand_score ?r)" by (simp add: cs_def select_candidates_stable)
  have m: "mset ?r = mset eligible" unfolding eligible_def by (rule mset_scored_candidates_cong) simp
  then have len: "length ?r = length eligible" by (rule mset_eq_length)
  have sub: "mset cs \<subseteq># mset eligible"
    unfolding cs m [symmetric] by (metis mset_sort subset_mset.le_add_same_cancel1 zero_le append_take_drop_id mset_append mset_subset_eq_add_left)
  have rest: "mset eligible - mset cs = mset (drop (nat top_k) (sort_key cand_score ?r))"
    by (simp add: cs nsmallest_rest flip: m)
  have "\<forall>c\<in>set cs. \<forall>d\<in>#mset eligible - mset cs. cand_score c \<le> cand_score d"
    unfolding rest unfolding cs by (auto intro: nsmallest_bound)
  moreover have "sorted (map cand_score cs)" by (simp add: cs take_map sorted_wrt_take flip: take_map)
  moreover have "\<forall>c\<in>set cs. c \<in> set ?r" unfolding cs by (metis in_set_takeD set_sort)
  ultimately show ?thesis using sub len by (auto simp: scored_candidate_iff cs)
qed

theorem lb_candidates_best_witness:
  "\<exists>c. select_endpoint_candidates_from_list [demo_loaded 1 5, demo_loaded 2 3] None 1 0 0 (Some (\<lambda>n. n = 1)) = [c] \<and>
     cand_instance c = demo_loaded 2 3"
proof -
  let ?cs = "select_endpoint_candidates_from_list [demo_loaded 1 5, demo_loaded 2 3] None 1 0 0 (Some (\<lambda>n. n = 1))"
  have "length (scored_candidates None 0 (Some (\<lambda>n. n = 1)) [demo_loaded 1 5, demo_loaded 2 3]) = 1"
    by (simp add: scored_candidates_def score_instance_def map_filter_def demo_loaded_routable
        calculate_endpoint_score_def calculate_workload_score_def)
  with lb_candidates_best [of "[demo_loaded 1 5, demo_loaded 2 3]" None 1 0 0 "Some (\<lambda>n. n = 1)"]
  have "length ?cs = 1" "\<forall>c\<in>set ?cs. cand_instance c = demo_loaded 2 3" by auto
  then show ?thesis by (auto simp: length_Suc_conv)
qed

text \<open>
  The traversal offset only breaks ties. Whatever \<open>start_index\<close> a worker rotates by, the
  scores of the ranking are the same list, so the rotation never trades load for position.
\<close>

theorem start_index_only_breaks_ties:
  "map cand_score (select_endpoint_candidates_from_list is role top_k w start blk) =
   map cand_score (select_endpoint_candidates_from_list is role top_k w start' blk)"
proof -
  have "mset (scored_candidates role w blk (rotated start is)) = mset (scored_candidates role w blk (rotated start' is))"
    by (rule mset_scored_candidates_cong) simp
  then have "map cand_score (sort_key cand_score (scored_candidates role w blk (rotated start is))) =
    map cand_score (sort_key cand_score (scored_candidates role w blk (rotated start' is)))"
    by (rule sort_key_map_cong)
  then show ?thesis by (simp only: select_candidates_stable take_map [symmetric])
qed

text \<open>
  Round robin is fair. Whatever the counters are, as many selections for a role as there are
  active instances serve every instance exactly once and do not move the counter of another role; and as
  many endpoint selections on an instance as it has routable endpoints serve every endpoint once.
\<close>

theorem rr_serves_each_once:
  assumes "active \<noteq> []" and "routable_endpoints i \<noteq> []"
  shows "mset (snd (run_steps (rr_select_instance role active) (length active) p)) = mset (map Some active) \<and>
    mset (snd (run_steps (\<lambda>c. rr_select_endpoint_from_instance i c None) (length (routable_endpoints i)) counters)) =
      mset (map Some (routable_endpoints i)) \<and>
    (role' \<noteq> role \<longrightarrow>
       counter_at (instance_rr_counters (fst (rr_select_instance role active p))) role' = counter_at (instance_rr_counters p) role')"
  using rr_instances.run_round_mset [OF assms(1)] rr_endpoints.run_round_mset [OF assms(2)]
    rr_select_instance_other [of role' role active p] by auto

theorem rr_serves_each_once_witness:
  "mset (snd (run_steps (rr_select_instance (Some ROLE_P) [demo_loaded 1 0, demo_loaded 2 0]) 2 init_rr)) =
     {#Some (demo_loaded 1 0), Some (demo_loaded 2 0)#}"
  using rr_serves_each_once [of "[demo_loaded 1 0, demo_loaded 2 0]" "demo_loaded 1 0" "Some ROLE_P" init_rr]
  by (simp add: demo_loaded_routable numeral_2_eq_2 del: run_steps.simps)

text \<open>
  Selecting an endpoint on a pinned instance fails only when there is nothing to select: the
  instance has no routable endpoint or its circuit blocks it. Otherwise the answer is a routable
  endpoint of the instance and, under the load-aware policies, one with the least load.
\<close>

theorem pinned_selection:
  "(snd (select_endpoint_for_instance i st counters blk) = None \<longleftrightarrow>
      routable_endpoints i = [] \<or> (case blk of None \<Rightarrow> False | Some b \<Rightarrow> b (ins_id i))) \<and>
   (snd (select_endpoint_for_instance i st counters blk) = Some e \<longrightarrow>
      e \<in> set (routable_endpoints i) \<and>
      (st \<in> {''load_balance'', ''kv_cache_affinity''} \<longrightarrow>
        (\<forall>e'\<in>set (routable_endpoints i). active_tokens (ep_workload e) \<le> active_tokens (ep_workload e'))))"
proof (intro conjI impI ballI)
  show "snd (select_endpoint_for_instance i st counters blk) = None \<longleftrightarrow>
      routable_endpoints i = [] \<or> (case blk of None \<Rightarrow> False | Some b \<Rightarrow> b (ins_id i))"
    by (rule pinned_none_iff)
next
  assume "snd (select_endpoint_for_instance i st counters blk) = Some e"
  then have r: "select_endpoint_for_instance i st counters blk =
      (fst (select_endpoint_for_instance i st counters blk), Some e)" by (metis prod.collapse)
  show "e \<in> set (routable_endpoints i)" by (rule pinned_sound [OF r])
  show "active_tokens (ep_workload e) \<le> active_tokens (ep_workload e')"
    if "st \<in> {''load_balance'', ''kv_cache_affinity''}" and "e' \<in> set (routable_endpoints i)" for e'
    by (rule pinned_load_aware_minimal [OF r that])
qed

theorem pinned_selection_witness:
  "\<exists>e. snd (select_endpoint_for_instance (demo_loaded 1 5) ''load_balance'' [] (Some (\<lambda>n. n = 2))) = Some e \<and>
     e \<in> set (routable_endpoints (demo_loaded 1 5))"
proof -
  let ?r = "snd (select_endpoint_for_instance (demo_loaded 1 5) ''load_balance'' [] (Some (\<lambda>n. n = 2)))"
  have "?r \<noteq> None"
    using pinned_selection [of "demo_loaded 1 5" "''load_balance''" "[]" "Some (\<lambda>n. n = 2)"]
    by (simp add: demo_loaded_routable)
  then show ?thesis
    using pinned_selection [of "demo_loaded 1 5" "''load_balance''" "[]" "Some (\<lambda>n. n = 2)"] by blast
qed

end
