(* ===== verification/Request_Fields.thy ===== *)
theory Request_Fields
  imports Motor_Prelude
begin

text \<open>
  Fields of the requests that the scheduler process receives over ZMQ
  (\<^verbatim>\<open>motor/coordinator/scheduler/runtime/scheduler_server.py\<close>). A field is absent, a value that
  \<open>int()\<close> or \<open>float()\<close> rejects with \<open>ValueError\<close> or \<open>TypeError\<close> (one case
  here, \<open>ValueError\<close> where the code lets it escape), or the number the conversion gives.
\<close>

datatype 'a field = Missing | Malformed | Given 'a

definition parse_optional :: "'a field \<Rightarrow> 'a option" where
  "parse_optional f = (case f of Given v \<Rightarrow> Some v | _ \<Rightarrow> None)"

end
