(* ===== verification/Py_Strings.thy ===== *)
theory Py_Strings
  imports Motor_Prelude
begin

text \<open>
  The string operations of Python that the components use, on ASCII strings: \<open>strip\<close>, \<open>lower\<close>, decimal
  printing and the format \<open>:04d\<close>, and \<open>int()\<close> of a string (an optional sign and digits, surrounded by
  white space; the underscores that Python also allows are not accepted here). Printing is injective and
  \<open>int()\<close> reads back what was printed.
\<close>

section \<open>Operations\<close>

text \<open>\<open>str.strip\<close> and \<open>str.lower\<close> on ASCII.\<close>

definition is_space :: "char \<Rightarrow> bool" where
  "is_space c \<longleftrightarrow>
     c \<in> set [CHR 0x20, CHR 0x09, CHR 0x0A, CHR 0x0B, CHR 0x0C, CHR 0x0D, CHR 0x1C, CHR 0x1D, CHR 0x1E, CHR 0x1F]"

definition strip :: "string \<Rightarrow> string" where
  "strip s = rev (dropWhile is_space (rev (dropWhile is_space s)))"

definition lower_char :: "char \<Rightarrow> char" where
  "lower_char c = (if 65 \<le> (of_char c :: nat) \<and> (of_char c :: nat) \<le> 90 then char_of (of_char c + 32 :: nat) else c)"

definition lower :: "string \<Rightarrow> string" where
  "lower s = map lower_char s"

text \<open>Decimal printing, and the format \<open>:04d\<close>.\<close>

fun dec :: "nat \<Rightarrow> string" where
  "dec n = (if n < 10 then [char_of (48 + n)] else dec (n div 10) @ [char_of (48 + n mod 10)])"

declare dec.simps [simp del]

definition dec_int :: "int \<Rightarrow> string" where
  "dec_int n = (if n < 0 then CHR ''-'' # dec (nat (- n)) else dec (nat n))"

definition dec04 :: "nat \<Rightarrow> string" where
  "dec04 n = (let s = dec n in replicate (4 - length s) (CHR ''0'') @ s)"

definition is_digit :: "char \<Rightarrow> bool" where
  "is_digit c \<longleftrightarrow> 48 \<le> (of_char c :: nat) \<and> (of_char c :: nat) \<le> 57"

definition undec :: "string \<Rightarrow> nat" where
  "undec s = fold (\<lambda>c n. n * 10 + (of_char c - 48)) s 0"

definition parse_int :: "string \<Rightarrow> int option" where
  "parse_int v =
     (let s = strip v;
          (neg, ds) = (case s of c # cs \<Rightarrow> if c = CHR ''-'' then (True, cs) else if c = CHR ''+'' then (False, cs) else (False, s)
                       | [] \<Rightarrow> (False, []))
      in if ds = [] \<or> \<not> list_all is_digit ds then None
         else Some (if neg then - int (undec ds) else int (undec ds)))"

section \<open>Reading back what was printed\<close>

lemma undec_snoc [simp]: "undec (s @ [c]) = undec s * 10 + (of_char c - 48)"
  by (simp add: undec_def)

lemma undec_dec [simp]: "undec (dec n) = n"
proof (induction n rule: dec.induct)
  case (1 n)
  show ?case
  proof (cases "n < 10")
    case True
    then have "of_char (char_of (48 + n) :: char) = 48 + n" by simp
    then show ?thesis using True by (subst dec.simps) (simp add: undec_def)
  next
    case False
    have "of_char (char_of (48 + n mod 10) :: char) = 48 + n mod 10" by simp
    then show ?thesis using False 1 by (subst dec.simps) simp
  qed
qed

lemma undec_zeros [simp]: "undec (replicate k (CHR ''0'') @ s) = undec s"
  by (induction k) (simp_all add: undec_def)

lemma undec_dec04 [simp]: "undec (dec04 n) = n"
  by (simp add: dec04_def Let_def)

lemma dec_digits: "list_all is_digit (dec n) \<and> dec n \<noteq> []"
proof (induction n rule: dec.induct)
  case (1 n)
  have d: "is_digit (char_of (48 + k))" if "k < 10" for k :: nat
    using that by (simp add: is_digit_def)
  show ?case
  proof (cases "n < 10")
    case True
    then show ?thesis using d by (subst (1 2) dec.simps) simp
  next
    case False
    then show ?thesis using 1 d [of "n mod 10"] by (subst (1 2) dec.simps) simp
  qed
qed

lemma digit_not_space: "is_digit c \<Longrightarrow> \<not> is_space c \<and> c \<noteq> CHR ''-'' \<and> c \<noteq> CHR ''+''"
  by (auto simp: is_digit_def is_space_def)

lemma strip_digits: "list_all is_digit s \<Longrightarrow> strip s = s"
proof -
  assume "list_all is_digit s"
  then have "\<forall>c\<in>set s. \<not> is_space c" using digit_not_space by (simp add: list_all_iff)
  then have "dropWhile is_space s = s" "dropWhile is_space (rev s) = rev s" by (auto simp: dropWhile_eq_self_iff hd_rev)
  then show ?thesis by (simp add: strip_def)
qed

lemma parse_int_dec [simp]: "parse_int (dec n) = Some (int n)"
proof -
  obtain c cs where c: "dec n = c # cs" using dec_digits [of n] by (cases "dec n") auto
  have "is_digit c" "list_all is_digit (c # cs)" using dec_digits [of n] c by simp_all
  then show ?thesis
    using undec_dec [of n] digit_not_space [of c] strip_digits [of "c # cs"] by (simp add: parse_int_def c Let_def)
qed

end
