(* ===== verification/Allocation.thy ===== *)
theory Allocation
  imports Shm_Publication Circuit_Breaker Scheduling_Properties Request_Fields Py_Strings
begin

text \<open>
  The scheduler process: the request handlers of \<open>_SchedulerRequestDispatcher\<close>
  (\<^verbatim>\<open>motor/coordinator/scheduler/runtime/scheduler_server.py\<close>) that allocate and release load, with
  \<open>Scheduler.update_workload_sync\<close> (\<^verbatim>\<open>scheduler/scheduler.py\<close>) and the ledger of the policies
  (\<^verbatim>\<open>policy/base.py\<close>) between them and the instance manager.

  The fields of a request are those of \<open>Request_Fields\<close>. The candidate list of a request may be something
  else than a list, and its items something else than dictionaries. Strings are ASCII.
\<close>

section \<open>Requests\<close>

record raw_candidate =
  rc_instance_id :: "int field"
  rc_endpoint_id :: "int field"
  rc_prefill_cost :: "rat field"
  rc_matched_tokens :: "rat field"

type_synonym raw_candidates = "raw_candidate option list option"

record alloc_request =
  aq_instance_id :: "int field"
  aq_endpoint_id :: "int field"
  aq_workload :: "workload field"
  aq_workload_active_tokens :: "rat field"
  aq_role :: "string option"
  aq_workload_sequence :: "int field"
  aq_role_workload_sequence :: "int field"
  aq_instance_version :: "int field"
  aq_candidate_policy :: "string option"
  aq_load_weight :: "rat field"
  aq_prefill_load_scale :: "rat field"
  aq_isl :: "rat field"
  aq_required_engine_type :: "string option"
  aq_candidates :: raw_candidates

record update_request =
  uq_instance_id :: "int field"
  uq_endpoint_id :: "int field"
  uq_role :: "string option"
  uq_operation_id :: "string option"
  uq_workload_action :: string
  uq_workload_change :: "workload field"

definition required_engine :: "string option \<Rightarrow> string option" where
  "required_engine v =
     (case v of None \<Rightarrow> None | Some e \<Rightarrow> (let n = lower (strip e) in if n = [] then None else Some n))"

section \<open>Parsing of the candidates\<close>

definition raw_items :: "raw_candidates \<Rightarrow> raw_candidate list" where
  "raw_items raw = (case raw of None \<Rightarrow> [] | Some items \<Rightarrow> List.map_filter id items)"

definition extract_affinity_candidates :: "raw_candidates \<Rightarrow> (int \<times> int \<times> rat) list" where
  "extract_affinity_candidates raw =
     List.map_filter (\<lambda>c. case (rc_instance_id c, rc_endpoint_id c, rc_prefill_cost c) of
                        (Given i, Given e, Given cost) \<Rightarrow> Some (i, e, cost) | _ \<Rightarrow> None) (raw_items raw)"

definition extract_candidate_matched_tokens :: "raw_candidates \<Rightarrow> (int \<times> int, rat) dict" where
  "extract_candidate_matched_tokens raw =
     fold (\<lambda>c d. case (rc_instance_id c, rc_endpoint_id c, rc_matched_tokens c) of
                   (Given i, Given e, Given m) \<Rightarrow> dset (i, e) m d | _ \<Rightarrow> d) (raw_items raw) []"

definition extract_allocate_candidate :: "int field \<Rightarrow> int field \<Rightarrow> (int \<times> int) option" where
  "extract_allocate_candidate iid eid = (case (iid, eid) of (Given i, Given e) \<Rightarrow> Some (i, e) | _ \<Rightarrow> None)"

definition extract_allocate_candidates :: "raw_candidates \<Rightarrow> (int \<times> int) list" where
  "extract_allocate_candidates raw =
     List.map_filter (\<lambda>c. extract_allocate_candidate (rc_instance_id c) (rc_endpoint_id c)) (raw_items raw)"

section \<open>The scheduler process\<close>

record sched_server =
  sv_pools :: pools
  sv_cb :: cb_server
  sv_writer :: "shm_writer option"
  committed_operations :: "string list"
  endpoint_instance_score_weight :: rat
  is_load_balance_scheduler :: bool
  tracks_workload :: bool

definition init_server :: "pools \<Rightarrow> bool \<Rightarrow> shm_writer option \<Rightarrow> rat \<Rightarrow> string \<Rightarrow> sched_server" where
  "init_server s pub w weight scheduler_type =
     \<lparr>sv_pools = s, sv_cb = init_cb_server pub, sv_writer = w, committed_operations = [],
      endpoint_instance_score_weight = max 0 weight, is_load_balance_scheduler = (scheduler_type = ''load_balance''),
      tracks_workload = (scheduler_type \<in> {''load_balance'', ''kv_cache_affinity''})\<rparr>"

definition MAX_COMMITTED_UPDATE_WORKLOAD_OPERATIONS :: nat where
  "MAX_COMMITTED_UPDATE_WORKLOAD_OPERATIONS = 100000"

text \<open>The candidate policies of \<^verbatim>\<open>zmq_protocol.py\<close>.\<close>

definition CANDIDATE_POLICY_LOAD_BALANCE :: string where "CANDIDATE_POLICY_LOAD_BALANCE = ''load_balance''"
definition CANDIDATE_POLICY_ROUND_ROBIN :: string where "CANDIDATE_POLICY_ROUND_ROBIN = ''round_robin''"
definition CANDIDATE_POLICY_KV_CACHE_AFFINITY :: string where "CANDIDATE_POLICY_KV_CACHE_AFFINITY = ''kv_cache_affinity''"
definition KNOWN_CANDIDATE_POLICIES :: "string list" where
  "KNOWN_CANDIDATE_POLICIES = [CANDIDATE_POLICY_LOAD_BALANCE, CANDIDATE_POLICY_ROUND_ROBIN, CANDIDATE_POLICY_KV_CACHE_AFFINITY]"

section \<open>Selection\<close>

definition is_instance_circuit_open :: "sched_server \<Rightarrow> int \<Rightarrow> bool" where
  "is_instance_circuit_open sv iid = cb_is_open iid (breakers (sv_cb sv))"

definition matches_engine_type :: "instance_obj \<Rightarrow> string option \<Rightarrow> bool" where
  "matches_engine_type i required =
     (case required of
        None \<Rightarrow> True
      | Some e \<Rightarrow> e = [] \<or> lower (strip (case engine_type i of None \<Rightarrow> ''None'' | Some t \<Rightarrow> t)) = e)"

fun first_found :: "('a \<Rightarrow> 'b option) \<Rightarrow> 'a list \<Rightarrow> 'b option" where
  "first_found f [] = None"
| "first_found f (x # xs) = (case f x of None \<Rightarrow> first_found f xs | Some y \<Rightarrow> Some y)"

definition find_available_instance_endpoint :: "int \<Rightarrow> int \<Rightarrow> pools \<Rightarrow> (instance_obj \<times> endpoint) option" where
  "find_available_instance_endpoint iid eid s =
     first_found
       (\<lambda>\<rho>. case dget (get_available_instances (Some \<rho>) s) iid of
              None \<Rightarrow> None
            | Some r \<Rightarrow> map_option (Pair (obj s r)) (find (\<lambda>e. ep_id e = eid) (endpoint_objs (obj s r))))
       [ROLE_E, ROLE_P, ROLE_D, ROLE_U]"

definition instance_role :: "instance_obj \<Rightarrow> pd_role" where
  "instance_role i = (case pd_role_of (ins_role i) of Inl _ \<Rightarrow> ROLE_U | Inr \<rho> \<Rightarrow> \<rho>)"

definition select_valid_candidate ::
  "int \<times> int \<Rightarrow> pd_role \<Rightarrow> string option \<Rightarrow> sched_server \<Rightarrow> (instance_obj \<times> endpoint \<times> rat) option" where
  "select_valid_candidate cand role required sv =
     (if is_instance_circuit_open sv (fst cand) then None
      else (case find_available_instance_endpoint (fst cand) (snd cand) (sv_pools sv) of
              None \<Rightarrow> None
            | Some (i, e) \<Rightarrow>
                if \<not> matches_engine_type i required then None
                else if instance_role i \<noteq> role then None
                else (case calculate_endpoint_score i e (Some (pd_role_value role)) (endpoint_instance_score_weight sv) of
                        Inl _ \<Rightarrow> None
                      | Inr score \<Rightarrow> Some (i, e, score))))"

text \<open>
  The two loops below check each candidate with the statements of \<open>_select_valid_candidate\<close> and skip
  it where that function returns \<open>None\<close>.
\<close>

definition affinity_step ::
  "pd_role \<Rightarrow> rat \<Rightarrow> rat \<Rightarrow> string option \<Rightarrow> sched_server \<Rightarrow> int \<times> int \<times> rat \<Rightarrow>
   (instance_obj \<times> endpoint \<times> rat \<times> rat) option \<Rightarrow> (instance_obj \<times> endpoint \<times> rat \<times> rat) option" where
  "affinity_step role pscale lweight required sv c best =
     (case c of
        (iid, eid, cost) \<Rightarrow>
          (case select_valid_candidate (iid, eid) role required sv of
             None \<Rightarrow> best
           | Some (i, e, load) \<Rightarrow>
               (let combined = pscale * cost + lweight * load
                in case best of
                     None \<Rightarrow> Some (i, e, combined, cost)
                   | Some (_, _, c0, p0) \<Rightarrow>
                       if combined < c0 \<or> combined = c0 \<and> cost < p0 then Some (i, e, combined, cost) else best)))"

definition select_affinity_global ::
  "(int \<times> int \<times> rat) list \<Rightarrow> pd_role \<Rightarrow> rat option \<Rightarrow> rat option \<Rightarrow> string option \<Rightarrow> sched_server \<Rightarrow>
   (instance_obj \<times> endpoint \<times> rat) option" where
  "select_affinity_global cands role prefill_load_scale load_weight required sv =
     (let pscale = (case prefill_load_scale of Some v \<Rightarrow> v | None \<Rightarrow> 1);
          lweight = (case load_weight of Some v \<Rightarrow> v | None \<Rightarrow> 1)
      in map_option (\<lambda>(i, e, combined, _). (i, e, combined))
           (fold (affinity_step role pscale lweight required sv) cands None))"

definition lowest_step ::
  "pd_role \<Rightarrow> string option \<Rightarrow> sched_server \<Rightarrow> int \<times> int \<Rightarrow>
   (instance_obj \<times> endpoint \<times> rat) option \<Rightarrow> (instance_obj \<times> endpoint \<times> rat) option" where
  "lowest_step role required sv c best =
     (case select_valid_candidate c role required sv of
        None \<Rightarrow> best
      | Some (i, e, score) \<Rightarrow>
          (case best of
             None \<Rightarrow> Some (i, e, score)
           | Some (_, _, s0) \<Rightarrow> if score < s0 then Some (i, e, score) else best))"

definition select_lowest_load_among_candidates ::
  "(int \<times> int) list \<Rightarrow> pd_role \<Rightarrow> string option \<Rightarrow> sched_server \<Rightarrow> (instance_obj \<times> endpoint \<times> rat) option" where
  "select_lowest_load_among_candidates cands role required sv = fold (lowest_step role required sv) cands None"

definition should_scan_global_load_balance :: "string option \<Rightarrow> sched_server \<Rightarrow> bool" where
  "should_scan_global_load_balance policy sv =
     (case policy of
        None \<Rightarrow> is_load_balance_scheduler sv
      | Some p \<Rightarrow>
          if p = CANDIDATE_POLICY_LOAD_BALANCE then True
          else if p \<in> set KNOWN_CANDIDATE_POLICIES then False
          else is_load_balance_scheduler sv)"

definition select_global_load_balance_candidate ::
  "pd_role \<Rightarrow> string option \<Rightarrow> sched_server \<Rightarrow> (instance_obj \<times> endpoint \<times> rat) option" where
  "select_global_load_balance_candidate role required sv =
     (let instances = filter (\<lambda>i. matches_engine_type i required)
            (map (obj (sv_pools sv)) (dvalues (get_available_instances (Some role) (sv_pools sv))))
      in case select_endpoint_candidates_from_list instances (Some (pd_role_value role)) 1
                (endpoint_instance_score_weight sv) 0 (Some (is_instance_circuit_open sv)) of
           [] \<Rightarrow> None
         | c # _ \<Rightarrow> Some (cand_instance c, cand_endpoint c, cand_score c))"

definition select_authoritative_allocate_candidate ::
  "int \<times> int \<Rightarrow> (int \<times> int) list \<Rightarrow> pd_role \<Rightarrow> string option \<Rightarrow> (int \<times> int \<times> rat) list \<Rightarrow> rat option \<Rightarrow> rat option \<Rightarrow>
   string option \<Rightarrow> sched_server \<Rightarrow> (instance_obj \<times> endpoint \<times> rat) option" where
  "select_authoritative_allocate_candidate cand cands role policy affinity pscale lweight required sv =
     (case (if should_scan_global_load_balance policy sv then select_global_load_balance_candidate role required sv else None) of
        Some sel \<Rightarrow> Some sel
      | None \<Rightarrow>
          (case (if policy = Some CANDIDATE_POLICY_KV_CACHE_AFFINITY then
                   (if affinity \<noteq> [] then select_affinity_global affinity role pscale lweight required sv
                    else if 1 < length cands then select_lowest_load_among_candidates cands role required sv
                    else None)
                 else None) of
             Some sel \<Rightarrow> Some sel
           | None \<Rightarrow> select_valid_candidate cand role required sv))"

definition can_use_worker_top1_fast_path ::
  "int option \<Rightarrow> int option \<Rightarrow> int option \<Rightarrow> pd_role \<Rightarrow> sched_server \<Rightarrow> bool" where
  "can_use_worker_top1_fast_path worker_seq worker_role_seq worker_version role sv =
     (case sv_writer sv of
        None \<Rightarrow> False
      | Some w \<Rightarrow>
          (case (role_sequence role w, worker_role_seq) of
             (Some sq, Some wq) \<Rightarrow> worker_version = Some (instance_version w) \<and> wq = sq
           | _ \<Rightarrow> worker_seq = Some (wr_sequence w) \<and> worker_version = Some (instance_version w)))"

section \<open>Committing load\<close>

definition ledger_update_workload_sync ::
  "int \<Rightarrow> int \<Rightarrow> workload \<Rightarrow> pools \<Rightarrow> pools \<times> (py_exn + (pd_role \<times> workload) option)" where
  "ledger_update_workload_sync iid eid change s = update_instance_workload_sync iid eid change s"

definition scheduler_update_workload_sync ::
  "int \<Rightarrow> int \<Rightarrow> pd_role \<Rightarrow> workload \<Rightarrow> sched_server \<Rightarrow>
   sched_server \<times> (py_exn + bool \<times> pd_role option \<times> workload option)" where
  "scheduler_update_workload_sync iid eid role change sv =
     (if tracks_workload sv then
        (case ledger_update_workload_sync iid eid change (sv_pools sv) of
           (s, Inl x) \<Rightarrow> (sv\<lparr>sv_pools := s\<rparr>, Inl x)
         | (s, Inr None) \<Rightarrow> (sv\<lparr>sv_pools := s\<rparr>, Inr (False, None, None))
         | (s, Inr (Some (\<rho>, l))) \<Rightarrow> (sv\<lparr>sv_pools := s\<rparr>, Inr (True, Some \<rho>, Some l)))
      else (sv, Inr (True, Some role, None)))"

definition write_entry_sync :: "int \<Rightarrow> int \<Rightarrow> sched_server \<Rightarrow> sched_server \<times> (py_exn + unit)" where
  "write_entry_sync iid eid sv =
     (case sv_writer sv of
        None \<Rightarrow> (sv, Inr ())
      | Some w \<Rightarrow>
          (case write_single_entry_sync iid eid (sv_pools sv) w of
             (s, Inl x) \<Rightarrow> (sv\<lparr>sv_pools := s\<rparr>, Inl x)
           | (s, Inr w1) \<Rightarrow> (sv\<lparr>sv_pools := s, sv_writer := Some w1\<rparr>, Inr ())))"

definition write_workload_entry ::
  "int \<Rightarrow> int \<Rightarrow> pd_role option \<Rightarrow> workload option \<Rightarrow> sched_server \<Rightarrow> sched_server \<times> (py_exn + unit)" where
  "write_workload_entry iid eid role wl sv =
     (case (sv_writer sv, wl) of
        (None, _) \<Rightarrow> (sv, Inr ())
      | (Some w, Some l) \<Rightarrow>
          (sv\<lparr>sv_writer := Some (write_single_entry_from_workload iid eid role (Some l) (sv_pools sv) w)\<rparr>, Inr ())
      | (Some w, None) \<Rightarrow> write_entry_sync iid eid sv)"

definition remember_committed_operation :: "string \<Rightarrow> sched_server \<Rightarrow> sched_server" where
  "remember_committed_operation op sv =
     (let ops = committed_operations sv
      in if op \<in> set ops then sv
         else (let ops1 = ops @ [op]
               in sv\<lparr>committed_operations :=
                       (if length ops1 > MAX_COMMITTED_UPDATE_WORKLOAD_OPERATIONS then tl ops1 else ops1)\<rparr>))"

section \<open>Handlers\<close>

datatype alloc_response =
    ALLOC_ERROR string
  | ALLOC_NONE
  | ALLOC_OK (alloc_instance: instance_obj) (alloc_endpoint: endpoint) rat bool workload

definition worker_demand :: "alloc_request \<Rightarrow> workload option" where
  "worker_demand q =
     (case aq_workload_active_tokens q of
        Given t \<Rightarrow> Some \<lparr>active_tokens = t\<rparr>
      | Malformed \<Rightarrow> None
      | Missing \<Rightarrow>
          (case aq_workload q of Given w \<Rightarrow> Some w | Malformed \<Rightarrow> None | Missing \<Rightarrow> Some zero_workload))"

definition request_role :: "string option \<Rightarrow> pd_role" where
  "request_role v =
     (case v of None \<Rightarrow> ROLE_U | Some r \<Rightarrow> (case pd_role_of r of Inl _ \<Rightarrow> ROLE_U | Inr \<rho> \<Rightarrow> \<rho>))"

definition select_for_request :: "alloc_request \<Rightarrow> int \<times> int \<Rightarrow> sched_server \<Rightarrow> (instance_obj \<times> endpoint \<times> rat) option \<times> bool" where
  "select_for_request q cand sv =
     (let role = request_role (aq_role q);
          required = required_engine (aq_required_engine_type q);
          extracted = extract_allocate_candidates (aq_candidates q);
          cands = (if extracted = [] then [cand] else extracted);
          fast_path = can_use_worker_top1_fast_path (parse_optional (aq_workload_sequence q))
            (parse_optional (aq_role_workload_sequence q)) (parse_optional (aq_instance_version q)) role sv;
          authoritative = select_authoritative_allocate_candidate cand cands role (aq_candidate_policy q)
            (extract_affinity_candidates (aq_candidates q)) (parse_optional (aq_prefill_load_scale q))
            (parse_optional (aq_load_weight q)) required sv
      in if fast_path then
           (case select_valid_candidate cand role required sv of
              Some sel \<Rightarrow> (Some sel, True)
            | None \<Rightarrow> (authoritative, False))
         else (authoritative, False))"

definition committed_workload :: "alloc_request \<Rightarrow> workload \<Rightarrow> instance_obj \<Rightarrow> endpoint \<Rightarrow> workload" where
  "committed_workload q demand i e =
     (let matched = (case dget (extract_candidate_matched_tokens (aq_candidates q)) (ins_id i, ep_id e) of
                       None \<Rightarrow> 0 | Some m \<Rightarrow> m)
      in case parse_optional (aq_isl q) of
           Some isl_v \<Rightarrow>
             if aq_candidate_policy q = Some CANDIDATE_POLICY_KV_CACHE_AFFINITY \<and> request_role (aq_role q) \<in> {ROLE_P, ROLE_U}
             then calculate_committed_workload (request_role (aq_role q)) isl_v matched
             else demand
         | None \<Rightarrow> demand)"

definition handle_allocate_only :: "alloc_request \<Rightarrow> sched_server \<Rightarrow> sched_server \<times> (py_exn + alloc_response)" where
  "handle_allocate_only q sv =
     (if aq_instance_id q = Missing \<or> aq_endpoint_id q = Missing
      then (sv, Inr (ALLOC_ERROR ''Missing instance_id or endpoint_id in request data''))
      else if aq_workload_active_tokens q = Missing \<and> aq_workload q = Missing \<and> parse_optional (aq_isl q) = None
      then (sv, Inr (ALLOC_ERROR ''Missing workload in request data''))
      else (case worker_demand q of
              None \<Rightarrow> (sv, Inr (ALLOC_ERROR ''Invalid workload format''))
            | Some demand \<Rightarrow>
                (case extract_allocate_candidate (aq_instance_id q) (aq_endpoint_id q) of
                   None \<Rightarrow> (sv, Inr ALLOC_NONE)
                 | Some cand \<Rightarrow>
                     (case select_for_request q cand sv of
                        (None, _) \<Rightarrow> (sv, Inr ALLOC_NONE)
                      | (Some (i, e, score), fast_path) \<Rightarrow>
                          (let wl = committed_workload q demand i e
                           in case scheduler_update_workload_sync (ins_id i) (ep_id e) (request_role (aq_role q)) wl sv of
                                (sv1, Inl x) \<Rightarrow> (sv1, Inl x)
                              | (sv1, Inr (False, _, _)) \<Rightarrow> (sv1, Inr ALLOC_NONE)
                              | (sv1, Inr (True, role1, wl1)) \<Rightarrow>
                                  (case write_workload_entry (ins_id i) (ep_id e) role1 wl1 sv1 of
                                     (sv2, Inl x) \<Rightarrow> (sv2, Inl x)
                                   | (sv2, Inr _) \<Rightarrow> (sv2, Inr (ALLOC_OK i e score fast_path wl))))))))"

datatype update_response = UPDATE_ERROR string | UPDATE_IDEMPOTENT | UPDATE_DONE bool

definition workload_action_of :: "string \<Rightarrow> py_exn + workload_action" where
  "workload_action_of v =
     (if v = ''Allocation'' then Inr ALLOCATION else if v = ''Release_Tokens'' then Inr RELEASE_TOKENS else Inl ValueError)"

definition workload_update_params :: "update_request \<Rightarrow> py_exn + int \<times> int \<times> pd_role \<times> string option" where
  "workload_update_params q =
     (case workload_action_of (uq_workload_action q) of
        Inl x \<Rightarrow> Inl x
      | Inr _ \<Rightarrow>
          (case (case uq_role q of None \<Rightarrow> Inr ROLE_U | Some r \<Rightarrow> if r = [] then Inr ROLE_U else pd_role_of r) of
             Inl x \<Rightarrow> Inl x
           | Inr role \<Rightarrow>
               (case (uq_instance_id q, uq_endpoint_id q) of
                  (Given i, Given e) \<Rightarrow>
                    Inr (i, e, role, (case uq_operation_id q of None \<Rightarrow> None | Some op \<Rightarrow> if op = [] then None else Some op))
                | _ \<Rightarrow> Inl ValueError)))"

definition is_committed :: "string option \<Rightarrow> sched_server \<Rightarrow> bool" where
  "is_committed op sv \<longleftrightarrow> (case op of None \<Rightarrow> False | Some o1 \<Rightarrow> o1 \<in> set (committed_operations sv))"

definition handle_update_workload :: "update_request \<Rightarrow> sched_server \<Rightarrow> sched_server \<times> (py_exn + update_response)" where
  "handle_update_workload q sv =
     (if uq_instance_id q = Missing \<or> uq_endpoint_id q = Missing
      then (sv, Inr (UPDATE_ERROR ''Missing instance_id or endpoint_id in request data''))
      else (case uq_workload_change q of
              Missing \<Rightarrow> (sv, Inr (UPDATE_ERROR ''Missing workload_change in request data''))
            | Malformed \<Rightarrow> (sv, Inr (UPDATE_ERROR ''Invalid workload_change format''))
            | Given change \<Rightarrow>
                (case workload_update_params q of
                   Inl x \<Rightarrow> (sv, Inl x)
                 | Inr (iid, eid, role, op) \<Rightarrow>
                     if is_committed op sv then
                       (case write_entry_sync iid eid sv of
                          (sv1, Inl x) \<Rightarrow> (sv1, Inl x)
                        | (sv1, Inr _) \<Rightarrow> (sv1, Inr UPDATE_IDEMPOTENT))
                     else
                       (case scheduler_update_workload_sync iid eid role change sv of
                          (sv1, Inl x) \<Rightarrow> (sv1, Inl x)
                        | (sv1, Inr (False, _, _)) \<Rightarrow> (sv1, Inr (UPDATE_DONE False))
                        | (sv1, Inr (True, role1, wl1)) \<Rightarrow>
                            (let sv2 = (case op of None \<Rightarrow> sv1 | Some o1 \<Rightarrow> remember_committed_operation o1 sv1)
                             in case write_workload_entry iid eid role1 wl1 sv2 of
                                  (sv3, Inl x) \<Rightarrow> (sv3, Inl x)
                                | (sv3, Inr _) \<Rightarrow> (sv3, Inr (UPDATE_DONE True)))))))"

text \<open>
  \<open>_handle_refresh_instances\<close> on the deserialised instances, given by their references. The callback that
  publishes the change cannot raise out of the handler and is left out. \<open>ord\<close> is the iteration order
  of a Python set.
\<close>

datatype refresh_response = REFRESH_ERROR string | REFRESHED nat bool

definition handle_refresh_instances ::
  "(int list \<Rightarrow> int list) \<Rightarrow> event_type option \<Rightarrow> iref list \<Rightarrow> sched_server \<Rightarrow> sched_server \<times> (py_exn + refresh_response)" where
  "handle_refresh_instances ord ev rs sv =
     (case ev of
        None \<Rightarrow> (sv, Inr (REFRESH_ERROR ''Invalid event type''))
      | Some et \<Rightarrow>
          (case refresh_instances ord et rs (sv_pools sv) of
             (s, Inl x) \<Rightarrow> (sv\<lparr>sv_pools := s\<rparr>, Inl x)
           | (s, Inr changed) \<Rightarrow>
               (sv\<lparr>sv_pools := s,
                  sv_cb := refresh_breakers et (map (\<lambda>r. ins_id (obj (sv_pools sv) r)) rs) (sv_cb sv),
                  sv_writer := (if changed then map_option (write_snapshot s) (sv_writer sv) else sv_writer sv)\<rparr>,
                Inr (REFRESHED (length rs) changed))))"

end
