(* ===== verification/Allocation_Correctness.thy ===== *)
theory Allocation_Correctness
  imports Allocation
begin

text \<open>
  Correctness of the scheduler process: what the selections return, that a committed allocation is one of a
  schedulable endpoint and adds exactly its load, that the handlers keep the ledger, the table and the window of
  operation ids consistent, and that a replayed operation is not applied twice.
\<close>

section \<open>Selections that keep the best candidate\<close>

text \<open>
  The contract of a loop that keeps the best candidate seen so far: candidates that do not evaluate are
  skipped, and a later one replaces the best only if its key is smaller.
\<close>

locale best_of =
  fixes eval :: "'c \<Rightarrow> 'a option" and key :: "'a \<Rightarrow> 'k :: linorder" and step :: "'c \<Rightarrow> 'a option \<Rightarrow> 'a option"
  assumes step_skip: "eval c = None \<Longrightarrow> step c best = best"
    and step_first: "eval c = Some a \<Longrightarrow> step c None = Some a"
    and step_better: "eval c = Some a \<Longrightarrow> step c (Some b) = (if key a < key b then Some a else Some b)"
begin

lemma fold_from:
  "\<exists>a. fold step cs (Some b) = Some a \<and> (a = b \<or> (\<exists>c\<in>set cs. eval c = Some a)) \<and> key a \<le> key b \<and>
     (\<forall>c\<in>set cs. \<forall>x. eval c = Some x \<longrightarrow> key a \<le> key x)"
proof (induction cs arbitrary: b)
  case (Cons c cs)
  show ?case
  proof (cases "eval c")
    case None
    with Cons.IH [of b] show ?thesis by (auto simp: step_skip)
  next
    case (Some x)
    with Cons.IH [of "if key x < key b then x else b"] show ?thesis
      by (fastforce simp: step_better split: if_splits)
  qed
qed simp

lemma fold_none: "fold step cs None = None \<longleftrightarrow> (\<forall>c\<in>set cs. eval c = None)"
proof (induction cs)
  case (Cons c cs)
  show ?case
  proof (cases "eval c")
    case (Some a)
    with fold_from [of cs a] show ?thesis by (auto simp: step_first)
  qed (use Cons in \<open>simp add: step_skip\<close>)
qed simp

lemma fold_best:
  assumes "fold step cs None = Some a"
  shows "(\<exists>c\<in>set cs. eval c = Some a) \<and> (\<forall>c\<in>set cs. \<forall>x. eval c = Some x \<longrightarrow> key a \<le> key x)"
  using assms
proof (induction cs)
  case (Cons c cs)
  show ?case
  proof (cases "eval c")
    case None
    with Cons show ?thesis by (simp add: step_skip)
  next
    case (Some x)
    with fold_from [of cs x] Cons.prems show ?thesis by (auto simp: step_first)
  qed
qed simp

end

interpretation lowest: best_of "\<lambda>c. select_valid_candidate c role required sv" "\<lambda>(i, e, s). s" "lowest_step role required sv"
  for role required sv
  by unfold_locales (auto simp: lowest_step_def)

definition affinity_eval ::
  "pd_role \<Rightarrow> rat \<Rightarrow> rat \<Rightarrow> string option \<Rightarrow> sched_server \<Rightarrow> int \<times> int \<times> rat \<Rightarrow> (instance_obj \<times> endpoint \<times> rat \<times> rat) option" where
  "affinity_eval role ps lw required sv = (\<lambda>(iid, eid, cost).
     map_option (\<lambda>(i, e, load). (i, e, ps * cost + lw * load, cost)) (select_valid_candidate (iid, eid) role required sv))"

interpretation affinity: best_of "affinity_eval role ps lw required sv" "\<lambda>(i, e, combined, cost). (combined, cost)"
  "affinity_step role ps lw required sv" for role ps lw required sv
  by unfold_locales (auto simp: affinity_step_def affinity_eval_def Let_def split: option.splits prod.splits)

section \<open>Schedulable endpoints\<close>

definition schedulable :: "sched_server \<Rightarrow> pd_role \<Rightarrow> string option \<Rightarrow> instance_obj \<Rightarrow> endpoint \<Rightarrow> bool" where
  "schedulable sv role required i e \<longleftrightarrow>
     \<not> cb_is_open (ins_id i) (breakers (sv_cb sv)) \<and>
     (\<exists>r. dget (available_pool (sv_pools sv)) (ins_id i) = Some r \<and> i = obj (sv_pools sv) r) \<and>
     e \<in> set (endpoint_objs i) \<and> matches_engine_type i required \<and> instance_role i = role"

lemma first_found_Some: "first_found f xs = Some y \<Longrightarrow> \<exists>x\<in>set xs. f x = Some y"
  by (induction xs) (auto split: option.splits)

lemma first_found_None: "first_found f xs = None \<longleftrightarrow> (\<forall>x\<in>set xs. f x = None)"
  by (induction xs) (auto split: option.splits)

lemma find_available_sound:
  assumes wf: "pool_wf s" and f: "find_available_instance_endpoint iid eid s = Some (i, e)"
  shows "\<exists>r. dget (available_pool s) iid = Some r \<and> i = obj s r \<and> ins_id i = iid \<and> e \<in> set (endpoint_objs i) \<and> ep_id e = eid"
proof -
  from first_found_Some [OF f [unfolded find_available_instance_endpoint_def]]
  obtain \<rho> r where r: "dget (role_pools s \<rho>) iid = Some r" "i = obj s r" and fe: "find (\<lambda>e. ep_id e = eid) (endpoint_objs i) = Some e"
    by (auto simp: get_available_instances_def split: option.splits)
  have "e \<in> set (endpoint_objs i)" "ep_id e = eid" using fe by (auto simp: find_Some_iff)
  moreover have "dget (available_pool s) iid = Some r" using wf r unfolding pool_wf_def roles_exact_def by blast
  moreover have "ins_id i = iid" using wf calculation(3) r(2) keyedD unfolding pool_wf_def pool_index_def by metis
  ultimately show ?thesis using r(2) by blast
qed

lemma find_available_complete:
  assumes wf: "pool_wf s" and r: "dget (available_pool s) iid = Some r" and e: "e \<in> set (endpoint_objs (obj s r))"
  shows "\<exists>e'. find_available_instance_endpoint iid (ep_id e) s = Some (obj s r, e') \<and> ep_id e' = ep_id e"
proof -
  have idx: "pool_index s" using wf by (simp add: pool_wf_def)
  obtain \<rho> where \<rho>: "dget (role_pools s \<rho>) iid = Some r" using pool_index_role [OF idx r] by blast
  have "find (\<lambda>x. ep_id x = ep_id e) (endpoint_objs (obj s r)) \<noteq> None" using e by (auto simp: find_None_iff)
  then have "find_available_instance_endpoint iid (ep_id e) s \<noteq> None"
    unfolding find_available_instance_endpoint_def first_found_None
    using \<rho> by (cases \<rho>) (auto simp: get_available_instances_def)
  then obtain i e' where f: "find_available_instance_endpoint iid (ep_id e) s = Some (i, e')" by auto
  with find_available_sound [OF wf f] r show ?thesis by auto
qed

lemma valid_candidate_sound:
  assumes "pool_wf (sv_pools sv)" and "select_valid_candidate cand role required sv = Some (i, e, score)"
  shows "schedulable sv role required i e" and "(ins_id i, ep_id e) = cand"
proof -
  have f: "find_available_instance_endpoint (fst cand) (snd cand) (sv_pools sv) = Some (i, e)"
    and chk: "\<not> is_instance_circuit_open sv (fst cand)" "matches_engine_type i required" "instance_role i = role"
    using assms(2) by (auto simp: select_valid_candidate_def split: if_splits option.splits sum.splits)
  from find_available_sound [OF assms(1) f] chk
  show "schedulable sv role required i e" "(ins_id i, ep_id e) = cand"
    by (auto simp: schedulable_def is_instance_circuit_open_def)
qed

lemma valid_candidate_complete:
  assumes "pool_wf (sv_pools sv)" and "schedulable sv role required i e"
  shows "\<exists>e' score. select_valid_candidate (ins_id i, ep_id e) role required sv = Some (i, e', score)"
proof -
  obtain r where r: "dget (available_pool (sv_pools sv)) (ins_id i) = Some r" "i = obj (sv_pools sv) r"
    and rest: "\<not> cb_is_open (ins_id i) (breakers (sv_cb sv))" "e \<in> set (endpoint_objs i)" "matches_engine_type i required" "instance_role i = role"
    using assms(2) by (auto simp: schedulable_def)
  obtain e' where "find_available_instance_endpoint (ins_id i) (ep_id e) (sv_pools sv) = Some (i, e')"
    using find_available_complete [OF assms(1) r(1)] rest(2) r(2) by blast
  with rest show ?thesis
    using endpoint_score_total [of i e' "Some (pd_role_value role)" "endpoint_instance_score_weight sv"]
    by (auto simp: select_valid_candidate_def is_instance_circuit_open_def)
qed

lemma routable_objs: "e \<in> set (routable_endpoints i) \<Longrightarrow> e \<in> set (endpoint_objs i)"
  by (force simp: routable_endpoints_def in_map_filter endpoint_at_def endpoint_objs_def iter_endpoints_def
      split: option.splits dest: map_of_SomeD)

text \<open>The scan of the load-balance policy: the minimum over all schedulable routable endpoints of the role.\<close>

definition role_candidates :: "pd_role \<Rightarrow> string option \<Rightarrow> sched_server \<Rightarrow> endpoint_candidate list" where
  "role_candidates role required sv =
     scored_candidates (Some (pd_role_value role)) (endpoint_instance_score_weight sv) (Some (is_instance_circuit_open sv))
       (filter (\<lambda>i. matches_engine_type i required)
          (map (obj (sv_pools sv)) (dvalues (get_available_instances (Some role) (sv_pools sv)))))"

lemma global_scan:
  "select_global_load_balance_candidate role required sv =
   (case sort_key cand_score (role_candidates role required sv) of
      [] \<Rightarrow> None | c # _ \<Rightarrow> Some (cand_instance c, cand_endpoint c, cand_score c))"
proof -
  have rot: "rotated 0 xs = xs" for xs :: "instance_obj list"
    using rotated_eq_rotate [of xs 0] by (cases "xs = []") (simp add: rotated_def, simp)
  show ?thesis
    by (simp add: select_global_load_balance_candidate_def select_candidates_stable role_candidates_def Let_def rot
        split: list.splits)
qed

lemma global_sound:
  assumes wf: "pool_wf (sv_pools sv)" and sel: "select_global_load_balance_candidate role required sv = Some (i, e, score)"
  shows "schedulable sv role required i e"
proof -
  obtain c cs where srt: "sort_key cand_score (role_candidates role required sv) = c # cs" and c: "cand_instance c = i" "cand_endpoint c = e"
    using sel by (auto simp: global_scan split: list.splits)
  have "c \<in> set (role_candidates role required sv)" using srt by (metis list.set_intros(1) set_sort)
  then obtain r where r: "r \<in> set (dvalues (role_pools (sv_pools sv) role))" "i = obj (sv_pools sv) r"
      and m: "matches_engine_type i required" "e \<in> set (routable_endpoints i)" "\<not> is_instance_circuit_open sv (ins_id i)"
    using c by (force simp: role_candidates_def scored_candidate_iff get_available_instances_def)
  from role_pool_ref [OF wf r(1)] r(2) m routable_objs show ?thesis
    by (auto simp: schedulable_def is_instance_circuit_open_def instance_role_def)
qed

lemma lowest_sound:
  assumes "pool_wf (sv_pools sv)" and "select_lowest_load_among_candidates cands role required sv = Some (i, e, score)"
  shows "schedulable sv role required i e"
  using lowest.fold_best [OF assms(2) [unfolded select_lowest_load_among_candidates_def]] valid_candidate_sound(1) [OF assms(1)]
  by blast

lemma affinity_sound:
  assumes "pool_wf (sv_pools sv)" and "select_affinity_global cands role ps lw required sv = Some (i, e, score)"
  shows "schedulable sv role required i e"
proof -
  obtain p l cost where "fold (affinity_step role p l required sv) cands None = Some (i, e, score, cost)"
    using assms(2) by (auto simp: select_affinity_global_def Let_def)
  from affinity.fold_best [OF this] valid_candidate_sound(1) [OF assms(1)] show ?thesis
    by (force simp: affinity_eval_def)
qed

lemma authoritative_sound:
  assumes wf: "pool_wf (sv_pools sv)"
    and sel: "select_authoritative_allocate_candidate cand cands role policy aff ps lw required sv = Some (i, e, score)"
  shows "schedulable sv role required i e"
  using sel global_sound [OF wf] lowest_sound [OF wf] affinity_sound [OF wf] valid_candidate_sound(1) [OF wf]
  by (auto simp: select_authoritative_allocate_candidate_def split: option.splits if_splits)

lemma select_sound:
  assumes wf: "pool_wf (sv_pools sv)" and sel: "select_for_request q cand sv = (Some (i, e, score), fast)"
  shows "schedulable sv (request_role (aq_role q)) (required_engine (aq_required_engine_type q)) i e"
    and "fast \<Longrightarrow> (ins_id i, ep_id e) = cand"
  using sel authoritative_sound [OF wf, where cand = cand] valid_candidate_sound [OF wf, where cand = cand]
  by (auto simp: select_for_request_def Let_def split: if_splits option.splits)

lemma select_complete:
  assumes wf: "pool_wf (sv_pools sv)"
    and i: "schedulable sv (request_role (aq_role q)) (required_engine (aq_required_engine_type q)) i e"
  shows "fst (select_for_request q (ins_id i, ep_id e) sv) \<noteq> None"
  using valid_candidate_complete [OF wf i]
  by (auto simp: select_for_request_def select_authoritative_allocate_candidate_def Let_def split: if_splits option.splits)

section \<open>Commits\<close>

definition ledgers_ok :: "pools \<Rightarrow> bool" where
  "ledgers_ok s \<longleftrightarrow> pool_wf s \<and> (\<forall>r. endpoint_ids_ok (obj s r) \<and> ledger_ok (obj s r))"

definition table_ok :: "sched_server \<Rightarrow> bool" where
  "table_ok sv \<longleftrightarrow> (case sv_writer sv of None \<Rightarrow> True | Some w \<Rightarrow> quiescent w \<and> table_published (sv_pools sv) w)"

definition window_ok :: "sched_server \<Rightarrow> bool" where
  "window_ok sv \<longleftrightarrow> distinct (committed_operations sv) \<and>
     length (committed_operations sv) \<le> MAX_COMMITTED_UPDATE_WORKLOAD_OPERATIONS"

definition server_ok :: "sched_server \<Rightarrow> bool" where
  "server_ok sv \<longleftrightarrow> ledgers_ok (sv_pools sv) \<and> table_ok sv \<and> window_ok sv"

lemma update_wf:
  assumes "pool_wf s"
  shows "pool_wf (fst (update_instance_workload_sync iid eid change s))"
proof -
  have idx: "pool_index s" using assms by (simp add: pool_wf_def)
  show ?thesis
    using update_workload_cases [OF idx, of iid eid change]
    by (intro pool_wf_same [OF assms update_workload_same [OF idx]]) blast
qed

lemma update_ledgers_ok: "ledgers_ok s \<Longrightarrow> ledgers_ok (fst (update_instance_workload_sync iid eid change s))"
proof -
  assume ok: "ledgers_ok s"
  then have idx: "pool_index s" and all: "\<And>r. endpoint_ids_ok (obj s r)" "\<And>r. ledger_ok (obj s r)"
    by (simp_all add: ledgers_ok_def pool_wf_def)
  from ok show ?thesis
    unfolding ledgers_ok_def using update_wf update_keeps_ids [OF idx all(1)] update_workload_ledger [OF idx all(2)] by blast
qed

lemma get_ledgers_ok:
  assumes "ledgers_ok s"
  shows "ledgers_ok (fst (get_endpoint_workload_sync iid eid s))"
proof -
  note g = get_workload_same [of s iid eid]
  have wf: "pool_wf s" using assms by (simp add: ledgers_ok_def)
  have "pool_wf (fst (get_endpoint_workload_sync iid eid s))"
    by (rule pool_wf_same [OF wf conjunct1 [OF g]]) (use g in blast)
  moreover have "heap (fst (get_endpoint_workload_sync iid eid s)) = heap s" using g by blast
  ultimately show ?thesis using assms by (simp add: ledgers_ok_def)
qed

text \<open>In a well-formed state neither the ledger nor the table raises.\<close>

lemma update_no_raise:
  assumes "pool_index s"
  shows "\<exists>res. snd (update_instance_workload_sync iid eid change s) = Inr res"
proof (cases "dget (available_pool s) iid")
  case None
  then show ?thesis by (simp add: update_instance_workload_sync_def)
next
  case (Some r)
  obtain c t where c: "ensure_endpoint_cache iid r s = (c, t)" by fastforce
  have ht: "heap t = heap s" using ensure_cache_props [OF c Some] by simp
  show ?thesis
  proof (cases "\<exists>r' loc e. dget c eid = Some (r', loc) \<and> endpoint_at (obj t r') loc = Some e")
    case True
    then obtain r' loc e where at: "dget c eid = Some (r', loc)" "endpoint_at (obj t r') loc = Some e" by blast
    have own: "r' = r" by (rule cache_owner [OF assms Some c at(1)])
    have "ins_role (apply_workload_change loc e change (obj s r)) = ins_role (obj s r)"
      using same_static_D(2) [OF same_static_apply_change] at own ht by simp
    then obtain \<rho> where "role_of_instance (apply_workload_change loc e change (obj s r)) = Inr \<rho>"
      using role_of_available [OF assms Some] by (auto simp: role_of_instance_def split: if_splits)
    then show ?thesis
      using at by (simp add: update_instance_workload_sync_def Some c Let_def commit_workload_own own ht)
  next
    case False
    then show ?thesis by (auto simp: update_instance_workload_sync_def Some c split: option.splits)
  qed
qed

lemma get_no_raise:
  assumes "pool_index s"
  shows "\<exists>res. snd (get_endpoint_workload_sync iid eid s) = Inr res"
proof (cases "dget (available_pool s) iid")
  case None
  then show ?thesis by (simp add: get_endpoint_workload_sync_def)
next
  case (Some r)
  obtain c t where c: "ensure_endpoint_cache iid r s = (c, t)" by fastforce
  have ht: "heap t = heap s" using ensure_cache_props [OF c Some] by simp
  from role_of_available [OF assms Some] show ?thesis
    by (auto simp: get_endpoint_workload_sync_def Some c ht split: option.splits)
qed

lemma write_entry_sync_ok:
  assumes ok: "ledgers_ok (sv_pools sv)" and tab: "table_ok sv"
  shows "\<exists>sv1. write_entry_sync iid eid sv = (sv1, Inr ()) \<and> ledgers_ok (sv_pools sv1) \<and> table_ok sv1 \<and>
    heap (sv_pools sv1) = heap (sv_pools sv) \<and> same_pools (sv_pools sv) (sv_pools sv1) \<and> sv_cb sv1 = sv_cb sv \<and>
    committed_operations sv1 = committed_operations sv"
proof (cases "sv_writer sv")
  case None
  then show ?thesis using ok by (simp add: write_entry_sync_def table_ok_def)
next
  case (Some w)
  let ?s = "sv_pools sv"
  have idx: "pool_index ?s" and wf: "pool_wf ?s" and ids: "\<And>r. endpoint_ids_ok (obj ?s r)"
    using ok by (simp_all add: ledgers_ok_def pool_wf_def)
  have q: "quiescent w" "table_published ?s w" using tab Some by (simp_all add: table_ok_def)
  obtain t res where g: "get_endpoint_workload_sync iid eid ?s = (t, Inr res)"
    using get_no_raise [OF idx, of iid eid] by (metis prod.collapse)
  let ?w = "case res of None \<Rightarrow> write_single_entry_from_workload iid eid None None t w
    | Some (\<rho>, l) \<Rightarrow> write_single_entry_from_workload iid eid (Some \<rho>) (Some l) t w"
  have sync: "write_single_entry_sync iid eid ?s w = (t, Inr ?w)"
    using g by (cases res) (auto simp: write_single_entry_sync_def)
  have "quiescent ?w" using single_entry_transaction [OF q(1)] by (simp split: option.split prod.split) blast
  moreover have "table_published t ?w" by (rule published_sync [OF wf ids q sync])
  moreover have "ledgers_ok t" "same_pools ?s t" "heap t = heap ?s"
    using get_ledgers_ok [OF ok, of iid eid] get_workload_same [of ?s iid eid] g by simp_all
  ultimately show ?thesis using sync Some by (simp add: write_entry_sync_def table_ok_def)
qed

text \<open>An update of an endpoint of an available instance succeeds and adds the change to exactly that endpoint.\<close>

lemma cache_complete:
  assumes "e \<in> set (endpoint_objs (obj s r))"
  shows "dget (build_endpoint_cache r s) (ep_id e) \<noteq> None"
proof -
  have "dget (fold (\<lambda>(loc, e) c. dset (ep_id e) (r, loc) c) xs d) k \<noteq> None"
    if "dget d k \<noteq> None \<or> (\<exists>p\<in>set xs. ep_id (snd p) = k)" for xs :: "(ep_loc \<times> endpoint) list" and d k
    using that
  proof (induction xs arbitrary: d)
    case (Cons p xs)
    obtain loc e where p: "p = (loc, e)" by fastforce
    have "dget (dset (ep_id e) (r, loc) d) k \<noteq> None \<or> (\<exists>p\<in>set xs. ep_id (snd p) = k)" using Cons.prems p by auto
    from Cons.IH [OF this] show ?case by (simp add: p)
  qed simp
  moreover have "\<exists>p\<in>set (iter_endpoints (obj s r)). ep_id (snd p) = ep_id e" using assms by (force simp: endpoint_objs_def)
  ultimately show ?thesis unfolding build_endpoint_cache_def by blast
qed

lemma update_applies:
  assumes ok: "ledgers_ok s" and r: "dget (available_pool s) iid = Some r" and e: "e \<in> set (endpoint_objs (obj s r))"
  shows "\<exists>s' \<rho> l. update_instance_workload_sync iid (ep_id e) change s = (s', Inr (Some (\<rho>, l))) \<and>
    all_entries s' = map (retoken (iid, ep_id e) (max 0 (tokens e + active_tokens change))) (all_entries s)"
proof -
  have wf: "pool_wf s" and idx: "pool_index s" and ids: "\<And>r. endpoint_ids_ok (obj s r)" and led: "\<And>r. ledger_ok (obj s r)"
    using ok by (simp_all add: ledgers_ok_def pool_wf_def)
  obtain c t where c: "ensure_endpoint_cache iid r s = (c, t)" by fastforce
  have ht: "heap t = heap s" using ensure_cache_props [OF c r] by simp
  have cb: "c = build_endpoint_cache r s" by (rule ensure_cache_build [OF idx r c])
  obtain r' loc where at: "dget c (ep_id e) = Some (r', loc)" using cache_complete [OF e] cb by auto
  have own: "r' = r" by (rule cache_owner [OF idx r c at])
  obtain x where x: "endpoint_at (obj s r) loc = Some x" "ep_id x = ep_id e"
    using cache_location [OF ids] at cb own by blast
  obtain s' res where u: "update_instance_workload_sync iid (ep_id e) change s = (s', Inr res)"
    using update_no_raise [OF idx, of iid "ep_id e" change] by (metis prod.collapse)
  obtain y where "endpoint_at (apply_workload_change loc x change (obj s r)) loc = Some y"
    using apply_change_endpoint [OF x(1), of change] by auto
  then have "res \<noteq> None" using u at x
    by (auto simp: update_instance_workload_sync_def r c Let_def commit_workload_own own ht split: sum.splits)
  then obtain \<rho> l where u': "update_instance_workload_sync iid (ep_id e) change s = (s', Inr (Some (\<rho>, l)))" using u by auto
  obtain loc' z where z: "endpoint_at (obj s r) loc' = Some z" "ep_id z = ep_id e" "active_tokens l = max 0 (tokens z + active_tokens change)"
    using update_success [OF wf ids r u'] by blast
  have "(loc', z) \<in> set (iter_endpoints (obj s r))" using iter_endpoint_at [OF ids] z(1) by blast
  then have "z \<in> set (endpoint_objs (obj s r))" by (force simp: endpoint_objs_def)
  moreover have "inj_on ep_id (set (endpoint_objs (obj s r)))" using ids [of r] by (simp add: endpoint_ids_ok_def distinct_map)
  ultimately have "z = e" using e z(2) by (auto dest: inj_onD)
  then show ?thesis using all_entries_update(1) [OF wf ids led u'] u' z(3) by auto
qed

lemma scheduler_update_total:
  assumes "pool_index (sv_pools sv)"
  shows "\<exists>s b \<rho> l. scheduler_update_workload_sync iid eid role change sv = (sv\<lparr>sv_pools := s\<rparr>, Inr (b, \<rho>, l))"
proof (cases "tracks_workload sv")
  case True
  obtain s res where "update_instance_workload_sync iid eid change (sv_pools sv) = (s, Inr res)"
    using update_no_raise [OF assms, of iid eid change] by (metis prod.collapse)
  with True show ?thesis
    by (cases res) (auto simp: scheduler_update_workload_sync_def ledger_update_workload_sync_def)
next
  case False
  then show ?thesis by (simp add: scheduler_update_workload_sync_def) (metis sched_server.surjective sched_server.update_convs(1))
qed

text \<open>The commit as a whole, with the operation window in any state: update, then publication.\<close>

lemma commit_ok:
  assumes ok: "ledgers_ok (sv_pools sv)" "table_ok sv"
    and u: "scheduler_update_workload_sync iid eid role change sv = (sv1, Inr (True, role1, wl1))"
  shows "\<exists>sv2. write_workload_entry iid eid role1 wl1 (sv1\<lparr>committed_operations := ops\<rparr>) = (sv2, Inr ()) \<and>
    ledgers_ok (sv_pools sv2) \<and> table_ok sv2 \<and> committed_operations sv2 = ops \<and> sv_cb sv2 = sv_cb sv \<and>
    heap (sv_pools sv2) = heap (sv_pools sv1) \<and> same_pools (sv_pools sv1) (sv_pools sv2)"
proof (cases "tracks_workload sv")
  case True
  then obtain s \<rho> l where up: "update_instance_workload_sync iid eid change (sv_pools sv) = (s, Inr (Some (\<rho>, l)))"
      and eq: "sv1 = sv\<lparr>sv_pools := s\<rparr>" "role1 = Some \<rho>" "wl1 = Some l"
    using u by (auto simp: scheduler_update_workload_sync_def ledger_update_workload_sync_def split: prod.splits sum.splits option.splits)
  have led: "ledgers_ok s" using update_ledgers_ok [OF ok(1), of iid eid change] up by simp
  show ?thesis
  proof (cases "sv_writer sv")
    case None
    then show ?thesis using led by (simp add: write_workload_entry_def eq table_ok_def)
  next
    case (Some w)
    have q: "quiescent w" "table_published (sv_pools sv) w" using ok(2) Some by (simp_all add: table_ok_def)
    have "table_published s (write_single_entry_from_workload iid eid (Some \<rho>) (Some l) s w)"
      using ok(1) by (intro published_entry [OF _ _ _ up q]) (simp_all add: ledgers_ok_def)
    moreover have "quiescent (write_single_entry_from_workload iid eid (Some \<rho>) (Some l) s w)"
      using single_entry_transaction [OF q(1)] by blast
    ultimately show ?thesis using Some led by (simp add: write_workload_entry_def eq table_ok_def)
  qed
next
  case False
  then have eq: "sv1 = sv" "wl1 = None" using u by (auto simp: scheduler_update_workload_sync_def)
  have "table_ok (sv\<lparr>committed_operations := ops\<rparr>)" using ok(2) by (simp add: table_ok_def split: option.splits)
  with ok(1) obtain sv2 where "write_entry_sync iid eid (sv\<lparr>committed_operations := ops\<rparr>) = (sv2, Inr ())"
      "ledgers_ok (sv_pools sv2)" "table_ok sv2" "heap (sv_pools sv2) = heap (sv_pools sv)"
      "same_pools (sv_pools sv) (sv_pools sv2)" "sv_cb sv2 = sv_cb sv" "committed_operations sv2 = ops"
    using write_entry_sync_ok [of "sv\<lparr>committed_operations := ops\<rparr>" iid eid] by auto
  moreover have "write_workload_entry iid eid role1 None v = write_entry_sync iid eid v" for v
    by (simp add: write_workload_entry_def write_entry_sync_def split: option.split)
  ultimately show ?thesis by (simp add: eq)
qed

lemma remember_ok:
  assumes "window_ok sv"
  shows "window_ok (remember_committed_operation op sv)"
    and "op \<in> set (committed_operations (remember_committed_operation op sv))"
    and "remember_committed_operation op sv = sv\<lparr>committed_operations := committed_operations (remember_committed_operation op sv)\<rparr>"
proof -
  have tl: "op \<in> set (tl (xs @ [op]))" "distinct (tl (xs @ [op]))" if "distinct xs" "op \<notin> set xs" "99999 < length xs" for xs
    using that by (cases xs; simp)+
  show "window_ok (remember_committed_operation op sv)"
    "op \<in> set (committed_operations (remember_committed_operation op sv))"
    "remember_committed_operation op sv = sv\<lparr>committed_operations := committed_operations (remember_committed_operation op sv)\<rparr>"
    using assms tl [of "committed_operations sv"]
    by (auto simp: window_ok_def remember_committed_operation_def Let_def MAX_COMMITTED_UPDATE_WORKLOAD_OPERATIONS_def)
qed

section \<open>Handlers\<close>

text \<open>The effect of one commit on the pools.\<close>

lemma commit_entries:
  assumes ok: "ledgers_ok (sv_pools sv)" and sch: "schedulable sv role required i e"
    and u: "scheduler_update_workload_sync (ins_id i) (ep_id e) role0 wl sv = (sv1, Inr (b, role1, wl1))"
  shows "b \<and> all_entries (sv_pools sv1) = (if tracks_workload sv
      then map (retoken (ins_id i, ep_id e) (max 0 (tokens e + active_tokens wl))) (all_entries (sv_pools sv))
      else all_entries (sv_pools sv))"
proof (cases "tracks_workload sv")
  case True
  obtain r where r: "dget (available_pool (sv_pools sv)) (ins_id i) = Some r" "i = obj (sv_pools sv) r" "e \<in> set (endpoint_objs i)"
    using sch by (auto simp: schedulable_def)
  from update_applies [OF ok r(1), of e wl] r(2,3) obtain s' \<rho> l where
    "update_instance_workload_sync (ins_id i) (ep_id e) wl (sv_pools sv) = (s', Inr (Some (\<rho>, l)))"
    "all_entries s' = map (retoken (ins_id i, ep_id e) (max 0 (tokens e + active_tokens wl))) (all_entries (sv_pools sv))" by auto
  with u True show ?thesis by (auto simp: scheduler_update_workload_sync_def ledger_update_workload_sync_def)
next
  case False
  with u show ?thesis by (auto simp: scheduler_update_workload_sync_def)
qed

lemma all_entries_cong: "heap s = heap t \<Longrightarrow> same_pools s t \<Longrightarrow> all_entries t = all_entries s"
  by (simp add: all_entries_def role_entries_def get_available_instances_def same_pools_def)

text \<open>An allocation for which an endpoint was selected commits and answers with it.\<close>

lemma allocate_selected:
  assumes ok: "server_ok sv"
    and ids: "aq_instance_id q = Given iid" "aq_endpoint_id q = Given eid" and d: "worker_demand q = Some demand"
    and given: "\<not> (aq_workload_active_tokens q = Missing \<and> aq_workload q = Missing \<and> parse_optional (aq_isl q) = None)"
    and sel: "select_for_request q (iid, eid) sv = (Some (i, e, score), fast)"
  shows "\<exists>sv'. handle_allocate_only q sv = (sv', Inr (ALLOC_OK i e score fast (committed_workload q demand i e))) \<and>
    server_ok sv' \<and> sv_cb sv' = sv_cb sv \<and>
    all_entries (sv_pools sv') = (if tracks_workload sv
      then map (retoken (ins_id i, ep_id e) (max 0 (tokens e + active_tokens (committed_workload q demand i e)))) (all_entries (sv_pools sv))
      else all_entries (sv_pools sv))"
proof -
  let ?wl = "committed_workload q demand i e"
  have led: "ledgers_ok (sv_pools sv)" "table_ok sv" "window_ok sv" using ok by (simp_all add: server_ok_def)
  then have wf: "pool_wf (sv_pools sv)" and idx: "pool_index (sv_pools sv)" by (simp_all add: ledgers_ok_def pool_wf_def)
  have sch: "schedulable sv (request_role (aq_role q)) (required_engine (aq_required_engine_type q)) i e"
    using select_sound [OF wf sel] by blast
  obtain s b r1 w1 where u: "scheduler_update_workload_sync (ins_id i) (ep_id e) (request_role (aq_role q)) ?wl sv =
      (sv\<lparr>sv_pools := s\<rparr>, Inr (b, r1, w1))" using scheduler_update_total [OF idx] by blast
  note eff = commit_entries [OF led(1) sch u]
  have "b" using eff by blast
  with u commit_ok [OF led(1,2), of "ins_id i" "ep_id e" "request_role (aq_role q)" ?wl "sv\<lparr>sv_pools := s\<rparr>" r1 w1 "committed_operations sv"]
  obtain sv2 where w: "write_workload_entry (ins_id i) (ep_id e) r1 w1 (sv\<lparr>sv_pools := s\<rparr>) = (sv2, Inr ())"
      "ledgers_ok (sv_pools sv2)" "table_ok sv2" "committed_operations sv2 = committed_operations sv" "sv_cb sv2 = sv_cb sv"
      "heap (sv_pools sv2) = heap s" "same_pools s (sv_pools sv2)"
    by auto
  have "handle_allocate_only q sv = (sv2, Inr (ALLOC_OK i e score fast ?wl))"
    using ids d given sel u w(1) \<open>b\<close> by (simp add: handle_allocate_only_def extract_allocate_candidate_def Let_def)
  moreover have "server_ok sv2" using w led(3) by (simp add: server_ok_def window_ok_def)
  moreover have "all_entries (sv_pools sv2) = all_entries s" using w(6,7) all_entries_cong by metis
  ultimately show ?thesis using w(5) eff by auto
qed

lemma allocate_not_selected:
  assumes "\<not> (\<exists>iid eid demand sel fast. aq_instance_id q = Given iid \<and> aq_endpoint_id q = Given eid \<and> worker_demand q = Some demand \<and>
      \<not> (aq_workload_active_tokens q = Missing \<and> aq_workload q = Missing \<and> parse_optional (aq_isl q) = None) \<and>
      select_for_request q (iid, eid) sv = (Some sel, fast))"
  shows "\<exists>resp. handle_allocate_only q sv = (sv, Inr resp) \<and> (resp = ALLOC_NONE \<or> (\<exists>m. resp = ALLOC_ERROR m))"
  using assms
  by (auto simp: handle_allocate_only_def extract_allocate_candidate_def Let_def split: option.splits field.splits prod.splits)

text \<open>A workload update: rejected, replayed, or applied and remembered.\<close>

abbreviation note_operation :: "string option \<Rightarrow> sched_server \<Rightarrow> sched_server" where
  "note_operation op sv \<equiv> (case op of None \<Rightarrow> sv | Some o1 \<Rightarrow> remember_committed_operation o1 sv)"

lemma update_applied:
  assumes ok: "server_ok sv"
    and u: "scheduler_update_workload_sync iid eid role change sv = (sv1, Inr (True, r1, w1))"
  shows "\<exists>sv2. write_workload_entry iid eid r1 w1 (note_operation op sv1) = (sv2, Inr ()) \<and> server_ok sv2 \<and>
    (case op of None \<Rightarrow> True | Some o1 \<Rightarrow> o1 \<in> set (committed_operations sv2))"
proof -
  have led: "ledgers_ok (sv_pools sv)" "table_ok sv" "window_ok sv" using ok by (simp_all add: server_ok_def)
  obtain s where "sv1 = sv\<lparr>sv_pools := s\<rparr>"
    using u scheduler_update_total [of sv iid eid role change] led(1) by (auto simp: ledgers_ok_def pool_wf_def)
  then have win: "window_ok sv1" using led(3) by (simp add: window_ok_def)
  define sv1' where "sv1' = note_operation op sv1"
  have sv1': "sv1' = sv1\<lparr>committed_operations := committed_operations sv1'\<rparr>" "window_ok sv1'"
    "case op of None \<Rightarrow> True | Some o1 \<Rightarrow> o1 \<in> set (committed_operations sv1')"
    using remember_ok [OF win] win by (auto simp: sv1'_def split: option.split)
  from commit_ok [OF led(1,2) u, of "committed_operations sv1'"] sv1'(1) obtain sv2 where
    "write_workload_entry iid eid r1 w1 sv1' = (sv2, Inr ())" "ledgers_ok (sv_pools sv2)" "table_ok sv2"
    "committed_operations sv2 = committed_operations sv1'" by metis
  with sv1'(2,3) show ?thesis unfolding sv1'_def [symmetric] by (auto simp: server_ok_def window_ok_def split: option.splits)
qed

lemma update_refused:
  assumes ok: "server_ok sv"
    and u: "scheduler_update_workload_sync iid eid role change sv = (sv1, Inr (False, r1, w1))"
  shows "server_ok sv1"
proof -
  have led: "ledgers_ok (sv_pools sv)" "table_ok sv" "window_ok sv" using ok by (simp_all add: server_ok_def)
  then have idx: "pool_index (sv_pools sv)" by (simp add: ledgers_ok_def pool_wf_def)
  obtain s where up: "update_instance_workload_sync iid eid change (sv_pools sv) = (s, Inr None)" "sv1 = sv\<lparr>sv_pools := s\<rparr>"
    using u by (auto simp: scheduler_update_workload_sync_def ledger_update_workload_sync_def
        split: if_splits prod.splits sum.splits option.splits)
  have "ledgers_ok s" using update_ledgers_ok [OF led(1), of iid eid change] up(1) by simp
  moreover have "table_ok (sv\<lparr>sv_pools := s\<rparr>)"
    using led(2) published_unchanged [OF idx up(1)] by (auto simp: table_ok_def split: option.splits)
  ultimately show ?thesis using led(3) by (simp add: up(2) server_ok_def window_ok_def)
qed

lemma replay_ok:
  assumes ok: "server_ok sv" and "uq_instance_id q \<noteq> Missing" "uq_endpoint_id q \<noteq> Missing" "uq_workload_change q = Given change"
    and "workload_update_params q = Inr (iid, eid, role, op)" and "is_committed op sv"
  shows "\<exists>sv1. handle_update_workload q sv = (sv1, Inr UPDATE_IDEMPOTENT) \<and> server_ok sv1 \<and>
    heap (sv_pools sv1) = heap (sv_pools sv)"
proof -
  have led: "ledgers_ok (sv_pools sv)" "table_ok sv" "window_ok sv" using ok by (simp_all add: server_ok_def)
  from write_entry_sync_ok [OF led(1,2), of iid eid] led(3) assms(2-6) show ?thesis
    by (auto simp: handle_update_workload_def server_ok_def window_ok_def)
qed

lemma update_handler_ok:
  assumes ok: "server_ok sv"
  shows "server_ok (fst (handle_update_workload q sv))"
proof (cases "\<exists>change iid eid role op. uq_instance_id q \<noteq> Missing \<and> uq_endpoint_id q \<noteq> Missing \<and>
    uq_workload_change q = Given change \<and> workload_update_params q = Inr (iid, eid, role, op)")
  case False
  then have "fst (handle_update_workload q sv) = sv"
    by (auto simp: handle_update_workload_def split: field.splits sum.splits)
  with ok show ?thesis by simp
next
  case True
  then obtain change iid eid role op where p: "uq_instance_id q \<noteq> Missing" "uq_endpoint_id q \<noteq> Missing"
    "uq_workload_change q = Given change" "workload_update_params q = Inr (iid, eid, role, op)" by blast
  show ?thesis
  proof (cases "is_committed op sv")
    case True
    from replay_ok [OF ok p True] show ?thesis by auto
  next
    case False
    have "pool_index (sv_pools sv)" using ok by (simp add: server_ok_def ledgers_ok_def pool_wf_def)
    then obtain sv1 b r1 w1 where u: "scheduler_update_workload_sync iid eid role change sv = (sv1, Inr (b, r1, w1))"
      using scheduler_update_total by blast
    show ?thesis
    proof (cases b)
      case True
      from update_applied [OF ok, of iid eid role change sv1 r1 w1 op] u True p \<open>\<not> is_committed op sv\<close> show ?thesis
        by (auto simp: handle_update_workload_def Let_def)
    next
      case False
      from update_refused [OF ok, of iid eid role change sv1 r1 w1] u False p \<open>\<not> is_committed op sv\<close> show ?thesis
        by (simp add: handle_update_workload_def)
    qed
  qed
qed

lemma allocate_handler_ok: "server_ok sv \<Longrightarrow> server_ok (fst (handle_allocate_only q sv))"
  using allocate_selected [of sv q] allocate_not_selected [of q sv] by (metis fst_conv prod_cases3)

section \<open>Reachable servers\<close>

inductive server_step :: "sched_server \<Rightarrow> sched_server \<Rightarrow> bool" where
  allocate: "server_step sv (fst (handle_allocate_only q sv))"
| update: "server_step sv (fst (handle_update_workload u sv))"
| report: "server_step sv (sv\<lparr>sv_cb := fst (handle_circuit_breaker_report iid ev (sv_cb sv))\<rparr>)"
| recover: "server_step sv (sv\<lparr>sv_cb := fst (auto_recover_task i pr (sv_cb sv))\<rparr>)"
| heartbeat: "server_step sv (sv\<lparr>sv_writer := map_option write_heartbeat (sv_writer sv)\<rparr>)"

inductive server_reach :: "sched_server \<Rightarrow> sched_server \<Rightarrow> bool" for sv0 where
  start: "server_reach sv0 sv0"
| step: "server_reach sv0 sv \<Longrightarrow> server_step sv sv' \<Longrightarrow> server_reach sv0 sv'"

lemma heartbeat_published: "table_published s w \<Longrightarrow> table_published s (write_heartbeat w)"
  by (simp add: table_published_def write_heartbeat_def Let_def emit_def)

lemma server_step_ok:
  assumes "server_step sv sv'" and "server_ok sv"
  shows "server_ok sv'"
  using assms
proof cases
  case (heartbeat)
  have "quiescent (write_heartbeat w)" if "quiescent w" for w using heartbeat_transaction [OF that] by blast
  with heartbeat assms(2) heartbeat_published show ?thesis
    by (auto simp: server_ok_def table_ok_def window_ok_def split: option.splits)
qed (use assms(2) in \<open>simp_all add: allocate_handler_ok update_handler_ok\<close>,
     simp_all add: server_ok_def table_ok_def window_ok_def split: option.splits)

section \<open>A concrete server\<close>

definition demo_server :: sched_server where
  "demo_server = init_server demo_pools True (Some (write_snapshot demo_pools (init_writer 8 demo_mem))) (5 / 100) ''load_balance''"

lemma demo_server_fields [simp]:
  "sv_pools demo_server = demo_pools" "sv_writer demo_server = Some (write_snapshot demo_pools (init_writer 8 demo_mem))"
  "committed_operations demo_server = []" "tracks_workload demo_server" "breakers (sv_cb demo_server) = []"
  by (simp_all add: demo_server_def init_server_def init_cb_server_def)

lemma demo_server_ok: "server_ok demo_server"
proof -
  have q: "quiescent (init_writer 8 demo_mem)" by (simp add: quiescent_def init_writer_def demo_mem_def)
  then have "quiescent (write_snapshot demo_pools (init_writer 8 demo_mem))" using snapshot_transaction by blast
  with demo_wf demo_ids published_snapshot [OF q, of demo_pools] show ?thesis
    by (simp add: server_ok_def ledgers_ok_def table_ok_def window_ok_def MAX_COMMITTED_UPDATE_WORKLOAD_OPERATIONS_def)
qed

definition demo_request :: alloc_request where
  "demo_request = \<lparr>aq_instance_id = Given 1, aq_endpoint_id = Given 0, aq_workload = Missing, aq_workload_active_tokens = Given 7,
     aq_role = Some ''prefill'', aq_workload_sequence = Missing, aq_role_workload_sequence = Missing, aq_instance_version = Missing,
     aq_candidate_policy = None, aq_load_weight = Missing, aq_prefill_load_scale = Missing, aq_isl = Missing,
     aq_required_engine_type = None, aq_candidates = None\<rparr>"

definition demo_update :: update_request where
  "demo_update = \<lparr>uq_instance_id = Given 1, uq_endpoint_id = Given 0, uq_role = None, uq_operation_id = Some ''op'',
     uq_workload_action = ''Allocation'', uq_workload_change = Given \<lparr>active_tokens = 3\<rparr>\<rparr>"

lemma demo_endpoints: "\<exists>e. e \<in> set (endpoint_objs (obj demo_pools 0)) \<and> ep_id e = 0"
  by (simp add: demo_pools_fields endpoint_objs_def iter_endpoints_def reset_workload_def map_endpoints_def demo_heap_def demo_defs
      conj_disj_distribR ex_disj_distrib)

lemma demo_schedulable:
  "\<exists>e. schedulable demo_server ROLE_P None (obj demo_pools 0) e \<and> ep_id e = 0"
  using demo_endpoints
  by (auto simp: schedulable_def cb_is_open_def matches_engine_type_def instance_role_def pd_role_of_def demo_pools_fields)

lemma demo_request_fields:
  "aq_instance_id demo_request = Given 1" "aq_endpoint_id demo_request = Given 0"
  "request_role (aq_role demo_request) = ROLE_P" "required_engine (aq_required_engine_type demo_request) = None"
  "worker_demand demo_request = Some \<lparr>active_tokens = 7\<rparr>" "aq_workload_active_tokens demo_request \<noteq> Missing"
  by (simp_all add: demo_request_def request_role_def required_engine_def worker_demand_def pd_role_of_def)

section \<open>Properties\<close>

text \<open>
  C1: what a committed allocation is. When the handler of ALLOCATE_ONLY answers with an endpoint, the circuit of its
  instance is not open, the instance is in the available pool, has the requested role and engine type, and
  the endpoint is one of its endpoints; if the policy tracks load, the ledger of exactly that endpoint grows
  by the committed workload, and no ledger changes otherwise; the breakers are untouched, and on the fast path it is
  the endpoint the worker proposed.
\<close>

theorem allocation_commits:
  assumes "server_ok sv" and "handle_allocate_only q sv = (sv', Inr (ALLOC_OK i e score fast wl))"
  shows "schedulable sv (request_role (aq_role q)) (required_engine (aq_required_engine_type q)) i e \<and>
    (fast \<longrightarrow> aq_instance_id q = Given (ins_id i) \<and> aq_endpoint_id q = Given (ep_id e)) \<and> sv_cb sv' = sv_cb sv \<and>
    all_entries (sv_pools sv') = (if tracks_workload sv
      then map (retoken (ins_id i, ep_id e) (max 0 (tokens e + active_tokens wl))) (all_entries (sv_pools sv))
      else all_entries (sv_pools sv))"
proof -
  have wf: "pool_wf (sv_pools sv)" using assms(1) by (simp add: server_ok_def ledgers_ok_def)
  obtain iid eid demand i' e' score' fast' where
    sel: "aq_instance_id q = Given iid" "aq_endpoint_id q = Given eid" "worker_demand q = Some demand"
      "\<not> (aq_workload_active_tokens q = Missing \<and> aq_workload q = Missing \<and> parse_optional (aq_isl q) = None)"
      "select_for_request q (iid, eid) sv = (Some (i', e', score'), fast')"
    using allocate_not_selected [of q sv] assms(2) by fastforce
  from allocate_selected [OF assms(1) sel] assms(2) have "i' = i" "e' = e" "fast' = fast" "sv_cb sv' = sv_cb sv"
    "all_entries (sv_pools sv') = (if tracks_workload sv
      then map (retoken (ins_id i, ep_id e) (max 0 (tokens e + active_tokens wl))) (all_entries (sv_pools sv))
      else all_entries (sv_pools sv))" by auto
  with select_sound [OF wf sel(5)] sel(1,2) show ?thesis by auto
qed

theorem allocation_commits_witness:
  "\<exists>sv' i e score fast wl. handle_allocate_only demo_request demo_server = (sv', Inr (ALLOC_OK i e score fast wl)) \<and>
     schedulable demo_server ROLE_P None i e"
proof -
  have wf: "pool_wf (sv_pools demo_server)" by (simp add: demo_wf)
  obtain e where e: "schedulable demo_server ROLE_P None (obj demo_pools 0) e" "ep_id e = 0" using demo_schedulable by blast
  have "fst (select_for_request demo_request (1, 0) demo_server) \<noteq> None"
    using select_complete [OF wf, of demo_request "obj demo_pools 0" e] e by (simp add: demo_request_fields demo_pools_fields)
  then obtain i e' score fast where "select_for_request demo_request (1, 0) demo_server = (Some (i, e', score), fast)"
    by (cases "select_for_request demo_request (1, 0) demo_server") auto
  from allocate_selected [OF demo_server_ok demo_request_fields(1,2,5) _ this]
  obtain sv' wl where h: "handle_allocate_only demo_request demo_server = (sv', Inr (ALLOC_OK i e' score fast wl))"
    by (auto simp: demo_request_fields(6))
  from allocation_commits [OF demo_server_ok h] h show ?thesis by (auto simp: demo_request_fields)
qed

text \<open>
  A usable proposal is served. If the endpoint that the worker proposes is schedulable and the request carries a
  valid workload, the handler answers with some endpoint and never with an error or a refusal, whatever the candidate
  policy, the alternates and the freshness of the worker's view.
\<close>

theorem allocation_served:
  assumes "server_ok sv"
    and "schedulable sv (request_role (aq_role q)) (required_engine (aq_required_engine_type q)) i e"
    and "aq_instance_id q = Given (ins_id i)" and "aq_endpoint_id q = Given (ep_id e)"
    and "worker_demand q = Some demand" and "aq_workload_active_tokens q \<noteq> Missing \<or> aq_workload q \<noteq> Missing"
  shows "\<exists>sv' i' e' score fast wl. handle_allocate_only q sv = (sv', Inr (ALLOC_OK i' e' score fast wl))"
proof -
  have wf: "pool_wf (sv_pools sv)" using assms(1) by (simp add: server_ok_def ledgers_ok_def)
  obtain i' e' score fast where "select_for_request q (ins_id i, ep_id e) sv = (Some (i', e', score), fast)"
    using select_complete [OF wf assms(2)] by (cases "select_for_request q (ins_id i, ep_id e) sv") auto
  from allocate_selected [OF assms(1,3,4,5) _ this] assms(6) show ?thesis by blast
qed

theorem allocation_served_witness:
  "\<exists>sv' i' e' score fast wl. handle_allocate_only demo_request demo_server = (sv', Inr (ALLOC_OK i' e' score fast wl))"
proof -
  obtain e where e: "schedulable demo_server ROLE_P None (obj demo_pools 0) e" "ep_id e = 0" using demo_schedulable by blast
  have "aq_instance_id demo_request = Given (ins_id (obj demo_pools 0))" "aq_endpoint_id demo_request = Given (ep_id e)"
    by (simp_all add: demo_request_fields demo_pools_fields e(2))
  from allocation_served [OF demo_server_ok _ this demo_request_fields(5)] e(1) demo_request_fields show ?thesis by simp
qed




lemma demo_update_done: "\<exists>sv1. handle_update_workload demo_update demo_server = (sv1, Inr (UPDATE_DONE True))"
proof -
  have p: "workload_update_params demo_update = Inr (1, 0, ROLE_U, Some ''op'')"
    by (simp add: workload_update_params_def demo_update_def workload_action_of_def)
  obtain e where e: "schedulable demo_server ROLE_P None (obj demo_pools 0) e" "ep_id e = 0" using demo_schedulable by blast
  have led: "ledgers_ok (sv_pools demo_server)" and idx: "pool_index (sv_pools demo_server)"
    using demo_server_ok by (simp_all add: server_ok_def ledgers_ok_def pool_wf_def)
  obtain s b r1 w1 where u: "scheduler_update_workload_sync 1 0 ROLE_U \<lparr>active_tokens = 3\<rparr> demo_server =
      (demo_server\<lparr>sv_pools := s\<rparr>, Inr (b, r1, w1))" using scheduler_update_total [OF idx] by blast
  have b using commit_entries [OF led e(1), of ROLE_U "\<lparr>active_tokens = 3\<rparr>"] u e(2) by (simp add: demo_pools_fields)
  with update_applied [OF demo_server_ok, of 1 0 ROLE_U "\<lparr>active_tokens = 3\<rparr>" _ r1 w1 "Some ''op''"] u p show ?thesis
    by (auto simp: handle_update_workload_def is_committed_def demo_update_def Let_def)
qed


text \<open>
  The global affinity selection. It returns nothing only if no reported endpoint is usable; otherwise it returns a
  reported, usable endpoint whose combined cost (scaled prefill cost plus weighted current load) is the least of all
  usable ones, and whose prefill cost is the least among those of equal combined cost.
\<close>

theorem affinity_global_minimal:
  fixes ps lw :: rat
  defines "combined \<equiv> \<lambda>(cost :: rat) load. ps * cost + lw * load"
  shows "case select_affinity_global cands role (Some ps) (Some lw) required sv of
      None \<Rightarrow> \<forall>(iid, eid, cost)\<in>set cands. select_valid_candidate (iid, eid) role required sv = None
    | Some (i, e, score) \<Rightarrow>
        \<exists>(iid, eid, cost)\<in>set cands. \<exists>load. select_valid_candidate (iid, eid) role required sv = Some (i, e, load) \<and>
          score = combined cost load \<and>
          (\<forall>(iid', eid', cost')\<in>set cands. \<forall>i' e' load'. select_valid_candidate (iid', eid') role required sv = Some (i', e', load') \<longrightarrow>
             score < combined cost' load' \<or> score = combined cost' load' \<and> cost \<le> cost')"
proof (cases "fold (affinity_step role ps lw required sv) cands None")
  case None
  then show ?thesis
    unfolding affinity.fold_none by (auto simp: select_affinity_global_def None affinity_eval_def)
next
  case (Some b)
  obtain i e score cost where b: "b = (i, e, score, cost)" by (cases b) auto
  note best = affinity.fold_best [OF Some]
  from best b obtain iid eid load where c: "(iid, eid, cost) \<in> set cands"
      "select_valid_candidate (iid, eid) role required sv = Some (i, e, load)" "score = combined cost load"
    by (auto simp: affinity_eval_def combined_def)
  moreover have "score < combined cost' load' \<or> score = combined cost' load' \<and> cost \<le> cost'"
    if "(iid', eid', cost') \<in> set cands" "select_valid_candidate (iid', eid') role required sv = Some (i', e', load')"
    for iid' eid' cost' i' e' load'
    using best that b by (fastforce simp: affinity_eval_def combined_def less_eq_prod_def)
  ultimately show ?thesis
    by (auto simp: select_affinity_global_def Some b intro!: bexI [of _ "(iid, eid, cost)"]) blast+
qed

theorem affinity_global_minimal_witness:
  "\<exists>i e score. select_affinity_global [(1, 0, 4), (9, 0, 0)] ROLE_P (Some 1) (Some 2) None demo_server = Some (i, e, score) \<and>
     ins_id i = 1"
proof -
  have wf: "pool_wf (sv_pools demo_server)" by (simp add: demo_wf)
  obtain e where e: "schedulable demo_server ROLE_P None (obj demo_pools 0) e" "ep_id e = 0" using demo_schedulable by blast
  have one: "\<exists>i e l. select_valid_candidate (1, 0) ROLE_P None demo_server = Some (i, e, l) \<and> ins_id i = 1"
    using valid_candidate_complete [OF wf e(1)] e(2) by (auto simp: demo_pools_fields)
  have nine: "select_valid_candidate (9, 0) ROLE_P None demo_server = None"
    by (simp add: select_valid_candidate_def find_available_instance_endpoint_def get_available_instances_def demo_pools_fields)
  show ?thesis
    using affinity_global_minimal [where ps = 1 and lw = 2 and cands = "[(1, 0, 4), (9, 0, 0)]" and role = ROLE_P and
        required = None and sv = demo_server] one nine
    by (auto split: option.splits)
qed

end
