(* ===== verification/Precision_Alarm.thy ===== *)
theory Precision_Alarm
  imports Request_Fields
begin

text \<open>
  Precision alarms of the scheduler (\<^verbatim>\<open>motor/coordinator/scheduler/scheduler.py\<close>): for every pair
  of a prefill and a decode instance, the count of consecutive faulty results, the raise and clear actions in progress
  with their tokens, and the active alarm; with the request handlers of \<^verbatim>\<open>runtime/scheduler_server.py\<close>.

  Each operation runs under the lock of its group, so it is one step. The dictionaries of the scheduler are maps. The
  token of an action (\<open>uuid.uuid4\<close>) is an argument. Then the specification: one automaton per group, which the
  operations refine.
\<close>

section \<open>State\<close>

type_synonym pd_group = "int option \<times> int"

record precision_state =
  sample_exit_last_time :: "pd_group \<rightharpoonup> rat"
  streak_counts :: "pd_group \<rightharpoonup> int"
  raise_probing :: "pd_group \<rightharpoonup> bool"
  raise_tokens :: "pd_group \<rightharpoonup> string"
  clear_probing :: "pd_group \<rightharpoonup> bool"
  clear_tokens :: "pd_group \<rightharpoonup> string"
  alarm_active :: "pd_group \<rightharpoonup> bool"
  alarm_moi :: "pd_group \<rightharpoonup> string"
  normal_streak_counts :: "pd_group \<rightharpoonup> int"

definition init_precision :: precision_state where
  "init_precision = \<lparr>sample_exit_last_time = Map.empty, streak_counts = Map.empty, raise_probing = Map.empty,
     raise_tokens = Map.empty, clear_probing = Map.empty, clear_tokens = Map.empty, alarm_active = Map.empty,
     alarm_moi = Map.empty, normal_streak_counts = Map.empty\<rparr>"

text \<open>\<open>d.get(key, 0)\<close> and the truth of \<open>d.get(key)\<close>.\<close>

definition get0 :: "(pd_group \<rightharpoonup> 'a :: zero) \<Rightarrow> pd_group \<Rightarrow> 'a" where
  "get0 m k = (case m k of None \<Rightarrow> 0 | Some v \<Rightarrow> v)"

definition truthy :: "(pd_group \<rightharpoonup> bool) \<Rightarrow> pd_group \<Rightarrow> bool" where
  "truthy m k \<longleftrightarrow> m k = Some True"

section \<open>Operations\<close>

definition confirm_sample_exit :: "pd_group \<Rightarrow> rat \<Rightarrow> rat \<Rightarrow> precision_state \<Rightarrow> precision_state \<times> bool" where
  "confirm_sample_exit key now interval_seconds s =
     (let last_exit = get0 (sample_exit_last_time s) key
      in if now - last_exit \<ge> interval_seconds
         then (s\<lparr>sample_exit_last_time := (sample_exit_last_time s)(key \<mapsto> now)\<rparr>, True)
         else (s, False))"

definition clear_precision_group_state :: "pd_group \<Rightarrow> precision_state \<Rightarrow> precision_state" where
  "clear_precision_group_state key s =
     s\<lparr>streak_counts := (streak_counts s)(key := None), raise_probing := (raise_probing s)(key := None),
       raise_tokens := (raise_tokens s)(key := None), clear_probing := (clear_probing s)(key := None),
       clear_tokens := (clear_tokens s)(key := None), alarm_active := (alarm_active s)(key := None),
       alarm_moi := (alarm_moi s)(key := None), normal_streak_counts := (normal_streak_counts s)(key := None)\<rparr>"

definition dismiss_precision_alarm_state :: "pd_group \<Rightarrow> precision_state \<Rightarrow> precision_state \<times> bool" where
  "dismiss_precision_alarm_state key s = (clear_precision_group_state key s, True)"

record precision_answer =
  ans_skip :: bool
  threshold_hit :: bool
  clear_threshold_hit :: bool
  consecutive :: int
  action_token :: "string option"
  ans_alarm_moi :: "string option"

definition quiet_answer :: "bool \<Rightarrow> int \<Rightarrow> precision_answer" where
  "quiet_answer skip n = \<lparr>ans_skip = skip, threshold_hit = False, clear_threshold_hit = False, consecutive = n,
     action_token = None, ans_alarm_moi = None\<rparr>"

definition current_consecutive :: "pd_group \<Rightarrow> precision_state \<Rightarrow> int" where
  "current_consecutive key s =
     (if \<not> truthy (alarm_active s) key then get0 (streak_counts s) key else get0 (normal_streak_counts s) key)"

definition record_precision_result ::
  "pd_group \<Rightarrow> bool \<Rightarrow> int \<Rightarrow> int \<Rightarrow> bool \<Rightarrow> string \<Rightarrow> precision_state \<Rightarrow> precision_state \<times> precision_answer" where
  "record_precision_result key has_issue threshold clear_threshold check_valid token s =
     (if truthy (raise_probing s) key \<or> truthy (clear_probing s) key then (s, quiet_answer True (current_consecutive key s))
      else if \<not> check_valid then (s, quiet_answer False (current_consecutive key s))
      else if truthy (alarm_active s) key then
        (if has_issue then (s\<lparr>normal_streak_counts := (normal_streak_counts s)(key \<mapsto> 0)\<rparr>, quiet_answer False 0)
         else (let count = get0 (normal_streak_counts s) key + 1;
                   s1 = s\<lparr>normal_streak_counts := (normal_streak_counts s)(key \<mapsto> count)\<rparr>
               in if count \<ge> clear_threshold
                  then (s1\<lparr>clear_probing := (clear_probing s1)(key \<mapsto> True), clear_tokens := (clear_tokens s1)(key \<mapsto> token)\<rparr>,
                        \<lparr>ans_skip = False, threshold_hit = False, clear_threshold_hit = True, consecutive = count,
                         action_token = Some token,
                         ans_alarm_moi = Some (case alarm_moi s1 key of None \<Rightarrow> [] | Some m \<Rightarrow> m)\<rparr>)
                  else (s1, quiet_answer False count)))
      else if has_issue then
        (let count = get0 (streak_counts s) key + 1;
             s1 = s\<lparr>streak_counts := (streak_counts s)(key \<mapsto> count)\<rparr>
         in if count \<ge> threshold
            then (s1\<lparr>raise_probing := (raise_probing s1)(key \<mapsto> True), raise_tokens := (raise_tokens s1)(key \<mapsto> token)\<rparr>,
                  \<lparr>ans_skip = False, threshold_hit = True, clear_threshold_hit = False, consecutive = count,
                   action_token = Some token, ans_alarm_moi = None\<rparr>)
            else (s1, quiet_answer False count))
      else (s\<lparr>streak_counts := (streak_counts s)(key \<mapsto> 0)\<rparr>, quiet_answer False 0))"

definition token_matches :: "string option \<Rightarrow> string \<Rightarrow> bool" where
  "token_matches expected token \<longleftrightarrow> (case expected of None \<Rightarrow> False | Some t \<Rightarrow> t \<noteq> [] \<and> t = token)"

definition finish_precision_action ::
  "pd_group \<Rightarrow> string \<Rightarrow> string \<Rightarrow> bool \<Rightarrow> string option \<Rightarrow> bool \<Rightarrow> precision_state \<Rightarrow> precision_state \<times> bool" where
  "finish_precision_action key token action_type success moi auto_recovery_cleared s =
     (if action_type = ''clear'' then
        (if \<not> token_matches (clear_tokens s key) token then (s, False)
         else (let s1 = s\<lparr>clear_probing := (clear_probing s)(key \<mapsto> False), clear_tokens := (clear_tokens s)(key := None)\<rparr>
               in if success then (clear_precision_group_state key s1, True)
                  else (s1\<lparr>normal_streak_counts := (normal_streak_counts s1)(key \<mapsto> 0)\<rparr>, True)))
      else if auto_recovery_cleared then (clear_precision_group_state key s, True)
      else if \<not> token_matches (raise_tokens s key) token then (s, False)
      else (let s1 = s\<lparr>raise_probing := (raise_probing s)(key \<mapsto> False), raise_tokens := (raise_tokens s)(key := None)\<rparr>
            in if \<not> success
               then (s1\<lparr>streak_counts := (streak_counts s1)(key \<mapsto> 0),
                        normal_streak_counts := (normal_streak_counts s1)(key \<mapsto> 0)\<rparr>, True)
               else (let s2 = s1\<lparr>alarm_active := (alarm_active s1)(key \<mapsto> True)\<rparr>;
                         s3 = (case moi of
                                 None \<Rightarrow> s2
                               | Some m \<Rightarrow> if m = [] then s2 else s2\<lparr>alarm_moi := (alarm_moi s2)(key \<mapsto> m)\<rparr>)
                     in (s3\<lparr>streak_counts := (streak_counts s3)(key \<mapsto> 0),
                            normal_streak_counts := (normal_streak_counts s3)(key \<mapsto> 0)\<rparr>, True))))"

section \<open>Request handlers\<close>

text \<open>An error answer carries its text; numbers of a request are fields, \<open>bool()\<close> accepts any value.\<close>

datatype 'a handler_answer = REQ_ERROR string | REQ_OK 'a

definition handle_confirm_sample ::
  "int field \<Rightarrow> rat field \<Rightarrow> rat field \<Rightarrow> int field \<Rightarrow> precision_state \<Rightarrow> precision_state \<times> bool handler_answer" where
  "handle_confirm_sample d now interval_seconds p s =
     (if d = Missing \<or> now = Missing \<or> interval_seconds = Missing
      then (s, REQ_ERROR ''Missing d_instance_id, now, or interval_seconds in request data'')
      else (case (now, interval_seconds, d) of
              (Given n, Given i, Given d_id) \<Rightarrow>
                (case p of
                   Malformed \<Rightarrow> (s, REQ_ERROR ''Invalid p_instance_id'')
                 | _ \<Rightarrow> map_prod id REQ_OK (confirm_sample_exit (parse_optional p, d_id) n i s))
            | _ \<Rightarrow> (s, REQ_ERROR ''Invalid confirm_sample fields'')))"

definition handle_record_precision_result ::
  "int field \<Rightarrow> bool option \<Rightarrow> int field \<Rightarrow> int field \<Rightarrow> bool option \<Rightarrow> int field \<Rightarrow> string \<Rightarrow> precision_state \<Rightarrow>
   precision_state \<times> precision_answer handler_answer" where
  "handle_record_precision_result d has_issue threshold clear_threshold check_valid p token s =
     (case (has_issue, check_valid) of
        (Some issue, Some valid) \<Rightarrow>
          if d = Missing \<or> threshold = Missing \<or> clear_threshold = Missing
          then (s, REQ_ERROR ''Missing d_instance_id, has_issue, threshold, clear_threshold, or check_valid'')
          else (case (d, threshold, clear_threshold) of
                  (Given d_id, Given t, Given c) \<Rightarrow>
                    (case p of
                       Malformed \<Rightarrow> (s, REQ_ERROR ''Invalid p_instance_id'')
                     | _ \<Rightarrow> map_prod id REQ_OK (record_precision_result (parse_optional p, d_id) issue t c valid token s))
                | _ \<Rightarrow> (s, REQ_ERROR ''Invalid record_precision_result fields''))
      | _ \<Rightarrow> (s, REQ_ERROR ''Missing d_instance_id, has_issue, threshold, clear_threshold, or check_valid''))"

definition handle_finish_precision_action ::
  "int field \<Rightarrow> string \<Rightarrow> string \<Rightarrow> bool \<Rightarrow> string option \<Rightarrow> bool \<Rightarrow> int field \<Rightarrow> precision_state \<Rightarrow>
   precision_state \<times> bool handler_answer" where
  "handle_finish_precision_action d token action_type success moi auto_recovery_cleared p s =
     (if d = Missing \<or> token = [] then (s, REQ_ERROR ''Missing d_instance_id or action_token in request data'')
      else (case d of
              Given d_id \<Rightarrow>
                (case p of
                   Malformed \<Rightarrow> (s, REQ_ERROR ''Invalid p_instance_id'')
                 | _ \<Rightarrow> map_prod id REQ_OK
                          (finish_precision_action (parse_optional p, d_id) token action_type success moi auto_recovery_cleared s))
            | _ \<Rightarrow> (s, REQ_ERROR ''Invalid finish_precision_action fields'')))"

definition handle_dismiss_precision_alarm_state ::
  "int field \<Rightarrow> int field \<Rightarrow> precision_state \<Rightarrow> precision_state \<times> bool handler_answer" where
  "handle_dismiss_precision_alarm_state d p s =
     (case d of
        Missing \<Rightarrow> (s, REQ_ERROR ''Missing d_instance_id in request data'')
      | Malformed \<Rightarrow> (s, REQ_ERROR ''Invalid dismiss_precision_alarm_state fields'')
      | Given d_id \<Rightarrow>
          (case p of
             Malformed \<Rightarrow> (s, REQ_ERROR ''Invalid p_instance_id'')
           | _ \<Rightarrow> (let p_id = (case parse_optional p of Some v \<Rightarrow> if v > 0 then Some v else None | None \<Rightarrow> None)
                   in map_prod id REQ_OK (dismiss_precision_alarm_state (p_id, d_id) s))))"

section \<open>Specification\<close>

text \<open>
  One group: counting faults without an alarm, raising (an action with its token is in progress), alarmed and counting
  normal results, or clearing.
\<close>

datatype phase = Counting int | Raising int string | Alarmed int | Clearing int string

fun phase_record :: "bool \<Rightarrow> int \<Rightarrow> int \<Rightarrow> bool \<Rightarrow> string \<Rightarrow> phase \<Rightarrow> phase" where
  "phase_record issue t c valid token (Counting n) =
     (if \<not> valid then Counting n
      else if \<not> issue then Counting 0
      else if n + 1 \<ge> t then Raising (n + 1) token else Counting (n + 1))"
| "phase_record issue t c valid token (Alarmed n) =
     (if \<not> valid then Alarmed n
      else if issue then Alarmed 0
      else if n + 1 \<ge> c then Clearing (n + 1) token else Alarmed (n + 1))"
| "phase_record issue t c valid token ph = ph"

fun phase_finish :: "string \<Rightarrow> string \<Rightarrow> bool \<Rightarrow> bool \<Rightarrow> phase \<Rightarrow> phase" where
  "phase_finish token action_type success auto_cleared (Raising n t) =
     (if action_type = ''clear'' then Raising n t
      else if auto_cleared then Counting 0
      else if t \<noteq> token then Raising n t
      else if success then Alarmed 0 else Counting 0)"
| "phase_finish token action_type success auto_cleared (Clearing n t) =
     (if action_type = ''clear'' then (if t \<noteq> token then Clearing n t else if success then Counting 0 else Alarmed 0)
      else if auto_cleared then Counting 0 else Clearing n t)"
| "phase_finish token action_type success auto_cleared ph =
     (if action_type \<noteq> ''clear'' \<and> auto_cleared then Counting 0 else ph)"

definition phase_of :: "precision_state \<Rightarrow> pd_group \<Rightarrow> phase" where
  "phase_of s key =
     (if truthy (raise_probing s) key then Raising (get0 (streak_counts s) key) (the (raise_tokens s key))
      else if truthy (clear_probing s) key then Clearing (get0 (normal_streak_counts s) key) (the (clear_tokens s key))
      else if truthy (alarm_active s) key then Alarmed (get0 (normal_streak_counts s) key)
      else Counting (get0 (streak_counts s) key))"

text \<open>What every reachable group satisfies: an action has a token exactly while it is in progress, and which alarm state it belongs to.\<close>

definition group_ok :: "precision_state \<Rightarrow> pd_group \<Rightarrow> bool" where
  "group_ok s key \<longleftrightarrow>
     (truthy (raise_probing s) key \<longleftrightarrow> raise_tokens s key \<noteq> None) \<and>
     (truthy (clear_probing s) key \<longleftrightarrow> clear_tokens s key \<noteq> None) \<and>
     (truthy (raise_probing s) key \<longrightarrow> \<not> truthy (alarm_active s) key) \<and>
     (truthy (clear_probing s) key \<longrightarrow> truthy (alarm_active s) key) \<and>
     raise_tokens s key \<noteq> Some [] \<and> clear_tokens s key \<noteq> Some []"

end
