(* ===== verification/Precision_Correctness.thy ===== *)
theory Precision_Correctness
  imports Precision_Alarm
begin

text \<open>
  The precision operations refine one automaton per group, groups do not interfere, and an alarm is raised exactly when
  enough consecutive valid results of the group were faulty.
\<close>

section \<open>Refinement\<close>

named_theorems precision_defs \<open>the operations and the abstraction of the precision state\<close>

lemmas [precision_defs] =
  phase_of_def group_ok_def truthy_def get0_def clear_precision_group_state_def

lemma record_refines:
  assumes ok: "group_ok s key" and tok: "token \<noteq> []"
    and r: "record_precision_result key issue t c valid token s = (s', ans)"
  shows "group_ok s' key" and "phase_of s' key = phase_record issue t c valid token (phase_of s key)"
    and "threshold_hit ans \<longleftrightarrow> (\<exists>n. phase_of s key = Counting n) \<and> (\<exists>n. phase_of s' key = Raising n token)"
    and "clear_threshold_hit ans \<longleftrightarrow> (\<exists>n. phase_of s key = Alarmed n) \<and> (\<exists>n. phase_of s' key = Clearing n token)"
proof -
  consider (raising) "truthy (raise_probing s) key" | (clearing) "\<not> truthy (raise_probing s) key" "truthy (clear_probing s) key"
    | (alarmed) "\<not> truthy (raise_probing s) key" "\<not> truthy (clear_probing s) key" "truthy (alarm_active s) key"
    | (counting) "\<not> truthy (raise_probing s) key" "\<not> truthy (clear_probing s) key" "\<not> truthy (alarm_active s) key" by blast
  then have "group_ok s' key \<and> phase_of s' key = phase_record issue t c valid token (phase_of s key) \<and>
    (threshold_hit ans \<longleftrightarrow> (\<exists>n. phase_of s key = Counting n) \<and> (\<exists>n. phase_of s' key = Raising n token)) \<and>
    (clear_threshold_hit ans \<longleftrightarrow> (\<exists>n. phase_of s key = Alarmed n) \<and> (\<exists>n. phase_of s' key = Clearing n token))"
    using r ok tok
    by cases (auto simp: record_precision_result_def quiet_answer_def precision_defs Let_def split: if_splits)
  then show "group_ok s' key" "phase_of s' key = phase_record issue t c valid token (phase_of s key)"
    "threshold_hit ans \<longleftrightarrow> (\<exists>n. phase_of s key = Counting n) \<and> (\<exists>n. phase_of s' key = Raising n token)"
    "clear_threshold_hit ans \<longleftrightarrow> (\<exists>n. phase_of s key = Alarmed n) \<and> (\<exists>n. phase_of s' key = Clearing n token)"
    by blast+
qed

lemma clear_state_refines:
  "group_ok (clear_precision_group_state key s) key" "phase_of (clear_precision_group_state key s) key = Counting 0"
  by (simp_all add: precision_defs)

text \<open>The token that an operation must present, by phase.\<close>

lemma group_tokens:
  assumes "group_ok s key"
  shows "token_matches (raise_tokens s key) token \<longleftrightarrow> (\<exists>n. phase_of s key = Raising n token)"
    and "token_matches (clear_tokens s key) token \<longleftrightarrow> (\<exists>n. phase_of s key = Clearing n token)"
  using assms by (auto simp: token_matches_def precision_defs split: option.splits)

lemma finish_mismatch: "phase_finish token typ success auto ph =
    (if typ = ''clear'' then (if \<exists>n. ph = Clearing n token then (if success then Counting 0 else Alarmed 0) else ph)
     else if auto then Counting 0
     else if \<exists>n. ph = Raising n token then (if success then Alarmed 0 else Counting 0) else ph)"
  by (cases ph) auto

lemma finish_refines:
  assumes ok: "group_ok s key" and f: "finish_precision_action key token typ success moi auto s = (s', b)"
  shows "group_ok s' key" and "phase_of s' key = phase_finish token typ success auto (phase_of s key)"
proof -
  have "group_ok s' key \<and> phase_of s' key = phase_finish token typ success auto (phase_of s key)"
  proof (cases "typ = ''clear''")
    case True
    show ?thesis
    proof (cases "token_matches (clear_tokens s key) token")
      case match: True
      let ?s1 = "s\<lparr>clear_probing := (clear_probing s)(key \<mapsto> False), clear_tokens := (clear_tokens s)(key := None)\<rparr>"
      have s': "s' = (if success then clear_precision_group_state key ?s1
          else ?s1\<lparr>normal_streak_counts := (normal_streak_counts ?s1)(key \<mapsto> 0)\<rparr>)"
        using True match f by (auto simp: finish_precision_action_def Let_def)
      have "group_ok (?s1\<lparr>normal_streak_counts := (normal_streak_counts ?s1)(key \<mapsto> 0)\<rparr>) key \<and>
          phase_of (?s1\<lparr>normal_streak_counts := (normal_streak_counts ?s1)(key \<mapsto> 0)\<rparr>) key = Alarmed 0"
        using ok match by (auto simp: token_matches_def precision_defs split: option.splits)
      then show ?thesis
        using group_tokens(2) [OF ok] match True clear_state_refines by (simp add: finish_mismatch s')
    next
      case False
      with True f ok show ?thesis
        by (auto simp: finish_mismatch finish_precision_action_def group_tokens)
    qed
  next
    case raise: False
    show ?thesis
    proof (cases "auto \<or> \<not> token_matches (raise_tokens s key) token")
      case True
      with raise f ok show ?thesis
        by (cases auto) (auto simp: finish_mismatch finish_precision_action_def group_tokens clear_state_refines)
    next
      case False
      let ?s1 = "s\<lparr>raise_probing := (raise_probing s)(key \<mapsto> False), raise_tokens := (raise_tokens s)(key := None)\<rparr>"
      let ?fail = "?s1\<lparr>streak_counts := (streak_counts ?s1)(key \<mapsto> 0), normal_streak_counts := (normal_streak_counts ?s1)(key \<mapsto> 0)\<rparr>"
      have fail: "group_ok ?fail key \<and> phase_of ?fail key = Counting 0"
        using ok False by (auto simp: token_matches_def precision_defs split: option.splits)
      have "raise_probing s' = (raise_probing s)(key \<mapsto> False)" "raise_tokens s' = (raise_tokens s)(key := None)"
          "clear_probing s' = clear_probing s" "clear_tokens s' = clear_tokens s" "alarm_active s' = (alarm_active s)(key \<mapsto> True)"
          "normal_streak_counts s' = (normal_streak_counts s)(key \<mapsto> 0)" if success
        using raise False f that by (auto simp: finish_precision_action_def Let_def split: option.splits if_splits)
      with ok False have good: "group_ok s' key \<and> phase_of s' key = Alarmed 0" if success
        using that by (auto simp: token_matches_def precision_defs split: option.splits)
      have "s' = ?fail" if "\<not> success" using raise False f that by (simp add: finish_precision_action_def)
      with fail good show ?thesis
        using group_tokens(1) [OF ok] raise False by (cases success) (auto simp: finish_mismatch)
    qed
  qed
  then show "group_ok s' key" "phase_of s' key = phase_finish token typ success auto (phase_of s key)" by blast+
qed

lemma dismiss_refines:
  "group_ok (fst (dismiss_precision_alarm_state key s)) key"
  "phase_of (fst (dismiss_precision_alarm_state key s)) key = Counting 0"
  by (simp_all add: dismiss_precision_alarm_state_def precision_defs)

text \<open>Operations on one group leave every other group alone.\<close>

definition same_group :: "precision_state \<Rightarrow> precision_state \<Rightarrow> pd_group \<Rightarrow> bool" where
  "same_group s t k \<longleftrightarrow>
     streak_counts s k = streak_counts t k \<and> raise_probing s k = raise_probing t k \<and> raise_tokens s k = raise_tokens t k \<and>
     clear_probing s k = clear_probing t k \<and> clear_tokens s k = clear_tokens t k \<and> alarm_active s k = alarm_active t k \<and>
     alarm_moi s k = alarm_moi t k \<and> normal_streak_counts s k = normal_streak_counts t k"

lemma same_group_phase: "same_group s t k \<Longrightarrow> phase_of s k = phase_of t k \<and> group_ok s k = group_ok t k"
  by (simp add: same_group_def precision_defs)

lemma record_frame: "k \<noteq> key \<Longrightarrow> same_group (fst (record_precision_result key issue t c valid token s)) s k"
  by (simp add: record_precision_result_def same_group_def Let_def)

lemma finish_frame: "k \<noteq> key \<Longrightarrow> same_group (fst (finish_precision_action key token typ success moi auto s)) s k"
  by (simp add: finish_precision_action_def same_group_def clear_precision_group_state_def Let_def split: option.split)

lemma dismiss_frame: "k \<noteq> key \<Longrightarrow> same_group (fst (dismiss_precision_alarm_state key s)) s k"
  by (simp add: dismiss_precision_alarm_state_def same_group_def clear_precision_group_state_def)

lemma confirm_frame: "same_group (fst (confirm_sample_exit key now iv s)) s k"
  by (simp add: confirm_sample_exit_def same_group_def Let_def)


section \<open>Reachable states\<close>

inductive precision_step :: "precision_state \<Rightarrow> precision_state \<Rightarrow> bool" where
  sample: "precision_step s (fst (confirm_sample_exit key now iv s))"
| result: "token \<noteq> [] \<Longrightarrow> precision_step s (fst (record_precision_result key issue t c valid token s))"
| finish: "precision_step s (fst (finish_precision_action key token typ success moi auto s))"
| dismiss: "precision_step s (fst (dismiss_precision_alarm_state key s))"

inductive precision_reach :: "precision_state \<Rightarrow> bool" where
  init: "precision_reach init_precision"
| step: "precision_reach s \<Longrightarrow> precision_step s s' \<Longrightarrow> precision_reach s'"

lemma group_ok_frame: "same_group s' s k \<Longrightarrow> group_ok s k \<Longrightarrow> group_ok s' k"
  using same_group_phase by blast

lemma precision_step_ok:
  assumes "precision_step s s'" and "group_ok s k"
  shows "group_ok s' k"
  using assms
proof cases
  case (sample key now iv)
  then show ?thesis using group_ok_frame [OF confirm_frame assms(2)] by simp
next
  case (result tok key issue t c valid)
  show ?thesis
  proof (cases "k = key")
    case True
    with record_refines(1) [OF assms(2)] result show ?thesis by (metis prod.collapse)
  next
    case False
    then show ?thesis using group_ok_frame [OF record_frame assms(2)] result by simp
  qed
next
  case (finish key tok ty ok moi ar)
  show ?thesis
  proof (cases "k = key")
    case True
    with finish_refines(1) [OF assms(2)] finish show ?thesis by (metis prod.collapse)
  next
    case False
    then show ?thesis using group_ok_frame [OF finish_frame assms(2)] finish by simp
  qed
next
  case (dismiss key)
  show ?thesis
  proof (cases "k = key")
    case True
    then show ?thesis using dismiss by (simp add: dismiss_refines)
  next
    case False
    then show ?thesis using group_ok_frame [OF dismiss_frame assms(2)] dismiss by simp
  qed
qed

lemma precision_reach_ok: "precision_reach s \<Longrightarrow> group_ok s k"
  by (induction rule: precision_reach.induct) (auto intro: precision_step_ok, simp add: precision_defs init_precision_def)

section \<open>Consecutive faults\<close>

text \<open>A result reported for a group: whether it is faulty, whether the check was valid, and the token that would be used.\<close>

type_synonym result = "pd_group \<times> bool \<times> bool \<times> string"

definition feed :: "int \<Rightarrow> int \<Rightarrow> result list \<Rightarrow> precision_state \<Rightarrow> precision_state" where
  "feed t c rs s = fold (\<lambda>(key, issue, valid, token) s. fst (record_precision_result key issue t c valid token s)) rs s"

definition valid_results :: "pd_group \<Rightarrow> result list \<Rightarrow> bool list" where
  "valid_results key rs = map (\<lambda>(_, issue, _, _). issue) (filter (\<lambda>(k, _, valid, _). k = key \<and> valid) rs)"

definition fault_streak :: "pd_group \<Rightarrow> result list \<Rightarrow> int" where
  "fault_streak key rs = int (length (takeWhile id (rev (valid_results key rs))))"

lemma fault_streak_snoc:
  "fault_streak key (rs @ [(k, issue, valid, token)]) =
     (if k \<noteq> key \<or> \<not> valid then fault_streak key rs else if issue then fault_streak key rs + 1 else 0)"
  by (simp add: fault_streak_def valid_results_def)

text \<open>After any results, the group counts its streak, until the first time it reaches the threshold.\<close>

lemma feed_phase:
  assumes "1 \<le> t" and "\<forall>r\<in>set rs. snd (snd (snd r)) \<noteq> []"
  shows "group_ok (feed t c rs init_precision) key \<and>
    (if \<exists>n\<le>length rs. t \<le> fault_streak key (take n rs)
     then \<exists>tok. phase_of (feed t c rs init_precision) key = Raising t tok
     else phase_of (feed t c rs init_precision) key = Counting (fault_streak key rs))"
  using assms(2)
proof (induction rs rule: rev_induct)
  case Nil
  then show ?case using assms(1) by (simp add: feed_def fault_streak_def valid_results_def init_precision_def precision_defs)
next
  case (snoc r rs)
  obtain k issue valid token where r: "r = (k, issue, valid, token)" by (cases r)
  let ?s = "feed t c rs init_precision"
  have IH: "group_ok ?s key" "if \<exists>n\<le>length rs. t \<le> fault_streak key (take n rs)
      then \<exists>tok. phase_of ?s key = Raising t tok else phase_of ?s key = Counting (fault_streak key rs)"
    using snoc by simp_all
  have step: "feed t c (rs @ [r]) init_precision = fst (record_precision_result k issue t c valid token ?s)"
    by (simp add: feed_def r)
  have pre: "(\<exists>n\<le>length (rs @ [r]). t \<le> fault_streak key (take n (rs @ [r]))) \<longleftrightarrow>
      (\<exists>n\<le>length rs. t \<le> fault_streak key (take n rs)) \<or> t \<le> fault_streak key (rs @ [r])"
    by (auto simp: le_Suc_eq)
  have lt: "\<not> (\<exists>n\<le>length rs. t \<le> fault_streak key (take n rs)) \<Longrightarrow> fault_streak key rs < t"
    by (metis le_refl linorder_not_le take_all_iff)
  show ?case
  proof (cases "k = key")
    case True
    have tok: "token \<noteq> []" using snoc.prems r by simp
    obtain s' ans where rec: "record_precision_result key issue t c valid token ?s = (s', ans)" by fastforce
    note ref = record_refines(1,2) [OF IH(1) tok rec]
    have "feed t c (rs @ [r]) init_precision = s'" using step rec True by simp
    then show ?thesis
      unfolding pre using ref IH(2) lt assms(1) True
      by (auto simp: r fault_streak_snoc split: if_splits)
  next
    case False
    have "same_group (fst (record_precision_result k issue t c valid token ?s)) ?s key"
      using False by (intro record_frame) simp
    from same_group_phase [OF this] IH lt False show ?thesis
      unfolding pre step by (auto simp: r fault_streak_snoc split: if_splits)
  qed
qed

section \<open>Properties\<close>

text \<open>
  C30: one automaton per group. In every reachable state, recording a result, finishing an action and dismissing an alarm act
  on the phase of their own group as the automaton prescribes (an action in progress ignores results; a token other than the
  current one changes nothing) and leave the phase of every other group as it was; the answer asks for a raise or a clear
  action exactly when the group enters that phase.
\<close>

theorem precision_refines_automaton:
  assumes "precision_reach s" and "token \<noteq> []"
  shows "(let (s', ans) = record_precision_result key issue t c valid token s
          in phase_of s' = (phase_of s)(key := phase_record issue t c valid token (phase_of s key)) \<and>
             (threshold_hit ans \<longleftrightarrow> (\<exists>n. phase_of s key = Counting n) \<and> (\<exists>n. phase_of s' key = Raising n token)) \<and>
             (clear_threshold_hit ans \<longleftrightarrow> (\<exists>n. phase_of s key = Alarmed n) \<and> (\<exists>n. phase_of s' key = Clearing n token))) \<and>
    phase_of (fst (finish_precision_action key token ty success moi auto s)) =
      (phase_of s)(key := phase_finish token ty success auto (phase_of s key)) \<and>
    phase_of (fst (dismiss_precision_alarm_state key s)) = (phase_of s)(key := Counting 0)"
proof -
  have ok: "group_ok s key" by (rule precision_reach_ok [OF assms(1)])
  obtain s' ans where r: "record_precision_result key issue t c valid token s = (s', ans)" by fastforce
  obtain s2 b where f: "finish_precision_action key token ty success moi auto s = (s2, b)" by fastforce
  have "phase_of s' = (phase_of s)(key := phase_record issue t c valid token (phase_of s key))"
    using record_refines(2) [OF ok assms(2) r] same_group_phase [OF record_frame [of _ key issue t c valid token s]]
    by (auto simp: r fun_eq_iff)
  moreover have "phase_of s2 = (phase_of s)(key := phase_finish token ty success auto (phase_of s key))"
    using finish_refines(2) [OF ok f] same_group_phase [OF finish_frame [of _ key token ty success moi auto s]]
    by (auto simp: f fun_eq_iff)
  moreover have "phase_of (fst (dismiss_precision_alarm_state key s)) = (phase_of s)(key := Counting 0)"
    using same_group_phase [OF dismiss_frame [of _ key s]] by (auto simp: dismiss_refines(2) fun_eq_iff)
  ultimately show ?thesis using record_refines(3,4) [OF ok assms(2) r] by (simp add: r f)
qed

theorem precision_refines_automaton_witness:
  "phase_of (fst (finish_precision_action (None, 2) ''a'' ''raise'' True None False init_precision)) (None, 2) = Counting 0"
  using precision_refines_automaton [OF precision_reach.init, of "''a''" "(None, 2)" True 1 1 True "''raise''" True None False]
  by (simp add: phase_of_def truthy_def get0_def init_precision_def)

text \<open>
  Alarms need consecutive faults. Whatever results arrive, in any interleaving of the groups, a group asks for a raise
  action exactly when at some point its last \<open>t\<close> valid results were all faulty; a normal result in between restarts
  the count, an invalid check does not touch it, and results of other groups have no influence.
\<close>

theorem raise_needs_consecutive_faults:
  assumes "1 \<le> t" and "\<forall>r\<in>set rs. snd (snd (snd r)) \<noteq> []"
  shows "(\<exists>n tok. phase_of (feed t c rs init_precision) key = Raising n tok) \<longleftrightarrow>
    (\<exists>n\<le>length rs. t \<le> fault_streak key (take n rs))"
  using feed_phase [OF assms, of c key] by (metis phase.distinct(1))

theorem raise_needs_consecutive_faults_witness:
  "\<not> (\<exists>n tok. phase_of (feed 2 1 [((None, 1), True, True, ''a''), ((None, 1), False, True, ''b''), ((None, 1), True, True, ''c'')]
      init_precision) (None, 1) = Raising n tok)"
proof -
  let ?rs = "[((None, 1), True, True, ''a''), ((None, 1), False, True, ''b''), ((None, 1), True, True, ''c'')]"
  have "fault_streak (None, 1) (take n ?rs) < 2" if "n \<le> length ?rs" for n
  proof -
    have "n = 0 \<or> n = 1 \<or> n = 2 \<or> n = 3" using that by auto
    then show ?thesis by (auto simp: fault_streak_def valid_results_def)
  qed
  then have "\<not> (\<exists>n\<le>length ?rs. 2 \<le> fault_streak (None, 1) (take n ?rs))" by fastforce
  with raise_needs_consecutive_faults [of 2 ?rs 1 "(None, 1)"] show ?thesis by simp
qed

end
