(* ===== verification/Kv_Affinity.thy ===== *)
theory Kv_Affinity
  imports Scheduling_Properties
begin

text \<open>
  The KV-cache affinity policy (\<^verbatim>\<open>motor/coordinator/scheduler/policy/kv_cache_affinity.py\<close>): scoring
  by cached prefix and live load, in the unified and the load-gated mode.

  The tokenizer and the conductor service are outside: the encoded prompt is the length \<open>isl\<close>,
  and \<open>query\<close> gives, for a list of instances, the tenant data of the conductor's answer, \<open>None\<close>
  when it has none. Tenant data maps the conductor key of an instance to its match data, keyed by the
  decimal endpoint id. Python's \<open>round\<close> to even is written out.
\<close>

section \<open>Definitions\<close>

fun nat_digits :: "nat \<Rightarrow> string" where
  "nat_digits n = (if n < 10 then [char_of (48 + n)] else nat_digits (n div 10) @ [char_of (48 + n mod 10)])"

declare nat_digits.simps [simp del]

definition int_str :: "int \<Rightarrow> string" where
  "int_str k = (if k < 0 then CHR ''-'' # nat_digits (nat (- k)) else nat_digits (nat k))"

definition conductor_instance_id :: "instance_obj \<Rightarrow> string" where
  "conductor_instance_id i =
     (if ins_role i = pd_role_value ROLE_U then ''vllm-union-'' @ int_str (ins_id i)
      else ''vllm-prefill-'' @ int_str (ins_id i))"

definition py_round :: "rat \<Rightarrow> int" where
  "py_round x =
     (let f = \<lfloor>x\<rfloor>; d = x - of_int f
      in if d < 1 / 2 then f else if d > 1 / 2 then f + 1 else if even f then f else f + 1)"

datatype dp_match =
    MatchTokens int
  | MatchBlocks "int option" "int option" "int option" "int option"

type_synonym tenant = "(string, (string, dp_match) dict) dict"

record kv_params =
  overlap_credit :: rat
  prefill_load_scale :: rat
  load_weight :: rat
  load_gate_topn :: int
  w_npu :: rat
  w_cpu :: rat
  w_disk :: rat

definition or_zero :: "int option \<Rightarrow> int" where
  "or_zero x = (case x of None \<Rightarrow> 0 | Some v \<Rightarrow> v)"

fun weighted_matched_tokens :: "dp_match \<Rightarrow> int \<Rightarrow> kv_params \<Rightarrow> int" where
  "weighted_matched_tokens (MatchTokens n) block_size p = n"
| "weighted_matched_tokens (MatchBlocks npu cpu disk matched) block_size p =
     (if (npu \<noteq> None \<or> cpu \<noteq> None \<or> disk \<noteq> None) \<and> block_size > 0 then
        py_round ((of_int (or_zero npu) * w_npu p + of_int (or_zero cpu) * w_cpu p + of_int (or_zero disk) * w_disk p)
          * of_int block_size)
      else or_zero matched)"

record kv_candidate =
  load_cost :: rat
  matched_tokens :: int
  prefill_cost :: rat
  kv_instance :: instance_obj
  kv_endpoint :: endpoint

definition score_candidate ::
  "(string, dp_match) dict \<Rightarrow> int \<Rightarrow> int \<Rightarrow> kv_params \<Rightarrow> instance_obj \<Rightarrow> endpoint \<Rightarrow> py_exn + kv_candidate" where
  "score_candidate dp_map isl_in block_size p i e =
     (let matched_raw = (case dget dp_map (int_str (ep_id e)) of None \<Rightarrow> MatchTokens 0 | Some m \<Rightarrow> m);
          matched = weighted_matched_tokens matched_raw block_size p;
          mt = (if isl_in > 0 then min matched isl_in else 0)
      in case calculate_workload_score (ep_workload e) (Some (pd_role_value ROLE_P)) of
           Inl x \<Rightarrow> Inl x
         | Inr load \<Rightarrow>
             Inr \<lparr>load_cost = load, matched_tokens = mt,
                  prefill_cost = max 0 (of_int isl_in - overlap_credit p * of_int mt),
                  kv_instance = i, kv_endpoint = e\<rparr>)"

fun map_result :: "('a \<Rightarrow> py_exn + 'b) \<Rightarrow> 'a list \<Rightarrow> py_exn + 'b list" where
  "map_result f [] = Inr []"
| "map_result f (x # xs) =
     (case f x of Inl e \<Rightarrow> Inl e
      | Inr y \<Rightarrow> (case map_result f xs of Inl e \<Rightarrow> Inl e | Inr ys \<Rightarrow> Inr (y # ys)))"

fun collect_load_candidates ::
  "instance_obj list \<Rightarrow> tenant \<Rightarrow> int \<Rightarrow> int \<Rightarrow> kv_params \<Rightarrow> py_exn + (kv_candidate list \<times> bool)" where
  "collect_load_candidates [] tenant isl_in block_size p = Inr ([], False)"
| "collect_load_candidates (i # is) tenant isl_in block_size p =
     (case dget tenant (conductor_instance_id i) of
        None \<Rightarrow> collect_load_candidates is tenant isl_in block_size p
      | Some dp_map \<Rightarrow>
          (case map_result (score_candidate dp_map isl_in block_size p i) (routable_endpoints i) of
             Inl x \<Rightarrow> Inl x
           | Inr cs \<Rightarrow>
               (case collect_load_candidates is tenant isl_in block_size p of
                  Inl x \<Rightarrow> Inl x
                | Inr (rest, _) \<Rightarrow> Inr (cs @ rest, True))))"

definition unified_score :: "kv_params \<Rightarrow> kv_candidate \<Rightarrow> rat" where
  "unified_score p c = prefill_load_scale p * prefill_cost c + load_weight p * load_cost c"

type_synonym ranking = "(instance_obj \<times> endpoint \<times> rat) list"

definition select_with_load ::
  "instance_obj list \<Rightarrow> tenant \<Rightarrow> int \<Rightarrow> int \<Rightarrow> kv_params \<Rightarrow> int \<Rightarrow> py_exn + ranking option" where
  "select_with_load is tenant isl_in block_size p top_k =
     (case collect_load_candidates is tenant isl_in block_size p of
        Inl x \<Rightarrow> Inl x
      | Inr (raw, any_instance) \<Rightarrow>
          if \<not> any_instance then Inr None
          else if raw = [] then Inr None
          else Inr (Some (map (\<lambda>c. (kv_instance c, kv_endpoint c, unified_score p c))
                 (take (nat (max 1 top_k)) (sort_key (unified_score p) raw)))))"

definition gate :: "int \<Rightarrow> kv_candidate list \<Rightarrow> kv_candidate list" where
  "gate topn raw = take (nat (max 1 topn)) (sort_key load_cost raw)"

definition select_load_gated ::
  "instance_obj list \<Rightarrow> tenant \<Rightarrow> int \<Rightarrow> int \<Rightarrow> kv_params \<Rightarrow> int \<Rightarrow> int \<Rightarrow> py_exn + ranking option" where
  "select_load_gated is tenant isl_in block_size p topn top_k =
     (case collect_load_candidates is tenant isl_in block_size p of
        Inl x \<Rightarrow> Inl x
      | Inr (raw, any_instance) \<Rightarrow>
          if \<not> any_instance then Inr None
          else if raw = [] then Inr None
          else Inr (Some (map (\<lambda>c. (kv_instance c, kv_endpoint c, load_cost c))
                 (take (nat (max 1 top_k)) (sort_key (\<lambda>c. (- matched_tokens c, load_cost c)) (gate topn raw))))))"

definition DEFAULT_LOAD_GATE_TOPN :: int where
  "DEFAULT_LOAD_GATE_TOPN = 2"

definition KV_AFFINITY_MODE_LOAD_GATED :: string where
  "KV_AFFINITY_MODE_LOAD_GATED = ''load_gated''"

definition kv_select_candidates ::
  "(instance_obj list \<Rightarrow> tenant option) \<Rightarrow> instance_obj list \<Rightarrow> int \<Rightarrow> string \<Rightarrow> int \<Rightarrow> kv_params \<Rightarrow> int \<Rightarrow>
   py_exn + ranking option" where
  "kv_select_candidates query is isl_in mode block_size p top_k =
     (case (if block_size > 0 \<and> isl_in < block_size
            then Some (fold (\<lambda>i t. dset (conductor_instance_id i) [] t) is [])
            else query is) of
        None \<Rightarrow> Inr None
      | Some tenant \<Rightarrow>
          if mode = KV_AFFINITY_MODE_LOAD_GATED then
            select_load_gated is tenant isl_in block_size p
              (if load_gate_topn p > 0 then load_gate_topn p else DEFAULT_LOAD_GATE_TOPN) top_k
          else select_with_load is tenant isl_in block_size p top_k)"

definition kv_select_endpoint_from_list ::
  "(instance_obj list \<Rightarrow> tenant option) \<Rightarrow> instance_obj list \<Rightarrow> int \<Rightarrow> string \<Rightarrow> int \<Rightarrow> kv_params \<Rightarrow>
   py_exn + (instance_obj \<times> endpoint) option" where
  "kv_select_endpoint_from_list query is isl_in mode block_size p =
     (case kv_select_candidates query is isl_in mode block_size p 1 of
        Inl x \<Rightarrow> Inl x
      | Inr None \<Rightarrow> Inr None
      | Inr (Some []) \<Rightarrow> Inr None
      | Inr (Some ((i, e, _) # _)) \<Rightarrow> Inr (Some (i, e)))"

definition default_kv_params :: kv_params where
  "default_kv_params = \<lparr>overlap_credit = 1, prefill_load_scale = 1, load_weight = 1, load_gate_topn = 0,
     w_npu = 1, w_cpu = 1, w_disk = 0\<rparr>"

text \<open>The policy's entry point; \<open>has_req\<close> says whether a request was passed.\<close>

definition kv_select_instance_and_endpoint_from_list ::
  "(instance_obj list \<Rightarrow> tenant option) \<Rightarrow> instance_obj list \<Rightarrow> pd_role option \<Rightarrow> bool \<Rightarrow> int \<Rightarrow> int \<Rightarrow>
   py_exn + (instance_obj \<times> endpoint) option" where
  "kv_select_instance_and_endpoint_from_list query is role has_req isl_in block_size =
     (let fallback = select_endpoint_from_list is (map_option pd_role_value role) 0 DEFAULT_ENDPOINT_INSTANCE_SCORE_WEIGHT
      in if role = Some ROLE_P \<and> has_req then
           (case kv_select_endpoint_from_list query is isl_in ''unified'' block_size default_kv_params of
              Inl x \<Rightarrow> Inl x
            | Inr (Some r) \<Rightarrow> Inr (Some r)
            | Inr None \<Rightarrow> Inr fallback)
         else Inr fallback)"

section \<open>Lemmas\<close>

lemma map_result_Inr: "(\<And>x. x \<in> set xs \<Longrightarrow> f x = Inr (g x)) \<Longrightarrow> map_result f xs = Inr (map g xs)"
  by (induction xs) simp_all

lemma score_candidate_total: "\<exists>c. score_candidate dp n bs p i e = Inr c"
  by (simp add: score_candidate_def calculate_workload_score_def Let_def)

lemma score_candidates_total: "\<exists>cs. map_result (score_candidate dp n bs p i) es = Inr cs"
  by (induction es) (auto, metis (no_types, lifting) old.sum.simps(6) score_candidate_total)

lemma collect_total: "\<exists>r. collect_load_candidates is tenant n bs p = Inr r"
proof (induction "is")
  case (Cons i rest)
  then obtain raw any where r: "collect_load_candidates rest tenant n bs p = Inr (raw, any)" by fastforce
  show ?case
  proof (cases "dget tenant (conductor_instance_id i)")
    case (Some dp)
    obtain cs where "map_result (score_candidate dp n bs p i) (routable_endpoints i) = Inr cs"
      using score_candidates_total by blast
    with Some r have "collect_load_candidates (i # rest) tenant n bs p = Inr (cs @ raw, True)" by simp
    then show ?thesis by (rule exI)
  next
    case None
    with r have "collect_load_candidates (i # rest) tenant n bs p = Inr (raw, any)" by simp
    then show ?thesis by (rule exI)
  qed
qed (metis collect_load_candidates.simps(1))

lemma map_result_mem: "map_result f xs = Inr ys \<Longrightarrow> y \<in> set ys \<Longrightarrow> \<exists>x\<in>set xs. f x = Inr y"
  by (induction xs arbitrary: ys) (auto split: sum.splits)

lemma collect_mem:
  "collect_load_candidates is tenant n bs p = Inr (raw, any) \<Longrightarrow> c \<in> set raw \<Longrightarrow>
   \<exists>dp i e. i \<in> set is \<and> e \<in> set (routable_endpoints i) \<and> score_candidate dp n bs p i e = Inr c"
proof (induction "is" arbitrary: raw any)
  case (Cons j rest)
  show ?case
  proof (cases "dget tenant (conductor_instance_id j)")
    case None
    with Cons show ?thesis by auto
  next
    case (Some dp)
    obtain cs where cs: "map_result (score_candidate dp n bs p j) (routable_endpoints j) = Inr cs"
      using score_candidates_total by blast
    obtain raw' any' where r: "collect_load_candidates rest tenant n bs p = Inr (raw', any')"
      using collect_total [of rest] by fastforce
    from Cons.prems(1) Some cs r have "raw = cs @ raw'" by simp
    with Cons.prems(2) consider "c \<in> set cs" | "c \<in> set raw'" by auto
    then show ?thesis
    proof cases
      case 1
      from map_result_mem [OF cs this] show ?thesis by (metis list.set_intros(1))
    next
      case 2
      from Cons.IH [OF r this] show ?thesis by (meson list.set_intros(2))
    qed
  qed
qed simp

text \<open>With at most one token of credit per cached token the prefill cost is never clamped.\<close>

lemma score_prefill_cost:
  assumes "score_candidate dp n bs p i e = Inr c" and "0 \<le> n" "0 \<le> overlap_credit p" "overlap_credit p \<le> 1"
  shows "prefill_cost c = of_int n - overlap_credit p * of_int (matched_tokens c)"
proof -
  have m: "matched_tokens c \<le> n" and pc: "prefill_cost c = max 0 (of_int n - overlap_credit p * of_int (matched_tokens c))"
    using assms(1,2) by (auto simp: score_candidate_def calculate_workload_score_def Let_def)
  have "overlap_credit p * of_int (matched_tokens c) \<le> (of_int n :: rat)"
  proof (cases "0 \<le> matched_tokens c")
    case True
    then have "overlap_credit p * of_int (matched_tokens c) \<le> 1 * (of_int (matched_tokens c) :: rat)"
      using assms(4) by (intro mult_right_mono) simp_all
    with m show ?thesis by (metis mult_1 of_int_le_iff order_trans)
  next
    case False
    then have "overlap_credit p * of_int (matched_tokens c) \<le> (0 :: rat)"
      using assms(3) by (simp add: mult_nonneg_nonpos)
    with assms(2) show ?thesis by (metis of_int_0_le_iff order_trans)
  qed
  with pc show ?thesis by simp
qed

text \<open>The least-loaded prefix: fewer than \<open>n\<close> elements lie strictly below any element of it.\<close>

lemma filter_below_nth:
  assumes "sorted (map f ys)" and "j < length ys"
  shows "length (filter (\<lambda>d. f d < f (ys ! j)) ys) \<le> j"
proof -
  have "\<not> f d < f (ys ! j)" if "d \<in> set (drop j ys)" for d
  proof -
    from that obtain k where k: "k < length ys - j" "d = ys ! (j + k)"
      by (auto simp: in_set_conv_nth)
    have "map f ys ! j \<le> map f ys ! (j + k)"
      by (rule sorted_nth_mono [OF assms(1)]) (use k in simp_all)
    with assms(2) k show ?thesis by simp
  qed
  then have "filter (\<lambda>d. f d < f (ys ! j)) (drop j ys) = []" by (simp add: filter_empty_conv)
  then have "filter (\<lambda>d. f d < f (ys ! j)) ys = filter (\<lambda>d. f d < f (ys ! j)) (take j ys)"
    by (metis append.right_neutral append_take_drop_id filter_append)
  moreover have "length (filter (\<lambda>d. f d < f (ys ! j)) (take j ys)) \<le> length (take j ys)"
    by (rule length_filter_le)
  ultimately show ?thesis by simp
qed

lemma take_sorted_rank:
  assumes "c \<in> set (take n (sort_key f xs))"
  shows "length (filter (\<lambda>d. f d < f c) xs) < n"
proof -
  let ?ys = "sort_key f xs"
  obtain j where j: "j < n" "j < length ?ys" "?ys ! j = c"
    using assms by (auto simp: in_set_conv_nth)
  have "length (filter (\<lambda>d. f d < f c) ?ys) \<le> j"
    using filter_below_nth [OF sorted_sort_key j(2)] j(3) by simp
  moreover have "length (filter (\<lambda>d. f d < f c) ?ys) = length (filter (\<lambda>d. f d < f c) xs)"
    by (metis mset_filter mset_sort size_mset)
  ultimately show ?thesis using j(1) by simp
qed

lemma set_gate: "set (gate n raw) \<subseteq> set raw"
  unfolding gate_def by (metis set_sort set_take_subset)

text \<open>A tenant answer that reports every instance and no cached prefix.\<close>

definition all_zero :: "instance_obj list \<Rightarrow> int \<Rightarrow> kv_params \<Rightarrow> tenant \<Rightarrow> bool" where
  "all_zero is block_size p t \<longleftrightarrow>
     (\<forall>i\<in>set is. \<exists>dp. dget t (conductor_instance_id i) = Some dp \<and>
        (\<forall>m\<in>set (dvalues dp). weighted_matched_tokens m block_size p = 0))"

lemma score_candidate_zero:
  assumes "\<forall>m\<in>set (dvalues dp). weighted_matched_tokens m bs p = 0"
  shows "score_candidate dp n bs p i e = score_candidate [] n bs p i e"
proof -
  have "weighted_matched_tokens m bs p = 0" if "dget dp k = Some m" for k m
    using assms dget_value_in [OF that] by blast
  then have "weighted_matched_tokens (case dget dp k of None \<Rightarrow> MatchTokens 0 | Some m \<Rightarrow> m) bs p = 0" for k
    by (simp split: option.split)
  then show ?thesis by (simp add: score_candidate_def Let_def calculate_workload_score_def)
qed

lemma collect_zero:
  assumes "all_zero is bs p t" and "all_zero is bs p t'"
  shows "collect_load_candidates is t n bs p = collect_load_candidates is t' n bs p"
  using assms
proof (induction "is")
  case (Cons i rest)
  then obtain dp dp' where d: "dget t (conductor_instance_id i) = Some dp" "dget t' (conductor_instance_id i) = Some dp'"
    "\<forall>m\<in>set (dvalues dp). weighted_matched_tokens m bs p = 0" "\<forall>m\<in>set (dvalues dp'). weighted_matched_tokens m bs p = 0"
    by (auto simp: all_zero_def)
  have "score_candidate dp n bs p i = score_candidate dp' n bs p i"
    using score_candidate_zero [OF d(3)] score_candidate_zero [OF d(4)] by auto
  moreover have "collect_load_candidates rest t n bs p = collect_load_candidates rest t' n bs p"
    using Cons by (simp add: all_zero_def)
  ultimately show ?case by (simp only: collect_load_candidates.simps d option.case)
qed simp

lemma fast_path_zero: "all_zero is bs p (fold (\<lambda>i t. dset (conductor_instance_id i) [] t) is [])"
proof -
  have "dget (fold (\<lambda>i t. dset (conductor_instance_id i) [] t) js t) k =
    (if k \<in> conductor_instance_id ` set js then Some [] else dget t k)" for js k and t :: tenant
    by (induction js arbitrary: t) auto
  then show ?thesis by (auto simp: all_zero_def)
qed

section \<open>Properties\<close>

definition demo_is :: "instance_obj list" where
  "demo_is = [demo_loaded 1 5, demo_loaded 2 3]"

definition demo_tenant :: tenant where
  "demo_tenant = [(''vllm-prefill-1'', [(''0'', MatchTokens 8)]), (''vllm-prefill-2'', [(''0'', MatchBlocks (Some 1) None None None)])]"

definition demo_raw :: "kv_candidate list" where
  "demo_raw =
     [\<lparr>load_cost = 5, matched_tokens = 8, prefill_cost = 2, kv_instance = demo_loaded 1 5,
       kv_endpoint = hd (routable_endpoints (demo_loaded 1 5))\<rparr>,
      \<lparr>load_cost = 3, matched_tokens = 4, prefill_cost = 6, kv_instance = demo_loaded 2 3,
       kv_endpoint = hd (routable_endpoints (demo_loaded 2 3))\<rparr>]"

lemma demo_keys:
  "conductor_instance_id (demo_loaded 1 w) = ''vllm-prefill-1''"
  "conductor_instance_id (demo_loaded 2 w) = ''vllm-prefill-2''" "int_str 0 = ''0''"
  by (simp_all add: conductor_instance_id_def int_str_def nat_digits.simps char_of_def bit_0)

lemma demo_collect: "collect_load_candidates demo_is demo_tenant 10 4 default_kv_params = Inr (demo_raw, True)"
  by (simp add: demo_is_def demo_tenant_def demo_raw_def demo_keys demo_loaded_routable score_candidate_def Let_def
      calculate_workload_score_def or_zero_def py_round_def default_kv_params_def demo_endpoint_def)

text \<open>
  The load-gated mode has a hard load bound. Whatever prefix the conductor reports, an endpoint
  that the mode returns has fewer than \<open>topn\<close> reported endpoints with a strictly smaller load, so
  affinity never pulls a request outside the least-loaded set; the ranking is never empty, and it prefers longer cached prefixes.
\<close>

theorem load_gate_is_hard:
  assumes "collect_load_candidates is tenant n bs p = Inr (raw, any)"
    and "select_load_gated is tenant n bs p topn top_k = Inr (Some ranked)"
  shows "ranked \<noteq> [] \<and>
    (\<forall>(i, e, load) \<in> set ranked.
       length (filter (\<lambda>d. load_cost d < load) raw) < nat (max 1 topn) \<and>
       (\<exists>c\<in>set raw. kv_instance c = i \<and> kv_endpoint c = e \<and> load_cost c = load)) \<and>
    (\<forall>c\<in>set (gate topn raw). \<exists>d\<in>set (gate topn raw).
       (kv_instance d, kv_endpoint d, load_cost d) = hd ranked \<and> matched_tokens c \<le> matched_tokens d)"
proof -
  let ?g = "gate topn raw" and ?key = "\<lambda>c. (- matched_tokens c, load_cost c)"
  let ?out = "\<lambda>c. (kv_instance c, kv_endpoint c, load_cost c)"
  let ?s = "sort_key ?key ?g"
  have raw: "raw \<noteq> []" and r: "ranked = map ?out (take (nat (max 1 top_k)) ?s)"
    using assms by (auto simp: select_load_gated_def split: if_splits)
  have "?g \<noteq> []" using raw by (simp add: gate_def) (metis length_0_conv length_sort)
  then obtain d ds where s: "?s = d # ds" by (metis length_0_conv length_sort neq_Nil_conv)
  have hd: "hd ranked = ?out d" "ranked \<noteq> []" using r s by (simp_all add: take_Cons')
  have dg: "d \<in> set ?g" by (metis list.set_intros(1) s set_sort)
  have best: "matched_tokens c \<le> matched_tokens d" if "c \<in> set ?g" for c
  proof -
    have "sorted (map ?key (d # ds))" using sorted_sort_key [of ?key ?g] s by simp
    moreover have "c \<in> set (d # ds)" using that s by (metis set_sort)
    ultimately show ?thesis by (auto simp: less_eq_prod_def)
  qed
  have mem: "x \<in> ?out ` set ?g" if "x \<in> set ranked" for x
    using that r by (auto dest: in_set_takeD)
  have "\<forall>(i, e, load) \<in> set ranked. length (filter (\<lambda>d. load_cost d < load) raw) < nat (max 1 topn) \<and>
      (\<exists>c\<in>set raw. kv_instance c = i \<and> kv_endpoint c = e \<and> load_cost c = load)"
  proof (clarify, intro conjI)
    fix i e load
    assume "(i, e, load) \<in> set ranked"
    from mem [OF this] obtain c where c: "c \<in> set ?g" "?out c = (i, e, load)" by auto
    show "length (filter (\<lambda>d. load_cost d < load) raw) < nat (max 1 topn)"
      using take_sorted_rank [of c "nat (max 1 topn)" load_cost raw] c by (simp add: gate_def)
    show "\<exists>c\<in>set raw. kv_instance c = i \<and> kv_endpoint c = e \<and> load_cost c = load"
      using c set_gate by fastforce
  qed
  with hd dg best show ?thesis by fastforce
qed

theorem load_gate_is_hard_witness:
  "\<exists>i e load. select_load_gated demo_is demo_tenant 10 4 default_kv_params 1 1 = Inr (Some [(i, e, load)]) \<and>
     length (filter (\<lambda>d. load_cost d < load) demo_raw) < nat (max 1 1)"
proof -
  obtain i e load where r: "select_load_gated demo_is demo_tenant 10 4 default_kv_params 1 1 = Inr (Some [(i, e, load)])"
    by (simp add: select_load_gated_def demo_collect demo_raw_def gate_def)
  from load_gate_is_hard [OF demo_collect r] r show ?thesis by auto
qed

text \<open>
  Skipping the conductor for a prompt shorter than one block changes nothing. The selection equals,
  in both modes, the one made with any conductor answer that reports every instance and no cached prefix.
\<close>

theorem sub_block_query_unneeded:
  assumes "0 < bs" and "n < bs" and "all_zero is bs p t"
  shows "kv_select_candidates query is n mode bs p top_k =
    (if mode = KV_AFFINITY_MODE_LOAD_GATED
     then select_load_gated is t n bs p (if load_gate_topn p > 0 then load_gate_topn p else DEFAULT_LOAD_GATE_TOPN) top_k
     else select_with_load is t n bs p top_k)"
  using assms collect_zero [OF fast_path_zero assms(3), of n]
  by (simp add: kv_select_candidates_def select_load_gated_def select_with_load_def)

theorem sub_block_query_unneeded_witness:
  "kv_select_candidates (\<lambda>_. None) demo_is 3 ''unified'' 4 default_kv_params 1 =
   select_with_load demo_is [(''vllm-prefill-1'', [(''0'', MatchTokens 0)]), (''vllm-prefill-2'', [])] 3 4 default_kv_params 1"
proof -
  have "all_zero demo_is 4 default_kv_params [(''vllm-prefill-1'', [(''0'', MatchTokens 0)]), (''vllm-prefill-2'', [])]"
    by (simp add: all_zero_def demo_is_def demo_keys)
  from sub_block_query_unneeded [OF _ _ this, of 3 "\<lambda>_. None" "''unified''" 1] show ?thesis
    by (simp add: KV_AFFINITY_MODE_LOAD_GATED_def)
qed

text \<open>
  The unified mode without load weight is prefix affinity: with a positive prefill scale and a
  discount of at most one token per cached token, the first endpoint of the ranking has the longest cached
  prefix of all the reported endpoints.
\<close>

theorem unified_without_load_prefers_prefix:
  assumes c: "collect_load_candidates is tenant n bs p = Inr (raw, any)"
    and r: "select_with_load is tenant n bs p top_k = Inr (Some ranked)"
    and p: "load_weight p = 0" "0 < prefill_load_scale p" "0 < overlap_credit p" "overlap_credit p \<le> 1" and n: "0 \<le> n"
  shows "\<exists>d\<in>set raw. hd ranked = (kv_instance d, kv_endpoint d, unified_score p d) \<and>
    (\<forall>c\<in>set raw. matched_tokens c \<le> matched_tokens d)"
proof -
  let ?s = "sort_key (unified_score p) raw"
  have cost: "prefill_cost c = of_int n - overlap_credit p * of_int (matched_tokens c)" if "c \<in> set raw" for c
    using collect_mem [OF c that] score_prefill_cost [OF _ n] p by (metis less_imp_le)
  have raw: "raw \<noteq> []"
    and rk: "ranked = map (\<lambda>c. (kv_instance c, kv_endpoint c, unified_score p c)) (take (nat (max 1 top_k)) ?s)"
    using c r by (auto simp: select_with_load_def split: if_splits)
  then obtain d ds where s: "?s = d # ds" by (metis length_0_conv length_sort neq_Nil_conv)
  have "sorted (map (unified_score p) (d # ds))" using sorted_sort_key [of "unified_score p" raw] s by simp
  moreover have "set raw = set (d # ds)" by (metis s set_sort)
  ultimately have "unified_score p d \<le> unified_score p c" if "c \<in> set raw" for c using that by auto
  moreover have d: "d \<in> set raw" by (metis list.set_intros(1) s set_sort)
  ultimately have "overlap_credit p * of_int (matched_tokens c) \<le> overlap_credit p * of_int (matched_tokens d)"
    if "c \<in> set raw" for c
    using that p cost [OF that] cost [OF d] by (fastforce simp: unified_score_def)
  then have "matched_tokens c \<le> matched_tokens d" if "c \<in> set raw" for c
    using that p(3) by (metis mult_le_cancel_left_pos of_int_le_iff)
  with d rk s show ?thesis by (auto simp: take_Cons')
qed

theorem unified_without_load_prefers_prefix_witness:
  "\<exists>ranked (d :: kv_candidate). select_with_load demo_is demo_tenant 10 4 (default_kv_params\<lparr>load_weight := 0\<rparr>) 1 = Inr (Some ranked) \<and>
     fst (hd ranked) = kv_instance d \<and> matched_tokens d \<ge> 8"
proof -
  let ?p = "default_kv_params\<lparr>load_weight := 0\<rparr>"
  have c: "collect_load_candidates demo_is demo_tenant 10 4 ?p = Inr (demo_raw, True)"
    by (simp add: demo_is_def demo_tenant_def demo_raw_def demo_keys demo_loaded_routable score_candidate_def Let_def
      calculate_workload_score_def or_zero_def py_round_def default_kv_params_def demo_endpoint_def)
  then obtain ranked where r: "select_with_load demo_is demo_tenant 10 4 ?p 1 = Inr (Some ranked)"
    by (simp add: select_with_load_def demo_raw_def)
  have "load_weight ?p = 0" "0 < prefill_load_scale ?p" "0 < overlap_credit ?p" "overlap_credit ?p \<le> 1"
    by (simp_all add: default_kv_params_def)
  from unified_without_load_prefers_prefix [OF c r this] obtain d where
    d: "hd ranked = (kv_instance d, kv_endpoint d, unified_score ?p d)" "\<forall>c\<in>set demo_raw. matched_tokens c \<le> matched_tokens d"
    by auto
  then have "8 \<le> matched_tokens d" by (simp add: demo_raw_def)
  moreover have "fst (hd ranked) = kv_instance d" by (simp add: d(1))
  ultimately show ?thesis using r by blast
qed

end
