(* ===== verification/Rate_Limiter.thy ===== *)
theory Rate_Limiter
  imports Motor_Prelude
begin

text \<open>
  The request rate limiter (\<^verbatim>\<open>motor/coordinator/middleware/rate_limiter.py\<close>): the token bucket and
  the limiter with its congestion alarm. The clock \<open>time.time()\<close> is an argument of each operation; an
  operation that reads it twice takes two readings. Reporting an alarm to the controller may raise; whether it does is an
  argument. Every bucket operation runs under the bucket's lock, so it is one step.
\<close>

section \<open>The token bucket\<close>

record token_bucket =
  bk_capacity :: int
  bk_refill_rate :: rat
  bk_tokens :: rat
  bk_last_refill :: rat

definition init_bucket :: "int \<Rightarrow> rat \<Rightarrow> rat \<Rightarrow> token_bucket" where
  "init_bucket capacity refill_rate now =
     \<lparr>bk_capacity = capacity, bk_refill_rate = refill_rate, bk_tokens = of_int capacity, bk_last_refill = now\<rparr>"

definition try_consume :: "rat \<Rightarrow> int \<Rightarrow> token_bucket \<Rightarrow> token_bucket \<times> bool" where
  "try_consume now n b =
     (let elapsed = now - bk_last_refill b;
          tokens_to_add = elapsed * bk_refill_rate b;
          b1 = b\<lparr>bk_tokens := min (of_int (bk_capacity b)) (bk_tokens b + tokens_to_add), bk_last_refill := now\<rparr>
      in if bk_tokens b1 \<ge> of_int n then (b1\<lparr>bk_tokens := bk_tokens b1 - of_int n\<rparr>, True) else (b1, False))"

text \<open>Python's \<open>int()\<close> of a float truncates towards zero.\<close>

definition trunc :: "rat \<Rightarrow> int" where
  "trunc x = (if 0 \<le> x then \<lfloor>x\<rfloor> else \<lceil>x\<rceil>)"

definition get_available_tokens :: "rat \<Rightarrow> token_bucket \<Rightarrow> int" where
  "get_available_tokens now b =
     trunc (min (of_int (bk_capacity b)) (bk_tokens b + (now - bk_last_refill b) * bk_refill_rate b))"

definition update_params :: "rat \<Rightarrow> int \<Rightarrow> rat \<Rightarrow> token_bucket \<Rightarrow> token_bucket" where
  "update_params now capacity refill_rate b =
     (if capacity < 0 \<or> refill_rate < 0 then b
      else (let elapsed = now - bk_last_refill b;
                tokens1 = (if elapsed > 0 then min (of_int (bk_capacity b)) (bk_tokens b + elapsed * bk_refill_rate b)
                           else bk_tokens b);
                tokens2 = (if tokens1 > of_int capacity then of_int capacity
                           else if capacity > bk_capacity b
                           then min (of_int capacity) (tokens1 + of_int (capacity - bk_capacity b))
                           else tokens1)
            in \<lparr>bk_capacity = capacity, bk_refill_rate = refill_rate, bk_tokens = tokens2, bk_last_refill = now\<rparr>))"

section \<open>The limiter\<close>

definition DEFAULT_REQ_CONGESTION_TRIGGER_RATIO :: rat where "DEFAULT_REQ_CONGESTION_TRIGGER_RATIO = 85 / 100"
definition DEFAULT_REQ_CONGESTION_CLEAR_RATIO :: rat where "DEFAULT_REQ_CONGESTION_CLEAR_RATIO = 75 / 100"

record rate_limiter =
  max_requests :: int
  window_size :: int
  congestion_alarm_sent :: bool
  rl_bucket :: token_bucket

definition init_limiter :: "int \<Rightarrow> int \<Rightarrow> rat \<Rightarrow> py_exn + rate_limiter" where
  "init_limiter max_req window now =
     (if window = 0 then Inl ZeroDivisionError
      else Inr \<lparr>max_requests = max_req, window_size = window, congestion_alarm_sent = False,
                rl_bucket = init_bucket max_req (of_int max_req / of_int window) now\<rparr>)"

text \<open>The answer: whether the request is allowed, and the alarm that was reported, if any.\<close>

datatype congestion_report = NO_REPORT | TRIGGERED int | CLEARED int

definition is_allowed :: "rat \<Rightarrow> rat \<Rightarrow> bool \<Rightarrow> rate_limiter \<Rightarrow> rate_limiter \<times> bool \<times> congestion_report" where
  "is_allowed now now2 report_raises l =
     (case try_consume now 1 (rl_bucket l) of
        (b, allowed) \<Rightarrow>
          (let available = get_available_tokens now2 b;
               trigger = trunc (of_int (max_requests l) * DEFAULT_REQ_CONGESTION_TRIGGER_RATIO);
               clear = trunc (of_int (max_requests l) * DEFAULT_REQ_CONGESTION_CLEAR_RATIO);
               l1 = l\<lparr>rl_bucket := b\<rparr>
           in if \<not> congestion_alarm_sent l \<and> available \<ge> trigger
              then (l1\<lparr>congestion_alarm_sent := True\<rparr>, report_raises \<or> allowed, TRIGGERED available)
              else if congestion_alarm_sent l \<and> available < clear
              then (l1\<lparr>congestion_alarm_sent := False\<rparr>, report_raises \<or> allowed, CLEARED available)
              else (l1, allowed, NO_REPORT)))"

definition limiter_update_config :: "rat \<Rightarrow> int option \<Rightarrow> int option \<Rightarrow> rate_limiter \<Rightarrow> rate_limiter" where
  "limiter_update_config now max_req window l =
     (if max_req = None \<and> window = None then l
      else if (case max_req of Some m \<Rightarrow> m < 0 | None \<Rightarrow> False) then l
      else if (case window of Some w \<Rightarrow> w \<le> 0 | None \<Rightarrow> False) then l
      else (let l1 = l\<lparr>max_requests := (case max_req of Some m \<Rightarrow> m | None \<Rightarrow> max_requests l),
                       window_size := (case window of Some w \<Rightarrow> w | None \<Rightarrow> window_size l)\<rparr>
            in l1\<lparr>rl_bucket := update_params now (max_requests l1) (of_int (max_requests l1) / of_int (window_size l1)) (rl_bucket l1)\<rparr>))"

section \<open>Bounds\<close>

definition bucket_ok :: "token_bucket \<Rightarrow> bool" where
  "bucket_ok b \<longleftrightarrow> 0 \<le> bk_tokens b \<and> bk_tokens b \<le> of_int (bk_capacity b) \<and> 0 \<le> bk_refill_rate b"

lemma try_consume_ok:
  assumes "bucket_ok b" and "bk_last_refill b \<le> now" and "0 \<le> n"
  shows "bucket_ok (fst (try_consume now n b))"
  using assms by (auto simp: bucket_ok_def try_consume_def Let_def min_def)

lemma update_params_ok:
  assumes "bucket_ok b"
  shows "bucket_ok (update_params now capacity rate b)"
  using assms by (auto simp: bucket_ok_def update_params_def Let_def min_def)

lemma limiter_update_ok:
  assumes "bucket_ok (rl_bucket l)" and "0 < window_size l" and "0 \<le> max_requests l"
  shows "bucket_ok (rl_bucket (limiter_update_config now m w l)) \<and> 0 < window_size (limiter_update_config now m w l) \<and>
    0 \<le> max_requests (limiter_update_config now m w l)"
  using assms by (auto simp: limiter_update_config_def Let_def update_params_ok split: option.splits)

text \<open>A run of requests at given times; the result counts the granted ones.\<close>

fun grants :: "rat list \<Rightarrow> token_bucket \<Rightarrow> nat" where
  "grants [] b = 0"
| "grants (now # ts) b = (let (b1, ok) = try_consume now 1 b in (if ok then 1 else 0) + grants ts b1)"

lemma try_consume_credit:
  assumes "bucket_ok b" and "bk_last_refill b \<le> now" and c: "try_consume now 1 b = (b1, ok)"
  shows "bk_tokens b1 + (if ok then 1 else 0) \<le> bk_tokens b + (now - bk_last_refill b) * bk_refill_rate b"
    and "bk_last_refill b1 = now" and "bk_refill_rate b1 = bk_refill_rate b" and "bk_capacity b1 = bk_capacity b"
  using c by (auto simp: try_consume_def Let_def split: if_splits)

lemma grants_credit:
  assumes "bucket_ok b" and "sorted (bk_last_refill b # ts)"
  shows "of_nat (grants ts b) \<le> bk_tokens b + (last (bk_last_refill b # ts) - bk_last_refill b) * bk_refill_rate b"
  using assms
proof (induction ts arbitrary: b)
  case Nil
  then show ?case by (simp add: bucket_ok_def)
next
  case (Cons now ts)
  obtain b1 ok where c: "try_consume now 1 b = (b1, ok)" by fastforce
  have le: "bk_last_refill b \<le> now" using Cons.prems(2) by simp
  note cr = try_consume_credit [OF Cons.prems(1) le c]
  have "bucket_ok b1" using try_consume_ok [OF Cons.prems(1) le, of 1] c by simp
  moreover have "sorted (bk_last_refill b1 # ts)" using Cons.prems(2) cr(2) by simp
  ultimately have "of_nat (grants ts b1) \<le> bk_tokens b1 + (last (now # ts) - now) * bk_refill_rate b"
    using Cons.IH [of b1] cr(2,3) by simp
  with cr(1) show ?case by (simp add: c Let_def algebra_simps split: if_splits)
qed

section \<open>Properties\<close>



text \<open>
  A clock that steps back starves the limiter. When the wall clock goes back by \<open>d\<close> seconds between two requests,
  the next request subtracts \<open>d\<close> seconds of refill from the bucket; if that is more than the bucket holds, the
  request is refused and so is every later one until the clock has made up for the missing tokens.
\<close>

theorem clock_step_back_starves:
  assumes "bucket_ok b" and "0 < bk_refill_rate b" and "bk_tokens b + 1 \<le> d * bk_refill_rate b" and "0 < d"
    and "0 \<le> e" and "e * bk_refill_rate b < d * bk_refill_rate b - bk_tokens b"
  shows "let (b1, ok) = try_consume (bk_last_refill b - d) 1 b
    in \<not> ok \<and> bk_tokens b1 < 0 \<and> \<not> snd (try_consume (bk_last_refill b - d + e) 1 b1)"
  using assms by (auto simp: try_consume_def Let_def bucket_ok_def min_def algebra_simps)

theorem clock_step_back_starves_witness:
  "let (b1, ok) = try_consume (1000 - 60) 1 (init_bucket 2 1 1000)
   in \<not> ok \<and> bk_tokens b1 < 0 \<and> \<not> snd (try_consume (1000 - 60 + 30) 1 b1)"
  using clock_step_back_starves [of "init_bucket 2 1 1000" 60 30] by (simp add: bucket_ok_def init_bucket_def)

text \<open>
  The congestion alarm fires on an idle system. The alarm compares the tokens that are left, not those in use, with the
  trigger ratio: the first request to a fresh limiter of at least seven requests per window reports congestion.
\<close>

theorem idle_limiter_reports_congestion:
  assumes "init_limiter m w now = Inr l" and "7 \<le> m" and "0 < w" and "now \<le> now2"
  shows "\<exists>n. snd (snd (is_allowed now now2 False l)) = TRIGGERED n \<and> n \<ge> m - 1"
proof -
  have l: "l = \<lparr>max_requests = m, window_size = w, congestion_alarm_sent = False, rl_bucket = init_bucket m (of_int m / of_int w) now\<rparr>"
    using assms by (simp add: init_limiter_def)
  let ?b = "init_bucket m (of_int m / of_int w) now"
  have c: "try_consume now 1 ?b = (?b\<lparr>bk_tokens := of_int m - 1\<rparr>, True)"
    using assms(2) by (simp add: try_consume_def init_bucket_def Let_def)
  have "0 \<le> (now2 - now) * (rat_of_int m / rat_of_int w)" using assms by simp
  then have "of_int (m - 1) \<le> min (rat_of_int m) (of_int m - 1 + (now2 - now) * (of_int m / of_int w))" by simp
  then have avail: "m - 1 \<le> get_available_tokens now2 (?b\<lparr>bk_tokens := of_int m - 1\<rparr>)"
    using assms(2) by (simp add: get_available_tokens_def trunc_def init_bucket_def le_floor_iff)
  have "trunc (of_int m * DEFAULT_REQ_CONGESTION_TRIGGER_RATIO) \<le> m - 1"
    using assms(2) by (simp add: trunc_def DEFAULT_REQ_CONGESTION_TRIGGER_RATIO_def) linarith
  with avail show ?thesis by (simp add: is_allowed_def l c Let_def)
qed

theorem idle_limiter_reports_congestion_witness:
  "\<exists>l n. init_limiter 100 60 0 = Inr l \<and> snd (snd (is_allowed 0 0 False l)) = TRIGGERED n \<and> n \<ge> 99"
  using idle_limiter_reports_congestion [of 100 60 0 _ 0] by (simp add: init_limiter_def)

end
