(* ===== verification/Request_Manager.thy ===== *)
theory Request_Manager
  imports Instance_Model Py_Strings
begin

text \<open>
  The request manager (\<^verbatim>\<open>motor/coordinator/domain/request_manager.py\<close>): request ids, the table of
  requests and the table of the load each request holds. Every operation runs under the manager's lock, so it is one
  step; the clock (in microseconds) and the random suffix are arguments. A workload key is
  \<open>(req_id, role)\<close> or \<open>(req_id, attempt, role)\<close>: the attempt is optional here. The
  handlers for unexpected exceptions are not reached.
\<close>

section \<open>State\<close>

type_synonym wl_key = "string \<times> int option \<times> pd_role"

record 'r request_manager =
  rm_counter :: nat
  rm_last_timestamp :: nat
  req_info_dict :: "(string, 'r) dict"
  req_workload_dict :: "(wl_key, workload) dict"

definition init_manager :: "'r request_manager" where
  "init_manager = \<lparr>rm_counter = 0, rm_last_timestamp = 0, req_info_dict = [], req_workload_dict = []\<rparr>"

section \<open>Request ids\<close>

definition generate_request_id :: "nat \<Rightarrow> string \<Rightarrow> 'r request_manager \<Rightarrow> 'r request_manager \<times> string" where
  "generate_request_id current_timestamp random_suffix m =
     (let m1 = (if current_timestamp = rm_last_timestamp m then m\<lparr>rm_counter := rm_counter m + 1\<rparr>
                else m\<lparr>rm_counter := 0, rm_last_timestamp := current_timestamp\<rparr>)
      in (m1, dec current_timestamp @ dec04 (rm_counter m1) @ random_suffix))"

section \<open>Requests and their load\<close>

definition get_req_info :: "string \<Rightarrow> 'r request_manager \<Rightarrow> 'r option" where
  "get_req_info req_id m = dget (req_info_dict m) req_id"

definition add_req_info :: "string \<Rightarrow> 'r \<Rightarrow> 'r request_manager \<Rightarrow> 'r request_manager \<times> bool" where
  "add_req_info req_id info m =
     (if dmem req_id (req_info_dict m) then (m, False)
      else (m\<lparr>req_info_dict := dset req_id info (req_info_dict m)\<rparr>, True))"

definition del_req_info :: "string \<Rightarrow> 'r request_manager \<Rightarrow> 'r request_manager \<times> bool" where
  "del_req_info req_id m =
     (if \<not> dmem req_id (req_info_dict m) then (m, False)
      else (let keys_to_delete = filter (\<lambda>k. fst k = req_id) (dkeys (req_workload_dict m))
            in (m\<lparr>req_info_dict := ddel req_id (req_info_dict m),
                  req_workload_dict := fold ddel keys_to_delete (req_workload_dict m)\<rparr>, True)))"

definition workload_key :: "string \<Rightarrow> pd_role \<Rightarrow> int option \<Rightarrow> wl_key" where
  "workload_key req_id role attempt_seq = (req_id, attempt_seq, role)"

definition add_req_attempt_workload ::
  "string \<Rightarrow> int option \<Rightarrow> pd_role \<Rightarrow> workload \<Rightarrow> 'r request_manager \<Rightarrow> 'r request_manager \<times> bool" where
  "add_req_attempt_workload req_id attempt_seq role wl m =
     (let key = workload_key req_id role attempt_seq
      in if dmem key (req_workload_dict m) then (m, False)
         else (m\<lparr>req_workload_dict := dset key wl (req_workload_dict m)\<rparr>, True))"

definition get_req_attempt_workload :: "string \<Rightarrow> int option \<Rightarrow> pd_role \<Rightarrow> 'r request_manager \<Rightarrow> workload option" where
  "get_req_attempt_workload req_id attempt_seq role m = dget (req_workload_dict m) (workload_key req_id role attempt_seq)"

definition update_req_attempt_workload ::
  "string \<Rightarrow> int option \<Rightarrow> pd_role \<Rightarrow> workload \<Rightarrow> 'r request_manager \<Rightarrow> 'r request_manager \<times> bool" where
  "update_req_attempt_workload req_id attempt_seq role wl m =
     (let key = workload_key req_id role attempt_seq
      in if \<not> dmem key (req_workload_dict m) then (m, False)
         else (m\<lparr>req_workload_dict := dset key wl (req_workload_dict m)\<rparr>, True))"

definition del_req_attempt_workload :: "string \<Rightarrow> int option \<Rightarrow> pd_role \<Rightarrow> 'r request_manager \<Rightarrow> 'r request_manager \<times> bool" where
  "del_req_attempt_workload req_id attempt_seq role m =
     (let key = workload_key req_id role attempt_seq
      in if \<not> dmem key (req_workload_dict m) then (m, False)
         else (m\<lparr>req_workload_dict := ddel key (req_workload_dict m)\<rparr>, True))"

definition add_req_workload :: "string \<Rightarrow> pd_role \<Rightarrow> workload \<Rightarrow> 'r request_manager \<Rightarrow> 'r request_manager \<times> bool" where
  "add_req_workload req_id role wl m = add_req_attempt_workload req_id None role wl m"

definition get_req_workload :: "string \<Rightarrow> pd_role \<Rightarrow> 'r request_manager \<Rightarrow> workload option" where
  "get_req_workload req_id role m = get_req_attempt_workload req_id None role m"

definition update_req_workload :: "string \<Rightarrow> pd_role \<Rightarrow> workload \<Rightarrow> 'r request_manager \<Rightarrow> 'r request_manager \<times> bool" where
  "update_req_workload req_id role wl m = update_req_attempt_workload req_id None role wl m"

definition del_req_workload :: "string \<Rightarrow> pd_role \<Rightarrow> 'r request_manager \<Rightarrow> 'r request_manager \<times> bool" where
  "del_req_workload req_id role m = del_req_attempt_workload req_id None role m"

section \<open>Uniqueness of request ids\<close>

text \<open>
  The id determines the timestamp and the counter, when the timestamps have the same number of digits and
  the random suffixes the same length.
\<close>

lemma request_id_inj:
  assumes "dec ts @ dec04 c @ r = dec ts' @ dec04 c' @ r'" and "length (dec ts) = length (dec ts')" and "length r = length r'"
  shows "ts = ts' \<and> c = c'"
proof -
  have "dec ts = dec ts'" "dec04 c @ r = dec04 c' @ r'" using assms(1,2) by (simp_all add: append_eq_append_conv)
  moreover have "dec04 c = dec04 c'" using calculation(2) assms(3) by (simp add: append_eq_append_conv)
  ultimately show ?thesis by (metis undec_dec undec_dec04)
qed

fun generate_ids :: "(nat \<times> string) list \<Rightarrow> 'r request_manager \<Rightarrow> string list" where
  "generate_ids [] m = []"
| "generate_ids ((ts, r) # xs) m = (let (m1, i) = generate_request_id ts r m in i # generate_ids xs m1)"

lemma generated_later:
  assumes "sorted (rm_last_timestamp m # map fst xs)" and "i \<in> set (generate_ids xs m)"
  shows "\<exists>ts c r. i = dec ts @ dec04 c @ r \<and> (ts, r) \<in> set xs \<and>
    (rm_last_timestamp m < ts \<or> rm_last_timestamp m = ts \<and> rm_counter m < c)"
  using assms
proof (induction xs arbitrary: m)
  case (Cons x xs)
  obtain ts r where x: "x = (ts, r)" by (cases x)
  let ?m1 = "fst (generate_request_id ts r m)"
  have later: "rm_last_timestamp ?m1 = ts" "rm_last_timestamp m \<le> ts"
    "rm_last_timestamp m = ts \<Longrightarrow> rm_counter ?m1 = rm_counter m + 1"
    using Cons.prems(1) by (auto simp: x generate_request_id_def Let_def)
  show ?case
  proof (cases "i = snd (generate_request_id ts r m)")
    case True
    have "i = dec ts @ dec04 (rm_counter ?m1) @ r" using True by (simp add: generate_request_id_def Let_def)
    then show ?thesis using later by (metis less_add_one list.set_intros(1) order_neq_le_trans x)
  next
    case False
    then have "i \<in> set (generate_ids xs ?m1)" using Cons.prems(2) by (auto simp: x Let_def case_prod_unfold)
    moreover have "sorted (rm_last_timestamp ?m1 # map fst xs)" using Cons.prems(1) later(1) by (simp add: x)
    ultimately obtain ts' c r' where "i = dec ts' @ dec04 c @ r'" "(ts', r') \<in> set xs"
      "ts < ts' \<or> ts = ts' \<and> rm_counter ?m1 < c" using Cons.IH [of ?m1] later(1) by metis
    with later show ?thesis by (intro exI [of _ ts'] exI [of _ c] exI [of _ r']) auto
  qed
qed simp

section \<open>Load records\<close>

datatype load_op =
    AddLoad string "int option" pd_role workload
  | UpdateLoad string "int option" pd_role workload
  | ReleaseLoad string "int option" pd_role
  | DropRequest string

fun run_op :: "load_op \<Rightarrow> 'r request_manager \<Rightarrow> 'r request_manager \<times> bool" where
  "run_op (AddLoad r a \<rho> w) m = add_req_attempt_workload r a \<rho> w m"
| "run_op (UpdateLoad r a \<rho> w) m = update_req_attempt_workload r a \<rho> w m"
| "run_op (ReleaseLoad r a \<rho>) m = del_req_attempt_workload r a \<rho> m"
| "run_op (DropRequest r) m = del_req_info r m"

fun run_ops :: "load_op list \<Rightarrow> 'r request_manager \<Rightarrow> 'r request_manager" where
  "run_ops [] m = m"
| "run_ops (p # ps) m = run_ops ps (fst (run_op p m))"

text \<open>How often a key was added and released with success.\<close>

fun added :: "wl_key \<Rightarrow> load_op list \<Rightarrow> 'r request_manager \<Rightarrow> nat" where
  "added k [] m = 0"
| "added k (p # ps) m =
     (case p of AddLoad r a \<rho> w \<Rightarrow> (if (r, a, \<rho>) = k \<and> snd (run_op p m) then 1 else 0) | _ \<Rightarrow> 0) + added k ps (fst (run_op p m))"

fun released :: "wl_key \<Rightarrow> load_op list \<Rightarrow> 'r request_manager \<Rightarrow> nat" where
  "released k [] m = 0"
| "released k (p # ps) m =
     (case p of ReleaseLoad r a \<rho> \<Rightarrow> (if (r, a, \<rho>) = k \<and> snd (run_op p m) then 1 else 0) | _ \<Rightarrow> 0) + released k ps (fst (run_op p m))"

definition held :: "wl_key \<Rightarrow> 'r request_manager \<Rightarrow> nat" where
  "held k m = (if dmem k (req_workload_dict m) then 1 else 0)"

lemma dget_fold_ddel: "dget (fold ddel ks d) k = (if k \<in> set ks then None else dget d k)"
  by (induction ks arbitrary: d) auto

lemma drop_request_dget:
  "dget (req_workload_dict (fst (del_req_info r m))) k =
    (if dmem r (req_info_dict m) \<and> fst k = r then None else dget (req_workload_dict m) k)"
proof -
  have "dget (req_workload_dict m) k = None" if "k \<notin> set (dkeys (req_workload_dict m))"
    using that by (simp add: map_of_eq_None_iff)
  then show ?thesis by (auto simp: del_req_info_def Let_def dget_fold_ddel)
qed

lemmas load_op_defs = add_req_attempt_workload_def update_req_attempt_workload_def del_req_attempt_workload_def workload_key_def

lemma run_op_balance:
  "held k m + added k [p] m \<ge> held k (fst (run_op p m)) + released k [p] m"
  "(\<forall>r. p = DropRequest r \<longrightarrow> r \<noteq> fst k) \<Longrightarrow> held k m + added k [p] m = held k (fst (run_op p m)) + released k [p] m"
  by (cases p; force simp: held_def dmem_def drop_request_dget load_op_defs Let_def)+

lemma run_ops_balance:
  "held k m + added k ps m \<ge> held k (run_ops ps m) + released k ps m"
  "DropRequest (fst k) \<notin> set ps \<Longrightarrow> held k m + added k ps m = held k (run_ops ps m) + released k ps m"
proof (induction ps arbitrary: m)
  case (Cons p ps)
  { case 1 show ?case using run_op_balance(1) [where k = k and m = m and p = p] Cons.IH(1) [where m = "fst (run_op p m)"] by simp }
  { case 2
    then have "\<forall>r. p = DropRequest r \<longrightarrow> r \<noteq> fst k" and ps: "DropRequest (fst k) \<notin> set ps" by auto
    from run_op_balance(2) [OF this(1), where m = m] Cons.IH(2) [OF ps, where m = "fst (run_op p m)"] show ?case by simp }
qed simp_all

section \<open>Properties\<close>

text \<open>
  Request ids are unique. While the clock does not step back, the ids generated by one manager are pairwise distinct,
  whatever the random suffixes (of equal length), however many requests fall into one microsecond.
\<close>

theorem request_ids_distinct:
  assumes "sorted (map fst xs)" and "\<forall>x\<in>set xs. length (dec (fst x)) = 16 \<and> length (snd x) = 8"
  shows "distinct (generate_ids xs m)"
  using assms
proof (induction xs arbitrary: m)
  case (Cons x xs)
  obtain ts r where x: "x = (ts, r)" by (cases x)
  let ?m1 = "fst (generate_request_id ts r m)"
  have last: "rm_last_timestamp ?m1 = ts" by (simp add: generate_request_id_def Let_def)
  have head: "snd (generate_request_id ts r m) = dec ts @ dec04 (rm_counter ?m1) @ r" by (simp add: generate_request_id_def Let_def)
  have "snd (generate_request_id ts r m) \<notin> set (generate_ids xs ?m1)"
  proof
    assume "snd (generate_request_id ts r m) \<in> set (generate_ids xs ?m1)"
    moreover have "sorted (rm_last_timestamp ?m1 # map fst xs)" using Cons.prems(1) last by (simp add: x)
    ultimately obtain ts' c r' where later: "dec ts @ dec04 (rm_counter ?m1) @ r = dec ts' @ dec04 c @ r'" "(ts', r') \<in> set xs"
      "ts < ts' \<or> ts = ts' \<and> rm_counter ?m1 < c" using generated_later [of ?m1 xs] head last by metis
    have "ts = ts' \<and> rm_counter ?m1 = c"
      by (rule request_id_inj [OF later(1)]) (use Cons.prems(2) later(2) x in force)+
    with later(3) show False by auto
  qed
  moreover have "distinct (generate_ids xs ?m1)" using Cons by (simp add: x)
  ultimately show ?case by (simp add: x Let_def case_prod_unfold)
qed simp

theorem request_ids_distinct_witness:
  "distinct (generate_ids [(1700000000000000, ''aaaaaaaa''), (1700000000000000, ''aaaaaaaa'')] (init_manager :: nat request_manager))"
  by (rule request_ids_distinct) (simp_all add: dec.simps)

text \<open>
  Load is released at most as often as it was added. For every request, attempt and role, whatever operations run and
  however the attempts of a request interleave, the number of successful releases never exceeds the number of successful
  additions, and unless the whole request is dropped the difference is exactly whether a record is held; so a late cleanup of
  one attempt releases nothing of another.
\<close>

theorem releases_match_additions:
  fixes m :: "'r request_manager"
  assumes "req_workload_dict m = []"
  shows "released k ps m \<le> added k ps m \<and>
    (DropRequest (fst k) \<notin> set ps \<longrightarrow> added k ps m = released k ps m + held k (run_ops ps m))"
proof -
  have "held k m = 0" using assms by (simp add: held_def)
  with run_ops_balance [where k = k and m = m and ps = ps] show ?thesis by linarith
qed

theorem releases_match_additions_witness:
  "released (''q'', Some 1, ROLE_P)
     [AddLoad ''q'' (Some 1) ROLE_P \<lparr>active_tokens = 1\<rparr>, ReleaseLoad ''q'' (Some 1) ROLE_P, ReleaseLoad ''q'' (Some 1) ROLE_P]
     (init_manager :: nat request_manager) \<le> 1"
  using releases_match_additions [of "init_manager :: nat request_manager" "(''q'', Some 1, ROLE_P)"
      "[AddLoad ''q'' (Some 1) ROLE_P \<lparr>active_tokens = 1\<rparr>, ReleaseLoad ''q'' (Some 1) ROLE_P, ReleaseLoad ''q'' (Some 1) ROLE_P]"]
  by (simp add: init_manager_def load_op_defs Let_def dmem_def)

end
