(* ===== verification/Event_Pusher.thy ===== *)
theory Event_Pusher
  imports Coordinator_Pools
begin

text \<open>
  The controller's \<open>EventPusher\<close> (\<^verbatim>\<open>motor/controller/core/event_pusher.py\<close>): the observer
  that turns instance notifications into events for the coordinator, the thread that sends them, and
  the thread that watches the coordinator and asks for a full SET.

  The pusher keeps references to the manager's live instance objects (a read-only wrapper delegates to
  the object), so a later SET carries their state at the time it is sent; a queued event carries a
  copy. The object store is the argument \<open>h\<close>. Each thread's loop body is one step; answers of
  the coordinator are arguments. The local counter of the detector thread is a field.
\<close>

section \<open>State\<close>

datatype observer_event =
    OBS_INITIAL
  | OBS_READY
  | OBS_SEPARATED
  | OBS_REMOVED
  | OBS_PAUSED
  | OBS_RESUMED

record push_event_msg =
  ev_type :: event_type
  ev_instance :: "instance_obj option"

record ins_event_msg =
  msg_event :: event_type
  msg_instances :: "instance_obj list"

record event_pusher =
  is_coordinator_reset :: bool
  is_first_heartbeat_success :: bool
  event_queue :: "push_event_msg list"
  pusher_instances :: "(string, iref) dict"
  set_sync_interval :: rat
  last_set_sync_time :: rat
  last_sent_fingerprint :: "int list option"
  ready_false_set_sent :: bool
  hb_loss_cnt :: nat
  sent :: "ins_event_msg list"

definition init_pusher :: "rat \<Rightarrow> rat \<Rightarrow> event_pusher" where
  "init_pusher interval now =
     \<lparr>is_coordinator_reset = False, is_first_heartbeat_success = False, event_queue = [], pusher_instances = [],
      set_sync_interval = interval, last_set_sync_time = now, last_sent_fingerprint = None,
      ready_false_set_sent = False, hb_loss_cnt = 0, sent = []\<rparr>"

definition enqueue :: "event_type \<Rightarrow> instance_obj option \<Rightarrow> event_pusher \<Rightarrow> event_pusher" where
  "enqueue et i p = p\<lparr>event_queue := event_queue p @ [\<lparr>ev_type = et, ev_instance = i\<rparr>]\<rparr>"

section \<open>Notifications\<close>

definition pusher_update :: "(iref \<Rightarrow> instance_obj) \<Rightarrow> iref \<Rightarrow> observer_event \<Rightarrow> event_pusher \<Rightarrow> event_pusher" where
  "pusher_update h r ev p =
     (let i = h r; job = job_name i
      in case ev of
           OBS_READY \<Rightarrow>
             enqueue ADD (Some (to_instance i)) (p\<lparr>pusher_instances := dset job r (pusher_instances p)\<rparr>)
         | OBS_SEPARATED \<Rightarrow>
             if dmem job (pusher_instances p)
             then enqueue DEL (Some (to_instance i)) (p\<lparr>pusher_instances := ddel job (pusher_instances p)\<rparr>)
             else p
         | OBS_PAUSED \<Rightarrow>
             if dmem job (pusher_instances p)
             then enqueue PAUSE (Some (to_instance i)) (p\<lparr>pusher_instances := ddel job (pusher_instances p)\<rparr>)
             else p
         | OBS_RESUMED \<Rightarrow>
             enqueue RESUME (Some (to_instance i)) (p\<lparr>pusher_instances := dset job r (pusher_instances p)\<rparr>)
         | OBS_REMOVED \<Rightarrow> enqueue DEL (Some (to_instance i)) p
         | OBS_INITIAL \<Rightarrow> p)"

definition push_event :: "event_type \<Rightarrow> event_pusher \<Rightarrow> event_pusher" where
  "push_event et p = enqueue et None p"

section \<open>The consumer thread\<close>

text \<open>
  What \<open>CoordinatorApiClient.send_instance_refresh\<close> does: it returns True or, after its
  retries, False; an exception of its set-up propagates to the caller.
\<close>

datatype send_outcome = SEND_OK | SEND_FAILED | SEND_RAISES

definition fingerprint :: "(iref \<Rightarrow> instance_obj) \<Rightarrow> event_pusher \<Rightarrow> int list" where
  "fingerprint h p = sort (map (\<lambda>r. ins_id (h r)) (dvalues (pusher_instances p)))"

definition event_message ::
  "(iref \<Rightarrow> instance_obj) \<Rightarrow> push_event_msg \<Rightarrow> event_pusher \<Rightarrow> py_exn + ins_event_msg option" where
  "event_message h e p =
     (if ev_type e = SET then
        (if pusher_instances p = [] then Inr None
         else Inr (Some \<lparr>msg_event = SET, msg_instances = map (\<lambda>r. to_instance (h r)) (dvalues (pusher_instances p))\<rparr>))
      else (case ev_instance e of
              None \<Rightarrow> Inl (ValidationError ''instances'')
            | Some i \<Rightarrow> Inr (Some \<lparr>msg_event = ev_type e, msg_instances = [i]\<rparr>)))"

definition consumer_step ::
  "(iref \<Rightarrow> instance_obj) \<Rightarrow> send_outcome \<Rightarrow> event_pusher \<Rightarrow> event_pusher \<times> (py_exn + unit)" where
  "consumer_step h out p =
     (case event_queue p of
        [] \<Rightarrow> (p, Inr ())
      | e # q \<Rightarrow>
          (let p1 = p\<lparr>event_queue := q\<rparr>
           in case event_message h e p1 of
                Inl x \<Rightarrow> (p1, Inl x)
              | Inr None \<Rightarrow> (p1, Inr ())
              | Inr (Some m) \<Rightarrow>
                  (if out = SEND_RAISES then p1
                   else let p2 = (if out = SEND_OK then p1\<lparr>sent := sent p1 @ [m]\<rparr> else p1)
                        in if ev_type e = SET then p2\<lparr>last_sent_fingerprint := Some (fingerprint h p1)\<rparr> else p2,
                   Inr ())))"

section \<open>The heartbeat detector\<close>

text \<open>The answer to a status query: an exception, or whether the coordinator says it is ready.\<close>

datatype coordinator_status = QUERY_RAISES | QUERY_READY bool

definition query_ok :: "bool \<Rightarrow> event_pusher \<Rightarrow> event_pusher" where
  "query_ok ready p =
     (let p1 = p\<lparr>is_first_heartbeat_success := True\<rparr>;
          p2 = (if \<not> ready then
                  (if \<not> ready_false_set_sent p1
                   then p1\<lparr>is_coordinator_reset := True, ready_false_set_sent := True\<rparr> else p1)
                else p1\<lparr>ready_false_set_sent := False\<rparr>)
      in if is_coordinator_reset p2
         then (enqueue SET None p2)\<lparr>is_coordinator_reset := False, hb_loss_cnt := 0\<rparr>
         else p2)"

definition query_failed :: "event_pusher \<Rightarrow> event_pusher" where
  "query_failed p =
     (if is_first_heartbeat_success p then
        (if hb_loss_cnt p + 1 \<ge> 2 then p\<lparr>is_coordinator_reset := True, hb_loss_cnt := 0\<rparr>
         else p\<lparr>hb_loss_cnt := hb_loss_cnt p + 1\<rparr>)
      else p)"

definition periodic_sync :: "rat \<Rightarrow> event_pusher \<Rightarrow> event_pusher" where
  "periodic_sync now p =
     (if set_sync_interval p > 0 \<and> now - last_set_sync_time p \<ge> set_sync_interval p
      then (enqueue SET None p)\<lparr>last_set_sync_time := now\<rparr> else p)"

definition detector_step :: "coordinator_status \<Rightarrow> rat \<Rightarrow> event_pusher \<Rightarrow> event_pusher" where
  "detector_step resp now p =
     periodic_sync now (case resp of QUERY_RAISES \<Rightarrow> query_failed p | QUERY_READY ready \<Rightarrow> query_ok ready p)"

section \<open>Lemmas\<close>

lemma enqueue_fields [simp]:
  "event_queue (enqueue et i p) = event_queue p @ [\<lparr>ev_type = et, ev_instance = i\<rparr>]"
  "pusher_instances (enqueue et i p) = pusher_instances p" "ready_false_set_sent (enqueue et i p) = ready_false_set_sent p"
  "is_coordinator_reset (enqueue et i p) = is_coordinator_reset p" "set_sync_interval (enqueue et i p) = set_sync_interval p"
  "sent (enqueue et i p) = sent p" "hb_loss_cnt (enqueue et i p) = hb_loss_cnt p"
  "is_first_heartbeat_success (enqueue et i p) = is_first_heartbeat_success p"
  by (simp_all add: enqueue_def)

text \<open>The pusher's view after a notification, job by job.\<close>

lemma pusher_update_instances:
  "dget (pusher_instances (pusher_update h r ev p)) job =
     (if job = job_name (h r) \<and> ev \<in> {OBS_READY, OBS_RESUMED} then Some r
      else if job = job_name (h r) \<and> ev \<in> {OBS_SEPARATED, OBS_PAUSED} then None
      else dget (pusher_instances p) job)"
  by (cases ev) (auto simp: pusher_update_def Let_def dmem_def)

lemma dict_ok_pusher_update: "dict_ok (pusher_instances p) \<Longrightarrow> dict_ok (pusher_instances (pusher_update h r ev p))"
  by (cases ev) (auto simp: pusher_update_def Let_def)

section \<open>Properties\<close>

text \<open>The number of times a sequence of answers falls from ready to not ready; \<open>low\<close> tells how it starts.\<close>

fun falling_edges :: "bool \<Rightarrow> bool list \<Rightarrow> nat" where
  "falling_edges low [] = 0"
| "falling_edges low (ready # rs) =
     (if ready then falling_edges False rs else (if low then 0 else 1) + falling_edges True rs)"

abbreviation set_event :: push_event_msg where
  "set_event \<equiv> \<lparr>ev_type = SET, ev_instance = None\<rparr>"

lemma query_ok_queue:
  "\<not> is_coordinator_reset p \<Longrightarrow>
   event_queue (query_ok ready p) = event_queue p @ (if \<not> ready \<and> \<not> ready_false_set_sent p then [set_event] else []) \<and>
   ready_false_set_sent (query_ok ready p) = (\<not> ready) \<and> \<not> is_coordinator_reset (query_ok ready p) \<and>
   set_sync_interval (query_ok ready p) = set_sync_interval p"
  by (auto simp: query_ok_def Let_def)

lemma detector_run:
  assumes "set_sync_interval p \<le> 0" and "\<not> is_coordinator_reset p"
  shows "event_queue (fold (\<lambda>ready p. detector_step (QUERY_READY ready) now p) rs p) =
    event_queue p @ replicate (falling_edges (ready_false_set_sent p) rs) set_event"
  using assms
proof (induction rs arbitrary: p)
  case (Cons ready rs)
  let ?q = "query_ok ready p"
  have step: "detector_step (QUERY_READY ready) now p = ?q"
    using Cons.prems query_ok_queue [of p ready] by (simp add: detector_step_def periodic_sync_def)
  note q = query_ok_queue [OF Cons.prems(2), of ready]
  have "event_queue (fold (\<lambda>ready p. detector_step (QUERY_READY ready) now p) rs ?q) =
      event_queue ?q @ replicate (falling_edges (ready_false_set_sent ?q) rs) set_event"
    using Cons.prems q by (intro Cons.IH) simp_all
  with q show ?case by (auto simp: step)
qed simp

text \<open>
  A coordinator that stays not ready is sent one SET, not one per heartbeat. With the periodic
  sync off, the detector queues exactly one SET for each time the answers fall from ready to not ready.
\<close>

theorem one_set_per_not_ready_period:
  assumes "interval \<le> 0"
  shows "event_queue (fold (\<lambda>ready p. detector_step (QUERY_READY ready) now p) rs (init_pusher interval t0)) =
    replicate (falling_edges False rs) set_event"
  using detector_run [of "init_pusher interval t0" now rs] assms by (simp add: init_pusher_def)

theorem one_set_per_not_ready_period_witness:
  "length (event_queue (fold (\<lambda>ready p. detector_step (QUERY_READY ready) 0 p)
     [False, False, True, False, False] (init_pusher 0 0))) = 2"
  by (subst one_set_per_not_ready_period) simp_all

text \<open>
  A restart of the coordinator is answered. Once a heartbeat has succeeded, two consecutive lost
  heartbeats followed by an answer queue a SET, whatever that answer is.
\<close>

theorem lost_heartbeats_trigger_set:
  assumes "is_first_heartbeat_success p" and "hb_loss_cnt p = 0"
  shows "set_event \<in> set (event_queue (detector_step (QUERY_READY ready) t3 (detector_step QUERY_RAISES t2
      (detector_step QUERY_RAISES t1 p))))"
proof -
  let ?p1 = "detector_step QUERY_RAISES t1 p"
  let ?p2 = "detector_step QUERY_RAISES t2 ?p1"
  have p1: "hb_loss_cnt ?p1 = 1" "is_first_heartbeat_success ?p1"
    using assms by (simp_all add: detector_step_def query_failed_def periodic_sync_def)
  then have "is_coordinator_reset ?p2"
    by (simp add: detector_step_def [of _ t2] query_failed_def [of ?p1] periodic_sync_def)
  then have "set_event \<in> set (event_queue (query_ok ready ?p2))"
    by (auto simp: query_ok_def Let_def)
  then show ?thesis by (simp add: detector_step_def [of _ t3] periodic_sync_def)
qed

theorem lost_heartbeats_trigger_set_witness:
  "set_event \<in> set (event_queue (detector_step (QUERY_READY True) 3 (detector_step QUERY_RAISES 2
     (detector_step QUERY_RAISES 1 (detector_step (QUERY_READY True) 0 (init_pusher 0 0))))))"
  by (rule lost_heartbeats_trigger_set)
    (simp_all add: detector_step_def query_ok_def periodic_sync_def init_pusher_def Let_def)

text \<open>
  A SET that could not be delivered is recorded as sent. When every attempt of
  \<open>send_instance_refresh\<close> fails, the queued event is gone, nothing has been sent, and the
  fingerprint of the last sent SET is that of the undelivered one.
\<close>

theorem failed_set_recorded_as_sent:
  assumes "event_queue p = set_event # q" and "pusher_instances p \<noteq> []"
  shows "let p' = fst (consumer_step h SEND_FAILED p)
    in event_queue p' = q \<and> sent p' = sent p \<and> last_sent_fingerprint p' = Some (fingerprint h p)"
  using assms by (simp add: consumer_step_def event_message_def fingerprint_def Let_def)

theorem failed_set_recorded_as_sent_witness:
  "last_sent_fingerprint (fst (consumer_step (\<lambda>_. demo_instance 7 ''j'' ''decode'') SEND_FAILED
     (push_event SET (pusher_update (\<lambda>_. demo_instance 7 ''j'' ''decode'') 0 OBS_READY (init_pusher 0 0))
        \<lparr>event_queue := [set_event]\<rparr>))) = Some [7]"
proof -
  let ?h = "\<lambda>_. demo_instance 7 ''j'' ''decode''"
  let ?p = "push_event SET (pusher_update ?h 0 OBS_READY (init_pusher 0 0))\<lparr>event_queue := [set_event]\<rparr>"
  have "pusher_instances ?p = [(''j'', 0)]"
    by (simp add: push_event_def pusher_update_def init_pusher_def demo_defs)
  with failed_set_recorded_as_sent [of ?p "[]" ?h] show ?thesis
    by (simp add: Let_def fingerprint_def demo_defs)
qed

end
