(* ===== verification/Controller_Manager.thy ===== *)
theory Controller_Manager
  imports Event_Pusher
begin

text \<open>
  The controller's \<open>InstanceManager\<close> (\<^verbatim>\<open>motor/controller/core/instance_manager.py\<close>): the
  life cycle of an instance as a state machine driven by heartbeats, heartbeat timeouts and forced
  separation, with the notifications, alarms and persistence each transition causes.

  The manager's dictionary, the observers and the event pusher share the instance objects, so the model
  keeps an object store as the coordinator's pools do. Each public operation and each pass of the
  management loop is one atomic step. The environment of a step supplies the clock, one reading per
  endpoint where the code reads the clock in a loop, and the answers of the node managers. The SHA-256
  digest of the persisted state is the parameter \<open>digest\<close>. Calls of \<open>Observability\<close> and of the
  ETCD client are recorded.
\<close>

section \<open>State\<close>

datatype observer = EVENT_PUSHER | OTHER_OBSERVER nat

record persistent_state =
  ps_data :: "(int \<times> instance_obj option) list"
  ps_version :: int
  ps_timestamp :: rat
  ps_checksum :: string

record controller =
  ctrl_heap :: "iref \<Rightarrow> instance_obj"
  instances :: "(int, iref) dict"
  observers :: "observer list"
  forced_separated_instances :: "int set"
  enable_etcd_persistence :: bool
  data_version :: int
  ctrl_pusher :: event_pusher
  notified :: "(nat \<times> iref \<times> observer_event) list"
  alarms :: "alarm list"
  etcd_writes :: "persistent_state list"

datatype nm_response = NM_STATUS bool | NM_INVALID | NM_RAISES

record env =
  now :: rat
  clock :: "ep_loc \<Rightarrow> rat"
  query_status :: "node_manager \<Rightarrow> nm_response"

type_synonym digest_fun = "(int \<times> instance_obj option) list \<Rightarrow> int \<Rightarrow> rat \<Rightarrow> string"

definition init_controller :: "(iref \<Rightarrow> instance_obj) \<Rightarrow> bool \<Rightarrow> event_pusher \<Rightarrow> controller" where
  "init_controller h persist p =
     \<lparr>ctrl_heap = h, instances = [], observers = [], forced_separated_instances = {}, enable_etcd_persistence = persist,
      data_version = 0, ctrl_pusher = p, notified = [], alarms = [], etcd_writes = []\<rparr>"

fun transitions :: "ins_status \<Rightarrow> ins_condition_event \<Rightarrow> ins_status option" where
  "transitions INITIAL INSTANCE_INIT = Some INITIAL"
| "transitions INITIAL INSTANCE_NORMAL = Some ACTIVE"
| "transitions INITIAL INSTANCE_ABNORMAL = Some INACTIVE"
| "transitions INITIAL INSTANCE_HEARTBEAT_TIMEOUT = Some DELETED"
| "transitions ACTIVE INSTANCE_NORMAL = Some ACTIVE"
| "transitions ACTIVE INSTANCE_HEARTBEAT_TIMEOUT = Some INACTIVE"
| "transitions ACTIVE INSTANCE_ABNORMAL = Some INACTIVE"
| "transitions INACTIVE INSTANCE_ABNORMAL = Some INACTIVE"
| "transitions INACTIVE INSTANCE_NORMAL = Some ACTIVE"
| "transitions INACTIVE INSTANCE_INIT = Some INITIAL"
| "transitions INACTIVE INSTANCE_HEARTBEAT_TIMEOUT = Some DELETED"
| "transitions ACTIVE INSTANCE_PAUSED = Some PAUSED"
| "transitions INACTIVE INSTANCE_PAUSED = Some PAUSED"
| "transitions INITIAL INSTANCE_PAUSED = Some PAUSED"
| "transitions PAUSED INSTANCE_PAUSED = Some PAUSED"
| "transitions PAUSED INSTANCE_RESUMED = Some ACTIVE"
| "transitions PAUSED INSTANCE_NORMAL = Some ACTIVE"
| "transitions PAUSED INSTANCE_HEARTBEAT_TIMEOUT = Some DELETED"
| "transitions PAUSED INSTANCE_ABNORMAL = Some INACTIVE"
| "transitions _ _ = None"

definition set_status :: "iref \<Rightarrow> ins_status \<Rightarrow> controller \<Rightarrow> controller" where
  "set_status r st c = c\<lparr>ctrl_heap := (ctrl_heap c)(r := update_instance_status st (ctrl_heap c r))\<rparr>"

definition set_instance :: "iref \<Rightarrow> instance_obj \<Rightarrow> controller \<Rightarrow> controller" where
  "set_instance r i c = c\<lparr>ctrl_heap := (ctrl_heap c)(r := i)\<rparr>"

definition add_alarms :: "alarm list \<Rightarrow> controller \<Rightarrow> controller" where
  "add_alarms as c = c\<lparr>alarms := alarms c @ as\<rparr>"

section \<open>Observers and persistence\<close>

definition attach :: "observer \<Rightarrow> controller \<Rightarrow> controller" where
  "attach ob c = (if ob \<in> set (observers c) then c else c\<lparr>observers := observers c @ [ob]\<rparr>)"

definition observer_update :: "iref \<Rightarrow> observer_event \<Rightarrow> observer \<Rightarrow> controller \<Rightarrow> controller" where
  "observer_update r ev ob c =
     (case ob of
        EVENT_PUSHER \<Rightarrow> c\<lparr>ctrl_pusher := pusher_update (ctrl_heap c) r ev (ctrl_pusher c)\<rparr>
      | OTHER_OBSERVER k \<Rightarrow> c\<lparr>notified := notified c @ [(k, r, ev)]\<rparr>)"

definition notify :: "iref \<Rightarrow> observer_event \<Rightarrow> controller \<Rightarrow> controller" where
  "notify r ev c = fold (observer_update r ev) (observers c) c"

definition calculate_checksum :: "digest_fun \<Rightarrow> persistent_state \<Rightarrow> string" where
  "calculate_checksum digest ps = digest (ps_data ps) (ps_version ps) (ps_timestamp ps)"

definition is_valid :: "digest_fun \<Rightarrow> persistent_state \<Rightarrow> bool" where
  "is_valid digest ps \<longleftrightarrow> ps_checksum ps = calculate_checksum digest ps"

definition get_next_version :: "controller \<Rightarrow> int \<times> controller" where
  "get_next_version c = (data_version c + 1, c\<lparr>data_version := data_version c + 1\<rparr>)"

text \<open>
  \<open>model_dump\<close> followed by the constructor: the fields are kept, the private attributes (the
  cached endpoint tuple and its version) start afresh.
\<close>

definition dump_instance :: "instance_obj \<Rightarrow> instance_obj" where
  "dump_instance i = i\<lparr>endpoints_version := 0, cached_endpoints_tuple := None, cached_endpoints_version := None\<rparr>"

definition persist_data :: "digest_fun \<Rightarrow> rat \<Rightarrow> controller \<Rightarrow> controller" where
  "persist_data digest t c =
     (case get_next_version c of
        (next_version, c1) \<Rightarrow>
          (let ps = \<lparr>ps_data = map (\<lambda>(n, r). (n, Some (dump_instance (ctrl_heap c1 r)))) (instances c1),
                     ps_version = next_version, ps_timestamp = t, ps_checksum = ''''\<rparr>
           in c1\<lparr>etcd_writes := etcd_writes c1 @ [ps\<lparr>ps_checksum := calculate_checksum digest ps\<rparr>]\<rparr>))"

definition refresh_heartbeats :: "(ep_loc \<Rightarrow> rat) \<Rightarrow> instance_obj \<Rightarrow> instance_obj" where
  "refresh_heartbeats clk i = map_endpoints (\<lambda>loc e. e\<lparr>hb_timestamp := clk loc\<rparr>) i"

definition maybe_refresh_heartbeat :: "iref \<Rightarrow> rat \<Rightarrow> bool \<Rightarrow> controller \<Rightarrow> controller" where
  "maybe_refresh_heartbeat r t should_notify c =
     (if ins_status (ctrl_heap c r) = ACTIVE then
        (let c1 = set_instance r (refresh_heartbeats (\<lambda>_. t) (ctrl_heap c r)) c
         in if should_notify then notify r OBS_READY c1 else c1)
      else c)"

text \<open>
  What the ETCD client returns for the manager's key: nothing, a dictionary without the state, a value
  of another type, or a persisted state.
\<close>

datatype restored = NO_DATA | NO_STATE | BAD_FORMAT | RESTORED persistent_state

fun restore_loop :: "(int \<times> instance_obj option) list \<Rightarrow> iref \<Rightarrow> rat \<Rightarrow> controller \<Rightarrow> controller" where
  "restore_loop [] base t c = c"
| "restore_loop ((n, None) # es) base t c = restore_loop es base t c"
| "restore_loop ((n, Some i) # es) base t c =
     (let c1 = maybe_refresh_heartbeat base t True (set_instance base i c)
      in restore_loop es (Suc base) t (c1\<lparr>instances := dset (ins_id i) base (instances c1)\<rparr>))"

definition restore_data :: "digest_fun \<Rightarrow> restored \<Rightarrow> iref \<Rightarrow> rat \<Rightarrow> controller \<Rightarrow> controller \<times> bool" where
  "restore_data digest res base t c =
     (case res of
        NO_DATA \<Rightarrow> (c, True)
      | NO_STATE \<Rightarrow> (c, False)
      | BAD_FORMAT \<Rightarrow> (c, False)
      | RESTORED ps \<Rightarrow>
          if \<not> is_valid digest ps then (c, False)
          else (let c1 = c\<lparr>data_version := max (data_version c) (ps_version ps), instances := []\<rparr>;
                    c2 = restore_loop (ps_data ps) base t c1
                in (if EVENT_PUSHER \<in> set (observers c2) then c2\<lparr>ctrl_pusher := push_event SET (ctrl_pusher c2)\<rparr> else c2, True)))"

definition start :: "digest_fun \<Rightarrow> restored \<Rightarrow> iref \<Rightarrow> rat \<Rightarrow> controller \<Rightarrow> controller" where
  "start digest res base t c =
     (if enable_etcd_persistence c then fst (restore_data digest res base t c)
      else fold (\<lambda>r c. maybe_refresh_heartbeat r t False c) (dvalues (instances c)) c)"

section \<open>Queries\<close>

definition with_status :: "ins_status set \<Rightarrow> controller \<Rightarrow> iref list" where
  "with_status sts c = filter (\<lambda>r. ins_status (ctrl_heap c r) \<in> sts) (dvalues (instances c))"

definition get_instance_num :: "controller \<Rightarrow> nat" where
  "get_instance_num c = length (instances c)"

definition get_active_instances :: "controller \<Rightarrow> iref list" where
  "get_active_instances c = with_status {ACTIVE} c"

definition get_initial_instances :: "controller \<Rightarrow> iref list" where
  "get_initial_instances c = with_status {INITIAL} c"

definition get_inactive_instances :: "controller \<Rightarrow> iref list" where
  "get_inactive_instances c = with_status {INACTIVE} c"

definition get_instances :: "ins_status set option \<Rightarrow> controller \<Rightarrow> iref list" where
  "get_instances sts c = with_status (case sts of None \<Rightarrow> {INITIAL, ACTIVE, INACTIVE} | Some s \<Rightarrow> s) c"

definition get_instances_by_role :: "string \<Rightarrow> controller \<Rightarrow> iref list" where
  "get_instances_by_role role c = filter (\<lambda>r. ins_role (ctrl_heap c r) = role) (dvalues (instances c))"

definition get_instance :: "int \<Rightarrow> controller \<Rightarrow> iref option" where
  "get_instance n c = dget (instances c) n"

definition get_instance_by_podip :: "string \<Rightarrow> controller \<Rightarrow> iref option" where
  "get_instance_by_podip ip c = find (\<lambda>r. is_ip_in_endpoints ip (ctrl_heap c r)) (dvalues (instances c))"

definition find_newer_instance_by_job_name :: "string \<Rightarrow> int \<Rightarrow> controller \<Rightarrow> iref option" where
  "find_newer_instance_by_job_name job n c =
     find (\<lambda>r. job_name (ctrl_heap c r) = job \<and> n < ins_id (ctrl_heap c r)) (dvalues (instances c))"

definition get_instance_by_job_name :: "string \<Rightarrow> controller \<Rightarrow> iref option" where
  "get_instance_by_job_name job c =
     fold (\<lambda>r current. if job_name (ctrl_heap c r) = job then Some r else current) (dvalues (instances c)) None"

definition has_instance_by_job_name :: "string \<Rightarrow> controller \<Rightarrow> bool" where
  "has_instance_by_job_name job c = list_ex (\<lambda>r. job_name (ctrl_heap c r) = job) (dvalues (instances c))"

definition has_active_instance_by_job_name :: "string \<Rightarrow> controller \<Rightarrow> bool" where
  "has_active_instance_by_job_name job c =
     list_ex (\<lambda>r. job_name (ctrl_heap c r) = job \<and> ins_status (ctrl_heap c r) = ACTIVE) (dvalues (instances c))"

section \<open>Adding and removing\<close>

text \<open>The status report that marks every endpoint of a pod INITIAL; it names every endpoint, so it cannot raise.\<close>

definition initial_report :: "string \<Rightarrow> instance_obj \<Rightarrow> (int, endpoint_status) dict" where
  "initial_report pod i = fold (\<lambda>e d. dset (ep_id e) EP_INITIAL d) (dvalues (get_endpoints pod i)) []"

definition refresh_initial :: "rat \<Rightarrow> instance_obj \<Rightarrow> instance_obj" where
  "refresh_initial t i = fold (\<lambda>pod i. fst (update_heartbeat pod t (initial_report pod i) i)) (dkeys (endpoints i)) i"

definition add_instance :: "iref \<Rightarrow> rat \<Rightarrow> controller \<Rightarrow> controller" where
  "add_instance r t c =
     (let n = ins_id (ctrl_heap c r)
      in if dmem n (instances c) then c
         else notify r OBS_INITIAL
                (set_instance r (refresh_initial t (ctrl_heap c r)) (c\<lparr>instances := dset n r (instances c)\<rparr>)))"

definition del_instance :: "int \<Rightarrow> controller \<Rightarrow> controller" where
  "del_instance n c =
     (if dmem n (instances c)
      then c\<lparr>instances := ddel n (instances c), forced_separated_instances := forced_separated_instances c - {n}\<rparr>
      else c)"

section \<open>Alarms and node manager checks\<close>

definition report_inst_alarm :: "iref \<Rightarrow> bool \<Rightarrow> controller \<Rightarrow> controller" where
  "report_inst_alarm r is_cleared c = add_alarms [InstanceExceptionAlarm (job_name (ctrl_heap c r)) is_cleared] c"

definition role_to_partner :: "string \<Rightarrow> string option" where
  "role_to_partner role =
     (if role = ''prefill'' then Some ''decode'' else if role = ''decode'' then Some ''prefill'' else None)"

definition report_coordinator_alarm :: "iref \<Rightarrow> bool \<Rightarrow> controller \<Rightarrow> controller" where
  "report_coordinator_alarm r is_cleared c =
     (case (if is_cleared then role_to_partner (ins_role (ctrl_heap c r)) else Some (ins_role (ctrl_heap c r))) of
        None \<Rightarrow> c
      | Some role \<Rightarrow>
          (let has_role = list_ex (\<lambda>r'. ins_role (ctrl_heap c r') = role) (get_active_instances c)
           in if has_role \<noteq> is_cleared then c else add_alarms [CoordinatorExceptionAlarm is_cleared] c))"

fun any_node_manager_bad :: "(node_manager \<Rightarrow> nm_response) \<Rightarrow> node_manager list \<Rightarrow> bool" where
  "any_node_manager_bad q [] = False"
| "any_node_manager_bad q (nm # nms) =
     (case q nm of
        NM_STATUS is_normal \<Rightarrow> if \<not> is_normal then True else any_node_manager_bad q nms
      | NM_INVALID \<Rightarrow> True
      | NM_RAISES \<Rightarrow> True)"

definition check_node_managers_status :: "(node_manager \<Rightarrow> nm_response) \<Rightarrow> instance_obj \<Rightarrow> bool" where
  "check_node_managers_status q i =
     (if node_managers i = [] then True else any_node_manager_bad q (node_managers i))"

section \<open>State handlers\<close>

definition handle_initial :: "ins_status \<Rightarrow> ins_condition_event \<Rightarrow> iref \<Rightarrow> controller \<Rightarrow> controller" where
  "handle_initial from ev r c =
     (if from = INITIAL then c
      else if from = INACTIVE \<and> ev = INSTANCE_INIT then set_status r INITIAL c
      else c)"

definition handle_active :: "ins_status \<Rightarrow> ins_condition_event \<Rightarrow> iref \<Rightarrow> controller \<Rightarrow> controller" where
  "handle_active from ev r c =
     (if from = ACTIVE then c
      else if ev \<in> {INSTANCE_NORMAL, INSTANCE_RESUMED} then
        (let c1 = set_status r ACTIVE c;
             c2 = notify r (if ev = INSTANCE_RESUMED then OBS_RESUMED else OBS_READY) c1
         in report_coordinator_alarm r True (report_inst_alarm r True c2))
      else c)"

definition handle_inactive :: "env \<Rightarrow> ins_status \<Rightarrow> ins_condition_event \<Rightarrow> iref \<Rightarrow> controller \<Rightarrow> controller" where
  "handle_inactive \<epsilon> from ev r c =
     (if from = INACTIVE then c
      else if ev = INSTANCE_ABNORMAL then notify r OBS_SEPARATED (set_status r INACTIVE c)
      else if ev = INSTANCE_HEARTBEAT_TIMEOUT then
        (if check_node_managers_status (query_status \<epsilon>) (ctrl_heap c r)
         then report_coordinator_alarm r False
                (report_inst_alarm r False (notify r OBS_SEPARATED (set_status r INACTIVE c)))
         else set_instance r (refresh_heartbeats (clock \<epsilon>) (ctrl_heap c r)) c)
      else c)"

definition handle_paused :: "ins_status \<Rightarrow> ins_condition_event \<Rightarrow> iref \<Rightarrow> controller \<Rightarrow> controller" where
  "handle_paused from ev r c =
     (if ev = INSTANCE_PAUSED \<and> from \<noteq> PAUSED
      then report_inst_alarm r False (notify r OBS_PAUSED (set_status r PAUSED c))
      else c)"

definition handle_deleted :: "ins_status \<Rightarrow> ins_condition_event \<Rightarrow> iref \<Rightarrow> controller \<Rightarrow> controller" where
  "handle_deleted from ev r c =
     (if from = DELETED then c
      else if ev \<in> {INSTANCE_HEARTBEAT_TIMEOUT, INSTANCE_ABNORMAL}
      then del_instance (ins_id (ctrl_heap c r)) (notify r OBS_REMOVED (set_status r DELETED c))
      else c)"

text \<open>The handler table \<open>states\<close>.\<close>

definition run_handler ::
  "env \<Rightarrow> ins_status \<Rightarrow> ins_status \<Rightarrow> ins_condition_event \<Rightarrow> iref \<Rightarrow> controller \<Rightarrow> controller" where
  "run_handler \<epsilon> to from ev r c =
     (case to of
        INITIAL \<Rightarrow> handle_initial from ev r c
      | ACTIVE \<Rightarrow> handle_active from ev r c
      | INACTIVE \<Rightarrow> handle_inactive \<epsilon> from ev r c
      | PAUSED \<Rightarrow> handle_paused from ev r c
      | DELETED \<Rightarrow> handle_deleted from ev r c)"

section \<open>Transitions\<close>

text \<open>The event that the endpoint statuses amount to; the abnormality check raises its alarms on the way.\<close>

definition detect_event :: "instance_obj \<Rightarrow> ins_condition_event \<times> alarm list" where
  "detect_event i =
     (if is_all_endpoints_paused i then (INSTANCE_PAUSED, [])
      else if is_all_endpoints_ready i then (INSTANCE_NORMAL, [])
      else (case is_have_one_endpoint_abnormal i of
              (True, as) \<Rightarrow> (INSTANCE_ABNORMAL, as)
            | (False, as) \<Rightarrow> (if is_any_endpoint_paused i then INSTANCE_PAUSED else INSTANCE_INIT, as)))"

definition handle_state_transition ::
  "digest_fun \<Rightarrow> env \<Rightarrow> iref \<Rightarrow> ins_condition_event option \<Rightarrow> controller \<Rightarrow> controller \<times> bool" where
  "handle_state_transition digest \<epsilon> r event_override c0 =
     (let from = ins_status (ctrl_heap c0 r);
          n = ins_id (ctrl_heap c0 r);
          (ev, as) = (case event_override of Some ev \<Rightarrow> (ev, []) | None \<Rightarrow> detect_event (ctrl_heap c0 r));
          c = add_alarms as c0
      in case transitions from ev of
           None \<Rightarrow> (c, False)
         | Some to \<Rightarrow>
             if n \<in> forced_separated_instances c \<and> to = ACTIVE then (c, True)
             else (let c1 = run_handler \<epsilon> to from ev r c;
                       c2 = (if from \<noteq> ins_status (ctrl_heap c1 r) \<and> enable_etcd_persistence c1
                             then persist_data digest (now \<epsilon>) c1 else c1);
                       c3 = (if to = DELETED \<and> n \<in> forced_separated_instances c2
                             then c2\<lparr>forced_separated_instances := forced_separated_instances c2 - {n}\<rparr> else c2)
                   in (c3, True)))"

section \<open>Operations\<close>

definition HEARTBEAT_HANDLER_SUCCESS :: int where
  "HEARTBEAT_HANDLER_SUCCESS = 200"

definition HEARTBEAT_HANDLER_ERROR :: int where
  "HEARTBEAT_HANDLER_ERROR = 500"

definition HEARTBEAT_HANDLER_RE_REGISTER :: int where
  "HEARTBEAT_HANDLER_RE_REGISTER = 503"

record heartbeat_msg =
  hb_ins_id :: int
  hb_ip :: string
  hb_status :: "(int, endpoint_status) dict"

definition handle_heartbeat :: "digest_fun \<Rightarrow> env \<Rightarrow> heartbeat_msg \<Rightarrow> controller \<Rightarrow> controller \<times> (py_exn + int)" where
  "handle_heartbeat digest \<epsilon> msg c =
     (case dget (instances c) (hb_ins_id msg) of
        None \<Rightarrow> (c, Inl (HTTPException HEARTBEAT_HANDLER_RE_REGISTER))
      | Some r \<Rightarrow>
          (case update_heartbeat (hb_ip msg) (now \<epsilon>) (hb_status msg) (ctrl_heap c r) of
             (i, Inl x) \<Rightarrow> (set_instance r i c, Inl x)
           | (i, Inr False) \<Rightarrow> (set_instance r i c, Inl (HTTPException HEARTBEAT_HANDLER_ERROR))
           | (i, Inr True) \<Rightarrow>
               (case handle_state_transition digest \<epsilon> r None (set_instance r i c) of
                  (c1, True) \<Rightarrow> (c1, Inr HEARTBEAT_HANDLER_SUCCESS)
                | (c1, False) \<Rightarrow> (c1, Inl (HTTPException HEARTBEAT_HANDLER_ERROR)))))"

text \<open>One pass of \<open>_instances_management_loop\<close> over the snapshot of the dictionary.\<close>

definition manage_instance :: "digest_fun \<Rightarrow> env \<Rightarrow> iref \<Rightarrow> controller \<Rightarrow> controller" where
  "manage_instance digest \<epsilon> r c =
     (if ins_status (ctrl_heap c r) = DELETED then c
      else (case is_all_endpoints_alive (now \<epsilon>) None (ctrl_heap c r) of
              (True, as) \<Rightarrow> add_alarms as c
            | (False, as) \<Rightarrow>
                fst (handle_state_transition digest \<epsilon> r (Some INSTANCE_HEARTBEAT_TIMEOUT) (add_alarms as c))))"

definition management_pass :: "digest_fun \<Rightarrow> (iref \<Rightarrow> env) \<Rightarrow> controller \<Rightarrow> controller" where
  "management_pass digest envs c = fold (\<lambda>r c. manage_instance digest (envs r) r c) (dvalues (instances c)) c"

definition separate_instance :: "digest_fun \<Rightarrow> rat \<Rightarrow> int \<Rightarrow> controller \<Rightarrow> controller" where
  "separate_instance digest t n c =
     (case get_instance n c of
        None \<Rightarrow> c
      | Some r \<Rightarrow>
          (let c1 = c\<lparr>forced_separated_instances := insert (ins_id (ctrl_heap c r)) (forced_separated_instances c)\<rparr>
           in if ins_status (ctrl_heap c1 r) = ACTIVE
              then (let c2 = notify r OBS_SEPARATED (set_status r INACTIVE c1)
                    in if enable_etcd_persistence c2 then persist_data digest t c2 else c2)
              else c1))"

definition is_instance_separated :: "int \<Rightarrow> controller \<Rightarrow> bool" where
  "is_instance_separated n c =
     (case get_instance n c of
        None \<Rightarrow> False
      | Some r \<Rightarrow> ins_id (ctrl_heap c r) \<in> forced_separated_instances c)"

definition recover_instance :: "int \<Rightarrow> controller \<Rightarrow> controller" where
  "recover_instance n c =
     (case get_instance n c of
        None \<Rightarrow> c
      | Some r \<Rightarrow>
          (let iid = ins_id (ctrl_heap c r);
               without = c\<lparr>forced_separated_instances := forced_separated_instances c - {iid}\<rparr>
           in case find_newer_instance_by_job_name (job_name (ctrl_heap c r)) iid c of
                Some _ \<Rightarrow> without
              | None \<Rightarrow> if iid \<in> forced_separated_instances c then without else c))"

end
