(* ===== verification/Controller_Properties.thy ===== *)
theory Controller_Properties
  imports Controller_Manager Pool_Invariant
begin

text \<open>
  The life cycle of an instance in the controller: what one transition changes, the invariants of
  every reachable state, and the properties of heartbeats, timeouts, separation and persistence.
\<close>

section \<open>Frame lemmas\<close>

lemma set_status_fields [simp]:
  "ctrl_heap (set_status r st c) = (ctrl_heap c)(r := (ctrl_heap c r)\<lparr>ins_status := st\<rparr>)"
  "instances (set_status r st c) = instances c" "observers (set_status r st c) = observers c"
  "forced_separated_instances (set_status r st c) = forced_separated_instances c"
  "enable_etcd_persistence (set_status r st c) = enable_etcd_persistence c"
  "ctrl_pusher (set_status r st c) = ctrl_pusher c" "notified (set_status r st c) = notified c"
  "data_version (set_status r st c) = data_version c"
  by (simp_all add: set_status_def update_instance_status_def)

lemma set_instance_fields [simp]:
  "ctrl_heap (set_instance r i c) = (ctrl_heap c)(r := i)"
  "instances (set_instance r i c) = instances c" "observers (set_instance r i c) = observers c"
  "forced_separated_instances (set_instance r i c) = forced_separated_instances c"
  "enable_etcd_persistence (set_instance r i c) = enable_etcd_persistence c"
  "ctrl_pusher (set_instance r i c) = ctrl_pusher c" "notified (set_instance r i c) = notified c"
  "data_version (set_instance r i c) = data_version c" "etcd_writes (set_instance r i c) = etcd_writes c"
  by (simp_all add: set_instance_def)

lemma add_alarms_fields [simp]:
  "ctrl_heap (add_alarms as c) = ctrl_heap c" "instances (add_alarms as c) = instances c"
  "observers (add_alarms as c) = observers c"
  "forced_separated_instances (add_alarms as c) = forced_separated_instances c"
  "enable_etcd_persistence (add_alarms as c) = enable_etcd_persistence c"
  "ctrl_pusher (add_alarms as c) = ctrl_pusher c" "notified (add_alarms as c) = notified c"
  "data_version (add_alarms as c) = data_version c"
  by (simp_all add: add_alarms_def)

lemma observer_update_fields [simp]:
  "ctrl_heap (observer_update r ev ob c) = ctrl_heap c" "instances (observer_update r ev ob c) = instances c"
  "observers (observer_update r ev ob c) = observers c"
  "forced_separated_instances (observer_update r ev ob c) = forced_separated_instances c"
  "enable_etcd_persistence (observer_update r ev ob c) = enable_etcd_persistence c"
  "data_version (observer_update r ev ob c) = data_version c"
  "alarms (observer_update r ev ob c) = alarms c" "etcd_writes (observer_update r ev ob c) = etcd_writes c"
  by (simp_all add: observer_update_def split: observer.splits)

lemma notify_frame:
  "ctrl_heap (notify r ev c) = ctrl_heap c \<and> instances (notify r ev c) = instances c \<and>
   observers (notify r ev c) = observers c \<and>
   forced_separated_instances (notify r ev c) = forced_separated_instances c \<and>
   enable_etcd_persistence (notify r ev c) = enable_etcd_persistence c \<and>
   data_version (notify r ev c) = data_version c \<and> alarms (notify r ev c) = alarms c \<and>
   etcd_writes (notify r ev c) = etcd_writes c"
proof -
  have "ctrl_heap (fold (observer_update r ev) obs d) = ctrl_heap d \<and>
      instances (fold (observer_update r ev) obs d) = instances d \<and>
      observers (fold (observer_update r ev) obs d) = observers d \<and>
      forced_separated_instances (fold (observer_update r ev) obs d) = forced_separated_instances d \<and>
      enable_etcd_persistence (fold (observer_update r ev) obs d) = enable_etcd_persistence d \<and>
      data_version (fold (observer_update r ev) obs d) = data_version d \<and>
      alarms (fold (observer_update r ev) obs d) = alarms d \<and>
      etcd_writes (fold (observer_update r ev) obs d) = etcd_writes d" for obs d
    by (induction obs arbitrary: d) simp_all
  then show ?thesis by (simp add: notify_def)
qed

lemmas notify_fields [simp] =
  notify_frame [THEN conjunct1] notify_frame [THEN conjunct2, THEN conjunct1]
  notify_frame [THEN conjunct2, THEN conjunct2, THEN conjunct1]
  notify_frame [THEN conjunct2, THEN conjunct2, THEN conjunct2, THEN conjunct1]
  notify_frame [THEN conjunct2, THEN conjunct2, THEN conjunct2, THEN conjunct2, THEN conjunct1]
  notify_frame [THEN conjunct2, THEN conjunct2, THEN conjunct2, THEN conjunct2, THEN conjunct2, THEN conjunct1]
  notify_frame [THEN conjunct2, THEN conjunct2, THEN conjunct2, THEN conjunct2, THEN conjunct2, THEN conjunct2, THEN conjunct1]
  notify_frame [THEN conjunct2, THEN conjunct2, THEN conjunct2, THEN conjunct2, THEN conjunct2, THEN conjunct2, THEN conjunct2]

text \<open>What the other observers are told, in the order of attachment.\<close>

definition told :: "iref \<Rightarrow> observer_event \<Rightarrow> observer list \<Rightarrow> (nat \<times> iref \<times> observer_event) list" where
  "told r ev obs = List.map_filter (\<lambda>ob. case ob of EVENT_PUSHER \<Rightarrow> None | OTHER_OBSERVER k \<Rightarrow> Some (k, r, ev)) obs"

lemma notify_notified: "notified (notify r ev c) = notified c @ told r ev (observers c)"
proof -
  have "notified (fold (observer_update r ev) obs d) = notified d @ told r ev obs" for obs d
    by (induction obs arbitrary: d) (simp_all add: told_def map_filter_simps observer_update_def split: observer.splits)
  then show ?thesis by (simp add: notify_def)
qed

lemma notify_pusher:
  assumes "distinct (observers c)"
  shows "ctrl_pusher (notify r ev c) =
    (if EVENT_PUSHER \<in> set (observers c) then pusher_update (ctrl_heap c) r ev (ctrl_pusher c) else ctrl_pusher c)"
proof -
  have "distinct obs \<Longrightarrow> ctrl_pusher (fold (observer_update r ev) obs d) =
      (if EVENT_PUSHER \<in> set obs then pusher_update (ctrl_heap d) r ev (ctrl_pusher d) else ctrl_pusher d)" for obs d
    by (induction obs arbitrary: d) (auto simp: observer_update_def split: observer.splits)
  with assms show ?thesis by (simp add: notify_def)
qed

lemma report_fields [simp]:
  "ctrl_heap (report_inst_alarm r b c) = ctrl_heap c" "instances (report_inst_alarm r b c) = instances c"
  "observers (report_inst_alarm r b c) = observers c"
  "forced_separated_instances (report_inst_alarm r b c) = forced_separated_instances c"
  "enable_etcd_persistence (report_inst_alarm r b c) = enable_etcd_persistence c"
  "ctrl_pusher (report_inst_alarm r b c) = ctrl_pusher c" "notified (report_inst_alarm r b c) = notified c"
  "ctrl_heap (report_coordinator_alarm r b c) = ctrl_heap c" "instances (report_coordinator_alarm r b c) = instances c"
  "observers (report_coordinator_alarm r b c) = observers c"
  "forced_separated_instances (report_coordinator_alarm r b c) = forced_separated_instances c"
  "enable_etcd_persistence (report_coordinator_alarm r b c) = enable_etcd_persistence c"
  "ctrl_pusher (report_coordinator_alarm r b c) = ctrl_pusher c" "notified (report_coordinator_alarm r b c) = notified c"
  by (simp_all add: report_inst_alarm_def report_coordinator_alarm_def Let_def split: option.splits)

lemma persist_fields [simp]:
  "ctrl_heap (persist_data digest t c) = ctrl_heap c" "instances (persist_data digest t c) = instances c"
  "observers (persist_data digest t c) = observers c"
  "forced_separated_instances (persist_data digest t c) = forced_separated_instances c"
  "enable_etcd_persistence (persist_data digest t c) = enable_etcd_persistence c"
  "ctrl_pusher (persist_data digest t c) = ctrl_pusher c" "notified (persist_data digest t c) = notified c"
  by (simp_all add: persist_data_def get_next_version_def Let_def)

section \<open>The effect of one transition\<close>

text \<open>The part of \<open>_handle_state_transition\<close> after the event is known.\<close>

definition transition_on :: "digest_fun \<Rightarrow> env \<Rightarrow> iref \<Rightarrow> ins_condition_event \<Rightarrow> controller \<Rightarrow> controller \<times> bool" where
  "transition_on digest \<epsilon> r ev c = handle_state_transition digest \<epsilon> r (Some ev) c"

lemma handle_transition_detected:
  "handle_state_transition digest \<epsilon> r None c =
     transition_on digest \<epsilon> r (fst (detect_event (ctrl_heap c r))) (add_alarms (snd (detect_event (ctrl_heap c r))) c)"
proof -
  have nil: "add_alarms [] d = d" for d by (simp add: add_alarms_def)
  show ?thesis
    by (simp add: transition_on_def handle_state_transition_def Let_def case_prod_unfold nil split: option.split)
qed

lemma handle_transition_given: "handle_state_transition digest \<epsilon> r (Some ev) c = transition_on digest \<epsilon> r ev c"
  by (simp add: transition_on_def)

text \<open>The status an event leads to, with the two cases in which the code stays where it is.\<close>

definition next_status :: "env \<Rightarrow> ins_condition_event \<Rightarrow> bool \<Rightarrow> instance_obj \<Rightarrow> ins_status" where
  "next_status \<epsilon> ev forced i =
     (case transitions (ins_status i) ev of
        None \<Rightarrow> ins_status i
      | Some to \<Rightarrow>
          if forced \<and> to = ACTIVE then ins_status i
          else if ins_status i = ACTIVE \<and> ev = INSTANCE_HEARTBEAT_TIMEOUT \<and>
            \<not> check_node_managers_status (query_status \<epsilon>) i then ACTIVE
          else to)"

text \<open>The notification a change of status causes.\<close>

definition change_notice :: "ins_status \<Rightarrow> ins_status \<Rightarrow> observer_event option" where
  "change_notice from to =
     (if from = to then None
      else case to of
             ACTIVE \<Rightarrow> Some OBS_READY | INACTIVE \<Rightarrow> Some OBS_SEPARATED | PAUSED \<Rightarrow> Some OBS_PAUSED
           | DELETED \<Rightarrow> Some OBS_REMOVED | INITIAL \<Rightarrow> None)"

lemma map_endpoints_status [simp]: "ins_status (refresh_heartbeats clk i) = ins_status i"
  by (simp add: refresh_heartbeats_def)

lemma status_same: "ins_status i = st \<Longrightarrow> i\<lparr>ins_status := st\<rparr> = i"
  by (cases i) simp

abbreviation is_forced :: "controller \<Rightarrow> iref \<Rightarrow> bool" where
  "is_forced c r \<equiv> ins_id (ctrl_heap c r) \<in> forced_separated_instances c"

abbreviation status_after :: "env \<Rightarrow> ins_condition_event \<Rightarrow> iref \<Rightarrow> controller \<Rightarrow> ins_status" where
  "status_after \<epsilon> ev r c \<equiv> next_status \<epsilon> ev (is_forced c r) (ctrl_heap c r)"

lemmas transition_defs =
  transition_on_def handle_state_transition_def run_handler_def handle_initial_def handle_active_def handle_inactive_def
  handle_paused_def handle_deleted_def next_status_def change_notice_def Let_def

lemma nil_alarms [simp]: "add_alarms [] c = c"
  by (simp add: add_alarms_def)

lemma del_instance_fields [simp]:
  "ctrl_heap (del_instance n c) = ctrl_heap c" "observers (del_instance n c) = observers c"
  "enable_etcd_persistence (del_instance n c) = enable_etcd_persistence c"
  "ctrl_pusher (del_instance n c) = ctrl_pusher c" "notified (del_instance n c) = notified c"
  by (simp_all add: del_instance_def)

lemma del_instance_present:
  "dmem n (instances c) \<Longrightarrow> instances (del_instance n c) = ddel n (instances c)"
  "dmem n (instances c) \<Longrightarrow> forced_separated_instances (del_instance n c) = forced_separated_instances c - {n}"
  by (simp_all add: del_instance_def)

lemma transition_heap:
  assumes "ev \<noteq> INSTANCE_RESUMED"
  shows "ctrl_heap (fst (transition_on digest \<epsilon> r ev c)) =
    (ctrl_heap c)(r := (if ins_status (ctrl_heap c r) = ACTIVE \<and> ev = INSTANCE_HEARTBEAT_TIMEOUT \<and> status_after \<epsilon> ev r c = ACTIVE
        then refresh_heartbeats (clock \<epsilon>) (ctrl_heap c r) else (ctrl_heap c r)\<lparr>ins_status := status_after \<epsilon> ev r c\<rparr>))"
  using assms
  by (cases "ins_status (ctrl_heap c r)"; cases ev) (simp_all add: transition_defs status_same)

lemma transition_result:
  "snd (transition_on digest \<epsilon> r ev c) \<longleftrightarrow> transitions (ins_status (ctrl_heap c r)) ev \<noteq> None"
  by (simp add: transition_on_def handle_state_transition_def Let_def split: option.splits)

lemma transition_observers [simp]: "observers (fst (transition_on digest \<epsilon> r ev c)) = observers c"
  by (cases "ins_status (ctrl_heap c r)"; cases ev) (simp_all add: transition_defs)

lemma transition_instances:
  assumes "dget (instances c) (ins_id (ctrl_heap c r)) = Some r" and "ev \<noteq> INSTANCE_RESUMED"
  shows "instances (fst (transition_on digest \<epsilon> r ev c)) =
      (if ins_status (ctrl_heap c r) \<noteq> DELETED \<and> status_after \<epsilon> ev r c = DELETED
       then ddel (ins_id (ctrl_heap c r)) (instances c) else instances c)"
    and "forced_separated_instances (fst (transition_on digest \<epsilon> r ev c)) =
      (if ins_status (ctrl_heap c r) \<noteq> DELETED \<and> status_after \<epsilon> ev r c = DELETED
       then forced_separated_instances c - {ins_id (ctrl_heap c r)} else forced_separated_instances c)"
  using assms
  by (cases "ins_status (ctrl_heap c r)"; cases ev; simp add: transition_defs del_instance_present)+

lemma transition_notified:
  assumes "ev \<noteq> INSTANCE_RESUMED"
  shows "notified (fst (transition_on digest \<epsilon> r ev c)) = notified c @
    (case change_notice (ins_status (ctrl_heap c r)) (status_after \<epsilon> ev r c) of None \<Rightarrow> [] | Some ob \<Rightarrow> told r ob (observers c))"
  using assms
  by (cases "ins_status (ctrl_heap c r)"; cases ev) (simp_all add: transition_defs notify_notified)

lemma transition_pusher:
  assumes "ev \<noteq> INSTANCE_RESUMED" and "distinct (observers c)"
  shows "ctrl_pusher (fst (transition_on digest \<epsilon> r ev c)) =
    (case change_notice (ins_status (ctrl_heap c r)) (status_after \<epsilon> ev r c) of
       None \<Rightarrow> ctrl_pusher c
     | Some ob \<Rightarrow>
         if EVENT_PUSHER \<in> set (observers c)
         then pusher_update ((ctrl_heap c)(r := (ctrl_heap c r)\<lparr>ins_status := status_after \<epsilon> ev r c\<rparr>)) r ob (ctrl_pusher c)
         else ctrl_pusher c)"
  using assms
  by (cases "ins_status (ctrl_heap c r)"; cases ev) (simp_all add: transition_defs notify_pusher)

section \<open>Invariants\<close>

definition ctrl_inv :: "controller \<Rightarrow> bool" where
  "ctrl_inv c \<longleftrightarrow>
     keyed (ctrl_heap c) (instances c) \<and> distinct (observers c) \<and>
     (\<forall>n \<in> forced_separated_instances c. dmem n (instances c)) \<and>
     (\<forall>n r. dget (instances c) n = Some r \<longrightarrow>
        ins_status (ctrl_heap c r) \<noteq> DELETED \<and>
        (n \<in> forced_separated_instances c \<longrightarrow> ins_status (ctrl_heap c r) \<noteq> ACTIVE))"

lemma ctrl_inv_id: "ctrl_inv c \<Longrightarrow> dget (instances c) n = Some r \<Longrightarrow> ins_id (ctrl_heap c r) = n"
  by (auto simp: ctrl_inv_def dest: keyedD)

lemma ctrl_inv_registered:
  "ctrl_inv c \<Longrightarrow> dget (instances c) n = Some r \<Longrightarrow> dget (instances c) (ins_id (ctrl_heap c r)) = Some r"
  using ctrl_inv_id by metis

lemma refresh_fields [simp]:
  "ins_id (refresh_heartbeats clk i) = ins_id i" "job_name (refresh_heartbeats clk i) = job_name i"
  "ins_role (refresh_heartbeats clk i) = ins_role i"
  by (simp_all add: refresh_heartbeats_def map_endpoints_def)

lemma transition_heap_fields:
  assumes "ev \<noteq> INSTANCE_RESUMED"
  shows "ins_id (ctrl_heap (fst (transition_on digest \<epsilon> r ev c)) r') = ins_id (ctrl_heap c r')"
    and "job_name (ctrl_heap (fst (transition_on digest \<epsilon> r ev c)) r') = job_name (ctrl_heap c r')"
    and "ins_status (ctrl_heap (fst (transition_on digest \<epsilon> r ev c)) r') =
      (if r' = r then status_after \<epsilon> ev r c else ins_status (ctrl_heap c r'))"
  unfolding transition_heap [OF assms] by auto

lemma forced_not_activated:
  "forced \<Longrightarrow> ins_status i \<noteq> ACTIVE \<Longrightarrow> next_status \<epsilon> ev forced i \<noteq> ACTIVE"
  by (auto simp: next_status_def split: option.splits)

lemma ctrl_inv_transition:
  assumes inv: "ctrl_inv c" and reg: "dget (instances c) n = Some r" and ev: "ev \<noteq> INSTANCE_RESUMED"
  shows "ctrl_inv (fst (transition_on digest \<epsilon> r ev c))"
proof -
  let ?c = "fst (transition_on digest \<epsilon> r ev c)"
  have id: "ins_id (ctrl_heap c r) = n" using ctrl_inv_id [OF inv reg] .
  have own: "dget (instances c) m = Some r \<Longrightarrow> m = n" for m using ctrl_inv_id [OF inv] id by blast
  have reg': "dget (instances c) (ins_id (ctrl_heap c r)) = Some r" using id reg by simp
  note ins = transition_instances [OF reg' ev, of digest \<epsilon>] and fields = transition_heap_fields [OF ev, of digest \<epsilon> r c]
  have st: "ins_status (ctrl_heap c r) \<noteq> DELETED" "n \<in> forced_separated_instances c \<Longrightarrow> ins_status (ctrl_heap c r) \<noteq> ACTIVE"
    using inv reg by (auto simp: ctrl_inv_def)
  have "keyed (ctrl_heap ?c) (instances ?c)"
    using inv by (auto simp: ctrl_inv_def ins keyed_static [of "ctrl_heap ?c" "ctrl_heap c"] fields intro: keyed_ddel)
  moreover have "\<forall>m \<in> forced_separated_instances ?c. dmem m (instances ?c)"
    using inv by (auto simp: ctrl_inv_def ins id)
  moreover have "ins_status (ctrl_heap ?c r') \<noteq> DELETED \<and>
      (m \<in> forced_separated_instances ?c \<longrightarrow> ins_status (ctrl_heap ?c r') \<noteq> ACTIVE)"
    if m: "dget (instances ?c) m = Some r'" for m r'
  proof (cases "r' = r")
    case True
    have in_c: "dget (instances c) m = Some r'" and "st = DELETED \<Longrightarrow> st = status_after \<epsilon> ev r c \<Longrightarrow> m \<noteq> n" for st
      using m st(1) by (auto simp: ins id split: if_splits)
    with own True have "status_after \<epsilon> ev r c \<noteq> DELETED" by metis
    moreover have "m = n" using in_c own True by simp
    ultimately show ?thesis
      using True st(2) forced_not_activated [of "is_forced c r" "ctrl_heap c r" \<epsilon> ev] by (auto simp: fields ins id split: if_splits)
  next
    case False
    then show ?thesis using m inv by (auto simp: ctrl_inv_def fields ins split: if_splits)
  qed
  ultimately show ?thesis using inv by (simp add: ctrl_inv_def)
qed

lemma ctrl_inv_add_alarms [simp]: "ctrl_inv (add_alarms as c) = ctrl_inv c"
  by (simp add: ctrl_inv_def)

lemma ctrl_inv_notify [simp]: "ctrl_inv (notify r ev c) = ctrl_inv c"
  by (simp add: ctrl_inv_def)

lemma ctrl_inv_persist [simp]: "ctrl_inv (persist_data digest t c) = ctrl_inv c"
  by (simp add: ctrl_inv_def)

lemma heartbeat_static:
  "ins_id (fst (update_heartbeat ip ts st i)) = ins_id i" "ins_status (fst (update_heartbeat ip ts st i)) = ins_status i"
  "job_name (fst (update_heartbeat ip ts st i)) = job_name i"
  by (simp_all add: update_heartbeat_def case_prod_unfold split: option.splits)

lemma ctrl_inv_set_instance:
  "ctrl_inv c \<Longrightarrow> ins_id i = ins_id (ctrl_heap c r) \<Longrightarrow> ins_status i = ins_status (ctrl_heap c r) \<Longrightarrow> ctrl_inv (set_instance r i c)"
  by (auto simp: ctrl_inv_def keyed_def)

lemma detect_not_resumed: "fst (detect_event i) \<noteq> INSTANCE_RESUMED"
  by (simp add: detect_event_def split: prod.splits bool.splits)

lemma detect_not_timeout: "fst (detect_event i) \<noteq> INSTANCE_HEARTBEAT_TIMEOUT"
  by (simp add: detect_event_def split: prod.splits bool.splits)

lemma ctrl_inv_heartbeat:
  assumes inv: "ctrl_inv c"
  shows "ctrl_inv (fst (handle_heartbeat digest \<epsilon> msg c))"
proof (cases "dget (instances c) (hb_ins_id msg)")
  case None
  with inv show ?thesis by (simp add: handle_heartbeat_def)
next
  case (Some r)
  obtain i res where u: "update_heartbeat (hb_ip msg) (now \<epsilon>) (hb_status msg) (ctrl_heap c r) = (i, res)" by fastforce
  have inv': "ctrl_inv (set_instance r i c)"
    using heartbeat_static [of "hb_ip msg" "now \<epsilon>" "hb_status msg" "ctrl_heap c r"] u
    by (intro ctrl_inv_set_instance [OF inv]) simp_all
  have "ctrl_inv (fst (handle_state_transition digest \<epsilon> r None (set_instance r i c)))"
    unfolding handle_transition_detected
    by (rule ctrl_inv_transition [where n = "hb_ins_id msg"]) (use inv' Some in \<open>simp_all add: detect_not_resumed\<close>)
  with inv' show ?thesis
    by (auto simp: handle_heartbeat_def Some u split: sum.splits bool.splits prod.splits)
qed

lemma ctrl_inv_manage:
  assumes "ctrl_inv c" and "dget (instances c) n = Some r"
  shows "ctrl_inv (manage_instance digest \<epsilon> r c)"
proof -
  have "ctrl_inv (fst (transition_on digest \<epsilon> r INSTANCE_HEARTBEAT_TIMEOUT (add_alarms as c)))" for as
    by (rule ctrl_inv_transition [where n = n]) (use assms in simp_all)
  with assms(1) show ?thesis
    by (simp add: manage_instance_def handle_transition_given split: prod.splits bool.splits)
qed

lemma ctrl_inv_separate:
  assumes "ctrl_inv c"
  shows "ctrl_inv (separate_instance digest t n c)"
proof (cases "dget (instances c) n")
  case None
  with assms show ?thesis by (simp add: separate_instance_def get_instance_def)
next
  case (Some r)
  have id: "ins_id (ctrl_heap c r) = n" using ctrl_inv_id [OF assms Some] .
  have key: "keyed ((ctrl_heap c)(r := (ctrl_heap c r)\<lparr>ins_status := INACTIVE\<rparr>)) (instances c)"
    using assms by (simp add: ctrl_inv_def keyed_def)
  have "ctrl_inv (set_status r INACTIVE (c\<lparr>forced_separated_instances := insert n (forced_separated_instances c)\<rparr>))"
    using assms Some unfolding ctrl_inv_def by (simp add: key)
  moreover have "ins_status (ctrl_heap c r) \<noteq> ACTIVE \<Longrightarrow>
      ctrl_inv (c\<lparr>forced_separated_instances := insert n (forced_separated_instances c)\<rparr>)"
    using assms Some unfolding ctrl_inv_def by simp
  ultimately show ?thesis
    by (simp add: separate_instance_def get_instance_def Some id Let_def)
qed

lemma ctrl_inv_recover: "ctrl_inv c \<Longrightarrow> ctrl_inv (recover_instance n c)"
  by (auto simp: recover_instance_def ctrl_inv_def Let_def get_instance_def split: option.splits)

lemma refresh_initial_static:
  "ins_id (refresh_initial t i) = ins_id i" "ins_status (refresh_initial t i) = ins_status i"
  "job_name (refresh_initial t i) = job_name i"
proof -
  have "ins_id (fold (\<lambda>pod i. fst (update_heartbeat pod t (initial_report pod i) i)) pods i) = ins_id i \<and>
      ins_status (fold (\<lambda>pod i. fst (update_heartbeat pod t (initial_report pod i) i)) pods i) = ins_status i \<and>
      job_name (fold (\<lambda>pod i. fst (update_heartbeat pod t (initial_report pod i) i)) pods i) = job_name i" for pods i
    by (induction pods arbitrary: i) (simp_all add: heartbeat_static)
  then show "ins_id (refresh_initial t i) = ins_id i" "ins_status (refresh_initial t i) = ins_status i"
    "job_name (refresh_initial t i) = job_name i" by (simp_all add: refresh_initial_def)
qed

lemma ctrl_inv_add:
  assumes inv: "ctrl_inv c" and "ins_status (ctrl_heap c r) = INITIAL"
  shows "ctrl_inv (add_instance r t c)"
proof (cases "dmem (ins_id (ctrl_heap c r)) (instances c)")
  case False
  let ?c = "c\<lparr>instances := dset (ins_id (ctrl_heap c r)) r (instances c)\<rparr>"
  have "ctrl_inv ?c" using False assms by (auto simp: ctrl_inv_def keyed_dset dmem_def)
  then have "ctrl_inv (set_instance r (refresh_initial t (ctrl_heap c r)) ?c)"
    by (rule ctrl_inv_set_instance) (simp_all add: refresh_initial_static)
  with False show ?thesis by (simp add: add_instance_def Let_def)
qed (use inv in \<open>simp add: add_instance_def Let_def\<close>)

section \<open>Reachable states\<close>

text \<open>
  The operations of the manager as steps. Instances are added by the assembler, which creates them in
  state INITIAL. \<open>ok\<close> restricts the states that the run passes through.
\<close>

inductive ctrl_step :: "digest_fun \<Rightarrow> controller \<Rightarrow> controller \<Rightarrow> bool" for digest where
  heartbeat: "ctrl_step digest c (fst (handle_heartbeat digest \<epsilon> msg c))"
| manage: "dget (instances c) n = Some r \<Longrightarrow> ctrl_step digest c (manage_instance digest \<epsilon> r c)"
| add: "ins_status (ctrl_heap c r) = INITIAL \<Longrightarrow> ctrl_step digest c (add_instance r t c)"
| separate: "ctrl_step digest c (separate_instance digest t n c)"
| recover: "ctrl_step digest c (recover_instance n c)"

inductive ctrl_reachable :: "digest_fun \<Rightarrow> (controller \<Rightarrow> bool) \<Rightarrow> controller \<Rightarrow> controller \<Rightarrow> bool" for digest ok c0 where
  init: "ctrl_reachable digest ok c0 c0"
| step: "ctrl_reachable digest ok c0 c \<Longrightarrow> ctrl_step digest c c' \<Longrightarrow> ok c' \<Longrightarrow> ctrl_reachable digest ok c0 c'"

definition fresh_controller :: "(iref \<Rightarrow> instance_obj) \<Rightarrow> bool \<Rightarrow> event_pusher \<Rightarrow> observer list \<Rightarrow> controller" where
  "fresh_controller h persist p obs = fold attach obs (init_controller h persist p)"

lemma fresh_controller_fields:
  "ctrl_heap (fresh_controller h persist p obs) = h" "instances (fresh_controller h persist p obs) = []"
  "forced_separated_instances (fresh_controller h persist p obs) = {}"
  "ctrl_pusher (fresh_controller h persist p obs) = p" "distinct (observers (fresh_controller h persist p obs))"
  "set (observers (fresh_controller h persist p obs)) = set obs"
  "enable_etcd_persistence (fresh_controller h persist p obs) = persist"
proof -
  have "distinct (observers c) \<Longrightarrow> ctrl_heap (fold attach obs c) = ctrl_heap c \<and> instances (fold attach obs c) = instances c \<and>
      forced_separated_instances (fold attach obs c) = forced_separated_instances c \<and>
      ctrl_pusher (fold attach obs c) = ctrl_pusher c \<and> distinct (observers (fold attach obs c)) \<and>
      set (observers (fold attach obs c)) = set (observers c) \<union> set obs \<and>
      enable_etcd_persistence (fold attach obs c) = enable_etcd_persistence c" for c
    by (induction obs arbitrary: c) (auto simp: attach_def)
  from this [of "init_controller h persist p"]
  show "ctrl_heap (fresh_controller h persist p obs) = h" "instances (fresh_controller h persist p obs) = []"
    "forced_separated_instances (fresh_controller h persist p obs) = {}"
    "ctrl_pusher (fresh_controller h persist p obs) = p" "distinct (observers (fresh_controller h persist p obs))"
    "set (observers (fresh_controller h persist p obs)) = set obs"
    "enable_etcd_persistence (fresh_controller h persist p obs) = persist"
    by (simp_all add: fresh_controller_def init_controller_def)
qed

lemma ctrl_inv_step: "ctrl_step digest c c' \<Longrightarrow> ctrl_inv c \<Longrightarrow> ctrl_inv c'"
  by (induction rule: ctrl_step.induct)
    (simp_all add: ctrl_inv_heartbeat ctrl_inv_manage ctrl_inv_add ctrl_inv_separate ctrl_inv_recover)

lemma ctrl_inv_reachable: "ctrl_reachable digest ok c0 c \<Longrightarrow> ctrl_inv c0 \<Longrightarrow> ctrl_inv c"
  by (induction rule: ctrl_reachable.induct) (simp_all add: ctrl_inv_step)

lemma ctrl_inv_fresh: "ctrl_inv (fresh_controller h persist p obs)"
  by (simp add: ctrl_inv_def fresh_controller_fields)

section \<open>A concrete controller\<close>

definition solo_instance :: "int \<Rightarrow> string \<Rightarrow> instance_obj" where
  "solo_instance n name =
     (demo_instance n name ''decode'')\<lparr>endpoints := [(''a'', [(0, demo_endpoint 0 ''a'' EP_INITIAL False)])]\<rparr>"

abbreviation demo_digest :: digest_fun where
  "demo_digest \<equiv> \<lambda>_ v _. replicate (nat v) CHR ''x''"

definition demo_env :: "rat \<Rightarrow> env" where
  "demo_env t = \<lparr>now = t, clock = (\<lambda>_. t), query_status = (\<lambda>_. NM_STATUS False)\<rparr>"

definition demo_ctrl :: controller where
  "demo_ctrl = fresh_controller (\<lambda>r. solo_instance (int r + 7) (if r = 0 then ''j'' else ''k'')) False (init_pusher 0 0)
     [EVENT_PUSHER, OTHER_OBSERVER 0]"

definition demo_added :: controller where
  "demo_added = add_instance 0 0 demo_ctrl"

definition demo_hb :: "endpoint_status \<Rightarrow> heartbeat_msg" where
  "demo_hb st = \<lparr>hb_ins_id = 7, hb_ip = ''a'', hb_status = [(0, st)]\<rparr>"

definition demo_active :: controller where
  "demo_active = fst (handle_heartbeat demo_digest (demo_env 1) (demo_hb EP_NORMAL) demo_added)"

lemmas instance_eval =
  endpoint_objs_def iter_endpoints_def is_all_endpoints_paused_def is_all_endpoints_ready_def
  is_have_one_endpoint_abnormal_def is_any_endpoint_paused_def group_endpoints_def update_heartbeat_def demo_defs solo_instance_def

lemma solo_fields [simp]: "ins_id (solo_instance n name) = n" "job_name (solo_instance n name) = name"
  "ins_status (solo_instance n name) = INITIAL"
  by (simp_all add: solo_instance_def demo_defs)

lemma demo_added_eq:
  "demo_added = demo_ctrl\<lparr>instances := [(7, 0)], notified := [(0, 0, OBS_INITIAL)]\<rparr>"
proof -
  let ?h = "\<lambda>r. solo_instance (int r + 7) (if r = 0 then ''j'' else ''k'')"
  have "refresh_initial 0 (solo_instance 7 ''j'') = solo_instance 7 ''j''"
    by (simp add: refresh_initial_def initial_report_def get_endpoints_def instance_eval)
  moreover have "?h(0 := solo_instance 7 ''j'') = ?h" by (rule ext) simp
  ultimately show ?thesis
    by (simp add: demo_added_def demo_ctrl_def fresh_controller_def attach_def init_controller_def add_instance_def
        notify_def observer_update_def pusher_update_def set_instance_def Let_def)
qed

definition heard :: "endpoint_status \<Rightarrow> rat \<Rightarrow> ins_status \<Rightarrow> instance_obj" where
  "heard st t ist =
     (solo_instance 7 ''j'')\<lparr>endpoints := [(''a'', [(0, (demo_endpoint 0 ''a'' st False)\<lparr>hb_timestamp := t\<rparr>)])], ins_status := ist\<rparr>"

lemma heard_fields [simp]: "ins_id (heard st t ist) = 7" "job_name (heard st t ist) = ''j''" "ins_status (heard st t ist) = ist"
  by (simp_all add: heard_def)

lemma heard_endpoints:
  "endpoints (heard st t ist) = [(''a'', [(0, (demo_endpoint 0 ''a'' st False)\<lparr>hb_timestamp := t\<rparr>)])]"
  "ep_id ((demo_endpoint n ip st b)\<lparr>hb_timestamp := t\<rparr>) = n"
  by (simp_all add: heard_def demo_endpoint_def)

lemma demo_hb_fields [simp]:
  "hb_ins_id (demo_hb st) = 7" "hb_ip (demo_hb st) = ''a''" "hb_status (demo_hb st) = [(0, st)]"
  by (simp_all add: demo_hb_def)

lemma demo_env_fields [simp]: "now (demo_env t) = t" "query_status (demo_env t) = (\<lambda>_. NM_STATUS False)"
  by (simp_all add: demo_env_def)

lemma detect_heard:
  "detect_event (heard EP_NORMAL t ist) = (INSTANCE_NORMAL, [])"
  "detect_event (heard EP_PAUSED t ist) = (INSTANCE_PAUSED, [])"
  "detect_event (heard EP_INITIAL t ist) = (INSTANCE_INIT, [])"
  by (simp_all add: detect_event_def heard_def instance_eval)

lemma update_heard:
  "update_heartbeat ''a'' t [(0, st)] (heard st' t' ist) = (heard st t ist, Inr True)"
  "update_heartbeat ''a'' t [(0, st)] (solo_instance 7 ''j'') = (heard st t INITIAL, Inr True)"
  by (simp_all add: heard_def instance_eval)

lemma demo_added_fields:
  "ctrl_heap demo_added 0 = solo_instance 7 ''j''" "instances demo_added = [(7, 0)]" "observers demo_added = [EVENT_PUSHER, OTHER_OBSERVER 0]"
  "forced_separated_instances demo_added = {}" "enable_etcd_persistence demo_added = False"
  "pusher_instances (ctrl_pusher demo_added) = []" "event_queue (ctrl_pusher demo_added) = []"
  by (simp_all add: demo_added_eq demo_ctrl_def fresh_controller_def attach_def init_controller_def init_pusher_def)

lemma demo_active_fields:
  "ctrl_heap demo_active 0 = heard EP_NORMAL 1 ACTIVE" "instances demo_active = [(7, 0)]"
  "observers demo_active = [EVENT_PUSHER, OTHER_OBSERVER 0]"
  "forced_separated_instances demo_active = {}" "enable_etcd_persistence demo_active = False"
  "pusher_instances (ctrl_pusher demo_active) = [(''j'', 0)]"
  "event_queue (ctrl_pusher demo_active) = [\<lparr>ev_type = ADD, ev_instance = Some (to_instance (heard EP_NORMAL 1 ACTIVE))\<rparr>]"
  by (simp_all add: demo_active_def handle_heartbeat_def demo_hb_def demo_env_def demo_added_fields update_heard
      handle_state_transition_def detect_heard run_handler_def handle_active_def Let_def notify_pusher pusher_update_def
      update_instance_status_def) (simp_all add: heard_def)

lemma demo_added_reachable: "ctrl_reachable demo_digest (\<lambda>_. True) demo_ctrl demo_added"
  unfolding demo_added_def
  by (rule ctrl_reachable.step [OF ctrl_reachable.init ctrl_step.add])
    (simp_all add: demo_ctrl_def fresh_controller_fields)

lemma demo_active_reachable: "ctrl_reachable demo_digest (\<lambda>_. True) demo_ctrl demo_active"
  unfolding demo_active_def by (rule ctrl_reachable.step [OF demo_added_reachable ctrl_step.heartbeat]) simp

section \<open>The pusher mirrors the active instances\<close>

definition jobs_unique :: "controller \<Rightarrow> bool" where
  "jobs_unique c \<longleftrightarrow>
     (\<forall>n r n' r'. dget (instances c) n = Some r \<longrightarrow> dget (instances c) n' = Some r' \<longrightarrow>
        job_name (ctrl_heap c r) = job_name (ctrl_heap c r') \<longrightarrow> r = r')"

definition active_as :: "controller \<Rightarrow> string \<Rightarrow> iref \<Rightarrow> bool" where
  "active_as c job r \<longleftrightarrow>
     (\<exists>n. dget (instances c) n = Some r) \<and> ins_status (ctrl_heap c r) = ACTIVE \<and> job_name (ctrl_heap c r) = job"

definition mirrors :: "controller \<Rightarrow> bool" where
  "mirrors c \<longleftrightarrow>
     EVENT_PUSHER \<in> set (observers c) \<and>
     (\<forall>job r. dget (pusher_instances (ctrl_pusher c)) job = Some r \<longleftrightarrow> active_as c job r)"

lemma active_unique:
  "jobs_unique c \<Longrightarrow> dget (instances c) n = Some r \<Longrightarrow> active_as c (job_name (ctrl_heap c r)) r' \<Longrightarrow> r' = r"
  unfolding jobs_unique_def active_as_def by metis

text \<open>A change of the status of one registered instance, with the notification it causes.\<close>

lemma mirrors_change:
  assumes mir: "mirrors c" and uniq: "jobs_unique c" and reg: "dget (instances c) n = Some r"
    and obs: "EVENT_PUSHER \<in> set (observers c')"
    and act: "\<And>job r'. active_as c' job r' \<longleftrightarrow>
      (if r' = r then st = ACTIVE \<and> job = job_name (ctrl_heap c r) else active_as c job r')"
    and push: "\<And>job. dget (pusher_instances (ctrl_pusher c')) job =
      (if job = job_name (ctrl_heap c r) \<and> st = ACTIVE \<and> ins_status (ctrl_heap c r) \<noteq> ACTIVE then Some r
       else if job = job_name (ctrl_heap c r) \<and> del then None
       else dget (pusher_instances (ctrl_pusher c)) job)"
    and del: "ins_status (ctrl_heap c r) = ACTIVE \<Longrightarrow> del \<longleftrightarrow> st \<noteq> ACTIVE" "st = ACTIVE \<Longrightarrow> \<not> del"
  shows "mirrors c'"
proof -
  let ?J = "job_name (ctrl_heap c r)"
  have P: "dget (pusher_instances (ctrl_pusher c)) job = Some r' \<longleftrightarrow> active_as c job r'" for job r'
    using mir by (simp add: mirrors_def)
  have PJ: "dget (pusher_instances (ctrl_pusher c)) ?J = (if ins_status (ctrl_heap c r) = ACTIVE then Some r else None)"
  proof (cases "dget (pusher_instances (ctrl_pusher c)) ?J")
    case None
    with P [of ?J r] reg show ?thesis by (auto simp: active_as_def)
  next
    case (Some r')
    with P active_unique [OF uniq reg] have "r' = r" "active_as c ?J r" by metis+
    with Some show ?thesis by (simp add: active_as_def)
  qed
  have other: "active_as c job r \<Longrightarrow> job = ?J" for job by (simp add: active_as_def)
  have same: "active_as c ?J r' \<Longrightarrow> r' = r" for r' by (rule active_unique [OF uniq reg])
  have "dget (pusher_instances (ctrl_pusher c')) job = Some r' \<longleftrightarrow> active_as c' job r'" for job r'
  proof (cases "job = ?J")
    case True
    with same del show ?thesis unfolding push act by (auto simp: PJ)
  next
    case False
    with other show ?thesis unfolding push act by (auto simp: P)
  qed
  with obs show ?thesis by (simp add: mirrors_def)
qed

lemma active_never_deleted_at_once:
  "ins_status i = ACTIVE \<Longrightarrow> next_status \<epsilon> ev forced i \<in> {ACTIVE, INACTIVE, PAUSED}"
  by (cases ev) (simp_all add: next_status_def)

lemma mirrors_transition:
  assumes inv: "ctrl_inv c" and mir: "mirrors c" and uniq: "jobs_unique c" and reg: "dget (instances c) n = Some r"
    and ev: "ev \<noteq> INSTANCE_RESUMED"
  shows "mirrors (fst (transition_on digest \<epsilon> r ev c))"
proof -
  let ?c = "fst (transition_on digest \<epsilon> r ev c)" and ?st = "status_after \<epsilon> ev r c" and ?from = "ins_status (ctrl_heap c r)"
  let ?del = "change_notice ?from ?st \<in> {Some OBS_SEPARATED, Some OBS_PAUSED}"
  have id: "ins_id (ctrl_heap c r) = n" using ctrl_inv_id [OF inv reg] .
  have reg': "dget (instances c) (ins_id (ctrl_heap c r)) = Some r" using id reg by simp
  have own: "dget (instances c) m = Some r' \<Longrightarrow> r' \<noteq> r \<Longrightarrow> m \<noteq> n" for m r' using reg by auto
  have dist: "distinct (observers c)" and pin: "EVENT_PUSHER \<in> set (observers c)"
    using inv mir by (simp_all add: ctrl_inv_def mirrors_def)
  note fields = transition_heap_fields [OF ev, of digest \<epsilon> r c] and ins = transition_instances(1) [OF reg' ev, of digest \<epsilon>]
  show ?thesis
  proof (rule mirrors_change [OF mir uniq reg, where st = ?st and del = ?del])
    show "EVENT_PUSHER \<in> set (observers ?c)" using pin by simp
    show "active_as ?c job r' \<longleftrightarrow> (if r' = r then ?st = ACTIVE \<and> job = job_name (ctrl_heap c r) else active_as c job r')" for job r'
    proof -
      have "(\<exists>m. dget (instances ?c) m = Some r') \<longleftrightarrow> (\<exists>m. dget (instances c) m = Some r')" if "r' \<noteq> r \<or> ?st \<noteq> DELETED"
        using that own reg by (auto simp: ins id)
      then show ?thesis
        using reg by (cases "r' = r"; cases "?st = ACTIVE") (auto simp: active_as_def fields)
    qed
    show "dget (pusher_instances (ctrl_pusher ?c)) job =
        (if job = job_name (ctrl_heap c r) \<and> ?st = ACTIVE \<and> ?from \<noteq> ACTIVE then Some r
         else if job = job_name (ctrl_heap c r) \<and> ?del then None
         else dget (pusher_instances (ctrl_pusher c)) job)" for job
      unfolding transition_pusher [OF ev dist] using pin
      by (cases ?st) (auto simp: change_notice_def pusher_update_instances)
    show "?del \<longleftrightarrow> ?st \<noteq> ACTIVE" if "?from = ACTIVE"
      using active_never_deleted_at_once [OF that, of \<epsilon> ev "is_forced c r"] that by (auto simp: change_notice_def)
    show "\<not> ?del" if "?st = ACTIVE" using that by (simp add: change_notice_def)
  qed
qed

lemma mirrors_cong:
  assumes "observers c' = observers c" and "ctrl_pusher c' = ctrl_pusher c" and "instances c' = instances c"
    and "\<And>r. ins_status (ctrl_heap c' r) = ins_status (ctrl_heap c r)" and "\<And>r. job_name (ctrl_heap c' r) = job_name (ctrl_heap c r)"
  shows "mirrors c' = mirrors c" and "jobs_unique c' = jobs_unique c"
  by (simp_all add: mirrors_def jobs_unique_def active_as_def assms)

lemma mirrors_heartbeat:
  assumes inv: "ctrl_inv c" and mir: "mirrors c" and uniq: "jobs_unique c"
  shows "mirrors (fst (handle_heartbeat digest \<epsilon> msg c))"
proof (cases "dget (instances c) (hb_ins_id msg)")
  case None
  with mir show ?thesis by (simp add: handle_heartbeat_def)
next
  case (Some r)
  obtain i res where u: "update_heartbeat (hb_ip msg) (now \<epsilon>) (hb_status msg) (ctrl_heap c r) = (i, res)" by fastforce
  let ?d = "set_instance r i c"
  have same: "ins_id i = ins_id (ctrl_heap c r)" "ins_status i = ins_status (ctrl_heap c r)" "job_name i = job_name (ctrl_heap c r)"
    using heartbeat_static [of "hb_ip msg" "now \<epsilon>" "hb_status msg" "ctrl_heap c r"] u by simp_all
  have mir': "mirrors (add_alarms as ?d)" "jobs_unique (add_alarms as ?d)" for as
    using mir uniq mirrors_cong [of "add_alarms as ?d" c] same by simp_all
  have inv': "ctrl_inv (add_alarms as ?d)" for as using ctrl_inv_set_instance [OF inv same(1,2)] by simp
  have "mirrors (fst (handle_state_transition digest \<epsilon> r None ?d))"
    unfolding handle_transition_detected
    by (rule mirrors_transition [OF inv' mir', where n = "hb_ins_id msg"]) (use Some in \<open>simp_all add: detect_not_resumed\<close>)
  moreover have "mirrors ?d" using mir' [of "[]"] by simp
  ultimately show ?thesis
    by (auto simp: handle_heartbeat_def Some u split: sum.splits bool.splits prod.splits)
qed

lemma mirrors_manage:
  assumes inv: "ctrl_inv c" and mir: "mirrors c" and uniq: "jobs_unique c" and reg: "dget (instances c) n = Some r"
  shows "mirrors (manage_instance digest \<epsilon> r c)"
proof -
  have m: "mirrors (add_alarms as c)" "jobs_unique (add_alarms as c)" for as
    using mir uniq mirrors_cong [of "add_alarms as c" c] by simp_all
  have "mirrors (fst (transition_on digest \<epsilon> r INSTANCE_HEARTBEAT_TIMEOUT (add_alarms as c)))" for as
    by (rule mirrors_transition [OF _ m, where n = n]) (use inv reg in simp_all)
  with m mir show ?thesis
    by (simp add: manage_instance_def handle_transition_given split: prod.splits bool.splits)
qed

lemma mirrors_add:
  assumes inv: "ctrl_inv c" and mir: "mirrors c" and st: "ins_status (ctrl_heap c r) = INITIAL"
  shows "mirrors (add_instance r t c)"
proof (cases "dmem (ins_id (ctrl_heap c r)) (instances c)")
  case True
  with mir show ?thesis by (simp add: add_instance_def Let_def)
next
  case False
  have "ctrl_pusher (add_instance r t c) = ctrl_pusher c"
    using False inv by (simp add: add_instance_def Let_def notify_pusher ctrl_inv_def pusher_update_def)
  moreover have "active_as (add_instance r t c) job r' = active_as c job r'" for job r'
    using False st
    by (auto simp: active_as_def add_instance_def Let_def refresh_initial_static dmem_def) (metis option.distinct(1))
  ultimately show ?thesis using mir False by (simp add: mirrors_def add_instance_def Let_def)
qed

lemma mirrors_separate:
  assumes inv: "ctrl_inv c" and mir: "mirrors c" and uniq: "jobs_unique c"
  shows "mirrors (separate_instance digest t n c)"
proof (cases "\<exists>r. dget (instances c) n = Some r \<and> ins_status (ctrl_heap c r) = ACTIVE")
  case False
  then show ?thesis
    using mir mirrors_cong(1) [of "separate_instance digest t n c" c]
    by (auto simp: separate_instance_def get_instance_def Let_def split: option.splits)
next
  case True
  then obtain r where r: "dget (instances c) n = Some r" "ins_status (ctrl_heap c r) = ACTIVE" by blast
  let ?c = "separate_instance digest t n c"
  have pin: "distinct (observers c)" "EVENT_PUSHER \<in> set (observers c)"
    using inv mir by (simp_all add: ctrl_inv_def mirrors_def)
  have f: "instances ?c = instances c" "observers ?c = observers c"
    "ctrl_heap ?c = (ctrl_heap c)(r := (ctrl_heap c r)\<lparr>ins_status := INACTIVE\<rparr>)"
    "ctrl_pusher ?c = pusher_update ((ctrl_heap c)(r := (ctrl_heap c r)\<lparr>ins_status := INACTIVE\<rparr>)) r OBS_SEPARATED (ctrl_pusher c)"
    using r pin by (simp_all add: separate_instance_def get_instance_def Let_def notify_pusher)
  show ?thesis
    by (rule mirrors_change [OF mir uniq r(1), where st = INACTIVE and del = True])
      (use pin r in \<open>auto simp: f active_as_def pusher_update_instances\<close>)
qed

lemma mirrors_recover: "mirrors c \<Longrightarrow> mirrors (recover_instance n c)"
  using mirrors_cong(1) [of "recover_instance n c" c]
  by (simp add: recover_instance_def get_instance_def Let_def split: option.splits)

end
