(* ===== verification/Config_Resolver.thy ===== *)
theory Config_Resolver
  imports Py_Strings
begin

text \<open>
  \<^verbatim>\<open>motor/config/resolver.py\<close>: the resolvers that read one engine section of the user configuration,
  with the vLLM and the SGLang adapter. A section is a JSON value; a missing key and an explicit
  \<open>null\<close> are both \<open>None\<close> to the code, which is \<open>JNull\<close> here. The file content (\<open>json.load\<close>) and the
  decoder of a JSON string (\<open>json.loads\<close>) are arguments of the operations that use them. Warnings are
  not modelled.
\<close>

section \<open>JSON values as Python sees them\<close>

datatype json =
    JNull
  | JBool bool
  | JInt int
  | JFloat rat
  | JStr string
  | JList "json list"
  | JObj "(string \<times> json) list"

fun truthy :: "json \<Rightarrow> bool" where
  "truthy JNull = False"
| "truthy (JBool b) = b"
| "truthy (JInt n) = (n \<noteq> 0)"
| "truthy (JFloat q) = (q \<noteq> 0)"
| "truthy (JStr s) = (s \<noteq> [])"
| "truthy (JList xs) = (xs \<noteq> [])"
| "truthy (JObj kvs) = (kvs \<noteq> [])"

text \<open>\<open>a or b\<close>.\<close>

definition py_or :: "json \<Rightarrow> json \<Rightarrow> json" where
  "py_or a b = (if truthy a then a else b)"

text \<open>\<open>d.get(k, default)\<close>, which only dictionaries have.\<close>

definition obj_get :: "json \<Rightarrow> string \<Rightarrow> json \<Rightarrow> py_exn + json" where
  "obj_get j k dflt =
     (case j of
        JObj d \<Rightarrow> Inr (case dget d k of None \<Rightarrow> dflt | Some v \<Rightarrow> v)
      | _ \<Rightarrow> Inl (AttributeError ''get''))"

text \<open>The operator \<open>*\<close>: numbers (a bool counts as 0 or 1), and repetition of a string or a list.\<close>

fun as_int :: "json \<Rightarrow> int option" where
  "as_int (JInt n) = Some n"
| "as_int (JBool b) = Some (of_bool b)"
| "as_int _ = None"

fun as_rat :: "json \<Rightarrow> rat option" where
  "as_rat (JFloat q) = Some q"
| "as_rat j = map_option of_int (as_int j)"

definition py_mul :: "json \<Rightarrow> json \<Rightarrow> py_exn + json" where
  "py_mul a b =
     (case (as_int a, as_int b) of
        (Some m, Some n) \<Rightarrow> Inr (JInt (m * n))
      | _ \<Rightarrow>
          (case (as_rat a, as_rat b) of
             (Some p, Some q) \<Rightarrow> Inr (JFloat (p * q))
           | _ \<Rightarrow>
               (case (a, as_int b, b, as_int a) of
                  (JStr s, Some n, _, _) \<Rightarrow> Inr (JStr (concat (replicate (nat n) s)))
                | (JList xs, Some n, _, _) \<Rightarrow> Inr (JList (concat (replicate (nat n) xs)))
                | (_, _, JStr s, Some n) \<Rightarrow> Inr (JStr (concat (replicate (nat n) s)))
                | (_, _, JList xs, Some n) \<Rightarrow> Inr (JList (concat (replicate (nat n) xs)))
                | _ \<Rightarrow> Inl TypeError)))"

section \<open>Normalising keys\<close>

text \<open>A dictionary comprehension assigns its items one after the other.\<close>

definition dict_of :: "(string \<times> json) list \<Rightarrow> (string, json) dict" where
  "dict_of kvs = fold (\<lambda>(k, v) d. dset k v d) kvs []"

definition underscores :: "string \<Rightarrow> string" where
  "underscores k = map (\<lambda>c. if c = CHR ''-'' then CHR ''_'' else c) k"

fun normalize_keys :: "json \<Rightarrow> json" where
  "normalize_keys (JObj kvs) = JObj (dict_of (map (\<lambda>kv. (underscores (fst kv), normalize_keys (snd kv))) kvs))"
| "normalize_keys (JList xs) = JList (map normalize_keys xs)"
| "normalize_keys j = j"

section \<open>Resolvers\<close>

datatype engine_class = VLLM | SGLANG

record resolver =
  res_class :: engine_class
  res_section :: json
  model_cfg :: json
  engine_cfg :: json

definition make_resolver :: "engine_class \<Rightarrow> json \<Rightarrow> py_exn + resolver" where
  "make_resolver cls engine_section =
     (let sec = normalize_keys engine_section
      in bind_result (obj_get sec ''model_config'' JNull) (\<lambda>m.
         bind_result (obj_get sec ''engine_config'' JNull) (\<lambda>e.
         Inr \<lparr>res_class = cls, res_section = sec,
              model_cfg = normalize_keys (py_or m (JObj [])),
              engine_cfg = normalize_keys (py_or e (JObj []))\<rparr>)))"

text \<open>The factory \<open>ConfigResolver\<close>: the engine type is the argument or the one of the section.\<close>

definition config_resolver :: "json \<Rightarrow> json \<Rightarrow> py_exn + resolver" where
  "config_resolver engine_section engine_type =
     bind_result (if engine_type = JNull then obj_get engine_section ''engine_type'' JNull else Inr engine_type) (\<lambda>et.
       let et' = (if truthy et then et else JStr ''vllm'')
       in make_resolver (if et' = JStr ''sglang'' then SGLANG else VLLM) engine_section)"

definition load_section :: "(string \<Rightarrow> py_exn + json) \<Rightarrow> string \<Rightarrow> string \<Rightarrow> py_exn + resolver" where
  "load_section read_json config_path section_key =
     bind_result (read_json config_path) (\<lambda>raw.
     bind_result (obj_get raw section_key (JObj [])) (\<lambda>sec. config_resolver sec JNull))"

definition generic_key_variants :: "engine_class \<Rightarrow> string \<Rightarrow> string list" where
  "generic_key_variants cls key =
     (case cls of
        VLLM \<Rightarrow>
          if key = ''model_name'' then [''served_model_name'', ''served-model-name'']
          else if key = ''model_path'' then [''model'']
          else if key = ''npu_mem_utils'' then [''gpu_memory_utilization'', ''gpu-memory-utilization'']
          else [key]
      | SGLANG \<Rightarrow>
          if key = ''model_name'' then [''served-model-name'', ''served_model_name'']
          else if key = ''model_path'' then [''model-path'', ''model'']
          else if key = ''npu_mem_utils'' then [''mem-fraction-static'', ''mem_fraction_static'']
          else [key])"

definition parallel_key_variants :: "engine_class \<Rightarrow> (string \<times> string list) list" where
  "parallel_key_variants cls =
     (case cls of
        VLLM \<Rightarrow>
          [(''dp_size'', [''data_parallel_size'', ''data-parallel-size'']),
           (''tp_size'', [''tensor_parallel_size'', ''tensor-parallel-size'']),
           (''pp_size'', [''pipeline_parallel_size'', ''pipeline-parallel-size'']),
           (''pcp_size'', [''prefill_context_parallel_size'', ''prefill-context-parallel-size'']),
           (''dp_rpc_port'', [''data_parallel_rpc_port'', ''data-parallel-rpc-port'']),
           (''enable_ep'', [''enable_expert_parallel'', ''enable-expert-parallel'']),
           (''cp_kv_cache_interleave_size'', [''cp_kv_cache_interleave_size'', ''cp-kv-cache-interleave-size''])]
      | SGLANG \<Rightarrow>
          [(''dp_size'', [''dp-size'', ''dp_size'']),
           (''tp_size'', [''tp-size'', ''tp_size'']),
           (''pp_size'', [''pp-size'', ''pp_size''])])"

fun get_engine_key :: "resolver \<Rightarrow> string list \<Rightarrow> py_exn + json" where
  "get_engine_key r [] = Inr JNull"
| "get_engine_key r (k # ks) =
     bind_result (obj_get (engine_cfg r) k JNull) (\<lambda>v. if v \<noteq> JNull then Inr v else get_engine_key r ks)"

definition resolver_get :: "resolver \<Rightarrow> string \<Rightarrow> json \<Rightarrow> py_exn + json" where
  "resolver_get r key dflt =
     bind_result (get_engine_key r (generic_key_variants (res_class r) key)) (\<lambda>engine_val.
     bind_result (obj_get (model_cfg r) key JNull) (\<lambda>model_val.
       Inr (if engine_val \<noteq> JNull then engine_val else if model_val \<noteq> JNull then model_val else dflt)))"

definition get_enable_multi_endpoints :: "resolver \<Rightarrow> bool \<Rightarrow> py_exn + bool" where
  "get_enable_multi_endpoints r dflt =
     (case res_class r of
        SGLANG \<Rightarrow> map_sum id truthy (obj_get (engine_cfg r) ''enable_multi_endpoints'' (JBool False))
      | VLLM \<Rightarrow>
          (case res_section r of
             JObj d \<Rightarrow>
               (case dget d ''enable_multi_endpoints'' of
                  Some v \<Rightarrow> Inr (truthy v)
                | None \<Rightarrow> map_sum id truthy (obj_get (engine_cfg r) ''enable_multi_endpoints'' (JBool dflt)))
           | _ \<Rightarrow> Inl TypeError))"

subsection \<open>The parallel configuration\<close>

fun resolve_variants ::
  "resolver \<Rightarrow> (string \<times> string list) list \<Rightarrow> (string, json) dict \<Rightarrow> py_exn + (string, json) dict" where
  "resolve_variants r [] result = Inr result"
| "resolve_variants r ((key, variants) # rest) result =
     bind_result (get_engine_key r variants) (\<lambda>v.
       resolve_variants r rest (if v \<noteq> JNull then dset key v result else result))"

definition resolve_engine_parallel_keys :: "resolver \<Rightarrow> py_exn + (string, json) dict" where
  "resolve_engine_parallel_keys r =
     bind_result (resolve_variants r (parallel_key_variants (res_class r)) []) (\<lambda>result.
       case res_class r of
         VLLM \<Rightarrow> Inr result
       | SGLANG \<Rightarrow>
           bind_result (get_engine_key r [''context-parallel-size'', ''context_parallel_size'']) (\<lambda>cp_size.
           bind_result (get_engine_key r [''enable-prefill-context-parallel'', ''enable_prefill_context_parallel'']) (\<lambda>cp_enabled.
             Inr (if truthy cp_size \<and> truthy (py_or cp_enabled (JBool False)) then dset ''pcp_size'' cp_size result
                  else result))))"

definition size_of :: "string \<Rightarrow> (string, json) dict \<Rightarrow> json" where
  "size_of key config = (case dget config key of None \<Rightarrow> JInt 1 | Some v \<Rightarrow> v)"

definition compute_local_world_size :: "(string, json) dict \<Rightarrow> py_exn + json" where
  "compute_local_world_size config =
     bind_result (py_mul (size_of ''pcp_size'' config) (size_of ''tp_size'' config))
       (\<lambda>m. py_mul m (size_of ''pp_size'' config))"

definition compute_world_size :: "resolver \<Rightarrow> (string, json) dict \<Rightarrow> py_exn + json" where
  "compute_world_size r config =
     bind_result
       (case res_class r of
          SGLANG \<Rightarrow> map_sum id truthy (get_engine_key r [''enable_dp_attention'', ''enable-dp-attention''])
        | VLLM \<Rightarrow> Inr False)
       (\<lambda>dp_attention.
          bind_result (compute_local_world_size config) (\<lambda>local.
            if dp_attention then Inr local else py_mul (size_of ''dp_size'' config) local))"

fun merge_legacy :: "(string \<times> json) list \<Rightarrow> (string, json) dict \<Rightarrow> (string, json) dict" where
  "merge_legacy [] result = result"
| "merge_legacy ((k, v) # rest) result = merge_legacy rest (if dmem k result then result else dset k v result)"

definition get_parallel_config :: "resolver \<Rightarrow> py_exn + (string, json) dict" where
  "get_parallel_config r =
     bind_result (resolve_engine_parallel_keys r) (\<lambda>result.
     bind_result (obj_get (model_cfg r) ''parallel_config'' JNull) (\<lambda>legacy.
       case py_or legacy (JObj []) of
         JObj kvs \<Rightarrow>
           (let merged = merge_legacy kvs result
            in bind_result (compute_local_world_size merged) (\<lambda>local.
               let with_local = dset ''local_world_size'' local merged
               in bind_result (compute_world_size r with_local) (\<lambda>world.
                  Inr (dset ''world_size'' world with_local))))
       | _ \<Rightarrow> Inl (AttributeError ''items'')))"

subsection \<open>Device-to-device weight transfer\<close>

text \<open>
  \<open>get_d2d_config\<close>: source and listening port. \<open>loads\<close> decodes a JSON string; \<open>None\<close> is \<open>JSONDecodeError\<close>.
\<close>

definition get_d2d_config :: "(string \<Rightarrow> json option) \<Rightarrow> resolver \<Rightarrow> py_exn + (json \<times> json) option" where
  "get_d2d_config loads r =
     (case res_class r of
        SGLANG \<Rightarrow> Inr None
      | VLLM \<Rightarrow>
          bind_result (obj_get (engine_cfg r) ''model_loader_extra_config'' JNull) (\<lambda>raw.
            case (case raw of JStr s \<Rightarrow> loads s | j \<Rightarrow> Some j) of
              Some (JObj d) \<Rightarrow>
                bind_result (obj_get (JObj d) ''source'' JNull) (\<lambda>s1.
                bind_result (obj_get (JObj d) ''SOURCE'' JNull) (\<lambda>s2.
                  let source = py_or s1 s2
                  in if \<not> truthy source then Inr None
                     else bind_result (obj_get (JObj d) ''listen_port'' JNull) (\<lambda>p1.
                          bind_result (obj_get (JObj d) ''LISTEN_PORT'' JNull) (\<lambda>p2.
                            Inr (Some (source, py_or p1 p2))))))
            | _ \<Rightarrow> Inr None))"

section \<open>Normalised sections\<close>

lemma dict_of_distinct: "dict_ok kvs \<Longrightarrow> dict_of kvs = kvs"
proof -
  have "dict_ok (d @ kvs) \<Longrightarrow> fold (\<lambda>(k, v) d. dset k v d) kvs d = d @ kvs" for d
  proof (induction kvs arbitrary: d)
    case (Cons kv kvs)
    obtain k v where kv: "kv = (k, v)" by (cases kv)
    have "dget d k = None" using Cons.prems by (force simp: kv map_of_eq_None_iff)
    then have "dset k v d = d @ [(k, v)]" by (rule dset_fresh)
    with Cons.IH [of "d @ [(k, v)]"] Cons.prems show ?case by (simp add: kv)
  qed simp
  from this [of "[]"] show "dict_ok kvs \<Longrightarrow> dict_of kvs = kvs" by (simp add: dict_of_def)
qed

lemma dict_of_props:
  "dict_ok (dict_of kvs)" "set (dict_of kvs) \<subseteq> set kvs"
proof -
  have "dict_ok d \<Longrightarrow> dict_ok (fold (\<lambda>(k, v) d. dset k v d) kvs d) \<and>
      set (fold (\<lambda>(k, v) d. dset k v d) kvs d) \<subseteq> set d \<union> set kvs" for d
  proof (induction kvs arbitrary: d)
    case (Cons kv kvs)
    obtain k v where kv: "kv = (k, v)" by (cases kv)
    have "set (dset k v d) \<subseteq> insert (k, v) (set d)" using set_dset [of _ _ k v d] by auto
    with Cons.IH [of "dset k v d"] Cons.prems show ?case by (auto simp: kv)
  qed simp
  from this [of "[]"] show "dict_ok (dict_of kvs)" "set (dict_of kvs) \<subseteq> set kvs" by (simp_all add: dict_of_def)
qed

lemma underscores_idem [simp]: "underscores (underscores k) = underscores k"
  by (simp add: underscores_def)

text \<open>Normalising is idempotent, also where two spellings of a key collide.\<close>

lemma normalize_keys_idem: "normalize_keys (normalize_keys j) = normalize_keys j"
proof (induction j rule: normalize_keys.induct)
  case (1 kvs)
  let ?f = "\<lambda>kv. (underscores (fst kv), normalize_keys (snd kv))"
  let ?d = "dict_of (map ?f kvs)"
  have "?f kv = kv" if "kv \<in> set ?d" for kv
  proof -
    from that dict_of_props(2) [of "map ?f kvs"] obtain kv0 where kv: "kv0 \<in> set kvs" "kv = ?f kv0" by auto
    then have "normalize_keys (normalize_keys (snd kv0)) = normalize_keys (snd kv0)" by (intro 1) simp_all
    with kv(2) show "?f kv = kv" by simp
  qed
  then have "map ?f ?d = ?d" by (rule map_idI)
  then have "dict_of (map ?f ?d) = ?d" using dict_of_distinct [OF dict_of_props(1)] by metis
  then show ?case by (simp only: normalize_keys.simps)
qed simp_all

lemma normalized_key: "normalize_keys j = j \<Longrightarrow> j = JObj d \<Longrightarrow> dmem k d \<Longrightarrow> underscores k = k"
proof -
  assume n: "normalize_keys j = j" and j: "j = JObj d" and k: "dmem k d"
  let ?f = "\<lambda>kv. (underscores (fst kv), normalize_keys (snd kv))"
  from n j have d: "d = dict_of (map ?f d)" by simp
  from k obtain v where "(k, v) \<in> set d" by (auto simp: dmem_iff_keys)
  with d dict_of_props(2) [of "map ?f d"] have "(k, v) \<in> set (map ?f d)" by auto
  then show "underscores k = k" by auto
qed

text \<open>
  A key spelled with a hyphen is never found in the configuration of a resolver, so the hyphenated variants of the
  key tables have no effect.
\<close>

lemma hyphenated_key_absent:
  assumes "make_resolver cls sec = Inr r" and "CHR ''-'' \<in> set k" and "obj_get (engine_cfg r) k JNull = Inr v"
  shows "v = JNull"
proof -
  from assms(1) have norm: "normalize_keys (engine_cfg r) = engine_cfg r"
    by (auto simp: make_resolver_def Let_def bind_result_Inr normalize_keys_idem)
  have "CHR ''-'' \<notin> set (underscores k)" by (auto simp: underscores_def)
  with assms(2) have "underscores k \<noteq> k" by metis
  with normalized_key [OF norm] have "engine_cfg r = JObj d \<Longrightarrow> \<not> dmem k d" for d by blast
  with assms(3) show ?thesis by (auto simp: obj_get_def dmem_def split: json.splits option.splits)
qed

section \<open>The resolved parallel configuration\<close>

text \<open>The value of an engine key: that of the first variant which is not \<open>None\<close>.\<close>

definition engine_value :: "resolver \<Rightarrow> string list \<Rightarrow> json option" where
  "engine_value r variants =
     (case get_engine_key r variants of Inr JNull \<Rightarrow> None | Inr v \<Rightarrow> Some v | Inl _ \<Rightarrow> None)"

lemma resolve_variants_value:
  assumes "resolve_variants r table result = Inr out" and "dict_ok table" and "dmem key table \<Longrightarrow> \<not> dmem key result"
  shows "dget out key = (case dget table key of None \<Rightarrow> dget result key | Some vs \<Rightarrow> engine_value r vs)"
  using assms
proof (induction table arbitrary: result)
  case (Cons kv table)
  obtain k vs where kv: "kv = (k, vs)" by (cases kv)
  from Cons.prems(1) obtain v where v: "get_engine_key r vs = Inr v"
    and rest: "resolve_variants r table (if v \<noteq> JNull then dset k v result else result) = Inr out"
    by (auto simp: kv bind_result_Inr)
  have "dmem key table \<Longrightarrow> key \<noteq> k" using Cons.prems(2) by (auto simp: kv dmem_iff_keys)
  with Cons.prems(3) have "dmem key table \<Longrightarrow> \<not> dmem key (if v \<noteq> JNull then dset k v result else result)"
    by (auto simp: kv dmem_def)
  from Cons.IH [OF rest _ this] Cons.prems(2)
  have *: "dget out key = (case dget table key of None \<Rightarrow> dget (if v \<noteq> JNull then dset k v result else result) key
      | Some vs \<Rightarrow> engine_value r vs)" by (simp add: kv)
  show ?case
  proof (cases "key = k")
    case True
    then have "dget table key = None" using Cons.prems(2) by (simp add: kv map_of_eq_None_iff)
    moreover have "dget result key = None" using Cons.prems(3) True by (simp add: kv dmem_def)
    ultimately show ?thesis using True v * by (simp add: kv engine_value_def split: json.splits)
  next
    case False
    then show ?thesis by (auto simp: * kv split: option.splits)
  qed
qed simp

lemma merge_legacy_value:
  "dget (merge_legacy kvs result) key = (case dget result key of None \<Rightarrow> dget kvs key | Some v \<Rightarrow> Some v)"
  by (induction kvs result rule: merge_legacy.induct) (auto simp: dmem_def split: option.splits)

lemma vllm_resolved:
  assumes "res_class r = VLLM" and "get_parallel_config r = Inr cfg"
  obtains result kvs local world where
    "resolve_variants r (parallel_key_variants VLLM) [] = Inr result"
    "\<exists>legacy. obj_get (model_cfg r) ''parallel_config'' JNull = Inr legacy \<and> py_or legacy (JObj []) = JObj kvs"
    "compute_local_world_size (merge_legacy kvs result) = Inr local"
    "py_mul (size_of ''dp_size'' (merge_legacy kvs result)) local = Inr world"
    "cfg = dset ''world_size'' world (dset ''local_world_size'' local (merge_legacy kvs result))"
proof -
  have size: "size_of k (dset ''local_world_size'' x d) = size_of k d" if "k \<noteq> ''local_world_size''" for k x d
    using that by (simp add: size_of_def)
  have local: "compute_local_world_size (dset ''local_world_size'' x d) = compute_local_world_size d" for x d
    by (simp add: compute_local_world_size_def size)
  have cfg: "bind_result (resolve_engine_parallel_keys r) (\<lambda>result.
      bind_result (obj_get (model_cfg r) ''parallel_config'' JNull) (\<lambda>legacy. f result legacy)) = Inr cfg \<Longrightarrow>
    \<exists>result legacy. resolve_engine_parallel_keys r = Inr result \<and> obj_get (model_cfg r) ''parallel_config'' JNull = Inr legacy" for f
    by (auto simp: bind_result_Inr)
  obtain result legacy where res: "resolve_engine_parallel_keys r = Inr result"
    and leg: "obj_get (model_cfg r) ''parallel_config'' JNull = Inr legacy"
    using cfg [OF assms(2) [unfolded get_parallel_config_def]] by blast
  have "resolve_variants r (parallel_key_variants VLLM) [] = Inr result"
    using res by (auto simp: resolve_engine_parallel_keys_def assms(1) bind_result_Inr)
  have eq: "(case py_or legacy (JObj []) of
      JObj kvs \<Rightarrow> bind_result (compute_local_world_size (merge_legacy kvs result)) (\<lambda>local.
        bind_result (compute_world_size r (dset ''local_world_size'' local (merge_legacy kvs result))) (\<lambda>world.
          Inr (dset ''world_size'' world (dset ''local_world_size'' local (merge_legacy kvs result)))))
    | _ \<Rightarrow> Inl (AttributeError ''items'')) = Inr cfg"
    using assms res leg
    by (cases "py_or legacy (JObj [])") (simp_all add: get_parallel_config_def Let_def)
  then obtain kvs where kvs: "py_or legacy (JObj []) = JObj kvs" by (cases "py_or legacy (JObj [])") simp_all
  have world: "compute_world_size r (dset ''local_world_size'' l d) =
      bind_result (compute_local_world_size d) (\<lambda>local. py_mul (size_of ''dp_size'' d) local)" for l d
    by (simp add: compute_world_size_def assms(1) local size)
  from eq obtain local world where "compute_local_world_size (merge_legacy kvs result) = Inr local"
    "py_mul (size_of ''dp_size'' (merge_legacy kvs result)) local = Inr world"
    "cfg = dset ''world_size'' world (dset ''local_world_size'' local (merge_legacy kvs result))"
    unfolding kvs by (auto simp: bind_result_Inr world simp del: update.simps)
  moreover note \<open>resolve_variants r (parallel_key_variants VLLM) [] = Inr result\<close> leg kvs
  ultimately show thesis by (intro that) blast+
qed

definition vllm_names :: "(string \<times> string) list" where
  "vllm_names =
     [(''dp_size'', ''data_parallel_size''), (''tp_size'', ''tensor_parallel_size''), (''pp_size'', ''pipeline_parallel_size''),
      (''pcp_size'', ''prefill_context_parallel_size''), (''dp_rpc_port'', ''data_parallel_rpc_port''),
      (''enable_ep'', ''enable_expert_parallel''), (''cp_kv_cache_interleave_size'', ''cp_kv_cache_interleave_size'')]"

definition legacy_parallel :: "resolver \<Rightarrow> (string, json) dict" where
  "legacy_parallel r =
     (case obj_get (model_cfg r) ''parallel_config'' JNull of Inr j \<Rightarrow> (case j of JObj d \<Rightarrow> d | _ \<Rightarrow> []) | Inl _ \<Rightarrow> [])"

lemma engine_value_hyphen:
  assumes "make_resolver cls sec = Inr r" and "CHR ''-'' \<in> set k"
  shows "engine_value r [k', k] = engine_value r [k']"
proof (cases "obj_get (engine_cfg r) k JNull")
  case (Inr v)
  with hyphenated_key_absent [OF assms Inr] show ?thesis
    by (cases "obj_get (engine_cfg r) k' JNull") (auto simp: engine_value_def bind_result_def split: json.splits)
next
  case (Inl e)
  then have "obj_get (engine_cfg r) k' JNull = Inl (AttributeError ''get'')"
    by (auto simp: obj_get_def split: json.splits)
  then show ?thesis by (simp add: engine_value_def)
qed

lemma vllm_table_value:
  assumes "make_resolver cls sec = Inr r"
  shows "(case dget (parallel_key_variants VLLM) key of None \<Rightarrow> None | Some vs \<Rightarrow> engine_value r vs) =
    (case dget vllm_names key of None \<Rightarrow> None | Some k \<Rightarrow> engine_value r [k])"
  using engine_value_hyphen [OF assms]
  by (simp add: parallel_key_variants_def vllm_names_def)

lemma legacy_parallel_eq:
  assumes "obj_get (model_cfg r) ''parallel_config'' JNull = Inr legacy" and "py_or legacy (JObj []) = JObj kvs"
  shows "legacy_parallel r = kvs"
  using assms by (cases legacy) (auto simp: legacy_parallel_def py_or_def split: if_splits)

text \<open>
  The parallel configuration a vLLM section resolves to. A key of the engine section wins over the legacy
  \<^verbatim>\<open>model_config.parallel_config\<close>; both world sizes are computed from the resolved sizes, whatever the
  user wrote.
\<close>

theorem vllm_parallel_config:
  assumes res: "make_resolver VLLM sec = Inr r" and cfg: "get_parallel_config r = Inr cfg"
  shows "(\<forall>key. key \<notin> {''world_size'', ''local_world_size''} \<longrightarrow>
      dget cfg key = (case (case dget vllm_names key of None \<Rightarrow> None | Some k \<Rightarrow> engine_value r [k]) of
        Some v \<Rightarrow> Some v | None \<Rightarrow> dget (legacy_parallel r) key)) \<and>
    (\<forall>dp pcp tp pp. size_of ''dp_size'' cfg = JInt dp \<and> size_of ''pcp_size'' cfg = JInt pcp \<and>
      size_of ''tp_size'' cfg = JInt tp \<and> size_of ''pp_size'' cfg = JInt pp \<longrightarrow>
      dget cfg ''local_world_size'' = Some (JInt (pcp * tp * pp)) \<and> dget cfg ''world_size'' = Some (JInt (dp * (pcp * tp * pp))))"
proof -
  have cls: "res_class r = VLLM" using res by (auto simp: make_resolver_def Let_def bind_result_Inr)
  obtain result kvs local world where r: "resolve_variants r (parallel_key_variants VLLM) [] = Inr result"
    and leg: "\<exists>legacy. obj_get (model_cfg r) ''parallel_config'' JNull = Inr legacy \<and> py_or legacy (JObj []) = JObj kvs"
    and loc: "compute_local_world_size (merge_legacy kvs result) = Inr local"
    and world: "py_mul (size_of ''dp_size'' (merge_legacy kvs result)) local = Inr world"
    and eq: "cfg = dset ''world_size'' world (dset ''local_world_size'' local (merge_legacy kvs result))"
    by (rule vllm_resolved [OF cls cfg])
  have "dict_ok (parallel_key_variants VLLM)" by (simp add: parallel_key_variants_def)
  then have engine: "dget result key = (case dget vllm_names key of None \<Rightarrow> None | Some k \<Rightarrow> engine_value r [k])" for key
    using resolve_variants_value [OF r, of key] vllm_table_value [OF res, of key]
    by (cases "dget (parallel_key_variants VLLM) key") simp_all
  have kvs: "legacy_parallel r = kvs" using leg legacy_parallel_eq by blast
  have "dget cfg key = (case (case dget vllm_names key of None \<Rightarrow> None | Some k \<Rightarrow> engine_value r [k]) of
        Some v \<Rightarrow> Some v | None \<Rightarrow> dget (legacy_parallel r) key)" if "key \<notin> {''world_size'', ''local_world_size''}" for key
    using that by (auto simp: eq merge_legacy_value engine kvs split: option.splits)
  moreover have "dget cfg ''local_world_size'' = Some (JInt (pcp * tp * pp)) \<and> dget cfg ''world_size'' = Some (JInt (dp * (pcp * tp * pp)))"
    if "size_of ''dp_size'' cfg = JInt dp \<and> size_of ''pcp_size'' cfg = JInt pcp \<and>
      size_of ''tp_size'' cfg = JInt tp \<and> size_of ''pp_size'' cfg = JInt pp" for dp pcp tp pp
  proof -
    have size: "size_of k cfg = size_of k (merge_legacy kvs result)" if "k \<notin> {''world_size'', ''local_world_size''}" for k
      using that by (simp add: eq size_of_def)
    have l: "local = JInt (pcp * tp * pp)"
      using loc that by (simp add: compute_local_world_size_def size [symmetric] py_mul_def)
    then have "world = JInt (dp * (pcp * tp * pp))"
      using world that by (simp add: size [symmetric] py_mul_def)
    with l show ?thesis by (simp add: eq)
  qed
  ultimately show ?thesis by blast
qed

end
