(* ===== verification/Assembler.thy ===== *)
theory Assembler
  imports Controller_Properties Config_Resolver
begin

text \<open>
  The controller's \<open>InstanceAssembler\<close> (\<^verbatim>\<open>motor/controller/core/instance_assembler.py\<close>): node managers
  register their pods, the assembler collects them into instances, hands a complete instance to the
  instance manager and sends the start commands.

  The assembler and the instance manager share the instance objects, so an assembler state contains the
  manager, whose heap holds every instance object; a new object is placed at the reference given as
  argument. Each public operation, and each visit of a loop to one job, is one atomic step; the order in which the
  operations take the locks is modelled in \<open>Lock_Order\<close>. The environment supplies the
  clock and the answers of the node managers. The messages are the validated pydantic objects.
\<close>

section \<open>Messages and state\<close>

datatype register_status = NOT_REGISTERED | ASSEMBLING | ASSEMBLED

record server_info =
  server_id :: string
  container_ip :: string
  server_device :: "device_info list"

record ranktable =
  rt_version :: string
  rt_status :: string
  server_count :: string
  server_list :: "server_info list"

record register_msg =
  rm_job_name :: string
  rm_model_name :: string
  rm_engine_type :: "string option"
  rm_dispatch_capabilities :: "string list"
  rm_role :: string
  rm_pod_ip :: string
  rm_business_port :: "string list"
  rm_mgmt_port :: "string list"
  rm_bootstrap_port :: "int option"
  rm_nm_port :: string
  rm_parallel_config :: parallel_config
  rm_enable_multi_endpoints :: bool
  rm_device_num :: int
  rm_ranktable :: "ranktable option"
  rm_nnodes :: int
  rm_is_master :: bool

record reregister_msg =
  rr_job_name :: string
  rr_model_name :: string
  rr_engine_type :: "string option"
  rr_dispatch_capabilities :: "string list"
  rr_instance_id :: int
  rr_role :: string
  rr_pod_ip :: string
  rr_nm_port :: string
  rr_parallel_config :: parallel_config
  rr_enable_multi_endpoints :: bool
  rr_device_num :: int
  rr_endpoints :: "endpoint list"
  rr_nnodes :: int
  rr_node_rank :: int

record start_cmd_msg =
  sc_job_name :: string
  sc_role :: string
  sc_instance_id :: int
  sc_endpoints :: "endpoint list"
  sc_master_dp_ip :: string
  sc_ranktable :: "ranktable option"
  sc_d2d_peer_ips :: "string list option"
  sc_node_rank :: int

record assemble_metadata =
  md_instance :: iref
  register_status :: register_status
  start_command_send_times :: int
  register_timestamp :: rat
  is_reregister :: bool
  md_ranktable :: "ranktable option"
  md_nnodes :: int
  snapshot_dp_master_ip :: "string option"

text \<open>
  What \<open>persist_data\<close> writes: the counter and, per job, the dumped metadata with the dumped instance. A value that
  \<open>model_validate\<close> rejects is \<open>None\<close>, a missing counter too.
\<close>

record dumped_metadata =
  dm_metadata :: assemble_metadata
  dm_instance :: instance_obj

record assembler_data =
  ad_ins_id_cnt :: "int option"
  ad_instances :: "(string \<times> dumped_metadata option) list"

record assembler_state =
  as_data :: assembler_data
  as_version :: int
  as_timestamp :: rat
  as_checksum :: string

type_synonym asm_digest = "assembler_data \<Rightarrow> int \<Rightarrow> rat \<Rightarrow> string"

record assembler =
  ins_id_cnt :: int
  asm_instances :: "(string, assemble_metadata) dict"
  asm_data_version :: int
  asm_persistence :: bool
  user_config_path :: string
  d2d_enabled_cache :: "(string, bool) dict"
  asm_writes :: "assembler_state list"
  manager :: controller

definition init_assembler :: "bool \<Rightarrow> string \<Rightarrow> controller \<Rightarrow> assembler" where
  "init_assembler persist path c =
     \<lparr>ins_id_cnt = 1, asm_instances = [], asm_data_version = 0, asm_persistence = persist, user_config_path = path,
      d2d_enabled_cache = [], asm_writes = [], manager = c\<rparr>"

abbreviation instance_of :: "assembler \<Rightarrow> assemble_metadata \<Rightarrow> instance_obj" where
  "instance_of a md \<equiv> ctrl_heap (manager a) (md_instance md)"

definition put_instance :: "iref \<Rightarrow> instance_obj \<Rightarrow> assembler \<Rightarrow> assembler" where
  "put_instance r i a = a\<lparr>manager := set_instance r i (manager a)\<rparr>"

definition set_metadata :: "string \<Rightarrow> assemble_metadata \<Rightarrow> assembler \<Rightarrow> assembler" where
  "set_metadata job md a = a\<lparr>asm_instances := dset job md (asm_instances a)\<rparr>"

definition pop_job :: "string \<Rightarrow> assembler \<Rightarrow> assembler" where
  "pop_job job a = a\<lparr>asm_instances := ddel job (asm_instances a)\<rparr>"

section \<open>Persistence\<close>

definition next_asm_version :: "assembler \<Rightarrow> int \<times> assembler" where
  "next_asm_version a = (asm_data_version a + 1, a\<lparr>asm_data_version := asm_data_version a + 1\<rparr>)"

definition dump_assembler :: "assembler \<Rightarrow> assembler_data" where
  "dump_assembler a =
     \<lparr>ad_ins_id_cnt = Some (ins_id_cnt a),
      ad_instances = map (\<lambda>(job, md). (job, Some \<lparr>dm_metadata = md, dm_instance = dump_instance (instance_of a md)\<rparr>))
        (asm_instances a)\<rparr>"

definition asm_checksum :: "asm_digest \<Rightarrow> assembler_state \<Rightarrow> string" where
  "asm_checksum digest st = digest (as_data st) (as_version st) (as_timestamp st)"

definition asm_valid :: "asm_digest \<Rightarrow> assembler_state \<Rightarrow> bool" where
  "asm_valid digest st \<longleftrightarrow> as_checksum st = asm_checksum digest st"

definition asm_persist_data :: "asm_digest \<Rightarrow> rat \<Rightarrow> assembler \<Rightarrow> assembler" where
  "asm_persist_data digest t a =
     (case next_asm_version a of
        (next_version, a1) \<Rightarrow>
          (let st = \<lparr>as_data = dump_assembler a1, as_version = next_version, as_timestamp = t, as_checksum = ''''\<rparr>
           in a1\<lparr>asm_writes := asm_writes a1 @ [st\<lparr>as_checksum := asm_checksum digest st\<rparr>]\<rparr>))"

definition persist_if :: "bool \<Rightarrow> asm_digest \<Rightarrow> rat \<Rightarrow> assembler \<Rightarrow> assembler" where
  "persist_if need digest t a = (if need \<and> asm_persistence a then asm_persist_data digest t a else a)"

text \<open>The restored objects are placed at the references from \<open>base\<close> on.\<close>

fun asm_restore_loop :: "(string \<times> dumped_metadata option) list \<Rightarrow> iref \<Rightarrow> assembler \<Rightarrow> assembler" where
  "asm_restore_loop [] base a = a"
| "asm_restore_loop ((job, None) # es) base a = asm_restore_loop es base a"
| "asm_restore_loop ((job, Some dm) # es) base a =
     asm_restore_loop es (Suc base)
       (set_metadata job ((dm_metadata dm)\<lparr>md_instance := base, is_reregister := True\<rparr>) (put_instance base (dm_instance dm) a))"

datatype asm_restored = ASM_NO_DATA | ASM_NO_STATE | ASM_BAD_FORMAT | ASM_RESTORED assembler_state

definition asm_restore_data :: "asm_digest \<Rightarrow> asm_restored \<Rightarrow> iref \<Rightarrow> assembler \<Rightarrow> assembler \<times> bool" where
  "asm_restore_data digest res base a =
     (case res of
        ASM_NO_DATA \<Rightarrow> (a, True)
      | ASM_NO_STATE \<Rightarrow> (a, False)
      | ASM_BAD_FORMAT \<Rightarrow> (a, False)
      | ASM_RESTORED st \<Rightarrow>
          if \<not> asm_valid digest st then (a, False)
          else (let a1 = a\<lparr>asm_data_version := max (asm_data_version a) (as_version st), asm_instances := [],
                           ins_id_cnt := (case ad_ins_id_cnt (as_data st) of None \<Rightarrow> 0 | Some n \<Rightarrow> n)\<rparr>
                in (asm_restore_loop (ad_instances (as_data st)) base a1, True)))"

section \<open>Building the endpoints of a pod\<close>

definition make_instance ::
  "string \<Rightarrow> string \<Rightarrow> string option \<Rightarrow> string list \<Rightarrow> int \<Rightarrow> string \<Rightarrow> parallel_config \<Rightarrow> bool \<Rightarrow> instance_obj" where
  "make_instance job model engine caps n role pc multi =
     \<lparr>job_name = job, model_name = model, engine_type = engine, dispatch_capabilities = caps, ins_id = n,
      ins_role = role, ins_status = INITIAL, parallel_cfg = Some pc, enable_multi_endpoints = multi,
      node_managers = [], endpoints = [], gathered_workload = zero_workload, endpoints_version = 0,
      cached_endpoints_tuple = None, cached_endpoints_version = None\<rparr>"

definition index_or_raise :: "'a list \<Rightarrow> nat \<Rightarrow> py_exn + 'a" where
  "index_or_raise xs k = (if k < length xs then Inr (xs ! k) else Inl IndexError)"

text \<open>The slice \<open>xs[:n]\<close>; a negative bound counts from the end.\<close>

definition slice_to :: "int \<Rightarrow> 'a list \<Rightarrow> 'a list" where
  "slice_to n xs = (if n < 0 then take (nat (int (length xs) + n)) xs else take (nat n) xs)"

definition build_device_infos :: "register_msg \<Rightarrow> int \<Rightarrow> int \<Rightarrow> int \<Rightarrow> py_exn + device_info list" where
  "build_device_infos msg start_idx devices_per_endpoint id_offset =
     (case rm_ranktable msg of
        Some rt \<Rightarrow> map_sum id server_device (index_or_raise (server_list rt) 0)
      | None \<Rightarrow>
          Inr (map (\<lambda>device_idx. \<lparr>device_ip = None, device_id = dec (nat device_idx),
                                  rank_id = dec (nat (id_offset * devices_per_endpoint + device_idx)), super_device_id = None\<rparr>)
                 (filter (\<lambda>device_idx. device_idx < rm_device_num msg)
                    (map (\<lambda>j. start_idx + j) [0..devices_per_endpoint - 1]))))"

text \<open>Each endpoint reads the clock for its first heartbeat: \<open>clk i\<close> is the reading of endpoint \<open>i\<close> of the pod.\<close>

definition build_single_endpoint :: "(nat \<Rightarrow> rat) \<Rightarrow> register_msg \<Rightarrow> int \<Rightarrow> py_exn + (int, endpoint) dict" where
  "build_single_endpoint clk msg id_offset =
     bind_result (build_device_infos msg 0 (local_world_size (rm_parallel_config msg)) id_offset) (\<lambda>devs.
     bind_result (index_or_raise (rm_business_port msg) 0) (\<lambda>bport.
     bind_result (index_or_raise (rm_mgmt_port msg) 0) (\<lambda>mport.
     bind_result (make_endpoint (clk 0) id_offset (rm_pod_ip msg) bport mport (rm_bootstrap_port msg) None (Some devs) None None False) (\<lambda>e.
       Inr [(0, e)]))))"

fun multi_loop ::
  "(nat \<Rightarrow> rat) \<Rightarrow> register_msg \<Rightarrow> int \<Rightarrow> nat \<Rightarrow> string list \<Rightarrow> (int, endpoint) dict \<Rightarrow> py_exn + (int, endpoint) dict" where
  "multi_loop clk msg id_offset i [] eps = Inr eps"
| "multi_loop clk msg id_offset i (port # ports) eps =
     (let dpe = local_world_size (rm_parallel_config msg); start_idx = dpe * int i
      in if start_idx + dpe > rm_device_num msg then Inr eps
         else bind_result (build_device_infos msg start_idx dpe id_offset) (\<lambda>devs.
              bind_result (index_or_raise (rm_mgmt_port msg) i) (\<lambda>mport.
              bind_result (make_endpoint (clk i) (id_offset + int i) (rm_pod_ip msg) port mport (rm_bootstrap_port msg) None (Some devs) None None False) (\<lambda>e.
                multi_loop clk msg id_offset (Suc i) ports (dset (int i) e eps)))))"

definition build_multi_endpoints :: "(nat \<Rightarrow> rat) \<Rightarrow> register_msg \<Rightarrow> int \<Rightarrow> py_exn + (int, endpoint) dict" where
  "build_multi_endpoints clk msg id_offset =
     (let dpe = local_world_size (rm_parallel_config msg);
          needed = int (length (rm_business_port msg)) * dpe
      in if needed > rm_device_num msg then
           (if dpe = 0 then Inl ZeroDivisionError
            else multi_loop clk msg id_offset 0 (slice_to (rm_device_num msg div dpe) (rm_business_port msg)) [])
         else multi_loop clk msg id_offset 0 (rm_business_port msg) [])"

definition merge_ranktable :: "ranktable option \<Rightarrow> ranktable option \<Rightarrow> ranktable option" where
  "merge_ranktable new old =
     (case new of
        None \<Rightarrow> old
      | Some rt \<Rightarrow>
          (case old of
             None \<Rightarrow> Some rt
           | Some old_rt \<Rightarrow>
               (let servers = server_list old_rt @ server_list rt
                in Some (old_rt\<lparr>server_list := servers, server_count := dec (length servers)\<rparr>))))"

definition build_endpoints ::
  "(nat \<Rightarrow> rat) \<Rightarrow> register_msg \<Rightarrow> instance_obj \<Rightarrow> assemble_metadata \<Rightarrow> py_exn + ((int, endpoint) dict \<times> assemble_metadata)" where
  "build_endpoints clk msg i md =
     (let id_offset = int (get_endpoints_num i)
      in bind_result (if rm_enable_multi_endpoints msg then build_multi_endpoints clk msg id_offset
                      else build_single_endpoint clk msg id_offset)
           (\<lambda>eps. Inr (eps, md\<lparr>md_ranktable := merge_ranktable (rm_ranktable msg) (md_ranktable md)\<rparr>)))"

section \<open>Registration\<close>

record asm_env =
  reg_time :: rat
  ep_time :: "nat \<Rightarrow> rat"
  persist_time :: rat

definition eval_register_status :: "string \<Rightarrow> assembler \<Rightarrow> register_status" where
  "eval_register_status job a =
     (if has_active_instance_by_job_name job (manager a) then ASSEMBLED
      else if dmem job (asm_instances a) then ASSEMBLING
      else NOT_REGISTERED)"

definition new_metadata :: "iref \<Rightarrow> rat \<Rightarrow> bool \<Rightarrow> int \<Rightarrow> assemble_metadata" where
  "new_metadata r t rereg nnodes =
     \<lparr>md_instance = r, register_status = NOT_REGISTERED, start_command_send_times = 0, register_timestamp = t,
      is_reregister = rereg, md_ranktable = None, md_nnodes = nnodes, snapshot_dp_master_ip = None\<rparr>"

text \<open>The part of \<open>register\<close> under the assembler's lock; \<open>None\<close> is the answer \<open>-1\<close>.\<close>

definition register_job :: "asm_env \<Rightarrow> iref \<Rightarrow> register_msg \<Rightarrow> assembler \<Rightarrow> assembler option" where
  "register_job \<epsilon> r msg a =
     (case eval_register_status (rm_job_name msg) a of
        ASSEMBLED \<Rightarrow> None
      | NOT_REGISTERED \<Rightarrow>
          (let i = make_instance (rm_job_name msg) (rm_model_name msg) (rm_engine_type msg) (rm_dispatch_capabilities msg)
                     (ins_id_cnt a) (rm_role msg) (rm_parallel_config msg) (rm_enable_multi_endpoints msg)
           in Some ((set_metadata (rm_job_name msg) (new_metadata r (reg_time \<epsilon>) False (rm_nnodes msg)) (put_instance r i a))
                      \<lparr>ins_id_cnt := ins_id_cnt a + 1\<rparr>))
      | ASSEMBLING \<Rightarrow>
          (let md = the (dget (asm_instances a) (rm_job_name msg))
           in if is_reregister md then None
              else Some (set_metadata (rm_job_name msg) (md\<lparr>register_timestamp := reg_time \<epsilon>\<rparr>) a)))"

definition record_master :: "register_msg \<Rightarrow> instance_obj \<Rightarrow> assemble_metadata \<Rightarrow> assemble_metadata" where
  "record_master msg i md =
     (if rm_is_master msg then
        (case snapshot_dp_master_ip md of
           Some ip \<Rightarrow> if ip \<noteq> '''' \<and> ip \<noteq> rm_pod_ip msg \<and> has_node_mgr (Some ip) i then md
                      else md\<lparr>snapshot_dp_master_ip := Some (rm_pod_ip msg)\<rparr>
         | None \<Rightarrow> md\<lparr>snapshot_dp_master_ip := Some (rm_pod_ip msg)\<rparr>)
      else md)"

definition register :: "asm_digest \<Rightarrow> asm_env \<Rightarrow> iref \<Rightarrow> register_msg \<Rightarrow> assembler \<Rightarrow> assembler \<times> (py_exn + int)" where
  "register digest \<epsilon> r msg a =
     (let job = rm_job_name msg
      in case register_job \<epsilon> r msg a of
           None \<Rightarrow> (a, Inr (- 1))
         | Some a1 \<Rightarrow>
             (let md = the (dget (asm_instances a1) job); i = instance_of a1 md
              in if has_node_mgr (Some (rm_pod_ip msg)) i then (a1, Inr 0)
                 else (let md1 = record_master msg i md;
                           i1 = add_node_mgr (Some (rm_pod_ip msg)) (Some (rm_nm_port msg)) (rm_device_num msg) i;
                           a2 = set_metadata job md1 (put_instance (md_instance md) i1 a1)
                       in case build_endpoints (ep_time \<epsilon>) msg i1 md1 of
                            Inl x \<Rightarrow> (a2, Inl x)
                          | Inr (eps, md2) \<Rightarrow>
                              (let a3 = set_metadata job md2 (put_instance (md_instance md) (add_endpoints (rm_pod_ip msg) (Some eps) i1) a2)
                               in (persist_if True digest (persist_time \<epsilon>) a3, Inr 0)))))"

definition endpoints_by_id :: "endpoint list \<Rightarrow> (int, endpoint) dict" where
  "endpoints_by_id es = fold (\<lambda>e d. dset (ep_id e) e d) es []"

definition reregister_job :: "asm_env \<Rightarrow> iref \<Rightarrow> reregister_msg \<Rightarrow> assembler \<Rightarrow> assembler option" where
  "reregister_job \<epsilon> r msg a =
     map_option (\<lambda>a1. a1\<lparr>ins_id_cnt := max (ins_id_cnt a1) (rr_instance_id msg + 1)\<rparr>)
       (case eval_register_status (rr_job_name msg) a of
          ASSEMBLED \<Rightarrow> None
        | NOT_REGISTERED \<Rightarrow>
            (let i = make_instance (rr_job_name msg) (rr_model_name msg) (rr_engine_type msg) (rr_dispatch_capabilities msg)
                       (rr_instance_id msg) (rr_role msg) (rr_parallel_config msg) (rr_enable_multi_endpoints msg)
             in Some (set_metadata (rr_job_name msg) (new_metadata r (reg_time \<epsilon>) True (rr_nnodes msg)) (put_instance r i a)))
        | ASSEMBLING \<Rightarrow>
            (let md = the (dget (asm_instances a) (rr_job_name msg))
             in if \<not> is_reregister md then None
                else Some (set_metadata (rr_job_name msg) (md\<lparr>register_timestamp := reg_time \<epsilon>\<rparr>) a)))"

definition reregister :: "asm_digest \<Rightarrow> asm_env \<Rightarrow> iref \<Rightarrow> reregister_msg \<Rightarrow> assembler \<Rightarrow> assembler \<times> int" where
  "reregister digest \<epsilon> r msg a =
     (case reregister_job \<epsilon> r msg a of
        None \<Rightarrow> (a, - 1)
      | Some a1 \<Rightarrow>
          (let md = the (dget (asm_instances a1) (rr_job_name msg)); i = instance_of a1 md;
               i1 = add_node_mgr (Some (rr_pod_ip msg)) (Some (rr_nm_port msg)) (rr_device_num msg) i;
               es = map (\<lambda>e. if rr_node_rank msg \<noteq> 0 then e\<lparr>headless := True\<rparr> else e) (rr_endpoints msg);
               i2 = add_endpoints (rr_pod_ip msg) (Some (endpoints_by_id es)) i1
           in (persist_if True digest (persist_time \<epsilon>) (put_instance (md_instance md) i2 a1), 0)))"

section \<open>Assembling\<close>

definition filter_abnormal_endpoints :: "(node_manager \<Rightarrow> bool) \<Rightarrow> instance_obj \<Rightarrow> instance_obj" where
  "filter_abnormal_endpoints node_manager_alive i =
     fold (\<lambda>nm i. if node_manager_alive nm then i
                  else del_node_mgr (Some (nm_pod_ip nm)) (Some (nm_port nm)) (del_endpoints (nm_pod_ip nm) i))
       (node_managers i) i"

definition drop_stale_master :: "instance_obj \<Rightarrow> assemble_metadata \<Rightarrow> assemble_metadata" where
  "drop_stale_master i md =
     (case snapshot_dp_master_ip md of
        Some ip \<Rightarrow> if ip \<noteq> '''' \<and> \<not> has_node_mgr (Some ip) i then md\<lparr>snapshot_dp_master_ip := None\<rparr> else md
      | None \<Rightarrow> md)"

definition ready_to_start :: "int \<Rightarrow> instance_obj \<Rightarrow> bool" where
  "ready_to_start nnodes i =
     (if nnodes > 1 then
        (let expected_nodes =
               (if enable_multi_endpoints i
                then (case parallel_cfg i of Some pc \<Rightarrow> dp_size pc | None \<Rightarrow> 1) * nnodes
                else get_expected_endpoint_count i)
         in int (get_node_managers_num i) \<ge> expected_nodes)
      else is_endpoints_enough i)"

definition set_headless :: "string \<Rightarrow> instance_obj \<Rightarrow> instance_obj" where
  "set_headless pod i = map_endpoints (\<lambda>loc e. if fst loc = pod then e\<lparr>headless := True\<rparr> else e) i"

definition mark_headless :: "int \<Rightarrow> instance_obj \<Rightarrow> instance_obj" where
  "mark_headless nnodes i =
     invalidate_endpoints_cache
       (fold (\<lambda>(rank, nm) i. if int rank mod nnodes = 0 then i else set_headless (nm_pod_ip nm) i)
          (enumerate 0 (node_managers i)) i)"

record asm_loop_env =
  al_now :: rat
  al_alive :: "node_manager \<Rightarrow> bool"
  al_timeout :: rat
  al_persist_time :: rat

definition assemble_instance :: "asm_digest \<Rightarrow> asm_loop_env \<Rightarrow> string \<Rightarrow> assemble_metadata \<Rightarrow> assembler \<Rightarrow> assembler" where
  "assemble_instance digest \<epsilon> job md a =
     (let i = filter_abnormal_endpoints (al_alive \<epsilon>) (instance_of a md);
          md1 = drop_stale_master i md;
          nnodes = md_nnodes md1
      in if ready_to_start nnodes i then
           (let i1 = (if nnodes > 1 \<and> \<not> is_reregister md1 then mark_headless nnodes i else i);
                a1 = set_metadata job (md1\<lparr>register_status := ASSEMBLED\<rparr>) (put_instance (md_instance md) i1 a);
                a2 = a1\<lparr>manager := add_instance (md_instance md) (al_now \<epsilon>) (manager a1)\<rparr>
            in if is_reregister md1 then persist_if True digest (al_persist_time \<epsilon>) (pop_job job a2) else a2)
         else
           (let a1 = set_metadata job md1 (put_instance (md_instance md) i a)
            in if al_now \<epsilon> - register_timestamp md1 > al_timeout \<epsilon>
               then persist_if True digest (al_persist_time \<epsilon>) (pop_job job a1) else a1))"

text \<open>One visit and one pass of \<open>_instances_assembler_loop\<close>.\<close>

definition assemble_visit :: "asm_digest \<Rightarrow> asm_loop_env \<Rightarrow> string \<Rightarrow> assembler \<Rightarrow> assembler" where
  "assemble_visit digest \<epsilon> job a =
     (case dget (asm_instances a) job of
        None \<Rightarrow> a
      | Some md \<Rightarrow> if register_status md = ASSEMBLED then a else assemble_instance digest \<epsilon> job md a)"

definition assembler_pass :: "asm_digest \<Rightarrow> (string \<Rightarrow> asm_loop_env) \<Rightarrow> assembler \<Rightarrow> assembler" where
  "assembler_pass digest envs a = fold (\<lambda>job. assemble_visit digest (envs job) job) (dkeys (asm_instances a)) a"

section \<open>Start commands\<close>

definition D2D_SOURCE_SENTINEL :: json where
  "D2D_SOURCE_SENTINEL = JStr ''auto''"

definition role_to_section_key :: "string \<Rightarrow> string" where
  "role_to_section_key role =
     (if role = ''encode'' then ''motor_engine_encode_config''
      else if role = ''prefill'' then ''motor_engine_prefill_config''
      else if role = ''decode'' then ''motor_engine_decode_config''
      else ''motor_engine_union_config'')"

record files =
  read_json :: "string \<Rightarrow> py_exn + json"
  json_loads :: "string \<Rightarrow> json option"

definition is_d2d_enabled_for_role :: "files \<Rightarrow> string \<Rightarrow> assembler \<Rightarrow> bool \<times> assembler" where
  "is_d2d_enabled_for_role fs role a =
     (case dget (d2d_enabled_cache a) role of
        Some cached \<Rightarrow> (cached, a)
      | None \<Rightarrow>
          (let enabled =
                 (if user_config_path a = '''' then False
                  else (case bind_result (load_section (read_json fs) (user_config_path a) (role_to_section_key role))
                               (get_d2d_config (json_loads fs)) of
                          Inl _ \<Rightarrow> False
                        | Inr None \<Rightarrow> False
                        | Inr (Some (source, listen_port)) \<Rightarrow> source = D2D_SOURCE_SENTINEL \<and> listen_port \<noteq> JNull))
           in (enabled, a\<lparr>d2d_enabled_cache := dset role enabled (d2d_enabled_cache a)\<rparr>)))"

text \<open>
  The addresses found for an endpoint id form a Python set, which the code iterates in an order the language does
  not fix: \<open>set_order\<close> gives that order for the list of first insertions.
\<close>

definition peer_ips :: "string \<Rightarrow> string \<Rightarrow> int \<Rightarrow> controller \<Rightarrow> string list" where
  "peer_ips role own_job_name n c =
     remdups (concat (map (\<lambda>r. let inst = ctrl_heap c r
                               in if ins_role inst \<noteq> role \<or> job_name inst = own_job_name then []
                                  else map ep_ip (filter (\<lambda>e. ep_id e = n)
                                         (List.map_filter (endpoint_at inst) (fst (get_all_endpoints True inst)))))
                (get_instances (Some {ACTIVE}) c)))"

definition collect_d2d_peer_ips ::
  "(string list \<Rightarrow> string list) \<Rightarrow> instance_obj \<Rightarrow> endpoint list \<Rightarrow> controller \<Rightarrow> string list option" where
  "collect_d2d_peer_ips set_order i endpoint_list c =
     (if endpoint_list = [] then None
      else (let encoded = concat (map (\<lambda>e. map (\<lambda>ip. dec_int (ep_id e) @ '':'' @ ip)
                              (set_order (peer_ips (ins_role i) (job_name i) (ep_id e) c))) endpoint_list)
            in if encoded = [] then None else Some encoded))"

definition start_cmd ::
  "(string list \<Rightarrow> string list) \<Rightarrow> bool \<Rightarrow> string \<Rightarrow> assemble_metadata \<Rightarrow> controller \<Rightarrow> nat \<Rightarrow> node_manager \<Rightarrow> start_cmd_msg" where
  "start_cmd set_order d2d_enabled master md c rank nm =
     (let i = ctrl_heap c (md_instance md); es = dvalues (get_endpoints (nm_pod_ip nm) i)
      in \<lparr>sc_job_name = job_name i, sc_role = ins_role i, sc_instance_id = ins_id i, sc_endpoints = es,
          sc_master_dp_ip = master, sc_ranktable = md_ranktable md,
          sc_d2d_peer_ips = (if d2d_enabled then collect_d2d_peer_ips set_order i es c else None),
          sc_node_rank = (if md_nnodes md > 1 then int rank mod md_nnodes md else int rank)\<rparr>)"

text \<open>The commands, in order, with the node managers they go to; those without endpoints are skipped.\<close>

definition start_commands ::
  "(string list \<Rightarrow> string list) \<Rightarrow> bool \<Rightarrow> string \<Rightarrow> assemble_metadata \<Rightarrow> controller \<Rightarrow> (node_manager \<times> start_cmd_msg) list" where
  "start_commands set_order d2d_enabled master md c =
     map (\<lambda>(rank, nm). (nm, start_cmd set_order d2d_enabled master md c rank nm))
       (filter (\<lambda>(rank, nm). get_endpoints (nm_pod_ip nm) (ctrl_heap c (md_instance md)) \<noteq> [])
          (enumerate 0 (node_managers (ctrl_heap c (md_instance md)))))"

definition master_dp_ip :: "assemble_metadata \<Rightarrow> instance_obj \<Rightarrow> string option" where
  "master_dp_ip md i =
     (case snapshot_dp_master_ip md of
        Some ip \<Rightarrow> if ip \<noteq> '''' then Some ip
                   else (case node_managers i of [] \<Rightarrow> Some ip | nm # _ \<Rightarrow> Some (nm_pod_ip nm))
      | None \<Rightarrow> (case node_managers i of [] \<Rightarrow> None | nm # _ \<Rightarrow> Some (nm_pod_ip nm)))"

record asm_send_env =
  send_start :: "node_manager \<Rightarrow> start_cmd_msg \<Rightarrow> bool"
  send_files :: files
  send_set_order :: "string list \<Rightarrow> string list"
  send_retry_times :: int
  send_persist_time :: rat

definition send_start_command ::
  "asm_send_env \<Rightarrow> assemble_metadata \<Rightarrow> assembler \<Rightarrow> assembler \<times> (node_manager \<times> start_cmd_msg) list \<times> bool" where
  "send_start_command \<epsilon> md a =
     (let i = instance_of a md
      in case master_dp_ip md i of
           None \<Rightarrow> (a, [], False)
         | Some master \<Rightarrow>
             if master = '''' then (a, [], False)
             else (case is_d2d_enabled_for_role (send_files \<epsilon>) (ins_role i) a of
                     (d2d_enabled, a1) \<Rightarrow>
                       (let cmds = start_commands (send_set_order \<epsilon>) d2d_enabled master md (manager a1);
                            sent = length cmds
                        in (a1, cmds,
                            if sent = 0 then False
                            else if md_nnodes md > 1 \<and> sent < length (node_managers i) then False
                            else list_all (\<lambda>(nm, cmd). send_start \<epsilon> nm cmd) cmds))))"

text \<open>
  One visit of \<open>_start_commmand_sender\<close> to a job: the new state, whether it changed anything, and the commands sent.
\<close>

definition sender_visit ::
  "asm_send_env \<Rightarrow> string \<Rightarrow> assembler \<Rightarrow> assembler \<times> bool \<times> (node_manager \<times> start_cmd_msg) list" where
  "sender_visit \<epsilon> job a =
     (case dget (asm_instances a) job of
        None \<Rightarrow> (a, False, [])
      | Some md \<Rightarrow>
          if register_status md \<noteq> ASSEMBLED then (a, False, [])
          else (case send_start_command \<epsilon> md a of
                  (a1, cmds, ok) \<Rightarrow>
                    (if ok then pop_job job a1
                     else (let retry_times = start_command_send_times md + 1
                           in if retry_times < send_retry_times \<epsilon>
                              then set_metadata job (md\<lparr>start_command_send_times := retry_times\<rparr>) a1
                              else pop_job job a1),
                     True, cmds)))"

fun sender_loop :: "(string \<Rightarrow> asm_send_env) \<Rightarrow> string list \<Rightarrow> assembler \<Rightarrow> assembler \<times> bool" where
  "sender_loop envs [] a = (a, False)"
| "sender_loop envs (job # jobs) a =
     (case sender_visit (envs job) job a of
        (a1, changed, cmds) \<Rightarrow> (case sender_loop envs jobs a1 of (a2, rest) \<Rightarrow> (a2, changed \<or> rest)))"

definition sender_pass :: "asm_digest \<Rightarrow> rat \<Rightarrow> (string \<Rightarrow> asm_send_env) \<Rightarrow> assembler \<Rightarrow> assembler" where
  "sender_pass digest t envs a =
     (case sender_loop envs (dkeys (asm_instances a)) a of (a1, state_changed) \<Rightarrow> persist_if state_changed digest t a1)"

end
