(* ===== verification/Controller_Correctness.thy ===== *)
theory Controller_Correctness
  imports Controller_Properties
begin

text \<open>
  The properties of the controller's instance manager: the transition table, forced separation, the
  outcomes of heartbeats and timeouts, the pusher's view of the active instances, persistence.
\<close>

section \<open>Transitions\<close>

text \<open>
  C14: the handlers implement the transition table. After a heartbeat's transition, the status is the one
  the table gives for the event detected in the endpoint statuses, except that a forcibly separated
  instance is not made ACTIVE; no other instance changes; the observers are told of a change of
  status once, with the event that belongs to the new status, and of nothing else; and the call fails
  exactly when the table has no entry.
\<close>

theorem transition_follows_table:
  fixes digest :: digest_fun and \<epsilon> :: env and c :: controller and r :: iref
  assumes "dget (instances c) (ins_id (ctrl_heap c r)) = Some r"
  defines "i \<equiv> ctrl_heap c r"
  defines "st \<equiv> next_status \<epsilon> (fst (detect_event i)) (ins_id i \<in> forced_separated_instances c) i"
  shows "ins_status (ctrl_heap (fst (handle_state_transition digest \<epsilon> r None c)) r) = st \<and>
    (st = ins_status i \<or> transitions (ins_status i) (fst (detect_event i)) = Some st) \<and>
    (\<forall>r'. r' \<noteq> r \<longrightarrow> ctrl_heap (fst (handle_state_transition digest \<epsilon> r None c)) r' = ctrl_heap c r') \<and>
    notified (fst (handle_state_transition digest \<epsilon> r None c)) = notified c @
      (case change_notice (ins_status i) st of None \<Rightarrow> [] | Some ob \<Rightarrow> told r ob (observers c)) \<and>
    (snd (handle_state_transition digest \<epsilon> r None c) \<longleftrightarrow> transitions (ins_status i) (fst (detect_event i)) \<noteq> None)"
proof -
  have ev: "fst (detect_event i) \<noteq> INSTANCE_RESUMED" by (rule detect_not_resumed)
  have "st = ins_status i \<or> transitions (ins_status i) (fst (detect_event i)) = Some st"
    by (auto simp: st_def next_status_def split: option.splits)
  then show ?thesis
    unfolding handle_transition_detected
    by (simp add: transition_heap_fields [OF ev [unfolded i_def]] transition_heap [OF ev [unfolded i_def]]
        transition_notified [OF ev [unfolded i_def]] transition_result st_def i_def detect_not_timeout
        split: option.split)
qed

theorem transition_follows_table_witness:
  "ins_status (ctrl_heap (fst (handle_state_transition demo_digest (demo_env 2) 0 None demo_active)) 0) = ACTIVE"
  using transition_follows_table [where c = demo_active and r = 0 and \<epsilon> = "demo_env 2" and digest = demo_digest]
  by (simp add: demo_active_fields detect_heard next_status_def)



section \<open>Heartbeats and timeouts\<close>

text \<open>What \<open>update_heartbeat\<close> answers, case by case.\<close>

definition heartbeat_result :: "string \<Rightarrow> (int, endpoint_status) dict \<Rightarrow> instance_obj \<Rightarrow> py_exn + bool" where
  "heartbeat_result ip st i =
     (case dget (endpoints i) ip of
        None \<Rightarrow> Inr False
      | Some eps \<Rightarrow>
          if length eps \<noteq> length st then Inr False
          else if \<exists>e \<in> set (dvalues eps). \<not> dmem (ep_id e) st then Inl KeyError
          else Inr True)"

lemma update_heartbeat_result: "snd (update_heartbeat ip ts st i) = heartbeat_result ip st i"
proof -
  have err: "snd (heartbeat_loop ts st es) \<in> {None, Some KeyError}" for es
    by (induction es) (auto split: option.splits prod.splits)
  have "snd (heartbeat_loop ts st es) = (if \<exists>e \<in> set (dvalues es). \<not> dmem (ep_id e) st then Some KeyError else None)" for es
    using heartbeat_loop_ok [of ts st es] err [of es] by auto
  then show ?thesis
    by (simp add: update_heartbeat_def heartbeat_result_def case_prod_unfold split: option.split)
qed



text \<open>
  A heartbeat timeout. When some endpoint of a managed instance has not been heard of in time, an
  ACTIVE instance becomes INACTIVE, with the observers told and an alarm raised, if a node manager is
  missing, fails to answer or reports an abnormal endpoint; if all of them report normal it stays ACTIVE
  and every endpoint's heartbeat is renewed. An instance that is not ACTIVE is removed, from the forced set
  too, and the observers are told.
\<close>

theorem timeout_handling:
  fixes digest :: digest_fun and \<epsilon> :: env and c :: controller and r :: iref
  assumes "dget (instances c) (ins_id (ctrl_heap c r)) = Some r" and "ins_status (ctrl_heap c r) \<noteq> DELETED"
    and "\<not> fst (is_all_endpoints_alive (now \<epsilon>) None (ctrl_heap c r))"
  defines "i \<equiv> ctrl_heap c r" and "c' \<equiv> manage_instance digest \<epsilon> r c"
  shows "(ins_status i = ACTIVE \<and> check_node_managers_status (query_status \<epsilon>) i \<longrightarrow>
      ins_status (ctrl_heap c' r) = INACTIVE \<and> instances c' = instances c \<and>
      notified c' = notified c @ told r OBS_SEPARATED (observers c)) \<and>
    (ins_status i = ACTIVE \<and> \<not> check_node_managers_status (query_status \<epsilon>) i \<longrightarrow>
      ctrl_heap c' r = refresh_heartbeats (clock \<epsilon>) i \<and> instances c' = instances c \<and> notified c' = notified c) \<and>
    (ins_status i \<noteq> ACTIVE \<longrightarrow>
      instances c' = ddel (ins_id i) (instances c) \<and>
      forced_separated_instances c' = forced_separated_instances c - {ins_id i} \<and>
      notified c' = notified c @ told r OBS_REMOVED (observers c))"
proof -
  obtain as where al: "is_all_endpoints_alive (now \<epsilon>) None i = (False, as)"
    using assms(3) by (metis (full_types) i_def prod.collapse)
  let ?ev = INSTANCE_HEARTBEAT_TIMEOUT and ?c = "add_alarms as c"
  have ev: "?ev \<noteq> INSTANCE_RESUMED" by simp
  have c': "c' = fst (transition_on digest \<epsilon> r ?ev ?c)"
    using assms(2) al by (simp add: c'_def manage_instance_def handle_transition_given i_def)
  have reg: "dget (instances ?c) (ins_id (ctrl_heap ?c r)) = Some r" using assms(1) by simp
  note effect = transition_heap [OF ev, of digest \<epsilon> r ?c] transition_instances [OF reg ev, of digest \<epsilon>]
    transition_notified [OF ev, of digest \<epsilon> r ?c]
  show ?thesis
    unfolding c' effect using assms(2)
    by (cases "ins_status (ctrl_heap c r)") (simp_all add: next_status_def change_notice_def i_def)
qed

theorem timeout_handling_witness:
  "ins_status (ctrl_heap (manage_instance demo_digest (demo_env 100) 0 demo_active) 0) = INACTIVE"
proof -
  have "\<not> fst (is_all_endpoints_alive 100 None (heard EP_NORMAL 1 ACTIVE))"
    unfolding alive_iff
    by (simp add: heard_endpoints endpoint_objs_def iter_endpoints_def is_alive_def heartbeat_limit_def arg_or_def
        DEFAULT_ACTIVE_HEARTBEAT_TIMEOUT_def)
  moreover have "check_node_managers_status (\<lambda>_. NM_STATUS False) (heard EP_NORMAL 1 ACTIVE)"
    by (simp add: check_node_managers_status_def heard_def solo_instance_def demo_defs)
  ultimately show ?thesis
    using timeout_handling [where c = demo_active and r = 0 and \<epsilon> = "demo_env 100" and digest = demo_digest]
    by (simp add: demo_active_fields)
qed

section \<open>The event pusher's view\<close>

lemma mirrors_reachable:
  assumes "ctrl_reachable digest jobs_unique c0 c" and "ctrl_inv c0" and "mirrors c0" and "jobs_unique c0"
  shows "ctrl_inv c \<and> mirrors c \<and> jobs_unique c"
  using assms
proof induction
  case (step c c')
  then have c: "ctrl_inv c" "mirrors c" "jobs_unique c" by simp_all
  from step.hyps(2) c have "mirrors c'"
    by cases (simp_all add: mirrors_heartbeat mirrors_manage mirrors_add mirrors_separate mirrors_recover)
  with step.hyps(2,3) c show ?case using ctrl_inv_step by blast
qed simp

text \<open>
  C24: the event pusher knows exactly the active instances. As long as no two managed instances share a
  job name, in every reachable state the pusher's dictionary maps a job name to an instance object
  exactly when that object is managed, ACTIVE and has this job name; so every SET it sends is the set
  of active instances.
\<close>

theorem pusher_mirrors_active:
  assumes "ctrl_reachable digest jobs_unique (fresh_controller h persist (init_pusher interval t0) obs) c"
    and "EVENT_PUSHER \<in> set obs"
  shows "dget (pusher_instances (ctrl_pusher c)) job = Some r \<longleftrightarrow>
    (\<exists>n. dget (instances c) n = Some r) \<and> ins_status (ctrl_heap c r) = ACTIVE \<and> job_name (ctrl_heap c r) = job"
proof -
  let ?c0 = "fresh_controller h persist (init_pusher interval t0) obs"
  have "mirrors ?c0" "jobs_unique ?c0"
    using assms(2) by (simp_all add: mirrors_def active_as_def jobs_unique_def fresh_controller_fields init_pusher_def)
  with mirrors_reachable [OF assms(1) ctrl_inv_fresh] have "mirrors c" by blast
  then show ?thesis by (simp add: mirrors_def active_as_def)
qed

theorem pusher_mirrors_active_witness:
  "ins_status (ctrl_heap demo_active 0) = ACTIVE \<and> job_name (ctrl_heap demo_active 0) = ''j''"
proof -
  have "jobs_unique demo_added" "jobs_unique demo_active"
    by (auto simp: jobs_unique_def demo_added_fields demo_active_fields split: if_splits)
  then have "ctrl_reachable demo_digest jobs_unique demo_ctrl demo_active"
    unfolding demo_active_def demo_added_def
    by (intro ctrl_reachable.step [OF ctrl_reachable.step [OF ctrl_reachable.init ctrl_step.add] ctrl_step.heartbeat])
      (simp_all add: demo_ctrl_def fresh_controller_fields)
  from pusher_mirrors_active [OF this [unfolded demo_ctrl_def], of "''j''" 0] show ?thesis
    by (simp add: demo_active_fields)
qed

text \<open>
  With two managed instances of one job name, separating the older one evicts the newer one from the
  pusher: the DEL that is queued names the older instance, but the newer one, still ACTIVE, is no longer
  part of any later SET.
\<close>

theorem stale_separation_evicts_newer:
  fixes digest :: digest_fun and t :: rat
  assumes "distinct (observers c)" and "EVENT_PUSHER \<in> set (observers c)"
    and "dget (instances c) n = Some old" and "ins_id (ctrl_heap c old) = n" and "ins_status (ctrl_heap c old) = ACTIVE"
    and "new \<noteq> old" and "ins_status (ctrl_heap c new) = ACTIVE"
    and "job_name (ctrl_heap c new) = job_name (ctrl_heap c old)"
    and "dget (pusher_instances (ctrl_pusher c)) (job_name (ctrl_heap c old)) = Some new"
  defines "c' \<equiv> separate_instance digest t n c"
  shows "dget (pusher_instances (ctrl_pusher c')) (job_name (ctrl_heap c old)) = None \<and>
    ins_status (ctrl_heap c' new) = ACTIVE \<and>
    (\<exists>i. last (event_queue (ctrl_pusher c')) = \<lparr>ev_type = DEL, ev_instance = Some i\<rparr> \<and> ins_id i = n)"
proof -
  let ?h = "(ctrl_heap c)(old := (ctrl_heap c old)\<lparr>ins_status := INACTIVE\<rparr>)"
  have p: "ctrl_pusher c' = pusher_update ?h old OBS_SEPARATED (ctrl_pusher c)" and h: "ctrl_heap c' = ?h"
    using assms(1-5) by (simp_all add: c'_def separate_instance_def get_instance_def Let_def notify_pusher)
  have "dmem (job_name (ctrl_heap c old)) (pusher_instances (ctrl_pusher c))" using assms(9) by (simp add: dmem_def)
  then show ?thesis
    using assms(4,6,7) by (simp add: p h pusher_update_def Let_def to_instance_def)
qed

text \<open>A controller with two active instances of one job, the older separated by the fault manager.\<close>

theorem stale_separation_evicts_newer_witness:
  "\<exists>c c'. ctrl_heap c 0 = heard EP_NORMAL 1 ACTIVE \<and> ins_status (ctrl_heap c' 1) = ACTIVE \<and>
     c' = separate_instance demo_digest 0 7 c \<and> dget (pusher_instances (ctrl_pusher c')) ''j'' = None"
proof -
  let ?h = "\<lambda>r. if r = 0 then heard EP_NORMAL 1 ACTIVE else (heard EP_NORMAL 1 ACTIVE)\<lparr>ins_id := 8\<rparr>"
  let ?c = "demo_active\<lparr>ctrl_heap := ?h, instances := [(7, 0), (8, 1)],
    ctrl_pusher := pusher_update ?h 1 OBS_READY (ctrl_pusher demo_active)\<rparr>"
  have "dget (pusher_instances (ctrl_pusher ?c)) ''j'' = Some 1"
    by (simp add: pusher_update_instances)
  then show ?thesis
    using stale_separation_evicts_newer [where c = ?c and n = 7 and old = 0 and new = 1 and digest = demo_digest and t = 0]
    by (intro exI [of _ ?c] exI [of _ "separate_instance demo_digest 0 7 ?c"]) (simp add: demo_active_fields)
qed

section \<open>Persistence\<close>

text \<open>What a restored instance looks like: the dumped fields, with renewed heartbeats where it was ACTIVE.\<close>

definition restored_image :: "rat \<Rightarrow> instance_obj \<Rightarrow> instance_obj" where
  "restored_image t i =
     (if ins_status i = ACTIVE then refresh_heartbeats (\<lambda>_. t) (dump_instance i) else dump_instance i)"

definition instance_view :: "controller \<Rightarrow> int \<Rightarrow> instance_obj option" where
  "instance_view c n = map_option (ctrl_heap c) (dget (instances c) n)"

lemma dump_fields [simp]:
  "ins_id (dump_instance i) = ins_id i" "ins_status (dump_instance i) = ins_status i" "job_name (dump_instance i) = job_name i"
  by (simp_all add: dump_instance_def)

lemma restored_id [simp]: "ins_id (restored_image t i) = ins_id i"
  by (simp add: restored_image_def)

lemma maybe_refresh_fields:
  "ctrl_heap (maybe_refresh_heartbeat r t b (set_instance r (dump_instance i) c)) = (ctrl_heap c)(r := restored_image t i)"
  "instances (maybe_refresh_heartbeat r t b (set_instance r (dump_instance i) c)) = instances c"
  by (simp_all add: maybe_refresh_heartbeat_def Let_def restored_image_def)

lemma restore_loop_view:
  assumes "dict_ok es" and "\<And>n x. (n, x) \<in> set es \<Longrightarrow> \<exists>i. x = Some (dump_instance i) \<and> ins_id i = n"
    and "\<And>n r. dget (instances c) n = Some r \<Longrightarrow> r < base"
    and "\<And>n i. (n, Some (dump_instance i)) \<in> set es \<Longrightarrow> f n = restored_image t i"
  shows "instance_view (restore_loop es base t c) n = (if n \<in> set (dkeys es) then Some (f n) else instance_view c n)"
  using assms
proof (induction es base t c rule: restore_loop.induct)
  case (2 m es base t c)
  from 2(3) [of m None] show ?case by auto
next
  case (3 m x es base t c)
  obtain i where i: "x = dump_instance i" "ins_id i = m" using 3(3) [of m "Some x"] by auto
  let ?c1 = "maybe_refresh_heartbeat base t True (set_instance base x c)"
  let ?c2 = "?c1\<lparr>instances := dset (ins_id x) base (instances ?c1)\<rparr>"
  have f: "f m = restored_image t i" using 3(5) [of m i] i by simp
  have view: "instance_view ?c2 n = (if n = m then Some (f m) else instance_view c n)"
    using 3(4) [of n] by (cases "dget (instances c) n") (auto simp: instance_view_def i maybe_refresh_fields f)
  have "instance_view (restore_loop es (Suc base) t ?c2) n = (if n \<in> set (dkeys es) then Some (f n) else instance_view ?c2 n)"
  proof (rule 3(1) [OF refl])
    show "dict_ok es" using 3(2) by simp
    show "\<And>n x. (n, x) \<in> set es \<Longrightarrow> \<exists>i. x = Some (dump_instance i) \<and> ins_id i = n" using 3(3) by simp
    show "\<And>n r. dget (instances ?c2) n = Some r \<Longrightarrow> r < Suc base"
      using 3(4) by (auto simp: i maybe_refresh_fields less_Suc_eq split: if_splits)
    show "\<And>n i. (n, Some (dump_instance i)) \<in> set es \<Longrightarrow> f n = restored_image t i" using 3(5) by simp
  qed
  then have "instance_view (restore_loop es (Suc base) t ?c2) n =
      (if n \<in> set (dkeys es) then Some (f n) else if n = m then Some (f m) else instance_view c n)"
    unfolding view .
  then show ?case by (auto simp: Let_def)
qed simp

lemma restored_image_cong: "dump_instance i = dump_instance j \<Longrightarrow> restored_image t i = restored_image t j"
  by (metis dump_fields(2) restored_image_def)

lemma restore_data_valid:
  fixes base :: iref and t :: rat and d :: controller
  assumes "is_valid digest ps"
  defines "loop \<equiv> restore_loop (ps_data ps) base t (d\<lparr>data_version := max (data_version d) (ps_version ps), instances := []\<rparr>)"
  shows "snd (restore_data digest (RESTORED ps) base t d)"
    and "instance_view (fst (restore_data digest (RESTORED ps) base t d)) n = instance_view loop n"
    and "data_version (fst (restore_data digest (RESTORED ps) base t d)) = data_version loop"
  using assms(1) by (simp_all add: restore_data_def Let_def loop_def instance_view_def)

lemma restore_loop_version: "data_version (restore_loop es base t c) = data_version c"
  by (induction es base t c rule: restore_loop.induct) (simp_all add: maybe_refresh_heartbeat_def Let_def)



end
