(* ===== verification/Assembler_Correctness.thy ===== *)
theory Assembler_Correctness
  imports Assembler Controller_Correctness
begin

text \<open>
  What the \<open>InstanceAssembler\<close> guarantees: the invariant of assembler and manager together and the freshness of
  instance ids, the numbering of endpoints and ranks in a cold start, the outcome of an assembling visit, completeness
  and bounded retry of the start commands, and persistence.
\<close>

section \<open>Frame lemmas\<close>

lemma put_instance_fields [simp]:
  "manager (put_instance r i a) = set_instance r i (manager a)" "asm_instances (put_instance r i a) = asm_instances a"
  "ins_id_cnt (put_instance r i a) = ins_id_cnt a" "asm_persistence (put_instance r i a) = asm_persistence a"
  "asm_data_version (put_instance r i a) = asm_data_version a"
  by (simp_all add: put_instance_def)

lemma set_metadata_fields [simp]:
  "manager (set_metadata job md a) = manager a" "asm_instances (set_metadata job md a) = dset job md (asm_instances a)"
  "ins_id_cnt (set_metadata job md a) = ins_id_cnt a" "asm_persistence (set_metadata job md a) = asm_persistence a"
  "asm_data_version (set_metadata job md a) = asm_data_version a"
  by (simp_all add: set_metadata_def)

lemma pop_job_fields [simp]:
  "manager (pop_job job a) = manager a" "asm_instances (pop_job job a) = ddel job (asm_instances a)"
  "ins_id_cnt (pop_job job a) = ins_id_cnt a" "asm_persistence (pop_job job a) = asm_persistence a"
  by (simp_all add: pop_job_def)

lemma persist_if_fields [simp]:
  "manager (persist_if b dg t a) = manager a" "asm_instances (persist_if b dg t a) = asm_instances a"
  "ins_id_cnt (persist_if b dg t a) = ins_id_cnt a" "asm_persistence (persist_if b dg t a) = asm_persistence a"
  by (simp_all add: persist_if_def asm_persist_data_def next_asm_version_def Let_def)

text \<open>The operations on an instance object that the assembler uses keep its id, job name, status and configuration.\<close>

definition same_identity :: "instance_obj \<Rightarrow> instance_obj \<Rightarrow> bool" where
  "same_identity i j \<longleftrightarrow> ins_id i = ins_id j \<and> job_name i = job_name j \<and> ins_status i = ins_status j \<and>
     ins_role i = ins_role j \<and> parallel_cfg i = parallel_cfg j \<and> enable_multi_endpoints i = enable_multi_endpoints j"

lemma same_identity_refl [simp, intro]: "same_identity i i"
  by (simp add: same_identity_def)

lemma same_identity_trans: "same_identity i j \<Longrightarrow> same_identity j k \<Longrightarrow> same_identity i k"
  by (simp add: same_identity_def)

lemma same_identity_ops [simp]:
  "same_identity (add_node_mgr ip p n i) i" "same_identity (del_node_mgr ip p i) i"
  "same_identity (add_endpoints pod eps i) i" "same_identity (del_endpoints pod i) i"
  "same_identity (set_headless pod i) i" "same_identity (invalidate_endpoints_cache i) i"
  by (simp_all add: same_identity_def add_node_mgr_def del_node_mgr_def add_endpoints_def del_endpoints_def Let_def
      set_headless_def map_endpoints_def invalidate_endpoints_cache_def split: option.splits)

lemma same_identity_fold: "(\<And>x i. same_identity (f x i) i) \<Longrightarrow> same_identity (fold f xs i) i"
proof (induction xs arbitrary: i)
  case (Cons x xs)
  from Cons.IH [OF Cons.prems, of "f x i"] Cons.prems [of x i] show ?case by (auto intro: same_identity_trans)
qed simp

lemma same_identity_filter [simp]: "same_identity (filter_abnormal_endpoints alive i) i"
  unfolding filter_abnormal_endpoints_def
proof (rule same_identity_fold)
  show "same_identity (if alive nm then i
      else del_node_mgr (Some (nm_pod_ip nm)) (Some (nm_port nm)) (del_endpoints (nm_pod_ip nm) i)) i" for nm i
    by (cases "alive nm") (auto intro: same_identity_trans [OF same_identity_ops(2) same_identity_ops(4)])
qed

lemma same_identity_headless [simp]: "same_identity (mark_headless nnodes i) i"
  unfolding mark_headless_def
proof (rule same_identity_trans [OF same_identity_ops(6)], rule same_identity_fold)
  show "same_identity ((case x of (rank, nm) \<Rightarrow> \<lambda>i. if int rank mod nnodes = 0 then i else set_headless (nm_pod_ip nm) i) i) i" for x i
    by (cases x) simp
qed

section \<open>The invariant\<close>

definition fresh_ref :: "iref \<Rightarrow> assembler \<Rightarrow> bool" where
  "fresh_ref r a \<longleftrightarrow> r \<notin> set (dvalues (instances (manager a))) \<and> r \<notin> md_instance ` set (dvalues (asm_instances a))"

definition job_ok :: "controller \<Rightarrow> int \<Rightarrow> string \<Rightarrow> assemble_metadata \<Rightarrow> bool" where
  "job_ok c cnt job md \<longleftrightarrow>
     job_name (ctrl_heap c (md_instance md)) = job \<and> ins_id (ctrl_heap c (md_instance md)) < cnt \<and>
     (register_status md \<noteq> ASSEMBLED \<longrightarrow>
        ins_status (ctrl_heap c (md_instance md)) = INITIAL \<and> md_instance md \<notin> set (dvalues (instances c)))"

definition asm_inv :: "assembler \<Rightarrow> bool" where
  "asm_inv a \<longleftrightarrow>
     ctrl_inv (manager a) \<and> dict_ok (asm_instances a) \<and>
     (\<forall>job md. dget (asm_instances a) job = Some md \<longrightarrow> job_ok (manager a) (ins_id_cnt a) job md) \<and>
     (\<forall>n. dmem n (instances (manager a)) \<longrightarrow> n < ins_id_cnt a)"

lemma asm_invD:
  assumes "asm_inv a"
  shows "ctrl_inv (manager a)" "dict_ok (asm_instances a)" "dmem n (instances (manager a)) \<Longrightarrow> n < ins_id_cnt a"
    "dget (asm_instances a) job = Some md \<Longrightarrow> job_ok (manager a) (ins_id_cnt a) job md"
  using assms by (simp_all add: asm_inv_def)

text \<open>Two jobs never share an instance object.\<close>

lemma asm_inv_refs:
  assumes "asm_inv a" "dget (asm_instances a) job = Some md" "dget (asm_instances a) job' = Some md'" "md_instance md = md_instance md'"
  shows "job = job'"
  using asm_invD(4) [OF assms(1,2)] asm_invD(4) [OF assms(1,3)] assms(4) by (simp add: job_ok_def)

text \<open>Replacing the instance object of a job by one of the same identity, and its metadata with a status that does not go back.\<close>

lemma asm_inv_update:
  assumes inv: "asm_inv a" and md: "dget (asm_instances a) job = Some md" and id: "same_identity i (instance_of a md)"
    and "md_instance md' = md_instance md" and "register_status md' \<noteq> ASSEMBLED \<longrightarrow> register_status md \<noteq> ASSEMBLED"
  shows "asm_inv (set_metadata job md' (put_instance (md_instance md) i a))"
proof -
  let ?c = "set_instance (md_instance md) i (manager a)"
  have "ctrl_inv ?c"
    using inv id by (intro ctrl_inv_set_instance) (simp_all add: asm_inv_def same_identity_def)
  moreover have "job_ok ?c (ins_id_cnt a) job md'"
    using asm_invD(4) [OF inv md] assms(3-5) by (auto simp: job_ok_def same_identity_def)
  moreover have "job_ok ?c (ins_id_cnt a) job' md''" if "job' \<noteq> job" "dget (asm_instances a) job' = Some md''" for job' md''
    using asm_invD(4) [OF inv that(2)] asm_inv_refs [OF inv that(2) md] that(1) by (auto simp: job_ok_def)
  ultimately show ?thesis using inv by (simp add: asm_inv_def)
qed

lemma asm_inv_pop: "asm_inv a \<Longrightarrow> asm_inv (pop_job job a)"
  by (simp add: asm_inv_def)

lemma asm_inv_persist [simp]: "asm_inv (persist_if b dg t a) = asm_inv a"
  by (simp add: asm_inv_def)

text \<open>A job that is new to the assembler.\<close>

lemma asm_inv_create:
  assumes inv: "asm_inv a" and fresh: "fresh_ref r a" and n: "ins_id i < n" "ins_id_cnt a \<le> n"
    and i: "ins_status i = INITIAL" "job_name i = job" "md_instance md = r"
  shows "asm_inv ((set_metadata job md (put_instance r i a))\<lparr>ins_id_cnt := n\<rparr>)"
proof -
  let ?c = "set_instance r i (manager a)"
  have managed: "dget (instances (manager a)) m = Some r' \<Longrightarrow> r' \<noteq> r" for m r'
    using fresh by (auto simp: fresh_ref_def dest: dget_value_in)
  then have "ctrl_inv ?c"
    using asm_invD(1) [OF inv] by (auto simp: ctrl_inv_def keyed_def)
  moreover have "job_ok ?c n job md"
    using fresh n i by (simp add: job_ok_def fresh_ref_def)
  moreover have "job_ok ?c n job' md'" if "dget (asm_instances a) job' = Some md'" for job' md'
  proof -
    have "md_instance md' \<noteq> r" using fresh dget_value_in [OF that] by (auto simp: fresh_ref_def)
    then show ?thesis using asm_invD(4) [OF inv that] n(2) by (auto simp: job_ok_def)
  qed
  ultimately show ?thesis
    using asm_invD(2,3) [OF inv] n(2) by (auto simp: asm_inv_def intro: order.strict_trans2)
qed

text \<open>Handing an instance to the manager.\<close>

lemma add_instance_fields:
  "instances (add_instance r t c) =
     (if dmem (ins_id (ctrl_heap c r)) (instances c) then instances c else dset (ins_id (ctrl_heap c r)) r (instances c))"
  "ins_id (ctrl_heap (add_instance r t c) r') = ins_id (ctrl_heap c r')"
  "job_name (ctrl_heap (add_instance r t c) r') = job_name (ctrl_heap c r')"
  "ins_status (ctrl_heap (add_instance r t c) r') = ins_status (ctrl_heap c r')"
  by (simp_all add: add_instance_def Let_def refresh_initial_static)

lemma asm_inv_add:
  assumes inv: "asm_inv a" and md: "dget (asm_instances a) job = Some md" and st: "register_status md = ASSEMBLED"
    and init: "ins_status (instance_of a md) = INITIAL"
  shows "asm_inv (a\<lparr>manager := add_instance (md_instance md) t (manager a)\<rparr>)"
proof -
  let ?c = "add_instance (md_instance md) t (manager a)"
  have "ctrl_inv ?c" using asm_invD(1) [OF inv] init by (rule ctrl_inv_add)
  moreover have "job_ok ?c (ins_id_cnt a) job' md'" if "dget (asm_instances a) job' = Some md'" for job' md'
  proof -
    have vals: "set (dvalues (instances ?c)) \<subseteq> insert (md_instance md) (set (dvalues (instances (manager a))))"
      by (auto simp: add_instance_fields dest: set_dset)
    show ?thesis
    proof (cases "job' = job")
      case True
      with md that have "md' = md" by simp
      with st asm_invD(4) [OF inv md] True show ?thesis by (simp add: job_ok_def add_instance_fields)
    next
      case False
      with asm_inv_refs [OF inv that md] have "md_instance md' \<noteq> md_instance md" by blast
      with vals asm_invD(4) [OF inv that] show ?thesis by (auto simp: job_ok_def add_instance_fields(2-4))
    qed
  qed
  moreover have "n < ins_id_cnt a" if "dmem n (instances ?c)" for n
    using that asm_invD(3) [OF inv] asm_invD(4) [OF inv md] by (auto simp: add_instance_fields job_ok_def split: if_splits)
  ultimately show ?thesis using asm_invD(2) [OF inv] by (simp add: asm_inv_def)
qed

section \<open>The operations keep the invariant\<close>

lemma eval_status_cases:
  "eval_register_status job a = ASSEMBLING \<Longrightarrow> dmem job (asm_instances a)"
  "eval_register_status job a = NOT_REGISTERED \<Longrightarrow> \<not> dmem job (asm_instances a)"
  by (simp_all add: eval_register_status_def split: if_splits)

lemma make_instance_fields [simp]:
  "job_name (make_instance job model engine caps n role pc multi) = job" "ins_id (make_instance job model engine caps n role pc multi) = n"
  "ins_status (make_instance job model engine caps n role pc multi) = INITIAL"
  "endpoints (make_instance job model engine caps n role pc multi) = []"
  "node_managers (make_instance job model engine caps n role pc multi) = []"
  by (simp_all add: make_instance_def)

lemma new_metadata_fields [simp]:
  "md_instance (new_metadata r t b n) = r" "register_status (new_metadata r t b n) = NOT_REGISTERED"
  "is_reregister (new_metadata r t b n) = b" "snapshot_dp_master_ip (new_metadata r t b n) = None"
  "md_ranktable (new_metadata r t b n) = None"
  by (simp_all add: new_metadata_def)

lemma register_job_inv:
  assumes inv: "asm_inv a" and fresh: "fresh_ref r a" and job: "register_job \<epsilon> r msg a = Some a1"
  shows "asm_inv a1 \<and> ins_id_cnt a \<le> ins_id_cnt a1 \<and> (\<exists>md. dget (asm_instances a1) (rm_job_name msg) = Some md)"
proof (cases "eval_register_status (rm_job_name msg) a")
  case NOT_REGISTERED
  then have a1: "a1 = (set_metadata (rm_job_name msg) (new_metadata r (reg_time \<epsilon>) False (rm_nnodes msg))
      (put_instance r (make_instance (rm_job_name msg) (rm_model_name msg) (rm_engine_type msg) (rm_dispatch_capabilities msg)
                     (ins_id_cnt a) (rm_role msg) (rm_parallel_config msg) (rm_enable_multi_endpoints msg)) a))\<lparr>ins_id_cnt := ins_id_cnt a + 1\<rparr>"
    using job by (simp add: register_job_def Let_def)
  show ?thesis unfolding a1 using inv fresh by (simp add: asm_inv_create)
next
  case ASSEMBLING
  then obtain md where md: "dget (asm_instances a) (rm_job_name msg) = Some md"
    using eval_status_cases(1) by (auto simp: dmem_def)
  have "a1 = set_metadata (rm_job_name msg) (md\<lparr>register_timestamp := reg_time \<epsilon>\<rparr>) (put_instance (md_instance md) (instance_of a md) a)"
    using job ASSEMBLING md by (simp add: register_job_def Let_def put_instance_def set_instance_def split: if_splits)
  then show ?thesis using asm_inv_update [OF inv md same_identity_refl, of "md\<lparr>register_timestamp := reg_time \<epsilon>\<rparr>"] by simp
qed (use job in \<open>simp add: register_job_def\<close>)

lemma record_master_fields [simp]:
  "md_instance (record_master msg i md) = md_instance md" "register_status (record_master msg i md) = register_status md"
  by (simp_all add: record_master_def split: option.splits)

lemma build_endpoints_metadata:
  "build_endpoints clk msg i md = Inr (eps, md') \<Longrightarrow>
     md_instance md' = md_instance md \<and> register_status md' = register_status md"
  by (auto simp: build_endpoints_def Let_def bind_result_Inr)

lemma set_twice [simp]:
  "set_metadata job md (put_instance r i (set_metadata job md' (put_instance r i' a))) = set_metadata job md (put_instance r i a)"
  by (simp add: set_metadata_def put_instance_def set_instance_def)

lemma register_inv:
  assumes inv: "asm_inv a" and fresh: "fresh_ref r a"
  shows "asm_inv (fst (register dg \<epsilon> r msg a)) \<and> ins_id_cnt a \<le> ins_id_cnt (fst (register dg \<epsilon> r msg a))"
proof (cases "register_job \<epsilon> r msg a")
  case (Some a1)
  note a1 = register_job_inv [OF inv fresh Some]
  then obtain md where md: "dget (asm_instances a1) (rm_job_name msg) = Some md" by blast
  let ?i = "instance_of a1 md" let ?md = "record_master msg ?i md"
  let ?i1 = "add_node_mgr (Some (rm_pod_ip msg)) (Some (rm_nm_port msg)) (rm_device_num msg) ?i"
  have upd: "asm_inv (set_metadata (rm_job_name msg) md' (put_instance (md_instance md) j a1))"
    if "md_instance md' = md_instance md" "register_status md' = register_status md" "same_identity j ?i1" for md' j
    using that a1 md by (auto intro!: asm_inv_update same_identity_trans [OF that(3) same_identity_ops(1)])
  show ?thesis
  proof (cases "has_node_mgr (Some (rm_pod_ip msg)) ?i")
    case True
    then show ?thesis using Some md a1 by (simp add: register_def Let_def)
  next
    case False
    show ?thesis
    proof (cases "build_endpoints (ep_time \<epsilon>) msg ?i1 ?md")
      case (Inl x)
      then show ?thesis using False Some md a1 upd by (simp add: register_def Let_def)
    next
      case (Inr r)
      obtain eps md2 where r: "r = (eps, md2)" by (cases r)
      have "asm_inv (set_metadata (rm_job_name msg) md2 (put_instance (md_instance md) (add_endpoints (rm_pod_ip msg) (Some eps) ?i1) a1))"
        using build_endpoints_metadata [OF Inr [unfolded r]] by (intro upd) simp_all
      with Inr r False Some md a1 show ?thesis by (simp add: register_def Let_def)
    qed
  qed
qed (use inv in \<open>simp add: register_def\<close>)

lemma asm_inv_cnt: "asm_inv a \<Longrightarrow> ins_id_cnt a \<le> n \<Longrightarrow> asm_inv (a\<lparr>ins_id_cnt := n\<rparr>)"
  by (fastforce simp: asm_inv_def job_ok_def)

lemma reregister_job_inv:
  assumes inv: "asm_inv a" and fresh: "fresh_ref r a" and job: "reregister_job \<epsilon> r msg a = Some a1"
  shows "asm_inv a1 \<and> ins_id_cnt a \<le> ins_id_cnt a1 \<and> (\<exists>md. dget (asm_instances a1) (rr_job_name msg) = Some md)"
proof (cases "eval_register_status (rr_job_name msg) a")
  case NOT_REGISTERED
  then have a1: "a1 = (set_metadata (rr_job_name msg) (new_metadata r (reg_time \<epsilon>) True (rr_nnodes msg))
      (put_instance r (make_instance (rr_job_name msg) (rr_model_name msg) (rr_engine_type msg) (rr_dispatch_capabilities msg)
                     (rr_instance_id msg) (rr_role msg) (rr_parallel_config msg) (rr_enable_multi_endpoints msg)) a))
      \<lparr>ins_id_cnt := max (ins_id_cnt a) (rr_instance_id msg + 1)\<rparr>"
    using job by (simp add: reregister_job_def Let_def)
  show ?thesis unfolding a1 using inv fresh by (simp add: asm_inv_create less_max_iff_disj)
next
  case ASSEMBLING
  then obtain md where md: "dget (asm_instances a) (rr_job_name msg) = Some md"
    using eval_status_cases(1) by (auto simp: dmem_def)
  have a1: "a1 = (set_metadata (rr_job_name msg) (md\<lparr>register_timestamp := reg_time \<epsilon>\<rparr>) (put_instance (md_instance md) (instance_of a md) a))
      \<lparr>ins_id_cnt := max (ins_id_cnt a) (rr_instance_id msg + 1)\<rparr>"
    using job ASSEMBLING md by (auto simp: reregister_job_def Let_def put_instance_def set_instance_def split: if_splits)
  show ?thesis unfolding a1
    using asm_inv_cnt [OF asm_inv_update [OF inv md same_identity_refl, of "md\<lparr>register_timestamp := reg_time \<epsilon>\<rparr>"]] by simp
qed (use job in \<open>simp add: reregister_job_def\<close>)

lemma set_metadata_same: "dget (asm_instances a) job = Some md \<Longrightarrow> set_metadata job md (put_instance r i a) = put_instance r i a"
  by (simp add: set_metadata_def put_instance_def)

lemma reregister_inv:
  assumes inv: "asm_inv a" and fresh: "fresh_ref r a"
  shows "asm_inv (fst (reregister dg \<epsilon> r msg a)) \<and> ins_id_cnt a \<le> ins_id_cnt (fst (reregister dg \<epsilon> r msg a))"
proof (cases "reregister_job \<epsilon> r msg a")
  case (Some a1)
  note a1 = reregister_job_inv [OF inv fresh Some]
  then obtain md where md: "dget (asm_instances a1) (rr_job_name msg) = Some md" by blast
  let ?i = "instance_of a1 md"
  have "asm_inv (put_instance (md_instance md) (add_endpoints pod eps (add_node_mgr ip p n ?i)) a1)" for pod eps ip p n
    using asm_inv_update [OF a1 [THEN conjunct1] md same_identity_trans [OF same_identity_ops(3) same_identity_ops(1)], of md pod eps ip p n]
    by (simp add: set_metadata_same md)
  then show ?thesis using Some md a1 by (simp add: reregister_def Let_def)
qed (use inv in \<open>simp add: reregister_def\<close>)

lemma drop_stale_fields [simp]:
  "md_instance (drop_stale_master i md) = md_instance md" "register_status (drop_stale_master i md) = register_status md"
  "is_reregister (drop_stale_master i md) = is_reregister md" "md_nnodes (drop_stale_master i md) = md_nnodes md"
  "register_timestamp (drop_stale_master i md) = register_timestamp md" "md_ranktable (drop_stale_master i md) = md_ranktable md"
  "start_command_send_times (drop_stale_master i md) = start_command_send_times md"
  by (simp_all add: drop_stale_master_def split: option.splits)

text \<open>The three states an assembling visit can lead to: the instance handed over, kept waiting, or removed.\<close>

definition remaining :: "asm_loop_env \<Rightarrow> assemble_metadata \<Rightarrow> assembler \<Rightarrow> instance_obj" where
  "remaining \<epsilon> md a = filter_abnormal_endpoints (al_alive \<epsilon>) (instance_of a md)"

definition complete :: "asm_loop_env \<Rightarrow> assemble_metadata \<Rightarrow> assembler \<Rightarrow> instance_obj" where
  "complete \<epsilon> md a =
     (if md_nnodes md > 1 \<and> \<not> is_reregister md then mark_headless (md_nnodes md) (remaining \<epsilon> md a) else remaining \<epsilon> md a)"

definition marked_assembled :: "asm_loop_env \<Rightarrow> string \<Rightarrow> assemble_metadata \<Rightarrow> assembler \<Rightarrow> assembler" where
  "marked_assembled \<epsilon> job md a =
     set_metadata job ((drop_stale_master (remaining \<epsilon> md a) md)\<lparr>register_status := ASSEMBLED\<rparr>)
       (put_instance (md_instance md) (complete \<epsilon> md a) a)"

definition handed_over :: "asm_loop_env \<Rightarrow> string \<Rightarrow> assemble_metadata \<Rightarrow> assembler \<Rightarrow> assembler" where
  "handed_over \<epsilon> job md a =
     (marked_assembled \<epsilon> job md a)
       \<lparr>manager := add_instance (md_instance md) (al_now \<epsilon>) (manager (marked_assembled \<epsilon> job md a))\<rparr>"

definition kept_waiting :: "asm_loop_env \<Rightarrow> string \<Rightarrow> assemble_metadata \<Rightarrow> assembler \<Rightarrow> assembler" where
  "kept_waiting \<epsilon> job md a =
     set_metadata job (drop_stale_master (remaining \<epsilon> md a) md) (put_instance (md_instance md) (remaining \<epsilon> md a) a)"

lemma assemble_visit_eq:
  assumes "dget (asm_instances a) job = Some md" and "register_status md \<noteq> ASSEMBLED"
  shows "assemble_visit dg \<epsilon> job a =
    (if ready_to_start (md_nnodes md) (remaining \<epsilon> md a)
     then (if is_reregister md then persist_if True dg (al_persist_time \<epsilon>) (pop_job job (handed_over \<epsilon> job md a))
           else handed_over \<epsilon> job md a)
     else if al_now \<epsilon> - register_timestamp md > al_timeout \<epsilon>
     then persist_if True dg (al_persist_time \<epsilon>) (pop_job job (kept_waiting \<epsilon> job md a)) else kept_waiting \<epsilon> job md a)"
  using assms
  by (simp add: assemble_visit_def assemble_instance_def Let_def handed_over_def marked_assembled_def kept_waiting_def
      complete_def remaining_def)

lemma assemble_visit_skip:
  "\<nexists>md. dget (asm_instances a) job = Some md \<and> register_status md \<noteq> ASSEMBLED \<Longrightarrow> assemble_visit dg \<epsilon> job a = a"
  by (auto simp: assemble_visit_def split: option.splits)

lemma same_identity_complete: "same_identity (complete \<epsilon> md a) (instance_of a md)"
  by (auto simp: complete_def remaining_def intro: same_identity_trans [OF same_identity_headless same_identity_filter])

lemma assemble_results_inv:
  assumes inv: "asm_inv a" and md: "dget (asm_instances a) job = Some md" "register_status md \<noteq> ASSEMBLED"
  shows "asm_inv (handed_over \<epsilon> job md a)" "asm_inv (kept_waiting \<epsilon> job md a)"
proof -
  have b: "asm_inv (marked_assembled \<epsilon> job md a)"
    unfolding marked_assembled_def using asm_inv_update [OF inv md(1) same_identity_complete] by simp
  have "ins_status (complete \<epsilon> md a) = INITIAL"
    using asm_invD(4) [OF inv md(1)] md(2) same_identity_complete [of \<epsilon> md a] by (simp add: job_ok_def same_identity_def)
  then show "asm_inv (handed_over \<epsilon> job md a)"
    unfolding handed_over_def
    using asm_inv_add [OF b, of job "(drop_stale_master (remaining \<epsilon> md a) md)\<lparr>register_status := ASSEMBLED\<rparr>"]
    by (simp add: marked_assembled_def)
  show "asm_inv (kept_waiting \<epsilon> job md a)"
    unfolding kept_waiting_def remaining_def using asm_inv_update [OF inv md(1) same_identity_filter] by simp
qed

lemma assemble_results_cnt [simp]:
  "ins_id_cnt (handed_over \<epsilon> job md a) = ins_id_cnt a" "ins_id_cnt (kept_waiting \<epsilon> job md a) = ins_id_cnt a"
  by (simp_all add: handed_over_def marked_assembled_def kept_waiting_def)

lemma assemble_visit_inv:
  assumes inv: "asm_inv a"
  shows "asm_inv (assemble_visit dg \<epsilon> job a) \<and> ins_id_cnt (assemble_visit dg \<epsilon> job a) = ins_id_cnt a"
proof (cases "\<exists>md. dget (asm_instances a) job = Some md \<and> register_status md \<noteq> ASSEMBLED")
  case True
  then obtain md where md: "dget (asm_instances a) job = Some md" "register_status md \<noteq> ASSEMBLED" by blast
  note res = assemble_results_inv [OF inv md, of \<epsilon>]
  show ?thesis using res asm_inv_pop [OF res(1)] asm_inv_pop [OF res(2)] by (simp add: assemble_visit_eq [OF md])
qed (use inv in \<open>simp add: assemble_visit_skip\<close>)

lemma send_start_fields [simp]:
  "manager (fst (send_start_command \<epsilon> md a)) = manager a" "asm_instances (fst (send_start_command \<epsilon> md a)) = asm_instances a"
  "ins_id_cnt (fst (send_start_command \<epsilon> md a)) = ins_id_cnt a"
  by (simp_all add: send_start_command_def is_d2d_enabled_for_role_def Let_def split: option.splits prod.splits)

lemma asm_inv_cong:
  "manager a = manager b \<Longrightarrow> asm_instances a = asm_instances b \<Longrightarrow> ins_id_cnt a = ins_id_cnt b \<Longrightarrow> asm_inv a = asm_inv b"
  by (simp add: asm_inv_def)

lemma sender_visit_effect:
  assumes md: "dget (asm_instances a) job = Some md" "register_status md = ASSEMBLED"
  shows "manager (fst (sender_visit \<epsilon> job a)) = manager a" "ins_id_cnt (fst (sender_visit \<epsilon> job a)) = ins_id_cnt a"
    "asm_instances (fst (sender_visit \<epsilon> job a)) =
      (if snd (snd (send_start_command \<epsilon> md a)) \<or> start_command_send_times md + 1 \<ge> send_retry_times \<epsilon>
       then ddel job (asm_instances a)
       else dset job (md\<lparr>start_command_send_times := start_command_send_times md + 1\<rparr>) (asm_instances a))"
proof -
  obtain a1 cmds ok where s: "send_start_command \<epsilon> md a = (a1, cmds, ok)" by (cases "send_start_command \<epsilon> md a")
  note f = send_start_fields [of \<epsilon> md a, unfolded s, simplified]
  show "manager (fst (sender_visit \<epsilon> job a)) = manager a" "ins_id_cnt (fst (sender_visit \<epsilon> job a)) = ins_id_cnt a"
    "asm_instances (fst (sender_visit \<epsilon> job a)) =
      (if snd (snd (send_start_command \<epsilon> md a)) \<or> start_command_send_times md + 1 \<ge> send_retry_times \<epsilon>
       then ddel job (asm_instances a)
       else dset job (md\<lparr>start_command_send_times := start_command_send_times md + 1\<rparr>) (asm_instances a))"
    using md s f by (simp_all add: sender_visit_def Let_def)
qed

lemma sender_visit_skip:
  "\<nexists>md. dget (asm_instances a) job = Some md \<and> register_status md = ASSEMBLED \<Longrightarrow> sender_visit \<epsilon> job a = (a, False, [])"
  by (auto simp: sender_visit_def split: option.splits)

lemma sender_visit_inv:
  assumes inv: "asm_inv a"
  shows "asm_inv (fst (sender_visit \<epsilon> job a)) \<and> ins_id_cnt (fst (sender_visit \<epsilon> job a)) = ins_id_cnt a"
proof (cases "\<exists>md. dget (asm_instances a) job = Some md \<and> register_status md = ASSEMBLED")
  case True
  then obtain md where md: "dget (asm_instances a) job = Some md" "register_status md = ASSEMBLED" by blast
  note eff = sender_visit_effect [OF md, of \<epsilon>]
  have "asm_inv (set_metadata job (md\<lparr>start_command_send_times := n\<rparr>) (put_instance (md_instance md) (instance_of a md) a))" for n
    using asm_inv_update [OF inv md(1) same_identity_refl] md(2) by simp
  moreover have "put_instance (md_instance md) (instance_of a md) a = a" by (simp add: put_instance_def set_instance_def)
  ultimately have retry: "asm_inv (set_metadata job (md\<lparr>start_command_send_times := n\<rparr>) a)" for n by simp
  have "asm_inv (fst (sender_visit \<epsilon> job a)) =
      asm_inv (if snd (snd (send_start_command \<epsilon> md a)) \<or> start_command_send_times md + 1 \<ge> send_retry_times \<epsilon>
        then pop_job job a else set_metadata job (md\<lparr>start_command_send_times := start_command_send_times md + 1\<rparr>) a)"
    by (rule asm_inv_cong) (simp_all add: eff)
  with retry asm_inv_pop [OF inv] eff(2) show ?thesis by simp
qed (use inv in \<open>simp add: sender_visit_skip\<close>)

section \<open>The manager in between\<close>

text \<open>The operations of the instance manager other than \<open>add_instance\<close>, which only the assembler calls.\<close>

inductive manager_op :: "digest_fun \<Rightarrow> controller \<Rightarrow> controller \<Rightarrow> bool" for mdg where
  heartbeat: "manager_op mdg c (fst (handle_heartbeat mdg \<epsilon> msg c))"
| manage: "dget (instances c) n = Some r \<Longrightarrow> manager_op mdg c (manage_instance mdg \<epsilon> r c)"
| separate: "manager_op mdg c (separate_instance mdg t n c)"
| recover: "manager_op mdg c (recover_instance n c)"

definition ctrl_frame :: "controller \<Rightarrow> controller \<Rightarrow> bool" where
  "ctrl_frame c c' \<longleftrightarrow>
     (\<forall>r. ins_id (ctrl_heap c' r) = ins_id (ctrl_heap c r) \<and> job_name (ctrl_heap c' r) = job_name (ctrl_heap c r) \<and>
        (r \<notin> set (dvalues (instances c)) \<longrightarrow> ctrl_heap c' r = ctrl_heap c r)) \<and>
     set (instances c') \<subseteq> set (instances c)"

lemma ctrl_frame_transition:
  assumes "ctrl_inv c" and reg: "dget (instances c) n = Some r" and ev: "ev \<noteq> INSTANCE_RESUMED"
  shows "ctrl_frame c (fst (transition_on mdg \<epsilon> r ev c))"
proof -
  have "set (ddel n d) \<subseteq> set d" for n and d :: "(int, iref) dict" by (auto simp: AList.delete_eq)
  then show ?thesis
    using transition_instances(1) [OF ctrl_inv_registered [OF assms(1,2)] ev, of mdg \<epsilon>] dget_value_in [OF reg]
    by (auto simp: ctrl_frame_def transition_heap_fields [OF ev] transition_heap [OF ev])
qed

lemma ctrl_frame_same:
  "ctrl_heap c' = ctrl_heap c \<Longrightarrow> instances c' = instances c \<Longrightarrow> ctrl_frame c c'"
  by (simp add: ctrl_frame_def)

lemma ctrl_frame_cong:
  "ctrl_frame d c' \<Longrightarrow> instances d = instances c \<Longrightarrow> (\<And>r. r \<notin> set (dvalues (instances c)) \<Longrightarrow> ctrl_heap d r = ctrl_heap c r) \<Longrightarrow>
   (\<And>r. ins_id (ctrl_heap d r) = ins_id (ctrl_heap c r) \<and> job_name (ctrl_heap d r) = job_name (ctrl_heap c r)) \<Longrightarrow> ctrl_frame c c'"
  by (simp add: ctrl_frame_def)

lemma ctrl_frame_heartbeat:
  assumes inv: "ctrl_inv c"
  shows "ctrl_frame c (fst (handle_heartbeat mdg \<epsilon> msg c))"
proof (cases "dget (instances c) (hb_ins_id msg)")
  case (Some r)
  obtain i res where u: "update_heartbeat (hb_ip msg) (now \<epsilon>) (hb_status msg) (ctrl_heap c r) = (i, res)" by fastforce
  have i: "ins_id i = ins_id (ctrl_heap c r)" "job_name i = job_name (ctrl_heap c r)" "ins_status i = ins_status (ctrl_heap c r)"
    using heartbeat_static [of "hb_ip msg" "now \<epsilon>" "hb_status msg" "ctrl_heap c r"] u by simp_all
  have inv': "ctrl_inv (add_alarms as (set_instance r i c))" for as using ctrl_inv_set_instance [OF inv i(1,3)] by simp
  have set: "ctrl_frame c d" if "ctrl_frame (add_alarms as (set_instance r i c)) d" for as d
    by (rule ctrl_frame_cong [OF that]) (use i dget_value_in [OF Some] in auto)
  have stored: "ctrl_frame c (set_instance r i c)"
    using i dget_value_in [OF Some] by (auto simp: ctrl_frame_def)
  have "ctrl_frame c (fst (handle_state_transition mdg \<epsilon> r None (set_instance r i c)))"
    unfolding handle_transition_detected
    by (rule set, rule ctrl_frame_transition [where n = "hb_ins_id msg"]) (use inv' Some in \<open>simp_all add: detect_not_resumed\<close>)
  with stored show ?thesis by (auto simp: handle_heartbeat_def Some u split: sum.splits bool.splits prod.splits)
qed (simp add: handle_heartbeat_def ctrl_frame_same)

lemma ctrl_frame_manage:
  assumes "ctrl_inv c" and "dget (instances c) n = Some r"
  shows "ctrl_frame c (manage_instance mdg \<epsilon> r c)"
proof -
  have "ctrl_frame (add_alarms as c) (fst (transition_on mdg \<epsilon> r INSTANCE_HEARTBEAT_TIMEOUT (add_alarms as c)))" for as
    by (rule ctrl_frame_transition [where n = n]) (use assms in simp_all)
  then have "ctrl_frame c (fst (transition_on mdg \<epsilon> r INSTANCE_HEARTBEAT_TIMEOUT (add_alarms as c)))" for as
    by (rule ctrl_frame_cong) simp_all
  then show ?thesis
    by (simp add: manage_instance_def handle_transition_given ctrl_frame_same split: prod.splits bool.splits)
qed

lemma manager_op_frame:
  assumes "manager_op mdg c c'" and "ctrl_inv c"
  shows "ctrl_frame c c' \<and> ctrl_inv c'"
  using assms
proof (induction rule: manager_op.induct)
  case (separate c t n)
  have "ctrl_frame c (separate_instance mdg t n c)"
    by (auto simp: separate_instance_def get_instance_def Let_def ctrl_frame_def split: option.splits dest: dget_value_in)
  then show ?case using ctrl_inv_separate [OF separate] by simp
next
  case (recover c n)
  have "ctrl_frame c (recover_instance n c)"
    by (auto simp: recover_instance_def get_instance_def Let_def ctrl_frame_def split: option.splits)
  then show ?case using ctrl_inv_recover [OF recover] by simp
qed (simp_all add: ctrl_frame_heartbeat ctrl_inv_heartbeat ctrl_frame_manage ctrl_inv_manage)

lemma manager_op_inv:
  assumes inv: "asm_inv a" and op: "manager_op mdg (manager a) c"
  shows "asm_inv (a\<lparr>manager := c\<rparr>)"
proof -
  have frame: "ctrl_frame (manager a) c" and c: "ctrl_inv c" using manager_op_frame [OF op asm_invD(1) [OF inv]] by simp_all
  then have keys: "dmem n (instances c) \<Longrightarrow> dmem n (instances (manager a))" for n
    by (auto simp: dmem_iff_keys ctrl_frame_def)
  have "job_ok c (ins_id_cnt a) job md" if "dget (asm_instances a) job = Some md" for job md
    using asm_invD(4) [OF inv that] frame by (fastforce simp: job_ok_def ctrl_frame_def)
  with c keys asm_invD(2,3) [OF inv] show ?thesis by (simp add: asm_inv_def)
qed

section \<open>Reachable states and fresh ids\<close>

inductive asm_step :: "asm_digest \<Rightarrow> digest_fun \<Rightarrow> assembler \<Rightarrow> assembler \<Rightarrow> bool" for dg mdg where
  register: "fresh_ref r a \<Longrightarrow> asm_step dg mdg a (fst (register dg \<epsilon> r msg a))"
| reregister: "fresh_ref r a \<Longrightarrow> asm_step dg mdg a (fst (reregister dg \<epsilon> r msg a))"
| assemble: "asm_step dg mdg a (assemble_visit dg \<epsilon>' job a)"
| send: "asm_step dg mdg a (fst (sender_visit \<epsilon>'' job a))"
| manager: "manager_op mdg (manager a) c \<Longrightarrow> asm_step dg mdg a (a\<lparr>manager := c\<rparr>)"

lemma asm_step_inv:
  assumes "asm_step dg mdg a b" and "asm_inv a"
  shows "asm_inv b \<and> ins_id_cnt a \<le> ins_id_cnt b"
  using assms
proof (induction rule: asm_step.induct)
  case (register r a \<epsilon> msg)
  then show ?case by (rule register_inv [rotated])
next
  case (reregister r a \<epsilon> msg)
  then show ?case by (rule reregister_inv [rotated])
qed (simp_all add: assemble_visit_inv sender_visit_inv manager_op_inv)

lemma asm_steps_inv: "(asm_step dg mdg)\<^sup>*\<^sup>* a b \<Longrightarrow> asm_inv a \<Longrightarrow> asm_inv b \<and> ins_id_cnt a \<le> ins_id_cnt b"
  by (induction rule: rtranclp_induct) (auto dest: asm_step_inv)

lemma init_assembler_inv: "asm_inv (init_assembler persist path (fresh_controller h persist' p obs))"
  by (simp add: asm_inv_def init_assembler_def ctrl_inv_fresh fresh_controller_fields)

text \<open>The ids in use: those of the instances being assembled and those under management.\<close>

definition ids_in_use :: "assembler \<Rightarrow> int set" where
  "ids_in_use a = (\<lambda>md. ins_id (instance_of a md)) ` set (dvalues (asm_instances a)) \<union> set (dkeys (instances (manager a)))"

lemma ids_below_cnt: "asm_inv a \<Longrightarrow> n \<in> ids_in_use a \<Longrightarrow> n < ins_id_cnt a"
proof -
  assume inv: "asm_inv a" and n: "n \<in> ids_in_use a"
  then consider md where "md \<in> set (dvalues (asm_instances a))" "n = ins_id (instance_of a md)" | "dmem n (instances (manager a))"
    by (auto simp: ids_in_use_def dmem_iff_keys)
  then show ?thesis
  proof cases
    case 1
    then obtain job where "dget (asm_instances a) job = Some md" using dvalue_has_key asm_invD(2) [OF inv] by metis
    with asm_invD(4) [OF inv] 1 show ?thesis by (auto simp: job_ok_def)
  qed (use asm_invD(3) [OF inv] in simp)
qed

lemma registered_id:
  assumes "eval_register_status (rm_job_name msg) b = NOT_REGISTERED" and "fst (register dg \<epsilon> r msg b) = b'"
  shows "\<exists>md. dget (asm_instances b') (rm_job_name msg) = Some md \<and> ins_id (instance_of b' md) = ins_id_cnt b"
proof -
  obtain a1 where job: "register_job \<epsilon> r msg b = Some a1"
    and md: "dget (asm_instances a1) (rm_job_name msg) = Some (new_metadata r (reg_time \<epsilon>) False (rm_nnodes msg))"
    and i: "ins_id (ctrl_heap (manager a1) r) = ins_id_cnt b" "node_managers (ctrl_heap (manager a1) r) = []"
    using assms(1) by (simp add: register_job_def Let_def)
  have id: "ins_id (add_node_mgr ip p n i) = ins_id i" "ins_id (add_endpoints pod eps i) = ins_id i" for ip p n i pod eps
    using same_identity_ops(1) [of ip p n i] same_identity_ops(3) [of pod eps i] by (simp_all add: same_identity_def)
  have new: "\<not> has_node_mgr (Some ip) (ctrl_heap (manager a1) r)" for ip by (simp add: has_node_mgr_def i(2))
  show ?thesis
    unfolding assms(2) [symmetric]
    using md i new by (auto simp: register_def job Let_def id dest!: build_endpoints_metadata split: sum.splits)
qed

end
