(* ===== verification/Assembler_Properties.thy ===== *)
theory Assembler_Properties
  imports Assembler_Correctness
begin

text \<open>
  The behaviour of the assembler's operations: the outcome of an assembling visit, completeness and bounded retry
  of the start commands, the numbering of endpoints and ranks in a cold start, and concrete runs that show where the numbering,
  the readiness test and the ids of re-registered instances go wrong.
\<close>

section \<open>A concrete assembler\<close>

definition demo_pc :: "int \<Rightarrow> parallel_config" where
  "demo_pc dp = make_parallel_config (Some dp) None None None None None None False"

definition demo_reg :: "string \<Rightarrow> string \<Rightarrow> int \<Rightarrow> register_msg" where
  "demo_reg job pod dp =
     \<lparr>rm_job_name = job, rm_model_name = ''m'', rm_engine_type = None, rm_dispatch_capabilities = [], rm_role = ''decode'',
      rm_pod_ip = pod, rm_business_port = [''1''], rm_mgmt_port = [''2''], rm_bootstrap_port = None, rm_nm_port = ''3'',
      rm_parallel_config = demo_pc dp, rm_enable_multi_endpoints = True, rm_device_num = 1, rm_ranktable = None,
      rm_nnodes = 1, rm_is_master = False\<rparr>"

definition demo_asm_env :: asm_env where
  "demo_asm_env = \<lparr>reg_time = 0, ep_time = (\<lambda>_. 0), persist_time = 0\<rparr>"

definition demo_asm_digest :: asm_digest where
  "demo_asm_digest d v t = ''''"

definition demo_asm :: assembler where
  "demo_asm = init_assembler False '''' demo_ctrl"

definition demo_loop_env :: "rat \<Rightarrow> asm_loop_env" where
  "demo_loop_env t = \<lparr>al_now = t, al_alive = (\<lambda>nm. nm_pod_ip nm \<noteq> ''dead''), al_timeout = 600, al_persist_time = 0\<rparr>"

lemmas asm_eval =
  demo_pc_def make_parallel_config_def arg_or_def demo_reg_def demo_asm_env_def demo_asm_digest_def demo_asm_def demo_loop_env_def
  init_assembler_def register_def reregister_def register_job_def reregister_job_def eval_register_status_def has_active_instance_by_job_name_def
  make_instance_def new_metadata_def record_master_def add_node_mgr_def has_node_mgr_def build_endpoints_def build_multi_endpoints_def
  build_single_endpoint_def build_device_infos_def index_or_raise_def make_endpoint_def merge_ranktable_def add_endpoints_def get_endpoints_num_def
  persist_if_def put_instance_def set_metadata_def set_instance_def pop_job_def Let_def

lemma demo_ctrl_empty: "instances demo_ctrl = []"
  by (simp add: demo_ctrl_def fresh_controller_fields)

definition demo_pod :: "string \<Rightarrow> nat \<Rightarrow> endpoint" where
  "demo_pod pod k =
     \<lparr>ep_id = int k, ep_ip = pod, business_port = ''1'', mgmt_port = ''2'', bootstrap_port = None, ep_status = EP_INITIAL,
      device_infos = [\<lparr>device_ip = None, device_id = dec 0, rank_id = dec k, super_device_id = None\<rparr>],
      hb_timestamp = 0, ep_workload = zero_workload, headless = False\<rparr>"

definition demo_node :: "string \<Rightarrow> node_manager" where
  "demo_node pod = \<lparr>nm_pod_ip = pod, nm_port = ''3'', device_num = 1\<rparr>"

definition demo_instance_of :: "int \<Rightarrow> string \<Rightarrow> int \<Rightarrow> node_manager list \<Rightarrow> (string, (int, endpoint) dict) dict \<Rightarrow> int \<Rightarrow> instance_obj" where
  "demo_instance_of n job dp nms eps v =
     (make_instance job ''m'' None [] n ''decode'' (demo_pc dp) True)\<lparr>node_managers := nms, endpoints := eps, endpoints_version := v\<rparr>"

lemma demo_reg_job [simp]: "rm_job_name (demo_reg job pod dp) = job"
  by (simp add: demo_reg_def)

lemma demo_first:
  "register demo_asm_digest demo_asm_env r (demo_reg job pod dp) demo_asm =
     (demo_asm\<lparr>ins_id_cnt := 2, asm_instances := [(job, new_metadata r 0 False 1)],
        manager := set_instance r (demo_instance_of 1 job dp [demo_node pod] [(pod, [(0, demo_pod pod 0)])] 1) demo_ctrl\<rparr>, Inr 0)"
  using demo_ctrl_empty by (simp add: asm_eval demo_instance_of_def demo_node_def demo_pod_def)

section \<open>Fresh instance ids\<close>

text \<open>
  C35: instance ids are never given twice. From a fresh controller, through any sequence of registrations, re-registrations,
  assembling and start-command visits and operations of the instance manager, a registration of a new job gives
  its instance an id that no instance has, nor had in any earlier state of the run, whether it was being assembled or under management.
\<close>

theorem fresh_instance_ids:
  assumes "(asm_step dg mdg)\<^sup>*\<^sup>* (init_assembler persist path (fresh_controller h persist' p obs)) a"
    and "(asm_step dg mdg)\<^sup>*\<^sup>* a b"
    and "eval_register_status (rm_job_name msg) b = NOT_REGISTERED" and "fst (register dg \<epsilon> r msg b) = b'"
  shows "\<exists>md. dget (asm_instances b') (rm_job_name msg) = Some md \<and> ins_id (instance_of b' md) = ins_id_cnt b \<and>
    ins_id_cnt b \<notin> ids_in_use a \<union> ids_in_use b"
proof -
  have a: "asm_inv a" using asm_steps_inv [OF assms(1) init_assembler_inv] by simp
  have b: "asm_inv b" "ins_id_cnt a \<le> ins_id_cnt b" using asm_steps_inv [OF assms(2) a] by simp_all
  have "ins_id_cnt b \<notin> ids_in_use a \<union> ids_in_use b"
    using ids_below_cnt [OF a] ids_below_cnt [OF b(1)] b(2) by force
  with registered_id [OF assms(3,4)] show ?thesis by blast
qed

lemma demo_asm_start:
  "demo_asm = init_assembler False '''' (fresh_controller (\<lambda>r. solo_instance (int r + 7) (if r = 0 then ''j'' else ''k'')) False
     (init_pusher 0 0) [EVENT_PUSHER, OTHER_OBSERVER 0])"
  by (simp add: demo_asm_def demo_ctrl_def)

theorem fresh_instance_ids_witness:
  "\<exists>md. dget (asm_instances (fst (register demo_asm_digest demo_asm_env 1 (demo_reg ''k'' ''b'' 1)
       (fst (register demo_asm_digest demo_asm_env 0 (demo_reg ''j'' ''a'' 1) demo_asm))))) ''k'' = Some md \<and>
     (2::int) \<notin> ids_in_use demo_asm"
proof -
  let ?b = "fst (register demo_asm_digest demo_asm_env 0 (demo_reg ''j'' ''a'' 1) demo_asm)"
  have "fresh_ref 0 demo_asm" by (simp add: fresh_ref_def demo_asm_def init_assembler_def demo_ctrl_empty)
  then have b: "(asm_step demo_asm_digest demo_digest)\<^sup>*\<^sup>* demo_asm ?b" by (intro r_into_rtranclp asm_step.register)
  have st: "eval_register_status (rm_job_name (demo_reg ''k'' ''b'' 1)) ?b = NOT_REGISTERED"
    by (simp add: demo_first eval_register_status_def has_active_instance_by_job_name_def demo_ctrl_empty dmem_def)
  have "(asm_step demo_asm_digest demo_digest)\<^sup>*\<^sup>*
      (init_assembler False '''' (fresh_controller (\<lambda>r. solo_instance (int r + 7) (if r = 0 then ''j'' else ''k'')) False
        (init_pusher 0 0) [EVENT_PUSHER, OTHER_OBSERVER 0])) demo_asm" unfolding demo_asm_start [symmetric] by simp
  from fresh_instance_ids [OF this b st refl] show ?thesis by (auto simp: demo_first)
qed

section \<open>Start commands\<close>

lemma start_commands_nodes:
  "map fst (start_commands so d master md c) =
     filter (\<lambda>nm. get_endpoints (nm_pod_ip nm) (ctrl_heap c (md_instance md)) \<noteq> []) (node_managers (ctrl_heap c (md_instance md)))"
proof -
  have "map snd (filter (\<lambda>x. P (snd x)) (enumerate k nms)) = filter P nms" for P k and nms :: "node_manager list"
    by (induction nms arbitrary: k) auto
  then show ?thesis by (simp add: start_commands_def comp_def case_prod_unfold)
qed

lemma start_commands_all:
  assumes "\<not> length (start_commands so d master md c) < length (node_managers (ctrl_heap c (md_instance md)))"
  shows "start_commands so d master md c =
    map (\<lambda>(rank, nm). (nm, start_cmd so d master md c rank nm)) (enumerate 0 (node_managers (ctrl_heap c (md_instance md))))"
proof -
  let ?P = "\<lambda>(rank :: nat, nm). get_endpoints (nm_pod_ip nm) (ctrl_heap c (md_instance md)) \<noteq> []"
  let ?es = "enumerate 0 (node_managers (ctrl_heap c (md_instance md)))"
  have "\<not> length (filter ?P ?es) < length ?es" using assms by (simp add: start_commands_def)
  then have "filter ?P ?es = ?es" by (metis filter_id_conv length_filter_less)
  then show ?thesis by (simp add: start_commands_def)
qed

lemma start_commands_member:
  "(nm, cmd) \<in> set (start_commands so d master md c) \<Longrightarrow>
     (let i = ctrl_heap c (md_instance md) in nm \<in> set (node_managers i) \<and> sc_master_dp_ip cmd = master \<and> sc_instance_id cmd = ins_id i \<and>
        sc_endpoints cmd = dvalues (get_endpoints (nm_pod_ip nm) i) \<and> sc_endpoints cmd \<noteq> [])"
  by (auto simp: start_commands_def start_cmd_def Let_def enumerate_eq_zip dest: set_zip_rightD)

lemma d2d_manager [simp]: "manager (snd (is_d2d_enabled_for_role fs role a)) = manager a"
  by (simp add: is_d2d_enabled_for_role_def Let_def split: option.splits)

lemma send_start_success:
  assumes "send_start_command \<epsilon> md a = (a', cmds, True)"
  obtains master d where "master_dp_ip md (instance_of a md) = Some master" "master \<noteq> ''''"
    "cmds = start_commands (send_set_order \<epsilon>) d master md (manager a)" "cmds \<noteq> []"
    "\<not> (md_nnodes md > 1 \<and> length cmds < length (node_managers (instance_of a md)))"
    "list_all (\<lambda>(nm, cmd). send_start \<epsilon> nm cmd) cmds"
proof -
  obtain d a1 where d: "is_d2d_enabled_for_role (send_files \<epsilon>) (ins_role (instance_of a md)) a = (d, a1)" by fastforce
  with d2d_manager [of "send_files \<epsilon>" "ins_role (instance_of a md)" a] have "manager a1 = manager a" by simp
  with assms d that show thesis
    by (auto simp: send_start_command_def Let_def split: option.splits if_splits)
qed

lemma map_enumerate_fst: "map (\<lambda>x. f (fst x)) (enumerate k xs) = map f [k..<k + length xs]"
  by (induction xs arbitrary: k) (simp_all add: upt_conv_Cons del: upt_Suc)

lemma master_registered:
  assumes "master_dp_ip md i = Some master" and "master \<noteq> ''''"
    and "\<And>ip. snapshot_dp_master_ip md = Some ip \<Longrightarrow> ip \<noteq> '''' \<Longrightarrow> has_node_mgr (Some ip) i"
  shows "master \<in> nm_pod_ip ` set (node_managers i)"
proof (cases "\<exists>ip. snapshot_dp_master_ip md = Some ip \<and> ip \<noteq> ''''")
  case True
  then obtain ip where ip: "snapshot_dp_master_ip md = Some ip" "ip \<noteq> ''''" by blast
  with assms(1,3) have "master = ip" "has_node_mgr (Some ip) i" by (auto simp: master_dp_ip_def)
  then show ?thesis by (auto simp: has_node_mgr_def list_ex_iff)
next
  case False
  then show ?thesis using assms(1,2) by (cases "node_managers i") (auto simp: master_dp_ip_def split: option.splits if_splits)
qed

text \<open>
  What a successful start means. At least one node manager was sent a command and all that were accepted it; those
  left out have no endpoints; every command carries the id of the instance, the endpoints of its own pod and one common
  master address, which is that of a registered node as long as the recorded snapshot master is registered. An instance that spans nodes
  (\<open>nnodes > 1\<close>) is only reported as started if every node manager got its command, the node ranks being
  the registration order modulo \<open>nnodes\<close>.
\<close>

theorem start_success_complete:
  assumes sent: "send_start_command \<epsilon> md a = (a', cmds, True)" and i: "i = instance_of a md"
    and snap: "\<And>ip. snapshot_dp_master_ip md = Some ip \<Longrightarrow> ip \<noteq> '''' \<Longrightarrow> has_node_mgr (Some ip) i"
  shows "cmds \<noteq> [] \<and> list_all (\<lambda>(nm, cmd). send_start \<epsilon> nm cmd) cmds \<and>
    map fst cmds = filter (\<lambda>nm. get_endpoints (nm_pod_ip nm) i \<noteq> []) (node_managers i) \<and>
    (\<exists>master \<in> nm_pod_ip ` set (node_managers i).
      list_all (\<lambda>(nm, cmd). sc_instance_id cmd = ins_id i \<and> sc_master_dp_ip cmd = master \<and>
        sc_endpoints cmd = dvalues (get_endpoints (nm_pod_ip nm) i) \<and> sc_endpoints cmd \<noteq> []) cmds) \<and>
    (md_nnodes md > 1 \<longrightarrow> map fst cmds = node_managers i \<and>
       map (sc_node_rank \<circ> snd) cmds = map (\<lambda>k. int k mod md_nnodes md) [0..<length (node_managers i)])"
proof -
  obtain master d where m: "master_dp_ip md i = Some master" "master \<noteq> ''''"
    and cmds: "cmds = start_commands (send_set_order \<epsilon>) d master md (manager a)" "cmds \<noteq> []"
    and all: "\<not> (md_nnodes md > 1 \<and> length cmds < length (node_managers i))"
    and ok: "list_all (\<lambda>(nm, cmd). send_start \<epsilon> nm cmd) cmds"
    using send_start_success [OF sent] unfolding i by metis
  have member: "list_all (\<lambda>(nm, cmd). sc_instance_id cmd = ins_id i \<and> sc_master_dp_ip cmd = master \<and>
      sc_endpoints cmd = dvalues (get_endpoints (nm_pod_ip nm) i) \<and> sc_endpoints cmd \<noteq> []) cmds"
    using start_commands_member unfolding list_all_iff cmds(1) i Let_def by fastforce
  moreover have "map fst cmds = filter (\<lambda>nm. get_endpoints (nm_pod_ip nm) i \<noteq> []) (node_managers i)"
    unfolding cmds(1) i by (rule start_commands_nodes)
  moreover have "map fst cmds = node_managers i \<and>
      map (sc_node_rank \<circ> snd) cmds = map (\<lambda>k. int k mod md_nnodes md) [0..<length (node_managers i)]" if "md_nnodes md > 1"
  proof -
    have eq: "cmds = map (\<lambda>(rank, nm). (nm, start_cmd (send_set_order \<epsilon>) d master md (manager a) rank nm)) (enumerate 0 (node_managers i))"
      using that all unfolding cmds(1) i by (intro start_commands_all) simp
    show ?thesis
      using that map_enumerate_fst [of "\<lambda>k. int k mod md_nnodes md" 0 "node_managers i"]
      by (simp add: eq comp_def case_prod_unfold start_cmd_def Let_def)
  qed
  ultimately show ?thesis using cmds(2) ok master_registered [OF m snap] by blast
qed

definition demo_send_env :: "bool \<Rightarrow> asm_send_env" where
  "demo_send_env ok =
     \<lparr>send_start = (\<lambda>_ _. ok), send_files = \<lparr>read_json = (\<lambda>_. Inl ValueError), json_loads = (\<lambda>_. None)\<rparr>, send_set_order = (\<lambda>xs. xs),
      send_retry_times = 3, send_persist_time = 0\<rparr>"

definition demo_registered :: assembler where
  "demo_registered = fst (register demo_asm_digest demo_asm_env 0 (demo_reg ''j'' ''a'' 1) demo_asm)"

lemma demo_registered_fields:
  "asm_instances demo_registered = [(''j'', new_metadata 0 0 False 1)]" "user_config_path demo_registered = ''''"
  "d2d_enabled_cache demo_registered = []" "instances (manager demo_registered) = []" "ins_id_cnt demo_registered = 2"
  "ctrl_heap (manager demo_registered) 0 = demo_instance_of 1 ''j'' 1 [demo_node ''a''] [(''a'', [(0, demo_pod ''a'' 0)])] 1"
  "asm_persistence demo_registered = False"
  unfolding demo_registered_def demo_first by (simp_all add: demo_asm_def init_assembler_def demo_ctrl_empty)

lemma demo_instance_of_fields [simp]:
  "node_managers (demo_instance_of n job dp nms eps v) = nms" "endpoints (demo_instance_of n job dp nms eps v) = eps"
  "job_name (demo_instance_of n job dp nms eps v) = job" "ins_id (demo_instance_of n job dp nms eps v) = n"
  "ins_role (demo_instance_of n job dp nms eps v) = ''decode''" "ins_status (demo_instance_of n job dp nms eps v) = INITIAL"
  "parallel_cfg (demo_instance_of n job dp nms eps v) = Some (demo_pc dp)" "enable_multi_endpoints (demo_instance_of n job dp nms eps v)"
  by (simp_all add: demo_instance_of_def make_instance_def)

lemma demo_node_fields [simp]: "nm_pod_ip (demo_node pod) = pod" "nm_port (demo_node pod) = ''3''" "device_num (demo_node pod) = 1"
  by (simp_all add: demo_node_def)

definition demo_cmd :: start_cmd_msg where
  "demo_cmd = \<lparr>sc_job_name = ''j'', sc_role = ''decode'', sc_instance_id = 1, sc_endpoints = [demo_pod ''a'' 0], sc_master_dp_ip = ''a'',
     sc_ranktable = None, sc_d2d_peer_ips = None, sc_node_rank = 0\<rparr>"

lemma demo_send:
  "send_start_command (demo_send_env ok) (new_metadata 0 0 False 1) demo_registered =
     (demo_registered\<lparr>d2d_enabled_cache := [(''decode'', False)]\<rparr>, [(demo_node ''a'', demo_cmd)], ok)"
  by (simp add: send_start_command_def Let_def demo_registered_fields master_dp_ip_def is_d2d_enabled_for_role_def start_commands_def
      start_cmd_def get_endpoints_def demo_send_env_def demo_cmd_def new_metadata_def)

theorem start_success_complete_witness:
  "map fst [(demo_node ''a'', demo_cmd)] = filter (\<lambda>nm. get_endpoints (nm_pod_ip nm) (ctrl_heap (manager demo_registered) 0) \<noteq> [])
     (node_managers (ctrl_heap (manager demo_registered) 0))"
  using start_success_complete [OF demo_send [of True] refl] by (simp add: new_metadata_def)

section \<open>Bounded retry\<close>

definition sender_visits :: "asm_send_env list \<Rightarrow> string \<Rightarrow> assembler \<Rightarrow> assembler" where
  "sender_visits \<epsilon>s job a = fold (\<lambda>\<epsilon> a. fst (sender_visit \<epsilon> job a)) \<epsilon>s a"

lemma sender_visits_absent: "\<not> dmem job (asm_instances a) \<Longrightarrow> sender_visits \<epsilon>s job a = a"
  by (induction \<epsilon>s) (auto simp: sender_visits_def sender_visit_skip dmem_def)

lemma sender_visit_other: "k \<noteq> job \<Longrightarrow> dget (asm_instances (fst (sender_visit \<epsilon> job a))) k = dget (asm_instances a) k"
  by (cases "\<exists>md. dget (asm_instances a) job = Some md \<and> register_status md = ASSEMBLED")
    (auto simp: sender_visit_effect sender_visit_skip)

lemma sender_visit_manager [simp]: "manager (fst (sender_visit \<epsilon> job a)) = manager a"
  by (cases "\<exists>md. dget (asm_instances a) job = Some md \<and> register_status md = ASSEMBLED")
    (auto simp: sender_visit_effect sender_visit_skip)

lemma refused_fails:
  assumes "\<And>nm cmd. \<not> send_start \<epsilon> nm cmd"
  shows "\<not> snd (snd (send_start_command \<epsilon> md a))"
proof
  assume ok: "snd (snd (send_start_command \<epsilon> md a))"
  then obtain a' cmds where "send_start_command \<epsilon> md a = (a', cmds, True)" by (metis prod.collapse)
  then obtain c cs where "cmds = c # cs" "list_all (\<lambda>(nm, cmd). send_start \<epsilon> nm cmd) cmds"
    by (rule send_start_success) (metis list.exhaust)
  with assms show False by (cases c) simp
qed

text \<open>
  The start commands of an instance are not retried forever. After \<open>send_cmd_retry_times\<close> minus the number of
  attempts already made (at least one) visits of the sender the job has left the assembler, however the node managers
  answer; if they all refuse, it stays for exactly that many visits. No visit touches another job or the instance manager.
\<close>

theorem start_retries_bounded:
  assumes md: "dget (asm_instances a) job = Some md" "register_status md = ASSEMBLED"
    and N: "\<And>\<epsilon>. \<epsilon> \<in> set \<epsilon>s \<Longrightarrow> send_retry_times \<epsilon> = N" and ne: "\<epsilon>s \<noteq> []"
  shows "(N - start_command_send_times md \<le> int (length \<epsilon>s) \<longrightarrow> \<not> dmem job (asm_instances (sender_visits \<epsilon>s job a))) \<and>
    ((\<forall>\<epsilon> \<in> set \<epsilon>s. \<forall>nm cmd. \<not> send_start \<epsilon> nm cmd) \<and> int (length \<epsilon>s) < N - start_command_send_times md \<longrightarrow>
       dmem job (asm_instances (sender_visits \<epsilon>s job a))) \<and>
    (\<forall>k. k \<noteq> job \<longrightarrow> dget (asm_instances (sender_visits \<epsilon>s job a)) k = dget (asm_instances a) k) \<and>
    manager (sender_visits \<epsilon>s job a) = manager a"
  using assms
proof (induction \<epsilon>s arbitrary: a md)
  case (Cons \<epsilon> \<epsilon>s)
  let ?b = "fst (sender_visit \<epsilon> job a)"
  have rest: "sender_visits (\<epsilon> # \<epsilon>s) job a = sender_visits \<epsilon>s job ?b" by (simp add: sender_visits_def)
  have R: "send_retry_times \<epsilon> = N" using Cons.prems(3) by simp
  note eff = sender_visit_effect [OF Cons.prems(1,2), of \<epsilon>]
  show ?case
  proof (cases "snd (snd (send_start_command \<epsilon> md a)) \<or> start_command_send_times md + 1 \<ge> N")
    case True
    then have "\<not> dmem job (asm_instances ?b)" by (simp add: eff R)
    then show ?thesis
      using True refused_fails [of \<epsilon> md a] by (auto simp: rest sender_visits_absent sender_visit_other)
  next
    case False
    let ?md = "md\<lparr>start_command_send_times := start_command_send_times md + 1\<rparr>"
    have b: "dget (asm_instances ?b) job = Some ?md" "register_status ?md = ASSEMBLED"
      using False Cons.prems(2) by (simp_all add: eff R)
    show ?thesis
    proof (cases "\<epsilon>s = []")
      case True
      with False b show ?thesis by (auto simp: sender_visits_def sender_visit_other)
    next
      case False
      from Cons.IH [OF b] Cons.prems(3) False show ?thesis by (auto simp: rest sender_visit_other)
    qed
  qed
qed simp

definition demo_assembled :: assembler where
  "demo_assembled = set_metadata ''j'' ((new_metadata 0 0 False 1)\<lparr>register_status := ASSEMBLED\<rparr>) demo_registered"

theorem start_retries_bounded_witness:
  "\<not> dmem ''j'' (asm_instances (sender_visits [demo_send_env False, demo_send_env False, demo_send_env False] ''j'' demo_assembled))"
proof -
  have "dget (asm_instances demo_assembled) ''j'' = Some ((new_metadata 0 0 False 1)\<lparr>register_status := ASSEMBLED\<rparr>)"
    by (simp add: demo_assembled_def)
  from start_retries_bounded [OF this, of "[demo_send_env False, demo_send_env False, demo_send_env False]" 3]
  show ?thesis by (simp add: demo_send_env_def new_metadata_def)
qed

section \<open>The outcome of an assembling visit\<close>

lemma filter_fold_nodes:
  "node_managers (fold (\<lambda>nm i. if alive nm then i
      else del_node_mgr (Some (nm_pod_ip nm)) (Some (nm_port nm)) (del_endpoints (nm_pod_ip nm) i)) nms i) =
   fold (\<lambda>nm xs. if alive nm then xs else pop_first (\<lambda>x. nm_pod_ip x = nm_pod_ip nm \<and> nm_port x = nm_port nm) xs) nms (node_managers i)"
  by (induction nms arbitrary: i) (simp_all add: del_node_mgr_def del_endpoints_def)

lemma pop_first_split: "P x \<Longrightarrow> (\<And>y. y \<in> set xs \<Longrightarrow> \<not> P y) \<Longrightarrow> pop_first P (xs @ x # ys) = xs @ ys"
  by (induction xs) auto

text \<open>When no two node managers share address and port, the filter keeps exactly the reachable ones.\<close>

lemma filter_nodes:
  assumes "distinct (map (\<lambda>nm. (nm_pod_ip nm, nm_port nm)) (node_managers i))"
  shows "node_managers (filter_abnormal_endpoints alive i) = filter alive (node_managers i)"
proof -
  have "fold (\<lambda>nm xs. if alive nm then xs else pop_first (\<lambda>x. nm_pod_ip x = nm_pod_ip nm \<and> nm_port x = nm_port nm) xs) nms (done_nms @ nms) =
      done_nms @ filter alive nms"
    if "distinct (map (\<lambda>nm. (nm_pod_ip nm, nm_port nm)) (done_nms @ nms))" for done_nms nms
    using that
  proof (induction nms arbitrary: done_nms)
    case (Cons nm nms)
    show ?case
    proof (cases "alive nm")
      case True
      with Cons.IH [of "done_nms @ [nm]"] Cons.prems show ?thesis by simp
    next
      case False
      have "pop_first (\<lambda>x. nm_pod_ip x = nm_pod_ip nm \<and> nm_port x = nm_port nm) (done_nms @ nm # nms) = done_nms @ nms"
        using Cons.prems by (intro pop_first_split) (force simp: image_iff)+
      with False Cons.IH [of done_nms] Cons.prems show ?thesis by simp
    qed
  qed simp
  from this [of "[]"] assms show ?thesis
    by (simp add: filter_abnormal_endpoints_def filter_fold_nodes)
qed

lemma complete_nodes: "node_managers (complete \<epsilon> md a) = node_managers (remaining \<epsilon> md a)"
proof -
  have "node_managers (fold f xs i) = node_managers i" if "\<And>x i. node_managers (f x i) = node_managers i"
    for f :: "nat \<times> node_manager \<Rightarrow> instance_obj \<Rightarrow> instance_obj" and xs i
    using that by (induction xs arbitrary: i) simp_all
  then show ?thesis
    by (simp add: complete_def mark_headless_def invalidate_endpoints_cache_def set_headless_def map_endpoints_def split: prod.splits)
qed

lemma update_heartbeat_nodes: "node_managers (fst (update_heartbeat ip t st i)) = node_managers i"
  by (simp add: update_heartbeat_def case_prod_unfold split: option.splits)

lemma refresh_initial_nodes: "node_managers (refresh_initial t i) = node_managers i"
proof -
  have "node_managers (fold (\<lambda>pod i. fst (update_heartbeat pod t (initial_report pod i) i)) pods i) = node_managers i" for pods i
    by (induction pods arbitrary: i) (simp_all add: update_heartbeat_nodes)
  then show ?thesis by (simp add: refresh_initial_def)
qed

text \<open>
  The outcome of an assembling visit. The instance is complete or not once its unreachable node managers are dropped. If it
  is complete, it is under management under its own id, with exactly its reachable node managers, provided the id was
  free; a re-registered one leaves the assembler, a new one stays for its start commands. If it is incomplete it waits,
  still unmanaged and with its time stamp, until the assembling time-out is over, and then it is dropped. No other job changes.
\<close>

theorem assemble_outcome:
  assumes md: "dget (asm_instances a) job = Some md" "register_status md \<noteq> ASSEMBLED"
    and nms: "distinct (map (\<lambda>nm. (nm_pod_ip nm, nm_port nm)) (node_managers (instance_of a md)))"
    and b: "b = assemble_visit dg \<epsilon> job a" and i: "i = filter_abnormal_endpoints (al_alive \<epsilon>) (instance_of a md)"
  shows "(ready_to_start (md_nnodes md) i \<and> \<not> dmem (ins_id (instance_of a md)) (instances (manager a)) \<longrightarrow>
      dget (instances (manager b)) (ins_id (instance_of a md)) = Some (md_instance md) \<and>
      node_managers (ctrl_heap (manager b) (md_instance md)) = filter (al_alive \<epsilon>) (node_managers (instance_of a md)) \<and>
      (if is_reregister md then \<not> dmem job (asm_instances b)
       else \<exists>md'. dget (asm_instances b) job = Some md' \<and> register_status md' = ASSEMBLED \<and> md_instance md' = md_instance md)) \<and>
    (\<not> ready_to_start (md_nnodes md) i \<longrightarrow> instances (manager b) = instances (manager a) \<and>
      (if al_now \<epsilon> - register_timestamp md > al_timeout \<epsilon> then \<not> dmem job (asm_instances b)
       else \<exists>md'. dget (asm_instances b) job = Some md' \<and> register_status md' = register_status md \<and>
         register_timestamp md' = register_timestamp md)) \<and>
    (\<forall>k. k \<noteq> job \<longrightarrow> dget (asm_instances b) k = dget (asm_instances a) k)"
proof -
  have i': "i = remaining \<epsilon> md a" by (simp add: i remaining_def)
  have id: "ins_id (complete \<epsilon> md a) = ins_id (instance_of a md)"
    using same_identity_complete [of \<epsilon> md a] by (simp add: same_identity_def)
  have nodes: "node_managers (complete \<epsilon> md a) = filter (al_alive \<epsilon>) (node_managers (instance_of a md))"
    unfolding complete_nodes remaining_def by (rule filter_nodes [OF nms])
  have handed: "dget (instances (manager (handed_over \<epsilon> job md a))) (ins_id (instance_of a md)) = Some (md_instance md) \<and>
      node_managers (ctrl_heap (manager (handed_over \<epsilon> job md a)) (md_instance md)) = filter (al_alive \<epsilon>) (node_managers (instance_of a md))"
    if "\<not> dmem (ins_id (instance_of a md)) (instances (manager a))"
    using that by (simp add: handed_over_def marked_assembled_def add_instance_def Let_def id refresh_initial_nodes nodes)
  have waiting: "instances (manager (kept_waiting \<epsilon> job md a)) = instances (manager a)"
    by (simp add: kept_waiting_def)
  have tables: "asm_instances (handed_over \<epsilon> job md a) =
      dset job ((drop_stale_master (remaining \<epsilon> md a) md)\<lparr>register_status := ASSEMBLED\<rparr>) (asm_instances a)"
    "asm_instances (kept_waiting \<epsilon> job md a) = dset job (drop_stale_master (remaining \<epsilon> md a) md) (asm_instances a)"
    by (simp_all add: handed_over_def marked_assembled_def kept_waiting_def)
  show ?thesis
    unfolding b assemble_visit_eq [OF md] i' using handed waiting by (simp add: tables)
qed

lemma demo_filter:
  "filter_abnormal_endpoints (al_alive (demo_loop_env t)) (demo_instance_of n job dp [demo_node ''a''] eps v) =
     demo_instance_of n job dp [demo_node ''a''] eps v"
  by (simp add: filter_abnormal_endpoints_def demo_loop_env_def)

theorem assemble_outcome_witness:
  "dget (instances (manager (assemble_visit demo_asm_digest (demo_loop_env 1) ''j'' demo_registered))) 1 = Some 0"
proof -
  have md: "dget (asm_instances demo_registered) ''j'' = Some (new_metadata 0 0 False 1)"
    by (simp add: demo_registered_fields)
  have "ready_to_start 1 (demo_instance_of 1 ''j'' 1 [demo_node ''a''] [(''a'', [(0, demo_pod ''a'' 0)])] 1)"
    by (simp add: ready_to_start_def is_endpoints_enough_def get_endpoints_num_def demo_pc_def make_parallel_config_def arg_or_def)
  then show ?thesis
    using assemble_outcome [OF md _ _ refl refl, where dg = demo_asm_digest and \<epsilon> = "demo_loop_env 1"]
    by (simp add: demo_registered_fields demo_filter new_metadata_def)
qed

section \<open>Numbering of endpoints and ranks\<close>

text \<open>
  The endpoints of an instance, in the order of registration, have the ids 0, 1, 2, ..., and the devices of endpoint
  \<open>k\<close> have the ranks \<open>k * dpe, ..., k * dpe + dpe - 1\<close>.
\<close>

definition numbered :: "nat \<Rightarrow> endpoint list \<Rightarrow> bool" where
  "numbered dpe es \<longleftrightarrow> (\<forall>k < length es. ep_id (es ! k) = int k \<and>
     map rank_id (device_infos (es ! k)) = map (\<lambda>j. dec (k * dpe + j)) [0..<dpe])"

text \<open>A pod of a cold start: no rank table, several endpoints, a device for each rank and a management port for each endpoint.\<close>

definition cold_pod :: "nat \<Rightarrow> register_msg \<Rightarrow> bool" where
  "cold_pod dpe msg \<longleftrightarrow>
     rm_ranktable msg = None \<and> rm_enable_multi_endpoints msg \<and> local_world_size (rm_parallel_config msg) = int dpe \<and>
     int (length (rm_business_port msg) * dpe) \<le> rm_device_num msg \<and> length (rm_business_port msg) \<le> length (rm_mgmt_port msg) \<and>
     (case rm_bootstrap_port msg of None \<Rightarrow> True | Some p \<Rightarrow> 1 \<le> p \<and> p \<le> 65535)"

lemma ranks_of_slot:
  assumes "rm_ranktable msg = None" and "int ((i + 1) * dpe) \<le> rm_device_num msg"
  shows "\<exists>devs. build_device_infos msg (int dpe * int i) (int dpe) (int off) = Inr devs \<and>
    map rank_id devs = map (\<lambda>j. dec ((off + i) * dpe + j)) [0..<dpe]"
proof -
  have range: "map (\<lambda>j. int dpe * int i + j) [0..int dpe - 1] = map (\<lambda>j. int (i * dpe + j)) [0..<dpe]"
    by (rule nth_equalityI) (simp_all add: algebra_simps)
  have "filter (\<lambda>d. d < rm_device_num msg) (map (\<lambda>j. int (i * dpe + j)) [0..<dpe]) = map (\<lambda>j. int (i * dpe + j)) [0..<dpe]"
  proof (rule filter_True, clarsimp)
    fix j assume "j < dpe"
    then have "i * dpe + j < (i + 1) * dpe" by simp
    with assms(2) show "int i * int dpe + int j < rm_device_num msg"
      by (metis of_nat_add of_nat_less_iff of_nat_mult order.strict_trans2)
  qed
  moreover have "nat (int off * int dpe + int (i * dpe + j)) = (off + i) * dpe + j" for j
    by (simp add: algebra_simps nat_add_distrib nat_mult_distrib)
  ultimately show ?thesis
    using assms(1) by (simp add: build_device_infos_def range comp_def)
qed

lemma make_endpoint_ok:
  "(case boot of None \<Rightarrow> True | Some p \<Rightarrow> 1 \<le> p \<and> p \<le> 65535) \<Longrightarrow>
   \<exists>e. make_endpoint t n ip bport mport boot None (Some devs) None None False = Inr e \<and> ep_id e = n \<and> device_infos e = devs"
  by (simp add: make_endpoint_def)

lemma multi_loop_numbered:
  assumes "cold_pod dpe msg" and "i + length ports \<le> length (rm_business_port msg)"
    and "\<And>k. k \<in> set (dkeys eps) \<Longrightarrow> k < int i" and "length eps = i"
    and "\<And>k. k < i \<Longrightarrow> ep_id (dvalues eps ! k) = int (off + k) \<and>
      map rank_id (device_infos (dvalues eps ! k)) = map (\<lambda>j. dec ((off + k) * dpe + j)) [0..<dpe]"
  shows "\<exists>eps'. multi_loop clk msg (int off) i ports eps = Inr eps' \<and> length eps' = i + length ports \<and>
    (\<forall>k < i + length ports. ep_id (dvalues eps' ! k) = int (off + k) \<and>
      map rank_id (device_infos (dvalues eps' ! k)) = map (\<lambda>j. dec ((off + k) * dpe + j)) [0..<dpe])"
  using assms
proof (induction ports arbitrary: i eps)
  case (Cons port ports)
  have n: "i < length (rm_business_port msg)" and "i < length (rm_mgmt_port msg)"
    using Cons.prems(1,2) by (simp_all add: cold_pod_def)
  have "(i + 1) * dpe \<le> length (rm_business_port msg) * dpe" using n by (intro mult_right_mono) simp_all
  then have fits: "int ((i + 1) * dpe) \<le> rm_device_num msg" using Cons.prems(1) by (simp add: cold_pod_def del: of_nat_mult)
  have "rm_ranktable msg = None" using Cons.prems(1) by (simp add: cold_pod_def)
  from ranks_of_slot [OF this fits, of off]
  obtain devs where devs: "build_device_infos msg (int dpe * int i) (int dpe) (int off) = Inr devs"
    "map rank_id devs = map (\<lambda>j. dec ((off + i) * dpe + j)) [0..<dpe]" by blast
  obtain e where e: "make_endpoint (clk i) (int off + int i) (rm_pod_ip msg) port (rm_mgmt_port msg ! i) (rm_bootstrap_port msg) None (Some devs) None None False = Inr e"
    "ep_id e = int (off + i)" "device_infos e = devs"
  proof -
    have "case rm_bootstrap_port msg of None \<Rightarrow> True | Some p \<Rightarrow> 1 \<le> p \<and> p \<le> 65535"
      using Cons.prems(1) by (simp only: cold_pod_def)
    from make_endpoint_ok [OF this] show thesis by (metis that of_nat_add)
  qed
  have fresh: "dset (int i) e eps = eps @ [(int i, e)]"
    using Cons.prems(3) by (intro dset_fresh) (force simp: map_of_eq_None_iff)
  have step: "multi_loop clk msg (int off) i (port # ports) eps = multi_loop clk msg (int off) (Suc i) ports (eps @ [(int i, e)])"
  proof -
    have "\<not> int dpe * int i + int dpe > rm_device_num msg" using fits by (simp add: algebra_simps)
    moreover have "local_world_size (rm_parallel_config msg) = int dpe" using Cons.prems(1) by (simp add: cold_pod_def)
    ultimately show ?thesis
      using \<open>i < length (rm_mgmt_port msg)\<close> devs(1) e(1) by (simp add: Let_def index_or_raise_def fresh)
  qed
  have "\<exists>eps'. multi_loop clk msg (int off) (Suc i) ports (eps @ [(int i, e)]) = Inr eps' \<and> length eps' = Suc i + length ports \<and>
    (\<forall>k < Suc i + length ports. ep_id (dvalues eps' ! k) = int (off + k) \<and>
      map rank_id (device_infos (dvalues eps' ! k)) = map (\<lambda>j. dec ((off + k) * dpe + j)) [0..<dpe])"
  proof (rule Cons.IH [OF Cons.prems(1)])
    show "ep_id (dvalues (eps @ [(int i, e)]) ! k) = int (off + k) \<and>
        map rank_id (device_infos (dvalues (eps @ [(int i, e)]) ! k)) = map (\<lambda>j. dec ((off + k) * dpe + j)) [0..<dpe]" if "k < Suc i" for k
      using that Cons.prems(4,5) e(2,3) devs(2) by (cases "k = i") (simp_all add: nth_append)
  next
    show "k < int (Suc i)" if "k \<in> set (dkeys (eps @ [(int i, e)]))" for k
      using that Cons.prems(3) [of k] by force
  qed (use Cons.prems(2,4) in simp_all)
  then show ?case unfolding step by simp
qed simp

lemma build_multi_numbered:
  assumes "cold_pod dpe msg"
  shows "\<exists>eps. build_multi_endpoints clk msg (int off) = Inr eps \<and> length eps = length (rm_business_port msg) \<and>
    (\<forall>k < length eps. ep_id (dvalues eps ! k) = int (off + k) \<and>
      map rank_id (device_infos (dvalues eps ! k)) = map (\<lambda>j. dec ((off + k) * dpe + j)) [0..<dpe])"
proof -
  have "\<not> int (length (rm_business_port msg)) * local_world_size (rm_parallel_config msg) > rm_device_num msg"
    using assms by (simp add: cold_pod_def)
  then have "build_multi_endpoints clk msg (int off) = multi_loop clk msg (int off) 0 (rm_business_port msg) []"
    by (simp add: build_multi_endpoints_def Let_def)
  then show ?thesis
    using multi_loop_numbered [OF assms, of 0 "rm_business_port msg" "[]" off clk] by auto
qed

text \<open>The state of a job during its cold start: the pods registered so far and their endpoints.\<close>

definition cold_state :: "nat \<Rightarrow> iref \<Rightarrow> string \<Rightarrow> string list \<Rightarrow> nat \<Rightarrow> assembler \<Rightarrow> bool" where
  "cold_state dpe r job pods n a \<longleftrightarrow>
     r \<notin> set (dvalues (instances (manager a))) \<and> \<not> has_active_instance_by_job_name job (manager a) \<and>
     (\<exists>md. dget (asm_instances a) job = Some md \<and> md_instance md = r \<and> \<not> is_reregister md) \<and>
     map nm_pod_ip (node_managers (ctrl_heap (manager a) r)) = pods \<and>
     dkeys (endpoints (ctrl_heap (manager a) r)) = pods \<and>
     numbered dpe (endpoint_objs (ctrl_heap (manager a) r)) \<and> get_endpoints_num (ctrl_heap (manager a) r) = n"

lemma endpoint_objs_append:
  "endpoints i' = endpoints i @ [(pod, eps)] \<Longrightarrow> endpoint_objs i' = endpoint_objs i @ dvalues eps"
  by (simp add: endpoint_objs_def iter_endpoints_def comp_def case_prod_unfold)

lemma get_endpoints_num_objs: "get_endpoints_num i = length (endpoint_objs i)"
  by (simp add: get_endpoints_num_iter endpoint_objs_def)

lemma numbered_append:
  assumes "numbered dpe es" and "\<forall>k < length es'. ep_id (es' ! k) = int (length es + k) \<and>
      map rank_id (device_infos (es' ! k)) = map (\<lambda>j. dec ((length es + k) * dpe + j)) [0..<dpe]"
  shows "numbered dpe (es @ es')"
  unfolding numbered_def
proof (intro allI impI)
  fix k assume "k < length (es @ es')"
  then consider "k < length es" | m where "m < length es'" "k = length es + m"
    by (metis add_diff_inverse_nat length_append nat_add_left_cancel_less)
  then show "ep_id ((es @ es') ! k) = int k \<and> map rank_id (device_infos ((es @ es') ! k)) = map (\<lambda>j. dec (k * dpe + j)) [0..<dpe]"
  proof cases
    case 1
    with assms(1) show ?thesis by (simp add: numbered_def nth_append)
  next
    case 2
    with assms(2) show ?thesis by (simp add: nth_append)
  qed
qed

lemma has_active_unmanaged:
  "r \<notin> set (dvalues (instances c)) \<Longrightarrow> has_active_instance_by_job_name job (set_instance r i c) = has_active_instance_by_job_name job c"
  by (force simp: has_active_instance_by_job_name_def list_ex_iff)

lemma cold_register:
  assumes cold: "cold_pod dpe msg" and fresh: "rm_pod_ip msg \<notin> set pods"
    and a1: "register_job \<epsilon> r' msg a = Some a1" and st: "cold_state dpe r (rm_job_name msg) pods n a1"
  shows "cold_state dpe r (rm_job_name msg) (pods @ [rm_pod_ip msg]) (n + length (rm_business_port msg)) (fst (register dg \<epsilon> r' msg a)) \<and>
    snd (register dg \<epsilon> r' msg a) = Inr 0"
proof -
  from st obtain md where md: "dget (asm_instances a1) (rm_job_name msg) = Some md" "md_instance md = r" "\<not> is_reregister md"
    by (auto simp: cold_state_def)
  let ?i = "ctrl_heap (manager a1) r" let ?md = "record_master msg ?i md"
  let ?i1 = "add_node_mgr (Some (rm_pod_ip msg)) (Some (rm_nm_port msg)) (rm_device_num msg) ?i"
  have i: "map nm_pod_ip (node_managers ?i) = pods" "dkeys (endpoints ?i) = pods" "numbered dpe (endpoint_objs ?i)"
    "length (endpoint_objs ?i) = n"
    using st by (simp_all add: cold_state_def get_endpoints_num_objs)
  have "rm_pod_ip msg \<notin> nm_pod_ip ` set (node_managers ?i)" using fresh i(1) by (metis set_map)
  then have new: "\<not> has_node_mgr (Some (rm_pod_ip msg)) ?i"
    and i1: "node_managers ?i1 = node_managers ?i @ [\<lparr>nm_pod_ip = rm_pod_ip msg, nm_port = rm_nm_port msg, device_num = rm_device_num msg\<rparr>]"
      "endpoints ?i1 = endpoints ?i"
    by (force simp: has_node_mgr_def list_ex_iff add_node_mgr_def Let_def)+
  have objs: "endpoint_objs ?i1 = endpoint_objs ?i" "get_endpoints_num ?i1 = n"
    using i1(2) i(4) by (simp_all add: endpoint_objs_def iter_endpoints_def get_endpoints_num_iter)
  obtain eps where eps: "build_multi_endpoints (ep_time \<epsilon>) msg (int n) = Inr eps" "length eps = length (rm_business_port msg)"
    "\<forall>k < length eps. ep_id (dvalues eps ! k) = int (n + k) \<and>
      map rank_id (device_infos (dvalues eps ! k)) = map (\<lambda>j. dec ((n + k) * dpe + j)) [0..<dpe]"
    using build_multi_numbered [OF cold] by blast
  let ?md2 = "?md\<lparr>md_ranktable := merge_ranktable (rm_ranktable msg) (md_ranktable ?md)\<rparr>"
  let ?i2 = "add_endpoints (rm_pod_ip msg) (Some eps) ?i1"
  have build: "build_endpoints (ep_time \<epsilon>) msg ?i1 ?md = Inr (eps, ?md2)"
    using cold eps(1) by (simp add: build_endpoints_def objs cold_pod_def Let_def)
  have reg: "register dg \<epsilon> r' msg a =
      (persist_if True dg (persist_time \<epsilon>) (set_metadata (rm_job_name msg) ?md2 (put_instance r ?i2 a1)), Inr 0)"
    using a1 md new build by (simp add: register_def Let_def)
  have ends: "endpoints ?i2 = endpoints ?i @ [(rm_pod_ip msg, eps)]"
    using fresh i(2) i1(2) by (simp add: add_endpoints_def dset_fresh map_of_eq_None_iff flip: set_map)
  have nodes: "node_managers ?i2 = node_managers ?i1" by (simp add: add_endpoints_def)
  have "numbered dpe (endpoint_objs ?i2)"
    unfolding endpoint_objs_append [OF ends] using i(3,4) eps(3) by (intro numbered_append) simp_all
  moreover have "\<not> is_reregister ?md" "md_instance ?md = r" using md by (simp_all add: record_master_def split: option.splits)
  ultimately show ?thesis
    unfolding reg using i eps(2)
    using st [unfolded cold_state_def, THEN conjunct1] st [unfolded cold_state_def, THEN conjunct2, THEN conjunct1]
    by (simp add: cold_state_def nodes ends i1(1) get_endpoints_num_objs endpoint_objs_append [OF ends] has_active_unmanaged)
qed

lemma cold_first:
  assumes "eval_register_status (rm_job_name msg) a = NOT_REGISTERED" and "fresh_ref r a"
  shows "\<exists>a1. register_job \<epsilon> r msg a = Some a1 \<and> cold_state dpe r (rm_job_name msg) [] 0 a1"
proof -
  have "\<not> has_active_instance_by_job_name (rm_job_name msg) (manager a)"
    using assms(1) by (simp add: eval_register_status_def split: if_splits)
  moreover have "r \<notin> set (dvalues (instances (manager a)))" using assms(2) by (simp add: fresh_ref_def)
  ultimately show ?thesis
    using assms(1)
    by (simp add: register_job_def Let_def cold_state_def has_active_unmanaged numbered_def endpoint_objs_def get_endpoints_num_def)
qed

lemma cold_next:
  assumes "cold_state dpe r (rm_job_name msg) pods n a"
  shows "\<exists>a1. register_job \<epsilon> r' msg a = Some a1 \<and> cold_state dpe r (rm_job_name msg) pods n a1"
  using assms by (auto simp: cold_state_def register_job_def eval_register_status_def Let_def)

lemma cold_start_run:
  assumes "cold_state dpe r job pods n a" and "list_all (\<lambda>(\<epsilon>, msg). cold_pod dpe msg \<and> rm_job_name msg = job) ms"
    and "distinct (pods @ map (\<lambda>(\<epsilon>, msg). rm_pod_ip msg) ms)"
  shows "cold_state dpe r job (pods @ map (\<lambda>(\<epsilon>, msg). rm_pod_ip msg) ms)
    (n + sum_list (map (\<lambda>(\<epsilon>, msg). length (rm_business_port msg)) ms)) (fold (\<lambda>(\<epsilon>, msg) a. fst (register dg \<epsilon> r msg a)) ms a)"
  using assms
proof (induction ms arbitrary: pods n a)
  case (Cons m ms)
  obtain \<epsilon> msg where m: "m = (\<epsilon>, msg)" by (cases m)
  have msg: "cold_pod dpe msg" "rm_job_name msg = job" "rm_pod_ip msg \<notin> set pods" using Cons.prems(2,3) by (simp_all add: m)
  obtain a1 where a1: "register_job \<epsilon> r msg a = Some a1" "cold_state dpe r (rm_job_name msg) pods n a1"
    using cold_next Cons.prems(1) msg(2) by blast
  have "cold_state dpe r job (pods @ [rm_pod_ip msg]) (n + length (rm_business_port msg)) (fst (register dg \<epsilon> r msg a))"
    using cold_register [OF msg(1,3) a1, of dg] msg(2) by simp
  from Cons.IH [OF this] Cons.prems(2,3) show ?case by (simp add: m ac_simps)
qed simp


lemma demo_cold: "cold_pod 1 (demo_reg job pod dp)"
  by (simp add: cold_pod_def demo_reg_def demo_pc_def make_parallel_config_def arg_or_def)


section \<open>Where the numbering, the readiness test and the ids fail\<close>

lemma demo_meta:
  "register_timestamp (new_metadata r t b n) = t" "md_nnodes (new_metadata r t b n) = n" "al_now (demo_loop_env t) = t"
  "al_timeout (demo_loop_env t) = 600"
  by (simp_all add: new_metadata_def demo_loop_env_def)

text \<open>
  The id offset of a pod is the number of endpoints present. After the visit that drops an unreachable pod it is smaller than the ids
  already given: the pod that replaces it gets the id of an endpoint of a surviving pod.
\<close>

theorem replacement_duplicates_endpoint_id:
  "map (\<lambda>e. (ep_ip e, ep_id e)) (endpoint_objs (ctrl_heap (manager
     (fst (register demo_asm_digest demo_asm_env 0 (demo_reg ''j'' ''c'' 3)
       (assemble_visit demo_asm_digest (demo_loop_env 1) ''j''
         (fst (register demo_asm_digest demo_asm_env 0 (demo_reg ''j'' ''b'' 3)
           (fst (register demo_asm_digest demo_asm_env 0 (demo_reg ''j'' ''dead'' 3) demo_asm)))))))) 0)) =
   [(''b'', 1), (''c'', 1)]"
proof -
  let ?md = "new_metadata 0 0 False 1"
  let ?a = "demo_asm\<lparr>ins_id_cnt := 2, asm_instances := [(''j'', ?md)], manager := set_instance 0
    (demo_instance_of 1 ''j'' 3 [demo_node ''dead'', demo_node ''b''] [(''dead'', [(0, demo_pod ''dead'' 0)]), (''b'', [(0, demo_pod ''b'' 1)])] 2) demo_ctrl\<rparr>"
  let ?b = "demo_asm\<lparr>ins_id_cnt := 2, asm_instances := [(''j'', ?md)], manager := set_instance 0
    (demo_instance_of 1 ''j'' 3 [demo_node ''b''] [(''b'', [(0, demo_pod ''b'' 1)])] 3) demo_ctrl\<rparr>"
  have two: "fst (register demo_asm_digest demo_asm_env 0 (demo_reg ''j'' ''b'' 3)
      (fst (register demo_asm_digest demo_asm_env 0 (demo_reg ''j'' ''dead'' 3) demo_asm))) = ?a"
    unfolding demo_first using demo_ctrl_empty by (simp add: asm_eval demo_instance_of_def demo_node_def demo_pod_def dmem_def)
  have md: "dget (asm_instances ?a) ''j'' = Some ?md" "register_status ?md \<noteq> ASSEMBLED" by simp_all
  have rem: "remaining (demo_loop_env 1) ?md ?a = demo_instance_of 1 ''j'' 3 [demo_node ''b''] [(''b'', [(0, demo_pod ''b'' 1)])] 3"
    by (simp add: remaining_def filter_abnormal_endpoints_def demo_loop_env_def del_node_mgr_def del_endpoints_def dmem_def)
      (simp add: demo_instance_of_def)
  have "\<not> ready_to_start 1 (demo_instance_of 1 ''j'' 3 [demo_node ''b''] [(''b'', [(0, demo_pod ''b'' 1)])] 3)"
    by (simp add: ready_to_start_def is_endpoints_enough_def get_endpoints_num_def demo_pc_def make_parallel_config_def arg_or_def)
  then have visit: "assemble_visit demo_asm_digest (demo_loop_env 1) ''j'' ?a = ?b"
    unfolding assemble_visit_eq [OF md] kept_waiting_def rem
    by (simp add: set_metadata_def put_instance_def set_instance_def drop_stale_master_def demo_meta)
  show ?thesis
    unfolding two visit using demo_ctrl_empty
    by (simp add: asm_eval demo_instance_of_def demo_node_def demo_pod_def dmem_def endpoint_objs_def iter_endpoints_def)
qed

text \<open>
  The readiness test of an instance that spans nodes and has one endpoint per pod compares with the number of nodes that
  the first node manager implies; without node managers that number is 0. An instance whose pods have all become unreachable is
  therefore handed over, with no node manager left.
\<close>

theorem unreachable_instance_handed_over:
  assumes md: "dget (asm_instances a) job = Some md" "register_status md \<noteq> ASSEMBLED"
    and nms: "distinct (map (\<lambda>nm. (nm_pod_ip nm, nm_port nm)) (node_managers (instance_of a md)))"
    and "\<And>nm. \<not> al_alive \<epsilon> nm" and "md_nnodes md > 1" and "\<not> enable_multi_endpoints (instance_of a md)"
    and "\<not> dmem (ins_id (instance_of a md)) (instances (manager a))"
  shows "dget (instances (manager (assemble_visit dg \<epsilon> job a))) (ins_id (instance_of a md)) = Some (md_instance md) \<and>
    node_managers (ctrl_heap (manager (assemble_visit dg \<epsilon> job a)) (md_instance md)) = []"
proof -
  let ?i = "filter_abnormal_endpoints (al_alive \<epsilon>) (instance_of a md)"
  have "node_managers ?i = []" using filter_nodes [OF nms, of "al_alive \<epsilon>"] assms(4) by simp
  moreover have "\<not> enable_multi_endpoints ?i"
    using same_identity_filter [of "al_alive \<epsilon>" "instance_of a md"] assms(6) by (simp add: same_identity_def)
  ultimately have "ready_to_start (md_nnodes md) ?i"
    using assms(5) by (simp add: ready_to_start_def get_expected_endpoint_count_def get_node_managers_num_def split: option.splits)
  with assemble_outcome [OF md nms refl refl, where dg = dg] assms(4,7) show ?thesis by simp
qed

text \<open>
  A registration that raises (for instance for want of a management port) has already recorded the node manager. Its repetition is
  answered with success, and the pod never gets endpoints.
\<close>

theorem failed_registration_masked:
  assumes "snd (register dg \<epsilon> r msg a) = Inl x" and b: "b = fst (register dg \<epsilon> r msg a)"
  shows "snd (register dg \<epsilon>' r' msg b) = Inr 0 \<and>
    (\<exists>md md'. dget (asm_instances b) (rm_job_name msg) = Some md \<and>
       dget (asm_instances (fst (register dg \<epsilon>' r' msg b))) (rm_job_name msg) = Some md' \<and> md_instance md' = md_instance md \<and>
       instance_of (fst (register dg \<epsilon>' r' msg b)) md' = instance_of b md)"
proof -
  obtain a1 where a1: "register_job \<epsilon> r msg a = Some a1" using assms(1) by (cases "register_job \<epsilon> r msg a") (simp_all add: register_def)
  obtain md where md: "dget (asm_instances a1) (rm_job_name msg) = Some md" "\<not> is_reregister md"
    using a1 eval_status_cases(1) [of "rm_job_name msg" a]
    by (auto simp: register_job_def Let_def dmem_def split: register_status.splits if_splits)
  let ?i = "instance_of a1 md"
  let ?i1 = "add_node_mgr (Some (rm_pod_ip msg)) (Some (rm_nm_port msg)) (rm_device_num msg) ?i"
  let ?md = "record_master msg ?i md"
  have b': "b = set_metadata (rm_job_name msg) ?md (put_instance (md_instance md) ?i1 a1)"
    using assms a1 md(1) by (auto simp: register_def Let_def split: if_splits sum.splits)
  have known: "has_node_mgr (Some (rm_pod_ip msg)) ?i1"
    by (auto simp: has_node_mgr_def list_ex_iff add_node_mgr_def Let_def intro: bexI [rotated])
  have rereg: "\<not> is_reregister ?md" using md(2) by (simp add: record_master_def split: option.splits)
  have "\<not> has_active_instance_by_job_name (rm_job_name msg) (manager a1)"
    using a1 by (fastforce simp: register_job_def Let_def eval_register_status_def has_active_instance_by_job_name_def list_ex_iff
        split: if_splits)
  then have "\<not> has_active_instance_by_job_name (rm_job_name msg) (manager b)"
    using same_identity_ops(1) [of "Some (rm_pod_ip msg)" "Some (rm_nm_port msg)" "rm_device_num msg" ?i]
    by (auto simp: b' has_active_instance_by_job_name_def list_ex_iff same_identity_def)
  then have job: "register_job \<epsilon>' r' msg b = Some (set_metadata (rm_job_name msg) (?md\<lparr>register_timestamp := reg_time \<epsilon>'\<rparr>) b)"
    using rereg by (simp add: register_job_def eval_register_status_def Let_def b' dmem_def)
  show ?thesis using known unfolding register_def job by (simp add: Let_def b')
qed

text \<open>
  The id of a re-registered instance is not checked against the ids in use. After a restart without persisted state a new job that
  registers first gets id 1; an instance that had id 1 before the restart re-registers with it, is reported complete and leaves the
  assembler, but the manager, which has the id already, ignores it.
\<close>

lemma demo_filter_any:
  "pod \<noteq> ''dead'' \<Longrightarrow> filter_abnormal_endpoints (al_alive (demo_loop_env t)) (demo_instance_of n job dp [demo_node pod] eps v) =
     demo_instance_of n job dp [demo_node pod] eps v"
  by (simp add: filter_abnormal_endpoints_def demo_loop_env_def)

lemma new_metadata_status: "register_status (new_metadata r t b n) \<noteq> ASSEMBLED"
  by simp

definition demo_rereg :: reregister_msg where
  "demo_rereg =
     \<lparr>rr_job_name = ''old'', rr_model_name = ''m'', rr_engine_type = None, rr_dispatch_capabilities = [], rr_instance_id = 1,
      rr_role = ''decode'', rr_pod_ip = ''o'', rr_nm_port = ''3'', rr_parallel_config = demo_pc 1, rr_enable_multi_endpoints = True,
      rr_device_num = 1, rr_endpoints = [demo_pod ''o'' 0], rr_nnodes = 1, rr_node_rank = 0\<rparr>"

theorem reregistered_id_collision:
  "let a = assemble_visit demo_asm_digest (demo_loop_env 1) ''j'' demo_registered;
       b = assemble_visit demo_asm_digest (demo_loop_env 1) ''old'' (fst (reregister demo_asm_digest demo_asm_env 1 demo_rereg a))
   in snd (reregister demo_asm_digest demo_asm_env 1 demo_rereg a) = 0 \<and>
      instances (manager b) = [(1, 0)] \<and> \<not> dmem ''old'' (asm_instances b)"
proof -
  let ?a = "assemble_visit demo_asm_digest (demo_loop_env 1) ''j'' demo_registered"
  let ?b = "fst (reregister demo_asm_digest demo_asm_env 1 demo_rereg ?a)"
  have md: "dget (asm_instances demo_registered) ''j'' = Some (new_metadata 0 0 False 1)" "register_status (new_metadata 0 0 False 1) \<noteq> ASSEMBLED"
    by (simp_all add: demo_registered_fields)
  have ready: "ready_to_start 1 (demo_instance_of n job 1 nms [(pod, [(0, e)])] v)" for n job nms pod e v
    by (simp add: ready_to_start_def is_endpoints_enough_def get_endpoints_num_def demo_pc_def make_parallel_config_def arg_or_def)
  have a: "?a = handed_over (demo_loop_env 1) ''j'' (new_metadata 0 0 False 1) demo_registered"
    unfolding assemble_visit_eq [OF md] by (simp add: remaining_def demo_registered_fields demo_filter ready demo_meta)
  have ha: "instances (manager ?a) = [(1, 0)]" "dget (asm_instances ?a) ''old'' = None" "ins_status (ctrl_heap (manager ?a) 0) = INITIAL"
    unfolding a
    by (simp_all add: handed_over_def marked_assembled_def add_instance_fields complete_def remaining_def demo_registered_fields demo_filter
        demo_meta dmem_def)
  let ?i = "demo_instance_of 1 ''old'' 1 [demo_node ''o''] [(''o'', [(0, demo_pod ''o'' 0)])] 1"
  have "eval_register_status ''old'' ?a = NOT_REGISTERED"
    using ha by (simp add: eval_register_status_def has_active_instance_by_job_name_def dmem_def)
  then have re: "snd (reregister demo_asm_digest demo_asm_env 1 demo_rereg ?a) = 0"
    "dget (asm_instances ?b) ''old'' = Some (new_metadata 1 0 True 1)" "instances (manager ?b) = [(1, 0)]"
    "ctrl_heap (manager ?b) 1 = ?i"
    using ha(1)
    by (simp_all add: reregister_def reregister_job_def demo_rereg_def Let_def demo_asm_env_def add_node_mgr_def add_endpoints_def
        endpoints_by_id_def demo_pod_def demo_node_def demo_instance_of_def make_instance_def)
  have b: "assemble_visit demo_asm_digest (demo_loop_env 1) ''old'' ?b =
      persist_if True demo_asm_digest (al_persist_time (demo_loop_env 1)) (pop_job ''old'' (handed_over (demo_loop_env 1) ''old'' (new_metadata 1 0 True 1) ?b))"
    unfolding assemble_visit_eq [OF re(2) new_metadata_status] remaining_def
    using re by (simp add: demo_filter_any ready demo_meta)
  show ?thesis
    unfolding Let_def b using re
    by (simp add: handed_over_def marked_assembled_def add_instance_fields complete_def remaining_def demo_filter_any dmem_def demo_meta)
qed

end
