(* ===== verification/Lock_Order.thy ===== *)
theory Lock_Order
  imports Motor_Prelude
begin

text \<open>
  The locks that the operations of the \<open>InstanceAssembler\<close> take, in the order of the source. The other
  theories treat an operation as one atomic step; here an operation is the sequence of its lock acquisitions and
  releases (every \<^verbatim>\<open>with\<close> block is one of each), and threads interleave. A lock is a non-reentrant
  \<open>threading.Lock\<close>; the reentrant ones (the configuration lock and that of an instance) are never taken twice by the operations here.
\<close>

section \<open>Threads and locks\<close>

datatype 'l lock_op = Acquire 'l | Release 'l

record 'l lock_sys =
  owner :: "'l \<Rightarrow> nat option"
  programs :: "'l lock_op list list"

inductive lock_step :: "'l lock_sys \<Rightarrow> 'l lock_sys \<Rightarrow> bool" where
  acquire: "k < length (programs s) \<Longrightarrow> programs s ! k = Acquire l # p \<Longrightarrow> owner s l = None \<Longrightarrow>
    lock_step s (s\<lparr>owner := (owner s)(l := Some k), programs := (programs s)[k := p]\<rparr>)"
| release: "k < length (programs s) \<Longrightarrow> programs s ! k = Release l # p \<Longrightarrow> owner s l = Some k \<Longrightarrow>
    lock_step s (s\<lparr>owner := (owner s)(l := None), programs := (programs s)[k := p]\<rparr>)"

inductive_cases lock_stepE: "lock_step s t"

definition start_threads :: "'l lock_op list list \<Rightarrow> 'l lock_sys" where
  "start_threads ps = \<lparr>owner = (\<lambda>_. None), programs = ps\<rparr>"

definition deadlocked :: "'l lock_sys \<Rightarrow> bool" where
  "deadlocked s \<longleftrightarrow> (\<exists>p \<in> set (programs s). p \<noteq> []) \<and> (\<nexists>t. lock_step s t)"

text \<open>Lock operations nested as \<open>with\<close> blocks are.\<close>

definition locked :: "'l \<Rightarrow> 'l lock_op list \<Rightarrow> 'l lock_op list" where
  "locked l body = Acquire l # body @ [Release l]"

section \<open>The operations of the assembler\<close>

text \<open>
  \<open>self.lock\<close>, \<open>metadata.lock\<close> of one job, \<open>InstanceManager.ins_lock\<close>, the lock of the instance object, and the
  assembler's configuration lock, version lock and work condition.
\<close>

datatype asm_lock = ASM_LOCK | METADATA_LOCK | MANAGER_LOCK | INSTANCE_LOCK | CONFIG_LOCK | VERSION_LOCK | WORK_CONDITION

definition persist_locks :: "bool \<Rightarrow> asm_lock lock_op list" where
  "persist_locks persistence =
     locked CONFIG_LOCK [] @ (if persistence then locked ASM_LOCK (locked VERSION_LOCK []) else [])"

text \<open>
  \<open>register\<close> of a pod that is new to an instance: \<open>assembling\<close> when the job is already known, so that its
  time stamp is renewed under both locks, \<open>is_master\<close> when the pod claims to be the snapshot master.
\<close>

definition register_locks :: "bool \<Rightarrow> bool \<Rightarrow> bool \<Rightarrow> asm_lock lock_op list" where
  "register_locks assembling is_master persistence =
     locked ASM_LOCK (locked MANAGER_LOCK [] @ (if assembling then locked METADATA_LOCK [] else [])) @
     locked INSTANCE_LOCK [] @
     (if is_master then locked METADATA_LOCK (locked INSTANCE_LOCK []) else []) @
     locked INSTANCE_LOCK [] @ locked INSTANCE_LOCK [] @ locked INSTANCE_LOCK [] @
     locked WORK_CONDITION [] @ persist_locks persistence"

definition reregister_locks :: "bool \<Rightarrow> bool \<Rightarrow> asm_lock lock_op list" where
  "reregister_locks assembling persistence =
     locked ASM_LOCK (locked MANAGER_LOCK [] @ (if assembling then locked METADATA_LOCK [] else [])) @
     locked INSTANCE_LOCK [] @ locked INSTANCE_LOCK [] @ locked WORK_CONDITION [] @ persist_locks persistence"

text \<open>One visit of the start-command loop to an ASSEMBLED job.\<close>

definition sender_locks :: "bool \<Rightarrow> asm_lock lock_op list" where
  "sender_locks removed =
     locked ASM_LOCK (locked METADATA_LOCK []) @ locked INSTANCE_LOCK [] @ locked INSTANCE_LOCK [] @
     (if removed then locked ASM_LOCK [] else [])"

text \<open>One visit of the assembler loop to a job, by its outcome.\<close>

datatype assemble_outcome = STILL_WAITING | TIMED_OUT | READY_NEW | READY_REREGISTERED

definition assemble_locks :: "bool \<Rightarrow> assemble_outcome \<Rightarrow> bool \<Rightarrow> asm_lock lock_op list" where
  "assemble_locks has_master outcome persistence =
     locked ASM_LOCK (locked METADATA_LOCK []) @
     locked INSTANCE_LOCK [] @
     (if has_master then locked METADATA_LOCK (locked INSTANCE_LOCK []) else []) @
     locked INSTANCE_LOCK [] @
     (case outcome of
        STILL_WAITING \<Rightarrow> locked CONFIG_LOCK [] @ locked METADATA_LOCK [] @ locked CONFIG_LOCK []
      | TIMED_OUT \<Rightarrow> locked CONFIG_LOCK [] @ locked METADATA_LOCK (locked ASM_LOCK []) @ persist_locks persistence
      | READY_NEW \<Rightarrow> locked METADATA_LOCK (locked MANAGER_LOCK (locked INSTANCE_LOCK [])) @
          locked WORK_CONDITION [] @ locked CONFIG_LOCK []
      | READY_REREGISTERED \<Rightarrow>
          locked METADATA_LOCK (locked MANAGER_LOCK (locked INSTANCE_LOCK []) @ locked ASM_LOCK []) @
          locked WORK_CONDITION [] @ persist_locks persistence)"

section \<open>Ordered acquisition\<close>

text \<open>
  A program is ordered if its \<open>with\<close> blocks nest and every lock it acquires ranks above those it holds; \<open>held\<close>
  is the stack of locks held.
\<close>

fun ordered :: "('l \<Rightarrow> nat) \<Rightarrow> 'l list \<Rightarrow> 'l lock_op list \<Rightarrow> bool" where
  "ordered rk held [] = (held = [])"
| "ordered rk held (Acquire l # p) = (list_all (\<lambda>h. rk h < rk l) held \<and> ordered rk (l # held) p)"
| "ordered rk held (Release l # p) = (case held of [] \<Rightarrow> False | h # hs \<Rightarrow> h = l \<and> ordered rk hs p)"

lemma ordered_distinct: "ordered rk held p \<Longrightarrow> list_all (\<lambda>h. rk h < rk l) held \<Longrightarrow> l \<notin> set held"
  by (auto simp: list_all_iff)

definition holds :: "('l \<Rightarrow> nat) \<Rightarrow> (nat \<Rightarrow> 'l list) \<Rightarrow> 'l lock_sys \<Rightarrow> bool" where
  "holds rk H s \<longleftrightarrow>
     (\<forall>k < length (programs s). ordered rk (H k) (programs s ! k) \<and> distinct (H k)) \<and>
     (\<forall>l k. owner s l = Some k \<longleftrightarrow> k < length (programs s) \<and> l \<in> set (H k))"

lemma holds_step:
  assumes "lock_step s t" and "holds rk H s"
  shows "\<exists>H'. holds rk H' t"
  using assms
proof (induction rule: lock_step.induct)
  case (acquire k s l p)
  then have k: "ordered rk (H k) (Acquire l # p)" "distinct (H k)" by (auto simp: holds_def)
  have free: "j < length (programs s) \<Longrightarrow> l \<notin> set (H j)" for j
  proof
    assume "j < length (programs s)" "l \<in> set (H j)"
    then have "owner s l = Some j" using acquire.prems by (auto simp: holds_def)
    with acquire.hyps show False by simp
  qed
  have "holds rk (H(k := l # H k)) (s\<lparr>owner := (owner s)(l := Some k), programs := (programs s)[k := p]\<rparr>)"
    using acquire k free by (auto simp: holds_def nth_list_update)
  then show ?case by blast
next
  case (release k s l p)
  then have k: "ordered rk (H k) (Release l # p)" "distinct (H k)" by (auto simp: holds_def)
  then obtain hs where hs: "H k = l # hs" "ordered rk hs p" "distinct hs" "l \<notin> set hs" by (auto split: list.splits)
  have other: "j < length (programs s) \<Longrightarrow> j \<noteq> k \<Longrightarrow> l \<notin> set (H j)" for j
  proof
    assume "j < length (programs s)" "j \<noteq> k" "l \<in> set (H j)"
    then have "owner s l = Some j" using release by (auto simp: holds_def)
    with release \<open>j \<noteq> k\<close> show False by simp
  qed
  have "holds rk (H(k := hs)) (s\<lparr>owner := (owner s)(l := None), programs := (programs s)[k := p]\<rparr>)"
    using release hs other by (auto simp: holds_def nth_list_update)
  then show ?case by blast
qed

text \<open>In a state whose threads are all ordered, the thread that waits for the highest lock is not blocked.\<close>

lemma holds_not_deadlocked:
  assumes H: "holds rk H s"
  shows "\<not> deadlocked s"
proof
  assume d: "deadlocked s"
  let ?n = "length (programs s)"
  define waits where "waits k l \<longleftrightarrow> k < ?n \<and> (\<exists>p. programs s ! k = Acquire l # p)" for k l
  have unfinished: "\<exists>l. waits k l \<and> owner s l \<noteq> None" if "k < ?n" "programs s ! k \<noteq> []" for k
  proof (cases "programs s ! k")
    case (Cons op p)
    show ?thesis
    proof (cases op)
      case (Acquire l)
      with Cons d that lock_step.acquire [of k s l p] show ?thesis by (auto simp: deadlocked_def waits_def)
    next
      case (Release l)
      have "ordered rk (H k) (Release l # p)" using H that Cons Release by (auto simp: holds_def)
      then have "l \<in> set (H k)" by (auto split: list.splits)
      with H that have "owner s l = Some k" by (auto simp: holds_def)
      with Cons Release d that lock_step.release [of k s l p] show ?thesis by (auto simp: deadlocked_def)
    qed
  qed (use that in simp)
  have next_lock: "\<exists>k' l'. waits k' l' \<and> rk l < rk l'" if w: "waits k l" for k l
  proof -
    from w have "k < ?n" "programs s ! k \<noteq> []" by (auto simp: waits_def)
    with unfinished [of k] w obtain j where j: "owner s l = Some j" by (auto simp: waits_def)
    with H have "j < ?n" "l \<in> set (H j)" "ordered rk (H j) (programs s ! j)" by (auto simp: holds_def)
    moreover from this have "programs s ! j \<noteq> []" by auto
    ultimately show ?thesis using unfinished [of j] by (auto simp: waits_def list_all_iff)
  qed
  have "finite {l. \<exists>k. waits k l}"
  proof (rule finite_subset)
    show "{l. \<exists>k. waits k l} \<subseteq> (\<lambda>k. case programs s ! k of Acquire l # _ \<Rightarrow> l | _ \<Rightarrow> undefined) ` {..<?n}"
      by (force simp: waits_def image_iff)
  qed simp
  moreover obtain i where "i < ?n" "programs s ! i \<noteq> []"
    using d by (auto simp: deadlocked_def in_set_conv_nth)
  moreover from this unfinished obtain k l where "waits k l" by blast
  ultimately obtain l k where "waits k l" "\<And>l' k'. waits k' l' \<Longrightarrow> rk l' \<le> rk l"
    using finite_has_maximal [of "rk ` {l. \<exists>k. waits k l}"] by (force simp: image_iff)
  with next_lock show False by (meson leD)
qed

lemma ordered_threads_never_deadlock:
  assumes "lock_step\<^sup>*\<^sup>* (start_threads ps) s" and "list_all (ordered rk []) ps"
  shows "\<not> deadlocked s"
proof -
  from assms(1) have "\<exists>H. holds rk H s"
  proof (induction rule: rtranclp_induct)
    case base
    have "holds rk (\<lambda>_. []) (start_threads ps)" using assms(2) by (auto simp: holds_def start_threads_def list_all_length)
    then show ?case by blast
  qed (use holds_step in blast)
  with holds_not_deadlocked show ?thesis by blast
qed

section \<open>Running a schedule\<close>

fun step_thread :: "nat \<Rightarrow> 'l lock_sys \<Rightarrow> 'l lock_sys option" where
  "step_thread k s =
     (if k < length (programs s) then
        (case programs s ! k of
           [] \<Rightarrow> None
         | Acquire l # p \<Rightarrow>
             if owner s l = None then Some (s\<lparr>owner := (owner s)(l := Some k), programs := (programs s)[k := p]\<rparr>) else None
         | Release l # p \<Rightarrow>
             if owner s l = Some k then Some (s\<lparr>owner := (owner s)(l := None), programs := (programs s)[k := p]\<rparr>) else None)
      else None)"

fun run_schedule :: "nat list \<Rightarrow> 'l lock_sys \<Rightarrow> 'l lock_sys option" where
  "run_schedule [] s = Some s"
| "run_schedule (k # ks) s = (case step_thread k s of None \<Rightarrow> None | Some t \<Rightarrow> run_schedule ks t)"

lemma step_thread_sound: "step_thread k s = Some t \<Longrightarrow> lock_step s t"
  by (auto split: if_splits list.splits lock_op.splits intro: lock_step.intros)

lemma run_schedule_sound: "run_schedule ks s = Some t \<Longrightarrow> lock_step\<^sup>*\<^sup>* s t"
proof (induction ks arbitrary: s)
  case (Cons k ks)
  then obtain u where "step_thread k s = Some u" "run_schedule ks u = Some t" by (auto split: option.splits)
  then show ?case using Cons.IH step_thread_sound by (meson converse_rtranclp_into_rtranclp)
qed simp

lemma crossed_deadlock:
  assumes "programs s = [Acquire a # p, Acquire b # q]" and "owner s a = Some 1" and "owner s b = Some 0"
  shows "deadlocked s"
  using assms by (auto simp: deadlocked_def less_Suc_eq nth_Cons elim!: lock_stepE split: nat.splits)

section \<open>The lock order of the assembler\<close>

fun asm_rank :: "asm_lock \<Rightarrow> nat" where
  "asm_rank ASM_LOCK = 0"
| "asm_rank METADATA_LOCK = 1"
| "asm_rank MANAGER_LOCK = 2"
| "asm_rank INSTANCE_LOCK = 3"
| "asm_rank CONFIG_LOCK = 1"
| "asm_rank VERSION_LOCK = 1"
| "asm_rank WORK_CONDITION = 0"

lemmas asm_lock_programs =
  locked_def persist_locks_def register_locks_def reregister_locks_def sender_locks_def assemble_locks_def

lemma ordered_operations:
  "ordered asm_rank [] (register_locks b m p)" "ordered asm_rank [] (reregister_locks b p)"
  "ordered asm_rank [] (sender_locks b)" "ordered asm_rank [] (assemble_locks b STILL_WAITING p)"
  "ordered asm_rank [] (assemble_locks b READY_NEW p)"
  by (auto simp: asm_lock_programs)

text \<open>
  The two crossed acquisitions: thread 1 runs its operation up to the point where it holds the metadata lock and wants
  the assembler lock, thread 0 takes the assembler lock and wants the metadata lock.
\<close>

lemma crossed_run:
  assumes "run_schedule (replicate (length pre) 1) (start_threads [own # own2 # own3 # Acquire METADATA_LOCK # q, pre @ Acquire ASM_LOCK # q']) =
      Some \<lparr>owner = (\<lambda>_. None)(METADATA_LOCK := Some 1), programs = [own # own2 # own3 # Acquire METADATA_LOCK # q, Acquire ASM_LOCK # q']\<rparr>"
    and "own = Acquire ASM_LOCK" "own2 = Acquire MANAGER_LOCK" "own3 = Release MANAGER_LOCK"
  shows "\<exists>s. lock_step\<^sup>*\<^sup>* (start_threads [own # own2 # own3 # Acquire METADATA_LOCK # q, pre @ Acquire ASM_LOCK # q']) s \<and> deadlocked s"
proof -
  let ?t = "\<lparr>owner = (\<lambda>_. None)(METADATA_LOCK := Some 1), programs = [own # own2 # own3 # Acquire METADATA_LOCK # q, Acquire ASM_LOCK # q']\<rparr>"
  let ?s = "\<lparr>owner = (\<lambda>_. None)(METADATA_LOCK := Some 1, ASM_LOCK := Some 0), programs = [Acquire METADATA_LOCK # q, Acquire ASM_LOCK # q']\<rparr>"
  have "run_schedule [0, 0, 0] ?t = Some ?s" using assms(2-4) by (auto simp: fun_upd_twist)
  from rtranclp_trans [OF run_schedule_sound [OF assms(1)] run_schedule_sound [OF this]]
  show ?thesis using crossed_deadlock [of ?s] by auto
qed

definition to_metadata :: "bool \<Rightarrow> asm_lock lock_op list" where
  "to_metadata h =
     locked ASM_LOCK (locked METADATA_LOCK []) @ locked INSTANCE_LOCK [] @
     (if h then locked METADATA_LOCK (locked INSTANCE_LOCK []) else []) @ locked INSTANCE_LOCK []"

lemma step_second:
  "run_schedule (Suc 0 # ks) \<lparr>owner = f, programs = [q, Acquire l # p]\<rparr> =
     (if f l = None then run_schedule ks \<lparr>owner = f(l := Some 1), programs = [q, p]\<rparr> else None)"
  "run_schedule (Suc 0 # ks) \<lparr>owner = f, programs = [q, Release l # p]\<rparr> =
     (if f l = Some 1 then run_schedule ks \<lparr>owner = f(l := None), programs = [q, p]\<rparr> else None)"
  by simp_all

lemma free_again: "(\<lambda>_. None)(l := None) = (\<lambda>_. None)" "((\<lambda>_. None)(k := Some n, l := Some m, l := None)) = (\<lambda>_. None)(k := Some n, l := None)"
  by auto

lemma timed_out_alone:
  "run_schedule (replicate (length (to_metadata h @ locked CONFIG_LOCK [] @ [Acquire METADATA_LOCK])) 1)
     (start_threads [q, (to_metadata h @ locked CONFIG_LOCK [] @ [Acquire METADATA_LOCK]) @ q']) =
   Some \<lparr>owner = (\<lambda>_. None)(METADATA_LOCK := Some 1), programs = [q, q']\<rparr>"
  by (cases h)
    (simp_all add: to_metadata_def locked_def start_threads_def step_second free_again fun_upd_twist
      del: run_schedule.simps(2) step_thread.simps)

lemma reregistered_alone:
  "run_schedule (replicate (length (to_metadata h @ Acquire METADATA_LOCK # locked MANAGER_LOCK (locked INSTANCE_LOCK []))) 1)
     (start_threads [q, (to_metadata h @ Acquire METADATA_LOCK # locked MANAGER_LOCK (locked INSTANCE_LOCK [])) @ q']) =
   Some \<lparr>owner = (\<lambda>_. None)(METADATA_LOCK := Some 1), programs = [q, q']\<rparr>"
  by (cases h)
    (simp_all add: to_metadata_def locked_def start_threads_def step_second free_again fun_upd_twist
      del: run_schedule.simps(2) step_thread.simps)

lemma timeout_deadlock:
  "\<exists>s. lock_step\<^sup>*\<^sup>* (start_threads [register_locks True m p, assemble_locks h TIMED_OUT p']) s \<and> deadlocked s"
proof -
  obtain q where q: "register_locks True m p = Acquire ASM_LOCK # Acquire MANAGER_LOCK # Release MANAGER_LOCK # Acquire METADATA_LOCK # q"
    by (simp add: register_locks_def locked_def)
  obtain q' where q': "assemble_locks h TIMED_OUT p' = (to_metadata h @ locked CONFIG_LOCK [] @ [Acquire METADATA_LOCK]) @ Acquire ASM_LOCK # q'"
    by (simp add: assemble_locks_def to_metadata_def locked_def)
  show ?thesis unfolding q q' by (rule crossed_run [OF timed_out_alone refl refl refl])
qed

lemma reregister_deadlock:
  "\<exists>s. lock_step\<^sup>*\<^sup>* (start_threads [reregister_locks True p, assemble_locks h READY_REREGISTERED p']) s \<and> deadlocked s"
proof -
  obtain q where q: "reregister_locks True p = Acquire ASM_LOCK # Acquire MANAGER_LOCK # Release MANAGER_LOCK # Acquire METADATA_LOCK # q"
    by (simp add: reregister_locks_def locked_def)
  obtain q' where q': "assemble_locks h READY_REREGISTERED p' =
      (to_metadata h @ Acquire METADATA_LOCK # locked MANAGER_LOCK (locked INSTANCE_LOCK [])) @ Acquire ASM_LOCK # q'"
    by (simp add: assemble_locks_def to_metadata_def locked_def)
  show ?thesis unfolding q q' by (rule crossed_run [OF reregistered_alone refl refl refl])
qed

text \<open>
  C36: deadlocks of the assembler. Any number of concurrent registrations, re-registrations, start-command visits
  and assembling visits that keep waiting or hand over a new instance never deadlock. The two other outcomes
  of an assembling visit take the assembler's lock while they hold that of the metadata, against the order of every other operation:
  a visit that finds its job timed out can deadlock with a registration of another pod of the job, and
  a visit that completes a re-registered instance with a re-registration.
\<close>

theorem assembler_lock_order:
  "(set ps \<subseteq> range (\<lambda>(b, m, p). register_locks b m p) \<union> range (\<lambda>(b, p). reregister_locks b p) \<union> range sender_locks \<union>
      range (\<lambda>(h, p). assemble_locks h STILL_WAITING p) \<union> range (\<lambda>(h, p). assemble_locks h READY_NEW p) \<and>
    lock_step\<^sup>*\<^sup>* (start_threads ps) s \<longrightarrow> \<not> deadlocked s) \<and>
   (\<exists>s. lock_step\<^sup>*\<^sup>* (start_threads [register_locks True m p, assemble_locks h TIMED_OUT p']) s \<and> deadlocked s) \<and>
   (\<exists>s. lock_step\<^sup>*\<^sup>* (start_threads [reregister_locks True p, assemble_locks h READY_REREGISTERED p']) s \<and> deadlocked s)"
proof (intro conjI impI)
  assume *: "set ps \<subseteq> range (\<lambda>(b, m, p). register_locks b m p) \<union> range (\<lambda>(b, p). reregister_locks b p) \<union> range sender_locks \<union>
      range (\<lambda>(h, p). assemble_locks h STILL_WAITING p) \<union> range (\<lambda>(h, p). assemble_locks h READY_NEW p) \<and>
    lock_step\<^sup>*\<^sup>* (start_threads ps) s"
  then have "list_all (ordered asm_rank []) ps" by (fastforce simp: list_all_iff ordered_operations)
  with * ordered_threads_never_deadlock show "\<not> deadlocked s" by blast
qed (rule timeout_deadlock reregister_deadlock)+

theorem assembler_lock_order_witness:
  "\<not> deadlocked (start_threads [register_locks True True True, sender_locks True, assemble_locks True READY_NEW True])"
proof -
  have "register_locks True True True \<in> range (\<lambda>(b, m, p). register_locks b m p)"
    "assemble_locks True READY_NEW True \<in> range (\<lambda>(h, p). assemble_locks h READY_NEW p)"
    by (auto intro: range_eqI [of _ _ "(True, True, True)"] range_eqI [of _ _ "(True, True)"])
  then have "set [register_locks True True True, sender_locks True, assemble_locks True READY_NEW True] \<subseteq>
      range (\<lambda>(b, m, p). register_locks b m p) \<union> range (\<lambda>(b, p). reregister_locks b p) \<union> range sender_locks \<union>
      range (\<lambda>(h, p). assemble_locks h STILL_WAITING p) \<union> range (\<lambda>(h, p). assemble_locks h READY_NEW p)"
    by auto
  then show ?thesis
    using assembler_lock_order [of "[register_locks True True True, sender_locks True, assemble_locks True READY_NEW True]"] by blast
qed

end
