(* ===== verification/Agent_Hint.thy ===== *)
theory Agent_Hint
  imports Config_Resolver
begin

text \<open>
  \<^verbatim>\<open>coordinator/domain/agent_hint.py\<close>: the \<open>agent_hint\<close> block of a request (session ids, cache control,
  context edits), parsed fail-open from untrusted JSON. A field validator of pydantic runs on a field that is
  present; its exception makes the construction fail. The lax integer conversion of pydantic, used for the two design-only hints, is the parameter
  \<open>lax_int\<close>. Non-finite floats are not JSON values here. Warnings are not modelled.
\<close>

section \<open>Data\<close>

record cache_control =
  cc_type :: string
  cc_ttl :: int
  cc_msg_offset :: "int option"
  cc_block_offset :: "int option"
  cc_intra_block_offset :: "int option"
  cc_token_offset :: "int option"

record context_edit =
  ce_type :: string
  ce_start :: "int option"
  ce_end :: "int option"
  ce_target :: string
  ce_block_start :: "int option"
  ce_block_intra_start :: "int option"
  ce_start_token :: "int option"
  ce_block_end :: "int option"
  ce_block_intra_end :: "int option"
  ce_end_token :: "int option"

record context_management =
  cm_manage_request :: bool
  cm_edits :: "context_edit list"

record agent_hint_info =
  ah_session_id :: "string option"
  ah_parent_session_id :: "string option"
  ah_cache_control :: "cache_control option"
  ah_context_management :: "context_management option"
  ah_latency_sensitivity :: "int option option"
  ah_priority :: "int option option"
  ah_raw_extra :: "(string, json) dict"

definition AGENT_HINT_KNOWN_FIELDS :: "string list" where
  "AGENT_HINT_KNOWN_FIELDS =
     [''session_id'', ''parent_session_id'', ''cache_control'', ''context_management'', ''latency_control'', ''priority_control'']"

definition CACHE_TYPE_ALLOWED :: string where "CACHE_TYPE_ALLOWED = ''ephemeral''"
definition CACHE_TTL_DEFAULT :: int where "CACHE_TTL_DEFAULT = 300"
definition CACHE_TTL_MIN :: int where "CACHE_TTL_MIN = 60"
definition CACHE_TTL_MAX :: int where "CACHE_TTL_MAX = 3600"
definition EDIT_TYPES_ALLOWED :: "string list" where "EDIT_TYPES_ALLOWED = [''offload'', ''prefetch'', ''evict'']"
definition EDIT_TARGETS_ALLOWED :: "string list" where "EDIT_TARGETS_ALLOWED = [''session'', ''messages'', ''tools'']"
definition EDIT_TARGET_DEFAULT :: string where "EDIT_TARGET_DEFAULT = ''session''"

definition CACHE_SERVER_ONLY_FIELDS :: "string list" where
  "CACHE_SERVER_ONLY_FIELDS = [''block_offset'', ''intra_block_offset'', ''token_offset'']"

definition EDIT_SERVER_ONLY_FIELDS :: "string list" where
  "EDIT_SERVER_ONLY_FIELDS =
     [''block_start'', ''block_intra_start'', ''start_token'', ''block_end'', ''block_intra_end'', ''end_token'']"

section \<open>Python conversions\<close>

text \<open>\<open>int(value)\<close>: a float is truncated towards zero.\<close>

fun py_int :: "json \<Rightarrow> py_exn + int" where
  "py_int (JInt n) = Inr n"
| "py_int (JBool b) = Inr (of_bool b)"
| "py_int (JFloat q) = Inr (if q \<ge> 0 then \<lfloor>q\<rfloor> else \<lceil>q\<rceil>)"
| "py_int (JStr s) = (case parse_int s of None \<Rightarrow> Inl ValueError | Some n \<Rightarrow> Inr n)"
| "py_int _ = Inl TypeError"

definition list_len :: "json \<Rightarrow> nat option" where
  "list_len j = (case j of JList xs \<Rightarrow> Some (length xs) | _ \<Rightarrow> None)"

text \<open>Iterating over a value: a list, the keys of a dictionary or the characters of a string.\<close>

fun py_iter :: "json \<Rightarrow> py_exn + json list" where
  "py_iter (JList xs) = Inr xs"
| "py_iter (JObj kvs) = Inr (map (\<lambda>kv. JStr (fst kv)) kvs)"
| "py_iter (JStr s) = Inr (map (\<lambda>c. JStr [c]) s)"
| "py_iter _ = Inl TypeError"

section \<open>Field validators\<close>

text \<open>No value other than a string prints as one of the allowed words.\<close>

definition validate_cache_type :: "json \<Rightarrow> py_exn + string" where
  "validate_cache_type v =
     (case v of
        JNull \<Rightarrow> Inr CACHE_TYPE_ALLOWED
      | JStr s \<Rightarrow> if s = '''' then Inr CACHE_TYPE_ALLOWED else if s \<noteq> CACHE_TYPE_ALLOWED then Inl ValueError else Inr s
      | _ \<Rightarrow> Inl ValueError)"

definition validate_ttl :: "json \<Rightarrow> int" where
  "validate_ttl v =
     (case py_int v of
        Inl _ \<Rightarrow> CACHE_TTL_DEFAULT
      | Inr n \<Rightarrow> if n < CACHE_TTL_MIN \<or> n > CACHE_TTL_MAX then max CACHE_TTL_MIN (min CACHE_TTL_MAX n) else n)"

text \<open>The validators of \<open>msg_offset\<close>, \<open>start\<close> and \<open>end\<close>.\<close>

definition validate_index :: "json \<Rightarrow> int option" where
  "validate_index v = (if v = JNull then None else (case py_int v of Inl _ \<Rightarrow> None | Inr n \<Rightarrow> Some n))"

definition validate_edit_type :: "json \<Rightarrow> py_exn + string" where
  "validate_edit_type v = (case v of JStr s \<Rightarrow> if s \<in> set EDIT_TYPES_ALLOWED then Inr s else Inl ValueError | _ \<Rightarrow> Inl ValueError)"

definition validate_target :: "json \<Rightarrow> string" where
  "validate_target v = (case v of JStr s \<Rightarrow> if s \<in> set EDIT_TARGETS_ALLOWED then s else EDIT_TARGET_DEFAULT | _ \<Rightarrow> EDIT_TARGET_DEFAULT)"

definition parse_manage_request :: "json \<Rightarrow> bool" where
  "parse_manage_request v =
     (case v of
        JBool b \<Rightarrow> b
      | JInt n \<Rightarrow> n = 1
      | JStr s \<Rightarrow> lower s = ''true''
      | _ \<Rightarrow> False)"

section \<open>Cache control\<close>

definition make_cache_control :: "(string, json) dict \<Rightarrow> py_exn + cache_control" where
  "make_cache_control data =
     bind_result (case dget data ''type'' of None \<Rightarrow> Inr CACHE_TYPE_ALLOWED | Some v \<Rightarrow> validate_cache_type v) (\<lambda>ty.
       Inr \<lparr>cc_type = ty,
            cc_ttl = (case dget data ''ttl'' of None \<Rightarrow> CACHE_TTL_DEFAULT | Some v \<Rightarrow> validate_ttl v),
            cc_msg_offset = (case dget data ''msg_offset'' of None \<Rightarrow> None | Some v \<Rightarrow> validate_index v),
            cc_block_offset = None, cc_intra_block_offset = None, cc_token_offset = None\<rparr>)"

text \<open>
  \<open>_parse_cache_control\<close>. The server-only fields of the client are removed before construction, which is why
  \<open>make_cache_control\<close> does not read them.
\<close>

definition parse_cache_control :: "json \<Rightarrow> json \<Rightarrow> cache_control option" where
  "parse_cache_control data messages =
     (case data of
        JObj kvs \<Rightarrow>
          (case make_cache_control (filter (\<lambda>kv. fst kv \<notin> set CACHE_SERVER_ONLY_FIELDS) kvs) of
             Inl _ \<Rightarrow> None
           | Inr cc \<Rightarrow>
               (case (cc_msg_offset cc, list_len messages) of
                  (None, Some n) \<Rightarrow> Some (if n > 0 then cc\<lparr>cc_msg_offset := Some (int n)\<rparr> else cc)
                | (None, None) \<Rightarrow> Some cc
                | (Some off, n) \<Rightarrow>
                    if off < 1 then None
                    else if (case n of None \<Rightarrow> False | Some m \<Rightarrow> off > int m) then None
                    else Some cc))
      | _ \<Rightarrow> None)"

section \<open>Context edits\<close>

definition make_context_edit :: "(string, json) dict \<Rightarrow> py_exn + context_edit" where
  "make_context_edit entry =
     bind_result (case dget entry ''type'' of None \<Rightarrow> Inl (ValidationError ''type'') | Some v \<Rightarrow> validate_edit_type v) (\<lambda>ty.
       Inr \<lparr>ce_type = ty,
            ce_start = (case dget entry ''start'' of None \<Rightarrow> None | Some v \<Rightarrow> validate_index v),
            ce_end = (case dget entry ''end'' of None \<Rightarrow> None | Some v \<Rightarrow> validate_index v),
            ce_target = (case dget entry ''target'' of None \<Rightarrow> EDIT_TARGET_DEFAULT | Some v \<Rightarrow> validate_target v),
            ce_block_start = None, ce_block_intra_start = None, ce_start_token = None,
            ce_block_end = None, ce_block_intra_end = None, ce_end_token = None\<rparr>)"

definition index_bound :: "context_edit \<Rightarrow> json \<Rightarrow> json \<Rightarrow> nat option" where
  "index_bound e messages tools =
     (if ce_target e = ''tools'' \<and> list_len tools \<noteq> None then list_len tools else list_len messages)"

definition validate_edit_indices :: "context_edit \<Rightarrow> json \<Rightarrow> json \<Rightarrow> bool" where
  "validate_edit_indices e messages tools =
     (let bad = (\<lambda>x. case x of None \<Rightarrow> False | Some k \<Rightarrow> k < 0 \<or>
                   (case index_bound e messages tools of None \<Rightarrow> False | Some b \<Rightarrow> k > int b))
      in \<not> (bad (ce_start e) \<or> bad (ce_end e) \<or>
            (case (ce_start e, ce_end e) of (Some s, Some t) \<Rightarrow> s \<ge> t | _ \<Rightarrow> False)))"

fun parse_edits :: "json list \<Rightarrow> json \<Rightarrow> json \<Rightarrow> context_edit list" where
  "parse_edits [] messages tools = []"
| "parse_edits (entry # rest) messages tools =
     (case entry of
        JObj kvs \<Rightarrow>
          if list_ex (\<lambda>kv. fst kv \<in> set EDIT_SERVER_ONLY_FIELDS) kvs then parse_edits rest messages tools
          else (case make_context_edit kvs of
                  Inl _ \<Rightarrow> parse_edits rest messages tools
                | Inr e \<Rightarrow>
                    if \<not> validate_edit_indices e messages tools then parse_edits rest messages tools
                    else e # parse_edits rest messages tools)
      | _ \<Rightarrow> parse_edits rest messages tools)"

definition parse_context_management :: "json \<Rightarrow> json \<Rightarrow> json \<Rightarrow> context_management option" where
  "parse_context_management data messages tools =
     (case data of
        JObj kvs \<Rightarrow>
          (let manage = parse_manage_request (case dget kvs ''manage_request'' of None \<Rightarrow> JBool False | Some v \<Rightarrow> v)
           in case py_iter (py_or (case dget kvs ''edits'' of None \<Rightarrow> JNull | Some v \<Rightarrow> v) (JList [])) of
                Inl _ \<Rightarrow> None
              | Inr entries \<Rightarrow>
                  (let edits = parse_edits entries messages tools
                   in if edits = [] then None else Some \<lparr>cm_manage_request = manage, cm_edits = edits\<rparr>))
      | _ \<Rightarrow> None)"

section \<open>Session ids\<close>

definition is_valid_session_id :: "json \<Rightarrow> bool" where
  "is_valid_session_id v = (case v of JStr s \<Rightarrow> s \<noteq> '''' | _ \<Rightarrow> False)"

fun session_str :: "json \<Rightarrow> string" where
  "session_str (JStr s) = s"
| "session_str _ = ''''"

definition resolve_session_ids ::
  "(string, json) dict \<Rightarrow> (string, string) dict option \<Rightarrow> string option \<times> string option" where
  "resolve_session_ids hint headers =
     (let body = (\<lambda>k. case dget hint k of None \<Rightarrow> JNull | Some v \<Rightarrow> v);
          header = (\<lambda>k. case headers of
                      None \<Rightarrow> None
                    | Some h \<Rightarrow> if h = [] then None else Some (case dget h k of None \<Rightarrow> JNull | Some s \<Rightarrow> JStr s));
          pick = (\<lambda>k hk. case header hk of None \<Rightarrow> body k | Some v \<Rightarrow> if is_valid_session_id (body k) then body k else v);
          sid = pick ''session_id'' ''x-session-id'';
          pid = pick ''parent_session_id'' ''x-parent-session-id''
      in if is_valid_session_id sid \<and> \<not> is_valid_session_id pid then (Some (session_str sid), Some (session_str sid))
         else if is_valid_session_id pid \<and> \<not> is_valid_session_id sid then (Some (session_str pid), Some (session_str pid))
         else if \<not> is_valid_session_id sid \<and> \<not> is_valid_session_id pid then (None, None)
         else (Some (session_str sid), Some (session_str pid)))"

section \<open>The whole hint\<close>

definition optional_int_hint :: "(json \<Rightarrow> int option) \<Rightarrow> string \<Rightarrow> json \<Rightarrow> int option option" where
  "optional_int_hint lax_int key data =
     (case data of
        JObj kvs \<Rightarrow>
          (case dget kvs key of
             None \<Rightarrow> Some None
           | Some JNull \<Rightarrow> Some None
           | Some v \<Rightarrow> map_option Some (lax_int v))
      | _ \<Rightarrow> None)"

definition field_or :: "json \<Rightarrow> string \<Rightarrow> json \<Rightarrow> json" where
  "field_or j k d = (case j of JObj kvs \<Rightarrow> (case dget kvs k of None \<Rightarrow> d | Some v \<Rightarrow> v) | _ \<Rightarrow> d)"

definition hint_data :: "json \<Rightarrow> (string, json) dict" where
  "hint_data request_json = (case field_or request_json ''agent_hint'' (JObj []) of JObj kvs \<Rightarrow> kvs | _ \<Rightarrow> [])"

definition parse_agent_hint ::
  "(json \<Rightarrow> int option) \<Rightarrow> json \<Rightarrow> (string, string) dict option \<Rightarrow> agent_hint_info" where
  "parse_agent_hint lax_int request_json headers =
     (let hint = hint_data request_json;
          get = (\<lambda>k. field_or (JObj hint) k JNull);
          messages = field_or request_json ''messages'' JNull;
          tools = field_or request_json ''tools'' JNull
      in case resolve_session_ids hint headers of
           (sid, pid) \<Rightarrow>
             \<lparr>ah_session_id = sid, ah_parent_session_id = pid,
              ah_cache_control = parse_cache_control (get ''cache_control'') messages,
              ah_context_management = parse_context_management (get ''context_management'') messages tools,
              ah_latency_sensitivity = optional_int_hint lax_int ''latency_sensitivity'' (get ''latency_control''),
              ah_priority = optional_int_hint lax_int ''priority'' (get ''priority_control''),
              ah_raw_extra = filter (\<lambda>kv. fst kv \<notin> set AGENT_HINT_KNOWN_FIELDS) hint\<rparr>)"

section \<open>Default messages\<close>

definition default_message :: "string \<Rightarrow> json" where
  "default_message role = JObj [(''role'', JStr role), (''content'', JStr ''context management messages'')]"

text \<open>
  \<open>ensure_minimum_messages_for_session_edits\<close> on the dictionaries of the request and of the request data. A missing list is
  set in both; an empty one is extended in place, which the request data sees if it holds the same list object (\<open>shared\<close>).
  Iterating over an \<open>edits\<close> value that is not iterable raises \<open>TypeError\<close>.
\<close>

definition ensure_minimum_messages_for_session_edits ::
  "bool \<Rightarrow> (string, json) dict \<Rightarrow> (string, json) dict \<Rightarrow> py_exn + ((string, json) dict \<times> (string, json) dict)" where
  "ensure_minimum_messages_for_session_edits shared request_json req_data =
     (let new_list = JList [default_message ''system'', default_message ''user'']
      in case field_or (JObj (case field_or (JObj request_json) ''agent_hint'' (JObj []) of JObj h \<Rightarrow> h | _ \<Rightarrow> []))
                 ''context_management'' JNull of
           JObj cm \<Rightarrow>
             if \<not> parse_manage_request (field_or (JObj cm) ''manage_request'' (JBool False)) then Inr (request_json, req_data)
             else bind_result (py_iter (py_or (field_or (JObj cm) ''edits'' JNull) (JList []))) (\<lambda>entries.
                    if \<not> list_ex (\<lambda>e. case e of JObj kvs \<Rightarrow> field_or (JObj kvs) ''target'' (JStr ''session'') = JStr ''session'' | _ \<Rightarrow> False) entries
                    then Inr (request_json, req_data)
                    else (case field_or (JObj request_json) ''messages'' JNull of
                            JNull \<Rightarrow> Inr (dset ''messages'' new_list request_json, dset ''messages'' new_list req_data)
                          | JList [] \<Rightarrow> Inr (dset ''messages'' new_list request_json,
                                            if shared then dset ''messages'' new_list req_data else req_data)
                          | _ \<Rightarrow> Inr (request_json, req_data)))
         | _ \<Rightarrow> Inr (request_json, req_data))"

section \<open>What a parsed hint satisfies\<close>

lemma ttl_bounds: "60 \<le> validate_ttl v \<and> validate_ttl v \<le> 3600"
  by (auto simp: validate_ttl_def CACHE_TTL_MIN_def CACHE_TTL_MAX_def CACHE_TTL_DEFAULT_def split: sum.splits)

definition cache_control_ok :: "json \<Rightarrow> cache_control \<Rightarrow> bool" where
  "cache_control_ok messages cc \<longleftrightarrow>
     cc_type cc = ''ephemeral'' \<and> 60 \<le> cc_ttl cc \<and> cc_ttl cc \<le> 3600 \<and>
     (case cc_msg_offset cc of
        Some off \<Rightarrow> 1 \<le> off \<and> (case list_len messages of None \<Rightarrow> True | Some n \<Rightarrow> off \<le> int n)
      | None \<Rightarrow> list_len messages \<in> {None, Some 0}) \<and>
     cc_block_offset cc = None \<and> cc_intra_block_offset cc = None \<and> cc_token_offset cc = None"

lemma make_cache_control_ok:
  "make_cache_control d = Inr cc \<Longrightarrow> cc_type cc = ''ephemeral'' \<and> 60 \<le> cc_ttl cc \<and> cc_ttl cc \<le> 3600 \<and>
     cc_block_offset cc = None \<and> cc_intra_block_offset cc = None \<and> cc_token_offset cc = None"
  using ttl_bounds
  by (auto simp: make_cache_control_def bind_result_Inr validate_cache_type_def CACHE_TYPE_ALLOWED_def CACHE_TTL_DEFAULT_def
      split: option.splits json.splits if_splits)

lemma parse_cache_control_ok:
  assumes "parse_cache_control data messages = Some cc"
  shows "cache_control_ok messages cc"
proof -
  obtain kvs where "data = JObj kvs" using assms by (cases data) (simp_all add: parse_cache_control_def)
  with assms obtain c where c: "make_cache_control (filter (\<lambda>kv. fst kv \<notin> set CACHE_SERVER_ONLY_FIELDS) kvs) = Inr c"
    and rest: "(case (cc_msg_offset c, list_len messages) of
                  (None, Some n) \<Rightarrow> Some (if n > 0 then c\<lparr>cc_msg_offset := Some (int n)\<rparr> else c)
                | (None, None) \<Rightarrow> Some c
                | (Some off, n) \<Rightarrow>
                    if off < 1 then None
                    else if (case n of None \<Rightarrow> False | Some m \<Rightarrow> off > int m) then None
                    else Some c) = Some cc"
    by (auto simp: parse_cache_control_def split: sum.splits)
  from rest make_cache_control_ok [OF c] show ?thesis
    by (auto simp: cache_control_ok_def split: option.splits if_splits)
qed

definition edit_ok :: "json \<Rightarrow> json \<Rightarrow> context_edit \<Rightarrow> bool" where
  "edit_ok messages tools e \<longleftrightarrow>
     ce_type e \<in> {''offload'', ''prefetch'', ''evict''} \<and> ce_target e \<in> {''session'', ''messages'', ''tools''} \<and>
     (\<forall>k. ce_start e = Some k \<or> ce_end e = Some k \<longrightarrow>
        0 \<le> k \<and> (\<forall>b. index_bound e messages tools = Some b \<longrightarrow> k \<le> int b)) \<and>
     (\<forall>s t. ce_start e = Some s \<and> ce_end e = Some t \<longrightarrow> s < t) \<and>
     ce_block_start e = None \<and> ce_block_intra_start e = None \<and> ce_start_token e = None \<and>
     ce_block_end e = None \<and> ce_block_intra_end e = None \<and> ce_end_token e = None"

lemma validate_edit_type_ok: "validate_edit_type v = Inr ty \<Longrightarrow> ty \<in> {''offload'', ''prefetch'', ''evict''}"
  by (auto simp: validate_edit_type_def EDIT_TYPES_ALLOWED_def split: json.splits if_splits)

lemma validate_target_ok: "validate_target v \<in> {''session'', ''messages'', ''tools''}"
  by (auto simp: validate_target_def EDIT_TARGETS_ALLOWED_def EDIT_TARGET_DEFAULT_def split: json.splits)

lemma make_context_edit_ok:
  assumes "make_context_edit kvs = Inr e"
  shows "ce_type e \<in> {''offload'', ''prefetch'', ''evict''} \<and> ce_target e \<in> {''session'', ''messages'', ''tools''} \<and>
     ce_block_start e = None \<and> ce_block_intra_start e = None \<and> ce_start_token e = None \<and>
     ce_block_end e = None \<and> ce_block_intra_end e = None \<and> ce_end_token e = None"
proof -
  have "(case dget kvs ''target'' of None \<Rightarrow> EDIT_TARGET_DEFAULT | Some v \<Rightarrow> validate_target v) \<in> {''session'', ''messages'', ''tools''}"
    using validate_target_ok by (simp add: EDIT_TARGET_DEFAULT_def split: option.splits)
  moreover obtain ty where "(case dget kvs ''type'' of None \<Rightarrow> Inl (ValidationError ''type'') | Some v \<Rightarrow> validate_edit_type v) = Inr ty"
    and ty: "e = \<lparr>ce_type = ty,
            ce_start = (case dget kvs ''start'' of None \<Rightarrow> None | Some v \<Rightarrow> validate_index v),
            ce_end = (case dget kvs ''end'' of None \<Rightarrow> None | Some v \<Rightarrow> validate_index v),
            ce_target = (case dget kvs ''target'' of None \<Rightarrow> EDIT_TARGET_DEFAULT | Some v \<Rightarrow> validate_target v),
            ce_block_start = None, ce_block_intra_start = None, ce_start_token = None,
            ce_block_end = None, ce_block_intra_end = None, ce_end_token = None\<rparr>"
    using assms unfolding make_context_edit_def bind_result_Inr by blast
  moreover from this have "ty \<in> {''offload'', ''prefetch'', ''evict''}"
    using validate_edit_type_ok by (cases "dget kvs ''type''") auto
  ultimately show ?thesis by simp
qed

lemma validate_edit_indices_ok:
  assumes "validate_edit_indices e messages tools"
  shows "ce_start e = Some k \<or> ce_end e = Some k \<Longrightarrow> 0 \<le> k" "ce_start e = Some s \<Longrightarrow> ce_end e = Some t \<Longrightarrow> s < t"
    "ce_start e = Some k \<or> ce_end e = Some k \<Longrightarrow> index_bound e messages tools = Some b \<Longrightarrow> k \<le> int b"
  using assms by (auto simp: validate_edit_indices_def Let_def)

lemma edit_okI:
  assumes "make_context_edit kvs = Inr e" and "validate_edit_indices e messages tools"
  shows "edit_ok messages tools e"
  using make_context_edit_ok [OF assms(1)] validate_edit_indices_ok [OF assms(2)] unfolding edit_ok_def by blast

lemma parse_edits_ok: "e \<in> set (parse_edits entries messages tools) \<Longrightarrow> edit_ok messages tools e"
proof (induction entries)
  case (Cons entry rest)
  show ?case
  proof (cases "e \<in> set (parse_edits rest messages tools)")
    case False
    with Cons.prems obtain kvs where "make_context_edit kvs = Inr e" "validate_edit_indices e messages tools"
      by (cases entry) (auto split: if_splits sum.splits)
    then show ?thesis by (rule edit_okI)
  qed (rule Cons.IH)
qed simp

text \<open>The session ids: both absent or both non-empty, each the body's value where that is valid and else the header's or the other id.\<close>

lemma resolve_session_ids_cases:
  "resolve_session_ids hint headers = (sid, pid) \<Longrightarrow>
     (sid = None \<and> pid = None) \<or> (\<exists>s p. sid = Some s \<and> pid = Some p \<and> s \<noteq> '''' \<and> p \<noteq> '''')"
proof -
  have valid: "is_valid_session_id v \<Longrightarrow> session_str v \<noteq> ''''" for v by (cases v) (simp_all add: is_valid_session_id_def)
  assume "resolve_session_ids hint headers = (sid, pid)"
  then show ?thesis by (auto simp: resolve_session_ids_def Let_def valid split: if_splits)
qed

text \<open>
  C39: whatever JSON a client sends, what the parser lets through is in range. A cache control has the only supported type, a
  time to live between one minute and one hour and a message offset within the conversation; every context edit has a known type and
  target, indices that are not negative and within the messages (or the tools), and start before end; the coordinates that the
  server computes are unset, so none of them comes from the client; the two session ids are both absent or both non-empty.
\<close>

theorem parsed_hint_in_bounds:
  assumes "h = parse_agent_hint lax_int req headers"
  shows "(\<forall>cc. ah_cache_control h = Some cc \<longrightarrow> cache_control_ok (field_or req ''messages'' JNull) cc) \<and>
    (\<forall>cm. ah_context_management h = Some cm \<longrightarrow> cm_edits cm \<noteq> [] \<and>
       (\<forall>e \<in> set (cm_edits cm). edit_ok (field_or req ''messages'' JNull) (field_or req ''tools'' JNull) e)) \<and>
    (ah_session_id h = None \<and> ah_parent_session_id h = None \<or>
       (\<exists>s p. ah_session_id h = Some s \<and> ah_parent_session_id h = Some p \<and> s \<noteq> '''' \<and> p \<noteq> ''''))"
proof -
  let ?m = "field_or req ''messages'' JNull" let ?t = "field_or req ''tools'' JNull"
  obtain sid pid where ids: "resolve_session_ids (hint_data req) headers = (sid, pid)" by fastforce
  have h: "ah_session_id h = sid" "ah_parent_session_id h = pid"
    "ah_cache_control h = parse_cache_control (field_or (JObj (hint_data req)) ''cache_control'' JNull) ?m"
    "ah_context_management h = parse_context_management (field_or (JObj (hint_data req)) ''context_management'' JNull) ?m ?t"
    unfolding assms parse_agent_hint_def Let_def ids by simp_all
  have cm: "cm_edits cm \<noteq> [] \<and> (\<forall>e \<in> set (cm_edits cm). edit_ok ?m ?t e)" if "parse_context_management d ?m ?t = Some cm" for cm d
  proof -
    from that obtain entries where "cm_edits cm = parse_edits entries ?m ?t" "cm_edits cm \<noteq> []"
      by (cases d) (auto simp: parse_context_management_def Let_def split: sum.splits if_splits)
    with parse_edits_ok show ?thesis by metis
  qed
  show ?thesis
    unfolding h using cm parse_cache_control_ok resolve_session_ids_cases [OF ids] by blast
qed

definition demo_hint_request :: json where
  "demo_hint_request = JObj
     [(''messages'', JList [JStr ''a'', JStr ''b'']),
      (''agent_hint'', JObj
         [(''session_id'', JStr ''s''),
          (''cache_control'', JObj [(''ttl'', JInt 5), (''token_offset'', JInt 9)])])]"

theorem parsed_hint_in_bounds_witness:
  "\<exists>cc. ah_cache_control (parse_agent_hint (\<lambda>_. None) demo_hint_request None) = Some cc \<and>
     cache_control_ok (JList [JStr ''a'', JStr ''b'']) cc \<and> cc_msg_offset cc = Some 2 \<and> cc_ttl cc = 60"
proof -
  let ?h = "parse_agent_hint (\<lambda>_. None) demo_hint_request None"
  have cc: "ah_cache_control ?h = Some \<lparr>cc_type = ''ephemeral'', cc_ttl = 60, cc_msg_offset = Some 2, cc_block_offset = None,
      cc_intra_block_offset = None, cc_token_offset = None\<rparr>"
    by (simp add: parse_agent_hint_def demo_hint_request_def hint_data_def field_or_def Let_def parse_cache_control_def
        make_cache_control_def CACHE_SERVER_ONLY_FIELDS_def CACHE_TYPE_ALLOWED_def validate_ttl_def CACHE_TTL_MIN_def CACHE_TTL_MAX_def
        list_len_def split: prod.splits)
  have "field_or demo_hint_request ''messages'' JNull = JList [JStr ''a'', JStr ''b'']"
    by (simp add: demo_hint_request_def field_or_def)
  with parsed_hint_in_bounds [OF refl, of "\<lambda>_. None" demo_hint_request None] cc show ?thesis by auto
qed

end
