(* ===== verification/Message_Preprocess.thy ===== *)
theory Message_Preprocess
  imports Agent_Hint
begin

text \<open>
  \<^verbatim>\<open>coordinator/scheduler/policy/utils.py\<close>: the normalisation of chat messages and tools before they are tokenized.
  The code edits deep copies in place; here each processor maps a value to a new one or raises. \<open>json.loads\<close> and \<open>str\<close> of a
  value that is not a string are the parameters \<open>loads\<close> (with \<open>None\<close> for \<open>JSONDecodeError\<close>, a \<open>ValueError\<close>) and \<open>str_of\<close>.
\<close>

section \<open>Python operations\<close>

fun is_infix :: "string \<Rightarrow> string \<Rightarrow> bool" where
  "is_infix p [] = (p = [])"
| "is_infix p (c # s) = (take (length p) (c # s) = p \<or> is_infix p s)"

text \<open>\<open>key in value\<close>: a key of a dictionary, an element of a list, a substring; numbers and \<open>None\<close> raise.\<close>

definition py_in :: "string \<Rightarrow> json \<Rightarrow> py_exn + bool" where
  "py_in k v =
     (case v of
        JObj kvs \<Rightarrow> Inr (dmem k kvs)
      | JList xs \<Rightarrow> Inr (JStr k \<in> set xs)
      | JStr s \<Rightarrow> Inr (is_infix k s)
      | _ \<Rightarrow> Inl TypeError)"

text \<open>\<open>value[key]\<close> with a string key.\<close>

definition py_item :: "json \<Rightarrow> string \<Rightarrow> py_exn + json" where
  "py_item v k =
     (case v of
        JObj kvs \<Rightarrow> (case dget kvs k of None \<Rightarrow> Inl KeyError | Some x \<Rightarrow> Inr x)
      | _ \<Rightarrow> Inl TypeError)"

definition py_set_item :: "json \<Rightarrow> string \<Rightarrow> json \<Rightarrow> py_exn + json" where
  "py_set_item v k x = (case v of JObj kvs \<Rightarrow> Inr (JObj (dset k x kvs)) | _ \<Rightarrow> Inl TypeError)"

fun map_result :: "('a \<Rightarrow> 'e + 'b) \<Rightarrow> 'a list \<Rightarrow> 'e + 'b list" where
  "map_result f [] = Inr []"
| "map_result f (x # xs) = bind_result (f x) (\<lambda>y. bind_result (map_result f xs) (\<lambda>ys. Inr (y # ys)))"

section \<open>Flattening content\<close>

definition text_content_part_field :: "json \<Rightarrow> string option" where
  "text_content_part_field part_type =
     (if part_type \<in> {JStr ''text'', JStr ''input_text'', JStr ''output_text''} then Some ''text''
      else if part_type = JStr ''refusal'' then Some ''refusal''
      else if part_type = JStr ''thinking'' then Some ''thinking''
      else None)"

definition part_get :: "(string, json) dict \<Rightarrow> string \<Rightarrow> json" where
  "part_get part k = (case dget part k of None \<Rightarrow> JNull | Some v \<Rightarrow> v)"

text \<open>
  \<open>_extract_text_from_content_part\<close>. A \<open>type\<close> that is a list or a dictionary cannot be looked up (\<open>TypeError\<close>).
\<close>

definition extract_text_from_content_part :: "(string, json) dict \<Rightarrow> py_exn + json option" where
  "extract_text_from_content_part part =
     (let part_type = part_get part ''type''
      in if part_type = JNull then Inr None
         else if (case part_type of JList _ \<Rightarrow> True | JObj _ \<Rightarrow> True | _ \<Rightarrow> False) then Inl TypeError
         else (case text_content_part_field part_type of
                 None \<Rightarrow> Inr None
               | Some field \<Rightarrow>
                   (let v1 = part_get part field;
                        v2 = (if v1 = JNull \<and> field \<noteq> ''text'' then part_get part ''text'' else v1);
                        v3 = (if v2 = JNull \<and> part_type = JStr ''thinking'' then part_get part ''reasoning_content'' else v2)
                    in Inr (Some (py_or v3 (JStr ''''))))))"

fun content_texts :: "(json \<Rightarrow> string) \<Rightarrow> json list \<Rightarrow> py_exn + json list" where
  "content_texts str_of [] = Inr []"
| "content_texts str_of (part # parts) =
     (case part of
        JStr s \<Rightarrow> bind_result (content_texts str_of parts) (\<lambda>ts. Inr (JStr s # ts))
      | JObj kvs \<Rightarrow>
          bind_result (extract_text_from_content_part kvs) (\<lambda>extracted.
          bind_result (content_texts str_of parts) (\<lambda>ts.
            case extracted of
              Some t \<Rightarrow> Inr (t # ts)
            | None \<Rightarrow> if part_get kvs ''type'' \<noteq> JNull
                      then Inr (JStr (''[Unsupported '' @ str_of (part_get kvs ''type'') @ '']'') # ts) else Inr ts))
      | _ \<Rightarrow> content_texts str_of parts)"

text \<open>\<open>"\\n".join\<close>, which raises on an element that is not a string.\<close>

fun join_lines :: "json list \<Rightarrow> py_exn + string" where
  "join_lines [] = Inr ''''"
| "join_lines [JStr s] = Inr s"
| "join_lines (JStr s # ts) = bind_result (join_lines ts) (\<lambda>r. Inr (s @ [CHR 0x0A] @ r))"
| "join_lines (_ # ts) = Inl TypeError"

definition content_parts_to_string :: "(json \<Rightarrow> string) \<Rightarrow> json \<Rightarrow> py_exn + string" where
  "content_parts_to_string str_of content =
     (case content of
        JNull \<Rightarrow> Inr ''''
      | JStr s \<Rightarrow> Inr s
      | JList parts \<Rightarrow> bind_result (content_texts str_of parts) join_lines
      | j \<Rightarrow> Inr (str_of j))"

definition flatten_message_content_to_string :: "(json \<Rightarrow> string) \<Rightarrow> json \<Rightarrow> py_exn + json" where
  "flatten_message_content_to_string str_of message =
     bind_result (py_in ''content'' message) (\<lambda>present.
       if \<not> present then Inr message
       else bind_result (py_item message ''content'') (\<lambda>c.
            bind_result (content_parts_to_string str_of c) (\<lambda>s. py_set_item message ''content'' (JStr s))))"

section \<open>Tool calls and tools\<close>

definition exchange_one_call :: "(string \<Rightarrow> json option) \<Rightarrow> json \<Rightarrow> py_exn + json" where
  "exchange_one_call loads tool =
     bind_result (py_in ''function'' tool) (\<lambda>present.
       if \<not> present then Inr tool
       else bind_result (py_item tool ''function'') (\<lambda>fn.
            bind_result (py_item fn ''arguments'') (\<lambda>args.
              case args of
                JStr s \<Rightarrow>
                  (case loads s of
                     None \<Rightarrow> Inl ValueError
                   | Some v \<Rightarrow> bind_result (py_set_item fn ''arguments'' v) (\<lambda>fn'. py_set_item tool ''function'' fn'))
              | _ \<Rightarrow> Inr tool)))"

definition exchange_arguments :: "(string \<Rightarrow> json option) \<Rightarrow> json \<Rightarrow> py_exn + json" where
  "exchange_arguments loads message =
     bind_result (py_in ''tool_calls'' message) (\<lambda>present.
       if \<not> present then Inr message
       else bind_result (py_item message ''tool_calls'') (\<lambda>calls.
              case calls of
                JList xs \<Rightarrow> bind_result (map_result (exchange_one_call loads) xs) (\<lambda>ys. py_set_item message ''tool_calls'' (JList ys))
              | _ \<Rightarrow> bind_result (py_iter calls) (\<lambda>xs. bind_result (map_result (exchange_one_call loads) xs) (\<lambda>_. Inr message))))"

text \<open>\<open>exchange_tool_content\<close>: the content of a tool message becomes the printed form of a text part.\<close>

definition exchange_tool_content :: "(json \<Rightarrow> string) \<Rightarrow> json \<Rightarrow> py_exn + json" where
  "exchange_tool_content str_of message =
     bind_result (py_in ''role'' message) (\<lambda>has_role.
       if \<not> has_role then Inr message
       else bind_result (py_item message ''role'') (\<lambda>role.
       if role \<noteq> JStr ''tool'' then Inr message
       else bind_result (py_in ''content'' message) (\<lambda>has_content.
       if \<not> has_content then Inr message
       else bind_result (py_item message ''content'') (\<lambda>content.
              case content of
                JStr s \<Rightarrow> py_set_item message ''content'' (JStr (str_of (JObj [(''type'', JStr ''text''), (''text'', JStr s)])))
              | _ \<Rightarrow> Inr message))))"

text \<open>The stable sort of the function's fields by priority.\<close>

definition field_priority :: "string \<Rightarrow> nat" where
  "field_priority k = (if k = ''name'' then 1 else if k = ''description'' then 2 else if k = ''parameters'' then 3 else 100)"

definition exchange_tools :: "json \<Rightarrow> py_exn + json" where
  "exchange_tools tool =
     bind_result (py_in ''function'' tool) (\<lambda>present.
       if \<not> present then Inr tool
       else bind_result (py_item tool ''function'') (\<lambda>fn.
              case fn of
                JObj kvs \<Rightarrow> py_set_item tool ''function'' (JObj (sort_key (\<lambda>kv. field_priority (fst kv)) kvs))
              | _ \<Rightarrow> Inl (AttributeError ''items'')))"

section \<open>The pipelines\<close>

fun run_processors :: "(json \<Rightarrow> py_exn + json) list \<Rightarrow> json \<Rightarrow> py_exn + json" where
  "run_processors [] j = Inr j"
| "run_processors (p # ps) j = bind_result (p j) (run_processors ps)"

definition preprocess_items ::
  "(json \<Rightarrow> py_exn + json) list \<Rightarrow> (json \<Rightarrow> py_exn + json) list \<Rightarrow> json \<Rightarrow> json \<Rightarrow> py_exn + json \<times> json" where
  "preprocess_items message_processors tool_processors messages tools =
     bind_result
       (case messages of
          JList ms \<Rightarrow> bind_result (map_result (run_processors message_processors) ms) (\<lambda>ms'. Inr (JList ms'))
        | _ \<Rightarrow> bind_result (py_iter messages) (\<lambda>ms. bind_result (map_result (run_processors message_processors) ms) (\<lambda>_. Inr messages)))
       (\<lambda>messages'.
          if \<not> truthy tools then Inr (messages', JNull)
          else (case tools of
                  JList ts \<Rightarrow> bind_result (map_result (run_processors tool_processors) ts) (\<lambda>ts'. Inr (messages', JList ts'))
                | _ \<Rightarrow> bind_result (py_iter tools) (\<lambda>ts. bind_result (map_result (run_processors tool_processors) ts)
                         (\<lambda>_. Inr (messages', tools)))))"

definition preprocess_messages_for_standard :: "(json \<Rightarrow> string) \<Rightarrow> json \<Rightarrow> py_exn + json" where
  "preprocess_messages_for_standard str_of messages =
     map_sum id fst (preprocess_items [flatten_message_content_to_string str_of] [] messages JNull)"

definition preprocess_messages_for_dsv4 ::
  "(string \<Rightarrow> json option) \<Rightarrow> (json \<Rightarrow> string) \<Rightarrow> json \<Rightarrow> json \<Rightarrow> py_exn + json \<times> json" where
  "preprocess_messages_for_dsv4 loads str_of messages tools =
     preprocess_items [exchange_arguments loads, flatten_message_content_to_string str_of] [exchange_tools] messages tools"

definition preprocess_input ::
  "(string \<Rightarrow> json option) \<Rightarrow> (json \<Rightarrow> string) \<Rightarrow> json \<Rightarrow> json \<Rightarrow> py_exn + json \<times> json" where
  "preprocess_input loads str_of messages tools =
     preprocess_items [exchange_arguments loads, exchange_tool_content str_of] [exchange_tools] messages tools"

section \<open>What preprocessing keeps\<close>

lemma map_result_length: "map_result f xs = Inr ys \<Longrightarrow> length ys = length xs"
  by (induction xs arbitrary: ys) (auto simp: bind_result_Inr)

lemma map_result_nth: "map_result f xs = Inr ys \<Longrightarrow> k < length xs \<Longrightarrow> f (xs ! k) = Inr (ys ! k)"
proof (induction xs arbitrary: ys k)
  case (Cons x xs)
  then obtain y zs where "ys = y # zs" "f x = Inr y" "map_result f xs = Inr zs" by (auto simp: bind_result_Inr)
  with Cons show ?case by (cases k) auto
qed simp

text \<open>Neither processor of messages changes a field other than its own; in particular the role stays.\<close>

definition role_of :: "json \<Rightarrow> json" where
  "role_of m = (case m of JObj kvs \<Rightarrow> (case dget kvs ''role'' of None \<Rightarrow> JNull | Some v \<Rightarrow> v) | _ \<Rightarrow> JNull)"

lemma set_item_role: "py_set_item m k v = Inr m' \<Longrightarrow> k \<noteq> ''role'' \<Longrightarrow> role_of m' = role_of m"
  by (auto simp: py_set_item_def role_of_def split: json.splits)

lemma flatten_role: "flatten_message_content_to_string str_of m = Inr m' \<Longrightarrow> role_of m' = role_of m"
  by (auto simp: flatten_message_content_to_string_def bind_result_Inr split: if_splits dest: set_item_role)

lemma exchange_arguments_cases:
  assumes "exchange_arguments loads m = Inr m'"
  obtains "m' = m" | v where "py_set_item m ''tool_calls'' v = Inr m'"
proof (cases "py_in ''tool_calls'' m = Inr True")
  case True
  with assms obtain calls where calls: "py_item m ''tool_calls'' = Inr calls" by (auto simp: exchange_arguments_def bind_result_Inr)
  with True assms that show ?thesis by (cases calls) (auto simp: exchange_arguments_def bind_result_Inr)
next
  case False
  with assms that(1) show ?thesis by (auto simp: exchange_arguments_def bind_result_Inr split: if_splits)
qed

lemma arguments_role: "exchange_arguments loads m = Inr m' \<Longrightarrow> role_of m' = role_of m"
  by (erule exchange_arguments_cases) (auto dest: set_item_role)

lemma preprocess_dsv4_messages:
  assumes "preprocess_messages_for_dsv4 loads str_of (JList ms) tools = Inr (messages', tools')"
  shows "\<exists>ms'. messages' = JList ms' \<and> length ms' = length ms \<and> (\<forall>k < length ms. role_of (ms' ! k) = role_of (ms ! k))"
proof -
  obtain ms' where ms': "map_result (run_processors [exchange_arguments loads, flatten_message_content_to_string str_of]) ms = Inr ms'"
    and eq: "messages' = JList ms'"
    using assms by (auto simp: preprocess_messages_for_dsv4_def preprocess_items_def bind_result_Inr split: if_splits json.splits)
  have "role_of (ms' ! k) = role_of (ms ! k)" if "k < length ms" for k
  proof -
    from map_result_nth [OF ms' that] obtain m where "exchange_arguments loads (ms ! k) = Inr m"
      and "flatten_message_content_to_string str_of m = Inr (ms' ! k)" by (auto simp: bind_result_Inr)
    then show ?thesis using arguments_role flatten_role by metis
  qed
  with eq map_result_length [OF ms'] show ?thesis by blast
qed

text \<open>The content of a message after flattening.\<close>

definition string_content :: "json \<Rightarrow> bool" where
  "string_content m = (case m of
     JObj kvs \<Rightarrow> (case dget kvs ''content'' of None \<Rightarrow> True | Some v \<Rightarrow> (case v of JStr _ \<Rightarrow> True | _ \<Rightarrow> False))
   | _ \<Rightarrow> True)"

lemma flatten_string_content:
  assumes "flatten_message_content_to_string str_of m = Inr m'"
  shows "string_content m'"
proof (cases "py_in ''content'' m = Inr True")
  case True
  with assms obtain s where "py_set_item m ''content'' (JStr s) = Inr m'"
    by (auto simp: flatten_message_content_to_string_def bind_result_Inr)
  then show ?thesis by (cases m) (auto simp: py_set_item_def string_content_def)
next
  case False
  with assms have "m' = m" and "py_in ''content'' m = Inr False"
    by (auto simp: flatten_message_content_to_string_def bind_result_Inr split: if_splits)
  then show ?thesis by (cases m) (auto simp: py_in_def string_content_def dmem_def)
qed

text \<open>The fields of a tool's function are the same ones, in the order of their priorities.\<close>

definition ordered_function :: "json \<Rightarrow> bool" where
  "ordered_function tool = (case tool of
     JObj kvs \<Rightarrow> (case dget kvs ''function'' of
       Some (JObj fn) \<Rightarrow> sorted (map (\<lambda>kv. field_priority (fst kv)) fn) | Some _ \<Rightarrow> False | None \<Rightarrow> True)
   | _ \<Rightarrow> True)"

lemma exchange_tools_ordered:
  assumes "exchange_tools tool = Inr tool'"
  shows "ordered_function tool'"
proof (cases "py_in ''function'' tool = Inr True")
  case True
  with assms obtain fn where "py_item tool ''function'' = Inr fn" and
    fn: "(case fn of JObj kvs \<Rightarrow> py_set_item tool ''function'' (JObj (sort_key (\<lambda>kv. field_priority (fst kv)) kvs))
          | _ \<Rightarrow> Inl (AttributeError ''items'')) = Inr tool'"
    by (auto simp: exchange_tools_def bind_result_Inr)
  then obtain kvs where "py_set_item tool ''function'' (JObj (sort_key (\<lambda>kv. field_priority (fst kv)) kvs)) = Inr tool'"
    by (cases fn) auto
  then show ?thesis by (cases tool) (auto simp: py_set_item_def ordered_function_def)
next
  case False
  with assms have "tool' = tool" and "py_in ''function'' tool = Inr False"
    by (auto simp: exchange_tools_def bind_result_Inr split: if_splits)
  then show ?thesis by (cases tool) (auto simp: py_in_def ordered_function_def dmem_def)
qed

lemma map_result_all: "map_result f xs = Inr ys \<Longrightarrow> \<forall>x y. f x = Inr y \<longrightarrow> P y \<Longrightarrow> list_all P ys"
  by (induction xs arbitrary: ys) (auto simp: bind_result_Inr)

text \<open>
  C40: the types of what the DSV4 encoder receives. When the preprocessing of a request returns, there is one message per message, with the same
  role, and its content is absent or a plain string, whatever parts the client sent; where tools were given, the fields of every tool's
  function are in the order name, description, parameters, others.
\<close>

theorem preprocess_dsv4_types:
  assumes "preprocess_messages_for_dsv4 loads str_of (JList ms) (JList ts) = Inr (messages, tools)"
  shows "(\<exists>ms'. messages = JList ms' \<and> list_all2 (\<lambda>m m'. role_of m' = role_of m \<and> string_content m') ms ms') \<and>
    (if ts = [] then tools = JNull else \<exists>ts'. tools = JList ts' \<and> length ts' = length ts \<and> list_all ordered_function ts')"
proof
  let ?ps = "[exchange_arguments loads, flatten_message_content_to_string str_of]"
  obtain ms' where ms': "map_result (run_processors ?ps) ms = Inr ms'" and messages: "messages = JList ms'"
    and tools: "(if ts = [] then Inr JNull else bind_result (map_result (run_processors [exchange_tools]) ts) (\<lambda>ts'. Inr (JList ts'))) = Inr tools"
    using assms by (auto simp: preprocess_messages_for_dsv4_def preprocess_items_def bind_result_Inr split: if_splits)
  have "role_of m' = role_of m \<and> string_content m'" if "run_processors ?ps m = Inr m'" for m m'
    using that arguments_role flatten_role flatten_string_content by (fastforce simp: bind_result_Inr)
  with map_result_nth [OF ms'] map_result_length [OF ms'] messages
  show "\<exists>ms'. messages = JList ms' \<and> list_all2 (\<lambda>m m'. role_of m' = role_of m \<and> string_content m') ms ms'"
    by (auto simp: list_all2_conv_all_nth)
  have "\<forall>t t'. run_processors [exchange_tools] t = Inr t' \<longrightarrow> ordered_function t'"
    using exchange_tools_ordered by (auto simp: bind_result_Inr)
  then have "list_all ordered_function ts'" if "map_result (run_processors [exchange_tools]) ts = Inr ts'" for ts'
    by (rule map_result_all [OF that])
  then show "if ts = [] then tools = JNull else \<exists>ts'. tools = JList ts' \<and> length ts' = length ts \<and> list_all ordered_function ts'"
    using tools map_result_length [of "run_processors [exchange_tools]" ts] by (auto simp: bind_result_Inr split: if_splits)
qed

definition demo_chat :: "json list" where
  "demo_chat = [JObj [(''role'', JStr ''user''), (''content'', JList [JObj [(''type'', JStr ''text''), (''text'', JStr ''a'')], JStr ''b''])]]"

theorem preprocess_dsv4_types_witness:
  "\<exists>messages tools. preprocess_messages_for_dsv4 (\<lambda>_. None) (\<lambda>_. '''') (JList demo_chat) (JList []) = Inr (messages, tools) \<and>
     messages = JList [JObj [(''role'', JStr ''user''), (''content'', JStr [CHR ''a'', CHR 0x0A, CHR ''b''])]] \<and> tools = JNull \<and>
     (\<exists>ms'. messages = JList ms' \<and> list_all2 (\<lambda>m m'. role_of m' = role_of m \<and> string_content m') demo_chat ms')"
proof -
  have "preprocess_messages_for_dsv4 (\<lambda>_. None) (\<lambda>_. '''') (JList demo_chat) (JList []) =
      Inr (JList [JObj [(''role'', JStr ''user''), (''content'', JStr [CHR ''a'', CHR 0x0A, CHR ''b''])]], JNull)"
    by code_simp
  with preprocess_dsv4_types [OF this] show ?thesis by simp
qed

end
