(* ===== verification/Block_Offsets.thy ===== *)
theory Block_Offsets
  imports Message_Preprocess
begin

text \<open>
  \<^verbatim>\<open>coordinator/domain/block_offset_translator.py\<close>: the translation of the message indices of an agent hint into
  coordinates of KV-cache blocks. The tokenizer is code of a model library: it is a record of functions, whose results the code
  checks. Strings are the UTF-8 bytes of the Python string; the positions found in them are only used to cut prefixes, so
  that byte positions and character positions cut the same prefixes.
\<close>

section \<open>The tokenizer\<close>

datatype template_value = Token_ids "int list" | Rendered string | Other_value

text \<open>\<open>tk_template tokenize with_return_dict messages tools\<close> is \<open>apply_chat_template\<close> with the generation prompt.\<close>

record tokenizer =
  tk_class_names :: "string list"
  tk_convert :: "string \<Rightarrow> py_exn + int option"
  tk_unk :: "int option"
  tk_encode :: "string \<Rightarrow> py_exn + int list"
  tk_decode :: "int list \<Rightarrow> py_exn + json"
  tk_template :: "bool \<Rightarrow> bool \<Rightarrow> json \<Rightarrow> json \<Rightarrow> py_exn + template_value"

definition bar :: string where "bar = [CHR 0xEF, CHR 0xBD, CHR 0x9C]"
definition low_bar :: string where "low_bar = [CHR 0xE2, CHR 0x96, CHR 0x81]"

definition DSV4_USER_MARKER :: string where "DSV4_USER_MARKER = ''<'' @ bar @ ''User'' @ bar @ ''>''"
definition DSV4_ASSISTANT_MARKER :: string where "DSV4_ASSISTANT_MARKER = ''<'' @ bar @ ''Assistant'' @ bar @ ''>''"
definition DSV4_EOS_MARKER :: string where
  "DSV4_EOS_MARKER = ''<'' @ bar @ ''end'' @ low_bar @ ''of'' @ low_bar @ ''sentence'' @ bar @ ''>''"

definition CHAT_MARKER_CANDIDATES :: "string list" where
  "CHAT_MARKER_CANDIDATES = [''<|im_start|>'', ''<|begin_of_text|>'', ''<|user|>'', ''<|sep|>'']"

definition is_dsv4_tokenizer :: "tokenizer option \<Rightarrow> bool" where
  "is_dsv4_tokenizer tok = (case tok of None \<Rightarrow> False | Some t \<Rightarrow> list_ex (\<lambda>c. take 4 c = ''DSV4'') (tk_class_names t))"

definition single_token :: "tokenizer \<Rightarrow> string \<Rightarrow> int option" where
  "single_token t s =
     (case tk_convert t s of
        Inr (Some tid) \<Rightarrow>
          if tk_unk t = Some tid then None
          else (case tk_encode t s of Inl _ \<Rightarrow> None | Inr enc \<Rightarrow> if enc = [tid] then Some tid else None)
      | _ \<Rightarrow> None)"

definition try_get_token_id :: "tokenizer option \<Rightarrow> string \<Rightarrow> int option" where
  "try_get_token_id tok s = (case tok of None \<Rightarrow> None | Some t \<Rightarrow> single_token t s)"

fun first_single :: "tokenizer \<Rightarrow> string list \<Rightarrow> int option" where
  "first_single t [] = None"
| "first_single t (s # ss) = (case single_token t s of Some tid \<Rightarrow> Some tid | None \<Rightarrow> first_single t ss)"

definition detect_chat_marker_id :: "tokenizer option \<Rightarrow> int option" where
  "detect_chat_marker_id tok = (case tok of None \<Rightarrow> None | Some t \<Rightarrow> first_single t CHAT_MARKER_CANDIDATES)"

text \<open>
  A template call, repeated without \<open>return_dict\<close> on a \<open>TypeError\<close>. In most places the exceptions of both calls are caught
  (\<open>None\<close>); the messages table of the standard calculator lets the exception of the second call through.
\<close>

definition template_guarded :: "tokenizer \<Rightarrow> bool \<Rightarrow> json \<Rightarrow> json \<Rightarrow> template_value option" where
  "template_guarded t tokenize messages tools =
     (case tk_template t tokenize True messages tools of
        Inr v \<Rightarrow> Some v
      | Inl TypeError \<Rightarrow> (case tk_template t tokenize False messages tools of Inr v \<Rightarrow> Some v | Inl _ \<Rightarrow> None)
      | Inl _ \<Rightarrow> None)"

definition template_half_guarded :: "tokenizer \<Rightarrow> bool \<Rightarrow> json \<Rightarrow> json \<Rightarrow> py_exn + template_value option" where
  "template_half_guarded t tokenize messages tools =
     (case tk_template t tokenize True messages tools of
        Inr v \<Rightarrow> Inr (Some v)
      | Inl TypeError \<Rightarrow> bind_result (tk_template t tokenize False messages tools) (\<lambda>v. Inr (Some v))
      | Inl _ \<Rightarrow> Inr None)"

section \<open>Searching\<close>

definition positions :: "int \<Rightarrow> int list \<Rightarrow> nat list" where
  "positions t ids = filter (\<lambda>i. ids ! i = t) [0..<length ids]"

definition occurs_at :: "string \<Rightarrow> string \<Rightarrow> nat \<Rightarrow> bool" where
  "occurs_at pat s i = (take (length pat) (drop i s) = pat)"

text \<open>\<open>s.find(pat, k)\<close> and \<open>s.rfind(pat, lo, hi)\<close> for a pattern that is not empty.\<close>

definition find_from :: "string \<Rightarrow> string \<Rightarrow> nat \<Rightarrow> nat option" where
  "find_from pat s k = List.find (occurs_at pat s) [k..<length s]"

definition rfind_in :: "string \<Rightarrow> string \<Rightarrow> nat \<Rightarrow> nat \<Rightarrow> nat option" where
  "rfind_in pat s lo hi = List.find (occurs_at pat s) (rev [lo..<Suc (min hi (length s)) - length pat])"

section \<open>Message tables\<close>

text \<open>
  The loop of \<open>_try_build_messages_offset_table_via_marker_dsv4\<close> over the messages, on the positions of the three markers. The
  arguments \<open>i\<close>, \<open>ui\<close>, \<open>ai\<close> and \<open>ei\<close> are the loop index, \<open>user_pos_idx\<close>, \<open>asst_pos_idx\<close> and \<open>eos_consumed\<close>.
\<close>

definition user_roles :: "json list" where "user_roles = [JStr ''user'', JStr ''developer'', JStr ''tool'']"

fun dsv4_scan :: "nat list \<Rightarrow> nat list \<Rightarrow> nat list \<Rightarrow> bool \<Rightarrow> nat \<Rightarrow> nat \<Rightarrow> nat \<Rightarrow> nat \<Rightarrow> json list \<Rightarrow> nat list option" where
  "dsv4_scan up ap ep sys i ui ai ei [] = Some []"
| "dsv4_scan up ap ep sys i ui ai ei (msg # rest) =
     (case msg of
        JObj kvs \<Rightarrow>
          (let role = part_get kvs ''role''
           in if i = 0 \<and> sys then
                (case up of
                   [] \<Rightarrow> None
                 | p # _ \<Rightarrow> map_option (Cons p) (dsv4_scan up ap ep sys (Suc i) ui ai ei rest))
              else if role \<in> set user_roles then
                (let next_user = (if ui + 1 < length up then Some (up ! (ui + 1)) else None)
                 in if ai < length ap \<and> (case next_user of None \<Rightarrow> True | Some u \<Rightarrow> ap ! ai < u)
                    then map_option (Cons (ap ! ai)) (dsv4_scan up ap ep sys (Suc i) (ui + 1) (ai + 1) ei rest)
                    else (case next_user of
                            Some u \<Rightarrow> map_option (Cons u) (dsv4_scan up ap ep sys (Suc i) (ui + 1) ai ei rest)
                          | None \<Rightarrow> None))
              else if role = JStr ''assistant'' then
                (if ei < length ep
                 then map_option (Cons (ep ! ei + 1)) (dsv4_scan up ap ep sys (Suc i) ui ai (ei + 1) rest)
                 else None)
              else None)
      | _ \<Rightarrow> None)"

definition has_system_at_start :: "json list \<Rightarrow> bool" where
  "has_system_at_start ms = (case ms of JObj kvs # _ \<Rightarrow> part_get kvs ''role'' = JStr ''system'' | _ \<Rightarrow> False)"

definition dsv4_table_of_ids :: "int \<Rightarrow> int \<Rightarrow> int \<Rightarrow> int list \<Rightarrow> json list \<Rightarrow> nat list option" where
  "dsv4_table_of_ids user_id asst_id eos_id ids ms =
     (let sys = has_system_at_start ms
      in case dsv4_scan (positions user_id ids) (positions asst_id ids) (positions eos_id ids) sys 0 (if sys then 1 else 0) 0 0 ms of
           None \<Rightarrow> None
         | Some result \<Rightarrow> if length result \<noteq> length ms then None else Some result)"

definition build_messages_offset_table_dsv4 :: "json \<Rightarrow> json \<Rightarrow> tokenizer option \<Rightarrow> nat list option" where
  "build_messages_offset_table_dsv4 messages tools tok =
     (case messages of
        JList ms \<Rightarrow>
          if ms = [] then None
          else (case (tok, try_get_token_id tok DSV4_EOS_MARKER, try_get_token_id tok DSV4_USER_MARKER,
                      try_get_token_id tok DSV4_ASSISTANT_MARKER) of
                  (Some t, Some eos_id, Some user_id, Some asst_id) \<Rightarrow>
                    (case template_guarded t True messages tools of
                       Some (Token_ids ids) \<Rightarrow> if ids = [] then None else dsv4_table_of_ids user_id asst_id eos_id ids ms
                     | _ \<Rightarrow> None)
                | _ \<Rightarrow> None)
      | _ \<Rightarrow> None)"

definition standard_table_of_ids :: "int \<Rightarrow> int list \<Rightarrow> nat \<Rightarrow> nat list option" where
  "standard_table_of_ids marker_id ids n =
     (let im_starts = positions marker_id ids
      in if length im_starts = n + 1 then Some (map (\<lambda>i. im_starts ! (i + 1)) [0..<n])
         else if length im_starts = n
         then Some (map (\<lambda>i. if i + 1 < length im_starts then im_starts ! (i + 1) else length ids) [0..<n])
         else None)"

definition build_messages_offset_table :: "json \<Rightarrow> json \<Rightarrow> tokenizer option \<Rightarrow> py_exn + nat list option" where
  "build_messages_offset_table messages tools tok =
     (case (tok, messages) of
        (Some t, JList ms) \<Rightarrow>
          if ms = [] then Inr None
          else (case detect_chat_marker_id tok of
                  None \<Rightarrow> Inr None
                | Some marker_id \<Rightarrow>
                    bind_result (template_half_guarded t True messages tools) (\<lambda>v.
                      case v of
                        Some (Token_ids ids) \<Rightarrow> Inr (if ids = [] then None else standard_table_of_ids marker_id ids (length ms))
                      | _ \<Rightarrow> Inr None))
      | _ \<Rightarrow> Inr None)"

section \<open>Tool tables\<close>

definition to_str :: "(json \<Rightarrow> string) \<Rightarrow> json \<Rightarrow> string" where
  "to_str str_of j = (case j of JStr s \<Rightarrow> s | _ \<Rightarrow> str_of j)"

text \<open>\<open>str((tool.get("function") or {}).get("name") or "")\<close>, empty where the code gives up.\<close>

definition tool_name :: "(json \<Rightarrow> string) \<Rightarrow> json \<Rightarrow> string" where
  "tool_name str_of tool =
     (case tool of
        JObj kvs \<Rightarrow>
          (case py_or (part_get kvs ''function'') (JObj []) of
             JObj fn \<Rightarrow> to_str str_of (py_or (part_get fn ''name'') (JStr ''''))
           | _ \<Rightarrow> '''')
      | _ \<Rightarrow> '''')"

definition quote_char :: string where "quote_char = [CHR 0x22]"

definition name_key :: string where "name_key = quote_char @ ''name'' @ quote_char @ '':''"

definition name_marker :: "string \<Rightarrow> string" where "name_marker nm = name_key @ '' '' @ quote_char @ nm @ quote_char"

text \<open>The anchor of a tool: its name, and the nearest opening brace before it.\<close>

definition name_anchor :: "string \<Rightarrow> string \<Rightarrow> nat \<Rightarrow> nat option" where
  "name_anchor full nm search_from =
     (case find_from (name_marker nm) full search_from of
        None \<Rightarrow> None
      | Some k \<Rightarrow> rfind_in ''{'' full search_from k)"

fun tool_positions_dsv4 :: "(json \<Rightarrow> string) \<Rightarrow> string \<Rightarrow> nat \<Rightarrow> json list \<Rightarrow> nat list option" where
  "tool_positions_dsv4 str_of full search_from [] = Some []"
| "tool_positions_dsv4 str_of full search_from (tool # rest) =
     (let nm = tool_name str_of tool
      in if nm = '''' then None
         else (case name_anchor full nm search_from of
                 None \<Rightarrow> None
               | Some p \<Rightarrow> map_option (Cons p) (tool_positions_dsv4 str_of full p rest)))"

definition resolve_tools_end_pos_dsv4 :: "string \<Rightarrow> nat list \<Rightarrow> nat option" where
  "resolve_tools_end_pos_dsv4 full char_positions =
     (if char_positions = [] then None
      else (case find_from DSV4_USER_MARKER full 0 of
              None \<Rightarrow> None
            | Some um \<Rightarrow> if um \<le> last char_positions then None else Some um))"

text \<open>From character positions to token positions, and the check that they do not decrease.\<close>

definition prefix_lengths :: "tokenizer \<Rightarrow> string \<Rightarrow> nat list \<Rightarrow> nat list option" where
  "prefix_lengths t full cps =
     (case map_result (\<lambda>cp. tk_encode t (take cp full)) cps of
        Inl _ \<Rightarrow> None
      | Inr xss \<Rightarrow> Some (map length xss))"

fun non_decreasing :: "nat list \<Rightarrow> bool" where
  "non_decreasing (x # y # zs) = (x \<le> y \<and> non_decreasing (y # zs))"
| "non_decreasing _ = True"

definition checked_prefix_lengths :: "tokenizer \<Rightarrow> string \<Rightarrow> nat list \<Rightarrow> nat list option" where
  "checked_prefix_lengths t full cps =
     (case prefix_lengths t full cps of
        None \<Rightarrow> None
      | Some tps \<Rightarrow> if non_decreasing tps then Some tps else None)"

definition build_tools_offset_table_dsv4 ::
  "(json \<Rightarrow> string) \<Rightarrow> json \<Rightarrow> json \<Rightarrow> tokenizer option \<Rightarrow> nat list option" where
  "build_tools_offset_table_dsv4 str_of messages tools tok =
     (case (tok, tools, messages) of
        (Some t, JList ts, JList _) \<Rightarrow>
          if ts = [] then None
          else (case template_guarded t True messages tools of
                  Some (Token_ids ids) \<Rightarrow>
                    if ids = [] then None
                    else (case tk_decode t ids of
                            Inr (JStr full) \<Rightarrow>
                              if full = '''' then None
                              else (case tool_positions_dsv4 str_of full 0 ts of
                                      None \<Rightarrow> None
                                    | Some cps \<Rightarrow>
                                        checked_prefix_lengths t full
                                          (cps @ [case resolve_tools_end_pos_dsv4 full cps of None \<Rightarrow> length full | Some e \<Rightarrow> e]))
                          | _ \<Rightarrow> None)
                | _ \<Rightarrow> None)
      | _ \<Rightarrow> None)"

text \<open>
  The walk through the occurrences of the opener of a function object: the first one whose next name is the tool's. Where a
  name, its opening or its closing quote is missing the walk stops without a result.
\<close>

definition function_opener :: string where
  "function_opener = ''{'' @ quote_char @ ''type'' @ quote_char @ '': '' @ quote_char @ ''function'' @ quote_char"

fun walk_openers :: "string \<Rightarrow> string \<Rightarrow> nat list \<Rightarrow> nat option" where
  "walk_openers full nm [] = None"
| "walk_openers full nm (idx # rest) =
     (case find_from name_key full idx of
        None \<Rightarrow> None
      | Some k \<Rightarrow>
          (case find_from quote_char full (k + length name_key) of
             None \<Rightarrow> None
           | Some name_start \<Rightarrow>
               (case find_from quote_char full (name_start + 1) of
                  None \<Rightarrow> None
                | Some name_end \<Rightarrow>
                    if take (name_end - (name_start + 1)) (drop (name_start + 1) full) = nm then Some idx
                    else walk_openers full nm rest)))"

definition locate_tool :: "string \<Rightarrow> string \<Rightarrow> nat \<Rightarrow> nat option" where
  "locate_tool full nm search_from =
     (case walk_openers full nm (filter (occurs_at function_opener full) [search_from..<length full]) of
        Some idx \<Rightarrow> Some idx
      | None \<Rightarrow> name_anchor full nm search_from)"

fun tool_positions :: "(json \<Rightarrow> string) \<Rightarrow> tokenizer \<Rightarrow> json \<Rightarrow> string \<Rightarrow> nat \<Rightarrow> json list \<Rightarrow> nat list option" where
  "tool_positions str_of t messages full search_from [] = Some []"
| "tool_positions str_of t messages full search_from (tool # rest) =
     (case template_guarded t False messages (JList [tool]) of
        Some (Rendered s_i) \<Rightarrow>
          (let nm = tool_name str_of tool
           in if s_i = '''' \<or> nm = '''' \<or> find_from (name_marker nm) s_i 0 = None then None
              else (case locate_tool full nm search_from of
                      None \<Rightarrow> None
                    | Some p \<Rightarrow> map_option (Cons p) (tool_positions str_of t messages full p rest)))
      | _ \<Rightarrow> None)"

definition tools_end_pos :: "string \<Rightarrow> nat \<Rightarrow> nat" where
  "tools_end_pos full last_pos =
     (let after = (\<lambda>closer. case rfind_in closer full 0 (length full) of None \<Rightarrow> None | Some k \<Rightarrow> if k > last_pos then Some k else None)
      in case after ''</tools>'' of
           Some k \<Rightarrow> k
         | None \<Rightarrow> (case after ''</tools_section>'' of Some k \<Rightarrow> k | None \<Rightarrow> length full))"

definition build_tools_offset_table ::
  "(json \<Rightarrow> string) \<Rightarrow> json \<Rightarrow> json \<Rightarrow> tokenizer option \<Rightarrow> nat list option" where
  "build_tools_offset_table str_of messages tools tok =
     (case (tok, tools, messages) of
        (Some t, JList ts, JList _) \<Rightarrow>
          if ts = [] then None
          else (case template_guarded t False messages tools of
                  Some (Rendered full) \<Rightarrow>
                    if full = '''' then None
                    else (case tool_positions str_of t messages full 0 ts of
                            None \<Rightarrow> None
                          | Some cps \<Rightarrow> checked_prefix_lengths t full (cps @ [tools_end_pos full (last cps)]))
                | _ \<Rightarrow> None)
      | _ \<Rightarrow> None)"

section \<open>Coordinates\<close>

type_synonym coord = "int \<times> int \<times> int"

definition prefix_diff_block_offset :: "json \<Rightarrow> int \<Rightarrow> int \<Rightarrow> nat list option \<Rightarrow> coord option" where
  "prefix_diff_block_offset messages msg_idx block_size messages_table =
     (case messages of
        JList ms \<Rightarrow>
          if ms = [] \<or> msg_idx < 0 \<or> msg_idx \<ge> int (length ms) then None
          else (case messages_table of
                  None \<Rightarrow> None
                | Some table \<Rightarrow>
                    if msg_idx \<ge> int (length table) then None
                    else (let token_idx = int (table ! nat msg_idx)
                          in if token_idx \<le> 0 then None
                             else Some (token_idx div block_size, token_idx mod block_size, token_idx)))
      | _ \<Rightarrow> None)"

definition align_block_for_op :: "int \<Rightarrow> int \<Rightarrow> string \<Rightarrow> string \<Rightarrow> int" where
  "align_block_for_op token_idx block_size align_policy boundary =
     (if block_size \<le> 0 then 0
      else (let block = token_idx div block_size; intra = token_idx mod block_size
            in if align_policy = ''negative'' then
                 max 0 (if boundary = ''start'' then block + (if intra \<noteq> 0 then 1 else 0)
                        else if boundary = ''end'' then block - (if intra \<noteq> block_size - 1 then 1 else 0)
                        else block)
               else block))"

text \<open>The three registered computers, which differ in their names only.\<close>

definition offset_computer :: "json \<Rightarrow> int \<Rightarrow> int \<Rightarrow> string \<Rightarrow> nat list option \<Rightarrow> coord option" where
  "offset_computer messages msg_idx block_size boundary messages_table =
     (case prefix_diff_block_offset messages msg_idx block_size messages_table of
        None \<Rightarrow> None
      | Some (_, intra, token_idx) \<Rightarrow> Some (align_block_for_op token_idx block_size ''positive'' boundary, intra, token_idx))"

definition edit_type_offset_computers :: "string list" where
  "edit_type_offset_computers = [''offload'', ''prefetch'', ''evict'']"

text \<open>\<open>block_size\<close> is a configuration value; \<open>as_int\<close> is defined exactly on the instances of \<open>int\<close>.\<close>

definition positive_int :: "json \<Rightarrow> int option" where
  "positive_int v = (case as_int v of None \<Rightarrow> None | Some b \<Rightarrow> if b \<le> 0 then None else Some b)"

definition compute_block_offset :: "json \<Rightarrow> int option \<Rightarrow> json \<Rightarrow> nat list option \<Rightarrow> py_exn + coord option" where
  "compute_block_offset messages msg_offset block_size messages_table =
     (case (positive_int block_size, messages, messages_table) of
        (Some b, JList ms, Some table) \<Rightarrow>
          if ms = [] then Inr None
          else (case msg_offset of
                  None \<Rightarrow> Inl TypeError
                | Some off \<Rightarrow>
                    (let effective = off - 1
                     in if effective < 0 \<or> effective \<ge> int (length table) then Inr None
                        else (let token_idx = int (table ! nat effective)
                              in if token_idx = 0 then Inr None
                                 else Inr (Some (token_idx div b, token_idx mod b, token_idx)))))
      | _ \<Rightarrow> Inr None)"

definition clamp :: "int \<Rightarrow> int \<Rightarrow> int" where "clamp x hi = max 0 (min x hi)"

text \<open>\<open>compute_edit_block_offset\<close>; \<open>None\<close> is the bare \<open>None\<close> it returns for an invalid block size.\<close>

definition tools_edit_offset :: "string \<Rightarrow> json \<Rightarrow> int option \<Rightarrow> int option \<Rightarrow> int \<Rightarrow> nat list option \<Rightarrow> coord option \<times> coord option" where
  "tools_edit_offset edit_type tools start endi b tools_table =
     (case (tools, tools_table) of
        (JList ts, Some table) \<Rightarrow>
          if ts = [] \<or> length table \<noteq> length ts + 1 then (None, None)
          else (let n_tools = int (length ts);
                    eff_start = (case start of None \<Rightarrow> 0 | Some s \<Rightarrow> clamp s n_tools);
                    eff_end = (case endi of None \<Rightarrow> n_tools | Some e \<Rightarrow> clamp e n_tools);
                    tst = int (table ! nat eff_start);
                    bo_start = (if eff_start = 0 then (tst div b, tst mod b, tst)
                                else (align_block_for_op tst b edit_type ''start'', tst mod b, tst));
                    te = int (table ! nat eff_end);
                    bo_end = (align_block_for_op te b edit_type ''end'', te mod b, te)
                in if eff_start = eff_end then (Some bo_start, None) else (Some bo_start, Some bo_end))
      | _ \<Rightarrow> (None, None))"

definition messages_edit_offset :: "json \<Rightarrow> int option \<Rightarrow> int option \<Rightarrow> int \<Rightarrow> nat list option \<Rightarrow> coord option \<times> coord option" where
  "messages_edit_offset messages start endi b messages_table =
     (let n = (case list_len messages of None \<Rightarrow> 0 | Some k \<Rightarrow> int k)
      in if n = 0 then (None, None)
         else (let eff_start = (case start of None \<Rightarrow> 0 | Some s \<Rightarrow> clamp s (n - 1));
                   eff_end = (case endi of None \<Rightarrow> n | Some e \<Rightarrow> clamp e n)
               in ((if eff_start = 0 then Some (0, 0, 0) else offset_computer messages (eff_start - 1) b ''start'' messages_table),
                   offset_computer messages (eff_end - 1) b ''end'' messages_table)))"

definition compute_edit_block_offset ::
  "string \<Rightarrow> json \<Rightarrow> json \<Rightarrow> int option \<Rightarrow> int option \<Rightarrow> json \<Rightarrow> string \<Rightarrow> nat list option \<Rightarrow> nat list option \<Rightarrow>
   (coord option \<times> coord option) option" where
  "compute_edit_block_offset edit_type messages tools start endi block_size target messages_table tools_table =
     (case positive_int block_size of
        None \<Rightarrow> None
      | Some b \<Rightarrow>
          Some (if target = ''session'' then (None, None)
                else if target = ''tools'' then tools_edit_offset edit_type tools start endi b tools_table
                else if edit_type \<notin> set edit_type_offset_computers then (None, None)
                else messages_edit_offset messages start endi b messages_table))"


section \<open>Attaching the coordinates\<close>

record req_info =
  ri_hint :: "agent_hint_info option"
  ri_data :: "(string, json) dict"

text \<open>\<open>calc.preprocess\<close>, \<open>calc.compute_messages\<close> and \<open>calc.compute_tools\<close> of the calculator chosen for the tokenizer.\<close>

definition calc_preprocess ::
  "(string \<Rightarrow> json option) \<Rightarrow> (json \<Rightarrow> string) \<Rightarrow> tokenizer option \<Rightarrow> json \<Rightarrow> json \<Rightarrow> py_exn + json \<times> json" where
  "calc_preprocess loads str_of tok messages tools =
     (if is_dsv4_tokenizer tok then preprocess_messages_for_dsv4 loads str_of messages tools else Inr (messages, tools))"

definition calc_messages :: "tokenizer option \<Rightarrow> json \<Rightarrow> json \<Rightarrow> py_exn + nat list option" where
  "calc_messages tok messages tools =
     (if is_dsv4_tokenizer tok then Inr (build_messages_offset_table_dsv4 messages tools tok)
      else build_messages_offset_table messages tools tok)"

definition calc_tools :: "(json \<Rightarrow> string) \<Rightarrow> tokenizer option \<Rightarrow> json \<Rightarrow> json \<Rightarrow> nat list option" where
  "calc_tools str_of tok messages tools =
     (if is_dsv4_tokenizer tok then build_tools_offset_table_dsv4 str_of messages tools tok
      else build_tools_offset_table str_of messages tools tok)"

text \<open>\<open>len\<close> of a value.\<close>

definition has_len :: "json \<Rightarrow> bool" where
  "has_len v = (case v of JList _ \<Rightarrow> True | JObj _ \<Rightarrow> True | JStr _ \<Rightarrow> True | _ \<Rightarrow> False)"

definition compute_tables ::
  "(string \<Rightarrow> json option) \<Rightarrow> (json \<Rightarrow> string) \<Rightarrow> tokenizer option \<Rightarrow> json \<Rightarrow> json \<Rightarrow>
   py_exn + (json \<times> json \<times> nat list option \<times> nat list option)" where
  "compute_tables loads str_of tok messages tools =
     (if \<not> has_len (py_or messages (JList [])) \<or> \<not> has_len (py_or tools (JList [])) then Inl TypeError
      else bind_result (calc_preprocess loads str_of tok messages tools) (\<lambda>(messages', tools').
           bind_result (calc_messages tok messages' tools') (\<lambda>messages_table.
             Inr (messages', tools', messages_table, calc_tools str_of tok messages' tools'))))"

text \<open>
  \<open>req_data.get("agent_hint") or {}\<close> and a \<open>setdefault\<close> on it. A truthy dictionary is the object inside the request data (the flag),
  so that the default is written there at once; otherwise it is a new dictionary.
\<close>

definition open_hint :: "(string, json) dict \<Rightarrow> py_exn + bool \<times> (string, json) dict" where
  "open_hint data =
     (let v = py_or (part_get data ''agent_hint'') (JObj [])
      in case v of
           JObj kvs \<Rightarrow> Inr (kvs \<noteq> [], kvs)
         | _ \<Rightarrow> Inl (AttributeError ''setdefault''))"

definition setdefault :: "string \<Rightarrow> (string, json) dict \<Rightarrow> (string, json) dict" where
  "setdefault k d = (if dmem k d then d else dset k (JObj []) d)"

definition write_hint :: "bool \<Rightarrow> (string, json) dict \<Rightarrow> (string, json) dict \<Rightarrow> (string, json) dict" where
  "write_hint live ah data = (if live then dset ''agent_hint'' (JObj ah) data else data)"

definition edit_entry :: "context_edit \<Rightarrow> json" where
  "edit_entry e =
     (let opt = (\<lambda>x. case x of None \<Rightarrow> JNull | Some k \<Rightarrow> JInt k)
      in JObj [(''type'', JStr (ce_type e)), (''target'', JStr (ce_target e)), (''start'', opt (ce_start e)), (''end'', opt (ce_end e))])"

text \<open>The list of edits of the request data, with the flag that it is the object there, or a new one built from the parsed edits.\<close>

definition edits_source :: "context_edit list \<Rightarrow> (string, json) dict \<Rightarrow> bool \<times> json list" where
  "edits_source edits cm =
     (case part_get cm ''edits'' of
        JList es \<Rightarrow> if length es = length edits then (True, es) else (False, map edit_entry edits)
      | _ \<Rightarrow> (False, map edit_entry edits))"

definition set_edit_start :: "coord \<Rightarrow> context_edit \<Rightarrow> context_edit" where
  "set_edit_start c e = (case c of (b, i, t) \<Rightarrow> e\<lparr>ce_block_start := Some b, ce_block_intra_start := Some i, ce_start_token := Some t\<rparr>)"

definition set_edit_end :: "coord \<Rightarrow> context_edit \<Rightarrow> context_edit" where
  "set_edit_end c e = (case c of (b, i, t) \<Rightarrow> e\<lparr>ce_block_end := Some b, ce_block_intra_end := Some i, ce_end_token := Some t\<rparr>)"

definition apply_opt :: "('a \<Rightarrow> 'b \<Rightarrow> 'b) \<Rightarrow> 'a option \<Rightarrow> 'b \<Rightarrow> 'b" where
  "apply_opt f x y = (case x of None \<Rightarrow> y | Some v \<Rightarrow> f v y)"

definition put_start :: "coord \<Rightarrow> (string, json) dict \<Rightarrow> (string, json) dict" where
  "put_start c d = (case c of (b, i, t) \<Rightarrow>
     dset ''start_token'' (JInt t) (dset ''block_intra_start'' (JInt i) (dset ''block_start'' (JInt b) d)))"

definition put_end :: "coord \<Rightarrow> (string, json) dict \<Rightarrow> (string, json) dict" where
  "put_end c d = (case c of (b, i, t) \<Rightarrow>
     dset ''end_token'' (JInt t) (dset ''block_intra_end'' (JInt i) (dset ''block_end'' (JInt b) d)))"

text \<open>
  One edit of the loop: the new edit, the new entry of the list, and whether the loop goes on. An invalid block size (a bare
  \<open>None\<close> is unpacked) and an entry that takes no string keys raise.
\<close>

definition attach_edit ::
  "json \<Rightarrow> json \<Rightarrow> json \<Rightarrow> nat list option \<Rightarrow> nat list option \<Rightarrow> context_edit \<Rightarrow> json \<Rightarrow> context_edit \<times> json \<times> bool" where
  "attach_edit messages tools block_size messages_table tools_table e j =
     (if ce_target e = ''session'' then
        (let eff_end = (case list_len messages of None \<Rightarrow> 0 | Some n \<Rightarrow> int n)
         in (e\<lparr>ce_start := Some 0, ce_end := Some eff_end\<rparr>,
             (case j of JObj d \<Rightarrow> JObj (dset ''end'' (JInt eff_end) (dset ''start'' (JInt 0) d)) | _ \<Rightarrow> j), True))
      else
        (case compute_edit_block_offset (ce_type e) messages tools (ce_start e) (ce_end e) block_size (ce_target e)
                messages_table tools_table of
           None \<Rightarrow> (e, j, False)
         | Some (bo_start, bo_end) \<Rightarrow>
             (let e' = apply_opt set_edit_end bo_end (apply_opt set_edit_start bo_start e)
              in if bo_start = None \<and> bo_end = None then (e', j, True)
                 else (case j of
                         JObj d \<Rightarrow> (e', JObj (apply_opt put_end bo_end (apply_opt put_start bo_start d)), True)
                       | _ \<Rightarrow> (e', j, False)))))"

fun attach_edits ::
  "json \<Rightarrow> json \<Rightarrow> json \<Rightarrow> nat list option \<Rightarrow> nat list option \<Rightarrow> context_edit list \<Rightarrow> json list \<Rightarrow>
   context_edit list \<times> json list \<times> bool" where
  "attach_edits messages tools block_size mt tt (e # es) (j # js) =
     (case attach_edit messages tools block_size mt tt e j of
        (e', j', ok) \<Rightarrow>
          if \<not> ok then (e' # es, j' # js, False)
          else (case attach_edits messages tools block_size mt tt es js of
                  (es', js', ok') \<Rightarrow> (e' # es', j' # js', ok')))"
| "attach_edits messages tools block_size mt tt es js = (es, js, True)"

definition set_cc_coord :: "coord \<Rightarrow> cache_control \<Rightarrow> cache_control" where
  "set_cc_coord c cc = (case c of (b, i, t) \<Rightarrow>
     cc\<lparr>cc_block_offset := Some b, cc_intra_block_offset := Some i, cc_token_offset := Some t\<rparr>)"

definition put_cc_coord :: "coord \<Rightarrow> (string, json) dict \<Rightarrow> (string, json) dict" where
  "put_cc_coord c d = (case c of (b, i, t) \<Rightarrow>
     dset ''token_offset'' (JInt t) (dset ''intra_block_offset'' (JInt i) (dset ''block_offset'' (JInt b) d)))"


text \<open>The three phases of \<open>attach_block_offsets\<close>, each with the flag that no exception was raised.\<close>

definition prepare_edits :: "context_edit list \<Rightarrow> (string, json) dict \<Rightarrow> bool \<times> (string, json) dict" where
  "prepare_edits edits data =
     (if edits = [] then (True, data)
      else (case open_hint data of
              Inl _ \<Rightarrow> (False, data)
            | Inr (live, ah) \<Rightarrow>
                (let ah' = setdefault ''context_management'' ah;
                     data' = write_hint live ah' data
                 in case part_get ah' ''context_management'' of JObj _ \<Rightarrow> (True, data') | _ \<Rightarrow> (False, data'))))"

definition attach_cache_control ::
  "json \<Rightarrow> json \<Rightarrow> nat list option \<Rightarrow> agent_hint_info \<Rightarrow> (string, json) dict \<Rightarrow> bool \<times> agent_hint_info \<times> (string, json) dict" where
  "attach_cache_control messages block_size messages_table h data =
     (case ah_cache_control h of
        None \<Rightarrow> (True, h, data)
      | Some cc \<Rightarrow>
          (case compute_block_offset messages (cc_msg_offset cc) block_size messages_table of
             Inl _ \<Rightarrow> (False, h, data)
           | Inr None \<Rightarrow> (True, h, data)
           | Inr (Some c) \<Rightarrow>
               (let h' = h\<lparr>ah_cache_control := Some (set_cc_coord c cc)\<rparr>
                in case open_hint data of
                     Inl _ \<Rightarrow> (False, h', data)
                   | Inr (live, ah) \<Rightarrow>
                       (let ah' = setdefault ''cache_control'' ah
                        in case part_get ah' ''cache_control'' of
                             JObj d \<Rightarrow> (True, h', dset ''agent_hint'' (JObj (dset ''cache_control'' (JObj (put_cc_coord c d)) ah')) data)
                           | _ \<Rightarrow> (False, h', write_hint live ah' data)))))"

definition attach_context_edits ::
  "json \<Rightarrow> json \<Rightarrow> json \<Rightarrow> nat list option \<Rightarrow> nat list option \<Rightarrow> context_management \<Rightarrow> agent_hint_info \<Rightarrow> (string, json) dict \<Rightarrow>
   agent_hint_info \<times> (string, json) dict" where
  "attach_context_edits messages tools block_size mt tt cm h data =
     (if cm_edits cm = [] then (h, data)
      else (case open_hint data of
              Inl _ \<Rightarrow> (h, data)
            | Inr (live, ah) \<Rightarrow>
                (let ah' = setdefault ''context_management'' ah
                 in case part_get ah' ''context_management'' of
                      JObj d \<Rightarrow>
                        (case edits_source (cm_edits cm) d of
                           (alias, js) \<Rightarrow>
                             (case attach_edits messages tools block_size mt tt (cm_edits cm) js of
                                (es', js', ok) \<Rightarrow>
                                  (let h' = h\<lparr>ah_context_management := Some (cm\<lparr>cm_edits := es'\<rparr>)\<rparr>;
                                       ah'' = dset ''context_management'' (JObj (dset ''edits'' (JList js') d)) ah'
                                   in (h', if ok then dset ''agent_hint'' (JObj ah'') data
                                           else write_hint live (if alias then ah'' else ah') data))))
                    | _ \<Rightarrow> (h, write_hint live ah' data))))"

definition attach_block_offsets ::
  "(string \<Rightarrow> json option) \<Rightarrow> (json \<Rightarrow> string) \<Rightarrow> tokenizer option \<Rightarrow> json \<Rightarrow> json \<Rightarrow> json \<Rightarrow> req_info \<Rightarrow> req_info" where
  "attach_block_offsets loads str_of tok block_size messages tools ri =
     (case ri_hint ri of
        None \<Rightarrow> ri
      | Some h \<Rightarrow>
          (if ah_session_id h = None \<or> ah_session_id h = Some '''' then ri
           else (case ah_context_management h of
                   None \<Rightarrow> ri
                 | Some cm \<Rightarrow>
                     if \<not> cm_manage_request cm then ri
                     else (case prepare_edits (cm_edits cm) (ri_data ri) of
                             (ok, data) \<Rightarrow>
                               if \<not> ok then ri\<lparr>ri_data := data\<rparr>
                               else (case (if list_ex (\<lambda>e. ce_target e = ''session'') (cm_edits cm) \<and> ah_cache_control h = None
                                           then Inr (messages, tools, None, None)
                                           else compute_tables loads str_of tok messages tools) of
                                       Inl _ \<Rightarrow> ri\<lparr>ri_data := data\<rparr>
                                     | Inr (messages', tools', mt, tt) \<Rightarrow>
                                         (case attach_cache_control messages' block_size mt h data of
                                            (ok', h', data') \<Rightarrow>
                                              if \<not> ok' then ri\<lparr>ri_hint := Some h', ri_data := data'\<rparr>
                                              else (case attach_context_edits messages' tools' block_size mt tt cm h' data' of
                                                      (h'', data'') \<Rightarrow> ri\<lparr>ri_hint := Some h'', ri_data := data''\<rparr>)))))))"

end
