(* ===== verification/Block_Offsets_Correctness.thy ===== *)
theory Block_Offsets_Correctness
  imports Block_Offsets
begin

text \<open>
  The marker scans of the block-offset translator compute the ends of the messages: the tables are compared with a
  reference rendering, in which every message contributes a segment of tokens. The coordinates attached to a hint are
  consistent, and the request data carries the same ones.
\<close>

section \<open>Positions of a token\<close>

fun pos_from :: "nat \<Rightarrow> int \<Rightarrow> int list \<Rightarrow> nat list" where
  "pos_from off t [] = []"
| "pos_from off t (x # xs) = (if x = t then [off] else []) @ pos_from (Suc off) t xs"

lemma pos_from_append: "pos_from off t (xs @ ys) = pos_from off t xs @ pos_from (off + length xs) t ys"
  by (induction xs arbitrary: off) auto

lemma pos_from_free: "t \<notin> set xs \<Longrightarrow> pos_from off t xs = []"
  by (induction xs arbitrary: off) auto

lemma pos_from_ge: "k \<in> set (pos_from off t xs) \<Longrightarrow> off \<le> k"
  by (induction xs arbitrary: off) (auto split: if_splits, fastforce)

lemma pos_from_positions: "pos_from off t xs = map ((+) off) (positions t xs)"
proof (induction xs arbitrary: off)
  case (Cons x xs)
  have "[0..<length (x # xs)] = 0 # map Suc [0..<length xs]" by (metis length_Cons map_Suc_upt upt_conv_Cons zero_less_Suc)
  then have "positions t (x # xs) = (if x = t then [0] else []) @ map Suc (positions t xs)"
    by (simp add: positions_def filter_map comp_def)
  with Cons [of "Suc off"] show ?case by simp
qed (simp add: positions_def)

lemma positions_pos_from: "positions t xs = pos_from 0 t xs"
  by (simp add: pos_from_positions map_idI)

section \<open>The reference rendering of a DSV4 conversation\<close>

text \<open>
  A turn is the text of one message, without markers. A user-like message starts with the user marker; the assistant marker
  stands between a user-like message and what follows it, unless that is user-like too; an assistant message ends with the end-of-sentence marker. The
  generation prompt follows the last message.
\<close>

datatype turn = User_turn "int list" | Asst_turn "int list"

fun render :: "int \<Rightarrow> int \<Rightarrow> int \<Rightarrow> bool \<Rightarrow> turn list \<Rightarrow> int list \<Rightarrow> int list" where
  "render u a e after_user [] gen = (if after_user then a # gen else gen)"
| "render u a e after_user (User_turn b # ts) gen = u # b @ render u a e True ts gen"
| "render u a e after_user (Asst_turn b # ts) gen = (if after_user then [a] else []) @ b @ [e] @ render u a e False ts gen"

text \<open>The end of each message, in tokens from the start of the stream.\<close>

fun turn_ends :: "nat \<Rightarrow> bool \<Rightarrow> turn list \<Rightarrow> nat list" where
  "turn_ends off after_user [] = []"
| "turn_ends off after_user (User_turn b # ts) = (off + 1 + length b) # turn_ends (off + 1 + length b) True ts"
| "turn_ends off after_user (Asst_turn b # ts) =
     (let k = off + of_bool after_user + length b + 1 in k # turn_ends k False ts)"

fun turn_tokens :: "turn \<Rightarrow> int list" where
  "turn_tokens (User_turn b) = b"
| "turn_tokens (Asst_turn b) = b"

fun is_user_turn :: "turn \<Rightarrow> bool" where
  "is_user_turn (User_turn _) = True"
| "is_user_turn (Asst_turn _) = False"

definition turn_of :: "turn \<Rightarrow> json \<Rightarrow> bool" where
  "turn_of t m = (case m of
     JObj kvs \<Rightarrow> if is_user_turn t then part_get kvs ''role'' \<in> set user_roles else part_get kvs ''role'' = JStr ''assistant''
   | _ \<Rightarrow> False)"

fun users_apart :: "turn list \<Rightarrow> bool" where
  "users_apart (t # t' # ts) = (\<not> (is_user_turn t \<and> is_user_turn t') \<and> users_apart (t' # ts))"
| "users_apart _ = True"

lemma users_apart_tl: "users_apart (t # ts) \<Longrightarrow> users_apart ts"
  by (cases ts) auto

definition marker_free :: "int \<Rightarrow> int \<Rightarrow> int \<Rightarrow> int list \<Rightarrow> bool" where
  "marker_free u a e xs = (u \<notin> set xs \<and> a \<notin> set xs \<and> e \<notin> set xs)"

text \<open>Whether the assistant marker that ends the last user-like message is still ahead.\<close>

definition marker_ahead :: "bool \<Rightarrow> turn list \<Rightarrow> bool" where
  "marker_ahead after_user ts = (after_user \<and> (ts = [] \<or> \<not> is_user_turn (hd ts)))"

lemma render_ahead: "marker_ahead True ts \<Longrightarrow> \<exists>r. render u a e True ts gen = a # r"
  by (cases ts; cases "hd ts") (auto simp: marker_ahead_def)

lemma render_not_ahead: "\<not> marker_ahead True ts \<Longrightarrow> \<exists>r. render u a e True ts gen = u # r"
  by (cases ts; cases "hd ts") (auto simp: marker_ahead_def)

text \<open>The step of a user-like message: it ends where the rest of the stream begins.\<close>

lemma scan_user_step:
  fixes rest :: "int list"
  assumes ap: "ap = pa @ pos_from k a rest" and up: "up = pu @ p # pos_from k u rest" and ua: "u \<noteq> a"
    and rest: "(\<exists>r. rest = a # r) \<and> ahead \<or> (\<exists>r. rest = u # r) \<and> \<not> ahead \<and> d = 0"
    and msg: "part_get kvs ''role'' \<in> set user_roles" and i: "0 < i \<or> \<not> sys"
  shows "dsv4_scan up ap ep sys i (length pu + d) (length pa) ei (JObj kvs # ms) =
    map_option (Cons k) (dsv4_scan up ap ep sys (Suc i) (length pu + d + 1) (length pa + of_bool ahead) ei ms)"
proof -
  let ?ui = "length pu + d"
  have i': "(i = 0 \<and> sys) = False" using i by auto
  define next_user where "next_user = (if ?ui + 1 < length up then Some (up ! (?ui + 1)) else None)"
  have scan: "dsv4_scan up ap ep sys i ?ui (length pa) ei (JObj kvs # ms) =
      (if length pa < length ap \<and> (case next_user of None \<Rightarrow> True | Some x \<Rightarrow> ap ! length pa < x)
       then map_option (Cons (ap ! length pa)) (dsv4_scan up ap ep sys (Suc i) (?ui + 1) (length pa + 1) ei ms)
       else (case next_user of
               Some x \<Rightarrow> map_option (Cons x) (dsv4_scan up ap ep sys (Suc i) (?ui + 1) (length pa) ei ms)
             | None \<Rightarrow> None))"
    unfolding dsv4_scan.simps json.case i' using msg by (simp add: next_user_def Let_def)
  from rest show ?thesis
  proof
    assume "(\<exists>r. rest = a # r) \<and> ahead"
    then obtain r where r: "rest = a # r" and ahead: ahead by blast
    have a: "length pa < length ap" "ap ! length pa = k" by (simp_all add: ap r)
    have "k < x" if "next_user = Some x" for x
    proof -
      from that have lt: "?ui + 1 < length up" and x: "x = up ! (?ui + 1)" by (auto simp: next_user_def split: if_splits)
      then have "x \<in> set (pos_from (Suc k) u r)" using ua by (auto simp: up r nth_append)
      then show ?thesis using pos_from_ge by fastforce
    qed
    then show ?thesis unfolding scan using a ahead by (auto split: option.splits)
  next
    assume "(\<exists>r. rest = u # r) \<and> \<not> ahead \<and> d = 0"
    then obtain r where r: "rest = u # r" and ahead: "\<not> ahead" and d: "d = 0" by blast
    have "next_user = Some k" by (simp add: next_user_def up r d nth_append)
    moreover have "\<not> ap ! length pa < k" if "length pa < length ap"
    proof -
      from that have "ap ! length pa \<in> set (pos_from k a rest)" by (auto simp: ap nth_append)
      then show ?thesis using pos_from_ge by fastforce
    qed
    ultimately show ?thesis unfolding scan using ahead by auto
  qed
qed

lemma scan_asst_step:
  assumes "ep = pe @ k # q" and "part_get kvs ''role'' = JStr ''assistant''" and "0 < i \<or> \<not> sys"
  shows "dsv4_scan up ap ep sys i ui ai (length pe) (JObj kvs # ms) =
    map_option (Cons (Suc k)) (dsv4_scan up ap ep sys (Suc i) ui ai (length pe + 1) ms)"
  using assms by (auto simp: user_roles_def)

lemma scan_render:
  assumes "list_all2 turn_of ts ms" and "\<forall>t \<in> set ts. marker_free u a e (turn_tokens t)" and "marker_free u a e gen"
    and dist: "distinct [u, a, e]" and "d = 0 \<or> users_apart ts" and "0 < i \<or> \<not> sys"
    and "up = pu @ pos_from off u (render u a e au ts gen)" and "ap = pa @ pos_from off a (render u a e au ts gen)"
    and "ep = pe @ pos_from off e (render u a e au ts gen)"
  shows "dsv4_scan up ap ep sys i (length pu + d) (length pa + of_bool (marker_ahead au ts)) (length pe) ms = Some (turn_ends off au ts)"
  using assms(1,2,5-)
proof (induction ts arbitrary: ms i pu pa pe off au)
  case Nil
  then show ?case by simp
next
  case (Cons t ts)
  then obtain m ms' where ms: "ms = m # ms'" "turn_of t m" "list_all2 turn_of ts ms'" by (auto simp: list_all2_Cons1)
  then obtain kvs where m: "m = JObj kvs" by (cases m) (auto simp: turn_of_def)
  have neq: "u \<noteq> a" "u \<noteq> e" "a \<noteq> e" using dist by auto
  have apart: "d = 0 \<or> users_apart ts" using Cons.prems(3) users_apart_tl by blast
  show ?case
  proof (cases t)
    case (User_turn b)
    let ?k = "off + 1 + length b" and ?rest = "render u a e True ts gen"
    have free: "u \<notin> set b" "a \<notin> set b" "e \<notin> set b" using Cons.prems(2) by (auto simp: User_turn marker_free_def)
    have up: "up = pu @ off # pos_from ?k u ?rest" and ap: "ap = pa @ pos_from ?k a ?rest" and ep: "ep = pe @ pos_from ?k e ?rest"
      using Cons.prems(5-7) free neq by (auto simp: User_turn pos_from_append pos_from_free)
    have rest: "(\<exists>r. ?rest = a # r) \<and> marker_ahead True ts \<or> (\<exists>r. ?rest = u # r) \<and> \<not> marker_ahead True ts \<and> d = 0"
    proof (cases "marker_ahead True ts")
      case False
      then have "d = 0" using Cons.prems(3) by (cases ts) (auto simp: marker_ahead_def User_turn)
      with False render_not_ahead show ?thesis by blast
    qed (use render_ahead in blast)
    have role: "part_get kvs ''role'' \<in> set user_roles" using ms(2) by (simp add: turn_of_def m User_turn)
    have "dsv4_scan up ap ep sys (Suc i) (length (pu @ [off]) + d) (length pa + of_bool (marker_ahead True ts)) (length pe) ms' =
        Some (turn_ends ?k True ts)"
      by (rule Cons.IH) (use ms apart Cons.prems up ap ep in auto)
    with scan_user_step [OF ap up neq(1) rest role Cons.prems(4), of ep "length pe" ms'] show ?thesis
      by (simp add: ms m User_turn marker_ahead_def)
  next
    case (Asst_turn b)
    let ?k = "off + of_bool au + length b" and ?rest = "render u a e False ts gen"
    have free: "u \<notin> set b" "a \<notin> set b" "e \<notin> set b" using Cons.prems(2) by (auto simp: Asst_turn marker_free_def)
    have up: "up = pu @ pos_from (Suc ?k) u ?rest" and ap: "ap = (pa @ (if au then [off] else [])) @ pos_from (Suc ?k) a ?rest"
      and ep: "ep = pe @ ?k # pos_from (Suc ?k) e ?rest"
      using Cons.prems(5-7) free neq by (auto simp: Asst_turn pos_from_append pos_from_free)
    have role: "part_get kvs ''role'' = JStr ''assistant''" using ms(2) by (simp add: turn_of_def m Asst_turn)
    have "dsv4_scan up ap ep sys (Suc i) (length pu + d) (length (pa @ (if au then [off] else [])) + of_bool (marker_ahead False ts))
        (length (pe @ [?k])) ms' = Some (turn_ends (Suc ?k) False ts)"
      by (rule Cons.IH) (use ms apart Cons.prems up ap ep in auto)
    then show ?thesis
      by (cases au) (simp_all del: dsv4_scan.simps add: ms m Asst_turn marker_ahead_def Let_def scan_asst_step [OF ep role Cons.prems(4)])
  qed
qed

lemma system_message_first:
  assumes "has_system_at_start (m # ms)"
  obtains kvs where "m = JObj kvs"
  using assms by (cases m) (simp_all add: has_system_at_start_def)

lemma turns_not_system: "list_all2 turn_of ts ms \<Longrightarrow> \<not> has_system_at_start ms"
  by (cases ms; cases ts; cases "hd ms") (auto simp: has_system_at_start_def turn_of_def user_roles_def split: if_splits)

lemma turn_ends_length: "length (turn_ends off au ts) = length ts"
  by (induction ts arbitrary: off au rule: list.induct) (simp, case_tac x1, simp_all add: Let_def)


definition demo_dsv4 :: tokenizer where
  "demo_dsv4 = \<lparr>tk_class_names = [''DSV4Tokenizer''],
     tk_convert = (\<lambda>s. Inr (if s = DSV4_USER_MARKER then Some 1 else if s = DSV4_ASSISTANT_MARKER then Some 2
                            else if s = DSV4_EOS_MARKER then Some 3 else None)),
     tk_unk = None,
     tk_encode = (\<lambda>s. Inr (if s = DSV4_USER_MARKER then [1] else if s = DSV4_ASSISTANT_MARKER then [2]
                            else if s = DSV4_EOS_MARKER then [3] else map (\<lambda>_. 9) s)),
     tk_decode = (\<lambda>_. Inr (JStr '''')),
     tk_template = (\<lambda>_ _ ms _. Inr (Token_ids
        (case ms of
           JList [_, _] \<Rightarrow> [0, 9, 1, 9, 9, 2, 8]
         | JList [_, _, _] \<Rightarrow> [0, 1, 9, 1, 9, 9, 2, 9, 3]
         | _ \<Rightarrow> [0, 9, 1, 9, 1, 9, 2, 9, 3])))\<rparr>"

definition demo_message :: "string \<Rightarrow> json" where
  "demo_message role = JObj [(''role'', JStr role)]"

lemma demo_dsv4_markers:
  "try_get_token_id (Some demo_dsv4) DSV4_USER_MARKER = Some 1"
  "try_get_token_id (Some demo_dsv4) DSV4_ASSISTANT_MARKER = Some 2"
  "try_get_token_id (Some demo_dsv4) DSV4_EOS_MARKER = Some 3"
  by (simp_all add: try_get_token_id_def single_token_def demo_dsv4_def DSV4_USER_MARKER_def DSV4_ASSISTANT_MARKER_def
      DSV4_EOS_MARKER_def bar_def low_bar_def)

lemmas demo_dsv4_facts = demo_dsv4_markers turn_of_def demo_message_def part_get_def user_roles_def marker_free_def
  has_system_at_start_def


text \<open>
  With a system message in front the scan starts with \<open>user_pos_idx = 1\<close>, so that the next user marker of the first user-like message is looked up one too
  far: two adjacent user-like messages (a user message after a developer message, two tool results) make the table unavailable, although
  the same conversation without the system message has one.
\<close>

lemma system_shifts_user_index:
  "build_messages_offset_table_dsv4 (JList (map demo_message [''system'', ''user'', ''user'', ''assistant''])) JNull (Some demo_dsv4) = None \<and>
   dsv4_table_of_ids 1 2 3 [0, 9, 1, 9, 1, 9, 2, 9, 3] (map demo_message [''user'', ''user'', ''assistant'']) = Some [4, 6, 9]"
proof -
  have pos: "positions 1 [0, 9, 1, 9, 1, 9, 2, 9, 3] = [2, 4]" "positions 2 [0, 9, 1, 9, 1, 9, 2, 9, 3] = [6]"
    "positions 3 [0, 9, 1, 9, 1, 9, 2, 9, 3] = [8]"
    by (simp_all add: positions_pos_from)
  have "tk_template demo_dsv4 True True (JList (map demo_message [''system'', ''user'', ''user'', ''assistant''])) JNull =
      Inr (Token_ids [0, 9, 1, 9, 1, 9, 2, 9, 3])"
    by (simp add: demo_dsv4_def)
  then show ?thesis
    by (simp add: build_messages_offset_table_dsv4_def demo_dsv4_facts template_guarded_def dsv4_table_of_ids_def pos Let_def)
qed

section \<open>Templates with one marker per message\<close>

fun seg_starts :: "nat \<Rightarrow> int list list \<Rightarrow> nat list" where
  "seg_starts off [] = []"
| "seg_starts off (b # bs) = off # seg_starts (off + 1 + length b) bs"

fun seg_ends :: "nat \<Rightarrow> int list list \<Rightarrow> nat list" where
  "seg_ends off [] = []"
| "seg_ends off (b # bs) = (off + 1 + length b) # seg_ends (off + 1 + length b) bs"

definition segments :: "int \<Rightarrow> int list list \<Rightarrow> int list" where
  "segments mk bodies = concat (map (Cons mk) bodies)"

lemma segments_simps [simp]: "segments mk [] = []" "segments mk (b # bs) = mk # b @ segments mk bs"
  by (simp_all add: segments_def)

lemma seg_lengths [simp]: "length (seg_ends off bs) = length bs" "length (seg_starts off bs) = length bs"
  by (induction bs arbitrary: off) simp_all

lemma seg_starts_ends: "seg_starts off bs @ [off + length (segments mk bs)] = off # seg_ends off bs"
proof (induction bs arbitrary: off)
  case (Cons b bs)
  from Cons.IH [of "off + 1 + length b"] show ?case by (simp add: add.assoc)
qed simp

lemma pos_from_segments: "\<forall>b \<in> set bs. mk \<notin> set b \<Longrightarrow> pos_from off mk (segments mk bs) = seg_starts off bs"
  by (induction bs arbitrary: off) (simp_all add: pos_from_append pos_from_free)

lemma map_nth_Suc: "map (\<lambda>i. (x # xs) ! (i + 1)) [0..<length xs] = xs"
  by (simp add: map_nth)

text \<open>
  The marker-counting table: when every message contributes one marker and text without it, the table holds the ends of
  the messages, whether or not the generation prompt adds a marker of its own.
\<close>

lemma standard_table_ends:
  assumes free: "mk \<notin> set pre" "\<forall>b \<in> set bs. mk \<notin> set b" "mk \<notin> set gen" and tail: "tail = [] \<or> tail = mk # gen"
  shows "standard_table_of_ids mk (pre @ segments mk bs @ tail) (length bs) = Some (seg_ends (length pre) bs)"
proof -
  let ?ids = "pre @ segments mk bs @ tail" and ?off = "length pre" and ?n = "length bs"
  have pos: "positions mk ?ids = seg_starts ?off bs @ pos_from (?off + length (segments mk bs)) mk tail"
    using free by (simp add: positions_pos_from pos_from_append pos_from_free pos_from_segments)
  have table: "map (\<lambda>i. (seg_starts ?off bs @ [?off + length (segments mk bs)]) ! (i + 1)) [0..<?n] = seg_ends ?off bs"
    unfolding seg_starts_ends using map_nth_Suc [of ?off "seg_ends ?off bs"] by simp
  from tail show ?thesis
  proof
    assume "tail = mk # gen"
    with pos table free(3) show ?thesis by (simp add: standard_table_of_ids_def pos_from_free)
  next
    assume t: "tail = []"
    have "map (\<lambda>i. if i + 1 < ?n then seg_starts ?off bs ! (i + 1) else length ?ids) [0..<?n] =
        map (\<lambda>i. (seg_starts ?off bs @ [?off + length (segments mk bs)]) ! (i + 1)) [0..<?n]"
      by (rule map_cong) (auto simp: nth_append t less_Suc_eq_le)
    then have "map (\<lambda>i. if i + 1 < ?n then seg_starts ?off bs ! (i + 1) else length ?ids) [0..<?n] = seg_ends ?off bs"
      unfolding table .
    moreover have starts: "positions mk ?ids = seg_starts ?off bs" using pos by (simp add: t)
    ultimately show ?thesis unfolding standard_table_of_ids_def Let_def starts by simp
  qed
qed

section \<open>Tool tables\<close>

lemma tool_positions_dsv4_length: "tool_positions_dsv4 str_of full k ts = Some cps \<Longrightarrow> length cps = length ts"
  by (induction ts arbitrary: k cps) (auto simp: Let_def split: if_splits option.splits)

lemma tool_positions_length: "tool_positions str_of t messages full k ts = Some cps \<Longrightarrow> length cps = length ts"
  by (induction ts arbitrary: k cps) (auto simp: Let_def split: if_splits option.splits template_value.splits)

lemma non_decreasing_sorted: "non_decreasing xs = sorted xs"
  by (induction xs rule: non_decreasing.induct) (auto intro: order_trans)

lemma checked_prefix_lengths_ok:
  "checked_prefix_lengths t full cps = Some tps \<Longrightarrow> length tps = length cps \<and> sorted tps"
  by (auto simp: checked_prefix_lengths_def prefix_lengths_def non_decreasing_sorted dest: map_result_length
      split: option.splits sum.splits if_splits)

lemma tools_table_shape:
  assumes "calc_tools str_of tok messages tools = Some table"
  shows "\<exists>ts. tools = JList ts \<and> ts \<noteq> [] \<and> length table = length ts + 1 \<and> sorted table"
proof (cases "is_dsv4_tokenizer tok")
  case True
  then show ?thesis using assms
    by (auto simp: calc_tools_def build_tools_offset_table_dsv4_def dest!: checked_prefix_lengths_ok tool_positions_dsv4_length
        split: option.splits json.splits template_value.splits if_splits sum.splits)
next
  case False
  then show ?thesis using assms
    by (auto simp: calc_tools_def build_tools_offset_table_def dest!: checked_prefix_lengths_ok tool_positions_length
        split: option.splits json.splits template_value.splits if_splits)
qed

section \<open>Coordinates\<close>

text \<open>A triple of block, offset in the block and token.\<close>

definition coord_ok :: "int \<Rightarrow> coord \<Rightarrow> bool" where
  "coord_ok b c = (case c of (blk, intra, tk) \<Rightarrow> 0 \<le> blk \<and> 0 \<le> intra \<and> intra < b \<and> 0 \<le> tk \<and> tk = blk * b + intra)"

lemma coord_okI: "0 < b \<Longrightarrow> 0 \<le> k \<Longrightarrow> coord_ok b (k div b, k mod b, k)"
  by (simp add: coord_ok_def pos_imp_zdiv_nonneg_iff)

lemma align_positive: "0 < b \<Longrightarrow> ty \<noteq> ''negative'' \<Longrightarrow> align_block_for_op k b ty bd = k div b"
  by (simp add: align_block_for_op_def Let_def)

lemma offset_computer_ok:
  assumes "offset_computer messages i b bd mt = Some c" and "0 < b"
  shows "coord_ok b c"
  using assms by (auto simp: offset_computer_def prefix_diff_block_offset_def align_positive Let_def intro!: coord_okI
      split: option.splits json.splits if_splits)

lemma messages_edit_ok:
  assumes "messages_edit_offset messages s e b mt = (x, y)" and "0 < b" and "c \<in> set_option x \<union> set_option y"
  shows "coord_ok b c"
proof -
  have "coord_ok b (0, 0, 0)" using assms(2) by (simp add: coord_ok_def)
  then show ?thesis
    using assms by (auto simp: messages_edit_offset_def Let_def split: if_splits dest: offset_computer_ok [rotated])
qed

lemma tools_edit_ok:
  assumes "tools_edit_offset ty tools s e b tt = (x, y)" and "0 < b" and "ty \<noteq> ''negative''" and "c \<in> set_option x \<union> set_option y"
  shows "coord_ok b c"
  using assms by (auto simp: tools_edit_offset_def align_positive Let_def intro!: coord_okI split: json.splits option.splits if_splits)

lemma positive_int_pos: "positive_int v = Some b \<Longrightarrow> 0 < b"
  by (auto simp: positive_int_def split: option.splits if_splits)

lemma compute_edit_ok:
  assumes "compute_edit_block_offset ty messages tools s e bs target mt tt = Some (x, y)" and b: "positive_int bs = Some b"
    and "ty \<noteq> ''negative''" and "c \<in> set_option x \<union> set_option y"
  shows "coord_ok b c"
  using assms(1,3,4) messages_edit_ok [OF _ positive_int_pos [OF b]] tools_edit_ok [OF _ positive_int_pos [OF b]]
  by (auto simp: compute_edit_block_offset_def b split: if_splits)

section \<open>The attached coordinates\<close>

text \<open>The coordinates of an edit and of its entry in the request data are the same; a coordinate that is unset is absent there.\<close>

definition same_coords :: "context_edit \<Rightarrow> json \<Rightarrow> bool" where
  "same_coords e j = (case j of
     JObj d \<Rightarrow>
       dget d ''block_start'' = map_option JInt (ce_block_start e) \<and>
       dget d ''block_intra_start'' = map_option JInt (ce_block_intra_start e) \<and>
       dget d ''start_token'' = map_option JInt (ce_start_token e) \<and>
       dget d ''block_end'' = map_option JInt (ce_block_end e) \<and>
       dget d ''block_intra_end'' = map_option JInt (ce_block_intra_end e) \<and>
       dget d ''end_token'' = map_option JInt (ce_end_token e)
   | _ \<Rightarrow> False)"

definition coords_ok :: "int \<Rightarrow> context_edit \<Rightarrow> bool" where
  "coords_ok b e \<longleftrightarrow>
     (case (ce_block_start e, ce_block_intra_start e, ce_start_token e) of
        (None, None, None) \<Rightarrow> True | (Some x, Some y, Some z) \<Rightarrow> coord_ok b (x, y, z) | _ \<Rightarrow> False) \<and>
     (case (ce_block_end e, ce_block_intra_end e, ce_end_token e) of
        (None, None, None) \<Rightarrow> True | (Some x, Some y, Some z) \<Rightarrow> coord_ok b (x, y, z) | _ \<Rightarrow> False)"

definition unset :: "context_edit \<Rightarrow> bool" where
  "unset e \<longleftrightarrow> ce_block_start e = None \<and> ce_block_intra_start e = None \<and> ce_start_token e = None \<and>
     ce_block_end e = None \<and> ce_block_intra_end e = None \<and> ce_end_token e = None"

definition no_server_fields :: "json \<Rightarrow> bool" where
  "no_server_fields j = (case j of JObj d \<Rightarrow> \<forall>k \<in> set EDIT_SERVER_ONLY_FIELDS. dget d k = None | _ \<Rightarrow> False)"

lemmas coord_setters = apply_opt_def set_edit_start_def set_edit_end_def put_start_def put_end_def

lemma same_coords_start:
  assumes "\<forall>k \<in> set EDIT_SERVER_ONLY_FIELDS. dget d k = None" and "unset e"
  shows "same_coords (apply_opt set_edit_start x e) (JObj (apply_opt put_start x d))"
proof (cases x)
  case None
  with assms show ?thesis by (simp add: same_coords_def apply_opt_def unset_def EDIT_SERVER_ONLY_FIELDS_def)
next
  case (Some c)
  obtain blk i tk where "c = (blk, i, tk)" by (rule prod_cases3)
  with Some assms show ?thesis by (simp add: same_coords_def coord_setters unset_def EDIT_SERVER_ONLY_FIELDS_def)
qed

lemma same_coords_end: "same_coords e (JObj d) \<Longrightarrow> same_coords (apply_opt set_edit_end y e) (JObj (apply_opt put_end y d))"
proof (cases y)
  case (Some c)
  assume same: "same_coords e (JObj d)"
  obtain blk i tk where "c = (blk, i, tk)" by (rule prod_cases3)
  with Some same show ?thesis by (simp add: same_coords_def coord_setters)
qed (simp add: apply_opt_def)

lemmas set_coords_same = same_coords_end [OF same_coords_start]

lemma set_coords_ok:
  assumes "unset e" and "\<forall>c. x = Some c \<longrightarrow> coord_ok b c" and "\<forall>c. y = Some c \<longrightarrow> coord_ok b c"
  shows "coords_ok b (apply_opt set_edit_end y (apply_opt set_edit_start x e))"
  using assms by (cases x; cases y) (auto simp: coords_ok_def coord_setters unset_def)

lemma set_coords_keep:
  "ce_type (apply_opt set_edit_end y (apply_opt set_edit_start x e)) = ce_type e"
  "ce_target (apply_opt set_edit_end y (apply_opt set_edit_start x e)) = ce_target e"
  by (cases x; cases y; simp add: coord_setters split: prod.splits)+

lemma attach_edit_coords:
  assumes "ce_target e \<noteq> ''session''"
    and "compute_edit_block_offset (ce_type e) messages tools (ce_start e) (ce_end e) bs (ce_target e) mt tt = Some (x, y)"
  shows "attach_edit messages tools bs mt tt e (JObj d) =
    (apply_opt set_edit_end y (apply_opt set_edit_start x e), JObj (apply_opt put_end y (apply_opt put_start x d)), True)"
  unfolding attach_edit_def assms(2) using assms(1) by (simp add: Let_def apply_opt_def)

lemma attach_edit_ok:
  assumes un: "unset e" and ty: "ce_type e \<noteq> ''negative''" and j: "no_server_fields j" and b: "positive_int bs = Some b"
    and att: "attach_edit messages tools bs mt tt e j = (e', j', ok)"
  shows "ok \<and> same_coords e' j' \<and> coords_ok b e' \<and> ce_type e' = ce_type e \<and> ce_target e' = ce_target e"
proof -
  obtain d where d: "j = JObj d" and none: "\<forall>k \<in> set EDIT_SERVER_ONLY_FIELDS. dget d k = None"
    using j by (cases j) (simp_all add: no_server_fields_def)
  show ?thesis
  proof (cases "ce_target e = ''session''")
    case True
    with att un none show ?thesis
      by (auto simp: attach_edit_def d Let_def same_coords_def coords_ok_def unset_def EDIT_SERVER_ONLY_FIELDS_def)
  next
    case False
    obtain p where "compute_edit_block_offset (ce_type e) messages tools (ce_start e) (ce_end e) bs (ce_target e) mt tt = Some p"
      unfolding compute_edit_block_offset_def b option.case by blast
    then obtain x y where xy: "compute_edit_block_offset (ce_type e) messages tools (ce_start e) (ce_end e) bs (ce_target e) mt tt = Some (x, y)"
      by (cases p) blast
    have cx: "\<forall>c. x = Some c \<longrightarrow> coord_ok b c" and cy: "\<forall>c. y = Some c \<longrightarrow> coord_ok b c"
      using compute_edit_ok [OF xy b ty] by simp_all
    from att [unfolded d attach_edit_coords [OF False xy]] set_coords_same [OF none un] set_coords_ok [OF un cx cy] set_coords_keep
    show ?thesis by (metis prod.inject)
  qed
qed

lemma attach_edits_ok:
  assumes "\<forall>e \<in> set es. unset e \<and> ce_type e \<noteq> ''negative''" and "\<forall>j \<in> set js. no_server_fields j" and "length es = length js"
    and b: "positive_int bs = Some b" and "attach_edits messages tools bs mt tt es js = (es', js', ok)"
  shows "ok \<and> list_all2 same_coords es' js' \<and> (\<forall>e \<in> set es'. coords_ok b e) \<and>
    map ce_type es' = map ce_type es \<and> map ce_target es' = map ce_target es"
  using assms(3,1,2,5)
proof (induction es js arbitrary: es' js' ok rule: list_induct2)
  case (Cons e es j js)
  obtain e1 j1 ok1 where one: "attach_edit messages tools bs mt tt e j = (e1, j1, ok1)" by (rule prod_cases3)
  obtain es2 js2 ok2 where all: "attach_edits messages tools bs mt tt es js = (es2, js2, ok2)" by (rule prod_cases3)
  have "ok1 \<and> same_coords e1 j1 \<and> coords_ok b e1 \<and> ce_type e1 = ce_type e \<and> ce_target e1 = ce_target e"
    using attach_edit_ok [OF _ _ _ b one] Cons.prems by simp
  with Cons.IH [OF _ _ all] Cons.prems one all show ?case by auto
qed simp

text \<open>What the parser kept: where no entry was dropped, the entries are dictionaries without server-only fields.\<close>

lemma parse_edits_length: "length (parse_edits es messages tools) \<le> length es"
  by (induction es) (auto split: json.splits sum.splits intro: le_SucI)

lemma parse_edits_all_kept:
  assumes "length (parse_edits es messages tools) = length es" and "j \<in> set es"
  shows "no_server_fields j"
  using assms
proof (induction es)
  case (Cons x es)
  have le: "length (parse_edits es messages tools) \<le> length es" by (rule parse_edits_length)
  obtain kvs where x: "x = JObj kvs" and none: "\<not> list_ex (\<lambda>kv. fst kv \<in> set EDIT_SERVER_ONLY_FIELDS) kvs"
    and len: "length (parse_edits es messages tools) = length es"
    using Cons.prems(1) le by (auto split: json.splits sum.splits if_splits)
  have "no_server_fields x"
    using none by (auto simp: x no_server_fields_def list_ex_iff map_of_eq_None_iff)
  with Cons len show ?case by auto
qed simp

lemma edit_entry_fields: "no_server_fields (edit_entry e)"
  by (simp add: no_server_fields_def edit_entry_def EDIT_SERVER_ONLY_FIELDS_def Let_def)

text \<open>The dictionary of the context management inside the request data.\<close>

definition cm_path :: "(string, json) dict \<Rightarrow> (string, json) dict \<Rightarrow> bool" where
  "cm_path data d \<longleftrightarrow> (\<exists>ah. dget data ''agent_hint'' = Some (JObj ah) \<and> dget ah ''context_management'' = Some (JObj d))"

lemma cm_path_open:
  assumes "cm_path data d"
  obtains ah where "open_hint data = Inr (True, ah)" "dget ah ''context_management'' = Some (JObj d)"
proof -
  obtain ah where ah: "dget data ''agent_hint'' = Some (JObj ah)" "dget ah ''context_management'' = Some (JObj d)"
    using assms by (auto simp: cm_path_def)
  then have "ah \<noteq> []" by auto
  with ah have "open_hint data = Inr (True, ah)" by (simp add: open_hint_def part_get_def py_or_def Let_def)
  with ah(2) that show ?thesis by blast
qed

lemma prepare_edits_path:
  assumes "cm_path data d"
  shows "\<exists>data'. prepare_edits edits data = (True, data') \<and> cm_path data' d"
proof -
  obtain ah where ah: "open_hint data = Inr (True, ah)" "dget ah ''context_management'' = Some (JObj d)" by (rule cm_path_open [OF assms])
  have "setdefault ''context_management'' ah = ah" using ah(2) by (simp add: setdefault_def dmem_def)
  with ah assms show ?thesis by (auto simp: prepare_edits_def Let_def part_get_def write_hint_def cm_path_def)
qed

lemma attach_cache_control_path:
  assumes "cm_path data d" and "attach_cache_control messages bs mt h data = (ok, h', data')"
  shows "cm_path data' d \<and> ah_context_management h' = ah_context_management h"
proof -
  obtain ah where ah: "open_hint data = Inr (True, ah)" "dget ah ''context_management'' = Some (JObj d)" by (rule cm_path_open [OF assms(1)])
  have "dget (setdefault ''cache_control'' ah) ''context_management'' = Some (JObj d)" using ah(2) by (simp add: setdefault_def)
  with assms ah show ?thesis
    by (auto simp: attach_cache_control_def Let_def write_hint_def cm_path_def
        split: option.splits sum.splits json.splits)
qed

lemma attach_context_edits_agree:
  assumes path: "cm_path data d" and edits: "cm_edits cm = parse_edits entries messages0 tools0" "cm_edits cm \<noteq> []"
    and entries: "\<forall>es. dget d ''edits'' = Some (JList es) \<longrightarrow> entries = es" and b: "positive_int bs = Some b"
    and att: "attach_context_edits messages tools bs mt tt cm h data = (h', data')"
  shows "\<exists>cm' d' js. ah_context_management h' = Some cm' \<and> cm_path data' d' \<and> dget d' ''edits'' = Some (JList js) \<and>
    list_all2 same_coords (cm_edits cm') js \<and> (\<forall>e \<in> set (cm_edits cm'). coords_ok b e) \<and>
    map ce_type (cm_edits cm') = map ce_type (cm_edits cm) \<and> map ce_target (cm_edits cm') = map ce_target (cm_edits cm)"
proof -
  obtain ah where ah: "open_hint data = Inr (True, ah)" "dget ah ''context_management'' = Some (JObj d)" by (rule cm_path_open [OF path])
  have sd: "setdefault ''context_management'' ah = ah" using ah(2) by (simp add: setdefault_def dmem_def)
  obtain live js where src: "edits_source (cm_edits cm) d = (live, js)" by fastforce
  have js: "(\<forall>j \<in> set js. no_server_fields j) \<and> length (cm_edits cm) = length js"
  proof (cases "\<exists>es. dget d ''edits'' = Some (JList es) \<and> length es = length (cm_edits cm)")
    case True
    then obtain es where es: "dget d ''edits'' = Some (JList es)" "length es = length (cm_edits cm)" by blast
    moreover have "entries = es" using entries es(1) by simp
    moreover have "js = es" using es src by (simp add: edits_source_def part_get_def)
    ultimately show ?thesis using parse_edits_all_kept [of es messages0 tools0] edits(1) by simp
  next
    case False
    then have "js = map edit_entry (cm_edits cm)"
      using src by (auto simp: edits_source_def part_get_def split: option.splits json.splits if_splits)
    then show ?thesis using edit_entry_fields by simp
  qed
  have es: "\<forall>e \<in> set (cm_edits cm). unset e \<and> ce_type e \<noteq> ''negative''"
    using parse_edits_ok edits(1) by (fastforce simp: edit_ok_def unset_def)
  obtain es' js' ok where loop: "attach_edits messages tools bs mt tt (cm_edits cm) js = (es', js', ok)" by (rule prod_cases3)
  note attached = attach_edits_ok [OF es conjunct1 [OF js] conjunct2 [OF js] b loop]
  let ?d = "dset ''edits'' (JList js') d"
  have "h' = h\<lparr>ah_context_management := Some (cm\<lparr>cm_edits := es'\<rparr>)\<rparr>"
    and "data' = dset ''agent_hint'' (JObj (dset ''context_management'' (JObj ?d) ah)) data"
    using att edits(2) attached by (auto simp: attach_context_edits_def ah sd part_get_def src loop Let_def)
  then have "ah_context_management h' = Some (cm\<lparr>cm_edits := es'\<rparr>) \<and> cm_path data' ?d \<and> dget ?d ''edits'' = Some (JList js')"
    by (simp add: cm_path_def)
  with attached show ?thesis by fastforce
qed

lemma parsed_context_management:
  assumes "parse_agent_hint lax_int (JObj data) headers = h" and "ah_context_management h = Some cm"
  obtains d entries messages tools where "cm_path data d" "cm_edits cm = parse_edits entries messages tools" "cm_edits cm \<noteq> []"
    "\<forall>es. dget d ''edits'' = Some (JList es) \<longrightarrow> entries = es"
proof -
  let ?m = "field_or (JObj data) ''messages'' JNull" and ?t = "field_or (JObj data) ''tools'' JNull"
  have cm: "parse_context_management (field_or (JObj (hint_data (JObj data))) ''context_management'' JNull) ?m ?t = Some cm"
    using assms by (auto simp: parse_agent_hint_def Let_def split: prod.splits)
  then obtain d where d: "field_or (JObj (hint_data (JObj data))) ''context_management'' JNull = JObj d"
    by (cases "field_or (JObj (hint_data (JObj data))) ''context_management'' JNull") (simp_all add: parse_context_management_def)
  from cm obtain entries where "cm_edits cm = parse_edits entries ?m ?t" "cm_edits cm \<noteq> []"
    and it: "py_iter (py_or (case dget d ''edits'' of None \<Rightarrow> JNull | Some v \<Rightarrow> v) (JList [])) = Inr entries"
    by (auto simp: d parse_context_management_def Let_def split: sum.splits if_splits)
  moreover have "entries = es" if "dget d ''edits'' = Some (JList es)" for es
    using it that by (simp add: py_or_def split: if_splits)
  moreover have "cm_path data d"
    using d by (auto simp: cm_path_def field_or_def hint_data_def split: option.splits json.splits)
  ultimately show ?thesis using that by blast
qed

text \<open>
  C38: what the translator writes. Take a hint parsed from the request data and any tokenizer, chat template, messages and tools, and a positive block
  size. Afterwards the edits of the hint have their types and targets, and either none of them has coordinates (the translator gave
  up before the edits), or in every edit the start and the end are each unset or consistent (token = block times block size plus offset, the offset
  below the block size) and the request data, which is forwarded to the engine, has the same coordinates at the same edits and no others.
\<close>

theorem attached_edits_agree:
  assumes hint: "ri_hint ri = Some h" "parse_agent_hint lax_int (JObj (ri_data ri)) headers = h"
    and cm: "ah_context_management h = Some cm" and b: "positive_int block_size = Some b"
    and att: "attach_block_offsets loads str_of tok block_size messages tools ri = ri'"
  shows "\<exists>h' cm'. ri_hint ri' = Some h' \<and> ah_context_management h' = Some cm' \<and>
    map ce_type (cm_edits cm') = map ce_type (cm_edits cm) \<and> map ce_target (cm_edits cm') = map ce_target (cm_edits cm) \<and>
    (cm_edits cm' = cm_edits cm \<and> (\<forall>e \<in> set (cm_edits cm). unset e) \<or>
     (\<forall>e \<in> set (cm_edits cm'). coords_ok b e) \<and>
     (\<exists>d js. cm_path (ri_data ri') d \<and> dget d ''edits'' = Some (JList js) \<and> list_all2 same_coords (cm_edits cm') js))"
proof -
  obtain d entries ms0 ts0 where path: "cm_path (ri_data ri) d" and ed: "cm_edits cm = parse_edits entries ms0 ts0" "cm_edits cm \<noteq> []"
    and ent: "\<forall>es. dget d ''edits'' = Some (JList es) \<longrightarrow> entries = es"
    by (rule parsed_context_management [OF hint(2) cm])
  have un: "\<forall>e \<in> set (cm_edits cm). unset e"
    unfolding ed(1) using parse_edits_ok by (fastforce simp: edit_ok_def unset_def)
  obtain data where prep: "prepare_edits (cm_edits cm) (ri_data ri) = (True, data)" and path1: "cm_path data d"
    using prepare_edits_path [OF path] by blast
  let ?T = "if list_ex (\<lambda>e. ce_target e = ''session'') (cm_edits cm) \<and> ah_cache_control h = None
            then Inr (messages, tools, None, None) else compute_tables loads str_of tok messages tools"
  have gave_up: ?thesis if "ri_hint ri' = Some h'" "ah_context_management h' = Some cm" for h' using that un by blast
  show ?thesis
  proof (cases "ah_session_id h = None \<or> ah_session_id h = Some '''' \<or> \<not> cm_manage_request cm \<or> (\<exists>x. ?T = Inl x)")
    case True
    then have "ri_hint ri' = Some h"
      using att hint(1) by (auto simp: attach_block_offsets_def cm prep split: if_splits)
    with cm gave_up show ?thesis by blast
  next
    case False
    then obtain messages' tools' mt tt where T: "?T = Inr (messages', tools', mt, tt)"
      by (metis obj_sumE prod_cases4)
    obtain ok h1 data1 where cc: "attach_cache_control messages' block_size mt h data = (ok, h1, data1)" by (rule prod_cases3)
    note cc' = attach_cache_control_path [OF path1 cc]
    obtain h2 data2 where e2: "attach_context_edits messages' tools' block_size mt tt cm h1 data1 = (h2, data2)" by fastforce
    have on: "(ah_session_id h = None \<or> ah_session_id h = Some '''') = False" "(\<not> cm_manage_request cm) = False" using False by auto
    have ri': "ri' = (if \<not> ok then ri\<lparr>ri_hint := Some h1, ri_data := data1\<rparr> else ri\<lparr>ri_hint := Some h2, ri_data := data2\<rparr>)"
      unfolding att [symmetric] attach_block_offsets_def hint(1) option.case on if_False cm prep prod.case not_True_eq_False T sum.case cc e2 by simp
    show ?thesis
    proof (cases ok)
      case True
      with ri' attach_context_edits_agree [OF conjunct1 [OF cc'] ed ent b e2] show ?thesis by fastforce
    next
      case False
      with ri' cc' cm gave_up show ?thesis by simp
    qed
  qed
qed

definition demo_request :: "(string, json) dict" where
  "demo_request =
     [(''messages'', JList (map demo_message [''user'', ''tool'', ''assistant''])),
      (''agent_hint'', JObj
         [(''session_id'', JStr ''s''),
          (''context_management'', JObj
             [(''manage_request'', JBool True),
              (''edits'', JList [JObj [(''type'', JStr ''evict''), (''target'', JStr ''messages''), (''start'', JInt 1)]])])])]"

definition demo_info :: req_info where
  "demo_info = \<lparr>ri_hint = Some (parse_agent_hint (\<lambda>_. None) (JObj demo_request) None), ri_data = demo_request\<rparr>"

definition demo_edit :: context_edit where
  "demo_edit = \<lparr>ce_type = ''evict'', ce_start = Some 1, ce_end = None, ce_target = ''messages'', ce_block_start = None,
     ce_block_intra_start = None, ce_start_token = None, ce_block_end = None, ce_block_intra_end = None, ce_end_token = None\<rparr>"

lemma demo_parsed:
  "ah_context_management (parse_agent_hint (\<lambda>_. None) (JObj demo_request) None) =
     Some \<lparr>cm_manage_request = True, cm_edits = [demo_edit]\<rparr>"
  by code_simp

theorem attached_edits_agree_witness:
  "\<exists>h' cm'. ri_hint (attach_block_offsets (\<lambda>_. None) (\<lambda>_. '''') (Some demo_dsv4) (JInt 4) (JList (map demo_message [''user'', ''tool'', ''assistant'']))
       JNull demo_info) = Some h' \<and> ah_context_management h' = Some cm' \<and> map ce_type (cm_edits cm') = [''evict''] \<and>
     cm_edits cm' = [demo_edit\<lparr>ce_block_start := Some 0, ce_block_intra_start := Some 3, ce_start_token := Some 3,
       ce_block_end := Some 2, ce_block_intra_end := Some 1, ce_end_token := Some 9\<rparr>] \<and> (\<forall>e \<in> set (cm_edits cm'). coords_ok 4 e)"
proof -
  let ?ri = "attach_block_offsets (\<lambda>_. None) (\<lambda>_. '''') (Some demo_dsv4) (JInt 4) (JList (map demo_message [''user'', ''tool'', ''assistant'']))
       JNull demo_info"
  have edits: "map_option (\<lambda>h. map_option cm_edits (ah_context_management h)) (ri_hint ?ri) =
      Some (Some [demo_edit\<lparr>ce_block_start := Some 0, ce_block_intra_start := Some 3, ce_start_token := Some 3,
       ce_block_end := Some 2, ce_block_intra_end := Some 1, ce_end_token := Some 9\<rparr>])"
    by code_simp
  have pos: "positive_int (JInt 4) = Some 4" by (simp add: positive_int_def)
  have hint: "ri_hint demo_info = Some (parse_agent_hint (\<lambda>_. None) (JObj (ri_data demo_info)) None)"
    "ah_context_management (parse_agent_hint (\<lambda>_. None) (JObj (ri_data demo_info)) None) =
       Some \<lparr>cm_manage_request = True, cm_edits = [demo_edit]\<rparr>"
    using demo_parsed by (simp_all add: demo_info_def)
  show ?thesis
    using attached_edits_agree [OF hint(1) refl hint(2) pos refl, of "\<lambda>_. None" "\<lambda>_. ''''" "Some demo_dsv4"
        "JList (map demo_message [''user'', ''tool'', ''assistant''])" JNull] edits
    by (auto simp: demo_edit_def)
qed

text \<open>
  An edit of the messages that starts at the number of messages passes the validation; its range is empty. The tools branch
  of the translator keeps it empty (no end coordinates), but the messages branch moves its start back to the last message, which it then covers.
\<close>

lemma empty_edit_covers_last_message:
  fixes table :: "nat list"
  assumes "length ms = Suc n" and "0 < n" and "length table = Suc n" and "0 < b" and "0 < table ! (n - 1)" and "0 < table ! n"
  shows "messages_edit_offset (JList ms) (Some (int (Suc n))) None b (Some table) =
    (Some (int (table ! (n - 1)) div b, int (table ! (n - 1)) mod b, int (table ! (n - 1))),
     Some (int (table ! n) div b, int (table ! n) mod b, int (table ! n)))"
proof -
  have "nat (int n - 1) = n - 1" by simp
  moreover have "ms \<noteq> []" using assms(1) by auto
  ultimately show ?thesis
    using assms by (simp add: messages_edit_offset_def list_len_def Let_def clamp_def offset_computer_def prefix_diff_block_offset_def align_positive)
qed

lemma empty_tools_edit_has_no_end:
  assumes "length table = Suc (length ts)" and "ts \<noteq> []" and "0 < b"
  shows "snd (tools_edit_offset ty (JList ts) (Some (int (length ts))) None b (Some table)) = None"
  using assms by (simp add: tools_edit_offset_def clamp_def Let_def)

end
