(* ===== verification/Fault_Types.thy ===== *)
theory Fault_Types
  imports Config_Resolver
begin

text \<open>
  \<^verbatim>\<open>controller/fault_tolerance/fault_types.py\<close>: fault levels and their order, the mapping of fault strings, fault
  records of hardware and of engines, and the metadata that the fault manager keeps per node and per instance.
\<close>

section \<open>Enumerations\<close>

datatype fault_category = FC_HARDWARE | FC_SOFTWARE

datatype node_status = NODE_READY | NODE_NOT_READY

datatype hardware_fault_type = CARD_UNHEALTHY | CARD_NETWORK_UNHEALTHY | NODE_UNHEALTHY

datatype origin_fault_level =
    NOT_HANDLE_FAULT
  | SUB_HEALTH_FAULT
  | RESTART_REQUEST
  | RESTART_BUSINESS
  | FREE_RESTART_NPU
  | RESTART_NPU
  | SEPARATE_NPU
  | PRE_SEPARATE_NPU
  | MANUALLY_SEPARATE_NPU

fun origin_value :: "origin_fault_level \<Rightarrow> string" where
  "origin_value NOT_HANDLE_FAULT = ''NotHandleFault''"
| "origin_value SUB_HEALTH_FAULT = ''SubHealthFault''"
| "origin_value RESTART_REQUEST = ''RestartRequest''"
| "origin_value RESTART_BUSINESS = ''RestartBusiness''"
| "origin_value FREE_RESTART_NPU = ''FreeRestartNPU''"
| "origin_value RESTART_NPU = ''RestartNPU''"
| "origin_value SEPARATE_NPU = ''SeparateNPU''"
| "origin_value PRE_SEPARATE_NPU = ''PreSeparateNPU''"
| "origin_value MANUALLY_SEPARATE_NPU = ''ManuallySeparateNPU''"

definition NODE_REBOOT :: int where "NODE_REBOOT = 1"
definition ENGINE_DEAD :: int where "ENGINE_DEAD = 0x1000001"
definition ENGINE_UNHEALTHY :: int where "ENGINE_UNHEALTHY = 0x1000002"

datatype fault_level = HEALTHY | L1 | L2 | L3 | L4 | L5 | L6

fun level_value :: "fault_level \<Rightarrow> nat" where
  "level_value HEALTHY = 0"
| "level_value L1 = 1"
| "level_value L2 = 2"
| "level_value L3 = 3"
| "level_value L4 = 4"
| "level_value L5 = 5"
| "level_value L6 = 6"

lemma level_value_inject [simp]: "level_value a = level_value b \<longleftrightarrow> a = b"
  by (cases a; cases b) simp_all

text \<open>The levels are integers in the code and compared as such.\<close>

instantiation fault_level :: linorder
begin

definition less_eq_fault_level :: "fault_level \<Rightarrow> fault_level \<Rightarrow> bool" where
  "less_eq_fault_level a b \<longleftrightarrow> level_value a \<le> level_value b"

definition less_fault_level :: "fault_level \<Rightarrow> fault_level \<Rightarrow> bool" where
  "less_fault_level a b \<longleftrightarrow> level_value a < level_value b"

instance
  by standard (auto simp: less_eq_fault_level_def less_fault_level_def)

end

lemma healthy_least [simp]: "HEALTHY \<le> l"
  by (simp add: less_eq_fault_level_def)

lemma severe_levels: "L2 < l \<longleftrightarrow> l \<in> {L3, L4, L5, L6}"
  by (cases l) (simp_all add: less_fault_level_def)

section \<open>Mapping of strings\<close>

definition map_fault_type :: "string \<Rightarrow> hardware_fault_type" where
  "map_fault_type s =
     (if s = ''CardUnhealthy'' then CARD_UNHEALTHY
      else if s = ''CardNetworkUnhealthy'' then CARD_NETWORK_UNHEALTHY
      else NODE_UNHEALTHY)"

fun level_of_origin :: "origin_fault_level \<Rightarrow> fault_level" where
  "level_of_origin NOT_HANDLE_FAULT = L1"
| "level_of_origin SUB_HEALTH_FAULT = L1"
| "level_of_origin RESTART_REQUEST = L2"
| "level_of_origin RESTART_BUSINESS = L3"
| "level_of_origin FREE_RESTART_NPU = L4"
| "level_of_origin RESTART_NPU = L5"
| "level_of_origin SEPARATE_NPU = L6"
| "level_of_origin PRE_SEPARATE_NPU = L6"
| "level_of_origin MANUALLY_SEPARATE_NPU = L6"

definition all_origins :: "origin_fault_level list" where
  "all_origins = [NOT_HANDLE_FAULT, SUB_HEALTH_FAULT, RESTART_REQUEST, RESTART_BUSINESS, FREE_RESTART_NPU, RESTART_NPU,
     SEPARATE_NPU, PRE_SEPARATE_NPU, MANUALLY_SEPARATE_NPU]"

definition origin_of :: "string \<Rightarrow> origin_fault_level option" where
  "origin_of s = List.find (\<lambda>ol. origin_value ol = s) all_origins"

definition map_fault_level :: "string \<Rightarrow> fault_level" where
  "map_fault_level s = (case origin_of s of None \<Rightarrow> HEALTHY | Some ol \<Rightarrow> level_of_origin ol)"

section \<open>Fault records\<close>

record fault_info =
  fi_category :: fault_category
  fi_level :: fault_level
  fi_code :: int
  fi_type :: "hardware_fault_type option"
  fi_npu_name :: string
  fi_origin :: "origin_fault_level option"
  fi_exception_type :: "string option"
  fi_exception_message :: "string option"
  fi_engine_id :: "int option"
  fi_engine_status :: "int option"
  fi_timestamp :: "string option"
  fi_additional_info :: "(string, json) dict option"

definition default_fault :: fault_info where
  "default_fault = \<lparr>fi_category = FC_HARDWARE, fi_level = L1, fi_code = 0, fi_type = None, fi_npu_name = '''', fi_origin = None,
     fi_exception_type = None, fi_exception_message = None, fi_engine_id = None, fi_engine_status = None, fi_timestamp = None,
     fi_additional_info = None\<rparr>"

definition map_engine_status_to_fault_level :: "int \<Rightarrow> fault_level" where
  "map_engine_status_to_fault_level s = (if s \<in> {1, 2} then L2 else L1)"

definition engine_status_to_fault_code :: "int \<Rightarrow> int" where
  "engine_status_to_fault_code s = (if s = 1 then ENGINE_DEAD else if s = 2 then ENGINE_UNHEALTHY else 0)"

text \<open>\<open>from_exception\<close>, on the name and the text of the exception and the formatted time.\<close>

definition from_exception ::
  "string \<Rightarrow> string \<Rightarrow> int \<Rightarrow> int \<Rightarrow> (string, json) dict option \<Rightarrow> string \<Rightarrow> fault_info" where
  "from_exception name msg engine_id engine_status info stamp =
     default_fault\<lparr>fi_category := FC_SOFTWARE, fi_level := map_engine_status_to_fault_level engine_status,
       fi_code := engine_status_to_fault_code engine_status, fi_exception_type := Some name, fi_exception_message := Some msg,
       fi_engine_id := Some engine_id, fi_engine_status := Some engine_status, fi_timestamp := Some stamp,
       fi_additional_info := Some (case info of None \<Rightarrow> [] | Some d \<Rightarrow> d)\<rparr>"

section \<open>Metadata\<close>

text \<open>The set of instance ids of a node is a list without repetition; where the code iterates over it, the model uses this order.\<close>

record node_metadata =
  nd_name :: string
  nd_instance_ids :: "int list"
  nd_pod_ips :: "(int, string) dict"
  nd_job_names :: "(int, string) dict"
  nd_status :: node_status
  nd_hardware :: "(int, fault_info) dict"
  nd_software :: "(int, fault_info) dict"

text \<open>The running strategy is a reference to a strategy object; the lock is not modelled.\<close>

record instance_metadata =
  im_instance_id :: int
  im_fault_level :: fault_level
  im_fault_code :: int
  im_strategy_level :: fault_level
  im_strategy :: "nat option"

definition new_instance_metadata :: "int \<Rightarrow> instance_metadata" where
  "new_instance_metadata n =
     \<lparr>im_instance_id = n, im_fault_level = HEALTHY, im_fault_code = 0, im_strategy_level = HEALTHY, im_strategy = None\<rparr>"

section \<open>The maximum by level\<close>

text \<open>Python's \<open>max\<close> with a key: the first element of greatest level.\<close>

fun highest :: "fault_info list \<Rightarrow> fault_info option" where
  "highest [] = None"
| "highest (f # fs) =
     (case highest fs of
        None \<Rightarrow> Some f
      | Some g \<Rightarrow> if fi_level g > fi_level f then Some g else Some f)"

lemma highest_None [simp]: "highest fs = None \<longleftrightarrow> fs = []"
  by (cases fs) (auto split: option.splits)

lemma highest_max: "highest fs = Some f \<Longrightarrow> f \<in> set fs \<and> (\<forall>g \<in> set fs. fi_level g \<le> fi_level f)"
  by (induction fs arbitrary: f) (fastforce split: option.splits if_splits)+

text \<open>\<open>max\<close> of the levels with the default HEALTHY.\<close>

definition max_level :: "fault_info list \<Rightarrow> fault_level" where
  "max_level fs = fold (\<lambda>f l. max l (fi_level f)) fs HEALTHY"

lemma max_level_highest: "max_level fs = (case highest fs of None \<Rightarrow> HEALTHY | Some f \<Rightarrow> fi_level f)"
proof -
  have "fold (\<lambda>f l. max l (fi_level f)) fs l0 = (case highest fs of None \<Rightarrow> l0 | Some f \<Rightarrow> max l0 (fi_level f))" for l0
    by (induction fs arbitrary: l0) (auto simp: max_def split: option.splits)
  then show ?thesis by (simp add: max_level_def max_def split: option.splits)
qed

lemma max_level_bound: "f \<in> set fs \<Longrightarrow> fi_level f \<le> max_level fs"
  unfolding max_level_highest by (cases "highest fs") (use highest_max in fastforce)+

end
