(* ===== verification/Fault_Manager.thy ===== *)
theory Fault_Manager
  imports Fault_Types Controller_Manager
begin

text \<open>
  \<^verbatim>\<open>controller/fault_tolerance/fault_manager.py\<close> with its mixins \<^verbatim>\<open>mixin/resource_manager.py\<close> and
  \<^verbatim>\<open>mixin/persistence.py\<close> and the strategy table of \<^verbatim>\<open>strategy/strategy.py\<close>. The fault manager calls the instance manager (separate,
  recover) and is called back by it as an observer, so that the operations work on the pair of both. The resolution of a pod address to a
  host name by Kubernetes is the parameter \<open>host_of\<close>, empty if it fails. Strategies run in other threads: a strategy object is created and submitted here, and
  finishes in a step of its own.
\<close>

section \<open>State\<close>

datatype strategy_kind = TOKEN_REINFERENCE | SCALE_P2D

record strategy_obj =
  st_kind :: strategy_kind
  st_event :: bool
  st_finished :: bool

record fm_snapshot =
  fs_version :: int
  fs_nodes :: "(string, node_metadata) dict"
  fs_instances :: "(int, instance_metadata) dict"

record fault_manager =
  fm_nodes :: "(string, node_metadata) dict"
  fm_instances :: "(int, instance_metadata) dict"
  fm_version :: int
  fm_persistence :: bool
  fm_configmap_prefix :: string
  fm_configmap_namespace :: string
  fm_monitors :: "(string, string \<times> string) dict"
  fm_token_reinference :: bool
  fm_scale_p2d :: bool
  fm_strategies :: "nat \<Rightarrow> strategy_obj"
  fm_next_strategy :: nat
  fm_submitted :: "(nat \<times> int) list"
  fm_writes :: "fm_snapshot list"

definition init_fault_manager :: "bool \<Rightarrow> string \<Rightarrow> string \<Rightarrow> bool \<Rightarrow> bool \<Rightarrow> fault_manager" where
  "init_fault_manager persistence prefix namespace token_reinference scale_p2d =
     \<lparr>fm_nodes = [], fm_instances = [], fm_version = 0, fm_persistence = persistence, fm_configmap_prefix = prefix,
      fm_configmap_namespace = namespace, fm_monitors = [], fm_token_reinference = token_reinference, fm_scale_p2d = scale_p2d,
      fm_strategies = (\<lambda>_. \<lparr>st_kind = SCALE_P2D, st_event = False, st_finished = False\<rparr>), fm_next_strategy = 0,
      fm_submitted = [], fm_writes = []\<rparr>"

record ft_system =
  sys_ctrl :: controller
  sys_fm :: fault_manager

definition upd_fm :: "(fault_manager \<Rightarrow> fault_manager) \<Rightarrow> ft_system \<Rightarrow> ft_system" where
  "upd_fm f s = s\<lparr>sys_fm := f (sys_fm s)\<rparr>"

definition upd_ctrl :: "(controller \<Rightarrow> controller) \<Rightarrow> ft_system \<Rightarrow> ft_system" where
  "upd_ctrl f s = s\<lparr>sys_ctrl := f (sys_ctrl s)\<rparr>"

definition set_node :: "string \<Rightarrow> node_metadata \<Rightarrow> fault_manager \<Rightarrow> fault_manager" where
  "set_node k nd fm = fm\<lparr>fm_nodes := dset k nd (fm_nodes fm)\<rparr>"

definition set_metadata :: "int \<Rightarrow> instance_metadata \<Rightarrow> fault_manager \<Rightarrow> fault_manager" where
  "set_metadata n m fm = fm\<lparr>fm_instances := dset n m (fm_instances fm)\<rparr>"

section \<open>Persistence\<close>

text \<open>A dump leaves out the lock and the strategy. Whether the write to etcd succeeds only decides what is logged.\<close>

definition dump_metadata :: "instance_metadata \<Rightarrow> instance_metadata" where
  "dump_metadata m = m\<lparr>im_strategy := None\<rparr>"

definition fm_persist_data :: "fault_manager \<Rightarrow> fault_manager" where
  "fm_persist_data fm =
     fm\<lparr>fm_version := fm_version fm + 1,
        fm_writes := fm_writes fm @ [\<lparr>fs_version = fm_version fm + 1, fs_nodes = fm_nodes fm,
          fs_instances = map (\<lambda>(n, m). (n, dump_metadata m)) (fm_instances fm)\<rparr>]\<rparr>"

datatype fm_restored = FM_NO_DATA | FM_INVALID | FM_STATE fm_snapshot

definition fm_restore_data :: "fm_restored \<Rightarrow> fault_manager \<Rightarrow> fault_manager \<times> bool" where
  "fm_restore_data res fm =
     (case res of
        FM_NO_DATA \<Rightarrow> (fm, True)
      | FM_INVALID \<Rightarrow> (fm, False)
      | FM_STATE snap \<Rightarrow>
          (fm\<lparr>fm_version := max (fm_version fm) (fs_version snap), fm_nodes := fs_nodes snap,
              fm_instances := fold (\<lambda>(_, m) d. dset (im_instance_id m) m d) (fs_instances snap) []\<rparr>, True))"

section \<open>Resource monitors\<close>

text \<open>An existing monitor with the same configuration is kept, another one is replaced; the entry is the same in both cases.\<close>

definition create_resource_monitor_for_node :: "string \<Rightarrow> fault_manager \<Rightarrow> fault_manager" where
  "create_resource_monitor_for_node k fm =
     fm\<lparr>fm_monitors := dset k (fm_configmap_namespace fm, fm_configmap_prefix fm) (fm_monitors fm)\<rparr>"

definition stop_resource_monitor_for_node :: "string \<Rightarrow> fault_manager \<Rightarrow> fault_manager" where
  "stop_resource_monitor_for_node k fm = fm\<lparr>fm_monitors := ddel k (fm_monitors fm)\<rparr>"

definition fm_start :: "fm_restored \<Rightarrow> fault_manager \<Rightarrow> fault_manager" where
  "fm_start res fm =
     (let fm1 = (if fm_persistence fm then fst (fm_restore_data res fm) else fm)
      in fold create_resource_monitor_for_node (dkeys (fm_nodes fm1)) fm1)"

definition fm_stop :: "fault_manager \<Rightarrow> fault_manager" where
  "fm_stop fm = fm\<lparr>fm_monitors := []\<rparr>"

definition fm_update_config :: "bool \<Rightarrow> string \<Rightarrow> string \<Rightarrow> bool \<Rightarrow> bool \<Rightarrow> fault_manager \<Rightarrow> fault_manager" where
  "fm_update_config persistence prefix namespace token_reinference scale_p2d fm =
     (let changed = (fm_configmap_prefix fm \<noteq> prefix \<or> fm_configmap_namespace fm \<noteq> namespace);
          fm1 = fm\<lparr>fm_persistence := persistence, fm_configmap_prefix := prefix, fm_configmap_namespace := namespace,
                   fm_token_reinference := token_reinference, fm_scale_p2d := scale_p2d\<rparr>
      in if changed
         then fold create_resource_monitor_for_node (remdups (map nd_name (dvalues (fm_nodes fm1)))) (fm1\<lparr>fm_monitors := []\<rparr>)
         else fm1)"

section \<open>Evaluation of fault levels\<close>

definition node_has_active_instances :: "ft_system \<Rightarrow> node_metadata \<Rightarrow> bool" where
  "node_has_active_instances s nd =
     list_ex (\<lambda>n. dmem n (fm_instances (sys_fm s)) \<and>
       (case get_instance n (sys_ctrl s) of
          None \<Rightarrow> False
        | Some r \<Rightarrow> ins_status (ctrl_heap (sys_ctrl s) r) \<in> {INITIAL, ACTIVE})) (nd_instance_ids nd)"

definition has_faults :: "node_metadata \<Rightarrow> bool" where
  "has_faults nd = (nd_hardware nd \<noteq> [] \<or> nd_software nd \<noteq> [])"

definition reevaluate_fault :: "bool \<Rightarrow> fault_info \<Rightarrow> fault_info" where
  "reevaluate_fault active f =
     (if fi_origin f \<noteq> Some PRE_SEPARATE_NPU then f
      else if active then f\<lparr>fi_level := L2\<rparr> else f\<lparr>fi_level := L6\<rparr>)"

definition synchronize_fault :: "bool \<Rightarrow> fault_info \<Rightarrow> fault_info" where
  "synchronize_fault active f =
     (if fi_origin f = Some PRE_SEPARATE_NPU \<and> fi_level f = L6 \<and> active then f\<lparr>fi_level := L2\<rparr> else f)"

definition in_instance :: "int \<Rightarrow> node_metadata \<Rightarrow> bool" where
  "in_instance n nd = (n \<in> set (nd_instance_ids nd) \<and> has_faults nd)"

definition reevaluate_nodes :: "int \<Rightarrow> ft_system \<Rightarrow> (string, node_metadata) dict" where
  "reevaluate_nodes n s =
     map (\<lambda>(k, nd).
        (k, if in_instance n nd
            then (let a = node_has_active_instances s nd
                  in nd\<lparr>nd_hardware := map (\<lambda>(c, f). (c, synchronize_fault a (reevaluate_fault a f))) (nd_hardware nd)\<rparr>)
            else nd)) (fm_nodes (sys_fm s))"

definition affects_instance :: "node_metadata \<Rightarrow> fault_info \<Rightarrow> bool" where
  "affects_instance nd f =
     (if fi_origin f \<noteq> Some PRE_SEPARATE_NPU then True
      else if fi_level f \<noteq> L6 then True
      else nd_instance_ids nd \<noteq> [])"

definition fault_target :: "int \<Rightarrow> (string, node_metadata) dict \<Rightarrow> fault_info option" where
  "fault_target n nodes =
     (let instance_nodes = filter (in_instance n) (dvalues nodes);
          hw = highest (concat (map (\<lambda>nd. filter (affects_instance nd) (dvalues (nd_hardware nd))) instance_nodes));
          sw = highest (concat (map (\<lambda>nd. dvalues (nd_software nd)) instance_nodes))
      in case (hw, sw) of
           (Some h, Some w) \<Rightarrow> if fi_level h \<ge> fi_level w then Some h else Some w
         | (Some h, None) \<Rightarrow> Some h
         | (None, x) \<Rightarrow> x)"

text \<open>
  \<open>separate_instance\<close> of the instance manager with the fault manager among its observers: the callback \<open>hook\<close> runs
  between the change of the status and the persistence.
\<close>

definition separate_with :: "(ft_system \<Rightarrow> ft_system) \<Rightarrow> digest_fun \<Rightarrow> rat \<Rightarrow> int \<Rightarrow> ft_system \<Rightarrow> ft_system" where
  "separate_with hook digest t n s =
     (let c = sys_ctrl s
      in case get_instance n c of
           None \<Rightarrow> s
         | Some r \<Rightarrow>
             (let c1 = c\<lparr>forced_separated_instances := insert (ins_id (ctrl_heap c r)) (forced_separated_instances c)\<rparr>
              in if ins_status (ctrl_heap c1 r) = ACTIVE
                 then (let s2 = hook (s\<lparr>sys_ctrl := notify r OBS_SEPARATED (set_status r INACTIVE c1)\<rparr>)
                       in if enable_etcd_persistence (sys_ctrl s2) then upd_ctrl (persist_data digest t) s2 else s2)
                 else s\<lparr>sys_ctrl := c1\<rparr>))"

text \<open>
  \<open>_refresh_instance_fault_level\<close>, with the callback of a separation as an argument. The callback is this operation again; as the instance is
  no longer ACTIVE then, the inner call does not cause another one, and two levels are enough (\<open>refresh_unfold\<close> of
  \<open>Fault_Correctness\<close>).
\<close>

definition refresh_with :: "(ft_system \<Rightarrow> ft_system) \<Rightarrow> digest_fun \<Rightarrow> rat \<Rightarrow> int \<Rightarrow> ft_system \<Rightarrow> ft_system" where
  "refresh_with hook digest t n s =
     (case dget (fm_instances (sys_fm s)) n of
        None \<Rightarrow> s
      | Some m \<Rightarrow>
          (let nodes = reevaluate_nodes n s;
               s1 = upd_fm (\<lambda>fm. fm\<lparr>fm_nodes := nodes\<rparr>) s
           in case fault_target n nodes of
                None \<Rightarrow>
                  if im_fault_level m \<noteq> HEALTHY
                  then upd_ctrl (recover_instance n) (upd_fm (set_metadata n (m\<lparr>im_fault_level := HEALTHY, im_fault_code := 0\<rparr>)) s1)
                  else s1
              | Some f \<Rightarrow>
                  (let s2 = upd_fm (set_metadata n (m\<lparr>im_fault_level := fi_level f, im_fault_code := fi_code f\<rparr>)) s1;
                       s3 = (if fi_level f > L2 then separate_with hook digest t n s2
                             else if is_instance_separated n (sys_ctrl s2) then upd_ctrl (recover_instance n) s2
                             else s2)
                   in if fm_persistence (sys_fm s3) then upd_fm fm_persist_data s3 else s3)))"

definition refresh_instance_fault_level :: "digest_fun \<Rightarrow> rat \<Rightarrow> int \<Rightarrow> ft_system \<Rightarrow> ft_system" where
  "refresh_instance_fault_level digest t n = refresh_with (refresh_with id digest t n) digest t n"

definition refresh_all :: "digest_fun \<Rightarrow> rat \<Rightarrow> int list \<Rightarrow> ft_system \<Rightarrow> ft_system" where
  "refresh_all digest t ns s = fold (refresh_instance_fault_level digest t) ns s"

text \<open>\<open>separate_instance\<close> called by other components, such as the recovery service.\<close>

definition sys_separate_instance :: "digest_fun \<Rightarrow> rat \<Rightarrow> int \<Rightarrow> ft_system \<Rightarrow> ft_system" where
  "sys_separate_instance digest t n = separate_with (refresh_instance_fault_level digest t n) digest t n"

section \<open>Faults\<close>

definition get_node_fault_levels :: "int \<Rightarrow> fault_manager \<Rightarrow> (string, fault_level) dict" where
  "get_node_fault_levels n fm =
     (if \<not> dmem n (fm_instances fm) then []
      else map (\<lambda>(k, nd). (k, max (max_level (dvalues (nd_hardware nd))) (max_level (dvalues (nd_software nd)))))
             (filter (\<lambda>(k, nd). n \<in> set (nd_instance_ids nd)) (fm_nodes fm)))"

definition report_software_fault :: "digest_fun \<Rightarrow> rat \<Rightarrow> fault_info \<Rightarrow> string \<Rightarrow> ft_system \<Rightarrow> ft_system" where
  "report_software_fault digest t f pod_ip s =
     (if fi_category f \<noteq> FC_SOFTWARE then s
      else (case (if pod_ip = '''' then None
                  else List.find (\<lambda>(k, nd). pod_ip \<in> set (dvalues (nd_pod_ips nd))) (fm_nodes (sys_fm s))) of
              None \<Rightarrow> s
            | Some (k, nd) \<Rightarrow>
                refresh_all digest t (dkeys (filter (\<lambda>(n, ip). ip = pod_ip) (nd_pod_ips nd)))
                  (upd_fm (set_node k (nd\<lparr>nd_software := dset (fi_code f) f (nd_software nd)\<rparr>)) s)))"

definition clear_software_faults :: "int \<Rightarrow> fault_manager \<Rightarrow> fault_manager" where
  "clear_software_faults n fm =
     fm\<lparr>fm_nodes := map (\<lambda>(k, nd). (k, if n \<in> set (nd_instance_ids nd) then nd\<lparr>nd_software := []\<rparr> else nd)) (fm_nodes fm)\<rparr>"

text \<open>The faults of a configuration map grouped by code, in the order of their first occurrence.\<close>

definition group_faults :: "fault_info list \<Rightarrow> (int, fault_info list) dict" where
  "group_faults fs =
     fold (\<lambda>f d. dset (fi_code f) ((case dget d (fi_code f) of None \<Rightarrow> [] | Some xs \<Rightarrow> xs) @ [f]) d) fs []"

definition join_names :: "string list \<Rightarrow> string" where
  "join_names xs = concat (map (\<lambda>(i, x). if i = 0 then x else '', '' @ x) (enumerate 0 xs))"

definition npu_summary :: "fault_info list \<Rightarrow> string \<Rightarrow> string" where
  "npu_summary fs own =
     (let names = filter (\<lambda>x. x \<noteq> '''') (map fi_npu_name fs)
      in if length names > 1
         then (if length names \<le> 4 then join_names names
               else join_names (take 3 names) @ '', ... ('' @ dec_int (int (length names)) @ '' total)'')
         else own)"

definition stored_fault :: "bool \<Rightarrow> fault_info list \<Rightarrow> fault_info option" where
  "stored_fault active fs =
     (case highest fs of
        None \<Rightarrow> None
      | Some f \<Rightarrow>
          Some ((reevaluate_fault active (f\<lparr>fi_category := FC_HARDWARE\<rparr>))\<lparr>fi_npu_name := npu_summary fs (fi_npu_name f)\<rparr>))"

definition handle_fault_info_update :: "digest_fun \<Rightarrow> rat \<Rightarrow> fault_info list \<Rightarrow> string \<Rightarrow> ft_system \<Rightarrow> ft_system" where
  "handle_fault_info_update digest t infos k s =
     (case dget (fm_nodes (sys_fm s)) k of
        None \<Rightarrow> s
      | Some nd \<Rightarrow>
          (let active = node_has_active_instances s nd;
               grouped = group_faults infos;
               hw = List.map_filter (\<lambda>(code, fs). map_option (Pair code) (stored_fault active fs)) grouped;
               hw' = (case dget (nd_hardware nd) NODE_REBOOT of None \<Rightarrow> hw | Some f \<Rightarrow> dset NODE_REBOOT f hw);
               s1 = upd_fm (set_node k (nd\<lparr>nd_hardware := hw'\<rparr>)) s
           in refresh_all digest t (filter (\<lambda>n. dmem n (fm_instances (sys_fm s1))) (nd_instance_ids nd)) s1))"

definition node_reboot_fault :: fault_info where
  "node_reboot_fault = default_fault\<lparr>fi_type := Some NODE_UNHEALTHY, fi_code := NODE_REBOOT, fi_level := L6\<rparr>"

definition handle_node_status_update :: "digest_fun \<Rightarrow> rat \<Rightarrow> node_status \<Rightarrow> string \<Rightarrow> ft_system \<Rightarrow> ft_system" where
  "handle_node_status_update digest t status k s =
     (case dget (fm_nodes (sys_fm s)) k of
        None \<Rightarrow> s
      | Some nd \<Rightarrow>
          (let hw = (if nd_status nd = status then nd_hardware nd
                     else if status = NODE_NOT_READY then dset NODE_REBOOT node_reboot_fault (nd_hardware nd)
                     else ddel NODE_REBOOT (nd_hardware nd))
           in refresh_all digest t (nd_instance_ids nd)
                (upd_fm (set_node k (nd\<lparr>nd_status := status, nd_hardware := hw\<rparr>)) s)))"

section \<open>Instances and nodes\<close>

text \<open>\<open>_build_node_name_mapping\<close>: pod address to node name; the set of current names is the set of its values.\<close>

definition build_node_name_mapping :: "(string \<Rightarrow> string) \<Rightarrow> node_manager list \<Rightarrow> (string, string) dict" where
  "build_node_name_mapping host_of nms =
     fold (\<lambda>nm d. if host_of (nm_pod_ip nm) = '''' then d else dset (nm_pod_ip nm) (host_of (nm_pod_ip nm)) d) nms []"

definition add_id :: "int \<Rightarrow> int list \<Rightarrow> int list" where
  "add_id n ns = (if n \<in> set ns then ns else ns @ [n])"

definition join_node :: "string \<Rightarrow> int \<Rightarrow> string \<Rightarrow> node_metadata \<Rightarrow> node_metadata" where
  "join_node pod_ip n job nd =
     nd\<lparr>nd_pod_ips := dset n pod_ip (nd_pod_ips nd), nd_instance_ids := add_id n (nd_instance_ids nd),
        nd_job_names := dset n job (nd_job_names nd)\<rparr>"

definition new_node :: "string \<Rightarrow> string \<Rightarrow> int \<Rightarrow> string \<Rightarrow> node_metadata" where
  "new_node k pod_ip n job =
     \<lparr>nd_name = k, nd_instance_ids = [n], nd_pod_ips = [(n, pod_ip)], nd_job_names = [(n, job)], nd_status = NODE_READY,
      nd_hardware = [], nd_software = []\<rparr>"

definition ensure_node_metadata :: "string \<Rightarrow> string \<Rightarrow> int \<Rightarrow> string \<Rightarrow> fault_manager \<Rightarrow> node_metadata \<times> bool" where
  "ensure_node_metadata k pod_ip n job fm =
     (case dget (fm_nodes fm) k of
        Some nd \<Rightarrow> (join_node pod_ip n job nd, False)
      | None \<Rightarrow> (new_node k pod_ip n job, True))"

definition leave_node :: "int \<Rightarrow> node_metadata \<Rightarrow> node_metadata" where
  "leave_node n nd =
     nd\<lparr>nd_instance_ids := removeAll n (nd_instance_ids nd), nd_pod_ips := ddel n (nd_pod_ips nd), nd_job_names := ddel n (nd_job_names nd)\<rparr>"

definition remove_from_node :: "int \<Rightarrow> string \<Rightarrow> fault_manager \<Rightarrow> fault_manager" where
  "remove_from_node n k fm =
     (case dget (fm_nodes fm) k of
        None \<Rightarrow> fm
      | Some nd \<Rightarrow>
          if nd_instance_ids (leave_node n nd) = []
          then stop_resource_monitor_for_node k (fm\<lparr>fm_nodes := ddel k (fm_nodes fm)\<rparr>)
          else set_node k (leave_node n nd) fm)"

definition sync_pod :: "instance_obj \<Rightarrow> string \<times> string \<Rightarrow> fault_manager \<Rightarrow> fault_manager" where
  "sync_pod i p fm =
     (case p of (ip, k) \<Rightarrow>
        (case ensure_node_metadata k ip (ins_id i) (job_name i) fm of
           (nd, is_new) \<Rightarrow>
             if is_new then create_resource_monitor_for_node k (set_node k nd fm) else set_node k nd fm))"

definition sync_existing_instance_nodes :: "instance_obj \<Rightarrow> (string, string) dict \<Rightarrow> fault_manager \<Rightarrow> fault_manager" where
  "sync_existing_instance_nodes i pod_to_node fm =
     (let existing = map fst (filter (\<lambda>(k, nd). ins_id i \<in> set (nd_instance_ids nd)) (fm_nodes fm));
          fm1 = fold (remove_from_node (ins_id i)) (filter (\<lambda>k. k \<notin> set (dvalues pod_to_node)) existing) fm
      in fold (sync_pod i) pod_to_node fm1)"

text \<open>
  \<open>_swap_node_ownership\<close> on the names of the foreign and of the orphaned nodes. A node has at least one instance id and one pod address
  (\<open>node_ok\<close> of \<open>Fault_Correctness\<close>), so that \<open>next(iter(...))\<close> is the head of the list.
\<close>

definition take_over :: "string \<Rightarrow> int \<Rightarrow> node_metadata \<Rightarrow> node_metadata" where
  "take_over job n nd = nd\<lparr>nd_instance_ids := [n], nd_job_names := [(n, job)], nd_software := []\<rparr>"

definition hand_back :: "int \<Rightarrow> string \<Rightarrow> node_metadata \<Rightarrow> node_metadata" where
  "hand_back old_inst old_job nd =
     nd\<lparr>nd_instance_ids := [old_inst], nd_job_names := [(old_inst, old_job)],
        nd_pod_ips := [(old_inst, hd (dvalues (nd_pod_ips nd)))], nd_software := []\<rparr>"

fun swap_node_ownership :: "string list \<Rightarrow> string list \<Rightarrow> string \<Rightarrow> int \<Rightarrow> fault_manager \<Rightarrow> fault_manager" where
  "swap_node_ownership (f # fs) (orphan # os) job n fm =
     (case (dget (fm_nodes fm) f, dget (fm_nodes fm) orphan) of
        (Some fnd, Some ond) \<Rightarrow>
          (let old_inst = hd (nd_instance_ids fnd);
               old_job = (case dget (nd_job_names fnd) old_inst of None \<Rightarrow> '''' | Some j \<Rightarrow> j)
           in swap_node_ownership fs os job n (set_node orphan (hand_back old_inst old_job ond) (set_node f (take_over job n fnd) fm)))
      | _ \<Rightarrow> swap_node_ownership fs os job n fm)"
| "swap_node_ownership (f # fs) [] job n fm =
     (case dget (fm_nodes fm) f of
        Some fnd \<Rightarrow> swap_node_ownership fs [] job n (set_node f (take_over job n fnd) fm)
      | None \<Rightarrow> swap_node_ownership fs [] job n fm)"
| "swap_node_ownership [] os job n fm = fm"

definition unowned :: "fault_manager \<Rightarrow> node_metadata \<Rightarrow> bool" where
  "unowned fm nd = (\<not> list_ex (\<lambda>n. dmem n (fm_instances fm)) (nd_instance_ids nd))"

text \<open>The names in the order of their first occurrence.\<close>

definition ordered_names :: "string list \<Rightarrow> string list" where
  "ordered_names ks = dkeys (fold (\<lambda>k d. dset k () d) ks [])"

definition foreign_nodes :: "string \<Rightarrow> (string, string) dict \<Rightarrow> fault_manager \<Rightarrow> string list" where
  "foreign_nodes job pod_to_node fm =
     ordered_names (filter (\<lambda>k. case dget (fm_nodes fm) k of
         None \<Rightarrow> False
       | Some nd \<Rightarrow> unowned fm nd \<and> list_ex (\<lambda>j. j \<noteq> '''' \<and> j \<noteq> job) (dvalues (nd_job_names nd))) (dvalues pod_to_node))"

definition orphaned_nodes :: "string \<Rightarrow> (string, string) dict \<Rightarrow> fault_manager \<Rightarrow> string list" where
  "orphaned_nodes job pod_to_node fm =
     map fst (filter (\<lambda>(k, nd). k \<notin> set (dvalues pod_to_node) \<and> unowned fm nd \<and> job \<in> set (dvalues (nd_job_names nd))) (fm_nodes fm))"

text \<open>
  The loop over the pods: an existing node is changed in place, a new one is collected and added after the loop, where the last pod of a node counts.
\<close>

definition collect_node :: "int \<Rightarrow> string \<Rightarrow> string \<times> string \<Rightarrow> fault_manager \<times> (string, node_metadata) dict \<Rightarrow>
    fault_manager \<times> (string, node_metadata) dict" where
  "collect_node n job p acc =
     (case (p, acc) of ((ip, k), (fm, new)) \<Rightarrow>
        (case ensure_node_metadata k ip n job fm of
           (nd, is_new) \<Rightarrow> if is_new then (fm, dset k nd new) else (set_node k nd fm, new)))"

definition add_new_instance_with_nodes :: "instance_obj \<Rightarrow> (string, string) dict \<Rightarrow> fault_manager \<Rightarrow> fault_manager" where
  "add_new_instance_with_nodes i pod_to_node fm =
     (let n = ins_id i; job = job_name i;
          fm1 = set_metadata n (new_instance_metadata n) fm;
          foreign = foreign_nodes job pod_to_node fm1;
          fm2 = (if foreign = [] then fm1 else swap_node_ownership foreign (orphaned_nodes job pod_to_node fm1) job n fm1);
          (fm3, new) = fold (collect_node n job) pod_to_node (fm2, [])
      in fold create_resource_monitor_for_node (ordered_names (dvalues pod_to_node))
           (fold (\<lambda>(k, nd). set_node k nd) new fm3))"

definition sync_instance_nodes :: "(string \<Rightarrow> string) \<Rightarrow> instance_obj \<Rightarrow> fault_manager \<Rightarrow> fault_manager" where
  "sync_instance_nodes host_of i fm =
     (let pod_to_node = build_node_name_mapping host_of (node_managers i)
      in if dmem (ins_id i) (fm_instances fm) then sync_existing_instance_nodes i pod_to_node fm
         else add_new_instance_with_nodes i pod_to_node fm)"

definition fm_update :: "digest_fun \<Rightarrow> rat \<Rightarrow> (string \<Rightarrow> string) \<Rightarrow> iref \<Rightarrow> observer_event \<Rightarrow> ft_system \<Rightarrow> ft_system" where
  "fm_update digest t host_of r ev s =
     (let i = ctrl_heap (sys_ctrl s) r
      in case ev of
           OBS_INITIAL \<Rightarrow>
             if dmem (ins_id i) (fm_instances (sys_fm s)) then s else upd_fm (sync_instance_nodes host_of i) s
         | OBS_SEPARATED \<Rightarrow> refresh_instance_fault_level digest t (ins_id i) s
         | OBS_REMOVED \<Rightarrow> upd_fm (\<lambda>fm. fm\<lparr>fm_instances := ddel (ins_id i) (fm_instances fm)\<rparr>) s
         | _ \<Rightarrow> s)"

definition fm_update_instances :: "(string \<Rightarrow> string) \<Rightarrow> iref list \<Rightarrow> ft_system \<Rightarrow> ft_system" where
  "fm_update_instances host_of rs s = fold (\<lambda>r s. upd_fm (sync_instance_nodes host_of (ctrl_heap (sys_ctrl s) r)) s) rs s"

section \<open>Strategies\<close>

definition level2_strategy :: "fault_manager \<Rightarrow> int \<Rightarrow> strategy_kind option" where
  "level2_strategy fm code =
     (if \<not> fm_token_reinference fm then None
      else if code \<in> {0x00F1FEF5, 0x08520003} then Some TOKEN_REINFERENCE else None)"

definition level4_strategy :: "ft_system \<Rightarrow> int \<Rightarrow> strategy_kind option" where
  "level4_strategy s n =
     (if \<not> fm_scale_p2d (sys_fm s) then None
      else (case get_instance n (sys_ctrl s) of
              None \<Rightarrow> None
            | Some r \<Rightarrow> if ins_role (ctrl_heap (sys_ctrl s) r) = ''decode'' then Some SCALE_P2D else None))"

definition strategy_for :: "ft_system \<Rightarrow> fault_level \<Rightarrow> int \<Rightarrow> int \<Rightarrow> strategy_kind option" where
  "strategy_for s lv code n =
     (case lv of
        HEALTHY \<Rightarrow> None
      | L1 \<Rightarrow> None
      | L2 \<Rightarrow> level2_strategy (sys_fm s) code
      | L3 \<Rightarrow> None
      | _ \<Rightarrow> level4_strategy s n)"

text \<open>\<open>stop\<close>: ScaleP2D signals its thread and counts as finished; token re-inference only logs.\<close>

definition stop_strategy :: "nat \<Rightarrow> fault_manager \<Rightarrow> fault_manager" where
  "stop_strategy k fm =
     (case st_kind (fm_strategies fm k) of
        SCALE_P2D \<Rightarrow> fm\<lparr>fm_strategies := (fm_strategies fm)(k := (fm_strategies fm k)\<lparr>st_event := True, st_finished := True\<rparr>)\<rparr>
      | TOKEN_REINFERENCE \<Rightarrow> fm)"

definition submit_strategy :: "strategy_kind \<Rightarrow> fault_level \<Rightarrow> int \<Rightarrow> instance_metadata \<Rightarrow> fault_manager \<Rightarrow> fault_manager" where
  "submit_strategy kind lv n m fm =
     (let k = fm_next_strategy fm
      in set_metadata n (m\<lparr>im_strategy := Some k, im_strategy_level := lv\<rparr>)
           (fm\<lparr>fm_strategies := (fm_strategies fm)(k := \<lparr>st_kind = kind, st_event = False, st_finished = False\<rparr>),
               fm_next_strategy := k + 1, fm_submitted := fm_submitted fm @ [(k, n)]\<rparr>))"

definition switch_strategy :: "int \<Rightarrow> instance_metadata \<Rightarrow> ft_system \<Rightarrow> ft_system" where
  "switch_strategy n m s =
     (case strategy_for s (im_fault_level m) (im_fault_code m) n of
        None \<Rightarrow> s
      | Some kind \<Rightarrow>
          (case im_strategy m of
             None \<Rightarrow> upd_fm (submit_strategy kind (im_fault_level m) n m) s
           | Some k \<Rightarrow>
               if im_fault_level m > im_strategy_level m
               then upd_fm (\<lambda>fm. submit_strategy kind (im_fault_level m) n m (stop_strategy k fm)) s
               else s))"

definition process_instance_strategy :: "digest_fun \<Rightarrow> rat \<Rightarrow> int \<Rightarrow> ft_system \<Rightarrow> ft_system" where
  "process_instance_strategy digest t n s =
     (case dget (fm_instances (sys_fm s)) n of
        None \<Rightarrow> s
      | Some m \<Rightarrow>
          (let s1 = switch_strategy n m s
           in case dget (fm_instances (sys_fm s1)) n of
                None \<Rightarrow> s1
              | Some m1 \<Rightarrow>
                  (case im_strategy m1 of
                     None \<Rightarrow> s1
                   | Some k \<Rightarrow>
                       if st_finished (fm_strategies (sys_fm s1) k)
                       then (let s2 = upd_fm (set_metadata n (m1\<lparr>im_strategy := None, im_strategy_level := HEALTHY\<rparr>)) s1;
                                 s3 = upd_fm (clear_software_faults n) s2;
                                 s4 = (if fm_persistence (sys_fm s3) then upd_fm fm_persist_data s3 else s3)
                             in refresh_instance_fault_level digest t n s4)
                       else s1)))"

definition ft_strategy_center_pass :: "digest_fun \<Rightarrow> rat \<Rightarrow> ft_system \<Rightarrow> ft_system" where
  "ft_strategy_center_pass digest t s = fold (process_instance_strategy digest t) (dkeys (fm_instances (sys_fm s))) s"

text \<open>
  The end of \<open>ScaleP2DStrategy.execute\<close>, whatever its outcome. The loop of \<open>TokenReinferenceStrategy.execute\<close> ends when its event is set, and does
  not mark the strategy as finished.
\<close>

definition strategy_returns :: "nat \<Rightarrow> fault_manager \<Rightarrow> fault_manager" where
  "strategy_returns k fm =
     (case st_kind (fm_strategies fm k) of
        SCALE_P2D \<Rightarrow> fm\<lparr>fm_strategies := (fm_strategies fm)(k := (fm_strategies fm k)\<lparr>st_finished := True\<rparr>)\<rparr>
      | TOKEN_REINFERENCE \<Rightarrow> fm)"

end
