(* ===== verification/Scale_P2D.thy ===== *)
theory Scale_P2D
  imports Fault_Manager "HOL-Library.Product_Lexorder" "HOL-Library.Multiset"
begin

text \<open>
  \<^verbatim>\<open>controller/fault_tolerance/strategy/scale_p2d.py\<close>: prefill instances are stopped so that a decode instance with
  faulty nodes can take over their nodes. The strategy runs in a thread of its own, so that the system can change between its steps; a run is
  given by the states that the steps see. The answers of the node managers are a parameter.
\<close>

section \<open>Context\<close>

datatype recovery_state = RS_INIT | RS_CHECKING | RS_SELECTING | RS_KILLING | RS_SUCCESS | RS_FAILED

text \<open>The text of \<open>last_error\<close>, one value for each place that sets it.\<close>

datatype scale_error =
    D_NOT_FOUND
  | STRATEGY_STOPPED
  | D_NOT_FOUND_IN_CHECK
  | D_NOT_FOUND_AFTER_WAIT
  | D_NOT_INACTIVE
  | D_NOT_FOUND_IN_REFRESH
  | NO_FAULTY_NODES
  | NO_OPERATIONAL_PREFILL
  | NOT_ENOUGH_NODES
  | EMPTY_SELECTION
  | SELECTION_FAILED py_exn
  | STOP_FAILED int string
  | KILL_FAILED py_exn

record recovery_context =
  rc_d_instance_id :: int
  rc_d_job_name :: string
  rc_d_instance :: "iref option"
  rc_nodes_per_P :: int
  rc_nodes_per_D :: int
  rc_required_node :: int
  rc_selected :: "iref list"
  rc_state :: recovery_state
  rc_last_error :: "scale_error option"

definition new_context :: "int \<Rightarrow> string \<Rightarrow> recovery_context" where
  "new_context n job =
     \<lparr>rc_d_instance_id = n, rc_d_job_name = job, rc_d_instance = None, rc_nodes_per_P = 1, rc_nodes_per_D = 1, rc_required_node = 1,
      rc_selected = [], rc_state = RS_INIT, rc_last_error = None\<rparr>"

text \<open>What the steps of a run see: the polls with the stop event, one per interval until the timeout, and the answers to the stop command.\<close>

record scale_run =
  sr_start :: ft_system
  sr_load :: ft_system
  sr_polls :: "(bool \<times> ft_system) list"
  sr_after_wait :: ft_system
  sr_refresh :: ft_system
  sr_select :: ft_system
  sr_kill :: ft_system
  sr_stop :: "node_manager \<Rightarrow> py_exn + bool"

definition instance_at :: "ft_system \<Rightarrow> iref \<Rightarrow> instance_obj" where
  "instance_at s r = ctrl_heap (sys_ctrl s) r"

definition operational :: "ft_system \<Rightarrow> iref \<Rightarrow> bool" where
  "operational s r = (ins_status (instance_at s r) \<in> {INITIAL, ACTIVE})"

section \<open>Steps\<close>

definition get_faulty_node_count :: "instance_obj \<Rightarrow> fault_manager \<Rightarrow> int" where
  "get_faulty_node_count i fm =
     (if node_managers i = [] then 0
      else (let levels = get_node_fault_levels (ins_id i) fm
            in if levels = [] then int (length (node_managers i))
               else int (length (filter (\<lambda>l. l \<ge> L3) (dvalues levels)))))"

definition scale_get_d_instance :: "ft_system \<Rightarrow> recovery_context \<Rightarrow> recovery_context \<times> bool" where
  "scale_get_d_instance s ctx0 =
     (let ctx = ctx0\<lparr>rc_state := RS_INIT\<rparr>
      in case get_instance (rc_d_instance_id ctx) (sys_ctrl s) of
           None \<Rightarrow> (ctx\<lparr>rc_last_error := Some D_NOT_FOUND\<rparr>, False)
         | Some r \<Rightarrow>
             (ctx\<lparr>rc_d_instance := Some r, rc_nodes_per_D := int (length (node_managers (instance_at s r))),
                  rc_required_node := get_faulty_node_count (instance_at s r) (sys_fm s)\<rparr>, True))"

fun check_polls :: "string \<Rightarrow> (bool \<times> ft_system) list \<Rightarrow> ft_system \<Rightarrow> scale_error option \<times> bool" where
  "check_polls job ((stopped, s) # polls) final =
     (if stopped then (Some STRATEGY_STOPPED, False)
      else (case get_instance_by_job_name job (sys_ctrl s) of
              None \<Rightarrow> (Some D_NOT_FOUND_IN_CHECK, False)
            | Some r \<Rightarrow> if operational s r then (None, False) else check_polls job polls final))"
| "check_polls job [] final =
     (case get_instance_by_job_name job (sys_ctrl final) of
        None \<Rightarrow> (Some D_NOT_FOUND_AFTER_WAIT, False)
      | Some r \<Rightarrow> if \<not> operational final r then (None, True) else (Some D_NOT_INACTIVE, False))"

definition check_d_instance_status :: "(bool \<times> ft_system) list \<Rightarrow> ft_system \<Rightarrow> recovery_context \<Rightarrow> recovery_context \<times> bool" where
  "check_d_instance_status polls final ctx0 =
     (let ctx = ctx0\<lparr>rc_state := RS_CHECKING\<rparr>
      in case check_polls (rc_d_job_name ctx) polls final of
           (None, ok) \<Rightarrow> (ctx, ok)
         | (Some err, ok) \<Rightarrow> (ctx\<lparr>rc_last_error := Some err\<rparr>, ok))"

definition refresh_faulty_node_count_before_kill :: "ft_system \<Rightarrow> recovery_context \<Rightarrow> recovery_context \<times> bool" where
  "refresh_faulty_node_count_before_kill s ctx =
     (case get_instance_by_job_name (rc_d_job_name ctx) (sys_ctrl s) of
        None \<Rightarrow> (ctx\<lparr>rc_last_error := Some D_NOT_FOUND_IN_REFRESH\<rparr>, False)
      | Some r \<Rightarrow>
          (let ctx1 = ctx\<lparr>rc_d_instance := Some r, rc_d_instance_id := ins_id (instance_at s r),
                          rc_nodes_per_D := int (length (node_managers (instance_at s r))),
                          rc_required_node := get_faulty_node_count (instance_at s r) (sys_fm s)\<rparr>
           in if rc_required_node ctx1 = 0 then (ctx1\<lparr>rc_last_error := Some NO_FAULTY_NODES\<rparr>, False)
              else (ctx1, True)))"

definition selection_key :: "ft_system \<Rightarrow> iref \<Rightarrow> nat \<times> int" where
  "selection_key s r = (if ins_status (instance_at s r) = INITIAL then 0 else 1, ins_id (instance_at s r))"

definition select_instances_algorithm :: "ft_system \<Rightarrow> recovery_context \<Rightarrow> iref list \<Rightarrow> py_exn + iref list" where
  "select_instances_algorithm s ctx available =
     (if rc_nodes_per_P ctx = 0 then Inl ZeroDivisionError
      else (let q = rc_required_node ctx div rc_nodes_per_P ctx;
                required = (if rc_required_node ctx mod rc_nodes_per_P ctx \<noteq> 0 then q + 1 else q)
            in Inr (take (nat required) (sort_key (selection_key s) available))))"

definition select_p_instances_to_kill :: "ft_system \<Rightarrow> recovery_context \<Rightarrow> recovery_context \<times> bool" where
  "select_p_instances_to_kill s ctx0 =
     (let ctx = ctx0\<lparr>rc_state := RS_SELECTING\<rparr>
      in case filter (operational s) (get_instances_by_role ''prefill'' (sys_ctrl s)) of
           [] \<Rightarrow> (ctx\<lparr>rc_last_error := Some NO_OPERATIONAL_PREFILL\<rparr>, False)
         | p # ps \<Rightarrow>
             (let ctx1 = ctx\<lparr>rc_nodes_per_P := int (length (node_managers (instance_at s p)))\<rparr>;
                  available = rc_nodes_per_P ctx1 * int (length ps)
              in if available < rc_required_node ctx1 then (ctx1\<lparr>rc_last_error := Some NOT_ENOUGH_NODES\<rparr>, False)
                 else (case select_instances_algorithm s ctx1 (p # ps) of
                         Inl e \<Rightarrow> (ctx1\<lparr>rc_last_error := Some (SELECTION_FAILED e)\<rparr>, False)
                       | Inr [] \<Rightarrow> (ctx1\<lparr>rc_last_error := Some EMPTY_SELECTION\<rparr>, False)
                       | Inr sel \<Rightarrow> (ctx1\<lparr>rc_selected := sel\<rparr>, True))))"

text \<open>The stop commands that are sent, and the error that ends the loop.\<close>

fun stop_nodes :: "(node_manager \<Rightarrow> py_exn + bool) \<Rightarrow> int \<Rightarrow> node_manager list \<Rightarrow> node_manager list \<times> scale_error option" where
  "stop_nodes send n (nm # nms) =
     (case send nm of
        Inl e \<Rightarrow> ([nm], Some (KILL_FAILED e))
      | Inr False \<Rightarrow> ([nm], Some (STOP_FAILED n (nm_pod_ip nm)))
      | Inr True \<Rightarrow> (case stop_nodes send n nms of (cmds, err) \<Rightarrow> (nm # cmds, err)))"
| "stop_nodes send n [] = ([], None)"

fun kill_loop :: "(node_manager \<Rightarrow> py_exn + bool) \<Rightarrow> instance_obj list \<Rightarrow> node_manager list \<times> scale_error option" where
  "kill_loop send (i # is) =
     (case stop_nodes send (ins_id i) (node_managers i) of
        (cmds, Some err) \<Rightarrow> (cmds, Some err)
      | (cmds, None) \<Rightarrow> (case kill_loop send is of (cmds2, err) \<Rightarrow> (cmds @ cmds2, err)))"
| "kill_loop send [] = ([], None)"

definition kill_and_release_p_instances ::
    "ft_system \<Rightarrow> (node_manager \<Rightarrow> py_exn + bool) \<Rightarrow> recovery_context \<Rightarrow> (recovery_context \<times> bool) \<times> node_manager list" where
  "kill_and_release_p_instances s send ctx0 =
     (let ctx = ctx0\<lparr>rc_state := RS_KILLING\<rparr>
      in case kill_loop send (map (instance_at s) (rc_selected ctx)) of
           (cmds, None) \<Rightarrow> ((ctx, True), cmds)
         | (cmds, Some err) \<Rightarrow> ((ctx\<lparr>rc_last_error := Some err\<rparr>, False), cmds))"

section \<open>The strategy\<close>

definition execute_recovery_flow :: "scale_run \<Rightarrow> recovery_context \<Rightarrow> (recovery_context \<times> bool) \<times> node_manager list" where
  "execute_recovery_flow run ctx =
     (case scale_get_d_instance (sr_load run) ctx of
        (c1, False) \<Rightarrow> ((c1, False), [])
      | (c1, True) \<Rightarrow>
          (case check_d_instance_status (sr_polls run) (sr_after_wait run) c1 of
             (c2, False) \<Rightarrow> ((c2, False), [])
           | (c2, True) \<Rightarrow>
               (case refresh_faulty_node_count_before_kill (sr_refresh run) c2 of
                  (c3, False) \<Rightarrow> ((c3, False), [])
                | (c3, True) \<Rightarrow>
                    (case select_p_instances_to_kill (sr_select run) c3 of
                       (c4, False) \<Rightarrow> ((c4, False), [])
                     | (c4, True) \<Rightarrow> kill_and_release_p_instances (sr_kill run) (sr_stop run) c4))))"

text \<open>\<open>ScaleP2DEvent\<close>: the decode instance, its job, and the prefill instances that were stopped.\<close>

type_synonym scale_event = "int \<times> string \<times> int list"

definition scale_event_of :: "ft_system \<Rightarrow> recovery_context \<Rightarrow> scale_event" where
  "scale_event_of s ctx = (rc_d_instance_id ctx, rc_d_job_name ctx, map (\<lambda>r. ins_id (instance_at s r)) (rc_selected ctx))"

text \<open>\<open>execute\<close>: the context at the end, the stop commands that were sent, and the event that is reported.\<close>

definition scale_execute :: "scale_run \<Rightarrow> int \<Rightarrow> recovery_context option \<times> node_manager list \<times> scale_event option" where
  "scale_execute run n =
     (case get_instance n (sys_ctrl (sr_start run)) of
        None \<Rightarrow> (None, [], None)
      | Some r \<Rightarrow>
          (let i = instance_at (sr_start run) r
           in case execute_recovery_flow run (new_context (ins_id i) (job_name i)) of
                ((ctx, True), cmds) \<Rightarrow>
                  (Some (ctx\<lparr>rc_state := RS_SUCCESS\<rparr>), cmds, Some (scale_event_of (sr_kill run) ctx))
              | ((ctx, False), cmds) \<Rightarrow> (Some (ctx\<lparr>rc_state := RS_FAILED\<rparr>), cmds, None)))"


section \<open>Selection\<close>

lemma faulty_count_nonneg: "0 \<le> get_faulty_node_count i fm"
  by (simp add: get_faulty_node_count_def Let_def)

text \<open>Rounding up: the number of instances whose nodes are enough.\<close>

lemma ceil_bounds:
  fixes a b :: int
  assumes "0 < a" and "0 < b"
  defines "k \<equiv> (if a mod b \<noteq> 0 then a div b + 1 else a div b)"
  shows "a \<le> k * b \<and> (k - 1) * b < a \<and> 0 < k"
proof -
  define x where "x = a div b * b"
  have a: "a = x + a mod b" by (simp add: x_def)
  have m: "0 \<le> a mod b" "a mod b < b" using assms(2) by simp_all
  have bounds: "a \<le> k * b \<and> (k - 1) * b < a"
  proof (cases "a mod b = 0")
    case True
    then have "k = a div b" by (simp add: k_def)
    then have "k * b = x" "(k - 1) * b = x - b" by (simp_all add: x_def left_diff_distrib)
    with a True assms(2) show ?thesis by simp
  next
    case False
    then have "k = a div b + 1" by (simp add: k_def)
    then have "k * b = x + b" "(k - 1) * b = x" by (simp_all add: x_def distrib_right)
    with a m False show ?thesis by simp
  qed
  then have "0 < k * b" using assms(1) by linarith
  with bounds assms(2) show ?thesis by (simp add: zero_less_mult_iff)
qed

text \<open>The prefix of a sorted list: nothing outside it comes before anything inside.\<close>

lemma take_sorted_first:
  assumes "p \<in> set (take k (sort_key f xs))" and "q \<in> set (drop k (sort_key f xs))"
  shows "f p \<le> f q"
proof -
  let ?ys = "sort_key f xs"
  have "sorted (map f (take k ?ys @ drop k ?ys))" by simp
  then have "sorted (map f (take k ?ys) @ map f (drop k ?ys))" by (simp only: map_append)
  with assms show ?thesis by (auto simp: sorted_append)
qed

definition prefill_pool :: "ft_system \<Rightarrow> iref list" where
  "prefill_pool s = filter (operational s) (get_instances_by_role ''prefill'' (sys_ctrl s))"

text \<open>
  A selection of prefill instances: the first ones of the pool in the order of preference, no more than necessary, and never all of them.
\<close>

definition selection_ok :: "ft_system \<Rightarrow> int \<Rightarrow> int \<Rightarrow> iref list \<Rightarrow> bool" where
  "selection_ok s required per sel \<longleftrightarrow>
     (\<exists>rest. mset (sel @ rest) = mset (prefill_pool s) \<and> rest \<noteq> [] \<and>
        (\<forall>p \<in> set sel. \<forall>q \<in> set rest. selection_key s p \<le> selection_key s q)) \<and>
     required \<le> int (length sel) * per \<and> (int (length sel) - 1) * per < required"

lemma select_ok:
  assumes "select_p_instances_to_kill s ctx = (ctx', True)" and req: "0 < rc_required_node ctx"
  shows "selection_ok s (rc_required_node ctx) (rc_nodes_per_P ctx') (rc_selected ctx') \<and> rc_selected ctx' \<noteq> [] \<and>
    rc_required_node ctx' = rc_required_node ctx \<and> rc_d_job_name ctx' = rc_d_job_name ctx \<and>
    rc_nodes_per_P ctx' = int (length (node_managers (instance_at s (hd (prefill_pool s)))))"
proof -
  obtain p ps where pool: "prefill_pool s = p # ps"
    using assms(1) unfolding select_p_instances_to_kill_def prefill_pool_def [symmetric] by (cases "prefill_pool s") (auto simp: Let_def)
  define per where "per = int (length (node_managers (instance_at s p)))"
  define k where "k = (if rc_required_node ctx mod per \<noteq> 0 then rc_required_node ctx div per + 1 else rc_required_node ctx div per)"
  let ?ys = "sort_key (selection_key s) (p # ps)"
  have enough: "rc_required_node ctx \<le> per * int (length ps)" and sel: "rc_selected ctx' = take (nat k) ?ys" "rc_selected ctx' \<noteq> []"
    and ctx': "rc_required_node ctx' = rc_required_node ctx" "rc_nodes_per_P ctx' = per" "rc_d_job_name ctx' = rc_d_job_name ctx"
    using assms(1) pool unfolding select_p_instances_to_kill_def prefill_pool_def [symmetric]
    by (auto simp: Let_def select_instances_algorithm_def per_def [symmetric] k_def [symmetric] split: if_splits list.splits sum.splits)
  have "per \<noteq> 0" using enough req by auto
  then have per: "0 < per" by (simp add: per_def)
  have k: "rc_required_node ctx \<le> k * per" "(k - 1) * per < rc_required_node ctx" "0 < k"
    using ceil_bounds [OF req per] unfolding k_def by simp_all
  have "(k - 1) * per < int (length ps) * per" using k(2) enough by (simp add: mult.commute)
  then have le: "k \<le> int (length ps)" using per by (simp add: mult_less_cancel_right)
  then have len: "int (length (rc_selected ctx')) = k" using k(3) by (simp add: sel(1) min_def)
  let ?rest = "drop (nat k) ?ys"
  have "mset (rc_selected ctx' @ ?rest) = mset (prefill_pool s)" unfolding sel(1) by (simp add: pool)
  moreover have "length ?rest \<noteq> 0" using le by simp
  then have "?rest \<noteq> []" by fastforce
  moreover have "\<forall>a \<in> set (rc_selected ctx'). \<forall>b \<in> set ?rest. selection_key s a \<le> selection_key s b"
    unfolding sel(1) by (intro ballI take_sorted_first)
  ultimately show ?thesis unfolding selection_ok_def ctx' len using k sel(2) by (auto simp: pool per_def)
qed


section \<open>Stop commands\<close>

lemma stop_nodes_sent:
  "stop_nodes send n nms = (cmds, err) \<Longrightarrow>
   \<exists>rest. nms = cmds @ rest \<and> (err = None \<longrightarrow> rest = [] \<and> (\<forall>nm \<in> set cmds. send nm = Inr True))"
proof (induction send n nms arbitrary: cmds rule: stop_nodes.induct)
  case (1 send n nm nms)
  show ?case
  proof (cases "send nm = Inr True")
    case True
    obtain c e where r: "stop_nodes send n nms = (c, e)" by fastforce
    with True "1.prems" have "cmds = nm # c" "e = err" by auto
    with "1.IH" [of True c] True r show ?thesis by auto
  next
    case False
    with "1.prems" have "cmds = [nm]" "err \<noteq> None" by (auto split: sum.splits bool.splits)
    then show ?thesis by auto
  qed
qed simp

lemma kill_loop_sent:
  "kill_loop send is = (cmds, err) \<Longrightarrow>
   \<exists>rest. concat (map node_managers is) = cmds @ rest \<and> (err = None \<longrightarrow> rest = [] \<and> (\<forall>nm \<in> set cmds. send nm = Inr True))"
proof (induction send "is" arbitrary: cmds rule: kill_loop.induct)
  case (1 send i "is")
  obtain c e where s: "stop_nodes send (ins_id i) (node_managers i) = (c, e)" by fastforce
  from stop_nodes_sent [OF s] obtain rest where rest: "node_managers i = c @ rest" "e = None \<longrightarrow> rest = [] \<and> (\<forall>nm \<in> set c. send nm = Inr True)" by auto
  show ?case
  proof (cases e)
    case None
    obtain c2 e2 where k': "kill_loop send is = (c2, e2)" by fastforce
    from "1.prems" have "cmds = c @ c2" "err = e2" by (simp_all add: s None k')
    with k' have k: "kill_loop send is = (c2, err)" by simp
    with \<open>cmds = c @ c2\<close> "1.IH" [OF s [symmetric] None k] rest None show ?thesis by auto
  next
    case (Some x)
    with "1.prems" s have "cmds = c" "err = Some x" by simp_all
    with rest show ?thesis by auto
  qed
qed simp

section \<open>Runs\<close>

text \<open>The decode instance of the job is registered and neither INITIAL nor ACTIVE.\<close>

definition decode_down :: "string \<Rightarrow> ft_system \<Rightarrow> bool" where
  "decode_down job s \<longleftrightarrow> (\<exists>r. get_instance_by_job_name job (sys_ctrl s) = Some r \<and> \<not> operational s r)"

lemma check_polls_down:
  "snd (check_polls job polls final) \<longleftrightarrow> (\<forall>(stopped, s) \<in> set polls. \<not> stopped \<and> decode_down job s) \<and> decode_down job final"
  by (induction job polls final rule: check_polls.induct) (auto simp: decode_down_def split: option.splits)

lemma check_status_down:
  "check_d_instance_status polls final ctx = (ctx', ok) \<Longrightarrow>
   rc_d_job_name ctx' = rc_d_job_name ctx \<and>
   ok = ((\<forall>(stopped, s) \<in> set polls. \<not> stopped \<and> decode_down (rc_d_job_name ctx) s) \<and> decode_down (rc_d_job_name ctx) final)"
  unfolding check_polls_down [symmetric] by (auto simp: check_d_instance_status_def Let_def split: prod.splits option.splits)

text \<open>What the first four steps of a flow established before the first command is sent.\<close>

lemma flow_cases:
  assumes "execute_recovery_flow run ctx = ((ctx', ok), cmds)" and "ok \<or> cmds \<noteq> []"
  obtains c3 c4 where "\<forall>(stopped, s) \<in> set (sr_polls run). \<not> stopped \<and> decode_down (rc_d_job_name ctx) s"
    "decode_down (rc_d_job_name ctx) (sr_after_wait run)"
    "0 < rc_required_node c3" "rc_d_job_name c3 = rc_d_job_name ctx"
    "select_p_instances_to_kill (sr_select run) c3 = (c4, True)"
    "kill_and_release_p_instances (sr_kill run) (sr_stop run) c4 = ((ctx', ok), cmds)"
proof -
  obtain c1 o1 where s1: "scale_get_d_instance (sr_load run) ctx = (c1, o1)" by fastforce
  obtain c2 o2 where s2: "check_d_instance_status (sr_polls run) (sr_after_wait run) c1 = (c2, o2)" by fastforce
  obtain c3 o3 where s3: "refresh_faulty_node_count_before_kill (sr_refresh run) c2 = (c3, o3)" by fastforce
  obtain c4 o4 where s4: "select_p_instances_to_kill (sr_select run) c3 = (c4, o4)" by fastforce
  have oks: "o1" "o2" "o3" "o4" and kill: "kill_and_release_p_instances (sr_kill run) (sr_stop run) c4 = ((ctx', ok), cmds)"
    using assms by (auto simp: execute_recovery_flow_def s1 s2 s3 s4 split: bool.splits)
  have job1: "rc_d_job_name c1 = rc_d_job_name ctx" using s1 by (auto simp: scale_get_d_instance_def Let_def split: option.splits)
  have req: "0 < rc_required_node c3" and job3: "rc_d_job_name c3 = rc_d_job_name c2"
    using s3 oks(3) faulty_count_nonneg
    by (auto simp: refresh_faulty_node_count_before_kill_def Let_def less_le split: option.splits if_splits)
  show thesis
    by (rule that [OF _ _ req _ s4 [unfolded eqTrueI [OF oks(4)]] kill]) (use check_status_down [OF s2] oks(2) job1 job3 in auto)
qed

lemma kill_sent:
  assumes "kill_and_release_p_instances s send c = ((ctx', ok), cmds)"
  shows "rc_d_job_name ctx' = rc_d_job_name c \<and> rc_selected ctx' = rc_selected c \<and> rc_nodes_per_P ctx' = rc_nodes_per_P c \<and> rc_required_node ctx' = rc_required_node c \<and>
    (\<exists>rest. concat (map (\<lambda>r. node_managers (instance_at s r)) (rc_selected c)) = cmds @ rest \<and>
       (ok \<longrightarrow> rest = [] \<and> (\<forall>nm \<in> set cmds. send nm = Inr True)))"
proof -
  obtain c' e where k: "kill_loop send (map (instance_at s) (rc_selected c)) = (c', e)" by fastforce
  from kill_loop_sent [OF this] assms k show ?thesis
    by (auto simp: kill_and_release_p_instances_def Let_def comp_def split: option.splits)
qed


lemma execute_flow:
  assumes "scale_execute run n = (Some ctx, cmds, ev)"
  obtains i :: instance_obj and c5 where "execute_recovery_flow run (new_context (ins_id i) (job_name i)) = ((c5, ev \<noteq> None), cmds)"
    "ctx = c5\<lparr>rc_state := if ev \<noteq> None then RS_SUCCESS else RS_FAILED\<rparr>"
proof -
  obtain r where r: "get_instance n (sys_ctrl (sr_start run)) = Some r"
    using assms by (cases "get_instance n (sys_ctrl (sr_start run))") (simp_all add: scale_execute_def)
  define i where "i = instance_at (sr_start run) r"
  obtain x cmds' where "execute_recovery_flow run (new_context (ins_id i) (job_name i)) = (x, cmds')" by fastforce
  moreover obtain c5 ok where "x = (c5, ok)" by fastforce
  ultimately have flow: "execute_recovery_flow run (new_context (ins_id i) (job_name i)) = ((c5, ok), cmds')" by simp
  show thesis
  proof (cases ok)
    case True
    with assms flow have "cmds' = cmds" "ctx = c5\<lparr>rc_state := RS_SUCCESS\<rparr>" "ev \<noteq> None"
      by (auto simp: scale_execute_def r i_def [symmetric] scale_event_of_def)
    then show thesis using flow True by (intro that [of i c5]) simp_all
  next
    case False
    with assms flow have "cmds' = cmds" "ctx = c5\<lparr>rc_state := RS_FAILED\<rparr>" "ev = None"
      by (auto simp: scale_execute_def r i_def [symmetric])
    then show thesis using flow False by (intro that [of i c5]) simp_all
  qed
qed

lemma run_established:
  assumes "scale_execute run n = (Some ctx, cmds, ev)" and "ev \<noteq> None \<or> cmds \<noteq> []"
  shows "(\<forall>(stopped, s) \<in> set (sr_polls run). \<not> stopped \<and> decode_down (rc_d_job_name ctx) s) \<and>
    decode_down (rc_d_job_name ctx) (sr_after_wait run) \<and> 0 < rc_required_node ctx \<and>
    selection_ok (sr_select run) (rc_required_node ctx) (rc_nodes_per_P ctx) (rc_selected ctx) \<and>
    (\<exists>rest. concat (map (\<lambda>r. node_managers (instance_at (sr_kill run) r)) (rc_selected ctx)) = cmds @ rest \<and>
       (ev \<noteq> None \<longrightarrow> rest = [] \<and> (\<forall>nm \<in> set cmds. sr_stop run nm = Inr True)))"
proof -
  obtain i :: instance_obj and c5 where
    flow: "execute_recovery_flow run (new_context (ins_id i) (job_name i)) = ((c5, ev \<noteq> None), cmds)"
    and ctx: "ctx = c5\<lparr>rc_state := if ev \<noteq> None then RS_SUCCESS else RS_FAILED\<rparr>"
    by (rule execute_flow [OF assms(1)]) (rule that)
  have job: "rc_d_job_name (new_context (ins_id i) (job_name i)) = job_name i" by (simp add: new_context_def)
  obtain c3 c4 where
    polls: "\<forall>(stopped, s) \<in> set (sr_polls run). \<not> stopped \<and> decode_down (job_name i) s" "decode_down (job_name i) (sr_after_wait run)"
    and req: "0 < rc_required_node c3" "rc_d_job_name c3 = job_name i"
    and sel: "select_p_instances_to_kill (sr_select run) c3 = (c4, True)"
    and kill: "kill_and_release_p_instances (sr_kill run) (sr_stop run) c4 = ((c5, ev \<noteq> None), cmds)"
    by (rule flow_cases [OF flow assms(2), unfolded job]) (rule that)
  note s = select_ok [OF sel req(1)] and k = kill_sent [OF kill]
  have same: "rc_d_job_name ctx = rc_d_job_name c5" "rc_selected ctx = rc_selected c5" "rc_nodes_per_P ctx = rc_nodes_per_P c5"
    "rc_required_node ctx = rc_required_node c5" by (simp_all add: ctx)
  have fields: "rc_d_job_name ctx = job_name i" "rc_selected ctx = rc_selected c4" "rc_nodes_per_P ctx = rc_nodes_per_P c4"
      "rc_required_node ctx = rc_required_node c3"
    unfolding same using s k req(2) by simp_all
  show ?thesis unfolding fields using polls req(1) conjunct1 [OF s] k by (elim conjE, intro conjI) assumption+
qed

section \<open>Properties\<close>

text \<open>Two prefill instances and a decode instance whose node has a fault of level L6.\<close>

definition demo_prefill :: "int \<Rightarrow> nat \<Rightarrow> instance_obj" where
  "demo_prefill n k = (demo_instance n ''p'' ''prefill'')\<lparr>ins_status := ACTIVE,
     node_managers := map (\<lambda>j. \<lparr>nm_pod_ip = dec_int n, nm_port = dec_int (int j), device_num = 8\<rparr>) [0..<k]\<rparr>"

definition demo_scale_heap :: "nat \<Rightarrow> nat \<Rightarrow> ins_status \<Rightarrow> iref \<Rightarrow> instance_obj" where
  "demo_scale_heap k l st r =
     (if r = 0 then (demo_prefill 1 1)\<lparr>job_name := ''d'', ins_role := ''decode'', ins_status := INACTIVE\<rparr>
      else if r = 1 then demo_prefill 2 k else (demo_prefill 3 l)\<lparr>ins_status := st\<rparr>)"

definition demo_scale_sys :: "nat \<Rightarrow> nat \<Rightarrow> ins_status \<Rightarrow> ft_system" where
  "demo_scale_sys k l st =
     \<lparr>sys_ctrl = (init_controller (demo_scale_heap k l st) False (init_pusher 0 0))\<lparr>instances := [(1, 0), (2, 1), (3, 2)]\<rparr>,
      sys_fm = (init_fault_manager False ''p'' ''n'' False True)
        \<lparr>fm_instances := [(1, (new_instance_metadata 1)\<lparr>im_fault_level := L6\<rparr>)],
         fm_nodes := map (\<lambda>h. (h, (new_node h h 1 ''d'')\<lparr>nd_hardware := [(NODE_REBOOT, node_reboot_fault)]\<rparr>)) [''h'', ''g'']\<rparr>\<rparr>"

definition demo_scale_run :: "nat \<Rightarrow> nat \<Rightarrow> ins_status \<Rightarrow> scale_run" where
  "demo_scale_run k l st =
     (let s = demo_scale_sys k l st
      in \<lparr>sr_start = s, sr_load = s, sr_polls = [(False, s)], sr_after_wait = s, sr_refresh = s, sr_select = s, sr_kill = s,
          sr_stop = (\<lambda>_. Inr True)\<rparr>)"

definition demo_scale_result :: "recovery_context option \<times> node_manager list \<times> scale_event option" where
  "demo_scale_result = scale_execute (demo_scale_run 2 2 ACTIVE) 1"

lemma demo_scale_eval:
  "map_option rc_selected (fst demo_scale_result) = Some [1]" "length (fst (snd demo_scale_result)) = 2"
  "snd (snd demo_scale_result) = Some (1, ''d'', [2])" "map_option rc_state (fst demo_scale_result) = Some RS_SUCCESS"
  by code_simp+


lemma demo_scale_shape: "\<exists>ctx cmds ev. scale_execute (demo_scale_run 2 2 ACTIVE) 1 = (Some ctx, cmds, Some ev) \<and> rc_selected ctx = [1] \<and> length cmds = 2"
proof -
  obtain x cmds y where res: "demo_scale_result = (x, cmds, y)" by (metis surj_pair)
  have "map_option rc_selected x = Some [1]" "length cmds = 2" "y = Some (1, ''d'', [2])"
    using demo_scale_eval(1-3) unfolding res by simp_all
  then obtain ctx where "x = Some ctx" "rc_selected ctx = [1]" "length cmds = 2" "y = Some (1, ''d'', [2])" by (cases x) simp_all
  with res show ?thesis by (auto simp: demo_scale_result_def)
qed

text \<open>
  C18: when the strategy sends a stop command, the decode instance was down in every poll and after the wait, and no poll saw the
  stop signal; a positive number of nodes is required; the instances to stop are operational prefill instances, INITIAL ones and small ids first,
  no more of them than necessary, and at least one operational prefill instance is left; and the commands go to the node managers of these instances
  in order.
\<close>

theorem scale_preempts_safely:
  assumes "scale_execute run n = (Some ctx, cmds, ev)" and "cmds \<noteq> []"
  shows "(\<forall>(stopped, s) \<in> set (sr_polls run). \<not> stopped \<and> decode_down (rc_d_job_name ctx) s) \<and>
    decode_down (rc_d_job_name ctx) (sr_after_wait run) \<and> 0 < rc_required_node ctx \<and>
    (\<exists>rest. mset (rc_selected ctx @ rest) = mset (prefill_pool (sr_select run)) \<and> rest \<noteq> [] \<and>
       (\<forall>p \<in> set (rc_selected ctx). \<forall>q \<in> set rest. selection_key (sr_select run) p \<le> selection_key (sr_select run) q)) \<and>
    (int (length (rc_selected ctx)) - 1) * rc_nodes_per_P ctx < rc_required_node ctx \<and>
    (\<exists>rest. concat (map (\<lambda>r. node_managers (instance_at (sr_kill run) r)) (rc_selected ctx)) = cmds @ rest)"
  using run_established [OF assms(1) disjI2 [OF assms(2)]] unfolding selection_ok_def
  by (elim conjE, intro conjI) (assumption | erule ex_forward, erule conjunct1)+

theorem scale_preempts_safely_witness:
  "\<exists>ctx cmds ev. scale_execute (demo_scale_run 2 2 ACTIVE) 1 = (Some ctx, cmds, Some ev) \<and> cmds \<noteq> [] \<and> 0 < rc_required_node ctx \<and>
     (\<exists>rest. mset (1 # rest) = mset (prefill_pool (demo_scale_sys 2 2 ACTIVE)) \<and> rest \<noteq> [])"
proof -
  obtain ctx cmds ev where r: "scale_execute (demo_scale_run 2 2 ACTIVE) 1 = (Some ctx, cmds, Some ev)" "rc_selected ctx = [1]" "length cmds = 2"
    using demo_scale_shape by blast
  from r(3) have "cmds \<noteq> []" by auto
  moreover from scale_preempts_safely [OF r(1) this] obtain rest where
    "0 < rc_required_node ctx" "mset (rc_selected ctx @ rest) = mset (prefill_pool (sr_select (demo_scale_run 2 2 ACTIVE)))" "rest \<noteq> []" by blast
  moreover have "sr_select (demo_scale_run 2 2 ACTIVE) = demo_scale_sys 2 2 ACTIVE" by (simp add: demo_scale_run_def Let_def)
  ultimately have "cmds \<noteq> [] \<and> 0 < rc_required_node ctx \<and> (\<exists>rest. mset (1 # rest) = mset (prefill_pool (demo_scale_sys 2 2 ACTIVE)) \<and> rest \<noteq> [])"
    using r(2) by auto
  with r(1) show ?thesis by blast
qed

lemma uniform_concat: "\<forall>p \<in> set xs. int (length (f p)) = per \<Longrightarrow> int (length (concat (map f xs))) = int (length xs) * per"
  by (induction xs) (auto simp: distrib_right)

text \<open>
  C20: a run that reports success has sent a stop command to every node manager of the selected prefill instances, each one was accepted, and if the
  operational prefill instances all have as many nodes as the first of them, at least the required number of nodes is freed, and less than the
  nodes of one instance more.
\<close>

theorem scale_success_frees_nodes:
  assumes "scale_execute run n = (Some ctx, cmds, Some ev)"
    and "\<forall>p \<in> set (prefill_pool (sr_select run)). int (length (node_managers (instance_at (sr_kill run) p))) = rc_nodes_per_P ctx"
  shows "cmds = concat (map (\<lambda>r. node_managers (instance_at (sr_kill run) r)) (rc_selected ctx)) \<and>
    (\<forall>nm \<in> set cmds. sr_stop run nm = Inr True) \<and>
    rc_required_node ctx \<le> int (length cmds) \<and> int (length cmds) < rc_required_node ctx + rc_nodes_per_P ctx"
proof -
  have est: "selection_ok (sr_select run) (rc_required_node ctx) (rc_nodes_per_P ctx) (rc_selected ctx)"
    "cmds = concat (map (\<lambda>r. node_managers (instance_at (sr_kill run) r)) (rc_selected ctx))" "\<forall>nm \<in> set cmds. sr_stop run nm = Inr True"
    using run_established [OF assms(1)] by auto
  from est(1) obtain rest where "mset (rc_selected ctx @ rest) = mset (prefill_pool (sr_select run))" by (auto simp: selection_ok_def)
  then have "set (rc_selected ctx @ rest) = set (prefill_pool (sr_select run))" by (rule mset_eq_setD)
  then have "\<forall>p \<in> set (rc_selected ctx). int (length (node_managers (instance_at (sr_kill run) p))) = rc_nodes_per_P ctx" using assms(2) by auto
  then have "int (length (concat (map (\<lambda>r. node_managers (instance_at (sr_kill run) r)) (rc_selected ctx)))) =
      int (length (rc_selected ctx)) * rc_nodes_per_P ctx"
    by (rule uniform_concat)
  with est show ?thesis by (auto simp: selection_ok_def left_diff_distrib)
qed

theorem scale_success_frees_nodes_witness:
  "\<exists>ctx cmds ev. scale_execute (demo_scale_run 2 2 ACTIVE) 1 = (Some ctx, cmds, Some ev) \<and> rc_required_node ctx \<le> int (length cmds)"
proof -
  obtain ctx cmds ev where r: "scale_execute (demo_scale_run 2 2 ACTIVE) 1 = (Some ctx, cmds, Some ev)" using demo_scale_shape by blast
  have per: "map_option rc_nodes_per_P (fst demo_scale_result) = Some 2" by code_simp
  have "\<forall>p \<in> set (prefill_pool (sr_select (demo_scale_run 2 2 ACTIVE))).
      int (length (node_managers (instance_at (sr_kill (demo_scale_run 2 2 ACTIVE)) p))) = 2" by code_simp
  moreover have "rc_nodes_per_P ctx = 2" using per r by (simp add: demo_scale_result_def)
  ultimately have "\<forall>p \<in> set (prefill_pool (sr_select (demo_scale_run 2 2 ACTIVE))).
      int (length (node_managers (instance_at (sr_kill (demo_scale_run 2 2 ACTIVE)) p))) = rc_nodes_per_P ctx" by simp
  from scale_success_frees_nodes [OF r this] have "rc_required_node ctx \<le> int (length cmds)" by blast
  with r show ?thesis by blast
qed

section \<open>Selections of several runs\<close>

text \<open>
  Selections in the same state are prefixes of one order, so that two decode instances that fail together ask for the same prefill instances.
\<close>

lemma selections_overlap:
  assumes "select_p_instances_to_kill s c = (c', True)" and "select_p_instances_to_kill s d = (d', True)"
    and "0 < rc_required_node c" and "0 < rc_required_node d"
  shows "hd (rc_selected c') = hd (rc_selected d')"
proof -
  have "\<exists>k. rc_selected c' = take k (sort_key (selection_key s) (prefill_pool s))"
    if "select_p_instances_to_kill s c = (c', True)" for c c'
  proof -
    from that obtain p ps where "prefill_pool s = p # ps"
      unfolding select_p_instances_to_kill_def prefill_pool_def [symmetric] by (cases "prefill_pool s") (auto simp: Let_def)
    with that show ?thesis unfolding select_p_instances_to_kill_def prefill_pool_def [symmetric]
      by (auto simp: Let_def select_instances_algorithm_def split: if_splits list.splits sum.splits) (rule exI, erule sym)+
  qed
  with assms(1,2) obtain j k where "rc_selected c' = take j (sort_key (selection_key s) (prefill_pool s))"
    "rc_selected d' = take k (sort_key (selection_key s) (prefill_pool s))" by metis
  moreover have "rc_selected c' \<noteq> []" "rc_selected d' \<noteq> []" using select_ok assms by blast+
  ultimately show ?thesis by (simp add: hd_take)
qed

text \<open>The nodes of the first operational instance count for all: with smaller instances a run succeeds without freeing enough nodes.\<close>

lemma success_without_enough_nodes:
  "(case scale_execute (demo_scale_run 2 1 INITIAL) 1 of (ctx, cmds, ev) \<Rightarrow>
     map_option rc_required_node ctx = Some 2 \<and> length cmds = 1 \<and> ev = Some (1, ''d'', [3]))"
  by code_simp

end
