(* ===== verification/Fault_Correctness.thy ===== *)
theory Fault_Correctness
  imports Fault_Manager Controller_Properties
begin

text \<open>
  Fault manager and instance manager together: the invariant of the pair, the level that a refresh computes, and the
  isolation of instances with severe faults.
\<close>

section \<open>The invariant\<close>

definition node_ok :: "node_metadata \<Rightarrow> bool" where
  "node_ok nd \<longleftrightarrow> nd_instance_ids nd \<noteq> [] \<and> set (nd_instance_ids nd) \<subseteq> set (dkeys (nd_pod_ips nd))"

text \<open>The nodes, other than those named in \<open>K\<close>, have an instance, and an address for each of their instances.\<close>

definition nodes_ok :: "string set \<Rightarrow> (string, node_metadata) dict \<Rightarrow> bool" where
  "nodes_ok K nodes \<longleftrightarrow> dict_ok nodes \<and> (\<forall>k nd. k \<notin> K \<and> dget nodes k = Some nd \<longrightarrow> node_ok nd)"

lemma map_fst_values [simp]: "map (fst \<circ> (\<lambda>(k, v). (k, f k v))) d = map fst d"
  by (induction d) auto

text \<open>Severe instances, other than those of \<open>X\<close>, are separated.\<close>

definition severe_separated :: "int set \<Rightarrow> ft_system \<Rightarrow> bool" where
  "severe_separated X s \<longleftrightarrow>
     (\<forall>n m. n \<notin> X \<and> dget (fm_instances (sys_fm s)) n = Some m \<and> L2 < im_fault_level m \<longrightarrow> n \<in> forced_separated_instances (sys_ctrl s))"

definition ft_inv :: "int set \<Rightarrow> ft_system \<Rightarrow> bool" where
  "ft_inv X s \<longleftrightarrow>
     ctrl_inv (sys_ctrl s) \<and> OTHER_OBSERVER 0 \<in> set (observers (sys_ctrl s)) \<and>
     (\<forall>n. dmem n (fm_instances (sys_fm s)) \<longrightarrow> dmem n (instances (sys_ctrl s))) \<and>
     nodes_ok {} (fm_nodes (sys_fm s)) \<and> severe_separated X s"

lemma ft_inv_mono: "ft_inv X s \<Longrightarrow> X \<subseteq> Y \<Longrightarrow> ft_inv Y s"
  by (auto simp: ft_inv_def severe_separated_def)

lemma upd_simps [simp]:
  "sys_fm (upd_fm f s) = f (sys_fm s)" "sys_ctrl (upd_fm f s) = sys_ctrl s"
  "sys_ctrl (upd_ctrl g s) = g (sys_ctrl s)" "sys_fm (upd_ctrl g s) = sys_fm s"
  by (simp_all add: upd_fm_def upd_ctrl_def)

lemma fm_persist_simps [simp]:
  "fm_nodes (fm_persist_data fm) = fm_nodes fm" "fm_instances (fm_persist_data fm) = fm_instances fm"
  "fm_strategies (fm_persist_data fm) = fm_strategies fm" "fm_persistence (fm_persist_data fm) = fm_persistence fm"
  by (simp_all add: fm_persist_data_def)

text \<open>The invariant depends on the fault manager through nodes and instances only.\<close>

lemma ft_inv_cong:
  assumes "ft_inv X s" and "fm_nodes (sys_fm s') = fm_nodes (sys_fm s)" and "fm_instances (sys_fm s') = fm_instances (sys_fm s)"
    and "sys_ctrl s' = sys_ctrl s"
  shows "ft_inv X s'"
  using assms by (simp add: ft_inv_def severe_separated_def)

lemma ft_inv_ctrl_persist: "ft_inv X s \<Longrightarrow> ft_inv X (upd_ctrl (persist_data digest t) s)"
  by (simp add: ft_inv_def severe_separated_def)

lemma ft_inv_fm_persist: "ft_inv X s \<Longrightarrow> ft_inv X (upd_fm fm_persist_data s)"
  by (erule ft_inv_cong) simp_all

lemma set_fields [simp]:
  "fm_nodes (set_metadata n m fm) = fm_nodes fm" "fm_instances (set_metadata n m fm) = dset n m (fm_instances fm)"
  "fm_instances (set_node k nd fm) = fm_instances fm" "fm_nodes (set_node k nd fm) = dset k nd (fm_nodes fm)"
  by (simp_all add: set_metadata_def set_node_def)

lemma ft_inv_set_metadata:
  assumes "ft_inv X s" and "dmem n (fm_instances (sys_fm s))"
  shows "ft_inv (insert n X) (upd_fm (set_metadata n m) s)"
    and "im_fault_level m \<le> L2 \<Longrightarrow> ft_inv X (upd_fm (set_metadata n m) s)"
  using assms by (auto simp: ft_inv_def severe_separated_def not_less)

lemma nodes_ok_dset: "nodes_ok K nodes \<Longrightarrow> node_ok nd \<Longrightarrow> nodes_ok (K - {k}) (dset k nd nodes)"
  by (auto simp: nodes_ok_def)

lemma ft_inv_set_node:
  assumes "ft_inv X s" and "node_ok nd"
  shows "ft_inv X (upd_fm (set_node k nd) s)"
  using assms nodes_ok_dset [of "{}" "fm_nodes (sys_fm s)" nd k] by (simp add: ft_inv_def severe_separated_def)

section \<open>Separation and recovery\<close>

lemma managed_id: "ctrl_inv c \<Longrightarrow> get_instance n c = Some r \<Longrightarrow> ins_id (ctrl_heap c r) = n"
  by (simp add: get_instance_def ctrl_inv_id)

lemma ctrl_inv_mark:
  assumes "ctrl_inv c" and "get_instance n c = Some r"
  shows "ctrl_inv (set_status r INACTIVE (c\<lparr>forced_separated_instances := insert n (forced_separated_instances c)\<rparr>))"
    and "ins_status (ctrl_heap c r) \<noteq> ACTIVE \<Longrightarrow> ctrl_inv (c\<lparr>forced_separated_instances := insert n (forced_separated_instances c)\<rparr>)"
proof -
  have "keyed ((ctrl_heap c)(r := (ctrl_heap c r)\<lparr>ins_status := INACTIVE\<rparr>)) (instances c)"
    using assms by (simp add: ctrl_inv_def keyed_def)
  then show "ctrl_inv (set_status r INACTIVE (c\<lparr>forced_separated_instances := insert n (forced_separated_instances c)\<rparr>))"
    using assms unfolding ctrl_inv_def by (simp add: get_instance_def)
  show "ins_status (ctrl_heap c r) \<noteq> ACTIVE \<Longrightarrow> ctrl_inv (c\<lparr>forced_separated_instances := insert n (forced_separated_instances c)\<rparr>)"
    using assms unfolding ctrl_inv_def by (simp add: get_instance_def)
qed

text \<open>The state in which the callback of a separation runs.\<close>

definition marked :: "int \<Rightarrow> iref \<Rightarrow> ft_system \<Rightarrow> ft_system" where
  "marked n r s = s\<lparr>sys_ctrl := notify r OBS_SEPARATED (set_status r INACTIVE
     ((sys_ctrl s)\<lparr>forced_separated_instances := insert n (forced_separated_instances (sys_ctrl s))\<rparr>))\<rparr>"

lemma separate_with_eq:
  assumes "ctrl_inv (sys_ctrl s)" and "get_instance n (sys_ctrl s) = Some r"
  shows "separate_with hook digest t n s =
    (if ins_status (ctrl_heap (sys_ctrl s) r) = ACTIVE
     then (let s2 = hook (marked n r s) in if enable_etcd_persistence (sys_ctrl s2) then upd_ctrl (persist_data digest t) s2 else s2)
     else s\<lparr>sys_ctrl := (sys_ctrl s)\<lparr>forced_separated_instances := insert n (forced_separated_instances (sys_ctrl s))\<rparr>\<rparr>)"
  by (simp add: separate_with_def assms(2) managed_id [OF assms] marked_def Let_def)

lemma marked_fields [simp]:
  "sys_fm (marked n r s) = sys_fm s" "instances (sys_ctrl (marked n r s)) = instances (sys_ctrl s)"
  "observers (sys_ctrl (marked n r s)) = observers (sys_ctrl s)"
  "forced_separated_instances (sys_ctrl (marked n r s)) = insert n (forced_separated_instances (sys_ctrl s))"
  "ctrl_heap (sys_ctrl (marked n r s)) = (ctrl_heap (sys_ctrl s))(r := (ctrl_heap (sys_ctrl s) r)\<lparr>ins_status := INACTIVE\<rparr>)"
  by (simp_all add: marked_def)

lemma ft_inv_marked:
  assumes "ft_inv (insert n X) s" and "get_instance n (sys_ctrl s) = Some r"
  shows "ft_inv X (marked n r s)"
proof -
  have "ctrl_inv (sys_ctrl (marked n r s))"
    using ctrl_inv_mark(1) [OF _ assms(2)] assms(1) by (simp add: ft_inv_def marked_def)
  with assms show ?thesis by (auto simp: ft_inv_def severe_separated_def)
qed

lemma ft_inv_forced:
  assumes "ft_inv (insert n X) s" and "get_instance n (sys_ctrl s) = Some r" and "ins_status (ctrl_heap (sys_ctrl s) r) \<noteq> ACTIVE"
  shows "ft_inv X (s\<lparr>sys_ctrl := (sys_ctrl s)\<lparr>forced_separated_instances := insert n (forced_separated_instances (sys_ctrl s))\<rparr>\<rparr>)"
  using assms ctrl_inv_mark(2) [OF _ assms(2,3)] by (auto simp: ft_inv_def severe_separated_def)

lemma ft_inv_separate_with:
  assumes "ft_inv (insert n X) s" and "get_instance n (sys_ctrl s) = Some r" and hook: "\<And>s. ft_inv X s \<Longrightarrow> ft_inv X (hook s)"
  shows "ft_inv X (separate_with hook digest t n s)"
proof -
  have inv: "ctrl_inv (sys_ctrl s)" using assms(1) by (simp add: ft_inv_def)
  show ?thesis
    unfolding separate_with_eq [OF inv assms(2)]
    using ft_inv_forced [OF assms(1,2)] hook [OF ft_inv_marked [OF assms(1,2)]] by (auto simp: Let_def intro: ft_inv_ctrl_persist)
qed

lemma recover_fields [simp]:
  "instances (recover_instance n c) = instances c" "observers (recover_instance n c) = observers c"
  "ctrl_heap (recover_instance n c) = ctrl_heap c"
  by (simp_all add: recover_instance_def Let_def split: option.splits)

lemma recover_forced:
  assumes "ctrl_inv c" and "get_instance n c = Some r"
  shows "forced_separated_instances (recover_instance n c) = forced_separated_instances c - {n}"
  by (auto simp: recover_instance_def assms(2) managed_id [OF assms] Let_def split: option.splits)

lemma ft_inv_recover:
  assumes "ft_inv X s" and "\<forall>m. dget (fm_instances (sys_fm s)) n = Some m \<longrightarrow> im_fault_level m \<le> L2"
  shows "ft_inv X (upd_ctrl (recover_instance n) s)"
proof (cases "get_instance n (sys_ctrl s)")
  case None
  then have "recover_instance n (sys_ctrl s) = sys_ctrl s" by (simp add: recover_instance_def)
  with assms(1) show ?thesis by (simp add: ft_inv_def severe_separated_def)
next
  case (Some r)
  have inv: "ctrl_inv (sys_ctrl s)" using assms(1) by (simp add: ft_inv_def)
  from recover_forced [OF inv Some] assms show ?thesis
    by (auto simp: ft_inv_def severe_separated_def ctrl_inv_recover not_less)
qed

section \<open>Refreshing the level of an instance\<close>

lemma node_ok_faults [simp]: "node_ok (nd\<lparr>nd_hardware := hw\<rparr>) = node_ok nd" "node_ok (nd\<lparr>nd_software := sw\<rparr>) = node_ok nd"
  "node_ok (nd\<lparr>nd_status := st\<rparr>) = node_ok nd"
  by (simp_all add: node_ok_def)

lemma reevaluate_nodes_ok: "nodes_ok {} (fm_nodes (sys_fm s)) \<Longrightarrow> nodes_ok {} (reevaluate_nodes n s)"
  by (auto simp: nodes_ok_def reevaluate_nodes_def dget_map_values Let_def simp del: map_of_eq_Some_iff)

lemma ft_inv_reevaluated: "ft_inv X s \<Longrightarrow> ft_inv X (upd_fm (\<lambda>fm. fm\<lparr>fm_nodes := reevaluate_nodes n s\<rparr>) s)"
  using reevaluate_nodes_ok [of s n] by (simp add: ft_inv_def severe_separated_def)

lemma tracked_managed: "ft_inv X s \<Longrightarrow> dget (fm_instances (sys_fm s)) n = Some m \<Longrightarrow> \<exists>r. get_instance n (sys_ctrl s) = Some r"
  by (auto simp: ft_inv_def dmem_def get_instance_def)

lemma ft_inv_refresh_with:
  assumes inv: "ft_inv {} s" and hook: "\<And>s. ft_inv {} s \<Longrightarrow> ft_inv {} (hook s)"
  shows "ft_inv {} (refresh_with hook digest t n s)"
proof (cases "dget (fm_instances (sys_fm s)) n")
  case None
  with inv show ?thesis by (simp add: refresh_with_def)
next
  case (Some m)
  let ?nodes = "reevaluate_nodes n s" and ?s1 = "upd_fm (\<lambda>fm. fm\<lparr>fm_nodes := reevaluate_nodes n s\<rparr>) s"
  have inv1: "ft_inv {} ?s1" by (rule ft_inv_reevaluated [OF inv])
  have mem: "dmem n (fm_instances (sys_fm ?s1))" using Some by (simp add: dmem_def)
  show ?thesis
  proof (cases "fault_target n ?nodes")
    case None
    have "ft_inv {} (upd_fm (set_metadata n (m\<lparr>im_fault_level := HEALTHY, im_fault_code := 0\<rparr>)) ?s1)"
      by (rule ft_inv_set_metadata(2) [OF inv1 mem]) simp
    then have "ft_inv {} (upd_ctrl (recover_instance n)
        (upd_fm (set_metadata n (m\<lparr>im_fault_level := HEALTHY, im_fault_code := 0\<rparr>)) ?s1))"
      by (rule ft_inv_recover) simp
    then show ?thesis using inv1 by (simp add: refresh_with_def Some None Let_def)
  next
    case (Some f)
    let ?s2 = "upd_fm (set_metadata n (m\<lparr>im_fault_level := fi_level f, im_fault_code := fi_code f\<rparr>)) ?s1"
    obtain r where r: "get_instance n (sys_ctrl ?s2) = Some r"
      using tracked_managed [OF inv \<open>dget (fm_instances (sys_fm s)) n = Some m\<close>] by auto
    have sep: "ft_inv {} (separate_with hook digest t n ?s2)"
      by (rule ft_inv_separate_with [OF ft_inv_set_metadata(1) [OF inv1 mem] r hook])
    have low: "ft_inv {} ?s2 \<and> ft_inv {} (upd_ctrl (recover_instance n) ?s2)" if "\<not> fi_level f > L2"
      using ft_inv_set_metadata(2) [OF inv1 mem, of "m\<lparr>im_fault_level := fi_level f, im_fault_code := fi_code f\<rparr>"] that
      by (auto simp: not_less intro!: ft_inv_recover)
    show ?thesis
      using sep low by (auto simp: refresh_with_def \<open>dget (fm_instances (sys_fm s)) n = Some m\<close> Some Let_def intro!: ft_inv_fm_persist)
  qed
qed

lemma ft_inv_refresh: "ft_inv {} s \<Longrightarrow> ft_inv {} (refresh_instance_fault_level digest t n s)"
  unfolding refresh_instance_fault_level_def by (intro ft_inv_refresh_with) simp_all

lemma ft_inv_refresh_all: "ft_inv {} s \<Longrightarrow> ft_inv {} (refresh_all digest t ns s)"
  unfolding refresh_all_def by (induction ns arbitrary: s) (simp_all add: ft_inv_refresh)

section \<open>The level a refresh computes\<close>

definition node_faults :: "node_metadata \<Rightarrow> fault_info list" where
  "node_faults nd = dvalues (nd_hardware nd) @ dvalues (nd_software nd)"

definition instance_faults :: "int \<Rightarrow> (string, node_metadata) dict \<Rightarrow> fault_info list" where
  "instance_faults n nodes = concat (map node_faults (filter (\<lambda>nd. n \<in> set (nd_instance_ids nd)) (dvalues nodes)))"

lemma affects_all: "in_instance n nd \<Longrightarrow> affects_instance nd f"
  by (auto simp: affects_instance_def in_instance_def)

lemma in_instance_fault: "n \<in> set (nd_instance_ids nd) \<Longrightarrow> f \<in> set (node_faults nd) \<Longrightarrow> in_instance n nd"
  by (auto simp: in_instance_def has_faults_def node_faults_def)

text \<open>The target is a fault of greatest level; the exclusion of pre-separated cards never applies.\<close>

definition hardware_faults :: "int \<Rightarrow> (string, node_metadata) dict \<Rightarrow> fault_info list" where
  "hardware_faults n nodes =
     concat (map (\<lambda>nd. filter (affects_instance nd) (dvalues (nd_hardware nd))) (filter (in_instance n) (dvalues nodes)))"

definition software_faults :: "int \<Rightarrow> (string, node_metadata) dict \<Rightarrow> fault_info list" where
  "software_faults n nodes = concat (map (\<lambda>nd. dvalues (nd_software nd)) (filter (in_instance n) (dvalues nodes)))"

lemma in_concat_filter: "f \<in> set (concat (map g (filter P xs))) \<longleftrightarrow> (\<exists>x \<in> set xs. P x \<and> f \<in> set (g x))"
  by auto

lemma target_sets: "set (instance_faults n nodes) = set (hardware_faults n nodes) \<union> set (software_faults n nodes)"
proof -
  have hw: "f \<in> set (hardware_faults n nodes) \<longleftrightarrow> (\<exists>nd \<in> set (dvalues nodes). in_instance n nd \<and> f \<in> set (dvalues (nd_hardware nd)))" for f
    unfolding hardware_faults_def in_concat_filter set_filter using affects_all by blast
  have sw: "f \<in> set (software_faults n nodes) \<longleftrightarrow> (\<exists>nd \<in> set (dvalues nodes). in_instance n nd \<and> f \<in> set (dvalues (nd_software nd)))" for f
    unfolding software_faults_def in_concat_filter ..
  have all: "f \<in> set (instance_faults n nodes) \<longleftrightarrow> (\<exists>nd \<in> set (dvalues nodes). n \<in> set (nd_instance_ids nd) \<and> f \<in> set (node_faults nd))" for f
    unfolding instance_faults_def in_concat_filter ..
  have split: "f \<in> set (node_faults nd) \<longleftrightarrow> f \<in> set (dvalues (nd_hardware nd)) \<or> f \<in> set (dvalues (nd_software nd))" for f nd
    by (simp add: node_faults_def)
  have "in_instance n nd \<Longrightarrow> n \<in> set (nd_instance_ids nd)" for nd by (simp add: in_instance_def)
  with in_instance_fault show ?thesis unfolding set_eq_iff Un_iff hw sw all split by meson
qed

lemma fault_target_cases:
  "fault_target n nodes = (case (highest (hardware_faults n nodes), highest (software_faults n nodes)) of
      (Some h, Some w) \<Rightarrow> if fi_level h \<ge> fi_level w then Some h else Some w | (Some h, None) \<Rightarrow> Some h | (None, x) \<Rightarrow> x)"
  by (simp add: fault_target_def hardware_faults_def software_faults_def Let_def)

lemma fault_target_None: "fault_target n nodes = None \<longleftrightarrow> instance_faults n nodes = []"
proof -
  have "fault_target n nodes = None \<longleftrightarrow> highest (hardware_faults n nodes) = None \<and> highest (software_faults n nodes) = None"
    unfolding fault_target_cases by (cases "highest (hardware_faults n nodes)"; cases "highest (software_faults n nodes)")
      (simp_all del: highest_None)
  also have "\<dots> \<longleftrightarrow> set (instance_faults n nodes) = {}" unfolding target_sets by simp
  finally show ?thesis by simp
qed

lemma fault_target_max:
  assumes t: "fault_target n nodes = Some f"
  shows "f \<in> set (instance_faults n nodes) \<and> (\<forall>g \<in> set (instance_faults n nodes). fi_level g \<le> fi_level f)"
proof (cases "highest (hardware_faults n nodes)"; cases "highest (software_faults n nodes)")
  fix h w assume hw: "highest (hardware_faults n nodes) = Some h" "highest (software_faults n nodes) = Some w"
  with t have "f = h \<and> fi_level w \<le> fi_level f \<or> f = w \<and> fi_level h \<le> fi_level f"
    unfolding fault_target_cases by (auto split: if_splits)
  then show ?thesis using highest_max [OF hw(1)] highest_max [OF hw(2)] unfolding target_sets by (meson Un_iff order_trans)
next
  fix h assume hw: "highest (hardware_faults n nodes) = Some h" "highest (software_faults n nodes) = None"
  with t have "f = h" unfolding fault_target_cases by simp
  then show ?thesis using highest_max [OF hw(1)] hw(2) unfolding target_sets by simp
next
  fix w assume hw: "highest (hardware_faults n nodes) = None" "highest (software_faults n nodes) = Some w"
  with t have "f = w" unfolding fault_target_cases by simp
  then show ?thesis using highest_max [OF hw(2)] hw(1) unfolding target_sets by simp
next
  assume "highest (hardware_faults n nodes) = None" "highest (software_faults n nodes) = None"
  with t show ?thesis unfolding fault_target_cases by simp
qed

definition instance_level :: "int \<Rightarrow> (string, node_metadata) dict \<Rightarrow> fault_level" where
  "instance_level n nodes = max_level (instance_faults n nodes)"

lemma fault_target_level: "(case fault_target n nodes of None \<Rightarrow> HEALTHY | Some f \<Rightarrow> fi_level f) = instance_level n nodes"
proof (cases "fault_target n nodes")
  case None
  then have "instance_faults n nodes = []" by (simp add: fault_target_None)
  with None show ?thesis by (simp add: instance_level_def max_level_def)
next
  case (Some f)
  then have "instance_faults n nodes \<noteq> []" by (simp add: fault_target_None [symmetric])
  then obtain g where g: "highest (instance_faults n nodes) = Some g" by (cases "highest (instance_faults n nodes)") auto
  have "fi_level g = fi_level f" using highest_max [OF g] fault_target_max [OF Some] by (meson order_antisym)
  then show ?thesis by (simp add: instance_level_def max_level_highest g Some)
qed

text \<open>The callback of a separation only runs in states in which the instance is not ACTIVE.\<close>

definition not_active :: "int \<Rightarrow> ft_system \<Rightarrow> bool" where
  "not_active n s \<longleftrightarrow> (\<forall>r. get_instance n (sys_ctrl s) = Some r \<longrightarrow> ins_status (ctrl_heap (sys_ctrl s) r) \<noteq> ACTIVE)"

lemma separate_hook_cong:
  assumes "\<And>s'. not_active n s' \<Longrightarrow> h s' = h' s'"
  shows "separate_with h digest t n s = separate_with h' digest t n s"
proof -
  have "h (s\<lparr>sys_ctrl := notify r OBS_SEPARATED (set_status r INACTIVE (c\<lparr>forced_separated_instances := F\<rparr>))\<rparr>) =
      h' (s\<lparr>sys_ctrl := notify r OBS_SEPARATED (set_status r INACTIVE (c\<lparr>forced_separated_instances := F\<rparr>))\<rparr>)"
    if "get_instance n c = Some r" for c r F
    by (rule assms) (use that in \<open>simp add: not_active_def get_instance_def\<close>)
  then show ?thesis by (simp add: separate_with_def Let_def split: option.split)
qed

lemma separate_hook_unused: "not_active n s \<Longrightarrow> separate_with h digest t n s = separate_with h' digest t n s"
  by (simp add: separate_with_def not_active_def Let_def split: option.split)

lemma refresh_hook_unused:
  assumes "not_active n s"
  shows "refresh_with h digest t n s = refresh_with h' digest t n s"
proof -
  have "separate_with h digest t n (upd_fm f (upd_fm g s)) = separate_with h' digest t n (upd_fm f (upd_fm g s))" for f g
    by (rule separate_hook_unused) (use assms in \<open>simp add: not_active_def\<close>)
  then show ?thesis by (simp add: refresh_with_def Let_def split: option.split)
qed

lemma refresh_unfold:
  "refresh_instance_fault_level digest t n s = refresh_with (refresh_instance_fault_level digest t n) digest t n s"
proof -
  have "separate_with (refresh_with id digest t n) digest t n s' =
      separate_with (refresh_with (refresh_with id digest t n) digest t n) digest t n s'" for s'
    by (intro separate_hook_cong refresh_hook_unused)
  then show ?thesis by (simp add: refresh_instance_fault_level_def refresh_with_def Let_def split: option.split)
qed

text \<open>What holds of an instance after its level was refreshed.\<close>

definition level_exact :: "int \<Rightarrow> ft_system \<Rightarrow> bool" where
  "level_exact n s \<longleftrightarrow>
     (\<exists>m. dget (fm_instances (sys_fm s)) n = Some m \<and> im_fault_level m = instance_level n (fm_nodes (sys_fm s)) \<and>
        (instance_faults n (fm_nodes (sys_fm s)) \<noteq> [] \<longrightarrow>
           (\<exists>f \<in> set (instance_faults n (fm_nodes (sys_fm s))). fi_level f = im_fault_level m \<and> fi_code f = im_fault_code m)) \<and>
        (L2 < im_fault_level m \<longrightarrow> n \<in> forced_separated_instances (sys_ctrl s)) \<and>
        (im_fault_level m \<in> {L1, L2} \<longrightarrow> n \<notin> forced_separated_instances (sys_ctrl s)))"

lemma level_exact_cong:
  assumes "level_exact n s" and "fm_nodes (sys_fm s') = fm_nodes (sys_fm s)" and "fm_instances (sys_fm s') = fm_instances (sys_fm s)"
    and "forced_separated_instances (sys_ctrl s') = forced_separated_instances (sys_ctrl s)"
  shows "level_exact n s'"
  using assms by (simp add: level_exact_def)

lemma level_exact_persist:
  "level_exact n (upd_fm fm_persist_data s) = level_exact n s" "level_exact n (upd_ctrl (persist_data digest t) s) = level_exact n s"
  by (simp_all add: level_exact_def)

lemma level_exact_target:
  assumes "dget (fm_instances (sys_fm s)) n = Some m" and "fault_target n (fm_nodes (sys_fm s)) = Some f"
    and "im_fault_level m = fi_level f" and "im_fault_code m = fi_code f"
    and "L2 < fi_level f \<longrightarrow> n \<in> forced_separated_instances (sys_ctrl s)"
    and "fi_level f \<le> L2 \<longrightarrow> n \<notin> forced_separated_instances (sys_ctrl s)"
  shows "level_exact n s"
proof -
  have "im_fault_level m = instance_level n (fm_nodes (sys_fm s))"
    using fault_target_level [of n "fm_nodes (sys_fm s)"] assms(2,3) by simp
  moreover have "l \<in> {L1, L2} \<Longrightarrow> l \<le> L2" for l :: fault_level by (auto simp: less_eq_fault_level_def)
  ultimately show ?thesis unfolding level_exact_def using assms fault_target_max [OF assms(2)] by metis
qed

lemma level_exact_refresh_with:
  assumes inv: "ft_inv {} s" and m: "dget (fm_instances (sys_fm s)) n = Some m"
    and hook: "not_active n s \<or> (\<forall>s'. ft_inv {} s' \<and> dmem n (fm_instances (sys_fm s')) \<and> not_active n s' \<longrightarrow> level_exact n (hook s'))"
  shows "level_exact n (refresh_with hook digest t n s)"
proof -
  let ?nodes = "reevaluate_nodes n s" and ?s1 = "upd_fm (\<lambda>fm. fm\<lparr>fm_nodes := reevaluate_nodes n s\<rparr>) s"
  have inv1: "ft_inv {} ?s1" by (rule ft_inv_reevaluated [OF inv])
  obtain r where r: "get_instance n (sys_ctrl s) = Some r" using tracked_managed [OF inv m] by blast
  have ci: "ctrl_inv (sys_ctrl s)" using inv by (simp add: ft_inv_def)
  show ?thesis
  proof (cases "fault_target n ?nodes")
    case None
    then have empty: "instance_faults n ?nodes = []" by (simp add: fault_target_None)
    then have "instance_level n ?nodes = HEALTHY" by (simp add: instance_level_def max_level_def)
    with empty show ?thesis using m by (simp add: refresh_with_def None Let_def level_exact_def less_fault_level_def)
  next
    case (Some f)
    let ?m = "m\<lparr>im_fault_level := fi_level f, im_fault_code := fi_code f\<rparr>"
    let ?s2 = "upd_fm (set_metadata n ?m) ?s1"
    let ?s3 = "if fi_level f > L2 then separate_with hook digest t n ?s2
               else if is_instance_separated n (sys_ctrl ?s2) then upd_ctrl (recover_instance n) ?s2 else ?s2"
    have "level_exact n ?s3"
    proof (cases "fi_level f > L2")
      case True
      have inv2: "ft_inv (insert n {}) ?s2" by (rule ft_inv_set_metadata(1) [OF inv1]) (use m in \<open>simp add: dmem_def\<close>)
      have r2: "get_instance n (sys_ctrl ?s2) = Some r" and ci2: "ctrl_inv (sys_ctrl ?s2)" using r ci by simp_all
      show ?thesis
      proof (cases "ins_status (ctrl_heap (sys_ctrl s) r) = ACTIVE")
        case act: True
        have "level_exact n (hook (marked n r ?s2))"
          using hook act r ft_inv_marked [OF inv2 r2] by (auto simp: not_active_def dmem_def get_instance_def)
        then show ?thesis using True act by (simp add: separate_with_eq [OF ci2 r2] Let_def level_exact_persist)
      next
        case inact: False
        have "level_exact n (?s2\<lparr>sys_ctrl := (sys_ctrl ?s2)\<lparr>forced_separated_instances := insert n (forced_separated_instances (sys_ctrl ?s2))\<rparr>\<rparr>)"
          by (rule level_exact_target [where m = ?m and f = f]) (use Some True in auto)
        then show ?thesis using True inact by (simp add: separate_with_eq [OF ci2 r2])
      qed
    next
      case False
      show ?thesis
      proof (rule level_exact_target [where m = ?m and f = f])
        show "fi_level f \<le> L2 \<longrightarrow> n \<notin> forced_separated_instances (sys_ctrl ?s3)"
          using False recover_forced [OF ci r] r managed_id [OF ci r] by (simp add: is_instance_separated_def)
      qed (use False Some in auto)
    qed
    then show ?thesis by (simp add: refresh_with_def m Some Let_def level_exact_persist)
  qed
qed

lemma level_exact_refresh:
  assumes "ft_inv {} s" and "dmem n (fm_instances (sys_fm s))"
  shows "level_exact n (refresh_instance_fault_level digest t n s)"
proof -
  obtain m where m: "dget (fm_instances (sys_fm s)) n = Some m" using assms(2) by (auto simp: dmem_def)
  have inner: "level_exact n (refresh_with id digest t n s')" if inv: "ft_inv {} s'" and mem: "dmem n (fm_instances (sys_fm s'))" and na: "not_active n s'" for s'
  proof -
    from mem obtain m' where m': "dget (fm_instances (sys_fm s')) n = Some m'" by (auto simp: dmem_def)
    show ?thesis by (rule level_exact_refresh_with [OF inv m']) (use na in simp)
  qed
  show ?thesis unfolding refresh_instance_fault_level_def by (rule level_exact_refresh_with [OF assms(1) m]) (use inner in blast)
qed

section \<open>Nodes are owned\<close>

lemma node_ok_simps [simp]:
  "node_ok (new_node k ip n job)" "node_ok (hand_back i j nd)"
  by (simp_all add: node_ok_def new_node_def hand_back_def)

lemma join_node_ok: "node_ok nd \<or> nd_instance_ids nd = [n] \<Longrightarrow> node_ok (join_node ip n job nd)"
  by (force simp: node_ok_def join_node_def add_id_def update_keys)

lemma leave_node_ok: "node_ok nd \<Longrightarrow> nd_instance_ids (leave_node n nd) \<noteq> [] \<Longrightarrow> node_ok (leave_node n nd)"
  by (auto simp: node_ok_def leave_node_def delete_keys)

lemma monitor_fields [simp]:
  "fm_nodes (create_resource_monitor_for_node k fm) = fm_nodes fm" "fm_instances (create_resource_monitor_for_node k fm) = fm_instances fm"
  "fm_nodes (stop_resource_monitor_for_node k fm) = fm_nodes fm" "fm_instances (stop_resource_monitor_for_node k fm) = fm_instances fm"
  by (simp_all add: create_resource_monitor_for_node_def stop_resource_monitor_for_node_def)

lemma monitors_fields [simp]:
  "fm_nodes (fold create_resource_monitor_for_node ks fm) = fm_nodes fm"
  "fm_instances (fold create_resource_monitor_for_node ks fm) = fm_instances fm"
  by (induction ks arbitrary: fm) simp_all

text \<open>Operations of the fault manager that keep nodes owned and do not touch the instances.\<close>

definition quiet :: "(fault_manager \<Rightarrow> fault_manager) \<Rightarrow> bool" where
  "quiet f \<longleftrightarrow> (\<forall>fm. (nodes_ok {} (fm_nodes fm) \<longrightarrow> nodes_ok {} (fm_nodes (f fm))) \<and> fm_instances (f fm) = fm_instances fm)"

lemma ft_inv_quiet: "ft_inv X s \<Longrightarrow> quiet f \<Longrightarrow> ft_inv X (upd_fm f s)"
  by (simp add: ft_inv_def severe_separated_def quiet_def)

lemma quiet_fold: "(\<And>x. quiet (f x)) \<Longrightarrow> quiet (fold f xs)"
  by (induction xs) (simp_all add: quiet_def)

lemma quiet_comp: "quiet f \<Longrightarrow> quiet g \<Longrightarrow> quiet (\<lambda>fm. g (f fm))"
  by (simp add: quiet_def)

lemma quiet_remove: "quiet (remove_from_node n k)"
  unfolding quiet_def remove_from_node_def
  by (auto simp: nodes_ok_def leave_node_ok simp del: map_of_eq_Some_iff split: option.splits if_splits)

lemma ensure_ok: "nodes_ok {} (fm_nodes fm) \<Longrightarrow> node_ok (fst (ensure_node_metadata k ip n job fm))"
  by (auto simp: ensure_node_metadata_def nodes_ok_def join_node_ok split: option.splits)

lemma quiet_sync_pod: "quiet (sync_pod i p)"
proof -
  obtain ip k where p: "p = (ip, k)" by fastforce
  have "nodes_ok {} (fm_nodes (sync_pod i p fm)) \<and> fm_instances (sync_pod i p fm) = fm_instances fm" if "nodes_ok {} (fm_nodes fm)" for fm
    using ensure_ok [OF that, of k ip "ins_id i" "job_name i"] nodes_ok_dset [OF that, of _ k]
    by (auto simp: sync_pod_def p split: prod.splits)
  moreover have "fm_instances (sync_pod i p fm) = fm_instances fm" for fm by (simp add: sync_pod_def p split: prod.splits)
  ultimately show ?thesis by (simp add: quiet_def)
qed

lemma quiet_sync_existing: "quiet (sync_existing_instance_nodes i pod_to_node)"
  using quiet_fold [of "remove_from_node (ins_id i)", OF quiet_remove] quiet_fold [of "sync_pod i", OF quiet_sync_pod]
  by (simp add: quiet_def sync_existing_instance_nodes_def Let_def)

text \<open>The swap leaves the nodes that it takes over without an address of their new instance; the loop over the pods adds it.\<close>

lemma nodes_ok_mono: "nodes_ok A nodes \<Longrightarrow> A \<subseteq> B \<Longrightarrow> nodes_ok B nodes"
  unfolding nodes_ok_def by blast

lemma swap_nodes_ok:
  assumes "nodes_ok K (fm_nodes fm)"
  shows "nodes_ok (K \<union> set fs) (fm_nodes (swap_node_ownership fs os job n fm)) \<and>
    fm_instances (swap_node_ownership fs os job n fm) = fm_instances fm"
  using assms
proof (induction fs arbitrary: os fm K)
  case (Cons f fs)
  have skip: "nodes_ok (K \<union> set (f # fs)) (fm_nodes (swap_node_ownership fs os' job n fm)) \<and>
      fm_instances (swap_node_ownership fs os' job n fm) = fm_instances fm" for os'
    using Cons.IH [OF Cons.prems, of os'] nodes_ok_mono by (meson Un_mono order_refl set_subset_Cons)
  have step: "nodes_ok (K \<union> set (f # fs)) (fm_nodes (swap_node_ownership fs os' job n fm')) \<and>
      fm_instances (swap_node_ownership fs os' job n fm') = fm_instances fm"
    if "nodes_ok (insert f K) (fm_nodes fm')" "fm_instances fm' = fm_instances fm" for os' fm'
    using Cons.IH [OF that(1), of os'] that(2) by simp
  show ?case
  proof (cases os)
    case Nil
    show ?thesis
    proof (cases "dget (fm_nodes fm) f")
      case None
      with skip show ?thesis by (simp add: Nil)
    next
      case (Some fnd)
      have "nodes_ok (insert f K) (fm_nodes (set_node f (take_over job n fnd) fm))" using Cons.prems by (auto simp: nodes_ok_def)
      from step [OF this] Some show ?thesis by (simp add: Nil)
    qed
  next
    case (Cons orphan os')
    show ?thesis
    proof (cases "dget (fm_nodes fm) f = None \<or> dget (fm_nodes fm) orphan = None")
      case True
      with skip [of os'] show ?thesis by (auto simp: \<open>os = orphan # os'\<close> split: option.splits)
    next
      case False
      then obtain fnd ond where nd: "dget (fm_nodes fm) f = Some fnd" "dget (fm_nodes fm) orphan = Some ond" by auto
      have "nodes_ok (insert f K) (fm_nodes (set_node orphan (hand_back i j ond) (set_node f (take_over job n fnd) fm)))" for i j
        using \<open>nodes_ok K (fm_nodes fm)\<close> by (auto simp: nodes_ok_def)
      from step [OF this] nd show ?thesis by (simp add: \<open>os = orphan # os'\<close> Let_def)
    qed
  qed
qed simp

lemma collect_node_cases:
  "dget (fm_nodes fm) k = None \<Longrightarrow> collect_node n job (ip, k) (fm, new) = (fm, dset k (new_node k ip n job) new)"
  "dget (fm_nodes fm) k = Some nd \<Longrightarrow> collect_node n job (ip, k) (fm, new) = (set_node k (join_node ip n job nd) fm, new)"
  by (simp_all add: collect_node_def ensure_node_metadata_def)

text \<open>Nodes that are owned, or have just been taken over by \<open>n\<close>.\<close>

definition joinable :: "int \<Rightarrow> fault_manager \<Rightarrow> bool" where
  "joinable n fm \<longleftrightarrow> (\<forall>k nd. dget (fm_nodes fm) k = Some nd \<longrightarrow> node_ok nd \<or> nd_instance_ids nd = [n])"

lemma collect_nodes_ok:
  assumes "nodes_ok K (fm_nodes fm)" and "nodes_ok {} new" and "fold (collect_node n job) pods (fm, new) = (fm', new')" and "joinable n fm"
  shows "nodes_ok (K - set (dvalues pods)) (fm_nodes fm') \<and> nodes_ok {} new' \<and> fm_instances fm' = fm_instances fm"
  using assms
proof (induction pods arbitrary: fm new K)
  case (Cons p pods)
  obtain ip k where p: "p = (ip, k)" by fastforce
  have diff: "K - set (dvalues (p # pods)) = K - {k} - set (dvalues pods)" by (auto simp: p)
  show ?case
  proof (cases "dget (fm_nodes fm) k")
    case None
    have new: "nodes_ok {} (dset k (new_node k ip n job) new)" using Cons.prems(2) by (simp add: nodes_ok_def)
    have ok: "nodes_ok (K - {k}) (fm_nodes fm)" using Cons.prems(1) None by (auto simp: nodes_ok_def)
    have "fold (collect_node n job) pods (fm, dset k (new_node k ip n job) new) = (fm', new')"
      using Cons.prems(3) by (simp add: p collect_node_cases(1) [OF None])
    then show ?thesis unfolding diff by (rule Cons.IH [OF ok new _ Cons.prems(4)])
  next
    case (Some nd)
    let ?fm = "set_node k (join_node ip n job nd) fm"
    have join: "node_ok (join_node ip n job nd)" using Cons.prems(4) Some by (intro join_node_ok) (simp add: joinable_def)
    have ok: "nodes_ok (K - {k}) (fm_nodes ?fm)" using nodes_ok_dset [OF Cons.prems(1) join] by simp
    have jn: "joinable n ?fm" using Cons.prems(4) join by (simp add: joinable_def)
    have "fold (collect_node n job) pods (?fm, new) = (fm', new')"
      using Cons.prems(3) by (simp add: p collect_node_cases(2) [OF Some])
    from Cons.IH [OF ok Cons.prems(2) this jn] show ?thesis unfolding diff by simp
  qed
qed simp

lemma swap_joinable: "joinable n fm \<Longrightarrow> joinable n (swap_node_ownership fs os job n fm)"
proof (induction fs arbitrary: os fm)
  case (Cons f fs)
  have "joinable n (set_node f (take_over job n nd) fm)" for nd using Cons.prems by (simp add: joinable_def take_over_def)
  moreover from this have "joinable n (set_node k (hand_back i j nd') (set_node f (take_over job n nd) fm))" for k i j nd nd'
    by (simp add: joinable_def)
  ultimately show ?case using Cons by (cases os) (auto simp: Let_def split: option.splits)
qed simp

lemma foreign_in_pods: "set (foreign_nodes job pods fm) \<subseteq> set (dvalues pods)"
proof -
  have keys: "fst ` set (dset k () d) = insert k (fst ` set d)" for k :: string and d by (induction d) auto
  have "set (dkeys (fold (\<lambda>k d. dset k () d) ks d)) = set (dkeys d) \<union> set ks" for ks :: "string list" and d
    by (induction ks arbitrary: d) (simp_all add: keys)
  then show ?thesis by (auto simp: foreign_nodes_def ordered_names_def)
qed

lemma added_nodes_ok:
  assumes "nodes_ok {} (fm_nodes fm)" and "nodes_ok {} new"
  shows "nodes_ok {} (fm_nodes (fold (\<lambda>(k, nd). set_node k nd) new fm))"
proof -
  have "\<forall>(k, nd) \<in> set new. node_ok nd" using assms(2) by (auto simp: nodes_ok_def)
  then show ?thesis using assms(1)
  proof (induction new arbitrary: fm)
    case (Cons p new)
    then show ?case using nodes_ok_dset [of "{}" "fm_nodes fm" "snd p" "fst p"] by (auto simp: case_prod_beta)
  qed simp
qed

lemma added_instances [simp]: "fm_instances (fold (\<lambda>(k, nd). set_node k nd) new fm) = fm_instances fm"
  by (induction new arbitrary: fm) (simp_all add: case_prod_beta)

lemma add_new_ok:
  assumes "nodes_ok {} (fm_nodes fm)"
  shows "nodes_ok {} (fm_nodes (add_new_instance_with_nodes i pods fm)) \<and>
    fm_instances (add_new_instance_with_nodes i pods fm) = dset (ins_id i) (new_instance_metadata (ins_id i)) (fm_instances fm)"
proof -
  let ?n = "ins_id i" and ?job = "job_name i"
  define fm1 where "fm1 = set_metadata ?n (new_instance_metadata ?n) fm"
  define foreign where "foreign = foreign_nodes ?job pods fm1"
  define fm2 where "fm2 = (if foreign = [] then fm1 else swap_node_ownership foreign (orphaned_nodes ?job pods fm1) ?job ?n fm1)"
  obtain fm3 new where fold: "fold (collect_node ?n ?job) pods (fm2, []) = (fm3, new)" by fastforce
  have ok1: "nodes_ok {} (fm_nodes fm1)" "joinable ?n fm1" using assms by (auto simp: fm1_def nodes_ok_def joinable_def)
  have ok2: "nodes_ok (set foreign) (fm_nodes fm2) \<and> fm_instances fm2 = fm_instances fm1"
    using swap_nodes_ok [OF ok1(1), of foreign] ok1(1) by (auto simp: fm2_def)
  have "joinable ?n fm2" using swap_joinable [OF ok1(2)] ok1(2) by (simp add: fm2_def)
  then have ok3: "nodes_ok (set foreign - set (dvalues pods)) (fm_nodes fm3) \<and> nodes_ok {} new \<and> fm_instances fm3 = fm_instances fm2"
    using collect_nodes_ok [OF conjunct1 [OF ok2] _ fold] by (simp add: nodes_ok_def)
  have "set foreign - set (dvalues pods) = {}" unfolding foreign_def using foreign_in_pods by blast
  with ok3 have "nodes_ok {} (fm_nodes (fold (\<lambda>(k, nd). set_node k nd) new fm3))" by (metis added_nodes_ok)
  with ok2 ok3 show ?thesis
    by (simp add: add_new_instance_with_nodes_def Let_def fold [unfolded fm2_def foreign_def fm1_def] fm1_def
        del: fold_simps)
qed

section \<open>Runs of the pair\<close>

text \<open>
  An operation of the instance manager, followed by the callbacks of the fault manager (observer 0) that it caused.
\<close>

definition deliver :: "digest_fun \<Rightarrow> rat \<Rightarrow> (string \<Rightarrow> string) \<Rightarrow> ft_system \<Rightarrow> controller \<Rightarrow> ft_system" where
  "deliver digest t host_of s c =
     fold (\<lambda>(k, r, ev) s. if k = 0 then fm_update digest t host_of r ev s else s)
       (drop (length (notified (sys_ctrl s))) (notified c)) (s\<lparr>sys_ctrl := c\<rparr>)"

inductive ft_step :: "digest_fun \<Rightarrow> (string \<Rightarrow> string) \<Rightarrow> ft_system \<Rightarrow> ft_system \<Rightarrow> bool" for digest host_of where
  heartbeat: "ft_step digest host_of s (deliver digest t host_of s (fst (handle_heartbeat digest \<epsilon> msg (sys_ctrl s))))"
| manage: "dget (instances (sys_ctrl s)) n = Some r \<Longrightarrow>
    ft_step digest host_of s (deliver digest t host_of s (manage_instance digest \<epsilon> r (sys_ctrl s)))"
| add: "ins_status (ctrl_heap (sys_ctrl s) r) = INITIAL \<Longrightarrow>
    ft_step digest host_of s (deliver digest t host_of s (add_instance r t' (sys_ctrl s)))"
| separate: "ft_step digest host_of s (sys_separate_instance digest t n s)"
| hardware: "ft_step digest host_of s (handle_fault_info_update digest t infos k s)"
| node: "ft_step digest host_of s (handle_node_status_update digest t st k s)"
| software: "ft_step digest host_of s (report_software_fault digest t f ip s)"
| strategy: "ft_step digest host_of s (process_instance_strategy digest t n s)"
| returns: "ft_step digest host_of s (upd_fm (strategy_returns k) s)"
| config: "ft_step digest host_of s (upd_fm (fm_update_config p prefix ns tr sp) s)"
| catch_up: "set rs \<subseteq> set (dvalues (instances (sys_ctrl s))) \<Longrightarrow> ft_step digest host_of s (fm_update_instances host_of rs s)"

inductive ft_reachable :: "digest_fun \<Rightarrow> (string \<Rightarrow> string) \<Rightarrow> ft_system \<Rightarrow> ft_system \<Rightarrow> bool" for digest host_of s0 where
  init: "ft_reachable digest host_of s0 s0"
| step: "ft_reachable digest host_of s0 s \<Longrightarrow> ft_step digest host_of s s' \<Longrightarrow> ft_reachable digest host_of s0 s'"

lemma deliver_none: "notified c = notified (sys_ctrl s) \<Longrightarrow> deliver digest t host_of s c = s\<lparr>sys_ctrl := c\<rparr>"
  by (simp add: deliver_def)

lemma told_Cons:
  "told r ev (EVENT_PUSHER # obs) = told r ev obs" "told r ev (OTHER_OBSERVER k # obs) = (k, r, ev) # told r ev obs"
  by (simp_all add: told_def map_filter_simps)

lemma deliver_told:
  assumes "notified c = notified (sys_ctrl s) @ told r ev obs" and "distinct obs" and "OTHER_OBSERVER 0 \<in> set obs"
  shows "deliver digest t host_of s c = fm_update digest t host_of r ev (s\<lparr>sys_ctrl := c\<rparr>)"
proof -
  have "distinct obs \<Longrightarrow> fold (\<lambda>(k, r, ev) s. if k = 0 then F r ev s else s) (told r ev obs) s' =
      (if OTHER_OBSERVER 0 \<in> set obs then F r ev s' else s')" for obs s' and F :: "iref \<Rightarrow> observer_event \<Rightarrow> ft_system \<Rightarrow> ft_system"
  proof (induction obs arbitrary: s')
    case (Cons ob obs)
    then show ?case by (cases ob) (auto simp: told_Cons)
  qed (simp add: told_def map_filter_simps)
  from this [of obs "\<lambda>r ev. fm_update digest t host_of r ev"] assms show ?thesis by (simp add: deliver_def)
qed

lemma ft_inv_same_ctrl:
  assumes "ft_inv X s" and "ctrl_inv c" and "instances c = instances (sys_ctrl s)"
    and "forced_separated_instances c = forced_separated_instances (sys_ctrl s)" and "observers c = observers (sys_ctrl s)"
  shows "ft_inv X (s\<lparr>sys_ctrl := c\<rparr>)"
  using assms by (simp add: ft_inv_def severe_separated_def)

lemma ft_inv_transition:
  assumes inv: "ft_inv {} s" and c: "ctrl_inv c" "instances c = instances (sys_ctrl s)" "observers c = observers (sys_ctrl s)"
      "forced_separated_instances c = forced_separated_instances (sys_ctrl s)" "notified c = notified (sys_ctrl s)"
    and r: "dget (instances c) n = Some r" and ev: "ev \<noteq> INSTANCE_RESUMED"
  shows "ft_inv {} (deliver digest t host_of s (fst (transition_on digest \<epsilon> r ev c)))"
proof -
  define c' where "c' = fst (transition_on digest \<epsilon> r ev c)"
  have id: "ins_id (ctrl_heap c r) = n" using ctrl_inv_id [OF c(1) r] .
  have inv': "ctrl_inv c'" unfolding c'_def by (rule ctrl_inv_transition [OF c(1) r ev])
  have live: "ins_status (ctrl_heap c r) \<noteq> DELETED" using c(1) r by (simp add: ctrl_inv_def)
  have obs: "observers c' = observers (sys_ctrl s)" by (simp add: c'_def c(3))
  have fm0: "OTHER_OBSERVER 0 \<in> set (observers (sys_ctrl s))" "distinct (observers (sys_ctrl s))"
    using inv c(1,3) by (simp_all add: ft_inv_def ctrl_inv_def)
  let ?to = "status_after \<epsilon> ev r c"
  have reg: "dget (instances c) (ins_id (ctrl_heap c r)) = Some r" using r id by simp
  have log: "notified c' = notified (sys_ctrl s) @
      (case change_notice (ins_status (ctrl_heap c r)) ?to of None \<Rightarrow> [] | Some ob \<Rightarrow> told r ob (observers (sys_ctrl s)))"
    unfolding c'_def transition_notified [OF ev] c(3,5) ..
  show ?thesis
  proof (cases "?to = DELETED")
    case True
    with live have "notified c' = notified (sys_ctrl s) @ told r OBS_REMOVED (observers (sys_ctrl s))"
      using log by (simp add: change_notice_def)
    from deliver_told [OF this fm0(2,1)]
    have d: "deliver digest t host_of s c' = upd_fm (\<lambda>fm. fm\<lparr>fm_instances := ddel (ins_id (ctrl_heap c' r)) (fm_instances fm)\<rparr>) (s\<lparr>sys_ctrl := c'\<rparr>)"
      by (simp add: fm_update_def Let_def)
    have "instances c' = ddel n (instances c)" "forced_separated_instances c' = forced_separated_instances c - {n}"
      using transition_instances [OF reg ev, of digest \<epsilon>] live True by (simp_all add: c'_def id)
    moreover have "ins_id (ctrl_heap c' r) = n" unfolding c'_def transition_heap [OF ev] by (simp add: id refresh_heartbeats_def)
    ultimately show ?thesis
      using inv inv' c obs fm0 unfolding c'_def [symmetric] d
      by (auto simp: ft_inv_def severe_separated_def dmem_def)
  next
    case False
    have "instances c' = instances c" "forced_separated_instances c' = forced_separated_instances c"
      using transition_instances [OF reg ev, of digest \<epsilon>] False by (simp_all add: c'_def)
    with inv' c obs have ok: "ft_inv {} (s\<lparr>sys_ctrl := c'\<rparr>)" by (intro ft_inv_same_ctrl [OF inv]) simp_all
    show ?thesis
    proof (cases "change_notice (ins_status (ctrl_heap c r)) ?to")
      case None
      with log have "deliver digest t host_of s c' = s\<lparr>sys_ctrl := c'\<rparr>" by (intro deliver_none) simp
      with ok show ?thesis by (simp add: c'_def)
    next
      case (Some ob)
      with False have "ob \<in> {OBS_READY, OBS_SEPARATED, OBS_PAUSED}"
        by (cases ?to) (auto simp: change_notice_def split: if_splits)
      moreover have "deliver digest t host_of s c' = fm_update digest t host_of r ob (s\<lparr>sys_ctrl := c'\<rparr>)"
        by (rule deliver_told [OF _ fm0(2,1)]) (simp add: log Some)
      ultimately show ?thesis using ok unfolding c'_def [symmetric] by (auto simp: fm_update_def Let_def ft_inv_refresh)
    qed
  qed
qed


lemma ft_inv_heartbeat:
  assumes inv: "ft_inv {} s"
  shows "ft_inv {} (deliver digest t host_of s (fst (handle_heartbeat digest \<epsilon> msg (sys_ctrl s))))"
proof (cases "dget (instances (sys_ctrl s)) (hb_ins_id msg)")
  case None
  with inv show ?thesis by (simp add: handle_heartbeat_def deliver_none)
next
  case (Some r)
  obtain i res where u: "update_heartbeat (hb_ip msg) (now \<epsilon>) (hb_status msg) (ctrl_heap (sys_ctrl s) r) = (i, res)" by fastforce
  let ?c = "set_instance r i (sys_ctrl s)"
  have ci: "ctrl_inv (sys_ctrl s)" using inv by (simp add: ft_inv_def)
  have ci': "ctrl_inv ?c"
    using heartbeat_static [of "hb_ip msg" "now \<epsilon>" "hb_status msg" "ctrl_heap (sys_ctrl s) r"] u
    by (intro ctrl_inv_set_instance [OF ci]) simp_all
  have stored: "ft_inv {} (deliver digest t host_of s ?c)"
    unfolding deliver_none [of ?c s, simplified] by (rule ft_inv_same_ctrl [OF inv ci']) simp_all
  have trans: "ft_inv {} (deliver digest t host_of s (fst (handle_state_transition digest \<epsilon> r None ?c)))"
    unfolding handle_transition_detected
    by (rule ft_inv_transition [OF inv, where n = "hb_ins_id msg"]) (use ci' Some in \<open>simp_all add: detect_not_resumed\<close>)
  show ?thesis using stored trans
    by (auto simp: handle_heartbeat_def Some u split: sum.splits bool.splits prod.splits)
qed

lemma ft_inv_manage:
  assumes inv: "ft_inv {} s" and r: "dget (instances (sys_ctrl s)) n = Some r"
  shows "ft_inv {} (deliver digest t host_of s (manage_instance digest \<epsilon> r (sys_ctrl s)))"
proof -
  have ci: "ctrl_inv (sys_ctrl s)" using inv by (simp add: ft_inv_def)
  have idle: "ft_inv {} (deliver digest t host_of s (add_alarms as (sys_ctrl s)))" for as
    unfolding deliver_none [of "add_alarms as (sys_ctrl s)" s, simplified] by (rule ft_inv_same_ctrl [OF inv]) (use ci in simp_all)
  have trans: "ft_inv {} (deliver digest t host_of s (fst (transition_on digest \<epsilon> r INSTANCE_HEARTBEAT_TIMEOUT (add_alarms as (sys_ctrl s)))))" for as
    by (rule ft_inv_transition [OF inv, where n = n]) (use ci r in simp_all)
  show ?thesis using idle [of "[]"] idle trans
    by (auto simp: manage_instance_def handle_transition_given split: prod.splits bool.splits)
qed

lemma sync_new:
  assumes "ft_inv {} s" and "dmem (ins_id i) (instances (sys_ctrl s))"
  shows "ft_inv {} (upd_fm (sync_instance_nodes host_of i) s)"
proof (cases "dmem (ins_id i) (fm_instances (sys_fm s))")
  case True
  then have "upd_fm (sync_instance_nodes host_of i) s =
      upd_fm (sync_existing_instance_nodes i (build_node_name_mapping host_of (node_managers i))) s"
    by (simp add: upd_fm_def sync_instance_nodes_def Let_def)
  with ft_inv_quiet [OF assms(1) quiet_sync_existing] show ?thesis by simp
next
  case False
  with assms add_new_ok [of "sys_fm s" i "build_node_name_mapping host_of (node_managers i)"] show ?thesis
    by (auto simp: sync_instance_nodes_def Let_def ft_inv_def severe_separated_def new_instance_metadata_def less_fault_level_def split: if_splits)
qed

lemma ft_inv_add:
  assumes inv: "ft_inv {} s" and init: "ins_status (ctrl_heap (sys_ctrl s) r) = INITIAL"
  shows "ft_inv {} (deliver digest t host_of s (add_instance r t' (sys_ctrl s)))"
proof -
  let ?c = "sys_ctrl s" and ?c' = "add_instance r t' (sys_ctrl s)"
  let ?n = "ins_id (ctrl_heap ?c r)"
  have ci: "ctrl_inv ?c" using inv by (simp add: ft_inv_def)
  have ci': "ctrl_inv ?c'" by (rule ctrl_inv_add [OF ci init])
  have fm0: "OTHER_OBSERVER 0 \<in> set (observers ?c)" "distinct (observers ?c)" using inv ci by (simp_all add: ft_inv_def ctrl_inv_def)
  show ?thesis
  proof (cases "dmem ?n (instances ?c)")
    case True
    then have "?c' = ?c" by (simp add: add_instance_def Let_def)
    with inv show ?thesis by (simp add: deliver_none)
  next
    case False
    have log: "notified ?c' = notified ?c @ told r OBS_INITIAL (observers ?c)"
      using False by (simp add: add_instance_def Let_def notify_notified)
    have f: "instances ?c' = dset ?n r (instances ?c)" "forced_separated_instances ?c' = forced_separated_instances ?c"
      "observers ?c' = observers ?c" "ins_id (ctrl_heap ?c' r) = ?n"
      using False by (simp_all add: add_instance_def Let_def refresh_initial_static)
    have "ft_inv {} (s\<lparr>sys_ctrl := ?c'\<rparr>)" using inv ci' f by (auto simp: ft_inv_def severe_separated_def)
    moreover have "dmem ?n (instances ?c')" by (simp add: f)
    ultimately have "ft_inv {} (upd_fm (sync_instance_nodes host_of (ctrl_heap ?c' r)) (s\<lparr>sys_ctrl := ?c'\<rparr>))"
      by (intro sync_new) (simp_all add: f)
    with \<open>ft_inv {} (s\<lparr>sys_ctrl := ?c'\<rparr>)\<close> show ?thesis
      by (simp add: deliver_told [OF log fm0(2,1)] fm_update_def Let_def)
  qed
qed

lemma ft_inv_sys_separate: "ft_inv {} s \<Longrightarrow> ft_inv {} (sys_separate_instance digest t n s)"
proof -
  assume inv: "ft_inv {} s"
  show ?thesis
  proof (cases "get_instance n (sys_ctrl s)")
    case None
    with inv show ?thesis by (simp add: sys_separate_instance_def separate_with_def Let_def)
  next
    case (Some r)
    have "ft_inv (insert n {}) s" using ft_inv_mono [OF inv] by blast
    from ft_inv_separate_with [OF this Some ft_inv_refresh] show ?thesis by (simp add: sys_separate_instance_def)
  qed
qed

lemma nodes_ok_get: "ft_inv X s \<Longrightarrow> dget (fm_nodes (sys_fm s)) k = Some nd \<Longrightarrow> node_ok nd"
  by (simp add: ft_inv_def nodes_ok_def)

lemma ft_inv_hardware: "ft_inv {} s \<Longrightarrow> ft_inv {} (handle_fault_info_update digest t infos k s)"
  by (auto simp: handle_fault_info_update_def Let_def intro!: ft_inv_refresh_all ft_inv_set_node dest: nodes_ok_get split: option.split)

lemma ft_inv_node: "ft_inv {} s \<Longrightarrow> ft_inv {} (handle_node_status_update digest t st k s)"
proof -
  have "node_ok (nd\<lparr>nd_status := a, nd_hardware := b\<rparr>) = node_ok nd" for nd a b by (simp add: node_ok_def)
  then show "ft_inv {} s \<Longrightarrow> ?thesis"
    unfolding handle_node_status_update_def Let_def
    by (auto intro!: ft_inv_refresh_all ft_inv_set_node dest: nodes_ok_get split: option.split)
qed

lemma ft_inv_catch_up:
  assumes "ft_inv {} s" and "set rs \<subseteq> set (dvalues (instances (sys_ctrl s)))"
  shows "ft_inv {} (fm_update_instances host_of rs s)"
  using assms unfolding fm_update_instances_def
proof (induction rs arbitrary: s)
  case (Cons r rs)
  from Cons.prems(2) obtain n where "(n, r) \<in> set (instances (sys_ctrl s))" by auto
  moreover have "ctrl_inv (sys_ctrl s)" using Cons.prems(1) by (simp add: ft_inv_def)
  ultimately have "dget (instances (sys_ctrl s)) n = Some r" "ins_id (ctrl_heap (sys_ctrl s) r) = n"
    by (auto simp: ctrl_inv_def keyed_def)
  then have "ft_inv {} (upd_fm (sync_instance_nodes host_of (ctrl_heap (sys_ctrl s) r)) s)"
    using Cons.prems(1) by (intro sync_new) (simp_all add: dmem_def)
  with Cons show ?case by simp
qed simp


lemma find_node:
  assumes "ft_inv X s" and "List.find P (fm_nodes (sys_fm s)) = Some (k, nd)"
  shows "dget (fm_nodes (sys_fm s)) k = Some nd"
proof -
  have "(k, nd) \<in> set (fm_nodes (sys_fm s))" using assms(2) by (auto simp: find_Some_iff in_set_conv_nth)
  with assms(1) show ?thesis by (simp add: ft_inv_def nodes_ok_def)
qed

lemma ft_inv_metadata_quiet:
  assumes "ft_inv X s" and "fm_nodes fm' = fm_nodes (sys_fm s)"
    and "\<And>n. map_option im_fault_level (dget (fm_instances fm') n) = map_option im_fault_level (dget (fm_instances (sys_fm s)) n)"
  shows "ft_inv X (s\<lparr>sys_fm := fm'\<rparr>)"
proof -
  have mem: "dmem n (fm_instances fm') = dmem n (fm_instances (sys_fm s))" for n
    using assms(3) [of n] by (cases "dget (fm_instances fm') n"; cases "dget (fm_instances (sys_fm s)) n") (simp_all add: dmem_def)
  have "\<exists>m'. dget (fm_instances (sys_fm s)) n = Some m' \<and> im_fault_level m' = im_fault_level m" if "dget (fm_instances fm') n = Some m" for n m
    using assms(3) [of n] that by (cases "dget (fm_instances (sys_fm s)) n") simp_all
  then have "severe_separated X (s\<lparr>sys_fm := fm'\<rparr>)" using assms(1) by (fastforce simp: ft_inv_def severe_separated_def)
  with assms mem show ?thesis by (simp add: ft_inv_def)
qed

lemma strategy_fields [simp]:
  "fm_nodes (stop_strategy k fm) = fm_nodes fm" "fm_instances (stop_strategy k fm) = fm_instances fm"
  "fm_nodes (strategy_returns k fm) = fm_nodes fm" "fm_instances (strategy_returns k fm) = fm_instances fm"
  "fm_nodes (submit_strategy kind lv n m fm) = fm_nodes fm"
  "fm_instances (submit_strategy kind lv n m fm) = dset n (m\<lparr>im_strategy := Some (fm_next_strategy fm), im_strategy_level := lv\<rparr>) (fm_instances fm)"
  by (simp_all add: stop_strategy_def strategy_returns_def submit_strategy_def Let_def split: strategy_kind.splits)

lemma ft_inv_switch:
  assumes "ft_inv {} s" and "dget (fm_instances (sys_fm s)) n = Some m"
  shows "ft_inv {} (switch_strategy n m s)"
proof -
  have "ft_inv {} (upd_fm (submit_strategy kind lv n m) s)" "ft_inv {} (upd_fm (\<lambda>fm. submit_strategy kind lv n m (stop_strategy k fm)) s)" for kind lv k
    unfolding upd_fm_def by (rule ft_inv_metadata_quiet [OF assms(1)]; simp add: assms(2))+
  with assms(1) show ?thesis by (auto simp: switch_strategy_def split: option.splits)
qed

lemma clear_software_quiet: "quiet (clear_software_faults n)"
  by (auto simp: quiet_def clear_software_faults_def nodes_ok_def dget_map_values simp del: map_of_eq_Some_iff split: if_splits)

lemma ft_inv_process:
  assumes inv: "ft_inv {} s"
  shows "ft_inv {} (process_instance_strategy digest t n s)"
proof (cases "dget (fm_instances (sys_fm s)) n")
  case None
  with inv show ?thesis by (simp add: process_instance_strategy_def)
next
  case (Some m)
  define s1 where "s1 = switch_strategy n m s"
  have inv1: "ft_inv {} s1" unfolding s1_def by (rule ft_inv_switch [OF inv Some])
  have fin: "ft_inv {} (refresh_instance_fault_level digest t n (let s3 = upd_fm (clear_software_faults n)
        (upd_fm (set_metadata n (m1\<lparr>im_strategy := None, im_strategy_level := HEALTHY\<rparr>)) s1)
      in if fm_persistence (sys_fm s3) then upd_fm fm_persist_data s3 else s3))" if m1: "dget (fm_instances (sys_fm s1)) n = Some m1" for m1
  proof -
    have "ft_inv {} (upd_fm (set_metadata n (m1\<lparr>im_strategy := None, im_strategy_level := HEALTHY\<rparr>)) s1)"
      unfolding upd_fm_def by (rule ft_inv_metadata_quiet [OF inv1]) (simp_all add: m1)
    then show ?thesis by (auto simp: Let_def intro!: ft_inv_refresh ft_inv_fm_persist ft_inv_quiet [OF _ clear_software_quiet])
  qed
  show ?thesis
    using inv1 fin by (auto simp: process_instance_strategy_def Some s1_def [symmetric] Let_def split: option.split)
qed

lemma ft_inv_software:
  assumes inv: "ft_inv {} s"
  shows "ft_inv {} (report_software_fault digest t f ip s)"
proof -
  have "ft_inv {} (upd_fm (set_node k (nd\<lparr>nd_software := x\<rparr>)) s)" if "List.find P (fm_nodes (sys_fm s)) = Some (k, nd)" for P k nd x
    using find_node [OF inv that] inv by (intro ft_inv_set_node [OF inv]) (auto intro: nodes_ok_get)
  then show ?thesis using inv
    by (auto simp: report_software_fault_def intro!: ft_inv_refresh_all split: option.split if_splits)
qed


lemma ft_inv_step: "ft_step digest host_of s s' \<Longrightarrow> ft_inv {} s \<Longrightarrow> ft_inv {} s'"
proof (induction rule: ft_step.induct)
  case (returns s k)
  then show ?case by (rule ft_inv_cong) simp_all
next
  case (config s p prefix ns tr sp)
  then show ?case by (rule ft_inv_cong) (simp_all add: fm_update_config_def Let_def)
qed (simp_all add: ft_inv_heartbeat ft_inv_manage ft_inv_add ft_inv_sys_separate ft_inv_hardware ft_inv_node ft_inv_software
    ft_inv_process ft_inv_catch_up)

lemma ft_inv_reachable: "ft_reachable digest host_of s0 s \<Longrightarrow> ft_inv {} s0 \<Longrightarrow> ft_inv {} s"
  by (induction rule: ft_reachable.induct) (simp_all add: ft_inv_step)

text \<open>The controller at its start, with the fault manager as observer 0.\<close>

definition fresh_ft :: "(iref \<Rightarrow> instance_obj) \<Rightarrow> bool \<Rightarrow> event_pusher \<Rightarrow> fault_manager \<Rightarrow> ft_system" where
  "fresh_ft h persist p fm = \<lparr>sys_ctrl = fresh_controller h persist p [EVENT_PUSHER, OTHER_OBSERVER 0], sys_fm = fm\<rparr>"

lemma ft_inv_fresh: "ft_inv {} (fresh_ft h persist p (init_fault_manager e prefix ns tr sp))"
  by (simp add: ft_inv_def fresh_ft_def ctrl_inv_fresh fresh_controller_fields init_fault_manager_def nodes_ok_def severe_separated_def dmem_def)

lemma forced_not_active:
  assumes "ft_inv {} s" and "n \<in> forced_separated_instances (sys_ctrl s)"
  shows "\<exists>r. get_instance n (sys_ctrl s) = Some r \<and> ins_id (ctrl_heap (sys_ctrl s) r) = n \<and> ins_status (ctrl_heap (sys_ctrl s) r) \<noteq> ACTIVE"
proof -
  have inv: "ctrl_inv (sys_ctrl s)" using assms(1) by (simp add: ft_inv_def)
  with assms(2) obtain r where r: "dget (instances (sys_ctrl s)) n = Some r" by (auto simp: ctrl_inv_def dmem_def)
  moreover from this inv assms(2) have "ins_status (ctrl_heap (sys_ctrl s) r) \<noteq> ACTIVE" by (auto simp: ctrl_inv_def)
  ultimately show ?thesis using ctrl_inv_id [OF inv r] by (simp add: get_instance_def)
qed

end
