(* ===== verification/Fault_Properties.thy ===== *)
theory Fault_Properties
  imports Fault_Correctness
begin

text \<open>
  The properties of the fault manager: which level an instance has, which instances are isolated, and what a restart
  restores; with a concrete run as a witness.
\<close>

section \<open>A concrete run\<close>

text \<open>Instance 7 is added on node \<open>''h''\<close> and becomes active; then the node is reported as not ready.\<close>

definition demo_host :: "string \<Rightarrow> string" where
  "demo_host ip = ''h''"

definition demo_ft :: ft_system where
  "demo_ft = fresh_ft (\<lambda>r. (solo_instance 7 ''j'')\<lparr>node_managers := [\<lparr>nm_pod_ip = ''a'', nm_port = ''1'', device_num = 8\<rparr>]\<rparr>)
     False (init_pusher 0 0) (init_fault_manager False ''p'' ''n'' False False)"

definition demo_ft_added :: ft_system where
  "demo_ft_added = deliver demo_digest 0 demo_host demo_ft (add_instance 0 0 (sys_ctrl demo_ft))"

definition demo_ft_active :: ft_system where
  "demo_ft_active = deliver demo_digest 1 demo_host demo_ft_added
     (fst (handle_heartbeat demo_digest (demo_env 1) (demo_hb EP_NORMAL) (sys_ctrl demo_ft_added)))"

definition demo_ft_down :: ft_system where
  "demo_ft_down = handle_node_status_update demo_digest 2 NODE_NOT_READY ''h'' demo_ft_active"

lemma demo_ft_steps:
  "ft_reachable demo_digest demo_host demo_ft demo_ft_active"
  "ft_reachable demo_digest demo_host demo_ft demo_ft_down"
proof -
  have "ft_step demo_digest demo_host demo_ft demo_ft_added" unfolding demo_ft_added_def
    by (rule ft_step.add) (simp add: demo_ft_def fresh_ft_def fresh_controller_fields)
  from ft_reachable.step [OF ft_reachable.init this]
  show a: "ft_reachable demo_digest demo_host demo_ft demo_ft_active"
    unfolding demo_ft_active_def by (rule ft_reachable.step) (rule ft_step.heartbeat)
  then show "ft_reachable demo_digest demo_host demo_ft demo_ft_down"
    unfolding demo_ft_down_def by (rule ft_reachable.step) (rule ft_step.node)
qed

lemma demo_ft_down_eval:
  "map_option im_fault_level (dget (fm_instances (sys_fm demo_ft_down)) 7) = Some L6"
  by code_simp


section \<open>Isolation\<close>



text \<open>
  C17: after the level of a tracked instance was refreshed, the recorded level is the greatest level of all hardware and software faults
  on the nodes of the instance, HEALTHY if there are none, and the recorded code is that of a fault of this level; an instance above L2 is
  separated and not ACTIVE, and one at L1 or L2 is not separated.
\<close>

theorem refresh_level_exact:
  assumes "ft_reachable digest host_of (fresh_ft h persist p (init_fault_manager e prefix ns tr sp)) s"
    and "dmem n (fm_instances (sys_fm s))" and s'_def: "s' = refresh_instance_fault_level digest t n s"
  shows "\<exists>m. dget (fm_instances (sys_fm s')) n = Some m \<and>
    im_fault_level m = max_level (instance_faults n (fm_nodes (sys_fm s'))) \<and>
    (instance_faults n (fm_nodes (sys_fm s')) \<noteq> [] \<longrightarrow>
       (\<exists>f \<in> set (instance_faults n (fm_nodes (sys_fm s'))). fi_level f = im_fault_level m \<and> fi_code f = im_fault_code m)) \<and>
    (L2 < im_fault_level m \<longrightarrow> is_instance_separated n (sys_ctrl s') \<and>
       (\<exists>r. get_instance n (sys_ctrl s') = Some r \<and> ins_status (ctrl_heap (sys_ctrl s') r) \<noteq> ACTIVE)) \<and>
    (im_fault_level m \<in> {L1, L2} \<longrightarrow> \<not> is_instance_separated n (sys_ctrl s'))"
proof -
  have inv: "ft_inv {} s" by (rule ft_inv_reachable [OF assms(1) ft_inv_fresh])
  have inv': "ft_inv {} s'" unfolding s'_def by (rule ft_inv_refresh [OF inv])
  from level_exact_refresh [OF inv assms(2), of digest t] obtain m where
    m: "dget (fm_instances (sys_fm s')) n = Some m" "im_fault_level m = max_level (instance_faults n (fm_nodes (sys_fm s')))"
       "instance_faults n (fm_nodes (sys_fm s')) \<noteq> [] \<longrightarrow>
          (\<exists>f \<in> set (instance_faults n (fm_nodes (sys_fm s'))). fi_level f = im_fault_level m \<and> fi_code f = im_fault_code m)"
    and sep: "L2 < im_fault_level m \<longrightarrow> n \<in> forced_separated_instances (sys_ctrl s')"
       "im_fault_level m \<in> {L1, L2} \<longrightarrow> n \<notin> forced_separated_instances (sys_ctrl s')"
    unfolding level_exact_def s'_def [symmetric] instance_level_def by blast
  have obs: "is_instance_separated n (sys_ctrl s') = (n \<in> forced_separated_instances (sys_ctrl s'))"
    using forced_not_active [OF inv', of n] ctrl_inv_id [of "sys_ctrl s'" n] inv'
    by (auto simp: is_instance_separated_def ft_inv_def get_instance_def split: option.split)
  show ?thesis using m sep forced_not_active [OF inv', of n] unfolding obs by blast
qed

theorem refresh_level_exact_witness:
  "map_option (\<lambda>m. (im_fault_level m, im_fault_code m))
     (dget (fm_instances (sys_fm (refresh_instance_fault_level demo_digest 3 7 demo_ft_down))) 7) = Some (L6, NODE_REBOOT)"
proof -
  let ?s' = "refresh_instance_fault_level demo_digest 3 7 demo_ft_down"
  have fs: "instance_faults 7 (fm_nodes (sys_fm ?s')) = [node_reboot_fault]" by code_simp
  have mem: "dmem 7 (fm_instances (sys_fm demo_ft_down))" by code_simp
  from refresh_level_exact [OF demo_ft_steps(2) [unfolded demo_ft_def] mem refl, of 3] obtain m where
    "dget (fm_instances (sys_fm ?s')) 7 = Some m" "im_fault_level m = max_level [node_reboot_fault]" "fi_code node_reboot_fault = im_fault_code m"
    unfolding fs by auto
  then show ?thesis by (simp add: max_level_def node_reboot_fault_def)
qed

text \<open>
  A separation that another component asks for is lifted at once if the faults of the instance are of level L1 or L2: the callback of the separation refreshes the
  level, and the refresh recovers the instance.
\<close>

lemma separation_undone:
  assumes inv: "ft_inv {} s" and mem: "dmem n (fm_instances (sys_fm s))"
    and r: "get_instance n (sys_ctrl s) = Some r" "ins_status (ctrl_heap (sys_ctrl s) r) = ACTIVE"
    and m: "dget (fm_instances (sys_fm (sys_separate_instance digest t n s))) n = Some m" "im_fault_level m \<in> {L1, L2}"
  shows "n \<notin> forced_separated_instances (sys_ctrl (sys_separate_instance digest t n s))"
proof -
  have ci: "ctrl_inv (sys_ctrl s)" using inv by (simp add: ft_inv_def)
  have "ft_inv {} (marked n r s)" by (rule ft_inv_marked [OF ft_inv_mono [OF inv] r(1)]) simp
  from level_exact_refresh [OF this, of n digest t] mem
  have "level_exact n (sys_separate_instance digest t n s)"
    unfolding sys_separate_instance_def separate_with_eq [OF ci r(1)] using r(2) by (simp add: Let_def level_exact_persist)
  with m show ?thesis by (auto simp: level_exact_def)
qed


section \<open>Strategies\<close>

text \<open>A running strategy is replaced only for a fault of a higher level; without one it is left alone until it has finished.\<close>

lemma strategy_kept:
  assumes "dget (fm_instances (sys_fm s)) n = Some m" and "im_strategy m = Some k" and "\<not> st_finished (fm_strategies (sys_fm s) k)"
    and "im_fault_level m \<le> im_strategy_level m"
  shows "process_instance_strategy digest t n s = s"
  using assms by (auto simp: process_instance_strategy_def switch_strategy_def Let_def split: option.split)

lemma strategy_upgraded:
  assumes "dget (fm_instances (sys_fm s)) n = Some m" and "im_strategy m = Some k" and "im_strategy_level m < im_fault_level m"
    and "strategy_for s (im_fault_level m) (im_fault_code m) n = Some kind"
  shows "\<exists>m'. dget (fm_instances (sys_fm (process_instance_strategy digest t n s))) n = Some m' \<and>
    im_strategy m' = Some (fm_next_strategy (sys_fm s)) \<and> im_strategy_level m' = im_fault_level m"
proof -
  have "fm_next_strategy (stop_strategy k fm) = fm_next_strategy fm" for fm by (simp add: stop_strategy_def split: strategy_kind.split)
  with assms show ?thesis
    by (auto simp: process_instance_strategy_def switch_strategy_def submit_strategy_def set_metadata_def Let_def)
qed

section \<open>Restart\<close>

text \<open>What was persisted is restored, but for the strategies, which are not stored.\<close>

lemma fold_dset_keyed:
  assumes "\<forall>(n, m) \<in> set xs. im_instance_id m = n"
  shows "dget (fold (\<lambda>(_, m) d. dset (im_instance_id m) m d) xs d) n =
    (case dget (rev xs) n of None \<Rightarrow> dget d n | Some m \<Rightarrow> Some m)"
  using assms
proof (induction xs arbitrary: d)
  case (Cons x xs)
  then show ?case by (cases x) (auto simp: map_add_def split: option.split)
qed simp

lemma fm_restore_persisted:
  assumes "dict_ok (fm_instances fm)" and "\<forall>(n, m) \<in> set (fm_instances fm). im_instance_id m = n"
  shows "fm_nodes (fst (fm_restore_data (FM_STATE (last (fm_writes (fm_persist_data fm)))) fm')) = fm_nodes fm"
    and "dget (fm_instances (fst (fm_restore_data (FM_STATE (last (fm_writes (fm_persist_data fm)))) fm'))) n =
      map_option dump_metadata (dget (fm_instances fm) n)"
proof -
  let ?xs = "map (\<lambda>(n, m). (n, dump_metadata m)) (fm_instances fm)"
  show "fm_nodes (fst (fm_restore_data (FM_STATE (last (fm_writes (fm_persist_data fm)))) fm')) = fm_nodes fm"
    by (simp add: fm_restore_data_def fm_persist_data_def)
  have key: "\<forall>(n, m) \<in> set ?xs. im_instance_id m = n" using assms(2) by (auto simp: dump_metadata_def)
  have "dget (rev ?xs) n = map_option dump_metadata (dget (fm_instances fm) n)"
    using assms(1) by (subst dget_rev) (simp_all add: dget_map_values)
  then show "dget (fm_instances (fst (fm_restore_data (FM_STATE (last (fm_writes (fm_persist_data fm)))) fm'))) n =
      map_option dump_metadata (dget (fm_instances fm) n)"
    using fold_dset_keyed [OF key, of "[]" n] by (simp add: fm_restore_data_def fm_persist_data_def split: option.splits)
qed

end
