(* ===== verification/Alarm_Store.thy ===== *)
theory Alarm_Store
  imports Py_Strings
begin

text \<open>
  The alarm store of the controller (\<^verbatim>\<open>motor/controller/observability/alarm/alarm_store.py\<close>): a queue of
  records per source, and two tables of active alarms that suppress repetitions. Every operation runs under the store's
  lock. Of a record (\<^verbatim>\<open>motor/common/alarm/record.py\<close>) the model has the fields the store reads; the other
  fields travel along in \<open>rec_rest\<close>.
\<close>

section \<open>Records\<close>

datatype category = ALARM | CLEAR | EVENT | LEVEL_CHANGE | CONFIRM | UNCONFIRM | OTHER_CHANGE

datatype cleared = NO | YES

record 'a alarm_record =
  rec_category :: category
  rec_cleared :: cleared
  rec_alarm_id :: string
  rec_moi :: string
  rec_instance_id :: string
  rec_p_instance_id :: string
  rec_rest :: 'a

definition INSTANCE_EXCEPTION_ALARM_ID :: string where "INSTANCE_EXCEPTION_ALARM_ID = ''0xFC001002''"
definition COORDINATOR_EXCEPTION_ALARM_ID :: string where "COORDINATOR_EXCEPTION_ALARM_ID = ''0xFC001004''"
definition PRECISION_ISSUE_ALARM_ID :: string where "PRECISION_ISSUE_ALARM_ID = ''0xFC001009''"

section \<open>The store\<close>

record 'a alarm_store =
  queues :: "(string, 'a alarm_record list) dict"
  recoverable_alarms :: "(string, 'a alarm_record) dict"
  active_precision_alarms :: "(string, 'a alarm_record) dict"

definition init_store :: "string \<Rightarrow> 'a alarm_store" where
  "init_store north_platform = \<lparr>queues = [(strip north_platform, [])], recoverable_alarms = [], active_precision_alarms = []\<rparr>"

definition enqueue_all :: "'a alarm_record \<Rightarrow> 'a alarm_store \<Rightarrow> 'a alarm_store" where
  "enqueue_all r s = s\<lparr>queues := map (\<lambda>(src, q). (src, q @ [r])) (queues s)\<rparr>"

definition precision_alarm_key :: "'a alarm_record \<Rightarrow> string" where
  "precision_alarm_key r =
     (if rec_moi r \<noteq> [] then rec_moi r else rec_alarm_id r @ '':'' @ rec_p_instance_id r @ '':'' @ rec_instance_id r)"

definition handle_precision_issue_alarm :: "'a alarm_record \<Rightarrow> 'a alarm_store \<Rightarrow> 'a alarm_store" where
  "handle_precision_issue_alarm r s =
     (let key = precision_alarm_key r
      in if rec_cleared r = NO \<and> rec_category r = ALARM then
           (if \<not> dmem key (active_precision_alarms s)
            then (enqueue_all r s)\<lparr>active_precision_alarms := dset key r (active_precision_alarms s)\<rparr>
            else s)
         else if rec_cleared r = YES \<or> rec_category r = CLEAR
         then (enqueue_all r s)\<lparr>active_precision_alarms := ddel key (active_precision_alarms s)\<rparr>
         else enqueue_all r s)"

definition recovery_alarm_key :: "'a alarm_record \<Rightarrow> string" where
  "recovery_alarm_key r = rec_alarm_id r @ ''_'' @ rec_instance_id r"

definition handle_instance_exception_alarm :: "'a alarm_record \<Rightarrow> 'a alarm_store \<Rightarrow> 'a alarm_store" where
  "handle_instance_exception_alarm r s =
     (let key = recovery_alarm_key r;
          s1 = (if rec_cleared r = NO \<and> \<not> dmem key (recoverable_alarms s)
                then (enqueue_all r s)\<lparr>recoverable_alarms := dset key r (recoverable_alarms s)\<rparr> else s)
      in if rec_cleared r = YES \<and> dmem key (recoverable_alarms s1)
         then (enqueue_all r s1)\<lparr>recoverable_alarms := ddel key (recoverable_alarms s1)\<rparr> else s1)"

definition add_one_alarm :: "'a alarm_record \<Rightarrow> 'a alarm_store \<Rightarrow> 'a alarm_store" where
  "add_one_alarm r s =
     (if rec_alarm_id r = PRECISION_ISSUE_ALARM_ID then handle_precision_issue_alarm r s
      else if rec_alarm_id r \<in> {INSTANCE_EXCEPTION_ALARM_ID, COORDINATOR_EXCEPTION_ALARM_ID}
      then handle_instance_exception_alarm r s
      else enqueue_all r s)"

definition add_alarms :: "'a alarm_record list \<Rightarrow> 'a alarm_store \<Rightarrow> 'a alarm_store \<times> bool" where
  "add_alarms rs s = (fold add_one_alarm rs s, True)"

definition add_alarm :: "'a alarm_record \<Rightarrow> 'a alarm_store \<Rightarrow> 'a alarm_store \<times> bool" where
  "add_alarm r s = add_alarms [r] s"

text \<open>\<open>get_alarms\<close>, with the records before \<open>format\<close>.\<close>

definition get_alarms :: "string \<Rightarrow> 'a alarm_store \<Rightarrow> 'a alarm_store \<times> 'a alarm_record list list" where
  "get_alarms src s =
     (let result = (case dget (queues s) src of None \<Rightarrow> [] | Some q \<Rightarrow> q)
      in (s\<lparr>queues := dset src [] (queues s)\<rparr>, if result = [] then [] else [result]))"

definition find_active_precision_alarm :: "int option \<Rightarrow> int \<Rightarrow> 'a alarm_store \<Rightarrow> 'a alarm_record option" where
  "find_active_precision_alarm p d s =
     find (\<lambda>r. rec_instance_id r \<noteq> [] \<and> parse_int (rec_instance_id r) = Some d \<and>
               (let p_id = (if rec_p_instance_id r = [] then None else parse_int (rec_p_instance_id r))
                in case p of
                     None \<Rightarrow> (case p_id of None \<Rightarrow> True | Some v \<Rightarrow> v \<le> 0)
                   | Some p0 \<Rightarrow> p_id = Some p0))
       (dvalues (active_precision_alarms s))"

section \<open>What a source receives\<close>

datatype 'a store_op = Report "'a alarm_record list" | Fetch string

text \<open>A run of the store; the second component collects what the source has fetched so far.\<close>

fun run_store :: "string \<Rightarrow> 'a store_op list \<Rightarrow> 'a alarm_store \<times> 'a alarm_record list \<Rightarrow> 'a alarm_store \<times> 'a alarm_record list" where
  "run_store src [] st = st"
| "run_store src (Report rs # ops) (s, got) = run_store src ops (fst (add_alarms rs s), got)"
| "run_store src (Fetch x # ops) (s, got) =
     (let (s1, res) = get_alarms x s in run_store src ops (s1, if x = src then got @ concat res else got))"

definition received :: "string \<Rightarrow> 'a alarm_store \<times> 'a alarm_record list \<Rightarrow> 'a alarm_record list" where
  "received src st = snd st @ (case dget (queues (fst st)) src of None \<Rightarrow> [] | Some q \<Rightarrow> q)"

definition of_key :: "string \<Rightarrow> 'a alarm_record \<Rightarrow> bool" where
  "of_key k r \<longleftrightarrow> rec_alarm_id r \<in> {INSTANCE_EXCEPTION_ALARM_ID, COORDINATOR_EXCEPTION_ALARM_ID} \<and> recovery_alarm_key r = k"

fun alternating :: "cleared \<Rightarrow> cleared list \<Rightarrow> bool" where
  "alternating c [] = True"
| "alternating c (x # xs) \<longleftrightarrow> x = c \<and> alternating (if c = NO then YES else NO) xs"

text \<open>The store and what the source has received agree: a key is active exactly when the last record for it was a raise.\<close>

definition store_ok :: "string \<Rightarrow> 'a alarm_store \<times> 'a alarm_record list \<Rightarrow> bool" where
  "store_ok src st \<longleftrightarrow> dmem src (queues (fst st)) \<and>
     (\<forall>k. let h = map rec_cleared (filter (of_key k) (received src st))
          in alternating NO h \<and> (dmem k (recoverable_alarms (fst st)) \<longleftrightarrow> odd (length h)))"

lemma alternating_snoc: "alternating c (xs @ [x]) \<longleftrightarrow> alternating c xs \<and> x = (if even (length xs) = (c = NO) then NO else YES)"
  by (induction xs arbitrary: c) (auto split: if_splits; metis cleared.exhaust)+

lemma dget_enqueue: "dget (queues (enqueue_all r s)) src = map_option (\<lambda>q. q @ [r]) (dget (queues s) src)"
  by (simp add: enqueue_all_def dget_map_values)

lemma enqueue_all_fields [simp]:
  "recoverable_alarms (enqueue_all r s) = recoverable_alarms s" "active_precision_alarms (enqueue_all r s) = active_precision_alarms s"
  by (simp_all add: enqueue_all_def)

lemma ids_distinct: "PRECISION_ISSUE_ALARM_ID \<notin> {INSTANCE_EXCEPTION_ALARM_ID, COORDINATOR_EXCEPTION_ALARM_ID}"
  by (simp add: PRECISION_ISSUE_ALARM_ID_def INSTANCE_EXCEPTION_ALARM_ID_def COORDINATOR_EXCEPTION_ALARM_ID_def)

lemma add_one_cases:
  assumes "dmem src (queues s)"
  shows "(\<forall>k. \<not> of_key k r) \<and> recoverable_alarms (add_one_alarm r s) = recoverable_alarms s \<and>
      (received src (add_one_alarm r s, got) = received src (s, got) \<or> received src (add_one_alarm r s, got) = received src (s, got) @ [r]) \<or>
    of_key (recovery_alarm_key r) r \<and>
      (if (rec_cleared r = NO) = (\<not> dmem (recovery_alarm_key r) (recoverable_alarms s))
       then received src (add_one_alarm r s, got) = received src (s, got) @ [r] \<and>
         (\<forall>k. dmem k (recoverable_alarms (add_one_alarm r s)) \<longleftrightarrow>
            (if k = recovery_alarm_key r then rec_cleared r = NO else dmem k (recoverable_alarms s)))
       else add_one_alarm r s = s)"
proof -
  have enq: "received src (enqueue_all r s, got) = received src (s, got) @ [r]"
    using assms by (auto simp: received_def dget_enqueue dmem_def)
  have upd: "received src (t\<lparr>recoverable_alarms := x\<rparr>, got) = received src (t, got)"
      "received src (t\<lparr>active_precision_alarms := y\<rparr>, got) = received src (t, got)" for t x y
    by (simp_all add: received_def)
  show ?thesis
  proof (cases "of_key (recovery_alarm_key r) r")
    case True
    then have a: "add_one_alarm r s = handle_instance_exception_alarm r s"
      using ids_distinct by (auto simp: add_one_alarm_def of_key_def)
    show ?thesis
      using True enq upd by (cases "rec_cleared r") (auto simp: a handle_instance_exception_alarm_def Let_def)
  next
    case False
    then have n: "rec_alarm_id r \<notin> {INSTANCE_EXCEPTION_ALARM_ID, COORDINATOR_EXCEPTION_ALARM_ID}" by (simp add: of_key_def)
    then have "\<forall>k. \<not> of_key k r" by (simp add: of_key_def)
    moreover have "recoverable_alarms (add_one_alarm r s) = recoverable_alarms s"
      using n by (simp add: add_one_alarm_def handle_precision_issue_alarm_def Let_def)
    moreover have "received src (add_one_alarm r s, got) = received src (s, got) \<or>
        received src (add_one_alarm r s, got) = received src (s, got) @ [r]"
      using n enq upd by (simp add: add_one_alarm_def handle_precision_issue_alarm_def Let_def)
    ultimately show ?thesis by blast
  qed
qed

lemma add_one_source: "dmem src (queues (add_one_alarm r s)) \<longleftrightarrow> dmem src (queues s)"
  by (simp add: add_one_alarm_def handle_precision_issue_alarm_def handle_instance_exception_alarm_def Let_def dmem_def dget_enqueue)

lemma add_one_ok:
  assumes ok: "store_ok src (s, got)"
  shows "store_ok src (add_one_alarm r s, got)"
proof -
  have src: "dmem src (queues s)" using ok by (simp add: store_ok_def)
  let ?h = "\<lambda>k s. map rec_cleared (filter (of_key k) (received src (s, got)))"
  have h: "alternating NO (?h k s)" "dmem k (recoverable_alarms s) \<longleftrightarrow> odd (length (?h k s))" for k
    using ok by (simp_all add: store_ok_def Let_def)
  have "alternating NO (?h k (add_one_alarm r s)) \<and>
      (dmem k (recoverable_alarms (add_one_alarm r s)) \<longleftrightarrow> odd (length (?h k (add_one_alarm r s))))" for k
    using add_one_cases [OF src, of r got] h [of k] h [of "recovery_alarm_key r"]
    by (cases "rec_cleared r"; cases "k = recovery_alarm_key r"; cases "dmem (recovery_alarm_key r) (recoverable_alarms s)")
      (auto simp: alternating_snoc of_key_def)
  with src show ?thesis by (simp add: store_ok_def Let_def add_one_source)
qed

lemma fetch_ok:
  assumes ok: "store_ok src (s, got)"
  shows "store_ok src (fst (get_alarms x s), if x = src then got @ concat (snd (get_alarms x s)) else got)"
proof -
  have "received src (fst (get_alarms x s), if x = src then got @ concat (snd (get_alarms x s)) else got) = received src (s, got)"
    by (auto simp: received_def get_alarms_def Let_def split: option.splits)
  then show ?thesis using ok by (simp add: store_ok_def Let_def get_alarms_def)
qed

lemma run_store_ok: "store_ok src st \<Longrightarrow> store_ok src (run_store src ops st)"
proof (induction src ops st rule: run_store.induct)
  case (2 src rs ops s got)
  have "store_ok src (fold add_one_alarm rs s, got)" using 2(2) by (induction rs arbitrary: s) (simp_all add: add_one_ok)
  then show ?case using 2(1) by (simp add: add_alarms_def)
next
  case (3 src x ops s got)
  from fetch_ok [OF 3(2), of x] 3(1) show ?case by (simp add: Let_def case_prod_unfold)
qed simp

section \<open>Properties\<close>

text \<open>
  Exception alarms alternate. Whatever is reported and fetched, the records that a registered source has received for one
  instance (or coordinator) alarm alternate strictly between raised and cleared, starting with raised: no repetition and no
  clear without a raise ever reaches the source, and the store considers the alarm active exactly when the last record was
  a raise.
\<close>

theorem exception_alarms_alternate:
  assumes "st = run_store (strip platform) ops (init_store platform, [])"
  shows "alternating NO (map rec_cleared (filter (of_key k) (received (strip platform) st))) \<and>
    (dmem k (recoverable_alarms (fst st)) \<longleftrightarrow> odd (length (filter (of_key k) (received (strip platform) st))))"
proof -
  have "store_ok (strip platform) (init_store platform :: 'a alarm_store, [])"
    by (simp add: store_ok_def init_store_def received_def dmem_def)
  from run_store_ok [OF this, of ops] assms show ?thesis by (simp add: store_ok_def Let_def)
qed

definition demo_record :: "cleared \<Rightarrow> unit alarm_record" where
  "demo_record c = \<lparr>rec_category = ALARM, rec_cleared = c, rec_alarm_id = INSTANCE_EXCEPTION_ALARM_ID, rec_moi = [],
     rec_instance_id = ''7'', rec_p_instance_id = [], rec_rest = ()\<rparr>"

theorem exception_alarms_alternate_witness:
  "\<not> dmem ''0xFC001002_7'' (recoverable_alarms (fst (run_store (strip ''ccae'')
     [Report [demo_record NO, demo_record NO], Fetch ''ccae'', Report [demo_record YES]] (init_store ''ccae'', []))))"
  (is "\<not> dmem _ (recoverable_alarms (fst ?st))")
proof -
  have "filter (of_key ''0xFC001002_7'') (received (strip ''ccae'') ?st) = [demo_record NO, demo_record YES]"
    by (simp add: received_def init_store_def add_alarms_def add_one_alarm_def handle_instance_exception_alarm_def get_alarms_def
        enqueue_all_def demo_record_def recovery_alarm_key_def of_key_def strip_def is_space_def Let_def dmem_def
        INSTANCE_EXCEPTION_ALARM_ID_def PRECISION_ISSUE_ALARM_ID_def COORDINATOR_EXCEPTION_ALARM_ID_def)
  with exception_alarms_alternate [OF refl, of "''0xFC001002_7''" "''ccae''"
      "[Report [demo_record NO, demo_record NO], Fetch ''ccae'', Report [demo_record YES]]"] show ?thesis by simp
qed

end
