(* ===== verification/Recovery_Service.thy ===== *)
theory Recovery_Service
  imports Fault_Properties Alarm_Store
begin

text \<open>
  \<^verbatim>\<open>controller/core/recovery_service.py\<close> and the handlers of \<^verbatim>\<open>controller/api_server/controller_api.py\<close> that use it or the fault
  manager: termination of instances, recovery of a prefill/decode group after a precision alarm, software faults. The answers of the node
  managers and of the coordinator are parameters; a call of a node manager may also raise.
\<close>

section \<open>State\<close>

record 'a recovery_sys =
  rs_ft :: ft_system
  rs_store :: "'a alarm_store"
  rs_stop_calls :: "node_manager list"
  rs_coordinator_calls :: "(int option \<times> int) list"

record answers =
  an_digest :: digest_fun
  an_time :: rat
  an_stop :: "node_manager \<Rightarrow> py_exn + bool"
  an_coordinator :: "int option \<Rightarrow> int \<Rightarrow> bool"

record recovery_outcome =
  ro_terminated :: bool
  ro_cleared :: bool
  ro_moi :: string
  ro_scheduler_state_cleared :: bool

section \<open>Termination\<close>

text \<open>The loop over the node managers: \<open>ok = stop(node_mgr) and ok\<close> calls every one of them, unless a call raises.\<close>

fun stop_all :: "(node_manager \<Rightarrow> py_exn + bool) \<Rightarrow> node_manager list \<Rightarrow> bool \<Rightarrow> node_manager list \<times> (py_exn + bool)" where
  "stop_all send (nm # nms) ok =
     (case send nm of
        Inl e \<Rightarrow> ([nm], Inl e)
      | Inr b \<Rightarrow> (case stop_all send nms (b \<and> ok) of (calls, res) \<Rightarrow> (nm # calls, res)))"
| "stop_all send [] ok = ([], Inr ok)"

definition terminate_instance_for_recovery :: "answers \<Rightarrow> int \<Rightarrow> 'a recovery_sys \<Rightarrow> 'a recovery_sys \<times> (py_exn + bool)" where
  "terminate_instance_for_recovery an n s =
     (case get_instance n (sys_ctrl (rs_ft s)) of
        None \<Rightarrow> (s, Inr False)
      | Some _ \<Rightarrow>
          (let s1 = s\<lparr>rs_ft := sys_separate_instance (an_digest an) (an_time an) n (rs_ft s)\<rparr>
           in case get_instance n (sys_ctrl (rs_ft s1)) of
                None \<Rightarrow> (s1, Inr False)
              | Some r \<Rightarrow>
                  (case stop_all (an_stop an) (node_managers (ctrl_heap (sys_ctrl (rs_ft s1)) r)) True of
                     (calls, res) \<Rightarrow> (s1\<lparr>rs_stop_calls := rs_stop_calls s1 @ calls\<rparr>, res))))"

definition normalize_p_id :: "int option \<Rightarrow> int option" where
  "normalize_p_id p = (case p of None \<Rightarrow> None | Some n \<Rightarrow> if n \<le> 0 then None else Some n)"

definition normalize_d_id :: "int \<Rightarrow> int" where
  "normalize_d_id d = max d 0"

definition is_precision_raise_alarm :: "'a alarm_record \<Rightarrow> bool" where
  "is_precision_raise_alarm r = (rec_alarm_id r = PRECISION_ISSUE_ALARM_ID \<and> rec_category r = ALARM \<and> rec_cleared r = NO)"

text \<open>The decode instance first; the prefill instance is terminated also if that failed, but not if it raised.\<close>

definition terminate_if :: "answers \<Rightarrow> int option \<Rightarrow> bool \<Rightarrow> 'a recovery_sys \<Rightarrow> 'a recovery_sys \<times> (py_exn + bool)" where
  "terminate_if an target all_ok s =
     (case target of
        None \<Rightarrow> (s, Inr all_ok)
      | Some n \<Rightarrow>
          (case terminate_instance_for_recovery an n s of
             (s1, Inl e) \<Rightarrow> (s1, Inl e)
           | (s1, Inr b) \<Rightarrow> (s1, Inr (b \<and> all_ok))))"

definition terminate_pd_group :: "answers \<Rightarrow> int option \<Rightarrow> int \<Rightarrow> 'a recovery_sys \<Rightarrow> 'a recovery_sys \<times> (py_exn + bool)" where
  "terminate_pd_group an p d s =
     (let p_id = normalize_p_id p;
          d_target = (if normalize_d_id d > 0 then Some (normalize_d_id d) else None);
          attempted = (d_target \<noteq> None \<or> p_id \<noteq> None)
      in case terminate_if an d_target True s of
           (s1, Inl e) \<Rightarrow> (s1, Inl e)
         | (s1, Inr ok) \<Rightarrow>
             (case terminate_if an p_id ok s1 of
                (s2, Inl e) \<Rightarrow> (s2, Inl e)
              | (s2, Inr ok2) \<Rightarrow> (s2, Inr (attempted \<and> ok2))))"

section \<open>Recovery of a group\<close>

text \<open>The class of a record is decided by its category when it is received (\<^verbatim>\<open>common/alarm/deserialize.py\<close>).\<close>

definition is_alarm :: "'a alarm_record \<Rightarrow> bool" where
  "is_alarm r = (rec_category r \<in> {ALARM, CLEAR})"

text \<open>\<open>clear\<close> and \<open>update_time\<close> on a copy; the time is in the part of the record that the model leaves open.\<close>

definition cleared_copy :: "('a \<Rightarrow> 'a) \<Rightarrow> 'a alarm_record \<Rightarrow> 'a alarm_record" where
  "cleared_copy stamp r = r\<lparr>rec_cleared := YES, rec_category := CLEAR, rec_rest := stamp (rec_rest r)\<rparr>"

definition notify_coordinator :: "answers \<Rightarrow> int option \<Rightarrow> int \<Rightarrow> 'a recovery_sys \<Rightarrow> 'a recovery_sys \<times> bool" where
  "notify_coordinator an p d s = (s\<lparr>rs_coordinator_calls := rs_coordinator_calls s @ [(p, d)]\<rparr>, an_coordinator an p d)"

definition clear_precision_alarm ::
    "('a \<Rightarrow> 'a) \<Rightarrow> answers \<Rightarrow> int option \<Rightarrow> int \<Rightarrow> 'a alarm_record option \<Rightarrow> bool \<Rightarrow> bool \<Rightarrow> 'a recovery_sys \<Rightarrow>
     'a recovery_sys \<times> recovery_outcome" where
  "clear_precision_alarm stamp an p_id d_id raise_record report_to_om terminated s =
     (case (case raise_record of Some r \<Rightarrow> Some r | None \<Rightarrow> find_active_precision_alarm p_id d_id (rs_store s)) of
        None \<Rightarrow>
          (case notify_coordinator an p_id d_id s of
             (s1, b) \<Rightarrow> (s1, \<lparr>ro_terminated = terminated, ro_cleared = False, ro_moi = '''', ro_scheduler_state_cleared = b\<rparr>))
      | Some r \<Rightarrow>
          if \<not> is_alarm r
          then (s, \<lparr>ro_terminated = terminated, ro_cleared = False, ro_moi = '''', ro_scheduler_state_cleared = False\<rparr>)
          else (let s1 = (if report_to_om then s\<lparr>rs_store := fst (Alarm_Store.add_alarms [r, cleared_copy stamp r] (rs_store s))\<rparr> else s)
                in case notify_coordinator an p_id d_id s1 of
                     (s2, b) \<Rightarrow> (s2, \<lparr>ro_terminated = terminated, ro_cleared = True, ro_moi = rec_moi r, ro_scheduler_state_cleared = b\<rparr>)))"

definition complete_precision_pd_group_recovery ::
    "('a \<Rightarrow> 'a) \<Rightarrow> answers \<Rightarrow> int option \<Rightarrow> int \<Rightarrow> 'a alarm_record option \<Rightarrow> bool \<Rightarrow> bool \<Rightarrow> 'a recovery_sys \<Rightarrow>
     'a recovery_sys \<times> (py_exn + recovery_outcome)" where
  "complete_precision_pd_group_recovery stamp an p d raise_record do_terminate report_to_om s =
     (let p_id = normalize_p_id p; d_id = normalize_d_id d
      in case (if do_terminate then terminate_pd_group an p_id d_id s else (s, Inr True)) of
           (s1, Inl e) \<Rightarrow> (s1, Inl e)
         | (s1, Inr False) \<Rightarrow>
             (s1, Inr \<lparr>ro_terminated = False, ro_cleared = False, ro_moi = '''', ro_scheduler_state_cleared = False\<rparr>)
         | (s1, Inr True) \<Rightarrow>
             (case clear_precision_alarm stamp an p_id d_id raise_record report_to_om True s1 of (s2, out) \<Rightarrow> (s2, Inr out)))"

section \<open>Handlers of the controller\<close>

datatype api_response =
    TERMINATE_FAILED
  | TERMINATED
  | PRECISION_CLEARED recovery_outcome
  | AUTO_RECOVERED bool
  | OM_DISABLED
  | ALARM_ADDED
  | FT_DISABLED
  | FAULT_REPORTED
  | INTERNAL_ERROR

text \<open>\<open>_terminate_instance\<close> on a body that could be parsed. An exception of a stop call becomes a response 500 in the server.\<close>

definition api_terminate_instance ::
    "('a \<Rightarrow> 'a) \<Rightarrow> answers \<Rightarrow> bool \<Rightarrow> int \<Rightarrow> int option \<Rightarrow> bool \<Rightarrow> 'a recovery_sys \<Rightarrow> 'a recovery_sys \<times> api_response" where
  "api_terminate_instance stamp an om_enabled n p precision_alarm_clear s =
     (if precision_alarm_clear
      then (case complete_precision_pd_group_recovery stamp an p n None True om_enabled s of
              (s1, Inl e) \<Rightarrow> (s1, INTERNAL_ERROR)
            | (s1, Inr out) \<Rightarrow> (s1, if \<not> ro_terminated out then TERMINATE_FAILED else PRECISION_CLEARED out))
      else (case terminate_instance_for_recovery an n s of
              (s1, Inl e) \<Rightarrow> (s1, INTERNAL_ERROR)
            | (s1, Inr ok) \<Rightarrow> (s1, if ok then TERMINATED else TERMINATE_FAILED)))"

definition api_store_alarm :: "bool \<Rightarrow> 'a alarm_record \<Rightarrow> 'a recovery_sys \<Rightarrow> 'a recovery_sys \<times> api_response" where
  "api_store_alarm om_enabled r s =
     (if \<not> om_enabled then (s, OM_DISABLED) else (s\<lparr>rs_store := fst (add_alarm r (rs_store s))\<rparr>, ALARM_ADDED))"

definition api_add_alarm ::
    "('a \<Rightarrow> 'a) \<Rightarrow> answers \<Rightarrow> bool \<Rightarrow> bool \<Rightarrow> 'a alarm_record \<Rightarrow> 'a recovery_sys \<Rightarrow> 'a recovery_sys \<times> api_response" where
  "api_add_alarm stamp an om_enabled auto_recovery r s =
     (if is_alarm r \<and> is_precision_raise_alarm r \<and> auto_recovery
      then (case (if rec_instance_id r = '''' then Some 0 else parse_int (rec_instance_id r),
                  if rec_p_instance_id r = '''' then Some None else map_option Some (parse_int (rec_p_instance_id r))) of
              (Some d, Some p) \<Rightarrow>
                (case complete_precision_pd_group_recovery stamp an p d (Some r) True om_enabled s of
                   (s1, Inl e) \<Rightarrow> (s1, INTERNAL_ERROR)
                 | (s1, Inr out) \<Rightarrow>
                     if ro_cleared out then (s1, AUTO_RECOVERED (ro_scheduler_state_cleared out)) else api_store_alarm om_enabled r s1)
            | _ \<Rightarrow> api_store_alarm om_enabled r s)
      else api_store_alarm om_enabled r s)"

definition api_report_software_fault ::
    "answers \<Rightarrow> bool \<Rightarrow> string \<Rightarrow> string \<Rightarrow> int option \<Rightarrow> int option \<Rightarrow> string \<Rightarrow> (string, json) dict option \<Rightarrow>
     'a recovery_sys \<Rightarrow> 'a recovery_sys \<times> api_response" where
  "api_report_software_fault an ft_enabled clock_text msg engine_id engine_status pod_ip info s =
     (if \<not> ft_enabled then (s, FT_DISABLED)
      else (case (engine_id, engine_status) of
              (Some e, Some st) \<Rightarrow>
                if pod_ip = '''' then (s, INTERNAL_ERROR)
                else (s\<lparr>rs_ft := report_software_fault (an_digest an) (an_time an)
                          (from_exception ''RuntimeError'' msg e st info clock_text) pod_ip (rs_ft s)\<rparr>, FAULT_REPORTED)
            | _ \<Rightarrow> (s, INTERNAL_ERROR)))"


section \<open>What a separation changes\<close>

text \<open>The same instances are managed, and an instance object is unchanged or became INACTIVE.\<close>

definition calm :: "ft_system \<Rightarrow> ft_system \<Rightarrow> bool" where
  "calm s s' \<longleftrightarrow> instances (sys_ctrl s') = instances (sys_ctrl s) \<and>
     (\<forall>r. ctrl_heap (sys_ctrl s') r = ctrl_heap (sys_ctrl s) r \<or>
        ctrl_heap (sys_ctrl s') r = (ctrl_heap (sys_ctrl s) r)\<lparr>ins_status := INACTIVE\<rparr>)"

lemma calm_refl: "calm s s"
  by (simp add: calm_def)

lemma calm_trans:
  assumes "calm s s'" and "calm s' s''"
  shows "calm s s''"
  unfolding calm_def
proof (intro conjI allI)
  fix r
  have "ctrl_heap (sys_ctrl s') r = ctrl_heap (sys_ctrl s) r \<or> ctrl_heap (sys_ctrl s') r = (ctrl_heap (sys_ctrl s) r)\<lparr>ins_status := INACTIVE\<rparr>"
    "ctrl_heap (sys_ctrl s'') r = ctrl_heap (sys_ctrl s') r \<or> ctrl_heap (sys_ctrl s'') r = (ctrl_heap (sys_ctrl s') r)\<lparr>ins_status := INACTIVE\<rparr>"
    using assms by (simp_all add: calm_def)
  then show "ctrl_heap (sys_ctrl s'') r = ctrl_heap (sys_ctrl s) r \<or>
      ctrl_heap (sys_ctrl s'') r = (ctrl_heap (sys_ctrl s) r)\<lparr>ins_status := INACTIVE\<rparr>" by auto
qed (use assms in \<open>simp add: calm_def\<close>)

lemma calm_same: "instances (sys_ctrl s') = instances (sys_ctrl s) \<Longrightarrow> ctrl_heap (sys_ctrl s') = ctrl_heap (sys_ctrl s) \<Longrightarrow> calm s s'"
  by (simp add: calm_def)

lemma calm_separate_with:
  assumes "\<And>s. calm s (hook s)"
  shows "calm s (separate_with hook digest t n s)"
proof (cases "get_instance n (sys_ctrl s)")
  case None
  then show ?thesis by (simp add: separate_with_def Let_def calm_refl)
next
  case (Some r)
  have mark: "calm s (s\<lparr>sys_ctrl := notify r OBS_SEPARATED (set_status r INACTIVE (sys_ctrl s\<lparr>forced_separated_instances := F\<rparr>))\<rparr>)" for F
    by (simp add: calm_def)
  have persist: "calm s' (upd_ctrl (persist_data digest t) s')" for s' by (rule calm_same) simp_all
  have forced: "calm s (s\<lparr>sys_ctrl := sys_ctrl s\<lparr>forced_separated_instances := F\<rparr>\<rparr>)" for F by (rule calm_same) simp_all
  show ?thesis
    using calm_trans [OF mark assms] calm_trans [OF calm_trans [OF mark assms] persist] forced
    by (simp add: separate_with_def Some Let_def)
qed

lemma calm_refresh_with:
  assumes "\<And>s. calm s (hook s)"
  shows "calm s (refresh_with hook digest t n s)"
proof -
  have fm: "calm s' (upd_fm f s')" for f s' by (rule calm_same) simp_all
  have rec: "calm s' (upd_ctrl (recover_instance n) s')" for s' by (rule calm_same) simp_all
  have two: "calm s (upd_fm f (upd_fm g s))" for f g using calm_trans [OF fm fm] .
  show ?thesis
    using fm two calm_trans [OF two rec] calm_trans [OF two fm] calm_trans [OF calm_trans [OF two rec] fm]
      calm_trans [OF two calm_separate_with [OF assms]] calm_trans [OF calm_trans [OF two calm_separate_with [OF assms]] fm]
    by (auto simp: refresh_with_def Let_def calm_refl split: option.split)
qed

lemma calm_sys_separate: "calm s (sys_separate_instance digest t n s)"
  unfolding sys_separate_instance_def refresh_instance_fault_level_def
  by (intro calm_separate_with calm_refresh_with) (simp add: calm_refl)

lemma calm_not_active: "calm s s' \<Longrightarrow> ins_status (ctrl_heap (sys_ctrl s) r) \<noteq> ACTIVE \<Longrightarrow> ins_status (ctrl_heap (sys_ctrl s') r) \<noteq> ACTIVE"
proof -
  assume "calm s s'" and na: "ins_status (ctrl_heap (sys_ctrl s) r) \<noteq> ACTIVE"
  then have "ctrl_heap (sys_ctrl s') r = ctrl_heap (sys_ctrl s) r \<or> ctrl_heap (sys_ctrl s') r = (ctrl_heap (sys_ctrl s) r)\<lparr>ins_status := INACTIVE\<rparr>"
    by (simp add: calm_def)
  with na show ?thesis by auto
qed

lemma calm_node_managers: "calm s s' \<Longrightarrow> node_managers (ctrl_heap (sys_ctrl s') r) = node_managers (ctrl_heap (sys_ctrl s) r)"
proof -
  assume "calm s s'"
  then have "ctrl_heap (sys_ctrl s') r = ctrl_heap (sys_ctrl s) r \<or> ctrl_heap (sys_ctrl s') r = (ctrl_heap (sys_ctrl s) r)\<lparr>ins_status := INACTIVE\<rparr>"
    by (simp add: calm_def)
  then show ?thesis by auto
qed


lemma sys_separate_cases:
  assumes "ft_inv {} s" and "get_instance n (sys_ctrl s) = Some r"
  shows "ins_status (ctrl_heap (sys_ctrl s) r) = ACTIVE \<Longrightarrow>
      sys_ctrl (sys_separate_instance digest t n s) = sys_ctrl (refresh_instance_fault_level digest t n (marked n r s)) \<or>
      sys_ctrl (sys_separate_instance digest t n s) = persist_data digest t (sys_ctrl (refresh_instance_fault_level digest t n (marked n r s)))"
    and "ins_status (ctrl_heap (sys_ctrl s) r) \<noteq> ACTIVE \<Longrightarrow>
      sys_ctrl (sys_separate_instance digest t n s) = (sys_ctrl s)\<lparr>forced_separated_instances := insert n (forced_separated_instances (sys_ctrl s))\<rparr>"
proof -
  have ci: "ctrl_inv (sys_ctrl s)" using assms(1) by (simp add: ft_inv_def)
  show "ins_status (ctrl_heap (sys_ctrl s) r) = ACTIVE \<Longrightarrow>
      sys_ctrl (sys_separate_instance digest t n s) = sys_ctrl (refresh_instance_fault_level digest t n (marked n r s)) \<or>
      sys_ctrl (sys_separate_instance digest t n s) = persist_data digest t (sys_ctrl (refresh_instance_fault_level digest t n (marked n r s)))"
    "ins_status (ctrl_heap (sys_ctrl s) r) \<noteq> ACTIVE \<Longrightarrow>
      sys_ctrl (sys_separate_instance digest t n s) = (sys_ctrl s)\<lparr>forced_separated_instances := insert n (forced_separated_instances (sys_ctrl s))\<rparr>"
    by (simp_all add: sys_separate_instance_def separate_with_eq [OF ci assms(2)] Let_def)
qed

lemma separated_not_active:
  assumes "ft_inv {} s" and "get_instance n (sys_ctrl s) = Some r"
  shows "ins_status (ctrl_heap (sys_ctrl (sys_separate_instance digest t n s)) r) \<noteq> ACTIVE"
proof (cases "ins_status (ctrl_heap (sys_ctrl s) r) = ACTIVE")
  case True
  have "calm (marked n r s) (refresh_instance_fault_level digest t n (marked n r s))"
    unfolding refresh_instance_fault_level_def by (intro calm_refresh_with) (simp add: calm_refl)
  then have "ins_status (ctrl_heap (sys_ctrl (refresh_instance_fault_level digest t n (marked n r s))) r) \<noteq> ACTIVE"
    by (rule calm_not_active) simp
  with sys_separate_cases(1) [OF assms True, of digest t] show ?thesis by auto
next
  case False
  with calm_not_active [OF calm_sys_separate] show ?thesis by blast
qed

text \<open>The instance has no fault on its nodes and is recorded as healthy, or is not tracked.\<close>

definition unaffected :: "int \<Rightarrow> fault_manager \<Rightarrow> bool" where
  "unaffected n fm \<longleftrightarrow>
     (case dget (fm_instances fm) n of None \<Rightarrow> True | Some m \<Rightarrow> im_fault_level m = HEALTHY \<and> instance_faults n (fm_nodes fm) = [])"

lemma reevaluate_without_faults:
  assumes "instance_faults n (fm_nodes (sys_fm s)) = []"
  shows "reevaluate_nodes n s = fm_nodes (sys_fm s)"
proof -
  have "\<not> in_instance n nd" if "(k, nd) \<in> set (fm_nodes (sys_fm s))" for k nd
  proof
    assume i: "in_instance n nd"
    then obtain f where "f \<in> set (node_faults nd)"
      by (cases "nd_hardware nd"; cases "nd_software nd") (auto simp: in_instance_def has_faults_def node_faults_def)
    moreover have "nd \<in> set (dvalues (fm_nodes (sys_fm s)))" using that by force
    ultimately have "f \<in> set (instance_faults n (fm_nodes (sys_fm s)))"
      using i unfolding instance_faults_def in_concat_filter by (auto simp: in_instance_def)
    with assms show False by simp
  qed
  then show ?thesis unfolding reevaluate_nodes_def by (intro map_idI) (auto simp: Let_def)
qed

lemma refresh_unaffected:
  assumes "unaffected n (sys_fm s)"
  shows "sys_ctrl (refresh_instance_fault_level digest t n s) = sys_ctrl s"
proof (cases "dget (fm_instances (sys_fm s)) n")
  case None
  then show ?thesis by (simp add: refresh_instance_fault_level_def refresh_with_def)
next
  case (Some m)
  with assms have h: "im_fault_level m = HEALTHY" "instance_faults n (fm_nodes (sys_fm s)) = []" by (simp_all add: unaffected_def)
  then have "fault_target n (reevaluate_nodes n s) = None" by (simp add: reevaluate_without_faults fault_target_None)
  with Some h show ?thesis by (simp add: refresh_instance_fault_level_def refresh_with_def Let_def)
qed

lemma separation_holds:
  assumes inv: "ft_inv {} s" and r: "get_instance n (sys_ctrl s) = Some r"
    and ok: "unaffected n (sys_fm s) \<or>
      (\<exists>m. dget (fm_instances (sys_fm (sys_separate_instance digest t n s))) n = Some m \<and> L2 < im_fault_level m)"
  shows "n \<in> forced_separated_instances (sys_ctrl (sys_separate_instance digest t n s))"
proof (cases "unaffected n (sys_fm s)")
  case True
  then have "sys_ctrl (refresh_instance_fault_level digest t n (marked n r s)) = sys_ctrl (marked n r s)" by (intro refresh_unaffected) simp
  with sys_separate_cases [OF inv r, of digest t] show ?thesis
    by (cases "ins_status (ctrl_heap (sys_ctrl s) r) = ACTIVE") auto
next
  case False
  with ok ft_inv_sys_separate [OF inv, of digest t n] show ?thesis by (auto simp: ft_inv_def severe_separated_def)
qed

lemma stop_all_calls:
  "stop_all send nms ok = (calls, res) \<Longrightarrow>
   \<exists>rest. nms = calls @ rest \<and> (\<forall>b. res = Inr b \<longrightarrow> rest = [] \<and> b = (ok \<and> (\<forall>nm \<in> set nms. send nm = Inr True)))"
proof (induction send nms ok arbitrary: calls res rule: stop_all.induct)
  case (1 send nm nms ok)
  show ?case
  proof (cases "send nm")
    case (Inl e)
    with "1.prems" show ?thesis by auto
  next
    case (Inr b)
    obtain c x where rec: "stop_all send nms (b \<and> ok) = (c, x)" by fastforce
    with "1.prems" Inr have "calls = nm # c" "res = x" by auto
    with "1.IH" [OF Inr rec] Inr show ?thesis by auto
  qed
qed simp


section \<open>Properties\<close>

definition demo_answers :: answers where
  "demo_answers = \<lparr>an_digest = demo_digest, an_time = 2, an_stop = (\<lambda>_. Inr True), an_coordinator = (\<lambda>_ _. True)\<rparr>"

definition demo_recovery :: "unit recovery_sys" where
  "demo_recovery = \<lparr>rs_ft = demo_ft_active, rs_store = init_store ''om'', rs_stop_calls = [], rs_coordinator_calls = []\<rparr>"

definition demo_precision_record :: "unit alarm_record" where
  "demo_precision_record = \<lparr>rec_category = ALARM, rec_cleared = NO, rec_alarm_id = PRECISION_ISSUE_ALARM_ID, rec_moi = ''m'',
     rec_instance_id = ''7'', rec_p_instance_id = [], rec_rest = ()\<rparr>"

text \<open>
  C19: terminating a managed instance leaves it managed and not ACTIVE; it stays separated if it is not tracked, if it is healthy and has no faults, or if
  its fault level is above L2 afterwards. The stop commands go to its node managers in order, to all of them unless a call raises, and the result is
  true exactly if every one was accepted.
\<close>

theorem terminate_isolates:
  assumes "ft_reachable digest host_of (fresh_ft h persist p (init_fault_manager e prefix ns tr sp)) (rs_ft s)"
    and "get_instance n (sys_ctrl (rs_ft s)) = Some r" and "terminate_instance_for_recovery an n s = (s', res)"
  shows "get_instance n (sys_ctrl (rs_ft s')) = Some r \<and> ins_status (ctrl_heap (sys_ctrl (rs_ft s')) r) \<noteq> ACTIVE \<and>
    (unaffected n (sys_fm (rs_ft s)) \<or> (\<exists>m. dget (fm_instances (sys_fm (rs_ft s'))) n = Some m \<and> L2 < im_fault_level m) \<longrightarrow>
       is_instance_separated n (sys_ctrl (rs_ft s'))) \<and>
    (\<exists>calls rest. rs_stop_calls s' = rs_stop_calls s @ calls \<and> node_managers (ctrl_heap (sys_ctrl (rs_ft s)) r) = calls @ rest \<and>
       (\<forall>ok. res = Inr ok \<longrightarrow> rest = [] \<and> ok = (\<forall>nm \<in> set calls. an_stop an nm = Inr True)))"
proof -
  have inv: "ft_inv {} (rs_ft s)" by (rule ft_inv_reachable [OF assms(1) ft_inv_fresh])
  define f where "f = sys_separate_instance (an_digest an) (an_time an) n (rs_ft s)"
  have calm: "calm (rs_ft s) f" unfolding f_def by (rule calm_sys_separate)
  then have get: "get_instance n (sys_ctrl f) = Some r" using assms(2) by (simp add: calm_def get_instance_def)
  obtain calls x where st: "stop_all (an_stop an) (node_managers (ctrl_heap (sys_ctrl f) r)) True = (calls, x)" by fastforce
  have s': "s' = s\<lparr>rs_ft := f, rs_stop_calls := rs_stop_calls s @ calls\<rparr>" "res = x"
    using assms(3) get st by (simp_all add: terminate_instance_for_recovery_def assms(2) f_def [symmetric])
  have id: "ins_id (ctrl_heap (sys_ctrl f) r) = n"
    using get managed_id ft_inv_sys_separate [OF inv] by (metis f_def ft_inv_def)
  have "is_instance_separated n (sys_ctrl f) = (n \<in> forced_separated_instances (sys_ctrl f))" by (simp add: is_instance_separated_def get id)
  then have sep: "unaffected n (sys_fm (rs_ft s)) \<or> (\<exists>m. dget (fm_instances (sys_fm f)) n = Some m \<and> L2 < im_fault_level m) \<longrightarrow>
      is_instance_separated n (sys_ctrl f)"
    unfolding f_def using separation_holds [OF inv assms(2)] by blast
  have na: "ins_status (ctrl_heap (sys_ctrl f) r) \<noteq> ACTIVE" unfolding f_def by (rule separated_not_active [OF inv assms(2)])
  have "\<exists>rest. node_managers (ctrl_heap (sys_ctrl (rs_ft s)) r) = calls @ rest \<and>
      (\<forall>ok. x = Inr ok \<longrightarrow> rest = [] \<and> ok = (\<forall>nm \<in> set calls. an_stop an nm = Inr True))"
    using stop_all_calls [OF st] unfolding calm_node_managers [OF calm] by force
  then show ?thesis using get na sep by (simp add: s')
qed

theorem terminate_isolates_witness:
  "let s' = fst (terminate_instance_for_recovery demo_answers 7 demo_recovery)
   in is_instance_separated 7 (sys_ctrl (rs_ft s')) \<and> ins_status (ctrl_heap (sys_ctrl (rs_ft s')) 0) \<noteq> ACTIVE"
proof -
  have get: "get_instance 7 (sys_ctrl (rs_ft demo_recovery)) = Some 0" by code_simp
  have un: "unaffected 7 (sys_fm (rs_ft demo_recovery))" by code_simp
  have reach: "ft_reachable demo_digest demo_host demo_ft (rs_ft demo_recovery)" using demo_ft_steps(1) by (simp add: demo_recovery_def)
  obtain s' res where t: "terminate_instance_for_recovery demo_answers 7 demo_recovery = (s', res)" by fastforce
  from terminate_isolates [OF reach [unfolded demo_ft_def] get t] un show ?thesis by (simp add: t)
qed

lemma terminate_fields:
  "terminate_instance_for_recovery an n s = (s', res) \<Longrightarrow> rs_store s' = rs_store s \<and> rs_coordinator_calls s' = rs_coordinator_calls s"
  by (auto simp: terminate_instance_for_recovery_def Let_def split: option.splits prod.splits)

lemma terminate_if_fields:
  "terminate_if an target ok s = (s', res) \<Longrightarrow> rs_store s' = rs_store s \<and> rs_coordinator_calls s' = rs_coordinator_calls s"
  by (auto simp: terminate_if_def dest: terminate_fields split: option.splits prod.splits sum.splits)

lemma terminate_group_fields:
  assumes "terminate_pd_group an p d s = (s', res)"
  shows "rs_store s' = rs_store s \<and> rs_coordinator_calls s' = rs_coordinator_calls s"
proof -
  obtain s1 x1 where one: "terminate_if an (if normalize_d_id d > 0 then Some (normalize_d_id d) else None) True s = (s1, x1)" by fastforce
  show ?thesis
  proof (cases x1)
    case (Inl e)
    with assms one have "s' = s1" by (auto simp: terminate_pd_group_def Let_def)
    with terminate_if_fields [OF one] show ?thesis by simp
  next
    case (Inr ok)
    obtain s2 x2 where two: "terminate_if an (normalize_p_id p) ok s1 = (s2, x2)" by fastforce
    with assms one Inr have "s' = s2" by (auto simp: terminate_pd_group_def Let_def split: sum.splits)
    with terminate_if_fields [OF one] terminate_if_fields [OF two] show ?thesis by simp
  qed
qed

lemma stored_raise: "is_precision_raise_alarm r \<Longrightarrow> dmem (precision_alarm_key r) (active_precision_alarms (fst (add_alarm r st)))"
  by (simp add: is_precision_raise_alarm_def add_alarm_def Alarm_Store.add_alarms_def add_one_alarm_def handle_precision_issue_alarm_def Let_def)

text \<open>A raise followed by its clearing.\<close>

lemma reported_and_cleared:
  assumes "is_precision_raise_alarm r" and st'_def: "st' = fst (Alarm_Store.add_alarms [r, cleared_copy stamp r] st)"
  shows "\<not> dmem (precision_alarm_key r) (active_precision_alarms st')"
    and "queues st' = map (\<lambda>(src, q). (src, q @ (if dmem (precision_alarm_key r) (active_precision_alarms st) then [] else [r])
         @ [cleared_copy stamp r])) (queues st)"
proof -
  have key: "precision_alarm_key (cleared_copy stamp r) = precision_alarm_key r" by (simp add: precision_alarm_key_def cleared_copy_def)
  have ids: "rec_alarm_id r = PRECISION_ISSUE_ALARM_ID" "rec_category r = ALARM" "rec_cleared r = NO"
    "rec_alarm_id (cleared_copy stamp r) = PRECISION_ISSUE_ALARM_ID" "rec_cleared (cleared_copy stamp r) = YES"
    using assms(1) by (simp_all add: is_precision_raise_alarm_def cleared_copy_def)
  show "\<not> dmem (precision_alarm_key r) (active_precision_alarms st')"
    unfolding st'_def by (simp add: Alarm_Store.add_alarms_def add_one_alarm_def handle_precision_issue_alarm_def ids key Let_def)
  show "queues st' = map (\<lambda>(src, q). (src, q @ (if dmem (precision_alarm_key r) (active_precision_alarms st) then [] else [r])
         @ [cleared_copy stamp r])) (queues st)"
    unfolding st'_def
    by (auto simp: Alarm_Store.add_alarms_def add_one_alarm_def handle_precision_issue_alarm_def ids key Let_def enqueue_all_def)
qed

lemma group_recovery_given:
  assumes "complete_precision_pd_group_recovery stamp an p d (Some r) True True s = (s', Inr out)" and "is_precision_raise_alarm r"
  shows "if ro_cleared out
    then rs_store s' = fst (Alarm_Store.add_alarms [r, cleared_copy stamp r] (rs_store s)) \<and>
      rs_coordinator_calls s' = rs_coordinator_calls s @ [(normalize_p_id p, normalize_d_id d)] \<and>
      ro_scheduler_state_cleared out = an_coordinator an (normalize_p_id p) (normalize_d_id d)
    else rs_store s' = rs_store s"
proof -
  obtain s1 x where t: "terminate_pd_group an (normalize_p_id p) (normalize_d_id d) s = (s1, x)" by fastforce
  have "is_alarm r" using assms(2) by (simp add: is_precision_raise_alarm_def is_alarm_def)
  with assms(1) terminate_group_fields [OF t] t show ?thesis
    by (auto simp: complete_precision_pd_group_recovery_def clear_precision_alarm_def notify_coordinator_def Let_def
        split: sum.splits bool.splits)
qed

text \<open>
  With the northbound interface enabled, a precision alarm that is raised is either stored, and then active, or recovered: then the
  store has seen the raise (unless it was active already) followed by its clearing, the alarm is not active any more, and the coordinator was told
  about the group.
\<close>

theorem precision_alarm_not_lost:
  assumes "is_precision_raise_alarm r" and "api_add_alarm stamp an True auto_recovery r s = (s', resp)" and "resp \<noteq> INTERNAL_ERROR"
  shows "resp = ALARM_ADDED \<and> dmem (precision_alarm_key r) (active_precision_alarms (rs_store s')) \<or>
    (\<exists>b p d. resp = AUTO_RECOVERED b \<and> \<not> dmem (precision_alarm_key r) (active_precision_alarms (rs_store s')) \<and>
       queues (rs_store s') = map (\<lambda>(src, q). (src, q @ (if dmem (precision_alarm_key r) (active_precision_alarms (rs_store s)) then [] else [r])
         @ [cleared_copy stamp r])) (queues (rs_store s)) \<and>
       rs_coordinator_calls s' = rs_coordinator_calls s @ [(p, d)] \<and> b = an_coordinator an p d)"
proof -
  have store: "resp = ALARM_ADDED \<and> dmem (precision_alarm_key r) (active_precision_alarms (rs_store s'))"
    if "api_store_alarm True r s1 = (s', resp)" for s1
    using that stored_raise [OF assms(1)] by (auto simp: api_store_alarm_def)
  show ?thesis
  proof (cases "auto_recovery \<and> (\<exists>d p. (if rec_instance_id r = [] then Some 0 else parse_int (rec_instance_id r)) = Some d \<and>
      (if rec_p_instance_id r = [] then Some None else map_option Some (parse_int (rec_p_instance_id r))) = Some p)")
    case False
    then have "api_store_alarm True r s = (s', resp)" using assms(2) by (auto simp: api_add_alarm_def split: option.splits if_splits)
    with store show ?thesis by blast
  next
    case True
    then obtain d p where dp: "(if rec_instance_id r = [] then Some 0 else parse_int (rec_instance_id r)) = Some d"
      "(if rec_p_instance_id r = [] then Some None else map_option Some (parse_int (rec_p_instance_id r))) = Some p" by blast
    have al: "is_alarm r" using assms(1) by (simp add: is_precision_raise_alarm_def is_alarm_def)
    obtain s1 x where c: "complete_precision_pd_group_recovery stamp an p d (Some r) True True s = (s1, x)" by fastforce
    obtain out where x: "x = Inr out" using assms(2,3) True al assms(1) c dp by (cases x) (auto simp: api_add_alarm_def)
    have res: "(s', resp) = (if ro_cleared out then (s1, AUTO_RECOVERED (ro_scheduler_state_cleared out)) else api_store_alarm True r s1)"
      using assms(2) True al assms(1) by (simp add: api_add_alarm_def c x dp)
    show ?thesis
    proof (cases "ro_cleared out")
      case True
      with res group_recovery_given [OF c [unfolded x] assms(1)] reported_and_cleared [OF assms(1) refl, of stamp "rs_store s"] show ?thesis
        by simp
    next
      case False
      with res store show ?thesis by (metis (full_types))
    qed
  qed
qed

theorem precision_alarm_not_lost_witness:
  "\<exists>s' b. api_add_alarm id demo_answers True True demo_precision_record demo_recovery = (s', AUTO_RECOVERED b) \<and>
     \<not> dmem (precision_alarm_key demo_precision_record) (active_precision_alarms (rs_store s')) \<and> rs_coordinator_calls s' = [(None, 7)]"
proof -
  obtain s' resp where a: "api_add_alarm id demo_answers True True demo_precision_record demo_recovery = (s', resp)" by fastforce
  have e: "snd (api_add_alarm id demo_answers True True demo_precision_record demo_recovery) = AUTO_RECOVERED True"
    "rs_coordinator_calls (fst (api_add_alarm id demo_answers True True demo_precision_record demo_recovery)) = [(None, 7)]"
    by code_simp+
  have p: "is_precision_raise_alarm demo_precision_record" by code_simp
  from e(1) a have resp: "resp = AUTO_RECOVERED True" by simp
  from precision_alarm_not_lost [OF p a] resp a e(2) show ?thesis by auto
qed

end
