(* ===== verification/Worker_Cache.thy ===== *)
theory Worker_Cache
  imports Workload_Shm Py_Strings
begin

text \<open>
  The instance cache of a worker process, \<^verbatim>\<open>_SchedulerInstanceCache\<close> of
  \<^verbatim>\<open>coordinator/scheduler/runtime/scheduler_client.py\<close>, and the part of the client that keeps it up to date: pulls, the deltas that the
  scheduler publishes, versions in shared memory, and the circuit breakers that are open. A deserialised instance is an object of the cache's own
  heap: it is reachable through the list of its role, the map of its role and, endpoint by endpoint, through the endpoint map, and the
  workloads read from shared memory are written into it.
\<close>

section \<open>The cache\<close>

definition ROLES :: "pd_role list" where
  "ROLES = [ROLE_E, ROLE_P, ROLE_D, ROLE_U]"

record sched_cache =
  sc_heap :: "iref \<Rightarrow> instance_obj"
  sc_next :: iref
  sc_lists :: "pd_role \<Rightarrow> iref list"
  sc_maps :: "pd_role \<Rightarrow> (int, iref) dict"
  sc_endpoints :: "(int \<times> int, iref \<times> ep_loc) dict"

definition init_cache :: sched_cache where
  "init_cache = \<lparr>sc_heap = (\<lambda>_. undefined), sc_next = 0, sc_lists = (\<lambda>_. []), sc_maps = (\<lambda>_. []), sc_endpoints = []\<rparr>"

definition cached_instances :: "sched_cache \<Rightarrow> pd_role \<Rightarrow> instance_obj list" where
  "cached_instances c \<rho> = map (sc_heap c) (sc_lists c \<rho>)"

text \<open>The objects that deserialisation creates.\<close>

fun store_instances :: "instance_obj list \<Rightarrow> sched_cache \<Rightarrow> sched_cache \<times> iref list" where
  "store_instances [] c = (c, [])"
| "store_instances (i # is) c =
     (case store_instances is (c\<lparr>sc_heap := (sc_heap c)(sc_next c := i), sc_next := sc_next c + 1\<rparr>) of
        (c', rs) \<Rightarrow> (c', sc_next c # rs))"

definition id_of :: "sched_cache \<Rightarrow> iref \<Rightarrow> int" where
  "id_of c r = ins_id (sc_heap c r)"

definition index_endpoints :: "iref \<Rightarrow> sched_cache \<Rightarrow> sched_cache" where
  "index_endpoints r c =
     c\<lparr>sc_endpoints := fold (\<lambda>(loc, e) d. dset (id_of c r, ep_id e) (r, loc) d) (iter_endpoints (sc_heap c r)) (sc_endpoints c)\<rparr>"

definition sorted_refs :: "sched_cache \<Rightarrow> iref list \<Rightarrow> iref list" where
  "sorted_refs c rs = sort_key (id_of c) rs"

definition set_role :: "pd_role \<Rightarrow> iref list \<Rightarrow> (int, iref) dict \<Rightarrow> sched_cache \<Rightarrow> sched_cache" where
  "set_role \<rho> rs m c = c\<lparr>sc_lists := (sc_lists c)(\<rho> := rs), sc_maps := (sc_maps c)(\<rho> := m)\<rparr>"

definition drop_endpoints :: "int set \<Rightarrow> sched_cache \<Rightarrow> sched_cache" where
  "drop_endpoints ids c = c\<lparr>sc_endpoints := filter (\<lambda>((iid, eid), _). iid \<notin> ids) (sc_endpoints c)\<rparr>"

definition apply_role :: "pd_role \<Rightarrow> iref list \<Rightarrow> sched_cache \<Rightarrow> sched_cache" where
  "apply_role \<rho> rs c =
     fold index_endpoints rs
       (drop_endpoints (set (dkeys (sc_maps c \<rho>))) (set_role \<rho> rs (fold (\<lambda>r d. dset (id_of c r) r d) rs []) c))"

definition role_of :: "instance_obj \<Rightarrow> pd_role option" where
  "role_of i =
     (let v = lower (strip (ins_role i))
      in if v = ''hybrid'' then Some ROLE_U
         else (case pd_role_of v of Inl _ \<Rightarrow> None | Inr \<rho> \<Rightarrow> Some \<rho>))"

definition remove_from_role :: "int \<Rightarrow> pd_role \<Rightarrow> sched_cache \<Rightarrow> sched_cache" where
  "remove_from_role iid \<rho> c =
     (if dmem iid (sc_maps c \<rho>)
      then (let m = ddel iid (sc_maps c \<rho>) in set_role \<rho> (sorted_refs c (dvalues m)) m c)
      else c)"

definition remove_id :: "int \<Rightarrow> sched_cache \<Rightarrow> sched_cache" where
  "remove_id iid c = drop_endpoints {iid} (fold (remove_from_role iid) ROLES c)"

definition insert_ref :: "pd_role \<Rightarrow> iref \<Rightarrow> sched_cache \<Rightarrow> sched_cache" where
  "insert_ref \<rho> r c =
     (let c1 = remove_id (id_of c r) c;
          m = dset (id_of c r) r (sc_maps c1 \<rho>)
      in index_endpoints r (set_role \<rho> (sorted_refs c1 (dvalues m)) m c1))"

definition apply_add :: "iref list \<Rightarrow> sched_cache \<Rightarrow> sched_cache \<times> bool" where
  "apply_add rs c =
     (if list_ex (\<lambda>r. role_of (sc_heap c r) = None) rs then (c, False)
      else (fold (\<lambda>r c. insert_ref (the (role_of (sc_heap c r))) r c) rs c, True))"

definition apply_remove :: "iref list \<Rightarrow> sched_cache \<Rightarrow> sched_cache" where
  "apply_remove rs c = fold (\<lambda>r c. remove_id (id_of c r) c) rs c"

definition patch_workload_from_shm :: "int \<times> int \<times> pd_role \<times> rat \<Rightarrow> sched_cache \<Rightarrow> sched_cache" where
  "patch_workload_from_shm p c =
     (case p of (iid, eid, \<rho>, tokens) \<Rightarrow>
        (case dget (sc_maps c \<rho>) iid of
           None \<Rightarrow> c
         | Some r \<Rightarrow>
             (case dget (sc_endpoints c) (iid, eid) of
                None \<Rightarrow> c
              | Some (r', loc) \<Rightarrow>
                  (case endpoint_at (sc_heap c r') loc of
                     None \<Rightarrow> c
                   | Some e \<Rightarrow>
                       (let h = (sc_heap c)(r' := write_endpoint loc (e\<lparr>ep_workload := \<lparr>active_tokens = tokens\<rparr>\<rparr>) (sc_heap c r'));
                            g = active_tokens (gathered_workload (h r)) + (tokens - active_tokens (ep_workload e))
                        in c\<lparr>sc_heap := h(r := (h r)\<lparr>gathered_workload := \<lparr>active_tokens = g\<rparr>\<rparr>)\<rparr>)))))"

definition collect_active_endpoints :: "sched_cache \<Rightarrow> (string \<times> string) list" where
  "collect_active_endpoints c =
     concat (map (\<lambda>\<rho>. concat (map (\<lambda>i. map (\<lambda>e. (ep_ip e, business_port e)) (filter (\<lambda>e. ep_status e = EP_NORMAL) (endpoint_objs i)))
       (cached_instances c \<rho>))) ROLES)"

section \<open>The worker's view of the scheduler\<close>

record worker =
  wk_cache :: sched_cache
  wk_reader :: "(string \<times> shm_reader) option"
  wk_last_version :: "int option"
  wk_blocked :: "int set"
  wk_has_callback :: bool
  wk_refreshed :: "(string \<times> string) list list"

definition init_worker :: "bool \<Rightarrow> worker" where
  "init_worker cb = \<lparr>wk_cache = init_cache, wk_reader = None, wk_last_version = None, wk_blocked = {}, wk_has_callback = cb, wk_refreshed = []\<rparr>"

definition notify_instance_refreshed :: "worker \<Rightarrow> worker" where
  "notify_instance_refreshed w =
     (if \<not> wk_has_callback w then w else w\<lparr>wk_refreshed := wk_refreshed w @ [collect_active_endpoints (wk_cache w)]\<rparr>)"

text \<open>
  The answer to a request GET_AVAILABLE_INSTANCES: no response, an error, or the instances, those that could be deserialised, with the name of
  the shared memory and its size if it can be attached.
\<close>

datatype get_response = GET_NO_RESPONSE | GET_ERROR | GET_SUCCESS "instance_obj option list" "(string \<times> nat option) option"

definition attach_reader :: "(string \<times> nat option) option \<Rightarrow> worker \<Rightarrow> worker" where
  "attach_reader shm w =
     (case shm of
        None \<Rightarrow> w
      | Some (name, bytes) \<Rightarrow>
          if name = '''' then w
          else if (case wk_reader w of None \<Rightarrow> True | Some (name', _) \<Rightarrow> name' \<noteq> name)
          then (case bytes of
                  None \<Rightarrow> w\<lparr>wk_reader := None\<rparr>
                | Some n \<Rightarrow> w\<lparr>wk_reader := Some (name, init_reader n), wk_last_version := None\<rparr>)
          else w)"

definition replace_all_roles :: "(int, iref) dict \<Rightarrow> sched_cache \<Rightarrow> sched_cache" where
  "replace_all_roles found c =
     fold (\<lambda>\<rho> c. apply_role \<rho> (sorted_refs c (filter (\<lambda>r. role_class (ins_role (sc_heap c r)) = Some \<rho>) (dvalues found))) c) ROLES c"

definition wk_get_available_instances :: "pd_role option \<Rightarrow> get_response \<Rightarrow> worker \<Rightarrow> worker \<times> (int, iref) dict" where
  "wk_get_available_instances role resp w =
     (case resp of
        GET_NO_RESPONSE \<Rightarrow> (w, [])
      | GET_ERROR \<Rightarrow> (w, [])
      | GET_SUCCESS data shm \<Rightarrow>
          (case store_instances (List.map_filter id data) (wk_cache w) of
             (c1, rs) \<Rightarrow>
               (let found = fold (\<lambda>r d. dset (id_of c1 r) r d) rs [];
                    w1 = attach_reader shm (w\<lparr>wk_cache := c1\<rparr>);
                    c2 = (case role of
                            Some \<rho> \<Rightarrow> apply_role \<rho> (sorted_refs c1 (dvalues found)) c1
                          | None \<Rightarrow> replace_all_roles found c1)
                in (w1\<lparr>wk_cache := c2\<rparr>, found))))"

definition pull_instances_and_notify :: "int option \<Rightarrow> get_response \<Rightarrow> worker \<Rightarrow> worker" where
  "pull_instances_and_notify version resp w =
     notify_instance_refreshed ((fst (wk_get_available_instances None resp w))\<lparr>wk_last_version := version\<rparr>)"

text \<open>\<open>_refresh_cache_from_workload_reader\<close>, given the outcome of the reading loop.\<close>

definition refresh_cache_from_workload_reader ::
    "rat \<Rightarrow> pd_role option \<Rightarrow> (shm_header \<times> shm_entry list option) option \<Rightarrow> get_response \<Rightarrow> worker \<Rightarrow> worker" where
  "refresh_cache_from_workload_reader t role res resp w =
     (case wk_reader w of
        None \<Rightarrow> w
      | Some (name, rd) \<Rightarrow>
          (case finish_read t role res rd of
             (rd', patches, version, stale) \<Rightarrow>
               (let w1 = w\<lparr>wk_reader := Some (name, rd'), wk_cache := fold patch_workload_from_shm patches (wk_cache w)\<rparr>
                in if stale then pull_instances_and_notify version resp w1
                   else (case version of
                           None \<Rightarrow> w1
                         | Some v \<Rightarrow>
                             if wk_last_version w1 \<noteq> None \<and> version \<noteq> wk_last_version w1 then pull_instances_and_notify version resp w1
                             else w1\<lparr>wk_last_version := version\<rparr>))))"

text \<open>A delta that was published: the event and the instances, if they are a list.\<close>

record instance_delta =
  dl_event :: string
  dl_instances :: "instance_obj option list option"

definition try_apply_instance_delta :: "int option \<Rightarrow> instance_delta option \<Rightarrow> worker \<Rightarrow> worker \<times> bool" where
  "try_apply_instance_delta version delta w =
     (case (delta, version, wk_last_version w) of
        (Some dl, Some v, Some seen) \<Rightarrow>
          if v \<noteq> seen + 1 then (w, False)
          else (case dl_instances dl of
                  None \<Rightarrow> (w, False)
                | Some data \<Rightarrow>
                    if dl_event dl \<notin> {''add'', ''del''} \<or> None \<in> set data \<or> data = [] then (w, False)
                    else (case store_instances (map the data) (wk_cache w) of
                            (c1, rs) \<Rightarrow>
                              if dl_event dl = ''add''
                              then (case apply_add rs c1 of
                                      (c2, False) \<Rightarrow> (w\<lparr>wk_cache := c2\<rparr>, False)
                                    | (c2, True) \<Rightarrow> (notify_instance_refreshed (w\<lparr>wk_cache := c2, wk_last_version := Some v\<rparr>), True))
                              else (notify_instance_refreshed
                                      (w\<lparr>wk_cache := apply_remove rs c1, wk_last_version := Some v,
                                         wk_blocked := wk_blocked w - set (map (id_of c1) rs)\<rparr>), True)))
      | _ \<Rightarrow> (w, False))"

definition cached_ids :: "sched_cache \<Rightarrow> int set" where
  "cached_ids c = (\<Union>\<rho> \<in> set ROLES. set (map (id_of c) (sc_lists c \<rho>)))"

definition on_instance_change_notify :: "int option \<Rightarrow> instance_delta option \<Rightarrow> get_response \<Rightarrow> worker \<Rightarrow> worker" where
  "on_instance_change_notify version delta resp w =
     (if version \<noteq> None \<and> wk_last_version w \<noteq> None \<and> version = wk_last_version w then w
      else (case try_apply_instance_delta version delta w of
              (w1, True) \<Rightarrow> w1
            | (w1, False) \<Rightarrow>
                (let w2 = fst (wk_get_available_instances None resp w1);
                     w3 = (if version \<noteq> None then w2\<lparr>wk_last_version := version\<rparr> else w2)
                 in notify_instance_refreshed (w3\<lparr>wk_blocked := wk_blocked w3 \<inter> cached_ids (wk_cache w3)\<rparr>))))"

definition on_circuit_breaker_change :: "int \<Rightarrow> string \<Rightarrow> worker \<Rightarrow> worker" where
  "on_circuit_breaker_change iid st w =
     (if st = ''open'' then w\<lparr>wk_blocked := insert iid (wk_blocked w)\<rparr>
      else if st = ''closed'' then w\<lparr>wk_blocked := wk_blocked w - {iid}\<rparr>
      else w)"

definition is_instance_blocked :: "worker \<Rightarrow> int \<Rightarrow> bool" where
  "is_instance_blocked w iid = (iid \<in> wk_blocked w)"

definition roles_from_cache :: "worker \<Rightarrow> pd_role list" where
  "roles_from_cache w = filter (\<lambda>\<rho>. sc_lists (wk_cache w) \<rho> \<noteq> []) ROLES"

definition get_available_instance_roles :: "get_response \<Rightarrow> worker \<Rightarrow> worker \<times> pd_role list" where
  "get_available_instance_roles resp w =
     (if roles_from_cache w \<noteq> [] then (w, roles_from_cache w)
      else (let w1 = fst (wk_get_available_instances None resp w) in (w1, roles_from_cache w1)))"

definition get_unblocked_instances :: "pd_role \<Rightarrow> get_response \<Rightarrow> worker \<Rightarrow> worker \<times> int list" where
  "get_unblocked_instances \<rho> resp w =
     (let w1 = (if sc_lists (wk_cache w) \<rho> = [] then fst (wk_get_available_instances None resp w) else w)
      in (w1, filter (\<lambda>n. n \<notin> wk_blocked w1) (map (id_of (wk_cache w1)) (sc_lists (wk_cache w1) \<rho>))))"

definition cache_readiness :: "worker \<Rightarrow> instance_readiness" where
  "cache_readiness w = readiness_from_instances (concat (map (cached_instances (wk_cache w)) ROLES))"

definition wk_has_required_instances :: "get_response \<Rightarrow> worker \<Rightarrow> worker \<times> instance_readiness" where
  "wk_has_required_instances resp w =
     (if cache_readiness w \<noteq> NONE_READY then (w, cache_readiness w)
      else (let w1 = fst (wk_get_available_instances None resp w) in (w1, cache_readiness w1)))"

text \<open>\<open>_build_instance_delta\<close> of the scheduler process: what is published with an event.\<close>

definition build_instance_delta :: "event_type \<Rightarrow> instance_obj list \<Rightarrow> instance_delta option" where
  "build_instance_delta ev is =
     (if ev \<notin> {ADD, DEL} \<or> is = [] then None
      else Some \<lparr>dl_event = (if ev = ADD then ''add'' else ''del''), dl_instances = Some (map Some is)\<rparr>)"

end
