(* ===== verification/Worker_Correctness.thy ===== *)
theory Worker_Correctness
  imports Worker_Cache
begin

text \<open>
  The worker's cache follows the pool of the scheduler. The pool is a history of versions; each version is an available instance for some
  ids, up to workloads, and may have been published with a delta. Notifications can be lost, repeated and reordered, and a pull
  returns some version that is at least as new as the one it is recorded under.
\<close>

section \<open>What a cache shows\<close>

text \<open>An instance is compared without its workloads, which have their own way into the cache. The role of an id does not change: \<open>rl\<close>.\<close>

definition cache_view :: "(int \<Rightarrow> pd_role) \<Rightarrow> sched_cache \<Rightarrow> int \<Rightarrow> instance_obj option" where
  "cache_view rl c n = map_option (\<lambda>r. reset_workload (sc_heap c r)) (dget (sc_maps c (rl n)) n)"

definition wcache_ok :: "(int \<Rightarrow> pd_role) \<Rightarrow> sched_cache \<Rightarrow> bool" where
  "wcache_ok rl c \<longleftrightarrow>
     (\<forall>\<rho>. dict_ok (sc_maps c \<rho>) \<and> sc_lists c \<rho> = sorted_refs c (dvalues (sc_maps c \<rho>)) \<and>
        (\<forall>n r. dget (sc_maps c \<rho>) n = Some r \<longrightarrow> rl n = \<rho> \<and> id_of c r = n \<and> r < sc_next c))"

lemma wcache_okD:
  assumes "wcache_ok rl c"
  shows "dict_ok (sc_maps c \<rho>)" "sc_lists c \<rho> = sorted_refs c (dvalues (sc_maps c \<rho>))"
    "dget (sc_maps c \<rho>) n = Some r \<Longrightarrow> rl n = \<rho> \<and> id_of c r = n \<and> r < sc_next c"
  using assms unfolding wcache_ok_def by metis+

lemma wcache_ok_init: "wcache_ok rl init_cache"
  by (simp add: wcache_ok_def init_cache_def sorted_refs_def)

text \<open>Workloads do not show.\<close>

lemma reset_gathered [simp]: "reset_workload (i\<lparr>gathered_workload := g\<rparr>) = reset_workload i"
  by (simp add: reset_workload_def map_endpoints_def)

lemma map_dset_values: "map (\<lambda>(k, v). (k, f k v)) (dset k' v' d) = dset k' (f k' v') (map (\<lambda>(k, v). (k, f k v)) d)"
  by (induction d) auto

lemma reset_write_endpoint:
  assumes "endpoint_at i loc = Some e"
  shows "reset_workload (write_endpoint loc (e\<lparr>ep_workload := w\<rparr>) i) = reset_workload i"
proof -
  obtain pod k where loc: "loc = (pod, k)" by fastforce
  from assms obtain eps where eps: "dget (endpoints i) pod = Some eps" "dget eps k = Some e"
    by (auto simp: endpoint_at_def loc split: option.splits)
  let ?z = "\<lambda>(k, e). (k, e\<lparr>ep_workload := zero_workload\<rparr>)"
  let ?g = "\<lambda>(p :: string) es. map ?z (es :: (int, endpoint) dict)"
  have "map ?z (dset k (e\<lparr>ep_workload := w\<rparr>) eps) = dset k (e\<lparr>ep_workload := zero_workload\<rparr>) (map ?z eps)"
    using map_dset_values [of "\<lambda>_ e. e\<lparr>ep_workload := zero_workload\<rparr>" k "e\<lparr>ep_workload := w\<rparr>" eps] by simp
  also have "\<dots> = map ?z eps" using eps(2) by (intro dset_same) (simp add: dget_map_values)
  finally have inner: "?g pod (dset k (e\<lparr>ep_workload := w\<rparr>) eps) = ?g pod eps" .
  have "map (\<lambda>(p, es). (p, ?g p es)) (dset pod (dset k (e\<lparr>ep_workload := w\<rparr>) eps) (endpoints i)) =
      dset pod (?g pod (dset k (e\<lparr>ep_workload := w\<rparr>) eps)) (map (\<lambda>(p, es). (p, ?g p es)) (endpoints i))"
    by (rule map_dset_values)
  also have "\<dots> = dset pod (?g pod eps) (map (\<lambda>(p, es). (p, ?g p es)) (endpoints i))" by (simp only: inner)
  also have "\<dots> = map (\<lambda>(p, es). (p, ?g p es)) (endpoints i)" using eps(1) by (intro dset_same) (simp add: dget_map_values)
  finally show ?thesis by (simp add: reset_workload_def map_endpoints_def write_endpoint_def loc eps(1))
qed

section \<open>Operations of the cache\<close>

lemma store_instances_fields:
  "store_instances is c = (c', rs) \<Longrightarrow>
     sc_lists c' = sc_lists c \<and> sc_maps c' = sc_maps c \<and> sc_endpoints c' = sc_endpoints c \<and> sc_next c' = sc_next c + length is \<and>
     rs = [sc_next c..<sc_next c'] \<and> (\<forall>r < sc_next c. sc_heap c' r = sc_heap c r) \<and> map (sc_heap c') rs = is"
proof (induction "is" arbitrary: c c' rs)
  case (Cons i "is")
  let ?c = "c\<lparr>sc_heap := (sc_heap c)(sc_next c := i), sc_next := sc_next c + 1\<rparr>"
  obtain c1 rs1 where s: "store_instances is ?c = (c1, rs1)" by fastforce
  from Cons.prems s have eq: "c' = c1" "rs = sc_next c # rs1" by simp_all
  note ih = Cons.IH [OF s]
  from ih have lt: "sc_next c < sc_next c1" by simp
  have "[sc_next c..<sc_next c1] = sc_next c # rs1" using ih lt by (simp add: upt_conv_Cons del: upt_Suc)
  moreover have "sc_heap c1 (sc_next c) = i" using ih by simp
  moreover have "map (sc_heap c1) rs1 = is" using ih by blast
  ultimately have "map (sc_heap c1) (sc_next c # rs1) = i # is" by simp
  with \<open>[sc_next c..<sc_next c1] = sc_next c # rs1\<close> show ?case unfolding eq using ih by (simp del: upt_Suc list.map)
qed simp

lemma index_endpoints_fields [simp]:
  "sc_heap (index_endpoints r c) = sc_heap c" "sc_next (index_endpoints r c) = sc_next c"
  "sc_lists (index_endpoints r c) = sc_lists c" "sc_maps (index_endpoints r c) = sc_maps c"
  by (simp_all add: index_endpoints_def)

lemma index_all_fields [simp]:
  "sc_heap (fold index_endpoints rs c) = sc_heap c" "sc_next (fold index_endpoints rs c) = sc_next c"
  "sc_lists (fold index_endpoints rs c) = sc_lists c" "sc_maps (fold index_endpoints rs c) = sc_maps c"
  by (induction rs arbitrary: c) simp_all

lemma drop_endpoints_fields [simp]:
  "sc_heap (drop_endpoints A c) = sc_heap c" "sc_next (drop_endpoints A c) = sc_next c"
  "sc_lists (drop_endpoints A c) = sc_lists c" "sc_maps (drop_endpoints A c) = sc_maps c"
  by (simp_all add: drop_endpoints_def)

lemma set_role_fields [simp]:
  "sc_heap (set_role \<rho> rs m c) = sc_heap c" "sc_next (set_role \<rho> rs m c) = sc_next c"
  "sc_lists (set_role \<rho> rs m c) = (sc_lists c)(\<rho> := rs)" "sc_maps (set_role \<rho> rs m c) = (sc_maps c)(\<rho> := m)"
  by (simp_all add: set_role_def)

text \<open>Only lists, maps and what the heap holds besides workloads matter.\<close>

lemma id_of_reset: "id_of c r = ins_id (reset_workload (sc_heap c r))"
  by (simp add: id_of_def reset_workload_def map_endpoints_def)

lemma insort_key_cong: "\<forall>y \<in> set (x # xs). f y = g y \<Longrightarrow> insort_key f x xs = insort_key g x xs"
  by (induction xs) auto

lemma sort_key_congruent: "\<forall>x \<in> set xs. f x = g x \<Longrightarrow> sort_key f xs = sort_key g xs"
proof (induction xs)
  case (Cons x xs)
  then have "sort_key f xs = sort_key g xs" by simp
  moreover have "insort_key f x (sort_key g xs) = insort_key g x (sort_key g xs)" using Cons.prems by (intro insort_key_cong) simp
  ultimately show ?case by simp
qed simp

lemma id_of_cong: "sc_heap c' = sc_heap c \<Longrightarrow> id_of c' = id_of c"
  by (simp add: id_of_def fun_eq_iff)

lemma wcache_cong:
  assumes "\<And>r. r < sc_next c \<Longrightarrow> reset_workload (sc_heap c' r) = reset_workload (sc_heap c r)" "sc_next c \<le> sc_next c'"
    "sc_lists c' = sc_lists c" "sc_maps c' = sc_maps c" and ok: "wcache_ok rl c"
  shows "wcache_ok rl c'" "cache_view rl c' = cache_view rl c"
proof -
  have ids: "id_of c' r = id_of c r" if "r < sc_next c" for r using assms(1) that by (simp add: id_of_reset)
  have vals: "r < sc_next c" if "r \<in> set (dvalues (sc_maps c \<rho>))" for r \<rho>
    using that wcache_okD(1,3) [OF ok] by force
  have "sorted_refs c' (dvalues (sc_maps c \<rho>)) = sorted_refs c (dvalues (sc_maps c \<rho>))" for \<rho>
    unfolding sorted_refs_def by (rule sort_key_congruent) (use vals ids in blast)
  with ok show "wcache_ok rl c'" unfolding wcache_ok_def assms(3,4) using assms(2) ids by (metis le_less_trans less_le_trans)
  show "cache_view rl c' = cache_view rl c"
    unfolding cache_view_def fun_eq_iff assms(4) using assms(1) wcache_okD(3) [OF ok] by (auto intro!: option.map_cong)
qed

lemma wcache_set_role:
  assumes ok: "wcache_ok rl c" and m: "dict_ok m" "\<forall>n r. dget m n = Some r \<longrightarrow> rl n = \<rho> \<and> id_of c r = n \<and> r < sc_next c"
    and rs: "rs = sorted_refs c (dvalues m)"
  shows "wcache_ok rl (set_role \<rho> rs m c)"
    and "cache_view rl (set_role \<rho> rs m c) n = (if rl n = \<rho> then map_option (\<lambda>r. reset_workload (sc_heap c r)) (dget m n) else cache_view rl c n)"
proof -
  let ?c = "set_role \<rho> rs m c"
  have ids: "id_of ?c = id_of c" by (rule id_of_cong) simp
  show "wcache_ok rl ?c" unfolding wcache_ok_def sorted_refs_def ids
  proof (intro allI)
    fix \<rho>'
    show "dict_ok (sc_maps ?c \<rho>') \<and> sc_lists ?c \<rho>' = sort_key (id_of c) (dvalues (sc_maps ?c \<rho>')) \<and>
      (\<forall>n r. dget (sc_maps ?c \<rho>') n = Some r \<longrightarrow> rl n = \<rho>' \<and> id_of c r = n \<and> r < sc_next ?c)"
      using m rs wcache_okD [OF ok, of \<rho>', unfolded sorted_refs_def]
      by (cases "\<rho>' = \<rho>") (simp_all add: sorted_refs_def del: map_of_eq_Some_iff)
  qed
  show "cache_view rl ?c n = (if rl n = \<rho> then map_option (\<lambda>r. reset_workload (sc_heap c r)) (dget m n) else cache_view rl c n)"
    by (simp add: cache_view_def)
qed


section \<open>Removing and inserting\<close>

text \<open>What a change of the pool does to a map from ids to instances.\<close>

definition upsert :: "instance_obj \<Rightarrow> (int \<rightharpoonup> instance_obj) \<Rightarrow> (int \<rightharpoonup> instance_obj)" where
  "upsert i Q = Q(ins_id i := Some (reset_workload i))"

definition discard :: "instance_obj \<Rightarrow> (int \<rightharpoonup> instance_obj) \<Rightarrow> (int \<rightharpoonup> instance_obj)" where
  "discard i Q = Q(ins_id i := None)"

definition same_objects :: "sched_cache \<Rightarrow> sched_cache \<Rightarrow> bool" where
  "same_objects c c' \<longleftrightarrow> sc_heap c' = sc_heap c \<and> sc_next c' = sc_next c"

lemma same_objects_trans: "same_objects a b \<Longrightarrow> same_objects b c \<Longrightarrow> same_objects a c"
  by (simp add: same_objects_def)

lemma same_objects_id: "same_objects c c' \<Longrightarrow> id_of c' = id_of c"
  unfolding same_objects_def by (blast intro: id_of_cong)

lemma wcache_drop:
  assumes "wcache_ok rl c"
  shows "wcache_ok rl (drop_endpoints A c)" "cache_view rl (drop_endpoints A c) = cache_view rl c"
  by (rule wcache_cong [OF _ _ _ _ assms]; simp)+

lemma wcache_index:
  assumes "wcache_ok rl c"
  shows "wcache_ok rl (index_endpoints r c)" "cache_view rl (index_endpoints r c) = cache_view rl c"
  by (rule wcache_cong [OF _ _ _ _ assms]; simp)+

lemma wcache_index_all:
  assumes "wcache_ok rl c"
  shows "wcache_ok rl (fold index_endpoints rs c)" "cache_view rl (fold index_endpoints rs c) = cache_view rl c"
  by (rule wcache_cong [OF _ _ _ _ assms]; simp)+

lemma remove_from_role_ok:
  assumes ok: "wcache_ok rl c"
  shows "wcache_ok rl (remove_from_role iid \<rho> c)"
    "cache_view rl (remove_from_role iid \<rho> c) n = (if n = iid \<and> rl n = \<rho> then None else cache_view rl c n)"
    "same_objects c (remove_from_role iid \<rho> c)"
proof -
  let ?m = "ddel iid (sc_maps c \<rho>)"
  have m1: "dict_ok ?m" by (rule dict_ok_ddel) (rule wcache_okD(1) [OF ok])
  have "rl n = \<rho> \<and> id_of c r = n \<and> r < sc_next c" if "dget ?m n = Some r" for n r
    using that wcache_okD(3) [OF ok, of \<rho> n r] by (cases "n = iid") (simp_all del: map_of_eq_Some_iff)
  then have m2: "\<forall>n r. dget ?m n = Some r \<longrightarrow> rl n = \<rho> \<and> id_of c r = n \<and> r < sc_next c" by blast
  note set_ok = wcache_set_role [OF ok m1 m2 refl]
  show "wcache_ok rl (remove_from_role iid \<rho> c)" using ok set_ok(1) by (simp add: remove_from_role_def Let_def)
  show "cache_view rl (remove_from_role iid \<rho> c) n = (if n = iid \<and> rl n = \<rho> then None else cache_view rl c n)"
  proof (cases "dmem iid (sc_maps c \<rho>)")
    case True
    then show ?thesis using set_ok(2) [of n] by (simp add: remove_from_role_def Let_def cache_view_def)
  next
    case False
    then have "dget (sc_maps c \<rho>) iid = None" by (simp add: dmem_def)
    then show ?thesis using False by (auto simp: remove_from_role_def cache_view_def)
  qed
  show "same_objects c (remove_from_role iid \<rho> c)" by (simp add: remove_from_role_def Let_def same_objects_def)
qed

lemma remove_from_roles_ok:
  assumes "wcache_ok rl c"
  shows "wcache_ok rl (fold (remove_from_role iid) \<rho>s c) \<and> same_objects c (fold (remove_from_role iid) \<rho>s c) \<and>
    (\<forall>n. cache_view rl (fold (remove_from_role iid) \<rho>s c) n = (if n = iid \<and> rl n \<in> set \<rho>s then None else cache_view rl c n))"
  using assms
proof (induction \<rho>s arbitrary: c)
  case (Cons \<rho> \<rho>s)
  note r = remove_from_role_ok [OF Cons.prems, of iid \<rho>]
  show ?case using Cons.IH [OF r(1)] r(2,3) by (auto intro: same_objects_trans)
qed (simp add: same_objects_def)

lemma ROLES_all [simp]: "\<rho> \<in> set ROLES"
  by (cases \<rho>) (simp_all add: ROLES_def)

lemma remove_id_ok:
  assumes "wcache_ok rl c"
  shows "wcache_ok rl (remove_id iid c)" "cache_view rl (remove_id iid c) = (cache_view rl c)(iid := None)"
    "same_objects c (remove_id iid c)"
proof -
  note r = remove_from_roles_ok [OF assms, of iid ROLES]
  then have ok: "wcache_ok rl (fold (remove_from_role iid) ROLES c)" by blast
  show "wcache_ok rl (remove_id iid c)" unfolding remove_id_def by (rule wcache_drop(1) [OF ok])
  show "cache_view rl (remove_id iid c) = (cache_view rl c)(iid := None)"
    unfolding remove_id_def wcache_drop(2) [OF ok] using r by (simp add: fun_eq_iff)
  show "same_objects c (remove_id iid c)" using r by (simp add: remove_id_def same_objects_def)
qed

lemma insert_ref_ok:
  assumes ok: "wcache_ok rl c" and r: "r < sc_next c" and \<rho>: "rl (id_of c r) = \<rho>"
  shows "wcache_ok rl (insert_ref \<rho> r c)" "cache_view rl (insert_ref \<rho> r c) = upsert (sc_heap c r) (cache_view rl c)"
    "same_objects c (insert_ref \<rho> r c)"
proof -
  let ?c = "remove_id (id_of c r) c"
  let ?m = "dset (id_of c r) r (sc_maps ?c \<rho>)"
  note rm = remove_id_ok [OF ok, of "id_of c r"]
  have obj: "sc_heap ?c = sc_heap c" "sc_next ?c = sc_next c" using rm(3) by (simp_all add: same_objects_def)
  have ids: "id_of ?c = id_of c" by (rule same_objects_id [OF rm(3)])
  have m1: "dict_ok ?m" by (rule dict_ok_dset) (rule wcache_okD(1) [OF rm(1)])
  have "rl n = \<rho> \<and> id_of ?c r' = n \<and> r' < sc_next ?c" if get: "dget ?m n = Some r'" for n r'
  proof (cases "n = id_of c r")
    case True
    then have "r' = r" using get by (simp only: dget_dset) simp
    then show ?thesis using True r \<rho> by (simp add: ids obj(2))
  next
    case False
    then have "dget (sc_maps ?c \<rho>) n = Some r'" using get by (simp only: dget_dset if_False)
    then show ?thesis by (rule wcache_okD(3) [OF rm(1)])
  qed
  then have m2: "\<forall>n r'. dget ?m n = Some r' \<longrightarrow> rl n = \<rho> \<and> id_of ?c r' = n \<and> r' < sc_next ?c" by blast
  note set_ok = wcache_set_role [OF rm(1) m1 m2 refl]
  have eq: "insert_ref \<rho> r c = index_endpoints r (set_role \<rho> (sorted_refs ?c (dvalues ?m)) ?m ?c)"
    by (simp add: insert_ref_def Let_def)
  show "wcache_ok rl (insert_ref \<rho> r c)" unfolding eq by (rule wcache_index(1) [OF set_ok(1)])
  have view: "cache_view rl (set_role \<rho> (sorted_refs ?c (dvalues ?m)) ?m ?c) n = upsert (sc_heap c r) (cache_view rl c) n" for n
  proof -
    have "cache_view rl ?c n = ((cache_view rl c)(id_of c r := None)) n" by (simp only: rm(2))
    then show ?thesis using \<rho> by (cases "n = id_of c r") (auto simp: cache_view_def upsert_def obj simp flip: id_of_def)
  qed
  show "cache_view rl (insert_ref \<rho> r c) = upsert (sc_heap c r) (cache_view rl c)"
    unfolding eq by (rule trans [OF wcache_index(2) [OF set_ok(1)]]) (rule ext, rule view)
  show "same_objects c (insert_ref \<rho> r c)" using obj by (simp add: eq same_objects_def)
qed


section \<open>Deltas\<close>

definition sound_role :: "(int \<Rightarrow> pd_role) \<Rightarrow> instance_obj \<Rightarrow> bool" where
  "sound_role rl i \<longleftrightarrow> role_class (ins_role i) = Some (rl (ins_id i))"

definition role_texts :: "(string \<times> pd_role) list" where
  "role_texts = [(''encode'', ROLE_E), (''prefill'', ROLE_P), (''decode'', ROLE_D), (''union'', ROLE_U), (''both'', ROLE_U), (''hybrid'', ROLE_U)]"

lemma role_of_texts: "\<forall>(v, \<rho>) \<in> set role_texts.
    (let u = lower (strip v) in if u = ''hybrid'' then Some ROLE_U else (case pd_role_of u of Inl _ \<Rightarrow> None | Inr \<rho> \<Rightarrow> Some \<rho>)) = Some \<rho>"
  by code_simp

lemma sound_role_of:
  assumes "sound_role rl i"
  shows "role_of i = Some (rl (ins_id i))"
proof -
  have "(ins_role i, rl (ins_id i)) \<in> set role_texts"
    using assms by (auto simp: sound_role_def role_class_def role_texts_def split: if_splits)
  from bspec [OF role_of_texts this] show ?thesis by (simp only: role_of_def prod.case)
qed

lemma insert_refs_ok:
  assumes "wcache_ok rl c" "\<forall>r \<in> set rs. r < sc_next c \<and> sound_role rl (sc_heap c r)"
  shows "wcache_ok rl (fold (\<lambda>r c. insert_ref (the (role_of (sc_heap c r))) r c) rs c) \<and>
    cache_view rl (fold (\<lambda>r c. insert_ref (the (role_of (sc_heap c r))) r c) rs c) = fold upsert (map (sc_heap c) rs) (cache_view rl c)"
  using assms
proof (induction rs arbitrary: c)
  case (Cons r rs)
  let ?\<rho> = "the (role_of (sc_heap c r))"
  have "rl (id_of c r) = ?\<rho>" using Cons.prems sound_role_of [of rl "sc_heap c r"] by (simp add: id_of_def)
  from insert_ref_ok [OF Cons.prems(1) _ this] Cons.prems
  have r: "wcache_ok rl (insert_ref ?\<rho> r c)" "cache_view rl (insert_ref ?\<rho> r c) = upsert (sc_heap c r) (cache_view rl c)"
    "sc_heap (insert_ref ?\<rho> r c) = sc_heap c" "sc_next (insert_ref ?\<rho> r c) = sc_next c" by (simp_all add: same_objects_def)
  show ?case using Cons.IH [OF r(1)] Cons.prems(2) by (simp add: r)
qed simp

lemma remove_ids_ok:
  assumes "wcache_ok rl c"
  shows "wcache_ok rl (apply_remove rs c) \<and> cache_view rl (apply_remove rs c) = fold discard (map (sc_heap c) rs) (cache_view rl c)"
  unfolding apply_remove_def using assms
proof (induction rs arbitrary: c)
  case (Cons r rs)
  note r = remove_id_ok [OF Cons.prems, of "id_of c r"]
  have "sc_heap (remove_id (id_of c r) c) = sc_heap c" using r(3) by (simp add: same_objects_def)
  then show ?case using Cons.IH [OF r(1)] r(2) by (simp add: discard_def id_of_def)
qed simp

lemma apply_add_ok:
  assumes "wcache_ok rl c" "\<forall>r \<in> set rs. r < sc_next c \<and> sound_role rl (sc_heap c r)"
  shows "\<exists>c'. apply_add rs c = (c', True) \<and> wcache_ok rl c' \<and> cache_view rl c' = fold upsert (map (sc_heap c) rs) (cache_view rl c)"
  using insert_refs_ok [OF assms] assms(2) sound_role_of unfolding apply_add_def list_ex_iff by fastforce

lemma store_ok:
  assumes ok: "wcache_ok rl c" and st: "store_instances is c = (c1, rs)"
  shows "wcache_ok rl c1" "cache_view rl c1 = cache_view rl c" "\<forall>r \<in> set rs. r < sc_next c1" "map (sc_heap c1) rs = is"
proof -
  note f = store_instances_fields [OF st]
  show "wcache_ok rl c1" "cache_view rl c1 = cache_view rl c" by (rule wcache_cong [OF _ _ _ _ ok]; use f in simp)+
  show "\<forall>r \<in> set rs. r < sc_next c1" "map (sc_heap c1) rs = is" using f by auto
qed

section \<open>Pulls\<close>

lemma fold_dset_distinct:
  "distinct (map f rs) \<Longrightarrow> \<forall>r \<in> set rs. dget d (f r) = None \<Longrightarrow> fold (\<lambda>r d. dset (f r) r d) rs d = d @ map (\<lambda>r. (f r, r)) rs"
proof (induction rs arbitrary: d)
  case (Cons r rs)
  have "fold (\<lambda>r d. dset (f r) r d) rs (d @ [(f r, r)]) = (d @ [(f r, r)]) @ map (\<lambda>r. (f r, r)) rs"
    by (rule Cons.IH) (use Cons.prems in \<open>auto simp: map_of_append map_add_def image_iff\<close>)
  then show ?case using Cons.prems by (simp add: dset_fresh)
qed simp

lemma fold_dset_found:
  assumes "dict_ok d" "\<forall>n r. dget d n = Some r \<longrightarrow> f r = n"
  shows "dict_ok (fold (\<lambda>r d. dset (f r) r d) rs d) \<and> (\<forall>n r. dget (fold (\<lambda>r d. dset (f r) r d) rs d) n = Some r \<longrightarrow> f r = n)"
  using assms
proof (induction rs arbitrary: d)
  case (Cons r rs)
  have "dict_ok (dset (f r) r d)" using Cons.prems(1) by (rule dict_ok_dset)
  moreover have "\<forall>n r'. dget (dset (f r) r d) n = Some r' \<longrightarrow> f r' = n"
    using Cons.prems(2) by (metis dget_dset option.inject)
  ultimately show ?case unfolding fold.simps comp_apply by (rule Cons.IH)
qed simp

lemma fold_dset_values: "set (dvalues (fold (\<lambda>r d. dset (f r) r d) rs d)) \<subseteq> set rs \<union> set (dvalues d)"
proof (induction rs arbitrary: d)
  case (Cons r rs)
  have "set (dvalues (dset (f r) r d)) \<subseteq> insert r (set (dvalues d))" by (auto dest!: set_dset)
  with Cons.IH [of "dset (f r) r d"] show ?case by auto
qed simp

lemma fold_dset_upsert:
  "(\<lambda>n. map_option (\<lambda>r. reset_workload (sc_heap c r)) (dget (fold (\<lambda>r d. dset (id_of c r) r d) rs d) n)) =
     fold upsert (map (sc_heap c) rs) (\<lambda>n. map_option (\<lambda>r. reset_workload (sc_heap c r)) (dget d n))"
proof (induction rs arbitrary: d)
  case (Cons r rs)
  have "(\<lambda>n. map_option (\<lambda>r. reset_workload (sc_heap c r)) (dget (dset (id_of c r) r d) n)) =
      upsert (sc_heap c r) (\<lambda>n. map_option (\<lambda>r. reset_workload (sc_heap c r)) (dget d n))"
    by (simp add: fun_eq_iff upsert_def id_of_def)
  with Cons.IH [of "dset (id_of c r) r d"] show ?case by (simp only: fold.simps list.map comp_apply)
qed simp


lemma sort_key_sorted: "sorted (map f xs) \<Longrightarrow> sort_key f xs = xs"
  by (induction xs) (auto simp: insort_is_Cons)

lemma dget_tabulate:
  "distinct (map f rs) \<Longrightarrow> dget (map (\<lambda>r. (f r, r)) rs) n = Some r \<longleftrightarrow> r \<in> set rs \<and> f r = n"
  by (subst map_of_eq_Some_iff) (auto simp: comp_def)

lemma apply_role_ok:
  assumes ok: "wcache_ok rl c" and so: "sorted (map (id_of c) rs)" and di: "distinct (map (id_of c) rs)"
    and rs: "\<forall>r \<in> set rs. r < sc_next c \<and> rl (id_of c r) = \<rho>"
  shows "wcache_ok rl (apply_role \<rho> rs c)" "same_objects c (apply_role \<rho> rs c)"
    "cache_view rl (apply_role \<rho> rs c) n =
       (if rl n = \<rho> then map_option (\<lambda>r. reset_workload (sc_heap c r)) (dget (map (\<lambda>r. (id_of c r, r)) rs) n) else cache_view rl c n)"
proof -
  let ?m = "map (\<lambda>r. (id_of c r, r)) rs"
  have built: "fold (\<lambda>r d. dset (id_of c r) r d) rs [] = ?m" using fold_dset_distinct [OF di, of "[]"] by simp
  have m1: "dict_ok ?m" using di by (simp add: comp_def)
  have m2: "\<forall>n r. dget ?m n = Some r \<longrightarrow> rl n = \<rho> \<and> id_of c r = n \<and> r < sc_next c" using rs unfolding dget_tabulate [OF di] by blast
  have list: "rs = sorted_refs c (dvalues ?m)" using so by (simp add: sorted_refs_def comp_def sort_key_sorted)
  note set_ok = wcache_set_role [OF ok m1 m2 list]
  note dr = wcache_drop [OF set_ok(1), of "set (dkeys (sc_maps c \<rho>))"]
  note ix = wcache_index_all [OF dr(1), of rs]
  show "wcache_ok rl (apply_role \<rho> rs c)" unfolding apply_role_def built by (rule ix(1))
  show "same_objects c (apply_role \<rho> rs c)" by (simp add: apply_role_def same_objects_def)
  show "cache_view rl (apply_role \<rho> rs c) n =
       (if rl n = \<rho> then map_option (\<lambda>r. reset_workload (sc_heap c r)) (dget (map (\<lambda>r. (id_of c r, r)) rs) n) else cache_view rl c n)"
    unfolding apply_role_def built ix(2) dr(2) by (rule set_ok(2))
qed

text \<open>What a pull found: ids, objects that exist, roles as they should be.\<close>

definition found_ok :: "(int \<Rightarrow> pd_role) \<Rightarrow> (int, iref) dict \<Rightarrow> sched_cache \<Rightarrow> bool" where
  "found_ok rl found c \<longleftrightarrow> dict_ok found \<and>
     (\<forall>n r. dget found n = Some r \<longrightarrow> id_of c r = n \<and> r < sc_next c \<and> role_class (ins_role (sc_heap c r)) = Some (rl n))"

lemma found_ok_cong: "same_objects c c' \<Longrightarrow> found_ok rl found c' = found_ok rl found c"
  using same_objects_id [of c c'] by (simp add: found_ok_def same_objects_def)

lemma found_value: "found_ok rl found c \<Longrightarrow> r \<in> set (dvalues found) \<longleftrightarrow> dget found (id_of c r) = Some r"
  unfolding found_ok_def by (metis dget_value_in dvalue_has_key)

lemma found_class: "found_ok rl found c \<Longrightarrow> r \<in> set (dvalues found) \<Longrightarrow> role_class (ins_role (sc_heap c r)) = Some (rl (id_of c r))"
  using found_value unfolding found_ok_def by blast

lemma found_distinct:
  assumes "found_ok rl found c"
  shows "distinct (map (id_of c) (dvalues found))"
proof -
  have "map (id_of c) (dvalues found) = dkeys found"
    unfolding map_map comp_def using assms by (intro map_cong refl) (force simp: found_ok_def)
  then show ?thesis using assms unfolding found_ok_def by presburger
qed

lemma sorted_refs_facts: "sorted (map (id_of c) (sorted_refs c rs))" "set (sorted_refs c rs) = set rs"
  "distinct (map (id_of c) rs) \<Longrightarrow> distinct (map (id_of c) (sorted_refs c rs))"
  by (simp_all add: sorted_refs_def distinct_map)

lemma pull_role_ok:
  assumes ok: "wcache_ok rl c" and fo: "found_ok rl found c"
    and sel: "set vs = {r \<in> set (dvalues found). rl (id_of c r) = \<rho>}" "distinct (map (id_of c) vs)"
  shows "wcache_ok rl (apply_role \<rho> (sorted_refs c vs) c)" "same_objects c (apply_role \<rho> (sorted_refs c vs) c)"
    "cache_view rl (apply_role \<rho> (sorted_refs c vs) c) n =
       (if rl n = \<rho> then map_option (\<lambda>r. reset_workload (sc_heap c r)) (dget found n) else cache_view rl c n)"
proof -
  have rs: "\<forall>r \<in> set (sorted_refs c vs). r < sc_next c \<and> rl (id_of c r) = \<rho>"
    using fo found_value [OF fo] by (auto simp: sorted_refs_facts(2) sel(1) found_ok_def simp del: map_of_eq_Some_iff)
  note ap = apply_role_ok [OF ok sorted_refs_facts(1) sorted_refs_facts(3) [OF sel(2)] rs]
  show "wcache_ok rl (apply_role \<rho> (sorted_refs c vs) c)" "same_objects c (apply_role \<rho> (sorted_refs c vs) c)" by (rule ap)+
  have "dget (map (\<lambda>r. (id_of c r, r)) (sorted_refs c vs)) n = Some r \<longleftrightarrow> dget found n = Some r" if "rl n = \<rho>" for r
    unfolding dget_tabulate [OF sorted_refs_facts(3) [OF sel(2)]] sorted_refs_facts(2) sel(1)
    using fo found_value [OF fo] that by (auto simp: found_ok_def simp del: map_of_eq_Some_iff)
  then have "dget (map (\<lambda>r. (id_of c r, r)) (sorted_refs c vs)) n = dget found n" if "rl n = \<rho>"
    using that by (metis option.exhaust)
  then show "cache_view rl (apply_role \<rho> (sorted_refs c vs) c) n =
       (if rl n = \<rho> then map_option (\<lambda>r. reset_workload (sc_heap c r)) (dget found n) else cache_view rl c n)"
    unfolding ap(3) by simp
qed


lemma pull_roles_ok:
  assumes "wcache_ok rl c" "found_ok rl found c" "distinct \<rho>s"
  defines "step \<equiv> \<lambda>\<rho> c. apply_role \<rho> (sorted_refs c (filter (\<lambda>r. role_class (ins_role (sc_heap c r)) = Some \<rho>) (dvalues found))) c"
  shows "wcache_ok rl (fold step \<rho>s c) \<and> (\<forall>n. cache_view rl (fold step \<rho>s c) n =
    (if rl n \<in> set \<rho>s then map_option (\<lambda>r. reset_workload (sc_heap c r)) (dget found n) else cache_view rl c n))"
  using assms(1-3)
proof (induction \<rho>s arbitrary: c)
  case (Cons \<rho> \<rho>s)
  let ?vs = "filter (\<lambda>r. role_class (ins_role (sc_heap c r)) = Some \<rho>) (dvalues found)"
  have "set ?vs = {r \<in> set (dvalues found). rl (id_of c r) = \<rho>}"
    unfolding set_filter using found_class [OF Cons.prems(2)] by (metis (no_types, lifting) option.inject)
  moreover have "distinct (map (id_of c) ?vs)" by (rule distinct_map_filter [OF found_distinct [OF Cons.prems(2)]])
  ultimately have p: "wcache_ok rl (step \<rho> c)" "same_objects c (step \<rho> c)"
    "cache_view rl (step \<rho> c) n = (if rl n = \<rho> then map_option (\<lambda>r. reset_workload (sc_heap c r)) (dget found n) else cache_view rl c n)" for n
    unfolding step_def by (rule pull_role_ok [OF Cons.prems(1,2)])+
  have "found_ok rl found (step \<rho> c)" using Cons.prems(2) found_ok_cong [OF p(2)] by simp
  moreover have "sc_heap (step \<rho> c) = sc_heap c" using p(2) by (simp add: same_objects_def)
  ultimately show ?case using Cons.IH [OF p(1)] Cons.prems(3) by (auto simp: p(3))
qed simp

text \<open>The answer to a pull, as a map from ids to instances.\<close>

definition pool_of :: "instance_obj list \<Rightarrow> (int \<rightharpoonup> instance_obj)" where
  "pool_of is = fold upsert is Map.empty"

lemma fold_upsert_range: "fold upsert is Q n = Some i \<Longrightarrow> Q n = Some i \<or> (\<exists>j \<in> set is. i = reset_workload j \<and> ins_id j = n)"
  by (induction "is" arbitrary: Q) (fastforce simp: upsert_def split: if_splits)+

lemma found_pool:
  assumes "store_instances is c = (c1, rs)" "\<forall>i \<in> set is. sound_role rl i"
  defines "found \<equiv> fold (\<lambda>r d. dset (id_of c1 r) r d) rs []"
  shows "found_ok rl found c1" "(\<lambda>n. map_option (\<lambda>r. reset_workload (sc_heap c1 r)) (dget found n)) = pool_of is"
proof -
  note f = store_instances_fields [OF assms(1)]
  then have objs: "map (sc_heap c1) rs = is" by blast
  have "set (dvalues found) \<subseteq> set rs" unfolding found_def using fold_dset_values [of "id_of c1" rs "[]"] by simp
  moreover have "r < sc_next c1 \<and> sound_role rl (sc_heap c1 r)" if "r \<in> set rs" for r
    using that f assms(2) by (metis atLeastLessThan_iff imageI set_map set_upt)
  ultimately have "r < sc_next c1 \<and> sound_role rl (sc_heap c1 r)" if "dget found n = Some r" for n r
    using that dget_value_in by fastforce
  moreover have "dict_ok found \<and> (\<forall>n r. dget found n = Some r \<longrightarrow> id_of c1 r = n)"
    unfolding found_def by (rule fold_dset_found) simp_all
  ultimately show "found_ok rl found c1" unfolding found_ok_def sound_role_def id_of_def by metis
  show "(\<lambda>n. map_option (\<lambda>r. reset_workload (sc_heap c1 r)) (dget found n)) = pool_of is"
    unfolding found_def fold_dset_upsert pool_of_def objs by simp
qed

lemma get_all_ok:
  fixes shm :: "(string \<times> nat option) option"
  assumes ok: "wcache_ok rl (wk_cache w)" and so: "\<forall>i \<in> set is. sound_role rl i"
  defines "w' \<equiv> fst (wk_get_available_instances None (GET_SUCCESS (map Some is) shm) w)"
  shows "wcache_ok rl (wk_cache w')" "cache_view rl (wk_cache w') = pool_of is"
proof -
  obtain c1 rs where st: "store_instances is (wk_cache w) = (c1, rs)" by fastforce
  let ?found = "fold (\<lambda>r d. dset (id_of c1 r) r d) rs []"
  note fo = found_pool [OF st so]
  have mf: "List.map_filter id (map Some is) = is" by (simp add: List.map_filter_def comp_def)
  have w': "wk_cache w' = replace_all_roles ?found c1" by (simp add: w'_def wk_get_available_instances_def mf st Let_def)
  have "distinct ROLES" by (simp add: ROLES_def)
  note pull = pull_roles_ok [OF store_ok(1) [OF ok st] fo(1) this, folded replace_all_roles_def]
  then show "wcache_ok rl (wk_cache w')" unfolding w' by blast
  have "cache_view rl (wk_cache w') n = pool_of is n" for n
    unfolding w' fo(2) [symmetric] using pull by simp
  then show "cache_view rl (wk_cache w') = pool_of is" by (rule ext)
qed

lemma get_role_ok:
  fixes shm :: "(string \<times> nat option) option"
  assumes ok: "wcache_ok rl (wk_cache w)" and so: "\<forall>i \<in> set is. sound_role rl i \<and> rl (ins_id i) = \<rho>"
  defines "w' \<equiv> fst (wk_get_available_instances (Some \<rho>) (GET_SUCCESS (map Some is) shm) w)"
  shows "wcache_ok rl (wk_cache w')"
    "cache_view rl (wk_cache w') n = (if rl n = \<rho> then pool_of is n else cache_view rl (wk_cache w) n)"
proof -
  obtain c1 rs where st: "store_instances is (wk_cache w) = (c1, rs)" by fastforce
  let ?found = "fold (\<lambda>r d. dset (id_of c1 r) r d) rs []"
  have so': "\<forall>i \<in> set is. sound_role rl i" using so by blast
  note fo = found_pool [OF st so']
  have mf: "List.map_filter id (map Some is) = is" by (simp add: List.map_filter_def comp_def)
  have w': "wk_cache w' = apply_role \<rho> (sorted_refs c1 (dvalues ?found)) c1"
    by (simp add: w'_def wk_get_available_instances_def mf st Let_def)
  have "\<forall>r \<in> set rs. rl (id_of c1 r) = \<rho>" using so store_ok(4) [OF ok st] unfolding id_of_def by (metis imageI set_map)
  then have "set (dvalues ?found) = {r \<in> set (dvalues ?found). rl (id_of c1 r) = \<rho>}"
    using fold_dset_values [of "id_of c1" rs "[]"] by auto
  note pull = pull_role_ok [OF store_ok(1) [OF ok st] fo(1) this found_distinct [OF fo(1)]]
  show "wcache_ok rl (wk_cache w')" unfolding w' by (rule pull(1))
  show "cache_view rl (wk_cache w') n = (if rl n = \<rho> then pool_of is n else cache_view rl (wk_cache w) n)"
    unfolding w' fo(2) [symmetric] pull(3) store_ok(2) [OF ok st] ..
qed

end
