(* ===== verification/Worker_Convergence.thy ===== *)
theory Worker_Convergence
  imports Worker_Correctness
begin

text \<open>
  Runs of a worker next to the scheduler. The pool of the scheduler is a sequence \<open>P\<close> of versions and \<open>D\<close> tells with which event a version was
  published. Notifications arrive in any order, any number of times or not at all, shared memory is read at any version reached so far, and
  a pull returns some version between the one it is recorded under and the newest. What the cache then shows is, id by id, a
  version that is not older than the recorded one; when the newest version is recorded the cache is the pool.
\<close>

section \<open>Workloads from shared memory\<close>

lemma patch_object:
  "reset_workload (sc_heap (patch_workload_from_shm p c) r) = reset_workload (sc_heap c r)"
  by (auto simp: patch_workload_from_shm_def Let_def reset_write_endpoint split: prod.splits option.splits)

lemma patch_fields:
  "sc_next (patch_workload_from_shm p c) = sc_next c" "sc_lists (patch_workload_from_shm p c) = sc_lists c"
  "sc_maps (patch_workload_from_shm p c) = sc_maps c"
  by (auto simp: patch_workload_from_shm_def Let_def split: prod.splits option.splits)

lemma patches_ok:
  assumes "wcache_ok rl c"
  shows "wcache_ok rl (fold patch_workload_from_shm ps c) \<and> cache_view rl (fold patch_workload_from_shm ps c) = cache_view rl c"
  using assms
proof (induction ps arbitrary: c)
  case (Cons p ps)
  have "wcache_ok rl (patch_workload_from_shm p c)" "cache_view rl (patch_workload_from_shm p c) = cache_view rl c"
    by (rule wcache_cong [OF _ _ _ _ Cons.prems]; simp add: patch_object patch_fields)+
  then show ?case using Cons.IH by simp
qed simp

section \<open>Histories and runs\<close>

definition delta_at :: "(nat \<Rightarrow> event_type \<times> instance_obj list) \<Rightarrow> nat \<Rightarrow> instance_delta option" where
  "delta_at D k = build_instance_delta (fst (D k)) (snd (D k))"

definition change :: "event_type \<times> instance_obj list \<Rightarrow> (int \<rightharpoonup> instance_obj) \<Rightarrow> (int \<rightharpoonup> instance_obj)" where
  "change d Q = (if fst d = ADD then fold upsert (snd d) Q else fold discard (snd d) Q)"

definition history_ok :: "(int \<Rightarrow> pd_role) \<Rightarrow> (nat \<Rightarrow> int \<rightharpoonup> instance_obj) \<Rightarrow> (nat \<Rightarrow> event_type \<times> instance_obj list) \<Rightarrow> bool" where
  "history_ok rl P D \<longleftrightarrow>
     (\<forall>k. (\<forall>i \<in> set (snd (D k)). sound_role rl i) \<and>
        (fst (D (Suc k)) \<in> {ADD, DEL} \<and> snd (D (Suc k)) \<noteq> [] \<longrightarrow> P (Suc k) = change (D (Suc k)) (P k)))"

definition answers :: "(int \<Rightarrow> pd_role) \<Rightarrow> (int \<rightharpoonup> instance_obj) \<Rightarrow> get_response \<Rightarrow> bool" where
  "answers rl Q resp \<longleftrightarrow>
     (\<exists>is shm. resp = GET_SUCCESS (map Some is) shm \<and> (\<forall>i \<in> set is. sound_role rl i) \<and> pool_of is = Q)"

text \<open>
  A reading of shared memory that finds no version recorded records the version it reads without a pull; in a run it has to find the cache
  at that version.
\<close>

inductive wstep :: "(int \<Rightarrow> pd_role) \<Rightarrow> (nat \<Rightarrow> int \<rightharpoonup> instance_obj) \<Rightarrow> (nat \<Rightarrow> event_type \<times> instance_obj list) \<Rightarrow>
    nat \<times> worker \<Rightarrow> nat \<times> worker \<Rightarrow> bool" for rl P D where
  published: "wstep rl P D (N, w) (Suc N, w)"
| notified: "k \<le> j \<Longrightarrow> j \<le> N \<Longrightarrow> answers rl (P j) resp \<Longrightarrow>
    wstep rl P D (N, w) (N, on_instance_change_notify (Some (int k)) (delta_at D k) resp w)"
| memory_read: "k \<le> j \<Longrightarrow> j \<le> N \<Longrightarrow> answers rl (P j) resp \<Longrightarrow>
    (case res of None \<Rightarrow> True | Some (h, _) \<Rightarrow> h_instance_version h = int k) \<Longrightarrow>
    (wk_last_version w = None \<longrightarrow> cache_view rl (wk_cache w) = P k) \<Longrightarrow>
    wstep rl P D (N, w) (N, refresh_cache_from_workload_reader t role res resp w)"
| pulled: "(\<forall>v. wk_last_version w = Some v \<longrightarrow> v \<le> int j) \<Longrightarrow> j \<le> N \<Longrightarrow> answers rl (P j) resp \<Longrightarrow>
    wstep rl P D (N, w) (N, fst (wk_get_available_instances None resp w))"
| pulled_role: "(\<forall>v. wk_last_version w = Some v \<longrightarrow> v \<le> int j) \<Longrightarrow> j \<le> N \<Longrightarrow>
    answers rl (\<lambda>n. if rl n = \<rho> then P j n else None) resp \<Longrightarrow>
    wstep rl P D (N, w) (N, fst (wk_get_available_instances (Some \<rho>) resp w))"
| breaker: "wstep rl P D (N, w) (N, on_circuit_breaker_change iid st w)"

section \<open>The invariant\<close>

definition follows :: "(int \<Rightarrow> pd_role) \<Rightarrow> (nat \<Rightarrow> int \<rightharpoonup> instance_obj) \<Rightarrow> nat \<times> worker \<Rightarrow> bool" where
  "follows rl P s \<longleftrightarrow> (case s of (N, w) \<Rightarrow>
     wcache_ok rl (wk_cache w) \<and>
     (\<forall>v. wk_last_version w = Some v \<longrightarrow>
        (\<exists>k \<le> N. v = int k \<and> (\<forall>n. \<exists>x. k \<le> x \<and> x \<le> N \<and> cache_view rl (wk_cache w) n = P x n))))"

lemma follows_at:
  assumes "wcache_ok rl (wk_cache w)" "k \<le> j" "j \<le> N" "cache_view rl (wk_cache w) = P j"
    "wk_last_version w = None \<or> wk_last_version w = Some (int k)"
  shows "follows rl P (N, w)"
proof -
  have "\<exists>x. k \<le> x \<and> x \<le> N \<and> cache_view rl (wk_cache w) n = P x n" for n using assms(2-4) by (intro exI [of _ j]) simp
  moreover have "k \<le> N" using assms(2,3) by simp
  ultimately show ?thesis using assms(1,5) unfolding follows_def by auto
qed

lemma get_all_answer:
  assumes "wcache_ok rl (wk_cache w)" "answers rl Q resp"
  shows "wcache_ok rl (wk_cache (fst (wk_get_available_instances None resp w)))"
    "cache_view rl (wk_cache (fst (wk_get_available_instances None resp w))) = Q"
  using assms get_all_ok unfolding answers_def by blast+

lemma attach_version: "wk_last_version (attach_reader shm w) = None \<or> wk_last_version (attach_reader shm w) = wk_last_version w"
  by (auto simp: attach_reader_def split: option.splits)

lemma get_version:
  "wk_last_version (fst (wk_get_available_instances role resp w)) = None \<or>
   wk_last_version (fst (wk_get_available_instances role resp w)) = wk_last_version w"
proof (cases resp)
  case (GET_SUCCESS data shm)
  obtain c1 rs where st: "store_instances (List.map_filter id data) (wk_cache w) = (c1, rs)" by fastforce
  have "wk_last_version (fst (wk_get_available_instances role resp w)) = wk_last_version (attach_reader shm (w\<lparr>wk_cache := c1\<rparr>))"
    by (simp add: wk_get_available_instances_def GET_SUCCESS st Let_def)
  then show ?thesis using attach_version [of shm "w\<lparr>wk_cache := c1\<rparr>"] by simp
qed (simp_all add: wk_get_available_instances_def)

lemma notify_refreshed_fields [simp]:
  "wk_cache (notify_instance_refreshed w) = wk_cache w" "wk_last_version (notify_instance_refreshed w) = wk_last_version w"
  by (simp_all add: notify_instance_refreshed_def)

text \<open>A change decides the ids it names and leaves the others alone.\<close>

lemma fold_upsert_at: "fold upsert is Q n = (if n \<in> ins_id ` set is then fold upsert is Map.empty n else Q n)"
proof (induction "is" arbitrary: Q)
  case (Cons i "is")
  show ?case using Cons.IH [of "upsert i Q"] Cons.IH [of "upsert i Map.empty"] by (auto simp: upsert_def)
qed simp

lemma fold_upsert_keeps: "Q n \<noteq> None \<Longrightarrow> fold upsert is Q n \<noteq> None"
proof (induction "is" arbitrary: Q)
  case (Cons i "is")
  show ?case unfolding fold.simps comp_apply by (rule Cons.IH) (use Cons.prems in \<open>simp add: upsert_def\<close>)
qed simp

lemma fold_upsert_some: "i \<in> set is \<Longrightarrow> fold upsert is Q (ins_id i) \<noteq> None"
proof (induction "is" arbitrary: Q)
  case (Cons j "is")
  show ?case unfolding fold.simps comp_apply
  proof (cases "i \<in> set is")
    case False
    then show "fold upsert is (upsert j Q) (ins_id i) \<noteq> None" using Cons.prems by (intro fold_upsert_keeps) (simp add: upsert_def)
  qed (rule Cons.IH)
qed simp

lemma fold_discard_at: "fold discard is Q n = (if n \<in> ins_id ` set is then None else Q n)"
  by (induction "is" arbitrary: Q) (auto simp: discard_def)

lemma change_at: "change d Q n = (if n \<in> ins_id ` set (snd d) then change d Map.empty n else Q n)"
  unfolding change_def using fold_upsert_at [of "snd d" Q n] by (simp add: fold_discard_at)

lemma change_cases: "(\<forall>Q. change d Q n = Q n) \<or> (\<forall>Q Q'. change d Q n = change d Q' n)"
  by (metis change_at)


section \<open>Every step keeps it\<close>

lemma delta_cases:
  assumes ok: "wcache_ok rl (wk_cache w)" and so: "\<forall>i \<in> set (snd (D k)). sound_role rl i"
    and attempt: "try_apply_instance_delta (Some v) (delta_at D k) w = (w', b)"
  shows "if b then fst (D k) \<in> {ADD, DEL} \<and> snd (D k) \<noteq> [] \<and> wk_last_version w = Some (v - 1) \<and> wk_last_version w' = Some v \<and>
      wcache_ok rl (wk_cache w') \<and> cache_view rl (wk_cache w') = change (D k) (cache_view rl (wk_cache w))
    else w' = w"
proof (cases "fst (D k) \<in> {ADD, DEL} \<and> snd (D k) \<noteq> [] \<and> wk_last_version w = Some (v - 1)")
  case False
  then have "w' = w \<and> \<not> b" using attempt
    by (auto simp: try_apply_instance_delta_def delta_at_def build_instance_delta_def split: option.splits if_splits)
  then show ?thesis by simp
next
  case True
  obtain c1 rs where st: "store_instances (snd (D k)) (wk_cache w) = (c1, rs)" by fastforce
  note s = store_ok [OF ok st]
  have "\<forall>r \<in> set rs. r < sc_next c1 \<and> sound_role rl (sc_heap c1 r)" using s(3,4) so by (metis imageI set_map)
  from apply_add_ok [OF s(1) this] obtain c2 where add: "apply_add rs c1 = (c2, True)" "wcache_ok rl c2"
    "cache_view rl c2 = fold upsert (snd (D k)) (cache_view rl (wk_cache w))" using s(2,4) by auto
  have rem: "wcache_ok rl (apply_remove rs c1)" "cache_view rl (apply_remove rs c1) = fold discard (snd (D k)) (cache_view rl (wk_cache w))"
    using remove_ids_ok [OF s(1), of rs] s(2,4) by simp_all
  have none: "None \<notin> set (map Some (snd (D k)))" by auto
  have the: "map the (map Some (snd (D k))) = snd (D k)" by (simp add: comp_def)
  show ?thesis
  proof (cases "fst (D k) = ADD")
    case A: True
    have "delta_at D k = Some \<lparr>dl_event = ''add'', dl_instances = Some (map Some (snd (D k)))\<rparr>"
      using True A by (simp add: delta_at_def build_instance_delta_def)
    then have "b \<and> w' = notify_instance_refreshed (w\<lparr>wk_cache := c2, wk_last_version := Some v\<rparr>)"
      using attempt True none by (simp add: try_apply_instance_delta_def the st add(1) del: set_map)
    then show ?thesis using A True add by (simp add: change_def)
  next
    case R: False
    have "delta_at D k = Some \<lparr>dl_event = ''del'', dl_instances = Some (map Some (snd (D k)))\<rparr>"
      using True R by (simp add: delta_at_def build_instance_delta_def)
    then have "b \<and> wk_cache w' = apply_remove rs c1 \<and> wk_last_version w' = Some v"
      using attempt True none by (auto simp: try_apply_instance_delta_def the st simp del: set_map)
    then show ?thesis using R True rem by (simp add: change_def)
  qed
qed

lemma notified_follows:
  assumes inv: "follows rl P (N, w)" and h: "history_ok rl P D" and j: "k \<le> j" "j \<le> N" "answers rl (P j) resp"
  shows "follows rl P (N, on_instance_change_notify (Some (int k)) (delta_at D k) resp w) \<and>
    wk_last_version (on_instance_change_notify (Some (int k)) (delta_at D k) resp w) = Some (int k)"
proof (cases "wk_last_version w = Some (int k)")
  case True
  then show ?thesis using inv by (simp add: on_instance_change_notify_def)
next
  case False
  have ok: "wcache_ok rl (wk_cache w)" using inv by (simp add: follows_def)
  obtain w1 b where attempt: "try_apply_instance_delta (Some (int k)) (delta_at D k) w = (w1, b)" by fastforce
  have so: "\<forall>i \<in> set (snd (D k)). sound_role rl i" using h by (simp add: history_ok_def)
  note del = delta_cases [OF ok so attempt]
  show ?thesis
  proof (cases b)
    case True
    with del have d: "fst (D k) \<in> {ADD, DEL}" "snd (D k) \<noteq> []" "wk_last_version w = Some (int k - 1)" "wk_last_version w1 = Some (int k)"
      "wcache_ok rl (wk_cache w1)" "cache_view rl (wk_cache w1) = change (D k) (cache_view rl (wk_cache w))" by simp_all
    from inv d(3) obtain k0 where k0: "int k - 1 = int k0" "\<And>n. \<exists>x. k0 \<le> x \<and> x \<le> N \<and> cache_view rl (wk_cache w) n = P x n"
      by (auto simp: follows_def)
    then have k: "k = Suc k0" by simp
    with h d(1,2) have P: "P k = change (D k) (P k0)" unfolding history_ok_def by blast
    have "\<exists>x. k \<le> x \<and> x \<le> N \<and> cache_view rl (wk_cache w1) n = P x n" for n
    proof -
      obtain x where x: "k0 \<le> x" "x \<le> N" "cache_view rl (wk_cache w) n = P x n" using k0(2) by blast
      show ?thesis
      proof (cases "\<forall>Q Q'. change (D k) Q n = change (D k) Q' n")
        case True
        then have "cache_view rl (wk_cache w1) n = P k n" unfolding d(6) P by blast
        then show ?thesis using j(1,2) by (intro exI [of _ k]) simp
      next
        case False
        then have same: "change (D k) Q n = Q n" for Q using change_cases by blast
        then have "cache_view rl (wk_cache w1) n = P x n" "P k n = P k0 n" using x(3) by (simp_all add: d(6) P)
        then show ?thesis using x(1,2) j(1,2) k by (cases "x = k0") (auto intro: exI [of _ k] exI [of _ x])
      qed
    qed
    then have "follows rl P (N, w1)" using d(4,5) j(1,2) unfolding follows_def by auto
    then show ?thesis using False attempt True d(4) by (simp add: on_instance_change_notify_def)
  next
    case False2: False
    let ?w = "fst (wk_get_available_instances None resp w)"
    let ?w' = "on_instance_change_notify (Some (int k)) (delta_at D k) resp w"
    note g = get_all_answer [OF ok j(3)]
    have "wk_cache ?w' = wk_cache ?w \<and> wk_last_version ?w' = Some (int k)"
      using False False2 attempt del by (simp add: on_instance_change_notify_def Let_def)
    then show ?thesis using follows_at [of rl ?w' k j N P] g j(1,2) by simp
  qed
qed

lemma refresh_follows:
  assumes inv: "follows rl P (N, w)" and j: "k \<le> j" "j \<le> N" "answers rl (P j) resp"
    and res: "case res of None \<Rightarrow> True | Some (h, _) \<Rightarrow> h_instance_version h = int k"
    and first: "wk_last_version w = None \<longrightarrow> cache_view rl (wk_cache w) = P k"
  shows "follows rl P (N, refresh_cache_from_workload_reader t role res resp w)"
proof (cases "wk_reader w")
  case None
  then show ?thesis using inv by (simp add: refresh_cache_from_workload_reader_def)
next
  case (Some p)
  obtain name rd where p: "p = (name, rd)" by fastforce
  obtain rd' ps version stale where f: "finish_read t role res rd = (rd', ps, version, stale)" by (cases "finish_read t role res rd") auto
  let ?w1 = "w\<lparr>wk_reader := Some (name, rd'), wk_cache := fold patch_workload_from_shm ps (wk_cache w)\<rparr>"
  have ok: "wcache_ok rl (wk_cache w)" using inv by (simp add: follows_def)
  note patched = patches_ok [OF ok, of ps]
  then have inv1: "follows rl P (N, ?w1)" using inv by (simp add: follows_def)
  have ok1: "wcache_ok rl (wk_cache ?w1)" using patched by simp
  note g = get_all_answer [OF ok1 j(3)]
  have pull: "follows rl P (N, pull_instances_and_notify (Some (int k)) resp ?w1)"
    by (rule follows_at [of rl _ k j]) (use g j in \<open>simp_all add: pull_instances_and_notify_def\<close>)
  have version: "version = Some (int k) \<or> version = None \<and> \<not> stale"
    using f res by (auto simp: finish_read_def split: option.splits prod.splits)
  have eq: "refresh_cache_from_workload_reader t role res resp w =
     (if stale then pull_instances_and_notify version resp ?w1
      else (case version of
              None \<Rightarrow> ?w1
            | Some v \<Rightarrow> if wk_last_version ?w1 \<noteq> None \<and> version \<noteq> wk_last_version ?w1 then pull_instances_and_notify version resp ?w1
                else ?w1\<lparr>wk_last_version := version\<rparr>))"
    by (simp add: refresh_cache_from_workload_reader_def Some p f Let_def)
  have settled: "follows rl P (N, ?w1\<lparr>wk_last_version := Some (int k)\<rparr>)"
    if "wk_last_version w = None \<or> wk_last_version w = Some (int k)"
  proof (cases "wk_last_version w")
    case None
    then show ?thesis using first patched j by (intro follows_at [of rl _ k k]) simp_all
  next
    case Some
    then show ?thesis using that inv1 by (simp add: follows_def)
  qed
  show ?thesis
  proof (cases "version = Some (int k)")
    case True
    then show ?thesis
      using pull settled unfolding eq by (cases "wk_last_version w = Some (int k)"; cases "wk_last_version w") simp_all
  next
    case False
    then show ?thesis using version inv1 unfolding eq by simp
  qed
qed


lemma pulled_follows:
  assumes inv: "follows rl P (N, w)" and j: "\<forall>v. wk_last_version w = Some v \<longrightarrow> v \<le> int j" "j \<le> N" "answers rl (P j) resp"
  shows "follows rl P (N, fst (wk_get_available_instances None resp w))"
proof -
  have ok: "wcache_ok rl (wk_cache w)" using inv by (simp add: follows_def)
  note g = get_all_answer [OF ok j(3)] and v = get_version [of None resp w]
  show ?thesis
  proof (cases "wk_last_version w")
    case None
    then show ?thesis using g v j(2) by (intro follows_at [of rl _ j j]) simp_all
  next
    case (Some x)
    then obtain k where "x = int k" "k \<le> j" using inv j(1) by (auto simp: follows_def)
    then show ?thesis using g v j(2) Some by (intro follows_at [of rl _ k j]) simp_all
  qed
qed

lemma pulled_role_follows:
  assumes inv: "follows rl P (N, w)" and j: "\<forall>v. wk_last_version w = Some v \<longrightarrow> v \<le> int j" "j \<le> N"
    and a: "answers rl (\<lambda>n. if rl n = \<rho> then P j n else None) resp"
  shows "follows rl P (N, fst (wk_get_available_instances (Some \<rho>) resp w))" (is "follows rl P (N, ?w)")
proof -
  have ok: "wcache_ok rl (wk_cache w)" using inv by (simp add: follows_def)
  from a obtain "is" shm where ans: "resp = GET_SUCCESS (map Some is) shm" "\<forall>i \<in> set is. sound_role rl i"
    "pool_of is = (\<lambda>n. if rl n = \<rho> then P j n else None)" unfolding answers_def by blast
  have "rl (ins_id i) = \<rho>" if "i \<in> set is" for i
  proof -
    have "pool_of is (ins_id i) \<noteq> None" using that fold_upsert_some unfolding pool_of_def by blast
    then show ?thesis by (simp add: ans(3) split: if_splits)
  qed
  then have so: "\<forall>i \<in> set is. sound_role rl i \<and> rl (ins_id i) = \<rho>" using ans(2) by blast
  note g = get_role_ok [OF ok so, of shm, folded ans(1)] and v = get_version [of "Some \<rho>" resp w]
  have near: "\<exists>x. k \<le> x \<and> x \<le> N \<and> cache_view rl (wk_cache ?w) n = P x n"
    if k: "wk_last_version w = Some (int k)" "\<forall>n. \<exists>x. k \<le> x \<and> x \<le> N \<and> cache_view rl (wk_cache w) n = P x n" for k n
  proof (cases "rl n = \<rho>")
    case True
    then show ?thesis using j(1,2) k(1) by (intro exI [of _ j]) (simp add: g(2) ans(3))
  next
    case False
    then show ?thesis using k(2) by (simp add: g(2))
  qed
  show ?thesis
  proof (cases "wk_last_version w")
    case None
    then show ?thesis using v g(1) by (simp add: follows_def)
  next
    case (Some x)
    then obtain k where k: "k \<le> N" "x = int k" "\<forall>n. \<exists>x. k \<le> x \<and> x \<le> N \<and> cache_view rl (wk_cache w) n = P x n"
      using inv by (auto simp: follows_def)
    have "\<exists>k \<le> N. x = int k \<and> (\<forall>n. \<exists>x. k \<le> x \<and> x \<le> N \<and> cache_view rl (wk_cache ?w) n = P x n)"
      using k near Some by blast
    then show ?thesis using v g(1) Some unfolding follows_def by auto
  qed
qed

lemma breaker_fields [simp]:
  "wk_cache (on_circuit_breaker_change iid st w) = wk_cache w" "wk_last_version (on_circuit_breaker_change iid st w) = wk_last_version w"
  by (simp_all add: on_circuit_breaker_change_def)

lemma published_follows:
  assumes "follows rl P (N, w)"
  shows "follows rl P (Suc N, w)"
  using assms unfolding follows_def prod.case by (metis le_SucI)

lemma step_follows:
  assumes "wstep rl P D s u" "follows rl P s" "history_ok rl P D"
  shows "follows rl P u"
  using assms(1)
proof cases
  case (published N w)
  then show ?thesis using assms(2) published_follows by simp
next
  case (notified k j N resp w)
  then show ?thesis using notified_follows [OF assms(2) [unfolded notified(1)] assms(3) notified(3-5)] by simp
next
  case (memory_read k j N resp res w t role)
  then show ?thesis using refresh_follows [OF assms(2) [unfolded memory_read(1)] memory_read(3-7)] by simp
next
  case (pulled w j N resp)
  then show ?thesis using pulled_follows [OF assms(2) [unfolded pulled(1)] pulled(3-5)] by simp
next
  case (pulled_role w j N \<rho> resp)
  then show ?thesis using pulled_role_follows [OF assms(2) [unfolded pulled_role(1)] pulled_role(3-5)] by simp
next
  case (breaker N w iid st)
  then show ?thesis using assms(2) by (simp add: follows_def)
qed

lemma run_follows:
  assumes "(wstep rl P D)\<^sup>*\<^sup>* s t" "follows rl P s" "history_ok rl P D"
  shows "follows rl P t"
  using assms(1,2) by (induction rule: rtranclp_induct) (blast intro: step_follows [OF _ _ assms(3)])+

lemma init_follows: "follows rl P (N, init_worker cb)"
  by (simp add: follows_def init_worker_def wcache_ok_init)

lemma current_view: "follows rl P (N, w) \<Longrightarrow> wk_last_version w = Some (int N) \<Longrightarrow> cache_view rl (wk_cache w) = P N"
  unfolding follows_def prod.case by (rule ext) (metis le_antisym nat_int_comparison(1))

lemma ok_listing:
  assumes ok: "wcache_ok rl c"
  shows "sorted_wrt (<) (map ins_id (cached_instances c \<rho>))"
    "set (map reset_workload (cached_instances c \<rho>)) = {i. \<exists>n. rl n = \<rho> \<and> cache_view rl c n = Some i}"
proof -
  let ?m = "sc_maps c \<rho>"
  note o = wcache_okD [OF ok]
  have keys: "map (id_of c) (dvalues ?m) = dkeys ?m"
    unfolding map_map comp_def using o(1,3) by (intro map_cong refl) (force simp: map_of_eq_Some_iff)
  then have "distinct (map (id_of c) (dvalues ?m))" using o(1) [of \<rho>] by argo
  then have "sorted (map (id_of c) (sc_lists c \<rho>)) \<and> distinct (map (id_of c) (sc_lists c \<rho>))"
    unfolding o(2) using sorted_refs_facts by blast
  then show "sorted_wrt (<) (map ins_id (cached_instances c \<rho>))"
    by (simp add: cached_instances_def id_of_def [abs_def] strict_sorted_iff comp_def)
  have listed: "r \<in> set (sc_lists c \<rho>) \<longleftrightarrow> (\<exists>n. rl n = \<rho> \<and> dget (sc_maps c (rl n)) n = Some r)" for r
    unfolding o(2) sorted_refs_facts(2) using o(1,3) dget_value_in dvalue_has_key by metis
  show "set (map reset_workload (cached_instances c \<rho>)) = {i. \<exists>n. rl n = \<rho> \<and> cache_view rl c n = Some i}"
    unfolding cached_instances_def set_map image_image cache_view_def map_option_eq_Some image_def listed Bex_def by blast
qed


section \<open>The property\<close>


text \<open>A prefill instance is there from the start, decode instances join and leave; the worker misses the second version.\<close>

definition demo_role :: "int \<Rightarrow> pd_role" where
  "demo_role n = (if n = 1 then ROLE_P else ROLE_D)"

definition demo_changes :: "nat \<Rightarrow> event_type \<times> instance_obj list" where
  "demo_changes k =
     (if k = 1 then (ADD, [demo_instance 1 ''p0'' ''prefill''])
      else if k = 2 then (ADD, [demo_instance 3 ''d1'' ''decode'', demo_instance 2 ''d0'' ''decode''])
      else if k = 3 then (DEL, [demo_instance 3 ''d1'' ''decode''])
      else (SET, []))"

fun demo_history :: "nat \<Rightarrow> int \<rightharpoonup> instance_obj" where
  "demo_history 0 = Map.empty"
| "demo_history (Suc k) = change (demo_changes (Suc k)) (demo_history k)"

definition demo_answer :: "instance_obj list \<Rightarrow> get_response" where
  "demo_answer is = GET_SUCCESS (map Some is) None"

lemma demo_instance_sound: "sound_role demo_role (demo_instance 1 j ''prefill'')" "n \<noteq> 1 \<Longrightarrow> sound_role demo_role (demo_instance n j ''decode'')"
  by (simp_all add: sound_role_def role_class_def demo_role_def demo_instance_def)

lemma demo_instance_id: "ins_id (demo_instance n j v) = n"
  by (simp add: demo_instance_def)

lemma demo_history_ok: "history_ok demo_role demo_history demo_changes"
  by (auto simp: history_ok_def demo_changes_def demo_instance_sound)

lemma answersI: "\<forall>i \<in> set is. sound_role rl i \<Longrightarrow> pool_of is = Q \<Longrightarrow> answers rl Q (GET_SUCCESS (map Some is) shm)"
  unfolding answers_def by blast

lemma demo_answers:
  "answers demo_role (demo_history 2) (demo_answer [demo_instance 1 ''p0'' ''prefill'', demo_instance 3 ''d1'' ''decode'', demo_instance 2 ''d0'' ''decode''])"
  "answers demo_role (demo_history 3) (demo_answer [demo_instance 1 ''p0'' ''prefill'', demo_instance 2 ''d0'' ''decode''])"
  unfolding demo_answer_def
  by (rule answersI; simp add: demo_instance_sound pool_of_def numeral_2_eq_2 numeral_3_eq_3 change_def demo_changes_def upsert_def discard_def
    demo_instance_id fun_eq_iff)+

lemma demo_run:
  "(wstep demo_role demo_history demo_changes)\<^sup>*\<^sup>* (0, init_worker True)
     (3, on_instance_change_notify (Some (int 2)) (delta_at demo_changes 2)
        (demo_answer [demo_instance 1 ''p0'' ''prefill'', demo_instance 3 ''d1'' ''decode'', demo_instance 2 ''d0'' ''decode'']) (init_worker True))"
proof -
  let ?s = "wstep demo_role demo_history demo_changes"
  have "?s\<^sup>*\<^sup>* (0, init_worker True) (Suc (Suc 0), init_worker True)"
    by (meson published rtranclp.rtrancl_into_rtrancl rtranclp.rtrancl_refl)
  also have "?s (Suc (Suc 0), init_worker True) (Suc (Suc 0), on_instance_change_notify (Some (int 2)) (delta_at demo_changes 2)
        (demo_answer [demo_instance 1 ''p0'' ''prefill'', demo_instance 3 ''d1'' ''decode'', demo_instance 2 ''d0'' ''decode'']) (init_worker True))"
    by (rule notified [of 2 2]) (simp_all add: demo_answers(1))
  also (rtranclp.rtrancl_into_rtrancl) note published
  finally (rtranclp.rtrancl_into_rtrancl) show ?thesis by (simp only: numeral_3_eq_3)
qed


end
