(* ===== verification/Scheduler_Client.thy ===== *)
theory Scheduler_Client
  imports Worker_Cache Kv_Affinity Allocation_Correctness
begin

text \<open>
  How a worker process chooses and allocates: \<^verbatim>\<open>AsyncSchedulerClient\<close> of \<^verbatim>\<open>coordinator/scheduler/runtime/scheduler_client.py\<close>, on top of its cache
  (\<open>Worker_Cache\<close>), the policies (\<open>Scheduling_Policy\<close>, \<open>Kv_Affinity\<close>) and the request format of the scheduler process (\<open>Allocation\<close>).
  Answers of the scheduler, of the KV conductor and of the tokenizer are arguments.
\<close>

section \<open>The client\<close>

record client =
  cl_worker :: worker
  cl_index :: int
  cl_count :: int
  cl_prefix :: string
  cl_seq :: nat
  cl_weight :: rat
  cl_mode :: string
  cl_kv :: kv_params
  cl_instance_rr :: "(pd_role, int) dict"
  cl_endpoint_rr :: "(int, int) dict"
  cl_type :: string

record client_config =
  cc_type :: "string option"
  cc_index :: int
  cc_count :: int
  cc_weight :: rat
  cc_mode :: string
  cc_kv :: kv_params
  cc_callback :: bool

definition KV_AFFINITY_MODE_UNIFIED :: string where
  "KV_AFFINITY_MODE_UNIFIED = ''unified''"

definition KVA_SELECT_ROLES :: "pd_role set" where
  "KVA_SELECT_ROLES = {ROLE_P, ROLE_U}"

definition AFFINITY_CANDIDATE_TOPK :: int where
  "AFFINITY_CANDIDATE_TOPK = 3"

definition affinity_mode :: "string \<Rightarrow> string" where
  "affinity_mode m =
     (let n = lower (if m = [] then KV_AFFINITY_MODE_UNIFIED else m)
      in if n \<in> {KV_AFFINITY_MODE_UNIFIED, KV_AFFINITY_MODE_LOAD_GATED} then n else KV_AFFINITY_MODE_UNIFIED)"

definition clamp_kv :: "kv_params \<Rightarrow> kv_params" where
  "clamp_kv p = \<lparr>overlap_credit = max 0 (overlap_credit p), prefill_load_scale = max 0 (prefill_load_scale p), load_weight = max 0 (load_weight p),
     load_gate_topn = max 0 (load_gate_topn p), w_npu = max 0 (w_npu p), w_cpu = max 0 (w_cpu p), w_disk = max 0 (w_disk p)\<rparr>"

definition init_client :: "string \<Rightarrow> client_config \<Rightarrow> client" where
  "init_client prefix cfg =
     \<lparr>cl_worker = init_worker (cc_callback cfg), cl_index = max 0 (cc_index cfg), cl_count = max 1 (cc_count cfg), cl_prefix = prefix, cl_seq = 0,
      cl_weight = max 0 (cc_weight cfg), cl_mode = affinity_mode (cc_mode cfg), cl_kv = clamp_kv (cc_kv cfg), cl_instance_rr = [], cl_endpoint_rr = [],
      cl_type = (case cc_type cfg of None \<Rightarrow> ''round_robin'' | Some t \<Rightarrow> if t = [] then ''round_robin'' else t)\<rparr>"

definition next_request_id :: "client \<Rightarrow> client \<times> string" where
  "next_request_id c = (c\<lparr>cl_seq := cl_seq c + 1\<rparr>, cl_prefix c @ ''-'' @ dec (cl_seq c + 1))"

definition scheduler_type_of :: "client \<Rightarrow> string" where
  "scheduler_type_of c = (if cl_type c = [] then ''round_robin'' else cl_type c)"

section \<open>Choosing candidates\<close>

definition normalized_engine :: "string option \<Rightarrow> string" where
  "normalized_engine e = lower (strip (case e of None \<Rightarrow> [] | Some t \<Rightarrow> t))"

definition filter_instances_by_engine_type :: "instance_obj list \<Rightarrow> string option \<Rightarrow> instance_obj list" where
  "filter_instances_by_engine_type is required =
     (let n = normalized_engine required
      in if n = [] then is
         else filter (\<lambda>i. lower (strip (case engine_type i of None \<Rightarrow> ''None'' | Some t \<Rightarrow> t)) = n) is)"

definition start_offset :: "client \<Rightarrow> nat \<Rightarrow> int" where
  "start_offset c n = (int n * cl_index c) div cl_count c"

definition select_by_load_balance :: "instance_obj list \<Rightarrow> pd_role \<Rightarrow> int \<Rightarrow> client \<Rightarrow> ranking" where
  "select_by_load_balance is role top_k c =
     map (\<lambda>x. (cand_instance x, cand_endpoint x, cand_score x))
       (select_endpoint_candidates_from_list is (Some (pd_role_value role)) (max 1 top_k) (cl_weight c) (start_offset c (length is))
          (Some (is_instance_blocked (cl_worker c))))"

definition cl_select_endpoint_for_instance :: "instance_obj \<Rightarrow> client \<Rightarrow> client \<times> (instance_obj \<times> endpoint) option" where
  "cl_select_endpoint_for_instance i c =
     (if routable_endpoints i = [] then (c, None)
      else if scheduler_type_of c \<in> {''load_balance'', ''kv_cache_affinity''}
      then (c, Some (i, case lb_select_endpoint_from_instance i of Some e \<Rightarrow> e | None \<Rightarrow> routable_endpoints i ! 0))
      else (case rr_select_endpoint_from_instance i (cl_endpoint_rr c) (Some (is_instance_blocked (cl_worker c))) of
              (counters, e) \<Rightarrow> (c\<lparr>cl_endpoint_rr := counters\<rparr>, map_option (Pair i) e)))"

definition select_by_round_robin :: "instance_obj list \<Rightarrow> pd_role \<Rightarrow> client \<Rightarrow> client \<times> ranking" where
  "select_by_round_robin is role c =
     (let counters = (if dmem role (cl_instance_rr c) then cl_instance_rr c else dset role 0 (cl_instance_rr c));
          off = start_offset c (length is)
      in case rr_select_instance_from_list is (the (dget counters role) + off) of
           (sel, next_counter) \<Rightarrow>
             (let c1 = c\<lparr>cl_instance_rr := dset role (next_counter - off) counters\<rparr>
              in case sel of
                   None \<Rightarrow> (c1, [])
                 | Some i \<Rightarrow>
                     (case cl_select_endpoint_for_instance i c1 of
                        (c2, None) \<Rightarrow> (c2, [])
                      | (c2, Some (i, e)) \<Rightarrow> (c2, [(i, e, 0)]))))"

text \<open>
  What a request carries through the selection: its fields and, once affinity has ranked endpoints for it, what was found for each of them: matched tokens,
  load and, in unified mode, the prefill cost.
\<close>

type_synonym affinity_debug = "(int \<times> int, int \<times> rat \<times> rat option) dict"

record req_state =
  rq_info :: request_info
  rq_debug :: "affinity_debug option"

record sel_env =
  en_query :: "instance_obj list \<Rightarrow> tenant option"
  en_block_size :: int
  en_tokenize :: "request_info \<Rightarrow> int list"
  en_image_score :: "string \<Rightarrow> rat"

definition ensure_token_ids :: "sel_env \<Rightarrow> req_state \<Rightarrow> req_state \<times> int list" where
  "ensure_token_ids env rq =
     (case token_ids (rq_info rq) of
        Some ts \<Rightarrow> (rq, ts)
      | None \<Rightarrow> (let ts = en_tokenize env (rq_info rq) in (rq\<lparr>rq_info := (rq_info rq)\<lparr>token_ids := Some ts\<rparr>\<rparr>, ts)))"

definition stash_affinity_debug :: "sel_env \<Rightarrow> instance_obj list \<Rightarrow> int \<Rightarrow> client \<Rightarrow> affinity_debug option" where
  "stash_affinity_debug env is isl_n c =
     (case (if en_block_size env > 0 \<and> isl_n < en_block_size env
            then Some (fold (\<lambda>i t. dset (conductor_instance_id i) [] t) is [])
            else en_query env is) of
        None \<Rightarrow> None
      | Some tenant \<Rightarrow>
          (case collect_load_candidates is tenant isl_n (en_block_size env) (cl_kv c) of
             Inl _ \<Rightarrow> None
           | Inr (raw, any_instance) \<Rightarrow>
               if \<not> any_instance \<or> raw = [] then None
               else Some (fold (\<lambda>k d. dset (ins_id (kv_instance k), ep_id (kv_endpoint k))
                      (matched_tokens k, load_cost k, if cl_mode c = KV_AFFINITY_MODE_LOAD_GATED then None else Some (prefill_cost k)) d) raw [])))"

definition select_by_affinity ::
    "sel_env \<Rightarrow> instance_obj list \<Rightarrow> int \<Rightarrow> req_state \<Rightarrow> client \<Rightarrow> req_state \<times> (py_exn + ranking option)" where
  "select_by_affinity env is top_k rq c =
     (case ensure_token_ids env rq of
        (rq1, ts) \<Rightarrow>
          (let isl_n = int (length ts);
               res = kv_select_candidates (en_query env) is isl_n (cl_mode c) (en_block_size env) (cl_kv c) (max 1 top_k)
           in (case stash_affinity_debug env is isl_n c of None \<Rightarrow> rq1 | Some d \<Rightarrow> rq1\<lparr>rq_debug := Some d\<rparr>, res)))"

text \<open>\<open>_select_endpoint_candidates_from_list_with_policy\<close>: the fallbacks from affinity to load balance to round robin.\<close>

definition balance_or_rr :: "instance_obj list \<Rightarrow> pd_role \<Rightarrow> int \<Rightarrow> client \<Rightarrow> client \<times> ranking \<times> string" where
  "balance_or_rr is role top_k c =
     (case select_by_load_balance is role top_k c of
        [] \<Rightarrow> (case select_by_round_robin is role c of (c1, cs) \<Rightarrow> (c1, cs, CANDIDATE_POLICY_ROUND_ROBIN))
      | cs \<Rightarrow> (c, cs, CANDIDATE_POLICY_LOAD_BALANCE))"

definition candidates_from_list ::
    "sel_env \<Rightarrow> instance_obj list \<Rightarrow> pd_role \<Rightarrow> int \<Rightarrow> req_state \<Rightarrow> client \<Rightarrow> (req_state \<times> client) \<times> (py_exn + ranking \<times> string)" where
  "candidates_from_list env is role top_k rq c =
     (if is = [] then ((rq, c), Inr ([], scheduler_type_of c))
      else if scheduler_type_of c = ''load_balance''
      then (case balance_or_rr is role top_k c of (c1, cs, p) \<Rightarrow> ((rq, c1), Inr (cs, p)))
      else if scheduler_type_of c = ''kv_cache_affinity''
      then (if role \<in> KVA_SELECT_ROLES
            then (case select_by_affinity env is top_k rq c of
                    (rq1, Inl x) \<Rightarrow> ((rq1, c), Inl x)
                  | (rq1, Inr (Some (k # ks))) \<Rightarrow> ((rq1, c), Inr (k # ks, CANDIDATE_POLICY_KV_CACHE_AFFINITY))
                  | (rq1, Inr _) \<Rightarrow> (case balance_or_rr is role top_k c of (c1, cs, p) \<Rightarrow> ((rq1, c1), Inr (cs, p))))
            else (case balance_or_rr is role top_k c of (c1, cs, p) \<Rightarrow> ((rq, c1), Inr (cs, p))))
      else (case select_by_round_robin is role c of (c1, cs) \<Rightarrow> ((rq, c1), Inr (cs, CANDIDATE_POLICY_ROUND_ROBIN))))"

definition sorted_found :: "worker \<Rightarrow> (int, iref) dict \<Rightarrow> instance_obj list" where
  "sorted_found w found = map (sc_heap (wk_cache w)) (sorted_refs (wk_cache w) (dvalues found))"

definition candidates_with_policy ::
    "sel_env \<Rightarrow> get_response \<Rightarrow> pd_role \<Rightarrow> int \<Rightarrow> string option \<Rightarrow> req_state \<Rightarrow> client \<Rightarrow> (req_state \<times> client) \<times> (py_exn + ranking \<times> string)" where
  "candidates_with_policy env resp role top_k required rq c =
     (let cached = filter_instances_by_engine_type (cached_instances (wk_cache (cl_worker c)) role) required;
          first = (if cached \<noteq> [] then candidates_from_list env cached role top_k rq c else ((rq, c), Inr ([], scheduler_type_of c)))
      in case first of
           (s, Inl x) \<Rightarrow> (s, Inl x)
         | (s, Inr (k # ks, p)) \<Rightarrow> (s, Inr (k # ks, p))
         | ((rq1, c1), Inr ([], _)) \<Rightarrow>
             (case wk_get_available_instances (Some role) resp (cl_worker c1) of
                (w, found) \<Rightarrow>
                  (let c2 = c1\<lparr>cl_worker := w\<rparr>
                   in if found = [] then ((rq1, c2), Inr ([], scheduler_type_of c2))
                      else candidates_from_list env (filter_instances_by_engine_type (sorted_found w found) required) role top_k rq1 c2)))"


section \<open>Allocation\<close>

definition raw_of :: "int \<Rightarrow> int \<Rightarrow> int option \<Rightarrow> rat option \<Rightarrow> raw_candidate option" where
  "raw_of iid eid matched cost =
     Some \<lparr>rc_instance_id = Given iid, rc_endpoint_id = Given eid,
       rc_prefill_cost = (case cost of None \<Rightarrow> Missing | Some q \<Rightarrow> Given q),
       rc_matched_tokens = (case matched of None \<Rightarrow> Missing | Some m \<Rightarrow> Given (of_int m))\<rparr>"

text \<open>The candidates that are sent along, and whether all scored endpoints are among them.\<close>

definition is_global_affinity :: "string \<Rightarrow> affinity_debug option \<Rightarrow> bool" where
  "is_global_affinity policy dbg \<longleftrightarrow>
     policy = CANDIDATE_POLICY_KV_CACHE_AFFINITY \<and>
     (case dbg of None \<Rightarrow> False | Some d \<Rightarrow> list_ex (\<lambda>(k, m, l, cost). cost \<noteq> None) d)"

definition candidate_endpoints :: "pd_role \<Rightarrow> string option \<Rightarrow> string \<Rightarrow> affinity_debug option \<Rightarrow> ranking \<Rightarrow> client \<Rightarrow> raw_candidates" where
  "candidate_endpoints role required policy dbg cands c =
     Some (if is_global_affinity policy dbg
           then (let allowed = ins_id ` set (filter_instances_by_engine_type (cached_instances (wk_cache (cl_worker c)) role) required)
                 in List.map_filter (\<lambda>((iid, eid), m, l, cost). if cost \<noteq> None \<and> iid \<in> allowed then Some (raw_of iid eid (Some m) cost) else None)
                      (the dbg))
           else map (\<lambda>(i, e, _). raw_of (ins_id i) (ep_id e)
                      (if policy = CANDIDATE_POLICY_KV_CACHE_AFFINITY
                       then (case dbg of None \<Rightarrow> None | Some d \<Rightarrow> map_option fst (dget d (ins_id i, ep_id e))) else None) None) cands)"

definition request_demand :: "sel_env \<Rightarrow> pd_role \<Rightarrow> request_info \<Rightarrow> client \<Rightarrow> workload" where
  "request_demand env role rq c =
     (if scheduler_type_of c = ''round_robin'' then zero_workload else calculate_demand_workload (en_image_score env) role rq)"

definition opt_field :: "'a option \<Rightarrow> 'a field" where
  "opt_field x = (case x of None \<Rightarrow> Missing | Some v \<Rightarrow> Given v)"

definition build_request ::
    "sel_env \<Rightarrow> pd_role \<Rightarrow> string option \<Rightarrow> req_state \<Rightarrow> (int \<times> int) \<times> raw_candidates \<times> string \<times> bool \<Rightarrow> client \<Rightarrow> alloc_request" where
  "build_request env role required rq prop c =
     (case prop of ((iid, eid), cands, policy, is_global) \<Rightarrow>
        \<lparr>aq_instance_id = Given iid, aq_endpoint_id = Given eid, aq_workload = Missing,
         aq_workload_active_tokens = Given (active_tokens (request_demand env role (rq_info rq) c)),
         aq_role = Some (pd_role_value role),
         aq_workload_sequence = opt_field (case wk_reader (cl_worker c) of None \<Rightarrow> None | Some (_, rd) \<Rightarrow> last_sequence rd),
         aq_role_workload_sequence = opt_field (case wk_reader (cl_worker c) of None \<Rightarrow> None | Some (_, rd) \<Rightarrow> dget (last_role_sequences rd) role),
         aq_instance_version = opt_field (wk_last_version (cl_worker c)),
         aq_candidate_policy = Some policy,
         aq_load_weight = (if is_global then Given (load_weight (cl_kv c)) else Missing),
         aq_prefill_load_scale = (if is_global then Given (prefill_load_scale (cl_kv c)) else Missing),
         aq_isl = (case token_ids (rq_info rq) of Some (t # ts) \<Rightarrow> Given (of_nat (length (t # ts))) | _ \<Rightarrow> Missing),
         aq_required_engine_type = (if normalized_engine required = [] then None else Some (normalized_engine required)),
         aq_candidates = cands\<rparr>)"

text \<open>The answer to ALLOCATE_ONLY: instance and endpoint if there are any and they can be read, and the committed load.\<close>

datatype alloc_reply = REPLY_NONE | REPLY_ERROR | REPLY_SUCCESS "instance_obj option" "endpoint option" "workload option"

definition finish_allocation :: "workload \<Rightarrow> alloc_reply \<Rightarrow> (instance_obj \<times> endpoint \<times> workload) option" where
  "finish_allocation demand reply =
     (case reply of
        REPLY_SUCCESS (Some i) (Some e) committed \<Rightarrow> Some (i, e, case committed of None \<Rightarrow> demand | Some wl \<Rightarrow> wl)
      | _ \<Rightarrow> None)"

text \<open>The choice of an endpoint on a given instance.\<close>

definition propose_pinned ::
    "get_response \<Rightarrow> pd_role \<Rightarrow> int \<Rightarrow> string option \<Rightarrow> client \<Rightarrow> client \<times> ((int \<times> int) \<times> raw_candidates \<times> string \<times> bool) option" where
  "propose_pinned resp role target required c =
     (case wk_get_available_instances (Some role) resp (cl_worker c) of
        (w, found) \<Rightarrow>
          (let c1 = c\<lparr>cl_worker := w\<rparr>;
               instances = filter (\<lambda>(_, i). filter_instances_by_engine_type [i] required \<noteq> []) (map (\<lambda>(n, r). (n, sc_heap (wk_cache w) r)) found)
           in case resolve_pinned_instance instances target of
                None \<Rightarrow> (c1, None)
              | Some i \<Rightarrow>
                  (case select_endpoint_for_instance i (scheduler_type_of c1) (cl_endpoint_rr c1) (Some (is_instance_blocked w)) of
                     (counters, None) \<Rightarrow> (c1\<lparr>cl_endpoint_rr := counters\<rparr>, None)
                   | (counters, Some e) \<Rightarrow>
                       (c1\<lparr>cl_endpoint_rr := counters\<rparr>,
                        Some ((ins_id i, ep_id e), Some [raw_of (ins_id i) (ep_id e) None None], scheduler_type_of c1, False)))))"

definition propose ::
    "sel_env \<Rightarrow> get_response \<Rightarrow> pd_role \<Rightarrow> string option \<Rightarrow> req_state \<Rightarrow> client \<Rightarrow>
     (req_state \<times> client) \<times> (py_exn + ((int \<times> int) \<times> raw_candidates \<times> string \<times> bool) option)" where
  "propose env resp role required rq c =
     (let top_k = (if role \<in> KVA_SELECT_ROLES \<and> cl_type c = ''kv_cache_affinity'' \<and> cl_mode c \<noteq> KV_AFFINITY_MODE_UNIFIED
                   then AFFINITY_CANDIDATE_TOPK else 1);
          engine = (if normalized_engine required = [] then None else Some (normalized_engine required))
      in case candidates_with_policy env resp role top_k engine rq c of
           (s, Inl x) \<Rightarrow> (s, Inl x)
         | (s, Inr ([], _)) \<Rightarrow> (s, Inr None)
         | ((rq1, c1), Inr ((i, e, sc) # ks, policy)) \<Rightarrow>
             ((rq1, c1), Inr (Some ((ins_id i, ep_id e), candidate_endpoints role engine policy (rq_debug rq1) ((i, e, sc) # ks) c1, policy,
                is_global_affinity policy (rq_debug rq1)))))"

record shm_read =
  rd_time :: rat
  rd_result :: "(shm_header \<times> shm_entry list option) option"
  rd_pull :: get_response

definition refresh_client :: "shm_read \<Rightarrow> pd_role \<Rightarrow> client \<Rightarrow> client" where
  "refresh_client rd role c =
     c\<lparr>cl_worker := refresh_cache_from_workload_reader (rd_time rd) (Some role) (rd_result rd) (rd_pull rd) (cl_worker c)\<rparr>"

definition select_and_allocate ::
    "sel_env \<Rightarrow> shm_read \<Rightarrow> get_response \<Rightarrow> (alloc_request \<Rightarrow> 's \<Rightarrow> 's \<times> alloc_reply) \<Rightarrow> pd_role \<Rightarrow> int option \<Rightarrow> string option \<Rightarrow>
     req_state \<Rightarrow> client \<Rightarrow> 's \<Rightarrow> ((req_state \<times> client) \<times> 's) \<times> (py_exn + (instance_obj \<times> endpoint \<times> workload) option)" where
  "select_and_allocate env rd resp rpc role target required rq c s =
     (let c0 = refresh_client rd role c;
          prop = (case target of
                    Some n \<Rightarrow> (case propose_pinned resp role n required c0 of (c1, p) \<Rightarrow> ((rq, c1), Inr p))
                  | None \<Rightarrow> propose env resp role required rq c0)
      in case prop of
           (st, Inl x) \<Rightarrow> ((st, s), Inl x)
         | (st, Inr None) \<Rightarrow> ((st, s), Inr None)
         | ((rq1, c1), Inr (Some p)) \<Rightarrow>
             (let c2 = fst (next_request_id c1);
                  demand = request_demand env role (rq_info rq1) c2
              in case rpc (build_request env role required rq1 p c2) s of
                   (s1, reply) \<Rightarrow> (((rq1, c2), s1), Inr (finish_allocation demand reply))))"

text \<open>\<open>update_workload\<close>, given the answer: None is no answer or an error, otherwise the flag it carries.\<close>

definition build_update :: "int \<Rightarrow> int \<Rightarrow> pd_role \<Rightarrow> string \<Rightarrow> workload \<Rightarrow> string option \<Rightarrow> update_request" where
  "build_update iid eid role action wl op =
     \<lparr>uq_instance_id = Given iid, uq_endpoint_id = Given eid, uq_role = Some (pd_role_value role), uq_operation_id = op,
      uq_workload_action = action, uq_workload_change = Given wl\<rparr>"

definition update_workload_outcome :: "bool option option \<Rightarrow> bool" where
  "update_workload_outcome reply = (case reply of Some (Some ok) \<Rightarrow> ok | _ \<Rightarrow> False)"


section \<open>Request ids\<close>

text \<open>The ids of a client never repeat, which is what its transport relies on.\<close>

fun request_ids :: "nat \<Rightarrow> client \<Rightarrow> string list" where
  "request_ids 0 c = []"
| "request_ids (Suc n) c = (case next_request_id c of (c1, rid) \<Rightarrow> rid # request_ids n c1)"

lemma request_ids_eq: "request_ids n c = map (\<lambda>k. cl_prefix c @ ''-'' @ dec k) [cl_seq c + 1..<cl_seq c + 1 + n]"
proof (induction n arbitrary: c)
  case (Suc n)
  have "[cl_seq c + 1..<cl_seq c + 1 + Suc n] = (cl_seq c + 1) # [cl_seq c + 2..<cl_seq c + 2 + n]" by (simp add: upt_conv_Cons del: upt_Suc)
  then show ?case using Suc.IH [of "c\<lparr>cl_seq := cl_seq c + 1\<rparr>"] by (simp add: next_request_id_def del: upt_Suc)
qed simp

lemma dec_inject: "dec m = dec n \<longleftrightarrow> m = n"
  by (metis undec_dec)

lemma client_ids_distinct: "distinct (request_ids n c)"
  by (auto simp: request_ids_eq distinct_map inj_on_def dec_inject)

section \<open>Engine types\<close>

lemma is_space_code: "is_space c \<longleftrightarrow> (of_char c :: nat) \<in> {9..13} \<union> {28..32}"
proof
  show "is_space c \<Longrightarrow> (of_char c :: nat) \<in> {9..13} \<union> {28..32}" by (auto simp: is_space_def)
  assume "(of_char c :: nat) \<in> {9..13} \<union> {28..32}"
  then have "(of_char c :: nat) \<in> set [9, 10, 11, 12, 13, 28, 29, 30, 31, 32]" by auto
  then have "c \<in> char_of ` set [9 :: nat, 10, 11, 12, 13, 28, 29, 30, 31, 32]" by (metis char_of_char imageI)
  then show "is_space c" by (auto simp: is_space_def char_of_def bit_iff_odd)
qed

lemma lower_char_code: "(of_char (lower_char c) :: nat) = (if 65 \<le> (of_char c :: nat) \<and> (of_char c :: nat) \<le> 90 then of_char c + 32 else of_char c)"
  by (auto simp: lower_char_def)

lemma space_lower [simp]: "is_space (lower_char c) = is_space c"
  unfolding is_space_code lower_char_code by auto

lemma lower_lower: "lower (lower s) = lower s"
proof -
  have "lower_char (lower_char c) = lower_char c" for c
  proof (cases "65 \<le> (of_char c :: nat) \<and> (of_char c :: nat) \<le> 90")
    case True
    then have "(of_char (lower_char c) :: nat) = of_char c + 32" by (simp add: lower_char_code)
    then have "\<not> (of_char (lower_char c) :: nat) \<le> 90" using True by linarith
    then show ?thesis by (simp add: lower_char_def [of "lower_char c"])
  next
    case False
    then have "lower_char c = c" by (auto simp: lower_char_def)
    then show ?thesis by simp
  qed
  then show ?thesis by (simp add: lower_def)
qed

lemma strip_lower: "strip (lower s) = lower (strip s)"
  by (simp add: strip_def lower_def dropWhile_map comp_def rev_map)

lemma strip_strip: "strip (strip s) = strip s"
proof -
  let ?t = "dropWhile is_space s"
  let ?u = "rev (dropWhile is_space (rev ?t))"
  have t: "?t = ?u @ rev (takeWhile is_space (rev ?t))" by (metis rev_append rev_rev_ident takeWhile_dropWhile_id)
  have "dropWhile is_space ?u = ?u"
  proof (cases ?u)
    case (Cons x xs)
    then have "hd ?t = x" "?t \<noteq> []" using t by (metis append_Cons list.sel(1), metis append_is_Nil_conv list.distinct(1))
    then have "\<not> is_space x" using hd_dropWhile by blast
    then show ?thesis using Cons by simp
  next
    case Nil
    then show ?thesis by (simp only: Nil dropWhile.simps)
  qed
  then show ?thesis unfolding strip_def by (simp add: dropWhile_idem)
qed

lemma lower_strip_idem: "lower (strip (lower (strip s))) = lower (strip s)"
  by (simp add: strip_lower lower_lower strip_strip)

lemma engine_of_request: "required_engine (if normalized_engine required = [] then None else Some (normalized_engine required)) =
    (if normalized_engine required = [] then None else Some (normalized_engine required))"
  by (simp add: required_engine_def normalized_engine_def lower_strip_idem Let_def)

lemma filter_engine_iff:
  "i \<in> set (filter_instances_by_engine_type is (if normalized_engine required = [] then None else Some (normalized_engine required))) \<longleftrightarrow>
     i \<in> set is \<and> matches_engine_type i (if normalized_engine required = [] then None else Some (normalized_engine required))"
proof (cases "normalized_engine required = []")
  case True
  have "normalized_engine None = []" by (simp add: normalized_engine_def strip_def lower_def)
  then show ?thesis using True by (simp add: filter_instances_by_engine_type_def matches_engine_type_def)
next
  case False
  have "normalized_engine (Some (normalized_engine required)) = normalized_engine required"
    by (simp add: normalized_engine_def lower_strip_idem)
  then show ?thesis using False by (simp add: filter_instances_by_engine_type_def matches_engine_type_def Let_def)
qed


section \<open>Worker and scheduler together\<close>

text \<open>The scheduler process behind the request channel: a refusal is a success without an instance, an exception an error.\<close>

definition scheduler_rpc :: "alloc_request \<Rightarrow> sched_server \<Rightarrow> sched_server \<times> alloc_reply" where
  "scheduler_rpc q sv =
     (case handle_allocate_only q sv of
        (sv', Inr (ALLOC_OK i e score fast wl)) \<Rightarrow> (sv', REPLY_SUCCESS (Some i) (Some e) (Some wl))
      | (sv', Inr ALLOC_NONE) \<Rightarrow> (sv', REPLY_SUCCESS None None None)
      | (sv', _) \<Rightarrow> (sv', REPLY_ERROR))"

text \<open>
  The cached instances of a role are, up to workloads, instances of the scheduler's pool, and the instances whose circuit is open are known to
  the worker.
\<close>

definition in_sync :: "sched_server \<Rightarrow> pd_role \<Rightarrow> worker \<Rightarrow> bool" where
  "in_sync sv role w \<longleftrightarrow>
     (\<forall>i \<in> set (cached_instances (wk_cache w) role). instance_role i = role \<and>
        (\<exists>r. dget (available_pool (sv_pools sv)) (ins_id i) = Some r \<and> reset_workload (obj (sv_pools sv) r) = reset_workload i)) \<and>
     (\<forall>n. cb_is_open n (breakers (sv_cb sv)) \<longrightarrow> is_instance_blocked w n)"

lemma reset_same:
  assumes "reset_workload i = reset_workload j"
  shows "ins_id i = ins_id j" "ins_role i = ins_role j" "engine_type i = engine_type j" "map ep_id (endpoint_objs i) = map ep_id (endpoint_objs j)"
proof -
  have ids: "map ep_id (endpoint_objs (reset_workload k)) = map ep_id (endpoint_objs k)" for k
    by (simp add: reset_workload_def endpoint_objs_map) (simp add: endpoint_objs_def iter_endpoints_def comp_def case_prod_unfold)
  have eng: "engine_type (reset_workload k) = engine_type k" for k by (simp add: reset_workload_def map_endpoints_def)
  show "ins_id i = ins_id j" by (metis assms reset_fields(1))
  show "ins_role i = ins_role j" by (metis assms reset_fields(2))
  show "engine_type i = engine_type j" by (metis assms eng)
  show "map ep_id (endpoint_objs i) = map ep_id (endpoint_objs j)" by (metis assms ids)
qed

lemma in_sync_schedulable:
  assumes sync: "in_sync sv role w" and i: "i \<in> set (cached_instances (wk_cache w) role)" "e \<in> set (routable_endpoints i)"
    "\<not> is_instance_blocked w (ins_id i)" "matches_engine_type i required"
  shows "\<exists>i' e'. schedulable sv role required i' e' \<and> ins_id i' = ins_id i \<and> ep_id e' = ep_id e"
proof -
  from sync i(1) obtain r where r: "dget (available_pool (sv_pools sv)) (ins_id i) = Some r" "reset_workload (obj (sv_pools sv) r) = reset_workload i"
    and role: "instance_role i = role" unfolding in_sync_def by blast
  let ?i = "obj (sv_pools sv) r"
  note same = reset_same [OF r(2)]
  have "ep_id e \<in> set (map ep_id (endpoint_objs ?i))" using routable_objs [OF i(2)] same(4) by simp
  then obtain e' where e': "e' \<in> set (endpoint_objs ?i)" "ep_id e' = ep_id e" by auto
  moreover have "\<not> cb_is_open (ins_id ?i) (breakers (sv_cb sv))" using sync i(3) same(1) unfolding in_sync_def by metis
  moreover have "instance_role ?i = role" using role same(2) by (simp add: instance_role_def)
  moreover have "matches_engine_type ?i required" using i(4) by (simp only: matches_engine_type_def same(3))
  ultimately have "schedulable sv role required ?i e'" using r(1) same(1) unfolding schedulable_def by auto
  then show ?thesis using same(1) e'(2) by blast
qed

lemma lb_candidates_sound:
  assumes "(i, e, sc) \<in> set (select_by_load_balance is role top_k c)"
  shows "i \<in> set is" "e \<in> set (routable_endpoints i)" "\<not> is_instance_blocked (cl_worker c) (ins_id i)"
proof -
  let ?blk = "Some (is_instance_blocked (cl_worker c))"
  from assms obtain x where x: "x \<in> set (select_endpoint_candidates_from_list is (Some (pd_role_value role)) (max 1 top_k) (cl_weight c)
      (start_offset c (length is)) ?blk)" "i = cand_instance x" "e = cand_endpoint x" unfolding select_by_load_balance_def by auto
  then have "x \<in> set (scored_candidates (Some (pd_role_value role)) (cl_weight c) ?blk (rotated (start_offset c (length is)) is))"
    unfolding select_candidates_stable by (metis in_set_takeD set_sort)
  then show "i \<in> set is" "e \<in> set (routable_endpoints i)" "\<not> is_instance_blocked (cl_worker c) (ins_id i)"
    unfolding scored_candidate_iff x(2,3) by simp_all
qed

lemma lb_candidates_found:
  assumes "i \<in> set is" "routable_endpoints i \<noteq> []" "\<not> is_instance_blocked (cl_worker c) (ins_id i)"
  shows "select_by_load_balance is role top_k c \<noteq> []"
proof -
  let ?blk = "Some (is_instance_blocked (cl_worker c))" and ?\<rho> = "Some (pd_role_value role)"
  let ?sc = "scored_candidates ?\<rho> (cl_weight c) ?blk (rotated (start_offset c (length is)) is)"
  obtain s where "calculate_endpoint_score i (routable_endpoints i ! 0) ?\<rho> (cl_weight c) = Inr s" using endpoint_score_total by blast
  then have "\<lparr>cand_instance = i, cand_endpoint = routable_endpoints i ! 0, cand_score = s\<rparr> \<in> set ?sc"
    unfolding scored_candidate_iff using assms by simp
  then have "?sc \<noteq> []" by auto
  then have "sort_key cand_score ?sc \<noteq> []" by (metis length_sort length_0_conv)
  then show ?thesis unfolding select_by_load_balance_def select_candidates_stable by simp
qed


lemma request_role_value [simp]: "request_role (Some (pd_role_value \<rho>)) = \<rho>"
  by (cases \<rho>) (simp_all add: request_role_def pd_role_of_def)

text \<open>Any policy: a proposal that the scheduler considers schedulable is answered with an endpoint.\<close>

lemma proposal_served:
  assumes ok: "server_ok sv" and p: "propose env resp role required rq (refresh_client rd role c) = ((rq1, c1), Inr (Some ((iid, eid), cands, policy, g)))"
    and sch: "schedulable sv role (if normalized_engine required = [] then None else Some (normalized_engine required)) i e"
      "ins_id i = iid" "ep_id e = eid"
  shows "\<exists>sv' i' e' wl. select_and_allocate env rd resp scheduler_rpc role None required rq c sv =
      (((rq1, fst (next_request_id c1)), sv'), Inr (Some (i', e', wl))) \<and> server_ok sv' \<and> sv_cb sv' = sv_cb sv \<and>
      schedulable sv role (if normalized_engine required = [] then None else Some (normalized_engine required)) i' e' \<and>
      all_entries (sv_pools sv') = (if tracks_workload sv
        then map (retoken (ins_id i', ep_id e') (max 0 (tokens e' + active_tokens wl))) (all_entries (sv_pools sv)) else all_entries (sv_pools sv))"
proof -
  let ?c = "fst (next_request_id c1)"
  let ?q = "build_request env role required rq1 ((iid, eid), cands, policy, g) ?c"
  have q: "aq_instance_id ?q = Given (ins_id i)" "aq_endpoint_id ?q = Given (ep_id e)" "request_role (aq_role ?q) = role"
    "required_engine (aq_required_engine_type ?q) = (if normalized_engine required = [] then None else Some (normalized_engine required))"
    "aq_workload_active_tokens ?q \<noteq> Missing" by (simp_all add: build_request_def sch(2,3) engine_of_request)
  then obtain demand where d: "worker_demand ?q = Some demand" by (simp add: build_request_def worker_demand_def)
  have wf: "pool_wf (sv_pools sv)" using ok by (simp add: server_ok_def ledgers_ok_def)
  have "fst (select_for_request ?q (ins_id i, ep_id e) sv) \<noteq> None" by (rule select_complete [OF wf]) (simp add: q sch(1))
  then obtain i' e' score fast where sel: "select_for_request ?q (ins_id i, ep_id e) sv = (Some (i', e', score), fast)"
    by (cases "select_for_request ?q (ins_id i, ep_id e) sv") auto
  from allocate_selected [OF ok q(1,2) d _ sel] q(5) obtain sv' wl where
    h: "handle_allocate_only ?q sv = (sv', Inr (ALLOC_OK i' e' score fast wl))" "server_ok sv'" "sv_cb sv' = sv_cb sv"
      "all_entries (sv_pools sv') = (if tracks_workload sv
        then map (retoken (ins_id i', ep_id e') (max 0 (tokens e' + active_tokens wl))) (all_entries (sv_pools sv)) else all_entries (sv_pools sv))"
    by auto
  have "schedulable sv role (if normalized_engine required = [] then None else Some (normalized_engine required)) i' e'"
    using select_sound(1) [OF wf sel] unfolding q .
  moreover have "select_and_allocate env rd resp scheduler_rpc role None required rq c sv = (((rq1, ?c), sv'), Inr (Some (i', e', wl)))"
    by (simp add: select_and_allocate_def Let_def p scheduler_rpc_def h(1) finish_allocation_def)
  ultimately show ?thesis using h(2-4) by blast
qed

text \<open>Round robin does not skip an instance whose circuit is open: a pick of one yields no candidate.\<close>

lemma round_robin_blocked_pick:
  assumes "scheduler_type_of c = ''round_robin''" "is \<noteq> []"
    and "is_instance_blocked (cl_worker c)
      (ins_id (is ! nat (((case dget (cl_instance_rr c) role of None \<Rightarrow> 0 | Some n \<Rightarrow> n) + start_offset c (length is)) mod int (length is))))"
  shows "snd (select_by_round_robin is role c) = []"
proof -
  let ?counters = "if dmem role (cl_instance_rr c) then cl_instance_rr c else dset role 0 (cl_instance_rr c)"
  let ?off = "start_offset c (length is)"
  let ?i = "is ! nat ((the (dget ?counters role) + ?off) mod int (length is))"
  let ?c1 = "c\<lparr>cl_instance_rr := dset role (the (dget ?counters role) + ?off + 1 - ?off) ?counters\<rparr>"
  have "the (dget ?counters role) = (case dget (cl_instance_rr c) role of None \<Rightarrow> 0 | Some n \<Rightarrow> n)"
    by (cases "dget (cl_instance_rr c) role") (simp_all add: dmem_def)
  then have blocked: "is_instance_blocked (cl_worker c) (ins_id ?i)" using assms(3) by (simp only:)
  have st: "scheduler_type_of ?c1 = ''round_robin''" using assms(1) by (auto simp: scheduler_type_of_def split: if_splits)
  have "snd (cl_select_endpoint_for_instance ?i ?c1) = None"
    unfolding cl_select_endpoint_for_instance_def st using blocked by (simp add: rr_select_endpoint_from_instance_def)
  then have "\<exists>c2. cl_select_endpoint_for_instance ?i ?c1 = (c2, None)" by (metis prod.collapse)
  then show ?thesis unfolding select_by_round_robin_def Let_def rr_select_instance_from_list_def if_not_P [OF assms(2)] by auto
qed

text \<open>
  C5: a load-balancing worker whose view is up to date is always served. If the cached instances of the role are, up to workloads, instances of
  the scheduler's pool and the worker knows every instance whose circuit is open, and if some cached instance of the required engine type is
  not blocked and has a routable endpoint, then select_and_allocate returns an instance and an endpoint, whatever the state of the round-robin
  counters, the index of the worker, the fresh list it might fetch and the loads. What it returns is available at the scheduler, of the
  role and engine type asked for and not behind an open circuit; exactly its load is committed, and one request id was used.
\<close>

theorem balanced_worker_served:
  assumes "server_ok sv" and "scheduler_type_of c = ''load_balance''" and "in_sync sv role (cl_worker (refresh_client rd role c))"
    and "i \<in> set (cached_instances (wk_cache (cl_worker (refresh_client rd role c))) role)" and "routable_endpoints i \<noteq> []"
    and "\<not> is_instance_blocked (cl_worker (refresh_client rd role c)) (ins_id i)"
    and "matches_engine_type i (if normalized_engine required = [] then None else Some (normalized_engine required))"
  shows "\<exists>rq' c' sv' i' e' wl.
    select_and_allocate env rd resp scheduler_rpc role None required rq c sv = (((rq', c'), sv'), Inr (Some (i', e', wl))) \<and>
    schedulable sv role (if normalized_engine required = [] then None else Some (normalized_engine required)) i' e' \<and>
    all_entries (sv_pools sv') = (if tracks_workload sv
      then map (retoken (ins_id i', ep_id e') (max 0 (tokens e' + active_tokens wl))) (all_entries (sv_pools sv)) else all_entries (sv_pools sv)) \<and>
    server_ok sv' \<and> sv_cb sv' = sv_cb sv \<and> cl_seq c' = cl_seq c + 1"
proof -
  let ?c = "refresh_client rd role c"
  let ?engine = "if normalized_engine required = [] then None else Some (normalized_engine required)"
  let ?is = "filter_instances_by_engine_type (cached_instances (wk_cache (cl_worker ?c)) role) ?engine"
  have st: "scheduler_type_of ?c = ''load_balance''" using assms(2) by (auto simp: scheduler_type_of_def refresh_client_def split: if_splits)
  have i: "i \<in> set ?is" using assms(4,7) unfolding filter_engine_iff by blast
  have "select_by_load_balance ?is role top_k ?c \<noteq> []" for top_k by (rule lb_candidates_found [OF i assms(5,6)])
  then obtain i1 e1 s1 ks where lb: "select_by_load_balance ?is role 1 ?c = (i1, e1, s1) # ks" by (metis list.exhaust prod.exhaust)
  from lb have "(i1, e1, s1) \<in> set (select_by_load_balance ?is role 1 ?c)" by simp
  note l = lb_candidates_sound [OF this]
  have "i1 \<in> set (cached_instances (wk_cache (cl_worker ?c)) role)" "matches_engine_type i1 ?engine" using l(1) unfolding filter_engine_iff by blast+
  from in_sync_schedulable [OF assms(3) this(1) l(2,3) this(2)]
  obtain i' e' where sch: "schedulable sv role ?engine i' e'" "ins_id i' = ins_id i1" "ep_id e' = ep_id e1" by blast
  have "?is \<noteq> []" using i by auto
  then have cands: "candidates_with_policy env resp role 1 ?engine rq ?c = ((rq, ?c), Inr ((i1, e1, s1) # ks, CANDIDATE_POLICY_LOAD_BALANCE))"
    using st lb by (simp add: candidates_with_policy_def candidates_from_list_def balance_or_rr_def Let_def)
  have ty: "cl_type ?c \<noteq> ''kv_cache_affinity''" using st by (auto simp: scheduler_type_of_def)
  have "propose env resp role required rq ?c = ((rq, ?c), Inr (Some ((ins_id i1, ep_id e1),
      candidate_endpoints role ?engine CANDIDATE_POLICY_LOAD_BALANCE (rq_debug rq) ((i1, e1, s1) # ks) ?c, CANDIDATE_POLICY_LOAD_BALANCE,
      is_global_affinity CANDIDATE_POLICY_LOAD_BALANCE (rq_debug rq))))"
    using ty cands by (simp add: propose_def Let_def)
  from proposal_served [OF assms(1) this sch] obtain sv' i2 e2 wl where
    "select_and_allocate env rd resp scheduler_rpc role None required rq c sv = (((rq, fst (next_request_id ?c)), sv'), Inr (Some (i2, e2, wl)))"
    "server_ok sv'" "sv_cb sv' = sv_cb sv" "schedulable sv role ?engine i2 e2"
    "all_entries (sv_pools sv') = (if tracks_workload sv
      then map (retoken (ins_id i2, ep_id e2) (max 0 (tokens e2 + active_tokens wl))) (all_entries (sv_pools sv)) else all_entries (sv_pools sv))"
    by blast
  moreover have "cl_seq (fst (next_request_id ?c)) = cl_seq c + 1" by (simp add: next_request_id_def refresh_client_def)
  ultimately show ?thesis by blast
qed


text \<open>A worker that has pulled the prefill instance of the concrete server.\<close>

definition demo_worker :: worker where
  "demo_worker = fst (wk_get_available_instances (Some ROLE_P) (GET_SUCCESS [Some (demo_heap 0)] None) (init_worker False))"

definition demo_client :: client where
  "demo_client = (init_client ''w0'' \<lparr>cc_type = Some ''load_balance'', cc_index = 1, cc_count = 2, cc_weight = 5 / 100, cc_mode = ''unified'',
     cc_kv = default_kv_params, cc_callback = False\<rparr>)\<lparr>cl_worker := demo_worker\<rparr>"

definition demo_env :: sel_env where
  "demo_env = \<lparr>en_query = (\<lambda>_. None), en_block_size = 128, en_tokenize = (\<lambda>_. []), en_image_score = (\<lambda>_. 0)\<rparr>"

definition demo_req :: req_state where
  "demo_req = \<lparr>rq_info = \<lparr>req_messages = [], req_len = 100, token_ids = None\<rparr>, rq_debug = None\<rparr>"

definition demo_read :: shm_read where
  "demo_read = \<lparr>rd_time = 0, rd_result = None, rd_pull = GET_NO_RESPONSE\<rparr>"

lemma demo_worker_facts:
  "cached_instances (wk_cache demo_worker) ROLE_P = [demo_heap 0]" "wk_reader demo_worker = None" "wk_blocked demo_worker = {}"
  by (simp_all add: demo_worker_def wk_get_available_instances_def List.map_filter_def init_worker_def init_cache_def Let_def attach_reader_def
    apply_role_def cached_instances_def id_of_def sorted_refs_def index_endpoints_def drop_endpoints_def set_role_def)

lemma reset_reset [simp]: "reset_workload (reset_workload i) = reset_workload i"
  by (simp add: reset_workload_def map_endpoints_def comp_def case_prod_unfold)

lemma demo_routable: "routable_endpoints (demo_heap 0) \<noteq> []"
  by (simp add: demo_heap_def demo_defs routable_endpoints_def get_all_endpoints_def select_endpoints_def Let_def iter_endpoints_def
    endpoint_at_def List.map_filter_def)

lemma demo_refresh: "cl_worker (refresh_client demo_read ROLE_P demo_client) = demo_worker"
  by (simp add: refresh_client_def refresh_cache_from_workload_reader_def demo_client_def demo_worker_facts)

theorem balanced_worker_served_witness:
  "\<exists>st sv' i e wl. select_and_allocate demo_env demo_read GET_NO_RESPONSE scheduler_rpc ROLE_P None None demo_req demo_client demo_server =
     ((st, sv'), Inr (Some (i, e, wl))) \<and> schedulable demo_server ROLE_P None i e"
proof -
  have sync: "in_sync demo_server ROLE_P demo_worker"
    by (simp add: in_sync_def demo_worker_facts cb_is_open_def instance_role_def pd_role_of_def demo_pools_fields)
  have ty: "scheduler_type_of demo_client = ''load_balance''" by (simp add: scheduler_type_of_def demo_client_def init_client_def)
  have eng: "normalized_engine None = []" by (simp add: normalized_engine_def strip_def lower_def)
  have "routable_endpoints (demo_heap 0) \<noteq> []" "\<not> is_instance_blocked demo_worker (ins_id (demo_heap 0))" "matches_engine_type (demo_heap 0) None"
    by (simp_all add: demo_routable is_instance_blocked_def demo_worker_facts matches_engine_type_def)
  from balanced_worker_served [OF demo_server_ok ty, of ROLE_P demo_read "demo_heap 0" None demo_env GET_NO_RESPONSE demo_req] this sync
  show ?thesis by (auto simp: demo_refresh demo_worker_facts eng)
qed

end
