(* ===== verification/Worker_Channel.thy ===== *)
theory Worker_Channel
  imports Scheduler_Client Precision_Alarm
begin

text \<open>
  The two remaining channels between a worker and the scheduler process, \<^verbatim>\<open>scheduler_client.py\<close>: the subscription to published changes
  (\<^verbatim>\<open>_InstancePushSubscriber\<close>, with what \<^verbatim>\<open>scheduler_server.py\<close> publishes), and the calls for the precision state of a prefill/unpack group. A frame is
  a string of bytes; the MessagePack codec is a parameter.
\<close>

section \<open>Published changes\<close>

definition INSTANCE_CHANGE_TOPIC :: string where
  "INSTANCE_CHANGE_TOPIC = ''instances_changed''"

definition CIRCUIT_BREAKER_TOPIC :: string where
  "CIRCUIT_BREAKER_TOPIC = ''circuit_breaker''"

definition publish_instance_changed :: "(instance_delta \<Rightarrow> string) \<Rightarrow> shm_writer option \<Rightarrow> event_type \<Rightarrow> instance_obj list \<Rightarrow> string list" where
  "publish_instance_changed enc writer ev is =
     [INSTANCE_CHANGE_TOPIC, dec_int (case writer of None \<Rightarrow> 0 | Some w \<Rightarrow> instance_version w)] @
     (case build_instance_delta ev is of None \<Rightarrow> [] | Some dl \<Rightarrow> [enc dl])"

definition breaker_frames :: "(int \<times> string \<Rightarrow> string) \<Rightarrow> int \<Rightarrow> string \<Rightarrow> string list" where
  "breaker_frames enc iid st = [CIRCUIT_BREAKER_TOPIC, enc (iid, st)]"

definition parse_int_frame :: "string list \<Rightarrow> nat \<Rightarrow> int option" where
  "parse_int_frame frames k = (if length frames \<le> k then None else parse_int (frames ! k))"

definition parse_msgpack_frame :: "(string \<Rightarrow> 'a option) \<Rightarrow> string list \<Rightarrow> nat \<Rightarrow> 'a option" where
  "parse_msgpack_frame unpack frames k = (if length frames \<le> k then None else unpack (frames ! k))"

text \<open>One message in \<open>_recv_loop\<close>; an exception of a handler is logged and the loop goes on.\<close>

definition recv_frames ::
    "(string \<Rightarrow> instance_delta option) \<Rightarrow> (string \<Rightarrow> (int \<times> string) option) \<Rightarrow> get_response \<Rightarrow> string list \<Rightarrow> worker \<Rightarrow> worker" where
  "recv_frames decode_delta decode_cb resp frames w =
     (let topic = (case frames of [] \<Rightarrow> [] | f # _ \<Rightarrow> f)
      in if topic = INSTANCE_CHANGE_TOPIC
         then on_instance_change_notify (parse_int_frame frames 1) (parse_msgpack_frame decode_delta frames 2) resp w
         else if topic = CIRCUIT_BREAKER_TOPIC
         then (case parse_msgpack_frame decode_cb frames 1 of None \<Rightarrow> w | Some (iid, st) \<Rightarrow> on_circuit_breaker_change iid st w)
         else w)"

lemma parse_int_dec_int: "parse_int (dec_int v) = Some v" if "0 \<le> v" for v
  using that by (simp add: dec_int_def)

text \<open>What the scheduler publishes is what the worker handles.\<close>

lemma published_is_handled:
  assumes "\<And>dl. decode_delta (enc dl) = Some dl" "\<And>w. writer = Some w \<Longrightarrow> 0 \<le> instance_version w"
  shows "recv_frames decode_delta decode_cb resp (publish_instance_changed enc writer ev is) w =
    on_instance_change_notify (Some (case writer of None \<Rightarrow> 0 | Some w \<Rightarrow> instance_version w)) (build_instance_delta ev is) resp w"
  using assms
  by (simp add: recv_frames_def publish_instance_changed_def parse_int_frame_def parse_msgpack_frame_def parse_int_dec_int
    split: option.splits)

lemma breaker_is_handled:
  assumes "decode_cb (enc (iid, st)) = Some (iid, st)"
  shows "recv_frames decode_delta decode_cb resp (breaker_frames enc iid st) w = on_circuit_breaker_change iid st w"
  using assms by (simp add: recv_frames_def breaker_frames_def parse_msgpack_frame_def INSTANCE_CHANGE_TOPIC_def CIRCUIT_BREAKER_TOPIC_def)

section \<open>Calls for the precision state\<close>

text \<open>What can happen to a call: no connection, a request or an answer that is lost, or delivery.\<close>

datatype delivery = NOT_CONNECTED | REQUEST_LOST | ANSWER_LOST | DELIVERED

definition call_scheduler :: "delivery \<Rightarrow> ('s \<Rightarrow> 's \<times> 'a handler_answer) \<Rightarrow> 's \<Rightarrow> 's \<times> 'a option" where
  "call_scheduler d h s =
     (case d of
        NOT_CONNECTED \<Rightarrow> (s, None)
      | REQUEST_LOST \<Rightarrow> (s, None)
      | ANSWER_LOST \<Rightarrow> (fst (h s), None)
      | DELIVERED \<Rightarrow> (case h s of (s1, REQ_OK a) \<Rightarrow> (s1, Some a) | (s1, REQ_ERROR _) \<Rightarrow> (s1, None)))"

definition cl_confirm_sample :: "delivery \<Rightarrow> int option \<times> int \<Rightarrow> rat \<Rightarrow> rat \<Rightarrow> precision_state \<Rightarrow> precision_state \<times> bool" where
  "cl_confirm_sample d key now interval_seconds s =
     map_prod id (\<lambda>r. r = Some True)
       (call_scheduler d (handle_confirm_sample (Given (snd key)) (Given now) (Given interval_seconds) (opt_field (fst key))) s)"

definition cl_record_precision_result ::
    "delivery \<Rightarrow> int option \<times> int \<Rightarrow> bool \<Rightarrow> int \<Rightarrow> int \<Rightarrow> bool \<Rightarrow> string \<Rightarrow> precision_state \<Rightarrow> precision_state \<times> precision_answer option" where
  "cl_record_precision_result d key has_issue threshold clear_threshold check_valid token s =
     call_scheduler d (handle_record_precision_result (Given (snd key)) (Some has_issue) (Given threshold) (Given clear_threshold)
       (Some check_valid) (opt_field (fst key)) token) s"

definition cl_finish_precision_action ::
    "delivery \<Rightarrow> int option \<times> int \<Rightarrow> string \<Rightarrow> string \<Rightarrow> bool \<Rightarrow> string option \<Rightarrow> bool \<Rightarrow> precision_state \<Rightarrow> precision_state \<times> bool" where
  "cl_finish_precision_action d key token action_type success moi auto_recovery_cleared s =
     map_prod id (\<lambda>r. r = Some True)
       (call_scheduler d (handle_finish_precision_action (Given (snd key)) token action_type success moi auto_recovery_cleared (opt_field (fst key))) s)"

definition cl_dismiss_precision_alarm_state :: "delivery \<Rightarrow> int option \<Rightarrow> int \<Rightarrow> precision_state \<Rightarrow> precision_state \<times> bool" where
  "cl_dismiss_precision_alarm_state d p d_id s =
     map_prod id (\<lambda>r. r = Some True) (call_scheduler d (handle_dismiss_precision_alarm_state (Given d_id) (opt_field p)) s)"

lemma opt_field_cases: "opt_field p \<noteq> Malformed" "parse_optional (opt_field p) = p"
  by (simp_all add: opt_field_def parse_optional_def split: option.split)

lemma confirm_sample_delivered: "cl_confirm_sample DELIVERED key now iv s = confirm_sample_exit key now iv s"
  by (cases key; cases "fst key"; cases "confirm_sample_exit key now iv s")
    (simp_all add: cl_confirm_sample_def call_scheduler_def handle_confirm_sample_def opt_field_def parse_optional_def)

lemma record_precision_delivered:
  "cl_record_precision_result DELIVERED key issue t c valid token s = map_prod id Some (record_precision_result key issue t c valid token s)"
  by (cases key; cases "fst key"; cases "record_precision_result key issue t c valid token s")
    (simp_all add: cl_record_precision_result_def call_scheduler_def handle_record_precision_result_def opt_field_def parse_optional_def)

lemma finish_precision_delivered:
  assumes "token \<noteq> []"
  shows "cl_finish_precision_action DELIVERED key token ty success moi auto s = finish_precision_action key token ty success moi auto s"
  using assms by (cases key; cases "fst key"; cases "finish_precision_action key token ty success moi auto s")
    (simp_all add: cl_finish_precision_action_def call_scheduler_def handle_finish_precision_action_def opt_field_def parse_optional_def)

text \<open>A call that is not delivered reports failure, also when the scheduler carried it out.\<close>

lemma lost_answer_reports_failure:
  "snd (cl_confirm_sample ANSWER_LOST key now iv s) = False"
  "fst (cl_confirm_sample ANSWER_LOST key now iv s) = fst (cl_confirm_sample DELIVERED key now iv s)"
  by (simp_all add: cl_confirm_sample_def call_scheduler_def split: prod.split handler_answer.split)

end
