(* ===== verification/Router_Attempt.thy ===== *)
theory Router_Attempt
  imports Request_Manager Scheduling_Policy
begin

text \<open>
  One attempt of the router to serve a request on a pair of instances: the attempt context and the session that numbers
  the attempts (\<^verbatim>\<open>motor/coordinator/router/dispatch_session.py\<close>), and the handler that computes the change of load
  of an allocation or a release (\<^verbatim>\<open>router/workload.py\<close>).

  An attempt is a mutable object that the router and its background tasks share. The tasks and the
  cancellers of the connection pool are not part of its state here; the release flags are.
\<close>

section \<open>Attempts\<close>

record scheduled_resource =
  res_instance :: instance_obj
  res_endpoint :: endpoint

datatype attempt_state = AT_CREATED | AT_DISPATCHING | AT_ACTIVE | AT_FIRST_VISIBLE | AT_DONE | AT_STOPPING | AT_STOPPED

datatype attempt_stop_reason = STOP_CLIENT_DISCONNECT | STOP_PEER_FAILED | STOP_OTHER

record attempt_release_flags =
  prefill_tokens :: bool
  decode_tokens :: bool

record attempt_context =
  root_request_id :: string
  attempt_seq :: int
  pair_id :: string
  prefill_resource :: "scheduled_resource option"
  decode_resource :: "scheduled_resource option"
  at_state :: attempt_state
  release_flags :: attempt_release_flags
  prefill_dispatched :: bool
  prefill_completed :: bool
  decode_dispatched :: bool
  decode_completed :: bool

definition transition :: "attempt_state \<Rightarrow> attempt_context \<Rightarrow> attempt_context \<times> bool" where
  "transition st a =
     (if at_state a = AT_STOPPED then (a, st = AT_STOPPED)
      else if at_state a = AT_STOPPING then
        (if st = AT_STOPPED then (a\<lparr>at_state := st\<rparr>, True) else (a, st = AT_STOPPING))
      else if at_state a = AT_DONE then (a, st = AT_DONE)
      else (a\<lparr>at_state := st\<rparr>, True))"

definition at_stop :: "attempt_context \<Rightarrow> attempt_context" where
  "at_stop a = (if at_state a \<in> {AT_DONE, AT_STOPPED} then a else a\<lparr>at_state := AT_STOPPING\<rparr>)"

definition mark_dispatched :: "string \<Rightarrow> attempt_context \<Rightarrow> attempt_context" where
  "mark_dispatched role a =
     (if role = ''prefill'' then a\<lparr>prefill_dispatched := True\<rparr> else a\<lparr>decode_dispatched := True\<rparr>)"

definition mark_completed :: "string \<Rightarrow> attempt_context \<Rightarrow> attempt_context" where
  "mark_completed role a =
     (if role = ''prefill'' then a\<lparr>prefill_completed := True\<rparr> else a\<lparr>decode_completed := True\<rparr>)"

definition needs_abort :: "string \<Rightarrow> attempt_context \<Rightarrow> bool" where
  "needs_abort role a =
     (if role = ''prefill'' then prefill_dispatched a \<and> \<not> prefill_completed a
      else decode_dispatched a \<and> \<not> decode_completed a)"

record dispatch_session =
  session_request_id :: string
  session_seq :: int

definition new_session :: "string \<Rightarrow> dispatch_session" where
  "new_session req_id = \<lparr>session_request_id = req_id, session_seq = 0\<rparr>"

text \<open>The pair id is a random UUID: an argument.\<close>

definition new_attempt ::
  "string \<Rightarrow> scheduled_resource option \<Rightarrow> scheduled_resource option \<Rightarrow> dispatch_session \<Rightarrow> dispatch_session \<times> attempt_context" where
  "new_attempt uuid p d s =
     (let s1 = s\<lparr>session_seq := session_seq s + 1\<rparr>
      in (s1, \<lparr>root_request_id = session_request_id s, attempt_seq = session_seq s1, pair_id = uuid,
               prefill_resource = p, decode_resource = d, at_state = AT_CREATED,
               release_flags = \<lparr>prefill_tokens = False, decode_tokens = False\<rparr>,
               prefill_dispatched = False, prefill_completed = False,
               decode_dispatched = False, decode_completed = False\<rparr>))"

section \<open>Release flags\<close>

definition release_already_marked :: "attempt_context \<Rightarrow> pd_role \<Rightarrow> workload_action \<Rightarrow> bool" where
  "release_already_marked a role action =
     (if role = ROLE_P \<and> action = RELEASE_TOKENS then prefill_tokens (release_flags a)
      else if role = ROLE_D \<and> action = RELEASE_TOKENS then decode_tokens (release_flags a)
      else False)"

definition mark_released :: "pd_role \<Rightarrow> workload_action \<Rightarrow> attempt_context \<Rightarrow> attempt_context" where
  "mark_released role action a =
     (if role = ROLE_P \<and> action = RELEASE_TOKENS then a\<lparr>release_flags := (release_flags a)\<lparr>prefill_tokens := True\<rparr>\<rparr>
      else if role = ROLE_D \<and> action = RELEASE_TOKENS then a\<lparr>release_flags := (release_flags a)\<lparr>decode_tokens := True\<rparr>\<rparr>
      else a)"

section \<open>Workload changes\<close>

definition normalize_role :: "scheduled_resource \<Rightarrow> pd_role option" where
  "normalize_role r = (case pd_role_of (ins_role (res_instance r)) of Inl _ \<Rightarrow> None | Inr role \<Rightarrow> Some role)"

definition compute_and_update ::
  "(string \<Rightarrow> rat) \<Rightarrow> scheduled_resource option \<Rightarrow> string \<Rightarrow> workload_action \<Rightarrow> request_info \<Rightarrow> int option \<Rightarrow>
   'r request_manager \<Rightarrow> 'r request_manager \<times> (workload \<times> pd_role) option" where
  "compute_and_update mul resource req_id action req seq m =
     (case resource of
        None \<Rightarrow> (m, None)
      | Some r \<Rightarrow>
          (case normalize_role r of
             None \<Rightarrow> (m, None)
           | Some role \<Rightarrow>
               (case action of
                  ALLOCATION \<Rightarrow>
                    (let wl = calculate_demand_workload mul role req
                     in case add_req_attempt_workload req_id seq role wl m of
                          (m1, ok) \<Rightarrow> (m1, if ok then Some (wl, role) else None))
                | RELEASE_TOKENS \<Rightarrow>
                    (case get_req_attempt_workload req_id seq role m of
                       None \<Rightarrow> (m, None)
                     | Some wl \<Rightarrow> (m, Some (\<lparr>active_tokens = - active_tokens wl\<rparr>, role))))))"

definition finalize_release :: "string \<Rightarrow> pd_role \<Rightarrow> int option \<Rightarrow> 'r request_manager \<Rightarrow> 'r request_manager \<times> bool" where
  "finalize_release req_id role seq m = del_req_attempt_workload req_id seq role m"

section \<open>The life of an attempt\<close>

text \<open>A step of an attempt's state, by the router or by one of its tasks.\<close>

inductive attempt_step :: "attempt_context \<Rightarrow> attempt_context \<Rightarrow> bool" where
  to_state: "attempt_step a (fst (transition st a))"
| stopped: "attempt_step a (at_stop a)"
| dispatched: "attempt_step a (mark_dispatched role a)"
| completed: "attempt_step a (mark_completed role a)"
| released: "attempt_step a (mark_released role action a)"

text \<open>
  Stopping cannot be undone, nothing leaves the two final states, and a leg that was completed or released stays so:
  a late task cannot bring an attempt back to life.
\<close>

lemma attempt_monotone:
  assumes "attempt_step\<^sup>*\<^sup>* a b"
  shows "(at_state a \<in> {AT_DONE, AT_STOPPED} \<longrightarrow> at_state b = at_state a) \<and>
         (at_state a = AT_STOPPING \<longrightarrow> at_state b \<in> {AT_STOPPING, AT_STOPPED}) \<and>
         (prefill_completed a \<longrightarrow> \<not> needs_abort ''prefill'' b) \<and>
         (release_already_marked a role RELEASE_TOKENS \<longrightarrow> release_already_marked b role RELEASE_TOKENS) \<and>
         attempt_seq b = attempt_seq a \<and> (prefill_completed a \<longrightarrow> prefill_completed b)"
  using assms
proof (induction rule: rtranclp_induct)
  case base
  show ?case by (simp add: needs_abort_def)
next
  case (step b c)
  from step(2) step.IH show ?case
    by cases (auto simp: transition_def at_stop_def mark_dispatched_def mark_completed_def mark_released_def
        needs_abort_def release_already_marked_def)
qed

text \<open>The refused transitions: the answer is true exactly if the attempt is then in the state asked for.\<close>

lemma transition_answer: "snd (transition st a) \<longleftrightarrow> at_state (fst (transition st a)) = st"
  by (auto simp: transition_def)

end
