(* ===== verification/Upstream_Http.thy ===== *)
theory Upstream_Http
  imports Py_Strings "HOL-Library.Sublist"
begin

text \<open>
  Errors and byte streams of the engines behind the router (\<^verbatim>\<open>motor/coordinator/router/upstream_error.py\<close> and
  the forwarding helpers of \<^verbatim>\<open>router/strategies/base.py\<close>): how an error of an engine is classified and rendered,
  the bounded reading of an error body and the cutting of a response stream into server-sent events.

  Bytes are characters. The class hierarchy of the HTTP client's transport errors is the documented one; the text of
  such an error and the decoding of bytes as UTF-8 are arguments.
\<close>

section \<open>Errors\<close>

datatype transport_error =
    ConnectError | ConnectTimeout | PoolTimeout | ReadError | ReadTimeout | RemoteProtocolError | WriteError | WriteTimeout
  | CloseError | LocalProtocolError | ProxyError | UnsupportedProtocol | DecodingError | TooManyRedirects

definition is_timeout_exception :: "transport_error \<Rightarrow> bool" where
  "is_timeout_exception e \<longleftrightarrow> e \<in> {ConnectTimeout, PoolTimeout, ReadTimeout, WriteTimeout}"

record upstream_http_error =
  ue_status_code :: int
  ue_body :: string
  ue_headers :: "(string, string) dict"
  ue_phase :: string
  ue_truncated :: bool

datatype router_error =
    Http_Exception int
  | Upstream upstream_http_error
  | Transport transport_error
  | Status_Error int
  | Cancelled "string option"
  | Request_Cancelled string
  | Runtime_Error
  | Other_Error

definition RETRYABLE_UPSTREAM_STATUS_CODES :: "int list" where
  "RETRYABLE_UPSTREAM_STATUS_CODES = [408, 425, 429, 500, 502, 503, 504]"

definition FORWARDED_ERROR_HEADERS :: "string list" where
  "FORWARDED_ERROR_HEADERS = [''content-type'', ''retry-after'']"

definition ERROR_MESSAGE_PREVIEW_BYTES :: nat where
  "ERROR_MESSAGE_PREVIEW_BYTES = 1024"

definition upstream_message :: "(string \<Rightarrow> string) \<Rightarrow> upstream_http_error \<Rightarrow> string" where
  "upstream_message utf8 e =
     (let preview = take ERROR_MESSAGE_PREVIEW_BYTES (ue_body e);
          text0 = strip (utf8 preview);
          text1 = (if ERROR_MESSAGE_PREVIEW_BYTES < length (ue_body e) then text0 @ ''...'' else text0);
          head = ''Upstream '' @ ue_phase e @ '' request failed with HTTP '' @ dec_int (ue_status_code e)
      in if text1 \<noteq> [] then head @ '': '' @ text1 else head)"

definition from_response :: "int \<Rightarrow> (string \<times> string) list \<Rightarrow> string \<Rightarrow> string \<Rightarrow> bool \<Rightarrow> upstream_http_error" where
  "from_response code hdrs body phase truncated =
     \<lparr>ue_status_code = code, ue_body = body,
      ue_headers = fold (\<lambda>(n, v) d. if lower n \<in> set FORWARDED_ERROR_HEADERS then dset (lower n) v d else d) hdrs [],
      ue_phase = phase, ue_truncated = truncated\<rparr>"

definition is_cb_reportable_failure :: "router_error \<Rightarrow> bool" where
  "is_cb_reportable_failure e = (case e of Upstream u \<Rightarrow> 500 \<le> ue_status_code u | _ \<Rightarrow> True)"

definition is_retryable_upstream_error :: "router_error \<Rightarrow> bool" where
  "is_retryable_upstream_error e =
     (case e of
        Upstream u \<Rightarrow> ue_status_code u \<in> set RETRYABLE_UPSTREAM_STATUS_CODES
      | Cancelled _ \<Rightarrow> False
      | Transport t \<Rightarrow> t \<in> {ConnectError, ConnectTimeout, PoolTimeout, ReadError, ReadTimeout, RemoteProtocolError,
                            WriteError, WriteTimeout}
      | _ \<Rightarrow> False)"

section \<open>Rendering\<close>

datatype http_body =
    Raw_Body string "(string, string) dict"
  | Json_Error string string int
  | Json_Detail string

record http_response =
  rsp_status :: int
  rsp_body :: http_body

definition render_upstream_error :: "(string \<Rightarrow> string) \<Rightarrow> upstream_http_error \<Rightarrow> http_response" where
  "render_upstream_error utf8 e =
     (if ue_body e \<noteq> [] \<and> \<not> ue_truncated e
      then \<lparr>rsp_status = ue_status_code e, rsp_body = Raw_Body (ue_body e) (ue_headers e)\<rparr>
      else \<lparr>rsp_status = ue_status_code e,
            rsp_body = Json_Error (upstream_message utf8 e) ''upstream_http_error'' (ue_status_code e)\<rparr>)"

definition render_transport_error :: "(transport_error \<Rightarrow> string) \<Rightarrow> (transport_error \<Rightarrow> string) \<Rightarrow> transport_error \<Rightarrow> http_response" where
  "render_transport_error str_of type_name e =
     (let code = (if is_timeout_exception e then 504 else 502)
      in \<lparr>rsp_status = code, rsp_body = Json_Error (str_of e) (type_name e) code\<rparr>)"

text \<open>The status code of the error response of a router (\<open>build_error_response\<close>).\<close>

definition error_response_code :: "router_error \<Rightarrow> int" where
  "error_response_code e =
     (case e of Http_Exception c \<Rightarrow> c | Upstream u \<Rightarrow> ue_status_code u | Status_Error c \<Rightarrow> c | _ \<Rightarrow> 500)"

section \<open>Reading an error body\<close>

text \<open>The loop of \<open>_read_bounded_error_body\<close> over the chunks of the response.\<close>

fun read_chunks :: "nat \<Rightarrow> string list \<Rightarrow> string \<Rightarrow> string \<times> bool" where
  "read_chunks limit [] body = (body, False)"
| "read_chunks limit (c # cs) body =
     (if c = [] then read_chunks limit cs body
      else (let body1 = body @ take (limit + 1 - length body) c
            in if limit + 1 \<le> length body1 then (take limit body1, True) else read_chunks limit cs body1))"

definition read_bounded_error_body :: "int \<Rightarrow> string list \<Rightarrow> string \<times> bool" where
  "read_bounded_error_body max_bytes chunks = read_chunks (nat (max max_bytes 0)) chunks []"

section \<open>Cutting a stream into events\<close>

text \<open>\<open>bytes.find\<close>: the position of the first occurrence.\<close>

fun find_sub :: "string \<Rightarrow> string \<Rightarrow> nat option" where
  "find_sub d [] = (if d = [] then Some 0 else None)"
| "find_sub d (c # cs) = (if prefix d (c # cs) then Some 0 else map_option Suc (find_sub d cs))"

abbreviation lf :: char where "lf \<equiv> CHR 0x0A"
abbreviation cr :: char where "cr \<equiv> CHR 0x0D"

definition frame_end :: "string \<Rightarrow> nat option" where
  "frame_end pending =
     (case (find_sub [lf, lf] pending, find_sub [cr, lf, cr, lf] pending) of
        (None, None) \<Rightarrow> None
      | (Some i, None) \<Rightarrow> Some (i + 2)
      | (None, Some j) \<Rightarrow> Some (j + 4)
      | (Some i, Some j) \<Rightarrow> if j < i then Some (j + 4) else Some (i + 2))"

text \<open>A found frame ends within the pending bytes and is not empty, which ends the inner loop.\<close>

lemma find_sub_bound: "find_sub d s = Some i \<Longrightarrow> i + length d \<le> length s"
  by (induction s arbitrary: i) (auto split: if_splits dest: prefix_length_le)

lemma frame_end_bound: "frame_end s = Some n \<Longrightarrow> 2 \<le> n \<and> n \<le> length s"
  using find_sub_bound [of "[lf, lf]" s] find_sub_bound [of "[cr, lf, cr, lf]" s]
  by (auto simp: frame_end_def split: option.splits if_splits)

function cut_frames :: "string \<Rightarrow> string list \<times> string" where
  "cut_frames pending =
     (case frame_end pending of
        None \<Rightarrow> ([], pending)
      | Some n \<Rightarrow> (case cut_frames (drop n pending) of (fs, rest) \<Rightarrow> (take n pending # fs, rest)))"
  by pat_completeness auto
termination
  by (relation "measure length") (auto dest: frame_end_bound)

declare cut_frames.simps [simp del]

text \<open>The chunks of the engine are appended to the pending bytes one after the other, and what is left at the end is
  the last frame.\<close>

fun stream_frames :: "string \<Rightarrow> string list \<Rightarrow> string list" where
  "stream_frames pending [] = (if pending \<noteq> [] then [pending] else [])"
| "stream_frames pending (c # cs) =
     (case cut_frames (pending @ c) of (fs, rest) \<Rightarrow> fs @ stream_frames rest cs)"

section \<open>What is read\<close>

text \<open>
  The body of an error is what the engine sent, cut at the limit, and it is marked as truncated exactly if something was
  cut off, however the engine's bytes are divided into chunks.
\<close>

lemma read_chunks_spec:
  "length body \<le> limit \<Longrightarrow>
   read_chunks limit cs body =
     (take limit (body @ concat cs), limit < length (body @ concat cs))"
proof (induction cs arbitrary: body)
  case (Cons c cs)
  show ?case
  proof (cases "limit < length (body @ c)")
    case True
    with Cons.prems have c: "c \<noteq> []" by auto
    have b: "body @ take (limit + 1 - length body) c = take (limit + 1) (body @ c)" using Cons.prems by simp
    have "limit + 1 \<le> length (take (limit + 1) (body @ c))" using True by simp
    moreover have "take limit (take (limit + 1) (body @ c)) = take limit (body @ concat (c # cs))"
      using True take_append [of limit "body @ c" "concat cs"] by (simp del: take_append)
    ultimately have "read_chunks limit (c # cs) body = (take limit (body @ concat (c # cs)), True)"
      using c by (simp only: read_chunks.simps if_False b Let_def if_True)
    then show ?thesis using True by simp
  next
    case False
    then have "body @ take (limit + 1 - length body) c = body @ c" by simp
    with False Cons.IH [of "body @ c"] Cons.IH [of body] Cons.prems show ?thesis by (auto simp: Let_def)
  qed
qed simp

section \<open>Independence of the chunks\<close>

lemma find_sub_nth: "find_sub d s = Some i \<Longrightarrow> k < length d \<Longrightarrow> s ! (i + k) = d ! k"
proof (induction s arbitrary: i)
  case (Cons c s)
  show ?case
  proof (cases "prefix d (c # s)")
    case True
    with Cons.prems show ?thesis by (auto simp: prefix_def nth_append)
  next
    case False
    with Cons.prems Cons.IH show ?thesis by auto
  qed
qed (simp split: if_splits)

lemma find_sub_append: "find_sub d s = Some i \<Longrightarrow> find_sub d (s @ t) = Some i"
proof (induction s arbitrary: i)
  case Nil
  then show ?case by (cases t) (auto split: if_splits)
next
  case (Cons c s)
  show ?case
  proof (cases "prefix d (c # s)")
    case True
    then have "prefix d ((c # s) @ t)" by (rule prefix_prefix)
    with True Cons.prems show ?thesis by auto
  next
    case False
    with Cons.prems obtain j where j: "find_sub d s = Some j" "i = Suc j" by auto
    have "\<not> prefix d ((c # s) @ t)"
    proof
      assume "prefix d ((c # s) @ t)"
      moreover have "length d \<le> length (c # s)" using find_sub_bound [OF j(1)] by simp
      ultimately have "prefix d (c # s)" by (metis prefix_length_prefix prefixI)
      with False show False ..
    qed
    with Cons.IH [OF j(1)] j(2) show ?thesis by simp
  qed
qed

lemma find_sub_new: "find_sub d s = None \<Longrightarrow> find_sub d (s @ t) = Some i \<Longrightarrow> length s < i + length d"
proof (induction s arbitrary: i)
  case Nil
  then show ?case by (cases "d = []") auto
next
  case (Cons c s)
  have np: "\<not> prefix d (c # s)" and none: "find_sub d s = None" using Cons.prems(1) by (auto split: if_splits)
  show ?case
  proof (cases "prefix d ((c # s) @ t)")
    case True
    then have "\<not> length d \<le> length (c # s)" using np by (metis prefix_length_prefix prefixI)
    with True Cons.prems(2) show ?thesis by simp
  next
    case False
    with Cons.prems(2) obtain j where "find_sub d (s @ t) = Some j" "i = Suc j" by auto
    with Cons.IH [OF none] show ?thesis by fastforce
  qed
qed

text \<open>A blank line of one kind never begins inside an earlier one of the other kind and ends before it does.\<close>

lemma no_overlap:
  assumes "find_sub [lf, lf] s = Some i" and "find_sub [cr, lf, cr, lf] s = Some j" and "j < i"
  shows "j + 4 \<le> i + 1"
proof (rule ccontr)
  assume "\<not> ?thesis"
  with assms(3) have "i = j + 1 \<or> i = j + 2" by linarith
  moreover have "s ! (j + 2) = cr" using find_sub_nth [OF assms(2), of 2] by simp
  moreover have "s ! i = lf" "s ! (i + 1) = lf" using find_sub_nth [OF assms(1), of 0] find_sub_nth [OF assms(1), of 1] by simp_all
  ultimately show False by auto
qed

lemma frame_end_append:
  assumes "frame_end s = Some n"
  shows "frame_end (s @ t) = Some n"
proof (cases "find_sub [lf, lf] s")
  case None
  with assms obtain j where j: "find_sub [cr, lf, cr, lf] s = Some j" "n = j + 4" by (auto simp: frame_end_def split: option.splits)
  from j(1) find_sub_append have j': "find_sub [cr, lf, cr, lf] (s @ t) = Some j" by blast
  from find_sub_bound [OF j(1)] find_sub_new [OF None, of t] have "j < i" if "find_sub [lf, lf] (s @ t) = Some i" for i
    using that by fastforce
  with j' j(2) show ?thesis by (auto simp: frame_end_def split: option.splits)
next
  case (Some i)
  then have i': "find_sub [lf, lf] (s @ t) = Some i" by (rule find_sub_append)
  show ?thesis
  proof (cases "find_sub [cr, lf, cr, lf] s")
    case (Some j)
    then have "find_sub [cr, lf, cr, lf] (s @ t) = Some j" by (rule find_sub_append)
    with i' Some \<open>find_sub [lf, lf] s = Some i\<close> assms show ?thesis by (simp add: frame_end_def)
  next
    case None
    have "\<not> j < i" if j: "find_sub [cr, lf, cr, lf] (s @ t) = Some j" for j
      using no_overlap [OF i' j] find_sub_new [OF None j] find_sub_bound [OF \<open>find_sub [lf, lf] s = Some i\<close>] by fastforce
    with i' None \<open>find_sub [lf, lf] s = Some i\<close> assms show ?thesis by (auto simp: frame_end_def split: option.splits)
  qed
qed

lemma cut_frames_append:
  "cut_frames (s @ t) = (case cut_frames s of (fs, rest) \<Rightarrow> case cut_frames (rest @ t) of (gs, r) \<Rightarrow> (fs @ gs, r))"
proof (induction s rule: cut_frames.induct)
  case (1 s)
  show ?case
  proof (cases "frame_end s")
    case None
    then have "cut_frames s = ([], s)" by (simp add: cut_frames.simps [of s])
    then show ?thesis by (simp split: prod.splits)
  next
    case (Some n)
    then have n: "n \<le> length s" using frame_end_bound by blast
    have st: "frame_end (s @ t) = Some n" using Some by (rule frame_end_append)
    show ?thesis
      using "1.IH" [OF Some] n Some st
      by (subst (1 2) cut_frames.simps) (auto split: prod.splits)
  qed
qed

lemma cut_frames_parts:
  assumes "cut_frames s = (fs, rest)"
  shows "concat fs @ rest = s \<and> frame_end rest = None \<and> list_all (\<lambda>f. frame_end f = Some (length f)) fs"
  using assms
proof (induction s arbitrary: fs rest rule: cut_frames.induct)
  case (1 s)
  show ?case
  proof (cases "frame_end s")
    case None
    with "1.prems" show ?thesis by (simp add: cut_frames.simps [of s])
  next
    case (Some n)
    obtain gs r where g: "cut_frames (drop n s) = (gs, r)" by force
    with Some "1.prems" have fs: "fs = take n s # gs" "rest = r" by (simp_all add: cut_frames.simps [of s])
    have n: "n \<le> length s" using frame_end_bound [OF Some] by simp
    have "frame_end (take n s) = Some n"
    proof (cases "frame_end (take n s)")
      case (Some m)
      with frame_end_append [of "take n s" m "drop n s"] \<open>frame_end s = Some n\<close> show ?thesis by simp
    next
      case None
      then have none: "find_sub [lf, lf] (take n s) = None" "find_sub [cr, lf, cr, lf] (take n s) = None"
        by (auto simp: frame_end_def split: option.splits if_splits)
      from find_sub_new [OF none(1), of "drop n s"] find_sub_new [OF none(2), of "drop n s"] \<open>frame_end s = Some n\<close> n show ?thesis
        by (auto simp: frame_end_def split: option.splits if_splits)
    qed
    with "1.IH" [OF Some g] fs n show ?thesis by simp
  qed
qed

lemma stream_frames_whole:
  "frame_end p = None \<Longrightarrow>
   stream_frames p cs = (case cut_frames (p @ concat cs) of (fs, rest) \<Rightarrow> fs @ (if rest \<noteq> [] then [rest] else []))"
proof (induction cs arbitrary: p)
  case Nil
  then show ?case by (simp add: cut_frames.simps [of p])
next
  case (Cons c cs)
  obtain fs rest where f: "cut_frames (p @ c) = (fs, rest)" by force
  from cut_frames_parts [OF f] have "frame_end rest = None" by simp
  with Cons.IH [of rest] f show ?case
    by (simp add: cut_frames_append [of "p @ c" "concat cs", simplified] split: prod.splits)
qed

text \<open>
  C11: the framing of a response stream does not depend on how the engine's bytes arrive. Whatever the chunks, the router
  yields the frames it would yield if all bytes came at once; nothing is lost, repeated or reordered; and every frame but
  possibly the last is one event, up to and including the first blank line (of either kind) in it.
\<close>

theorem sse_framing_chunk_independent:
  "stream_frames [] cs = stream_frames [] [concat cs] \<and> concat (stream_frames [] cs) = concat cs \<and>
   list_all (\<lambda>f. frame_end f = Some (length f)) (butlast (stream_frames [] cs))"
proof -
  obtain fs rest where f: "cut_frames (concat cs) = (fs, rest)" by force
  have none: "frame_end [] = None" by (simp add: frame_end_def)
  have s: "stream_frames [] cs = fs @ (if rest \<noteq> [] then [rest] else [])" "stream_frames [] [concat cs] = stream_frames [] cs"
    using stream_frames_whole [OF none, of cs] stream_frames_whole [OF none, of "[concat cs]"] f by simp_all
  have "list_all (\<lambda>f. frame_end f = Some (length f)) (butlast fs)"
    using cut_frames_parts [OF f] by (auto simp: list_all_iff dest: in_set_butlastD)
  with s cut_frames_parts [OF f] show ?thesis by (cases "rest = []") (simp_all add: butlast_append)
qed

end
