(* ===== verification/Router_Release.thy ===== *)
theory Router_Release
  imports Router_Attempt Upstream_Http Scheduler_Client
begin

text \<open>
  How the router records the load it was allotted and gives it back
  (\<open>UnifiedPDRouter\<close>, \<^verbatim>\<open>motor/coordinator/router/strategies/unified_pd.py\<close>): the allocation of a leg, the background
  release tasks with their deduplication and retries, and the bookkeeping of the tasks in flight.

  A task is a coroutine; its state is the point where it waits. Between two such points it runs without
  interruption, so each step below is one function. What the scheduler answers to a request, and whether the answer
  arrives, is an argument of the step that waits for it.
\<close>

section \<open>State\<close>

type_synonym release_key = "string \<times> int \<times> pd_role \<times> workload_action"

record release_work_item =
  ri_stage :: string
  ri_params :: update_request
  ri_attempt_seq :: int
  ri_role :: pd_role
  ri_action :: workload_action

datatype release_pc =
    Task_Created
  | Task_Compute
  | Task_Send release_work_item nat
  | Task_Finalize release_work_item
  | Task_Ended "bool option"

text \<open>\<open>rk_attempt\<close>: whether the task was given the attempt object (an attempt is found by its number).\<close>

record release_task =
  rk_resource :: scheduled_resource
  rk_seq :: int
  rk_action :: workload_action
  rk_attempt :: bool
  rk_pc :: release_pc

record release_task_record =
  rr_key :: release_key
  rr_item :: "release_work_item option"

record 'r router =
  rt_req_id :: string
  rt_req_info :: request_info
  rt_manager :: "'r request_manager"
  rt_attempts :: "(int, attempt_context) dict"
  release_inflight :: "(release_key, nat) dict"
  release_records :: "(nat, release_task_record) dict"
  rt_tasks :: "(nat, release_task) dict"
  rt_next_task :: nat

definition RELEASE_RPC_ATTEMPTS :: nat where
  "RELEASE_RPC_ATTEMPTS = 3"

section \<open>Allocation of a leg\<close>

text \<open>
  \<open>_prepare_attempt_resource\<close>, given the answer of \<open>select_and_allocate\<close>. A record that already
  exists raises, after the scheduler has committed the load.
\<close>

definition record_attempt_workload :: "int \<Rightarrow> pd_role \<Rightarrow> workload \<Rightarrow> 'r router \<Rightarrow> 'r router \<times> (router_error + unit)" where
  "record_attempt_workload seq role wl rt =
     (case add_req_attempt_workload (rt_req_id rt) (Some seq) role wl (rt_manager rt) of
        (m, True) \<Rightarrow> (rt\<lparr>rt_manager := m\<rparr>, Inr ())
      | (m, False) \<Rightarrow> (rt\<lparr>rt_manager := m\<rparr>, Inl Runtime_Error))"

definition prepare_attempt_resource ::
  "pd_role \<Rightarrow> int \<Rightarrow> string option \<Rightarrow> (instance_obj \<times> endpoint \<times> workload) option \<Rightarrow> 'r router \<Rightarrow>
   'r router \<times> (router_error + scheduled_resource)" where
  "prepare_attempt_resource role seq required_engine_type result rt =
     (case result of
        None \<Rightarrow> (rt, Inl (case required_engine_type of None \<Rightarrow> Runtime_Error | Some _ \<Rightarrow> Http_Exception 503))
      | Some (i, e, wl) \<Rightarrow>
          (case record_attempt_workload seq role wl rt of
             (rt1, Inl x) \<Rightarrow> (rt1, Inl x)
           | (rt1, Inr _) \<Rightarrow> (rt1, Inr \<lparr>res_instance = i, res_endpoint = e\<rparr>)))"

section \<open>Release tasks\<close>

fun workload_action_value :: "workload_action \<Rightarrow> string" where
  "workload_action_value ALLOCATION = ''Allocation''"
| "workload_action_value RELEASE_TOKENS = ''Release_Tokens''"

definition release_stage :: "pd_role \<Rightarrow> workload_action \<Rightarrow> string" where
  "release_stage role action =
     (if role = ROLE_P \<and> action = RELEASE_TOKENS then ''release_p_tokens''
      else if role = ROLE_D \<and> action = RELEASE_TOKENS then ''release_d_tokens''
      else ''release_'' @ pd_role_value role @ ''_'' @ lower (workload_action_value action))"

definition release_operation_id :: "string \<Rightarrow> int \<Rightarrow> scheduled_resource \<Rightarrow> workload_action \<Rightarrow> string" where
  "release_operation_id req_id seq r action =
     req_id @ '':a'' @ dec_int seq @ '':'' @ dec_int (ins_id (res_instance r)) @ '':'' @ dec_int (ep_id (res_endpoint r)) @
     '':'' @ workload_action_value action"

definition prepare_release_work_item ::
  "(string \<Rightarrow> rat) \<Rightarrow> scheduled_resource \<Rightarrow> int \<Rightarrow> workload_action \<Rightarrow> 'r router \<Rightarrow> 'r router \<times> release_work_item option" where
  "prepare_release_work_item mul r seq action rt =
     (case compute_and_update mul (Some r) (rt_req_id rt) action (rt_req_info rt) (Some seq) (rt_manager rt) of
        (m, None) \<Rightarrow> (rt\<lparr>rt_manager := m\<rparr>, None)
      | (m, Some (change, role)) \<Rightarrow>
          (rt\<lparr>rt_manager := m\<rparr>,
           Some \<lparr>ri_stage = release_stage role action,
                 ri_params = build_update (ins_id (res_instance r)) (ep_id (res_endpoint r)) role (workload_action_value action)
                   change (Some (release_operation_id (rt_req_id rt) seq r action)),
                 ri_attempt_seq = seq, ri_role = role, ri_action = action\<rparr>))"

definition marked :: "bool \<Rightarrow> int \<Rightarrow> pd_role \<Rightarrow> workload_action \<Rightarrow> 'r router \<Rightarrow> bool" where
  "marked with_attempt seq role action rt \<longleftrightarrow>
     with_attempt \<and> (case dget (rt_attempts rt) seq of None \<Rightarrow> False | Some a \<Rightarrow> release_already_marked a role action)"

definition track_release_task :: "nat \<Rightarrow> release_key \<Rightarrow> 'r router \<Rightarrow> 'r router" where
  "track_release_task t key rt =
     rt\<lparr>release_inflight := dset key t (release_inflight rt),
        release_records := dset t \<lparr>rr_key = key, rr_item = None\<rparr> (release_records rt)\<rparr>"

text \<open>The answer is the task to wait for, if there is one. The role of a scheduled instance is a \<open>PDRole\<close> value or raises.\<close>

definition enqueue_release_attempt_resource ::
  "scheduled_resource \<Rightarrow> int \<Rightarrow> workload_action \<Rightarrow> bool \<Rightarrow> 'r router \<Rightarrow> 'r router \<times> (py_exn + nat option)" where
  "enqueue_release_attempt_resource r seq action with_attempt rt =
     (case normalize_role r of
        None \<Rightarrow> (rt, Inl ValueError)
      | Some role \<Rightarrow>
          if marked with_attempt seq role action rt then (rt, Inr None)
          else (let key = (rt_req_id rt, seq, role, action)
                in case dget (release_inflight rt) key of
                     Some t \<Rightarrow> (rt, Inr (Some t))
                   | None \<Rightarrow>
                       (let t = rt_next_task rt;
                            rt1 = rt\<lparr>rt_tasks := dset t \<lparr>rk_resource = r, rk_seq = seq, rk_action = action,
                                                         rk_attempt = with_attempt, rk_pc = Task_Created\<rparr> (rt_tasks rt),
                                     rt_next_task := t + 1\<rparr>
                        in (track_release_task t key rt1, Inr (Some t)))))"

definition cleanup_release_task :: "nat \<Rightarrow> 'r router \<Rightarrow> 'r router \<times> release_work_item option" where
  "cleanup_release_task t rt =
     (case dget (release_records rt) t of
        None \<Rightarrow> (rt, None)
      | Some rec \<Rightarrow>
          (let rt1 = rt\<lparr>release_records := ddel t (release_records rt)\<rparr>
           in (if dget (release_inflight rt) (rr_key rec) = Some t
               then rt1\<lparr>release_inflight := ddel (rr_key rec) (release_inflight rt)\<rparr> else rt1, rr_item rec)))"

definition set_pc :: "nat \<Rightarrow> release_pc \<Rightarrow> 'r router \<Rightarrow> 'r router" where
  "set_pc t pc rt =
     (case dget (rt_tasks rt) t of None \<Rightarrow> rt | Some k \<Rightarrow> rt\<lparr>rt_tasks := dset t (k\<lparr>rk_pc := pc\<rparr>) (rt_tasks rt)\<rparr>)"

text \<open>The steps of \<open>_release_attempt_resource_task\<close>. A step of a task that is not at that point changes nothing.\<close>

definition task_start :: "nat \<Rightarrow> 'r router \<Rightarrow> 'r router" where
  "task_start t rt =
     (case dget (rt_tasks rt) t of
        Some k \<Rightarrow>
          (if rk_pc k \<noteq> Task_Created then rt
           else (case normalize_role (rk_resource k) of
                   None \<Rightarrow> set_pc t (Task_Ended (Some False)) rt
                 | Some role \<Rightarrow>
                     if marked (rk_attempt k) (rk_seq k) role (rk_action k) rt then set_pc t (Task_Ended (Some True)) rt
                     else set_pc t Task_Compute rt))
      | None \<Rightarrow> rt)"

definition task_compute :: "(string \<Rightarrow> rat) \<Rightarrow> nat \<Rightarrow> 'r router \<Rightarrow> 'r router" where
  "task_compute mul t rt =
     (case dget (rt_tasks rt) t of
        Some k \<Rightarrow>
          (if rk_pc k \<noteq> Task_Compute then rt
           else (case prepare_release_work_item mul (rk_resource k) (rk_seq k) (rk_action k) rt of
                   (rt1, None) \<Rightarrow> set_pc t (Task_Ended (Some True)) rt1
                 | (rt1, Some item) \<Rightarrow>
                     (let rt2 = (case dget (release_records rt1) t of
                                   None \<Rightarrow> rt1
                                 | Some rec \<Rightarrow> rt1\<lparr>release_records := dset t (rec\<lparr>rr_item := Some item\<rparr>) (release_records rt1)\<rparr>)
                      in set_pc t (Task_Send item 0) rt2)))
      | None \<Rightarrow> rt)"

text \<open>\<open>_send_release_work_item\<close>: one try, given whether the scheduler's success arrived.\<close>

definition task_sent :: "bool \<Rightarrow> nat \<Rightarrow> 'r router \<Rightarrow> 'r router" where
  "task_sent ok t rt =
     (case dget (rt_tasks rt) t of
        Some k \<Rightarrow>
          (case rk_pc k of
             Task_Send item retry \<Rightarrow>
               if ok then set_pc t (Task_Finalize item) rt
               else if retry + 1 < RELEASE_RPC_ATTEMPTS then set_pc t (Task_Send item (retry + 1)) rt
               else set_pc t (Task_Ended (Some False)) rt
           | _ \<Rightarrow> rt)
      | None \<Rightarrow> rt)"

text \<open>The release was acknowledged; \<open>raised\<close> is whether \<open>finalize_release\<close> raises.\<close>

definition task_finalize :: "bool \<Rightarrow> nat \<Rightarrow> 'r router \<Rightarrow> 'r router" where
  "task_finalize raised t rt =
     (case dget (rt_tasks rt) t of
        Some k \<Rightarrow>
          (case rk_pc k of
             Task_Finalize item \<Rightarrow>
               (if raised then set_pc t (Task_Ended (Some True)) rt
                else (let m = fst (finalize_release (rt_req_id rt) (ri_role item) (Some (rk_seq k)) (rt_manager rt));
                          as = (case dget (rt_attempts rt) (rk_seq k) of
                                  Some a \<Rightarrow> (if rk_attempt k
                                             then dset (rk_seq k) (mark_released (ri_role item) (ri_action item) a) (rt_attempts rt)
                                             else rt_attempts rt)
                                | None \<Rightarrow> rt_attempts rt)
                      in set_pc t (Task_Ended (Some True)) (rt\<lparr>rt_manager := m, rt_attempts := as\<rparr>)))
           | _ \<Rightarrow> rt)
      | None \<Rightarrow> rt)"

definition task_cancel :: "nat \<Rightarrow> 'r router \<Rightarrow> 'r router" where
  "task_cancel t rt =
     (case dget (rt_tasks rt) t of
        Some k \<Rightarrow> (case rk_pc k of Task_Ended _ \<Rightarrow> rt | _ \<Rightarrow> set_pc t (Task_Ended None) rt)
      | None \<Rightarrow> rt)"

section \<open>Releasing an attempt\<close>

definition release_leg :: "scheduled_resource option \<Rightarrow> int \<Rightarrow> 'r router \<Rightarrow> 'r router" where
  "release_leg r seq rt = (case r of None \<Rightarrow> rt | Some x \<Rightarrow> fst (enqueue_release_attempt_resource x seq RELEASE_TOKENS True rt))"

definition release_attempt :: "attempt_context \<Rightarrow> 'r router \<Rightarrow> 'r router" where
  "release_attempt a rt =
     release_leg (decode_resource a) (attempt_seq a) (release_leg (prefill_resource a) (attempt_seq a) rt)"

definition submit_prefill_release_background :: "attempt_context \<Rightarrow> 'r router \<Rightarrow> 'r router" where
  "submit_prefill_release_background a rt = release_leg (prefill_resource a) (attempt_seq a) rt"

text \<open>The result handling after a drain: every task that was waited for is dropped from the bookkeeping.\<close>

definition handle_release_task_results :: "nat list \<Rightarrow> 'r router \<Rightarrow> 'r router" where
  "handle_release_task_results ts rt = fold (\<lambda>t r. fst (cleanup_release_task t r)) ts rt"

section \<open>Coordination of the legs\<close>

datatype coordination_mode = HANDOFF | BOOTSTRAP

text \<open>The adapters of \<^verbatim>\<open>router/adapters/pd_protocol.py\<close> by engine type, with their mode.\<close>

definition adapter_mode :: "string \<Rightarrow> coordination_mode option" where
  "adapter_mode engine = (if engine = ''vllm'' then Some HANDOFF else if engine = ''sglang'' then Some BOOTSTRAP else None)"

definition adapter_for_attempt :: "attempt_context \<Rightarrow> (string \<times> coordination_mode) option" where
  "adapter_for_attempt a =
     (case prefill_resource a of
        None \<Rightarrow> None
      | Some p \<Rightarrow>
          (case engine_type (res_instance p) of
             None \<Rightarrow> None
           | Some e \<Rightarrow> map_option (Pair (lower (strip e))) (adapter_mode (lower (strip e)))))"

definition decode_matches :: "attempt_context \<Rightarrow> string \<Rightarrow> bool" where
  "decode_matches a engine =
     (case decode_resource a of
        None \<Rightarrow> True
      | Some d \<Rightarrow> (case engine_type (res_instance d) of None \<Rightarrow> False | Some e \<Rightarrow> lower (strip e) = engine))"

definition select_coordination_mode :: "attempt_context \<Rightarrow> router_error + coordination_mode" where
  "select_coordination_mode a =
     (case adapter_for_attempt a of
        None \<Rightarrow> Inl Runtime_Error
      | Some (engine, mode) \<Rightarrow>
          if mode = BOOTSTRAP \<and> decode_resource a = None then Inl Runtime_Error
          else if \<not> decode_matches a engine then Inl Runtime_Error
          else Inr mode)"

definition should_defer_decode_allocation :: "scheduled_resource \<Rightarrow> bool" where
  "should_defer_decode_allocation p =
     (case engine_type (res_instance p) of None \<Rightarrow> False | Some e \<Rightarrow> adapter_mode (lower (strip e)) = Some HANDOFF)"

section \<open>Creating an attempt\<close>

text \<open>
  The outcome of \<open>select_and_allocate\<close> is an argument: an exception (a cancellation among them), or the answer.
\<close>

type_synonym selection = "router_error + (instance_obj \<times> endpoint \<times> workload) option"

definition allocate_leg :: "pd_role \<Rightarrow> int \<Rightarrow> string option \<Rightarrow> selection \<Rightarrow> 'r router \<Rightarrow> 'r router \<times> (router_error + scheduled_resource)" where
  "allocate_leg role seq required sel rt =
     (case sel of Inl x \<Rightarrow> (rt, Inl x) | Inr result \<Rightarrow> prepare_attempt_resource role seq required result rt)"

definition is_cancellation :: "router_error \<Rightarrow> bool" where
  "is_cancellation e = (case e of Cancelled _ \<Rightarrow> True | _ \<Rightarrow> False)"

definition open_attempt ::
  "string \<Rightarrow> scheduled_resource \<Rightarrow> scheduled_resource option \<Rightarrow> dispatch_session \<Rightarrow> 'r router \<Rightarrow>
   (dispatch_session \<times> 'r router) \<times> (router_error + attempt_context)" where
  "open_attempt uuid p d ses rt =
     (case new_attempt uuid (Some p) d ses of
        (ses1, a) \<Rightarrow> ((ses1, rt\<lparr>rt_attempts := dset (attempt_seq a) a (rt_attempts rt)\<rparr>), Inr a))"

text \<open>
  \<open>_create_attempt\<close>. When the decode leg fails, the release of the prefill leg is queued and waited for; the
  handler \<open>except Exception\<close> does not see a cancellation.
\<close>

definition create_attempt ::
  "string \<Rightarrow> selection \<Rightarrow> selection \<Rightarrow> dispatch_session \<Rightarrow> 'r router \<Rightarrow> (dispatch_session \<times> 'r router) \<times> (router_error + attempt_context)" where
  "create_attempt uuid p_sel d_sel ses rt =
     (let seq = session_seq ses + 1
      in case allocate_leg ROLE_P seq None p_sel rt of
           (rt1, Inl x) \<Rightarrow> ((ses, rt1), Inl x)
         | (rt1, Inr p) \<Rightarrow>
             if should_defer_decode_allocation p then open_attempt uuid p None ses rt1
             else (case allocate_leg ROLE_D seq (Some (case engine_type (res_instance p) of None \<Rightarrow> ''None'' | Some e \<Rightarrow> e)) d_sel rt1 of
                     (rt2, Inr d) \<Rightarrow> open_attempt uuid p (Some d) ses rt2
                   | (rt2, Inl x) \<Rightarrow>
                       ((ses, if is_cancellation x then rt2
                              else fst (enqueue_release_attempt_resource p seq RELEASE_TOKENS False rt2)), Inl x)))"

text \<open>
  \<open>_ensure_handoff_decode_resource\<close>: the decode leg of an attempt that deferred it. A decode instance of another engine
  type is given back.
\<close>

definition ensure_handoff_decode_resource ::
  "selection \<Rightarrow> attempt_context \<Rightarrow> 'r router \<Rightarrow> 'r router \<times> (router_error + bool) \<times> attempt_context" where
  "ensure_handoff_decode_resource d_sel a rt =
     (if decode_resource a \<noteq> None then (rt, Inr False, a)
      else (case adapter_for_attempt a of
              None \<Rightarrow> (rt, Inl Runtime_Error, a)
            | Some (engine, mode) \<Rightarrow>
                (case allocate_leg ROLE_D (attempt_seq a) (Some engine) d_sel rt of
                   (rt1, Inl x) \<Rightarrow> (rt1, Inl x, a)
                 | (rt1, Inr d) \<Rightarrow>
                     (let a1 = a\<lparr>decode_resource := Some d\<rparr>
                      in if decode_matches a1 engine
                         then (rt1\<lparr>rt_attempts := dset (attempt_seq a) a1 (rt_attempts rt1)\<rparr>, Inr True, a1)
                         else (fst (enqueue_release_attempt_resource d (attempt_seq a) RELEASE_TOKENS True rt1), Inl Runtime_Error, a)))))"

text \<open>
  The end of the request's context: \<open>del_req_info\<close> drops the request and every load record of it.
\<close>

definition close_request_context :: "'r router \<Rightarrow> 'r router" where
  "close_request_context rt = rt\<lparr>rt_manager := fst (del_req_info (rt_req_id rt) (rt_manager rt))\<rparr>"

end
