(* ===== verification/Release_Correctness.thy ===== *)
theory Release_Correctness
  imports Router_Release Allocation_Correctness
begin

text \<open>
  The releases of a request, end to end: router, request manager, scheduler process and the network between them.
  The steps interleave arbitrarily; requests are lost, delayed and delivered again, answers are lost, tasks are
  cancelled and other requests use the scheduler and the request manager at the same time. Three history
  variables record the legs that were allotted, the release requests that the scheduler applied and the operations it
  acknowledged.

  A leg is a role of an attempt, \<open>(attempt_seq, role)\<close>, with the resource and the load it was allotted.
\<close>

section \<open>The system\<close>

record 'r release_sys =
  rl_router :: "'r router"
  rl_server :: sched_server
  rl_net :: "update_request list"
  rl_acked :: "string list"
  rl_log :: "update_request list"
  rl_legs :: "(int \<times> pd_role, scheduled_resource \<times> workload) dict"

text \<open>The release request of a leg, and the operation ids that belong to a request.\<close>

definition leg_update :: "string \<Rightarrow> int \<Rightarrow> pd_role \<Rightarrow> scheduled_resource \<Rightarrow> workload \<Rightarrow> update_request" where
  "leg_update rq seq role r w =
     build_update (ins_id (res_instance r)) (ep_id (res_endpoint r)) role (workload_action_value RELEASE_TOKENS)
       \<lparr>active_tokens = - active_tokens w\<rparr> (Some (release_operation_id rq seq r RELEASE_TOKENS))"

definition own_operation :: "string \<Rightarrow> string \<Rightarrow> bool" where
  "own_operation rq op \<longleftrightarrow> prefix (rq @ '':a'') op"

definition acknowledged :: "py_exn + update_response \<Rightarrow> bool" where
  "acknowledged res \<longleftrightarrow> res \<in> {Inr (UPDATE_DONE True), Inr UPDATE_IDEMPOTENT}"

text \<open>The ids of this request's operations are still in the scheduler's window after its step.\<close>

definition window_keeps :: "string \<Rightarrow> sched_server \<Rightarrow> sched_server \<Rightarrow> bool" where
  "window_keeps rq sv sv' \<longleftrightarrow>
     (\<forall>op. own_operation rq op \<and> op \<in> set (committed_operations sv) \<longrightarrow> op \<in> set (committed_operations sv'))"

text \<open>What the rest of the system may do to the scheduler and to the request manager.\<close>

definition foreign_server :: "string \<Rightarrow> sched_server \<Rightarrow> sched_server \<Rightarrow> bool" where
  "foreign_server rq sv sv' \<longleftrightarrow> server_ok sv' \<and> window_keeps rq sv sv' \<and> window_keeps rq sv' sv"

definition foreign_manager :: "string \<Rightarrow> 'r request_manager \<Rightarrow> 'r request_manager \<Rightarrow> bool" where
  "foreign_manager rq m m' \<longleftrightarrow>
     (\<forall>seq role. get_req_attempt_workload rq seq role m' = get_req_attempt_workload rq seq role m)"

abbreviation leg_of :: "'r release_sys \<Rightarrow> int \<Rightarrow> pd_role \<Rightarrow> (scheduled_resource \<times> workload) option" where
  "leg_of s seq role \<equiv> dget (rl_legs s) (seq, role)"

abbreviation load_record :: "'r release_sys \<Rightarrow> int \<Rightarrow> pd_role \<Rightarrow> workload option" where
  "load_record s seq role \<equiv> get_req_attempt_workload (rt_req_id (rl_router s)) (Some seq) role (rt_manager (rl_router s))"

inductive release_step :: "'r release_sys \<Rightarrow> 'r release_sys \<Rightarrow> bool" where
  allocate:
    "handle_allocate_only q (rl_server s) = (sv, Inr (ALLOC_OK i e score fast wl)) \<Longrightarrow>
     request_role (aq_role q) = role \<Longrightarrow> role \<in> {ROLE_P, ROLE_D} \<Longrightarrow> leg_of s seq role = None \<Longrightarrow>
     \<forall>\<rho> r' w'. leg_of s seq \<rho> = Some (r', w') \<longrightarrow> ins_id (res_instance r') \<noteq> ins_id i \<Longrightarrow>
     prepare_attempt_resource role seq required (Some (i, e, wl)) (rl_router s) = (rt, Inr r) \<Longrightarrow>
     release_step s (s\<lparr>rl_router := rt, rl_server := sv, rl_legs := dset (seq, role) (r, wl) (rl_legs s)\<rparr>)"
| attempt:
    "dget (rt_attempts (rl_router s)) seq = None \<Longrightarrow> new_attempt uuid p d ses = (ses', a) \<Longrightarrow> attempt_seq a = seq \<Longrightarrow>
     release_step s (s\<lparr>rl_router := (rl_router s)\<lparr>rt_attempts := dset seq a (rt_attempts (rl_router s))\<rparr>\<rparr>)"
| attempt_moves:
    "dget (rt_attempts (rl_router s)) seq = Some a \<Longrightarrow> release_flags a' = release_flags a \<Longrightarrow>
     release_step s (s\<lparr>rl_router := (rl_router s)\<lparr>rt_attempts := dset seq a' (rt_attempts (rl_router s))\<rparr>\<rparr>)"
| enqueue:
    "leg_of s seq role = Some (r, w) \<Longrightarrow>
     release_step s (s\<lparr>rl_router := fst (enqueue_release_attempt_resource r seq RELEASE_TOKENS with_attempt (rl_router s))\<rparr>)"
| start: "release_step s (s\<lparr>rl_router := task_start t (rl_router s)\<rparr>)"
| compute: "release_step s (s\<lparr>rl_router := task_compute mul t (rl_router s)\<rparr>)"
| send:
    "dget (rt_tasks (rl_router s)) t = Some k \<Longrightarrow> rk_pc k = Task_Send item n \<Longrightarrow>
     release_step s (s\<lparr>rl_net := ri_params item # rl_net s\<rparr>)"
| deliver:
    "u \<in> set (rl_net s) \<Longrightarrow> handle_update_workload u (rl_server s) = (sv, res) \<Longrightarrow>
     window_keeps (rt_req_id (rl_router s)) (rl_server s) sv \<Longrightarrow>
     release_step s (s\<lparr>rl_server := sv, rl_log := (if res = Inr (UPDATE_DONE True) then rl_log s @ [u] else rl_log s),
       rl_acked := (if acknowledged res then the (uq_operation_id u) # rl_acked s else rl_acked s)\<rparr>)"
| ack:
    "dget (rt_tasks (rl_router s)) t = Some k \<Longrightarrow> rk_pc k = Task_Send item n \<Longrightarrow>
     uq_operation_id (ri_params item) = Some op \<Longrightarrow> op \<in> set (rl_acked s) \<Longrightarrow>
     release_step s (s\<lparr>rl_router := task_sent True t (rl_router s)\<rparr>)"
| give_up: "release_step s (s\<lparr>rl_router := task_sent False t (rl_router s)\<rparr>)"
| finalize: "release_step s (s\<lparr>rl_router := task_finalize raised t (rl_router s)\<rparr>)"
| cancel_task: "release_step s (s\<lparr>rl_router := task_cancel t (rl_router s)\<rparr>)"
| cleanup:
    "dget (rt_tasks (rl_router s)) t = Some k \<Longrightarrow> rk_pc k = Task_Ended res \<Longrightarrow>
     release_step s (s\<lparr>rl_router := fst (cleanup_release_task t (rl_router s))\<rparr>)"
| others:
    "foreign_server (rt_req_id (rl_router s)) (rl_server s) sv \<Longrightarrow>
     foreign_manager (rt_req_id (rl_router s)) (rt_manager (rl_router s)) m \<Longrightarrow>
     release_step s (s\<lparr>rl_server := sv, rl_router := (rl_router s)\<lparr>rt_manager := m\<rparr>\<rparr>)"

text \<open>A request before its first allocation.\<close>

definition fresh_request :: "'r release_sys \<Rightarrow> bool" where
  "fresh_request s \<longleftrightarrow>
     server_ok (rl_server s) \<and> (\<forall>op\<in>set (committed_operations (rl_server s)). \<not> own_operation (rt_req_id (rl_router s)) op) \<and>
     rl_net s = [] \<and> rl_acked s = [] \<and> rl_log s = [] \<and> rl_legs s = [] \<and>
     rt_tasks (rl_router s) = [] \<and> rt_attempts (rl_router s) = [] \<and>
     release_inflight (rl_router s) = [] \<and> release_records (rl_router s) = []"

section \<open>Operation ids\<close>

lemma dec_no_colon: "CHR '':'' \<notin> set (dec n)"
proof
  assume "CHR '':'' \<in> set (dec n)"
  with dec_digits [of n] have "is_digit (CHR '':'')" by (auto simp: list_all_iff)
  then show False by (simp add: is_digit_def)
qed

lemma dec_int_no_colon: "CHR '':'' \<notin> set (dec_int n)"
  using dec_no_colon by (auto simp: dec_int_def)

lemma dec_int_inject: "dec_int m = dec_int n \<longleftrightarrow> m = n"
proof
  assume eq: "dec_int m = dec_int n"
  have neg: "CHR ''-'' \<notin> set (dec k)" for k
    using dec_digits [of k] digit_not_space [of "CHR ''-''"] by (auto simp only: list_all_iff)
  have sign: "CHR ''-'' \<in> set (dec_int k) \<longleftrightarrow> k < 0" for k using neg by (simp add: dec_int_def)
  have inj: "a = b" if "dec a = dec b" for a b using that by (metis undec_dec)
  have "m < 0 \<longleftrightarrow> n < 0" using sign [of m] sign [of n] eq by simp
  moreover have "nat (- m) = nat (- n)" if "m < 0" "n < 0" using eq that inj by (simp add: dec_int_def)
  moreover have "nat m = nat n" if "\<not> m < 0" "\<not> n < 0" using eq that inj by (simp add: dec_int_def)
  ultimately show "m = n" by (cases "m < 0") auto
qed simp

lemma cut_at_colon:
  assumes "a @ CHR '':'' # x = b @ CHR '':'' # y" and "CHR '':'' \<notin> set a" and "CHR '':'' \<notin> set b"
  shows "a = b \<and> x = y"
  using assms
proof (induction a arbitrary: b)
  case Nil
  then show ?case by (cases b) auto
next
  case (Cons c a)
  then show ?case by (cases b) auto
qed

text \<open>The id determines the attempt, the instance and the endpoint.\<close>

lemma operation_id_inject:
  "release_operation_id rq seq r act = release_operation_id rq seq' r' act \<longleftrightarrow>
   seq = seq' \<and> ins_id (res_instance r) = ins_id (res_instance r') \<and> ep_id (res_endpoint r) = ep_id (res_endpoint r')"
proof
  assume eq: "release_operation_id rq seq r act = release_operation_id rq seq' r' act"
  note cut = cut_at_colon [OF _ dec_int_no_colon dec_int_no_colon]
  let ?tail = "\<lambda>r. dec_int (ep_id (res_endpoint r)) @ CHR '':'' # workload_action_value act"
  let ?rest = "\<lambda>r. dec_int (ins_id (res_instance r)) @ CHR '':'' # ?tail r"
  have "dec_int seq @ CHR '':'' # ?rest r = dec_int seq' @ CHR '':'' # ?rest r'" using eq by (simp add: release_operation_id_def)
  then have 1: "dec_int seq = dec_int seq' \<and> ?rest r = ?rest r'" by (rule cut)
  then have 2: "dec_int (ins_id (res_instance r)) = dec_int (ins_id (res_instance r')) \<and> ?tail r = ?tail r'" by (intro cut) (rule conjunct2)
  then have "dec_int (ep_id (res_endpoint r)) = dec_int (ep_id (res_endpoint r'))" by simp
  with 1 2 show "seq = seq' \<and> ins_id (res_instance r) = ins_id (res_instance r') \<and> ep_id (res_endpoint r) = ep_id (res_endpoint r')"
    unfolding dec_int_inject by blast
qed (auto simp: release_operation_id_def)

lemma own_operation_id [simp]: "own_operation rq (release_operation_id rq seq r act)"
  by (simp add: own_operation_def release_operation_id_def)

lemma leg_update_op [simp]: "uq_operation_id (leg_update rq seq role r w) = Some (release_operation_id rq seq r RELEASE_TOKENS)"
  by (simp add: leg_update_def build_update_def)

section \<open>The invariant\<close>

definition server_inv :: "'r release_sys \<Rightarrow> bool" where
  "server_inv s \<longleftrightarrow>
     (let rq = rt_req_id (rl_router s); ids = uq_operation_id ` set (rl_log s)
      in server_ok (rl_server s) \<and>
         (\<forall>op. own_operation rq op \<longrightarrow> (op \<in> set (committed_operations (rl_server s)) \<longleftrightarrow> Some op \<in> ids)) \<and>
         distinct (map uq_operation_id (rl_log s)) \<and>
         (\<forall>u\<in>set (rl_log s) \<union> set (rl_net s). \<exists>seq role r w. leg_of s seq role = Some (r, w) \<and> u = leg_update rq seq role r w) \<and>
         (\<forall>op\<in>set (rl_acked s). Some op \<in> ids))"

definition leg_inv :: "'r release_sys \<Rightarrow> bool" where
  "leg_inv s \<longleftrightarrow>
     (\<forall>seq role r w. leg_of s seq role = Some (r, w) \<longrightarrow>
        normalize_role r = Some role \<and> role \<in> {ROLE_P, ROLE_D} \<and>
        (load_record s seq role = Some w \<or>
         load_record s seq role = None \<and> leg_update (rt_req_id (rl_router s)) seq role r w \<in> set (rl_log s))) \<and>
     (\<forall>seq \<rho> \<rho>' r w r' w'. leg_of s seq \<rho> = Some (r, w) \<and> leg_of s seq \<rho>' = Some (r', w') \<and> \<rho> \<noteq> \<rho>' \<longrightarrow>
        ins_id (res_instance r) \<noteq> ins_id (res_instance r'))"

definition item_of_leg :: "string \<Rightarrow> int \<Rightarrow> pd_role \<Rightarrow> scheduled_resource \<Rightarrow> workload \<Rightarrow> release_work_item \<Rightarrow> bool" where
  "item_of_leg rq seq role r w item \<longleftrightarrow>
     ri_params item = leg_update rq seq role r w \<and> ri_role item = role \<and> ri_action item = RELEASE_TOKENS"

definition pc_ok :: "string \<Rightarrow> update_request list \<Rightarrow> int \<Rightarrow> pd_role \<Rightarrow> scheduled_resource \<Rightarrow> workload \<Rightarrow> release_pc \<Rightarrow> bool" where
  "pc_ok rq lg seq role r w pc \<longleftrightarrow>
     (case pc of
        Task_Send item n \<Rightarrow> item_of_leg rq seq role r w item
      | Task_Finalize item \<Rightarrow> item_of_leg rq seq role r w item \<and>
          leg_update rq seq role r w \<in> set lg
      | _ \<Rightarrow> True)"

definition task_ok :: "'r release_sys \<Rightarrow> nat \<Rightarrow> release_task \<Rightarrow> bool" where
  "task_ok s t k \<longleftrightarrow>
     rk_action k = RELEASE_TOKENS \<and> t < rt_next_task (rl_router s) \<and>
     (\<exists>role w. leg_of s (rk_seq k) role = Some (rk_resource k, w) \<and>
        pc_ok (rt_req_id (rl_router s)) (rl_log s) (rk_seq k) role (rk_resource k) w (rk_pc k) \<and>
        ((\<forall>res. rk_pc k \<noteq> Task_Ended res) \<longrightarrow>
           dget (release_inflight (rl_router s)) (rt_req_id (rl_router s), rk_seq k, role, RELEASE_TOKENS) = Some t))"

definition task_inv :: "'r release_sys \<Rightarrow> bool" where
  "task_inv s \<longleftrightarrow> (\<forall>t k. dget (rt_tasks (rl_router s)) t = Some k \<longrightarrow> task_ok s t k)"

definition flag_inv :: "'r release_sys \<Rightarrow> bool" where
  "flag_inv s \<longleftrightarrow>
     (\<forall>seq a role. dget (rt_attempts (rl_router s)) seq = Some a \<and> release_already_marked a role RELEASE_TOKENS \<longrightarrow>
        load_record s seq role = None \<and> leg_of s seq role \<noteq> None)"

definition release_inv :: "'r release_sys \<Rightarrow> bool" where
  "release_inv s \<longleftrightarrow> server_inv s \<and> leg_inv s \<and> task_inv s \<and> flag_inv s"

lemma fresh_request_inv: "fresh_request s \<Longrightarrow> release_inv s"
  by (auto simp: fresh_request_def release_inv_def server_inv_def leg_inv_def task_inv_def flag_inv_def Let_def)

section \<open>Steps of the router\<close>

lemma set_pc_fields [simp]:
  "rt_req_id (set_pc t pc rt) = rt_req_id rt" "rt_manager (set_pc t pc rt) = rt_manager rt"
  "rt_attempts (set_pc t pc rt) = rt_attempts rt" "release_inflight (set_pc t pc rt) = release_inflight rt"
  "rt_next_task (set_pc t pc rt) = rt_next_task rt"
  "dget (rt_tasks (set_pc t pc rt)) t' =
     (if t' = t then map_option (\<lambda>k. k\<lparr>rk_pc := pc\<rparr>) (dget (rt_tasks rt) t) else dget (rt_tasks rt) t')"
  by (auto simp: set_pc_def split: option.splits)

text \<open>
  A step of one task: it moves the task from one point to the next, keeps the others, and touches nothing else that
  the invariant speaks of.
\<close>

definition task_moved :: "nat \<Rightarrow> release_task \<Rightarrow> release_pc \<Rightarrow> 'r router \<Rightarrow> 'r router \<Rightarrow> bool" where
  "task_moved t k pc rt rt' \<longleftrightarrow>
     rt_req_id rt' = rt_req_id rt \<and> rt_manager rt' = rt_manager rt \<and> rt_attempts rt' = rt_attempts rt \<and>
     release_inflight rt' = release_inflight rt \<and> rt_next_task rt' = rt_next_task rt \<and>
     dget (rt_tasks rt) t = Some k \<and> (\<forall>res. rk_pc k \<noteq> Task_Ended res) \<and>
     (\<forall>t'. dget (rt_tasks rt') t' = (if t' = t then Some (k\<lparr>rk_pc := pc\<rparr>) else dget (rt_tasks rt) t'))"

lemma task_moved_set_pc:
  "dget (rt_tasks rt) t = Some k \<Longrightarrow> \<forall>res. rk_pc k \<noteq> Task_Ended res \<Longrightarrow> task_moved t k pc rt (set_pc t pc rt)"
  by (simp add: task_moved_def)

lemma task_start_cases:
  obtains "task_start t rt = rt"
  | k pc where "task_moved t k pc rt (task_start t rt)" and "pc = Task_Compute \<or> (\<exists>b. pc = Task_Ended b)"
proof (cases "\<exists>k. dget (rt_tasks rt) t = Some k \<and> rk_pc k = Task_Created")
  case False
  then have "task_start t rt = rt" by (auto simp: task_start_def split: option.splits)
  then show ?thesis by (rule that(1))
next
  case True
  then obtain k where k: "dget (rt_tasks rt) t = Some k" "rk_pc k = Task_Created" by blast
  have "\<exists>pc. task_start t rt = set_pc t pc rt \<and> (pc = Task_Compute \<or> (\<exists>b. pc = Task_Ended b))"
    using k by (cases "normalize_role (rk_resource k)") (auto simp: task_start_def)
  then obtain pc where "task_start t rt = set_pc t pc rt" "pc = Task_Compute \<or> (\<exists>b. pc = Task_Ended b)" by blast
  with task_moved_set_pc [OF k(1), of pc] k(2) show ?thesis by (intro that(2) [of k pc]) simp_all
qed

lemma task_sent_cases:
  obtains "task_sent ok t rt = rt"
  | k item n pc where "task_moved t k pc rt (task_sent ok t rt)" and "rk_pc k = Task_Send item n"
      and "pc = (if ok then Task_Finalize item else if n + 1 < RELEASE_RPC_ATTEMPTS then Task_Send item (n + 1) else Task_Ended (Some False))"
proof (cases "\<exists>k item n. dget (rt_tasks rt) t = Some k \<and> rk_pc k = Task_Send item n")
  case False
  then have "task_sent ok t rt = rt" by (auto simp: task_sent_def split: option.splits release_pc.splits)
  then show ?thesis by (rule that(1))
next
  case True
  then obtain k item n where k: "dget (rt_tasks rt) t = Some k" "rk_pc k = Task_Send item n" by blast
  from task_moved_set_pc [OF k(1)] k show ?thesis
    by (intro that(2) [of k _ item n, OF _ k(2) refl]) (simp add: task_sent_def)
qed

lemma task_cancel_cases:
  obtains "task_cancel t rt = rt" | k where "task_moved t k (Task_Ended None) rt (task_cancel t rt)"
proof (cases "\<exists>k. dget (rt_tasks rt) t = Some k \<and> (\<forall>res. rk_pc k \<noteq> Task_Ended res)")
  case False
  then have "task_cancel t rt = rt" by (auto simp: task_cancel_def split: option.splits release_pc.splits)
  then show ?thesis by (rule that(1))
next
  case True
  then obtain k where k: "dget (rt_tasks rt) t = Some k" "\<forall>res. rk_pc k \<noteq> Task_Ended res" by blast
  from task_moved_set_pc [OF k, of "Task_Ended None"] k show ?thesis
    by (intro that(2) [of k]) (auto simp: task_cancel_def split: release_pc.splits)
qed

lemma task_compute_cases:
  assumes rel: "\<forall>k. dget (rt_tasks rt) t = Some k \<longrightarrow> rk_action k = RELEASE_TOKENS"
  obtains "task_compute mul t rt = rt"
  | k b where "task_moved t k (Task_Ended b) rt (task_compute mul t rt)"
  | k item role w where "task_moved t k (Task_Send item 0) rt (task_compute mul t rt)"
      and "normalize_role (rk_resource k) = Some role"
      and "get_req_attempt_workload (rt_req_id rt) (Some (rk_seq k)) role (rt_manager rt) = Some w"
      and "item_of_leg (rt_req_id rt) (rk_seq k) role (rk_resource k) w item"
proof (cases "\<exists>k. dget (rt_tasks rt) t = Some k \<and> rk_pc k = Task_Compute")
  case False
  then have "task_compute mul t rt = rt" by (auto simp: task_compute_def split: option.splits)
  then show ?thesis by (rule that(1))
next
  case True
  then obtain k where k: "dget (rt_tasks rt) t = Some k" "rk_pc k = Task_Compute" by blast
  with rel have act: "rk_action k = RELEASE_TOKENS" by simp
  show ?thesis
  proof (cases "\<exists>role w. normalize_role (rk_resource k) = Some role \<and>
      get_req_attempt_workload (rt_req_id rt) (Some (rk_seq k)) role (rt_manager rt) = Some w")
    case False
    then have "prepare_release_work_item mul (rk_resource k) (rk_seq k) RELEASE_TOKENS rt = (rt, None)"
      by (auto simp: prepare_release_work_item_def compute_and_update_def split: option.splits)
    with k act have "task_compute mul t rt = set_pc t (Task_Ended (Some True)) rt" by (simp add: task_compute_def)
    with task_moved_set_pc [OF k(1)] k(2) show ?thesis by (intro that(2) [of k "Some True"]) simp
  next
    case True
    then obtain role w where rw: "normalize_role (rk_resource k) = Some role"
      "get_req_attempt_workload (rt_req_id rt) (Some (rk_seq k)) role (rt_manager rt) = Some w" by blast
    then obtain item where "prepare_release_work_item mul (rk_resource k) (rk_seq k) RELEASE_TOKENS rt = (rt, Some item)"
      and it: "item_of_leg (rt_req_id rt) (rk_seq k) role (rk_resource k) w item"
      by (simp add: prepare_release_work_item_def compute_and_update_def item_of_leg_def leg_update_def)
    with k act have "task_moved t k (Task_Send item 0) rt (task_compute mul t rt)"
      by (auto simp: task_compute_def task_moved_def Let_def split: option.splits)
    with rw it show ?thesis by (intro that(3))
  qed
qed

text \<open>The parts of the invariant that a step of the router does not touch.\<close>

lemma server_inv_router: "rt_req_id rt = rt_req_id (rl_router s) \<Longrightarrow> server_inv (s\<lparr>rl_router := rt\<rparr>) = server_inv s"
  by (simp add: server_inv_def)

lemma leg_inv_router:
  "rt_req_id rt = rt_req_id (rl_router s) \<Longrightarrow> foreign_manager (rt_req_id rt) (rt_manager (rl_router s)) (rt_manager rt) \<Longrightarrow>
   leg_inv (s\<lparr>rl_router := rt\<rparr>) = leg_inv s"
  by (simp add: leg_inv_def foreign_manager_def)

lemma flag_inv_router:
  "rt_req_id rt = rt_req_id (rl_router s) \<Longrightarrow> foreign_manager (rt_req_id rt) (rt_manager (rl_router s)) (rt_manager rt) \<Longrightarrow>
   rt_attempts rt = rt_attempts (rl_router s) \<Longrightarrow> flag_inv (s\<lparr>rl_router := rt\<rparr>) = flag_inv s"
  by (simp add: flag_inv_def foreign_manager_def)

lemma task_inv_router:
  "rt_req_id rt = rt_req_id (rl_router s) \<Longrightarrow> rt_tasks rt = rt_tasks (rl_router s) \<Longrightarrow>
   release_inflight rt = release_inflight (rl_router s) \<Longrightarrow> rt_next_task rt = rt_next_task (rl_router s) \<Longrightarrow>
   task_inv (s\<lparr>rl_router := rt\<rparr>) = task_inv s"
  by (simp add: task_inv_def task_ok_def)

lemma foreign_manager_refl [simp]: "foreign_manager rq m m"
  by (simp add: foreign_manager_def)

lemmas router_invs = server_inv_router leg_inv_router flag_inv_router task_inv_router

lemma moved_inv:
  assumes inv: "release_inv s" and mv: "task_moved t k pc (rl_router s) rt"
    and pc: "\<forall>role w. leg_of s (rk_seq k) role = Some (rk_resource k, w) \<and> pc_ok (rt_req_id (rl_router s)) (rl_log s) (rk_seq k) role (rk_resource k) w (rk_pc k) \<longrightarrow>
      pc_ok (rt_req_id (rl_router s)) (rl_log s) (rk_seq k) role (rk_resource k) w pc"
  shows "release_inv (s\<lparr>rl_router := rt\<rparr>)"
proof -
  note m = mv [unfolded task_moved_def]
  have "server_inv (s\<lparr>rl_router := rt\<rparr>)" "leg_inv (s\<lparr>rl_router := rt\<rparr>)" "flag_inv (s\<lparr>rl_router := rt\<rparr>)"
    using inv m by (simp_all add: release_inv_def router_invs)
  moreover have "task_inv (s\<lparr>rl_router := rt\<rparr>)"
    unfolding task_inv_def
  proof (intro allI impI)
    fix t' k' assume "dget (rt_tasks (rl_router (s\<lparr>rl_router := rt\<rparr>))) t' = Some k'"
    then have k': "dget (rt_tasks rt) t' = Some k'" by simp
    have old: "task_ok s t'' k''" if "dget (rt_tasks (rl_router s)) t'' = Some k''" for t'' k''
      using inv that by (simp add: release_inv_def task_inv_def)
    show "task_ok (s\<lparr>rl_router := rt\<rparr>) t' k'"
    proof (cases "t' = t")
      case True
      then have "k' = k\<lparr>rk_pc := pc\<rparr>" using k' m by simp
      moreover have "task_ok s t k" using old m by blast
      ultimately show ?thesis using pc m True by (auto simp: task_ok_def)
    next
      case False
      then have "task_ok s t' k'" using k' m old by simp
      with m show ?thesis by (auto simp: task_ok_def)
    qed
  qed
  ultimately show ?thesis by (simp add: release_inv_def)
qed

lemma router_same [simp]: "s\<lparr>rl_router := rl_router s\<rparr> = s"
  by simp

text \<open>Two legs with the same operation id are the same leg.\<close>

lemma leg_of_operation:
  assumes inv: "leg_inv s" and "leg_of s seq role = Some (r, w)" "leg_of s seq' role' = Some (r', w')"
    and "release_operation_id rq seq r RELEASE_TOKENS = release_operation_id rq seq' r' RELEASE_TOKENS"
  shows "seq = seq' \<and> role = role' \<and> r = r' \<and> w = w'"
proof -
  from assms(4) have eq: "seq = seq'" "ins_id (res_instance r) = ins_id (res_instance r')" by (simp_all add: operation_id_inject)
  with inv assms(2,3) have "role = role'" unfolding leg_inv_def by metis
  with eq(1) assms(2,3) show ?thesis by simp
qed

section \<open>Steps of the scheduler\<close>

lemma sync_operations:
  "scheduler_update_workload_sync iid eid role change sv = (sv', x) \<Longrightarrow> committed_operations sv' = committed_operations sv"
  "write_entry_sync iid eid sv = (sv', y) \<Longrightarrow> committed_operations sv' = committed_operations sv"
  "write_workload_entry iid eid r1 w1 sv = (sv', y) \<Longrightarrow> committed_operations sv' = committed_operations sv"
  by (auto simp: scheduler_update_workload_sync_def write_entry_sync_def write_workload_entry_def
      split: if_splits prod.splits sum.splits option.splits)

lemma remember_operations: "set (committed_operations (remember_committed_operation op sv)) \<subseteq> insert op (set (committed_operations sv))"
  by (auto simp: remember_committed_operation_def Let_def dest: list.set_sel(2) [rotated])

lemma allocate_operations: "committed_operations (fst (handle_allocate_only q sv)) = committed_operations sv"
proof (cases "handle_allocate_only q sv")
  case (Pair sv' res)
  then show ?thesis
    by (auto simp: handle_allocate_only_def Let_def split: if_splits option.splits prod.splits sum.splits bool.splits
        dest!: sync_operations)
qed

text \<open>
  What the scheduler does with the release of a leg: a replay if its operation is in the window, otherwise it is applied and
  remembered, or refused because the endpoint is gone.
\<close>

lemma leg_update_params:
  "workload_update_params (leg_update rq seq role r w) =
     Inr (ins_id (res_instance r), ep_id (res_endpoint r), role, Some (release_operation_id rq seq r RELEASE_TOKENS))"
  by (cases role) (simp_all add: leg_update_def build_update_def workload_update_params_def workload_action_of_def pd_role_of_def
      release_operation_id_def)

lemma leg_update_outcome:
  assumes ok: "server_ok sv" and u: "u = leg_update rq seq role r w" and op: "op = release_operation_id rq seq r RELEASE_TOKENS"
    and h: "handle_update_workload u sv = (sv', res)"
  shows "server_ok sv' \<and>
    (if op \<in> set (committed_operations sv) then res = Inr UPDATE_IDEMPOTENT \<and> committed_operations sv' = committed_operations sv
     else res = Inr (UPDATE_DONE True) \<and> op \<in> set (committed_operations sv') \<and>
            set (committed_operations sv') \<subseteq> insert op (set (committed_operations sv)) \<or>
          res = Inr (UPDATE_DONE False) \<and> committed_operations sv' = committed_operations sv)"
proof -
  let ?i = "ins_id (res_instance r)" and ?e = "ep_id (res_endpoint r)" and ?ch = "\<lparr>active_tokens = - active_tokens w\<rparr>"
  have p: "uq_instance_id u \<noteq> Missing" "uq_endpoint_id u \<noteq> Missing" "uq_workload_change u = Given ?ch"
    "workload_update_params u = Inr (?i, ?e, role, Some op)"
    using leg_update_params [of rq seq role r w] by (simp_all add: u op leg_update_def build_update_def)
  have sok: "server_ok sv'" using update_handler_ok [OF ok, of u] h by simp
  show ?thesis
  proof (cases "op \<in> set (committed_operations sv)")
    case True
    then have "is_committed (Some op) sv" by (simp add: is_committed_def)
    from replay_ok [OF ok p this] h p this sync_operations(2) [of ?i ?e sv] have
      "res = Inr UPDATE_IDEMPOTENT" "committed_operations sv' = committed_operations sv"
      by (auto simp: handle_update_workload_def split: prod.splits sum.splits)
    with True sok show ?thesis by simp
  next
    case False
    then have nc: "\<not> is_committed (Some op) sv" by (simp add: is_committed_def)
    have "pool_index (sv_pools sv)" using ok by (simp add: server_ok_def ledgers_ok_def pool_wf_def)
    then obtain sv1 b r1 w1 where us: "scheduler_update_workload_sync ?i ?e role ?ch sv = (sv1, Inr (b, r1, w1))"
      using scheduler_update_total by blast
    have same: "committed_operations sv1 = committed_operations sv" using sync_operations(1) [OF us] .
    show ?thesis
    proof (cases b)
      case False
      with us p nc h have "res = Inr (UPDATE_DONE False)" "sv' = sv1" by (auto simp: handle_update_workload_def)
      with same sok \<open>op \<notin> _\<close> show ?thesis by simp
    next
      case True
      from update_applied [OF ok, of ?i ?e role ?ch sv1 r1 w1 "Some op"] us True obtain sv2 where
        w: "write_workload_entry ?i ?e r1 w1 (remember_committed_operation op sv1) = (sv2, Inr ())" "op \<in> set (committed_operations sv2)"
        by auto
      have "res = Inr (UPDATE_DONE True)" "sv' = sv2" using us True p nc h w(1) by (auto simp: handle_update_workload_def Let_def)
      moreover have "set (committed_operations sv2) \<subseteq> insert op (set (committed_operations sv))"
        using sync_operations(3) [OF w(1)] remember_operations [of op sv1] same by simp
      ultimately show ?thesis using w(2) sok False by simp
    qed
  qed
qed

lemma server_invD:
  assumes "server_inv s"
  shows "server_ok (rl_server s)" "distinct (map uq_operation_id (rl_log s))"
    and "own_operation (rt_req_id (rl_router s)) op \<Longrightarrow>
      op \<in> set (committed_operations (rl_server s)) \<longleftrightarrow> Some op \<in> uq_operation_id ` set (rl_log s)"
    and "u \<in> set (rl_log s) \<or> u \<in> set (rl_net s) \<Longrightarrow>
      \<exists>seq role r w. leg_of s seq role = Some (r, w) \<and> u = leg_update (rt_req_id (rl_router s)) seq role r w"
    and "op \<in> set (rl_acked s) \<Longrightarrow> Some op \<in> uq_operation_id ` set (rl_log s)"
  using assms by (auto simp: server_inv_def Let_def)

lemma log_grows:
  assumes "set (rl_log s) \<subseteq> set lg"
  shows "leg_inv s \<Longrightarrow> leg_inv (s\<lparr>rl_server := sv, rl_log := lg, rl_acked := ac\<rparr>)"
    and "task_inv s \<Longrightarrow> task_inv (s\<lparr>rl_server := sv, rl_log := lg, rl_acked := ac\<rparr>)"
    and "flag_inv s \<Longrightarrow> flag_inv (s\<lparr>rl_server := sv, rl_log := lg, rl_acked := ac\<rparr>)"
proof -
  show "leg_inv s \<Longrightarrow> leg_inv (s\<lparr>rl_server := sv, rl_log := lg, rl_acked := ac\<rparr>)"
    using assms unfolding leg_inv_def by (simp add: subset_iff) metis
  have "pc_ok rq (rl_log s) seq role r w pc \<Longrightarrow> pc_ok rq lg seq role r w pc" for rq seq role r w pc
    using assms by (auto simp: pc_ok_def split: release_pc.splits)
  then show "task_inv s \<Longrightarrow> task_inv (s\<lparr>rl_server := sv, rl_log := lg, rl_acked := ac\<rparr>)"
    unfolding task_inv_def task_ok_def by simp blast
  show "flag_inv s \<Longrightarrow> flag_inv (s\<lparr>rl_server := sv, rl_log := lg, rl_acked := ac\<rparr>)" by (simp add: flag_inv_def)
qed

lemma deliver_inv:
  assumes inv: "release_inv s" and u: "u \<in> set (rl_net s)" and h: "handle_update_workload u (rl_server s) = (sv, res)"
    and keeps: "window_keeps (rt_req_id (rl_router s)) (rl_server s) sv"
  shows "release_inv (s\<lparr>rl_server := sv, rl_log := (if res = Inr (UPDATE_DONE True) then rl_log s @ [u] else rl_log s),
       rl_acked := (if acknowledged res then the (uq_operation_id u) # rl_acked s else rl_acked s)\<rparr>)" (is "release_inv ?s")
proof -
  let ?rq = "rt_req_id (rl_router s)"
  have sinv: "server_inv s" and rest: "leg_inv s" "task_inv s" "flag_inv s" using inv by (simp_all add: release_inv_def)
  note D = server_invD [OF sinv]
  obtain seq role r w where leg: "leg_of s seq role = Some (r, w)" and ueq: "u = leg_update ?rq seq role r w" using D(4) u by blast
  define op where "op = release_operation_id ?rq seq r RELEASE_TOKENS"
  have own: "own_operation ?rq op" and uop: "uq_operation_id u = Some op" by (simp_all add: op_def ueq)
  note out = leg_update_outcome [OF D(1) ueq op_def h]
  have "server_inv ?s"
  proof (cases "op \<in> set (committed_operations (rl_server s))")
    case True
    with out have o: "server_ok sv" "res = Inr UPDATE_IDEMPOTENT" "committed_operations sv = committed_operations (rl_server s)" by simp_all
    have "Some op \<in> uq_operation_id ` set (rl_log s)" using D(3) [OF own] True by simp
    with sinv o uop show ?thesis by (auto simp: server_inv_def Let_def acknowledged_def)
  next
    case new: False
    show ?thesis
    proof (cases "res = Inr (UPDATE_DONE True)")
      case False
      with out new have o: "server_ok sv" "res = Inr (UPDATE_DONE False)" "committed_operations sv = committed_operations (rl_server s)"
        by simp_all
      with sinv show ?thesis by (simp add: server_inv_def Let_def acknowledged_def)
    next
      case True
      with out new have o: "server_ok sv" "op \<in> set (committed_operations sv)"
        "set (committed_operations sv) \<subseteq> insert op (set (committed_operations (rl_server s)))" by simp_all
      have fresh: "Some op \<notin> uq_operation_id ` set (rl_log s)" using D(3) [OF own] new by simp
      have com: "op' \<in> set (committed_operations sv) \<longleftrightarrow> op' = op \<or> Some op' \<in> uq_operation_id ` set (rl_log s)"
        if "own_operation ?rq op'" for op'
        using o(2,3) keeps D(3) [OF that] that unfolding window_keeps_def by blast
      have legs: "\<forall>x\<in>set (rl_log s @ [u]) \<union> set (rl_net s). \<exists>seq role r w. leg_of s seq role = Some (r, w) \<and> x = leg_update ?rq seq role r w"
        using D(4) leg ueq by auto
      show ?thesis
        unfolding server_inv_def Let_def
        using o(1) com fresh D(2,5) uop True legs by (auto simp: acknowledged_def)
    qed
  qed
  moreover have sub: "set (rl_log s) \<subseteq> set (if res = Inr (UPDATE_DONE True) then rl_log s @ [u] else rl_log s)" by auto
  ultimately show ?thesis unfolding release_inv_def by (intro conjI log_grows [OF sub] rest)
qed

lemma allocated_role:
  assumes ok: "server_ok sv" and h: "handle_allocate_only q sv = (sv', Inr (ALLOC_OK i e score fast wl))"
  shows "instance_role i = request_role (aq_role q)"
proof -
  obtain cand where "select_for_request q cand sv = (Some (i, e, score), fast)"
    using h by (auto simp: handle_allocate_only_def Let_def split: if_splits option.splits prod.splits sum.splits bool.splits)
  moreover have "pool_wf (sv_pools sv)" using ok by (simp add: server_ok_def ledgers_ok_def)
  ultimately show ?thesis using select_sound(1) by (auto simp: schedulable_def)
qed

lemma prepare_recorded:
  assumes "prepare_attempt_resource role seq required (Some (i, e, wl)) rt = (rt', Inr r)"
  shows "r = \<lparr>res_instance = i, res_endpoint = e\<rparr> \<and> rt' = rt\<lparr>rt_manager := rt_manager rt'\<rparr> \<and>
    get_req_attempt_workload (rt_req_id rt) (Some seq) role (rt_manager rt) = None \<and>
    (\<forall>seq' role'. get_req_attempt_workload (rt_req_id rt) seq' role' (rt_manager rt') =
       (if seq' = Some seq \<and> role' = role then Some wl else get_req_attempt_workload (rt_req_id rt) seq' role' (rt_manager rt)))"
  using assms
  by (auto simp: prepare_attempt_resource_def record_attempt_workload_def add_req_attempt_workload_def get_req_attempt_workload_def
      workload_key_def dmem_def Let_def split: if_splits prod.splits sum.splits)

lemma task_inv_legs:
  assumes "task_inv s" and "\<And>seq role x. leg_of s seq role = Some x \<Longrightarrow> dget legs (seq, role) = Some x"
  shows "task_inv (s\<lparr>rl_router := (rl_router s)\<lparr>rt_manager := m\<rparr>, rl_server := sv, rl_legs := legs\<rparr>)"
  using assms unfolding task_inv_def task_ok_def by simp meson

lemma allocate_inv:
  assumes inv: "release_inv s" and h: "handle_allocate_only q (rl_server s) = (sv, Inr (ALLOC_OK i e score fast wl))"
    and role: "request_role (aq_role q) = role" "role \<in> {ROLE_P, ROLE_D}" and new: "leg_of s seq role = None"
    and other: "\<forall>\<rho> r' w'. leg_of s seq \<rho> = Some (r', w') \<longrightarrow> ins_id (res_instance r') \<noteq> ins_id i"
    and prep: "prepare_attempt_resource role seq required (Some (i, e, wl)) (rl_router s) = (rt, Inr r)"
  shows "release_inv (s\<lparr>rl_router := rt, rl_server := sv, rl_legs := dset (seq, role) (r, wl) (rl_legs s)\<rparr>)" (is "release_inv ?s")
proof -
  have I: "server_inv s" "leg_inv s" "task_inv s" "flag_inv s" using inv by (simp_all add: release_inv_def)
  note D = server_invD [OF I(1)]
  obtain m where rt: "rt = (rl_router s)\<lparr>rt_manager := m\<rparr>" using prepare_recorded [OF prep] by blast
  have r: "r = \<lparr>res_instance = i, res_endpoint = e\<rparr>" using prepare_recorded [OF prep] by blast
  have rec: "load_record ?s seq' role' = (if seq' = seq \<and> role' = role then Some wl else load_record s seq' role')" for seq' role'
    using prepare_recorded [OF prep] rt by simp
  have leg: "leg_of ?s seq' role' = (if seq' = seq \<and> role' = role then Some (r, wl) else leg_of s seq' role')" for seq' role' by simp
  have keep: "leg_of s seq' role' = Some x \<Longrightarrow> leg_of ?s seq' role' = Some x" for seq' role' x using new by auto
  have sok: "server_ok sv" "committed_operations sv = committed_operations (rl_server s)"
    using allocate_handler_ok [OF D(1), of q] allocate_operations [of q "rl_server s"] h by simp_all
  have nr: "normalize_role r = Some role"
    using allocated_role [OF D(1) h] role by (auto simp: r normalize_role_def instance_role_def split: sum.splits)
  have id: "rt_req_id (rl_router ?s) = rt_req_id (rl_router s)" by (simp add: rt)
  have "\<exists>seq role r w. leg_of ?s seq role = Some (r, w) \<and> u = leg_update (rt_req_id (rl_router ?s)) seq role r w"
    if "u \<in> set (rl_log s) \<or> u \<in> set (rl_net s)" for u using D(4) [OF that] keep id by metis
  then have "server_inv ?s"
    unfolding server_inv_def Let_def id using sok D(2,3,5) by simp
  moreover have "leg_inv ?s"
  proof -
    have "rl_log ?s = rl_log s" by simp
    with id I(2) nr role(2) other r show ?thesis unfolding leg_inv_def rec leg by (auto split: if_splits) metis+
  qed
  moreover have "task_inv ?s"
    unfolding rt by (rule task_inv_legs [OF I(3)]) (use new in auto)
  moreover have "flag_inv ?s"
    using I(4) new unfolding flag_inv_def rec leg by (auto simp: rt split: if_splits) fastforce
  ultimately show ?thesis by (simp add: release_inv_def)
qed

section \<open>Finalizing, queueing and cleaning up\<close>

lemma task_invD:
  assumes "task_inv s" and "dget (rt_tasks (rl_router s)) t = Some k"
  obtains role w where "leg_of s (rk_seq k) role = Some (rk_resource k, w)"
    and "pc_ok (rt_req_id (rl_router s)) (rl_log s) (rk_seq k) role (rk_resource k) w (rk_pc k)"
    and "(\<forall>res. rk_pc k \<noteq> Task_Ended res) \<Longrightarrow>
      dget (release_inflight (rl_router s)) (rt_req_id (rl_router s), rk_seq k, role, RELEASE_TOKENS) = Some t"
    and "rk_action k = RELEASE_TOKENS" and "t < rt_next_task (rl_router s)"
  using assms unfolding task_inv_def task_ok_def by blast

text \<open>The record of an applied leg is dropped and the leg is marked.\<close>

lemma finalize_leg_inv:
  assumes inv: "release_inv s" and leg: "leg_of s seq role = Some (r, w)"
    and logged: "leg_update (rt_req_id (rl_router s)) seq role r w \<in> set (rl_log s)"
    and m: "m = fst (finalize_release (rt_req_id (rl_router s)) role (Some seq) (rt_manager (rl_router s)))"
    and as: "as = rt_attempts (rl_router s) \<or>
      (\<exists>a. dget (rt_attempts (rl_router s)) seq = Some a \<and> as = dset seq (mark_released role RELEASE_TOKENS a) (rt_attempts (rl_router s)))"
  shows "release_inv (s\<lparr>rl_router := (rl_router s)\<lparr>rt_manager := m, rt_attempts := as\<rparr>\<rparr>)" (is "release_inv ?s")
proof -
  have I: "server_inv s" "leg_inv s" "task_inv s" "flag_inv s" using inv by (simp_all add: release_inv_def)
  have rec: "load_record ?s seq' role' = (if seq' = seq \<and> role' = role then None else load_record s seq' role')" for seq' role'
    by (auto simp: m finalize_release_def del_req_attempt_workload_def get_req_attempt_workload_def workload_key_def dmem_def Let_def)
  have same: "rt_req_id (rl_router ?s) = rt_req_id (rl_router s)" "rl_log ?s = rl_log s" "rl_legs ?s = rl_legs s" by simp_all
  have "leg_inv ?s"
    using I(2) leg logged unfolding leg_inv_def rec unfolding same by (auto split: if_splits)
  moreover have "flag_inv ?s"
    unfolding flag_inv_def
  proof (intro allI impI)
    fix seq' a role' assume a: "dget (rt_attempts (rl_router ?s)) seq' = Some a \<and> release_already_marked a role' RELEASE_TOKENS"
    show "load_record ?s seq' role' = None \<and> leg_of ?s seq' role' \<noteq> None"
    proof (cases "seq' = seq \<and> role' = role")
      case True
      with leg show ?thesis unfolding rec by simp
    next
      case False
      have "\<exists>b. dget (rt_attempts (rl_router s)) seq' = Some b \<and> release_already_marked b role' RELEASE_TOKENS"
      proof (cases "as = rt_attempts (rl_router s)")
        case True
        with a show ?thesis by simp
      next
        case changed: False
        with as obtain a0 where "dget (rt_attempts (rl_router s)) seq = Some a0"
          "as = dset seq (mark_released role RELEASE_TOKENS a0) (rt_attempts (rl_router s))" by blast
        with a False show ?thesis by (auto simp: mark_released_def release_already_marked_def split: if_splits)
      qed
      then obtain b where "dget (rt_attempts (rl_router s)) seq' = Some b" "release_already_marked b role' RELEASE_TOKENS" by blast
      with I(4) False show ?thesis unfolding flag_inv_def rec unfolding same by (metis (no_types, lifting))
    qed
  qed
  moreover have "server_inv ?s" "task_inv ?s" using I by (simp_all add: router_invs)
  ultimately show ?thesis by (simp add: release_inv_def)
qed

lemma finalize_inv:
  assumes inv: "release_inv s"
  shows "release_inv (s\<lparr>rl_router := task_finalize raised t (rl_router s)\<rparr>)"
proof (cases "\<exists>k item. dget (rt_tasks (rl_router s)) t = Some k \<and> rk_pc k = Task_Finalize item")
  case False
  then have "task_finalize raised t (rl_router s) = rl_router s"
    by (auto simp: task_finalize_def split: option.splits release_pc.splits)
  with inv show ?thesis by simp
next
  case True
  then obtain k item where k: "dget (rt_tasks (rl_router s)) t = Some k" "rk_pc k = Task_Finalize item" by blast
  have I: "task_inv s" using inv by (simp add: release_inv_def)
  from task_invD [OF I k(1)] obtain role w where leg: "leg_of s (rk_seq k) role = Some (rk_resource k, w)"
    and pc: "pc_ok (rt_req_id (rl_router s)) (rl_log s) (rk_seq k) role (rk_resource k) w (rk_pc k)" by metis
  from pc k(2) have item: "ri_role item = role" "ri_action item = RELEASE_TOKENS"
    and logged: "leg_update (rt_req_id (rl_router s)) (rk_seq k) role (rk_resource k) w \<in> set (rl_log s)"
    by (simp_all add: pc_ok_def item_of_leg_def)
  show ?thesis
  proof (cases raised)
    case True
    with k have "task_finalize raised t (rl_router s) = set_pc t (Task_Ended (Some True)) (rl_router s)" by (simp add: task_finalize_def)
    with moved_inv [OF inv task_moved_set_pc [OF k(1)]] k(2) show ?thesis by (simp add: pc_ok_def)
  next
    case False
    define m where "m = fst (finalize_release (rt_req_id (rl_router s)) role (Some (rk_seq k)) (rt_manager (rl_router s)))"
    define as where "as = (case dget (rt_attempts (rl_router s)) (rk_seq k) of
        Some a \<Rightarrow> if rk_attempt k then dset (rk_seq k) (mark_released role RELEASE_TOKENS a) (rt_attempts (rl_router s)) else rt_attempts (rl_router s)
      | None \<Rightarrow> rt_attempts (rl_router s))"
    have as: "as = rt_attempts (rl_router s) \<or> (\<exists>a. dget (rt_attempts (rl_router s)) (rk_seq k) = Some a \<and>
        as = dset (rk_seq k) (mark_released role RELEASE_TOKENS a) (rt_attempts (rl_router s)))"
      by (auto simp: as_def split: option.split)
    have eq: "task_finalize raised t (rl_router s) =
        set_pc t (Task_Ended (Some True)) ((rl_router s)\<lparr>rt_manager := m, rt_attempts := as\<rparr>)"
      using k item False by (cases "dget (rt_attempts (rl_router s)) (rk_seq k)") (simp_all add: task_finalize_def Let_def m_def as_def)
    from moved_inv [OF finalize_leg_inv [OF inv leg logged m_def as] task_moved_set_pc [of _ t k]] k show ?thesis
      by (simp add: eq pc_ok_def)
  qed
qed

lemma enqueue_inv:
  assumes inv: "release_inv s" and leg: "leg_of s seq role = Some (r, w)"
  shows "release_inv (s\<lparr>rl_router := fst (enqueue_release_attempt_resource r seq RELEASE_TOKENS wa (rl_router s))\<rparr>)"
proof -
  let ?rt = "rl_router s" and ?key = "(rt_req_id (rl_router s), seq, role, RELEASE_TOKENS)"
  have I: "server_inv s" "leg_inv s" "task_inv s" "flag_inv s" using inv by (simp_all add: release_inv_def)
  have nr: "normalize_role r = Some role" using I(2) leg by (simp add: leg_inv_def)
  show ?thesis
  proof (cases "marked wa seq role RELEASE_TOKENS ?rt \<or> dget (release_inflight ?rt) ?key \<noteq> None")
    case True
    then have "fst (enqueue_release_attempt_resource r seq RELEASE_TOKENS wa ?rt) = ?rt"
      using nr by (auto simp: enqueue_release_attempt_resource_def Let_def)
    with inv show ?thesis by simp
  next
    case False
    define k where "k = \<lparr>rk_resource = r, rk_seq = seq, rk_action = RELEASE_TOKENS, rk_attempt = wa, rk_pc = Task_Created\<rparr>"
    define rt where "rt = fst (enqueue_release_attempt_resource r seq RELEASE_TOKENS wa ?rt)"
    from False nr have rt: "rt_req_id rt = rt_req_id ?rt" "rt_manager rt = rt_manager ?rt" "rt_attempts rt = rt_attempts ?rt"
      "rt_next_task rt = rt_next_task ?rt + 1" "rt_tasks rt = dset (rt_next_task ?rt) k (rt_tasks ?rt)"
      "release_inflight rt = dset ?key (rt_next_task ?rt) (release_inflight ?rt)"
      by (simp_all add: rt_def k_def enqueue_release_attempt_resource_def track_release_task_def Let_def)
    have "task_inv (s\<lparr>rl_router := rt\<rparr>)"
      unfolding task_inv_def
    proof (intro allI impI)
      fix t' k' assume "dget (rt_tasks (rl_router (s\<lparr>rl_router := rt\<rparr>))) t' = Some k'"
      then have "(if t' = rt_next_task ?rt then Some k else dget (rt_tasks ?rt) t') = Some k'" by (simp add: rt(5))
      then consider "dget (rt_tasks ?rt) t' = Some k'" | "k' = k" "t' = rt_next_task ?rt" by (metis option.inject)
      then show "task_ok (s\<lparr>rl_router := rt\<rparr>) t' k'"
      proof cases
        case 1
        then have "task_ok s t' k'" using I(3) by (simp add: task_inv_def)
        moreover have "dget (release_inflight rt) key = Some t'" if "dget (release_inflight ?rt) key = Some t'" for key
          using that False by (auto simp: rt(6))
        ultimately show ?thesis unfolding task_ok_def by (simp add: rt(1,4)) (metis less_SucI)
      next
        case 2
        with leg show ?thesis by (simp add: task_ok_def k_def pc_ok_def rt) blast
      qed
    qed
    with I show ?thesis unfolding rt_def [symmetric] by (simp add: release_inv_def router_invs rt)
  qed
qed

lemma cleanup_inv:
  assumes inv: "release_inv s" and k: "dget (rt_tasks (rl_router s)) t = Some k" "rk_pc k = Task_Ended res"
  shows "release_inv (s\<lparr>rl_router := fst (cleanup_release_task t (rl_router s))\<rparr>)"
proof -
  let ?rt = "fst (cleanup_release_task t (rl_router s))"
  have I: "server_inv s" "leg_inv s" "task_inv s" "flag_inv s" using inv by (simp_all add: release_inv_def)
  have same: "rt_req_id ?rt = rt_req_id (rl_router s)" "rt_manager ?rt = rt_manager (rl_router s)"
    "rt_attempts ?rt = rt_attempts (rl_router s)" "rt_tasks ?rt = rt_tasks (rl_router s)" "rt_next_task ?rt = rt_next_task (rl_router s)"
    by (simp_all add: cleanup_release_task_def Let_def split: option.splits)
  have infl: "dget (release_inflight ?rt) key = Some t'" if "dget (release_inflight (rl_router s)) key = Some t'" "t' \<noteq> t" for key t'
    using that by (auto simp: cleanup_release_task_def Let_def split: option.splits)
  have "task_inv (s\<lparr>rl_router := ?rt\<rparr>)"
    unfolding task_inv_def
  proof (intro allI impI)
    fix t' k' assume "dget (rt_tasks (rl_router (s\<lparr>rl_router := ?rt\<rparr>))) t' = Some k'"
    then have k': "dget (rt_tasks (rl_router s)) t' = Some k'" by (simp add: same)
    then have "task_ok s t' k'" using I(3) by (simp add: task_inv_def)
    moreover have "t' \<noteq> t" if "\<forall>res. rk_pc k' \<noteq> Task_Ended res" using that k k' by auto
    ultimately show "task_ok (s\<lparr>rl_router := ?rt\<rparr>) t' k'"
      unfolding task_ok_def by (simp add: same) (metis infl)
  qed
  with I show ?thesis by (simp add: release_inv_def router_invs same)
qed

lemma attempts_inv:
  assumes inv: "release_inv s"
    and as: "\<And>role. release_already_marked a role RELEASE_TOKENS \<Longrightarrow>
      \<exists>b. dget (rt_attempts (rl_router s)) seq = Some b \<and> release_already_marked b role RELEASE_TOKENS"
  shows "release_inv (s\<lparr>rl_router := (rl_router s)\<lparr>rt_attempts := dset seq a (rt_attempts (rl_router s))\<rparr>\<rparr>)" (is "release_inv ?s")
proof -
  have I: "server_inv s" "leg_inv s" "task_inv s" "flag_inv s" using inv by (simp_all add: release_inv_def)
  have "flag_inv ?s" using I(4) as unfolding flag_inv_def by (auto split: if_splits) fastforce+
  with I show ?thesis by (simp add: release_inv_def router_invs)
qed

lemma ack_logged:
  assumes inv: "release_inv s" and leg: "leg_of s seq role = Some (r, w)"
    and "release_operation_id (rt_req_id (rl_router s)) seq r RELEASE_TOKENS \<in> set (rl_acked s)"
  shows "leg_update (rt_req_id (rl_router s)) seq role r w \<in> set (rl_log s)"
proof -
  have I: "server_inv s" "leg_inv s" using inv by (simp_all add: release_inv_def)
  note D = server_invD [OF I(1)]
  from D(5) [OF assms(3)] obtain u where u: "u \<in> set (rl_log s)"
    "uq_operation_id u = Some (release_operation_id (rt_req_id (rl_router s)) seq r RELEASE_TOKENS)" by auto
  from D(4) u(1) obtain seq' role' r' w' where leg': "leg_of s seq' role' = Some (r', w')"
    and ueq: "u = leg_update (rt_req_id (rl_router s)) seq' role' r' w'" by blast
  have "seq' = seq \<and> role' = role \<and> r' = r \<and> w' = w" by (rule leg_of_operation [OF I(2) leg' leg]) (use ueq u in simp)
  with u(1) ueq show ?thesis by simp
qed

lemma compute_inv:
  assumes inv: "release_inv s"
  shows "release_inv (s\<lparr>rl_router := task_compute mul t (rl_router s)\<rparr>)"
proof -
  have I: "task_inv s" "leg_inv s" using inv by (simp_all add: release_inv_def)
  then have rel: "\<forall>k. dget (rt_tasks (rl_router s)) t = Some k \<longrightarrow> rk_action k = RELEASE_TOKENS" by (auto simp: task_inv_def task_ok_def)
  show ?thesis
  proof (rule task_compute_cases [OF rel, of mul])
    fix k item role w
    assume m: "task_moved t k (Task_Send item 0) (rl_router s) (task_compute mul t (rl_router s))"
      and nr: "normalize_role (rk_resource k) = Some role" and rec: "load_record s (rk_seq k) role = Some w"
      and it: "item_of_leg (rt_req_id (rl_router s)) (rk_seq k) role (rk_resource k) w item"
    have "role' = role \<and> w' = w" if "leg_of s (rk_seq k) role' = Some (rk_resource k, w')" for role' w'
      using I(2) that nr rec unfolding leg_inv_def by (metis option.inject option.distinct(1))
    with moved_inv [OF inv m] it show "release_inv (s\<lparr>rl_router := task_compute mul t (rl_router s)\<rparr>)" by (auto simp: pc_ok_def)
  qed (use inv in \<open>auto intro: moved_inv simp: pc_ok_def\<close>)
qed

lemma send_inv:
  assumes inv: "release_inv s" and k: "dget (rt_tasks (rl_router s)) t = Some k" "rk_pc k = Task_Send item n"
  shows "release_inv (s\<lparr>rl_net := ri_params item # rl_net s\<rparr>)"
proof -
  have I: "server_inv s" "leg_inv s" "task_inv s" "flag_inv s" using inv by (simp_all add: release_inv_def)
  from task_invD [OF I(3) k(1)] obtain role w where leg: "leg_of s (rk_seq k) role = Some (rk_resource k, w)"
    and "pc_ok (rt_req_id (rl_router s)) (rl_log s) (rk_seq k) role (rk_resource k) w (rk_pc k)" by metis
  with k(2) have "ri_params item = leg_update (rt_req_id (rl_router s)) (rk_seq k) role (rk_resource k) w"
    by (simp add: pc_ok_def item_of_leg_def)
  with leg have "\<exists>seq role r w. leg_of s seq role = Some (r, w) \<and> ri_params item = leg_update (rt_req_id (rl_router s)) seq role r w" by blast
  with I(1) have "server_inv (s\<lparr>rl_net := ri_params item # rl_net s\<rparr>)" by (simp add: server_inv_def Let_def)
  with I show ?thesis by (simp add: release_inv_def leg_inv_def task_inv_def task_ok_def flag_inv_def)
qed

lemma ack_inv:
  assumes inv: "release_inv s" and k: "dget (rt_tasks (rl_router s)) t = Some k" "rk_pc k = Task_Send item n"
    and op: "uq_operation_id (ri_params item) = Some op" "op \<in> set (rl_acked s)"
  shows "release_inv (s\<lparr>rl_router := task_sent True t (rl_router s)\<rparr>)"
proof -
  have "task_sent True t (rl_router s) = set_pc t (Task_Finalize item) (rl_router s)" using k by (simp add: task_sent_def)
  moreover have m: "task_moved t k (Task_Finalize item) (rl_router s) (set_pc t (Task_Finalize item) (rl_router s))"
    by (rule task_moved_set_pc [OF k(1)]) (simp add: k(2))
  have "release_inv (s\<lparr>rl_router := set_pc t (Task_Finalize item) (rl_router s)\<rparr>)"
    by (rule moved_inv [OF inv m]) (use ack_logged [OF inv] op k(2) in \<open>auto simp: pc_ok_def item_of_leg_def\<close>)
  ultimately show ?thesis by simp
qed

lemma others_inv:
  assumes inv: "release_inv s" and "foreign_server (rt_req_id (rl_router s)) (rl_server s) sv"
    and "foreign_manager (rt_req_id (rl_router s)) (rt_manager (rl_router s)) m"
  shows "release_inv (s\<lparr>rl_server := sv, rl_router := (rl_router s)\<lparr>rt_manager := m\<rparr>\<rparr>)"
proof -
  let ?s = "s\<lparr>rl_server := sv\<rparr>"
  have I: "server_inv s" "leg_inv s" "task_inv s" "flag_inv s" using inv by (simp_all add: release_inv_def)
  have "op \<in> set (committed_operations sv) \<longleftrightarrow> op \<in> set (committed_operations (rl_server s))"
    if "own_operation (rt_req_id (rl_router s)) op" for op
    using assms(2) that unfolding foreign_server_def window_keeps_def by blast
  with I(1) assms(2) have "server_inv ?s" by (simp add: server_inv_def foreign_server_def Let_def)
  moreover have "leg_inv ?s" "task_inv ?s" "flag_inv ?s" using I by (simp_all add: leg_inv_def task_inv_def task_ok_def flag_inv_def)
  ultimately show ?thesis
    using router_invs [of "(rl_router s)\<lparr>rt_manager := m\<rparr>" ?s] assms(3) by (simp add: release_inv_def)
qed

lemma release_step_inv:
  assumes "release_step s s'" and inv: "release_inv s"
  shows "release_inv s'"
  using assms(1)
proof cases
  case (allocate q sv i e score fast wl role seq required rt r)
  from allocate_inv [OF inv allocate(2-7)] allocate(1) show ?thesis by simp
next
  case (attempt seq uuid p d ses ses' a)
  then have "\<not> release_already_marked a role RELEASE_TOKENS" for role
    by (auto simp: new_attempt_def release_already_marked_def Let_def)
  with attempt(1) attempts_inv [OF inv, of a seq] show ?thesis by simp
next
  case (attempt_moves seq a a')
  then have "release_already_marked a' role RELEASE_TOKENS = release_already_marked a role RELEASE_TOKENS" for role
    by (simp add: release_already_marked_def)
  with attempt_moves attempts_inv [OF inv, of a' seq] show ?thesis by auto
next
  case (start t)
  show ?thesis unfolding start
    by (rule task_start_cases [of t "rl_router s"]) (use inv in \<open>auto intro: moved_inv simp: pc_ok_def\<close>)
next
  case (give_up t)
  show ?thesis unfolding give_up
    by (rule task_sent_cases [of False t "rl_router s"]) (use inv in \<open>auto intro: moved_inv simp: pc_ok_def\<close>)
next
  case (cancel_task t)
  show ?thesis unfolding cancel_task
    by (rule task_cancel_cases [of t "rl_router s"]) (use inv in \<open>auto intro: moved_inv simp: pc_ok_def\<close>)
qed (use inv in \<open>simp_all add: enqueue_inv compute_inv send_inv deliver_inv ack_inv finalize_inv cleanup_inv others_inv\<close>)

lemma release_reach_inv: "release_step\<^sup>*\<^sup>* s0 s \<Longrightarrow> release_inv s0 \<Longrightarrow> release_inv s"
  by (induction rule: rtranclp_induct) (auto intro: release_step_inv)

section \<open>Progress of a task\<close>

text \<open>The number of steps a task still has before it.\<close>

fun steps_left :: "release_pc \<Rightarrow> nat" where
  "steps_left Task_Created = RELEASE_RPC_ATTEMPTS + 3"
| "steps_left Task_Compute = RELEASE_RPC_ATTEMPTS + 2"
| "steps_left (Task_Send item n) = RELEASE_RPC_ATTEMPTS - n + 1"
| "steps_left (Task_Finalize item) = 1"
| "steps_left (Task_Ended res) = 0"

text \<open>
  A task ends after at most six steps of its own (start, computation, three tries, completion), so a drain ends. It
  starts with the try number zero and a failed try is followed by the next one only below the limit.
\<close>

lemma task_step_decreases:
  assumes "dget (rt_tasks rt) t = Some k"
  shows "rk_pc k = Task_Created \<Longrightarrow>
      \<exists>k'. dget (rt_tasks (task_start t rt)) t = Some k' \<and> steps_left (rk_pc k') < steps_left (rk_pc k)"
    and "rk_pc k = Task_Compute \<Longrightarrow>
      \<exists>k'. dget (rt_tasks (task_compute mul t rt)) t = Some k' \<and> steps_left (rk_pc k') < steps_left (rk_pc k)"
    and "rk_pc k = Task_Send item n \<Longrightarrow> n < RELEASE_RPC_ATTEMPTS \<Longrightarrow>
      \<exists>k'. dget (rt_tasks (task_sent ok t rt)) t = Some k' \<and> steps_left (rk_pc k') < steps_left (rk_pc k) \<and>
        (\<forall>item' n'. rk_pc k' = Task_Send item' n' \<longrightarrow> n' < RELEASE_RPC_ATTEMPTS)"
    and "rk_pc k = Task_Finalize item \<Longrightarrow>
      \<exists>k'. dget (rt_tasks (task_finalize raised t rt)) t = Some k' \<and> rk_pc k' = Task_Ended (Some True)"
proof -
  show "rk_pc k = Task_Created \<Longrightarrow>
      \<exists>k'. dget (rt_tasks (task_start t rt)) t = Some k' \<and> steps_left (rk_pc k') < steps_left (rk_pc k)"
    using assms by (cases "normalize_role (rk_resource k)") (auto simp: task_start_def)
  show "rk_pc k = Task_Send item n \<Longrightarrow> n < RELEASE_RPC_ATTEMPTS \<Longrightarrow>
      \<exists>k'. dget (rt_tasks (task_sent ok t rt)) t = Some k' \<and> steps_left (rk_pc k') < steps_left (rk_pc k) \<and>
        (\<forall>item' n'. rk_pc k' = Task_Send item' n' \<longrightarrow> n' < RELEASE_RPC_ATTEMPTS)"
    using assms by (auto simp: task_sent_def)
  show "rk_pc k = Task_Finalize item \<Longrightarrow>
      \<exists>k'. dget (rt_tasks (task_finalize raised t rt)) t = Some k' \<and> rk_pc k' = Task_Ended (Some True)"
    using assms by (auto simp: task_finalize_def Let_def)
  obtain rt1 it where p: "prepare_release_work_item mul (rk_resource k) (rk_seq k) (rk_action k) rt = (rt1, it)" by force
  then have "rt_tasks rt1 = rt_tasks rt" by (auto simp: prepare_release_work_item_def split: prod.splits option.splits)
  with assms p show "rk_pc k = Task_Compute \<Longrightarrow>
      \<exists>k'. dget (rt_tasks (task_compute mul t rt)) t = Some k' \<and> steps_left (rk_pc k') < steps_left (rk_pc k)"
    by (cases it; cases "dget (release_records rt1) t") (simp_all add: task_compute_def Let_def)
qed

section \<open>Releases are applied once\<close>

lemma count_list_once: "distinct xs \<Longrightarrow> count_list xs x = (if x \<in> set xs then 1 else 0)"
  by (induction xs) auto


text \<open>A run of the system on the concrete server: a prefill leg is allotted and its release is queued.\<close>

definition demo_router :: "unit router" where
  "demo_router = \<lparr>rt_req_id = ''r'', rt_req_info = \<lparr>req_messages = [], req_len = 4, token_ids = None\<rparr>, rt_manager = init_manager,
     rt_attempts = [], release_inflight = [], release_records = [], rt_tasks = [], rt_next_task = 0\<rparr>"

definition demo_release_sys :: "unit release_sys" where
  "demo_release_sys = \<lparr>rl_router = demo_router, rl_server = demo_server, rl_net = [], rl_acked = [], rl_log = [], rl_legs = []\<rparr>"


section \<open>What is not given back\<close>

text \<open>
  A cancellation that arrives while the decode leg is allotted leaves the prefill leg to nobody: its record
  exists, no attempt and no release task refers to it, and the end of the request drops the record. The load stays on the
  scheduler's ledger.
\<close>

lemma cancelled_allocation_leaks:
  assumes new: "get_req_attempt_workload (rt_req_id rt) (Some (session_seq ses + 1)) ROLE_P (rt_manager rt) = None"
    and eager: "\<not> should_defer_decode_allocation \<lparr>res_instance = i, res_endpoint = e\<rparr>"
    and known: "dmem (rt_req_id rt) (req_info_dict (rt_manager rt))"
  shows "\<exists>rt'. create_attempt uuid (Inr (Some (i, e, wl))) (Inl (Cancelled why)) ses rt = ((ses, rt'), Inl (Cancelled why)) \<and>
    get_req_attempt_workload (rt_req_id rt) (Some (session_seq ses + 1)) ROLE_P (rt_manager rt') = Some wl \<and>
    rt_tasks rt' = rt_tasks rt \<and> rt_attempts rt' = rt_attempts rt \<and>
    get_req_attempt_workload (rt_req_id rt) seq role (rt_manager (close_request_context rt')) = None"
proof -
  obtain m where "allocate_leg ROLE_P (session_seq ses + 1) None (Inr (Some (i, e, wl))) rt =
      (rt\<lparr>rt_manager := m\<rparr>, Inr \<lparr>res_instance = i, res_endpoint = e\<rparr>)" and m: "req_info_dict m = req_info_dict (rt_manager rt)"
      "get_req_attempt_workload (rt_req_id rt) (Some (session_seq ses + 1)) ROLE_P m = Some wl"
    using new by (auto simp: allocate_leg_def prepare_attempt_resource_def record_attempt_workload_def add_req_attempt_workload_def
        get_req_attempt_workload_def workload_key_def dmem_def Let_def)
  then have "create_attempt uuid (Inr (Some (i, e, wl))) (Inl (Cancelled why)) ses rt = ((ses, rt\<lparr>rt_manager := m\<rparr>), Inl (Cancelled why))"
    using eager by (simp add: create_attempt_def allocate_leg_def is_cancellation_def Let_def)
  moreover have "get_req_attempt_workload (rt_req_id rt) seq role (fst (del_req_info (rt_req_id rt) m)) = None"
    using known m(1) by (auto simp: del_req_info_def get_req_attempt_workload_def workload_key_def dget_fold_ddel map_of_eq_None_iff Let_def)
  ultimately show ?thesis using m(2) by (auto simp: close_request_context_def)
qed

text \<open>
  A failed decode allocation does not use up the number of the attempt. When the next attempt is given the same prefill
  endpoint, its release carries the operation id of the first one: the scheduler answers with success, the router forgets the
  load, and the ledger keeps it.
\<close>

lemma failed_allocation_keeps_number:
  "create_attempt uuid p d ses rt = ((ses', rt'), Inl x) \<Longrightarrow> ses' = ses"
  by (auto simp: create_attempt_def open_attempt_def Let_def split: prod.splits sum.splits if_splits)

lemma reused_number_swallows_release:
  assumes "server_ok sv" and "release_operation_id rq seq r RELEASE_TOKENS \<in> set (committed_operations sv)"
  shows "\<exists>sv'. handle_update_workload (leg_update rq seq role r w) sv = (sv', Inr UPDATE_IDEMPOTENT) \<and>
    heap (sv_pools sv') = heap (sv_pools sv)"
proof -
  have "\<exists>sv'. handle_update_workload (leg_update rq seq role r w) sv = (sv', Inr UPDATE_IDEMPOTENT) \<and> server_ok sv' \<and>
      heap (sv_pools sv') = heap (sv_pools sv)"
    by (rule replay_ok [OF assms(1) _ _ _ leg_update_params]) (simp_all add: assms(2) leg_update_def build_update_def is_committed_def)
  then show ?thesis by blast
qed

end
