(* ===== verification/Router_Retry.thy ===== *)
theory Router_Retry
  imports Router_Attempt Upstream_Http
begin

text \<open>
  The retry loops of the router (\<^verbatim>\<open>motor/coordinator/router/strategies/unified_pd.py\<close>, with
  \<open>check_cancel_error\<close> of \<^verbatim>\<open>base.py\<close> and the reasons of \<^verbatim>\<open>motor/common/utils/error.py\<close>): which errors are tried again, when
  the request falls back to one hybrid instance, and what the client gets in the end.

  What an attempt does is an argument: attempt \<open>n\<close> ends with an answer or an error, and the circumstances in which
  it failed (was a part of the answer already sent, can the output be replayed, is the commit sealed, is there a hybrid
  instance) are given with it.
\<close>

section \<open>Cancellations\<close>

definition NODE_FAULT :: string where "NODE_FAULT = ''Node fault''"
definition CLIENT_DISCONNECT :: string where "CLIENT_DISCONNECT = ''Client disconnected''"
definition DISPATCH_ABORT :: string where "DISPATCH_ABORT = ''Cancelled by dispatch''"
definition SCOPE_ABORT :: string where "SCOPE_ABORT = ''Cancelled via cancel scope''"

definition check_cancel_error :: "string option \<Rightarrow> string \<times> bool" where
  "check_cancel_error args =
     (case args of
        None \<Rightarrow> (''Exception'', True)
      | Some reason \<Rightarrow>
          if reason \<in> {CLIENT_DISCONNECT, DISPATCH_ABORT} then (reason, False)
          else if prefix SCOPE_ABORT reason then (SCOPE_ABORT, False)
          else if prefix NODE_FAULT reason then (reason, True)
          else (reason, True))"

definition cancel_stop_reason :: "string \<Rightarrow> attempt_stop_reason" where
  "cancel_stop_reason reason =
     (if prefix NODE_FAULT reason then STOP_PEER_FAILED
      else if reason = CLIENT_DISCONNECT then STOP_CLIENT_DISCONNECT
      else STOP_OTHER)"

section \<open>The decision after an error\<close>

definition max_retry :: "int \<Rightarrow> nat" where
  "max_retry transport_retry_limit = nat (max transport_retry_limit 1)"

definition process_response_error :: "int \<Rightarrow> nat \<Rightarrow> bool \<Rightarrow> router_error \<Rightarrow> router_error \<times> bool \<times> attempt_stop_reason" where
  "process_response_error limit index allow_retry error =
     (case error of
        Cancelled args \<Rightarrow>
          (let (reason_str, retry) = check_cancel_error args
           in (Request_Cancelled reason_str, retry \<and> allow_retry \<and> index + 1 < max_retry limit, cancel_stop_reason reason_str))
      | _ \<Rightarrow>
          (let retry = (allow_retry \<and> index + 1 < max_retry limit)
           in (error,
               (case error of
                  Http_Exception _ \<Rightarrow> False
                | Upstream _ \<Rightarrow> retry \<and> is_retryable_upstream_error error
                | Transport _ \<Rightarrow> retry \<and> is_retryable_upstream_error error
                | _ \<Rightarrow> retry),
               STOP_PEER_FAILED)))"

text \<open>The pause before the next attempt: \<open>retry_delay * 2 ** attempt_index\<close>.\<close>

definition retry_pause :: "rat \<Rightarrow> nat \<Rightarrow> rat" where
  "retry_pause retry_delay index = retry_delay * 2 ^ index"

text \<open>
  \<open>_hybrid_fallback_feasible\<close>, given the switch of the configuration and what the probes of the scheduler return for the
  roles decode, union and prefill (None: the scheduler has no such probe).
\<close>

definition hybrid_fallback_feasible :: "bool \<Rightarrow> ('i list \<times> 'i list \<times> 'i list) option \<Rightarrow> bool" where
  "hybrid_fallback_feasible enabled probe =
     (enabled \<and> (case probe of None \<Rightarrow> False | Some (d, u, p) \<Rightarrow> d = [] \<and> (u \<noteq> [] \<or> p \<noteq> [])))"

section \<open>Requests without streaming\<close>

datatype 'b verdict = Answer 'b | Hybrid_Fallback nat | Raised router_error

function nonstream_from :: "int \<Rightarrow> (nat \<Rightarrow> router_error + 'b) \<Rightarrow> (nat \<Rightarrow> bool) \<Rightarrow> nat \<Rightarrow> 'b verdict" where
  "nonstream_from limit run feasible n =
     (if max_retry limit \<le> n then Raised Runtime_Error
      else (case run n of
              Inr body \<Rightarrow> Answer body
            | Inl e \<Rightarrow>
                (case process_response_error limit n True e of
                   (error, retry, _) \<Rightarrow>
                     if feasible n then Hybrid_Fallback n
                     else if \<not> retry then Raised error
                     else nonstream_from limit run feasible (n + 1))))"
  by pat_completeness auto
termination
  by (relation "measure (\<lambda>(limit, _, _, n). max_retry limit - n)") auto

declare nonstream_from.simps [simp del]

section \<open>Streaming requests\<close>

text \<open>
  How a streaming attempt failed: the error, whether a part of the body had been sent to the client
  (\<open>_stream_body_sent\<close>), whether the output can be resumed by replaying tokens (\<open>can_resume_after_visible_output\<close>), whether the commit was
  sealed and whether a hybrid fallback is feasible.
\<close>

record stream_failure =
  sf_error :: router_error
  sf_body_sent :: bool
  sf_resumable :: bool
  sf_commit_sealed :: bool
  sf_feasible :: bool

definition stream_retry_allowed :: "stream_failure \<Rightarrow> bool" where
  "stream_retry_allowed f = (if \<not> sf_body_sent f then True else sf_resumable f)"

definition hybrid_restart :: "stream_failure \<Rightarrow> bool" where
  "hybrid_restart f = (\<not> sf_body_sent f \<and> \<not> sf_commit_sealed f \<and> sf_feasible f)"

definition hybrid_resume :: "stream_failure \<Rightarrow> bool" where
  "hybrid_resume f = (sf_body_sent f \<and> sf_resumable f \<and> sf_feasible f)"

datatype stream_verdict = Stream_Done | Restart_Hybrid nat | Resume_Hybrid nat | Stream_Raised router_error | Stream_Ended

text \<open>\<open>None\<close>: the attempt streamed to its end. The fallback returns, so it is taken at most once.\<close>

function stream_from :: "int \<Rightarrow> (nat \<Rightarrow> stream_failure option) \<Rightarrow> nat \<Rightarrow> stream_verdict" where
  "stream_from limit run n =
     (if max_retry limit \<le> n then Stream_Ended
      else (case run n of
              None \<Rightarrow> Stream_Done
            | Some f \<Rightarrow>
                (case process_response_error limit n (stream_retry_allowed f) (sf_error f) of
                   (error, retry, _) \<Rightarrow>
                     if hybrid_restart f then Restart_Hybrid n
                     else if hybrid_resume f then Resume_Hybrid n
                     else if \<not> retry then Stream_Raised error
                     else stream_from limit run (n + 1))))"
  by pat_completeness auto
termination
  by (relation "measure (\<lambda>(limit, _, n). max_retry limit - n)") auto

declare stream_from.simps [simp del]

section \<open>What is retried\<close>

lemma max_retry_pos [simp]: "0 < max_retry limit"
  by (simp add: max_retry_def)

text \<open>The last attempt is never followed by another, and an error is repeated only if it may be.\<close>

definition retryable :: "router_error \<Rightarrow> bool" where
  "retryable e = (case e of
     Cancelled args \<Rightarrow> snd (check_cancel_error args)
   | Http_Exception _ \<Rightarrow> False
   | Upstream u \<Rightarrow> ue_status_code u \<in> set RETRYABLE_UPSTREAM_STATUS_CODES
   | Transport t \<Rightarrow> is_retryable_upstream_error (Transport t)
   | _ \<Rightarrow> True)"

lemma process_retry:
  "fst (snd (process_response_error limit n allow e)) \<longleftrightarrow> allow \<and> n + 1 < max_retry limit \<and> retryable e"
proof (cases e)
  case (Cancelled args)
  then show ?thesis by (cases "check_cancel_error args") (auto simp: process_response_error_def retryable_def)
qed (auto simp: process_response_error_def retryable_def is_retryable_upstream_error_def Let_def)

definition final_error :: "router_error \<Rightarrow> router_error" where
  "final_error e = (case e of Cancelled args \<Rightarrow> Request_Cancelled (fst (check_cancel_error args)) | _ \<Rightarrow> e)"

lemma process_error: "fst (process_response_error limit n allow e) = final_error e"
proof (cases e)
  case (Cancelled args)
  then show ?thesis by (cases "check_cancel_error args") (simp add: process_response_error_def final_error_def)
qed (simp_all add: process_response_error_def final_error_def Let_def)

lemma nonstream_step:
  "n < max_retry limit \<Longrightarrow> nonstream_from limit run feasible n =
     (case run n of
        Inr body \<Rightarrow> Answer body
      | Inl e \<Rightarrow> if feasible n then Hybrid_Fallback n
                 else if n + 1 < max_retry limit \<and> retryable e then nonstream_from limit run feasible (n + 1)
                 else Raised (final_error e))"
  using process_retry [of limit n True] process_error [of limit n True]
  by (subst nonstream_from.simps) (simp add: case_prod_beta split: sum.split)

lemma stream_step:
  "n < max_retry limit \<Longrightarrow> stream_from limit run n =
     (case run n of
        None \<Rightarrow> Stream_Done
      | Some f \<Rightarrow> if hybrid_restart f then Restart_Hybrid n
                 else if hybrid_resume f then Resume_Hybrid n
                 else if stream_retry_allowed f \<and> n + 1 < max_retry limit \<and> retryable (sf_error f)
                 then stream_from limit run (n + 1)
                 else Stream_Raised (final_error (sf_error f)))"
  using process_retry process_error
  by (subst stream_from.simps) (simp add: case_prod_beta split: option.split)

section \<open>Loops that decide\<close>

text \<open>
  The contract of a bounded retry loop: each attempt either decides or hands over to the next one, and the last attempt
  decides.
\<close>

locale retry_loop =
  fixes loop :: "nat \<Rightarrow> 'v" and decide :: "nat \<Rightarrow> 'v option" and bound :: nat
  assumes loop_step: "n < bound \<Longrightarrow> loop n = (case decide n of Some v \<Rightarrow> v | None \<Rightarrow> loop (n + 1))"
    and last_decides: "n + 1 = bound \<Longrightarrow> decide n \<noteq> None"
begin

lemma decided_from:
  "n < bound \<Longrightarrow> \<exists>k. n \<le> k \<and> k < bound \<and> decide k = Some (loop n) \<and> (\<forall>m. n \<le> m \<and> m < k \<longrightarrow> decide m = None)"
proof (induction "bound - n" arbitrary: n)
  case (Suc d)
  show ?case
  proof (cases "decide n")
    case (Some v)
    then have "loop n = v" using loop_step [OF Suc.prems] by simp
    with Some Suc.prems show ?thesis by (intro exI [of _ n]) auto
  next
    case None
    have later: "loop n = loop (n + 1)" using loop_step [OF Suc.prems] None by simp
    have "n + 1 < bound" using last_decides [of n] None Suc.prems by fastforce
    moreover have "d = bound - (n + 1)" using Suc.hyps(2) by simp
    ultimately obtain k where "n + 1 \<le> k" "k < bound" "decide k = Some (loop n)" "\<forall>m. n + 1 \<le> m \<and> m < k \<longrightarrow> decide m = None"
      using Suc.hyps(1) [of "n + 1"] unfolding later by blast
    with None show ?thesis by (metis Suc_eq_plus1 Suc_leD le_antisym not_less_eq_eq)
  qed
qed simp

lemma decided: "0 < bound \<Longrightarrow> \<exists>k<bound. decide k = Some (loop 0) \<and> (\<forall>m<k. decide m = None)"
  using decided_from [of 0] by auto

end

definition nonstream_decide :: "int \<Rightarrow> (nat \<Rightarrow> router_error + 'b) \<Rightarrow> (nat \<Rightarrow> bool) \<Rightarrow> nat \<Rightarrow> 'b verdict option" where
  "nonstream_decide limit run feasible n =
     (case run n of
        Inr body \<Rightarrow> Some (Answer body)
      | Inl e \<Rightarrow> if feasible n then Some (Hybrid_Fallback n)
                 else if n + 1 < max_retry limit \<and> retryable e then None else Some (Raised (final_error e)))"

definition stream_decide :: "int \<Rightarrow> (nat \<Rightarrow> stream_failure option) \<Rightarrow> nat \<Rightarrow> stream_verdict option" where
  "stream_decide limit run n =
     (case run n of
        None \<Rightarrow> Some Stream_Done
      | Some f \<Rightarrow> if hybrid_restart f then Some (Restart_Hybrid n)
                 else if hybrid_resume f then Some (Resume_Hybrid n)
                 else if stream_retry_allowed f \<and> n + 1 < max_retry limit \<and> retryable (sf_error f) then None
                 else Some (Stream_Raised (final_error (sf_error f))))"

interpretation nonstream: retry_loop "nonstream_from limit run feasible" "nonstream_decide limit run feasible" "max_retry limit"
  for limit run feasible
  by unfold_locales (auto simp: nonstream_step nonstream_decide_def split: sum.splits)

interpretation streaming: retry_loop "stream_from limit run" "stream_decide limit run" "max_retry limit" for limit run
  by unfold_locales (auto simp: stream_step stream_decide_def split: option.splits)

text \<open>
  A request without streaming: it is answered by the first attempt that succeeds, falls back at the first failure for which
  a hybrid instance is feasible, or raises the error of the last attempt; only retryable errors are followed by another
  attempt, and there are at most \<open>max (transport_retry_limit, 1)\<close> attempts. The error after the
  loop is never raised.
\<close>

lemma nonstream_outcome:
  "\<exists>n<max_retry limit. (\<forall>m<n. \<exists>e. run m = Inl e \<and> retryable e \<and> \<not> feasible m) \<and>
     nonstream_from limit run feasible 0 =
       (case run n of Inr body \<Rightarrow> Answer body | Inl e \<Rightarrow> if feasible n then Hybrid_Fallback n else Raised (final_error e)) \<and>
     (\<forall>e. run n = Inl e \<and> \<not> feasible n \<longrightarrow> \<not> retryable e \<or> n + 1 = max_retry limit)"
proof -
  obtain n where n: "n < max_retry limit" "nonstream_decide limit run feasible n = Some (nonstream_from limit run feasible 0)"
    "\<forall>m<n. nonstream_decide limit run feasible m = None" using nonstream.decided [OF max_retry_pos] by blast
  have "\<exists>e. run m = Inl e \<and> retryable e \<and> \<not> feasible m" if "m < n" for m
    using n(3) [rule_format, OF that] by (auto simp: nonstream_decide_def split: sum.splits if_splits)
  with n(1,2) show ?thesis
    by (intro exI [of _ n]) (auto simp: nonstream_decide_def split: sum.splits if_splits)
qed

text \<open>
  C10: a streaming request ends, and the client never sees output twice. The loop is decided by one of the first
  \<open>max (transport_retry_limit, 1)\<close> attempts, say \<open>n\<close>. Every earlier attempt failed with a retryable error, and had it
  already sent a part of the answer, the output could be resumed by replaying tokens. The request is done if attempt
  \<open>n\<close> streamed to its end; it restarts on a hybrid instance only if nothing was sent and the response is not committed, it
  is resumed there only if the output can be replayed, and if a part was sent that cannot be replayed the error is
  raised. The loop never ends without one of these.
\<close>

theorem stream_never_repeats_output:
  "\<exists>n<max_retry limit.
     (\<forall>m<n. \<exists>f. run m = Some f \<and> retryable (sf_error f) \<and> (sf_body_sent f \<longrightarrow> sf_resumable f)) \<and>
     (case run n of
        None \<Rightarrow> stream_from limit run 0 = Stream_Done
      | Some f \<Rightarrow>
          (stream_from limit run 0 = Restart_Hybrid n \<and> sf_feasible f \<and> \<not> sf_body_sent f \<and> \<not> sf_commit_sealed f \<or>
           stream_from limit run 0 = Resume_Hybrid n \<and> sf_feasible f \<and> sf_body_sent f \<and> sf_resumable f \<or>
           stream_from limit run 0 = Stream_Raised (final_error (sf_error f)) \<and>
             (sf_body_sent f \<and> \<not> sf_resumable f \<or> \<not> retryable (sf_error f) \<or> n + 1 = max_retry limit)) \<and>
          (sf_body_sent f \<and> \<not> sf_resumable f \<longrightarrow> stream_from limit run 0 = Stream_Raised (final_error (sf_error f))))"
proof -
  obtain n where n: "n < max_retry limit" "stream_decide limit run n = Some (stream_from limit run 0)"
    "\<forall>m<n. stream_decide limit run m = None" using streaming.decided [OF max_retry_pos] by blast
  have "\<exists>f. run m = Some f \<and> retryable (sf_error f) \<and> (sf_body_sent f \<longrightarrow> sf_resumable f)" if "m < n" for m
    using n(3) [rule_format, OF that] by (auto simp: stream_decide_def stream_retry_allowed_def split: option.splits if_splits)
  moreover have "case run n of
        None \<Rightarrow> stream_from limit run 0 = Stream_Done
      | Some f \<Rightarrow>
          (stream_from limit run 0 = Restart_Hybrid n \<and> sf_feasible f \<and> \<not> sf_body_sent f \<and> \<not> sf_commit_sealed f \<or>
           stream_from limit run 0 = Resume_Hybrid n \<and> sf_feasible f \<and> sf_body_sent f \<and> sf_resumable f \<or>
           stream_from limit run 0 = Stream_Raised (final_error (sf_error f)) \<and>
             (sf_body_sent f \<and> \<not> sf_resumable f \<or> \<not> retryable (sf_error f) \<or> n + 1 = max_retry limit)) \<and>
          (sf_body_sent f \<and> \<not> sf_resumable f \<longrightarrow> stream_from limit run 0 = Stream_Raised (final_error (sf_error f)))"
    using n(1,2)
    by (auto simp: stream_decide_def hybrid_restart_def hybrid_resume_def stream_retry_allowed_def split: option.splits if_splits)
  ultimately show ?thesis using n(1) by blast
qed

text \<open>Two attempts: a connection error before any output, then a failure in the middle of output that cannot be replayed.\<close>

definition demo_stream_run :: "nat \<Rightarrow> stream_failure option" where
  "demo_stream_run n = Some \<lparr>sf_error = (if n = 0 then Transport ConnectError else Transport ReadError), sf_body_sent = (n > 0),
     sf_resumable = False, sf_commit_sealed = (n > 0), sf_feasible = False\<rparr>"

theorem stream_never_repeats_output_witness:
  "stream_from 5 demo_stream_run 0 = Stream_Raised (Transport ReadError)"
proof -
  have f: "demo_stream_run n = Some f \<Longrightarrow> retryable (sf_error f) \<and> \<not> sf_feasible f \<and> \<not> sf_resumable f \<and> (sf_body_sent f \<longleftrightarrow> n \<noteq> 0) \<and>
      (n \<noteq> 0 \<longrightarrow> sf_error f = Transport ReadError)" for n f
    by (auto simp: demo_stream_run_def retryable_def is_retryable_upstream_error_def)
  from stream_never_repeats_output [of 5 demo_stream_run] show ?thesis
  proof (elim exE conjE, goal_cases)
    case (1 n)
    obtain g where g: "demo_stream_run n = Some g" by (simp add: demo_stream_run_def)
    have "max_retry 5 = 5" by (simp add: max_retry_def)
    with 1(3) g f [OF g] show ?case by (auto simp: final_error_def)
  qed
qed

end
