(* ===== verification/Stream_Response.thy ===== *)
theory Stream_Response
  imports Upstream_Http
begin

text \<open>
  The streaming response of the coordinator (\<^verbatim>\<open>motor/coordinator/router/stream_response.py\<close>): the commit
  controller, which holds back the status line until every upstream leg has accepted the request, and the response that
  pumps the router's chunks to the client.

  Two coroutines share the controller: the main one waits for readiness or a terminal error, and the pump iterates
  over the router's generator. Their waiting points are the states below; what they send to the client is
  recorded in order. The texts of errors are arguments.
\<close>

section \<open>The commit controller\<close>

record commit_controller =
  required_parts :: "string list"
  cc_attempt_id :: int
  ready_parts :: "string list"
  ready_event :: bool
  committed_event :: bool
  commit_started :: bool
  cc_committed :: bool

definition requiring :: "string list \<Rightarrow> py_exn + commit_controller" where
  "requiring parts =
     (if parts = [] then Inl ValueError
      else Inr \<lparr>required_parts = parts, cc_attempt_id = 0, ready_parts = [], ready_event = False, committed_event = False,
                commit_started = False, cc_committed = False\<rparr>)"

definition commit_sealed :: "commit_controller \<Rightarrow> bool" where
  "commit_sealed c \<longleftrightarrow> ready_event c \<or> commit_started c \<or> cc_committed c"

definition begin_attempt :: "int \<Rightarrow> commit_controller \<Rightarrow> commit_controller \<times> (router_error + unit)" where
  "begin_attempt attempt_id c =
     (if commit_sealed c then (c, Inl Runtime_Error)
      else (c\<lparr>cc_attempt_id := attempt_id, ready_parts := [], ready_event := False, committed_event := False\<rparr>, Inr ()))"

definition mark_ready :: "string \<Rightarrow> int \<Rightarrow> commit_controller \<Rightarrow> commit_controller \<times> (py_exn + unit)" where
  "mark_ready part attempt_id c =
     (if attempt_id \<noteq> cc_attempt_id c \<or> commit_sealed c then (c, Inr ())
      else if part \<notin> set (required_parts c) then (c, Inl ValueError)
      else (let c1 = c\<lparr>ready_parts := List.insert part (ready_parts c)\<rparr>
            in (if set (required_parts c1) \<subseteq> set (ready_parts c1) then c1\<lparr>ready_event := True\<rparr> else c1, Inr ())))"

definition mark_commit_started :: "commit_controller \<Rightarrow> commit_controller" where
  "mark_commit_started c = c\<lparr>commit_started := True\<rparr>"

definition mark_committed :: "commit_controller \<Rightarrow> commit_controller" where
  "mark_committed c = c\<lparr>commit_started := True, cc_committed := True, committed_event := True\<rparr>"

section \<open>Errors to the client\<close>

record render_env =
  re_utf8 :: "string \<Rightarrow> string"
  re_str :: "router_error \<Rightarrow> string"
  re_type :: "router_error \<Rightarrow> string"
  re_sanitize :: "string \<Rightarrow> string"
  re_reencode :: "string \<Rightarrow> string option"
  re_chunk :: "string \<Rightarrow> string \<Rightarrow> int \<Rightarrow> string"

definition precommit_response :: "render_env \<Rightarrow> router_error \<Rightarrow> http_response" where
  "precommit_response env e =
     (case e of
        Upstream u \<Rightarrow> render_upstream_error (re_utf8 env) u
      | Transport t \<Rightarrow> render_transport_error (\<lambda>x. re_str env (Transport x)) (\<lambda>x. re_type env (Transport x)) t
      | Http_Exception c \<Rightarrow> \<lparr>rsp_status = c, rsp_body = Json_Detail (re_str env e)\<rparr>
      | _ \<Rightarrow> \<lparr>rsp_status = 500, rsp_body = Json_Error (re_sanitize env (re_str env e)) (re_type env e) 500\<rparr>)"

definition committed_error_code :: "router_error \<Rightarrow> int" where
  "committed_error_code e =
     (case e of
        Upstream u \<Rightarrow> ue_status_code u
      | Transport t \<Rightarrow> if is_timeout_exception t then 504 else 502
      | Http_Exception c \<Rightarrow> c
      | Status_Error c \<Rightarrow> c
      | _ \<Rightarrow> 500)"

text \<open>
  \<open>re_reencode\<close> reads a body as JSON and prints it as an event (None: it is not JSON); \<open>re_chunk\<close> prints the envelope.
\<close>

definition committed_error_chunk :: "render_env \<Rightarrow> router_error \<Rightarrow> string" where
  "committed_error_chunk env e =
     (let envelope = re_chunk env (re_sanitize env (re_str env e)) (re_type env e) (committed_error_code e)
      in case e of
           Upstream u \<Rightarrow>
             (if ue_body u \<noteq> [] then (case re_reencode env (ue_body u) of Some chunk \<Rightarrow> chunk | None \<Rightarrow> envelope) else envelope)
         | _ \<Rightarrow> envelope)"

section \<open>The response\<close>

datatype asgi_message = Response_Start int | Response_Body string bool | Whole_Response http_response

datatype main_pc = Main_Wait | Main_Pump | Main_Ended | Main_Aborted

datatype pump_pc = Pump_Iterate | Pump_Item string | Pump_Finish | Pump_Error router_error | Pump_Ended

record streaming_response =
  sr_controller :: commit_controller
  sr_status_code :: int
  sr_terminal :: "router_error option option"
  sr_first_body_sent :: bool
  sr_finished :: bool
  sr_main :: main_pc
  sr_pump :: pump_pc
  sr_sent :: "asgi_message list"
  sr_yielded :: "string list"

definition new_response :: "int \<Rightarrow> commit_controller \<Rightarrow> streaming_response" where
  "new_response code c =
     \<lparr>sr_controller = c, sr_status_code = code, sr_terminal = None, sr_first_body_sent = False, sr_finished = False,
      sr_main = Main_Wait, sr_pump = Pump_Iterate, sr_sent = [], sr_yielded = []\<rparr>"

definition send_body :: "string \<Rightarrow> bool \<Rightarrow> streaming_response \<Rightarrow> streaming_response" where
  "send_body item more_body r = r\<lparr>sr_sent := sr_sent r @ [Response_Body item more_body]\<rparr>"

definition finish_response :: "streaming_response \<Rightarrow> streaming_response" where
  "finish_response r = (if sr_finished r then r else send_body [] False (r\<lparr>sr_finished := True\<rparr>))"

definition send_committed_error :: "render_env \<Rightarrow> router_error \<Rightarrow> streaming_response \<Rightarrow> streaming_response" where
  "send_committed_error env e r =
     (if sr_finished r then r else finish_response (send_body (committed_error_chunk env e) True r))"

definition send_precommit_error :: "render_env \<Rightarrow> router_error \<Rightarrow> streaming_response \<Rightarrow> streaming_response" where
  "send_precommit_error env e r = r\<lparr>sr_sent := sr_sent r @ [Whole_Response (precommit_response env e)], sr_finished := True\<rparr>"

text \<open>\<open>_pump_stream\<close>: the next item of the generator, and its end, normal or with an error.\<close>

definition pump_yield :: "string \<Rightarrow> streaming_response \<Rightarrow> streaming_response" where
  "pump_yield item r = r\<lparr>sr_pump := Pump_Item item, sr_yielded := sr_yielded r @ [item]\<rparr>"

definition pump_send :: "string \<Rightarrow> streaming_response \<Rightarrow> streaming_response" where
  "pump_send item r = (send_body item True r)\<lparr>sr_pump := Pump_Iterate, sr_first_body_sent := True\<rparr>"

definition pump_end :: "router_error option \<Rightarrow> streaming_response \<Rightarrow> streaming_response" where
  "pump_end err r =
     (if commit_sealed (sr_controller r)
      then r\<lparr>sr_pump := (case err of None \<Rightarrow> Pump_Finish | Some e \<Rightarrow> Pump_Error e)\<rparr>
      else r\<lparr>sr_pump := Pump_Ended, sr_terminal := (if sr_terminal r = None then Some err else sr_terminal r)\<rparr>)"

definition pump_close :: "render_env \<Rightarrow> streaming_response \<Rightarrow> streaming_response" where
  "pump_close env r =
     (case sr_pump r of
        Pump_Finish \<Rightarrow> (finish_response r)\<lparr>sr_pump := Pump_Ended\<rparr>
      | Pump_Error e \<Rightarrow> (send_committed_error env e r)\<lparr>sr_pump := Pump_Ended\<rparr>
      | _ \<Rightarrow> r)"

text \<open>\<open>_stream_response\<close>: the failure before the commit, and the commit.\<close>

definition main_fail :: "render_env \<Rightarrow> router_error option \<Rightarrow> streaming_response \<Rightarrow> streaming_response" where
  "main_fail env err r =
     (send_precommit_error env (case err of None \<Rightarrow> Runtime_Error | Some e \<Rightarrow> e) r)\<lparr>sr_main := Main_Ended\<rparr>"

definition main_commit :: "streaming_response \<Rightarrow> streaming_response" where
  "main_commit r =
     r\<lparr>sr_controller := mark_committed (mark_commit_started (sr_controller r)),
       sr_sent := sr_sent r @ [Response_Start (sr_status_code r)], sr_main := Main_Pump\<rparr>"

text \<open>
  The steps. The router touches the controller only from within its generator, that is while the pump iterates. A
  lost connection or a cancellation ends both coroutines.
\<close>

inductive response_step :: "render_env \<Rightarrow> streaming_response \<Rightarrow> streaming_response \<Rightarrow> bool" for env where
  router_begins:
    "sr_pump r \<in> {Pump_Iterate} \<union> range Pump_Item \<Longrightarrow> sr_main r \<noteq> Main_Aborted \<Longrightarrow>
     response_step env r (r\<lparr>sr_controller := fst (begin_attempt n (sr_controller r))\<rparr>)"
| leg_ready:
    "sr_pump r \<in> {Pump_Iterate} \<union> range Pump_Item \<Longrightarrow> sr_main r \<noteq> Main_Aborted \<Longrightarrow>
     response_step env r (r\<lparr>sr_controller := fst (mark_ready part n (sr_controller r))\<rparr>)"
| yields: "sr_pump r = Pump_Iterate \<Longrightarrow> sr_main r \<noteq> Main_Aborted \<Longrightarrow> response_step env r (pump_yield item r)"
| sends:
    "sr_pump r = Pump_Item item \<Longrightarrow> committed_event (sr_controller r) \<Longrightarrow> sr_main r \<noteq> Main_Aborted \<Longrightarrow>
     response_step env r (pump_send item r)"
| ends: "sr_pump r = Pump_Iterate \<Longrightarrow> sr_main r \<noteq> Main_Aborted \<Longrightarrow> response_step env r (pump_end err r)"
| closes:
    "committed_event (sr_controller r) \<Longrightarrow> sr_main r \<noteq> Main_Aborted \<Longrightarrow> response_step env r (pump_close env r)"
| fails:
    "sr_main r = Main_Wait \<Longrightarrow> sr_terminal r = Some err \<Longrightarrow> \<not> ready_event (sr_controller r) \<Longrightarrow>
     response_step env r (main_fail env err r)"
| commits: "sr_main r = Main_Wait \<Longrightarrow> ready_event (sr_controller r) \<Longrightarrow> response_step env r (main_commit r)"
| finishes: "sr_main r = Main_Pump \<Longrightarrow> sr_pump r = Pump_Ended \<Longrightarrow> response_step env r (r\<lparr>sr_main := Main_Ended\<rparr>)"
| aborts: "sr_main r \<noteq> Main_Ended \<Longrightarrow> response_step env r (r\<lparr>sr_main := Main_Aborted, sr_pump := Pump_Ended\<rparr>)"

section \<open>The shape of a response\<close>

text \<open>
  What a client may receive: nothing yet, one whole error response, or a status line followed by body parts and, at
  the end, the empty part that closes the response.
\<close>

abbreviation body_part :: "string \<Rightarrow> asgi_message" where
  "body_part b \<equiv> Response_Body b True"

definition streamed :: "int \<Rightarrow> string list \<Rightarrow> bool \<Rightarrow> asgi_message list" where
  "streamed code bs fin = Response_Start code # map body_part bs @ (if fin then [Response_Body [] False] else [])"

lemma streamed_grow:
  "streamed code bs False @ [body_part b] = streamed code (bs @ [b]) False"
  "streamed code bs False @ [Response_Body [] False] = streamed code bs True"
  "[Response_Start code] = streamed code [] False"
  "streamed code bs False @ [body_part b, Response_Body [] False] = streamed code (bs @ [b]) True"
  by (simp_all add: streamed_def)

lemma butlast_prefix: "prefix (butlast xs) xs"
  by (cases xs rule: rev_cases) simp_all

text \<open>\<open>bs\<close> is what the client got of the generator's chunks \<open>ys\<close>: a beginning of them, then at most one error event.\<close>

definition delivered :: "string list \<Rightarrow> string list \<Rightarrow> bool" where
  "delivered ys bs \<longleftrightarrow> prefix bs ys \<or> (\<exists>e. bs = ys @ [e])"

text \<open>The whole output: every chunk, then at most one error event.\<close>

definition complete_body :: "string list \<Rightarrow> string list \<Rightarrow> bool" where
  "complete_body ys bs \<longleftrightarrow> bs = ys \<or> (\<exists>e. bs = ys @ [e])"

lemma complete_delivered: "complete_body ys bs \<Longrightarrow> delivered ys bs"
  by (auto simp: complete_body_def delivered_def)

definition response_shape :: "int \<Rightarrow> string list \<Rightarrow> bool \<Rightarrow> asgi_message list \<Rightarrow> bool" where
  "response_shape code ys fin ms \<longleftrightarrow>
     (\<exists>w. ms = [Whole_Response w]) \<or> (\<exists>bs. ms = streamed code bs fin \<and> delivered ys bs)"

section \<open>The invariant\<close>

definition controller_inv :: "string list \<Rightarrow> commit_controller \<Rightarrow> bool" where
  "controller_inv parts c \<longleftrightarrow> required_parts c = parts \<and> (ready_event c \<longrightarrow> set parts \<subseteq> set (ready_parts c))"

definition wait_inv :: "streaming_response \<Rightarrow> bool" where
  "wait_inv r \<longleftrightarrow>
     (let c = sr_controller r
      in sr_sent r = [] \<and> \<not> sr_finished r \<and> \<not> commit_started c \<and> \<not> cc_committed c \<and> \<not> committed_event c \<and>
         (case sr_pump r of
            Pump_Iterate \<Rightarrow> sr_yielded r = [] \<and> sr_terminal r = None
          | Pump_Item i \<Rightarrow> sr_yielded r = [i] \<and> sr_terminal r = None
          | Pump_Ended \<Rightarrow> \<not> ready_event c
          | _ \<Rightarrow> ready_event c \<and> sr_yielded r = []))"

definition pump_inv :: "streaming_response \<Rightarrow> bool" where
  "pump_inv r \<longleftrightarrow>
     (let c = sr_controller r; code = sr_status_code r; ys = sr_yielded r
      in ready_event c \<and> committed_event c \<and> cc_committed c \<and>
         (case sr_pump r of
            Pump_Item i \<Rightarrow> \<not> sr_finished r \<and> ys \<noteq> [] \<and> last ys = i \<and> sr_sent r = streamed code (butlast ys) False
          | Pump_Ended \<Rightarrow> \<exists>bs. sr_sent r = streamed code bs True \<and> complete_body ys bs
          | _ \<Rightarrow> \<not> sr_finished r \<and> sr_sent r = streamed code ys False))"

definition response_inv :: "string list \<Rightarrow> int \<Rightarrow> streaming_response \<Rightarrow> bool" where
  "response_inv parts code r \<longleftrightarrow>
     controller_inv parts (sr_controller r) \<and> sr_status_code r = code \<and>
     (case sr_main r of
        Main_Wait \<Rightarrow> wait_inv r
      | Main_Pump \<Rightarrow> pump_inv r
      | Main_Ended \<Rightarrow> sr_pump r = Pump_Ended \<and>
          ((\<exists>w. sr_sent r = [Whole_Response w]) \<or> (\<exists>bs. sr_sent r = streamed code bs True \<and> complete_body (sr_yielded r) bs)) \<and>
          ((\<exists>m. Response_Start m \<in> set (sr_sent r)) \<longrightarrow> ready_event (sr_controller r))
      | Main_Aborted \<Rightarrow> sr_pump r = Pump_Ended \<and>
          (sr_sent r = [] \<or> (\<exists>fin. response_shape code (sr_yielded r) fin (sr_sent r)) \<and> ready_event (sr_controller r)))"

lemmas response_ops = pump_yield_def pump_send_def pump_end_def pump_close_def main_fail_def main_commit_def send_body_def
  finish_response_def send_committed_error_def send_precommit_error_def

lemma controller_ops_inv:
  "controller_inv parts c \<Longrightarrow> controller_inv parts (fst (begin_attempt n c))"
  "controller_inv parts c \<Longrightarrow> controller_inv parts (fst (mark_ready part n c))"
  "controller_inv parts c \<Longrightarrow> controller_inv parts (mark_committed (mark_commit_started c))"
  by (auto simp: controller_inv_def begin_attempt_def mark_ready_def mark_committed_def mark_commit_started_def commit_sealed_def Let_def)

text \<open>Once the commit is sealed the router cannot change the controller any more.\<close>

lemma sealed_controller:
  "commit_sealed c \<Longrightarrow> fst (begin_attempt n c) = c" "commit_sealed c \<Longrightarrow> fst (mark_ready part n c) = c"
  by (simp_all add: begin_attempt_def mark_ready_def)

lemma unsealed_controller:
  assumes "\<not> commit_sealed c"
  shows "\<not> commit_started (fst (begin_attempt n c))" "\<not> cc_committed (fst (begin_attempt n c))" "\<not> committed_event (fst (begin_attempt n c))"
    and "\<not> commit_started (fst (mark_ready part n c))" "\<not> cc_committed (fst (mark_ready part n c))"
    and "committed_event (fst (mark_ready part n c)) = committed_event c"
  using assms by (auto simp: begin_attempt_def mark_ready_def commit_sealed_def Let_def)

lemma router_step_inv:
  assumes inv: "response_inv parts code r" and pump: "sr_pump r \<in> {Pump_Iterate} \<union> range Pump_Item" and main: "sr_main r \<noteq> Main_Aborted"
    and c: "c = fst (begin_attempt n (sr_controller r)) \<or> c = fst (mark_ready part n (sr_controller r))"
  shows "response_inv parts code (r\<lparr>sr_controller := c\<rparr>)"
proof -
  have ci: "controller_inv parts c" using inv c controller_ops_inv by (auto simp: response_inv_def)
  show ?thesis
  proof (cases "commit_sealed (sr_controller r)")
    case True
    then have "c = sr_controller r" using c sealed_controller by auto
    with inv show ?thesis by simp
  next
    case False
    from inv main pump False have w: "sr_main r = Main_Wait" "wait_inv r"
      by (auto simp: response_inv_def pump_inv_def commit_sealed_def Let_def split: main_pc.splits)
    then have "\<not> committed_event (sr_controller r)" by (simp add: wait_inv_def Let_def)
    then have "\<not> commit_started c \<and> \<not> cc_committed c \<and> \<not> committed_event c" using c unsealed_controller [OF False] by auto
    with w pump ci inv show ?thesis by (auto simp: response_inv_def wait_inv_def Let_def)
  qed
qed

lemma response_step_inv:
  assumes "response_step env r r'" and inv: "response_inv parts code r"
  shows "response_inv parts code r'"
  using assms(1)
proof cases
  case (router_begins n)
  from router_step_inv [OF inv router_begins(2,3)] router_begins(1) show ?thesis by blast
next
  case (leg_ready part n)
  from router_step_inv [OF inv leg_ready(2,3)] leg_ready(1) show ?thesis by blast
next
  case (yields item)
  with inv show ?thesis
    by (auto simp: response_inv_def wait_inv_def pump_inv_def response_ops Let_def split: main_pc.splits)
next
  case (sends item)
  with inv have "sr_main r = Main_Pump" "pump_inv r"
    by (auto simp: response_inv_def wait_inv_def Let_def split: main_pc.splits)
  with sends inv show ?thesis
    by (auto simp: response_inv_def pump_inv_def response_ops Let_def streamed_grow split: main_pc.splits)
next
  case (ends err)
  with inv show ?thesis
    by (auto simp: response_inv_def wait_inv_def pump_inv_def response_ops commit_sealed_def Let_def split: main_pc.splits option.splits)
next
  case closes
  with inv show ?thesis
    by (auto simp: response_inv_def wait_inv_def pump_inv_def response_ops complete_body_def Let_def streamed_grow
        split: main_pc.splits pump_pc.splits)
next
  case (fails err)
  with inv have "sr_pump r = Pump_Ended" by (auto simp: response_inv_def wait_inv_def Let_def split: pump_pc.splits)
  with fails inv show ?thesis by (auto simp: response_inv_def wait_inv_def response_ops response_shape_def Let_def)
next
  case commits
  with inv controller_ops_inv(3) show ?thesis
    by (auto simp: response_inv_def wait_inv_def pump_inv_def response_ops mark_committed_def mark_commit_started_def streamed_def Let_def
        split: pump_pc.splits)
next
  case finishes
  with inv show ?thesis
    by (auto simp: response_inv_def pump_inv_def Let_def)
next
  case aborts
  with inv show ?thesis
    by (auto simp: response_inv_def wait_inv_def pump_inv_def response_shape_def delivered_def complete_body_def Let_def
        split: main_pc.splits pump_pc.splits)
      (use butlast_prefix in blast)
qed

lemma new_response_inv: "requiring parts = Inr c \<Longrightarrow> response_inv parts code (new_response code c)"
  by (auto simp: requiring_def new_response_def response_inv_def controller_inv_def wait_inv_def Let_def split: if_splits)

lemma response_reach_inv:
  "(response_step env)\<^sup>*\<^sup>* r0 r \<Longrightarrow> response_inv parts code r0 \<Longrightarrow> response_inv parts code r"
  by (induction rule: rtranclp_induct) (auto intro: response_step_inv)

text \<open>A leg that reports late or for an earlier attempt is ignored; the parts of a new attempt are counted afresh.\<close>

lemma stale_leg_ignored:
  assumes "m \<noteq> n" and "\<not> commit_sealed c"
  shows "mark_ready part m (fst (begin_attempt n c)) = (fst (begin_attempt n c), Inr ())" and "ready_parts (fst (begin_attempt n c)) = []"
  using assms by (auto simp: mark_ready_def begin_attempt_def)

section \<open>The protocol of a response\<close>

text \<open>
  C9: what a client of a streaming request receives. Whatever the order in which legs become ready, attempts are begun,
  chunks are yielded, the generator ends or fails, and the connection breaks: the messages sent are nothing, one whole
  error response, or one status line followed by body parts. The status line is sent only when every required leg has
  reported readiness. The body parts are the generator's chunks in order, without omission, followed by at most one
  error event. When the response ends without being aborted it is complete: it is an error response, or the status line and
  the body parts of all chunks, closed by exactly one final part.
\<close>

theorem response_protocol:
  assumes c: "requiring parts = Inr c" and run: "(response_step env)\<^sup>*\<^sup>* (new_response code c) r"
  shows "(sr_sent r = [] \<or> (\<exists>w. sr_sent r = [Whole_Response w]) \<or>
      (\<exists>bs fin. sr_sent r = streamed code bs fin \<and> delivered (sr_yielded r) bs)) \<and>
    ((\<exists>m. Response_Start m \<in> set (sr_sent r)) \<longrightarrow> set parts \<subseteq> set (ready_parts (sr_controller r))) \<and>
    (sr_main r = Main_Ended \<longrightarrow>
      (\<exists>w. sr_sent r = [Whole_Response w]) \<or> (\<exists>bs. sr_sent r = streamed code bs True \<and> complete_body (sr_yielded r) bs))"
proof -
  have inv: "response_inv parts code r" using response_reach_inv [OF run new_response_inv [OF c]] .
  have ready: "set parts \<subseteq> set (ready_parts (sr_controller r))" if "ready_event (sr_controller r)"
    using inv that by (simp add: response_inv_def controller_inv_def)
  have pump: "\<exists>bs fin. sr_sent r = streamed code bs fin \<and> delivered (sr_yielded r) bs" if "sr_main r = Main_Pump"
    using inv that butlast_prefix [of "sr_yielded r"]
    by (auto simp: response_inv_def pump_inv_def delivered_def complete_body_def Let_def split: pump_pc.splits)
  show ?thesis
  proof (cases "sr_main r")
    case Main_Wait
    with inv show ?thesis by (simp add: response_inv_def wait_inv_def Let_def)
  next
    case Main_Pump
    with inv pump ready show ?thesis by (simp add: response_inv_def pump_inv_def Let_def)
  next
    case Main_Ended
    with inv ready complete_delivered show ?thesis by (auto simp: response_inv_def)
  next
    case Main_Aborted
    with inv ready show ?thesis by (auto simp: response_inv_def response_shape_def)
  qed
qed

text \<open>One leg, one chunk: begin, ready, chunk, commit, end.\<close>

definition demo_controller :: commit_controller where
  "demo_controller = \<lparr>required_parts = [''decode''], cc_attempt_id = 0, ready_parts = [], ready_event = False, committed_event = False,
     commit_started = False, cc_committed = False\<rparr>"

definition demo_response :: streaming_response where
  "demo_response =
     (new_response 200 demo_controller)
       \<lparr>sr_controller := fst (mark_ready ''decode'' 1 (fst (begin_attempt 1 demo_controller)))\<rparr>"

lemma demo_response_run: "(response_step env)\<^sup>*\<^sup>* (new_response 200 demo_controller) (main_commit demo_response)"
proof -
  let ?r0 = "new_response 200 demo_controller"
  let ?r1 = "?r0\<lparr>sr_controller := fst (begin_attempt 1 demo_controller)\<rparr>"
  have "response_step env ?r0 (?r0\<lparr>sr_controller := fst (begin_attempt 1 (sr_controller ?r0))\<rparr>)"
    by (rule response_step.router_begins) (simp_all add: new_response_def)
  then have s1: "response_step env ?r0 ?r1" by (simp add: new_response_def)
  have "response_step env ?r1 (?r1\<lparr>sr_controller := fst (mark_ready ''decode'' 1 (sr_controller ?r1))\<rparr>)"
    by (rule response_step.leg_ready) (simp_all add: new_response_def)
  then have s2: "response_step env ?r1 demo_response" by (simp add: demo_response_def)
  have s3: "response_step env demo_response (main_commit demo_response)"
    by (rule response_step.commits)
      (simp_all add: demo_response_def new_response_def mark_ready_def begin_attempt_def commit_sealed_def demo_controller_def)
  from s1 have "(response_step env)\<^sup>*\<^sup>* ?r0 ?r1" by (rule r_into_rtranclp)
  from rtranclp.rtrancl_into_rtrancl [OF rtranclp.rtrancl_into_rtrancl [OF this s2] s3] show ?thesis .
qed

lemma demo_controller_new: "requiring [''decode''] = Inr demo_controller"
  by (simp add: requiring_def demo_controller_def)

lemma demo_sent: "sr_sent (main_commit demo_response) = [Response_Start 200]"
  by (simp add: main_commit_def demo_response_def new_response_def)

theorem response_protocol_witness:
  "sr_sent (main_commit demo_response) = [Response_Start 200] \<and>
   (\<exists>bs fin. sr_sent (main_commit demo_response) = streamed 200 bs fin \<and> delivered (sr_yielded (main_commit demo_response)) bs) \<and>
   ''decode'' \<in> set (ready_parts (sr_controller (main_commit demo_response)))"
  using response_protocol [OF demo_controller_new demo_response_run] by (simp add: demo_sent)

end
