(* ===== verification/Sched_Transport.thy ===== *)
theory Sched_Transport
  imports Motor_Prelude "HOL-Library.Code_Target_Nat"
begin

text \<open>
  The request channel of a worker to the scheduler process, \<^verbatim>\<open>_SchedulerTransport\<close> of
  \<^verbatim>\<open>coordinator/scheduler/runtime/scheduler_client.py\<close>. Requests and responses of one socket are interleaved: a task that has sent a request
  waits on an event of its own, the receiving loop files a response under the id it carries and sets the event, and a task can give up because
  of a timeout, a cancellation or an error while its response is under way. The steps below are the sections between two suspension points.
\<close>

section \<open>State\<close>

datatype failure_reason = TIMEOUT | CANCELLED | DISCONNECTED | TRANSPORT_ERROR | NO_RESPONSE

record 'a response =
  resp_id :: string
  resp_data :: 'a

datatype 'a request_result = Answered "'a response" | Failed failure_reason

text \<open>An entry of \<open>_pending_requests\<close>: the event, given by whether it is set, or None for a request that was given up, and the time of sending.\<close>

record pending =
  pd_event :: "bool option"
  pd_time :: rat

record 'a transport =
  tr_connected :: bool
  tr_stopped :: bool
  tr_receiving :: bool
  tr_timeout :: rat
  tr_pending :: "(string, pending) dict"
  tr_responses :: "(string, 'a response) dict"
  tr_waiting :: "string set"
  tr_results :: "string \<rightharpoonup> 'a request_result"

definition init_transport :: "rat \<Rightarrow> 'a transport" where
  "init_transport t = \<lparr>tr_connected = False, tr_stopped = False, tr_receiving = False, tr_timeout = t, tr_pending = [], tr_responses = [], tr_waiting = {}, tr_results = Map.empty\<rparr>"

section \<open>Steps\<close>

definition return_result :: "string \<Rightarrow> 'a request_result \<Rightarrow> 'a transport \<Rightarrow> 'a transport" where
  "return_result rid res s = s\<lparr>tr_waiting := tr_waiting s - {rid}, tr_results := (tr_results s)(rid \<mapsto> res)\<rparr>"

definition forget :: "string \<Rightarrow> 'a transport \<Rightarrow> 'a transport" where
  "forget rid s = s\<lparr>tr_pending := ddel rid (tr_pending s), tr_responses := ddel rid (tr_responses s)\<rparr>"

text \<open>\<open>send_request_result\<close> up to the wait for the event.\<close>

definition begin_request :: "string \<Rightarrow> rat \<Rightarrow> 'a transport \<Rightarrow> 'a transport" where
  "begin_request rid t s =
     (if \<not> tr_connected s then return_result rid (Failed DISCONNECTED) s
      else s\<lparr>tr_pending := dset rid \<lparr>pd_event = Some False, pd_time = t\<rparr> (tr_pending s), tr_waiting := insert rid (tr_waiting s)\<rparr>)"

text \<open>The wait has timed out.\<close>

definition give_up :: "string \<Rightarrow> 'a transport \<Rightarrow> 'a transport" where
  "give_up rid s =
     return_result rid (Failed TIMEOUT)
       (case dget (tr_pending s) rid of
          None \<Rightarrow> s
        | Some p \<Rightarrow> s\<lparr>tr_pending := dset rid \<lparr>pd_event = None, pd_time = pd_time p\<rparr> (tr_pending s)\<rparr>)"

text \<open>The event was set.\<close>

definition wake :: "string \<Rightarrow> 'a transport \<Rightarrow> 'a transport" where
  "wake rid s =
     (let resp = (case dget (tr_pending s) rid of
                    None \<Rightarrow> None
                  | Some p \<Rightarrow> if pd_event p = Some True then dget (tr_responses s) rid else None)
      in return_result rid (case resp of None \<Rightarrow> Failed NO_RESPONSE | Some r \<Rightarrow> Answered r) (forget rid s))"

definition cancel :: "string \<Rightarrow> 'a transport \<Rightarrow> 'a transport" where
  "cancel rid s = return_result rid (Failed CANCELLED) (forget rid s)"

text \<open>An exception of the serializer or the socket; \<open>zmq\<close> says whether it is a ZMQError.\<close>

definition break_off :: "string \<Rightarrow> bool \<Rightarrow> 'a transport \<Rightarrow> 'a transport" where
  "break_off rid zmq s =
     return_result rid (Failed (if zmq \<or> \<not> tr_connected s then DISCONNECTED else TRANSPORT_ERROR)) (forget rid s)"

text \<open>One response in \<open>_receive_loop\<close>.\<close>

definition receive :: "'a response \<Rightarrow> rat \<Rightarrow> 'a transport \<Rightarrow> 'a transport" where
  "receive r now s =
     (case dget (tr_pending s) (resp_id r) of
        None \<Rightarrow> s\<lparr>tr_responses := ddel (resp_id r) (tr_responses s)\<rparr>
      | Some p \<Rightarrow>
          (case pd_event p of
             None \<Rightarrow> if now - pd_time p > tr_timeout s * 2 then forget (resp_id r) s else s
           | Some False \<Rightarrow>
               s\<lparr>tr_responses := dset (resp_id r) r (tr_responses s),
                 tr_pending := dset (resp_id r) \<lparr>pd_event = Some True, pd_time = pd_time p\<rparr> (tr_pending s)\<rparr>
           | Some True \<Rightarrow> s\<lparr>tr_responses := ddel (resp_id r) (tr_responses s)\<rparr>))"

text \<open>
  The socket is there exactly while the transport is connected. The receiving loop of a new connection runs only if \<open>_stop_event\<close> is not set, and a
  response that cannot be decoded ends it.
\<close>

definition close_connection :: "'a transport \<Rightarrow> 'a transport" where
  "close_connection s = s\<lparr>tr_connected := False, tr_receiving := False\<rparr>"

definition connect :: "bool \<Rightarrow> 'a transport \<Rightarrow> 'a transport \<times> bool" where
  "connect works s =
     (if tr_connected s then (s, True)
      else if works then (s\<lparr>tr_connected := True, tr_receiving := \<not> tr_stopped s\<rparr>, True)
      else (close_connection s, False))"

definition disconnect :: "'a transport \<Rightarrow> 'a transport" where
  "disconnect s = close_connection (s\<lparr>tr_stopped := True, tr_receiving := False\<rparr>)"

section \<open>Runs\<close>

datatype 'a tr_event =
    Connect bool
  | Disconnect
  | Send string rat
  | Receive "'a response" rat
  | Undecodable
  | Time_out string
  | Wake string
  | Cancel string
  | Break string bool

definition is_waiting_set :: "string \<Rightarrow> 'a transport \<Rightarrow> bool" where
  "is_waiting_set rid s \<longleftrightarrow> (\<exists>p. dget (tr_pending s) rid = Some p \<and> pd_event p = Some True)"

text \<open>A task can time out, be cancelled or fail only while it waits, and wakes up only when its event is set; a loop that has ended receives nothing.\<close>

fun tr_step :: "'a tr_event \<Rightarrow> 'a transport \<Rightarrow> 'a transport" where
  "tr_step (Connect works) s = fst (connect works s)"
| "tr_step Disconnect s = disconnect s"
| "tr_step (Send rid t) s = begin_request rid t s"
| "tr_step (Receive r now) s = (if tr_receiving s then receive r now s else s)"
| "tr_step Undecodable s = s\<lparr>tr_receiving := False\<rparr>"
| "tr_step (Time_out rid) s = (if rid \<in> tr_waiting s then give_up rid s else s)"
| "tr_step (Wake rid) s = (if rid \<in> tr_waiting s \<and> is_waiting_set rid s then wake rid s else s)"
| "tr_step (Cancel rid) s = (if rid \<in> tr_waiting s then cancel rid s else s)"
| "tr_step (Break rid zmq) s = (if rid \<in> tr_waiting s then break_off rid zmq s else s)"

definition tr_run :: "rat \<Rightarrow> 'a tr_event list \<Rightarrow> 'a transport" where
  "tr_run t evs = fold tr_step evs (init_transport t)"

section \<open>The reference: the first response after the request\<close>

definition answers_to :: "string \<Rightarrow> 'a tr_event list \<Rightarrow> 'a response list" where
  "answers_to rid evs = List.map_filter (\<lambda>ev. case ev of Receive r now \<Rightarrow> if resp_id r = rid then Some r else None | _ \<Rightarrow> None) evs"

fun sends :: "'a tr_event list \<Rightarrow> string list" where
  "sends [] = []"
| "sends (Send rid t # evs) = rid # sends evs"
| "sends (_ # evs) = sends evs"

lemma sends_append: "sends (xs @ ys) = sends xs @ sends ys"
  by (induction xs rule: sends.induct) simp_all

text \<open>The responses for \<open>rid\<close> that arrive after it was sent.\<close>

fun later_answers :: "string \<Rightarrow> 'a tr_event list \<Rightarrow> 'a response list" where
  "later_answers rid [] = []"
| "later_answers rid (ev # evs) = (if \<exists>t. ev = Send rid t then answers_to rid evs else later_answers rid evs)"


lemma later_answers_snoc:
  "later_answers rid (evs @ [ev]) = later_answers rid evs @ (if rid \<in> set (sends evs) then answers_to rid [ev] else [])"
proof (induction rid evs rule: later_answers.induct)
  case (2 rid ev' evs)
  then show ?case by (cases ev') (auto simp: answers_to_def List.map_filter_def)
qed (simp add: answers_to_def List.map_filter_def)

section \<open>What the transport knows of one request\<close>

record 'a req_view =
  v_pending :: "pending option"
  v_response :: "'a response option"
  v_waiting :: bool
  v_result :: "'a request_result option"

definition view_of :: "string \<Rightarrow> 'a transport \<Rightarrow> 'a req_view" where
  "view_of rid s =
     \<lparr>v_pending = dget (tr_pending s) rid, v_response = dget (tr_responses s) rid, v_waiting = (rid \<in> tr_waiting s), v_result = tr_results s rid\<rparr>"

definition view_ok :: "string \<Rightarrow> bool \<Rightarrow> 'a response list \<Rightarrow> 'a req_view \<Rightarrow> bool" where
  "view_ok rid sent_before rs v \<longleftrightarrow>
     (v_waiting v \<longrightarrow> sent_before \<and> v_result v = None \<and>
        (\<exists>b ts. v_pending v = Some \<lparr>pd_event = Some b, pd_time = ts\<rparr> \<and>
           (\<not> b \<longrightarrow> v_response v = None) \<and> (b \<longrightarrow> rs \<noteq> []) \<and> (b \<and> v_response v = None \<longrightarrow> 2 \<le> length rs))) \<and>
     (\<forall>r. v_response v = Some r \<longrightarrow> resp_id r = rid \<and> r \<in> set rs \<and> v_pending v \<noteq> None) \<and>
     (v_pending v \<noteq> None \<longrightarrow> v_waiting v \<or> v_result v = Some (Failed TIMEOUT) \<and> (\<exists>ts. v_pending v = Some \<lparr>pd_event = None, pd_time = ts\<rparr>)) \<and>
     (v_result v \<noteq> None \<longrightarrow> sent_before) \<and>
     (\<forall>r. v_result v = Some (Answered r) \<longrightarrow> resp_id r = rid \<and> r \<in> set rs) \<and>
     (v_result v = Some (Failed NO_RESPONSE) \<longrightarrow> 2 \<le> length rs)"

definition about :: "'a tr_event \<Rightarrow> string option" where
  "about ev = (case ev of Send rid _ \<Rightarrow> Some rid | Receive r _ \<Rightarrow> Some (resp_id r) | Time_out rid \<Rightarrow> Some rid | Wake rid \<Rightarrow> Some rid
     | Cancel rid \<Rightarrow> Some rid | Break rid _ \<Rightarrow> Some rid | _ \<Rightarrow> None)"

lemmas tr_defs = begin_request_def give_up_def wake_def cancel_def break_off_def receive_def connect_def disconnect_def close_connection_def
  return_result_def forget_def Let_def

text \<open>A step leaves alone what it is not about.\<close>

lemma step_other: "about ev \<noteq> Some rid \<Longrightarrow> view_of rid (tr_step ev s) = view_of rid s"
  by (cases ev) (auto simp: about_def view_of_def tr_defs split: option.splits bool.splits)

lemma view_send:
  "view_of rid (tr_step (Send rid t) s) =
     (if tr_connected s then (view_of rid s)\<lparr>v_pending := Some \<lparr>pd_event = Some False, pd_time = t\<rparr>, v_waiting := True\<rparr>
      else (view_of rid s)\<lparr>v_waiting := False, v_result := Some (Failed DISCONNECTED)\<rparr>)"
  by (simp add: view_of_def tr_defs)

lemma view_receive:
  assumes "resp_id r = rid"
  shows "view_of rid (tr_step (Receive r now) s) =
     (if \<not> tr_receiving s then view_of rid s
      else (case v_pending (view_of rid s) of
              None \<Rightarrow> (view_of rid s)\<lparr>v_response := None\<rparr>
            | Some p \<Rightarrow>
                (case pd_event p of
                   None \<Rightarrow> if now - pd_time p > tr_timeout s * 2 then (view_of rid s)\<lparr>v_pending := None, v_response := None\<rparr> else view_of rid s
                 | Some False \<Rightarrow> (view_of rid s)\<lparr>v_response := Some r, v_pending := Some \<lparr>pd_event = Some True, pd_time = pd_time p\<rparr>\<rparr>
                 | Some True \<Rightarrow> (view_of rid s)\<lparr>v_response := None\<rparr>)))"
  using assms by (simp add: view_of_def tr_defs split: option.split bool.split)

lemma view_time_out:
  "view_of rid (tr_step (Time_out rid) s) =
     (if v_waiting (view_of rid s)
      then (view_of rid s)\<lparr>v_pending := map_option (\<lambda>p. \<lparr>pd_event = None, pd_time = pd_time p\<rparr>) (v_pending (view_of rid s)),
             v_waiting := False, v_result := Some (Failed TIMEOUT)\<rparr>
      else view_of rid s)"
  by (simp add: view_of_def tr_defs split: option.split)

lemma view_wake:
  "view_of rid (tr_step (Wake rid) s) =
     (if v_waiting (view_of rid s) \<and> (\<exists>p. v_pending (view_of rid s) = Some p \<and> pd_event p = Some True)
      then (view_of rid s)\<lparr>v_pending := None, v_response := None, v_waiting := False,
             v_result := Some (case v_response (view_of rid s) of None \<Rightarrow> Failed NO_RESPONSE | Some r \<Rightarrow> Answered r)\<rparr>
      else view_of rid s)"
  by (auto simp add: view_of_def tr_defs is_waiting_set_def)

lemma view_cancel:
  "view_of rid (tr_step (Cancel rid) s) =
     (if v_waiting (view_of rid s)
      then (view_of rid s)\<lparr>v_pending := None, v_response := None, v_waiting := False, v_result := Some (Failed CANCELLED)\<rparr> else view_of rid s)"
  by (simp add: view_of_def tr_defs)

lemma view_break:
  "\<exists>reason. reason \<in> {DISCONNECTED, TRANSPORT_ERROR} \<and> view_of rid (tr_step (Break rid zmq) s) =
     (if v_waiting (view_of rid s)
      then (view_of rid s)\<lparr>v_pending := None, v_response := None, v_waiting := False, v_result := Some (Failed reason)\<rparr> else view_of rid s)"
  by (auto simp: view_of_def tr_defs)

lemma view_ok_more: "view_ok rid b rs v \<Longrightarrow> view_ok rid b (rs @ rs') v"
  unfolding view_ok_def by (elim conjE, intro conjI) fastforce+

lemma view_ok_settled:
  assumes "view_ok rid b rs v" "b" "res \<noteq> Failed NO_RESPONSE" "\<forall>r. res \<noteq> Answered r"
  shows "view_ok rid b rs (v\<lparr>v_pending := None, v_response := None, v_waiting := False, v_result := Some res\<rparr>)"
  using assms by (simp add: view_ok_def)


lemma view_fresh:
  assumes "view_ok rid False rs v"
  shows "v = \<lparr>v_pending = None, v_response = None, v_waiting = False, v_result = None\<rparr>"
proof -
  have "\<not> v_waiting v" "v_result v = None" using assms unfolding view_ok_def by blast+
  moreover from this have "v_pending v = None" using assms unfolding view_ok_def by simp
  moreover from this have "v_response v = None" using assms unfolding view_ok_def by (metis option.exhaust)
  ultimately show ?thesis by (cases v) simp
qed

lemma send_ok:
  assumes "view_ok rid False rs (view_of rid s)"
  shows "view_ok rid True rs (view_of rid (tr_step (Send rid t) s))"
  unfolding view_send view_fresh [OF assms] by (auto simp: view_ok_def)

lemma receive_ok:
  assumes ok: "view_ok rid b rs (view_of rid s)" and r: "resp_id r = rid"
  shows "view_ok rid b (rs @ (if b then [r] else [])) (view_of rid (tr_step (Receive r now) s))"
proof (cases "tr_receiving s \<and> b")
  case False
  then show ?thesis
  proof (cases b)
    case True
    then have "view_of rid (tr_step (Receive r now) s) = view_of rid s" using False by (simp add: view_receive [OF r] del: tr_step.simps)
    then show ?thesis using view_ok_more [OF ok] by simp
  next
    case F: False
    then have "view_ok rid False rs (view_of rid s)" using ok by simp
    from view_fresh [OF this] show ?thesis using F unfolding view_receive [OF r] by (simp add: view_ok_def)
  qed
next
  case True
  then have rc: "tr_receiving s" and b: b by simp_all
  let ?v = "view_of rid s"
  show ?thesis
  proof (cases "v_pending ?v")
    case None
    then show ?thesis using ok rc b unfolding view_receive [OF r] by (auto simp: view_ok_def)
  next
    case (Some p)
    show ?thesis
    proof (cases "v_waiting ?v")
      case True
      then obtain e ts where e: "v_pending ?v = Some \<lparr>pd_event = Some e, pd_time = ts\<rparr>" "v_result ?v = None"
        using ok unfolding view_ok_def by blast
      show ?thesis
      proof (cases e)
        case True
        with e have "rs \<noteq> []" using ok \<open>v_waiting ?v\<close> unfolding view_ok_def by fastforce
        then have "2 \<le> length (rs @ [r])" by (cases rs) simp_all
        then show ?thesis using ok rc b e True unfolding view_receive [OF r] by (auto simp: view_ok_def)
      next
        case False
        then show ?thesis using ok rc b e r unfolding view_receive [OF r] by (auto simp: view_ok_def)
      qed
    next
      case False
      then obtain ts where "v_pending ?v = Some \<lparr>pd_event = None, pd_time = ts\<rparr>" using ok Some unfolding view_ok_def by auto
      then show ?thesis using view_ok_more [OF ok, of "[r]"] rc b False unfolding view_receive [OF r] by (auto simp: view_ok_def)
    qed
  qed
qed

lemma time_out_ok:
  assumes "view_ok rid b rs (view_of rid s)"
  shows "view_ok rid b rs (view_of rid (tr_step (Time_out rid) s))"
proof (cases "v_waiting (view_of rid s)")
  case True
  then obtain e ts where "v_pending (view_of rid s) = Some \<lparr>pd_event = Some e, pd_time = ts\<rparr>" using assms unfolding view_ok_def by blast
  then show ?thesis unfolding view_time_out using assms True by (simp add: view_ok_def)
next
  case False
  then show ?thesis unfolding view_time_out using assms by simp
qed

lemma wake_ok:
  assumes "view_ok rid b rs (view_of rid s)"
  shows "view_ok rid b rs (view_of rid (tr_step (Wake rid) s))"
proof (cases "v_waiting (view_of rid s) \<and> (\<exists>p. v_pending (view_of rid s) = Some p \<and> pd_event p = Some True)")
  case True
  then obtain p where p: "v_waiting (view_of rid s)" "v_pending (view_of rid s) = Some p" "pd_event p = Some True" by blast
  show ?thesis
  proof (cases "v_response (view_of rid s)")
    case None
    then have "2 \<le> length rs \<and> b" using assms p unfolding view_ok_def by auto
    then show ?thesis unfolding view_wake using True None by (simp add: view_ok_def)
  next
    case (Some r)
    then have "resp_id r = rid \<and> r \<in> set rs \<and> b" using assms p unfolding view_ok_def by blast
    then show ?thesis unfolding view_wake using True Some by (simp add: view_ok_def)
  qed
next
  case False
  then show ?thesis unfolding view_wake if_not_P [OF False] using assms by simp
qed

lemma step_same:
  assumes a: "about ev = Some rid" and ok: "view_ok rid b rs (view_of rid s)" and new: "\<forall>t. ev = Send rid t \<longrightarrow> \<not> b"
  shows "view_ok rid (b \<or> (\<exists>t. ev = Send rid t)) (rs @ (if b then answers_to rid [ev] else [])) (view_of rid (tr_step ev s))"
proof (cases ev)
  case (Send x t)
  then show ?thesis using a ok new send_ok by (auto simp: about_def)
next
  case (Receive r now)
  then show ?thesis using a receive_ok [OF ok, of r now] by (cases b) (simp_all add: about_def answers_to_def List.map_filter_def)
next
  case (Time_out x)
  then show ?thesis using a time_out_ok [OF ok] by (cases b) (simp_all add: about_def answers_to_def List.map_filter_def del: tr_step.simps)
next
  case (Wake x)
  then show ?thesis using a wake_ok [OF ok] by (cases b) (simp_all add: about_def answers_to_def List.map_filter_def del: tr_step.simps)
next
  case (Cancel x)
  have "v_waiting (view_of rid s) \<longrightarrow> b" using ok unfolding view_ok_def by blast
  then have "view_ok rid b rs (view_of rid (tr_step (Cancel rid) s))"
    unfolding view_cancel using ok view_ok_settled [OF ok, of "Failed CANCELLED"] by simp
  then show ?thesis using Cancel a by (cases b) (simp_all add: about_def answers_to_def List.map_filter_def del: tr_step.simps)
next
  case (Break x z)
  have "v_waiting (view_of rid s) \<longrightarrow> b" using ok unfolding view_ok_def by blast
  then have "view_ok rid b rs (view_of rid (tr_step (Break rid z) s))"
    using ok view_break [of rid z s] view_ok_settled [OF ok] by (auto simp del: tr_step.simps)
  then show ?thesis using Break a by (cases b) (simp_all add: about_def answers_to_def List.map_filter_def del: tr_step.simps)
qed (use a in \<open>simp_all add: about_def\<close>)

lemma run_view:
  assumes "distinct (sends evs)"
  shows "view_ok rid (rid \<in> set (sends evs)) (later_answers rid evs) (view_of rid (tr_run t evs))"
  using assms
proof (induction evs rule: rev_induct)
  case Nil
  then show ?case by (simp add: tr_run_def init_transport_def view_of_def view_ok_def)
next
  case (snoc ev evs)
  have run: "tr_run t (evs @ [ev]) = tr_step ev (tr_run t evs)" by (simp add: tr_run_def)
  have ih: "view_ok rid (rid \<in> set (sends evs)) (later_answers rid evs) (view_of rid (tr_run t evs))" using snoc by (simp add: sends_append)
  have sent: "rid \<in> set (sends (evs @ [ev])) \<longleftrightarrow> rid \<in> set (sends evs) \<or> (\<exists>t. ev = Send rid t)"
    by (cases ev) (auto simp: sends_append)
  show ?case
  proof (cases "about ev = Some rid")
    case True
    have new: "\<forall>t. ev = Send rid t \<longrightarrow> rid \<notin> set (sends evs)" using snoc.prems by (auto simp: sends_append)
    show ?thesis unfolding run sent later_answers_snoc by (rule step_same [OF True ih new])
  next
    case False
    then have "answers_to rid [ev] = []" "\<nexists>t. ev = Send rid t"
      by (auto simp: about_def answers_to_def List.map_filter_def split: tr_event.splits)
    then show ?thesis using ih unfolding run sent later_answers_snoc step_other [OF False] by (cases "rid \<in> set (sends evs)") simp_all
  qed
qed

section \<open>The property\<close>

text \<open>
  C6: requests and responses of the scheduler channel are matched correctly, whatever the order of sending, receiving, timeouts,
  cancellations, errors and reconnections, as long as no request id is used twice. A task that gets a response gets one that carries its id and
  arrived after it was sent; a task that wakes up without a response was sent at least two; a task never waits and has a result;
  and nothing remains of a request that has ended, in either table, unless it timed out.
\<close>

theorem transport_correlates:
  assumes "distinct (sends evs)"
  shows "(\<forall>r. tr_results (tr_run t evs) rid = Some (Answered r) \<longrightarrow> resp_id r = rid \<and> r \<in> set (later_answers rid evs)) \<and>
    (tr_results (tr_run t evs) rid = Some (Failed NO_RESPONSE) \<longrightarrow> 2 \<le> length (later_answers rid evs)) \<and>
    (rid \<in> tr_waiting (tr_run t evs) \<longrightarrow> tr_results (tr_run t evs) rid = None \<and> dmem rid (tr_pending (tr_run t evs))) \<and>
    (rid \<notin> tr_waiting (tr_run t evs) \<and> tr_results (tr_run t evs) rid \<noteq> Some (Failed TIMEOUT) \<longrightarrow>
       \<not> dmem rid (tr_pending (tr_run t evs)) \<and> \<not> dmem rid (tr_responses (tr_run t evs)))"
proof -
  have ok: "view_ok rid (rid \<in> set (sends evs)) (later_answers rid evs) (view_of rid (tr_run t evs))" by (rule run_view [OF assms])
  show ?thesis
  proof (intro conjI)
    show "\<forall>r. tr_results (tr_run t evs) rid = Some (Answered r) \<longrightarrow> resp_id r = rid \<and> r \<in> set (later_answers rid evs)"
      "tr_results (tr_run t evs) rid = Some (Failed NO_RESPONSE) \<longrightarrow> 2 \<le> length (later_answers rid evs)"
      using ok by (simp_all add: view_ok_def view_of_def)
    show "rid \<in> tr_waiting (tr_run t evs) \<longrightarrow> tr_results (tr_run t evs) rid = None \<and> dmem rid (tr_pending (tr_run t evs))"
      using ok by (auto simp: view_ok_def view_of_def)
    show "rid \<notin> tr_waiting (tr_run t evs) \<and> tr_results (tr_run t evs) rid \<noteq> Some (Failed TIMEOUT) \<longrightarrow>
       \<not> dmem rid (tr_pending (tr_run t evs)) \<and> \<not> dmem rid (tr_responses (tr_run t evs))"
      using ok by (auto simp: view_ok_def view_of_def dmem_def)
  qed
qed

text \<open>Two requests at once: the second is answered first, the first times out and its response comes late.\<close>

theorem transport_correlates_witness:
  "let evs = [Connect True, Send ''a-1'' 0, Send ''a-2'' 1, Receive \<lparr>resp_id = ''a-2'', resp_data = 7\<rparr> 2, Time_out ''a-1'', Wake ''a-2'',
       Receive \<lparr>resp_id = ''a-1'', resp_data = (8 :: nat)\<rparr> 6]
   in tr_results (tr_run 5 evs) ''a-2'' = Some (Answered \<lparr>resp_id = ''a-2'', resp_data = 7\<rparr>) \<and>
     \<not> dmem ''a-2'' (tr_pending (tr_run 5 evs)) \<and> \<not> dmem ''a-2'' (tr_responses (tr_run 5 evs)) \<and>
     tr_results (tr_run 5 evs) ''a-1'' = Some (Failed TIMEOUT) \<and> dmem ''a-1'' (tr_pending (tr_run 5 evs))"
proof -
  let ?evs = "[Connect True, Send ''a-1'' 0, Send ''a-2'' 1, Receive \<lparr>resp_id = ''a-2'', resp_data = 7\<rparr> 2, Time_out ''a-1'', Wake ''a-2'',
       Receive \<lparr>resp_id = ''a-1'', resp_data = (8 :: nat)\<rparr> 6]"
  have run: "tr_results (tr_run 5 ?evs) ''a-2'' = Some (Answered \<lparr>resp_id = ''a-2'', resp_data = 7\<rparr>)"
    "tr_results (tr_run 5 ?evs) ''a-1'' = Some (Failed TIMEOUT)" "''a-2'' \<notin> tr_waiting (tr_run 5 ?evs)"
    "dmem ''a-1'' (tr_pending (tr_run 5 ?evs))"
    by (simp_all add: tr_run_def init_transport_def tr_defs is_waiting_set_def)
  moreover have "distinct (sends ?evs)" by simp
  from transport_correlates [OF this, of 5 "''a-2''"] run
  have "\<not> dmem ''a-2'' (tr_pending (tr_run 5 ?evs)) \<and> \<not> dmem ''a-2'' (tr_responses (tr_run 5 ?evs))" by simp
  ultimately show ?thesis unfolding Let_def by blast
qed

text \<open>A response that cannot be decoded ends the receiving loop for good: connecting again changes nothing, and every later request times out at best.\<close>

lemma dead_receiver_stays:
  assumes "tr_connected s" "\<not> tr_receiving s" "Disconnect \<notin> set evs"
  shows "tr_connected (fold tr_step evs s) \<and> \<not> tr_receiving (fold tr_step evs s)"
  using assms
proof (induction evs arbitrary: s)
  case (Cons ev evs)
  have "tr_connected (tr_step ev s) \<and> \<not> tr_receiving (tr_step ev s)"
    using Cons.prems by (cases ev) (auto simp: tr_defs split: option.splits)
  then show ?case using Cons by simp
qed simp

text \<open>After \<open>disconnect\<close> no later connection receives anything.\<close>

lemma stopped_stays:
  assumes "tr_stopped s" "\<not> tr_receiving s"
  shows "tr_stopped (fold tr_step evs s) \<and> \<not> tr_receiving (fold tr_step evs s)"
  using assms
proof (induction evs arbitrary: s)
  case (Cons ev evs)
  have "tr_stopped (tr_step ev s) \<and> \<not> tr_receiving (tr_step ev s)"
    using Cons.prems by (cases ev) (auto simp: tr_defs split: option.splits)
  then show ?case using Cons by simp
qed simp

lemma reconnect_never_receives: "\<not> tr_receiving (fold tr_step evs (disconnect s))"
  using stopped_stays [of "disconnect s" evs] by (simp add: tr_defs)

end
