(* ===== verification/Zmq_Protocol.thy ===== *)
theory Zmq_Protocol
  imports Config_Resolver
begin

text \<open>
  The messages between workers and the scheduler process, \<^verbatim>\<open>coordinator/scheduler/runtime/zmq_protocol.py\<close>: large parts of the data of a request or
  response travel in frames of their own and are replaced by a reference in the main frame. The codec, msgspec's MessagePack, is a
  parameter: \<open>enc\<close> fails on values it does not support, and \<open>decode\<close> on bytes it cannot read. Python's bound on the depth of the recursion is the
  fuel of \<open>resolve_refs\<close>.
\<close>

section \<open>References\<close>

type_synonym blob = "int list"

definition ZERO_COPY_REF_KEY :: string where
  "ZERO_COPY_REF_KEY = ''__ref__''"

definition DEFAULT_ZERO_COPY_THRESHOLD :: nat where
  "DEFAULT_ZERO_COPY_THRESHOLD = 1024"

definition ref_to :: "nat \<Rightarrow> json" where
  "ref_to n = JObj [(ZERO_COPY_REF_KEY, JInt (int n))]"

definition blob_of :: "(json \<Rightarrow> blob option) \<Rightarrow> json \<Rightarrow> blob" where
  "blob_of enc v = (case enc v of None \<Rightarrow> [] | Some b \<Rightarrow> b)"

fun is_compound :: "json \<Rightarrow> bool" where
  "is_compound (JObj _) = True"
| "is_compound (JList _) = True"
| "is_compound _ = False"

definition looks_like_ref :: "(string \<times> json) list \<Rightarrow> bool" where
  "looks_like_ref kvs \<longleftrightarrow> (case dget kvs ZERO_COPY_REF_KEY of None \<Rightarrow> False | Some v \<Rightarrow> v \<noteq> JNull \<and> length kvs = 1)"

text \<open>\<open>_replace_large_with_refs\<close>, with the frames collected so far as an accumulator; the loop over the items of a dictionary and over the elements of a list.\<close>

function replace_large :: "(json \<Rightarrow> blob option) \<Rightarrow> nat \<Rightarrow> json \<Rightarrow> blob list \<Rightarrow> json \<times> blob list"
  and replace_items :: "(json \<Rightarrow> blob option) \<Rightarrow> nat \<Rightarrow> (string \<times> json) list \<Rightarrow> blob list \<Rightarrow> (string \<times> json) list \<times> blob list"
  and replace_list :: "(json \<Rightarrow> blob option) \<Rightarrow> nat \<Rightarrow> json list \<Rightarrow> blob list \<Rightarrow> json list \<times> blob list" where
  "replace_large enc th (JObj kvs) aux =
     (if looks_like_ref kvs then (JObj kvs, aux)
      else (case replace_items enc th kvs aux of (kvs', aux') \<Rightarrow> (JObj kvs', aux')))"
| "replace_large enc th (JList xs) aux =
     (let b = blob_of enc (JList xs)
      in if length b > th then (ref_to (length aux), aux @ [b])
         else (case replace_list enc th xs aux of (xs', aux') \<Rightarrow> (JList xs', aux')))"
| "replace_large enc th JNull aux = (JNull, aux)"
| "replace_large enc th (JBool b) aux = (JBool b, aux)"
| "replace_large enc th (JInt i) aux = (JInt i, aux)"
| "replace_large enc th (JFloat q) aux = (JFloat q, aux)"
| "replace_large enc th (JStr s) aux = (JStr s, aux)"
| "replace_items enc th [] aux = ([], aux)"
| "replace_items enc th ((k, v) # kvs) aux =
     (let (v', aux1) = (if is_compound v
                        then (let b = blob_of enc v
                              in if length b > th then (ref_to (length aux), aux @ [b]) else replace_large enc th v aux)
                        else (v, aux));
          (kvs', aux2) = replace_items enc th kvs aux1
      in ((k, v') # kvs', aux2))"
| "replace_list enc th [] aux = ([], aux)"
| "replace_list enc th (x # xs) aux =
     (let (x', aux1) = replace_large enc th x aux; (xs', aux2) = replace_list enc th xs aux1 in (x' # xs', aux2))"
  by pat_completeness auto
termination
  by (relation "measure (\<lambda>p. case p of Inl (_, _, v, _) \<Rightarrow> size v
    | Inr (Inl (_, _, kvs, _)) \<Rightarrow> size_list (size_prod (\<lambda>_. 0) size) kvs | Inr (Inr (_, _, xs, _)) \<Rightarrow> size_list size xs)") auto

text \<open>\<open>_resolve_refs\<close>; \<open>None\<close> is an exception of the decoder or of the interpreter.\<close>

definition ref_index :: "(string \<times> json) list \<Rightarrow> int option" where
  "ref_index kvs = (case kvs of [(k, JInt i)] \<Rightarrow> if k = ZERO_COPY_REF_KEY then Some i else None
     | [(k, JBool b)] \<Rightarrow> if k = ZERO_COPY_REF_KEY then Some (if b then 1 else 0) else None | _ \<Rightarrow> None)"

fun map_opt :: "('a \<Rightarrow> 'b option) \<Rightarrow> 'a list \<Rightarrow> 'b list option" where
  "map_opt f [] = Some []"
| "map_opt f (x # xs) = (case f x of None \<Rightarrow> None | Some y \<Rightarrow> (case map_opt f xs of None \<Rightarrow> None | Some ys \<Rightarrow> Some (y # ys)))"

fun resolve_refs :: "(blob \<Rightarrow> json option) \<Rightarrow> blob list \<Rightarrow> nat \<Rightarrow> json \<Rightarrow> json option" where
  "resolve_refs decode aux 0 v = None"
| "resolve_refs decode aux (Suc n) v =
     (case v of
        JObj kvs \<Rightarrow>
          (let whole = map_option JObj (map_opt (\<lambda>(k, x). map_option (\<lambda>y. (k, y)) (resolve_refs decode aux n x)) kvs)
           in case ref_index kvs of
                None \<Rightarrow> whole
              | Some i \<Rightarrow>
                  if 0 \<le> i \<and> i < int (length aux)
                  then (case decode (aux ! nat i) of None \<Rightarrow> None | Some d \<Rightarrow> resolve_refs decode aux n d)
                  else whole)
      | JList xs \<Rightarrow> map_option JList (map_opt (resolve_refs decode aux n) xs)
      | _ \<Rightarrow> Some v)"

section \<open>Messages and frames\<close>

record request_msg =
  rq_type :: string
  rq_id :: string
  rq_data :: json

record response_msg =
  rs_type :: string
  rs_id :: string
  rs_data :: "json option"
  rs_error :: "string option"

datatype payload = Single blob | Multi "blob list"

definition to_payload :: "blob \<Rightarrow> blob list \<Rightarrow> payload" where
  "to_payload main aux = (if aux = [] then Single main else Multi (main # aux))"

definition serialize_request :: "(json \<Rightarrow> blob option) \<Rightarrow> (request_msg \<Rightarrow> blob option) \<Rightarrow> nat \<Rightarrow> request_msg \<Rightarrow> payload option" where
  "serialize_request enc encq th q =
     (case replace_large enc th (rq_data q) [] of (data, aux) \<Rightarrow>
        map_option (\<lambda>main. to_payload main aux) (encq (q\<lparr>rq_data := data\<rparr>)))"

definition deserialize_request :: "(blob \<Rightarrow> json option) \<Rightarrow> (blob \<Rightarrow> request_msg option) \<Rightarrow> nat \<Rightarrow> payload \<Rightarrow> request_msg option" where
  "deserialize_request decode decq depth p =
     (case p of
        Single b \<Rightarrow> decq b
      | Multi [] \<Rightarrow> None
      | Multi (main # aux) \<Rightarrow>
          (case decq main of
             None \<Rightarrow> None
           | Some q \<Rightarrow> if aux = [] then Some q else map_option (\<lambda>d. q\<lparr>rq_data := d\<rparr>) (resolve_refs decode aux depth (rq_data q))))"

definition serialize_response :: "(json \<Rightarrow> blob option) \<Rightarrow> (response_msg \<Rightarrow> blob option) \<Rightarrow> nat \<Rightarrow> response_msg \<Rightarrow> payload option" where
  "serialize_response enc encp th r =
     (case rs_data r of
        None \<Rightarrow> map_option (\<lambda>main. to_payload main []) (encp r)
      | Some v \<Rightarrow>
          (case replace_large enc th v [] of (data, aux) \<Rightarrow>
             map_option (\<lambda>main. to_payload main aux) (encp (r\<lparr>rs_data := Some data\<rparr>))))"

definition deserialize_response :: "(blob \<Rightarrow> json option) \<Rightarrow> (blob \<Rightarrow> response_msg option) \<Rightarrow> nat \<Rightarrow> payload \<Rightarrow> response_msg option" where
  "deserialize_response decode decp depth p =
     (case p of
        Single b \<Rightarrow> decp b
      | Multi [] \<Rightarrow> None
      | Multi (main # aux) \<Rightarrow>
          (case decp main of
             None \<Rightarrow> None
           | Some r \<Rightarrow>
               if aux = [] then Some r
               else (case rs_data r of
                       None \<Rightarrow> Some (r\<lparr>rs_data := None\<rparr>)
                     | Some v \<Rightarrow>
                         if \<not> truthy v then Some (r\<lparr>rs_data := None\<rparr>)
                         else map_option (\<lambda>d. r\<lparr>rs_data := Some d\<rparr>) (resolve_refs decode aux depth v))))"

definition pack_send_frames :: "blob list \<Rightarrow> payload \<Rightarrow> blob list" where
  "pack_send_frames prefix p = (case p of Multi fs \<Rightarrow> prefix @ fs | Single b \<Rightarrow> prefix @ [b])"

definition unpack_recv_payload :: "blob list \<Rightarrow> nat \<Rightarrow> payload" where
  "unpack_recv_payload parts start =
     (if length parts \<le> start then Single [] else if length parts = start + 1 then Single (parts ! start) else Multi (drop start parts))"


section \<open>Data without references of its own\<close>

fun no_refs :: "json \<Rightarrow> bool" where
  "no_refs (JObj kvs) \<longleftrightarrow> ref_index kvs = None \<and> (\<forall>(k, v) \<in> set kvs. no_refs v)"
| "no_refs (JList xs) \<longleftrightarrow> (\<forall>x \<in> set xs. no_refs x)"
| "no_refs _ \<longleftrightarrow> True"

fun depth :: "json \<Rightarrow> nat" where
  "depth (JObj kvs) = 1 + fold (\<lambda>(k, v) m. max (depth v) m) kvs 0"
| "depth (JList xs) = 1 + fold (\<lambda>x m. max (depth x) m) xs 0"
| "depth _ = 1"

lemma fold_max_ge: "(m :: nat) \<le> fold (\<lambda>x m. max (f x) m) xs m"
  by (induction xs arbitrary: m) (auto intro: order_trans [OF max.cobounded2])

lemma fold_max_mem: "x \<in> set xs \<Longrightarrow> f x \<le> fold (\<lambda>x m. max (f x) m) xs (m :: nat)"
proof (induction xs arbitrary: m)
  case (Cons y ys)
  then show ?case using fold_max_ge [of "max (f y) m" f ys] by auto
qed simp

lemma depth_obj: "(k, v) \<in> set kvs \<Longrightarrow> depth v < depth (JObj kvs)"
  using fold_max_mem [of "(k, v)" kvs "\<lambda>p. depth (snd p)" 0] by (simp add: case_prod_unfold)

lemma depth_list: "x \<in> set xs \<Longrightarrow> depth x < depth (JList xs)"
  using fold_max_mem [of x xs depth 0] by simp

lemma map_opt_same: "(\<And>x. x \<in> set xs \<Longrightarrow> f x = Some x) \<Longrightarrow> map_opt f xs = Some xs"
  by (induction xs) simp_all

text \<open>Data without references is its own resolution.\<close>

lemma resolve_plain: "no_refs v \<Longrightarrow> depth v \<le> n \<Longrightarrow> resolve_refs decode aux n v = Some v"
proof (induction n arbitrary: v)
  case 0
  then show ?case by (cases v) simp_all
next
  case (Suc n)
  show ?case
  proof (cases v)
    case (JObj kvs)
    have "resolve_refs decode aux n x = Some x" if "(k, x) \<in> set kvs" for k x
      using Suc.IH [of x] Suc.prems depth_obj [OF that] that by (auto simp: JObj simp del: depth.simps)
    then have "map_opt (\<lambda>(k, x). map_option (\<lambda>y. (k, y)) (resolve_refs decode aux n x)) kvs = Some kvs"
      by (intro map_opt_same) auto
    then show ?thesis using Suc.prems(1) by (simp add: JObj)
  next
    case (JList xs)
    have "resolve_refs decode aux n x = Some x" if "x \<in> set xs" for x
      using Suc.IH [of x] Suc.prems depth_list [OF that] that by (auto simp: JList simp del: depth.simps)
    then show ?thesis by (simp add: JList map_opt_same)
  qed simp_all
qed

lemma ref_index_ref: "ref_index [(ZERO_COPY_REF_KEY, JInt i)] = Some i"
  by (simp add: ref_index_def)

lemma resolve_ref:
  assumes law: "\<forall>v b. enc v = Some b \<longrightarrow> decode b = Some v" and long: "length (blob_of enc v) > th"
    and v: "no_refs v" "depth v \<le> n"
  shows "resolve_refs decode ((aux @ [blob_of enc v]) @ zs) (Suc n) (ref_to (length aux)) = Some v"
proof -
  from long obtain b where "enc v = Some b" "blob_of enc v = b" by (cases "enc v") (auto simp: blob_of_def)
  then show ?thesis using law resolve_plain [OF v] by (simp add: ref_to_def ref_index_ref nth_append Let_def)
qed

section \<open>Replacing and resolving\<close>

lemma replace_kind:
  "is_compound (fst (replace_large enc th v aux)) = is_compound v" "\<not> is_compound v \<Longrightarrow> replace_large enc th v aux = (v, aux)"
  by (cases v; simp add: ref_to_def Let_def split: prod.split)+

definition extends :: "blob list \<Rightarrow> blob list \<Rightarrow> bool" where
  "extends aux aux' \<longleftrightarrow> (\<exists>ys. aux' = aux @ ys)"

lemma extends_refl: "extends a a" and extends_snoc: "extends a (a @ [b])"
  and extends_trans: "extends a a' \<Longrightarrow> extends a' a'' \<Longrightarrow> extends a a''"
  by (auto simp: extends_def)

text \<open>One item of a dictionary, and the loops in terms of their first step.\<close>

definition replace_value :: "(json \<Rightarrow> blob option) \<Rightarrow> nat \<Rightarrow> json \<Rightarrow> blob list \<Rightarrow> json \<times> blob list" where
  "replace_value enc th v aux =
     (if is_compound v \<and> length (blob_of enc v) > th then (ref_to (length aux), aux @ [blob_of enc v]) else replace_large enc th v aux)"

lemma replace_items_Cons:
  "replace_items enc th ((k, v) # kvs) aux =
     ((k, fst (replace_value enc th v aux)) # fst (replace_items enc th kvs (snd (replace_value enc th v aux))),
      snd (replace_items enc th kvs (snd (replace_value enc th v aux))))"
  by (simp add: replace_value_def Let_def replace_kind(2) split: prod.split)

lemma replace_list_Cons:
  "replace_list enc th (x # xs) aux =
     (fst (replace_large enc th x aux) # fst (replace_list enc th xs (snd (replace_large enc th x aux))),
      snd (replace_list enc th xs (snd (replace_large enc th x aux))))"
  by (simp add: Let_def split: prod.split)

lemma replace_obj: "replace_large enc th (JObj kvs) aux =
    (if looks_like_ref kvs then (JObj kvs, aux) else (JObj (fst (replace_items enc th kvs aux)), snd (replace_items enc th kvs aux)))"
  by (simp split: prod.split)

lemma replace_arr: "replace_large enc th (JList xs) aux =
    (if length (blob_of enc (JList xs)) > th then (ref_to (length aux), aux @ [blob_of enc (JList xs)])
     else (JList (fst (replace_list enc th xs aux)), snd (replace_list enc th xs aux)))"
  by (simp add: Let_def split: prod.split)

declare replace_items.simps(2) [simp del] replace_list.simps(2) [simp del] replace_large.simps(1,2) [simp del]

lemmas replace_steps = replace_items_Cons replace_list_Cons replace_obj replace_arr

lemma extends_value: "extends aux (snd (replace_large enc th v aux)) \<Longrightarrow> extends aux (snd (replace_value enc th v aux))"
  by (simp add: replace_value_def extends_snoc)

lemma extends_items:
  assumes "\<And>k v aux. (k, v) \<in> set kvs \<Longrightarrow> extends aux (snd (replace_large enc th v aux))"
  shows "extends aux (snd (replace_items enc th kvs aux))"
  using assms
proof (induction kvs arbitrary: aux)
  case (Cons p kvs)
  obtain k v where p: "p = (k, v)" by fastforce
  have "extends aux (snd (replace_value enc th v aux))" by (rule extends_value) (use Cons.prems p in auto)
  moreover have "extends (snd (replace_value enc th v aux)) (snd (replace_items enc th kvs (snd (replace_value enc th v aux))))"
    by (rule Cons.IH) (use Cons.prems in auto)
  ultimately show ?case unfolding p replace_steps by (simp add: extends_trans)
qed (simp add: extends_refl)

lemma extends_list:
  assumes "\<And>x aux. x \<in> set xs \<Longrightarrow> extends aux (snd (replace_large enc th x aux))"
  shows "extends aux (snd (replace_list enc th xs aux))"
  using assms
proof (induction xs arbitrary: aux)
  case (Cons x xs)
  have "extends aux (snd (replace_large enc th x aux))" using Cons.prems by simp
  moreover have "extends (snd (replace_large enc th x aux)) (snd (replace_list enc th xs (snd (replace_large enc th x aux))))"
    by (rule Cons.IH) (use Cons.prems in auto)
  ultimately show ?case unfolding replace_steps by (simp add: extends_trans)
qed (simp add: extends_refl)

lemma replace_extends: "extends aux (snd (replace_large enc th v aux))"
proof (induction v arbitrary: aux)
  case (JList xs)
  then show ?case by (simp add: replace_steps extends_snoc extends_list)
next
  case (JObj kvs)
  have "extends aux (snd (replace_items enc th kvs aux))" by (rule extends_items) (use JObj in \<open>fastforce simp: snds.simps\<close>)
  then show ?case by (simp add: replace_steps extends_refl)
qed (simp_all add: extends_refl)

lemma replace_items_extends: "extends aux (snd (replace_items enc th kvs aux))"
  by (rule extends_items) (rule replace_extends)

lemma replace_list_extends: "extends aux (snd (replace_list enc th xs aux))"
  by (rule extends_list) (rule replace_extends)

lemma replace_ref_index:
  assumes "ref_index kvs = None"
  shows "ref_index (fst (replace_items enc th kvs aux)) = None"
proof (cases "\<exists>k v. kvs = [(k, v)]")
  case True
  then obtain k v where kvs: "kvs = [(k, v)]" by blast
  have eq: "fst (replace_items enc th kvs aux) = [(k, fst (replace_value enc th v aux))]" by (simp add: kvs replace_steps)
  show ?thesis
  proof (cases "is_compound v")
    case True
    then have "is_compound (fst (replace_value enc th v aux))" by (simp add: replace_value_def replace_kind(1) ref_to_def)
    then show ?thesis unfolding eq by (cases "fst (replace_value enc th v aux)") (simp_all add: ref_index_def)
  next
    case False
    then show ?thesis using assms unfolding eq by (simp add: replace_value_def replace_kind(2) kvs)
  qed
next
  case False
  have "length (fst (replace_items enc th kvs aux)) = length kvs" for aux
    by (induction kvs arbitrary: aux) (auto simp: replace_steps)
  moreover have "length kvs \<noteq> 1" using False by (cases kvs) auto
  ultimately have "length (fst (replace_items enc th kvs aux)) \<noteq> 1" by simp
  then show ?thesis by (auto simp: ref_index_def split: list.splits json.splits)
qed


text \<open>
  What the loops return resolves to what they were given, also when more frames follow. One level of the recursion is spent on a reference.
\<close>

definition resolves :: "(blob \<Rightarrow> json option) \<Rightarrow> nat \<Rightarrow> (blob list \<Rightarrow> json \<times> blob list) \<Rightarrow> json \<Rightarrow> bool" where
  "resolves decode n f v \<longleftrightarrow> (\<forall>aux zs. resolve_refs decode (snd (f aux) @ zs) (Suc n) (fst (f aux)) = Some v)"

lemma resolves_within:
  assumes "resolves decode n f v" "extends (snd (f aux)) aux'"
  shows "resolve_refs decode (aux' @ zs) (Suc n) (fst (f aux)) = Some v"
  using assms unfolding resolves_def extends_def by (metis append.assoc)

lemma ref_resolves:
  assumes "\<forall>v b. enc v = Some b \<longrightarrow> decode b = Some v" "length (blob_of enc v) > th" "no_refs v" "depth v \<le> n"
  shows "resolves decode n (\<lambda>aux. (ref_to (length aux), aux @ [blob_of enc v])) v"
  unfolding resolves_def fst_conv snd_conv using resolve_ref [OF assms] by blast

lemma value_resolves:
  assumes "\<forall>v b. enc v = Some b \<longrightarrow> decode b = Some v" "no_refs v" "depth v \<le> n" "resolves decode n (replace_large enc th v) v"
  shows "resolves decode n (replace_value enc th v) v"
proof (cases "is_compound v \<and> length (blob_of enc v) > th")
  case True
  then have "replace_value enc th v = (\<lambda>aux. (ref_to (length aux), aux @ [blob_of enc v]))" by (simp add: fun_eq_iff replace_value_def)
  then show ?thesis using ref_resolves [OF assms(1) conjunct2 [OF True] assms(2,3)] by simp
next
  case False
  then have "replace_value enc th v = replace_large enc th v" by (simp only: fun_eq_iff replace_value_def if_False simp_thms)
  then show ?thesis using assms(4) by simp
qed

lemma items_resolve:
  assumes "\<And>k v. (k, v) \<in> set kvs \<Longrightarrow> resolves decode n (replace_value enc th v) v"
  shows "map_opt (\<lambda>(k, x). map_option (\<lambda>y. (k, y)) (resolve_refs decode (snd (replace_items enc th kvs aux) @ zs) (Suc n) x))
        (fst (replace_items enc th kvs aux)) = Some kvs"
  using assms
proof (induction kvs arbitrary: aux)
  case (Cons p kvs)
  obtain k v where p: "p = (k, v)" by fastforce
  let ?aux = "snd (replace_value enc th v aux)"
  have "resolves decode n (replace_value enc th v) v" by (rule Cons.prems [of k]) (simp add: p)
  from resolves_within [OF this replace_items_extends]
  have "resolve_refs decode (snd (replace_items enc th kvs ?aux) @ zs) (Suc n) (fst (replace_value enc th v aux)) = Some v" .
  moreover have "map_opt (\<lambda>(k, x). map_option (\<lambda>y. (k, y)) (resolve_refs decode (snd (replace_items enc th kvs ?aux) @ zs) (Suc n) x))
        (fst (replace_items enc th kvs ?aux)) = Some kvs"
    by (rule Cons.IH) (rule Cons.prems, rule list.set_intros(2))
  ultimately show ?case unfolding p replace_steps by (simp del: resolve_refs.simps)
qed simp

lemma list_resolves:
  assumes "\<And>x. x \<in> set xs \<Longrightarrow> resolves decode n (replace_large enc th x) x"
  shows "map_opt (resolve_refs decode (snd (replace_list enc th xs aux) @ zs) (Suc n)) (fst (replace_list enc th xs aux)) = Some xs"
  using assms
proof (induction xs arbitrary: aux)
  case (Cons x xs)
  let ?aux = "snd (replace_large enc th x aux)"
  have "resolves decode n (replace_large enc th x) x" using Cons.prems by simp
  from resolves_within [OF this replace_list_extends]
  have "resolve_refs decode (snd (replace_list enc th xs ?aux) @ zs) (Suc n) (fst (replace_large enc th x aux)) = Some x" .
  moreover note Cons.IH [of ?aux]
  ultimately show ?case using Cons.prems unfolding replace_steps by (simp del: resolve_refs.simps)
qed simp

lemma plain_resolves: "no_refs v \<Longrightarrow> depth v \<le> n \<Longrightarrow> (\<And>aux. fst (f aux) = v) \<Longrightarrow> resolves decode n f v"
  unfolding resolves_def using resolve_plain [of v "Suc n"] by (simp del: resolve_refs.simps)

lemma large_resolves:
  assumes law: "\<forall>v b. enc v = Some b \<longrightarrow> decode b = Some v"
  shows "no_refs v \<Longrightarrow> depth v \<le> n \<Longrightarrow> resolves decode n (replace_large enc th v) v"
proof (induction v arbitrary: n)
  case (JList xs)
  then obtain m where n: "n = Suc m" by (cases n) simp_all
  have ih: "resolves decode m (replace_large enc th x) x" if "x \<in> set xs" for x
    using JList that depth_list [OF that] by (simp add: n del: depth.simps)
  show ?case
  proof (cases "length (blob_of enc (JList xs)) > th")
    case True
    then have "replace_large enc th (JList xs) = (\<lambda>aux. (ref_to (length aux), aux @ [blob_of enc (JList xs)]))"
      by (simp add: fun_eq_iff replace_arr)
    then show ?thesis using ref_resolves [OF law True JList.prems] by simp
  next
    case False
    then show ?thesis unfolding resolves_def replace_arr using list_resolves [OF ih, of xs] by (simp add: n)
  qed
next
  case (JObj kvs)
  then obtain m where n: "n = Suc m" by (cases n) simp_all
  have ih: "resolves decode m (replace_value enc th v) v" if kv: "(k, v) \<in> set kvs" for k v
  proof (rule value_resolves [OF law])
    show "no_refs v" "depth v \<le> m" using JObj.prems kv depth_obj [OF kv] by (auto simp: n simp del: depth.simps)
    then show "resolves decode m (replace_large enc th v) v" using JObj.IH [of "(k, v)" v] kv by (simp add: snds.simps)
  qed
  have ri: "ref_index kvs = None" using JObj.prems by simp
  show ?case
  proof (cases "looks_like_ref kvs")
    case True
    then show ?thesis by (intro plain_resolves [OF JObj.prems]) (simp add: replace_obj)
  next
    case False
    then show ?thesis unfolding resolves_def replace_obj
      using items_resolve [OF ih, of kvs] replace_ref_index [OF ri, of enc th] by (simp add: n)
  qed
qed (auto intro: plain_resolves)


lemma replaced_truthy: "snd (replace_large enc th v []) \<noteq> [] \<Longrightarrow> truthy (fst (replace_large enc th v []))"
proof (cases v)
  case (JObj kvs)
  show "snd (replace_large enc th v []) \<noteq> [] \<Longrightarrow> truthy (fst (replace_large enc th v []))"
    by (cases kvs) (auto simp: JObj replace_steps split: if_splits)
next
  case (JList xs)
  show "snd (replace_large enc th v []) \<noteq> [] \<Longrightarrow> truthy (fst (replace_large enc th v []))"
    by (cases xs) (auto simp: JList replace_steps ref_to_def split: if_splits)
qed simp_all

text \<open>Without frames of their own nothing is replaced.\<close>

lemma extends_antisym: "extends a b \<Longrightarrow> extends b a \<Longrightarrow> a = b"
  by (auto simp: extends_def)

lemma value_single: "snd (replace_value enc th v aux) = aux \<Longrightarrow> replace_value enc th v aux = replace_large enc th v aux"
  by (auto simp: replace_value_def split: if_splits)

lemma items_single:
  assumes "\<And>k v. (k, v) \<in> set kvs \<Longrightarrow> snd (replace_large enc th v aux) = aux \<Longrightarrow> fst (replace_large enc th v aux) = v"
    "snd (replace_items enc th kvs aux) = aux"
  shows "fst (replace_items enc th kvs aux) = kvs"
  using assms
proof (induction kvs)
  case (Cons p kvs)
  obtain k v where p: "p = (k, v)" by fastforce
  have "extends (snd (replace_value enc th v aux)) aux"
    using Cons.prems(2) replace_items_extends [of "snd (replace_value enc th v aux)" enc th kvs] by (simp add: p replace_steps)
  then have aux: "snd (replace_value enc th v aux) = aux" by (rule extends_antisym) (rule extends_value [OF replace_extends])
  note eq = value_single [OF aux]
  have "fst (replace_large enc th v aux) = v" by (rule Cons.prems(1) [of k]) (use aux eq p in simp_all)
  moreover have "fst (replace_items enc th kvs aux) = kvs"
    by (rule Cons.IH) (use Cons.prems aux in \<open>auto simp: p replace_steps\<close>)
  ultimately show ?case using aux eq by (simp add: p replace_steps)
qed simp

lemma list_single:
  assumes "\<And>x. x \<in> set xs \<Longrightarrow> snd (replace_large enc th x aux) = aux \<Longrightarrow> fst (replace_large enc th x aux) = x"
    "snd (replace_list enc th xs aux) = aux"
  shows "fst (replace_list enc th xs aux) = xs"
  using assms
proof (induction xs)
  case (Cons x xs)
  have "extends (snd (replace_large enc th x aux)) aux"
    using Cons.prems(2) replace_list_extends [of "snd (replace_large enc th x aux)" enc th xs] by (simp add: replace_steps)
  then have aux: "snd (replace_large enc th x aux) = aux" by (rule extends_antisym) (rule replace_extends)
  have "fst (replace_large enc th x aux) = x" using Cons.prems(1) aux by simp
  moreover have "fst (replace_list enc th xs aux) = xs"
    by (rule Cons.IH) (use Cons.prems aux in \<open>auto simp: replace_steps\<close>)
  ultimately show ?case using aux by (simp add: replace_steps)
qed simp

lemma replaced_single: "snd (replace_large enc th v aux) = aux \<Longrightarrow> fst (replace_large enc th v aux) = v"
proof (induction v)
  case (JList xs)
  then show ?case using list_single [of xs enc th aux] by (auto simp: replace_arr split: if_splits)
next
  case (JObj kvs)
  have "fst (replace_large enc th v aux) = v" if "(k, v) \<in> set kvs" "snd (replace_large enc th v aux) = aux" for k v
    using JObj.IH [of "(k, v)" v] that by (simp add: snds.simps)
  then show ?case using JObj.prems items_single [of kvs enc th aux] by (auto simp: replace_obj split: if_splits)
qed simp_all

section \<open>The property\<close>

lemma unpack_pack:
  "unpack_recv_payload (pack_send_frames prefix (to_payload main aux)) (length prefix) = to_payload main aux"
  by (cases aux) (simp_all add: to_payload_def pack_send_frames_def unpack_recv_payload_def nth_append)

lemma replaced_resolves:
  assumes "\<forall>v b. enc v = Some b \<longrightarrow> decode b = Some v" "no_refs v" "depth v < limit"
  shows "resolve_refs decode (snd (replace_large enc th v [])) limit (fst (replace_large enc th v [])) = Some v"
proof -
  obtain n where n: "limit = Suc n" "depth v \<le> n" using assms(3) by (cases limit) auto
  from large_resolves [OF assms(1,2) n(2), of th] show ?thesis unfolding resolves_def n(1) by (metis append_Nil2)
qed

lemma request_roundtrip:
  assumes law: "\<forall>v b. enc v = Some b \<longrightarrow> decode b = Some v" "\<forall>q b. encq q = Some b \<longrightarrow> decq b = Some q"
    and h: "serialize_request enc encq th q = Some p" "no_refs (rq_data q)" "depth (rq_data q) < limit"
  shows "deserialize_request decode decq limit (unpack_recv_payload (pack_send_frames prefix p) (length prefix)) = Some q"
proof -
  obtain data aux where rp: "replace_large enc th (rq_data q) [] = (data, aux)" by fastforce
  from h(1) obtain main where m: "encq (q\<lparr>rq_data := data\<rparr>) = Some main" "p = to_payload main aux"
    by (auto simp: serialize_request_def rp)
  have dq: "decq main = Some (q\<lparr>rq_data := data\<rparr>)" using law(2) m(1) by blast
  show ?thesis
  proof (cases aux)
    case Nil
    then have "data = rq_data q" using replaced_single [of enc th "rq_data q" "[]"] rp by simp
    then show ?thesis unfolding m(2) unpack_pack using dq Nil by (simp add: to_payload_def deserialize_request_def)
  next
    case (Cons b bs)
    have "resolve_refs decode aux limit data = Some (rq_data q)" using replaced_resolves [OF law(1) h(2,3), of th] rp by simp
    then show ?thesis unfolding m(2) unpack_pack using dq Cons by (simp add: to_payload_def deserialize_request_def)
  qed
qed

lemma response_roundtrip:
  assumes law: "\<forall>v b. enc v = Some b \<longrightarrow> decode b = Some v" "\<forall>r b. encp r = Some b \<longrightarrow> decp b = Some r"
    and h: "serialize_response enc encp th r = Some p" "\<forall>v. rs_data r = Some v \<longrightarrow> no_refs v \<and> depth v < limit"
  shows "deserialize_response decode decp limit (unpack_recv_payload (pack_send_frames prefix p) (length prefix)) = Some r"
proof (cases "rs_data r")
  case None
  with h obtain main where m: "encp r = Some main" "p = to_payload main []" by (auto simp: serialize_response_def)
  then have "decp main = Some r" using law(2) by blast
  then show ?thesis unfolding m(2) unpack_pack by (simp add: to_payload_def deserialize_response_def)
next
  case (Some v)
  then have v: "no_refs v" "depth v < limit" using h(2) by blast+
  obtain data aux where rp: "replace_large enc th v [] = (data, aux)" by fastforce
  from h Some obtain main where m: "encp (r\<lparr>rs_data := Some data\<rparr>) = Some main" "p = to_payload main aux"
    by (auto simp: serialize_response_def rp)
  have dp: "decp main = Some (r\<lparr>rs_data := Some data\<rparr>)" using law(2) m(1) by blast
  show ?thesis
  proof (cases aux)
    case Nil
    then have "data = v" using replaced_single [of enc th v "[]"] rp by simp
    then show ?thesis unfolding m(2) unpack_pack using dp Nil Some by (simp add: to_payload_def deserialize_response_def)
  next
    case (Cons b bs)
    have "resolve_refs decode aux limit data = Some v" using replaced_resolves [OF law(1) v, of th] rp by simp
    moreover have "truthy data" using replaced_truthy [of enc th v] rp Cons by simp
    ultimately show ?thesis unfolding m(2) unpack_pack using dp Cons Some by (simp add: to_payload_def deserialize_response_def)
  qed
qed


text \<open>A codec for two values and one message of each kind; with a threshold of two bytes the list of instances travels in a frame of its own.\<close>

definition demo_instances :: json where
  "demo_instances = JList [JInt 1, JInt 2]"

definition demo_enc :: "json \<Rightarrow> blob option" where
  "demo_enc v = (if v = demo_instances then Some [7, 7, 7] else None)"

definition demo_decode :: "blob \<Rightarrow> json option" where
  "demo_decode b = (if b = [7, 7, 7] then Some demo_instances else None)"

definition demo_msg :: "json \<Rightarrow> request_msg" where
  "demo_msg v = \<lparr>rq_type = ''refresh_instances'', rq_id = ''a-1'', rq_data = JObj [(''event'', JStr ''add''), (''instances'', v)]\<rparr>"

definition demo_resp :: "json \<Rightarrow> response_msg" where
  "demo_resp v = \<lparr>rs_type = ''success'', rs_id = ''a-1'', rs_data = Some (JObj [(''instances'', v)]), rs_error = None\<rparr>"


text \<open>A dictionary that looks like a reference is replaced by another part of the message, but only if that part is large.\<close>

lemma forged_reference:
  "resolve_refs demo_decode [[7, 7, 7]] 10 (JObj [(''user'', ref_to 0), (''instances'', ref_to 0)]) =
     Some (JObj [(''user'', demo_instances), (''instances'', demo_instances)])"
  by code_simp

end
