(* ===== verification/Port_Allocator.thy ===== *)
theory Port_Allocator
  imports Motor_Prelude
begin

text \<open>
  Port allocation at start-up (\<^verbatim>\<open>motor/common/utils/port_allocator.py\<close>). Whether a port can be bound
  (\<open>probe_tcp\<close>) is the operating system's answer: an argument of every operation. The table of ports that is
  only logged, and the reachability check of the remote conductor that only adds a row to it, are left out. Port lists of
  the configuration hold numbers.
\<close>

section \<open>Allocation of one port\<close>

type_synonym probe = "int \<Rightarrow> bool"

definition allocate_strict :: "probe \<Rightarrow> int \<Rightarrow> py_exn + int" where
  "allocate_strict probe_tcp port = (if probe_tcp port then Inr port else Inl PortConflictError)"

text \<open>The loop over \<open>range(port, port + scan_range)\<close>; the last argument counts the remaining candidates.\<close>

fun scan_ports :: "probe \<Rightarrow> int list \<Rightarrow> int \<Rightarrow> nat \<Rightarrow> py_exn + int" where
  "scan_ports probe_tcp blocked candidate 0 = Inl PortConflictError"
| "scan_ports probe_tcp blocked candidate (Suc n) =
     (if candidate \<in> set blocked then scan_ports probe_tcp blocked (candidate + 1) n
      else if probe_tcp candidate then Inr candidate
      else scan_ports probe_tcp blocked (candidate + 1) n)"

definition allocate_auto :: "probe \<Rightarrow> int \<Rightarrow> int \<Rightarrow> int list \<Rightarrow> py_exn + int" where
  "allocate_auto probe_tcp port scan_range skip_ports = scan_ports probe_tcp skip_ports port (nat scan_range)"

definition allocate_auto_broadcast :: "probe \<Rightarrow> int \<Rightarrow> (int \<Rightarrow> py_exn + unit) \<Rightarrow> int \<Rightarrow> py_exn + int" where
  "allocate_auto_broadcast probe_tcp port broadcast_fn scan_range =
     (case allocate_auto probe_tcp port scan_range [] of
        Inl x \<Rightarrow> Inl x
      | Inr chosen \<Rightarrow> (case broadcast_fn chosen of Inl _ \<Rightarrow> Inl PortConflictError | Inr _ \<Rightarrow> Inr chosen))"

definition bind_exn :: "py_exn + 'a \<Rightarrow> ('a \<Rightarrow> py_exn + 'b) \<Rightarrow> py_exn + 'b" where
  "bind_exn x f = (case x of Inl e \<Rightarrow> Inl e | Inr v \<Rightarrow> f v)"

lemma bind_exn_simps [simp]: "bind_exn (Inl e) f = Inl e" "bind_exn (Inr v) f = f v"
  by (simp_all add: bind_exn_def)

lemma bind_exn_Inr: "bind_exn x f = Inr y \<longleftrightarrow> (\<exists>v. x = Inr v \<and> f v = Inr y)"
  by (cases x) simp_all

section \<open>The components\<close>

record port_allocator_config =
  pa_enable :: bool
  pa_scan_range :: int

record coordinator_ports =
  coordinator_api_infer_port :: int
  coordinator_api_mgmt_port :: int
  coordinator_obs_port :: int
  conductor_service :: string
  http_server_port :: int

definition apply_coordinator_ports :: "probe \<Rightarrow> port_allocator_config \<Rightarrow> coordinator_ports \<Rightarrow> py_exn + coordinator_ports" where
  "apply_coordinator_ports probe_tcp pac c =
     (if \<not> pa_enable pac then Inr c
      else bind_exn (allocate_strict probe_tcp (coordinator_api_infer_port c)) (\<lambda>infer.
           bind_exn (allocate_auto probe_tcp (coordinator_api_mgmt_port c) (pa_scan_range pac) []) (\<lambda>mgmt.
           bind_exn (allocate_auto probe_tcp (coordinator_obs_port c) (pa_scan_range pac) []) (\<lambda>obs.
             let c1 = c\<lparr>coordinator_api_infer_port := infer, coordinator_api_mgmt_port := mgmt, coordinator_obs_port := obs\<rparr>
             in if conductor_service c = [] then Inr c1
                else bind_exn (allocate_auto probe_tcp (http_server_port c) (pa_scan_range pac) [])
                       (\<lambda>http. Inr (c1\<lparr>http_server_port := http\<rparr>))))))"

record controller_ports =
  controller_api_port :: int
  observability_api_port :: int

definition apply_controller_ports :: "probe \<Rightarrow> port_allocator_config \<Rightarrow> controller_ports \<Rightarrow> py_exn + controller_ports" where
  "apply_controller_ports probe_tcp pac c =
     (if \<not> pa_enable pac then Inr c
      else bind_exn (allocate_strict probe_tcp (controller_api_port c)) (\<lambda>api.
           bind_exn (allocate_auto probe_tcp (observability_api_port c) (pa_scan_range pac) []) (\<lambda>obs.
             Inr \<lparr>controller_api_port = api, observability_api_port = obs\<rparr>)))"

record node_manager_ports =
  node_manager_port :: int
  service_ports :: "int list"
  mgmt_ports :: "int list"
  single_container_flag :: bool
  kv_port :: "int option"
  lookup_rpc_port :: "int option"
  dp_rpc_port :: "int option"

definition truthy_port :: "int option \<Rightarrow> int list" where
  "truthy_port p = (case p of None \<Rightarrow> [] | Some v \<Rightarrow> if v = 0 then [] else [v])"

definition reserved_ports :: "node_manager_ports \<Rightarrow> int list" where
  "reserved_ports c = node_manager_port c # service_ports c @ mgmt_ports c @
     (if single_container_flag c
      then truthy_port (kv_port c) @ truthy_port (lookup_rpc_port c) @ truthy_port (dp_rpc_port c) else [])"

text \<open>The local function \<open>_auto\<close>: it threads the set of ports it has handed out.\<close>

definition auto_port :: "probe \<Rightarrow> int \<Rightarrow> int list \<Rightarrow> int \<Rightarrow> int list \<Rightarrow> py_exn + int \<times> int list" where
  "auto_port probe_tcp scan_range reserved pref allocated =
     bind_exn (allocate_auto probe_tcp pref scan_range (filter (\<lambda>p. p \<noteq> pref) reserved @ allocated))
       (\<lambda>p. Inr (p, p # allocated))"

definition auto_optional_port :: "probe \<Rightarrow> int \<Rightarrow> int list \<Rightarrow> int option \<Rightarrow> int list \<Rightarrow> py_exn + int option \<times> int list" where
  "auto_optional_port probe_tcp scan_range reserved pref allocated =
     (case pref of
        None \<Rightarrow> Inr (None, allocated)
      | Some v \<Rightarrow> bind_exn (auto_port probe_tcp scan_range reserved v allocated) (\<lambda>(p, a). Inr (Some p, a)))"

text \<open>The loop over the endpoints: a service port and a management port each.\<close>

fun endpoint_port_loop ::
  "probe \<Rightarrow> int \<Rightarrow> int list \<Rightarrow> (int \<times> int) list \<Rightarrow> int list \<Rightarrow> py_exn + int list \<times> int list \<times> int list" where
  "endpoint_port_loop probe_tcp scan_range reserved [] allocated = Inr ([], [], allocated)"
| "endpoint_port_loop probe_tcp scan_range reserved ((svc_pref, mgmt_pref) # rest) allocated =
     bind_exn (auto_port probe_tcp scan_range reserved svc_pref allocated) (\<lambda>(svc, a1).
     bind_exn (auto_port probe_tcp scan_range reserved mgmt_pref a1) (\<lambda>(mgmt, a2).
     bind_exn (endpoint_port_loop probe_tcp scan_range reserved rest a2) (\<lambda>(svcs, mgmts, a3).
       Inr (svc # svcs, mgmt # mgmts, a3))))"

definition apply_node_manager_ports :: "probe \<Rightarrow> port_allocator_config \<Rightarrow> node_manager_ports \<Rightarrow> py_exn + node_manager_ports" where
  "apply_node_manager_ports probe_tcp pac c =
     (if \<not> pa_enable pac then Inr c
      else (let r = pa_scan_range pac; reserved = reserved_ports c
            in bind_exn (auto_port probe_tcp r reserved (node_manager_port c) []) (\<lambda>(nm, a1).
               bind_exn (endpoint_port_loop probe_tcp r reserved (zip (service_ports c) (mgmt_ports c)) a1) (\<lambda>(svcs, mgmts, a2).
                 let c1 = c\<lparr>node_manager_port := nm, service_ports := svcs, mgmt_ports := mgmts\<rparr>
                 in if \<not> single_container_flag c then Inr c1
                    else bind_exn (auto_optional_port probe_tcp r reserved (kv_port c) a2) (\<lambda>(kv, a3).
                         bind_exn (auto_optional_port probe_tcp r reserved (lookup_rpc_port c) a3) (\<lambda>(lookup, a4).
                         bind_exn (auto_optional_port probe_tcp r reserved (dp_rpc_port c) a4) (\<lambda>(dp, a5).
                           Inr (c1\<lparr>kv_port := kv, lookup_rpc_port := lookup, dp_rpc_port := dp\<rparr>))))))))"

section \<open>Scanning\<close>

text \<open>A port that one may be given for a preference: in its range, bindable, not reserved for another use.\<close>

definition usable :: "probe \<Rightarrow> int \<Rightarrow> int list \<Rightarrow> int \<Rightarrow> int \<Rightarrow> bool" where
  "usable probe_tcp r reserved pref p \<longleftrightarrow> pref \<le> p \<and> p < pref + r \<and> probe_tcp p \<and> (p \<in> set reserved \<longrightarrow> p = pref)"

lemma range_step: "(\<forall>q. c \<le> q \<and> q < (u :: int) \<longrightarrow> P q) \<longleftrightarrow> (c < u \<longrightarrow> P c) \<and> (\<forall>q. c + 1 \<le> q \<and> q < u \<longrightarrow> P q)"
  by (metis add1_zle_eq order_le_less order.refl)

lemma scan_found:
  "scan_ports probe_tcp blocked c n = Inr p \<Longrightarrow>
   c \<le> p \<and> p < c + int n \<and> probe_tcp p \<and> p \<notin> set blocked \<and> (\<forall>q. c \<le> q \<and> q < p \<longrightarrow> q \<in> set blocked \<or> \<not> probe_tcp q)"
proof (induction n arbitrary: c)
  case (Suc n)
  show ?case
  proof (cases "c \<notin> set blocked \<and> probe_tcp c")
    case True
    then show ?thesis using Suc.prems by auto
  next
    case False
    then have "scan_ports probe_tcp blocked (c + 1) n = Inr p" using Suc.prems by (auto split: if_splits)
    from Suc.IH [OF this] False show ?thesis by (subst range_step) auto
  qed
qed simp

lemma scan_failed:
  "scan_ports probe_tcp blocked c n = Inl x \<Longrightarrow>
   x = PortConflictError \<and> (\<forall>q. c \<le> q \<and> q < c + int n \<longrightarrow> q \<in> set blocked \<or> \<not> probe_tcp q)"
proof (induction n arbitrary: c)
  case (Suc n)
  have no: "c \<in> set blocked \<or> \<not> probe_tcp c" using Suc.prems by auto
  then have "scan_ports probe_tcp blocked (c + 1) n = Inl x" using Suc.prems by (auto split: if_splits)
  from Suc.IH [OF this] no show ?case by (subst range_step) (auto simp: algebra_simps)
qed auto

lemma auto_port_found:
  assumes "auto_port probe_tcp r reserved pref allocated = Inr (p, a)"
  shows "a = p # allocated \<and> p \<notin> set allocated \<and> usable probe_tcp r reserved pref p"
proof -
  have p: "allocate_auto probe_tcp pref r (filter (\<lambda>p. p \<noteq> pref) reserved @ allocated) = Inr p" "a = p # allocated"
    using assms by (auto simp: auto_port_def bind_exn_Inr)
  from scan_found [OF p(1) [unfolded allocate_auto_def]] p(2) show ?thesis
    by (cases "0 \<le> r") (auto simp: usable_def)
qed

lemma auto_optional_found:
  assumes "auto_optional_port probe_tcp r reserved pref allocated = Inr (p, a)"
  shows "a = (case p of None \<Rightarrow> allocated | Some v \<Rightarrow> v # allocated) \<and>
    (case p of None \<Rightarrow> True | Some v \<Rightarrow> v \<notin> set allocated) \<and> rel_option (usable probe_tcp r reserved) pref p"
  using assms auto_port_found [of probe_tcp r reserved]
  by (auto simp: auto_optional_port_def bind_exn_Inr split: option.splits)

lemma endpoint_ports_found:
  assumes "endpoint_port_loop probe_tcp r reserved prefs allocated = Inr (ss, ms, a)"
  shows "set a = set allocated \<union> set ss \<union> set ms \<and> distinct (ss @ ms) \<and> (set ss \<union> set ms) \<inter> set allocated = {} \<and>
    list_all2 (usable probe_tcp r reserved) (map fst prefs) ss \<and> list_all2 (usable probe_tcp r reserved) (map snd prefs) ms"
  using assms
proof (induction prefs arbitrary: allocated ss ms)
  case (Cons q prefs)
  obtain s m where q: "q = (s, m)" by (cases q)
  from Cons.prems obtain sp a1 mp a2 ss' ms' where
    st: "auto_port probe_tcp r reserved s allocated = Inr (sp, a1)" "auto_port probe_tcp r reserved m a1 = Inr (mp, a2)"
      "endpoint_port_loop probe_tcp r reserved prefs a2 = Inr (ss', ms', a)" "ss = sp # ss'" "ms = mp # ms'"
    by (auto simp: q bind_exn_Inr)
  note f1 = auto_port_found [OF st(1)] and f2 = auto_port_found [OF st(2)] and f3 = Cons.IH [OF st(3)]
  show ?case using f1 f2 f3 by (auto simp: st(4,5) q)
qed simp

definition optional_ports :: "node_manager_ports \<Rightarrow> int list" where
  "optional_ports c = (if single_container_flag c
     then concat (map (\<lambda>p. case p of None \<Rightarrow> [] | Some v \<Rightarrow> [v]) [kv_port c, lookup_rpc_port c, dp_rpc_port c]) else [])"

definition used_ports :: "node_manager_ports \<Rightarrow> int list" where
  "used_ports c = node_manager_port c # service_ports c @ mgmt_ports c @ optional_ports c"

definition ports_usable :: "probe \<Rightarrow> int \<Rightarrow> node_manager_ports \<Rightarrow> node_manager_ports \<Rightarrow> bool" where
  "ports_usable probe_tcp r c c' \<longleftrightarrow>
     (let ok = usable probe_tcp r (reserved_ports c); n = min (length (service_ports c)) (length (mgmt_ports c))
      in ok (node_manager_port c) (node_manager_port c') \<and> list_all2 ok (take n (service_ports c)) (service_ports c') \<and>
         list_all2 ok (take n (mgmt_ports c)) (mgmt_ports c') \<and>
         (single_container_flag c \<longrightarrow> rel_option ok (kv_port c) (kv_port c') \<and>
            rel_option ok (lookup_rpc_port c) (lookup_rpc_port c') \<and> rel_option ok (dp_rpc_port c) (dp_rpc_port c')))"

lemma map_fst_zip_take: "map fst (zip xs ys) = take (min (length xs) (length ys)) xs"
  by (induction xs ys rule: list_induct2') auto

lemma map_snd_zip_take: "map snd (zip xs ys) = take (min (length xs) (length ys)) ys"
  by (induction xs ys rule: list_induct2') auto

section \<open>Properties\<close>

text \<open>
  The first usable port. The scan returns the smallest port of the range that is not blocked and can be bound, and it
  raises PortConflictError exactly when the range has none.
\<close>

theorem allocate_auto_least:
  "case allocate_auto probe_tcp port r skip of
     Inr p \<Rightarrow> port \<le> p \<and> p < port + r \<and> probe_tcp p \<and> p \<notin> set skip \<and>
       (\<forall>q. port \<le> q \<and> q < p \<longrightarrow> q \<in> set skip \<or> \<not> probe_tcp q)
   | Inl x \<Rightarrow> x = PortConflictError \<and> (\<forall>q. port \<le> q \<and> q < port + r \<longrightarrow> q \<in> set skip \<or> \<not> probe_tcp q)"
  using scan_found [of probe_tcp skip port "nat r"] scan_failed [of probe_tcp skip port "nat r"]
  by (cases "0 \<le> r") (auto simp: allocate_auto_def split: sum.split)

theorem allocate_auto_least_witness:
  "allocate_auto (\<lambda>p. p \<noteq> 1025) 1025 10 [1026] = Inr 1027"
proof -
  have "\<exists>p. allocate_auto (\<lambda>p. p \<noteq> 1025) 1025 10 [1026] = Inr p"
    by (simp add: allocate_auto_def numeral_eq_Suc)
  then obtain p where p: "allocate_auto (\<lambda>p. p \<noteq> 1025) 1025 10 [1026] = Inr p" ..
  with allocate_auto_least [where probe_tcp = "\<lambda>p. p \<noteq> 1025" and port = 1025 and r = 10 and skip = "[1026]"]
  have "1025 \<le> p" "p \<noteq> 1025" "p \<noteq> 1026" "\<not> 1027 < p" by (auto dest: spec [of _ 1027])
  with p show ?thesis by simp
qed

text \<open>
  The node manager's ports never collide. When the allocation succeeds, the ports handed out are pairwise distinct, each
  can be bound and lies in the scan range of its preference, and none is the preferred port of another use.
\<close>

theorem node_ports_distinct:
  assumes en: "pa_enable pac" and app: "apply_node_manager_ports probe_tcp pac c = Inr c'"
  shows "distinct (used_ports c') \<and> ports_usable probe_tcp (pa_scan_range pac) c c'"
proof -
  let ?r = "pa_scan_range pac" and ?res = "reserved_ports c"
  obtain nm a1 ss ms a2 where st: "auto_port probe_tcp ?r ?res (node_manager_port c) [] = Inr (nm, a1)"
      "endpoint_port_loop probe_tcp ?r ?res (zip (service_ports c) (mgmt_ports c)) a1 = Inr (ss, ms, a2)"
    using app en by (auto simp: apply_node_manager_ports_def Let_def bind_exn_Inr)
  note f = auto_port_found [OF st(1)] endpoint_ports_found [OF st(2), unfolded map_fst_zip_take map_snd_zip_take]
  let ?c1 = "c\<lparr>node_manager_port := nm, service_ports := ss, mgmt_ports := ms\<rparr>"
  show ?thesis
  proof (cases "single_container_flag c")
    case False
    then have "c' = ?c1" using app en st by (simp add: apply_node_manager_ports_def Let_def)
    with False f show ?thesis by (auto simp: used_ports_def optional_ports_def ports_usable_def Let_def)
  next
    case True
    obtain kv a3 lk a4 dp a5 where o: "auto_optional_port probe_tcp ?r ?res (kv_port c) a2 = Inr (kv, a3)"
        "auto_optional_port probe_tcp ?r ?res (lookup_rpc_port c) a3 = Inr (lk, a4)"
        "auto_optional_port probe_tcp ?r ?res (dp_rpc_port c) a4 = Inr (dp, a5)"
        "c' = ?c1\<lparr>kv_port := kv, lookup_rpc_port := lk, dp_rpc_port := dp\<rparr>"
      using app en st True by (auto simp: apply_node_manager_ports_def Let_def bind_exn_Inr)
    note g = auto_optional_found [OF o(1)] auto_optional_found [OF o(2)] auto_optional_found [OF o(3)]
    have "distinct (used_ports c')"
      using True f g by (cases kv; cases lk; cases dp) (auto simp: used_ports_def optional_ports_def o(4))
    with True f g show ?thesis by (auto simp: ports_usable_def Let_def o(4))
  qed
qed

theorem node_ports_distinct_witness:
  "\<exists>c'. apply_node_manager_ports (\<lambda>p. p \<noteq> 10000) \<lparr>pa_enable = True, pa_scan_range = 100\<rparr>
      \<lparr>node_manager_port = 10000, service_ports = [10001], mgmt_ports = [10002], single_container_flag = False, kv_port = None,
       lookup_rpc_port = None, dp_rpc_port = None\<rparr> = Inr c' \<and> distinct (used_ports c')"
proof -
  let ?c = "\<lparr>node_manager_port = 10000, service_ports = [10001], mgmt_ports = [10002], single_container_flag = False, kv_port = None,
       lookup_rpc_port = None, dp_rpc_port = None\<rparr>" and ?pac = "\<lparr>pa_enable = True, pa_scan_range = 100\<rparr>"
  obtain c' where c': "apply_node_manager_ports (\<lambda>p. p \<noteq> 10000) ?pac ?c = Inr c'"
    by (simp add: apply_node_manager_ports_def auto_port_def allocate_auto_def reserved_ports_def numeral_eq_Suc)
  with node_ports_distinct [OF _ c'] show ?thesis by auto
qed

text \<open>
  The coordinator's ports can collide. The management port is scanned without the inference port that was allocated just
  before; since a probe releases the port again, a busy preferred management port can be replaced by the inference port itself.
\<close>

theorem coordinator_ports_can_collide:
  "\<exists>c'. apply_coordinator_ports (\<lambda>p. p \<noteq> 1026) \<lparr>pa_enable = True, pa_scan_range = 100\<rparr>
      \<lparr>coordinator_api_infer_port = 1027, coordinator_api_mgmt_port = 1026, coordinator_obs_port = 1028,
       conductor_service = [], http_server_port = 13333\<rparr> = Inr c' \<and>
    coordinator_api_mgmt_port c' = coordinator_api_infer_port c'"
  by (simp add: apply_coordinator_ports_def allocate_strict_def allocate_auto_def Let_def numeral_eq_Suc)

end
