(* ===== verification/Spec2Isabelle.thy ===== *)
theory Spec2Isabelle
  imports
    Allocation_Correctness
    Precision_Correctness
    Kv_Affinity
    Rate_Limiter
    Request_Manager
    Assembler_Properties
    Lock_Order
    Block_Offsets_Correctness
    Scale_P2D
    Recovery_Service
    Worker_Convergence
    Worker_Channel
    Release_Correctness
    Router_Retry
    Stream_Response
    Sched_Transport
    Zmq_Protocol
    Event_Pusher
    Alarm_Store
    Port_Allocator
begin

text \<open>
  A verification library for PyMotor, the control plane of a prefill/decode-disaggregated inference
  service (Python, \<^verbatim>\<open>src/motor/\<close>).

  \<^bold>\<open>The program.\<close> A \<^emph>\<open>controller\<close> assembles the pods that node managers register into \<^emph>\<open>instances\<close>
  (groups of endpoints with one role), watches their heartbeats and tells the \<^emph>\<open>coordinator\<close> which
  instances are up. The coordinator admits requests, chooses an instance and an endpoint for each, keeps the
  load ledger and trips circuit breakers. Its scheduler process owns the pools and the ledger and
  publishes the loads in shared memory; its worker processes read that memory without locks.

  \<^bold>\<open>Conventions\<close> (\<open>Motor_Prelude\<close>). Dictionaries are association lists in insertion order, exceptions are
  values of \<open>py_exn\<close>, floats are exact rationals, integers are \<open>int\<close>, the clock and every answer from
  outside (node managers, engines, files, random numbers, SHA-256) are arguments. Objects that are shared between components live in a store and are
  named by references. A public operation, or one pass of a background loop over one object, is one
  atomic step, except in \<open>Seqlock\<close>, \<open>Lock_Order\<close>, \<open>Release_Correctness\<close> and \<open>Stream_Response\<close>, where the interleaving is the subject.

  \<^bold>\<open>Resources.\<close>
  \<^item> \<open>Endpoint_Model\<close>, \<open>Instance_Model\<close>: \<^verbatim>\<open>common/resources/endpoint.py\<close> and \<^verbatim>\<open>instance.py\<close>. The cached
    endpoint tuple is never stale.
  \<^item> \<open>Py_Strings\<close>, \<open>Request_Fields\<close>: the string operations and the optional request fields the components use.

  \<^bold>\<open>Coordinator.\<close>
  \<^item> \<open>Coordinator_Pools\<close> models \<^verbatim>\<open>coordinator/domain/instance_manager.py\<close>: the pools, the role pools, the
    endpoint index and the ledger. \<open>Pool_Ledger\<close>, \<open>Pool_Invariant\<close>, \<open>Pool_Properties\<close> and \<open>Pool_Correctness\<close> show
    that pools stay disjoint, that the aggregate load of an instance is the sum over its endpoints in every reachable state, that
    allocate and release cancel, that a SET event reconciles the pools, and that the index answers like a scan.
  \<^item> \<open>Circuit_Breaker\<close>: \<^verbatim>\<open>domain/circuit_breaker.py\<close> with the handlers of the scheduler around it; refinement
    of a two-phase automaton, bounds of the backoff, recovery.
  \<^item> \<open>Scheduling_Policy\<close>, \<open>Scheduling_Properties\<close>, \<open>Kv_Affinity\<close>: \<^verbatim>\<open>scheduler/policy/\<close>; optimality of the load-balance ranking,
    fairness of round robin, the gate of the affinity mode.
  \<^item> \<open>Allocation\<close>, \<open>Allocation_Correctness\<close>: the request handlers of \<^verbatim>\<open>scheduler/runtime/scheduler_server.py\<close>; what an
    allocation commits, the invariant of the scheduler process, idempotence of updates. The locale \<open>best_of\<close> is the contract of a
    candidate selection, interpreted for the load and the affinity order.
  \<^item> \<open>Shm_Layout\<close>, \<open>Workload_Shm\<close>, \<open>Seqlock\<close>, \<open>Shm_Publication\<close>: \<^verbatim>\<open>scheduler/runtime/workload_shm/\<close>; round trip of the
    byte layout, atomic snapshots under any interleaving of loads and stores, termination of the reader, and agreement of table and ledger.
  \<^item> \<open>Worker_Cache\<close>, \<open>Worker_Correctness\<close>, \<open>Worker_Convergence\<close>, \<open>Scheduler_Client\<close>, \<open>Worker_Channel\<close>: the worker side of the scheduler,
    \<^verbatim>\<open>scheduler/runtime/scheduler_client.py\<close>: the instance cache and its updates, the selection with its fallbacks, allocation, and the channels for changes
    and precision state. The cache converges to the scheduler's pool however notifications are lost or reordered, and a load-balancing worker with
    an up-to-date view is always served.
  \<^item> \<open>Sched_Transport\<close>, \<open>Zmq_Protocol\<close>: the request channel of the client and the messages of \<^verbatim>\<open>scheduler/runtime/zmq_protocol.py\<close>; responses
    reach the request they belong to, and messages with large parts in frames of their own are read back unchanged.
  \<^item> \<open>Router_Attempt\<close>, \<open>Router_Release\<close>, \<open>Release_Correctness\<close>: the attempts of a request in \<^verbatim>\<open>router/dispatch_session.py\<close>, \<^verbatim>\<open>router/workload.py\<close>
    and \<^verbatim>\<open>router/strategies/unified_pd.py\<close>, and the tasks that give their load back. Router, network and the scheduler of \<open>Allocation\<close> are composed: messages may
    be lost, repeated or reordered and tasks cancelled, and every release is applied at most once and with the load that was allotted. The run is restricted to
    what the code assumes: the operation ids of a request stay in the scheduler's window, and no leg is allotted twice.
  \<^item> \<open>Router_Retry\<close>: the retry loops of \<^verbatim>\<open>unified_pd.py\<close>. The locale \<open>retry_loop\<close> is a bounded loop that is decided by one of its attempts, interpreted for
    requests with and without streaming; output that was sent is never repeated.
  \<^item> \<open>Upstream_Http\<close>, \<open>Stream_Response\<close>: \<^verbatim>\<open>router/upstream_error.py\<close>, the framing of streamed bytes in \<^verbatim>\<open>router/strategies/base.py\<close> and
    \<^verbatim>\<open>router/stream_response.py\<close>; frames do not depend on the chunks of the network, and the messages to the client follow the protocol of a response whatever
    the interleaving of the two coroutines.
  \<^item> \<open>Precision_Alarm\<close>, \<open>Precision_Correctness\<close>: the precision state of \<^verbatim>\<open>scheduler/scheduler.py\<close>; refinement of an automaton per group.
  \<^item> \<open>Rate_Limiter\<close>, \<open>Request_Manager\<close>: \<^verbatim>\<open>middleware/rate_limiter.py\<close>, \<^verbatim>\<open>domain/request_manager.py\<close>.
  \<^item> \<open>Agent_Hint\<close>, \<open>Message_Preprocess\<close>, \<open>Block_Offsets\<close>, \<open>Block_Offsets_Correctness\<close>: \<^verbatim>\<open>domain/agent_hint.py\<close>,
    \<^verbatim>\<open>scheduler/policy/utils.py\<close> and \<^verbatim>\<open>domain/block_offset_translator.py\<close>; parsed hints are in range, the marker scan computes the ends of the
    messages of a reference rendering, and the coordinates in the hint and in the request data agree.

  \<^bold>\<open>Controller.\<close>
  \<^item> \<open>Controller_Manager\<close>, \<open>Controller_Properties\<close>, \<open>Controller_Correctness\<close>: \<^verbatim>\<open>controller/core/instance_manager.py\<close>; the handlers refine
    the transition table, separated instances never become active, heartbeats and time-outs, persistence.
  \<^item> \<open>Event_Pusher\<close>: \<^verbatim>\<open>controller/core/event_pusher.py\<close>; the pusher mirrors the active instances.
  \<^item> \<open>Assembler\<close>, \<open>Assembler_Correctness\<close>, \<open>Assembler_Properties\<close>: \<^verbatim>\<open>controller/core/instance_assembler.py\<close>, which shares the
    instance objects with the manager; the invariant of both together, fresh ids, the numbering of a cold start, the outcome
    of each visit, completeness and bounded retry of the start commands. \<open>Config_Resolver\<close>: \<^verbatim>\<open>config/resolver.py\<close>, which it reads.
  \<^item> \<open>Lock_Order\<close>: the locks of the assembler as interleaved threads; which operations can deadlock and which cannot.
  \<^item> \<open>Fault_Types\<close>, \<open>Fault_Manager\<close>, \<open>Fault_Correctness\<close>, \<open>Fault_Properties\<close>: \<^verbatim>\<open>controller/fault_tolerance/\<close>; the pair of
    instance manager and fault manager, which call each other. The level of an instance is the greatest of its faults, and an instance above
    L2 is isolated in every reachable state.
  \<^item> \<open>Scale_P2D\<close>, \<open>Recovery_Service\<close>: \<^verbatim>\<open>fault_tolerance/strategy/scale_p2d.py\<close>, \<^verbatim>\<open>controller/core/recovery_service.py\<close> and the
    handlers of \<^verbatim>\<open>api_server/controller_api.py\<close> around them; when and which prefill instances are given up, what terminating an
    instance leaves behind, and that a precision alarm is stored or recovered.
  \<^item> \<open>Alarm_Store\<close>, \<open>Port_Allocator\<close>: \<^verbatim>\<open>controller/observability/alarm/alarm_store.py\<close>, \<^verbatim>\<open>common/utils/port_allocator.py\<close>.

  \<^bold>\<open>Bounds.\<close> Only \<open>resolve_refs\<close> of \<open>Zmq_Protocol\<close> has fuel, the interpreter's bound on recursion: a message that refers to itself would
  never be resolved, and the depth of a message plus one is enough. Otherwise every loop is structural recursion or a fold over the list that the code iterates, and the
  bounded loops of the code (the reader's retries, the port scan) recurse on their own counters.

  \<^bold>\<open>Not modelled.\<close> The HTTP servers and clients, process supervision, certificates and logging
  are input and output around the decisions above. Of the router, the concurrent legs of an attempt, the hybrid strategy, the replay of tokens and the JSON bodies of the engine
  protocols are left out. The Prometheus metrics, the configuration dataclasses, the engine adapters and the
  tokenizer-dependent parts of the affinity policy are not part of the library yet. The KV conductor is a separate Rust service.
\<close>

end
